(* ===== verification/Prelude.thy ===== *)
theory Prelude
  imports Main "HOL-Library.AList" "HOL-Library.Char_ord" "HOL-Library.List_Lexorder"
begin

text \<open>
  What the components share: the JavaScript values and containers they use, the string
  operations, the SQL pattern operator, and the interfaces that more than one component
  provides.

  \<^item> A JavaScript \<open>Map\<close> iterates in insertion order and \<open>set\<close> on an existing key keeps
    its place: it is an association list with \<open>AList.update\<close>, \<open>AList.delete\<close> and \<open>map_of\<close>.
  \<^item> A JavaScript \<open>Set\<close> is a list extended by \<open>js_add\<close>.
  \<^item> A string is a list of characters. A value of type \<open>unknown\<close> is a \<open>json\<close> value.
  \<^item> An optional property is an option, and \<open>undefined\<close> is \<open>None\<close>.
  \<^item> A time is an integer number of milliseconds, given to each operation by its caller
    in place of \<open>new Date()\<close>.
\<close>

section \<open>Fact collections\<close>

named_theorems store_simps \<open>what a lookup returns after an update of a store\<close>
named_theorems frame_simps \<open>the parts of the state an operation leaves alone\<close>

section \<open>Values\<close>

datatype json =
    JNull
  | JBool bool
  | JNum int
  | JStr string
  | JArr "json list"
  | JObj "(string \<times> json) list"

text \<open>A property whose value is undefined is left out of an object.\<close>

definition opt_prop :: "string \<Rightarrow> json option \<Rightarrow> (string \<times> json) list" where
  "opt_prop k v = (case v of None \<Rightarrow> [] | Some x \<Rightarrow> [(k, x)])"

text \<open>\<open>a || b\<close> on strings: the empty string and undefined both give way to \<open>b\<close>.\<close>

definition str_or :: "string option \<Rightarrow> string \<Rightarrow> string" where
  "str_or a b = (case a of None \<Rightarrow> b | Some s \<Rightarrow> if s = [] then b else s)"

text \<open>\<open>a ?? b\<close>.\<close>

definition nullish :: "'a option \<Rightarrow> 'a \<Rightarrow> 'a" where
  "nullish a b = (case a of None \<Rightarrow> b | Some x \<Rightarrow> x)"

definition nullish_opt :: "'a option \<Rightarrow> 'a option \<Rightarrow> 'a option" where
  "nullish_opt a b = (case a of None \<Rightarrow> b | Some x \<Rightarrow> Some x)"

lemma nullish_simps [simp]:
  "nullish None b = b" "nullish (Some x) b = x"
  "nullish_opt None c = c" "nullish_opt (Some x) c = Some x"
  by (simp_all add: nullish_def nullish_opt_def)

text \<open>A string counts as present when it is given and not empty.\<close>

definition truthy :: "string option \<Rightarrow> bool" where
  "truthy a \<longleftrightarrow> (\<exists>s. a = Some s \<and> s \<noteq> [])"

lemma truthy_code [code, simp]: "truthy None = False" "truthy (Some s) = (s \<noteq> [])"
  by (simp_all add: truthy_def)

text \<open>\<open>{ valid: true }\<close> or \<open>{ valid: false, errors }\<close>, as every validator answers.\<close>

datatype 'e verdict = Valid | Rejected "'e list"

definition verdict_of :: "'e list \<Rightarrow> 'e verdict" where
  "verdict_of errors = (if errors \<noteq> [] then Rejected errors else Valid)"

lemma verdict_of_Valid [simp]: "verdict_of es = Valid \<longleftrightarrow> es = []"
  by (simp add: verdict_of_def)

lemma verdict_of_Rejected [simp]: "verdict_of es = Rejected fs \<longleftrightarrow> es = fs \<and> es \<noteq> []"
  by (auto simp: verdict_of_def)

section \<open>Sets and lists\<close>

definition js_add :: "'a \<Rightarrow> 'a list \<Rightarrow> 'a list" where
  "js_add x xs = (if x \<in> set xs then xs else xs @ [x])"

lemma set_js_add [simp]: "set (js_add x xs) = insert x (set xs)"
  by (auto simp: js_add_def)

lemma distinct_js_add [simp]: "distinct (js_add x xs) = distinct xs"
  by (simp add: js_add_def)

text \<open>\<open>[...new Set(xs)]\<close>: the first occurrences, in order.\<close>

definition js_unique :: "'a list \<Rightarrow> 'a list" where
  "js_unique xs = foldl (\<lambda>acc x. js_add x acc) [] xs"

lemma js_unique_acc:
  "set (foldl (\<lambda>acc x. js_add x acc) acc xs) = set acc \<union> set xs"
  "distinct (foldl (\<lambda>acc x. js_add x acc) acc xs) = distinct acc"
  by (induction xs arbitrary: acc) auto

lemma set_js_unique [simp]: "set (js_unique xs) = set xs"
  by (simp add: js_unique_def js_unique_acc)

lemma distinct_js_unique [simp]: "distinct (js_unique xs)"
  by (simp add: js_unique_def js_unique_acc)

lemma find_None_iff_all: "List.find P xs = None \<longleftrightarrow> (\<forall>x \<in> set xs. \<not> P x)"
  by (auto simp: find_None_iff)

lemma find_SomeD: "List.find P xs = Some x \<Longrightarrow> x \<in> set xs \<and> P x"
  by (auto simp: find_Some_iff)

text \<open>With distinct keys, the first match is the only match.\<close>

lemma find_distinct_key:
  assumes "distinct (map f xs)"
  shows "List.find (\<lambda>x. f x = k) xs = Some y \<longleftrightarrow> y \<in> set xs \<and> f y = k"
  using assms
proof (induction xs)
  case Nil
  show ?case by simp
next
  case (Cons x xs)
  then have IH: "List.find (\<lambda>x. f x = k) xs = Some y \<longleftrightarrow> y \<in> set xs \<and> f y = k" by simp
  from Cons.prems have "f x \<notin> f ` set xs" by simp
  then have only: "y \<in> set xs \<Longrightarrow> f y \<noteq> f x" by (metis imageI)
  show ?case
    by (cases "f x = k") (use IH only in auto)
qed

lemma case_option_Inr:
  "(case m of None \<Rightarrow> Inl e | Some t \<Rightarrow> Inr (g t)) = Inr q \<longleftrightarrow> (\<exists>t. m = Some t \<and> g t = q)"
  by (cases m) simp_all

lemma insort_key_map: "(\<And>x. k (f x) = k x) \<Longrightarrow> insort_key k (f x) (map f xs) = map f (insort_key k x xs)"
  by (induction xs) simp_all

lemma sort_key_map: "(\<And>x. k (f x) = k x) \<Longrightarrow> sort_key k (map f xs) = map f (sort_key k xs)"
  by (induction xs) (simp_all add: insort_key_map)

lemma find_append: "List.find P (xs @ ys) = (case List.find P xs of None \<Rightarrow> List.find P ys | Some x \<Rightarrow> Some x)"
  by (induction xs) simp_all

section \<open>Strings\<close>

definition starts_with :: "string \<Rightarrow> string \<Rightarrow> bool" where
  "starts_with s p \<longleftrightarrow> take (length p) s = p"

fun str_includes :: "string \<Rightarrow> string \<Rightarrow> bool" where
  "str_includes [] t = (t = [])"
| "str_includes (c # cs) t = (starts_with (c # cs) t \<or> str_includes cs t)"

definition char_code :: "char \<Rightarrow> nat" where
  "char_code c = of_char c"

definition is_lower :: "char \<Rightarrow> bool" where
  "is_lower c \<longleftrightarrow> 97 \<le> char_code c \<and> char_code c \<le> 122"

definition is_upper :: "char \<Rightarrow> bool" where
  "is_upper c \<longleftrightarrow> 65 \<le> char_code c \<and> char_code c \<le> 90"

definition is_digit :: "char \<Rightarrow> bool" where
  "is_digit c \<longleftrightarrow> 48 \<le> char_code c \<and> char_code c \<le> 57"

definition to_lower :: "char \<Rightarrow> char" where
  "to_lower c = (if is_upper c then char_of (char_code c + 32) else c)"

text \<open>\<open>toLowerCase\<close> on the characters of one byte: capital letters with accents have their own small letters.\<close>

definition js_lower :: "char \<Rightarrow> char" where
  "js_lower c = (if is_upper c \<or> 192 \<le> char_code c \<and> char_code c \<le> 222 \<and> char_code c \<noteq> 215
     then char_of (char_code c + 32) else c)"

definition lower_case :: "string \<Rightarrow> string" where
  "lower_case s = map js_lower s"

text \<open>The decimal text of a number, as template strings and SQL text columns show it.\<close>

fun nat_str :: "nat \<Rightarrow> string" where
  "nat_str n = (if n < 10 then [char_of (48 + n)] else nat_str (n div 10) @ [char_of (48 + n mod 10)])"

declare nat_str.simps [simp del]

lemma nat_str_nonempty [simp]: "nat_str n \<noteq> []"
  by (subst nat_str.simps) simp

lemma char_code_char_of [simp]: "n < 256 \<Longrightarrow> char_code (char_of (n :: nat)) = n"
  by (simp add: char_code_def)

lemma digit_char: "n < 10 \<Longrightarrow> is_digit (char_of (48 + n :: nat))"
  by (simp add: is_digit_def)

lemma nat_str_digits: "c \<in> set (nat_str n) \<Longrightarrow> is_digit c"
proof (induction n rule: nat_str.induct)
  case (1 n)
  show ?case
  proof (cases "n < 10")
    case True
    with "1.prems" show ?thesis by (simp add: nat_str.simps [of n] digit_char)
  next
    case False
    with "1.prems" consider "c \<in> set (nat_str (n div 10))" | "c = char_of (48 + n mod 10)"
      by (auto simp: nat_str.simps [of n])
    then show ?thesis
      using "1.IH" [OF False] digit_char [of "n mod 10"] by cases auto
  qed
qed

lemma nat_str_no_colon: "CHR '':'' \<notin> set (nat_str n)"
  using nat_str_digits [of "CHR '':''" n] by (auto simp: is_digit_def char_code_def)

lemma digit_char_inj:
  assumes "(char_of (48 + m :: nat) :: char) = char_of (48 + n :: nat)" and "m < 10" and "n < 10"
  shows "m = n"
proof -
  have "char_code (char_of (48 + m :: nat)) = char_code (char_of (48 + n :: nat))"
    by (simp only: assms(1))
  with assms(2,3) show ?thesis by simp
qed

lemma nat_str_inj: "nat_str m = nat_str n \<Longrightarrow> m = n"
proof (induction m arbitrary: n rule: nat_str.induct)
  case (1 m)
  show ?case
  proof (cases "m < 10 \<or> n < 10")
    case True
    then have both: "m < 10 \<and> n < 10"
      using "1.prems" nat_str_nonempty [of "m div 10"] nat_str_nonempty [of "n div 10"]
      by (auto simp: nat_str.simps [of m] nat_str.simps [of n] simp del: nat_str_nonempty
          split: if_splits)
    with "1.prems" have "(char_of (48 + m) :: char) = char_of (48 + n)"
      by (simp add: nat_str.simps [of m] nat_str.simps [of n])
    with both show ?thesis by (blast intro: digit_char_inj)
  next
    case False
    then have parts: "nat_str (m div 10) = nat_str (n div 10)"
        "(char_of (48 + m mod 10) :: char) = char_of (48 + n mod 10)"
      using "1.prems" by (simp_all add: nat_str.simps [of m] nat_str.simps [of n])
    have "m div 10 = n div 10"
      using "1.IH" [OF _ parts(1)] False by simp
    moreover have "m mod 10 = n mod 10"
      using digit_char_inj [OF parts(2)] by simp
    ultimately show ?thesis by (metis div_mult_mod_eq)
  qed
qed

lemma last_separator:
  assumes "xs @ c # a = ys @ c # b" and "c \<notin> set a" and "c \<notin> set b"
  shows "xs = ys \<and> a = b"
proof -
  from assms(1) obtain us where
    "xs = ys @ us \<and> us @ c # a = c # b \<or> ys = xs @ us \<and> c # a = us @ c # b"
    unfolding append_eq_append_conv2 by blast
  then show ?thesis
    using assms(2,3) by (cases us) (auto simp: Cons_eq_append_conv)
qed

lemma digits_suffix_unique:
  "xs @ CHR '':'' # nat_str m = ys @ CHR '':'' # nat_str n \<Longrightarrow> xs = ys \<and> m = n"
  using last_separator [of xs "CHR '':''" "nat_str m" ys "nat_str n"]
  by (auto simp: nat_str_no_colon dest: nat_str_inj)

definition int_str :: "int \<Rightarrow> string" where
  "int_str z = (if z < 0 then CHR ''-'' # nat_str (nat (- z)) else nat_str (nat z))"

lemma nat_str_no_minus: "CHR ''-'' \<notin> set (nat_str n)"
  using nat_str_digits [of "CHR ''-''" n] by (auto simp: is_digit_def char_code_def)

lemma int_str_no_colon: "CHR '':'' \<notin> set (int_str z)"
  by (simp add: int_str_def nat_str_no_colon)

lemma int_str_inj: "int_str y = int_str z \<Longrightarrow> y = z"
  using nat_str_no_minus [of "nat y"] nat_str_no_minus [of "nat z"]
  by (auto simp: int_str_def dest!: nat_str_inj split: if_splits)
    (metis list.set_intros(1))+

text \<open>\<open>n.toString(16)\<close> of a byte, padded to two digits.\<close>

definition hex_digit :: "nat \<Rightarrow> char" where
  "hex_digit d = char_of (if d < 10 then 48 + d else 87 + d)"

definition byte_hex :: "nat \<Rightarrow> string" where
  "byte_hex b = [hex_digit (b div 16), hex_digit (b mod 16)]"

text \<open>\<open>JSON.stringify\<close> without indentation.\<close>

definition json_escape :: "char \<Rightarrow> string" where
  "json_escape c =
     (let n = char_code c; bs = char_of (92 :: nat) in
      if n = 34 \<or> n = 92 then [bs, c]
      else if n = 8 then [bs, CHR ''b''] else if n = 9 then [bs, CHR ''t'']
      else if n = 10 then [bs, CHR ''n''] else if n = 12 then [bs, CHR ''f'']
      else if n = 13 then [bs, CHR ''r'']
      else if n < 32 then bs # ''u00'' @ byte_hex n
      else [c])"

definition json_quote :: "string \<Rightarrow> string" where
  "json_quote s = char_of (34 :: nat) # concat (map json_escape s) @ [char_of (34 :: nat)]"

fun join :: "string \<Rightarrow> string list \<Rightarrow> string" where
  "join sep [] = []"
| "join sep [x] = x"
| "join sep (x # y # ys) = x @ sep @ join sep (y # ys)"

fun json_str :: "json \<Rightarrow> string" where
  "json_str JNull = ''null''"
| "json_str (JBool b) = (if b then ''true'' else ''false'')"
| "json_str (JNum n) = int_str n"
| "json_str (JStr s) = json_quote s"
| "json_str (JArr xs) = ''['' @ join '','' (map json_str xs) @ '']''"
| "json_str (JObj ps) =
     ''{'' @ join '','' (map (\<lambda>p. json_quote (fst p) @ '':'' @ json_str (snd p)) ps) @ ''}''"

text \<open>\<open>xs.slice(0, n)\<close>: a negative \<open>n\<close> counts from the end.\<close>

definition slice0 :: "int \<Rightarrow> 'a list \<Rightarrow> 'a list" where
  "slice0 n xs = take (nat (if n < 0 then int (length xs) + n else n)) xs"

text \<open>
  SQL \<open>LIKE\<close> (SQLite): \<open>%\<close> stands for any text, \<open>_\<close> for one character, and letters are
  compared without regard to ASCII case.
\<close>

fun sql_like :: "string \<Rightarrow> string \<Rightarrow> bool" where
  "sql_like [] s = (s = [])"
| "sql_like (p # ps) [] = (p = CHR ''%'' \<and> sql_like ps [])"
| "sql_like (p # ps) (c # cs) =
     (if p = CHR ''%'' then sql_like ps (c # cs) \<or> sql_like (p # ps) cs
      else (p = CHR ''_'' \<or> to_lower p = to_lower c) \<and> sql_like ps cs)"

lemma sql_like_percent: "sql_like [CHR ''%''] s"
  by (induction s) auto

lemma sql_like_absorb: "sql_like ps s \<Longrightarrow> sql_like (CHR ''%'' # ps) s"
  by (cases s) auto

lemma sql_like_prefix: "sql_like (p @ [CHR ''%'']) (p @ s)"
proof (induction p)
  case Nil
  show ?case by (simp add: sql_like_percent)
next
  case (Cons c cs)
  then show ?case by (auto intro: sql_like_absorb)
qed

section \<open>Interfaces\<close>

text \<open>
  A keyed store: what a client may rely on when it puts, deletes and looks up. Every
  repository of the program and each of its indexes is one.
\<close>

locale keyed_store =
  fixes get :: "'s \<Rightarrow> 'k \<Rightarrow> 'v option"
    and put :: "'k \<Rightarrow> 'v \<Rightarrow> 's \<Rightarrow> 's"
    and del :: "'k \<Rightarrow> 's \<Rightarrow> 's"
  assumes get_put: "get (put k v s) k' = (if k' = k then Some v else get s k')"
    and get_del: "get (del k s) k' = (if k' = k then None else get s k')"
begin

lemma get_put_same: "get (put k v s) k = Some v"
  by (simp add: get_put)

lemma get_put_other: "k' \<noteq> k \<Longrightarrow> get (put k v s) k' = get s k'"
  by (simp add: get_put)

lemma get_del_same: "get (del k s) k = None"
  by (simp add: get_del)

lemma put_put_last: "get (put k w (put k v s)) = get (put k w s)"
  by (rule ext) (simp add: get_put)

lemma get_fold_put:
  "get (foldl (\<lambda>t x. put (key x) (val x) t) s xs) k =
     (case List.find (\<lambda>x. key x = k) (rev xs) of None \<Rightarrow> get s k | Some x \<Rightarrow> Some (val x))"
proof (induction xs rule: rev_induct)
  case Nil
  show ?case by simp
next
  case (snoc x xs)
  then show ?case by (simp add: get_put)
qed

end

text \<open>The JavaScript \<open>Map\<close>.\<close>

lemma map_of_update [store_simps]:
  "map_of (AList.update k v m) k' = (if k' = k then Some v else map_of m k')"
  by (simp add: update_conv')

lemma map_of_delete [store_simps]:
  "map_of (AList.delete k m) k' = (if k' = k then None else map_of m k')"
  by (simp add: delete_conv')

interpretation jsm: keyed_store map_of AList.update AList.delete
  by unfold_locales (simp_all add: store_simps)

text \<open>
  A counter per key that no operation of its owner lowers: versions of aggregates, fencing
  tokens of worktrees.
\<close>

locale monotone_counter =
  fixes count :: "'s \<Rightarrow> 'k \<Rightarrow> int"
    and step :: "'x \<Rightarrow> 's \<Rightarrow> 's"
  assumes never_down: "count s k \<le> count (step x s) k"
begin

primrec run :: "'s \<Rightarrow> 'x list \<Rightarrow> 's" where
  "run s [] = s"
| "run s (x # xs) = run (step x s) xs"

lemma run_mono: "count s k \<le> count (run s xs) k"
proof (induction xs arbitrary: s)
  case Nil
  show ?case by simp
next
  case (Cons x xs)
  from never_down [of s k x] Cons [of "step x s"] show ?case by simp
qed

lemma run_append: "run s (xs @ ys) = run (run s xs) ys"
  by (induction xs arbitrary: s) simp_all

end

text \<open>
  Optimistic concurrency: an operation names the version it expects to change, and is
  applied only when that is still the version stored under its key.
\<close>

locale optimistic_store =
  fixes version :: "'s \<Rightarrow> 'k \<Rightarrow> int"
    and attempt :: "'s \<Rightarrow> 'k \<Rightarrow> int \<Rightarrow> 'a \<Rightarrow> 's option"
  assumes applied: "attempt s k e a = Some s' \<Longrightarrow> version s k = e \<and> e < version s' k"
    and elsewhere: "attempt s k e a = Some s' \<Longrightarrow> k' \<noteq> k \<Longrightarrow> version s' k' = version s k'"
begin

definition try_once :: "'k \<times> int \<times> 'a \<Rightarrow> 's \<Rightarrow> 's" where
  "try_once x s = (case attempt s (fst x) (fst (snd x)) (snd (snd x)) of None \<Rightarrow> s | Some s' \<Rightarrow> s')"

lemma attempt_mono: "attempt s k e a = Some s' \<Longrightarrow> version s j \<le> version s' j"
  by (cases "j = k") (auto dest: applied elsewhere)

lemma try_once_mono: "version s j \<le> version (try_once x s) j"
  by (auto simp: try_once_def dest: attempt_mono split: option.split)

end

sublocale optimistic_store \<subseteq> tried: monotone_counter version try_once
  by unfold_locales (rule try_once_mono)

context optimistic_store begin

lemma one_winner:
  assumes "attempt s k e a = Some s'"
  shows "attempt (tried.run s' xs) k e b = None"
proof (rule ccontr)
  assume "attempt (tried.run s' xs) k e b \<noteq> None"
  then obtain t where "attempt (tried.run s' xs) k e b = Some t" by blast
  then have "version (tried.run s' xs) k = e" by (blast dest: applied)
  moreover have "e < version s' k" using assms by (blast dest: applied)
  moreover have "version s' k \<le> version (tried.run s' xs) k" by (rule tried.run_mono)
  ultimately show False by simp
qed

end

text \<open>
  A machine of phases: legal edges between phases, some of them terminal. A run moves along
  legal edges only, so it never leaves a terminal phase.
\<close>

locale phase_machine =
  fixes legal :: "'p \<Rightarrow> 'p \<Rightarrow> bool"
    and final :: "'p \<Rightarrow> bool"
  assumes final_stuck: "final p \<Longrightarrow> legal p q \<Longrightarrow> q = p"
begin

inductive path :: "'p \<Rightarrow> 'p list \<Rightarrow> bool" where
  stop: "path p []"
| move: "legal p q \<Longrightarrow> path q qs \<Longrightarrow> path p (q # qs)"

lemma path_from_final: "path p qs \<Longrightarrow> final p \<Longrightarrow> set qs \<subseteq> {p}"
  by (induction rule: path.induct) (auto dest: final_stuck)

lemma path_snoc: "path p (qs @ [q, r]) \<Longrightarrow> legal q r"
  by (induction qs arbitrary: p) (auto elim: path.cases)

end

end
