(* ===== verification/Runtime_Events.thy ===== *)
theory Runtime_Events
  imports Prelude
begin

text \<open>
  The event records of the durable runtime (\<open>src/src/domain/orchestration/runtime\<close>):
  the base envelope of \<open>events/envelope.ts\<close>, the uncommitted and persisted events of
  \<open>event-store/types.ts\<close>, and the contracts \<open>event-store/port.ts\<close> states over them.
\<close>

section \<open>The base envelope (events/envelope.ts)\<close>

record domain_event =
  de_id :: string
  de_aggregateId :: string
  de_aggregateVersion :: int
  de_globalSequence :: "int option"
  de_type :: string
  de_payloadVersion :: string
  de_payload :: json
  de_causationId :: "string option"
  de_correlationId :: string
  de_commandId :: "string option"
  de_createdAt :: int
  de_createdAtTs :: int

section \<open>Events of the store (event-store/types.ts)\<close>

record uncommitted_event =
  ue_eventId :: "string option"
  ue_eventType :: string
  ue_aggregateId :: string
  ue_aggregateVersion :: int
  ue_payload :: "json option"
  ue_metadata :: "json option"
  ue_commandId :: "string option"
  ue_correlationId :: "string option"
  ue_createdAt :: "int option"

record persisted_event =
  pe_eventId :: string
  pe_event :: json
  pe_eventType :: string
  pe_aggregateId :: string
  pe_aggregateVersion :: int
  pe_globalSequence :: int
  pe_timestamp :: int
  pe_payloadHash :: string
  pe_checksum :: string
  pe_committedAt :: int
  pe_createdAt :: int
  pe_metadata :: "json option"
  pe_commandId :: "string option"
  pe_correlationId :: "string option"

definition current_payload_version :: string where
  "current_payload_version = ''1.0''"

section \<open>Results of the store's port (event-store/port.ts)\<close>

datatype concurrency_kind = STALE_VERSION | FUTURE_VERSION | VERSION_GAP

record concurrency_error =
  ce_kind :: concurrency_kind
  ce_aggregateId :: string
  ce_expectedVersion :: int
  ce_actualVersion :: int

record append_result =
  ar_appendedCount :: nat
  ar_nextExpectedVersion :: int
  ar_sequenceNumberStart :: int
  ar_events :: "persisted_event list"

datatype duplicate_check =
    NotDuplicate
  | DuplicateCommand string
  | DuplicateEvent persisted_event

record stream_options =
  so_fromRevision :: "int option"
  so_toRevision :: "int option"
  so_limit :: "int option"
  so_resolveProjection :: "bool option"

end
