(* ===== verification/Task_Run.thy ===== *)
theory Task_Run
  imports Runtime_Events
begin

text \<open>
  The task run aggregate (\<open>task-run.ts\<close>) and its transition processor
  (\<open>domain-service.ts\<close>): states, strategies, the transition matrix with its guards, the
  validation of a command, and the events a valid command emits. The run of a machine is
  the relation \<open>run_step\<close>: a validated command moves the status to the target the emitted
  event names, and the owner of the run may set its flags between commands.
\<close>

section \<open>The aggregate\<close>

datatype run_state =
    RCreated | RPlanning | RAnalysing | RDelegating | RExecuting | RVerifying | RRecovering
  | RCompleted | RFailed | RCancelled

fun run_state_name :: "run_state \<Rightarrow> string" where
  "run_state_name RCreated = ''created''"
| "run_state_name RPlanning = ''planning''"
| "run_state_name RAnalysing = ''analysing''"
| "run_state_name RDelegating = ''delegating''"
| "run_state_name RExecuting = ''executing''"
| "run_state_name RVerifying = ''verifying''"
| "run_state_name RRecovering = ''recovering''"
| "run_state_name RCompleted = ''completed''"
| "run_state_name RFailed = ''failed''"
| "run_state_name RCancelled = ''cancelled''"

datatype run_strategy = Simple | Planned | Delegated | Audit | Recovery

fun strategy_name :: "run_strategy \<Rightarrow> string" where
  "strategy_name Simple = ''simple''"
| "strategy_name Planned = ''planned''"
| "strategy_name Delegated = ''delegated''"
| "strategy_name Audit = ''audit''"
| "strategy_name Recovery = ''recovery''"

definition terminal_states :: "run_state list" where
  "terminal_states = [RCompleted, RFailed, RCancelled]"

record task_run =
  tr_aggregateId :: string
  tr_version :: int
  tr_status :: run_state
  tr_strategy :: run_strategy
  tr_correlationId :: "string option"
  tr_planScope :: "json option"
  tr_delegationTarget :: "string option"
  tr_delegationMode :: "string option"
  tr_recoveryPath :: "string option"
  tr_failedStage :: "string option"
  tr_planningCompleted :: "bool option"
  tr_analysisComplete :: "bool option"
  tr_agentResponseReceived :: "bool option"
  tr_executionComplete :: "bool option"
  tr_acceptanceCriteriaMet :: "bool option"
  tr_needsRecovery :: "bool option"
  tr_agentFailedOrTimeout :: "bool option"
  tr_executableFailed :: "bool option"
  tr_verificationFailed :: "bool option"
  tr_recoveryComplete :: "bool option"
  tr_recoveryExhausted :: "bool option"
  tr_planExists :: "bool option"
  tr_delegationConfigured :: "bool option"
  tr_auditTrailEnabled :: "bool option"
  tr_recoveryPathDefined :: "bool option"

section \<open>The transition matrix\<close>

datatype dedup_behavior = Reject | NoOp

record transition_def =
  td_source :: run_state
  td_target :: run_state
  td_command :: string
  td_invariants :: "(task_run \<Rightarrow> bool) list"
  td_emit :: "domain_event list"
  td_dedupKey :: string
  td_behavior :: dedup_behavior

text \<open>One entry of the matrix; every \<open>emit\<close> of the source returns the empty list.\<close>

definition entry ::
    "run_state \<Rightarrow> run_state \<Rightarrow> string \<Rightarrow> (task_run \<Rightarrow> bool) list \<Rightarrow> string \<Rightarrow> dedup_behavior
      \<Rightarrow> transition_def" where
  "entry src tgt cmd invs key beh =
     \<lparr>td_source = src, td_target = tgt, td_command = cmd, td_invariants = invs,
      td_emit = [], td_dedupKey = key, td_behavior = beh\<rparr>"

fun transition_matrix :: "run_state \<Rightarrow> transition_def list" where
  "transition_matrix RCreated =
     [entry RCreated RPlanning ''StartPlanningCommand''
        [\<lambda>r. tr_strategy r = Planned \<or> tr_strategy r = Simple] ''start-planning'' NoOp,
      entry RCreated RFailed ''FailCommand'' [] ''fail-created'' Reject,
      entry RCreated RCancelled ''CancelCommand'' [] ''cancel-created'' NoOp]"
| "transition_matrix RPlanning =
     [entry RPlanning RAnalysing ''StartAnalysisCommand''
        [\<lambda>r. tr_planningCompleted r = Some True] ''start-analysis'' NoOp,
      entry RPlanning RDelegating ''DelegateToAgentCommand''
        [\<lambda>r. tr_strategy r = Delegated] ''delegate'' NoOp,
      entry RPlanning RFailed ''FailCommand'' [] ''fail-planning'' Reject,
      entry RPlanning RCancelled ''CancelCommand'' [] ''cancel-planning'' NoOp]"
| "transition_matrix RAnalysing =
     [entry RAnalysing RDelegating ''StartExecutionCommand''
        [\<lambda>r. tr_analysisComplete r = Some True] ''start-execution'' NoOp,
      entry RAnalysing RRecovering ''InitiateRecoveryCommand''
        [\<lambda>r. tr_needsRecovery r = Some True] ''initiate-recovery'' NoOp,
      entry RAnalysing RFailed ''FailCommand'' [] ''fail-analysing'' Reject,
      entry RAnalysing RCancelled ''CancelCommand'' [] ''cancel-analysing'' NoOp]"
| "transition_matrix RDelegating =
     [entry RDelegating RExecuting ''ResumeExecutionCommand''
        [\<lambda>r. tr_agentResponseReceived r = Some True] ''resume-execution'' NoOp,
      entry RDelegating RRecovering ''InitiateRecoveryCommand''
        [\<lambda>r. tr_agentFailedOrTimeout r = Some True] ''initiate-recovery'' NoOp,
      entry RDelegating RFailed ''FailCommand'' [] ''fail-delegating'' Reject,
      entry RDelegating RCancelled ''CancelCommand'' [] ''cancel-delegating'' NoOp]"
| "transition_matrix RExecuting =
     [entry RExecuting RVerifying ''CompleteExecutionCommand''
        [\<lambda>r. tr_executionComplete r = Some True] ''complete-execution'' NoOp,
      entry RExecuting RRecovering ''InitiateRecoveryCommand''
        [\<lambda>r. tr_executableFailed r = Some True] ''initiate-recovery'' NoOp,
      entry RExecuting RFailed ''FailCommand'' [] ''fail-executing'' Reject,
      entry RExecuting RCancelled ''CancelCommand'' [] ''cancel-executing'' NoOp]"
| "transition_matrix RVerifying =
     [entry RVerifying RCompleted ''CompleteTaskCommand''
        [\<lambda>r. tr_acceptanceCriteriaMet r = Some True] ''complete-task'' NoOp,
      entry RVerifying RRecovering ''InitiateRecoveryCommand''
        [\<lambda>r. tr_verificationFailed r = Some True] ''initiate-recovery'' NoOp,
      entry RVerifying RFailed ''FailCommand''
        [\<lambda>r. tr_acceptanceCriteriaMet r \<noteq> Some True \<and> tr_verificationFailed r \<noteq> Some True]
        ''fail-verifying'' Reject,
      entry RVerifying RCancelled ''CancelCommand'' [] ''cancel-verifying'' NoOp]"
| "transition_matrix RRecovering =
     [entry RRecovering RExecuting ''ResumeAfterRecoveryCommand''
        [\<lambda>r. tr_recoveryComplete r = Some True] ''resume-after-recovery'' NoOp,
      entry RRecovering RFailed ''FailCommand''
        [\<lambda>r. tr_recoveryExhausted r = Some True] ''fail-recovering'' Reject,
      entry RRecovering RCancelled ''CancelCommand'' [] ''cancel-recovering'' NoOp]"
| "transition_matrix RCompleted = []"
| "transition_matrix RFailed = []"
| "transition_matrix RCancelled = []"

fun strategy_rules :: "run_strategy \<Rightarrow> task_run \<Rightarrow> bool" where
  "strategy_rules Simple r = True"
| "strategy_rules Planned r = (tr_strategy r = Planned)"
| "strategy_rules Delegated r = (tr_strategy r = Delegated)"
| "strategy_rules Audit r = (tr_strategy r = Audit)"
| "strategy_rules Recovery r = (tr_strategy r = Recovery)"

section \<open>Commands and their validation (domain-service.ts)\<close>

record command =
  cmd_type :: string
  cmd_aggregateId :: string
  cmd_payload :: json
  cmd_commandId :: string
  cmd_correlationId :: string
  cmd_causationId :: "string option"

datatype validation_error =
    FromTerminalState run_state string
  | NoTransitionFound run_state string
  | AvailableCommands "string list"
  | InvariantViolations string run_state
  | StrategyIncompatible run_strategy run_state

definition validateTransition :: "task_run \<Rightarrow> command \<Rightarrow> validation_error list + transition_def" where
  "validateTransition run c =
     (if tr_status run \<in> set terminal_states
         \<and> cmd_type c \<noteq> ''InitiateRecoveryCommand'' \<and> cmd_type c \<noteq> ''CompleteTaskCommand''
      then Inl [FromTerminalState (tr_status run) (cmd_type c)]
      else
        let available = transition_matrix (tr_status run) in
        case List.find (\<lambda>t. td_command t = cmd_type c) available of
          None \<Rightarrow> Inl [NoTransitionFound (tr_status run) (cmd_type c),
                       AvailableCommands (map td_command available)]
        | Some t \<Rightarrow>
            let failures = filter Not (map (\<lambda>inv. inv run) (td_invariants t));
                errors = (if failures \<noteq> [] then [InvariantViolations (cmd_type c) (tr_status run)] else [])
                       @ (if \<not> strategy_rules (tr_strategy run) run
                          then [StrategyIncompatible (tr_strategy run) (tr_status run)] else [])
            in if errors \<noteq> [] then Inl errors else Inr t)"

text \<open>
  The events. A random identifier and the clock are read once for each event: \<open>uuid n\<close> and
  \<open>clock n\<close> are what the \<open>n\<close>-th reading of one call returns.
\<close>

definition generateEventId :: "string \<Rightarrow> string" where
  "generateEventId uuid = ''evt_'' @ uuid"

definition event_metadata :: "command \<Rightarrow> json" where
  "event_metadata c =
     JObj [(''causationId'', JStr (str_or (cmd_causationId c) (cmd_commandId c))),
           (''payloadVersion'', JStr ''1.0'')]"

definition createTransitionEvent ::
    "string \<Rightarrow> int \<Rightarrow> string \<Rightarrow> int \<Rightarrow> command \<Rightarrow> run_state \<Rightarrow> run_state \<Rightarrow> int \<Rightarrow> uncommitted_event" where
  "createTransitionEvent aid ver uuid now c fromState toState globalSequence =
     \<lparr>ue_eventId = Some (generateEventId uuid), ue_eventType = ''TaskRunStateChanged'',
      ue_aggregateId = aid, ue_aggregateVersion = ver,
      ue_payload = Some (JObj [(''fromState'', JStr (run_state_name fromState)),
                               (''toState'', JStr (run_state_name toState)),
                               (''command'', JStr (cmd_type c))]),
      ue_metadata = Some (event_metadata c), ue_commandId = Some (cmd_commandId c),
      ue_correlationId = Some (cmd_correlationId c), ue_createdAt = Some now\<rparr>"

definition strategy_event ::
    "string \<Rightarrow> (string \<times> json) list \<Rightarrow> string \<Rightarrow> int \<Rightarrow> task_run \<Rightarrow> command \<Rightarrow> uncommitted_event" where
  "strategy_event ty props uuid now run c =
     \<lparr>ue_eventId = Some (generateEventId uuid), ue_eventType = ty,
      ue_aggregateId = tr_aggregateId run, ue_aggregateVersion = tr_version run + 1,
      ue_payload = Some (JObj props), ue_metadata = Some (event_metadata c),
      ue_commandId = Some (cmd_commandId c), ue_correlationId = Some (cmd_correlationId c),
      ue_createdAt = Some now\<rparr>"

definition createPlanningStartedEvent :: "string \<Rightarrow> int \<Rightarrow> task_run \<Rightarrow> command \<Rightarrow> uncommitted_event" where
  "createPlanningStartedEvent uuid now run c =
     strategy_event ''PlanningStarted'' (opt_prop ''planScope'' (tr_planScope run)) uuid now run c"

definition createDelegationStartedEvent :: "string \<Rightarrow> int \<Rightarrow> task_run \<Rightarrow> command \<Rightarrow> uncommitted_event" where
  "createDelegationStartedEvent uuid now run c =
     strategy_event ''DelegationStarted''
       (opt_prop ''delegatedTo'' (map_option JStr (tr_delegationTarget run))
        @ opt_prop ''delegationMode'' (map_option JStr (tr_delegationMode run))) uuid now run c"

definition createRecoveryStartedEvent :: "string \<Rightarrow> int \<Rightarrow> task_run \<Rightarrow> command \<Rightarrow> uncommitted_event" where
  "createRecoveryStartedEvent uuid now run c =
     strategy_event ''RecoveryStarted''
       (opt_prop ''recoveryPath'' (map_option JStr (tr_recoveryPath run))
        @ opt_prop ''failedStage'' (map_option JStr (tr_failedStage run))) uuid now run c"

text \<open>The switch compares the strategy's text, whose first case is \<open>'planning'\<close>.\<close>

definition createStrategyEvents :: "string \<Rightarrow> int \<Rightarrow> task_run \<Rightarrow> command \<Rightarrow> uncommitted_event list" where
  "createStrategyEvents uuid now run c =
     (let s = strategy_name (tr_strategy run) in
      if s = ''planning'' then
        (if cmd_type c = ''StartPlanningCommand'' then [createPlanningStartedEvent uuid now run c] else [])
      else if s = ''delegated'' then
        (if cmd_type c = ''DelegateToAgentCommand'' then [createDelegationStartedEvent uuid now run c] else [])
      else if s = ''recovery'' then
        (if cmd_type c = ''InitiateRecoveryCommand'' then [createRecoveryStartedEvent uuid now run c] else [])
      else [])"

datatype transition_error = Invalid "validation_error list" | NoTargetFor string

definition getTargetState :: "task_run \<Rightarrow> string \<Rightarrow> transition_error + run_state" where
  "getTargetState run ct =
     (case List.find (\<lambda>t. td_command t = ct) (transition_matrix (tr_status run)) of
        None \<Rightarrow> Inl (NoTargetFor ct) | Some t \<Rightarrow> Inr (td_target t))"

definition applyTransition ::
    "(nat \<Rightarrow> string) \<Rightarrow> (nat \<Rightarrow> int) \<Rightarrow> task_run \<Rightarrow> command \<Rightarrow> int
      \<Rightarrow> transition_error + (uncommitted_event list \<times> int)" where
  "applyTransition uuid clock run c globalSequence =
     (case validateTransition run c of
        Inl errors \<Rightarrow> Inl (Invalid errors)
      | Inr _ \<Rightarrow>
          (case getTargetState run (cmd_type c) of
             Inl e \<Rightarrow> Inl e
           | Inr target \<Rightarrow>
               Inr (createTransitionEvent (tr_aggregateId run) (tr_version run + 1) (uuid 0) (clock 0) c
                      (tr_status run) target globalSequence
                    # createStrategyEvents (uuid 1) (clock 1) run c,
                    tr_version run + 1)))"

section \<open>Facts about the matrix\<close>

lemma entry_simps [simp]:
  "td_source (entry s t c i k b) = s" "td_target (entry s t c i k b) = t"
  "td_command (entry s t c i k b) = c" "td_invariants (entry s t c i k b) = i"
  "td_emit (entry s t c i k b) = []"
  by (simp_all add: entry_def)

lemma terminal_states_iff [simp]:
  "s \<in> set terminal_states \<longleftrightarrow> s = RCompleted \<or> s = RFailed \<or> s = RCancelled"
  by (auto simp: terminal_states_def)

lemma matrix_commands_distinct: "distinct (map td_command (transition_matrix s))"
  by (cases s) simp_all

lemma matrix_source: "t \<in> set (transition_matrix s) \<Longrightarrow> td_source t = s"
  by (cases s) auto

lemma matrix_emits_nothing: "t \<in> set (transition_matrix s) \<Longrightarrow> td_emit t = []"
  by (cases s) auto

lemma matrix_moves: "t \<in> set (transition_matrix s) \<Longrightarrow> td_target t \<noteq> s"
  by (cases s) auto

lemma matrix_terminal: "s \<in> set terminal_states \<Longrightarrow> transition_matrix s = []"
  by auto

lemma matrix_completed:
  "t \<in> set (transition_matrix s) \<Longrightarrow> td_target t = RCompleted
    \<Longrightarrow> s = RVerifying \<and> td_command t = ''CompleteTaskCommand''
        \<and> td_invariants t = [\<lambda>r. tr_acceptanceCriteriaMet r = Some True]"
  by (cases s) auto

lemma find_command [simp]:
  "List.find (\<lambda>t. td_command t = c) (transition_matrix s) = Some t
    \<longleftrightarrow> t \<in> set (transition_matrix s) \<and> td_command t = c"
  by (rule find_distinct_key) (rule matrix_commands_distinct)

lemma strategy_rules_self [simp]: "strategy_rules (tr_strategy r) r"
  by (cases "tr_strategy r") auto

lemma validateTransition_Inr:
  "validateTransition r c = Inr t \<longleftrightarrow>
     t \<in> set (transition_matrix (tr_status r)) \<and> td_command t = cmd_type c
       \<and> list_all (\<lambda>inv. inv r) (td_invariants t)"
proof (cases "List.find (\<lambda>t. td_command t = cmd_type c) (transition_matrix (tr_status r))")
  case None
  then have "t \<notin> set (transition_matrix (tr_status r)) \<or> td_command t \<noteq> cmd_type c"
    by (auto simp: find_None_iff)
  with None show ?thesis by (auto simp: validateTransition_def)
next
  case (Some u)
  then have u: "u \<in> set (transition_matrix (tr_status r))" "td_command u = cmd_type c" by auto
  then have live: "tr_status r \<notin> set terminal_states" using matrix_terminal by force
  have only: "t = u" if "t \<in> set (transition_matrix (tr_status r))" "td_command t = cmd_type c"
    using that Some find_command by (metis option.inject)
  have "validateTransition r c = Inr t \<longleftrightarrow> list_all (\<lambda>inv. inv r) (td_invariants u) \<and> u = t"
    unfolding validateTransition_def Some Let_def
    using live by (auto simp: list_all_iff filter_empty_conv)
  then show ?thesis using u only by auto
qed

lemma getTargetState_Inr:
  "getTargetState r c = Inr q \<longleftrightarrow>
     (\<exists>t. t \<in> set (transition_matrix (tr_status r)) \<and> td_command t = c \<and> td_target t = q)"
  unfolding getTargetState_def case_option_Inr by auto

lemma applyTransition_Inr:
  "applyTransition u k r c g = Inr (es, v) \<longleftrightarrow>
     v = tr_version r + 1 \<and>
     (\<exists>t. t \<in> set (transition_matrix (tr_status r)) \<and> td_command t = cmd_type c
        \<and> list_all (\<lambda>inv. inv r) (td_invariants t)
        \<and> es = createTransitionEvent (tr_aggregateId r) v (u 0) (k 0) c (tr_status r) (td_target t) g
                 # createStrategyEvents (u 1) (k 1) r c)"
proof (cases "validateTransition r c")
  case (Inl e)
  then have "\<not> (\<exists>t. t \<in> set (transition_matrix (tr_status r)) \<and> td_command t = cmd_type c
        \<and> list_all (\<lambda>inv. inv r) (td_invariants t))"
    by (metis validateTransition_Inr Inl_Inr_False)
  then show ?thesis using Inl by (auto simp: applyTransition_def)
next
  case (Inr t)
  then have t: "t \<in> set (transition_matrix (tr_status r))" "td_command t = cmd_type c"
      "list_all (\<lambda>inv. inv r) (td_invariants t)"
    by (simp_all add: validateTransition_Inr)
  then have target: "getTargetState r (cmd_type c) = Inr (td_target t)"
    by (auto simp: getTargetState_Inr)
  have only: "t' = t" if "t' \<in> set (transition_matrix (tr_status r))" "td_command t' = cmd_type c" for t'
    using that t(1,2) find_command by (metis option.inject)
  have pick: "(\<exists>t'. t' \<in> set (transition_matrix (tr_status r)) \<and> td_command t' = cmd_type c
        \<and> list_all (\<lambda>inv. inv r) (td_invariants t') \<and> es = f t') \<longleftrightarrow> es = f t" for f
    using t only by blast
  show ?thesis
    unfolding applyTransition_def Inr sum.case target pick by auto
qed

section \<open>Runs of the machine\<close>

text \<open>
  A run moves when a command is applied; between commands its owner may set any of the flags
  the guards read, which leaves identity, version, status and strategy alone.
\<close>

inductive run_step :: "task_run \<Rightarrow> task_run \<Rightarrow> bool" where
  apply_command: "applyTransition u k r c g = Inr (es, v) \<Longrightarrow> getTargetState r (cmd_type c) = Inr q
     \<Longrightarrow> run_step r (r\<lparr>tr_status := q, tr_version := v\<rparr>)"
| set_flags: "tr_aggregateId r' = tr_aggregateId r \<Longrightarrow> tr_version r' = tr_version r
     \<Longrightarrow> tr_status r' = tr_status r \<Longrightarrow> tr_strategy r' = tr_strategy r \<Longrightarrow> run_step r r'"

inductive_cases run_stepE: "run_step r r'"

abbreviation run_reach :: "task_run \<Rightarrow> task_run \<Rightarrow> bool" where
  "run_reach \<equiv> run_step\<^sup>*\<^sup>*"

text \<open>A list of commands applied in order, the first rejection ending it.\<close>

fun run_commands :: "(nat \<Rightarrow> string) \<Rightarrow> (nat \<Rightarrow> int) \<Rightarrow> task_run \<Rightarrow> command list \<Rightarrow> transition_error + task_run" where
  "run_commands u k r [] = Inr r"
| "run_commands u k r (c # cs) =
     (case applyTransition u k r c 0 of
        Inl e \<Rightarrow> Inl e
      | Inr (_, v) \<Rightarrow>
          (case getTargetState r (cmd_type c) of
             Inl e \<Rightarrow> Inl e
           | Inr q \<Rightarrow> run_commands u k (r\<lparr>tr_status := q, tr_version := v\<rparr>) cs))"

lemma run_commands_reach: "run_commands u k r cs = Inr r' \<Longrightarrow> run_reach r r'"
proof (induction cs arbitrary: r)
  case Nil
  then show ?case by simp
next
  case (Cons c cs)
  then obtain es v q where step: "applyTransition u k r c 0 = Inr (es, v)"
      "getTargetState r (cmd_type c) = Inr q"
    and rest: "run_commands u k (r\<lparr>tr_status := q, tr_version := v\<rparr>) cs = Inr r'"
    by (auto split: sum.splits)
  have "run_step r (r\<lparr>tr_status := q, tr_version := v\<rparr>)"
    by (rule run_step.apply_command [OF step])
  then show ?case using Cons.IH [OF rest] by (rule converse_rtranclp_into_rtranclp)
qed

definition blank_run :: "string \<Rightarrow> run_strategy \<Rightarrow> task_run" where
  "blank_run i s =
     \<lparr>tr_aggregateId = i, tr_version = 0, tr_status = RCreated, tr_strategy = s,
      tr_correlationId = None, tr_planScope = None, tr_delegationTarget = None,
      tr_delegationMode = None, tr_recoveryPath = None, tr_failedStage = None,
      tr_planningCompleted = None, tr_analysisComplete = None, tr_agentResponseReceived = None,
      tr_executionComplete = None, tr_acceptanceCriteriaMet = None, tr_needsRecovery = None,
      tr_agentFailedOrTimeout = None, tr_executableFailed = None, tr_verificationFailed = None,
      tr_recoveryComplete = None, tr_recoveryExhausted = None, tr_planExists = None,
      tr_delegationConfigured = None, tr_auditTrailEnabled = None, tr_recoveryPathDefined = None\<rparr>"

definition bare_command :: "string \<Rightarrow> command" where
  "bare_command ct =
     \<lparr>cmd_type = ct, cmd_aggregateId = ''run-1'', cmd_payload = JNull, cmd_commandId = ct,
      cmd_correlationId = ''corr'', cmd_causationId = None\<rparr>"

text \<open>The legal moves as a machine of phases.\<close>

definition run_edge :: "run_state \<Rightarrow> run_state \<Rightarrow> bool" where
  "run_edge p q \<longleftrightarrow> q \<in> td_target ` set (transition_matrix p)"

interpretation run_phases: phase_machine run_edge "\<lambda>s. s \<in> set terminal_states"
  by unfold_locales (auto simp: run_edge_def)

lemma command_step:
  assumes "applyTransition u k r c g = Inr (es, v)" and "getTargetState r (cmd_type c) = Inr q"
  shows "run_edge (tr_status r) q \<and> v = tr_version r + 1"
  using assms by (auto simp: applyTransition_Inr getTargetState_Inr run_edge_def)

lemma run_step_edge:
  "run_step r r' \<Longrightarrow> (tr_status r' = tr_status r \<and> tr_version r' = tr_version r)
      \<or> (run_edge (tr_status r) (tr_status r') \<and> tr_version r' = tr_version r + 1)"
  by (induction rule: run_step.induct) (auto dest: command_step)

lemma run_step_strategy:
  "run_step r r' \<Longrightarrow> tr_strategy r' = tr_strategy r \<and> tr_aggregateId r' = tr_aggregateId r"
  by (induction rule: run_step.induct) auto

lemma run_reach_strategy:
  "run_reach r r' \<Longrightarrow> tr_strategy r' = tr_strategy r \<and> tr_aggregateId r' = tr_aggregateId r"
  by (induction rule: rtranclp_induct) (auto dest: run_step_strategy)

section \<open>Properties\<close>

text \<open>
  A command is applied exactly when the matrix holds an entry for it in the run's present
  state whose guards all hold; then the version is the next one, and the first emitted event
  carries that version and names the run.
\<close>

theorem applyTransition_accepts:
  "(\<exists>es. applyTransition u k r c g = Inr (es, v)
       \<and> ue_aggregateVersion (hd es) = v \<and> ue_aggregateId (hd es) = tr_aggregateId r) \<longleftrightarrow>
   v = tr_version r + 1 \<and>
   (\<exists>t. t \<in> set (transition_matrix (tr_status r)) \<and> td_command t = cmd_type c
        \<and> list_all (\<lambda>inv. inv r) (td_invariants t))"
  by (auto simp: applyTransition_Inr createTransitionEvent_def)

text \<open>
  A run in completed, failed or cancelled never changes state or version again, whatever
  commands are sent and whatever its owner sets.
\<close>

theorem terminal_run_frozen:
  assumes "run_reach r r'" and "tr_status r \<in> set terminal_states"
  shows "tr_status r' = tr_status r \<and> tr_version r' = tr_version r"
  using assms(1)
proof (induction rule: rtranclp_induct)
  case base
  show ?case by simp
next
  case (step s t)
  then show ?case
    using run_step_edge [OF step.hyps(2)] assms(2) matrix_terminal [of "tr_status s"]
    by (auto simp: run_edge_def)
qed

theorem terminal_run_frozen_witness:
  "run_reach (blank_run ''r'' Simple\<lparr>tr_status := RFailed\<rparr>)
     (blank_run ''r'' Simple\<lparr>tr_status := RFailed, tr_needsRecovery := Some True\<rparr>)
   \<and> tr_status (blank_run ''r'' Simple\<lparr>tr_status := RFailed, tr_needsRecovery := Some True\<rparr>) = RFailed"
proof -
  let ?r = "blank_run ''r'' Simple\<lparr>tr_status := RFailed\<rparr>"
  have "run_step ?r (?r\<lparr>tr_needsRecovery := Some True\<rparr>)"
    by (rule run_step.set_flags) simp_all
  then have reach: "run_reach ?r (?r\<lparr>tr_needsRecovery := Some True\<rparr>)" by blast
  from terminal_run_frozen [OF this] reach show ?thesis by simp
qed

text \<open>
  The only move into completed is from verifying, with the acceptance criteria recorded as
  met at that moment.
\<close>

theorem completion_needs_acceptance:
  assumes "run_step r r'" and "tr_status r \<noteq> RCompleted" and "tr_status r' = RCompleted"
  shows "tr_status r = RVerifying \<and> tr_acceptanceCriteriaMet r = Some True
    \<and> tr_version r' = tr_version r + 1"
  using assms
proof (cases rule: run_step.cases)
  case (apply_command u k c g es v q)
  then have q: "q = RCompleted" using assms(3) by simp
  obtain t where t: "t \<in> set (transition_matrix (tr_status r))" "td_command t = cmd_type c"
      "list_all (\<lambda>inv. inv r) (td_invariants t)"
    using apply_command(2) by (auto simp: applyTransition_Inr)
  moreover obtain t' where "t' \<in> set (transition_matrix (tr_status r))" "td_command t' = cmd_type c"
      "td_target t' = RCompleted"
    using apply_command(3) q by (auto simp: getTargetState_Inr)
  ultimately have "td_target t = RCompleted"
    by (metis find_command option.inject)
  from matrix_completed [OF t(1) this] show ?thesis
    using t(3) apply_command by (auto simp: applyTransition_Inr)
qed auto

theorem completion_needs_acceptance_witness:
  "tr_status (blank_run ''r'' Simple\<lparr>tr_status := RVerifying, tr_acceptanceCriteriaMet := Some True\<rparr>)
     = RVerifying
   \<and> tr_acceptanceCriteriaMet (blank_run ''r'' Simple\<lparr>tr_status := RVerifying,
       tr_acceptanceCriteriaMet := Some True\<rparr>) = Some True
   \<and> tr_version (blank_run ''r'' Simple\<lparr>tr_status := RCompleted, tr_version := 1,
       tr_acceptanceCriteriaMet := Some True\<rparr>) = 1"
proof -
  let ?r = "blank_run ''r'' Simple\<lparr>tr_status := RVerifying, tr_acceptanceCriteriaMet := Some True\<rparr>"
  let ?c = "bare_command ''CompleteTaskCommand''"
  have "\<exists>es. applyTransition (\<lambda>_. ''u'') (\<lambda>_. 0) ?r ?c 0 = Inr (es, 1)"
    by (simp add: applyTransition_def validateTransition_def getTargetState_def blank_run_def
        bare_command_def Let_def)
  then obtain es where ev: "applyTransition (\<lambda>_. ''u'') (\<lambda>_. 0) ?r ?c 0 = Inr (es, 1)" ..
  have "getTargetState ?r (cmd_type ?c) = Inr RCompleted"
    by (simp add: getTargetState_def blank_run_def bare_command_def)
  from run_step.apply_command [OF ev this]
  have "run_step ?r (?r\<lparr>tr_status := RCompleted, tr_version := 1\<rparr>)" .
  from completion_needs_acceptance [OF this] show ?thesis by (simp add: blank_run_def)
qed

text \<open>
  A run whose strategy is delegated, audit or recovery can never be worked on: from
  created it reaches nothing but failed and cancelled, although the matrix has a transition
  reserved for the delegated strategy.
\<close>

theorem unplanned_strategy_never_starts:
  assumes "run_reach r r'" and "tr_status r = RCreated" and "tr_strategy r \<notin> {Simple, Planned}"
  shows "tr_status r' \<in> {RCreated, RFailed, RCancelled}"
  using assms(1)
proof (induction rule: rtranclp_induct)
  case base
  with assms(2) show ?case by simp
next
  case (step s t)
  have strat: "tr_strategy s \<notin> {Simple, Planned}"
    using run_reach_strategy [OF step.hyps(1)] assms(3) by simp
  from step.hyps(2) show ?case
  proof (cases rule: run_step.cases)
    case (apply_command u k c g es v q)
    then obtain d where "d \<in> set (transition_matrix (tr_status s))" "td_command d = cmd_type c"
        "list_all (\<lambda>inv. inv s) (td_invariants d)" "td_target d = q"
      by (auto simp: applyTransition_Inr getTargetState_Inr) (metis find_command option.inject)
    with step.IH strat have "q \<in> {RCreated, RFailed, RCancelled}" by auto
    with apply_command show ?thesis by simp
  qed (use step.IH in simp)
qed

theorem unplanned_strategy_never_starts_witness:
  "run_reach (blank_run ''r'' Delegated) (blank_run ''r'' Delegated\<lparr>tr_planExists := Some True\<rparr>)
   \<and> tr_status (blank_run ''r'' Delegated\<lparr>tr_planExists := Some True\<rparr>) \<in> {RCreated, RFailed, RCancelled}"
proof -
  let ?r = "blank_run ''r'' Delegated"
  have "run_step ?r (?r\<lparr>tr_planExists := Some True\<rparr>)"
    by (rule run_step.set_flags) simp_all
  then have reach: "run_reach ?r (?r\<lparr>tr_planExists := Some True\<rparr>)" by blast
  from unplanned_strategy_never_starts [OF this] reach show ?thesis by (simp add: blank_run_def)
qed

text \<open>The commands of a run whose stages all succeed.\<close>

definition success_commands :: "command list" where
  "success_commands = map bare_command
     [''StartPlanningCommand'', ''StartAnalysisCommand'', ''StartExecutionCommand'',
      ''ResumeExecutionCommand'', ''CompleteExecutionCommand'', ''CompleteTaskCommand'']"

text \<open>
  A run with the planned or simple strategy whose stages each report success reaches
  completed by six commands, one version each.
\<close>

theorem planned_run_completes:
  assumes "tr_status r = RCreated" and "tr_strategy r \<in> {Simple, Planned}"
    and "tr_planningCompleted r = Some True" and "tr_analysisComplete r = Some True"
    and "tr_agentResponseReceived r = Some True" and "tr_executionComplete r = Some True"
    and "tr_acceptanceCriteriaMet r = Some True"
  shows "run_commands u k r success_commands
    = Inr (r\<lparr>tr_status := RCompleted, tr_version := tr_version r + 6\<rparr>)"
proof -
  have rule: "strategy_rules (tr_strategy r) (r\<lparr>tr_status := s, tr_version := v\<rparr>)" for s v
    by (cases "tr_strategy r") simp_all
  show ?thesis
    using assms rule
    by (auto simp: success_commands_def bare_command_def applyTransition_def validateTransition_def
        getTargetState_def Let_def add.assoc)
qed

theorem planned_run_completes_witness:
  "run_commands (\<lambda>_. ''u'') (\<lambda>_. 0)
     (blank_run ''run-1'' Planned
        \<lparr>tr_planningCompleted := Some True, tr_analysisComplete := Some True,
         tr_agentResponseReceived := Some True, tr_executionComplete := Some True,
         tr_acceptanceCriteriaMet := Some True\<rparr>) success_commands
   = Inr (blank_run ''run-1'' Planned
        \<lparr>tr_status := RCompleted, tr_version := 6, tr_planningCompleted := Some True,
         tr_analysisComplete := Some True, tr_agentResponseReceived := Some True,
         tr_executionComplete := Some True, tr_acceptanceCriteriaMet := Some True\<rparr>)"
  by (subst planned_run_completes) (simp_all add: blank_run_def)

text \<open>
  No command makes the processor emit a \<open>PlanningStarted\<close> event: the switch that would
  create it compares the strategy with a name no strategy has.
\<close>

theorem planning_started_never_emitted:
  "''PlanningStarted'' \<notin> ue_eventType ` set (createStrategyEvents uuid now r c)"
  by (cases "tr_strategy r")
    (auto simp: createStrategyEvents_def createDelegationStartedEvent_def
      createRecoveryStartedEvent_def strategy_event_def)

end
