(* ===== verification/Assignments.thy ===== *)
theory Assignments
  imports Task_Run
begin

text \<open>
  Assignments of a run (\<open>assignment.ts\<close>): the entity, its creation and update records, and
  the consistency validator: the run must exist and be live, one assignment per run and
  agent, and a parent chain that stays inside the run and does not loop.
\<close>

datatype assignment_status =
    AsPending | AsInProgress | AsCompleted | AsFailed | AsCancelled | AsWaitingForInput

datatype assignment_priority = Low | Medium | High | Urgent

record token_usage =
  tu_inputTokens :: int
  tu_outputTokens :: int

record error_details =
  ed_message :: string
  ed_code :: "string option"
  ed_stackTrace :: "string option"

record assignment =
  as_id :: string
  as_runId :: string
  as_agentName :: string
  as_title :: string
  as_description :: "string option"
  as_status :: assignment_status
  as_priority :: assignment_priority
  as_parentId :: "string option"
  as_createdAt :: int
  as_updatedAt :: int
  as_startedAt :: "int option"
  as_completedAt :: "int option"
  as_failedAt :: "int option"
  as_cancelledAt :: "int option"
  as_tokenUsage :: "token_usage option"
  as_errorDetails :: "error_details option"

record create_assignment_options =
  ca_runId :: string
  ca_agentName :: string
  ca_title :: string
  ca_description :: "string option"
  ca_priority :: "assignment_priority option"
  ca_parentId :: "string option"

datatype assignment_error =
    AsMissingRun string string
  | AsTerminalRun string run_state
  | AsDuplicate string string
  | AsForeignParent string string
  | AsCircular string

definition as_validateRunOwnership ::
    "string \<Rightarrow> string \<Rightarrow> task_run option \<Rightarrow> assignment_error verdict" where
  "as_validateRunOwnership aid rid run =
     (case run of
        None \<Rightarrow> Rejected [AsMissingRun aid rid]
      | Some r \<Rightarrow>
          verdict_of (if tr_status r = RCompleted \<or> tr_status r = RFailed \<or> tr_status r = RCancelled
                      then [AsTerminalRun rid (tr_status r)] else []))"

definition as_validateUniqueness ::
    "string \<Rightarrow> string \<Rightarrow> string \<Rightarrow> assignment list \<Rightarrow> assignment_error verdict" where
  "as_validateUniqueness aid rid agent existing =
     verdict_of
       (case List.find (\<lambda>a. as_runId a = rid \<and> as_agentName a = agent \<and> as_id a \<noteq> aid) existing of
          None \<Rightarrow> [] | Some _ \<Rightarrow> [AsDuplicate rid agent])"

text \<open>The parent an assignment names, looked up in the list as \<open>find\<close> does.\<close>

definition as_parent :: "assignment list \<Rightarrow> assignment \<Rightarrow> assignment option" where
  "as_parent allAssignments a =
     (if truthy (as_parentId a)
      then List.find (\<lambda>b. Some (as_id b) = as_parentId a) allAssignments else None)"

lemma as_parent_mem: "as_parent xs a = Some p \<Longrightarrow> p \<in> set xs"
  by (auto simp: as_parent_def dest: find_SomeD split: if_splits)

function hasCircularDependency ::
    "assignment \<Rightarrow> string \<Rightarrow> assignment list \<Rightarrow> string list \<Rightarrow> bool" where
  "hasCircularDependency a rootRunId allAssignments visited =
     (if as_id a \<in> set visited then True
      else
        case as_parent allAssignments a of
          None \<Rightarrow> False
        | Some p \<Rightarrow>
            if as_runId p \<noteq> rootRunId then True
            else if truthy (as_parentId p)
              then hasCircularDependency p rootRunId allAssignments (as_id a # visited)
            else False)"
  by pat_completeness auto
termination
proof (relation "measure (\<lambda>(a, r, xs, vis). card (as_id ` set xs - set vis)
      + (if as_id a \<in> as_id ` set xs then 0 else 1))")
  fix a :: assignment and r :: string and xs vis p
  assume fresh: "as_id a \<notin> set vis" and p: "as_parent xs a = Some p"
  have "as_id p \<in> as_id ` set xs" using as_parent_mem [OF p] by blast
  moreover have "card (as_id ` set xs - set (as_id a # vis)) < card (as_id ` set xs - set vis)"
    if "as_id a \<in> as_id ` set xs"
    using that fresh by (intro psubset_card_mono) auto
  moreover have "as_id ` set xs - set (as_id a # vis) = as_id ` set xs - set vis"
    if "as_id a \<notin> as_id ` set xs"
    using that by auto
  ultimately show "((p, r, xs, as_id a # vis), a, r, xs, vis)
      \<in> measure (\<lambda>(a, r, xs, vis). card (as_id ` set xs - set vis)
          + (if as_id a \<in> as_id ` set xs then 0 else 1))"
    by auto
qed simp

declare hasCircularDependency.simps [simp del]

definition as_validateNoCrossRunDependencies ::
    "assignment \<Rightarrow> assignment option \<Rightarrow> assignment list \<Rightarrow> assignment_error verdict" where
  "as_validateNoCrossRunDependencies a parent runAssignments =
     verdict_of
       (case parent of
          None \<Rightarrow> []
        | Some p \<Rightarrow>
            (if as_runId p \<noteq> as_runId a then [AsForeignParent (as_id p) (as_runId p)] else [])
          @ (if hasCircularDependency p (as_runId a) runAssignments []
             then [AsCircular (as_runId a)] else []))"

section \<open>The parent chain\<close>

inductive as_above :: "assignment list \<Rightarrow> assignment \<Rightarrow> assignment \<Rightarrow> bool" for xs where
  here: "as_parent xs a = Some p \<Longrightarrow> as_above xs a p"
| up: "as_parent xs a = Some p \<Longrightarrow> as_above xs p q \<Longrightarrow> as_above xs a q"

lemma as_above_has_parent: "as_above xs a q \<Longrightarrow> truthy (as_parentId a)"
  by (induction rule: as_above.induct) (auto simp: as_parent_def split: if_splits)

lemma as_above_first:
  "as_above xs a q \<longleftrightarrow> (\<exists>p. as_parent xs a = Some p \<and> (q = p \<or> as_above xs p q))"
  by (auto intro: as_above.intros elim: as_above.cases)

lemma no_circle_chain:
  assumes "\<not> hasCircularDependency a r xs vis" and "as_above xs a q"
  shows "as_runId q = r \<and> (truthy (as_parentId q) \<longrightarrow> as_id q \<notin> insert (as_id a) (set vis))"
  using assms
proof (induction a r xs vis rule: hasCircularDependency.induct)
  case (1 a r xs vis)
  from "1.prems"(2) obtain p where p: "as_parent xs a = Some p" and q: "q = p \<or> as_above xs p q"
    by (auto simp: as_above_first [of xs a q])
  from "1.prems"(1) p have fresh: "as_id a \<notin> set vis" and run: "as_runId p = r"
    and rest: "truthy (as_parentId p) \<Longrightarrow> \<not> hasCircularDependency p r xs (as_id a # vis)"
    by (auto simp: hasCircularDependency.simps [of a] split: if_splits)
  have new: "as_id p \<notin> set (as_id a # vis)" if "truthy (as_parentId p)"
    using rest [OF that] by (auto simp: hasCircularDependency.simps [of p])
  from q show ?case
  proof
    assume "q = p"
    with run new show ?thesis by auto
  next
    assume above: "as_above xs p q"
    then have up: "truthy (as_parentId p)" by (rule as_above_has_parent)
    from "1.IH" [OF fresh p _ up rest [OF up] above] run show ?thesis by auto
  qed
qed

text \<open>An assignment with the given identity, run, agent and parent, used in examples.\<close>

definition plain_assignment :: "string \<Rightarrow> string \<Rightarrow> string \<Rightarrow> string option \<Rightarrow> assignment" where
  "plain_assignment i r agent par =
     \<lparr>as_id = i, as_runId = r, as_agentName = agent, as_title = ''t'', as_description = None,
      as_status = AsPending, as_priority = Medium, as_parentId = par, as_createdAt = 0,
      as_updatedAt = 0, as_startedAt = None, as_completedAt = None, as_failedAt = None,
      as_cancelledAt = None, as_tokenUsage = None, as_errorDetails = None\<rparr>"

section \<open>Properties\<close>

text \<open>
  When the validator finds no fault with a parent, every assignment above that parent is in
  the same run, and none of those that go on upwards is the parent again: the chain has no loop
  through it.
\<close>

theorem valid_parent_chain:
  assumes "as_validateNoCrossRunDependencies a (Some p) xs = Valid" and "as_above xs p q"
  shows "as_runId p = as_runId a \<and> as_runId q = as_runId a
    \<and> (truthy (as_parentId q) \<longrightarrow> as_id q \<noteq> as_id p)"
proof -
  from assms(1) have "as_runId p = as_runId a" "\<not> hasCircularDependency p (as_runId a) xs []"
    by (auto simp: as_validateNoCrossRunDependencies_def split: if_splits)
  with no_circle_chain [OF _ assms(2)] show ?thesis by auto
qed

theorem valid_parent_chain_witness:
  "as_runId (plain_assignment ''p'' ''r'' ''coder'' (Some ''q'')) = ''r''
   \<and> as_validateNoCrossRunDependencies (plain_assignment ''c'' ''r'' ''tester'' (Some ''p''))
        (Some (plain_assignment ''p'' ''r'' ''coder'' (Some ''q'')))
        [plain_assignment ''p'' ''r'' ''coder'' (Some ''q''), plain_assignment ''q'' ''r'' ''architect'' None]
      = Valid"
proof -
  let ?q = "plain_assignment ''q'' ''r'' ''architect'' None"
  let ?p = "plain_assignment ''p'' ''r'' ''coder'' (Some ''q'')"
  let ?c = "plain_assignment ''c'' ''r'' ''tester'' (Some ''p'')"
  have parent: "as_parent [?p, ?q] ?p = Some ?q"
    by (simp add: as_parent_def plain_assignment_def)
  then have above: "as_above [?p, ?q] ?p ?q" by (rule as_above.here)
  have ok: "as_validateNoCrossRunDependencies ?c (Some ?p) [?p, ?q] = Valid"
    using parent
    by (simp add: as_validateNoCrossRunDependencies_def hasCircularDependency.simps [of ?p])
      (simp add: plain_assignment_def)
  from valid_parent_chain [OF ok above] ok show ?thesis by (simp add: plain_assignment_def)
qed

text \<open>
  The check looks upwards from the parent and never at the assignment itself, so a loop of
  two is accepted: when \<open>b\<close> already has \<open>a\<close> as its parent and \<open>a\<close> is stored without one,
  making \<open>b\<close> the parent of \<open>a\<close> passes, and in the updated list \<open>a\<close> is above itself.
\<close>

theorem two_loop_accepted:
  assumes "as_parentId a = None" and "as_parentId b = Some (as_id a)" and "as_id a \<noteq> []"
    and "as_id b \<noteq> []" and "as_id a \<noteq> as_id b" and "as_runId b = as_runId a"
  defines "a' \<equiv> a\<lparr>as_parentId := Some (as_id b)\<rparr>"
  shows "as_validateNoCrossRunDependencies a' (Some b) [a, b] = Valid \<and> as_above [a', b] a' a'"
proof
  have find: "as_parent [a, b] b = Some a"
    using assms by (simp add: as_parent_def)
  have "\<not> hasCircularDependency b (as_runId a) [a, b] []"
    using assms(1,6) by (simp add: hasCircularDependency.simps [of b] find)
  then show "as_validateNoCrossRunDependencies a' (Some b) [a, b] = Valid"
    using assms(6) by (simp add: as_validateNoCrossRunDependencies_def a'_def)
  have "as_parent [a', b] a' = Some b" "as_parent [a', b] b = Some a'"
    using assms(2-5) by (simp_all add: as_parent_def a'_def)
  then show "as_above [a', b] a' a'" by (blast intro: as_above.intros)
qed

theorem two_loop_accepted_witness:
  "as_validateNoCrossRunDependencies (plain_assignment ''a'' ''r'' ''coder'' (Some ''b''))
     (Some (plain_assignment ''b'' ''r'' ''tester'' (Some ''a'')))
     [plain_assignment ''a'' ''r'' ''coder'' None, plain_assignment ''b'' ''r'' ''tester'' (Some ''a'')]
   = Valid"
  using two_loop_accepted [of "plain_assignment ''a'' ''r'' ''coder'' None"
      "plain_assignment ''b'' ''r'' ''tester'' (Some ''a'')"]
  by (simp add: plain_assignment_def)

end
