(* ===== verification/Sessions.thy ===== *)
theory Sessions
  imports Assignments
begin

text \<open>
  Sessions of a run (\<open>session.ts\<close>): the entity and its consistency validator: the run
  exists and its state allows the session's mode, one live session per run and agent, and a
  parent hierarchy inside the run of bounded depth.
\<close>

datatype session_status = SsCreated | SsActive | SsSuspended | SsCompleted | SsFailed | SsCancelled

datatype session_mode = MPlanning | MAnalysis | MExecution | MVerification | MRecovery | MAudit

record context_snapshot =
  cs_step :: int
  cs_state :: json
  cs_memory :: json

record session =
  ss_id :: string
  ss_runId :: string
  ss_agentName :: string
  ss_title :: string
  ss_description :: "string option"
  ss_status :: session_status
  ss_mode :: session_mode
  ss_parentId :: "string option"
  ss_createdAt :: int
  ss_updatedAt :: int
  ss_startedAt :: "int option"
  ss_suspendedAt :: "int option"
  ss_resumedAt :: "int option"
  ss_completedAt :: "int option"
  ss_failedAt :: "int option"
  ss_cancelledAt :: "int option"
  ss_messageCount :: "int option"
  ss_tokenUsage :: "token_usage option"
  ss_lastMessageAt :: "int option"
  ss_contextSnapshot :: "context_snapshot option"

datatype session_error =
    SsMissingRun string string
  | SsModeIncompatible session_mode run_state "session_mode list"
  | SsDuplicateActive string string bool
  | SsForeignParent string string
  | SsTooDeep string

fun compatible_modes :: "run_state \<Rightarrow> session_mode list" where
  "compatible_modes RCreated = [MPlanning]"
| "compatible_modes RPlanning = [MPlanning]"
| "compatible_modes RAnalysing = [MAnalysis]"
| "compatible_modes RDelegating = [MExecution, MAudit]"
| "compatible_modes RExecuting = [MExecution]"
| "compatible_modes RVerifying = [MVerification, MAudit]"
| "compatible_modes RRecovering = [MRecovery, MAudit]"
| "compatible_modes RCompleted = []"
| "compatible_modes RFailed = []"
| "compatible_modes RCancelled = []"

definition validateModeCompatibility :: "run_state \<Rightarrow> session_mode \<Rightarrow> session_error verdict" where
  "validateModeCompatibility st m =
     verdict_of (if m \<notin> set (compatible_modes st)
                 then [SsModeIncompatible m st (compatible_modes st)] else [])"

text \<open>The mode may be absent from the argument, and then stands for planning.\<close>

definition ss_validateRunOwnership ::
    "string \<Rightarrow> string \<Rightarrow> session_mode option \<Rightarrow> task_run option \<Rightarrow> session_error verdict" where
  "ss_validateRunOwnership sid rid m run =
     (case run of
        None \<Rightarrow> Rejected [SsMissingRun sid rid]
      | Some r \<Rightarrow>
          verdict_of
            (case validateModeCompatibility (tr_status r) (nullish m MPlanning) of
               Valid \<Rightarrow> [] | Rejected errors \<Rightarrow> errors))"

definition ss_live :: "session_status \<Rightarrow> bool" where
  "ss_live st \<longleftrightarrow> st \<in> set [SsActive, SsCreated, SsSuspended]"

definition ss_validateUniqueness ::
    "string \<Rightarrow> string \<Rightarrow> string \<Rightarrow> session list \<Rightarrow> bool \<Rightarrow> session_error verdict" where
  "ss_validateUniqueness sid rid agent existing allowConcurrent =
     verdict_of
       (case List.find (\<lambda>s. ss_runId s = rid \<and> ss_agentName s = agent \<and> ss_id s \<noteq> sid
                          \<and> \<not> allowConcurrent \<and> ss_live (ss_status s)) existing of
          None \<Rightarrow> [] | Some _ \<Rightarrow> [SsDuplicateActive rid agent allowConcurrent])"

definition ss_parent :: "session list \<Rightarrow> session \<Rightarrow> session option" where
  "ss_parent allSessions s =
     (if truthy (ss_parentId s)
      then List.find (\<lambda>p. Some (ss_id p) = ss_parentId s) allSessions else None)"

text \<open>A session without a parent, and one whose parent is not in the list, both end the walk.\<close>

function hasExcessiveHierarchy ::
    "session \<Rightarrow> string \<Rightarrow> session list \<Rightarrow> nat \<Rightarrow> nat \<Rightarrow> bool" where
  "hasExcessiveHierarchy s rootRunId allSessions depth maxDepth =
     (if depth > maxDepth then True
      else
        case ss_parent allSessions s of
          None \<Rightarrow> False
        | Some p \<Rightarrow>
            if ss_runId p \<noteq> rootRunId then True
            else hasExcessiveHierarchy p rootRunId allSessions (depth + 1) maxDepth)"
  by pat_completeness auto
termination
  by (relation "measure (\<lambda>(s, r, xs, d, m). m + 1 - d)") auto

declare hasExcessiveHierarchy.simps [simp del]

definition ss_validateNoCrossRunDependencies ::
    "session \<Rightarrow> session option \<Rightarrow> session list \<Rightarrow> session_error verdict" where
  "ss_validateNoCrossRunDependencies s parent runSessions =
     verdict_of
       ((case parent of
           None \<Rightarrow> []
         | Some p \<Rightarrow> if ss_runId p \<noteq> ss_runId s then [SsForeignParent (ss_id p) (ss_runId p)] else [])
        @ (if hasExcessiveHierarchy s (ss_runId s) runSessions 0 10
           then [SsTooDeep (ss_runId s)] else []))"

section \<open>The hierarchy as a chain\<close>

text \<open>The first \<open>n\<close> sessions above one, fewer when the chain ends.\<close>

fun ss_chain :: "session list \<Rightarrow> session \<Rightarrow> nat \<Rightarrow> session list" where
  "ss_chain xs s 0 = []"
| "ss_chain xs s (Suc n) =
     (case ss_parent xs s of None \<Rightarrow> [] | Some p \<Rightarrow> p # ss_chain xs p n)"

lemma hasExcessiveHierarchy_chain:
  "d \<le> m \<Longrightarrow> hasExcessiveHierarchy s r xs d m \<longleftrightarrow>
     \<not> (length (ss_chain xs s (m + 1 - d)) < m + 1 - d
        \<and> list_all (\<lambda>p. ss_runId p = r) (ss_chain xs s (m + 1 - d)))"
proof (induction s r xs d m rule: hasExcessiveHierarchy.induct)
  case (1 s r xs d m)
  then obtain n where n: "m + 1 - d = Suc n" by (metis Suc_diff_le Suc_eq_plus1)
  show ?case
  proof (cases "ss_parent xs s")
    case None
    with "1.prems" n show ?thesis by (simp add: hasExcessiveHierarchy.simps [of s])
  next
    case (Some p)
    show ?thesis
    proof (cases "ss_runId p = r")
      case False
      with Some "1.prems" n show ?thesis by (simp add: hasExcessiveHierarchy.simps [of s])
    next
      case True
      have step: "hasExcessiveHierarchy s r xs d m = hasExcessiveHierarchy p r xs (d + 1) m"
        using Some True "1.prems" by (simp add: hasExcessiveHierarchy.simps [of s])
      show ?thesis
      proof (cases "d + 1 \<le> m")
        case True': True
        have k: "m + 1 - (d + 1) = n" using n by simp
        from "1.IH" [OF _ Some _ True'] "1.prems" True show ?thesis
          unfolding step n k using Some True by auto
      next
        case False
        then have "n = 0" "hasExcessiveHierarchy p r xs (d + 1) m"
          using n by (simp_all add: hasExcessiveHierarchy.simps [of p])
        then show ?thesis unfolding step n using Some True by simp
      qed
    qed
  qed
qed

definition plain_session :: "string \<Rightarrow> string \<Rightarrow> string \<Rightarrow> session_status \<Rightarrow> string option \<Rightarrow> session" where
  "plain_session i r agent st par =
     \<lparr>ss_id = i, ss_runId = r, ss_agentName = agent, ss_title = ''t'', ss_description = None,
      ss_status = st, ss_mode = MPlanning, ss_parentId = par, ss_createdAt = 0, ss_updatedAt = 0,
      ss_startedAt = None, ss_suspendedAt = None, ss_resumedAt = None, ss_completedAt = None,
      ss_failedAt = None, ss_cancelledAt = None, ss_messageCount = None, ss_tokenUsage = None,
      ss_lastMessageAt = None, ss_contextSnapshot = None\<rparr>"

section \<open>Properties\<close>

text \<open>
  The hierarchy check accepts a session exactly when its parent is in its run, at most ten
  sessions are above it, and all of them are in the run. A looping chain has eleven sessions
  above any of its members, so it is refused.
\<close>

theorem session_hierarchy_bounded:
  "ss_validateNoCrossRunDependencies s parent xs = Valid \<longleftrightarrow>
     (parent = None \<or> ss_runId (the parent) = ss_runId s)
     \<and> length (ss_chain xs s 11) \<le> 10
     \<and> list_all (\<lambda>p. ss_runId p = ss_runId s) (ss_chain xs s 11)"
  using hasExcessiveHierarchy_chain [of 0 10 s "ss_runId s" xs]
  by (auto simp: ss_validateNoCrossRunDependencies_def split: option.splits)

text \<open>
  No session of any mode may be added to a run in a terminal state, and the modes allowed
  in the other states are those of the compatibility table.
\<close>

theorem session_mode_fits_run_state:
  "ss_validateRunOwnership sid rid (Some m) (Some r) = Valid \<longleftrightarrow>
     tr_status r \<notin> set terminal_states \<and> m \<in> set (compatible_modes (tr_status r))"
  by (cases "tr_status r")
    (auto simp: ss_validateRunOwnership_def validateModeCompatibility_def verdict_of_def)

end
