(* ===== verification/Context_Items.thy ===== *)
theory Context_Items
  imports Sessions
begin

text \<open>
  Context items of a run (\<open>context-item.ts\<close>) with the two records that state a run's
  requirements (\<open>runtime-requirement.ts\<close>, \<open>acceptance-criterion-state.ts\<close>). The regular
  expressions of the source validator are predicates over the characters after the prefix.
\<close>

datatype context_item_type =
    CodebaseSummary | AnalysisResult | PlanningOutput | ExecutionLog | VerificationReport
  | UserInput | ExternalReference | ToolOutput | AggregatedKnowledge

datatype context_item_status = CiPending | CiActive | CiArchived | CiSuperseded | CiDeleted

record context_item =
  ci_id :: string
  ci_runId :: string
  ci_type :: context_item_type
  ci_title :: string
  ci_content :: json
  ci_source :: string
  ci_status :: context_item_status
  ci_parentId :: "string option"
  ci_createdAt :: int
  ci_updatedAt :: int
  ci_archivedAt :: "int option"
  ci_supersededAt :: "int option"
  ci_deletedAt :: "int option"
  ci_sizeBytes :: "int option"
  ci_version :: "int option"
  ci_checksum :: "string option"
  ci_referencedByRunIds :: "string list option"
  ci_tags :: "string list option"

datatype requirement_type =
    Security | Performance | Reliability | Maintainability | Usability | Compatibility | Compliance

datatype requirement_status = RqPending | RqInProgress | RqValidated | RqFailed | RqSkipped

record validation_results =
  vr_passed :: bool
  vr_details :: "string list"
  vr_evidence :: "string list option"
  vr_validator :: "string option"

record runtime_requirement =
  rq_id :: string
  rq_runId :: string
  rq_title :: string
  rq_description :: "string option"
  rq_type :: requirement_type
  rq_criteria :: string
  rq_status :: requirement_status
  rq_priority :: int
  rq_createdAt :: int
  rq_updatedAt :: int
  rq_validatedAt :: "int option"
  rq_failedAt :: "int option"
  rq_skippedAt :: "int option"
  rq_validationResults :: "validation_results option"

datatype acceptance_status = AcPending | AcPassing | AcFailing | AcBlocked | AcSkipped

datatype impact = ImpactCritical | ImpactHigh | ImpactMedium | ImpactLow

record validation_details =
  vd_method :: string
  vd_expected :: json
  vd_actual :: json
  vd_tolerance :: "int option"

record failure_analysis =
  fa_cause :: string
  fa_impact :: impact
  fa_suggestedFix :: "string option"

record acceptance_criterion =
  ac_id :: string
  ac_runId :: string
  ac_title :: string
  ac_description :: "string option"
  ac_status :: acceptance_status
  ac_sequenceOrder :: int
  ac_createdAt :: int
  ac_updatedAt :: int
  ac_lastCheckedAt :: "int option"
  ac_blockedUntil :: "int option"
  ac_validationDetails :: "validation_details option"
  ac_failureAnalysis :: "failure_analysis option"

section \<open>Stable sources\<close>

definition is_alnum :: "char \<Rightarrow> bool" where
  "is_alnum c \<longleftrightarrow> is_lower c \<or> is_upper c \<or> is_digit c"

definition is_word_dash :: "char \<Rightarrow> bool" where
  "is_word_dash c \<longleftrightarrow> is_alnum c \<or> c = CHR ''_'' \<or> c = CHR ''-''"

definition is_hex_lower :: "char \<Rightarrow> bool" where
  "is_hex_lower c \<longleftrightarrow> is_digit c \<or> (97 \<le> char_code c \<and> char_code c \<le> 102)"

definition is_symbol_char :: "char \<Rightarrow> bool" where
  "is_symbol_char c \<longleftrightarrow> is_alnum c \<or> c \<in> set ''_.<>''"

definition not_line_end :: "char \<Rightarrow> bool" where
  "not_line_end c \<longleftrightarrow> char_code c \<noteq> 10 \<and> char_code c \<noteq> 13"

text \<open>\<open>/^prefix[class]+$/\<close>\<close>

definition matches :: "string \<Rightarrow> (char \<Rightarrow> bool) \<Rightarrow> string \<Rightarrow> bool" where
  "matches prefix ok s \<longleftrightarrow>
     starts_with s prefix \<and> drop (length prefix) s \<noteq> [] \<and> list_all ok (drop (length prefix) s)"

definition valid_patterns :: "(string \<times> (char \<Rightarrow> bool)) list" where
  "valid_patterns =
     [(''ref:'', is_word_dash), (''file:'', is_hex_lower), (''dir:'', is_hex_lower),
      (''symbol:'', is_symbol_char), (''url:'', not_line_end),
      (''agent:'', \<lambda>c. is_lower c \<or> is_upper c), (''tool:'', is_word_dash),
      (''session:'', is_word_dash)]"

text \<open>\<open>/^[a-zA-Z]:\\/\<close>\<close>

fun is_drive_path :: "string \<Rightarrow> bool" where
  "is_drive_path (a # b # c # _) = ((is_lower a \<or> is_upper a) \<and> b = CHR '':'' \<and> char_code c = 92)"
| "is_drive_path _ = False"

datatype source_error = NotStable string | MutablePath string

definition validateStableSource :: "string \<Rightarrow> source_error verdict" where
  "validateStableSource source =
     verdict_of
       ((if \<not> list_ex (\<lambda>p. matches (fst p) (snd p) source) valid_patterns
         then [NotStable source] else [])
        @ (if is_drive_path source \<or> starts_with source ''/'' then [MutablePath source] else []))"

section \<open>Consistency with the run\<close>

datatype context_error =
    CiMissingRun string string
  | CiCompletedRun string
  | CiTerminalReferences string nat "string list"

definition ci_validateRunOwnership ::
    "string \<Rightarrow> string \<Rightarrow> context_item_status \<Rightarrow> task_run option \<Rightarrow> context_error verdict" where
  "ci_validateRunOwnership cid rid st run =
     (case run of
        None \<Rightarrow> Rejected [CiMissingRun cid rid]
      | Some r \<Rightarrow>
          verdict_of (if tr_status r = RCompleted \<and> st \<notin> set [CiArchived, CiDeleted]
                      then [CiCompletedRun rid] else []))"

definition validateSourceStability :: "context_item \<Rightarrow> source_error verdict" where
  "validateSourceStability c = validateStableSource (ci_source c)"

definition validateNoCrossRunMutations ::
    "context_item \<Rightarrow> (string \<times> task_run) list \<Rightarrow> bool \<Rightarrow> context_error verdict" where
  "validateNoCrossRunMutations c referencingRuns isMutation =
     (if \<not> isMutation then Valid
      else
        let terminalRefs =
              filter (\<lambda>(rid, run).
                (case ci_referencedByRunIds c of None \<Rightarrow> False | Some ids \<Rightarrow> rid \<in> set ids)
                \<and> tr_status run \<in> set [RCompleted, RFailed, RCancelled]) referencingRuns
        in verdict_of
             (if length terminalRefs > 0
              then [CiTerminalReferences (ci_id c) (length terminalRefs) (take 3 (map fst terminalRefs))]
              else []))"

definition listUniqueSources :: "context_item list \<Rightarrow> string list" where
  "listUniqueSources items = js_unique (map ci_source items)"

lemma listUniqueSources: "distinct (listUniqueSources cs) \<and> set (listUniqueSources cs) = ci_source ` set cs"
  by (simp add: listUniqueSources_def)

section \<open>Properties\<close>

lemma prefix_not_path:
  "matches p ok s \<Longrightarrow> p \<in> fst ` set valid_patterns \<Longrightarrow> \<not> is_drive_path s \<and> \<not> starts_with s ''/''"
  by (cases s rule: is_drive_path.cases)
    (auto simp: valid_patterns_def matches_def starts_with_def)

text \<open>
  A source is accepted exactly when one of the eight stable forms matches it; a drive path
  or an absolute path is refused for both reasons at once, so the second check never decides.
\<close>

theorem stable_source_iff_pattern:
  "(validateStableSource s = Valid \<longleftrightarrow> list_ex (\<lambda>p. matches (fst p) (snd p) s) valid_patterns)
   \<and> (MutablePath s \<in> (case validateStableSource s of Valid \<Rightarrow> {} | Rejected es \<Rightarrow> set es)
       \<longleftrightarrow> validateStableSource s = Rejected [NotStable s, MutablePath s])"
proof -
  have path: "\<not> is_drive_path s \<and> \<not> starts_with s ''/''"
    if "list_ex (\<lambda>p. matches (fst p) (snd p) s) valid_patterns"
    using that by (auto simp: list_ex_iff dest: prefix_not_path)
  then show ?thesis
    by (auto simp: validateStableSource_def verdict_of_def)
qed

text \<open>
  An item that some given run in a terminal state refers to can not be mutated; with no such
  run, and for every operation that is not a mutation, the validator agrees.
\<close>

theorem shared_context_immutable_after_terminal:
  "validateNoCrossRunMutations c runs mutation = Valid \<longleftrightarrow>
     \<not> (mutation \<and> (\<exists>rid run. (rid, run) \<in> set runs \<and> tr_status run \<in> set terminal_states
           \<and> (\<exists>ids. ci_referencedByRunIds c = Some ids \<and> rid \<in> set ids)))"
  by (auto simp: validateNoCrossRunMutations_def Let_def filter_empty_conv split: option.splits)
    blast+

end
