(* ===== verification/Worktree_Leases.thy ===== *)
theory Worktree_Leases
  imports Prelude
begin

text \<open>
  Leases on worktrees with fencing tokens (\<open>worktree-leases.ts\<close>, class
  \<open>InMemoryWorktreeLeaseRepository\<close>). The state is the map of leases and the map of the last
  token given out for each worktree; every operation takes the current time.
\<close>

record lease =
  l_worktreeKey :: string
  l_ownerId :: string
  l_acquiredAt :: int
  l_expiresAt :: int
  l_fencingToken :: int

datatype leasing_error_type = ALREADY_OWNED | OWNER_MISMATCH | LEASE_EXPIRED | FENCING_VIOLATION

text \<open>The error's type, the worktree and the names or numbers its message quotes.\<close>

datatype leasing_error =
    AlreadyOwnedBy string string
  | NotTheOwner string string string
  | NoActiveLease string
  | StaleToken string int int

fun error_type :: "leasing_error \<Rightarrow> leasing_error_type" where
  "error_type (AlreadyOwnedBy w o1) = ALREADY_OWNED"
| "error_type (NotTheOwner w o1 o2) = OWNER_MISMATCH"
| "error_type (NoActiveLease w) = LEASE_EXPIRED"
| "error_type (StaleToken w t1 t2) = FENCING_VIOLATION"

record lease_repo =
  lr_leases :: "(string \<times> lease) list"
  lr_worktreeTokens :: "(string \<times> int) list"

definition empty_leases :: lease_repo where
  "empty_leases = \<lparr>lr_leases = [], lr_worktreeTokens = []\<rparr>"

definition default_ttl_ms :: int where
  "default_ttl_ms = 30000"

definition current_token :: "lease_repo \<Rightarrow> string \<Rightarrow> int" where
  "current_token s w = nullish (map_of (lr_worktreeTokens s) w) 0"

text \<open>The part of \<open>acquire\<close> after its check: the next token and a new lease.\<close>

definition grant_lease ::
    "int \<Rightarrow> string \<Rightarrow> string \<Rightarrow> int option \<Rightarrow> lease_repo \<Rightarrow> lease \<times> lease_repo" where
  "grant_lease now w owner ttlMs s =
     (let newToken = current_token s w + 1;
          l = \<lparr>l_worktreeKey = w, l_ownerId = owner, l_acquiredAt = now,
               l_expiresAt = now + nullish ttlMs default_ttl_ms, l_fencingToken = newToken\<rparr>
      in (l, s\<lparr>lr_worktreeTokens := AList.update w newToken (lr_worktreeTokens s),
                lr_leases := AList.update w l (lr_leases s)\<rparr>))"

definition acquire ::
    "int \<Rightarrow> string \<Rightarrow> string \<Rightarrow> int option \<Rightarrow> lease_repo \<Rightarrow> (leasing_error + lease) \<times> lease_repo" where
  "acquire now w owner ttlMs s =
     (case map_of (lr_leases s) w of
        Some existing \<Rightarrow>
          if l_ownerId existing \<noteq> owner then (Inl (AlreadyOwnedBy w (l_ownerId existing)), s)
          else apfst Inr (grant_lease now w owner ttlMs s)
      | None \<Rightarrow> apfst Inr (grant_lease now w owner ttlMs s))"

definition renew ::
    "int \<Rightarrow> string \<Rightarrow> string \<Rightarrow> int option \<Rightarrow> lease_repo \<Rightarrow> (leasing_error + lease) \<times> lease_repo" where
  "renew now w owner ttlMs s =
     (case map_of (lr_leases s) w of
        None \<Rightarrow> (Inl (NoActiveLease w), s)
      | Some existing \<Rightarrow>
          if l_ownerId existing \<noteq> owner then (Inl (NotTheOwner w (l_ownerId existing) owner), s)
          else
            let l = existing\<lparr>l_expiresAt := now + nullish ttlMs default_ttl_ms\<rparr>
            in (Inr l, s\<lparr>lr_leases := AList.update w l (lr_leases s)\<rparr>))"

definition release_lease :: "string \<Rightarrow> string \<Rightarrow> lease_repo \<Rightarrow> lease_repo" where
  "release_lease w owner s =
     (case map_of (lr_leases s) w of
        Some existing \<Rightarrow>
          if l_ownerId existing = owner then s\<lparr>lr_leases := AList.delete w (lr_leases s)\<rparr> else s
      | None \<Rightarrow> s)"

definition getLease :: "int \<Rightarrow> string \<Rightarrow> lease_repo \<Rightarrow> lease option \<times> lease_repo" where
  "getLease now w s =
     (case map_of (lr_leases s) w of
        None \<Rightarrow> (None, s)
      | Some l \<Rightarrow>
          if now > l_expiresAt l then (None, s\<lparr>lr_leases := AList.delete w (lr_leases s)\<rparr>)
          else (Some l, s))"

definition lease_isOwnedBy :: "int \<Rightarrow> string \<Rightarrow> string \<Rightarrow> lease_repo \<Rightarrow> bool \<times> lease_repo" where
  "lease_isOwnedBy now w owner s =
     (case getLease now w s of
        (None, s') \<Rightarrow> (False, s') | (Some l, s') \<Rightarrow> (l_ownerId l = owner, s'))"

definition validateFencing :: "string \<Rightarrow> string \<Rightarrow> int option \<Rightarrow> lease_repo \<Rightarrow> leasing_error verdict" where
  "validateFencing w owner providedToken s =
     (case map_of (lr_leases s) w of
        None \<Rightarrow> Rejected [NoActiveLease w]
      | Some current \<Rightarrow>
          if l_ownerId current \<noteq> owner then Rejected [NotTheOwner w owner (l_ownerId current)]
          else
            (case providedToken of
               Some t \<Rightarrow>
                 if l_fencingToken current \<noteq> t then Rejected [StaleToken w (l_fencingToken current) t]
                 else Valid
             | None \<Rightarrow> Valid))"

definition lease_getOwner :: "int \<Rightarrow> string \<Rightarrow> lease_repo \<Rightarrow> string option \<times> lease_repo" where
  "lease_getOwner now w s = (case getLease now w s of (l, s') \<Rightarrow> (map_option l_ownerId l, s'))"

section \<open>Sequences of operations\<close>

datatype lease_op =
    OpAcquire int string string "int option"
  | OpRenew int string string "int option"
  | OpRelease string string
  | OpGetLease int string
  | OpIsOwnedBy int string string
  | OpGetOwner int string

fun lease_exec :: "lease_op \<Rightarrow> lease_repo \<Rightarrow> lease_repo" where
  "lease_exec (OpAcquire now w owner ttl) s = snd (acquire now w owner ttl s)"
| "lease_exec (OpRenew now w owner ttl) s = snd (renew now w owner ttl s)"
| "lease_exec (OpRelease w owner) s = release_lease w owner s"
| "lease_exec (OpGetLease now w) s = snd (getLease now w s)"
| "lease_exec (OpIsOwnedBy now w owner) s = snd (lease_isOwnedBy now w owner s)"
| "lease_exec (OpGetOwner now w) s = snd (lease_getOwner now w s)"

text \<open>The reads that collect an expired lease change the state as \<open>getLease\<close> does.\<close>

lemma lease_reads [simp]:
  "snd (lease_isOwnedBy now w owner s) = snd (getLease now w s)"
  "snd (lease_getOwner now w s) = snd (getLease now w s)"
  by (auto simp: lease_isOwnedBy_def lease_getOwner_def split: prod.split option.split)

lemma tokens_frame [frame_simps]:
  "lr_worktreeTokens (snd (renew now w owner ttl s)) = lr_worktreeTokens s"
  "lr_worktreeTokens (release_lease w owner s) = lr_worktreeTokens s"
  "lr_worktreeTokens (snd (getLease now w s)) = lr_worktreeTokens s"
  by (auto simp: renew_def release_lease_def getLease_def Let_def split: option.split)

lemma current_token_frame [frame_simps]:
  "current_token (snd (renew now w owner ttl s)) w' = current_token s w'"
  "current_token (release_lease w owner s) w' = current_token s w'"
  "current_token (snd (getLease now w s)) w' = current_token s w'"
  by (simp_all add: current_token_def tokens_frame)

lemma current_token_acquire:
  "current_token (snd (acquire now w owner ttl s)) w'
     = current_token s w' + (case fst (acquire now w owner ttl s) of Inl _ \<Rightarrow> 0 | Inr _ \<Rightarrow> if w' = w then 1 else 0)"
  by (auto simp: acquire_def grant_lease_def current_token_def Let_def store_simps split: option.split)

lemma lease_exec_tokens: "current_token s w \<le> current_token (lease_exec x s) w"
  by (cases x) (auto simp: current_token_acquire frame_simps split: sum.split)

interpretation leases: monotone_counter current_token lease_exec
  by unfold_locales (rule lease_exec_tokens)

text \<open>Every stored lease is under its own key and carries the last token of its worktree.\<close>

definition lease_inv :: "lease_repo \<Rightarrow> bool" where
  "lease_inv s \<longleftrightarrow>
     (\<forall>w l. map_of (lr_leases s) w = Some l \<longrightarrow> l_worktreeKey l = w \<and> l_fencingToken l = current_token s w)"

lemma lease_inv_exec: "lease_inv s \<Longrightarrow> lease_inv (lease_exec x s)"
  by (cases x)
    (auto simp: lease_inv_def acquire_def grant_lease_def renew_def release_lease_def getLease_def
      current_token_def Let_def store_simps split: option.splits if_splits)

lemma lease_inv_run: "lease_inv s \<Longrightarrow> lease_inv (leases.run s xs)"
  by (induction xs arbitrary: s) (simp_all add: lease_inv_exec)

lemma lease_inv_empty: "lease_inv empty_leases"
  by (simp add: lease_inv_def empty_leases_def)

lemma acquire_Inr:
  "acquire now w owner ttl s = (Inr l, s') \<Longrightarrow>
     l_worktreeKey l = w \<and> l_ownerId l = owner \<and> l_fencingToken l = current_token s w + 1
     \<and> current_token s' w = current_token s w + 1 \<and> map_of (lr_leases s') w = Some l"
  by (auto simp: acquire_def grant_lease_def current_token_def Let_def store_simps
      split: option.splits if_splits)

lemma later_lease_greater:
  assumes "acquire now w owner ttl s = (Inr l, s')"
    and "acquire now' w owner' ttl' (leases.run s' ops) = (Inr l', s'')"
  shows "l_fencingToken l < l_fencingToken l'"
  using acquire_Inr [OF assms(1)] acquire_Inr [OF assms(2)] leases.run_mono [of s' w ops] by linarith

section \<open>Properties\<close>

text \<open>
  Fencing tokens of a worktree only grow: whatever happens after a lease was granted, a
  lease granted later on the same worktree, to any owner, has a greater token.
\<close>

theorem fencing_tokens_increase:
  assumes "acquire now w owner ttl s = (Inr l, s')"
    and "acquire now' w owner' ttl' (leases.run s' ops) = (Inr l', s'')"
  shows "l_fencingToken l < l_fencingToken l'"
  using assms by (rule later_lease_greater)

text \<open>
  A superseded token is refused: once another lease has been granted on the worktree, no
  owner passes the fencing check with the older token, whatever operations follow.
\<close>

theorem superseded_token_refused:
  assumes "lease_inv s" and "acquire now w owner ttl s = (Inr l, s')"
    and "acquire now' w owner' ttl' (leases.run s' ops) = (Inr l', s'')"
  shows "validateFencing w anyone (Some (l_fencingToken l)) (leases.run s'' ops') \<noteq> Valid"
proof -
  let ?t = "leases.run s'' ops'"
  have inv: "lease_inv s'"
    using lease_inv_exec [OF assms(1), of "OpAcquire now w owner ttl"] assms(2) by simp
  have "lease_inv s''"
    using lease_inv_exec [OF lease_inv_run [OF inv, of ops], of "OpAcquire now' w owner' ttl'"] assms(3)
    by simp
  then have t: "lease_inv ?t" by (rule lease_inv_run)
  have "l_fencingToken l < current_token s'' w"
    using later_lease_greater [OF assms(2,3)] acquire_Inr [OF assms(3)] by simp
  also have "\<dots> \<le> current_token ?t w" by (rule leases.run_mono)
  finally have "l_fencingToken l < current_token ?t w" .
  with t show ?thesis
    by (auto simp: validateFencing_def lease_inv_def split: option.split)
qed

theorem fencing_tokens_increase_witness:
  "(1::int) < 2 \<and> acquire 0 ''w'' ''a'' None empty_leases
     = (Inr \<lparr>l_worktreeKey = ''w'', l_ownerId = ''a'', l_acquiredAt = 0, l_expiresAt = 30000,
             l_fencingToken = 1\<rparr>, snd (acquire 0 ''w'' ''a'' None empty_leases))"
proof -
  let ?s' = "snd (acquire 0 ''w'' ''a'' None empty_leases)"
  let ?l = "\<lparr>l_worktreeKey = ''w'', l_ownerId = ''a'', l_acquiredAt = 0, l_expiresAt = 30000, l_fencingToken = 1\<rparr>"
  have first: "acquire 0 ''w'' ''a'' None empty_leases = (Inr ?l, ?s')"
    by (simp add: acquire_def grant_lease_def empty_leases_def current_token_def default_ttl_ms_def
        Let_def)
  have second: "\<exists>l' s''. l_fencingToken l' = 2
      \<and> acquire 9 ''w'' ''b'' None (leases.run ?s' [OpRelease ''w'' ''a'']) = (Inr l', s'')"
    by (simp add: acquire_def grant_lease_def empty_leases_def current_token_def release_lease_def
        Let_def)
  then obtain l' s'' where "l_fencingToken l' = 2"
      "acquire 9 ''w'' ''b'' None (leases.run ?s' [OpRelease ''w'' ''a'']) = (Inr l', s'')"
    by blast
  with fencing_tokens_increase [OF first, of 9 "''b''" None "[OpRelease ''w'' ''a'']" l' s''] first
  show ?thesis by simp
qed

theorem superseded_token_refused_witness:
  "validateFencing ''w'' ''a'' (Some 1)
     (leases.run empty_leases [OpAcquire 0 ''w'' ''a'' None, OpRelease ''w'' ''a'',
        OpAcquire 9 ''w'' ''b'' None]) \<noteq> Valid"
proof -
  let ?s' = "snd (acquire 0 ''w'' ''a'' None empty_leases)"
  have first: "\<exists>l. l_fencingToken l = 1 \<and> acquire 0 ''w'' ''a'' None empty_leases = (Inr l, ?s')"
    by (simp add: acquire_def grant_lease_def empty_leases_def current_token_def Let_def)
  then obtain l where l: "l_fencingToken l = 1" "acquire 0 ''w'' ''a'' None empty_leases = (Inr l, ?s')"
    by blast
  let ?u = "leases.run ?s' [OpRelease ''w'' ''a'']"
  have "\<exists>l'. acquire 9 ''w'' ''b'' None ?u = (Inr l', snd (acquire 9 ''w'' ''b'' None ?u))"
    by (simp add: acquire_def grant_lease_def empty_leases_def current_token_def release_lease_def Let_def)
  then obtain l' where "acquire 9 ''w'' ''b'' None ?u = (Inr l', snd (acquire 9 ''w'' ''b'' None ?u))" ..
  from superseded_token_refused [OF lease_inv_empty l(2) this, of "''a''" "[]"] l(1)
  show ?thesis by simp
qed

text \<open>
  Expiry is not looked at where it matters: while the entry of a worktree is stored, a
  request by another owner is refused at every time, and the owner passes the fencing check at
  every time; only the reads remove an entry that has expired.
\<close>

theorem expired_lease_still_binds:
  assumes "map_of (lr_leases s) w = Some l"
  shows "(l_ownerId l \<noteq> owner \<longrightarrow> acquire now w owner ttl s = (Inl (AlreadyOwnedBy w (l_ownerId l)), s))
    \<and> validateFencing w (l_ownerId l) (Some (l_fencingToken l)) s = Valid
    \<and> (l_expiresAt l < now \<longrightarrow> fst (getLease now w s) = None
        \<and> map_of (lr_leases (snd (getLease now w s))) w = None)"
  using assms by (auto simp: acquire_def validateFencing_def getLease_def store_simps)

theorem expired_lease_still_binds_witness:
  "acquire 99999 ''w'' ''b'' None (snd (acquire 0 ''w'' ''a'' None empty_leases))
     = (Inl (AlreadyOwnedBy ''w'' ''a''), snd (acquire 0 ''w'' ''a'' None empty_leases))"
proof -
  let ?s = "snd (acquire 0 ''w'' ''a'' None empty_leases)"
  have "\<exists>l. l_ownerId l = ''a'' \<and> map_of (lr_leases ?s) ''w'' = Some l"
    by (simp add: acquire_def grant_lease_def empty_leases_def Let_def)
  then obtain l where "l_ownerId l = ''a''" "map_of (lr_leases ?s) ''w'' = Some l" by blast
  with expired_lease_still_binds [of ?s "''w''" l "''b''" 99999 None] show ?thesis by simp
qed

end
