(* ===== verification/Event_Store.thy ===== *)
theory Event_Store
  imports Runtime_Events
begin

text \<open>
  The in-memory event store (\<open>event-store/in-memory-store.ts\<close>): append with expected
  version, duplicate and type checks, rollback, and the reads. \<open>append_events\<close> is an append that runs undisturbed.
  The source awaits between its checks and its commit, and other calls may run there: \<open>append_step\<close> cuts the call at
  these points and lets any number of calls interleave.

  Outside the source: \<open>sha\<close> is SHA-256 of a text's bytes, \<open>genId i\<close> what the event id
  generator returns for the \<open>i\<close>-th event of a call, \<open>clk\<close> the successive clock readings of a
  call, and \<open>appendId\<close> what the append id generator returns.
\<close>

record pending_append =
  pa_appendId :: string
  pa_aggregateId :: string
  pa_events :: "uncommitted_event list"
  pa_expectedVersion :: int
  pa_startSequenceNumber :: "int option"
  pa_createdAt :: int

record event_store =
  es_eventStreams :: "(string \<times> persisted_event list) list"
  es_versionCache :: "(string \<times> int) list"
  es_eventIndex :: "(string \<times> persisted_event) list"
  es_commandIndex :: "(string \<times> string) list"
  es_pendingAppends :: "(string \<times> pending_append) list"
  es_nextSequence :: int

definition empty_store :: event_store where
  "empty_store =
     \<lparr>es_eventStreams = [], es_versionCache = [], es_eventIndex = [], es_commandIndex = [],
      es_pendingAppends = [], es_nextSequence = 1\<rparr>"

definition knownEventTypes :: "string list" where
  "knownEventTypes =
     [''RunCreated'', ''RunStartedPlanning'', ''RunCompletedPlanning'', ''RunStartedAnalysis'',
      ''RunCompletedAnalysis'', ''RunStartedExecution'', ''RunCompletedExecution'', ''RunVerified'',
      ''RunCompleted'', ''RunFailed'', ''RunCancelled'', ''RunRecovered'']"

datatype store_error =
    EmptyAppend
  | Concurrency concurrency_error
  | DuplicateFound duplicate_check
  | UnknownEventType string
  | SequenceViolation int int

text \<open>The counter's \<open>next\<close> and \<open>current\<close>; the store calls \<open>current\<close> only.\<close>

definition seq_next :: "event_store \<Rightarrow> int \<times> event_store" where
  "seq_next s = (es_nextSequence s, s\<lparr>es_nextSequence := es_nextSequence s + 1\<rparr>)"

definition seq_current :: "event_store \<Rightarrow> int" where
  "seq_current s = es_nextSequence s - 1"

definition computePayloadHash :: "(string \<Rightarrow> nat list) \<Rightarrow> json \<Rightarrow> string" where
  "computePayloadHash sha payload = concat (map byte_hex (sha (json_str payload)))"

definition getAggregateVersion :: "event_store \<Rightarrow> string \<Rightarrow> int" where
  "getAggregateVersion s aid = nullish (map_of (es_versionCache s) aid) 0"

definition stream :: "event_store \<Rightarrow> string \<Rightarrow> persisted_event list" where
  "stream s aid = nullish (map_of (es_eventStreams s) aid) []"

definition createConcurrencyError :: "concurrency_kind \<Rightarrow> string \<Rightarrow> int \<Rightarrow> int \<Rightarrow> concurrency_error" where
  "createConcurrencyError k aid e a =
     \<lparr>ce_kind = k, ce_aggregateId = aid, ce_expectedVersion = e, ce_actualVersion = a\<rparr>"

definition validateAppend :: "event_store \<Rightarrow> string \<Rightarrow> int \<Rightarrow> concurrency_error + int" where
  "validateAppend s aid expectedVersion =
     (let actualVersion = getAggregateVersion s aid in
      if expectedVersion < actualVersion
        then Inl (createConcurrencyError STALE_VERSION aid expectedVersion actualVersion)
      else if expectedVersion > actualVersion
        then Inl (createConcurrencyError FUTURE_VERSION aid expectedVersion actualVersion)
      else Inr actualVersion)"

definition checkDuplicate :: "event_store \<Rightarrow> uncommitted_event \<Rightarrow> duplicate_check" where
  "checkDuplicate s e =
     (if truthy (ue_commandId e) \<and> truthy (map_of (es_commandIndex s) (the (ue_commandId e)))
      then DuplicateCommand (the (ue_commandId e))
      else if truthy (ue_eventId e) then
        (case map_of (es_eventIndex s) (the (ue_eventId e)) of
           Some p \<Rightarrow> DuplicateEvent p | None \<Rightarrow> NotDuplicate)
      else NotDuplicate)"

definition validateEventType :: "string \<Rightarrow> string verdict" where
  "validateEventType ty = verdict_of (if ty \<notin> set knownEventTypes then [ty] else [])"

text \<open>The first event that is a duplicate or of unknown type ends the append.\<close>

fun check_events :: "event_store \<Rightarrow> uncommitted_event list \<Rightarrow> store_error option" where
  "check_events s [] = None"
| "check_events s (e # es) =
     (case checkDuplicate s e of
        NotDuplicate \<Rightarrow>
          (case validateEventType (ue_eventType e) of
             Valid \<Rightarrow> check_events s es
           | Rejected _ \<Rightarrow> Some (UnknownEventType (ue_eventType e)))
      | d \<Rightarrow> Some (DuplicateFound d))"

definition append_check :: "event_store \<Rightarrow> string \<Rightarrow> uncommitted_event list \<Rightarrow> int \<Rightarrow> store_error option" where
  "append_check s aid events expectedVersion =
     (if events = [] then Some EmptyAppend
      else
        case validateAppend s aid expectedVersion of
          Inl e \<Rightarrow> Some (Concurrency e)
        | Inr _ \<Rightarrow> check_events s events)"

definition persist_event ::
    "(string \<Rightarrow> nat list) \<Rightarrow> (nat \<Rightarrow> string) \<Rightarrow> (nat \<Rightarrow> int) \<Rightarrow> string \<Rightarrow> int \<Rightarrow> nat \<Rightarrow> int
      \<Rightarrow> uncommitted_event \<Rightarrow> persisted_event" where
  "persist_event sha genId clk aid expectedVersion i seq e =
     (let ver = expectedVersion + int i + 1;
          payload = nullish (ue_payload e) (JObj []);
          h = computePayloadHash sha payload
      in \<lparr>pe_eventId = nullish (ue_eventId e) (genId i), pe_event = payload,
          pe_eventType = ue_eventType e, pe_aggregateId = aid, pe_aggregateVersion = ver,
          pe_globalSequence = seq, pe_timestamp = clk (3 * i), pe_payloadHash = h,
          pe_checksum = h @ '':'' @ int_str seq @ '':'' @ int_str ver,
          pe_committedAt = clk (3 * i + 1), pe_createdAt = nullish (ue_createdAt e) (clk (3 * i + 2)),
          pe_metadata = ue_metadata e, pe_commandId = ue_commandId e,
          pe_correlationId = ue_correlationId e\<rparr>)"

text \<open>The loop over the events: \<open>i\<close> is the index, \<open>seq\<close> the next sequence number.\<close>

fun append_build ::
    "(string \<Rightarrow> nat list) \<Rightarrow> (nat \<Rightarrow> string) \<Rightarrow> (nat \<Rightarrow> int) \<Rightarrow> event_store \<Rightarrow> string \<Rightarrow> int \<Rightarrow> nat \<Rightarrow> int
      \<Rightarrow> uncommitted_event list \<Rightarrow> store_error + persisted_event list" where
  "append_build sha genId clk s aid expectedVersion i seq [] = Inr []"
| "append_build sha genId clk s aid expectedVersion i seq (e # es) =
     (if seq \<le> seq_current s then Inl (SequenceViolation seq (seq_current s))
      else
        case append_build sha genId clk s aid expectedVersion (i + 1) (seq + 1) es of
          Inl err \<Rightarrow> Inl err
        | Inr ps \<Rightarrow> Inr (persist_event sha genId clk aid expectedVersion i seq e # ps))"

definition index_event :: "event_store \<Rightarrow> persisted_event \<Rightarrow> event_store" where
  "index_event s p =
     (let s' = s\<lparr>es_eventIndex := AList.update (pe_eventId p) p (es_eventIndex s)\<rparr> in
      if truthy (pe_commandId p)
      then s'\<lparr>es_commandIndex := AList.update (the (pe_commandId p)) (pe_eventId p) (es_commandIndex s')\<rparr>
      else s')"

definition append_commit ::
    "string \<Rightarrow> string \<Rightarrow> int \<Rightarrow> persisted_event list \<Rightarrow> event_store \<Rightarrow> event_store" where
  "append_commit appendId aid expectedVersion assigned s =
     (let newStream = stream s aid @ assigned;
          s1 = foldl index_event s assigned
      in s1\<lparr>es_eventStreams := AList.update aid newStream (es_eventStreams s1),
            es_versionCache := AList.update aid (expectedVersion + int (length assigned)) (es_versionCache s1),
            es_pendingAppends := AList.delete appendId (es_pendingAppends s1)\<rparr>)"

definition append_events ::
    "(string \<Rightarrow> nat list) \<Rightarrow> (nat \<Rightarrow> string) \<Rightarrow> (nat \<Rightarrow> int) \<Rightarrow> string \<Rightarrow> string \<Rightarrow> uncommitted_event list
      \<Rightarrow> int \<Rightarrow> int \<Rightarrow> event_store \<Rightarrow> store_error + (append_result \<times> event_store)" where
  "append_events sha genId clk appendId aid events expectedVersion startSeq s =
     (case append_check s aid events expectedVersion of
        Some err \<Rightarrow> Inl err
      | None \<Rightarrow>
          (case append_build sha genId clk s aid expectedVersion 0 startSeq events of
             Inl err \<Rightarrow> Inl err
           | Inr assigned \<Rightarrow>
               Inr (\<lparr>ar_appendedCount = length events,
                     ar_nextExpectedVersion = expectedVersion + int (length events),
                     ar_sequenceNumberStart = startSeq, ar_events = assigned\<rparr>,
                    append_commit appendId aid expectedVersion assigned s)))"

text \<open>Rollback: forget the events of a pending append.\<close>

definition drop_index :: "event_store \<Rightarrow> uncommitted_event \<Rightarrow> event_store" where
  "drop_index s e =
     (let s1 = (if truthy (ue_eventId e)
                then s\<lparr>es_eventIndex := AList.delete (the (ue_eventId e)) (es_eventIndex s)\<rparr> else s)
      in if truthy (ue_commandId e)
         then s1\<lparr>es_commandIndex := AList.delete (the (ue_commandId e)) (es_commandIndex s1)\<rparr> else s1)"

definition rollback :: "string \<Rightarrow> event_store \<Rightarrow> event_store" where
  "rollback appendId s =
     (case map_of (es_pendingAppends s) appendId of
        None \<Rightarrow> s
      | Some pending \<Rightarrow>
          let kept = filter (\<lambda>e. pe_aggregateVersion e \<le> pa_expectedVersion pending)
                       (stream s (pa_aggregateId pending));
              s1 = s\<lparr>es_eventStreams := AList.update (pa_aggregateId pending) kept (es_eventStreams s)\<rparr>
          in foldl drop_index s1 (pa_events pending))"

section \<open>Reads\<close>

definition readStream :: "event_store \<Rightarrow> string \<Rightarrow> int option \<Rightarrow> int option \<Rightarrow> persisted_event list" where
  "readStream s aid fromRevision maxEvents =
     (let r1 = (case fromRevision of None \<Rightarrow> stream s aid
                | Some f \<Rightarrow> filter (\<lambda>e. pe_aggregateVersion e \<ge> f) (stream s aid))
      in case maxEvents of None \<Rightarrow> r1 | Some m \<Rightarrow> slice0 m r1)"

definition readGlobalRange :: "event_store \<Rightarrow> stream_options \<Rightarrow> persisted_event list \<times> bool \<times> int" where
  "readGlobalRange s opts =
     (let allEvents = concat (map snd (es_eventStreams s));
          sorted0 = sort_key pe_globalSequence allEvents;
          sorted1 = (case so_fromRevision opts of None \<Rightarrow> sorted0
                     | Some f \<Rightarrow> filter (\<lambda>e. pe_aggregateVersion e \<ge> f) sorted0);
          sorted2 = (case so_toRevision opts of None \<Rightarrow> sorted1
                     | Some t \<Rightarrow> filter (\<lambda>e. pe_aggregateVersion e \<le> t) sorted1);
          limit = nullish (so_limit opts) 100;
          sliced = slice0 limit sorted2
      in (sliced, int (length sorted2) > limit,
          if sliced = [] then 0 else pe_globalSequence (last sliced)))"

definition getEventById :: "event_store \<Rightarrow> string \<Rightarrow> persisted_event option" where
  "getEventById s i = map_of (es_eventIndex s) i"

section \<open>What an append does\<close>

lemma stream_commit [store_simps]:
  "stream (append_commit i aid v ps s) a = (if a = aid then stream s aid @ ps else stream s a)"
proof -
  have "es_eventStreams (foldl index_event t qs) = es_eventStreams t" for t qs
    by (induction qs arbitrary: t) (simp_all add: index_event_def Let_def)
  then show ?thesis by (simp add: append_commit_def Let_def stream_def store_simps)
qed

lemma version_commit [store_simps]:
  "getAggregateVersion (append_commit i aid v ps s) a =
     (if a = aid then v + int (length ps) else getAggregateVersion s a)"
proof -
  have "es_versionCache (foldl index_event t qs) = es_versionCache t" for t qs
    by (induction qs arbitrary: t) (simp_all add: index_event_def Let_def)
  then show ?thesis by (simp add: append_commit_def Let_def getAggregateVersion_def store_simps)
qed

lemma counters_index [frame_simps]:
  "es_nextSequence (foldl index_event t qs) = es_nextSequence t"
  "es_pendingAppends (foldl index_event t qs) = es_pendingAppends t"
  by (induction qs arbitrary: t) (simp_all add: index_event_def Let_def)

lemma counters_commit [frame_simps]:
  "es_nextSequence (append_commit i aid v ps s) = es_nextSequence s"
  "es_pendingAppends (append_commit i aid v ps s) = AList.delete i (es_pendingAppends s)"
  by (simp_all add: append_commit_def Let_def frame_simps)

text \<open>The commands the store remembers after a list of events was indexed.\<close>

lemma commandIndex_fold:
  "map_of (es_commandIndex (foldl index_event s ps)) c =
     (case List.find (\<lambda>p. pe_commandId p = Some c \<and> c \<noteq> []) (rev ps) of
        Some p \<Rightarrow> Some (pe_eventId p) | None \<Rightarrow> map_of (es_commandIndex s) c)"
proof (induction ps rule: rev_induct)
  case Nil
  show ?case by simp
next
  case (snoc p ps)
  then show ?case
    by (cases "pe_commandId p") (auto simp: index_event_def Let_def store_simps)
qed

lemma commandIndex_commit [store_simps]:
  "es_commandIndex (append_commit i aid v ps s) = es_commandIndex (foldl index_event s ps)"
  by (simp add: append_commit_def Let_def)

text \<open>The persisted form of the events of one append, from index \<open>i\<close> and sequence \<open>seq\<close>.\<close>

fun persist_all ::
    "(string \<Rightarrow> nat list) \<Rightarrow> (nat \<Rightarrow> string) \<Rightarrow> (nat \<Rightarrow> int) \<Rightarrow> string \<Rightarrow> int \<Rightarrow> nat \<Rightarrow> int
      \<Rightarrow> uncommitted_event list \<Rightarrow> persisted_event list" where
  "persist_all sha genId clk aid v i seq [] = []"
| "persist_all sha genId clk aid v i seq (e # es) =
     persist_event sha genId clk aid v i seq e # persist_all sha genId clk aid v (i + 1) (seq + 1) es"

lemma append_build_eq:
  "append_build sha genId clk s aid v i seq es =
     (if es = [] \<or> seq_current s < seq then Inr (persist_all sha genId clk aid v i seq es)
      else Inl (SequenceViolation seq (seq_current s)))"
  by (induction es arbitrary: i seq) auto

lemma length_persist_all [simp]: "length (persist_all sha genId clk aid v i seq es) = length es"
  by (induction es arbitrary: i seq) simp_all

lemma persist_event_fields [simp]:
  "pe_aggregateVersion (persist_event sha genId clk aid v i seq e) = v + int i + 1"
  "pe_aggregateId (persist_event sha genId clk aid v i seq e) = aid"
  "pe_globalSequence (persist_event sha genId clk aid v i seq e) = seq"
  "pe_commandId (persist_event sha genId clk aid v i seq e) = ue_commandId e"
  "pe_eventType (persist_event sha genId clk aid v i seq e) = ue_eventType e"
  "pe_eventId (persist_event sha genId clk aid v i seq e) = nullish (ue_eventId e) (genId i)"
  by (simp_all add: persist_event_def Let_def)

lemma versions_persist_all:
  "map pe_aggregateVersion (persist_all sha genId clk aid v i seq es)
     = map (\<lambda>j. v + int j + 1) [i ..< i + length es]"
proof (induction es arbitrary: i seq)
  case Nil
  show ?case by simp
next
  case (Cons e es)
  have "[i ..< i + length (e # es)] = i # [Suc i ..< Suc i + length es]"
    by (simp add: upt_conv_Cons del: upt_Suc)
  with Cons [of "i + 1" "seq + 1"] show ?case by (simp del: upt_Suc)
qed

lemma ids_persist_all: "p \<in> set (persist_all sha genId clk aid v i seq es) \<Longrightarrow> pe_aggregateId p = aid"
  by (induction es arbitrary: i seq) auto

lemma command_persist_all:
  "e \<in> set es \<Longrightarrow> \<exists>p \<in> set (persist_all sha genId clk aid v i seq es).
      pe_commandId p = ue_commandId e \<and> (\<exists>j. pe_eventId p = nullish (ue_eventId e) (genId j))"
  by (induction es arbitrary: i seq) (auto simp: bex_Un)

lemma append_check_None:
  "append_check s aid es v = None \<longleftrightarrow>
     es \<noteq> [] \<and> v = getAggregateVersion s aid \<and> check_events s es = None"
  by (auto simp: append_check_def validateAppend_def Let_def)

lemma append_events_Inr:
  "append_events sha genId clk i aid es v seq s = Inr (r, s') \<longleftrightarrow>
     es \<noteq> [] \<and> v = getAggregateVersion s aid \<and> check_events s es = None \<and> seq_current s < seq
     \<and> r = \<lparr>ar_appendedCount = length es, ar_nextExpectedVersion = v + int (length es),
            ar_sequenceNumberStart = seq, ar_events = persist_all sha genId clk aid v 0 seq es\<rparr>
     \<and> s' = append_commit i aid v (persist_all sha genId clk aid v 0 seq es) s"
proof (cases "append_check s aid es v")
  case None
  then have "es \<noteq> [] \<and> v = getAggregateVersion s aid \<and> check_events s es = None"
    by (simp add: append_check_None)
  with None show ?thesis by (auto simp: append_events_def append_build_eq)
next
  case (Some err)
  then have "\<not> (es \<noteq> [] \<and> v = getAggregateVersion s aid \<and> check_events s es = None)"
    by (metis append_check_None option.distinct(1))
  with Some show ?thesis by (auto simp: append_events_def)
qed

section \<open>Sequences of operations\<close>

text \<open>Sequences in which every append runs from its checks to its commit undisturbed.\<close>

datatype store_op =
    OpAppend "string \<Rightarrow> nat list" "nat \<Rightarrow> string" "nat \<Rightarrow> int" string string "uncommitted_event list" int int
  | OpRollback string

fun store_exec :: "store_op \<Rightarrow> event_store \<Rightarrow> event_store" where
  "store_exec (OpAppend sha genId clk i aid es v seq) s =
     (case append_events sha genId clk i aid es v seq s of Inl _ \<Rightarrow> s | Inr (_, s') \<Rightarrow> s')"
| "store_exec (OpRollback i) s = rollback i s"

text \<open>An append as an attempt on the version of its aggregate.\<close>

definition attempt_append ::
    "event_store \<Rightarrow> string \<Rightarrow> int
      \<Rightarrow> (string \<Rightarrow> nat list) \<times> (nat \<Rightarrow> string) \<times> (nat \<Rightarrow> int) \<times> string \<times> uncommitted_event list \<times> int
      \<Rightarrow> event_store option" where
  "attempt_append s aid v x =
     (case x of (sha, genId, clk, i, es, seq) \<Rightarrow>
        (case append_events sha genId clk i aid es v seq s of Inl _ \<Rightarrow> None | Inr (_, s') \<Rightarrow> Some s'))"

lemma attempt_append_Some:
  "attempt_append s aid v (sha, genId, clk, i, es, seq) = Some s' \<longleftrightarrow>
     (\<exists>r. append_events sha genId clk i aid es v seq s = Inr (r, s'))"
  by (auto simp: attempt_append_def split: sum.splits)

interpretation appends: optimistic_store getAggregateVersion attempt_append
proof
  fix s k e a s'
  assume "attempt_append s k e a = Some s'"
  then show "getAggregateVersion s k = e \<and> e < getAggregateVersion s' k"
    by (cases a) (auto simp: attempt_append_Some append_events_Inr store_simps)
next
  fix s k e a s' k'
  assume "attempt_append s k e a = Some s'" and "k' \<noteq> k"
  then show "getAggregateVersion s' k' = getAggregateVersion s k'"
    by (cases a) (auto simp: attempt_append_Some append_events_Inr store_simps)
qed

lemma rollback_frame [frame_simps]:
  "es_versionCache (rollback i s) = es_versionCache s"
  "es_pendingAppends (rollback i s) = es_pendingAppends s"
  "es_nextSequence (rollback i s) = es_nextSequence s"
proof -
  have "es_versionCache (foldl drop_index t es) = es_versionCache t
      \<and> es_pendingAppends (foldl drop_index t es) = es_pendingAppends t
      \<and> es_nextSequence (foldl drop_index t es) = es_nextSequence t" for t es
    by (induction es arbitrary: t) (simp_all add: drop_index_def Let_def)
  then show "es_versionCache (rollback i s) = es_versionCache s"
      "es_pendingAppends (rollback i s) = es_pendingAppends s"
      "es_nextSequence (rollback i s) = es_nextSequence s"
    by (simp_all add: rollback_def Let_def split: option.split)
qed

lemma rollback_none: "map_of (es_pendingAppends s) i = None \<Longrightarrow> rollback i s = s"
  by (simp add: rollback_def)

text \<open>The version of an aggregate never goes down: a rollback does not touch the cache.\<close>

interpretation store: monotone_counter getAggregateVersion store_exec
proof
  fix s k x
  show "getAggregateVersion s k \<le> getAggregateVersion (store_exec x s) k"
    by (cases x)
      (auto simp: append_events_Inr store_simps frame_simps getAggregateVersion_def [of "rollback _ _"]
        getAggregateVersion_def [of s] split: sum.split)
qed

section \<open>The store invariant\<close>

text \<open>
  Nothing pending; the counter of the store unused; every stream numbered 1, 2, 3 and so on,
  all of its events naming the aggregate; the cached version the length of the stream.
\<close>

definition store_inv :: "event_store \<Rightarrow> bool" where
  "store_inv s \<longleftrightarrow>
     es_pendingAppends s = [] \<and> es_nextSequence s = 1
     \<and> (\<forall>aid. map pe_aggregateVersion (stream s aid) = map int [1 ..< Suc (length (stream s aid))]
          \<and> getAggregateVersion s aid = int (length (stream s aid))
          \<and> (\<forall>p \<in> set (stream s aid). pe_aggregateId p = aid))"

lemma store_inv_empty: "store_inv empty_store"
  by (simp add: store_inv_def empty_store_def stream_def getAggregateVersion_def)

lemma versions_extend:
  assumes "map pe_aggregateVersion xs = map int [1 ..< Suc (length xs)]"
  shows "map pe_aggregateVersion (xs @ persist_all sha genId clk aid (int (length xs)) 0 seq es)
    = map int [1 ..< Suc (length xs + length es)]"
proof -
  have "map (\<lambda>j. int (length xs) + int j + 1) [0 ..< length es]
      = map int [Suc (length xs) ..< Suc (length xs) + length es]"
    by (rule nth_equalityI) (simp_all del: upt_Suc)
  moreover have "[1 ..< Suc (length xs + length es)]
      = [1 ..< Suc (length xs)] @ [Suc (length xs) ..< Suc (length xs) + length es]"
    using upt_add_eq_append [of 1 "Suc (length xs)" "length es"] by simp
  ultimately show ?thesis using assms
    by (simp add: versions_persist_all [of sha genId clk aid "int (length xs)" 0] del: upt_Suc)
qed

lemma store_inv_append:
  assumes "store_inv s" and "append_events sha genId clk i aid es v seq s = Inr (r, s')"
  shows "store_inv s'"
proof -
  let ?ps = "persist_all sha genId clk aid v 0 seq es"
  have v: "v = int (length (stream s aid))" and s': "s' = append_commit i aid v ?ps s"
    using assms by (auto simp: append_events_Inr store_inv_def)
  have xs: "map pe_aggregateVersion (stream s aid) = map int [1 ..< Suc (length (stream s aid))]"
    using assms(1) by (simp add: store_inv_def)
  have here: "map pe_aggregateVersion (stream s' aid) = map int [1 ..< Suc (length (stream s' aid))]"
    using versions_extend [OF xs, of sha genId clk aid seq es] by (simp add: s' v store_simps del: upt_Suc)
  show ?thesis
    unfolding store_inv_def
  proof (intro conjI allI)
    show "es_pendingAppends s' = []" "es_nextSequence s' = 1"
      using assms(1) by (simp_all add: s' store_inv_def frame_simps)
    fix a
    show "map pe_aggregateVersion (stream s' a) = map int [1 ..< Suc (length (stream s' a))]"
      using here assms(1) by (cases "a = aid") (simp_all add: s' store_simps store_inv_def del: upt_Suc)
    show "getAggregateVersion s' a = int (length (stream s' a))"
      using assms(1) by (simp add: s' v store_simps store_inv_def)
    show "\<forall>p \<in> set (stream s' a). pe_aggregateId p = a"
      using assms(1) by (auto simp: s' store_simps store_inv_def dest: ids_persist_all)
  qed
qed

lemma store_inv_exec:
  assumes "store_inv s"
  shows "store_inv (store_exec x s)"
proof (cases x)
  case (OpAppend sha genId clk i aid es v seq)
  with assms show ?thesis by (auto split: sum.split intro: store_inv_append)
next
  case (OpRollback i)
  moreover have "rollback i s = s" using assms by (simp add: rollback_none store_inv_def)
  ultimately show ?thesis using assms by simp
qed

lemma store_inv_run: "store_inv s \<Longrightarrow> store_inv (store.run s xs)"
  by (induction xs arbitrary: s) (simp_all add: store_inv_exec)

lemma store_rollback: "store_inv s \<Longrightarrow> rollback i s = s"
  by (simp add: rollback_none store_inv_def)

section \<open>Appends that overlap\<close>

text \<open>
  An append awaits after the check of the version, after each check of an event and between the events it builds. Here
  a call is cut at these points: \<open>BeginAppend\<close> checks the version, \<open>CheckNext\<close> the next event of a call that is under
  way, and \<open>CommitAppend\<close> builds and commits; the loop that builds reads nothing of the store but the counter, which
  no operation advances. A failed check ends the call. Calls are under way in any number.
\<close>

record open_append =
  oa_aggregateId :: string
  oa_expectedVersion :: int
  oa_startSequence :: int
  oa_events :: "uncommitted_event list"
  oa_unchecked :: "uncommitted_event list"

datatype append_move =
    BeginAppend string "uncommitted_event list" int int
  | CheckNext nat
  | CommitAppend nat "string \<Rightarrow> nat list" "nat \<Rightarrow> string" "nat \<Rightarrow> int" string
  | RollbackAppend string

definition begin_append ::
    "string \<Rightarrow> uncommitted_event list \<Rightarrow> int \<Rightarrow> int \<Rightarrow> event_store \<Rightarrow> store_error + open_append" where
  "begin_append aid es v seq s =
     (if es = [] then Inl EmptyAppend
      else case validateAppend s aid v of
        Inl e \<Rightarrow> Inl (Concurrency e)
      | Inr _ \<Rightarrow> Inr \<lparr>oa_aggregateId = aid, oa_expectedVersion = v, oa_startSequence = seq, oa_events = es, oa_unchecked = es\<rparr>)"

definition end_call :: "nat \<Rightarrow> open_append list \<Rightarrow> open_append list" where
  "end_call k calls = take k calls @ drop (Suc k) calls"

fun append_step :: "append_move \<Rightarrow> event_store \<times> open_append list \<Rightarrow> event_store \<times> open_append list" where
  "append_step (BeginAppend aid es v seq) (s, calls) =
     (case begin_append aid es v seq s of Inl _ \<Rightarrow> (s, calls) | Inr c \<Rightarrow> (s, calls @ [c]))"
| "append_step (CheckNext k) (s, calls) =
     (if k < length calls then
        (case oa_unchecked (calls ! k) of
           [] \<Rightarrow> (s, calls)
         | e # es \<Rightarrow>
             (case check_events s [e] of
                None \<Rightarrow> (s, calls[k := (calls ! k)\<lparr>oa_unchecked := es\<rparr>])
              | Some _ \<Rightarrow> (s, end_call k calls)))
      else (s, calls))"
| "append_step (CommitAppend k sha genId clk i) (s, calls) =
     (if k < length calls \<and> oa_unchecked (calls ! k) = [] then
        (case append_build sha genId clk s (oa_aggregateId (calls ! k)) (oa_expectedVersion (calls ! k)) 0
                (oa_startSequence (calls ! k)) (oa_events (calls ! k)) of
           Inl _ \<Rightarrow> (s, end_call k calls)
         | Inr ps \<Rightarrow> (append_commit i (oa_aggregateId (calls ! k)) (oa_expectedVersion (calls ! k)) ps s, end_call k calls))
      else (s, calls))"
| "append_step (RollbackAppend i) (s, calls) = (rollback i s, calls)"

fun append_run :: "append_move list \<Rightarrow> event_store \<times> open_append list \<Rightarrow> event_store \<times> open_append list" where
  "append_run [] x = x"
| "append_run (a # as) x = append_run as (append_step a x)"

text \<open>Undisturbed, the steps of one call are \<open>append_events\<close>.\<close>

lemma check_all:
  assumes "k = length calls" and "oa_unchecked c = es"
  shows "append_run (replicate (length es) (CheckNext k)) (s, calls @ [c]) =
     (if check_events s es = None then (s, calls @ [c\<lparr>oa_unchecked := []\<rparr>]) else (s, calls))"
  using assms(2)
proof (induction es arbitrary: c)
  case Nil
  then show ?case by simp
next
  case (Cons e es)
  have rest: "append_run (replicate n (CheckNext k)) (s, calls) = (s, calls)" for n
    using assms(1) by (induction n) simp_all
  have first: "append_step (CheckNext k) (s, calls @ [c]) =
      (if check_events s [e] = None then (s, calls @ [c\<lparr>oa_unchecked := es\<rparr>]) else (s, calls))"
    using Cons.prems assms(1) by (simp add: end_call_def split: option.split)
  have "check_events s (e # es) = None \<longleftrightarrow> check_events s [e] = None \<and> check_events s es = None"
    by (auto split: duplicate_check.splits verdict.splits)
  then show ?case using Cons.IH [of "c\<lparr>oa_unchecked := es\<rparr>"] first rest by auto
qed

lemma append_run_append: "append_run (as @ bs) x = append_run bs (append_run as x)"
  by (induction as arbitrary: x) simp_all

lemma append_undisturbed:
  "append_run (BeginAppend aid es v seq # replicate (length es) (CheckNext (length calls))
       @ [CommitAppend (length calls) sha genId clk i]) (s, calls)
   = (case append_events sha genId clk i aid es v seq s of Inl _ \<Rightarrow> s | Inr (_, s') \<Rightarrow> s', calls)"
proof (cases "begin_append aid es v seq s")
  case (Inl err)
  have "append_run (replicate n (CheckNext (length calls))) (s, calls) = (s, calls)" for n
    by (induction n) simp_all
  then show ?thesis using Inl
    by (auto simp: append_run_append begin_append_def append_events_def append_check_def split: if_splits sum.splits)
next
  case (Inr c)
  then have c: "c = \<lparr>oa_aggregateId = aid, oa_expectedVersion = v, oa_startSequence = seq, oa_events = es, oa_unchecked = es\<rparr>"
      "append_check s aid es v = check_events s es"
    by (auto simp: begin_append_def append_check_def split: if_splits sum.splits)
  then show ?thesis
    using Inr check_all [of "length calls" calls c es s]
    by (auto simp: append_run_append append_events_def end_call_def split: option.split sum.split)
qed

text \<open>No two appends on an aggregate are under way at the same time.\<close>

definition open_on :: "string \<Rightarrow> open_append list \<Rightarrow> open_append list" where
  "open_on aid calls = filter (\<lambda>c. oa_aggregateId c = aid) calls"

fun alone :: "string \<Rightarrow> append_move list \<Rightarrow> event_store \<times> open_append list \<Rightarrow> bool" where
  "alone aid [] x = (length (open_on aid (snd x)) \<le> 1)"
| "alone aid (a # as) x = (length (open_on aid (snd x)) \<le> 1 \<and> alone aid as (append_step a x))"

subsection \<open>No gaps\<close>

definition stream_gapless :: "event_store \<Rightarrow> string \<Rightarrow> bool" where
  "stream_gapless s aid \<longleftrightarrow> (\<exists>n. 0 \<le> getAggregateVersion s aid \<and> getAggregateVersion s aid \<le> n
     \<and> pe_aggregateVersion ` set (stream s aid) = {1..n}) \<and> (\<forall>p \<in> set (stream s aid). pe_aggregateId p = aid)"

definition gapless :: "event_store \<times> open_append list \<Rightarrow> bool" where
  "gapless x \<longleftrightarrow> es_pendingAppends (fst x) = [] \<and> (\<forall>aid. stream_gapless (fst x) aid)
     \<and> (\<forall>c \<in> set (snd x). 0 \<le> oa_expectedVersion c
          \<and> {1..oa_expectedVersion c} \<subseteq> pe_aggregateVersion ` set (stream (fst x) (oa_aggregateId c)))"

lemma end_call_subset: "set (end_call k calls) \<subseteq> set calls"
  by (auto simp: end_call_def dest: in_set_takeD in_set_dropD)

lemma gapless_empty: "gapless (empty_store, [])"
  by (auto simp: gapless_def stream_gapless_def empty_store_def stream_def getAggregateVersion_def intro: exI [of _ 0])

lemma gapless_fewer: "gapless (s, calls) \<Longrightarrow> set calls' \<subseteq> set calls \<Longrightarrow> gapless (s, calls')"
  by (auto simp: gapless_def)

lemma versions_of_batch:
  "pe_aggregateVersion ` set (persist_all sha genId clk aid v 0 seq es) = {v + 1..v + int (length es)}"
proof -
  have "pe_aggregateVersion ` set (persist_all sha genId clk aid v 0 seq es) = (\<lambda>j. v + int j + 1) ` {0 ..< length es}"
    unfolding set_map [symmetric] versions_persist_all by simp
  also have "\<dots> = {v + 1..v + int (length es)}"
  proof
    show "{v + 1..v + int (length es)} \<subseteq> (\<lambda>j. v + int j + 1) ` {0 ..< length es}"
    proof
      fix x assume "x \<in> {v + 1..v + int (length es)}"
      then have "x = v + int (nat (x - v - 1)) + 1" "nat (x - v - 1) \<in> {0 ..< length es}" by auto
      then show "x \<in> (\<lambda>j. v + int j + 1) ` {0 ..< length es}" by (rule image_eqI)
    qed
  qed auto
  finally show ?thesis .
qed

lemma gapless_commit:
  assumes ok: "gapless (s, calls)" and c: "c \<in> set calls"
    and ps: "ps = persist_all sha genId clk (oa_aggregateId c) (oa_expectedVersion c) 0 seq es"
  shows "gapless (append_commit i (oa_aggregateId c) (oa_expectedVersion c) ps s, calls)"
proof -
  let ?v = "oa_expectedVersion c" and ?a = "oa_aggregateId c" and ?s = "append_commit i (oa_aggregateId c) (oa_expectedVersion c) ps s"
  have v: "0 \<le> ?v" "{1..?v} \<subseteq> pe_aggregateVersion ` set (stream s ?a)" using ok c by (auto simp: gapless_def)
  have "stream_gapless s ?a" using ok by (simp add: gapless_def)
  then obtain n where n: "0 \<le> n" "pe_aggregateVersion ` set (stream s ?a) = {1..n}"
    unfolding stream_gapless_def by (meson order_trans)
  have le: "?v \<le> n"
  proof (cases "?v = 0")
    case False
    then have "?v \<in> {1..?v}" using v(1) by simp
    then show ?thesis using v(2) unfolding n(2) by auto
  qed (simp add: n(1))
  have "pe_aggregateVersion ` set (stream ?s ?a) = {1..n} \<union> {?v + 1..?v + int (length es)}"
    by (simp add: store_simps image_Un n(2) ps versions_of_batch)
  also have "\<dots> = {1..max n (?v + int (length es))}" using le v(1) by auto
  finally have here: "stream_gapless ?s ?a"
    using ok v(1) by (auto simp: stream_gapless_def gapless_def store_simps ps dest: ids_persist_all
        intro!: exI [of _ "max n (?v + int (length es))"])
  have "stream_gapless ?s a" for a
    using here ok by (cases "a = ?a") (simp_all add: gapless_def stream_gapless_def store_simps)
  moreover have "{1..oa_expectedVersion d} \<subseteq> pe_aggregateVersion ` set (stream ?s (oa_aggregateId d))" if "d \<in> set calls" for d
    using ok that by (fastforce simp: gapless_def store_simps)
  ultimately show ?thesis using ok by (simp add: gapless_def frame_simps)
qed

lemma gapless_step:
  assumes ok: "gapless (s, calls)"
  shows "gapless (append_step a (s, calls))"
proof (cases a)
  case (BeginAppend aid es v seq)
  obtain n where "0 \<le> getAggregateVersion s aid" "getAggregateVersion s aid \<le> n"
    "pe_aggregateVersion ` set (stream s aid) = {1..n}"
    using ok unfolding gapless_def stream_gapless_def by (metis fst_conv)
  then have "gapless (s, calls @ [c])" if "begin_append aid es v seq s = Inr c" for c
    using ok that
    by (auto simp: gapless_def begin_append_def validateAppend_def Let_def split: if_splits sum.splits)
  then show ?thesis using BeginAppend ok by (simp split: sum.split)
next
  case (CheckNext k)
  have "gapless (s, calls[k := (calls ! k)\<lparr>oa_unchecked := es\<rparr>])" if "k < length calls" for es
  proof -
    have "0 \<le> oa_expectedVersion c \<and> {1..oa_expectedVersion c} \<subseteq> pe_aggregateVersion ` set (stream s (oa_aggregateId c))"
      if "c \<in> set (calls[k := (calls ! k)\<lparr>oa_unchecked := es\<rparr>])" for c
    proof -
      have "c = (calls ! k)\<lparr>oa_unchecked := es\<rparr> \<or> c \<in> set calls"
        using set_update_subset_insert that by fast
      then show ?thesis using ok nth_mem [OF \<open>k < length calls\<close>] by (elim disjE) (simp_all add: gapless_def)
    qed
    then show ?thesis using ok by (simp add: gapless_def)
  qed
  then show ?thesis using CheckNext ok gapless_fewer [OF ok end_call_subset]
    by (simp split: list.split option.split)
next
  case (CommitAppend k sha genId clk i)
  have "gapless (append_commit i (oa_aggregateId (calls ! k)) (oa_expectedVersion (calls ! k)) ps s, end_call k calls)"
    if "k < length calls" "append_build sha genId clk s (oa_aggregateId (calls ! k)) (oa_expectedVersion (calls ! k)) 0
                (oa_startSequence (calls ! k)) (oa_events (calls ! k)) = Inr ps" for ps
  proof -
    have "ps = persist_all sha genId clk (oa_aggregateId (calls ! k)) (oa_expectedVersion (calls ! k)) 0
        (oa_startSequence (calls ! k)) (oa_events (calls ! k))"
      using that(2) by (auto simp: append_build_eq split: if_splits)
    from gapless_commit [OF ok nth_mem [OF that(1)] this] show ?thesis
      by (rule gapless_fewer) (rule end_call_subset)
  qed
  then show ?thesis using CommitAppend ok gapless_fewer [OF ok end_call_subset] by (simp split: sum.split)
next
  case (RollbackAppend i)
  then show ?thesis using ok by (simp add: rollback_none gapless_def)
qed

lemma gapless_run: "gapless x \<Longrightarrow> gapless (append_run as x)"
proof (induction as arbitrary: x)
  case (Cons a as)
  then show ?case by (cases x) (simp add: gapless_step)
qed simp

subsection \<open>No repetitions while calls do not overlap\<close>

definition in_order :: "string \<Rightarrow> event_store \<times> open_append list \<Rightarrow> bool" where
  "in_order aid x \<longleftrightarrow>
     map pe_aggregateVersion (stream (fst x) aid) = map int [1 ..< Suc (length (stream (fst x) aid))]
     \<and> getAggregateVersion (fst x) aid = int (length (stream (fst x) aid))
     \<and> (\<forall>c \<in> set (open_on aid (snd x)). oa_expectedVersion c = getAggregateVersion (fst x) aid)"

lemma in_order_empty: "in_order aid (empty_store, [])"
  by (simp add: in_order_def open_on_def empty_store_def stream_def getAggregateVersion_def)

lemma in_order_fewer: "in_order aid (s, calls) \<Longrightarrow> set calls' \<subseteq> set calls \<Longrightarrow> in_order aid (s, calls')"
  by (auto simp: in_order_def open_on_def)

lemma last_open:
  assumes "k < length calls" and "oa_aggregateId (calls ! k) = aid" and "length (open_on aid calls) \<le> 1"
  shows "open_on aid (end_call k calls) = []"
proof -
  have "calls = take k calls @ calls ! k # drop (Suc k) calls" using assms(1) by (rule id_take_nth_drop)
  then have "open_on aid calls = open_on aid (take k calls) @ calls ! k # open_on aid (drop (Suc k) calls)"
    using assms(2) unfolding open_on_def by (metis (mono_tags, lifting) filter.simps(2) filter_append)
  with assms(3) show ?thesis by (simp add: open_on_def end_call_def)
qed

lemma in_order_commit:
  assumes ok: "in_order aid (s, calls)" and k: "k < length calls" and one: "length (open_on aid calls) \<le> 1"
    and b: "append_build sha genId clk s (oa_aggregateId (calls ! k)) (oa_expectedVersion (calls ! k)) 0
                (oa_startSequence (calls ! k)) (oa_events (calls ! k)) = Inr ps"
  shows "in_order aid (append_commit i (oa_aggregateId (calls ! k)) (oa_expectedVersion (calls ! k)) ps s, end_call k calls)"
proof (cases "oa_aggregateId (calls ! k) = aid")
  case False
  have "in_order aid (append_commit i (oa_aggregateId (calls ! k)) (oa_expectedVersion (calls ! k)) ps s, calls)"
    using ok False by (simp add: in_order_def store_simps)
  then show ?thesis by (rule in_order_fewer) (rule end_call_subset)
next
  case True
  let ?c = "calls ! k"
  have v: "oa_expectedVersion ?c = int (length (stream s aid))"
    and xs: "map pe_aggregateVersion (stream s aid) = map int [1 ..< Suc (length (stream s aid))]"
    using ok True nth_mem [OF k] by (simp_all add: in_order_def open_on_def)
  have ps: "ps = persist_all sha genId clk aid (int (length (stream s aid))) 0 (oa_startSequence ?c) (oa_events ?c)"
    using b True v by (auto simp: append_build_eq split: if_splits)
  show ?thesis
    using versions_extend [OF xs, of sha genId clk aid "oa_startSequence ?c" "oa_events ?c"] last_open [OF k True one]
    by (simp add: in_order_def store_simps True v ps del: upt_Suc)
qed

lemma in_order_step:
  assumes g: "gapless (s, calls)" and ok: "in_order aid (s, calls)" and one: "length (open_on aid calls) \<le> 1"
  shows "in_order aid (append_step a (s, calls))"
proof (cases a)
  case (BeginAppend b es v seq)
  have "in_order aid (s, calls @ [c])" if "begin_append b es v seq s = Inr c" for c
    using ok that
    by (auto simp: in_order_def open_on_def begin_append_def validateAppend_def Let_def split: if_splits sum.splits)
  then show ?thesis using BeginAppend ok by (simp split: sum.split)
next
  case (CheckNext k)
  have "in_order aid (s, calls[k := (calls ! k)\<lparr>oa_unchecked := es\<rparr>])" if "k < length calls" for es
    using ok nth_mem [OF that] unfolding in_order_def open_on_def
    by (auto dest!: set_update_subset_insert [THEN subsetD])
  then show ?thesis using CheckNext ok in_order_fewer [OF ok end_call_subset] by (simp split: list.split option.split)
next
  case (CommitAppend k sha genId clk i)
  then show ?thesis using ok in_order_fewer [OF ok end_call_subset] in_order_commit [OF ok _ one]
    by (simp split: sum.split)
next
  case (RollbackAppend i)
  then show ?thesis using ok g by (simp add: rollback_none gapless_def)
qed

lemma in_order_run: "gapless x \<Longrightarrow> in_order aid x \<Longrightarrow> alone aid as x \<Longrightarrow> in_order aid (append_run as x)"
proof (induction as arbitrary: x)
  case (Cons a as)
  obtain s calls where x: "x = (s, calls)" by (cases x)
  have "in_order aid (append_step a x)" using Cons.prems unfolding x by (intro in_order_step) simp_all
  moreover have "gapless (append_step a x)" using Cons.prems(1) unfolding x by (rule gapless_step)
  ultimately show ?case using Cons by simp
qed simp

section \<open>Commands are remembered\<close>

text \<open>A command the store remembers stays remembered, and is refused.\<close>

definition command_seen :: "event_store \<Rightarrow> string \<Rightarrow> bool" where
  "command_seen s c \<longleftrightarrow> truthy (map_of (es_commandIndex s) c)"

lemma seen_refused:
  assumes "command_seen s c" and "ue_commandId e = Some c" and "c \<noteq> []" and "e \<in> set es"
  shows "check_events s es \<noteq> None"
  using assms(4)
proof (induction es)
  case Nil
  then show ?case by simp
next
  case (Cons e' es)
  show ?case
  proof (cases "e = e'")
    case True
    then have "checkDuplicate s e' = DuplicateCommand c"
      using assms(1-3) by (simp add: checkDuplicate_def command_seen_def)
    then show ?thesis by simp
  next
    case False
    with Cons show ?thesis by (auto split: duplicate_check.split verdict.split)
  qed
qed

lemma seen_append:
  assumes "command_seen s c" and "c \<noteq> []"
    and "append_events sha genId clk i aid es v seq s = Inr (r, s')"
  shows "command_seen s' c"
proof -
  have "ue_commandId e \<noteq> Some c" if "e \<in> set es" for e
    using seen_refused [OF assms(1) _ assms(2) that] assms(3) by (auto simp: append_events_Inr)
  then have "pe_commandId p \<noteq> Some c" if "p \<in> set (persist_all sha genId clk aid v j q es)" for p j q
    using that by (induction es arbitrary: j q) auto
  then have "List.find (\<lambda>p. pe_commandId p = Some c \<and> c \<noteq> [])
      (rev (persist_all sha genId clk aid v 0 seq es)) = None"
    by (auto simp: find_None_iff_all)
  with assms show ?thesis
    by (auto simp: append_events_Inr command_seen_def store_simps commandIndex_fold)
qed

lemma seen_run:
  assumes "store_inv s" and "command_seen s c" and "c \<noteq> []"
  shows "command_seen (store.run s xs) c"
  using assms(1,2)
proof (induction xs arbitrary: s)
  case Nil
  then show ?case by simp
next
  case (Cons x xs)
  have "command_seen (store_exec x s) c"
    using Cons.prems assms(3) by (cases x) (auto simp: store_rollback split: sum.split intro: seen_append)
  with Cons show ?case by (simp add: store_inv_exec)
qed

lemma append_remembers:
  assumes "append_events sha genId clk i aid es v seq s = Inr (r, s')"
    and "e \<in> set es" and "ue_commandId e = Some c" and "c \<noteq> []"
    and "Some [] \<notin> ue_eventId ` set es" and "[] \<notin> range genId"
  shows "command_seen s' c"
proof -
  let ?ps = "persist_all sha genId clk aid v 0 seq es"
  have s': "s' = append_commit i aid v ?ps s" using assms(1) by (simp add: append_events_Inr)
  obtain p where "p \<in> set ?ps" "pe_commandId p = Some c"
    using command_persist_all [OF assms(2)] assms(3) by fastforce
  then obtain q where q: "List.find (\<lambda>p. pe_commandId p = Some c \<and> c \<noteq> []) (rev ?ps) = Some q"
    using assms(4) by (cases "List.find (\<lambda>p. pe_commandId p = Some c \<and> c \<noteq> []) (rev ?ps)")
      (auto simp: find_None_iff_all)
  have "pe_eventId p \<noteq> []" if "p \<in> set (persist_all sha genId clk aid v j k es)" for p j k
    using that assms(5)
  proof (induction es arbitrary: j k)
    case Nil
    then show ?case by simp
  next
    case (Cons e es)
    have "genId j \<noteq> []" using assms(6) by (metis rangeI)
    then have "nullish (ue_eventId e) (genId j) \<noteq> []"
      using Cons.prems(2) by (cases "ue_eventId e") auto
    with Cons show ?case by auto
  qed
  then have "pe_eventId q \<noteq> []" using find_SomeD [OF q] by auto
  with q show ?thesis
    by (simp add: s' command_seen_def store_simps commandIndex_fold)
qed

text \<open>An event without identifiers or payload, used in examples.\<close>

definition plain_event :: "string \<Rightarrow> string option \<Rightarrow> uncommitted_event" where
  "plain_event ty c =
     \<lparr>ue_eventId = None, ue_eventType = ty, ue_aggregateId = ''run-1'', ue_aggregateVersion = 1,
      ue_payload = None, ue_metadata = None, ue_commandId = c, ue_correlationId = None,
      ue_createdAt = None\<rparr>"

lemma plain_event_checks:
  "check_events empty_store [plain_event ''RunCreated'' c] = None"
  by (cases c) (simp_all add: plain_event_def checkDuplicate_def empty_store_def validateEventType_def
      verdict_of_def knownEventTypes_def)

lemma plain_event_appended:
  assumes "1 \<le> seq"
  shows "\<exists>r s'. append_events sha genId clk i aid [plain_event ''RunCreated'' c] 0 seq empty_store
      = Inr (r, s')"
  using assms plain_event_checks [of c]
  by (simp add: append_events_Inr getAggregateVersion_def seq_current_def empty_store_def)

section \<open>Properties\<close>

text \<open>
  What an append does: it succeeds exactly for a non-empty list of events whose expected
  version is the aggregate's version, none of them a duplicate or of unknown type, and a start
  above the counter; then the aggregate's stream is extended by exactly that many events,
  numbered on from the expected version, and no other stream changes.
\<close>

theorem append_extends_stream:
  "(\<exists>r s'. append_events sha genId clk i aid es v seq s = Inr (r, s')
      \<and> (\<exists>ps. stream s' aid = stream s aid @ ps
            \<and> map pe_aggregateVersion ps = map (\<lambda>j. v + int j + 1) [0 ..< length es]
            \<and> map pe_eventType ps = map ue_eventType es)
      \<and> getAggregateVersion s' aid = v + int (length es)
      \<and> list_all (\<lambda>a. a = aid \<or> stream s' a = stream s a) others) \<longleftrightarrow>
   es \<noteq> [] \<and> v = getAggregateVersion s aid \<and> check_events s es = None \<and> seq_current s < seq"
proof -
  have types: "map pe_eventType (persist_all sha genId clk aid v j q es) = map ue_eventType es" for j q
    by (induction es arbitrary: j q) simp_all
  show ?thesis
    using versions_persist_all [of sha genId clk aid v 0 seq es] types [of 0 seq]
    by (auto simp: append_events_Inr store_simps list_all_iff)
qed

text \<open>
  C39. Streams have no gaps. In every state reached from the empty store by any interleaving of appends, cut at their
  awaits, and rollbacks, the versions in the stream of an aggregate are exactly 1 to some \<open>n\<close>, its events name that
  aggregate only, and the version the store reports is at most \<open>n\<close>. If no two appends on the aggregate were ever
  under way at the same time, its stream is numbered 1, 2, 3 and so on in order and without repetition, and the
  version the store reports is its length. Appends on other aggregates may overlap in any way.
\<close>

theorem streams_contiguous:
  assumes "append_run moves (empty_store, []) = (s, calls)"
  shows "(\<exists>n. 0 \<le> getAggregateVersion s aid \<and> getAggregateVersion s aid \<le> n
        \<and> pe_aggregateVersion ` set (readStream s aid None None) = {1..n})
     \<and> pe_aggregateId ` set (stream s aid) \<subseteq> {aid}
     \<and> (alone aid moves (empty_store, []) \<longrightarrow>
          map pe_aggregateVersion (readStream s aid None None) = map int [1 ..< Suc (length (stream s aid))]
          \<and> getAggregateVersion s aid = int (length (stream s aid)))"
proof -
  have read: "readStream s aid None None = stream s aid" by (simp add: readStream_def Let_def)
  have "gapless (append_run moves (empty_store, []))" by (rule gapless_run [OF gapless_empty])
  then have "stream_gapless s aid" using assms by (simp add: gapless_def)
  moreover have "in_order aid (s, calls)" if "alone aid moves (empty_store, [])"
    using in_order_run [OF gapless_empty in_order_empty that] assms by simp
  ultimately show ?thesis unfolding read stream_gapless_def in_order_def by auto
qed

text \<open>
  Optimistic concurrency: of all appends that expect the same version of an aggregate, at
  most one succeeds, whatever other appends come between.
\<close>

theorem append_one_winner:
  assumes "append_events sha genId clk i aid es v seq s = Inr (r, s')"
  shows "append_events sha' genId' clk' i' aid es' v seq' (appends.tried.run s' xs) \<noteq> Inr q"
proof
  assume second: "append_events sha' genId' clk' i' aid es' v seq' (appends.tried.run s' xs) = Inr q"
  have "attempt_append s aid v (sha, genId, clk, i, es, seq) = Some s'"
    using assms by (auto simp: attempt_append_Some)
  from appends.one_winner [OF this, of xs "(sha', genId', clk', i', es', seq')"] second
  show False by (cases q) (simp add: attempt_append_def)
qed

text \<open>
  A command is applied once: after an append that carries a command id, every later append
  that carries the same id, for any aggregate, is refused for as long as the store lives.
\<close>

theorem command_applied_once:
  assumes "append_events sha genId clk i aid es v seq (store.run empty_store ops) = Inr (r, s')"
    and "e \<in> set es" and "ue_commandId e = Some c" and "c \<noteq> []"
    and "Some [] \<notin> ue_eventId ` set es" and "[] \<notin> range genId"
    and "e' \<in> set es'" and "ue_commandId e' = Some c"
  shows "append_events sha' genId' clk' i' aid' es' v' seq' (store.run s' ops') \<noteq> Inr q"
proof -
  have "store_inv s'"
    using store_inv_append [OF store_inv_run [OF store_inv_empty] assms(1)] .
  then have "command_seen (store.run s' ops') c"
    using append_remembers [OF assms(1-6)] assms(4) by (rule seen_run)
  from seen_refused [OF this assms(8,4,7)] show ?thesis
    by (cases q) (auto simp: append_events_Inr)
qed

text \<open>
  The sequence numbers are not global: the counter they are compared with is never
  advanced, so in every reachable state any start from 1 on is accepted again, for any
  aggregate, and that number is given out although other events carry it already.
\<close>

theorem global_sequence_repeats:
  assumes "1 \<le> seq" and "es \<noteq> []" and "check_events (store.run empty_store ops) es = None"
  shows "\<exists>r s'. append_events sha genId clk i aid es
        (getAggregateVersion (store.run empty_store ops) aid) seq (store.run empty_store ops) = Inr (r, s')
      \<and> pe_globalSequence (hd (ar_events r)) = seq"
proof -
  have "seq_current (store.run empty_store ops) = 0"
    using store_inv_run [OF store_inv_empty, of ops] by (simp add: seq_current_def store_inv_def)
  with assms show ?thesis by (cases es) (auto simp: append_events_Inr)
qed

text \<open>
  The version check does not protect calls that overlap: when two appends on one aggregate
  both pass their checks before either commits, both commit, the aggregate has two events with
  the same version, and the reported version is no longer the length of the stream.
\<close>

theorem overlapping_appends_collide:
  assumes "append_check s aid es v = None" and "append_check s aid es' v = None"
    and "append_build sha genId clk s aid v 0 seq es = Inr ps"
    and "append_build sha' genId' clk' s aid v 0 seq' es' = Inr ps'"
    and "s' = append_commit i' aid v ps' (append_commit i aid v ps s)"
  shows "stream s' aid = stream s aid @ ps @ ps'
    \<and> pe_aggregateVersion (hd ps) = v + 1 \<and> pe_aggregateVersion (hd ps') = v + 1
    \<and> getAggregateVersion s' aid = v + int (length es')"
proof -
  obtain e es1 e' es1' where es: "es = e # es1" "es' = e' # es1'"
    using assms(1,2) by (auto simp: append_check_None neq_Nil_conv)
  have ps: "ps = persist_all sha genId clk aid v 0 seq es" "ps' = persist_all sha' genId' clk' aid v 0 seq' es'"
    using assms(3,4) by (auto simp: append_build_eq split: if_splits)
  then show ?thesis using es by (simp add: assms(5) store_simps)
qed

text \<open>
  Rollback never undoes anything: no operation of the store records a pending append, so in
  every reachable state a rollback, of any append id, leaves the store as it is.
\<close>

theorem rollback_never_undoes:
  "rollback appendId (store.run empty_store ops) = store.run empty_store ops"
  by (rule store_rollback [OF store_inv_run [OF store_inv_empty]])

section \<open>Examples\<close>

theorem streams_contiguous_witness:
  "\<exists>s. append_run [BeginAppend ''run-1'' [plain_event ''RunCreated'' None] 0 1, CheckNext 0,
        CommitAppend 0 (\<lambda>_. [0]) (\<lambda>_. ''e1'') (\<lambda>_. 0) ''a1''] (empty_store, []) = (s, [])
     \<and> map pe_aggregateVersion (readStream s ''run-1'' None None) = map int [1 ..< Suc (length (stream s ''run-1''))]
     \<and> length (stream s ''run-1'') = 1"
proof -
  let ?e = "plain_event ''RunCreated'' None"
  let ?moves = "[BeginAppend ''run-1'' [?e] 0 1, CheckNext 0, CommitAppend 0 (\<lambda>_. [0]) (\<lambda>_. ''e1'') (\<lambda>_. 0) ''a1'']"
  obtain r s where s: "append_events (\<lambda>_. [0]) (\<lambda>_. ''e1'') (\<lambda>_. 0) ''a1'' ''run-1'' [?e] 0 1 empty_store = Inr (r, s)"
    using plain_event_appended [of 1 "\<lambda>_. [0]" "\<lambda>_. ''e1''" "\<lambda>_. 0" "''a1''" "''run-1''" None] by auto
  have run: "append_run ?moves (empty_store, []) = (s, [])"
    using append_undisturbed [of "''run-1''" "[?e]" 0 1 "[]" "\<lambda>_. [0]" "\<lambda>_. ''e1''" "\<lambda>_. 0" "''a1''" empty_store]
    by (simp add: s)
  have opened: "begin_append ''run-1'' [?e] 0 1 empty_store
      = Inr \<lparr>oa_aggregateId = ''run-1'', oa_expectedVersion = 0, oa_startSequence = 1, oa_events = [?e], oa_unchecked = [?e]\<rparr>"
    by (simp add: begin_append_def validateAppend_def getAggregateVersion_def empty_store_def)
  have "append_run [CommitAppend 0 (\<lambda>_. [0]) (\<lambda>_. ''e1'') (\<lambda>_. 0) ''a1''] (append_run [BeginAppend ''run-1'' [?e] 0 1, CheckNext 0] (empty_store, []))
      = (s, [])" using run by simp
  then have "alone ''run-1'' ?moves (empty_store, [])"
    using plain_event_checks [of None] opened by (simp add: open_on_def)
  from streams_contiguous [OF run, THEN conjunct2, THEN conjunct2, rule_format, OF this] run
  show ?thesis using s by (auto simp: append_events_Inr store_simps stream_def [of empty_store] empty_store_def)
qed

theorem append_one_winner_witness:
  "isl (append_events (\<lambda>_. [0]) (\<lambda>_. ''e2'') (\<lambda>_. 0) ''a2'' ''run-1'' [plain_event ''RunFailed'' None] 0 1
     (snd (projr (append_events (\<lambda>_. [0]) (\<lambda>_. ''e1'') (\<lambda>_. 0) ''a1'' ''run-1''
        [plain_event ''RunCreated'' None] 0 1 empty_store))))"
proof -
  obtain r s' where "append_events (\<lambda>_. [0]) (\<lambda>_. ''e1'') (\<lambda>_. 0) ''a1'' ''run-1''
      [plain_event ''RunCreated'' None] 0 1 empty_store = Inr (r, s')"
    using plain_event_appended [of 1 "\<lambda>_. [0]" "\<lambda>_. ''e1''" "\<lambda>_. 0" "''a1''" "''run-1''" None] by auto
  note first = this
  have "append_events (\<lambda>_. [0]) (\<lambda>_. ''e2'') (\<lambda>_. 0) ''a2'' ''run-1'' [plain_event ''RunFailed'' None] 0 1 s'
      \<noteq> Inr q" for q
    using append_one_winner [OF first, of "\<lambda>_. [0]" "\<lambda>_. ''e2''" "\<lambda>_. 0" "''a2''"
        "[plain_event ''RunFailed'' None]" 1 "[]"] by (simp only: appends.tried.run.simps not_False_eq_True)
  then have "isl (append_events (\<lambda>_. [0]) (\<lambda>_. ''e2'') (\<lambda>_. 0) ''a2'' ''run-1''
      [plain_event ''RunFailed'' None] 0 1 s')"
    by (cases "append_events (\<lambda>_. [0]) (\<lambda>_. ''e2'') (\<lambda>_. 0) ''a2'' ''run-1''
      [plain_event ''RunFailed'' None] 0 1 s'") (simp, blast)
  then show ?thesis by (simp only: first sum.sel snd_conv)
qed

theorem command_applied_once_witness:
  "\<exists>r s'. append_events (\<lambda>_. [0]) (\<lambda>_. ''e1'') (\<lambda>_. 0) ''a1'' ''run-1''
      [plain_event ''RunCreated'' (Some ''cmd'')] 0 1 empty_store = Inr (r, s')
    \<and> append_events (\<lambda>_. [0]) (\<lambda>_. ''e2'') (\<lambda>_. 0) ''a2'' ''run-2''
        [plain_event ''RunCreated'' (Some ''cmd'')] 0 2 s' \<noteq> Inr (r, s')"
proof -
  obtain r s' where first: "append_events (\<lambda>_. [0]) (\<lambda>_. ''e1'') (\<lambda>_. 0) ''a1'' ''run-1''
      [plain_event ''RunCreated'' (Some ''cmd'')] 0 1 empty_store = Inr (r, s')"
    using plain_event_appended [of 1 "\<lambda>_. [0]" "\<lambda>_. ''e1''" "\<lambda>_. 0" "''a1''" "''run-1''" "Some ''cmd''"]
    by auto
  let ?e = "plain_event ''RunCreated'' (Some ''cmd'')"
  have "append_events (\<lambda>_. [0]) (\<lambda>_. ''e2'') (\<lambda>_. 0) ''a2'' ''run-2'' [?e] 0 2 (store.run s' []) \<noteq> Inr (r, s')"
    by (rule command_applied_once [where ops = "[]" and e = ?e and e' = ?e and c = "''cmd''"])
      (use first in \<open>auto simp: plain_event_def\<close>)
  with first show ?thesis by auto
qed

theorem global_sequence_repeats_witness:
  "\<exists>r s'. append_events (\<lambda>_. [0]) (\<lambda>_. ''e1'') (\<lambda>_. 0) ''a1'' ''run-1''
      [plain_event ''RunCreated'' None] 0 1 empty_store = Inr (r, s')
    \<and> pe_globalSequence (hd (ar_events r)) = 1"
  using global_sequence_repeats [of 1 "[plain_event ''RunCreated'' None]" "[]" "\<lambda>_. [0]" "\<lambda>_. ''e1''"
      "\<lambda>_. 0" "''a1''" "''run-1''"] plain_event_checks [of None]
  by (simp add: getAggregateVersion_def empty_store_def)

theorem overlapping_appends_collide_witness:
  "\<exists>s'. length (stream s' ''run-1'') = 2 \<and> getAggregateVersion s' ''run-1'' = 1"
proof -
  let ?es = "[plain_event ''RunCreated'' None]"
  let ?build = "append_build (\<lambda>_. [0]) (\<lambda>_. ''e1'') (\<lambda>_. 0) empty_store ''run-1'' 0 0 1 ?es"
  have checks: "append_check empty_store ''run-1'' ?es 0 = None"
    using plain_event_checks [of None]
    by (simp add: append_check_None getAggregateVersion_def empty_store_def)
  obtain ps where ps: "?build = Inr ps"
    by (simp add: append_build_eq seq_current_def empty_store_def)
  then have "length ps = 1" by (auto simp: append_build_eq split: if_splits)
  with overlapping_appends_collide [OF checks checks ps ps refl, of "''b''" "''a''"]
  show ?thesis by (intro exI) (auto simp: stream_def empty_store_def)
qed

end
