(* ===== verification/Phases.thy ===== *)
theory Phases
  imports Prelude
begin

text \<open>
  The phases of an orchestrated run and its public status (\<open>src/src/orchestration/types/runs.ts\<close>),
  the table of legal phase transitions (\<open>services/transition-engine.ts\<close>) and the repository of
  the table \<open>task_runs\<close> (\<open>persistence/repositories/task-run.ts\<close>).

  The table is a list of rows in insertion order. A write that breaks a constraint of the
  table's schema throws and leaves the table as it was: it is an \<open>Inl\<close>. The clock and the
  order SQLite gives rows of one second are arguments.
\<close>

section \<open>Phases and statuses (types/runs.ts)\<close>

datatype phase =
    Created | Planning | Analysing | Delegating | Executing | Verifying | Recovering
  | Completed | Failed | Cancelled

fun phase_name :: "phase \<Rightarrow> string" where
  "phase_name Created = ''created''"
| "phase_name Planning = ''planning''"
| "phase_name Analysing = ''analysing''"
| "phase_name Delegating = ''delegating''"
| "phase_name Executing = ''executing''"
| "phase_name Verifying = ''verifying''"
| "phase_name Recovering = ''recovering''"
| "phase_name Completed = ''completed''"
| "phase_name Failed = ''failed''"
| "phase_name Cancelled = ''cancelled''"

definition valid_persisted_phases :: "phase list" where
  "valid_persisted_phases =
     [Created, Planning, Analysing, Delegating, Executing, Verifying, Recovering, Completed,
      Failed, Cancelled]"

definition isValidPersistedPhase :: "string \<Rightarrow> bool" where
  "isValidPersistedPhase s \<longleftrightarrow> s \<in> set (map phase_name valid_persisted_phases)"

text \<open>The phase a text names, as the \<open>CHECK\<close> of the column \<open>state\<close> admits it.\<close>

definition phase_of :: "string \<Rightarrow> phase option" where
  "phase_of s = List.find (\<lambda>p. phase_name p = s) valid_persisted_phases"

datatype run_status =
    Queued | Pending | Running | Paused | RunCompleted | RunFailed | RunCancelled | Timeout

fun run_status_name :: "run_status \<Rightarrow> string" where
  "run_status_name Queued = ''queued''"
| "run_status_name Pending = ''pending''"
| "run_status_name Running = ''running''"
| "run_status_name Paused = ''paused''"
| "run_status_name RunCompleted = ''completed''"
| "run_status_name RunFailed = ''failed''"
| "run_status_name RunCancelled = ''cancelled''"
| "run_status_name Timeout = ''timeout''"

definition run_statuses :: "run_status list" where
  "run_statuses = [Queued, Pending, Running, Paused, RunCompleted, RunFailed, RunCancelled, Timeout]"

definition terminal_run_statuses :: "run_status list" where
  "terminal_run_statuses = [RunCompleted, RunFailed, RunCancelled, Timeout]"

definition isTerminalRunStatus :: "string \<Rightarrow> bool" where
  "isTerminalRunStatus s \<longleftrightarrow> s \<in> set (map run_status_name terminal_run_statuses)"

definition isValidRunStatus :: "string \<Rightarrow> bool" where
  "isValidRunStatus s \<longleftrightarrow> s \<in> set (map run_status_name run_statuses)"

datatype status_error = StatusTransitionInvalid run_status | InvalidPersistedPhase string

fun mapRunStatusToTaskRunState :: "run_status \<Rightarrow> status_error + phase" where
  "mapRunStatusToTaskRunState Queued = Inr Created"
| "mapRunStatusToTaskRunState Pending = Inr Created"
| "mapRunStatusToTaskRunState Running = Inr Executing"
| "mapRunStatusToTaskRunState Paused = Inl (StatusTransitionInvalid Paused)"
| "mapRunStatusToTaskRunState RunCompleted = Inr Completed"
| "mapRunStatusToTaskRunState RunFailed = Inr Failed"
| "mapRunStatusToTaskRunState RunCancelled = Inr Cancelled"
| "mapRunStatusToTaskRunState Timeout = Inl (StatusTransitionInvalid Timeout)"

text \<open>The two switches over the persisted text have the same cases in the same order.\<close>

definition mapPersistedPhaseToRunStatus :: "string \<Rightarrow> status_error + run_status" where
  "mapPersistedPhaseToRunStatus s =
     (if s = ''created'' then Inr Pending
      else if s = ''planning'' then Inr Running
      else if s = ''analysing'' then Inr Running
      else if s = ''delegating'' then Inr Running
      else if s = ''executing'' then Inr Running
      else if s = ''verifying'' then Inr Running
      else if s = ''recovering'' then Inr Running
      else if s = ''completed'' then Inr RunCompleted
      else if s = ''failed'' then Inr RunFailed
      else if s = ''cancelled'' then Inr RunCancelled
      else Inl (InvalidPersistedPhase s))"

definition mapTaskRunStateToRunStatus :: "string \<Rightarrow> status_error + run_status" where
  "mapTaskRunStateToRunStatus s =
     (if s = ''created'' then Inr Pending
      else if s = ''planning'' then Inr Running
      else if s = ''analysing'' then Inr Running
      else if s = ''delegating'' then Inr Running
      else if s = ''executing'' then Inr Running
      else if s = ''verifying'' then Inr Running
      else if s = ''recovering'' then Inr Running
      else if s = ''completed'' then Inr RunCompleted
      else if s = ''failed'' then Inr RunFailed
      else if s = ''cancelled'' then Inr RunCancelled
      else Inl (InvalidPersistedPhase s))"

section \<open>Legal transitions (services/transition-engine.ts)\<close>

fun legal_phase_transitions :: "phase \<Rightarrow> phase list" where
  "legal_phase_transitions Created = [Planning, Analysing, Executing, Cancelled, Failed]"
| "legal_phase_transitions Planning = [Analysing, Delegating, Executing, Cancelled, Failed]"
| "legal_phase_transitions Analysing = [Delegating, Executing, Planning, Cancelled, Failed]"
| "legal_phase_transitions Delegating = [Executing, Recovering, Cancelled, Failed]"
| "legal_phase_transitions Executing = [Verifying, Delegating, Recovering, Completed, Failed, Cancelled]"
| "legal_phase_transitions Verifying = [Executing, Recovering, Completed, Failed, Cancelled]"
| "legal_phase_transitions Recovering = [Executing, Delegating, Planning, Failed, Cancelled]"
| "legal_phase_transitions Completed = []"
| "legal_phase_transitions Failed = []"
| "legal_phase_transitions Cancelled = []"

definition terminal_phases :: "phase list" where
  "terminal_phases = [Completed, Failed, Cancelled]"

definition isValidPhaseTransition :: "phase \<Rightarrow> phase \<Rightarrow> bool" where
  "isValidPhaseTransition p q \<longleftrightarrow>
     (if p = q then True
      else if p \<in> set terminal_phases then False
      else q \<in> set (legal_phase_transitions p))"

lemma terminal_phases_iff [simp]:
  "p \<in> set terminal_phases \<longleftrightarrow> p = Completed \<or> p = Failed \<or> p = Cancelled"
  by (auto simp: terminal_phases_def)

interpretation phases: phase_machine isValidPhaseTransition "\<lambda>p. p \<in> set terminal_phases"
  by unfold_locales (auto simp: isValidPhaseTransition_def split: if_splits)

lemma phase_name_inj [simp]: "phase_name p = phase_name q \<longleftrightarrow> p = q"
  by (cases p; cases q) simp_all

lemma phase_of_name [simp]: "phase_of (phase_name p) = Some p"
  by (cases p) (simp_all add: phase_of_def valid_persisted_phases_def)

lemma phase_of_Some: "phase_of s = Some p \<longleftrightarrow> s = phase_name p"
proof
  assume "phase_of s = Some p"
  from find_SomeD [OF this [unfolded phase_of_def]] show "s = phase_name p" by simp
qed simp

section \<open>The table task_runs (persistence/repositories/task-run.ts)\<close>

record task_run_row =
  row_runId :: string
  row_contractId :: string
  row_strategy :: string
  row_state :: phase
  row_aggregateVersion :: int
  row_baselineSha :: string
  row_currentSha :: "string option"
  row_verificationSha :: "string option"
  row_completionSha :: "string option"
  row_repoBranch :: string
  row_workingTreeClean :: bool
  row_previousRunId :: "string option"
  row_createdAt :: int
  row_startedAt :: "int option"
  row_completedAt :: "int option"

record create_task_run_input =
  ct_runId :: string
  ct_contractId :: string
  ct_strategy :: string
  ct_baselineSha :: string
  ct_repoBranch :: string

datatype repo_error = ConstraintFailed | CompletionPolicyRequired

definition findById :: "task_run_row list \<Rightarrow> string \<Rightarrow> task_run_row option" where
  "findById rows rid = List.find (\<lambda>r. row_runId r = rid) rows"

text \<open>
  The insertion fails for a run id that exists, a strategy the table does not admit, and a
  contract the table of contracts (\<open>contracts\<close>) does not hold.
\<close>

definition create_task_run ::
    "string list \<Rightarrow> int \<Rightarrow> create_task_run_input \<Rightarrow> task_run_row list
      \<Rightarrow> repo_error + (task_run_row \<times> task_run_row list)" where
  "create_task_run contracts now i rows =
     (if findById rows (ct_runId i) \<noteq> None
         \<or> ct_strategy i \<notin> set [''simple'', ''planned'', ''delegated'', ''audit'', ''recovery'']
         \<or> ct_contractId i \<notin> set contracts
      then Inl ConstraintFailed
      else
        let r = \<lparr>row_runId = ct_runId i, row_contractId = ct_contractId i,
                 row_strategy = ct_strategy i, row_state = Created, row_aggregateVersion = 1,
                 row_baselineSha = ct_baselineSha i, row_currentSha = None,
                 row_verificationSha = None, row_completionSha = None,
                 row_repoBranch = ct_repoBranch i, row_workingTreeClean = True,
                 row_previousRunId = None, row_createdAt = now, row_startedAt = None,
                 row_completedAt = None\<rparr>
        in Inr (r, rows @ [r]))"

definition findByState ::
    "(task_run_row list \<Rightarrow> task_run_row list) \<Rightarrow> task_run_row list \<Rightarrow> string \<Rightarrow> task_run_row list" where
  "findByState byCreatedAt rows st = byCreatedAt (filter (\<lambda>r. phase_name (row_state r) = st) rows)"

text \<open>\<open>UPDATE ... SET state, aggregate_version + 1 [, current_sha] WHERE cond\<close>, with its row count.\<close>

definition advance_row :: "phase \<Rightarrow> string option \<Rightarrow> task_run_row \<Rightarrow> task_run_row" where
  "advance_row p sha r =
     (let r' = r\<lparr>row_state := p, row_aggregateVersion := row_aggregateVersion r + 1\<rparr>
      in if truthy sha then r'\<lparr>row_currentSha := sha\<rparr> else r')"

definition update_rows ::
    "(task_run_row \<Rightarrow> bool) \<Rightarrow> string \<Rightarrow> string option \<Rightarrow> task_run_row list
      \<Rightarrow> repo_error + (nat \<times> task_run_row list)" where
  "update_rows cond st sha rows =
     (if filter cond rows = [] then Inr (0, rows)
      else
        case phase_of st of
          None \<Rightarrow> Inl ConstraintFailed
        | Some p \<Rightarrow>
            Inr (length (filter cond rows), map (\<lambda>r. if cond r then advance_row p sha r else r) rows))"

definition updateState ::
    "string \<Rightarrow> string \<Rightarrow> string option \<Rightarrow> task_run_row list \<Rightarrow> repo_error + (bool \<times> task_run_row list)" where
  "updateState rid st sha rows =
     (if st = ''completed'' then Inl CompletionPolicyRequired
      else
        case update_rows (\<lambda>r. row_runId r = rid) st sha rows of
          Inl e \<Rightarrow> Inl e
        | Inr (n, rows') \<Rightarrow> Inr (0 < n, rows'))"

definition transitionPhaseCas ::
    "string \<Rightarrow> string \<Rightarrow> int \<Rightarrow> string \<Rightarrow> string option \<Rightarrow> task_run_row list
      \<Rightarrow> repo_error + (int option \<times> task_run_row list)" where
  "transitionPhaseCas rid expectedPhase expectedVersion targetPhase sha rows =
     (case update_rows (\<lambda>r. row_runId r = rid \<and> phase_name (row_state r) = expectedPhase
                          \<and> row_aggregateVersion r = expectedVersion) targetPhase sha rows of
        Inl e \<Rightarrow> Inl e
      | Inr (n, rows') \<Rightarrow> Inr (if 0 < n then Some (expectedVersion + 1) else None, rows'))"

section \<open>Facts about the table\<close>

definition runs_ok :: "task_run_row list \<Rightarrow> bool" where
  "runs_ok rows \<longleftrightarrow> distinct (map row_runId rows)"

lemma advance_row_simps [simp]:
  "row_runId (advance_row p sha r) = row_runId r"
  "row_state (advance_row p sha r) = p"
  "row_aggregateVersion (advance_row p sha r) = row_aggregateVersion r + 1"
  by (simp_all add: advance_row_def Let_def)

lemma findById_Some: "runs_ok rows \<Longrightarrow> findById rows rid = Some r \<longleftrightarrow> r \<in> set rows \<and> row_runId r = rid"
  unfolding findById_def runs_ok_def by (rule find_distinct_key)

lemma findById_None: "findById rows rid = None \<longleftrightarrow> (\<forall>r \<in> set rows. row_runId r \<noteq> rid)"
  by (simp add: findById_def find_None_iff_all)

lemma update_rows_ids:
  "update_rows c st sha rows = Inr (n, rows') \<Longrightarrow> map row_runId rows' = map row_runId rows"
  by (auto simp: update_rows_def comp_def split: if_splits option.splits)

lemma findById_map:
  assumes "\<And>r. row_runId (f r) = row_runId r"
  shows "findById (map f rows) rid = map_option f (findById rows rid)"
  by (induction rows) (simp_all add: findById_def assms)

lemma find_cas:
  assumes "runs_ok rows"
  shows "filter (\<lambda>r. row_runId r = rid \<and> P r) rows = [] \<longleftrightarrow>
     (case findById rows rid of None \<Rightarrow> True | Some r \<Rightarrow> \<not> P r)"
proof (cases "findById rows rid")
  case None
  then have "\<forall>r \<in> set rows. row_runId r \<noteq> rid" by (simp only: findById_None)
  with None show ?thesis by (auto simp: filter_empty_conv)
next
  case (Some r)
  then have "x = r" if "x \<in> set rows" "row_runId x = rid" for x
    using that by (metis findById_Some [OF assms] option.inject)
  moreover have "r \<in> set rows" "row_runId r = rid" using Some by (simp_all add: findById_Some [OF assms])
  ultimately have "(\<forall>x \<in> set rows. \<not> (row_runId x = rid \<and> P x)) \<longleftrightarrow> \<not> P r" by blast
  with Some show ?thesis by (simp add: filter_empty_conv)
qed

text \<open>The compare-and-swap, read at the row of the run.\<close>

lemma transitionPhaseCas_eq:
  assumes "runs_ok rows"
  shows "transitionPhaseCas rid (phase_name p) v (phase_name q) sha rows =
     (case findById rows rid of
        None \<Rightarrow> Inr (None, rows)
      | Some r \<Rightarrow>
          if row_state r = p \<and> row_aggregateVersion r = v
          then Inr (Some (v + 1), map (\<lambda>x. if row_runId x = rid then advance_row q sha x else x) rows)
          else Inr (None, rows))"
proof (cases "findById rows rid")
  case None
  then show ?thesis
    using find_cas [OF assms, of rid "\<lambda>r. row_state r = p \<and> row_aggregateVersion r = v"]
    by (simp add: transitionPhaseCas_def update_rows_def)
next
  case (Some r)
  then have only: "x = r" if "x \<in> set rows" "row_runId x = rid" for x
    using that by (metis findById_Some [OF assms] option.inject)
  have same: "map (\<lambda>x. if row_runId x = rid \<and> row_state x = p \<and> row_aggregateVersion x = v
                    then advance_row q sha x else x) rows
      = map (\<lambda>x. if row_runId x = rid then advance_row q sha x else x) rows"
    if "row_state r = p" "row_aggregateVersion r = v"
    using that only by (auto intro!: map_cong)
  show ?thesis
    using Some find_cas [OF assms, of rid "\<lambda>r. row_state r = p \<and> row_aggregateVersion r = v"] same
    by (auto simp: transitionPhaseCas_def update_rows_def)
qed

text \<open>Phase changes of one table, as attempts on the version of a run.\<close>

definition run_version :: "task_run_row list \<Rightarrow> string \<Rightarrow> int" where
  "run_version rows rid = (case findById rows rid of None \<Rightarrow> 0 | Some r \<Rightarrow> row_aggregateVersion r)"

end
