(* ===== verification/Tables.thy ===== *)
theory Tables
  imports Phases "HOL-Library.Multiset"
begin

text \<open>
  The tables the orchestration services share, and the repository of native child executions
  (\<open>persistence/repositories/native-child-execution.ts\<close>), which lives in the table
  \<open>execution_metadata\<close> like the attempt history, the strategy constraints and the progress
  state.

  A row's \<open>value\<close> column holds the JSON text of one record. It is kept as that record: the
  writers store what \<open>JSON.stringify\<close> makes of a record of their own type and the readers
  parse it again; a text that is not one of these records is \<open>MText\<close>.

  SQLite is outside the source. A \<open>sql_order\<close> stands for the order in which it returns the rows
  of a query: \<open>sq_scan\<close> and \<open>sq_byCreated\<close> for metadata without and with \<open>ORDER BY created_at\<close>,
  \<open>sq_results\<close> for assignment results and \<open>sq_sessions\<close> for sessions by start.
\<close>

section \<open>The records kept in execution_metadata\<close>

text \<open>\<open>AttemptRecord\<close>, \<open>StrategyConstraintSet\<close> and \<open>StrategyConstraint\<close> of the transition engine.\<close>

record attempt =
  at_runId :: string
  at_assignmentId :: string
  at_attemptNumber :: int
  at_callID :: "string option"
  at_tool :: string
  at_actionFingerprint :: string
  at_resultFingerprint :: "string option"
  at_preStateFingerprint :: string
  at_postStateFingerprint :: "string option"
  at_startedAt :: int
  at_finishedAt :: "int option"
  at_progressProduced :: bool
  at_repositoryDelta :: int
  at_evidenceDelta :: int
  at_verificationDelta :: int
  at_childStateDelta :: int
  at_isTransientError :: "bool option"
  at_failureReason :: "string option"
  at_evidenceIds :: "string list"

record strategy_constraint =
  sc_runId :: string
  sc_assignmentId :: string
  sc_prohibitedActionFingerprint :: string
  sc_stateFingerprint :: string
  sc_reason :: string
  sc_createdAt :: int
  sc_clearedAt :: "int option"

record constraint_set =
  cs_runId :: string
  cs_assignmentId :: string
  cs_stateFingerprint :: string
  cs_prohibited :: "string list"
  cs_reasons :: "(string \<times> string) list option"
  cs_exhausted :: bool
  cs_createdAt :: int
  cs_updatedAt :: int
  cs_clearedAt :: "int option"

text \<open>\<open>StallResult\<close> and the progress state of a run (\<open>progress-observation-service.ts\<close>).\<close>

record stall_result =
  sr_stalled :: bool
  sr_reasons :: "string list"

record progress_state =
  ps_lastActionFingerprint :: "string option"
  ps_lastResultFingerprint :: "string option"
  ps_lastRepositoryHash :: "string option"
  ps_lastVerificationHash :: "string option"
  ps_repeatedFailure :: int
  ps_repeatedTool :: int
  ps_unchangedDiff :: int
  ps_repeatedContext :: int
  ps_tokensSinceProgress :: int
  ps_noProgressCount :: int
  ps_meaningfulStateVersion :: "int option"
  ps_lastProgressAt :: "int option"
  ps_lastProgressReason :: "string option"
  ps_lastStallResult :: "stall_result option"
  ps_lastEvidenceDelta :: int
  ps_lastRepositoryDelta :: int
  ps_seenFailureSignatures :: "string list"
  ps_seenEvidenceHashes :: "string list"
  ps_recoveryError :: "bool option"

text \<open>\<open>ChildExecutionRecord\<close>.\<close>

datatype child_state =
    ChQueued | ChRunning | ChCancelRequested | ChCompleted | ChFailed | ChCancelled | ChTimedOut
  | ChUnknown

record child_execution =
  ch_executionId :: string
  ch_runId :: string
  ch_assignmentId :: string
  ch_taskCallId :: string
  ch_specialistId :: "string option"
  ch_parentSessionId :: string
  ch_childSessionId :: "string option"
  ch_agentId :: string
  ch_status :: child_state
  ch_background :: bool
  ch_prompt :: "string option"
  ch_description :: "string option"
  ch_result :: "string option"
  ch_error :: "string option"
  ch_cancelRequested :: "bool option"
  ch_nativeTerminationConfirmed :: "bool option"
  ch_startedAt :: int
  ch_completedAt :: "int option"

datatype meta_value =
    MAttempt attempt
  | MConstraints constraint_set
  | MConsumed int int
  | MProgress progress_state
  | MChild child_execution
  | MText string

record meta_row =
  m_id :: string
  m_runId :: string
  m_key :: string
  m_value :: meta_value
  m_createdAt :: int

section \<open>The other tables\<close>

text \<open>\<open>call_id_attempts\<close>: the call id is the primary key.\<close>

record call_row =
  cr_callId :: string
  cr_runId :: string
  cr_assignmentId :: string
  cr_attemptNumber :: int

text \<open>The columns of \<open>assignments\<close>, \<open>assignment_results\<close>, \<open>deferred_replacements\<close> and
  \<open>agent_sessions\<close> that the snapshot reads.\<close>

record assignment_row =
  asg_id :: string
  asg_runId :: string
  asg_agentId :: string
  asg_description :: string
  asg_status :: string
  asg_isRequired :: int
  asg_createdAt :: int

record result_row =
  rr_id :: string
  rr_assignmentId :: string
  rr_stepNumber :: int
  rr_status :: string
  rr_testsPassed :: "int option"
  rr_testsFailed :: "int option"
  rr_completedAt :: "int option"

record deferred_row =
  df_oldRunId :: string
  df_status :: string

record session_row =
  se_id :: string
  se_runId :: string
  se_depth :: int
  se_startedAt :: int

record orch_db =
  db_runs :: "task_run_row list"
  db_meta :: "meta_row list"
  db_calls :: "call_row list"
  db_assignments :: "assignment_row list"
  db_results :: "result_row list"
  db_deferred :: "deferred_row list option"
  db_sessions :: "session_row list"

text \<open>The orders in which SQLite returns rows.\<close>

record sql_order =
  sq_scan :: "meta_row list \<Rightarrow> meta_row list"
  sq_byCreated :: "meta_row list \<Rightarrow> meta_row list"
  sq_results :: "result_row list \<Rightarrow> result_row list"
  sq_sessions :: "session_row list \<Rightarrow> session_row list"

definition sql_order_ok :: "sql_order \<Rightarrow> bool" where
  "sql_order_ok q \<longleftrightarrow>
     (\<forall>rows. mset (sq_scan q rows) = mset rows \<and> mset (sq_byCreated q rows) = mset rows
        \<and> sorted (map m_createdAt (sq_byCreated q rows)))"

section \<open>Reading and writing execution_metadata\<close>

definition meta_at :: "meta_row list \<Rightarrow> string \<Rightarrow> string \<Rightarrow> meta_row option" where
  "meta_at rows rid k = List.find (\<lambda>r. m_runId r = rid \<and> m_key r = k) rows"

text \<open>A plain insertion: primary key, unique pair of run and key, and the run's existence.\<close>

definition meta_insert ::
    "string \<Rightarrow> string \<Rightarrow> string \<Rightarrow> meta_value \<Rightarrow> int \<Rightarrow> orch_db \<Rightarrow> repo_error + orch_db" where
  "meta_insert i rid k v now d =
     (if meta_at (db_meta d) rid k \<noteq> None \<or> i \<in> m_id ` set (db_meta d)
         \<or> findById (db_runs d) rid = None
      then Inl ConstraintFailed
      else Inr (d\<lparr>db_meta := db_meta d @ [\<lparr>m_id = i, m_runId = rid, m_key = k, m_value = v,
                                          m_createdAt = now\<rparr>]\<rparr>))"

text \<open>\<open>... ON CONFLICT(run_id, key) DO UPDATE SET value = excluded.value\<close>\<close>

definition meta_upsert ::
    "string \<Rightarrow> string \<Rightarrow> string \<Rightarrow> meta_value \<Rightarrow> int \<Rightarrow> orch_db \<Rightarrow> repo_error + orch_db" where
  "meta_upsert i rid k v now d =
     (if meta_at (db_meta d) rid k \<noteq> None
      then Inr (d\<lparr>db_meta := map (\<lambda>r. if m_runId r = rid \<and> m_key r = k then r\<lparr>m_value := v\<rparr> else r)
                               (db_meta d)\<rparr>)
      else meta_insert i rid k v now d)"

definition meta_delete :: "(meta_row \<Rightarrow> bool) \<Rightarrow> orch_db \<Rightarrow> nat \<times> orch_db" where
  "meta_delete cond d =
     (length (filter cond (db_meta d)), d\<lparr>db_meta := filter (\<lambda>r. \<not> cond r) (db_meta d)\<rparr>)"

section \<open>Native child executions (native-child-execution.ts)\<close>

definition child_key :: "string \<Rightarrow> string" where
  "child_key taskCallId = ''child_exec:'' @ taskCallId"

definition child_save :: "int \<Rightarrow> child_execution \<Rightarrow> orch_db \<Rightarrow> repo_error + orch_db" where
  "child_save now c d =
     meta_upsert (''meta-'' @ ch_executionId c) (ch_runId c) (child_key (ch_taskCallId c)) (MChild c) now d"

definition child_of :: "meta_value \<Rightarrow> child_execution option" where
  "child_of v =
     (case v of
        MChild c \<Rightarrow>
          if ch_taskCallId c \<noteq> [] \<and> ch_executionId c \<noteq> [] \<and> ch_assignmentId c \<noteq> [] then Some c else None
      | _ \<Rightarrow> None)"

definition child_listAll :: "sql_order \<Rightarrow> string option \<Rightarrow> orch_db \<Rightarrow> child_execution list" where
  "child_listAll q rid d =
     List.map_filter (\<lambda>r. child_of (m_value r))
       (sq_scan q (filter (\<lambda>r. (truthy rid \<longrightarrow> Some (m_runId r) = rid)
                             \<and> sql_like ''child_exec:%'' (m_key r)) (db_meta d)))"

definition child_findByTaskCallId ::
    "sql_order \<Rightarrow> string \<Rightarrow> string option \<Rightarrow> orch_db \<Rightarrow> child_execution option" where
  "child_findByTaskCallId q tc rid d =
     (case sq_scan q (filter (\<lambda>r. (truthy rid \<longrightarrow> Some (m_runId r) = rid) \<and> m_key r = child_key tc)
             (db_meta d)) of
        [] \<Rightarrow> None
      | r # _ \<Rightarrow> (case m_value r of MChild c \<Rightarrow> Some c | _ \<Rightarrow> None))"

definition child_delete :: "string \<Rightarrow> string option \<Rightarrow> orch_db \<Rightarrow> bool \<times> orch_db" where
  "child_delete tc rid d =
     (case meta_delete (\<lambda>r. (truthy rid \<longrightarrow> Some (m_runId r) = rid) \<and> m_key r = child_key tc) d of
        (n, d') \<Rightarrow> (0 < n, d'))"

section \<open>Facts about the table\<close>

text \<open>What the schema keeps: primary keys and the unique pair of run and key.\<close>

definition meta_ok :: "orch_db \<Rightarrow> bool" where
  "meta_ok d \<longleftrightarrow>
     distinct (map m_id (db_meta d)) \<and> distinct (map (\<lambda>r. (m_runId r, m_key r)) (db_meta d))
     \<and> distinct (map cr_callId (db_calls d)) \<and> runs_ok (db_runs d)"

lemma meta_at_pair:
  "meta_at rows rid k = List.find (\<lambda>r. (m_runId r, m_key r) = (rid, k)) rows"
  by (simp add: meta_at_def)

lemma meta_at_Some:
  "distinct (map (\<lambda>r. (m_runId r, m_key r)) rows) \<Longrightarrow>
     meta_at rows rid k = Some r \<longleftrightarrow> r \<in> set rows \<and> m_runId r = rid \<and> m_key r = k"
  unfolding meta_at_pair by (subst find_distinct_key) auto

lemma meta_at_None: "meta_at rows rid k = None \<longleftrightarrow> (\<forall>r \<in> set rows. (m_runId r, m_key r) \<noteq> (rid, k))"
  by (auto simp: meta_at_def find_None_iff_all)

lemma meta_at_append:
  "meta_at (rows @ [r]) rid k =
     (case meta_at rows rid k of Some x \<Rightarrow> Some x
      | None \<Rightarrow> if m_runId r = rid \<and> m_key r = k then Some r else None)"
  by (induction rows) (simp_all add: meta_at_def)

lemma meta_at_map:
  assumes "\<And>r. m_runId (f r) = m_runId r \<and> m_key (f r) = m_key r"
  shows "meta_at (map f rows) rid k = map_option f (meta_at rows rid k)"
  using assms by (induction rows) (simp_all add: meta_at_def)

definition meta_val :: "orch_db \<Rightarrow> string \<times> string \<Rightarrow> meta_value option" where
  "meta_val d rk = map_option m_value (meta_at (db_meta d) (fst rk) (snd rk))"

lemma meta_insert_val [store_simps]:
  "meta_insert i rid k v now d = Inr d' \<Longrightarrow>
     meta_val d' rk = (if rk = (rid, k) then Some v else meta_val d rk)"
  by (cases rk) (auto simp: meta_insert_def meta_val_def meta_at_append split: if_splits option.split)

lemma meta_at_keys: "meta_at rows rid k = Some r \<Longrightarrow> m_runId r = rid \<and> m_key r = k"
  by (auto simp: meta_at_def dest: find_SomeD)

lemma meta_upsert_val [store_simps]:
  assumes "meta_upsert i rid k v now d = Inr d'"
  shows "meta_val d' rk = (if rk = (rid, k) then Some v else meta_val d rk)"
proof (cases "meta_at (db_meta d) rid k")
  case None
  with assms show ?thesis by (simp add: meta_upsert_def meta_insert_val)
next
  case (Some r)
  then have d': "d' = d\<lparr>db_meta := map (\<lambda>r. if m_runId r = rid \<and> m_key r = k then r\<lparr>m_value := v\<rparr> else r)
      (db_meta d)\<rparr>"
    using assms by (simp add: meta_upsert_def)
  show ?thesis
    using meta_at_keys [OF Some]
    by (cases rk)
      (auto simp: d' meta_val_def meta_at_map Some option.map_comp comp_def dest: meta_at_keys
        intro!: map_option_cong)
qed

lemma meta_insert_frame [frame_simps]:
  assumes "meta_insert i rid k v now d = Inr d'"
  shows "db_runs d' = db_runs d" "db_calls d' = db_calls d" "db_assignments d' = db_assignments d"
    "db_results d' = db_results d" "db_deferred d' = db_deferred d" "db_sessions d' = db_sessions d"
  using assms by (auto simp: meta_insert_def split: if_splits)

lemma meta_upsert_frame [frame_simps]:
  assumes "meta_upsert i rid k v now d = Inr d'"
  shows "db_runs d' = db_runs d" "db_calls d' = db_calls d" "db_assignments d' = db_assignments d"
    "db_results d' = db_results d" "db_deferred d' = db_deferred d" "db_sessions d' = db_sessions d"
  using assms meta_insert_frame [of i rid k v now d d']
  by (auto simp: meta_upsert_def split: if_splits)

lemma meta_insert_ok: "meta_ok d \<Longrightarrow> meta_insert i rid k v now d = Inr d' \<Longrightarrow> meta_ok d'"
  by (auto simp: meta_ok_def meta_insert_def meta_at_None split: if_splits)

lemma meta_upsert_ok:
  assumes "meta_ok d" and "meta_upsert i rid k v now d = Inr d'"
  shows "meta_ok d'"
proof (cases "meta_at (db_meta d) rid k")
  case None
  with assms show ?thesis by (auto simp: meta_upsert_def intro: meta_insert_ok)
next
  case (Some r)
  have d': "d' = d\<lparr>db_meta := map (\<lambda>r. if m_runId r = rid \<and> m_key r = k then r\<lparr>m_value := v\<rparr> else r)
      (db_meta d)\<rparr>"
    using Some assms by (simp add: meta_upsert_def)
  have "m_id \<circ> (\<lambda>r :: meta_row. if m_runId r = rid \<and> m_key r = k then r\<lparr>m_value := v\<rparr> else r) = m_id"
    "(\<lambda>r. (m_runId r, m_key r)) \<circ> (\<lambda>r :: meta_row. if m_runId r = rid \<and> m_key r = k then r\<lparr>m_value := v\<rparr> else r)
      = (\<lambda>r. (m_runId r, m_key r))"
    by (rule ext, simp)+
  with assms(1) show ?thesis unfolding d' meta_ok_def by (simp del: comp_apply)
qed

end
