(* ===== verification/Attempts.thy ===== *)
theory Attempts
  imports Tables
begin

text \<open>
  The durable attempt history and strategy constraints of the transition engine
  (\<open>services/transition-engine.ts\<close>, from \<open>allocateNextAttemptNumber\<close> to \<open>isTransientError\<close>).

  The engine is composed with a transaction manager, so an operation that throws leaves the
  database as it was: it is an \<open>Inl\<close>.
\<close>

section \<open>Attempt history\<close>

definition attempt_key :: "string \<Rightarrow> string \<Rightarrow> int \<Rightarrow> string" where
  "attempt_key rid aid n = ''attempt:'' @ rid @ '':'' @ aid @ '':'' @ int_str n"

definition attempt_row_id :: "string \<Rightarrow> string \<Rightarrow> int \<Rightarrow> string" where
  "attempt_row_id rid aid n = ''meta-att-'' @ rid @ ''-'' @ aid @ ''-'' @ int_str n"

definition attempt_of :: "meta_value \<Rightarrow> attempt option" where
  "attempt_of v = (case v of MAttempt a \<Rightarrow> Some a | _ \<Rightarrow> None)"

definition listAttempts :: "sql_order \<Rightarrow> string \<Rightarrow> string \<Rightarrow> orch_db \<Rightarrow> attempt list" where
  "listAttempts q rid aid d =
     List.map_filter (\<lambda>r. attempt_of (m_value r))
       (sq_byCreated q
         (filter (\<lambda>r. m_runId r = rid \<and> sql_like (''attempt:'' @ rid @ '':'' @ aid @ '':%'') (m_key r))
            (db_meta d)))"

definition max_number :: "int \<Rightarrow> attempt \<Rightarrow> int" where
  "max_number m a = (if at_attemptNumber a > m then at_attemptNumber a else m)"

definition allocateNextAttemptNumber :: "sql_order \<Rightarrow> string \<Rightarrow> string \<Rightarrow> orch_db \<Rightarrow> int" where
  "allocateNextAttemptNumber q rid aid d =
     foldl max_number 0 (listAttempts q rid aid d) + 1"

definition getAttempt :: "string \<Rightarrow> string \<Rightarrow> int \<Rightarrow> orch_db \<Rightarrow> attempt option" where
  "getAttempt rid aid n d =
     (case meta_at (db_meta d) rid (attempt_key rid aid n) of
        None \<Rightarrow> None | Some r \<Rightarrow> attempt_of (m_value r))"

definition call_at :: "orch_db \<Rightarrow> string \<Rightarrow> call_row option" where
  "call_at d c = List.find (\<lambda>r. cr_callId r = c) (db_calls d)"

text \<open>The record of an attempt that has just started.\<close>

definition new_attempt ::
    "string \<Rightarrow> string \<Rightarrow> int \<Rightarrow> string option \<Rightarrow> string \<Rightarrow> string \<Rightarrow> string \<Rightarrow> int \<Rightarrow> attempt" where
  "new_attempt rid aid n callID tool actionFp preFp startedAt =
     \<lparr>at_runId = rid, at_assignmentId = aid, at_attemptNumber = n, at_callID = callID,
      at_tool = tool, at_actionFingerprint = actionFp, at_resultFingerprint = None,
      at_preStateFingerprint = preFp, at_postStateFingerprint = None, at_startedAt = startedAt,
      at_finishedAt = None, at_progressProduced = False, at_repositoryDelta = 0,
      at_evidenceDelta = 0, at_verificationDelta = 0, at_childStateDelta = 0,
      at_isTransientError = None, at_failureReason = None, at_evidenceIds = []\<rparr>"

record start_input =
  st_runId :: string
  st_assignmentId :: string
  st_callID :: string
  st_tool :: string
  st_actionFingerprint :: string
  st_preStateFingerprint :: string
  st_startedAt :: "int option"

text \<open>The attempt an earlier start with the same call id registered, when it still can be read.\<close>

definition registered_attempt :: "string \<Rightarrow> orch_db \<Rightarrow> attempt option" where
  "registered_attempt callID d =
     (case call_at d callID of
        None \<Rightarrow> None
      | Some c \<Rightarrow> getAttempt (cr_runId c) (cr_assignmentId c) (cr_attemptNumber c) d)"

definition startAttempt ::
    "sql_order \<Rightarrow> int \<Rightarrow> start_input \<Rightarrow> orch_db \<Rightarrow> repo_error + (attempt \<times> orch_db)" where
  "startAttempt q now i d =
     (case registered_attempt (st_callID i) d of
        Some existing \<Rightarrow> Inr (existing, d)
      | None \<Rightarrow>
          let n = allocateNextAttemptNumber q (st_runId i) (st_assignmentId i) d;
              a = new_attempt (st_runId i) (st_assignmentId i) n (Some (st_callID i)) (st_tool i)
                    (st_actionFingerprint i) (st_preStateFingerprint i) (nullish (st_startedAt i) now)
          in (case meta_insert (attempt_row_id (st_runId i) (st_assignmentId i) n) (st_runId i)
                     (attempt_key (st_runId i) (st_assignmentId i) n) (MAttempt a) now d of
                Inl e \<Rightarrow> Inl e
              | Inr d1 \<Rightarrow>
                  if call_at d1 (st_callID i) \<noteq> None then Inl ConstraintFailed
                  else Inr (a, d1\<lparr>db_calls := db_calls d1 @
                         [\<lparr>cr_callId = st_callID i, cr_runId = st_runId i,
                           cr_assignmentId = st_assignmentId i, cr_attemptNumber = n\<rparr>]\<rparr>)))"

definition findAttemptByCallID :: "string \<Rightarrow> orch_db \<Rightarrow> attempt option" where
  "findAttemptByCallID callID d =
     (case call_at d callID of
        None \<Rightarrow> None
      | Some c \<Rightarrow> getAttempt (cr_runId c) (cr_assignmentId c) (cr_attemptNumber c) d)"

definition recordAttempt :: "int \<Rightarrow> attempt \<Rightarrow> orch_db \<Rightarrow> repo_error + orch_db" where
  "recordAttempt now a d =
     meta_upsert (attempt_row_id (at_runId a) (at_assignmentId a) (at_attemptNumber a)) (at_runId a)
       (attempt_key (at_runId a) (at_assignmentId a) (at_attemptNumber a)) (MAttempt a) now d"

record attempt_start =
  ats_runId :: string
  ats_assignmentId :: string
  ats_attemptNumber :: int
  ats_callID :: "string option"
  ats_tool :: string
  ats_actionFingerprint :: string
  ats_preStateFingerprint :: string
  ats_startedAt :: "int option"

definition recordAttemptStart ::
    "sql_order \<Rightarrow> int \<Rightarrow> attempt_start \<Rightarrow> orch_db \<Rightarrow> repo_error + (attempt \<times> orch_db)" where
  "recordAttemptStart q now s d =
     (if truthy (ats_callID s)
      then startAttempt q now
             \<lparr>st_runId = ats_runId s, st_assignmentId = ats_assignmentId s, st_callID = the (ats_callID s),
              st_tool = ats_tool s, st_actionFingerprint = ats_actionFingerprint s,
              st_preStateFingerprint = ats_preStateFingerprint s, st_startedAt = ats_startedAt s\<rparr> d
      else
        let full = new_attempt (ats_runId s) (ats_assignmentId s) (ats_attemptNumber s) (ats_callID s)
                     (ats_tool s) (ats_actionFingerprint s) (ats_preStateFingerprint s)
                     (nullish (ats_startedAt s) now)
        in (case recordAttempt now full d of Inl e \<Rightarrow> Inl e | Inr d' \<Rightarrow> Inr (full, d')))"

record finalize_input =
  fi_runId :: string
  fi_assignmentId :: string
  fi_attemptNumber :: int
  fi_resultFingerprint :: "string option"
  fi_postStateFingerprint :: "string option"
  fi_finishedAt :: "int option"
  fi_progressProduced :: bool
  fi_repositoryDelta :: "int option"
  fi_evidenceDelta :: "int option"
  fi_verificationDelta :: "int option"
  fi_childStateDelta :: "int option"
  fi_isTransientError :: "bool option"
  fi_failureReason :: "string option"
  fi_evidenceIds :: "string list option"

definition finalized :: "int \<Rightarrow> finalize_input \<Rightarrow> attempt \<Rightarrow> attempt" where
  "finalized now i a =
     a\<lparr>at_resultFingerprint := nullish_opt (fi_resultFingerprint i) (at_resultFingerprint a),
       at_postStateFingerprint := nullish_opt (fi_postStateFingerprint i) (at_postStateFingerprint a),
       at_finishedAt := Some (nullish (fi_finishedAt i) now),
       at_progressProduced := fi_progressProduced i,
       at_repositoryDelta := nullish (fi_repositoryDelta i) (at_repositoryDelta a),
       at_evidenceDelta := nullish (fi_evidenceDelta i) (at_evidenceDelta a),
       at_verificationDelta := nullish (fi_verificationDelta i) (at_verificationDelta a),
       at_childStateDelta := nullish (fi_childStateDelta i) (at_childStateDelta a),
       at_isTransientError := nullish_opt (fi_isTransientError i) (at_isTransientError a),
       at_failureReason := nullish_opt (fi_failureReason i) (at_failureReason a),
       at_evidenceIds := nullish (fi_evidenceIds i) (at_evidenceIds a)\<rparr>"

definition finalizeAttempt ::
    "sql_order \<Rightarrow> int \<Rightarrow> finalize_input \<Rightarrow> orch_db \<Rightarrow> repo_error + (attempt option \<times> orch_db)" where
  "finalizeAttempt q now i d =
     (case List.find (\<lambda>a. at_attemptNumber a = fi_attemptNumber i)
             (listAttempts q (fi_runId i) (fi_assignmentId i) d) of
        None \<Rightarrow> Inr (None, d)
      | Some existing \<Rightarrow>
          (case recordAttempt now (finalized now i existing) d of
             Inl e \<Rightarrow> Inl e
           | Inr d' \<Rightarrow> Inr (Some (finalized now i existing), d')))"

section \<open>Strategy constraints\<close>

definition constraint_key :: "string \<Rightarrow> string \<Rightarrow> string" where
  "constraint_key rid aid = ''strategy_constraint_set:'' @ rid @ '':'' @ aid"

definition constraint_row_id :: "string \<Rightarrow> string \<Rightarrow> string" where
  "constraint_row_id rid aid = ''meta-scs-'' @ rid @ ''-'' @ aid"

definition getActiveStrategyConstraints :: "string \<Rightarrow> string \<Rightarrow> orch_db \<Rightarrow> constraint_set option" where
  "getActiveStrategyConstraints rid aid d =
     (case meta_at (db_meta d) rid (constraint_key rid aid) of
        None \<Rightarrow> None
      | Some r \<Rightarrow>
          (case m_value r of
             MConstraints c \<Rightarrow> if cs_clearedAt c \<noteq> None then None else Some c
           | _ \<Rightarrow> None))"

definition getActiveStrategyConstraint :: "string \<Rightarrow> string \<Rightarrow> orch_db \<Rightarrow> strategy_constraint option" where
  "getActiveStrategyConstraint rid aid d =
     (case getActiveStrategyConstraints rid aid d of
        None \<Rightarrow> None
      | Some c \<Rightarrow>
          if length (cs_prohibited c) = 0 then None
          else
            let latestFp = last (cs_prohibited c)
            in Some \<lparr>sc_runId = cs_runId c, sc_assignmentId = cs_assignmentId c,
                     sc_prohibitedActionFingerprint = latestFp, sc_stateFingerprint = cs_stateFingerprint c,
                     sc_reason = nullish (map_of (nullish (cs_reasons c) []) latestFp)
                                   ''REPEATED_ACTION_BLOCKED'',
                     sc_createdAt = cs_createdAt c, sc_clearedAt = cs_clearedAt c\<rparr>)"

record constraint_input =
  in_runId :: string
  in_assignmentId :: string
  in_prohibited :: string
  in_stateFingerprint :: string
  in_reason :: string
  in_createdAt :: "int option"

text \<open>The set that a failure under a state leads to: kept, marked exhausted, extended or started.\<close>

definition next_constraint_set :: "int \<Rightarrow> constraint_input \<Rightarrow> constraint_set option \<Rightarrow> constraint_set" where
  "next_constraint_set now i existing =
     (let fresh = \<lparr>cs_runId = in_runId i, cs_assignmentId = in_assignmentId i,
                   cs_stateFingerprint = in_stateFingerprint i, cs_prohibited = [in_prohibited i],
                   cs_reasons = Some [(in_prohibited i, in_reason i)], cs_exhausted = False,
                   cs_createdAt = nullish (in_createdAt i) now, cs_updatedAt = now, cs_clearedAt = None\<rparr>
      in case existing of
           None \<Rightarrow> fresh
         | Some c \<Rightarrow>
             if cs_stateFingerprint c = in_stateFingerprint i then
               (if cs_exhausted c then c\<lparr>cs_updatedAt := now\<rparr>
                else if in_prohibited i \<in> set (cs_prohibited c) then c\<lparr>cs_updatedAt := now\<rparr>
                else if length (cs_prohibited c) \<ge> 20
                  then c\<lparr>cs_exhausted := True, cs_updatedAt := now\<rparr>
                else \<lparr>cs_runId = in_runId i, cs_assignmentId = in_assignmentId i,
                      cs_stateFingerprint = in_stateFingerprint i,
                      cs_prohibited = cs_prohibited c @ [in_prohibited i],
                      cs_reasons = Some (AList.update (in_prohibited i) (in_reason i)
                                           (nullish (cs_reasons c) [])),
                      cs_exhausted = False, cs_createdAt = cs_createdAt c, cs_updatedAt = now,
                      cs_clearedAt = None\<rparr>)
             else fresh)"

definition saveStrategyConstraint :: "int \<Rightarrow> constraint_input \<Rightarrow> orch_db \<Rightarrow> repo_error + orch_db" where
  "saveStrategyConstraint now i d =
     meta_upsert (constraint_row_id (in_runId i) (in_assignmentId i)) (in_runId i)
       (constraint_key (in_runId i) (in_assignmentId i))
       (MConstraints (next_constraint_set now i
          (getActiveStrategyConstraints (in_runId i) (in_assignmentId i) d))) now d"

definition clearStrategyConstraint :: "int \<Rightarrow> string \<Rightarrow> string \<Rightarrow> orch_db \<Rightarrow> repo_error + orch_db" where
  "clearStrategyConstraint now rid aid d =
     (case getActiveStrategyConstraints rid aid d of
        None \<Rightarrow> Inr d
      | Some c \<Rightarrow>
          meta_upsert (constraint_row_id rid aid) rid (constraint_key rid aid)
            (MConstraints (c\<lparr>cs_clearedAt := Some now\<rparr>)) now d)"

section \<open>Consumed progress\<close>

definition consumed_key :: "string \<Rightarrow> string \<Rightarrow> string" where
  "consumed_key rid aid = ''consumed_progress_attempt:'' @ rid @ '':'' @ aid"

definition getConsumedProgressAttempt :: "string \<Rightarrow> string \<Rightarrow> orch_db \<Rightarrow> int option" where
  "getConsumedProgressAttempt rid aid d =
     (case meta_at (db_meta d) rid (consumed_key rid aid) of
        None \<Rightarrow> None
      | Some r \<Rightarrow>
          (case m_value r of MConsumed n at \<Rightarrow> Some n | MAttempt a \<Rightarrow> Some (at_attemptNumber a) | _ \<Rightarrow> None))"

definition markConsumedProgressAttempt ::
    "int \<Rightarrow> string \<Rightarrow> string \<Rightarrow> int \<Rightarrow> orch_db \<Rightarrow> repo_error + orch_db" where
  "markConsumedProgressAttempt now rid aid n d =
     meta_upsert (''meta-cpa-'' @ rid @ ''-'' @ aid) rid (consumed_key rid aid) (MConsumed n now) now d"

section \<open>Transient errors\<close>

definition transient_markers :: "string list" where
  "transient_markers =
     [''timeout'', ''econnrefused'', ''etimedout'', ''rate limit'', ''429'', ''503'', ''temporary'',
      ''transient'', ''socket hang up'']"

definition isTransientError :: "string option \<Rightarrow> bool" where
  "isTransientError err =
     (case err of
        None \<Rightarrow> False
      | Some msg \<Rightarrow> msg \<noteq> [] \<and> list_ex (str_includes (lower_case msg)) transient_markers)"

section \<open>Numbers of attempts\<close>

text \<open>
  Every attempt is filed under its own key, in its own run, and nothing else is: the writers
  above file it there.
\<close>

definition files :: "string \<Rightarrow> string \<Rightarrow> meta_value \<Rightarrow> bool" where
  "files rid k v \<longleftrightarrow>
     (case v of
        MAttempt a \<Rightarrow> rid = at_runId a \<and> k = attempt_key (at_runId a) (at_assignmentId a) (at_attemptNumber a)
      | _ \<Rightarrow> \<not> starts_with k ''attempt:'')"

definition filed :: "orch_db \<Rightarrow> bool" where
  "filed d \<longleftrightarrow> (\<forall>r \<in> set (db_meta d). files (m_runId r) (m_key r) (m_value r))"

lemma attempt_key_inj:
  "attempt_key r a n = attempt_key r' a' n' \<longleftrightarrow> r @ CHR '':'' # a = r' @ CHR '':'' # a' \<and> n = n'"
proof
  assume "attempt_key r a n = attempt_key r' a' n'"
  then have "(r @ CHR '':'' # a) @ CHR '':'' # int_str n = (r' @ CHR '':'' # a') @ CHR '':'' # int_str n'"
    by (simp add: attempt_key_def)
  from last_separator [OF this int_str_no_colon int_str_no_colon]
  show "r @ CHR '':'' # a = r' @ CHR '':'' # a' \<and> n = n'" by (auto dest: int_str_inj)
qed (simp add: attempt_key_def)

lemma attempt_key_same_run [simp]:
  "attempt_key r a n = attempt_key r a' n' \<longleftrightarrow> a = a' \<and> n = n'"
  by (simp add: attempt_key_inj)

lemma attempt_key_prefix: "starts_with (attempt_key r a n) ''attempt:''"
  by (simp add: attempt_key_def starts_with_def)

lemma other_keys [simp]:
  "\<not> starts_with (constraint_key r a) ''attempt:''" "\<not> starts_with (consumed_key r a) ''attempt:''"
  "attempt_key r a n \<noteq> constraint_key r' a'" "attempt_key r a n \<noteq> consumed_key r' a'"
  "constraint_key r' a' \<noteq> attempt_key r a n" "consumed_key r' a' \<noteq> attempt_key r a n"
  "constraint_key r a \<noteq> consumed_key r' a'"
  by (simp_all add: constraint_key_def consumed_key_def attempt_key_def starts_with_def)

lemma attempt_key_like:
  "sql_like (''attempt:'' @ rid @ '':'' @ aid @ '':%'') (attempt_key rid aid n)"
proof -
  have "sql_like ((''attempt:'' @ rid @ '':'' @ aid @ '':'') @ [CHR ''%''])
      ((''attempt:'' @ rid @ '':'' @ aid @ '':'') @ int_str n)"
    by (rule sql_like_prefix)
  then show ?thesis by (simp add: attempt_key_def)
qed

lemma set_map_filter: "set (List.map_filter f xs) = {y. \<exists>x \<in> set xs. f x = Some y}"
  by (induction xs) (auto split: option.split)

lemma attempt_of_Some [simp]: "attempt_of v = Some a \<longleftrightarrow> v = MAttempt a"
  by (cases v) (simp_all add: attempt_of_def)

lemma in_listAttempts:
  assumes "sql_order_ok q"
  shows "a \<in> set (listAttempts q rid aid d) \<longleftrightarrow>
     (\<exists>r \<in> set (db_meta d). m_runId r = rid \<and> m_value r = MAttempt a
        \<and> sql_like (''attempt:'' @ rid @ '':'' @ aid @ '':%'') (m_key r))"
proof -
  have "set (sq_byCreated q rows) = set rows" for rows
    using assms by (metis sql_order_ok_def mset_eq_setD)
  then show ?thesis
    by (auto simp: listAttempts_def set_map_filter)
qed

lemma max_number_ge: "m \<le> foldl max_number m xs"
proof (induction xs arbitrary: m)
  case Nil
  show ?case by simp
next
  case (Cons x xs)
  have "m \<le> max_number m x" by (simp add: max_number_def)
  also have "\<dots> \<le> foldl max_number (max_number m x) xs" by (rule Cons.IH)
  finally show ?case by simp
qed

lemma max_number_all: "a \<in> set xs \<Longrightarrow> at_attemptNumber a \<le> foldl max_number m xs"
proof (induction xs arbitrary: m)
  case Nil
  then show ?case by simp
next
  case (Cons x xs)
  have "at_attemptNumber x \<le> max_number m x" by (simp add: max_number_def)
  also have "\<dots> \<le> foldl max_number (max_number m x) xs" by (rule max_number_ge)
  finally show ?case using Cons by auto
qed

lemma allocated_above:
  "a \<in> set (listAttempts q rid aid d) \<Longrightarrow> at_attemptNumber a < allocateNextAttemptNumber q rid aid d"
  using max_number_all [of a "listAttempts q rid aid d" 0] by (simp add: allocateNextAttemptNumber_def)

lemma meta_at_mem: "meta_at rows rid k = Some r \<Longrightarrow> r \<in> set rows"
  by (auto simp: meta_at_def dest: find_SomeD)

lemma filed_attempt:
  assumes "filed d" and "meta_at (db_meta d) rid (attempt_key rid aid n) = Some r"
  obtains a where "m_value r = MAttempt a" "at_runId a = rid" "at_assignmentId a = aid"
    "at_attemptNumber a = n"
proof -
  have r: "r \<in> set (db_meta d)" "m_runId r = rid" "m_key r = attempt_key rid aid n"
    using meta_at_mem [OF assms(2)] meta_at_keys [OF assms(2)] by simp_all
  have "files (m_runId r) (m_key r) (m_value r)" using assms(1) r(1) unfolding filed_def by blast
  with r(2,3) have here: "files rid (attempt_key rid aid n) (m_value r)" by simp
  show ?thesis
  proof (cases "m_value r")
    case (MAttempt a)
    with here that [of a] show ?thesis by (auto simp: files_def)
  qed (use here attempt_key_prefix [of rid aid n] in \<open>simp_all add: files_def\<close>)
qed

lemma allocated_key_free:
  assumes "filed d" and "sql_order_ok q"
  shows "meta_at (db_meta d) rid (attempt_key rid aid (allocateNextAttemptNumber q rid aid d)) = None"
proof (rule ccontr)
  let ?n = "allocateNextAttemptNumber q rid aid d"
  assume "meta_at (db_meta d) rid (attempt_key rid aid ?n) \<noteq> None"
  then obtain r where r: "meta_at (db_meta d) rid (attempt_key rid aid ?n) = Some r" by blast
  then obtain a where a: "m_value r = MAttempt a" "at_attemptNumber a = ?n"
    using assms(1) by (blast elim: filed_attempt)
  have "a \<in> set (listAttempts q rid aid d)"
    using meta_at_mem [OF r] meta_at_keys [OF r] a attempt_key_like [of rid aid ?n]
    by (auto simp: in_listAttempts [OF assms(2)])
  from allocated_above [OF this] a show False by simp
qed

section \<open>What the operations keep\<close>

lemma filed_insert:
  "filed d \<Longrightarrow> files rid k v \<Longrightarrow> meta_insert i rid k v now d = Inr d' \<Longrightarrow> filed d'"
  by (auto simp: filed_def meta_insert_def split: if_splits)

lemma filed_upsert:
  assumes "filed d" and "files rid k v" and "meta_upsert i rid k v now d = Inr d'"
  shows "filed d'"
proof (cases "meta_at (db_meta d) rid k")
  case None
  with assms show ?thesis by (auto simp: meta_upsert_def intro: filed_insert)
next
  case (Some r)
  with assms show ?thesis by (auto simp: meta_upsert_def filed_def)
qed

definition engine_inv :: "orch_db \<Rightarrow> bool" where
  "engine_inv d \<longleftrightarrow> meta_ok d \<and> filed d"

lemma engine_inv_upsert:
  "engine_inv d \<Longrightarrow> files rid k v \<Longrightarrow> meta_upsert i rid k v now d = Inr d' \<Longrightarrow> engine_inv d'"
  by (auto simp: engine_inv_def intro: meta_upsert_ok filed_upsert)

lemma files_simps [simp]:
  "files (at_runId a) (attempt_key (at_runId a) (at_assignmentId a) (at_attemptNumber a)) (MAttempt a)"
  "files r (constraint_key r' a') (MConstraints c)"
  "files r (consumed_key r' a') (MConsumed n t)"
  by (simp_all add: files_def)

text \<open>The operations of this theory that write, one after the other.\<close>

datatype attempt_op =
    OpStart int start_input
  | OpRecordStart int attempt_start
  | OpFinalize int finalize_input
  | OpConstrain int constraint_input
  | OpClear int string string
  | OpConsume int string string int

definition kept :: "orch_db \<Rightarrow> repo_error + orch_db \<Rightarrow> orch_db" where
  "kept d res = (case res of Inl _ \<Rightarrow> d | Inr d' \<Rightarrow> d')"

fun attempt_exec :: "sql_order \<Rightarrow> attempt_op \<Rightarrow> orch_db \<Rightarrow> orch_db" where
  "attempt_exec q (OpStart now i) d = kept d (map_sum id snd (startAttempt q now i d))"
| "attempt_exec q (OpRecordStart now s) d = kept d (map_sum id snd (recordAttemptStart q now s d))"
| "attempt_exec q (OpFinalize now i) d = kept d (map_sum id snd (finalizeAttempt q now i d))"
| "attempt_exec q (OpConstrain now i) d = kept d (saveStrategyConstraint now i d)"
| "attempt_exec q (OpClear now r a) d = kept d (clearStrategyConstraint now r a d)"
| "attempt_exec q (OpConsume now r a n) d = kept d (markConsumedProgressAttempt now r a n d)"

text \<open>
  Every write is an upsert or an insertion of a properly filed value, plus at most a new call:
  the relation \<open>grows\<close> collects what that means for the rest of the database.
\<close>

definition grows :: "orch_db \<Rightarrow> orch_db \<Rightarrow> bool" where
  "grows d d' \<longleftrightarrow>
     engine_inv d' \<and> db_runs d' = db_runs d
     \<and> (\<forall>rk. meta_val d rk \<noteq> None \<longrightarrow> meta_val d' rk \<noteq> None)
     \<and> (\<forall>c r. call_at d c = Some r \<longrightarrow> call_at d' c = Some r)"

lemma grows_refl: "engine_inv d \<Longrightarrow> grows d d"
  by (simp add: grows_def)

lemma grows_trans: "grows d d' \<Longrightarrow> grows d' d'' \<Longrightarrow> grows d d''"
  by (simp add: grows_def)

lemma grows_upsert:
  assumes "engine_inv d" and "files rid k v" and "meta_upsert i rid k v now d = Inr d'"
  shows "grows d d'"
  using assms engine_inv_upsert [OF assms]
  by (auto simp: grows_def meta_upsert_val [OF assms(3)] meta_upsert_frame [OF assms(3)] call_at_def)

lemma startAttempt_Inr:
  assumes "startAttempt q now i d = Inr (a, d')" and "registered_attempt (st_callID i) d = None"
  obtains d1 where
    "at_runId a = st_runId i" "at_assignmentId a = st_assignmentId i"
    "at_attemptNumber a = allocateNextAttemptNumber q (st_runId i) (st_assignmentId i) d"
    "meta_insert (attempt_row_id (st_runId i) (st_assignmentId i) (at_attemptNumber a)) (st_runId i)
       (attempt_key (st_runId i) (st_assignmentId i) (at_attemptNumber a)) (MAttempt a) now d = Inr d1"
    "call_at d (st_callID i) = None"
    "d' = d1\<lparr>db_calls := db_calls d @
       [\<lparr>cr_callId = st_callID i, cr_runId = st_runId i, cr_assignmentId = st_assignmentId i,
         cr_attemptNumber = at_attemptNumber a\<rparr>]\<rparr>"
  using assms
  by (auto simp: startAttempt_def Let_def new_attempt_def call_at_def meta_insert_frame
      split: sum.splits if_splits)

lemma meta_val_calls [simp]: "meta_val (d\<lparr>db_calls := cs\<rparr>) rk = meta_val d rk"
  by (simp add: meta_val_def)

lemma find_append_other:
  "List.find P xs = Some r \<Longrightarrow> List.find P (xs @ ys) = Some r"
  by (induction xs) (auto split: if_splits)

lemma grows_start:
  assumes "engine_inv d" and "startAttempt q now i d = Inr (a, d')"
  shows "grows d d'"
proof (cases "registered_attempt (st_callID i) d")
  case (Some x)
  with assms show ?thesis by (simp add: startAttempt_def grows_refl)
next
  case None
  from assms(2) None obtain d1 where a: "at_runId a = st_runId i" "at_assignmentId a = st_assignmentId i"
    and ins: "meta_insert (attempt_row_id (st_runId i) (st_assignmentId i) (at_attemptNumber a)) (st_runId i)
       (attempt_key (st_runId i) (st_assignmentId i) (at_attemptNumber a)) (MAttempt a) now d = Inr d1"
    and free: "call_at d (st_callID i) = None"
    and d': "d' = d1\<lparr>db_calls := db_calls d @
       [\<lparr>cr_callId = st_callID i, cr_runId = st_runId i, cr_assignmentId = st_assignmentId i,
         cr_attemptNumber = at_attemptNumber a\<rparr>]\<rparr>"
    by (rule startAttempt_Inr)
  have "files (st_runId i) (attempt_key (st_runId i) (st_assignmentId i) (at_attemptNumber a)) (MAttempt a)"
    using a by (simp add: files_def)
  then have "filed d1" using assms(1) ins by (auto simp: engine_inv_def intro: filed_insert)
  moreover have ok: "meta_ok d1" using assms(1) ins by (auto simp: engine_inv_def intro: meta_insert_ok)
  moreover have "st_callID i \<notin> cr_callId ` set (db_calls d)"
    using free by (auto simp: call_at_def find_None_iff_all)
  ultimately have "engine_inv d'"
    by (auto simp: engine_inv_def d' meta_ok_def filed_def meta_insert_frame [OF ins])
  then show ?thesis
    by (auto simp: grows_def d' meta_insert_val [OF ins] meta_insert_frame [OF ins] call_at_def find_append_other)
qed

lemma grows_record:
  "engine_inv d \<Longrightarrow> recordAttempt now a d = Inr d' \<Longrightarrow> grows d d'"
  unfolding recordAttempt_def by (rule grows_upsert) simp_all

lemma attempt_exec_grows: "engine_inv d \<Longrightarrow> grows d (attempt_exec q x d)"
proof (cases x)
  case (OpStart now i)
  assume "engine_inv d"
  with OpStart show ?thesis
    by (cases "startAttempt q now i d") (auto simp: kept_def grows_refl intro: grows_start)
next
  case (OpRecordStart now s)
  assume "engine_inv d"
  with OpRecordStart show ?thesis
    by (cases "recordAttemptStart q now s d")
      (auto simp: kept_def grows_refl recordAttemptStart_def Let_def intro: grows_start grows_record
        split: if_splits sum.splits)
next
  case (OpFinalize now i)
  assume "engine_inv d"
  with OpFinalize show ?thesis
    by (cases "finalizeAttempt q now i d")
      (auto simp: kept_def grows_refl finalizeAttempt_def intro: grows_record split: option.splits sum.splits)
next
  case (OpConstrain now i)
  assume "engine_inv d"
  with OpConstrain show ?thesis
    by (cases "saveStrategyConstraint now i d")
      (auto simp: kept_def grows_refl saveStrategyConstraint_def intro: grows_upsert [OF _ files_simps(2)])
next
  case (OpClear now r a)
  assume "engine_inv d"
  with OpClear show ?thesis
    by (cases "clearStrategyConstraint now r a d")
      (auto simp: kept_def grows_refl clearStrategyConstraint_def intro: grows_upsert [OF _ files_simps(2)] split: option.splits)
next
  case (OpConsume now r a n)
  assume "engine_inv d"
  with OpConsume show ?thesis
    by (cases "markConsumedProgressAttempt now r a n d")
      (auto simp: kept_def grows_refl markConsumedProgressAttempt_def intro: grows_upsert [OF _ files_simps(3)])
qed

definition attempt_run :: "sql_order \<Rightarrow> orch_db \<Rightarrow> attempt_op list \<Rightarrow> orch_db" where
  "attempt_run q d xs = foldl (\<lambda>d x. attempt_exec q x d) d xs"

lemma attempt_run_grows: "engine_inv d \<Longrightarrow> grows d (attempt_run q d xs)"
proof (induction xs rule: rev_induct)
  case Nil
  then show ?case by (simp add: attempt_run_def grows_refl)
next
  case (snoc x xs)
  then have "grows d (attempt_run q d xs)" by simp
  moreover from this have "grows (attempt_run q d xs) (attempt_exec q x (attempt_run q d xs))"
    by (auto simp: grows_def [of d] intro: attempt_exec_grows)
  ultimately show ?case by (auto simp: attempt_run_def intro: grows_trans)
qed

lemma getAttempt_val:
  "getAttempt rid aid n d =
     (case meta_val d (rid, attempt_key rid aid n) of None \<Rightarrow> None | Some v \<Rightarrow> attempt_of v)"
  by (simp add: getAttempt_def meta_val_def split: option.split)

lemma filed_getAttempt:
  assumes "filed d" and "meta_val d (rid, attempt_key rid aid n) \<noteq> None"
  obtains b where "getAttempt rid aid n d = Some b" "at_runId b = rid" "at_assignmentId b = aid"
    "at_attemptNumber b = n"
proof -
  from assms(2) obtain r where r: "meta_at (db_meta d) rid (attempt_key rid aid n) = Some r"
    by (auto simp: meta_val_def)
  from filed_attempt [OF assms(1) r] obtain a where "m_value r = MAttempt a" "at_runId a = rid"
      "at_assignmentId a = aid" "at_attemptNumber a = n" by blast
  with that [of a] r show ?thesis by (simp add: getAttempt_def)
qed

lemma started_registered:
  assumes "engine_inv d" and "startAttempt q now i d = Inr (a, d')"
  obtains c where "call_at d' (st_callID i) = Some c"
    "getAttempt (cr_runId c) (cr_assignmentId c) (cr_attemptNumber c) d' = Some a"
    "registered_attempt (st_callID i) d \<noteq> None \<or> cr_attemptNumber c = at_attemptNumber a"
proof (cases "registered_attempt (st_callID i) d")
  case (Some x)
  with assms that show ?thesis
    by (auto simp: startAttempt_def registered_attempt_def split: option.splits)
next
  case None
  from startAttempt_Inr [OF assms(2) None] obtain d1 where
    ins: "meta_insert (attempt_row_id (st_runId i) (st_assignmentId i) (at_attemptNumber a)) (st_runId i)
       (attempt_key (st_runId i) (st_assignmentId i) (at_attemptNumber a)) (MAttempt a) now d = Inr d1"
    and free: "call_at d (st_callID i) = None"
    and d': "d' = d1\<lparr>db_calls := db_calls d @
       [\<lparr>cr_callId = st_callID i, cr_runId = st_runId i, cr_assignmentId = st_assignmentId i,
         cr_attemptNumber = at_attemptNumber a\<rparr>]\<rparr>"
    by blast
  let ?c = "\<lparr>cr_callId = st_callID i, cr_runId = st_runId i, cr_assignmentId = st_assignmentId i,
      cr_attemptNumber = at_attemptNumber a\<rparr>"
  have "List.find P (xs @ [c]) = Some c" if "List.find P xs = None" "P c" for P and xs :: "call_row list" and c
    using that by (induction xs) (auto split: if_splits)
  then have "call_at d' (st_callID i) = Some ?c" using free by (simp add: call_at_def d')
  moreover have "getAttempt (st_runId i) (st_assignmentId i) (at_attemptNumber a) d' = Some a"
    using meta_insert_val [OF ins] by (simp add: getAttempt_val d')
  ultimately show ?thesis using that [of ?c] by simp
qed

lemma started_readable:
  assumes "startAttempt q now i d = Inr (a, d')" and "registered_attempt (st_callID i) d = None"
  shows "getAttempt (st_runId i) (st_assignmentId i) (at_attemptNumber a) d' = Some a"
proof -
  from startAttempt_Inr [OF assms] obtain d1 where
    ins: "meta_insert (attempt_row_id (st_runId i) (st_assignmentId i) (at_attemptNumber a)) (st_runId i)
       (attempt_key (st_runId i) (st_assignmentId i) (at_attemptNumber a)) (MAttempt a) now d = Inr d1"
    and d': "d' = d1\<lparr>db_calls := db_calls d @
       [\<lparr>cr_callId = st_callID i, cr_runId = st_runId i, cr_assignmentId = st_assignmentId i,
         cr_attemptNumber = at_attemptNumber a\<rparr>]\<rparr>"
    by blast
  from meta_insert_val [OF ins] show ?thesis by (simp add: getAttempt_val d')
qed

section \<open>Strategy constraints under one state\<close>

text \<open>Failures saved one after the other for one work item.\<close>

fun save_all :: "(int \<times> constraint_input) list \<Rightarrow> orch_db \<Rightarrow> repo_error + orch_db" where
  "save_all [] d = Inr d"
| "save_all ((now, i) # xs) d =
     (case saveStrategyConstraint now i d of Inl e \<Rightarrow> Inl e | Inr d' \<Rightarrow> save_all xs d')"

lemma getActive_val:
  "getActiveStrategyConstraints rid aid d =
     (case meta_val d (rid, constraint_key rid aid) of
        Some (MConstraints c) \<Rightarrow> if cs_clearedAt c \<noteq> None then None else Some c
      | _ \<Rightarrow> None)"
  by (auto simp: getActiveStrategyConstraints_def meta_val_def split: option.split meta_value.split)

lemma active_not_cleared: "getActiveStrategyConstraints rid aid d = Some c \<Longrightarrow> cs_clearedAt c = None"
  by (auto simp: getActive_val split: option.splits meta_value.splits if_splits)

lemma save_active:
  assumes "saveStrategyConstraint now i d = Inr d'"
  shows "getActiveStrategyConstraints (in_runId i) (in_assignmentId i) d'
    = Some (next_constraint_set now i (getActiveStrategyConstraints (in_runId i) (in_assignmentId i) d))"
proof -
  let ?c = "next_constraint_set now i (getActiveStrategyConstraints (in_runId i) (in_assignmentId i) d)"
  have "cs_clearedAt ?c = None"
    by (auto simp: next_constraint_set_def Let_def split: option.split dest: active_not_cleared)
  then show ?thesis
    using meta_upsert_val [OF assms [unfolded saveStrategyConstraint_def]] by (simp add: getActive_val)
qed

lemma js_unique_snoc: "js_unique (xs @ [x]) = js_add x (js_unique xs)"
  by (simp add: js_unique_def)

definition search_state :: "string \<Rightarrow> string list \<Rightarrow> constraint_set \<Rightarrow> bool" where
  "search_state fp fps c \<longleftrightarrow>
     cs_stateFingerprint c = fp \<and> cs_prohibited c = take 20 (js_unique fps)
     \<and> (cs_exhausted c \<longleftrightarrow> 20 < length (js_unique fps))"

lemma search_first:
  "in_stateFingerprint i = fp \<Longrightarrow> search_state fp [in_prohibited i] (next_constraint_set now i None)"
  by (simp add: search_state_def next_constraint_set_def js_unique_def js_add_def)

lemma search_next:
  assumes "search_state fp fps c" and "in_stateFingerprint i = fp"
  shows "search_state fp (fps @ [in_prohibited i]) (next_constraint_set now i (Some c))"
proof -
  let ?u = "js_unique fps"
  show ?thesis
  proof (cases "in_prohibited i \<in> set ?u")
    case True
    have "20 < length ?u" if "in_prohibited i \<notin> set (take 20 ?u)"
      using True that by (metis linorder_not_less take_all)
    with True assms show ?thesis
      by (auto simp: search_state_def next_constraint_set_def js_unique_snoc js_add_def)
  next
    case False
    then have "in_prohibited i \<notin> set (take 20 ?u)" by (meson in_set_takeD)
    with False assms show ?thesis
      by (auto simp: search_state_def next_constraint_set_def js_unique_snoc js_add_def)
  qed
qed

lemma search_run:
  assumes "save_all xs d = Inr d'" and "getActiveStrategyConstraints rid aid d = Some c"
    and "search_state fp fps c"
    and "list_all (\<lambda>(now, i). in_runId i = rid \<and> in_assignmentId i = aid \<and> in_stateFingerprint i = fp) xs"
  shows "\<exists>c'. getActiveStrategyConstraints rid aid d' = Some c'
    \<and> search_state fp (fps @ map (in_prohibited \<circ> snd) xs) c'"
  using assms
proof (induction xs arbitrary: d c fps)
  case Nil
  then show ?case by auto
next
  case (Cons x xs)
  obtain now i where x: "x = (now, i)" by (cases x)
  with Cons.prems obtain d1 where step: "saveStrategyConstraint now i d = Inr d1" "save_all xs d1 = Inr d'"
    by (auto split: sum.splits)
  have "getActiveStrategyConstraints rid aid d1 = Some (next_constraint_set now i (Some c))"
    using save_active [OF step(1)] Cons.prems(2,4) x by simp
  from Cons.IH [OF step(2) this search_next [OF Cons.prems(3)]] Cons.prems(4) x show ?case by simp
qed

section \<open>Properties\<close>

text \<open>
  A new attempt of a work item gets a number above every recorded attempt of it, its key is
  free before and holds the attempt afterwards, in whatever order the database lists the rows.
\<close>

theorem attempt_numbers_fresh:
  assumes "engine_inv d" and "sql_order_ok q" and "registered_attempt (st_callID i) d = None"
    and "startAttempt q now i d = Inr (a, d')"
  shows "list_all (\<lambda>b. at_attemptNumber b < at_attemptNumber a) (listAttempts q (st_runId i) (st_assignmentId i) d)
    \<and> getAttempt (st_runId i) (st_assignmentId i) (at_attemptNumber a) d = None
    \<and> getAttempt (st_runId i) (st_assignmentId i) (at_attemptNumber a) d' = Some a"
proof -
  have n: "at_attemptNumber a = allocateNextAttemptNumber q (st_runId i) (st_assignmentId i) d"
    using startAttempt_Inr [OF assms(4,3)] by blast
  have "getAttempt (st_runId i) (st_assignmentId i) (at_attemptNumber a) d = None"
    using allocated_key_free [of d q] assms(1,2) by (simp add: getAttempt_def n engine_inv_def)
  with started_readable [OF assms(4,3)] show ?thesis
    by (auto simp: list_all_iff n dest: allocated_above)
qed

text \<open>
  A tool call starts one attempt: whatever attempts, finalizations, constraints and
  consumptions follow, starting with the same call id again changes nothing and answers with
  the attempt of the same work item and number.
\<close>

theorem call_starts_once:
  assumes "engine_inv d" and "startAttempt q now i d = Inr (a, d')" and "st_callID i' = st_callID i"
    and "registered_attempt (st_callID i) d = None"
  shows "\<exists>a'. startAttempt q' now' i' (attempt_run q d' xs) = Inr (a', attempt_run q d' xs)
    \<and> at_runId a' = st_runId i \<and> at_assignmentId a' = st_assignmentId i
    \<and> at_attemptNumber a' = at_attemptNumber a"
proof -
  let ?e = "attempt_run q d' xs"
  have inv: "engine_inv d'" using grows_start [OF assms(1,2)] by (simp add: grows_def)
  then have grow: "grows d' ?e" by (rule attempt_run_grows)
  from startAttempt_Inr [OF assms(2,4)] have
    ids: "at_runId a = st_runId i" "at_assignmentId a = st_assignmentId i"
    by blast+
  from started_registered [OF assms(1,2)] assms(4) obtain c where
    c: "call_at d' (st_callID i) = Some c"
      "getAttempt (cr_runId c) (cr_assignmentId c) (cr_attemptNumber c) d' = Some a"
    by blast
  let ?rk = "(cr_runId c, attempt_key (cr_runId c) (cr_assignmentId c) (cr_attemptNumber c))"
  have there: "meta_val d' ?rk \<noteq> None" using c(2) by (auto simp: getAttempt_val split: option.splits)
  have "filed d'" "filed ?e" using inv grow by (simp_all add: engine_inv_def grows_def)
  from filed_getAttempt [OF \<open>filed d'\<close> there] c(2) have same: "at_runId a = cr_runId c"
      "at_assignmentId a = cr_assignmentId c" "at_attemptNumber a = cr_attemptNumber c"
    by auto
  from grow there have "meta_val ?e ?rk \<noteq> None" by (auto simp: grows_def)
  from filed_getAttempt [OF \<open>filed ?e\<close> this] obtain b where b:
    "getAttempt (cr_runId c) (cr_assignmentId c) (cr_attemptNumber c) ?e = Some b"
    "at_runId b = cr_runId c" "at_assignmentId b = cr_assignmentId c" "at_attemptNumber b = cr_attemptNumber c"
    by blast
  have "call_at ?e (st_callID i) = Some c" using grow c(1) by (simp add: grows_def)
  with b have "registered_attempt (st_callID i') ?e = Some b" by (simp add: registered_attempt_def assms(3))
  with b ids same show ?thesis by (simp add: startAttempt_def)
qed

text \<open>
  The strategy search under one state is bounded: the failures saved for a work item under
  one state fingerprint leave the first twenty different actions prohibited, in the order they
  failed, and the set is exhausted exactly when a twenty-first different action has failed.
\<close>

theorem strategy_search_bounded:
  assumes "save_all ((now, i) # xs) d = Inr d'"
    and "getActiveStrategyConstraints (in_runId i) (in_assignmentId i) d = None"
    and "list_all (\<lambda>(now, j). in_runId j = in_runId i \<and> in_assignmentId j = in_assignmentId i
           \<and> in_stateFingerprint j = in_stateFingerprint i) xs"
  shows "\<exists>c. getActiveStrategyConstraints (in_runId i) (in_assignmentId i) d' = Some c
    \<and> cs_prohibited c = take 20 (js_unique (map (in_prohibited \<circ> snd) ((now, i) # xs)))
    \<and> (cs_exhausted c \<longleftrightarrow> 20 < card (set (map (in_prohibited \<circ> snd) ((now, i) # xs))))"
proof -
  from assms(1) obtain d1 where step: "saveStrategyConstraint now i d = Inr d1" "save_all xs d1 = Inr d'"
    by (auto split: sum.splits)
  have "getActiveStrategyConstraints (in_runId i) (in_assignmentId i) d1
      = Some (next_constraint_set now i None)"
    using save_active [OF step(1)] assms(2) by simp
  from search_run [OF step(2) this search_first [OF refl] assms(3)] obtain c where
    c: "getActiveStrategyConstraints (in_runId i) (in_assignmentId i) d' = Some c"
      "search_state (in_stateFingerprint i) (map (in_prohibited \<circ> snd) ((now, i) # xs)) c"
    by auto
  have "length (js_unique fps) = card (set fps)" for fps :: "string list"
    by (metis distinct_card distinct_js_unique set_js_unique)
  with c show ?thesis by (simp add: search_state_def)
qed

text \<open>
  The history of a work item is read by a pattern that also covers work items whose id
  continues with a colon: finalizing an attempt number that only such a neighbour has changes
  the neighbour's attempt and reports success.
\<close>

theorem finalize_hits_neighbour:
  assumes "engine_inv d" and "sql_order_ok q"
    and "getAttempt rid (aid @ '':'' @ rest) (fi_attemptNumber i) d = Some b"
    and "fi_runId i = rid" and "fi_assignmentId i = aid"
    and "list_all (\<lambda>c. at_attemptNumber c = fi_attemptNumber i \<longrightarrow> c = b) (listAttempts q rid aid d)"
  shows "\<exists>d'. finalizeAttempt q now i d = Inr (Some (finalized now i b), d')
    \<and> at_assignmentId b = aid @ '':'' @ rest
    \<and> getAttempt rid (aid @ '':'' @ rest) (fi_attemptNumber i) d' = Some (finalized now i b)"
proof -
  let ?n = "fi_attemptNumber i"
  let ?k = "attempt_key rid (aid @ '':'' @ rest) ?n"
  obtain r where r: "meta_at (db_meta d) rid ?k = Some r" "m_value r = MAttempt b"
    using assms(3) by (auto simp: getAttempt_def split: option.splits)
  have ids: "at_runId b = rid" "at_assignmentId b = aid @ '':'' @ rest" "at_attemptNumber b = ?n"
    using filed_attempt [OF _ r(1)] assms(1) r(2) by (auto simp: engine_inv_def)
  have "sql_like ((''attempt:'' @ rid @ '':'' @ aid @ '':'') @ [CHR ''%''])
      ((''attempt:'' @ rid @ '':'' @ aid @ '':'') @ rest @ '':'' @ int_str ?n)"
    by (rule sql_like_prefix)
  then have "b \<in> set (listAttempts q rid aid d)"
    using meta_at_mem [OF r(1)] meta_at_keys [OF r(1)] r(2)
    by (auto simp: in_listAttempts [OF assms(2)] attempt_key_def)
  then obtain c where "List.find (\<lambda>a. at_attemptNumber a = ?n) (listAttempts q rid aid d) = Some c"
    using ids(3) by (cases "List.find (\<lambda>a. at_attemptNumber a = ?n) (listAttempts q rid aid d)")
      (auto simp: find_None_iff_all)
  moreover from find_SomeD [OF this] have "c = b" using assms(6) by (auto simp: list_all_iff)
  ultimately have found: "List.find (\<lambda>a. at_attemptNumber a = ?n) (listAttempts q rid aid d) = Some b"
    by simp
  have fin: "at_runId (finalized now i b) = rid" "at_assignmentId (finalized now i b) = aid @ '':'' @ rest"
      "at_attemptNumber (finalized now i b) = ?n"
    using ids by (simp_all add: finalized_def)
  obtain d' where up: "meta_upsert (attempt_row_id rid (aid @ '':'' @ rest) ?n) rid ?k
      (MAttempt (finalized now i b)) now d = Inr d'"
    using r(1) by (simp add: meta_upsert_def)
  have "getAttempt rid (aid @ '':'' @ rest) ?n d' = Some (finalized now i b)"
    using meta_upsert_val [OF up] by (simp add: getAttempt_val)
  with found up fin ids show ?thesis
    by (simp add: finalizeAttempt_def recordAttempt_def assms(4,5))
qed

section \<open>Examples\<close>

definition demo_row :: "phase \<Rightarrow> int \<Rightarrow> task_run_row" where
  "demo_row p v =
     \<lparr>row_runId = ''r'', row_contractId = ''c'', row_strategy = ''simple'', row_state = p,
      row_aggregateVersion = v, row_baselineSha = ''sha'', row_currentSha = None,
      row_verificationSha = None, row_completionSha = None, row_repoBranch = ''main'',
      row_workingTreeClean = True, row_previousRunId = None, row_createdAt = 0,
      row_startedAt = None, row_completedAt = None\<rparr>"

definition demo_db :: "phase \<Rightarrow> int \<Rightarrow> orch_db" where
  "demo_db p v =
     \<lparr>db_runs = [demo_row p v], db_meta = [], db_calls = [], db_assignments = [], db_results = [],
      db_deferred = Some [], db_sessions = []\<rparr>"

definition by_time :: sql_order where
  "by_time = \<lparr>sq_scan = (\<lambda>rows. rows), sq_byCreated = sort_key m_createdAt,
     sq_results = (\<lambda>rows. rows), sq_sessions = sort_key se_startedAt\<rparr>"

lemma by_time_ok: "sql_order_ok by_time"
  by (simp add: sql_order_ok_def by_time_def)

lemma demo_inv: "engine_inv (demo_db p v)"
  by (simp add: engine_inv_def meta_ok_def filed_def demo_db_def runs_ok_def)

definition demo_start :: "string \<Rightarrow> start_input" where
  "demo_start aid =
     \<lparr>st_runId = ''r'', st_assignmentId = aid, st_callID = ''call'', st_tool = ''edit'',
      st_actionFingerprint = ''fp'', st_preStateFingerprint = ''s0'', st_startedAt = None\<rparr>"

lemma demo_start_simps [simp]:
  "st_runId (demo_start aid) = ''r''" "st_assignmentId (demo_start aid) = aid"
  "st_callID (demo_start aid) = ''call''" "st_startedAt (demo_start aid) = None"
  by (simp_all add: demo_start_def)

lemma demo_unregistered: "registered_attempt ''call'' (demo_db p v) = None"
  by (simp add: registered_attempt_def call_at_def demo_db_def)

lemma demo_started:
  "\<exists>a d'. startAttempt by_time 5 (demo_start aid) (demo_db p v) = Inr (a, d') \<and> at_attemptNumber a = 1
     \<and> listAttempts by_time ''r'' aid' d'
         = (if sql_like (''attempt:r:'' @ aid' @ '':%'') (''attempt:r:'' @ aid @ '':1'') then [a] else [])"
proof -
  let ?a = "new_attempt ''r'' aid 1 (Some ''call'') (st_tool (demo_start aid))
      (st_actionFingerprint (demo_start aid)) (st_preStateFingerprint (demo_start aid)) 5"
  let ?row = "\<lparr>m_id = attempt_row_id ''r'' aid 1, m_runId = ''r'', m_key = attempt_key ''r'' aid 1,
      m_value = MAttempt ?a, m_createdAt = 5\<rparr>"
  let ?call = "\<lparr>cr_callId = ''call'', cr_runId = ''r'', cr_assignmentId = aid, cr_attemptNumber = 1\<rparr>"
  let ?d = "(demo_db p v)\<lparr>db_meta := [?row], db_calls := [?call]\<rparr>"
  have n: "allocateNextAttemptNumber by_time ''r'' aid (demo_db p v) = 1"
    by (simp add: allocateNextAttemptNumber_def listAttempts_def demo_db_def by_time_def List.map_filter_def)
  have ins: "meta_insert (attempt_row_id ''r'' aid 1) ''r'' (attempt_key ''r'' aid 1) (MAttempt ?a) 5 (demo_db p v)
      = Inr ((demo_db p v)\<lparr>db_meta := [?row]\<rparr>)"
    by (simp add: meta_insert_def meta_at_def demo_db_def demo_row_def findById_def)
  have start: "startAttempt by_time 5 (demo_start aid) (demo_db p v) = Inr (?a, ?d)"
    by (simp add: startAttempt_def demo_unregistered n ins call_at_def Let_def)
      (simp add: demo_db_def)
  have one: "int_str 1 = ''1''" by code_simp
  have "listAttempts by_time ''r'' aid' ?d
      = (if sql_like (''attempt:r:'' @ aid' @ '':%'') (''attempt:r:'' @ aid @ '':1'') then [?a] else [])"
    by (simp add: listAttempts_def by_time_def List.map_filter_def attempt_of_def attempt_key_def one)
  with start show ?thesis by (intro exI [of _ ?a] exI [of _ ?d]) (simp add: new_attempt_def)
qed

theorem attempt_numbers_fresh_witness:
  "\<exists>a d'. startAttempt by_time 5 (demo_start ''w'') (demo_db Executing 1) = Inr (a, d')
     \<and> at_attemptNumber a = 1 \<and> getAttempt ''r'' ''w'' 1 (demo_db Executing 1) = None"
proof -
  obtain a d' where s: "startAttempt by_time 5 (demo_start ''w'') (demo_db Executing 1) = Inr (a, d')"
      "at_attemptNumber a = 1"
    using demo_started by blast
  from attempt_numbers_fresh [OF demo_inv by_time_ok _ s(1)] s
  show ?thesis by (simp add: demo_unregistered)
qed

theorem call_starts_once_witness:
  "\<exists>a d'. startAttempt by_time 5 (demo_start ''w'') (demo_db Executing 1) = Inr (a, d')
     \<and> (\<exists>a'. startAttempt by_time 9 (demo_start ''other'') (attempt_exec by_time (OpClear 7 ''r'' ''w'') d')
          = Inr (a', attempt_exec by_time (OpClear 7 ''r'' ''w'') d') \<and> at_attemptNumber a' = 1)"
proof -
  obtain a d' where s: "startAttempt by_time 5 (demo_start ''w'') (demo_db Executing 1) = Inr (a, d')"
      "at_attemptNumber a = 1"
    using demo_started by blast
  from call_starts_once [OF demo_inv s(1), of "demo_start ''other''" by_time 9 "[OpClear 7 ''r'' ''w'']"] s
    demo_unregistered
  show ?thesis by (auto simp: attempt_run_def)
qed

definition demo_failure :: "string \<Rightarrow> constraint_input" where
  "demo_failure action =
     \<lparr>in_runId = ''r'', in_assignmentId = ''w'', in_prohibited = action, in_stateFingerprint = ''s0'',
      in_reason = ''STALL_DETECTED'', in_createdAt = None\<rparr>"

theorem strategy_search_bounded_witness:
  "\<exists>c d'. save_all [(1, demo_failure ''a''), (2, demo_failure ''b''), (3, demo_failure ''a'')]
        (demo_db Executing 1) = Inr d'
     \<and> getActiveStrategyConstraints ''r'' ''w'' d' = Some c
     \<and> cs_prohibited c = [''a'', ''b''] \<and> \<not> cs_exhausted c"
proof -
  have "\<exists>d'. saveStrategyConstraint 1 (demo_failure ''a'') (demo_db Executing 1) = Inr d'"
    by (simp add: saveStrategyConstraint_def meta_upsert_def meta_insert_def meta_at_def demo_db_def
        demo_row_def demo_failure_def findById_def)
  then obtain d1 where d1: "saveStrategyConstraint 1 (demo_failure ''a'') (demo_db Executing 1) = Inr d1" ..
  have more: "\<exists>d'. saveStrategyConstraint n (demo_failure x) d = Inr d'
      \<and> meta_val d' (''r'', constraint_key ''r'' ''w'') \<noteq> None"
    if "meta_val d (''r'', constraint_key ''r'' ''w'') \<noteq> None" for n x d
  proof -
    from that obtain d' where d': "saveStrategyConstraint n (demo_failure x) d = Inr d'"
      by (auto simp: saveStrategyConstraint_def meta_upsert_def meta_val_def demo_failure_def)
    moreover have "meta_val d' (''r'', constraint_key ''r'' ''w'') \<noteq> None"
      using meta_upsert_val [OF d' [unfolded saveStrategyConstraint_def]] by (simp add: demo_failure_def)
    ultimately show ?thesis by blast
  qed
  have "meta_val d1 (''r'', constraint_key ''r'' ''w'') \<noteq> None"
    using meta_upsert_val [OF d1 [unfolded saveStrategyConstraint_def]] by (simp add: demo_failure_def)
  from more [OF this] obtain d2 where d2: "saveStrategyConstraint 2 (demo_failure ''b'') d1 = Inr d2"
      "meta_val d2 (''r'', constraint_key ''r'' ''w'') \<noteq> None" by blast
  from more [OF d2(2)] obtain d3 where d3: "saveStrategyConstraint 3 (demo_failure ''a'') d2 = Inr d3" by blast
  have all: "save_all [(1, demo_failure ''a''), (2, demo_failure ''b''), (3, demo_failure ''a'')]
      (demo_db Executing 1) = Inr d3"
    by (simp add: d1 d2 d3)
  have "getActiveStrategyConstraints (in_runId (demo_failure ''a'')) (in_assignmentId (demo_failure ''a''))
      (demo_db Executing 1) = None"
    by (simp add: getActiveStrategyConstraints_def demo_db_def meta_at_def)
  from strategy_search_bounded [OF all this] obtain c where
    c: "getActiveStrategyConstraints ''r'' ''w'' d3 = Some c" "cs_prohibited c = [''a'', ''b'']"
      "cs_exhausted c \<longleftrightarrow> 20 < card (set [''a'', ''b'', ''a''])"
    by (auto simp: demo_failure_def js_unique_def js_add_def)
  have "card (set [''a'', ''b'', ''a'']) \<le> 3" by (rule order_trans [OF card_length]) simp
  with c all show ?thesis by (intro exI [of _ c] exI [of _ d3]) simp
qed

theorem finalize_hits_neighbour_witness:
  "\<exists>a d d'. startAttempt by_time 5 (demo_start ''w:x'') (demo_db Executing 1) = Inr (a, d)
     \<and> finalizeAttempt by_time 8
         \<lparr>fi_runId = ''r'', fi_assignmentId = ''w'', fi_attemptNumber = 1, fi_resultFingerprint = None,
          fi_postStateFingerprint = None, fi_finishedAt = None, fi_progressProduced = True,
          fi_repositoryDelta = None, fi_evidenceDelta = None, fi_verificationDelta = None,
          fi_childStateDelta = None, fi_isTransientError = None, fi_failureReason = None,
          fi_evidenceIds = None\<rparr> d = Inr (Some d', snd (projr (finalizeAttempt by_time 8
         \<lparr>fi_runId = ''r'', fi_assignmentId = ''w'', fi_attemptNumber = 1, fi_resultFingerprint = None,
          fi_postStateFingerprint = None, fi_finishedAt = None, fi_progressProduced = True,
          fi_repositoryDelta = None, fi_evidenceDelta = None, fi_verificationDelta = None,
          fi_childStateDelta = None, fi_isTransientError = None, fi_failureReason = None,
          fi_evidenceIds = None\<rparr> d)))
     \<and> at_assignmentId a = ''w:x''"
proof -
  let ?i = "\<lparr>fi_runId = ''r'', fi_assignmentId = ''w'', fi_attemptNumber = 1, fi_resultFingerprint = None,
          fi_postStateFingerprint = None, fi_finishedAt = None, fi_progressProduced = True,
          fi_repositoryDelta = None, fi_evidenceDelta = None, fi_verificationDelta = None,
          fi_childStateDelta = None, fi_isTransientError = None, fi_failureReason = None,
          fi_evidenceIds = None\<rparr>"
  obtain a d where s: "startAttempt by_time 5 (demo_start ''w:x'') (demo_db Executing 1) = Inr (a, d)"
      "at_attemptNumber a = 1"
      "listAttempts by_time ''r'' ''w'' d
         = (if sql_like (''attempt:r:'' @ ''w'' @ '':%'') (''attempt:r:'' @ ''w:x'' @ '':1'') then [a] else [])"
    using demo_started by blast
  have listed: "listAttempts by_time ''r'' ''w'' d = [a]"
    by (simp add: s(3) to_lower_def is_upper_def char_code_def)
  have inv: "engine_inv d" using grows_start [OF demo_inv s(1)] by (simp add: grows_def)
  have reg: "getAttempt ''r'' ''w:x'' 1 d = Some a"
    using started_readable [OF s(1)] s(2) by (simp add: demo_unregistered)
  from finalize_hits_neighbour [of d by_time "''r''" "''w''" "''x''" ?i a 8] inv by_time_ok reg listed s(1)
  show ?thesis by auto
qed

end
