(* ===== verification/Progress.thy ===== *)
theory Progress
  imports Tables
begin

text \<open>
  The progress observation service (\<open>services/progress-observation-service.ts\<close>) and the stall
  rule it applies (\<open>src/src/services/adaptive-execution-control.ts\<close>, \<open>detectStall\<close>).

  The service keeps one state per run in memory and writes it to \<open>execution_metadata\<close> after
  every observation. An observation is a step on the state of the run (\<open>tool_step\<close>,
  \<open>verification_step\<close>, \<open>child_step\<close>) followed by \<open>persistState\<close>; when persisting throws, the
  memory has already changed and the database has not.

  \<open>sha\<close> is SHA-256 in hexadecimal. Token counts are whole numbers; one that is negative makes
  the schema check of \<open>persistState\<close> throw, as in the source.
\<close>

section \<open>The stall rule\<close>

record stall_observation =
  so_repeatedFailure :: int
  so_repeatedTool :: int
  so_unchangedDiff :: int
  so_repeatedContext :: int
  so_evidenceDelta :: int
  so_tokensSinceProgress :: int

definition detectStall :: "stall_observation \<Rightarrow> stall_result" where
  "detectStall o1 =
     (let reasons =
            (if so_repeatedFailure o1 \<ge> 3 then [''repeated_failure''] else [])
          @ (if so_repeatedTool o1 \<ge> 4 then [''repeated_tool''] else [])
          @ (if so_unchangedDiff o1 \<ge> 3 \<and> so_tokensSinceProgress o1 > 1000 then [''unchanged_diff''] else [])
          @ (if so_repeatedContext o1 \<ge> 4 \<and> so_evidenceDelta o1 = 0 then [''repeated_context''] else [])
      in \<lparr>sr_stalled = (length reasons \<ge> 2
            \<or> ''repeated_failure'' \<in> set reasons \<and> so_tokensSinceProgress o1 > 500),
          sr_reasons = reasons\<rparr>)"

section \<open>Types of the service\<close>

datatype evidence_kind =
    EvInformational | EvDiagnostic | EvImplementation | EvVerification | EvBlocker | EvChildResult

datatype verification_direction = VdImprovement | VdRegression | VdNeutralChange

record progress_observation =
  po_runId :: string
  po_sessionId :: string
  po_assignmentId :: "string option"
  po_executionId :: "string option"
  po_actionFingerprint :: "string option"
  po_resultFingerprint :: "string option"
  po_evidenceKind :: evidence_kind
  po_evidenceDelta :: int
  po_repositoryStateDelta :: int
  po_verificationDelta :: int
  po_assignmentStateDelta :: int
  po_executionStateDelta :: int
  po_repeatedFailure :: int
  po_repeatedTool :: int
  po_unchangedDiff :: int
  po_repeatedContext :: int
  po_tokensSinceProgress :: int
  po_isProgress :: bool
  po_progressReason :: "string option"
  po_stallResult :: "stall_result option"
  po_timestamp :: int

record progress_diagnostics =
  pd_lastProgressAt :: "int option"
  pd_noProgressCount :: int
  pd_lastProgressReason :: "string option"
  pd_stallReason :: "string option"
  pd_lastEvidenceDelta :: int
  pd_lastRepositoryDelta :: int
  pd_isStalled :: bool
  pd_corruptRecovery :: "bool option"

type_synonym progress_mem = "(string \<times> progress_state) list"

definition fresh_state :: progress_state where
  "fresh_state =
     \<lparr>ps_lastActionFingerprint = None, ps_lastResultFingerprint = None, ps_lastRepositoryHash = None,
      ps_lastVerificationHash = None, ps_repeatedFailure = 0, ps_repeatedTool = 0,
      ps_unchangedDiff = 0, ps_repeatedContext = 0, ps_tokensSinceProgress = 0,
      ps_noProgressCount = 0, ps_meaningfulStateVersion = None, ps_lastProgressAt = None,
      ps_lastProgressReason = None, ps_lastStallResult = None, ps_lastEvidenceDelta = 0,
      ps_lastRepositoryDelta = 0, ps_seenFailureSignatures = [], ps_seenEvidenceHashes = [],
      ps_recoveryError = None\<rparr>"

text \<open>The state put in place of one that can not be read after a restart.\<close>

definition corrupt_state :: progress_state where
  "corrupt_state =
     fresh_state\<lparr>ps_repeatedFailure := 999, ps_repeatedTool := 999, ps_unchangedDiff := 999,
       ps_repeatedContext := 999, ps_tokensSinceProgress := 999, ps_noProgressCount := 999,
       ps_recoveryError := Some True\<rparr>"

definition state_or_fresh :: "progress_mem \<Rightarrow> string \<Rightarrow> progress_state" where
  "state_or_fresh mem rid = nullish (map_of mem rid) fresh_state"

section \<open>Durability\<close>

text \<open>\<open>DurableProgressStateSchema\<close>: the counters are not negative.\<close>

definition schema_ok :: "progress_state \<Rightarrow> bool" where
  "schema_ok s \<longleftrightarrow>
     0 \<le> ps_repeatedFailure s \<and> 0 \<le> ps_repeatedTool s \<and> 0 \<le> ps_unchangedDiff s
     \<and> 0 \<le> ps_repeatedContext s \<and> 0 \<le> ps_tokensSinceProgress s \<and> 0 \<le> ps_noProgressCount s
     \<and> 0 \<le> nullish (ps_meaningfulStateVersion s) 0 \<and> 0 \<le> ps_lastEvidenceDelta s
     \<and> 0 \<le> ps_lastRepositoryDelta s"

definition durable :: "progress_state \<Rightarrow> progress_state" where
  "durable s =
     s\<lparr>ps_meaningfulStateVersion := Some (nullish (ps_meaningfulStateVersion s) 0),
       ps_recoveryError := None\<rparr>"

definition progress_key :: "string \<Rightarrow> string" where
  "progress_key rid = ''progress_state:'' @ rid"

text \<open>The rows of the service: \<open>key LIKE 'progress_state:%'\<close>.\<close>

definition is_progress_key :: "string \<Rightarrow> bool" where
  "is_progress_key k \<longleftrightarrow> sql_like ''progress_state:%'' k"

definition persistState :: "int \<Rightarrow> string \<Rightarrow> progress_mem \<Rightarrow> orch_db \<Rightarrow> repo_error + orch_db" where
  "persistState now rid mem d =
     (case map_of mem rid of
        None \<Rightarrow> Inr d
      | Some s \<Rightarrow>
          if \<not> schema_ok (durable s) then Inl ConstraintFailed
          else meta_upsert (''meta-prog-'' @ rid) rid (progress_key rid) (MProgress (durable s)) now d)"

definition restore_row :: "meta_row \<Rightarrow> progress_mem \<Rightarrow> progress_mem" where
  "restore_row r mem =
     AList.update (m_runId r)
       (case m_value r of
          MProgress s \<Rightarrow>
            if schema_ok s
            then s\<lparr>ps_meaningfulStateVersion := Some (nullish (ps_meaningfulStateVersion s) 0),
                   ps_recoveryError := Some False\<rparr>
            else corrupt_state
        | _ \<Rightarrow> corrupt_state) mem"

definition reconcileAfterRestart :: "sql_order \<Rightarrow> string option \<Rightarrow> orch_db \<Rightarrow> progress_mem \<Rightarrow> progress_mem" where
  "reconcileAfterRestart q rid d mem =
     foldl (\<lambda>m r. restore_row r m) mem
       (sq_scan q (filter (\<lambda>r. (truthy rid \<longrightarrow> Some (m_runId r) = rid)
                             \<and> is_progress_key (m_key r)) (db_meta d)))"

section \<open>Fingerprints\<close>

fun js_text :: "json \<Rightarrow> string" where
  "js_text JNull = ''null''"
| "js_text (JBool b) = (if b then ''true'' else ''false'')"
| "js_text (JNum n) = int_str n"
| "js_text (JStr s) = s"
| "js_text (JArr xs) = join '','' (map (\<lambda>x. if x = JNull then [] else js_text x) xs)"
| "js_text (JObj ps) = ''[object Object]''"

definition computeActionFingerprint :: "(string \<Rightarrow> string) \<Rightarrow> string \<Rightarrow> (string \<times> json) list option \<Rightarrow> string" where
  "computeActionFingerprint sha tool args =
     take 16 (sha (tool @ '':'' @ json_str (JObj (nullish args []))))"

definition computeResultFingerprint ::
    "(string \<Rightarrow> string) \<Rightarrow> string \<Rightarrow> string option \<Rightarrow> (string \<times> json) list option \<Rightarrow> string option \<Rightarrow> string" where
  "computeResultFingerprint sha tool output metadata err =
     take 16 (sha (tool @ '':'' @ nullish err [] @ '':'' @ nullish output [] @ '':''
       @ json_str (JObj (nullish metadata []))))"

text \<open>\<open>s.trim().length > 0\<close>\<close>

definition is_space :: "char \<Rightarrow> bool" where
  "is_space c \<longleftrightarrow> char_code c \<in> set [9, 10, 11, 12, 13, 32, 160]"

definition not_blank :: "string option \<Rightarrow> bool" where
  "not_blank s \<longleftrightarrow> list_ex (\<lambda>c. \<not> is_space c) (nullish s [])"

definition classifyEvidenceKind :: "string \<Rightarrow> string option \<Rightarrow> int \<Rightarrow> bool \<Rightarrow> evidence_kind" where
  "classifyEvidenceKind tool err repositoryStateDelta isVerification =
     (if isVerification then EvVerification
      else if repositoryStateDelta > 0 then EvImplementation
      else if truthy err \<and> not_blank err then EvDiagnostic
      else if tool \<in> set [''read'', ''grep'', ''list'', ''glob'', ''read_file'', ''search_files'', ''list_dir'']
        then EvInformational
      else EvInformational)"

section \<open>Observing a tool call\<close>

record tool_input =
  ti_runId :: string
  ti_sessionId :: string
  ti_tool :: string
  ti_args :: "(string \<times> json) list option"
  ti_output :: "string option"
  ti_metadata :: "(string \<times> json) list option"
  ti_error :: "string option"
  ti_preRepositoryHash :: "string option"
  ti_postRepositoryHash :: "string option"
  ti_tokensUsed :: "int option"
  ti_assignmentId :: "string option"
  ti_executionId :: "string option"

definition is_mutating :: "string \<Rightarrow> bool" where
  "is_mutating tool \<longleftrightarrow> tool \<in> set [''write'', ''edit'', ''patch'', ''apply_patch'']"

text \<open>1. The repository: pre and post hashes.\<close>

definition repository_delta :: "tool_input \<Rightarrow> progress_state \<Rightarrow> int \<times> progress_state" where
  "repository_delta i s =
     (let preHash = nullish_opt (ti_preRepositoryHash i) (ps_lastRepositoryHash s);
          postHash = ti_postRepositoryHash i
      in if preHash \<noteq> None \<and> postHash \<noteq> None \<and> preHash \<noteq> postHash
         then (1, s\<lparr>ps_lastRepositoryHash := postHash\<rparr>)
         else if postHash \<noteq> None \<and> ps_lastRepositoryHash s = None
         then (0, s\<lparr>ps_lastRepositoryHash := postHash\<rparr>)
         else (0, s))"

text \<open>2. The evidence: output or error text not seen before.\<close>

definition evidence_delta ::
    "(string \<Rightarrow> string) \<Rightarrow> tool_input \<Rightarrow> int \<Rightarrow> progress_state \<Rightarrow> int \<times> progress_state" where
  "evidence_delta sha i repoDelta s =
     (let outputHash = take 16 (sha (str_or (ti_output i) (str_or (ti_error i) [])))
      in if (\<not> is_mutating (ti_tool i) \<or> repoDelta > 0)
            \<and> (truthy (ti_output i) \<and> not_blank (ti_output i) \<or> truthy (ti_error i) \<and> not_blank (ti_error i))
            \<and> outputHash \<notin> set (ps_seenEvidenceHashes s)
         then (1, s\<lparr>ps_seenEvidenceHashes := js_add outputHash (ps_seenEvidenceHashes s)\<rparr>)
         else (0, s))"

text \<open>3. The verification: counts in the tool's metadata.\<close>

definition is_number :: "json option \<Rightarrow> bool" where
  "is_number v = (case v of Some (JNum _) \<Rightarrow> True | _ \<Rightarrow> False)"

definition text_or :: "json option \<Rightarrow> string \<Rightarrow> string" where
  "text_or v dflt = (case v of None \<Rightarrow> dflt | Some JNull \<Rightarrow> dflt | Some x \<Rightarrow> js_text x)"

definition verification_key :: "(string \<times> json) list \<Rightarrow> string" where
  "verification_key m =
     text_or (map_of m ''passed'') ''0'' @ '':'' @ text_or (map_of m ''failed'') ''0'' @ '':''
     @ text_or (map_of m ''verified'') [] @ '':'' @ text_or (map_of m ''exitCode'') ''0''"

definition verification_delta :: "tool_input \<Rightarrow> progress_state \<Rightarrow> int \<times> progress_state" where
  "verification_delta i s =
     (case ti_metadata i of
        None \<Rightarrow> (0, s)
      | Some m \<Rightarrow>
          if is_number (map_of m ''passed'') \<or> is_number (map_of m ''failed'') \<or> map_of m ''verified'' \<noteq> None
          then (if ps_lastVerificationHash s \<noteq> None \<and> ps_lastVerificationHash s \<noteq> Some (verification_key m)
                then 1 else 0,
                s\<lparr>ps_lastVerificationHash := Some (verification_key m)\<rparr>)
          else (0, s))"

text \<open>4. Repetition: failures, actions, diffs and contexts. The first results are the evidence
  delta and whether the failure is new.\<close>

definition failure_tracking :: "tool_input \<Rightarrow> int \<Rightarrow> progress_state \<Rightarrow> int \<times> bool \<times> progress_state" where
  "failure_tracking i ev s =
     (if truthy (ti_error i) then
        (let failSig = ti_tool i @ '':'' @ the (ti_error i) in
         if failSig \<in> set (ps_seenFailureSignatures s)
         then (ev, False, s\<lparr>ps_repeatedFailure := ps_repeatedFailure s + 1\<rparr>)
         else (max ev 1, True,
               s\<lparr>ps_seenFailureSignatures := js_add failSig (ps_seenFailureSignatures s),
                 ps_repeatedFailure := 0\<rparr>))
      else (ev, False, s\<lparr>ps_repeatedFailure := 0\<rparr>))"

definition repetition ::
    "string \<Rightarrow> string \<Rightarrow> tool_input \<Rightarrow> int \<Rightarrow> int \<Rightarrow> progress_state \<Rightarrow> progress_state" where
  "repetition actionFp resultFp i repoDelta ev s =
     (let isSameAction = (ps_lastActionFingerprint s = Some actionFp);
          isSameResult = (ps_lastResultFingerprint s = Some resultFp)
      in s\<lparr>ps_repeatedTool := (if isSameAction then ps_repeatedTool s + 1 else 0),
           ps_unchangedDiff := (if repoDelta = 0 \<and> is_mutating (ti_tool i) then ps_unchangedDiff s + 1
                                else if repoDelta > 0 then 0 else ps_unchangedDiff s),
           ps_repeatedContext := (if isSameAction \<and> isSameResult \<and> ev = 0 then ps_repeatedContext s + 1
                                  else 0),
           ps_tokensSinceProgress := ps_tokensSinceProgress s + nullish (ti_tokensUsed i) 0,
           ps_lastActionFingerprint := Some actionFp, ps_lastResultFingerprint := Some resultFp,
           ps_lastEvidenceDelta := ev, ps_lastRepositoryDelta := repoDelta\<rparr>)"

definition mark_progress :: "int \<Rightarrow> string option \<Rightarrow> progress_state \<Rightarrow> progress_state" where
  "mark_progress now reason s =
     s\<lparr>ps_tokensSinceProgress := 0, ps_noProgressCount := 0,
       ps_meaningfulStateVersion := Some (nullish (ps_meaningfulStateVersion s) 0 + 1),
       ps_lastProgressAt := Some now, ps_lastProgressReason := reason\<rparr>"

definition stall_of :: "int \<Rightarrow> progress_state \<Rightarrow> stall_result" where
  "stall_of ev s =
     detectStall \<lparr>so_repeatedFailure = ps_repeatedFailure s, so_repeatedTool = ps_repeatedTool s,
       so_unchangedDiff = ps_unchangedDiff s, so_repeatedContext = ps_repeatedContext s,
       so_evidenceDelta = ev, so_tokensSinceProgress = ps_tokensSinceProgress s\<rparr>"

definition tool_step ::
    "(string \<Rightarrow> string) \<Rightarrow> int \<Rightarrow> tool_input \<Rightarrow> progress_state \<Rightarrow> progress_observation \<times> progress_state" where
  "tool_step sha now i s0 =
     (let actionFp = computeActionFingerprint sha (ti_tool i) (ti_args i);
          resultFp = computeResultFingerprint sha (ti_tool i) (ti_output i) (ti_metadata i) (ti_error i);
          (repoDelta, s1) = repository_delta i s0;
          (ev1, s2) = evidence_delta sha i repoDelta s1;
          (verDelta, s3) = verification_delta i s2;
          (ev, isNovelDiagnostic, s4) = failure_tracking i ev1 s3;
          s5 = repetition actionFp resultFp i repoDelta ev s4;
          kind = classifyEvidenceKind (ti_tool i) (ti_error i) repoDelta (verDelta > 0);
          reason = (if repoDelta > 0 then Some ''repository_mutation''
                    else if verDelta > 0 then Some ''verification_state_change''
                    else if isNovelDiagnostic then Some ''novel_diagnostic_acquired'' else None);
          isProgress = (reason \<noteq> None);
          s6 = (if isProgress then mark_progress now reason s5
                else s5\<lparr>ps_noProgressCount := ps_noProgressCount s5 + 1\<rparr>);
          stall = stall_of ev s6;
          s7 = s6\<lparr>ps_lastStallResult := Some stall\<rparr>
      in (\<lparr>po_runId = ti_runId i, po_sessionId = ti_sessionId i, po_assignmentId = ti_assignmentId i,
           po_executionId = ti_executionId i, po_actionFingerprint = Some actionFp,
           po_resultFingerprint = Some resultFp, po_evidenceKind = kind, po_evidenceDelta = ev,
           po_repositoryStateDelta = repoDelta, po_verificationDelta = verDelta,
           po_assignmentStateDelta = 0, po_executionStateDelta = 0,
           po_repeatedFailure = ps_repeatedFailure s7, po_repeatedTool = ps_repeatedTool s7,
           po_unchangedDiff = ps_unchangedDiff s7, po_repeatedContext = ps_repeatedContext s7,
           po_tokensSinceProgress = ps_tokensSinceProgress s7, po_isProgress = isProgress,
           po_progressReason = reason, po_stallResult = Some stall, po_timestamp = now\<rparr>, s7))"

text \<open>A step on the run's state, kept in memory and then persisted.\<close>

definition observe ::
    "int \<Rightarrow> string \<Rightarrow> (progress_state \<Rightarrow> progress_observation \<times> progress_state) \<Rightarrow> progress_mem \<Rightarrow> orch_db
      \<Rightarrow> progress_mem \<times> (repo_error + (progress_observation \<times> orch_db))" where
  "observe now rid step mem d =
     (case step (state_or_fresh mem rid) of
        (obs, s) \<Rightarrow>
          let mem' = AList.update rid s mem in
          (mem', case persistState now rid mem' d of Inl e \<Rightarrow> Inl e | Inr d' \<Rightarrow> Inr (obs, d')))"

definition recordToolObservation ::
    "(string \<Rightarrow> string) \<Rightarrow> int \<Rightarrow> tool_input \<Rightarrow> progress_mem \<Rightarrow> orch_db
      \<Rightarrow> progress_mem \<times> (repo_error + (progress_observation \<times> orch_db))" where
  "recordToolObservation sha now i mem d = observe now (ti_runId i) (tool_step sha now i) mem d"

section \<open>Observing a verification result\<close>

record verification_input =
  vi_runId :: string
  vi_sessionId :: "string option"
  vi_assignmentId :: "string option"
  vi_executionId :: "string option"
  vi_verificationId :: string
  vi_status :: string
  vi_passed :: "int option"
  vi_failed :: "int option"
  vi_evidenceIds :: "string list option"
  vi_fingerprint :: string

text \<open>\<open>s.split(":")\<close>\<close>

fun split_colon :: "string \<Rightarrow> string list" where
  "split_colon [] = [[]]"
| "split_colon (c # cs) =
     (if c = CHR '':'' then [] # split_colon cs
      else case split_colon cs of [] \<Rightarrow> [[c]] | w # ws \<Rightarrow> (c # w) # ws)"

text \<open>\<open>parseInt(s, 10)\<close>: blanks, a sign, then digits; \<open>NaN\<close> is \<open>None\<close>.\<close>

definition digits_value :: "string \<Rightarrow> int" where
  "digits_value ds = foldl (\<lambda>n c. 10 * n + int (char_code c - 48)) 0 ds"

definition parse_unsigned :: "string \<Rightarrow> int option" where
  "parse_unsigned s =
     (case takeWhile is_digit s of [] \<Rightarrow> None | ds \<Rightarrow> Some (digits_value ds))"

definition parseInt :: "string \<Rightarrow> int option" where
  "parseInt s =
     (case dropWhile is_space s of
        [] \<Rightarrow> None
      | c # cs \<Rightarrow>
          if c = CHR ''-'' then map_option uminus (parse_unsigned cs)
          else if c = CHR ''+'' then parse_unsigned cs
          else parse_unsigned (c # cs))"

text \<open>Comparisons with \<open>NaN\<close> are false.\<close>

definition num_less :: "int option \<Rightarrow> int option \<Rightarrow> bool" where
  "num_less a b = (case (a, b) of (Some x, Some y) \<Rightarrow> x < y | _ \<Rightarrow> False)"

definition num_eq :: "int option \<Rightarrow> int option \<Rightarrow> bool" where
  "num_eq a b = (case (a, b) of (Some x, Some y) \<Rightarrow> x = y | _ \<Rightarrow> False)"

definition part :: "string \<Rightarrow> nat \<Rightarrow> string" where
  "part s n = (let ps = split_colon s in if n < length ps then ps ! n else ''0'')"

text \<open>The verification delta, the direction, whether it is progress and why.\<close>

definition verification_change ::
    "string \<Rightarrow> string \<Rightarrow> string option \<Rightarrow> int \<times> verification_direction \<times> bool \<times> string option" where
  "verification_change status fingerprint before =
     (case before of
        Some prev \<Rightarrow>
          if prev \<noteq> fingerprint then
            (let prevFailed = parseInt (part prev 1); currFailed = parseInt (part fingerprint 1);
                 prevPassed = parseInt (part prev 0); currPassed = parseInt (part fingerprint 0)
             in if num_less currFailed prevFailed
                   \<or> num_eq currFailed prevFailed \<and> num_less prevPassed currPassed
                   \<or> status = ''passed''
                then (1, VdImprovement, True, Some ''verification_improvement'')
                else if num_less prevFailed currFailed \<or> status = ''failed''
                then (1, VdRegression, False, Some ''verification_regression'')
                else (1, VdNeutralChange, False, None))
          else (0, VdNeutralChange, False, None)
      | None \<Rightarrow>
          if status = ''passed'' then (0, VdNeutralChange, True, Some ''verification_baseline_passed'')
          else (0, VdNeutralChange, False, None))"

definition verification_step ::
    "int \<Rightarrow> verification_input \<Rightarrow> progress_state \<Rightarrow> progress_observation \<times> progress_state" where
  "verification_step now i s0 =
     (let (verDelta, _, isProgress, reason) =
            verification_change (vi_status i) (vi_fingerprint i) (ps_lastVerificationHash s0);
          s1 = s0\<lparr>ps_lastVerificationHash := Some (vi_fingerprint i)\<rparr>;
          s2 = (if isProgress then mark_progress now reason s1
                else s1\<lparr>ps_noProgressCount := ps_noProgressCount s1 + 1\<rparr>);
          stall = stall_of 0 s2;
          s3 = s2\<lparr>ps_lastStallResult := Some stall\<rparr>
      in (\<lparr>po_runId = vi_runId i, po_sessionId = nullish (vi_sessionId i) [],
           po_assignmentId = vi_assignmentId i, po_executionId = vi_executionId i,
           po_actionFingerprint = None, po_resultFingerprint = None, po_evidenceKind = EvVerification,
           po_evidenceDelta = 0, po_repositoryStateDelta = 0, po_verificationDelta = verDelta,
           po_assignmentStateDelta = 0, po_executionStateDelta = 0,
           po_repeatedFailure = ps_repeatedFailure s3, po_repeatedTool = ps_repeatedTool s3,
           po_unchangedDiff = ps_unchangedDiff s3, po_repeatedContext = ps_repeatedContext s3,
           po_tokensSinceProgress = ps_tokensSinceProgress s3, po_isProgress = isProgress,
           po_progressReason = reason, po_stallResult = Some stall, po_timestamp = now\<rparr>, s3))"

definition recordVerificationObservation ::
    "int \<Rightarrow> verification_input \<Rightarrow> progress_mem \<Rightarrow> orch_db
      \<Rightarrow> progress_mem \<times> (repo_error + (progress_observation \<times> orch_db))" where
  "recordVerificationObservation now i mem d = observe now (vi_runId i) (verification_step now i) mem d"

section \<open>Observing the life of a child\<close>

record child_input =
  cl_runId :: string
  cl_sessionId :: string
  cl_assignmentId :: string
  cl_executionId :: string
  cl_previousState :: "string option"
  cl_newState :: string
  cl_result :: "string option"
  cl_error :: "string option"

record child_change =
  cc_isProgress :: bool
  cc_reason :: "string option"
  cc_evidenceDelta :: int
  cc_executionStateDelta :: int
  cc_assignmentStateDelta :: int

definition child_change_of :: "child_input \<Rightarrow> progress_state \<Rightarrow> child_change \<times> progress_state" where
  "child_change_of i s =
     (let nothing = \<lparr>cc_isProgress = False, cc_reason = None, cc_evidenceDelta = 0,
                     cc_executionStateDelta = 0, cc_assignmentStateDelta = 0\<rparr>
      in if cl_newState i = ''completed'' then
           (let compSig = ''child_comp:'' @ cl_executionId i @ '':'' @ nullish (cl_result i) [] in
            if compSig \<notin> set (ps_seenEvidenceHashes s)
            then (\<lparr>cc_isProgress = True, cc_reason = Some ''child_execution_completed'',
                   cc_evidenceDelta = 1, cc_executionStateDelta = 1, cc_assignmentStateDelta = 1\<rparr>,
                  s\<lparr>ps_seenEvidenceHashes := js_add compSig (ps_seenEvidenceHashes s),
                    ps_meaningfulStateVersion := Some (nullish (ps_meaningfulStateVersion s) 0 + 1),
                    ps_repeatedFailure := 0\<rparr>)
            else (nothing, s))
         else if cl_newState i = ''failed'' then
           (let failSig = ''child_fail:'' @ cl_executionId i @ '':'' @ nullish (cl_error i) ''failed'' in
            if failSig \<in> set (ps_seenFailureSignatures s)
            then (nothing, s\<lparr>ps_repeatedFailure := ps_repeatedFailure s + 1\<rparr>)
            else (\<lparr>cc_isProgress = True, cc_reason = Some ''child_failure_evidence_acquired'',
                   cc_evidenceDelta = 1, cc_executionStateDelta = 1, cc_assignmentStateDelta = 0\<rparr>,
                  s\<lparr>ps_seenFailureSignatures := js_add failSig (ps_seenFailureSignatures s),
                    ps_repeatedFailure := 0\<rparr>))
         else if cl_newState i = ''running'' \<and> cl_previousState i = Some ''queued'' then
           (nothing\<lparr>cc_executionStateDelta := 1, cc_assignmentStateDelta := 1,
                    cc_reason := Some ''child_execution_started''\<rparr>, s)
         else if cl_newState i = ''cancelled'' then
           (nothing\<lparr>cc_executionStateDelta := 1, cc_assignmentStateDelta := 1\<rparr>, s)
         else (nothing, s))"

definition child_step ::
    "int \<Rightarrow> child_input \<Rightarrow> progress_state \<Rightarrow> progress_observation \<times> progress_state" where
  "child_step now i s0 =
     (let (c, s1) = child_change_of i s0;
          s2 = (if cc_isProgress c
                then s1\<lparr>ps_tokensSinceProgress := 0, ps_noProgressCount := 0,
                        ps_lastProgressAt := Some now, ps_lastProgressReason := cc_reason c\<rparr>
                else if cl_newState i \<noteq> ''cancelled'' \<and> cl_newState i \<noteq> ''running''
                then s1\<lparr>ps_noProgressCount := ps_noProgressCount s1 + 1\<rparr> else s1);
          s3 = s2\<lparr>ps_lastEvidenceDelta := cc_evidenceDelta c\<rparr>;
          stall = stall_of (cc_evidenceDelta c) s3;
          s4 = s3\<lparr>ps_lastStallResult := Some stall\<rparr>
      in (\<lparr>po_runId = cl_runId i, po_sessionId = cl_sessionId i,
           po_assignmentId = Some (cl_assignmentId i), po_executionId = Some (cl_executionId i),
           po_actionFingerprint = None, po_resultFingerprint = None, po_evidenceKind = EvChildResult,
           po_evidenceDelta = cc_evidenceDelta c, po_repositoryStateDelta = 0,
           po_verificationDelta = 0, po_assignmentStateDelta = cc_assignmentStateDelta c,
           po_executionStateDelta = cc_executionStateDelta c,
           po_repeatedFailure = ps_repeatedFailure s4, po_repeatedTool = ps_repeatedTool s4,
           po_unchangedDiff = ps_unchangedDiff s4, po_repeatedContext = ps_repeatedContext s4,
           po_tokensSinceProgress = ps_tokensSinceProgress s4, po_isProgress = cc_isProgress c,
           po_progressReason = cc_reason c, po_stallResult = Some stall, po_timestamp = now\<rparr>, s4))"

definition recordChildLifecycleObservation ::
    "int \<Rightarrow> child_input \<Rightarrow> progress_mem \<Rightarrow> orch_db
      \<Rightarrow> progress_mem \<times> (repo_error + (progress_observation \<times> orch_db))" where
  "recordChildLifecycleObservation now i mem d = observe now (cl_runId i) (child_step now i) mem d"

section \<open>Reading and resetting\<close>

definition getDiagnosticsForRun :: "progress_mem \<Rightarrow> string \<Rightarrow> progress_diagnostics" where
  "getDiagnosticsForRun mem rid =
     (case map_of mem rid of
        None \<Rightarrow>
          \<lparr>pd_lastProgressAt = None, pd_noProgressCount = 0, pd_lastProgressReason = None,
           pd_stallReason = None, pd_lastEvidenceDelta = 0, pd_lastRepositoryDelta = 0,
           pd_isStalled = False, pd_corruptRecovery = None\<rparr>
      | Some s \<Rightarrow>
          \<lparr>pd_lastProgressAt = ps_lastProgressAt s, pd_noProgressCount = ps_noProgressCount s,
           pd_lastProgressReason = ps_lastProgressReason s,
           pd_stallReason = map_option (\<lambda>r. join '', '' (sr_reasons r)) (ps_lastStallResult s),
           pd_lastEvidenceDelta = ps_lastEvidenceDelta s,
           pd_lastRepositoryDelta = ps_lastRepositoryDelta s,
           pd_isStalled = (case ps_lastStallResult s of None \<Rightarrow> False | Some r \<Rightarrow> sr_stalled r),
           pd_corruptRecovery = Some (ps_recoveryError s = Some True)\<rparr>)"

definition getMeaningfulStateVersion :: "progress_mem \<Rightarrow> string \<Rightarrow> int" where
  "getMeaningfulStateVersion mem rid =
     (case map_of mem rid of None \<Rightarrow> 0 | Some s \<Rightarrow> nullish (ps_meaningfulStateVersion s) 0)"

definition incrementMeaningfulStateVersion ::
    "int \<Rightarrow> string \<Rightarrow> progress_mem \<Rightarrow> orch_db \<Rightarrow> progress_mem \<times> (repo_error + (int \<times> orch_db))" where
  "incrementMeaningfulStateVersion now rid mem d =
     (let s = state_or_fresh mem rid;
          v = nullish (ps_meaningfulStateVersion s) 0 + 1;
          mem' = AList.update rid (s\<lparr>ps_meaningfulStateVersion := Some v\<rparr>) mem
      in (mem', case persistState now rid mem' d of Inl e \<Rightarrow> Inl e | Inr d' \<Rightarrow> Inr (v, d')))"

definition reset_progress :: "string option \<Rightarrow> progress_mem \<Rightarrow> orch_db \<Rightarrow> progress_mem \<times> orch_db" where
  "reset_progress rid mem d =
     (if truthy rid
      then (AList.delete (the rid) mem,
            snd (meta_delete (\<lambda>r. m_runId r = the rid \<and> m_key r = progress_key (the rid)) d))
      else ([], snd (meta_delete (\<lambda>r. is_progress_key (m_key r)) d)))"

section \<open>Restart\<close>

text \<open>Only the service writes under its own prefix: one row per run, under the run's key.\<close>

definition progress_rows :: "orch_db \<Rightarrow> bool" where
  "progress_rows d \<longleftrightarrow>
     (\<forall>r \<in> set (db_meta d). is_progress_key (m_key r) \<longrightarrow> m_key r = progress_key (m_runId r))"

lemma progress_key_like [simp]: "is_progress_key (progress_key rid)"
  using sql_like_prefix [of "''progress_state:''" rid]
  by (simp only: progress_key_def is_progress_key_def append.simps)

lemma progress_rows_upsert:
  assumes "progress_rows d" and "meta_upsert i rid (progress_key rid) v now d = Inr d'"
  shows "progress_rows d'"
proof (cases "meta_at (db_meta d) rid (progress_key rid)")
  case None
  with assms show ?thesis by (auto simp: progress_rows_def meta_upsert_def meta_insert_def split: if_splits)
next
  case (Some r)
  then have "db_meta d' = map (\<lambda>r. if m_runId r = rid \<and> m_key r = progress_key rid then r\<lparr>m_value := v\<rparr> else r)
      (db_meta d)"
    using assms(2) by (auto simp: meta_upsert_def)
  with assms(1) show ?thesis by (auto simp: progress_rows_def)
qed

definition restored :: "meta_row \<Rightarrow> progress_state" where
  "restored r =
     (case m_value r of
        MProgress s \<Rightarrow>
          if schema_ok s
          then s\<lparr>ps_meaningfulStateVersion := Some (nullish (ps_meaningfulStateVersion s) 0),
                 ps_recoveryError := Some False\<rparr>
          else corrupt_state
      | _ \<Rightarrow> corrupt_state)"

text \<open>What the memory holds for a run after a restart: what its row restores to.\<close>

lemma reconcile_all:
  assumes "meta_ok d" and "progress_rows d" and "sql_order_ok q"
  shows "map_of (reconcileAfterRestart q None d []) rid
    = map_option restored (meta_at (db_meta d) rid (progress_key rid))"
proof -
  let ?rows = "sq_scan q (filter (\<lambda>r. is_progress_key (m_key r)) (db_meta d))"
  have rows: "set ?rows = {r \<in> set (db_meta d). is_progress_key (m_key r)}"
  proof -
    have "mset ?rows = mset (filter (\<lambda>r. is_progress_key (m_key r)) (db_meta d))"
      using assms(3) unfolding sql_order_ok_def by blast
    from mset_eq_setD [OF this] show ?thesis by (simp only: set_filter)
  qed
  have "(\<lambda>r m. restore_row r m) = (\<lambda>r. AList.update (m_runId r) (restored r))"
    by (intro ext) (simp add: restore_row_def restored_def)
  then have "map_of (reconcileAfterRestart q None d []) rid =
      (case List.find (\<lambda>r. m_runId r = rid) (rev ?rows) of None \<Rightarrow> None | Some r \<Rightarrow> Some (restored r))"
    using jsm.get_fold_put [of m_runId restored "[]" ?rows rid]
    by (simp add: reconcileAfterRestart_def split: option.split)
  moreover have "List.find (\<lambda>r. m_runId r = rid) (rev ?rows) = meta_at (db_meta d) rid (progress_key rid)"
  proof (cases "List.find (\<lambda>r. m_runId r = rid) (rev ?rows)")
    case None
    then have "\<forall>r \<in> set ?rows. m_runId r \<noteq> rid" by (simp add: find_None_iff_all)
    then have "meta_at (db_meta d) rid (progress_key rid) = None"
      using rows by (auto simp: meta_at_None)
    with None show ?thesis by simp
  next
    case (Some r)
    from find_SomeD [OF this] have r: "r \<in> set ?rows" "m_runId r = rid" by auto
    with rows have mem: "r \<in> set (db_meta d)" "is_progress_key (m_key r)" by blast+
    with assms(2) r(2) have "m_key r = progress_key rid" by (auto simp: progress_rows_def)
    then have "meta_at (db_meta d) rid (progress_key rid) = Some r"
      using assms(1) mem(1) r(2) by (subst meta_at_Some) (simp_all add: meta_ok_def)
    with Some show ?thesis by simp
  qed
  ultimately show ?thesis by (simp add: map_option_case)
qed

lemma persist_restored:
  assumes "meta_ok d" and "progress_rows d" and "sql_order_ok q"
    and "persistState now rid mem d = Inr d'" and "map_of mem rid = Some s"
  shows "map_of (reconcileAfterRestart q None d' []) rid
    = Some (s\<lparr>ps_meaningfulStateVersion := Some (nullish (ps_meaningfulStateVersion s) 0),
              ps_recoveryError := Some False\<rparr>)"
proof -
  from assms(4,5) have ok: "schema_ok (durable s)"
    and up: "meta_upsert (''meta-prog-'' @ rid) rid (progress_key rid) (MProgress (durable s)) now d = Inr d'"
    by (auto simp: persistState_def split: if_splits)
  from up assms(1,2) have "meta_ok d'" "progress_rows d'"
    by (auto intro: meta_upsert_ok progress_rows_upsert)
  note all = reconcile_all [OF this assms(3), of rid]
  have "meta_val d' (rid, progress_key rid) = Some (MProgress (durable s))"
    using meta_upsert_val [OF up] by simp
  then obtain r where "meta_at (db_meta d') rid (progress_key rid) = Some r" "m_value r = MProgress (durable s)"
    by (auto simp: meta_val_def)
  with all ok show ?thesis by (simp add: restored_def durable_def)
qed

section \<open>Repeating one failing call\<close>

fun repeat_call :: "(string \<Rightarrow> string) \<Rightarrow> int \<Rightarrow> tool_input \<Rightarrow> nat \<Rightarrow> progress_state \<Rightarrow> progress_state" where
  "repeat_call sha now i 0 s = s"
| "repeat_call sha now i (Suc n) s = snd (tool_step sha now i (repeat_call sha now i n s))"

text \<open>The state after \<open>n + 1\<close> equal failing calls that touch no file.\<close>

definition stuck :: "(string \<Rightarrow> string) \<Rightarrow> tool_input \<Rightarrow> nat \<Rightarrow> progress_state \<Rightarrow> bool" where
  "stuck sha i n s \<longleftrightarrow>
     ps_lastActionFingerprint s = Some (computeActionFingerprint sha (ti_tool i) (ti_args i))
     \<and> ps_lastResultFingerprint s
         = Some (computeResultFingerprint sha (ti_tool i) (ti_output i) (ti_metadata i) (ti_error i))
     \<and> ti_tool i @ '':'' @ the (ti_error i) \<in> set (ps_seenFailureSignatures s)
     \<and> (\<not> is_mutating (ti_tool i)
          \<and> (truthy (ti_output i) \<and> not_blank (ti_output i) \<or> truthy (ti_error i) \<and> not_blank (ti_error i))
        \<longrightarrow> take 16 (sha (str_or (ti_output i) (str_or (ti_error i) []))) \<in> set (ps_seenEvidenceHashes s))
     \<and> ps_repeatedFailure s = int n \<and> ps_repeatedTool s = int n \<and> ps_repeatedContext s = int n
     \<and> ps_unchangedDiff s = (if is_mutating (ti_tool i) then int n + 1 else 0)
     \<and> ps_tokensSinceProgress s = int n * nullish (ti_tokensUsed i) 0"

definition quiet_failure :: "tool_input \<Rightarrow> bool" where
  "quiet_failure i \<longleftrightarrow> truthy (ti_error i) \<and> ti_postRepositoryHash i = None \<and> ti_metadata i = None"

lemmas step_defs = tool_step_def repository_delta_def evidence_delta_def verification_delta_def
  failure_tracking_def repetition_def mark_progress_def

lemma stuck_first:
  assumes "quiet_failure i"
  shows "stuck sha i 0 (snd (tool_step sha now i fresh_state))"
  using assms by (auto simp: step_defs Let_def quiet_failure_def stuck_def fresh_state_def)

lemma stuck_next:
  assumes "quiet_failure i" and "stuck sha i n s"
  shows "stuck sha i (Suc n) (snd (tool_step sha now i s))"
  using assms by (auto simp: step_defs Let_def quiet_failure_def stuck_def algebra_simps)

lemma stuck_all: "quiet_failure i \<Longrightarrow> stuck sha i n (repeat_call sha now i (Suc n) fresh_state)"
  by (induction n) (simp_all add: stuck_first stuck_next)

lemma stuck_stall:
  assumes "quiet_failure i" and "stuck sha i n s"
  shows "sr_stalled (the (po_stallResult (fst (tool_step sha now i s)))) \<longleftrightarrow>
    3 \<le> n \<or> n = 2 \<and> 3 * nullish (ti_tokensUsed i) 0 > 500"
proof -
  let ?t = "nullish (ti_tokensUsed i) 0"
  have "po_stallResult (fst (tool_step sha now i s)) = Some (detectStall
     \<lparr>so_repeatedFailure = int n + 1, so_repeatedTool = int n + 1,
      so_unchangedDiff = (if is_mutating (ti_tool i) then int n + 2 else 0),
      so_repeatedContext = int n + 1, so_evidenceDelta = 0,
      so_tokensSinceProgress = int n * ?t + ?t\<rparr>)"
    using assms by (auto simp: step_defs Let_def quiet_failure_def stuck_def stall_of_def algebra_simps)
  moreover have "3 * ?t > 500" if "int n * ?t + ?t > 1000" "n = 2" using that by simp
  ultimately show ?thesis
    by (cases "n = 2") (auto simp: detectStall_def Let_def)
qed

text \<open>What each stage of a tool observation leaves alone.\<close>

definition same_counts :: "progress_state \<Rightarrow> progress_state \<Rightarrow> bool" where
  "same_counts s s' \<longleftrightarrow>
     ps_noProgressCount s' = ps_noProgressCount s
     \<and> ps_meaningfulStateVersion s' = ps_meaningfulStateVersion s
     \<and> ps_tokensSinceProgress s' = ps_tokensSinceProgress s"

lemma repository_facts:
  assumes "repository_delta i s = (r, s')"
  shows "(r > 0) = (let pre = nullish_opt (ti_preRepositoryHash i) (ps_lastRepositoryHash s)
       in pre \<noteq> None \<and> ti_postRepositoryHash i \<noteq> None \<and> pre \<noteq> ti_postRepositoryHash i)"
    "ps_seenFailureSignatures s' = ps_seenFailureSignatures s"
    "ps_lastVerificationHash s' = ps_lastVerificationHash s" "same_counts s s'"
  using assms by (auto simp: repository_delta_def same_counts_def Let_def split: if_splits)

lemma evidence_facts:
  assumes "evidence_delta sha i r s = (e, s')"
  shows "ps_seenFailureSignatures s' = ps_seenFailureSignatures s"
    "ps_lastVerificationHash s' = ps_lastVerificationHash s" "same_counts s s'"
  using assms by (auto simp: evidence_delta_def same_counts_def Let_def split: if_splits)

lemma verification_facts:
  assumes "verification_delta i s = (v, s')"
  shows "(v > 0) = (v = 1)" "ps_seenFailureSignatures s' = ps_seenFailureSignatures s" "same_counts s s'"
  using assms by (auto simp: verification_delta_def same_counts_def split: option.splits if_splits)

lemma failure_facts:
  assumes "failure_tracking i e s = (e', b, s')"
  shows "b = (truthy (ti_error i) \<and> ti_tool i @ '':'' @ the (ti_error i) \<notin> set (ps_seenFailureSignatures s))"
    "same_counts s s'"
  using assms by (auto simp: failure_tracking_def same_counts_def Let_def split: if_splits)

section \<open>Properties\<close>

text \<open>
  A restart loses nothing of a run that was observed: once an observation has returned, the
  state read back from the database gives the same diagnostics and the same meaningful state
  version as the memory that was lost.
\<close>

theorem restart_keeps_progress:
  assumes "meta_ok d" and "progress_rows d" and "sql_order_ok q"
    and "observe now rid step mem d = (mem', Inr (obs, d'))"
  shows "getDiagnosticsForRun (reconcileAfterRestart q None d' []) rid
      = (getDiagnosticsForRun mem' rid)\<lparr>pd_corruptRecovery := Some False\<rparr>
    \<and> getMeaningfulStateVersion (reconcileAfterRestart q None d' []) rid = getMeaningfulStateVersion mem' rid"
proof -
  obtain s where "map_of mem' rid = Some s" and persist: "persistState now rid mem' d = Inr d'"
    using assms(4) by (auto simp: observe_def Let_def store_simps split: prod.splits sum.splits)
  with persist_restored [OF assms(1-3) persist]
  show ?thesis by (simp add: getDiagnosticsForRun_def getMeaningfulStateVersion_def)
qed

text \<open>
  What counts as progress of a tool call: a repository hash that changed, a verification
  result that changed, or an error not seen before; then the count of calls without progress
  and the tokens since progress restart and the meaningful state version goes up by one, and
  otherwise the count goes up by one, the tokens add up and the version stays.
\<close>

theorem tool_progress_exact:
  assumes "tool_step sha now i s = (obs, s')"
  shows "(po_isProgress obs \<longleftrightarrow>
      (let pre = nullish_opt (ti_preRepositoryHash i) (ps_lastRepositoryHash s)
       in pre \<noteq> None \<and> ti_postRepositoryHash i \<noteq> None \<and> pre \<noteq> ti_postRepositoryHash i)
      \<or> fst (verification_delta i s) = 1
      \<or> truthy (ti_error i) \<and> ti_tool i @ '':'' @ the (ti_error i) \<notin> set (ps_seenFailureSignatures s))
    \<and> ps_noProgressCount s' = (if po_isProgress obs then 0 else ps_noProgressCount s + 1)
    \<and> nullish (ps_meaningfulStateVersion s') 0
        = nullish (ps_meaningfulStateVersion s) 0 + (if po_isProgress obs then 1 else 0)
    \<and> ps_tokensSinceProgress s'
        = (if po_isProgress obs then 0 else ps_tokensSinceProgress s + nullish (ti_tokensUsed i) 0)"
proof -
  obtain r s1 where r: "repository_delta i s = (r, s1)" by (cases "repository_delta i s")
  obtain e s2 where e: "evidence_delta sha i r s1 = (e, s2)" by (cases "evidence_delta sha i r s1")
  obtain v s3 where v: "verification_delta i s2 = (v, s3)" by (cases "verification_delta i s2")
  obtain e' b s4 where f: "failure_tracking i e s3 = (e', b, s4)" by (cases "failure_tracking i e s3")
  note facts = repository_facts [OF r] evidence_facts [OF e] verification_facts [OF v] failure_facts [OF f]
  have "ps_lastVerificationHash s2 = ps_lastVerificationHash s" using facts by simp
  with v have vs: "v = fst (verification_delta i s)" by (auto simp: verification_delta_def split: option.splits if_splits)
  have same: "ps_seenFailureSignatures s3 = ps_seenFailureSignatures s" "ps_noProgressCount s4 = ps_noProgressCount s"
      "ps_meaningfulStateVersion s4 = ps_meaningfulStateVersion s" "ps_tokensSinceProgress s4 = ps_tokensSinceProgress s"
    using facts by (simp_all add: same_counts_def)
  have out: "obs = fst (tool_step sha now i s)" "s' = snd (tool_step sha now i s)" using assms by simp_all
  have prog: "po_isProgress obs \<longleftrightarrow> r > 0 \<or> v > 0 \<or> b"
    by (simp add: out tool_step_def r e v f Let_def)
  have rest: "ps_noProgressCount s' = (if po_isProgress obs then 0 else ps_noProgressCount s4 + 1)"
    "nullish (ps_meaningfulStateVersion s') 0
        = nullish (ps_meaningfulStateVersion s4) 0 + (if po_isProgress obs then 1 else 0)"
    "ps_tokensSinceProgress s'
        = (if po_isProgress obs then 0 else ps_tokensSinceProgress s4 + nullish (ti_tokensUsed i) 0)"
    unfolding prog by (simp_all add: out tool_step_def r e v f Let_def repetition_def mark_progress_def)
  have cond: "r > 0 \<longleftrightarrow> (let pre = nullish_opt (ti_preRepositoryHash i) (ps_lastRepositoryHash s)
       in pre \<noteq> None \<and> ti_postRepositoryHash i \<noteq> None \<and> pre \<noteq> ti_postRepositoryHash i)"
    "v > 0 \<longleftrightarrow> v = 1"
    "b \<longleftrightarrow> truthy (ti_error i) \<and> ti_tool i @ '':'' @ the (ti_error i) \<notin> set (ps_seenFailureSignatures s)"
    using facts same by (simp_all add: Let_def)
  show ?thesis
    using prog cond vs rest same by simp
qed

text \<open>
  A failing call that is repeated unchanged is reported as a stall from its fifth time on,
  and the fourth time already when the repetitions have used more than 500 tokens; never before.
\<close>

theorem repeated_failure_stalls:
  assumes "truthy (ti_error i)" and "ti_postRepositoryHash i = None" and "ti_metadata i = None"
  shows "sr_stalled (the (po_stallResult (fst (tool_step sha now i (repeat_call sha now i n fresh_state)))))
    \<longleftrightarrow> 4 \<le> n \<or> n = 3 \<and> 3 * nullish (ti_tokensUsed i) 0 > 500"
proof -
  have quiet: "quiet_failure i" using assms by (simp add: quiet_failure_def)
  show ?thesis
  proof (cases n)
    case 0
    have "\<not> sr_stalled (the (po_stallResult (fst (tool_step sha now i fresh_state))))"
      using quiet by (auto simp: step_defs Let_def quiet_failure_def stall_of_def detectStall_def fresh_state_def)
    with 0 show ?thesis by simp
  next
    case (Suc k)
    from stuck_stall [OF quiet stuck_all [OF quiet, of sha k now], of now] Suc
    show ?thesis by auto
  qed
qed

text \<open>
  A progress state that can not be read after a restart is flagged as corrupt and carries
  counters of 999, but the run is not reported as stalled.
\<close>

theorem corrupt_progress_not_stalled:
  assumes "meta_ok d" and "progress_rows d" and "sql_order_ok q"
    and "meta_at (db_meta d) rid (progress_key rid) = Some r" and "m_value r = MText t"
  shows "pd_corruptRecovery (getDiagnosticsForRun (reconcileAfterRestart q None d []) rid) = Some True
    \<and> pd_noProgressCount (getDiagnosticsForRun (reconcileAfterRestart q None d []) rid) = 999
    \<and> \<not> pd_isStalled (getDiagnosticsForRun (reconcileAfterRestart q None d []) rid)"
  using reconcile_all [OF assms(1-3), of rid] assms(4,5)
  by (simp add: getDiagnosticsForRun_def restored_def corrupt_state_def fresh_state_def)

section \<open>Examples\<close>

definition demo_call :: tool_input where
  "demo_call =
     \<lparr>ti_runId = ''r'', ti_sessionId = ''s'', ti_tool = ''bash'', ti_args = None, ti_output = None,
      ti_metadata = None, ti_error = Some ''boom'', ti_preRepositoryHash = None,
      ti_postRepositoryHash = None, ti_tokensUsed = Some 10, ti_assignmentId = None,
      ti_executionId = None\<rparr>"

definition one_run :: orch_db where
  "one_run =
     \<lparr>db_runs = [\<lparr>row_runId = ''r'', row_contractId = ''c'', row_strategy = ''simple'', row_state = Executing,
      row_aggregateVersion = 1, row_baselineSha = ''sha'', row_currentSha = None,
      row_verificationSha = None, row_completionSha = None, row_repoBranch = ''main'',
      row_workingTreeClean = True, row_previousRunId = None, row_createdAt = 0,
      row_startedAt = None, row_completedAt = None\<rparr>],
      db_meta = [], db_calls = [], db_assignments = [], db_results = [], db_deferred = Some [],
      db_sessions = []\<rparr>"

definition table_order :: sql_order where
  "table_order = \<lparr>sq_scan = (\<lambda>rows. rows), sq_byCreated = sort_key m_createdAt,
     sq_results = (\<lambda>rows. rows), sq_sessions = sort_key se_startedAt\<rparr>"

lemma one_run_ok: "meta_ok one_run" "progress_rows one_run" "sql_order_ok table_order"
  by (simp_all add: meta_ok_def progress_rows_def one_run_def runs_ok_def sql_order_ok_def table_order_def)

theorem restart_keeps_progress_witness:
  "\<exists>mem' obs d'. recordToolObservation (\<lambda>x. x) 7 demo_call [] one_run = (mem', Inr (obs, d'))
     \<and> getMeaningfulStateVersion (reconcileAfterRestart table_order None d' []) ''r'' = 1"
proof -
  have step: "fst (recordToolObservation (\<lambda>x. x) 7 demo_call [] one_run)
      = [(''r'', snd (tool_step (\<lambda>x. x) 7 demo_call fresh_state))]"
    by (simp add: recordToolObservation_def observe_def state_or_fresh_def demo_call_def Let_def
        split: prod.split)
  have version: "nullish (ps_meaningfulStateVersion (snd (tool_step (\<lambda>x. x) 7 demo_call fresh_state))) 0 = 1"
    by (simp add: step_defs demo_call_def fresh_state_def Let_def)
  have "schema_ok (durable (snd (tool_step (\<lambda>x. x) 7 demo_call fresh_state)))"
    by (simp add: step_defs demo_call_def fresh_state_def Let_def schema_ok_def durable_def is_mutating_def)
  then have "\<exists>obs d'. snd (recordToolObservation (\<lambda>x. x) 7 demo_call [] one_run) = Inr (obs, d')"
    by (simp add: recordToolObservation_def observe_def state_or_fresh_def demo_call_def Let_def
        persistState_def meta_upsert_def meta_insert_def meta_at_def one_run_def findById_def
        split: prod.split) (auto simp: prod_eq_iff)
  then obtain obs d' where run: "recordToolObservation (\<lambda>x. x) 7 demo_call [] one_run
      = ([(''r'', snd (tool_step (\<lambda>x. x) 7 demo_call fresh_state))], Inr (obs, d'))"
    using step by (metis prod.collapse)
  then have "observe 7 ''r'' (tool_step (\<lambda>x. x) 7 demo_call) [] one_run
      = ([(''r'', snd (tool_step (\<lambda>x. x) 7 demo_call fresh_state))], Inr (obs, d'))"
    by (simp add: recordToolObservation_def demo_call_def)
  from restart_keeps_progress [OF one_run_ok this] run version
  show ?thesis by (simp add: getMeaningfulStateVersion_def)
qed

theorem tool_progress_exact_witness:
  "ps_noProgressCount (snd (tool_step (\<lambda>x. x) 7 demo_call fresh_state)) = 0"
proof -
  have "po_isProgress (fst (tool_step (\<lambda>x. x) 7 demo_call fresh_state))"
    by (simp add: step_defs demo_call_def fresh_state_def Let_def)
  with tool_progress_exact [of "\<lambda>x. x" 7 demo_call fresh_state
      "fst (tool_step (\<lambda>x. x) 7 demo_call fresh_state)" "snd (tool_step (\<lambda>x. x) 7 demo_call fresh_state)"]
  show ?thesis by simp
qed

theorem repeated_failure_stalls_witness:
  "sr_stalled (the (po_stallResult (fst (tool_step (\<lambda>x. x) 7 demo_call (repeat_call (\<lambda>x. x) 7 demo_call 4 fresh_state)))))"
  using repeated_failure_stalls [of demo_call "\<lambda>x. x" 7 4] by (simp add: demo_call_def)

theorem corrupt_progress_not_stalled_witness:
  "\<exists>d. \<not> pd_isStalled (getDiagnosticsForRun (reconcileAfterRestart table_order None d []) ''r'')
     \<and> pd_noProgressCount (getDiagnosticsForRun (reconcileAfterRestart table_order None d []) ''r'') = 999"
proof -
  let ?row = "\<lparr>m_id = ''m'', m_runId = ''r'', m_key = progress_key ''r'', m_value = MText ''{'', m_createdAt = 0\<rparr>"
  let ?d = "one_run\<lparr>db_meta := [?row]\<rparr>"
  have ok: "meta_ok ?d" "progress_rows ?d"
    by (simp_all add: meta_ok_def progress_rows_def one_run_def runs_ok_def)
  have row: "meta_at (db_meta ?d) ''r'' (progress_key ''r'') = Some ?row" by (simp add: meta_at_def)
  have unreadable: "m_value ?row = MText ''{''" by simp
  from corrupt_progress_not_stalled [OF ok one_run_ok(3) row unreadable]
  show ?thesis by (intro exI [of _ ?d]) simp
qed

end
