(* ===== verification/Snapshot.thy ===== *)
theory Snapshot
  imports Attempts Progress "HOL-Library.Product_Lexorder"
begin

text \<open>
  The read-only snapshot of a run (\<open>services/orchestration-snapshot-service.ts\<close>): work items,
  current work item, child counts, barriers, progress and phase, and the fingerprint over them.

  The snapshot's diagnostics of the repository master are left out. The specialist plan parsed
  from the latest routing decision is an argument (\<open>routing_view\<close>), as are the rows that the
  three queries of the fingerprint return (\<open>evidence_rows\<close>).
\<close>

record work_item =
  w_id :: string
  w_role :: string
  w_agentId :: string
  w_status :: string
  w_isRequired :: bool
  w_isSatisfied :: bool
  w_attempts :: nat
  w_evidenceIds :: "string list"
  w_lastActionFingerprint :: "string option"
  w_lastResultFingerprint :: "string option"
  w_blockedReason :: "string option"

record specialist_spec =
  sp_specialistId :: string
  sp_required :: bool
  sp_dependsOn :: "string list"

record specialist_plan =
  pl_executionMode :: string
  pl_specs :: "specialist_spec list"
  pl_deduplicated :: nat
  pl_fanoutBlocked :: nat
  pl_reasonCode :: "string option"
  pl_rejectedReason :: "string option"

record routing_view =
  rv_executionClass :: "string option"
  rv_plan :: "specialist_plan option"

record specialist_state =
  sps_planned :: nat
  sps_active :: nat
  sps_completed :: nat
  sps_failed :: nat
  sps_blocked :: nat
  sps_required :: nat
  sps_optional :: nat
  sps_attempts :: nat
  sps_deduplicated :: nat
  sps_fanoutBlocked :: nat
  sps_reasonCode :: "string option"
  sps_rejectedReason :: "string option"

record progress_view =
  pv_noProgressCount :: int
  pv_lastProgressAt :: "int option"
  pv_lastProgressReason :: "string option"
  pv_stalled :: bool
  pv_stallReasons :: "string list"
  pv_lastEvidenceDelta :: int
  pv_lastRepositoryDelta :: int

record child_counts =
  cc_active :: nat
  cc_activeRequired :: nat
  cc_activeOptional :: nat
  cc_completed :: nat
  cc_failed :: nat
  cc_failedRequired :: nat
  cc_failedOptional :: nat
  cc_cancelRequested :: nat

record snapshot =
  sn_runId :: string
  sn_sessionId :: string
  sn_executionClass :: "string option"
  sn_executionMode :: "string option"
  sn_specialistState :: specialist_state
  sn_phase :: phase
  sn_aggregateVersion :: int
  sn_currentWorkItemId :: "string option"
  sn_currentAssignmentId :: "string option"
  sn_currentExecutionId :: "string option"
  sn_workItems :: "work_item list"
  sn_progress :: progress_view
  sn_childState :: child_counts
  sn_cancellationPending :: bool
  sn_unresolvedDeferredReplacement :: bool
  sn_isTerminal :: bool

section \<open>Session, evidence and attempts\<close>

definition resolve_session :: "sql_order \<Rightarrow> string \<Rightarrow> string option \<Rightarrow> orch_db \<Rightarrow> string" where
  "resolve_session q rid sid d =
     (if truthy sid then the sid
      else
        let sessions = sq_sessions q (filter (\<lambda>s. se_runId s = rid) (db_sessions d));
            root = (case List.find (\<lambda>s. se_depth s = 0) sessions of
                      Some s \<Rightarrow> Some s | None \<Rightarrow> (case sessions of [] \<Rightarrow> None | s # _ \<Rightarrow> Some s))
        in nullish (map_option se_id root) ''unknown-session'')"

definition assignment_rows :: "string \<Rightarrow> orch_db \<Rightarrow> assignment_row list" where
  "assignment_rows rid d =
     sort_key (\<lambda>r. (asg_createdAt r, asg_id r)) (filter (\<lambda>r. asg_runId r = rid) (db_assignments d))"

text \<open>A completed result with passed and without failed tests is verification evidence.\<close>

definition is_evidence :: "result_row \<Rightarrow> bool" where
  "is_evidence r \<longleftrightarrow>
     rr_completedAt r \<noteq> None \<and> nullish (rr_testsPassed r) 0 > 0 \<and> nullish (rr_testsFailed r) 0 = 0
     \<and> lower_case (rr_status r) \<in> set [''passed'', ''completed'']"

definition run_results :: "sql_order \<Rightarrow> string \<Rightarrow> orch_db \<Rightarrow> result_row list" where
  "run_results q rid d =
     sq_results q (filter (\<lambda>r. rr_assignmentId r \<in> set (map asg_id (assignment_rows rid d))) (db_results d))"

definition evidence_of :: "sql_order \<Rightarrow> string \<Rightarrow> string \<Rightarrow> orch_db \<Rightarrow> string list" where
  "evidence_of q rid aid d =
     map (\<lambda>r. ''assignment_result:'' @ rr_id r)
       (filter (\<lambda>r. is_evidence r \<and> rr_assignmentId r = aid) (run_results q rid d))"

text \<open>\<open>run_id = ? AND key LIKE 'attempt:%'\<close>, grouped by the assignment of the parsed attempt.\<close>

definition attempt_rows :: "sql_order \<Rightarrow> string \<Rightarrow> orch_db \<Rightarrow> meta_row list" where
  "attempt_rows q rid d =
     sq_scan q (filter (\<lambda>r. m_runId r = rid \<and> sql_like ''attempt:%'' (m_key r)) (db_meta d))"

definition attempts_of :: "sql_order \<Rightarrow> string \<Rightarrow> string \<Rightarrow> orch_db \<Rightarrow> attempt list" where
  "attempts_of q rid aid d =
     filter (\<lambda>a. at_assignmentId a \<noteq> [] \<and> at_assignmentId a = aid)
       (List.map_filter (\<lambda>r. attempt_of (m_value r)) (attempt_rows q rid d))"

text \<open>The last child of an assignment wins, as in a \<open>Map\<close> built from the list.\<close>

definition child_for :: "child_execution list \<Rightarrow> string \<Rightarrow> child_execution option" where
  "child_for children aid = List.find (\<lambda>c. ch_assignmentId c = aid) (rev children)"

section \<open>Work items\<close>

definition work_item_of ::
    "sql_order \<Rightarrow> string \<Rightarrow> orch_db \<Rightarrow> child_execution list \<Rightarrow> assignment_row \<Rightarrow> work_item" where
  "work_item_of q rid d children r =
     (let attempts = attempts_of q rid (asg_id r) d;
          latest = (if attempts = [] then None else Some (last attempts));
          isRequired = (asg_isRequired r \<noteq> 0);
          status = (if asg_status r = ''running'' then ''in_progress'' else asg_status r)
      in \<lparr>w_id = asg_id r, w_role = asg_description r, w_agentId = asg_agentId r, w_status = status,
          w_isRequired = isRequired,
          w_isSatisfied = (status = ''completed'' \<or> status = ''skipped'' \<and> \<not> isRequired),
          w_attempts = max (length attempts)
            (if asg_status r = ''in_progress'' \<or> asg_status r = ''running'' then 1 else 0),
          w_evidenceIds = evidence_of q rid (asg_id r) d,
          w_lastActionFingerprint = map_option at_actionFingerprint latest,
          w_lastResultFingerprint = Option.bind latest at_resultFingerprint,
          w_blockedReason =
            (if asg_status r = ''failed''
             then Some (nullish (Option.bind (child_for children (asg_id r)) ch_error) []) else None)\<rparr>)"

definition current_work_item :: "work_item list \<Rightarrow> work_item option" where
  "current_work_item ws =
     (case List.find (\<lambda>w. w_status w = ''in_progress'' \<or> w_status w = ''running'' \<or> w_status w = ''assigned'') ws of
        Some w \<Rightarrow> Some w
      | None \<Rightarrow> List.find (\<lambda>w. w_status w = ''pending'') ws)"

section \<open>Children and specialists\<close>

definition child_required :: "assignment_row list \<Rightarrow> child_execution \<Rightarrow> bool" where
  "child_required rows c =
     nullish (map_of (rev (map (\<lambda>a. (asg_id a, asg_isRequired a \<noteq> 0)) rows)) (ch_assignmentId c)) True"

definition no_children :: child_counts where
  "no_children =
     \<lparr>cc_active = 0, cc_activeRequired = 0, cc_activeOptional = 0, cc_completed = 0, cc_failed = 0,
      cc_failedRequired = 0, cc_failedOptional = 0, cc_cancelRequested = 0\<rparr>"

definition count_child :: "assignment_row list \<Rightarrow> child_counts \<Rightarrow> child_execution \<Rightarrow> child_counts" where
  "count_child rows n c =
     (let isReq = child_required rows c;
          n1 = (if ch_status c = ChQueued \<or> ch_status c = ChRunning then
                  (if isReq then n\<lparr>cc_active := cc_active n + 1, cc_activeRequired := cc_activeRequired n + 1\<rparr>
                   else n\<lparr>cc_active := cc_active n + 1, cc_activeOptional := cc_activeOptional n + 1\<rparr>)
                else if ch_status c = ChCompleted then n\<lparr>cc_completed := cc_completed n + 1\<rparr>
                else if ch_status c = ChFailed \<or> ch_status c = ChTimedOut then
                  (if isReq then n\<lparr>cc_failed := cc_failed n + 1, cc_failedRequired := cc_failedRequired n + 1\<rparr>
                   else n\<lparr>cc_failed := cc_failed n + 1, cc_failedOptional := cc_failedOptional n + 1\<rparr>)
                else n)
      in if ch_cancelRequested c = Some True \<and> ch_nativeTerminationConfirmed c \<noteq> Some True
         then n1\<lparr>cc_cancelRequested := cc_cancelRequested n1 + 1\<rparr> else n1)"

definition count_children :: "assignment_row list \<Rightarrow> child_execution list \<Rightarrow> child_counts" where
  "count_children rows children = foldl (count_child rows) no_children children"

definition specialist_child :: "child_execution list \<Rightarrow> string \<Rightarrow> child_execution option" where
  "specialist_child children i =
     List.find (\<lambda>c. ch_specialistId c = Some i) (rev (filter (\<lambda>c. truthy (ch_specialistId c)) children))"

definition specialist_counts :: "specialist_plan option \<Rightarrow> child_execution list \<Rightarrow> specialist_state" where
  "specialist_counts plan children =
     (let specs = (case plan of None \<Rightarrow> [] | Some p \<Rightarrow> pl_specs p);
          status = (\<lambda>sp. map_option ch_status (specialist_child children (sp_specialistId sp)));
          completed = js_unique (map sp_specialistId (filter (\<lambda>sp. status sp = Some ChCompleted) specs))
      in \<lparr>sps_planned = length specs,
          sps_active = length (filter (\<lambda>sp. status sp = Some ChQueued \<or> status sp = Some ChRunning) specs),
          sps_completed = length completed,
          sps_failed = length (filter (\<lambda>sp. status sp = Some ChFailed \<or> status sp = Some ChTimedOut
                                          \<or> status sp = Some ChCancelled) specs),
          sps_blocked = length (filter (\<lambda>sp. status sp = None
                                          \<and> list_ex (\<lambda>i. i \<notin> set completed) (sp_dependsOn sp)) specs),
          sps_required = length (filter sp_required specs),
          sps_optional = length (filter (\<lambda>sp. \<not> sp_required sp) specs),
          sps_attempts = length (filter (\<lambda>c. truthy (ch_specialistId c)) children),
          sps_deduplicated = (case plan of None \<Rightarrow> 0 | Some p \<Rightarrow> pl_deduplicated p),
          sps_fanoutBlocked = (case plan of None \<Rightarrow> 0 | Some p \<Rightarrow> pl_fanoutBlocked p),
          sps_reasonCode = Option.bind plan pl_reasonCode,
          sps_rejectedReason = Option.bind plan pl_rejectedReason\<rparr>)"

section \<open>Barriers and progress\<close>

definition unresolved_deferred :: "string \<Rightarrow> orch_db \<Rightarrow> bool" where
  "unresolved_deferred rid d =
     (case db_deferred d of
        None \<Rightarrow> True
      | Some rows \<Rightarrow>
          length (filter (\<lambda>r. df_oldRunId r = rid \<and> df_status r \<in> set
            [''pending_termination'', ''resuming'', ''handoff_pending'', ''handoff_outcome_unknown'', ''blocked'']) rows) > 0)"

text \<open>\<open>s.split(", ")\<close>\<close>

function split_list :: "string \<Rightarrow> string list" where
  "split_list s =
     (case s of
        [] \<Rightarrow> [[]]
      | c # cs \<Rightarrow>
          if starts_with s '', '' then [] # split_list (drop 2 s)
          else (case split_list cs of [] \<Rightarrow> [[c]] | w # ws \<Rightarrow> (c # w) # ws))"
  by pat_completeness auto
termination
  by (relation "measure length") auto

declare split_list.simps [simp del]

definition progress_view_of :: "progress_diagnostics \<Rightarrow> progress_view" where
  "progress_view_of p =
     \<lparr>pv_noProgressCount = pd_noProgressCount p, pv_lastProgressAt = pd_lastProgressAt p,
      pv_lastProgressReason = pd_lastProgressReason p, pv_stalled = pd_isStalled p,
      pv_stallReasons = (if truthy (pd_stallReason p) then split_list (the (pd_stallReason p)) else []),
      pv_lastEvidenceDelta = pd_lastEvidenceDelta p, pv_lastRepositoryDelta = pd_lastRepositoryDelta p\<rparr>"

section \<open>The snapshot\<close>

definition getSnapshot ::
    "sql_order \<Rightarrow> routing_view \<Rightarrow> string \<Rightarrow> string option \<Rightarrow> progress_mem \<Rightarrow> orch_db \<Rightarrow> snapshot option" where
  "getSnapshot q rv rid sid mem d =
     (case findById (db_runs d) rid of
        None \<Rightarrow> None
      | Some taskRun \<Rightarrow>
          let rows = assignment_rows rid d;
              children = child_listAll q (Some rid) d;
              workItems = map (work_item_of q rid d children) rows;
              cur = current_work_item workItems;
              curChild = Option.bind cur (\<lambda>w. child_for children (w_id w));
              counts = count_children rows children;
              p = row_state taskRun
          in Some
            \<lparr>sn_runId = rid, sn_sessionId = resolve_session q rid sid d,
             sn_executionClass = rv_executionClass rv,
             sn_executionMode = map_option pl_executionMode (rv_plan rv),
             sn_specialistState = specialist_counts (rv_plan rv) children,
             sn_phase = p, sn_aggregateVersion = row_aggregateVersion taskRun,
             sn_currentWorkItemId = map_option w_id cur, sn_currentAssignmentId = map_option w_id cur,
             sn_currentExecutionId = map_option ch_executionId curChild,
             sn_workItems = workItems, sn_progress = progress_view_of (getDiagnosticsForRun mem rid),
             sn_childState = counts,
             sn_cancellationPending = (cc_cancelRequested counts > 0),
             sn_unresolvedDeferredReplacement = unresolved_deferred rid d,
             sn_isTerminal = (p = Completed \<or> p = Failed \<or> p = Cancelled)\<rparr>)"

section \<open>The fingerprint of the state\<close>

record evidence_rows =
  ev_repositoryArtifacts :: "json list"
  ev_assignmentResults :: "json list"
  ev_runEvidence :: "json list"

definition item_json :: "work_item \<Rightarrow> json" where
  "item_json w =
     JObj [(''id'', JStr (w_id w)), (''status'', JStr (w_status w)),
           (''isRequired'', JBool (w_isRequired w)), (''isSatisfied'', JBool (w_isSatisfied w)),
           (''evidenceIds'', JArr (map JStr (sort (w_evidenceIds w)))),
           (''lastResultFingerprint'', JStr (nullish (w_lastResultFingerprint w) []))]"

definition counts_json :: "child_counts \<Rightarrow> json" where
  "counts_json n =
     JObj [(''active'', JNum (int (cc_active n))), (''activeRequired'', JNum (int (cc_activeRequired n))),
           (''activeOptional'', JNum (int (cc_activeOptional n))), (''completed'', JNum (int (cc_completed n))),
           (''failed'', JNum (int (cc_failed n))), (''failedRequired'', JNum (int (cc_failedRequired n))),
           (''failedOptional'', JNum (int (cc_failedOptional n))),
           (''cancelRequested'', JNum (int (cc_cancelRequested n)))]"

definition state_json :: "evidence_rows \<Rightarrow> snapshot \<Rightarrow> json" where
  "state_json ev sn =
     JObj [(''runId'', JStr (sn_runId sn)), (''aggregateVersion'', JNum (sn_aggregateVersion sn)),
           (''phase'', JStr (phase_name (sn_phase sn))),
           (''currentWorkItemId'', JStr (nullish (sn_currentWorkItemId sn) [])),
           (''workItems'', JArr (map item_json (sn_workItems sn))),
           (''childState'', counts_json (sn_childState sn)),
           (''lifecycleBlocks'', JObj [(''cancellationPending'', JBool (sn_cancellationPending sn)),
              (''unresolvedDeferredReplacement'', JBool (sn_unresolvedDeferredReplacement sn))]),
           (''repositoryArtifacts'', JArr (ev_repositoryArtifacts ev)),
           (''assignmentResults'', JArr (ev_assignmentResults ev)),
           (''runEvidence'', JArr (ev_runEvidence ev)),
           (''progress'', JObj [(''lastRepositoryDelta'', JNum (pv_lastRepositoryDelta (sn_progress sn))),
              (''lastEvidenceDelta'', JNum (pv_lastEvidenceDelta (sn_progress sn)))])]"

definition computeStateFingerprint ::
    "(string \<Rightarrow> string) \<Rightarrow> sql_order \<Rightarrow> routing_view \<Rightarrow> evidence_rows \<Rightarrow> string \<Rightarrow> string option
      \<Rightarrow> progress_mem \<Rightarrow> orch_db \<Rightarrow> string option" where
  "computeStateFingerprint sha q rv ev rid sid mem d =
     (case getSnapshot q rv rid sid mem d of
        None \<Rightarrow> None
      | Some sn \<Rightarrow> Some (take 32 (sha (json_str (state_json ev sn)))))"

end
