(* ===== verification/Engine.thy ===== *)
theory Engine
  imports Snapshot
begin

text \<open>
  The decisions of the transition engine (\<open>services/transition-engine.ts\<close>): the guarded phase
  transition, the evaluation of a run in its nine stages, and the application of a verification
  result.

  The completion policy bound to the engine is an object compared by identity: here a number.
  One call reads the clock several times; all of its readings are \<open>now\<close>.
\<close>

section \<open>The guarded phase transition\<close>

datatype bind_error = CompletionPolicyAlreadyBound

definition bindCompletionPolicy :: "nat \<Rightarrow> nat option \<Rightarrow> bind_error + nat option" where
  "bindCompletionPolicy policy bound =
     (if bound \<noteq> None \<and> bound \<noteq> Some policy then Inl CompletionPolicyAlreadyBound
      else Inr (Some policy))"

datatype authority = AuTransitionEngine | AuRunService

record cas_input =
  cas_runId :: string
  cas_targetPhase :: phase
  cas_expectedPhase :: phase
  cas_expectedAggregateVersion :: int
  cas_authority :: "authority option"
  cas_completionPolicy :: "nat option"
  cas_sha :: "string option"

definition transitionPhase :: "nat option \<Rightarrow> cas_input \<Rightarrow> orch_db \<Rightarrow> repo_error + (bool \<times> orch_db)" where
  "transitionPhase bound i d =
     (if cas_expectedPhase i \<in> set terminal_phases then Inr (False, d)
      else if cas_targetPhase i = Completed \<and> (bound = None \<or> cas_completionPolicy i \<noteq> bound)
        then Inr (False, d)
      else if \<not> isValidPhaseTransition (cas_expectedPhase i) (cas_targetPhase i) then Inr (False, d)
      else
        case transitionPhaseCas (cas_runId i) (phase_name (cas_expectedPhase i))
               (cas_expectedAggregateVersion i) (phase_name (cas_targetPhase i)) (cas_sha i) (db_runs d) of
          Inl e \<Rightarrow> Inl e
        | Inr (v, rows) \<Rightarrow> Inr (v \<noteq> None, d\<lparr>db_runs := rows\<rparr>))"

section \<open>Results of an evaluation\<close>

datatype strategy_decision = EXECUTE_CURRENT | RETRY_SAME_STRATEGY | CHANGE_STRATEGY | REPLAN | BLOCK

datatype reason_code =
    CHILD_COMPLETED | CHILD_FAILED | ASSIGNMENT_COMPLETED | ASSIGNMENT_FAILED | PROGRESS_CONFIRMED
  | NEXT_WORK_ITEM_READY | NO_PROGRESS | REPEATED_ACTION_BLOCKED | TRANSIENT_RETRY_ALLOWED
  | STALL_DETECTED | RECOVERY_PROGRESS | VERIFICATION_REQUIRED | READY_FOR_VERIFICATION
  | VERIFICATION_PASSED | VERIFICATION_FAILED | VERIFICATION_STALE | ALL_WORK_ITEMS_COMPLETE
  | WAITING_FOR_CHILDREN | USER_CANCELLED | SUPERSEDED | BLOCKED | STRATEGY_SET_EXHAUSTED
  | TRANSITION_CONFLICT

record evaluation =
  er_runId :: string
  er_currentPhase :: phase
  er_targetPhase :: "phase option"
  er_phaseChanged :: bool
  er_currentWorkItemId :: "string option"
  er_nextWorkItemId :: "string option"
  er_workItemChanged :: bool
  er_strategyDecision :: strategy_decision
  er_reasonCode :: reason_code
  er_requiresAction :: bool
  er_prohibitedActionFingerprint :: "string option"
  er_blockerReason :: "string option"

text \<open>The common shape of the results: run, phase, work item, decision, reason, action.\<close>

definition outcome ::
    "string \<Rightarrow> phase \<Rightarrow> string option \<Rightarrow> strategy_decision \<Rightarrow> reason_code \<Rightarrow> bool \<Rightarrow> evaluation" where
  "outcome rid p w dec reason act =
     \<lparr>er_runId = rid, er_currentPhase = p, er_targetPhase = None, er_phaseChanged = False,
      er_currentWorkItemId = w, er_nextWorkItemId = None, er_workItemChanged = False,
      er_strategyDecision = dec, er_reasonCode = reason, er_requiresAction = act,
      er_prohibitedActionFingerprint = None, er_blockerReason = None\<rparr>"

definition blocked_by :: "string \<Rightarrow> evaluation \<Rightarrow> evaluation" where
  "blocked_by why r = r\<lparr>er_blockerReason := Some why\<rparr>"

section \<open>The evaluation\<close>

record eval_input =
  ei_runId :: string
  ei_sessionId :: "string option"
  ei_latestActionFingerprint :: "string option"
  ei_latestTool :: "string option"
  ei_latestError :: "string option"
  ei_isVerification :: "bool option"

text \<open>What the engine is composed with.\<close>

record engine_env =
  en_order :: sql_order
  en_routing :: routing_view
  en_policy :: "nat option"
  en_now :: int

definition engine_transition ::
    "engine_env \<Rightarrow> string \<Rightarrow> snapshot \<Rightarrow> phase \<Rightarrow> orch_db \<Rightarrow> repo_error + (bool \<times> orch_db)" where
  "engine_transition en rid sn target d =
     transitionPhase (en_policy en)
       \<lparr>cas_runId = rid, cas_targetPhase = target, cas_expectedPhase = sn_phase sn,
        cas_expectedAggregateVersion = sn_aggregateVersion sn, cas_authority = Some AuTransitionEngine,
        cas_completionPolicy = None, cas_sha = None\<rparr> d"

text \<open>An evaluation ends with its outcome, or with an error; each write is a transaction of its own, so the writes that were
  made before the error stay, and the error comes with the tables as they are left.\<close>

type_synonym evaluated = "(repo_error \<times> orch_db) + (evaluation \<times> orch_db)"

text \<open>Outcome with a phase change that a guard asks for: entered, refused, or not tried.\<close>

definition with_transition ::
    "engine_env \<Rightarrow> string \<Rightarrow> snapshot \<Rightarrow> bool \<Rightarrow> phase \<Rightarrow> evaluation \<Rightarrow> orch_db
      \<Rightarrow> (phase \<Rightarrow> bool \<Rightarrow> orch_db \<Rightarrow> evaluated)
      \<Rightarrow> evaluated" where
  "with_transition en rid sn guard target conflict d k =
     (if guard then
        (case engine_transition en rid sn target d of
           Inl e \<Rightarrow> Inl (e, d)
         | Inr (ok, d') \<Rightarrow> if ok then k target True d' else Inr (conflict, d'))
      else k (sn_phase sn) False d)"

definition computeStrategyStateFingerprint ::
    "engine_env \<Rightarrow> string \<Rightarrow> string \<Rightarrow> snapshot option \<Rightarrow> progress_mem \<Rightarrow> orch_db \<Rightarrow> string" where
  "computeStrategyStateFingerprint en rid aid given mem d =
     (let snap = (case given of Some s \<Rightarrow> Some s
                  | None \<Rightarrow> getSnapshot (en_order en) (en_routing en) rid None mem d);
          activeRequired = (case snap of None \<Rightarrow> 0 | Some s \<Rightarrow> cc_activeRequired (sn_childState s));
          failedRequired = (case snap of None \<Rightarrow> 0 | Some s \<Rightarrow> cc_failedRequired (sn_childState s));
          satisfied = (case snap of None \<Rightarrow> 0 | Some s \<Rightarrow> length (filter w_isSatisfied (sn_workItems s)))
      in rid @ '':'' @ aid @ '':'' @ int_str (getMeaningfulStateVersion mem rid) @ '':''
         @ nat_str activeRequired @ '':'' @ nat_str failedRequired @ '':'' @ nat_str satisfied)"

text \<open>2. Failed required work or children: recover.\<close>

definition eval_failed ::
    "engine_env \<Rightarrow> eval_input \<Rightarrow> snapshot \<Rightarrow> string option \<Rightarrow> orch_db \<Rightarrow> evaluated" where
  "eval_failed en i sn curId d =
     (let cur = sn_phase sn in
      with_transition en (ei_runId i) sn
        ((cur = Executing \<or> cur = Delegating) \<and> isValidPhaseTransition cur Recovering) Recovering
        (blocked_by ''CAS transition conflict entering RECOVERING''
           (outcome (ei_runId i) cur curId BLOCK TRANSITION_CONFLICT False)) d
        (\<lambda>p changed d'. Inr ((outcome (ei_runId i) p curId CHANGE_STRATEGY
            (if cc_failedRequired (sn_childState sn) > 0 then CHILD_FAILED else ASSIGNMENT_FAILED) True)
              \<lparr>er_phaseChanged := changed\<rparr>, d')))"

text \<open>3. A stall: recover and prohibit the action that stalled.\<close>

definition eval_stalled ::
    "engine_env \<Rightarrow> eval_input \<Rightarrow> snapshot \<Rightarrow> string option \<Rightarrow> string \<Rightarrow> attempt option \<Rightarrow> progress_mem
      \<Rightarrow> orch_db \<Rightarrow> evaluated" where
  "eval_stalled en i sn curId target lastAttempt mem d =
     (let cur = sn_phase sn;
          fp = nullish_opt (ei_latestActionFingerprint i) (map_option at_actionFingerprint lastAttempt)
      in with_transition en (ei_runId i) sn
           (cur \<noteq> Recovering \<and> isValidPhaseTransition cur Recovering) Recovering
           (blocked_by ''CAS transition conflict entering RECOVERING on stall''
              (outcome (ei_runId i) cur curId BLOCK TRANSITION_CONFLICT False)) d
           (\<lambda>p changed d'.
              let r = (outcome (ei_runId i) p curId CHANGE_STRATEGY STALL_DETECTED True)
                        \<lparr>er_phaseChanged := changed, er_prohibitedActionFingerprint := fp\<rparr>
              in if truthy fp then
                   (let causalFp =
                          (case lastAttempt of
                             Some a \<Rightarrow> if at_preStateFingerprint a \<noteq> [] then at_preStateFingerprint a
                               else computeStrategyStateFingerprint en (ei_runId i) target (Some sn) mem d'
                           | None \<Rightarrow> computeStrategyStateFingerprint en (ei_runId i) target (Some sn) mem d')
                    in case saveStrategyConstraint (en_now en)
                              \<lparr>in_runId = ei_runId i, in_assignmentId = target, in_prohibited = the fp,
                               in_stateFingerprint = causalFp, in_reason = ''STALL_DETECTED'',
                               in_createdAt = Some (en_now en)\<rparr> d' of
                         Inl e \<Rightarrow> Inl (e, d') | Inr d'' \<Rightarrow> Inr (r, d''))
                 else Inr (r, d')))"

text \<open>4a. Progress while recovering: back to executing, constraints cleared.\<close>

definition eval_recovered ::
    "engine_env \<Rightarrow> eval_input \<Rightarrow> snapshot \<Rightarrow> string \<Rightarrow> orch_db \<Rightarrow> evaluated" where
  "eval_recovered en i sn target d =
     with_transition en (ei_runId i) sn True Executing
       (blocked_by ''CAS transition conflict exiting RECOVERING''
          (outcome (ei_runId i) (sn_phase sn) (Some target) BLOCK TRANSITION_CONFLICT False)) d
       (\<lambda>p changed d'.
          case clearStrategyConstraint (en_now en) (ei_runId i) target d' of
            Inl e \<Rightarrow> Inl (e, d')
          | Inr d'' \<Rightarrow> Inr ((outcome (ei_runId i) Executing (Some target) EXECUTE_CURRENT RECOVERY_PROGRESS True)
                             \<lparr>er_phaseChanged := True\<rparr>, d''))"

text \<open>4b. The same action again without progress: a bounded retry, or a constraint.\<close>

definition retry_allowed :: "eval_input \<Rightarrow> string \<Rightarrow> attempt list \<Rightarrow> attempt \<Rightarrow> bool" where
  "retry_allowed i fp attempts a =
     ((truthy (ei_latestError i) \<and> isTransientError (ei_latestError i) \<or> at_isTransientError a = Some True)
      \<and> length (filter (\<lambda>b. at_isTransientError b = Some True)
                 (filter (\<lambda>b. at_actionFingerprint b = fp) attempts)) \<le> 2)"

definition eval_repeated ::
    "engine_env \<Rightarrow> eval_input \<Rightarrow> snapshot \<Rightarrow> string \<Rightarrow> string \<Rightarrow> attempt list \<Rightarrow> attempt \<Rightarrow> orch_db
      \<Rightarrow> evaluated" where
  "eval_repeated en i sn target fp attempts a d =
     (if retry_allowed i fp attempts a
      then Inr (outcome (ei_runId i) (sn_phase sn) (Some target) RETRY_SAME_STRATEGY TRANSIENT_RETRY_ALLOWED True, d)
      else
        case saveStrategyConstraint (en_now en)
               \<lparr>in_runId = ei_runId i, in_assignmentId = target, in_prohibited = fp,
                in_stateFingerprint = at_preStateFingerprint a, in_reason = ''REPEATED_ACTION_BLOCKED'',
                in_createdAt = Some (en_now en)\<rparr> d of
          Inl e \<Rightarrow> Inl (e, d)
        | Inr d' \<Rightarrow>
            Inr ((outcome (ei_runId i) (if sn_phase sn = Recovering then sn_phase sn else Executing)
                    (Some target) CHANGE_STRATEGY REPEATED_ACTION_BLOCKED True)
                   \<lparr>er_prohibitedActionFingerprint := Some fp\<rparr>, d'))"

text \<open>4c. Progress of the last attempt, confirmed once.\<close>

definition eval_progress ::
    "engine_env \<Rightarrow> eval_input \<Rightarrow> snapshot \<Rightarrow> string \<Rightarrow> attempt \<Rightarrow> orch_db \<Rightarrow> evaluated" where
  "eval_progress en i sn target a d =
     (if getConsumedProgressAttempt (ei_runId i) target d = Some (at_attemptNumber a)
      then Inr (outcome (ei_runId i) (sn_phase sn) (Some target) EXECUTE_CURRENT NO_PROGRESS False, d)
      else
        case markConsumedProgressAttempt (en_now en) (ei_runId i) target (at_attemptNumber a) d of
          Inl e \<Rightarrow> Inl (e, d)
        | Inr d1 \<Rightarrow>
            (case clearStrategyConstraint (en_now en) (ei_runId i) target d1 of
               Inl e \<Rightarrow> Inl (e, d1)
             | Inr d2 \<Rightarrow>
                 Inr (outcome (ei_runId i) (sn_phase sn) (Some target) EXECUTE_CURRENT PROGRESS_CONFIRMED True, d2)))"

text \<open>5 to 9. Barriers, children, verification, the next item, and the fallback.\<close>

definition all_required_satisfied :: "snapshot \<Rightarrow> bool" where
  "all_required_satisfied sn \<longleftrightarrow>
     (let required = filter w_isRequired (sn_workItems sn)
      in length required > 0 \<and> list_all w_isSatisfied required)"

definition eval_quiet ::
    "engine_env \<Rightarrow> eval_input \<Rightarrow> snapshot \<Rightarrow> work_item option \<Rightarrow> orch_db \<Rightarrow> evaluated" where
  "eval_quiet en i sn curItem d =
     (let rid = ei_runId i; cur = sn_phase sn; curId = map_option w_id curItem in
      if sn_cancellationPending sn \<or> sn_unresolvedDeferredReplacement sn then
        Inr (blocked_by (if sn_cancellationPending sn then ''Cancellation barrier remains unresolved''
                         else ''Deferred replacement barrier remains unresolved'')
               (outcome rid cur curId BLOCK BLOCKED False), d)
      else if cc_activeRequired (sn_childState sn) > 0 then
        Inr (outcome rid cur curId EXECUTE_CURRENT WAITING_FOR_CHILDREN False, d)
      else if all_required_satisfied sn \<and> cc_activeRequired (sn_childState sn) = 0
              \<and> cc_failedRequired (sn_childState sn) = 0 then
        with_transition en rid sn (cur \<noteq> Verifying \<and> isValidPhaseTransition cur Verifying) Verifying
          (blocked_by ''CAS transition conflict entering VERIFYING''
             (outcome rid cur None BLOCK TRANSITION_CONFLICT False)) d
          (\<lambda>p changed d'. Inr ((outcome rid p None EXECUTE_CURRENT READY_FOR_VERIFICATION True)
                                 \<lparr>er_phaseChanged := changed\<rparr>, d'))
      else if (case curItem of None \<Rightarrow> False | Some w \<Rightarrow> w_status w = ''pending'') then
        Inr (outcome rid cur curId EXECUTE_CURRENT NEXT_WORK_ITEM_READY True, d)
      else Inr (outcome rid cur curId EXECUTE_CURRENT NO_PROGRESS False, d))"

definition eval_action ::
    "engine_env \<Rightarrow> eval_input \<Rightarrow> snapshot \<Rightarrow> work_item option \<Rightarrow> string \<Rightarrow> attempt list \<Rightarrow> attempt option
      \<Rightarrow> orch_db \<Rightarrow> evaluated" where
  "eval_action en i sn curItem target attempts lastAttempt d =
     (let hasRepositoryStateChange = (pv_lastRepositoryDelta (sn_progress sn) > 0);
          hasAttemptProgress = (case lastAttempt of None \<Rightarrow> False | Some a \<Rightarrow> at_progressProduced a);
          hasStateChange = (hasRepositoryStateChange \<or> hasAttemptProgress);
          fp = nullish_opt (ei_latestActionFingerprint i) (map_option at_actionFingerprint lastAttempt)
      in if sn_phase sn = Recovering \<and> hasStateChange then eval_recovered en i sn target d
         else
           case lastAttempt of
             None \<Rightarrow> eval_quiet en i sn curItem d
           | Some a \<Rightarrow>
               if truthy fp \<and> at_actionFingerprint a = the fp \<and> \<not> at_progressProduced a \<and> \<not> hasStateChange
               then eval_repeated en i sn target (the fp) attempts a d
               else if truthy fp \<and> (at_progressProduced a \<or> hasRepositoryStateChange)
               then eval_progress en i sn target a d
               else eval_quiet en i sn curItem d)"

definition target_item :: "eval_input \<Rightarrow> snapshot \<Rightarrow> work_item option \<Rightarrow> string" where
  "target_item i sn curItem =
     (case curItem of
        Some w \<Rightarrow> w_id w
      | None \<Rightarrow> (case sn_workItems sn of w # _ \<Rightarrow> w_id w | [] \<Rightarrow> ''root:'' @ ei_runId i))"

definition eval_live ::
    "engine_env \<Rightarrow> eval_input \<Rightarrow> snapshot \<Rightarrow> progress_mem \<Rightarrow> orch_db \<Rightarrow> evaluated" where
  "eval_live en i sn mem d =
     (let curItem = List.find (\<lambda>w. Some (w_id w) = sn_currentWorkItemId sn) (sn_workItems sn);
          failedItems = filter (\<lambda>w. w_status w = ''failed'' \<and> w_isRequired w) (sn_workItems sn)
      in if length failedItems > 0 \<or> cc_failedRequired (sn_childState sn) > 0
         then eval_failed en i sn (map_option w_id curItem) d
         else
           let target = target_item i sn curItem;
               attempts = listAttempts (en_order en) (ei_runId i) target d;
               lastAttempt = (if attempts = [] then None else Some (last attempts));
               strategyFp = computeStrategyStateFingerprint en (ei_runId i) target (Some sn) mem d
           in if (case getActiveStrategyConstraints (ei_runId i) target d of
                    None \<Rightarrow> False | Some c \<Rightarrow> cs_exhausted c \<and> cs_stateFingerprint c = strategyFp)
              then Inr (blocked_by ''Strategy search exhausted under unchanged meaningful state''
                          (outcome (ei_runId i) (sn_phase sn) (Some target) BLOCK STRATEGY_SET_EXHAUSTED False), d)
              else if pv_stalled (sn_progress sn)
              then eval_stalled en i sn (map_option w_id curItem) target lastAttempt mem d
              else eval_action en i sn curItem target attempts lastAttempt d)"

definition evaluate ::
    "engine_env \<Rightarrow> eval_input \<Rightarrow> progress_mem \<Rightarrow> orch_db \<Rightarrow> evaluated" where
  "evaluate en i mem d =
     (case getSnapshot (en_order en) (en_routing en) (ei_runId i) (ei_sessionId i) mem d of
        None \<Rightarrow> Inr (blocked_by ''Run not found'' (outcome (ei_runId i) Failed None BLOCK BLOCKED False), d)
      | Some sn \<Rightarrow>
          if sn_phase sn \<in> set terminal_phases
          then Inr (outcome (ei_runId i) (sn_phase sn) None BLOCK
                      (if sn_phase sn = Cancelled then USER_CANCELLED else ALL_WORK_ITEMS_COMPLETE) False, d)
          else eval_live en i sn mem d)"

section \<open>Applying a verification result\<close>

datatype verification_status = VsPassed | VsFailed

record verification_result =
  vf_runId :: string
  vf_stateVersion :: int
  vf_stateFingerprint :: string
  vf_status :: verification_status

definition observeVerificationResult ::
    "(string \<Rightarrow> string) \<Rightarrow> engine_env \<Rightarrow> evidence_rows \<Rightarrow> verification_result \<Rightarrow> progress_mem \<Rightarrow> orch_db
      \<Rightarrow> repo_error + (evaluation \<times> orch_db)" where
  "observeVerificationResult sha en ev i mem d =
     (let snap = getSnapshot (en_order en) (en_routing en) (vf_runId i) None mem d;
          gone = (\<lambda>p. Inr (blocked_by ''Run is absent or terminal before verification result application''
                             (outcome (vf_runId i) p None BLOCK BLOCKED False), d))
      in case snap of
           None \<Rightarrow> gone Failed
         | Some sn \<Rightarrow>
             if sn_phase sn \<in> set terminal_phases then gone (sn_phase sn)
             else if sn_phase sn \<noteq> Verifying \<or> sn_aggregateVersion sn \<noteq> vf_stateVersion i
                     \<or> computeStateFingerprint sha (en_order en) (en_routing en) ev (vf_runId i) None mem d
                         \<noteq> Some (vf_stateFingerprint i)
             then Inr (blocked_by ''Verification result does not match the current authoritative Run state''
                         (outcome (vf_runId i) (sn_phase sn) None BLOCK VERIFICATION_STALE False), d)
             else if vf_status i = VsPassed
             then Inr (outcome (vf_runId i) Verifying None EXECUTE_CURRENT VERIFICATION_PASSED False, d)
             else
               (case engine_transition en (vf_runId i) (sn\<lparr>sn_phase := Verifying\<rparr>) Recovering d of
                  Inl e \<Rightarrow> Inl e
                | Inr (ok, d') \<Rightarrow>
                    Inr (if ok then (outcome (vf_runId i) Recovering None CHANGE_STRATEGY VERIFICATION_FAILED True)
                                      \<lparr>er_targetPhase := Some Recovering, er_phaseChanged := True\<rparr>
                         else blocked_by ''CAS transition conflict applying verification failure''
                                (outcome (vf_runId i) Verifying None BLOCK TRANSITION_CONFLICT False), d')))"

section \<open>The phase of a run under the engine\<close>

text \<open>Phase changes as attempts on the aggregate version, on a table with one row per run.\<close>

definition attempt_phase ::
    "task_run_row list \<Rightarrow> string \<Rightarrow> int \<Rightarrow> phase \<times> phase \<times> string option \<Rightarrow> task_run_row list option" where
  "attempt_phase rows rid v x =
     (case x of (p, q, sha) \<Rightarrow>
        if runs_ok rows then
          (case transitionPhaseCas rid (phase_name p) v (phase_name q) sha rows of
             Inr (Some _, rows') \<Rightarrow> Some rows' | _ \<Rightarrow> None)
        else None)"

lemma attempt_phase_Some:
  "attempt_phase rows rid v (p, q, sha) = Some rows' \<longleftrightarrow>
     runs_ok rows \<and> (\<exists>r. findById rows rid = Some r \<and> row_state r = p \<and> row_aggregateVersion r = v)
     \<and> rows' = map (\<lambda>x. if row_runId x = rid then advance_row q sha x else x) rows"
  by (auto simp: attempt_phase_def transitionPhaseCas_eq split: option.splits)

lemma findById_advance:
  "findById (map (\<lambda>x. if row_runId x = rid then advance_row q sha x else x) rows) rid'
    = map_option (\<lambda>x. if rid' = rid then advance_row q sha x else x) (findById rows rid')"
proof -
  have "findById (map (\<lambda>x. if row_runId x = rid then advance_row q sha x else x) rows) rid'
      = map_option (\<lambda>x. if row_runId x = rid then advance_row q sha x else x) (findById rows rid')"
    by (rule findById_map) simp
  also have "\<dots> = map_option (\<lambda>x. if rid' = rid then advance_row q sha x else x) (findById rows rid')"
    by (cases "findById rows rid'") (auto simp: findById_def dest: find_SomeD)
  finally show ?thesis .
qed

lemma runs_ok_advance [simp]:
  "runs_ok (map (\<lambda>x. if row_runId x = rid then advance_row q sha x else x) rows) = runs_ok rows"
proof -
  have "row_runId \<circ> (\<lambda>x. if row_runId x = rid then advance_row q sha x else x) = row_runId"
    by (rule ext) simp
  then show ?thesis by (simp add: runs_ok_def)
qed

interpretation phase_cas: optimistic_store run_version attempt_phase
proof
  fix s k e a s'
  assume "attempt_phase s k e a = Some s'"
  then show "run_version s k = e \<and> e < run_version s' k"
    by (cases a) (auto simp: attempt_phase_Some run_version_def findById_advance)
next
  fix s k e a s' k'
  assume "attempt_phase s k e a = Some s'" and "k' \<noteq> k"
  then show "run_version s' k' = run_version s k'"
    by (cases a) (auto simp: attempt_phase_Some run_version_def findById_advance split: option.split)
qed

text \<open>The rows after a legal move of one run to a phase.\<close>

definition moves_to :: "string \<Rightarrow> phase \<Rightarrow> string option \<Rightarrow> orch_db \<Rightarrow> orch_db \<Rightarrow> bool" where
  "moves_to rid q sha d d' \<longleftrightarrow>
     (\<exists>r. findById (db_runs d) rid = Some r \<and> row_state r \<notin> set terminal_phases
        \<and> isValidPhaseTransition (row_state r) q)
     \<and> db_runs d' = map (\<lambda>x. if row_runId x = rid then advance_row q sha x else x) (db_runs d)"

lemma transitionPhase_Inr:
  assumes "runs_ok (db_runs d)" and "transitionPhase bound i d = Inr (ok, d')"
  shows "(ok \<longrightarrow> moves_to (cas_runId i) (cas_targetPhase i) (cas_sha i) d d'
        \<and> (\<exists>r. findById (db_runs d) (cas_runId i) = Some r \<and> row_state r = cas_expectedPhase i
              \<and> row_aggregateVersion r = cas_expectedAggregateVersion i)
        \<and> (cas_targetPhase i = Completed \<longrightarrow> bound \<noteq> None \<and> cas_completionPolicy i = bound))
    \<and> (\<not> ok \<longrightarrow> d' = d)"
  using assms
  by (auto simp: transitionPhase_def transitionPhaseCas_eq moves_to_def split: if_splits option.splits)

lemma transitionPhase_total:
  "runs_ok (db_runs d) \<Longrightarrow> \<exists>ok d'. transitionPhase bound i d = Inr (ok, d')"
  by (auto simp: transitionPhase_def transitionPhaseCas_eq split: option.split)

text \<open>What an evaluation does to the table of runs, read off its result.\<close>

definition moved :: "string \<Rightarrow> evaluation \<Rightarrow> orch_db \<Rightarrow> orch_db \<Rightarrow> bool" where
  "moved rid r d d' \<longleftrightarrow>
     (if er_phaseChanged r then er_currentPhase r \<noteq> Completed \<and> moves_to rid (er_currentPhase r) None d d'
      else db_runs d' = db_runs d)"

lemma moved_static: "\<not> er_phaseChanged r \<Longrightarrow> db_runs d' = db_runs d \<Longrightarrow> moved rid r d d'"
  by (simp add: moved_def)

lemma outcome_simps [simp]:
  "er_phaseChanged (outcome rid p w dec reason act) = False"
  "er_currentPhase (outcome rid p w dec reason act) = p"
  "er_reasonCode (outcome rid p w dec reason act) = reason"
  "er_currentWorkItemId (outcome rid p w dec reason act) = w"
  "er_requiresAction (outcome rid p w dec reason act) = act"
  "er_strategyDecision (outcome rid p w dec reason act) = dec"
  "er_phaseChanged (blocked_by why r) = er_phaseChanged r"
  "er_currentPhase (blocked_by why r) = er_currentPhase r"
  "er_reasonCode (blocked_by why r) = er_reasonCode r"
  "er_requiresAction (blocked_by why r) = er_requiresAction r"
  "er_strategyDecision (blocked_by why r) = er_strategyDecision r"
  by (simp_all add: outcome_def blocked_by_def)

lemma with_transition_moved:
  assumes "runs_ok (db_runs d)" and "with_transition en rid sn guard target conflict d k = Inr (r, d')"
    and "target \<noteq> Completed" and "\<not> er_phaseChanged conflict"
    and "\<And>d1 r d'. k target True d1 = Inr (r, d')
           \<Longrightarrow> er_phaseChanged r \<and> er_currentPhase r = target \<and> db_runs d' = db_runs d1"
    and "\<And>r d'. \<not> guard \<Longrightarrow> k (sn_phase sn) False d = Inr (r, d')
           \<Longrightarrow> \<not> er_phaseChanged r \<and> db_runs d' = db_runs d"
  shows "moved rid r d d'"
proof (cases guard)
  case False
  with assms(2,6) show ?thesis by (auto simp: with_transition_def moved_def)
next
  case True
  with assms(2) obtain ok d1 where t: "engine_transition en rid sn target d = Inr (ok, d1)"
    and rest: "(if ok then k target True d1 else Inr (conflict, d1)) = Inr (r, d')"
    by (auto simp: with_transition_def split: sum.splits prod.splits)
  note step = transitionPhase_Inr [OF assms(1) t [unfolded engine_transition_def]]
  show ?thesis
  proof (cases ok)
    case True
    with rest have "k target True d1 = Inr (r, d')" by simp
    from assms(5) [OF this] step True assms(3) show ?thesis by (simp add: moved_def moves_to_def)
  next
    case False
    with rest step assms(4) show ?thesis by (auto simp: moved_def)
  qed
qed

lemma constraint_frames:
  "saveStrategyConstraint now i d = Inr d' \<Longrightarrow> db_runs d' = db_runs d"
  "clearStrategyConstraint now rid aid d = Inr d' \<Longrightarrow> db_runs d' = db_runs d"
  "markConsumedProgressAttempt now rid aid n d = Inr d' \<Longrightarrow> db_runs d' = db_runs d"
  by (auto simp: saveStrategyConstraint_def clearStrategyConstraint_def markConsumedProgressAttempt_def
      meta_upsert_frame split: option.splits)

lemma eval_failed_moved:
  "runs_ok (db_runs d) \<Longrightarrow> eval_failed en i sn w d = Inr (r, d') \<Longrightarrow> moved (ei_runId i) r d d'"
  unfolding eval_failed_def Let_def by (erule with_transition_moved) auto

lemma eval_stalled_moved:
  "runs_ok (db_runs d) \<Longrightarrow> eval_stalled en i sn w t a mem d = Inr (r, d') \<Longrightarrow> moved (ei_runId i) r d d'"
  unfolding eval_stalled_def Let_def
  by (erule with_transition_moved) (auto split: if_splits sum.splits dest: constraint_frames)

lemma eval_recovered_moved:
  "runs_ok (db_runs d) \<Longrightarrow> eval_recovered en i sn t d = Inr (r, d') \<Longrightarrow> moved (ei_runId i) r d d'"
  unfolding eval_recovered_def
  by (erule with_transition_moved) (auto split: sum.splits dest: constraint_frames)

lemma eval_repeated_moved:
  "eval_repeated en i sn t fp as a d = Inr (r, d') \<Longrightarrow> moved (ei_runId i) r d d'"
  by (auto simp: eval_repeated_def moved_def split: if_splits sum.splits dest: constraint_frames)

lemma eval_progress_moved:
  "eval_progress en i sn t a d = Inr (r, d') \<Longrightarrow> moved (ei_runId i) r d d'"
  by (auto simp: eval_progress_def moved_def constraint_frames(3) split: if_splits sum.splits
      dest!: constraint_frames(2))

lemma eval_quiet_moved:
  assumes "runs_ok (db_runs d)" and "eval_quiet en i sn w d = Inr (r, d')"
  shows "moved (ei_runId i) r d d'"
proof -
  have ready: "moved (ei_runId i) r d d'"
    if "with_transition en (ei_runId i) sn (sn_phase sn \<noteq> Verifying \<and> isValidPhaseTransition (sn_phase sn) Verifying)
          Verifying (blocked_by ''CAS transition conflict entering VERIFYING''
             (outcome (ei_runId i) (sn_phase sn) None BLOCK TRANSITION_CONFLICT False)) d
          (\<lambda>p changed d'. Inr ((outcome (ei_runId i) p None EXECUTE_CURRENT READY_FOR_VERIFICATION True)
                                 \<lparr>er_phaseChanged := changed\<rparr>, d')) = Inr (r, d')"
    by (rule with_transition_moved [OF assms(1) that]) auto
  from assms(2) show ?thesis
    unfolding eval_quiet_def Let_def
    by (auto split: if_splits intro: ready moved_static)
qed

lemma eval_action_moved:
  assumes "runs_ok (db_runs d)" and "eval_action en i sn w t as a d = Inr (r, d')"
  shows "moved (ei_runId i) r d d'"
  using assms(2)
  by (auto simp: eval_action_def Let_def split: if_splits option.splits
      dest: eval_recovered_moved [OF assms(1)] eval_repeated_moved eval_progress_moved
        eval_quiet_moved [OF assms(1)])

lemma eval_live_moved:
  assumes "runs_ok (db_runs d)" and "eval_live en i sn mem d = Inr (r, d')"
  shows "moved (ei_runId i) r d d'"
  using assms(2) unfolding eval_live_def Let_def
  by (auto split: if_splits dest: eval_failed_moved [OF assms(1)] eval_stalled_moved [OF assms(1)]
        eval_action_moved [OF assms(1)] simp: moved_def)

lemma evaluate_moved:
  assumes "runs_ok (db_runs d)" and "evaluate en i mem d = Inr (r, d')"
  shows "moved (ei_runId i) r d d'"
  using assms(2) unfolding evaluate_def
  by (auto split: option.splits if_splits dest: eval_live_moved [OF assms(1)] simp: moved_def)

text \<open>An evaluation that ends with an error has made at most its phase change.\<close>

definition ended_early :: "string \<Rightarrow> orch_db \<Rightarrow> orch_db \<Rightarrow> bool" where
  "ended_early rid d d' \<longleftrightarrow> db_runs d' = db_runs d \<or> (\<exists>p. p \<noteq> Completed \<and> moves_to rid p None d d')"

lemma ended_early_refl [simp]: "ended_early rid d d"
  by (simp add: ended_early_def)

lemma with_transition_stopped:
  assumes "runs_ok (db_runs d)" and "with_transition en rid sn guard target conflict d k = Inl (e, d')"
    and "target \<noteq> Completed" and "\<And>p changed d1 d'. k p changed d1 = Inl (e, d') \<Longrightarrow> db_runs d' = db_runs d1"
  shows "ended_early rid d d'"
proof (cases guard)
  case False
  with assms(2,4) show ?thesis by (auto simp: with_transition_def ended_early_def)
next
  case True
  show ?thesis
  proof (cases "engine_transition en rid sn target d")
    case (Inl x)
    then show ?thesis using assms(2) True by (simp add: with_transition_def)
  next
    case (Inr r)
    then obtain ok d1 where t: "engine_transition en rid sn target d = Inr (ok, d1)" by (cases r) simp
    then have "ok" and k: "k target True d1 = Inl (e, d')"
      using assms(2) True by (auto simp: with_transition_def split: if_splits)
    then have "moves_to rid target None d d1"
      using transitionPhase_Inr [OF assms(1) t [unfolded engine_transition_def]] by simp
    moreover have "db_runs d' = db_runs d1" using assms(4) [OF k] .
    ultimately have "moves_to rid target None d d'" by (simp add: moves_to_def)
    then show ?thesis using assms(3) unfolding ended_early_def by blast
  qed
qed

lemma evaluate_stopped:
  assumes ok: "runs_ok (db_runs d)" and "evaluate en i mem d = Inl (e, d')"
  shows "ended_early (ei_runId i) d d'"
proof -
  have failed: "ended_early (ei_runId i) d d'" if "eval_failed en i sn w d = Inl (e, d')" for sn w
    using that unfolding eval_failed_def Let_def by (rule with_transition_stopped [OF ok]) simp_all
  have stalled: "ended_early (ei_runId i) d d'" if "eval_stalled en i sn w t a mem d = Inl (e, d')" for sn w t a
    using that unfolding eval_stalled_def Let_def
    by (rule with_transition_stopped [OF ok]) (auto split: if_splits sum.splits)
  have recovered: "ended_early (ei_runId i) d d'" if "eval_recovered en i sn t d = Inl (e, d')" for sn t
    using that unfolding eval_recovered_def by (rule with_transition_stopped [OF ok]) (auto split: sum.splits)
  have repeated: "ended_early (ei_runId i) d d'" if "eval_repeated en i sn t fp as a d = Inl (e, d')" for sn t fp as a
    using that by (auto simp: eval_repeated_def split: if_splits sum.splits)
  have progress: "ended_early (ei_runId i) d d'" if "eval_progress en i sn t a d = Inl (e, d')" for sn t a
    using that by (auto simp: eval_progress_def ended_early_def dest: constraint_frames(3) split: if_splits sum.splits)
  have ready: "ended_early (ei_runId i) d d'"
    if "with_transition en (ei_runId i) sn g Verifying c d (\<lambda>p changed d'. Inr (r p changed, d')) = Inl (e, d')" for sn g c r
    by (rule with_transition_stopped [OF ok that]) simp_all
  have quiet: "ended_early (ei_runId i) d d'" if "eval_quiet en i sn w d = Inl (e, d')" for sn w
    using that unfolding eval_quiet_def Let_def by (auto split: if_splits dest: ready)
  have action: "ended_early (ei_runId i) d d'" if "eval_action en i sn w t as a d = Inl (e, d')" for sn w t as a
    using that by (auto simp: eval_action_def Let_def split: if_splits option.splits dest: recovered repeated progress quiet)
  have "ended_early (ei_runId i) d d'" if "eval_live en i sn mem d = Inl (e, d')" for sn
    using that unfolding eval_live_def Let_def by (auto split: if_splits dest: failed stalled action)
  then show ?thesis using assms(2) unfolding evaluate_def by (auto split: option.splits if_splits)
qed

lemma observe_moved:
  assumes "runs_ok (db_runs d)" and "observeVerificationResult sha en ev i mem d = Inr (r, d')"
  shows "moved (vf_runId i) r d d'"
proof -
  have "moved (vf_runId i) r d d'"
    if "engine_transition en (vf_runId i) (sn\<lparr>sn_phase := Verifying\<rparr>) Recovering d = Inr (ok, d')"
      "r = (if ok then (outcome (vf_runId i) Recovering None CHANGE_STRATEGY VERIFICATION_FAILED True)
                         \<lparr>er_targetPhase := Some Recovering, er_phaseChanged := True\<rparr>
            else blocked_by ''CAS transition conflict applying verification failure''
                   (outcome (vf_runId i) Verifying None BLOCK TRANSITION_CONFLICT False))" for ok sn
    using transitionPhase_Inr [OF assms(1) that(1) [unfolded engine_transition_def]] that(2)
    by (auto simp: moved_def moves_to_def)
  with assms(2) show ?thesis
    unfolding observeVerificationResult_def Let_def
    by (auto split: option.splits if_splits sum.splits prod.splits simp: moved_def)
qed

section \<open>Which stage gives which reason\<close>

lemma with_transition_cases:
  assumes "with_transition en rid sn guard target conflict d k = Inr (r, d')"
  obtains "r = conflict" | p changed d1 where "k p changed d1 = Inr (r, d')"
  using assms by (auto simp: with_transition_def split: if_splits sum.splits prod.splits)

lemma failed_reason:
  "eval_failed en i sn w d = Inr (r, d') \<Longrightarrow> er_reasonCode r \<in> {TRANSITION_CONFLICT, CHILD_FAILED, ASSIGNMENT_FAILED}"
  unfolding eval_failed_def Let_def by (erule with_transition_cases) (auto split: if_splits)

lemma stalled_reason:
  "eval_stalled en i sn w t a mem d = Inr (r, d') \<Longrightarrow> er_reasonCode r \<in> {TRANSITION_CONFLICT, STALL_DETECTED}"
  unfolding eval_stalled_def Let_def by (erule with_transition_cases) (auto split: if_splits sum.splits)

lemma recovered_reason:
  "eval_recovered en i sn t d = Inr (r, d') \<Longrightarrow> er_reasonCode r \<in> {TRANSITION_CONFLICT, RECOVERY_PROGRESS}"
  unfolding eval_recovered_def by (erule with_transition_cases) (auto split: sum.splits)

lemma repeated_reason:
  "eval_repeated en i sn t fp as a d = Inr (r, d')
     \<Longrightarrow> er_reasonCode r \<in> {TRANSIENT_RETRY_ALLOWED, REPEATED_ACTION_BLOCKED}"
  by (auto simp: eval_repeated_def split: if_splits sum.splits)

lemma progress_reason:
  "eval_progress en i sn t a d = Inr (r, d') \<Longrightarrow> er_reasonCode r \<in> {NO_PROGRESS, PROGRESS_CONFIRMED}"
  by (auto simp: eval_progress_def split: if_splits sum.splits)

lemma quiet_reason:
  assumes "eval_quiet en i sn w d = Inr (r, d')"
  shows "er_reasonCode r \<in> {BLOCKED, WAITING_FOR_CHILDREN, TRANSITION_CONFLICT, READY_FOR_VERIFICATION,
    NEXT_WORK_ITEM_READY, NO_PROGRESS}"
proof -
  have "er_reasonCode r \<in> {TRANSITION_CONFLICT, READY_FOR_VERIFICATION}"
    if "with_transition en rid sn g Verifying (blocked_by why (outcome rid p0 None BLOCK TRANSITION_CONFLICT False)) d
          (\<lambda>p changed d'. Inr ((outcome rid p None EXECUTE_CURRENT READY_FOR_VERIFICATION True)
                                 \<lparr>er_phaseChanged := changed\<rparr>, d')) = Inr (r, d')" for rid g why p0
    using that by (rule with_transition_cases) auto
  with assms show ?thesis unfolding eval_quiet_def Let_def by (fastforce split: if_splits)
qed

text \<open>The item in hand, its target, and its last attempt.\<close>

definition item_in_hand :: "snapshot \<Rightarrow> work_item option" where
  "item_in_hand sn = List.find (\<lambda>w. Some (w_id w) = sn_currentWorkItemId sn) (sn_workItems sn)"

definition hand_target :: "eval_input \<Rightarrow> snapshot \<Rightarrow> string" where
  "hand_target i sn = target_item i sn (item_in_hand sn)"

definition eval_fp :: "eval_input \<Rightarrow> attempt \<Rightarrow> string option" where
  "eval_fp i a = nullish_opt (ei_latestActionFingerprint i) (Some (at_actionFingerprint a))"

text \<open>The evaluation reaches stage 4 with the attempt \<open>a\<close> last in hand.\<close>

definition reaches_action ::
    "engine_env \<Rightarrow> eval_input \<Rightarrow> progress_mem \<Rightarrow> orch_db \<Rightarrow> snapshot \<Rightarrow> attempt \<Rightarrow> bool" where
  "reaches_action en i mem d sn a \<longleftrightarrow>
     getSnapshot (en_order en) (en_routing en) (ei_runId i) (ei_sessionId i) mem d = Some sn
     \<and> sn_phase sn \<notin> set terminal_phases
     \<and> filter (\<lambda>w. w_status w = ''failed'' \<and> w_isRequired w) (sn_workItems sn) = []
     \<and> cc_failedRequired (sn_childState sn) = 0
     \<and> \<not> pv_stalled (sn_progress sn)
     \<and> listAttempts (en_order en) (ei_runId i) (hand_target i sn) d \<noteq> []
     \<and> a = last (listAttempts (en_order en) (ei_runId i) (hand_target i sn) d)"

definition exhausted_now :: "engine_env \<Rightarrow> eval_input \<Rightarrow> progress_mem \<Rightarrow> orch_db \<Rightarrow> snapshot \<Rightarrow> bool" where
  "exhausted_now en i mem d sn \<longleftrightarrow>
     (case getActiveStrategyConstraints (ei_runId i) (hand_target i sn) d of
        None \<Rightarrow> False
      | Some c \<Rightarrow> cs_exhausted c \<and> cs_stateFingerprint c
          = computeStrategyStateFingerprint en (ei_runId i) (hand_target i sn) (Some sn) mem d)"

definition failed_work :: "snapshot \<Rightarrow> bool" where
  "failed_work sn \<longleftrightarrow>
     length (filter (\<lambda>w. w_status w = ''failed'' \<and> w_isRequired w) (sn_workItems sn)) > 0
     \<or> cc_failedRequired (sn_childState sn) > 0"

lemma eval_live_stages:
  "eval_live en i sn mem d =
    (let as = listAttempts (en_order en) (ei_runId i) (hand_target i sn) d;
         la = (if as = [] then None else Some (last as))
     in if failed_work sn then eval_failed en i sn (map_option w_id (item_in_hand sn)) d
        else if exhausted_now en i mem d sn
        then Inr (blocked_by ''Strategy search exhausted under unchanged meaningful state''
                    (outcome (ei_runId i) (sn_phase sn) (Some (hand_target i sn)) BLOCK STRATEGY_SET_EXHAUSTED False), d)
        else if pv_stalled (sn_progress sn)
        then eval_stalled en i sn (map_option w_id (item_in_hand sn)) (hand_target i sn) la mem d
        else eval_action en i sn (item_in_hand sn) (hand_target i sn) as la d)"
  unfolding eval_live_def Let_def failed_work_def exhausted_now_def hand_target_def item_in_hand_def
  by (rule refl)

lemma reaches_action_iff:
  "reaches_action en i mem d sn a \<longleftrightarrow>
     getSnapshot (en_order en) (en_routing en) (ei_runId i) (ei_sessionId i) mem d = Some sn
     \<and> sn_phase sn \<notin> set terminal_phases \<and> \<not> failed_work sn \<and> \<not> pv_stalled (sn_progress sn)
     \<and> listAttempts (en_order en) (ei_runId i) (hand_target i sn) d \<noteq> []
     \<and> a = last (listAttempts (en_order en) (ei_runId i) (hand_target i sn) d)"
  by (simp add: reaches_action_def failed_work_def)

lemma evaluate_action:
  assumes "reaches_action en i mem d sn a" and "\<not> exhausted_now en i mem d sn"
  shows "evaluate en i mem d =
    eval_action en i sn (item_in_hand sn) (hand_target i sn)
      (listAttempts (en_order en) (ei_runId i) (hand_target i sn) d) (Some a) d"
  using assms
  by (simp add: evaluate_def eval_live_stages reaches_action_iff Let_def del: terminal_phases_iff)

lemma action_reached:
  assumes "evaluate en i mem d = Inr (r, d')"
    and reason: "er_reasonCode r \<in> {PROGRESS_CONFIRMED, TRANSIENT_RETRY_ALLOWED, REPEATED_ACTION_BLOCKED}"
  obtains sn a where "reaches_action en i mem d sn a" "\<not> exhausted_now en i mem d sn"
proof -
  have "getSnapshot (en_order en) (en_routing en) (ei_runId i) (ei_sessionId i) mem d \<noteq> None"
    using assms by (intro notI) (auto simp: evaluate_def)
  then obtain sn where sn:
      "getSnapshot (en_order en) (en_routing en) (ei_runId i) (ei_sessionId i) mem d = Some sn" by blast
  have phase: "sn_phase sn \<notin> set terminal_phases"
    using assms sn by (auto simp: evaluate_def simp del: terminal_phases_iff split: if_splits)
  with assms sn have live: "eval_live en i sn mem d = Inr (r, d')"
    by (simp add: evaluate_def del: terminal_phases_iff)
  let ?as = "listAttempts (en_order en) (ei_runId i) (hand_target i sn) d"
  have f: "\<not> failed_work sn"
    using live reason by (auto simp: eval_live_stages Let_def dest!: failed_reason)
  have x: "\<not> exhausted_now en i mem d sn"
    using live reason f by (auto simp: eval_live_stages Let_def)
  have st: "\<not> pv_stalled (sn_progress sn)"
    using live reason f x by (auto simp: eval_live_stages Let_def dest!: stalled_reason)
  have act: "eval_action en i sn (item_in_hand sn) (hand_target i sn) ?as (if ?as = [] then None else Some (last ?as)) d
      = Inr (r, d')" using live f x st by (simp add: eval_live_stages Let_def)
  have "?as \<noteq> []"
  proof
    assume none: "?as = []"
    show False using act reason
      by (auto simp: none eval_action_def Let_def split: if_splits dest!: recovered_reason quiet_reason)
  qed
  with sn phase f x st that [of sn "last ?as"] show ?thesis by (simp add: reaches_action_iff)
qed

end
