(* ===== verification/Engine_Laws.thy ===== *)
theory Engine_Laws
  imports Engine
begin

text \<open>
  What the transition engine promises: which phase changes it makes, who wins a race, what a
  terminal run keeps, when an action may be tried again, and that progress is confirmed once.
\<close>

section \<open>Steps of the engine\<close>

text \<open>
  The calls that reach the tables: a phase change with any input, an evaluation, one that an error
  ends after some of its writes, a verification result, and the writers of attempts and constraints. The bound policy is the one of \<open>en\<close>.
\<close>

inductive engine_step :: "(string \<Rightarrow> string) \<Rightarrow> engine_env \<Rightarrow> orch_db \<Rightarrow> orch_db \<Rightarrow> bool" for sha en where
  transition: "transitionPhase (en_policy en) i d = Inr (ok, d') \<Longrightarrow> engine_step sha en d d'"
| evaluation: "evaluate en e mem d = Inr (r, d') \<Longrightarrow> engine_step sha en d d'"
| failed_evaluation: "evaluate en e mem d = Inl (err, d') \<Longrightarrow> engine_step sha en d d'"
| observation: "observeVerificationResult sha en ev v mem d = Inr (r, d') \<Longrightarrow> engine_step sha en d d'"
| attempt_write: "engine_inv d \<Longrightarrow> engine_step sha en d (attempt_exec (en_order en) x d)"

inductive_cases engine_stepE: "engine_step sha en d d'"

text \<open>The rows of runs after a step: the same, or one run moved legally.\<close>

definition steps_runs :: "orch_db \<Rightarrow> orch_db \<Rightarrow> bool" where
  "steps_runs d d' \<longleftrightarrow> db_runs d' = db_runs d \<or> (\<exists>rid q sha. moves_to rid q sha d d')"

lemma moved_steps: "moved rid r d d' \<Longrightarrow> steps_runs d d'"
  by (auto simp: moved_def steps_runs_def split: if_splits)

lemma engine_step_runs:
  assumes "runs_ok (db_runs d)" and "engine_step sha en d d'"
  shows "steps_runs d d'"
  using assms(2)
proof (cases rule: engine_step.cases)
  case (transition i ok)
  from transitionPhase_Inr [OF assms(1) this] show ?thesis
    by (cases ok) (auto simp: steps_runs_def)
next
  case (evaluation e mem r)
  from evaluate_moved [OF assms(1) this] show ?thesis by (rule moved_steps)
next
  case (failed_evaluation e mem err)
  from evaluate_stopped [OF assms(1) this] show ?thesis by (auto simp: ended_early_def steps_runs_def)
next
  case (observation ev v mem r)
  from observe_moved [OF assms(1) this] show ?thesis by (rule moved_steps)
next
  case (attempt_write x)
  with attempt_exec_grows [of d] show ?thesis by (simp add: steps_runs_def grows_def)
qed

lemma steps_runs_ok: "steps_runs d d' \<Longrightarrow> runs_ok (db_runs d') = runs_ok (db_runs d)"
  by (auto simp: steps_runs_def moves_to_def)

lemma steps_runs_row:
  assumes "steps_runs d d'" and "findById (db_runs d) rid = Some r"
  obtains r' where "findById (db_runs d') rid = Some r'"
    "r' = r \<or> row_state r \<notin> set terminal_phases \<and> isValidPhaseTransition (row_state r) (row_state r')
       \<and> row_aggregateVersion r' = row_aggregateVersion r + 1"
proof -
  consider "db_runs d' = db_runs d" | rid0 q s where "moves_to rid0 q s d d'"
    using assms(1) by (auto simp: steps_runs_def)
  then show ?thesis
  proof cases
    case 1
    with assms(2) that show ?thesis by simp
  next
    case 2
    show ?thesis
    proof (cases "rid = rid0")
      case True
      with 2 assms(2) that [of "advance_row q s r"] show ?thesis
        by (auto simp: moves_to_def findById_advance simp del: terminal_phases_iff)
    next
      case False
      with 2 assms(2) that [of r] show ?thesis by (auto simp: moves_to_def findById_advance)
    qed
  qed
qed

section \<open>Phase changes\<close>

text \<open>C13. A phase change is made exactly when the row of the run is in the expected phase at the
  expected version, that phase is not terminal, the table of transitions admits the move and, for
  a move to completed, the caller shows the completion policy bound to the engine. It then changes
  that row only, to the target phase and the next version; a refused change changes nothing.\<close>

theorem transition_decided:
  assumes "runs_ok (db_runs d)"
  obtains ok d' where "transitionPhase bound i d = Inr (ok, d')"
    "ok \<longleftrightarrow> (\<exists>r. findById (db_runs d) (cas_runId i) = Some r \<and> row_state r = cas_expectedPhase i
            \<and> row_aggregateVersion r = cas_expectedAggregateVersion i)
        \<and> cas_expectedPhase i \<notin> set terminal_phases
        \<and> isValidPhaseTransition (cas_expectedPhase i) (cas_targetPhase i)
        \<and> (cas_targetPhase i \<noteq> Completed \<or> bound \<noteq> None \<and> cas_completionPolicy i = bound)"
    "\<And>rid. findById (db_runs d') rid =
        (if ok \<and> rid = cas_runId i
         then map_option (advance_row (cas_targetPhase i) (cas_sha i)) (findById (db_runs d) rid)
         else findById (db_runs d) rid)"
    "d' = d\<lparr>db_runs := db_runs d'\<rparr>"
proof -
  obtain ok d' where t: "transitionPhase bound i d = Inr (ok, d')"
    using transitionPhase_total [OF assms] by blast
  have "ok \<longleftrightarrow> (\<exists>r. findById (db_runs d) (cas_runId i) = Some r \<and> row_state r = cas_expectedPhase i
            \<and> row_aggregateVersion r = cas_expectedAggregateVersion i)
        \<and> cas_expectedPhase i \<notin> set terminal_phases
        \<and> isValidPhaseTransition (cas_expectedPhase i) (cas_targetPhase i)
        \<and> (cas_targetPhase i \<noteq> Completed \<or> bound \<noteq> None \<and> cas_completionPolicy i = bound)"
    using t assms
    by (auto simp: transitionPhase_def transitionPhaseCas_eq split: if_splits option.splits)
  moreover have "findById (db_runs d') rid =
        (if ok \<and> rid = cas_runId i
         then map_option (advance_row (cas_targetPhase i) (cas_sha i)) (findById (db_runs d) rid)
         else findById (db_runs d) rid)" for rid
    using transitionPhase_Inr [OF assms t]
    by (cases ok) (auto simp: moves_to_def findById_advance option.map_ident)
  moreover have "d' = d\<lparr>db_runs := db_runs d'\<rparr>"
    using t assms by (auto simp: transitionPhase_def transitionPhaseCas_eq split: if_splits option.splits)
  ultimately show ?thesis using t that by blast
qed

theorem transition_decided_witness:
  "\<exists>d'. transitionPhase (Some 7)
      \<lparr>cas_runId = ''r'', cas_targetPhase = Completed, cas_expectedPhase = Verifying,
       cas_expectedAggregateVersion = 3, cas_authority = Some AuRunService,
       cas_completionPolicy = Some 7, cas_sha = None\<rparr> (demo_db Verifying 3) = Inr (True, d')
    \<and> map_option row_state (findById (db_runs d') ''r'') = Some Completed"
proof -
  have "runs_ok (db_runs (demo_db Verifying 3))" by (simp add: runs_ok_def demo_db_def)
  then show ?thesis
    by (rule transition_decided [of _ "Some 7" "\<lparr>cas_runId = ''r'', cas_targetPhase = Completed,
          cas_expectedPhase = Verifying, cas_expectedAggregateVersion = 3,
          cas_authority = Some AuRunService, cas_completionPolicy = Some 7, cas_sha = None\<rparr>"])
      (auto simp: demo_db_def demo_row_def findById_def isValidPhaseTransition_def advance_row_def Let_def)
qed

text \<open>Of the phase changes that name one version of a run at most one is made: once it has been
  made, and whatever phase changes of any runs follow, every other one that names that version is
  refused.\<close>

theorem phase_change_one_winner:
  assumes "attempt_phase rows rid v x = Some rows'"
  shows "attempt_phase (phase_cas.tried.run rows' xs) rid v y = None"
  using assms by (rule phase_cas.one_winner)

theorem phase_change_one_winner_witness:
  "attempt_phase (phase_cas.tried.run
      (map (\<lambda>x. if row_runId x = ''r'' then advance_row Verifying None x else x) [demo_row Executing 1])
      [(''r'', 2, (Verifying, Executing, None))]) ''r'' 1 (Executing, Recovering, None) = None"
  by (rule phase_change_one_winner [of "[demo_row Executing 1]" _ _ "(Executing, Verifying, None)"])
    (simp add: attempt_phase_Some runs_ok_def demo_row_def findById_def)

text \<open>C16. An evaluation either leaves every run as it is, or reports a phase change and has made
  exactly that one: of the evaluated run only, from a phase that is not terminal, along the table
  of transitions, to the next version, and never to completed.\<close>

theorem evaluation_moves_legally:
  assumes "runs_ok (db_runs d)" and "evaluate en i mem d = Inr (e, d')"
    and "findById (db_runs d) rid = Some r"
  obtains r' where "findById (db_runs d') rid = Some r'"
    "if er_phaseChanged e \<and> rid = ei_runId i
     then row_state r \<notin> set terminal_phases \<and> isValidPhaseTransition (row_state r) (row_state r')
       \<and> row_state r' = er_currentPhase e \<and> row_state r' \<noteq> Completed
       \<and> row_aggregateVersion r' = row_aggregateVersion r + 1
     else r' = r"
  using evaluate_moved [OF assms(1,2)] assms(3) that
  by (cases "er_phaseChanged e \<and> rid = ei_runId i")
    (auto simp: moved_def moves_to_def findById_advance simp del: terminal_phases_iff split: if_splits)

text \<open>C15. A run in a terminal phase keeps its row, version included, through every sequence of
  engine calls; a run that is not there yet moves along the table of transitions and its version
  never goes down.\<close>

theorem terminal_run_kept:
  assumes "(engine_step sha en)\<^sup>*\<^sup>* d d'" and "runs_ok (db_runs d)"
    and "findById (db_runs d) rid = Some r"
  obtains r' where "findById (db_runs d') rid = Some r'"
    "row_state r \<in> set terminal_phases \<Longrightarrow> r' = r"
    "row_aggregateVersion r \<le> row_aggregateVersion r'"
    "isValidPhaseTransition\<^sup>*\<^sup>* (row_state r) (row_state r')"
proof -
  have "\<exists>r'. runs_ok (db_runs d') \<and> findById (db_runs d') rid = Some r'
      \<and> (row_state r \<in> set terminal_phases \<longrightarrow> r' = r)
      \<and> row_aggregateVersion r \<le> row_aggregateVersion r'
      \<and> isValidPhaseTransition\<^sup>*\<^sup>* (row_state r) (row_state r')"
    using assms(1)
  proof (induction rule: rtranclp_induct)
    case base
    with assms show ?case by simp
  next
    case (step d1 d2)
    then obtain r1 where r1: "runs_ok (db_runs d1)" "findById (db_runs d1) rid = Some r1"
      "row_state r \<in> set terminal_phases \<longrightarrow> r1 = r"
      "row_aggregateVersion r \<le> row_aggregateVersion r1"
      "isValidPhaseTransition\<^sup>*\<^sup>* (row_state r) (row_state r1)" by blast
    have s: "steps_runs d1 d2" using r1(1) step.hyps(2) by (rule engine_step_runs)
    from s r1(2) obtain r2 where r2: "findById (db_runs d2) rid = Some r2"
      "r2 = r1 \<or> row_state r1 \<notin> set terminal_phases \<and> isValidPhaseTransition (row_state r1) (row_state r2)
         \<and> row_aggregateVersion r2 = row_aggregateVersion r1 + 1" by (rule steps_runs_row)
    with r1 steps_runs_ok [OF s] show ?case
      by (intro exI [of _ r2]) (auto intro: rtranclp.rtrancl_into_rtrancl simp del: terminal_phases_iff)
  qed
  with that show ?thesis by blast
qed


text \<open>C14. The only engine call that can complete a run is a phase change shown the completion policy
  that is bound to the engine, from executing or verifying: no evaluation, verification result or
  attempt ever does, and an engine without a policy completes nothing.\<close>

theorem completion_needs_policy:
  assumes "engine_step sha en d d'" and "runs_ok (db_runs d)"
    and "findById (db_runs d) rid = Some r" and "row_state r \<noteq> Completed"
    and "findById (db_runs d') rid = Some r'" and "row_state r' = Completed"
  shows "\<exists>i. transitionPhase (en_policy en) i d = Inr (True, d') \<and> cas_runId i = rid
      \<and> en_policy en \<noteq> None \<and> cas_completionPolicy i = en_policy en
      \<and> row_state r \<in> {Executing, Verifying}"
  using assms(1)
proof (cases rule: engine_step.cases)
  case (transition i ok)
  note step = transitionPhase_Inr [OF assms(2) transition]
  show ?thesis
  proof (cases ok)
    case True
    with step assms(3-6) have to: "cas_runId i = rid" "cas_targetPhase i = Completed"
      "isValidPhaseTransition (row_state r) Completed"
      by (auto simp: moves_to_def findById_advance split: if_splits)
    from to(3) assms(4) have "row_state r \<in> {Executing, Verifying}"
      by (cases "row_state r") (auto simp: isValidPhaseTransition_def)
    with True to step transition show ?thesis by auto
  next
    case False
    with step assms(3-6) show ?thesis by auto
  qed
next
  case (evaluation e mem x)
  from evaluate_moved [OF assms(2) this] assms(3-6) have False
    by (auto simp: moved_def moves_to_def findById_advance split: if_splits)
  then show ?thesis ..
next
  case (failed_evaluation e mem err)
  from evaluate_stopped [OF assms(2) this] assms(3-6) have False
    by (auto simp: ended_early_def moves_to_def findById_advance split: if_splits)
  then show ?thesis ..
next
  case (observation ev v mem x)
  from observe_moved [OF assms(2) this] assms(3-6) have False
    by (auto simp: moved_def moves_to_def findById_advance split: if_splits)
  then show ?thesis ..
next
  case (attempt_write x)
  with attempt_exec_grows [of d "en_order en" x] assms(3-6) have False by (simp add: grows_def)
  then show ?thesis ..
qed

section \<open>Retries and constraints\<close>

lemma next_constraint_covers:
  "in_prohibited i \<in> set (cs_prohibited (next_constraint_set now i e)) \<or> cs_exhausted (next_constraint_set now i e)"
  by (cases e) (auto simp: next_constraint_set_def Let_def)

definition fails_again :: "eval_input \<Rightarrow> snapshot \<Rightarrow> attempt \<Rightarrow> string \<Rightarrow> bool" where
  "fails_again i sn a f \<longleftrightarrow>
     eval_fp i a = Some f \<and> f \<noteq> [] \<and> at_actionFingerprint a = f \<and> \<not> at_progressProduced a
     \<and> pv_lastRepositoryDelta (sn_progress sn) \<le> 0"

text \<open>C38. When the last attempt made no progress and the action in hand is the same again, it may be
  retried only for a transient error and only while at most two attempts of that action are
  recorded as transient; the tables then stay as they are. Otherwise the action is prohibited and
  the constraint is stored: the active set contains it or the search is exhausted.\<close>

theorem repeated_action_decided:
  assumes "reaches_action en i mem d sn a" and "\<not> exhausted_now en i mem d sn"
    and "fails_again i sn a f" and "evaluate en i mem d = Inr (e, d')"
  shows "if (isTransientError (ei_latestError i) \<or> at_isTransientError a = Some True)
          \<and> length (filter (\<lambda>b. at_actionFingerprint b = f \<and> at_isTransientError b = Some True)
              (listAttempts (en_order en) (ei_runId i) (hand_target i sn) d)) \<le> 2
       then er_reasonCode e = TRANSIENT_RETRY_ALLOWED \<and> er_strategyDecision e = RETRY_SAME_STRATEGY \<and> d' = d
       else er_reasonCode e = REPEATED_ACTION_BLOCKED \<and> er_prohibitedActionFingerprint e = Some f
         \<and> (\<exists>c. getActiveStrategyConstraints (ei_runId i) (hand_target i sn) d' = Some c
              \<and> (f \<in> set (cs_prohibited c) \<or> cs_exhausted c))"
proof -
  let ?as = "listAttempts (en_order en) (ei_runId i) (hand_target i sn) d"
  have allowed: "retry_allowed i f ?as a \<longleftrightarrow>
      (isTransientError (ei_latestError i) \<or> at_isTransientError a = Some True)
      \<and> length (filter (\<lambda>b. at_actionFingerprint b = f \<and> at_isTransientError b = Some True) ?as) \<le> 2"
    by (cases "ei_latestError i")
      (auto simp: retry_allowed_def isTransientError_def conj_commute)
  have "eval_repeated en i sn (hand_target i sn) f ?as a d = Inr (e, d')"
    using assms(4) assms(3) evaluate_action [OF assms(1,2)]
    by (auto simp: eval_action_def Let_def fails_again_def eval_fp_def nullish_opt_def split: option.splits)
  then have rep: "eval_repeated en i sn (hand_target i sn) f ?as a d = Inr (e, d')" .
  have blocked: "er_reasonCode e = REPEATED_ACTION_BLOCKED \<and> er_prohibitedActionFingerprint e = Some f
      \<and> (\<exists>c. getActiveStrategyConstraints (ei_runId i) (hand_target i sn) d' = Some c
           \<and> (f \<in> set (cs_prohibited c) \<or> cs_exhausted c))" if "\<not> retry_allowed i f ?as a"
  proof -
    let ?ci = "\<lparr>in_runId = ei_runId i, in_assignmentId = hand_target i sn, in_prohibited = f,
      in_stateFingerprint = at_preStateFingerprint a, in_reason = ''REPEATED_ACTION_BLOCKED'',
      in_createdAt = Some (en_now en)\<rparr>"
    from rep that have "saveStrategyConstraint (en_now en) ?ci d = Inr d'"
        "er_reasonCode e = REPEATED_ACTION_BLOCKED \<and> er_prohibitedActionFingerprint e = Some f"
      by (auto simp: eval_repeated_def outcome_def split: sum.splits)
    with save_active [OF this(1)] next_constraint_covers [of ?ci] show ?thesis by auto
  qed
  from rep show ?thesis
    unfolding allowed [symmetric]
    using blocked by (cases "retry_allowed i f ?as a") (auto simp: eval_repeated_def outcome_def)
qed

section \<open>Progress\<close>

text \<open>Writes of constraints and consumed attempts leave the attempts, the children and the
  snapshot as they were.\<close>

lemma upsert_filter:
  assumes "meta_upsert i rid k v now d = Inr d'" and "\<not> P rid k"
  shows "filter (\<lambda>r. P (m_runId r) (m_key r)) (db_meta d') = filter (\<lambda>r. P (m_runId r) (m_key r)) (db_meta d)"
proof -
  have "filter (\<lambda>r. P (m_runId r) (m_key r)) (map (\<lambda>r. if m_runId r = rid \<and> m_key r = k then r\<lparr>m_value := v\<rparr> else r) rows)
      = filter (\<lambda>r. P (m_runId r) (m_key r)) rows" for rows :: "meta_row list"
    using assms(2) by (induction rows) auto
  with assms show ?thesis
    by (auto simp: meta_upsert_def meta_insert_def split: if_splits)
qed

definition quiet_write :: "orch_db \<Rightarrow> orch_db \<Rightarrow> bool" where
  "quiet_write d d' \<longleftrightarrow>
     db_runs d' = db_runs d \<and> db_calls d' = db_calls d \<and> db_assignments d' = db_assignments d
     \<and> db_results d' = db_results d \<and> db_deferred d' = db_deferred d \<and> db_sessions d' = db_sessions d
     \<and> (\<forall>P. (\<forall>r a. \<not> P r (constraint_key r a) \<and> \<not> P r (consumed_key r a)) \<longrightarrow>
          filter (\<lambda>r. P (m_runId r) (m_key r)) (db_meta d') = filter (\<lambda>r. P (m_runId r) (m_key r)) (db_meta d))"

lemma quiet_write_refl: "quiet_write d d"
  by (simp add: quiet_write_def)

lemma quiet_write_trans: "quiet_write d d' \<Longrightarrow> quiet_write d' d'' \<Longrightarrow> quiet_write d d''"
  unfolding quiet_write_def by (elim conjE) (intro conjI allI impI, simp_all)

lemma upsert_quiet:
  assumes "meta_upsert i rid k v now d = Inr d'" and "k = constraint_key rid a \<or> k = consumed_key rid a"
  shows "quiet_write d d'"
proof -
  have "filter (\<lambda>r. P (m_runId r) (m_key r)) (db_meta d') = filter (\<lambda>r. P (m_runId r) (m_key r)) (db_meta d)"
    if "\<forall>r a. \<not> P r (constraint_key r a) \<and> \<not> P r (consumed_key r a)" for P
    by (rule upsert_filter [OF assms(1)]) (use assms(2) that in auto)
  with meta_upsert_frame [OF assms(1)] show ?thesis by (simp add: quiet_write_def)
qed

lemma mark_quiet: "markConsumedProgressAttempt now rid aid n d = Inr d' \<Longrightarrow> quiet_write d d'"
  unfolding markConsumedProgressAttempt_def by (erule upsert_quiet [where a = aid]) simp

lemma clear_quiet: "clearStrategyConstraint now rid aid d = Inr d' \<Longrightarrow> quiet_write d d'"
  unfolding clearStrategyConstraint_def
  by (auto split: option.splits simp: quiet_write_refl elim: upsert_quiet [where a = aid])

lemma attempt_pattern_other:
  "\<not> sql_like (''attempt:'' @ x) (constraint_key r a)" "\<not> sql_like (''attempt:'' @ x) (consumed_key r a)"
  "\<not> sql_like (''child_exec:'' @ x) (constraint_key r a)" "\<not> sql_like (''child_exec:'' @ x) (consumed_key r a)"
  by (simp_all add: constraint_key_def consumed_key_def to_lower_def is_upper_def char_code_def)

lemma quiet_lists:
  assumes "quiet_write d d'"
  shows "listAttempts q rid aid d' = listAttempts q rid aid d"
    "attempt_rows q rid d' = attempt_rows q rid d" "child_listAll q x d' = child_listAll q x d"
proof -
  have keep: "filter (\<lambda>r. P (m_runId r) (m_key r)) (db_meta d') = filter (\<lambda>r. P (m_runId r) (m_key r)) (db_meta d)"
    if "\<And>r a. \<not> P r (constraint_key r a) \<and> \<not> P r (consumed_key r a)" for P
    using assms that by (simp add: quiet_write_def)
  have "filter (\<lambda>r. m_runId r = rid \<and> sql_like (''attempt:'' @ rid @ '':'' @ aid @ '':%'') (m_key r)) (db_meta d')
      = filter (\<lambda>r. m_runId r = rid \<and> sql_like (''attempt:'' @ rid @ '':'' @ aid @ '':%'') (m_key r)) (db_meta d)"
    by (rule keep) (simp only: attempt_pattern_other simp_thms)
  then show "listAttempts q rid aid d' = listAttempts q rid aid d" by (simp only: listAttempts_def)
  have "filter (\<lambda>r. m_runId r = rid \<and> sql_like (''attempt:'' @ ''%'') (m_key r)) (db_meta d')
      = filter (\<lambda>r. m_runId r = rid \<and> sql_like (''attempt:'' @ ''%'') (m_key r)) (db_meta d)"
    by (rule keep) (simp only: attempt_pattern_other simp_thms)
  then show "attempt_rows q rid d' = attempt_rows q rid d" by (simp only: attempt_rows_def append.simps)
  have "filter (\<lambda>r. (truthy x \<longrightarrow> Some (m_runId r) = x) \<and> sql_like (''child_exec:'' @ ''%'') (m_key r)) (db_meta d')
      = filter (\<lambda>r. (truthy x \<longrightarrow> Some (m_runId r) = x) \<and> sql_like (''child_exec:'' @ ''%'') (m_key r)) (db_meta d)"
    by (rule keep) (simp only: attempt_pattern_other simp_thms)
  then show "child_listAll q x d' = child_listAll q x d" by (simp only: child_listAll_def append.simps)
qed

lemma quiet_snapshot:
  assumes "quiet_write d d'"
  shows "getSnapshot q rv rid sid mem d' = getSnapshot q rv rid sid mem d"
proof -
  have rows: "assignment_rows rid d' = assignment_rows rid d"
    using assms by (simp add: quiet_write_def assignment_rows_def)
  have "work_item_of q rid d' = work_item_of q rid d"
    using assms
    by (intro ext)
      (simp add: quiet_write_def work_item_of_def attempts_of_def quiet_lists [OF assms] evidence_of_def
        run_results_def rows)
  with assms rows show ?thesis
    by (cases "findById (db_runs d) rid") (simp_all add: quiet_write_def getSnapshot_def Let_def quiet_lists [OF assms] resolve_session_def
        unresolved_deferred_def)
qed

lemma clear_clears:
  "clearStrategyConstraint now rid aid d = Inr d' \<Longrightarrow> getActiveStrategyConstraints rid aid d' = None"
  by (auto simp: clearStrategyConstraint_def getActive_val meta_upsert_val split: option.splits meta_value.splits)

lemma getConsumed_val:
  "getConsumedProgressAttempt rid aid d =
     (case meta_val d (rid, consumed_key rid aid) of
        Some (MConsumed n at) \<Rightarrow> Some n | Some (MAttempt a) \<Rightarrow> Some (at_attemptNumber a) | _ \<Rightarrow> None)"
  by (auto simp: getConsumedProgressAttempt_def meta_val_def split: option.split meta_value.split)

lemma consumed_not_constraint [simp]: "consumed_key r a \<noteq> constraint_key r' a'"
  by (simp add: consumed_key_def constraint_key_def)

lemma clear_keeps_consumed:
  "clearStrategyConstraint now rid aid d = Inr d' \<Longrightarrow>
     getConsumedProgressAttempt rid aid d' = getConsumedProgressAttempt rid aid d"
  by (auto simp: clearStrategyConstraint_def getConsumed_val meta_upsert_val split: option.splits)

lemma mark_marks:
  "markConsumedProgressAttempt now rid aid n d = Inr d' \<Longrightarrow> getConsumedProgressAttempt rid aid d' = Some n"
  by (simp add: markConsumedProgressAttempt_def getConsumed_val meta_upsert_val)

text \<open>Progress is confirmed once: after an evaluation that confirms the progress of the last
  attempt the item has no active constraint, and evaluating the same state again, at any time,
  answers that there is no new progress and nothing to do, and writes nothing.\<close>

theorem progress_confirmed_once:
  assumes "evaluate en i mem d = Inr (e, d')" and "er_reasonCode e = PROGRESS_CONFIRMED"
  obtains sn e' where
    "getSnapshot (en_order en) (en_routing en) (ei_runId i) (ei_sessionId i) mem d = Some sn"
    "getActiveStrategyConstraints (ei_runId i) (hand_target i sn) d' = None"
    "evaluate (en\<lparr>en_now := now\<rparr>) i mem d' = Inr (e', d')"
    "er_reasonCode e' = NO_PROGRESS" "\<not> er_requiresAction e'"
proof -
  obtain sn a where at: "reaches_action en i mem d sn a" "\<not> exhausted_now en i mem d sn"
    using action_reached [OF assms(1)] assms(2) by auto
  let ?t = "hand_target i sn" and ?rid = "ei_runId i"
  let ?as = "listAttempts (en_order en) ?rid ?t d" and ?fp = "eval_fp i a"
  let ?change = "pv_lastRepositoryDelta (sn_progress sn) > 0"
  have act: "eval_action en i sn (item_in_hand sn) ?t ?as (Some a) d = Inr (e, d')"
    using assms(1) evaluate_action [OF at] by simp
  have not: "\<not> (sn_phase sn = Recovering \<and> (?change \<or> at_progressProduced a))"
    using act assms(2) by (auto simp: eval_action_def Let_def dest!: recovered_reason)
  have notrep: "\<not> (truthy ?fp \<and> at_actionFingerprint a = the ?fp \<and> \<not> at_progressProduced a \<and> \<not> ?change)"
    using act assms(2) not by (auto simp: eval_action_def Let_def eval_fp_def split: if_splits dest!: repeated_reason)
  have prog: "truthy ?fp \<and> (at_progressProduced a \<or> ?change)"
    using act assms(2) not notrep
    by (auto simp: eval_action_def Let_def eval_fp_def dest!: quiet_reason split: if_splits)
  have "eval_progress en i sn ?t a d = Inr (e, d')"
    using act not prog by (auto simp: eval_action_def Let_def eval_fp_def split: if_splits)
  then obtain d1 where w: "markConsumedProgressAttempt (en_now en) ?rid ?t (at_attemptNumber a) d = Inr d1"
      "clearStrategyConstraint (en_now en) ?rid ?t d1 = Inr d'"
    using assms(2) by (auto simp: eval_progress_def split: if_splits sum.splits)
  have quiet: "quiet_write d d'"
    using mark_quiet [OF w(1)] clear_quiet [OF w(2)] by (rule quiet_write_trans)
  have none: "getActiveStrategyConstraints ?rid ?t d' = None" using w(2) by (rule clear_clears)
  have seen: "getConsumedProgressAttempt ?rid ?t d' = Some (at_attemptNumber a)"
    using mark_marks [OF w(1)] clear_keeps_consumed [OF w(2)] by simp
  let ?en = "en\<lparr>en_now := now\<rparr>"
  have "reaches_action ?en i mem d' sn a"
    using at(1) by (simp add: reaches_action_iff quiet_snapshot [OF quiet] quiet_lists [OF quiet])
  moreover have "\<not> exhausted_now ?en i mem d' sn" by (simp add: exhausted_now_def none)
  ultimately have "evaluate ?en i mem d'
      = eval_action ?en i sn (item_in_hand sn) ?t (listAttempts (en_order ?en) ?rid ?t d') (Some a) d'"
    by (rule evaluate_action)
  also have "\<dots> = eval_progress ?en i sn ?t a d'"
    using not prog by (auto simp: eval_action_def Let_def eval_fp_def)
  also have "\<dots> = Inr (outcome ?rid (sn_phase sn) (Some ?t) EXECUTE_CURRENT NO_PROGRESS False, d')"
    by (simp add: eval_progress_def seen)
  finally show ?thesis
    using that at(1) none by (simp add: reaches_action_def)
qed

section \<open>Verification results\<close>

lemma engine_transition_ok:
  assumes "runs_ok (db_runs d)" and "findById (db_runs d) rid = Some r" and "row_state r = sn_phase sn"
    and "row_aggregateVersion r = sn_aggregateVersion sn" and "sn_phase sn \<notin> set terminal_phases"
    and "isValidPhaseTransition (sn_phase sn) q" and "q \<noteq> Completed"
  shows "engine_transition en rid sn q d
    = Inr (True, d\<lparr>db_runs := map (\<lambda>x. if row_runId x = rid then advance_row q None x else x) (db_runs d)\<rparr>)"
  using assms by (simp add: engine_transition_def transitionPhase_def transitionPhaseCas_eq [OF assms(1)]
      del: terminal_phases_iff)

text \<open>A verification result counts only for the state it was made for: unless the run is
  verifying at the version and fingerprint that the result names, nothing changes and the result is
  reported as stale or its run as gone. A current passed result changes nothing either; a current
  failed one moves the run, and no other, to recovering.\<close>

theorem verification_result_applied:
  assumes "runs_ok (db_runs d)"
    and "observeVerificationResult sha en ev v mem d = Inr (e, d')"
  shows "(\<exists>r. findById (db_runs d) (vf_runId v) = Some r \<and> row_state r = Verifying
        \<and> row_aggregateVersion r = vf_stateVersion v
        \<and> computeStateFingerprint sha (en_order en) (en_routing en) ev (vf_runId v) None mem d
            = Some (vf_stateFingerprint v)
        \<and> (if vf_status v = VsPassed then er_reasonCode e = VERIFICATION_PASSED \<and> d' = d
           else er_reasonCode e = VERIFICATION_FAILED
             \<and> d' = d\<lparr>db_runs := map (\<lambda>x. if row_runId x = vf_runId v then advance_row Recovering None x else x)
                                   (db_runs d)\<rparr>))
     \<or> er_reasonCode e \<in> {VERIFICATION_STALE, BLOCKED} \<and> d' = d
        \<and> er_strategyDecision e = BLOCK \<and> \<not> er_requiresAction e"
proof (cases "getSnapshot (en_order en) (en_routing en) (vf_runId v) None mem d")
  case None
  with assms(2) show ?thesis by (auto simp: observeVerificationResult_def)
next
  case (Some sn)
  then obtain r where r: "findById (db_runs d) (vf_runId v) = Some r"
      "sn_phase sn = row_state r" "sn_aggregateVersion sn = row_aggregateVersion r"
    by (auto simp: getSnapshot_def Let_def split: option.splits)
  consider "row_state r \<in> set terminal_phases"
    | "row_state r \<notin> set terminal_phases" "row_state r \<noteq> Verifying \<or> row_aggregateVersion r \<noteq> vf_stateVersion v
         \<or> computeStateFingerprint sha (en_order en) (en_routing en) ev (vf_runId v) None mem d
             \<noteq> Some (vf_stateFingerprint v)"
    | "row_state r = Verifying" "row_aggregateVersion r = vf_stateVersion v"
         "computeStateFingerprint sha (en_order en) (en_routing en) ev (vf_runId v) None mem d
             = Some (vf_stateFingerprint v)" by blast
  then show ?thesis
  proof cases
    case 1
    with assms(2) Some r show ?thesis
      by (auto simp: observeVerificationResult_def Let_def simp del: terminal_phases_iff)
  next
    case 2
    with assms(2) Some r show ?thesis
      by (auto simp: observeVerificationResult_def Let_def simp del: terminal_phases_iff)
  next
    case 3
    have legal: "isValidPhaseTransition Verifying Recovering" by (simp add: isValidPhaseTransition_def)
    show ?thesis
    proof (cases "vf_status v = VsPassed")
      case True
      with assms(2) Some r 3 show ?thesis by (auto simp add: observeVerificationResult_def Let_def)
    next
      case False
      then have "engine_transition en (vf_runId v) (sn\<lparr>sn_phase := Verifying\<rparr>) Recovering d
          = Inr (True, d\<lparr>db_runs := map (\<lambda>x. if row_runId x = vf_runId v then advance_row Recovering None x else x)
                                   (db_runs d)\<rparr>)"
        using r 3 legal by (intro engine_transition_ok [OF assms(1) r(1)]) simp_all
      with False assms(2) Some r 3 show ?thesis by (auto simp: observeVerificationResult_def Let_def)
    qed
  qed
qed

section \<open>Examples\<close>

text \<open>A run \<open>r\<close> with one required work item \<open>w\<close> and some rows of metadata.\<close>

definition demo_item :: "string \<Rightarrow> assignment_row" where
  "demo_item st =
     \<lparr>asg_id = ''w'', asg_runId = ''r'', asg_agentId = ''coder'', asg_description = ''fix'',
      asg_status = st, asg_isRequired = 1, asg_createdAt = 0\<rparr>"

definition demo_work :: "meta_row list \<Rightarrow> string \<Rightarrow> phase \<Rightarrow> int \<Rightarrow> orch_db" where
  "demo_work ms st p v = (demo_db p v)\<lparr>db_assignments := [demo_item st], db_meta := ms\<rparr>"

definition demo_env :: engine_env where
  "demo_env = \<lparr>en_order = by_time, en_routing = \<lparr>rv_executionClass = None, rv_plan = None\<rparr>,
     en_policy = Some 7, en_now = 9\<rparr>"

definition demo_eval :: eval_input where
  "demo_eval = \<lparr>ei_runId = ''r'', ei_sessionId = None, ei_latestActionFingerprint = None,
     ei_latestTool = None, ei_latestError = None, ei_isVerification = None\<rparr>"

lemma demo_eval_simps [simp]:
  "ei_runId demo_eval = ''r''" "ei_sessionId demo_eval = None" "ei_latestError demo_eval = None"
  "ei_latestActionFingerprint demo_eval = None" "en_order demo_env = by_time" "en_policy demo_env = Some 7"
  by (simp_all add: demo_eval_def demo_env_def)

definition demo_attempt :: "bool \<Rightarrow> attempt" where
  "demo_attempt progress =
     (new_attempt ''r'' ''w'' 1 None ''edit'' ''fp'' ''s0'' 5)\<lparr>at_progressProduced := progress\<rparr>"

definition demo_meta :: "bool \<Rightarrow> meta_row list" where
  "demo_meta progress =
     [\<lparr>m_id = attempt_row_id ''r'' ''w'' 1, m_runId = ''r'', m_key = ''attempt:r:w:1'',
       m_value = MAttempt (demo_attempt progress), m_createdAt = 5\<rparr>]"

definition no_child_rows :: "meta_row list \<Rightarrow> bool" where
  "no_child_rows ms \<longleftrightarrow> filter (\<lambda>r. sql_like ''child_exec:%'' (m_key r)) ms = []"

lemma no_child_rows_simps [simp]: "no_child_rows []" "no_child_rows (demo_meta progress)"
  by (simp_all add: no_child_rows_def demo_meta_def to_lower_def is_upper_def char_code_def)

lemma demo_tables:
  "findById (db_runs (demo_work ms st p v)) ''r'' = Some (demo_row p v)"
  "assignment_rows ''r'' (demo_work ms st p v) = [demo_item st]"
  "no_child_rows ms \<Longrightarrow> child_listAll by_time x (demo_work ms st p v) = []"
  "unresolved_deferred ''r'' (demo_work ms st p v) = False"
  "db_meta (demo_work ms st p v) = ms"
  "runs_ok (db_runs (demo_work ms st p v))"
  by (simp_all add: demo_work_def demo_db_def demo_row_def findById_def assignment_rows_def demo_item_def
      child_listAll_def by_time_def List.map_filter_def unresolved_deferred_def runs_ok_def
      no_child_rows_def filter_empty_conv)

definition demo_work_item :: "meta_row list \<Rightarrow> string \<Rightarrow> phase \<Rightarrow> int \<Rightarrow> work_item" where
  "demo_work_item ms st p v = work_item_of by_time ''r'' (demo_work ms st p v) [] (demo_item st)"

lemma demo_work_item_simps [simp]:
  "w_id (demo_work_item ms st p v) = ''w''" "w_isRequired (demo_work_item ms st p v)"
  "w_status (demo_work_item ms st p v) = (if st = ''running'' then ''in_progress'' else st)"
  "w_isSatisfied (demo_work_item ms st p v) \<longleftrightarrow> st = ''completed''"
  by (simp_all add: demo_work_item_def work_item_of_def Let_def demo_item_def)

lemma demo_snapshot:
  assumes "no_child_rows ms" and "getSnapshot by_time rv ''r'' sid mem (demo_work ms st p v) = Some sn"
  shows "sn_phase sn = p" "sn_aggregateVersion sn = v" "sn_childState sn = no_children"
    "\<not> sn_cancellationPending sn" "\<not> sn_unresolvedDeferredReplacement sn"
    "sn_progress sn = progress_view_of (getDiagnosticsForRun mem ''r'')"
    "sn_workItems sn = [demo_work_item ms st p v]"
    "sn_currentWorkItemId sn = map_option w_id (current_work_item [demo_work_item ms st p v])"
  using assms
  by (simp_all add: getSnapshot_def demo_tables Let_def count_children_def demo_work_item_def
      no_children_def demo_row_def split: option.splits) (auto simp: no_children_def)

lemma demo_snapshot_ex: "\<exists>sn. getSnapshot q rv ''r'' sid mem (demo_work ms st p v) = Some sn"
  by (simp add: getSnapshot_def demo_tables Let_def)

lemma demo_diagnostics:
  "\<not> pv_stalled (progress_view_of (getDiagnosticsForRun [] rid))"
  "pv_lastRepositoryDelta (progress_view_of (getDiagnosticsForRun [] rid)) = 0"
  by (simp_all add: progress_view_of_def getDiagnosticsForRun_def)

lemma demo_ready:
  "\<exists>e d'. evaluate demo_env demo_eval [] (demo_work [] ''completed'' Executing 1) = Inr (e, d')
     \<and> er_phaseChanged e \<and> er_currentPhase e = Verifying \<and> er_reasonCode e = READY_FOR_VERIFICATION"
proof -
  let ?d = "demo_work [] ''completed'' Executing 1"
  obtain sn where sn: "getSnapshot by_time (en_routing demo_env) ''r'' None [] ?d = Some sn"
    using demo_snapshot_ex by blast
  note facts = demo_snapshot [OF no_child_rows_simps(1) sn]
  have hand: "item_in_hand sn = None"
    by (simp add: item_in_hand_def facts current_work_item_def)
  have target: "hand_target demo_eval sn = ''w''"
    by (simp add: hand_target_def hand target_item_def facts)
  have none: "listAttempts by_time ''r'' ''w'' ?d = []"
    by (simp add: listAttempts_def demo_tables by_time_def List.map_filter_def)
  have "engine_transition demo_env ''r'' sn Verifying ?d
      = Inr (True, ?d\<lparr>db_runs := map (\<lambda>x. if row_runId x = ''r'' then advance_row Verifying None x else x) (db_runs ?d)\<rparr>)"
    by (rule engine_transition_ok [OF demo_tables(6) demo_tables(1)])
      (simp_all add: facts isValidPhaseTransition_def, simp_all add: demo_row_def)
  then show ?thesis
    by (simp add: evaluate_def sn facts eval_live_stages Let_def failed_work_def no_children_def
        exhausted_now_def getActive_val meta_val_def demo_tables meta_at_def demo_diagnostics target none hand
        eval_action_def eval_quiet_def all_required_satisfied_def with_transition_def isValidPhaseTransition_def)
qed

theorem evaluation_moves_legally_witness:
  "\<exists>e d' r'. evaluate demo_env demo_eval [] (demo_work [] ''completed'' Executing 1) = Inr (e, d')
     \<and> er_reasonCode e = READY_FOR_VERIFICATION
     \<and> findById (db_runs d') ''r'' = Some r' \<and> row_state r' = Verifying \<and> row_aggregateVersion r' = 2"
proof -
  obtain e d' where e: "evaluate demo_env demo_eval [] (demo_work [] ''completed'' Executing 1) = Inr (e, d')"
      "er_phaseChanged e" "er_currentPhase e = Verifying" "er_reasonCode e = READY_FOR_VERIFICATION"
    using demo_ready by blast
  show ?thesis
    by (rule evaluation_moves_legally [OF demo_tables(6) e(1) demo_tables(1)])
      (use e in \<open>auto simp: demo_row_def\<close>)
qed

theorem terminal_run_kept_witness:
  "\<exists>d' r'. (engine_step (\<lambda>s. s) demo_env)\<^sup>*\<^sup>* (demo_work [] ''completed'' Executing 1) d'
     \<and> findById (db_runs d') ''r'' = Some r' \<and> 1 \<le> row_aggregateVersion r'
     \<and> isValidPhaseTransition\<^sup>*\<^sup>* Executing (row_state r')"
proof -
  obtain e d' where e: "evaluate demo_env demo_eval [] (demo_work [] ''completed'' Executing 1) = Inr (e, d')"
    using demo_ready by blast
  have "(engine_step (\<lambda>s. s) demo_env)\<^sup>*\<^sup>* (demo_work [] ''completed'' Executing 1) d'"
    using e by (intro r_into_rtranclp engine_step.evaluation)
  note steps = this
  obtain r' where r': "findById (db_runs d') ''r'' = Some r'"
      "row_aggregateVersion (demo_row Executing 1) \<le> row_aggregateVersion r'"
      "isValidPhaseTransition\<^sup>*\<^sup>* (row_state (demo_row Executing 1)) (row_state r')"
    by (rule terminal_run_kept [OF steps demo_tables(6) demo_tables(1)])
  have "row_aggregateVersion (demo_row Executing 1) = 1" "row_state (demo_row Executing 1) = Executing"
    by (simp_all add: demo_row_def)
  with steps r' show ?thesis by auto
qed

definition demo_complete :: cas_input where
  "demo_complete = \<lparr>cas_runId = ''r'', cas_targetPhase = Completed, cas_expectedPhase = Verifying,
     cas_expectedAggregateVersion = 3, cas_authority = Some AuRunService,
     cas_completionPolicy = Some 7, cas_sha = None\<rparr>"

lemma demo_completed:
  "\<exists>d'. transitionPhase (Some 7) demo_complete (demo_db Verifying 3) = Inr (True, d')
     \<and> findById (db_runs d') ''r'' = Some (demo_row Completed 4)"
proof -
  have "runs_ok (db_runs (demo_db Verifying 3))" by (simp add: runs_ok_def demo_db_def)
  from transitionPhaseCas_eq [OF this, of "''r''" Verifying 3 Completed None]
  have "transitionPhaseCas ''r'' (phase_name Verifying) 3 (phase_name Completed) None (db_runs (demo_db Verifying 3))
      = Inr (Some 4, [advance_row Completed None (demo_row Verifying 3)])"
    by (simp add: demo_db_def demo_row_def findById_def)
  moreover have "advance_row Completed None (demo_row Verifying 3) = demo_row Completed 4"
    by (simp add: advance_row_def demo_row_def Let_def)
  ultimately show ?thesis
    by (simp add: transitionPhase_def demo_complete_def isValidPhaseTransition_def findById_def demo_row_def)
qed

theorem completion_needs_policy_witness:
  "\<exists>d' i. engine_step (\<lambda>s. s) demo_env (demo_db Verifying 3) d'
     \<and> transitionPhase (Some 7) i (demo_db Verifying 3) = Inr (True, d') \<and> cas_completionPolicy i = Some 7"
proof -
  obtain d' where d': "transitionPhase (Some 7) demo_complete (demo_db Verifying 3) = Inr (True, d')"
      "findById (db_runs d') ''r'' = Some (demo_row Completed 4)"
    using demo_completed by blast
  have step: "engine_step (\<lambda>s. s) demo_env (demo_db Verifying 3) d'"
    using d'(1) by (intro engine_step.transition) simp
  have "runs_ok (db_runs (demo_db Verifying 3))" "findById (db_runs (demo_db Verifying 3)) ''r'' = Some (demo_row Verifying 3)"
      "row_state (demo_row Verifying 3) \<noteq> Completed" "row_state (demo_row Completed 4) = Completed"
    by (simp_all add: runs_ok_def demo_db_def demo_row_def findById_def)
  from completion_needs_policy [OF step this(1,2,3) d'(2) this(4)] step show ?thesis by auto
qed

lemma demo_listed: "listAttempts by_time ''r'' ''w'' (demo_work (demo_meta progress) st p v) = [demo_attempt progress]"
  by (simp add: listAttempts_def demo_tables demo_meta_def by_time_def List.map_filter_def attempt_of_def
      to_lower_def is_upper_def char_code_def)

lemma demo_reaches:
  obtains sn where "reaches_action demo_env demo_eval [] (demo_work (demo_meta progress) ''in_progress'' Executing 1)
      sn (demo_attempt progress)"
    "\<not> exhausted_now demo_env demo_eval [] (demo_work (demo_meta progress) ''in_progress'' Executing 1) sn"
    "hand_target demo_eval sn = ''w''" "sn_phase sn = Executing" "pv_lastRepositoryDelta (sn_progress sn) = 0"
proof -
  let ?d = "demo_work (demo_meta progress) ''in_progress'' Executing 1"
  obtain sn where sn: "getSnapshot by_time (en_routing demo_env) ''r'' None [] ?d = Some sn"
    using demo_snapshot_ex by blast
  note facts = demo_snapshot [OF no_child_rows_simps(2) sn]
  have target: "hand_target demo_eval sn = ''w''"
    by (simp add: hand_target_def target_item_def item_in_hand_def facts current_work_item_def)
  have "\<not> exhausted_now demo_env demo_eval [] ?d sn"
    by (simp add: exhausted_now_def target getActive_val meta_val_def demo_tables meta_at_def demo_meta_def
        constraint_key_def)
  moreover have "reaches_action demo_env demo_eval [] ?d sn (demo_attempt progress)"
    by (simp add: reaches_action_iff sn facts failed_work_def no_children_def demo_diagnostics target demo_listed)
  ultimately show ?thesis using that target facts by (simp add: demo_diagnostics)
qed

lemma demo_save:
  "\<exists>d'. meta_upsert (''meta-'' @ x) ''r'' k val now (demo_work (demo_meta progress) st p v) = Inr d'"
  if "\<not> starts_with x ''att-''"
proof -
  have "''meta-'' @ x \<noteq> attempt_row_id ''r'' ''w'' 1"
    using that by (auto simp: attempt_row_id_def starts_with_def)
  then show ?thesis
    by (simp add: meta_upsert_def meta_insert_def demo_tables) (simp add: demo_meta_def)
qed

text \<open>A failed edit tried again, and an edit that made progress.\<close>

theorem repeated_action_decided_witness:
  "\<exists>e d' c. evaluate demo_env demo_eval [] (demo_work (demo_meta False) ''in_progress'' Executing 1) = Inr (e, d')
     \<and> er_reasonCode e = REPEATED_ACTION_BLOCKED \<and> er_prohibitedActionFingerprint e = Some ''fp''
     \<and> getActiveStrategyConstraints ''r'' ''w'' d' = Some c"
proof -
  let ?d = "demo_work (demo_meta False) ''in_progress'' Executing 1"
  obtain sn where at: "reaches_action demo_env demo_eval [] ?d sn (demo_attempt False)"
      "\<not> exhausted_now demo_env demo_eval [] ?d sn" "hand_target demo_eval sn = ''w''"
      "sn_phase sn = Executing" "pv_lastRepositoryDelta (sn_progress sn) = 0"
    by (rule demo_reaches)
  have a: "at_actionFingerprint (demo_attempt False) = ''fp''" "\<not> at_progressProduced (demo_attempt False)"
      "at_isTransientError (demo_attempt False) = None"
    by (simp_all add: demo_attempt_def new_attempt_def)
  have again: "fails_again demo_eval sn (demo_attempt False) ''fp''"
    by (simp add: fails_again_def eval_fp_def a at nullish_opt_def)
  have quiet: "\<not> isTransientError (ei_latestError demo_eval)" "\<not> isTransientError None"
    by (simp_all add: isTransientError_def)
  have "\<exists>d'. meta_upsert (''meta-'' @ ''scs-r-w'') ''r'' k val now ?d = Inr d'" for k val now
    by (rule demo_save) (simp add: starts_with_def)
  then have "\<exists>d'. saveStrategyConstraint now \<lparr>in_runId = ''r'', in_assignmentId = ''w'', in_prohibited = ''fp'',
      in_stateFingerprint = s, in_reason = t, in_createdAt = w\<rparr> ?d = Inr d'" for now s t w
    by (simp add: saveStrategyConstraint_def constraint_row_id_def)
  then have "\<exists>e d'. evaluate demo_env demo_eval [] ?d = Inr (e, d')"
    using evaluate_action [OF at(1,2)] at a quiet
    by (auto simp: eval_action_def Let_def nullish_opt_def eval_repeated_def retry_allowed_def split: sum.split)
      (metis sum.simps(4))+
  then obtain e d' where e: "evaluate demo_env demo_eval [] ?d = Inr (e, d')" by blast
  from repeated_action_decided [OF at(1,2) again e] e show ?thesis
    by (auto simp: a quiet at)
qed

theorem progress_confirmed_once_witness:
  "\<exists>e d' e'. evaluate demo_env demo_eval [] (demo_work (demo_meta True) ''in_progress'' Executing 1) = Inr (e, d')
     \<and> er_reasonCode e = PROGRESS_CONFIRMED
     \<and> evaluate (demo_env\<lparr>en_now := 20\<rparr>) demo_eval [] d' = Inr (e', d') \<and> er_reasonCode e' = NO_PROGRESS"
proof -
  let ?d = "demo_work (demo_meta True) ''in_progress'' Executing 1"
  obtain sn where at: "reaches_action demo_env demo_eval [] ?d sn (demo_attempt True)"
      "\<not> exhausted_now demo_env demo_eval [] ?d sn" "hand_target demo_eval sn = ''w''"
      "sn_phase sn = Executing" "pv_lastRepositoryDelta (sn_progress sn) = 0"
    by (rule demo_reaches)
  have a: "at_actionFingerprint (demo_attempt True) = ''fp''" "at_progressProduced (demo_attempt True)"
      "at_attemptNumber (demo_attempt True) = 1"
    by (simp_all add: demo_attempt_def new_attempt_def)
  have "\<exists>d'. meta_upsert (''meta-'' @ ''cpa-r-w'') ''r'' k val now ?d = Inr d'" for k val now
    by (rule demo_save) (simp add: starts_with_def)
  then obtain d1 where d1: "markConsumedProgressAttempt (en_now demo_env) ''r'' ''w'' 1 ?d = Inr d1"
    by (force simp: markConsumedProgressAttempt_def)
  have "getActiveStrategyConstraints ''r'' ''w'' d1 = None"
    using meta_upsert_val [OF d1 [unfolded markConsumedProgressAttempt_def]]
    by (simp add: getActive_val) (simp add: meta_val_def demo_tables meta_at_def demo_meta_def constraint_key_def consumed_key_def)
  then have d2: "clearStrategyConstraint (en_now demo_env) ''r'' ''w'' d1 = Inr d1"
    by (simp add: clearStrategyConstraint_def)
  have "getConsumedProgressAttempt ''r'' ''w'' ?d = None"
    by (simp add: getConsumedProgressAttempt_def meta_at_def demo_tables demo_meta_def consumed_key_def)
  then have e: "evaluate demo_env demo_eval [] ?d
      = Inr (outcome ''r'' Executing (Some ''w'') EXECUTE_CURRENT PROGRESS_CONFIRMED True, d1)"
    using evaluate_action [OF at(1,2)] at a d1 d2
    by (simp add: eval_action_def Let_def nullish_opt_def eval_progress_def)
  show ?thesis
    by (rule progress_confirmed_once [OF e, of 20]) (use e in auto)
qed

definition demo_verdict :: verification_result where
  "demo_verdict = \<lparr>vf_runId = ''r'', vf_stateVersion = 2, vf_stateFingerprint = ''x'', vf_status = VsPassed\<rparr>"

theorem verification_result_applied_witness:
  "\<exists>e. observeVerificationResult (\<lambda>s. s) demo_env \<lparr>ev_repositoryArtifacts = [], ev_assignmentResults = [],
        ev_runEvidence = []\<rparr> demo_verdict [] (demo_work [] ''completed'' Verifying 3)
      = Inr (e, demo_work [] ''completed'' Verifying 3)
     \<and> er_reasonCode e \<in> {VERIFICATION_STALE, BLOCKED} \<and> er_strategyDecision e = BLOCK"
proof -
  let ?d = "demo_work [] ''completed'' Verifying 3"
  let ?ev = "\<lparr>ev_repositoryArtifacts = [], ev_assignmentResults = [], ev_runEvidence = []\<rparr>"
  obtain sn where sn: "getSnapshot by_time (en_routing demo_env) ''r'' None [] ?d = Some sn"
    using demo_snapshot_ex by blast
  have "\<exists>e. observeVerificationResult (\<lambda>s. s) demo_env ?ev demo_verdict [] ?d = Inr (e, ?d)"
    using sn demo_snapshot [OF no_child_rows_simps(1) sn]
    by (simp add: observeVerificationResult_def demo_verdict_def)
  then obtain e where e: "observeVerificationResult (\<lambda>s. s) demo_env ?ev demo_verdict [] ?d = Inr (e, ?d)" ..
  from verification_result_applied [OF demo_tables(6) e] e show ?thesis
    by (auto simp: demo_tables demo_verdict_def demo_row_def)
qed

end
