(* ===== verification/Ledger.thy ===== *)
theory Ledger
  imports Snapshot
begin

text \<open>
  The durable side of a run: the tables \<open>task_contracts\<close>, \<open>events\<close> and \<open>event_outbox\<close> next to the
  tables of the orchestration services, the writer that changes a run together with its event
  and outbox row (\<open>persistence/adapters/sqlite-transactional-run-writer.ts\<close>), the reads of
  \<open>SqliteRunRepository\<close> (\<open>composition.ts\<close>) and the run service (\<open>services/run-service.ts\<close>).

  Every write of the writer runs in one transaction: an error is an \<open>Inl\<close> and leaves the tables as
  they were. The schema's keys are checks of the insertions; \<open>global_sequence\<close> is the position of
  an event in its table. Retries of a busy database, the event bus and native cancellation are
  outside the source's tables; random ids and the clock are arguments.
\<close>

section \<open>Tables\<close>

record contract_key =
  ck_contractId :: string
  ck_familyId :: string
  ck_version :: int

record ledger_event =
  le_eventId :: string
  le_eventType :: string
  le_causationId :: "string option"
  le_correlationId :: "string option"
  le_aggregateType :: string
  le_aggregateId :: string
  le_aggregateVersion :: int
  le_data :: json
  le_metadata :: json
  le_createdTs :: int

datatype outbox_status =
    ObPending | ObDelivering | ObDelivered | ObFailed | ObDeadLetter | ObPartiallyDelivered

record outbox_row =
  ob_id :: string
  ob_eventId :: string
  ob_eventType :: string
  ob_aggregateId :: string
  ob_data :: json
  ob_status :: outbox_status
  ob_retryCount :: int
  ob_idempotencyKey :: string
  ob_sourceComponent :: string
  ob_createdTs :: int

record ledger =
  lg_orch :: orch_db
  lg_contracts :: "contract_key list"
  lg_events :: "ledger_event list"
  lg_outbox :: "outbox_row list"

text \<open>The unique keys of \<open>events\<close>, and the keys and the foreign key of \<open>event_outbox\<close>.\<close>

definition event_conflict :: "ledger \<Rightarrow> ledger_event \<Rightarrow> bool" where
  "event_conflict l e \<longleftrightarrow>
     list_ex (\<lambda>x. le_eventId x = le_eventId e
       \<or> le_aggregateType x = le_aggregateType e \<and> le_aggregateId x = le_aggregateId e
         \<and> le_aggregateVersion x = le_aggregateVersion e) (lg_events l)"

definition outbox_conflict :: "ledger \<Rightarrow> outbox_row \<Rightarrow> bool" where
  "outbox_conflict l r \<longleftrightarrow>
     list_ex (\<lambda>x. ob_id x = ob_id r \<or> ob_idempotencyKey x = ob_idempotencyKey r) (lg_outbox l)"

definition event_known :: "ledger \<Rightarrow> string \<Rightarrow> bool" where
  "event_known l i \<longleftrightarrow> list_ex (\<lambda>x. le_eventId x = i) (lg_events l)"

definition insert_event :: "ledger_event \<Rightarrow> ledger \<Rightarrow> repo_error + ledger" where
  "insert_event e l =
     (if event_conflict l e then Inl ConstraintFailed else Inr (l\<lparr>lg_events := lg_events l @ [e]\<rparr>))"

text \<open>\<open>INSERT OR IGNORE\<close>: a conflict of keys is skipped, a missing parent row is still an error.\<close>

definition insert_event_or_ignore :: "ledger_event \<Rightarrow> ledger \<Rightarrow> ledger" where
  "insert_event_or_ignore e l =
     (if event_conflict l e then l else l\<lparr>lg_events := lg_events l @ [e]\<rparr>)"

definition insert_outbox :: "outbox_row \<Rightarrow> ledger \<Rightarrow> repo_error + ledger" where
  "insert_outbox r l =
     (if outbox_conflict l r \<or> \<not> event_known l (ob_eventId r) then Inl ConstraintFailed
      else Inr (l\<lparr>lg_outbox := lg_outbox l @ [r]\<rparr>))"

definition insert_outbox_or_ignore :: "outbox_row \<Rightarrow> ledger \<Rightarrow> repo_error + ledger" where
  "insert_outbox_or_ignore r l =
     (if outbox_conflict l r then Inr l
      else if \<not> event_known l (ob_eventId r) then Inl ConstraintFailed
      else Inr (l\<lparr>lg_outbox := lg_outbox l @ [r]\<rparr>))"

text \<open>\<open>COALESCE(MAX(aggregate_version), 0) + 1\<close> over the events of one aggregate.\<close>

definition next_event_version :: "ledger \<Rightarrow> string \<Rightarrow> string \<Rightarrow> int" where
  "next_event_version l ty aid =
     (let vs = map le_aggregateVersion
                 (filter (\<lambda>x. le_aggregateType x = ty \<and> le_aggregateId x = aid) (lg_events l))
      in (case vs of [] \<Rightarrow> 0 | v # vs' \<Rightarrow> foldl max v vs') + 1)"

text \<open>The default contract family and \<open>INSERT OR IGNORE INTO task_contracts\<close>, version 1 of it.\<close>

definition ensure_contract :: "string \<Rightarrow> ledger \<Rightarrow> ledger" where
  "ensure_contract cid l =
     (if list_ex (\<lambda>c. ck_contractId c = cid \<or> ck_familyId c = ''family-default'' \<and> ck_version c = 1)
           (lg_contracts l)
      then l
      else l\<lparr>lg_contracts := lg_contracts l @
               [\<lparr>ck_contractId = cid, ck_familyId = ''family-default'', ck_version = 1\<rparr>]\<rparr>)"

section \<open>Runs, events and outbox entries (types/)\<close>

record run =
  rn_id :: string
  rn_status :: run_status
  rn_runType :: string
  rn_correlationId :: string
  rn_causationId :: "string option"
  rn_sessionId :: "string option"
  rn_agentId :: "string option"
  rn_aggregateId :: "string option"
  rn_contractId :: "string option"
  rn_assignmentId :: "string option"
  rn_stage :: "string option"
  rn_error :: "string option"
  rn_metadata :: "json option"
  rn_createdAt :: int
  rn_updatedAt :: int
  rn_startedAt :: "int option"
  rn_completedAt :: "int option"

record create_run_input =
  cri_runType :: string
  cri_correlationId :: "string option"
  cri_causationId :: "string option"
  cri_sessionId :: "string option"
  cri_agentId :: "string option"
  cri_aggregateId :: "string option"
  cri_contractId :: "string option"
  cri_assignmentId :: "string option"
  cri_metadata :: "json option"

record update_run_input =
  ui_status :: "run_status option"
  ui_stage :: "string option"
  ui_progress :: "int option"
  ui_error :: "string option"
  ui_errorMessage :: "string option"
  ui_metadata :: "json option"

record orch_event =
  oe_id :: string
  oe_type :: string
  oe_correlationId :: string
  oe_causationId :: "string option"
  oe_aggregateId :: "string option"
  oe_aggregateVersion :: "int option"
  oe_data :: json
  oe_metadata :: json

record outbox_entry =
  en_id :: string
  en_eventId :: string
  en_eventType :: string
  en_aggregateId :: "string option"
  en_payload :: json

datatype run_error =
    TableError repo_error
  | StatusError status_error
  | RunNotFound string
  | RunNotFoundAfterUpdate string
  | RunInTerminalState run_status
  | CannotPause run_status
  | UnhandledStatus run_status

definition createEvent ::
    "string \<Rightarrow> string \<Rightarrow> string \<Rightarrow> string option \<Rightarrow> string option \<Rightarrow> int option \<Rightarrow> json \<Rightarrow> orch_event" where
  "createEvent uuid ty corr caus aggId aggVersion data =
     \<lparr>oe_id = uuid, oe_type = ty, oe_correlationId = corr, oe_causationId = caus,
      oe_aggregateId = aggId, oe_aggregateVersion = aggVersion, oe_data = data, oe_metadata = JObj []\<rparr>"

section \<open>The transactional writer\<close>

definition run_types :: "string list" where
  "run_types = [''simple'', ''planned'', ''delegated'', ''audit'', ''recovery'']"

definition zero_sha :: string where
  "zero_sha = replicate 40 (CHR ''0'')"

definition new_run_row :: "int \<Rightarrow> string \<Rightarrow> string \<Rightarrow> string \<Rightarrow> phase \<Rightarrow> task_run_row" where
  "new_run_row now rid cid ty p =
     \<lparr>row_runId = rid, row_contractId = cid, row_strategy = ty, row_state = p,
      row_aggregateVersion = 1, row_baselineSha = zero_sha, row_currentSha = None,
      row_verificationSha = None, row_completionSha = None, row_repoBranch = ''main'',
      row_workingTreeClean = True, row_previousRunId = None, row_createdAt = now,
      row_startedAt = None, row_completedAt = None\<rparr>"

definition insert_run :: "int \<Rightarrow> string \<Rightarrow> string \<Rightarrow> string \<Rightarrow> phase \<Rightarrow> ledger \<Rightarrow> repo_error + ledger" where
  "insert_run now rid cid ty p l =
     (if findById (db_runs (lg_orch l)) rid \<noteq> None
         \<or> \<not> list_ex (\<lambda>c. ck_contractId c = cid) (lg_contracts l) \<or> ty \<notin> set run_types
      then Inl ConstraintFailed
      else Inr (l\<lparr>lg_orch := (lg_orch l)\<lparr>db_runs := db_runs (lg_orch l) @ [new_run_row now rid cid ty p]\<rparr>\<rparr>))"

definition event_row :: "int \<Rightarrow> string \<Rightarrow> int \<Rightarrow> orch_event \<Rightarrow> ledger_event" where
  "event_row now aid ver e =
     \<lparr>le_eventId = oe_id e, le_eventType = oe_type e, le_causationId = oe_causationId e,
      le_correlationId = Some (oe_correlationId e), le_aggregateType = ''task_run'',
      le_aggregateId = aid, le_aggregateVersion = ver, le_data = oe_data e,
      le_metadata = oe_metadata e, le_createdTs = now\<rparr>"

definition entry_row :: "int \<Rightarrow> outbox_entry \<Rightarrow> outbox_row" where
  "entry_row now x =
     \<lparr>ob_id = en_id x, ob_eventId = en_eventId x, ob_eventType = en_eventType x,
      ob_aggregateId = nullish (en_aggregateId x) [], ob_data = en_payload x, ob_status = ObPending,
      ob_retryCount = 0, ob_idempotencyKey = en_id x, ob_sourceComponent = ''orchestration'',
      ob_createdTs = now\<rparr>"

definition correlation_key :: "string \<Rightarrow> string" where
  "correlation_key c = ''run_correlation:'' @ c"

definition createRunWithEventAndOutbox ::
    "int \<Rightarrow> run \<Rightarrow> orch_event \<Rightarrow> outbox_entry \<Rightarrow> ledger \<Rightarrow> run_error + (run \<times> ledger)" where
  "createRunWithEventAndOutbox now r ev x l =
     (let cid = nullish (rn_contractId r) ''contract-default'';
          ty = (if rn_runType r \<in> set run_types then rn_runType r else ''simple'')
      in case mapRunStatusToTaskRunState (rn_status r) of
           Inl e \<Rightarrow> Inl (StatusError e)
         | Inr p \<Rightarrow>
           (case insert_run now (rn_id r) cid ty p (ensure_contract cid l) of
              Inl e \<Rightarrow> Inl (TableError e)
            | Inr l1 \<Rightarrow>
              (case insert_event (event_row now (nullish (oe_aggregateId ev) (rn_id r))
                       (nullish (oe_aggregateVersion ev) 1) ev) l1 of
                 Inl e \<Rightarrow> Inl (TableError e)
               | Inr l2 \<Rightarrow>
                 (case insert_outbox (entry_row now x) l2 of
                    Inl e \<Rightarrow> Inl (TableError e)
                  | Inr l3 \<Rightarrow>
                    if rn_correlationId r = [] then Inr (r, l3)
                    else
                      (case meta_insert (correlation_key (rn_correlationId r)) (rn_id r)
                              (correlation_key (rn_correlationId r)) (MText (rn_id r)) now (lg_orch l3) of
                         Inl e \<Rightarrow> Inl (TableError e)
                       | Inr d \<Rightarrow> Inr (r, l3\<lparr>lg_orch := d\<rparr>))))))"

definition run_of_row :: "int \<Rightarrow> update_run_input \<Rightarrow> string \<Rightarrow> task_run_row \<Rightarrow> run_error + run" where
  "run_of_row now i rid row =
     (case mapTaskRunStateToRunStatus (phase_name (row_state row)) of
        Inl e \<Rightarrow> Inl (StatusError e)
      | Inr st \<Rightarrow>
          Inr \<lparr>rn_id = row_runId row, rn_status = st, rn_runType = row_strategy row,
               rn_correlationId = rid, rn_causationId = None, rn_sessionId = None, rn_agentId = None,
               rn_aggregateId = Some (row_runId row), rn_contractId = Some (row_contractId row),
               rn_assignmentId = None, rn_stage = ui_stage i,
               rn_error = nullish_opt (ui_error i) (ui_errorMessage i), rn_metadata = ui_metadata i,
               rn_createdAt = row_createdAt row, rn_updatedAt = now, rn_startedAt = row_startedAt row,
               rn_completedAt = row_completedAt row\<rparr>)"

text \<open>The state is set without regard to the phase or the version that it replaces.\<close>

definition set_run_state :: "string \<Rightarrow> run_status option \<Rightarrow> ledger \<Rightarrow> run_error + ledger" where
  "set_run_state rid st l =
     (case st of
        None \<Rightarrow> Inr l
      | Some s \<Rightarrow>
          (case mapRunStatusToTaskRunState s of
             Inl e \<Rightarrow> Inl (StatusError e)
           | Inr p \<Rightarrow>
               if p = Completed then Inl (TableError CompletionPolicyRequired)
               else Inr (l\<lparr>lg_orch := (lg_orch l)\<lparr>db_runs :=
                        map (\<lambda>r. if row_runId r = rid then advance_row p None r else r)
                          (db_runs (lg_orch l))\<rparr>\<rparr>)))"

definition updateRunState ::
    "int \<Rightarrow> string \<Rightarrow> update_run_input \<Rightarrow> orch_event \<Rightarrow> outbox_entry \<Rightarrow> ledger \<Rightarrow> run_error + (run \<times> ledger)" where
  "updateRunState now rid i ev x l =
     (case set_run_state rid (ui_status i) l of
        Inl e \<Rightarrow> Inl e
      | Inr l1 \<Rightarrow>
          let aid = nullish (oe_aggregateId ev) rid in
          (case insert_event (event_row now aid (next_event_version l1 ''task_run'' aid) ev) l1 of
             Inl e \<Rightarrow> Inl (TableError e)
           | Inr l2 \<Rightarrow>
               (case insert_outbox (entry_row now x) l2 of
                  Inl e \<Rightarrow> Inl (TableError e)
                | Inr l3 \<Rightarrow>
                    (case findById (db_runs (lg_orch l3)) rid of
                       None \<Rightarrow> Inl (RunNotFoundAfterUpdate rid)
                     | Some row \<Rightarrow>
                         (case run_of_row now i rid row of
                            Inl e \<Rightarrow> Inl e | Inr r \<Rightarrow> Inr (r, l3))))))"

section \<open>The reads of SqliteRunRepository\<close>

definition run_correlation :: "sql_order \<Rightarrow> string \<Rightarrow> ledger \<Rightarrow> string option" where
  "run_correlation q rid l =
     (case sq_scan q (filter (\<lambda>r. m_runId r = rid \<and> sql_like ''run_correlation:%'' (m_key r))
             (db_meta (lg_orch l))) of
        [] \<Rightarrow> None | r # _ \<Rightarrow> Some (drop (length ''run_correlation:'') (m_key r)))"

definition repo_findById :: "sql_order \<Rightarrow> string \<Rightarrow> ledger \<Rightarrow> run_error + run option" where
  "repo_findById q rid l =
     (case findById (db_runs (lg_orch l)) rid of
        None \<Rightarrow> Inr None
      | Some row \<Rightarrow>
          (case mapTaskRunStateToRunStatus (phase_name (row_state row)) of
             Inl e \<Rightarrow> Inl (StatusError e)
           | Inr st \<Rightarrow>
               Inr (Some \<lparr>rn_id = row_runId row, rn_status = st, rn_runType = row_strategy row,
                 rn_correlationId = nullish (run_correlation q rid l) (row_runId row),
                 rn_causationId = None, rn_sessionId = None, rn_agentId = None,
                 rn_aggregateId = Some (row_runId row), rn_contractId = Some (row_contractId row),
                 rn_assignmentId = None, rn_stage = None, rn_error = None, rn_metadata = None,
                 rn_createdAt = row_createdAt row, rn_updatedAt = row_createdAt row,
                 rn_startedAt = row_startedAt row, rn_completedAt = row_completedAt row\<rparr>)))"

definition findByCorrelationId :: "sql_order \<Rightarrow> string \<Rightarrow> ledger \<Rightarrow> run_error + run option" where
  "findByCorrelationId q c l =
     (case sq_scan q (filter (\<lambda>r. m_key r = correlation_key c) (db_meta (lg_orch l))) of
        r # _ \<Rightarrow> if m_runId r \<noteq> [] then repo_findById q (m_runId r) l
                 else (case List.find (\<lambda>e. le_correlationId e = Some c) (lg_events l) of
                         Some e \<Rightarrow> repo_findById q (if le_aggregateId e \<noteq> [] then le_aggregateId e else c) l
                       | None \<Rightarrow> repo_findById q c l)
      | [] \<Rightarrow> (case List.find (\<lambda>e. le_correlationId e = Some c) (lg_events l) of
                  Some e \<Rightarrow> repo_findById q (if le_aggregateId e \<noteq> [] then le_aggregateId e else c) l
                | None \<Rightarrow> repo_findById q c l))"

section \<open>The run service\<close>

text \<open>The run, its event and its outbox entry that \<open>createRun\<close> hands to the writer; \<open>u 0\<close>, \<open>u 1\<close>
  and \<open>u 2\<close> are the random ids of run, event and entry.\<close>

definition queued_run :: "(nat \<Rightarrow> string) \<Rightarrow> int \<Rightarrow> create_run_input \<Rightarrow> string \<Rightarrow> run" where
  "queued_run u now i c =
     \<lparr>rn_id = u 0, rn_status = Pending, rn_runType = cri_runType i, rn_correlationId = c,
      rn_causationId = cri_causationId i, rn_sessionId = cri_sessionId i, rn_agentId = cri_agentId i,
      rn_aggregateId = cri_aggregateId i, rn_contractId = cri_contractId i,
      rn_assignmentId = cri_assignmentId i, rn_stage = Some ''queued'', rn_error = None,
      rn_metadata = Some (nullish (cri_metadata i) (JObj [])), rn_createdAt = now,
      rn_updatedAt = now, rn_startedAt = Some now, rn_completedAt = None\<rparr>"

definition create_commit ::
    "(nat \<Rightarrow> string) \<Rightarrow> int \<Rightarrow> create_run_input \<Rightarrow> string \<Rightarrow> ledger \<Rightarrow> run_error + (run \<times> ledger)" where
  "create_commit u now i c l =
     (let ev = createEvent (u 1) ''run.queued'' c (cri_causationId i) (Some (u 0)) (Some 1)
                 (JObj [(''runType'', JStr (cri_runType i))])
      in createRunWithEventAndOutbox now (queued_run u now i c) ev
           \<lparr>en_id = u 2, en_eventId = oe_id ev, en_eventType = oe_type ev, en_aggregateId = Some (u 0),
            en_payload = oe_data ev\<rparr> l)"

text \<open>
  \<open>createRun\<close>: a lookup, then the transaction. Between the two other callers may commit, so the
  transaction runs on the tables \<open>l'\<close> it finds; when it fails, the winner of the race is looked up.
\<close>

definition createRun ::
    "sql_order \<Rightarrow> (nat \<Rightarrow> string) \<Rightarrow> int \<Rightarrow> create_run_input \<Rightarrow> string option \<Rightarrow> ledger \<Rightarrow> ledger
      \<Rightarrow> run_error + (run \<times> ledger)" where
  "createRun q u now i correlationId l l' =
     (let c = nullish (nullish_opt correlationId (cri_correlationId i)) (u 3) in
      case findByCorrelationId q c l of
        Inl e \<Rightarrow> Inl e
      | Inr (Some r) \<Rightarrow> Inr (r, l')
      | Inr None \<Rightarrow>
          (case create_commit u now i c l' of
             Inr res \<Rightarrow> Inr res
           | Inl err \<Rightarrow>
               (case findByCorrelationId q c l' of
                  Inl e \<Rightarrow> Inl e
                | Inr (Some winner) \<Rightarrow> Inr (winner, l')
                | Inr None \<Rightarrow> Inl err)))"

fun getStatusEventType :: "run_status \<Rightarrow> run_error + string" where
  "getStatusEventType Running = Inr ''run.started''"
| "getStatusEventType RunCompleted = Inr ''run.completed''"
| "getStatusEventType RunFailed = Inr ''run.failed''"
| "getStatusEventType RunCancelled = Inr ''run.cancelled''"
| "getStatusEventType Paused = Inr ''run.paused''"
| "getStatusEventType Queued = Inl (UnhandledStatus Queued)"
| "getStatusEventType Pending = Inl (UnhandledStatus Pending)"
| "getStatusEventType Timeout = Inl (UnhandledStatus Timeout)"

definition update_event ::
    "(nat \<Rightarrow> string) \<Rightarrow> update_run_input \<Rightarrow> run \<Rightarrow> string \<Rightarrow> run_error + orch_event" where
  "update_event u i r rid =
     (case ui_status i of
        Some st \<Rightarrow>
          (case getStatusEventType st of
             Inl e \<Rightarrow> Inl e
           | Inr ty \<Rightarrow>
               Inr (createEvent (u 0) ty (rn_correlationId r) (Some (rn_correlationId r)) (Some rid) None
                 (JObj ([(''previousStatus'', JStr (run_status_name (rn_status r))),
                         (''newStatus'', JStr (run_status_name st))]
                        @ opt_prop ''stage'' (map_option JStr (ui_stage i))))))
      | None \<Rightarrow>
          Inr (createEvent (u 0) ''run.progress'' (rn_correlationId r) (Some (rn_correlationId r)) (Some rid) None
            (JObj (opt_prop ''stage'' (map_option JStr (ui_stage i))
                   @ opt_prop ''progress'' (map_option JNum (ui_progress i))))))"

text \<open>\<open>updateRun\<close>: the read and its checks on \<open>l\<close>, the transaction on \<open>l'\<close>.\<close>

definition updateRun ::
    "sql_order \<Rightarrow> (nat \<Rightarrow> string) \<Rightarrow> int \<Rightarrow> string \<Rightarrow> update_run_input \<Rightarrow> ledger \<Rightarrow> ledger
      \<Rightarrow> run_error + (run \<times> ledger)" where
  "updateRun q u now rid i l l' =
     (case repo_findById q rid l of
        Inl e \<Rightarrow> Inl e
      | Inr None \<Rightarrow> Inl (RunNotFound rid)
      | Inr (Some r) \<Rightarrow>
          if ui_status i \<noteq> None \<and> isTerminalRunStatus (run_status_name (rn_status r))
          then Inl (RunInTerminalState (rn_status r))
          else
            (case update_event u i r rid of
               Inl e \<Rightarrow> Inl e
             | Inr ev \<Rightarrow>
                 updateRunState now rid i ev
                   \<lparr>en_id = u 1, en_eventId = oe_id ev, en_eventType = oe_type ev,
                    en_aggregateId = Some rid, en_payload = oe_data ev\<rparr> l'))"

definition status_update :: "run_status \<Rightarrow> string \<Rightarrow> string option \<Rightarrow> json option \<Rightarrow> update_run_input" where
  "status_update st stage err meta =
     \<lparr>ui_status = Some st, ui_stage = Some stage, ui_progress = None, ui_error = None,
      ui_errorMessage = err, ui_metadata = meta\<rparr>"

definition pauseRun ::
    "sql_order \<Rightarrow> (nat \<Rightarrow> string) \<Rightarrow> int \<Rightarrow> string \<Rightarrow> ledger \<Rightarrow> ledger \<Rightarrow> ledger
      \<Rightarrow> run_error + (run \<times> ledger)" where
  "pauseRun q u now rid l l1 l2 =
     (case repo_findById q rid l of
        Inl e \<Rightarrow> Inl e
      | Inr None \<Rightarrow> Inl (RunNotFound rid)
      | Inr (Some r) \<Rightarrow>
          if rn_status r \<noteq> Running then Inl (CannotPause (rn_status r))
          else updateRun q u now rid (status_update Paused ''paused'' None None) l1 l2)"

text \<open>\<open>cancelRun\<close>: the native cancellation happens between the reads of \<open>l\<close> and \<open>l1\<close>; \<open>pending\<close> are the
  executions whose termination the lifecycle service could not confirm.\<close>

definition cancelRun ::
    "sql_order \<Rightarrow> (nat \<Rightarrow> string) \<Rightarrow> int \<Rightarrow> string \<Rightarrow> string option \<Rightarrow> string list \<Rightarrow> ledger \<Rightarrow> ledger
      \<Rightarrow> ledger \<Rightarrow> ledger \<Rightarrow> run_error + (run \<times> ledger)" where
  "cancelRun q u now rid reason pending l l1 l2 l3 =
     (case repo_findById q rid l of
        Inl e \<Rightarrow> Inl e
      | Inr None \<Rightarrow> Inl (RunNotFound rid)
      | Inr (Some r) \<Rightarrow>
          if isTerminalRunStatus (run_status_name (rn_status r)) then Inl (RunInTerminalState (rn_status r))
          else
            (case repo_findById q rid l1 of
               Inl e \<Rightarrow> Inl e
             | Inr latest \<Rightarrow>
                 if (case latest of None \<Rightarrow> False
                     | Some r' \<Rightarrow> isTerminalRunStatus (run_status_name (rn_status r')) \<and> rn_status r' \<noteq> RunCancelled)
                 then Inr (the latest, l3)
                 else
                   updateRun q u now rid (status_update RunCancelled ''cancelled'' reason
                     (Some (JObj ([(''cancelledAt'', JNum now)] @ opt_prop ''reason'' (map_option JStr reason)
                        @ [(''terminationPending'', JBool (pending \<noteq> [])),
                           (''unconfirmedChildExecutionIds'', JArr (map JStr pending)),
                           (''cancellationMode'', JStr (if pending \<noteq> [] then ''detached_pending_native_termination''
                                                       else ''converged''))])))) l2 l3))"

section \<open>Facts about the tables\<close>

text \<open>What the schema and the writer keep: keys of the tables, and claims stored under their own id.\<close>

definition claim_of :: "string \<Rightarrow> meta_row \<Rightarrow> bool" where
  "claim_of c r \<longleftrightarrow> m_key r = correlation_key c \<or> m_id r = correlation_key c"

definition claim_sound :: "orch_db \<Rightarrow> string \<Rightarrow> meta_row \<Rightarrow> bool" where
  "claim_sound d c r \<longleftrightarrow> m_id r = correlation_key c \<and> m_key r = correlation_key c \<and> m_runId r \<noteq> []
     \<and> findById (db_runs d) (m_runId r) \<noteq> None"

definition claims_ok :: "orch_db \<Rightarrow> bool" where
  "claims_ok d \<longleftrightarrow> (\<forall>r \<in> set (db_meta d). \<forall>c. claim_of c r \<longrightarrow> claim_sound d c r)"

text \<open>The events of one aggregate are numbered from 1 on.\<close>

definition event_versions :: "ledger \<Rightarrow> string \<Rightarrow> int list" where
  "event_versions l rid = map le_aggregateVersion
     (filter (\<lambda>x. le_aggregateType x = ''task_run'' \<and> le_aggregateId x = rid) (lg_events l))"

text \<open>Every write keeps the keys of the tables and the claims. The numbering of the events is kept by the operations of
  this theory; a completion by the policy may leave a gap in it (\<open>Completion\<close>), so only the theorems about event
  versions ask for it.\<close>

definition claims_kept :: "ledger \<Rightarrow> bool" where
  "claims_kept l \<longleftrightarrow> meta_ok (lg_orch l) \<and> claims_ok (lg_orch l)"

definition ledger_ok :: "ledger \<Rightarrow> bool" where
  "ledger_ok l \<longleftrightarrow> meta_ok (lg_orch l) \<and> claims_ok (lg_orch l)
     \<and> (\<forall>rid. event_versions l rid = map int [1..<Suc (length (event_versions l rid))])"

lemma ledger_claims: "ledger_ok l \<Longrightarrow> claims_kept l"
  by (simp add: ledger_ok_def claims_kept_def)

lemma findById_None_ids: "findById rows rid = None \<longleftrightarrow> rid \<notin> set (map row_runId rows)"
  by (auto simp: findById_None)

lemma singleton_list:
  assumes "distinct xs" and "x \<in> set xs" and "\<And>y. y \<in> set xs \<Longrightarrow> y = x"
  shows "xs = [x]"
proof -
  from assms(2,3) have "set xs = {x}" by blast
  moreover from this have "length xs = 1" using distinct_card [OF assms(1)] by simp
  ultimately show ?thesis by (cases xs) auto
qed

lemma findById_append:
  "findById (rows @ [r]) rid =
     (case findById rows rid of Some x \<Rightarrow> Some x | None \<Rightarrow> if row_runId r = rid then Some r else None)"
  by (induction rows) (simp_all add: findById_def)

lemma max_of_range: "foldl max (1 :: int) (map int [2..<Suc (Suc n)]) = int (Suc n)"
  by (induction n) auto

lemma next_event_version_ok:
  assumes "ledger_ok l"
  shows "next_event_version l ''task_run'' rid = int (length (event_versions l rid)) + 1"
proof (cases "event_versions l rid")
  case Nil
  then show ?thesis by (simp add: next_event_version_def event_versions_def)
next
  case (Cons v vs)
  moreover from assms have "event_versions l rid = map int [1..<Suc (length (event_versions l rid))]"
    by (simp add: ledger_ok_def)
  ultimately have "v # vs = map int [1..<Suc (Suc (length vs))]" by simp
  also have "\<dots> = 1 # map int [2..<Suc (Suc (length vs))]"
    by (simp add: upt_conv_Cons numeral_2_eq_2 del: upt_Suc)
  finally have "v = 1" "vs = map int [2..<Suc (Suc (length vs))]" by simp_all
  then have "foldl max v vs = int (Suc (length vs))" by (metis max_of_range)
  with Cons show ?thesis by (simp add: next_event_version_def event_versions_def Let_def)
qed

section \<open>What the transactions do\<close>

text \<open>The tables after a creation, and when there is one.\<close>

definition run_type_of :: "create_run_input \<Rightarrow> string" where
  "run_type_of i = (if cri_runType i \<in> set run_types then cri_runType i else ''simple'')"

definition queued_event :: "(nat \<Rightarrow> string) \<Rightarrow> int \<Rightarrow> create_run_input \<Rightarrow> string \<Rightarrow> ledger_event" where
  "queued_event u now i c =
     \<lparr>le_eventId = u 1, le_eventType = ''run.queued'', le_causationId = cri_causationId i,
      le_correlationId = Some c, le_aggregateType = ''task_run'', le_aggregateId = u 0,
      le_aggregateVersion = 1, le_data = JObj [(''runType'', JStr (cri_runType i))],
      le_metadata = JObj [], le_createdTs = now\<rparr>"

definition queued_entry :: "(nat \<Rightarrow> string) \<Rightarrow> int \<Rightarrow> create_run_input \<Rightarrow> outbox_row" where
  "queued_entry u now i =
     \<lparr>ob_id = u 2, ob_eventId = u 1, ob_eventType = ''run.queued'', ob_aggregateId = u 0,
      ob_data = JObj [(''runType'', JStr (cri_runType i))], ob_status = ObPending, ob_retryCount = 0,
      ob_idempotencyKey = u 2, ob_sourceComponent = ''orchestration'', ob_createdTs = now\<rparr>"

definition claim_row :: "(nat \<Rightarrow> string) \<Rightarrow> int \<Rightarrow> string \<Rightarrow> meta_row" where
  "claim_row u now c = \<lparr>m_id = correlation_key c, m_runId = u 0, m_key = correlation_key c,
                        m_value = MText (u 0), m_createdAt = now\<rparr>"

definition claim_rows :: "(nat \<Rightarrow> string) \<Rightarrow> int \<Rightarrow> string \<Rightarrow> meta_row list" where
  "claim_rows u now c = (if c = [] then [] else [claim_row u now c])"

definition with_created ::
    "(nat \<Rightarrow> string) \<Rightarrow> int \<Rightarrow> create_run_input \<Rightarrow> string \<Rightarrow> ledger \<Rightarrow> ledger" where
  "with_created u now i c l =
     (let cid = nullish (cri_contractId i) ''contract-default''; l0 = ensure_contract cid l in
      l0\<lparr>lg_orch := (lg_orch l)\<lparr>db_runs := db_runs (lg_orch l) @
                                [new_run_row now (u 0) cid (run_type_of i) Created],
                              db_meta := db_meta (lg_orch l) @ claim_rows u now c\<rparr>,
         lg_events := lg_events l @ [queued_event u now i c],
         lg_outbox := lg_outbox l @ [queued_entry u now i]\<rparr>)"

definition contract_present :: "string \<Rightarrow> ledger \<Rightarrow> bool" where
  "contract_present cid l \<longleftrightarrow> list_ex (\<lambda>c. ck_contractId c = cid) (lg_contracts l)"

definition family_taken :: "ledger \<Rightarrow> bool" where
  "family_taken l \<longleftrightarrow> list_ex (\<lambda>c. ck_familyId c = ''family-default'' \<and> ck_version c = 1) (lg_contracts l)"

lemma ensure_contract_frame [simp]:
  "lg_orch (ensure_contract cid l) = lg_orch l" "lg_events (ensure_contract cid l) = lg_events l"
  "lg_outbox (ensure_contract cid l) = lg_outbox l"
  by (simp_all add: ensure_contract_def)

lemma ensured_contract:
  "list_ex (\<lambda>c. ck_contractId c = cid) (lg_contracts (ensure_contract cid l))
     \<longleftrightarrow> contract_present cid l \<or> \<not> family_taken l"
  by (auto simp: ensure_contract_def contract_present_def family_taken_def list_ex_iff)

lemma valid_run_type [simp]: "run_type_of i \<in> set run_types"
  by (simp add: run_type_of_def run_types_def)

definition claim_free :: "string \<Rightarrow> ledger \<Rightarrow> bool" where
  "claim_free c l \<longleftrightarrow> c = [] \<or> \<not> list_ex (\<lambda>r. m_id r = correlation_key c) (db_meta (lg_orch l))"

definition ids_fresh :: "(nat \<Rightarrow> string) \<Rightarrow> ledger \<Rightarrow> bool" where
  "ids_fresh u l \<longleftrightarrow>
     findById (db_runs (lg_orch l)) (u 0) = None
     \<and> \<not> list_ex (\<lambda>r. m_runId r = u 0) (db_meta (lg_orch l))
     \<and> \<not> list_ex (\<lambda>e. le_eventId e = u 1 \<or> le_aggregateId e = u 0) (lg_events l)
     \<and> \<not> list_ex (\<lambda>x. ob_id x = u 2 \<or> ob_idempotencyKey x = u 2) (lg_outbox l)"

lemma queued_run_simps [simp]:
  "rn_id (queued_run u now i c) = u 0" "rn_status (queued_run u now i c) = Pending"
  "rn_contractId (queued_run u now i c) = cri_contractId i"
  "rn_runType (queued_run u now i c) = cri_runType i" "rn_correlationId (queued_run u now i c) = c"
  by (simp_all add: queued_run_def)

lemma create_commit_eq:
  assumes "ids_fresh u l"
  shows "create_commit u now i c l =
     (if (contract_present (nullish (cri_contractId i) ''contract-default'') l \<or> \<not> family_taken l)
         \<and> claim_free c l
      then Inr (queued_run u now i c, with_created u now i c l)
      else Inl (TableError ConstraintFailed))"
proof -
  let ?cid = "nullish (cri_contractId i) ''contract-default''"
  let ?l0 = "ensure_contract ?cid l"
  let ?ok = "contract_present ?cid l \<or> \<not> family_taken l"
  let ?r = "new_run_row now (u 0) ?cid (run_type_of i) Created"
  let ?l1 = "?l0\<lparr>lg_orch := (lg_orch l)\<lparr>db_runs := db_runs (lg_orch l) @ [?r]\<rparr>\<rparr>"
  let ?l2 = "?l1\<lparr>lg_events := lg_events l @ [queued_event u now i c]\<rparr>"
  let ?l3 = "?l2\<lparr>lg_outbox := lg_outbox l @ [queued_entry u now i]\<rparr>"
  from assms have fresh: "findById (db_runs (lg_orch l)) (u 0) = None"
    "\<forall>r \<in> set (db_meta (lg_orch l)). m_runId r \<noteq> u 0"
    "\<forall>e \<in> set (lg_events l). le_eventId e \<noteq> u 1 \<and> le_aggregateId e \<noteq> u 0"
    "\<forall>x \<in> set (lg_outbox l). ob_id x \<noteq> u 2 \<and> ob_idempotencyKey x \<noteq> u 2"
    by (auto simp: ids_fresh_def list_ex_iff)
  have one: "insert_run now (u 0) ?cid (run_type_of i) Created ?l0 =
      (if ?ok then Inr ?l1 else Inl ConstraintFailed)"
    using fresh(1) by (simp add: insert_run_def ensured_contract)
  have two: "insert_event (queued_event u now i c) ?l1 = Inr ?l2"
    using fresh(3) by (auto simp: insert_event_def event_conflict_def list_ex_iff queued_event_def)
  have three: "insert_outbox (queued_entry u now i) ?l2 = Inr ?l3"
    using fresh(4)
    by (auto simp: insert_outbox_def outbox_conflict_def list_ex_iff queued_entry_def event_known_def
        queued_event_def)
  have "meta_at (db_meta (lg_orch l)) (u 0) k = None" for k
    using fresh(2) by (simp add: meta_at_None)
  moreover have "findById (db_runs (lg_orch ?l3)) (u 0) \<noteq> None"
    by (simp add: findById_append fresh(1) new_run_row_def)
  ultimately have four: "c \<noteq> [] \<Longrightarrow> meta_insert (correlation_key c) (u 0) (correlation_key c) (MText (u 0)) now (lg_orch ?l3) =
      (if claim_free c l
       then Inr ((lg_orch ?l3)\<lparr>db_meta := db_meta (lg_orch l) @ [claim_row u now c]\<rparr>)
       else Inl ConstraintFailed)"
    by (auto simp: meta_insert_def claim_free_def list_ex_iff claim_row_def image_iff)
  have "create_commit u now i c l =
     (case insert_run now (u 0) ?cid (run_type_of i) Created ?l0 of
        Inl e \<Rightarrow> Inl (TableError e)
      | Inr l1 \<Rightarrow>
        (case insert_event (queued_event u now i c) l1 of
           Inl e \<Rightarrow> Inl (TableError e)
         | Inr l2 \<Rightarrow>
           (case insert_outbox (queued_entry u now i) l2 of
              Inl e \<Rightarrow> Inl (TableError e)
            | Inr l3 \<Rightarrow>
                if c = [] then Inr (queued_run u now i c, l3)
                else
                  (case meta_insert (correlation_key c) (u 0) (correlation_key c) (MText (u 0)) now (lg_orch l3) of
                     Inl e \<Rightarrow> Inl (TableError e)
                   | Inr d \<Rightarrow> Inr (queued_run u now i c, l3\<lparr>lg_orch := d\<rparr>)))))"
    by (simp add: create_commit_def createRunWithEventAndOutbox_def createEvent_def event_row_def
        entry_row_def run_type_of_def queued_event_def queued_entry_def Let_def cong: sum.case_cong if_cong)
  also have "\<dots> = (if ?ok \<and> claim_free c l then Inr (queued_run u now i c, with_created u now i c l)
      else Inl (TableError ConstraintFailed))"
    by (simp add: one two three four [simplified] with_created_def Let_def claim_rows_def claim_free_def)
  finally show ?thesis .
qed

text \<open>The tables after an update: the state is replaced whatever it was.\<close>

definition with_state :: "string \<Rightarrow> phase option \<Rightarrow> ledger \<Rightarrow> ledger" where
  "with_state rid p l =
     (case p of None \<Rightarrow> l
      | Some q \<Rightarrow> l\<lparr>lg_orch := (lg_orch l)\<lparr>db_runs :=
          map (\<lambda>r. if row_runId r = rid then advance_row q None r else r) (db_runs (lg_orch l))\<rparr>\<rparr>)"

lemma with_state_frame [simp]:
  "lg_events (with_state rid p l) = lg_events l" "lg_outbox (with_state rid p l) = lg_outbox l"
  "lg_contracts (with_state rid p l) = lg_contracts l"
  "db_meta (lg_orch (with_state rid p l)) = db_meta (lg_orch l)"
  "db_calls (lg_orch (with_state rid p l)) = db_calls (lg_orch l)"
  "map row_runId (db_runs (lg_orch (with_state rid p l))) = map row_runId (db_runs (lg_orch l))"
  by (auto simp: with_state_def comp_def split: option.split)

lemma set_run_state_Inr:
  "set_run_state rid st l = Inr l' \<Longrightarrow>
     \<exists>p. l' = with_state rid p l \<and> (st = None \<longrightarrow> p = None)
       \<and> (\<forall>s. st = Some s \<longrightarrow> (\<exists>q. p = Some q \<and> mapRunStatusToTaskRunState s = Inr q \<and> q \<noteq> Completed))"
  by (cases st) (auto simp: set_run_state_def with_state_def split: sum.splits if_splits
      intro: exI [of _ None] exI [of _ "Some _"])

lemma updateRunState_Inr:
  assumes "updateRunState now rid i ev x l = Inr (r, l')"
  shows "\<exists>p. set_run_state rid (ui_status i) l = Inr (with_state rid p l)
     \<and> lg_orch l' = lg_orch (with_state rid p l) \<and> lg_contracts l' = lg_contracts l
     \<and> lg_events l' = lg_events l @ [event_row now (nullish (oe_aggregateId ev) rid)
           (next_event_version l ''task_run'' (nullish (oe_aggregateId ev) rid)) ev]
     \<and> lg_outbox l' = lg_outbox l @ [entry_row now x]
     \<and> findById (db_runs (lg_orch l')) rid \<noteq> None"
proof -
  from assms obtain l1 where l1: "set_run_state rid (ui_status i) l = Inr l1"
    by (auto simp: updateRunState_def split: sum.splits)
  from set_run_state_Inr [OF this] obtain p where p: "l1 = with_state rid p l" by blast
  with l1 assms show ?thesis
    by (intro exI [of _ p])
      (auto simp: updateRunState_def insert_event_def insert_outbox_def Let_def next_event_version_def
        split: sum.splits if_splits option.splits)
qed

section \<open>The keys are kept\<close>

lemma correlation_key_inj [simp]: "correlation_key c = correlation_key d \<longleftrightarrow> c = d"
  by (simp add: correlation_key_def)

lemma event_versions_append:
  "lg_events l' = lg_events l @ [e] \<Longrightarrow>
     event_versions l' rid = event_versions l rid @
       (if le_aggregateType e = ''task_run'' \<and> le_aggregateId e = rid then [le_aggregateVersion e] else [])"
  by (simp add: event_versions_def)

lemma create_keeps_ok:
  assumes ok: "ledger_ok l" and fresh: "ids_fresh u l" and free: "claim_free c l" and id: "u 0 \<noteq> []"
  shows "ledger_ok (with_created u now i c l)"
proof -
  let ?l = "with_created u now i c l"
  have runs: "row_runId ` set (db_runs (lg_orch l)) \<inter> {u 0} = {}"
    using fresh by (auto simp: ids_fresh_def findById_None)
  have "meta_ok (lg_orch ?l)"
    using ok fresh free runs
    by (auto simp: ledger_ok_def meta_ok_def runs_ok_def with_created_def Let_def new_run_row_def
        claim_row_def claim_rows_def ids_fresh_def claim_free_def list_ex_iff)
  moreover have "claims_ok (lg_orch ?l)"
  proof -
    have kept: "claim_sound (lg_orch ?l) d r" if "claim_sound (lg_orch l) d r" for d r
      using that by (auto simp: claim_sound_def with_created_def Let_def findById_append)
    have new: "claim_of d (claim_row u now c) \<longleftrightarrow> d = c" "claim_sound (lg_orch ?l) c (claim_row u now c)" for d
      using id by (auto simp: claim_of_def claim_sound_def claim_row_def with_created_def Let_def
          findById_append new_run_row_def split: option.split)
    have "db_meta (lg_orch ?l) = db_meta (lg_orch l) @ claim_rows u now c"
      by (simp add: with_created_def Let_def)
    with ok kept new show ?thesis
      by (auto simp: ledger_ok_def claims_ok_def claim_rows_def)
  qed
  moreover have "event_versions ?l rid = event_versions l rid @ (if rid = u 0 then [1] else [])" for rid
    by (subst event_versions_append [of _ l "queued_event u now i c"])
      (auto simp: with_created_def Let_def queued_event_def)
  moreover have "event_versions l (u 0) = []"
    using fresh by (auto simp: ids_fresh_def event_versions_def list_ex_iff filter_empty_conv)
  moreover have "[1] = map int [Suc 0..<Suc (Suc 0)]" by simp
  ultimately show ?thesis
    using ok by (simp add: ledger_ok_def del: upt_Suc)
qed

lemma update_keeps_ok:
  assumes ok: "ledger_ok l" and up: "updateRunState now rid i ev x l = Inr (r, l')"
  shows "ledger_ok l'"
proof -
  from updateRunState_Inr [OF up] obtain p where p: "lg_orch l' = lg_orch (with_state rid p l)"
    "lg_events l' = lg_events l @ [event_row now (nullish (oe_aggregateId ev) rid)
       (next_event_version l ''task_run'' (nullish (oe_aggregateId ev) rid)) ev]" by blast
  have ids: "map row_runId (db_runs (lg_orch l')) = map row_runId (db_runs (lg_orch l))"
    by (simp only: p(1) with_state_frame)
  have none: "findById (db_runs (lg_orch l')) k = None \<longleftrightarrow> findById (db_runs (lg_orch l)) k = None" for k
    by (simp only: findById_None_ids ids)
  have "meta_ok (lg_orch l')"
    using ok ids by (simp add: ledger_ok_def meta_ok_def runs_ok_def p(1))
  moreover have "claims_ok (lg_orch l')"
    using ok none by (simp add: ledger_ok_def claims_ok_def claim_sound_def p(1))
  moreover have "event_versions l' k = map int [1..<Suc (length (event_versions l' k))]" for k
    using ok by (simp add: event_versions_append [OF p(2)] event_row_def next_event_version_ok [OF ok] del: upt_Suc)
      (simp add: ledger_ok_def)
  ultimately show ?thesis by (simp add: ledger_ok_def)
qed

section \<open>Sequences of service calls\<close>

text \<open>
  One committed call of the service. The reads before the transaction saw any earlier tables
  \<open>l0\<close>; a creation draws ids that are not in use.
\<close>

inductive ledger_step :: "ledger \<Rightarrow> ledger \<Rightarrow> bool" where
  created: "createRun q u now i corr l0 l = Inr (r, l') \<Longrightarrow> ids_fresh u l \<Longrightarrow> u 0 \<noteq> [] \<Longrightarrow> ledger_step l l'"
| updated: "updateRun q u now rid i l0 l = Inr (r, l') \<Longrightarrow> ledger_step l l'"

lemma createRun_cases:
  assumes "createRun q u now i corr l0 l = Inr (r, l')"
  obtains "l' = l" | c where "create_commit u now i c l = Inr (r, l')"
  using assms by (auto simp: createRun_def Let_def split: sum.splits option.splits)

lemma updateRun_Inr:
  assumes "updateRun q u now rid i l0 l = Inr (r, l')"
  obtains r0 ev x where "repo_findById q rid l0 = Inr (Some r0)"
    and "ui_status i \<noteq> None \<longrightarrow> \<not> isTerminalRunStatus (run_status_name (rn_status r0))"
    and "update_event u i r0 rid = Inr ev" and "updateRunState now rid i ev x l = Inr (r, l')"
  using assms by (auto simp: updateRun_def split: sum.splits option.splits if_splits)

lemma create_commit_Inr:
  assumes "ids_fresh u l" and "create_commit u now i c l = Inr (r, l')"
  shows "r = queued_run u now i c \<and> l' = with_created u now i c l \<and> claim_free c l"
  using assms(2) by (simp add: create_commit_eq [OF assms(1)] split: if_splits)

lemma ledger_step_ok: "ledger_step l l' \<Longrightarrow> ledger_ok l \<Longrightarrow> ledger_ok l'"
proof (induction rule: ledger_step.induct)
  case (created q u now i corr l0 l r l')
  from created(1) show ?case
    by (rule createRun_cases) (use created create_commit_Inr create_keeps_ok in blast)+
next
  case (updated q u now rid i l0 l r l')
  then show ?case by (metis updateRun_Inr update_keeps_ok)
qed

lemma ledger_step_meta: "ledger_step l l' \<Longrightarrow> set (db_meta (lg_orch l)) \<subseteq> set (db_meta (lg_orch l'))"
proof (induction rule: ledger_step.induct)
  case (created q u now i corr l0 l r l')
  from created(1) show ?case
  proof (rule createRun_cases)
    fix c assume "create_commit u now i c l = Inr (r, l')"
    with create_commit_Inr created(2) have "l' = with_created u now i c l" by blast
    then show ?thesis by (auto simp: with_created_def Let_def)
  qed simp
next
  case (updated q u now rid i l0 l r l')
  from updated show ?case
    by (elim updateRun_Inr) (auto dest!: updateRunState_Inr)
qed

lemma ledger_steps:
  "ledger_step\<^sup>*\<^sup>* l l' \<Longrightarrow> ledger_ok l \<Longrightarrow> ledger_ok l' \<and> set (db_meta (lg_orch l)) \<subseteq> set (db_meta (lg_orch l'))"
  by (induction rule: rtranclp_induct) (use ledger_step_ok ledger_step_meta in blast)+

lemma repo_findById_eq:
  "repo_findById q rid l =
     Inr (map_option (\<lambda>row. \<lparr>rn_id = row_runId row,
            rn_status = projr (mapTaskRunStateToRunStatus (phase_name (row_state row))),
            rn_runType = row_strategy row, rn_correlationId = nullish (run_correlation q rid l) (row_runId row),
            rn_causationId = None, rn_sessionId = None, rn_agentId = None,
            rn_aggregateId = Some (row_runId row), rn_contractId = Some (row_contractId row),
            rn_assignmentId = None, rn_stage = None, rn_error = None, rn_metadata = None,
            rn_createdAt = row_createdAt row, rn_updatedAt = row_createdAt row,
            rn_startedAt = row_startedAt row, rn_completedAt = row_completedAt row\<rparr>)
          (findById (db_runs (lg_orch l)) rid))"
proof (cases "findById (db_runs (lg_orch l)) rid")
  case None
  then show ?thesis by (simp add: repo_findById_def)
next
  case (Some row)
  then show ?thesis
    by (cases "row_state row") (simp_all add: repo_findById_def mapTaskRunStateToRunStatus_def)
qed

lemma claimed_found:
  assumes ok: "claims_kept l" and q: "sql_order_ok q"
    and row: "x \<in> set (db_meta (lg_orch l))" "m_key x = correlation_key c"
  shows "\<exists>r. findByCorrelationId q c l = Inr (Some r) \<and> rn_id r = m_runId x"
proof -
  let ?rows = "filter (\<lambda>r. m_key r = correlation_key c) (db_meta (lg_orch l))"
  from ok have d: "distinct (map m_id (db_meta (lg_orch l)))" by (simp add: claims_kept_def meta_ok_def)
  have "claim_sound (lg_orch l) c y" if "y \<in> set (db_meta (lg_orch l))" "m_key y = correlation_key c" for y
    using ok that by (simp add: claims_kept_def claims_ok_def claim_of_def)
  then have cl: "m_id y = correlation_key c \<and> m_runId y \<noteq> [] \<and> findById (db_runs (lg_orch l)) (m_runId y) \<noteq> None"
    if "y \<in> set (db_meta (lg_orch l))" "m_key y = correlation_key c" for y
    using that by (simp add: claim_sound_def)
  have "y = x" if "y \<in> set ?rows" for y
  proof -
    from that have y: "y \<in> set (db_meta (lg_orch l))" "m_key y = correlation_key c" by simp_all
    then have "m_id y = m_id x" using cl row by metis
    with y(1) row(1) d show ?thesis by (metis distinct_map inj_onD)
  qed
  moreover have "distinct ?rows" using d by (simp add: distinct_map)
  moreover have "x \<in> set ?rows" using row by simp
  ultimately have "?rows = [x]" by (intro singleton_list)
  moreover have "mset (sq_scan q ?rows) = mset ?rows" using q by (simp add: sql_order_ok_def)
  ultimately have "sq_scan q ?rows = [x]" by (metis mset_single_iff_right)
  moreover obtain t where "findById (db_runs (lg_orch l)) (m_runId x) = Some t"
    using cl [OF row] by blast
  moreover have "row_runId t = m_runId x"
    using calculation(2) by (auto simp: findById_def dest: find_SomeD)
  ultimately show ?thesis
    using cl [OF row] by (simp add: findByCorrelationId_def repo_findById_eq)
qed

lemma unclaimed_free:
  assumes "claims_kept l" and "sql_order_ok q" and "findByCorrelationId q c l = Inr None"
  shows "claim_free c l"
proof -
  have "m_id x \<noteq> correlation_key c" if "x \<in> set (db_meta (lg_orch l))" for x
  proof
    assume "m_id x = correlation_key c"
    with assms(1) that have "claim_sound (lg_orch l) c x"
      by (simp add: claims_kept_def claims_ok_def claim_of_def)
    then have "m_key x = correlation_key c" by (simp add: claim_sound_def)
    with claimed_found [OF assms(1,2) that] assms(3) show False by auto
  qed
  then show ?thesis by (simp add: claim_free_def list_ex_iff)
qed

section \<open>A small ledger\<close>

definition first_ids :: "nat \<Rightarrow> string" where
  "first_ids n = ''r'' @ nat_str n"

definition second_ids :: "nat \<Rightarrow> string" where
  "second_ids n = ''s'' @ nat_str n"

definition no_rows :: ledger where
  "no_rows = \<lparr>lg_orch = \<lparr>db_runs = [], db_meta = [], db_calls = [], db_assignments = [], db_results = [],
                         db_deferred = None, db_sessions = []\<rparr>,
              lg_contracts = [], lg_events = [], lg_outbox = []\<rparr>"

definition wish :: "string option \<Rightarrow> create_run_input" where
  "wish cid = \<lparr>cri_runType = ''planned'', cri_correlationId = None, cri_causationId = None,
     cri_sessionId = None, cri_agentId = None, cri_aggregateId = None, cri_contractId = cid,
     cri_assignmentId = None, cri_metadata = None\<rparr>"

definition one_row :: ledger where
  "one_row = with_created first_ids 1 (wish None) ''task'' no_rows"

definition as_found :: sql_order where
  "as_found = \<lparr>sq_scan = id, sq_byCreated = sort_key m_createdAt, sq_results = id, sq_sessions = id\<rparr>"

lemma as_found_ok [simp]: "sql_order_ok as_found"
  by (simp add: sql_order_ok_def as_found_def)

lemma no_rows_ok [simp]: "ledger_ok no_rows"
  by (simp add: ledger_ok_def no_rows_def meta_ok_def claims_ok_def runs_ok_def event_versions_def)

lemma first_fresh [simp]: "ids_fresh first_ids no_rows"
  by (simp add: ids_fresh_def no_rows_def findById_def)

lemma first_id [simp]: "first_ids 0 \<noteq> []" "second_ids 0 \<noteq> []"
  by (simp_all add: first_ids_def second_ids_def)

lemma one_row_ok [simp]: "ledger_ok one_row"
  unfolding one_row_def
  by (rule create_keeps_ok) (simp_all, simp add: claim_free_def no_rows_def)

lemma ids_differ [simp]: "second_ids m \<noteq> first_ids n" "first_ids n \<noteq> second_ids m"
  by (simp_all add: first_ids_def second_ids_def)

lemma second_fresh [simp]: "ids_fresh second_ids one_row"
  by (simp add: ids_fresh_def one_row_def with_created_def no_rows_def findById_def new_run_row_def
      queued_event_def queued_entry_def claim_rows_def claim_row_def Let_def)

lemma lookups [simp]:
  "findByCorrelationId as_found c no_rows = Inr None"
  "c \<noteq> ''task'' \<Longrightarrow> c \<noteq> first_ids 0 \<Longrightarrow> findByCorrelationId as_found c one_row = Inr None"
  by (simp_all add: findByCorrelationId_def repo_findById_def no_rows_def one_row_def with_created_def
      findById_def as_found_def claim_rows_def claim_row_def Let_def queued_event_def new_run_row_def)

section \<open>Properties\<close>

text \<open>
  C36. A creation whose correlation id no run answers to is all or nothing, and it is decided by
  the contract alone. Of the ledger only the keys of the tables and the soundness of stored claims are asked, which
  every write of the ledger and every completion keeps, and of the random ids that they are new. Then: when the
  contract exists or version 1 of the default family is still free,
  exactly the run (created, version 1), its event, its outbox row and its claim are added;
  otherwise nothing changes and the caller sees the failed foreign key. So once one run exists
  under a first contract, a run that names a second, unknown contract cannot be created:
  \<open>INSERT OR IGNORE\<close> skips the row that would be the family's second version 1.
\<close>

theorem run_creation_decided:
  assumes "claims_kept l" and "sql_order_ok q" and "ids_fresh u l"
    and "findByCorrelationId q c l0 = Inr None" and "findByCorrelationId q c l = Inr None"
  shows "createRun q u now i (Some c) l0 l =
     (if contract_present (nullish (cri_contractId i) ''contract-default'') l \<or> \<not> family_taken l
      then Inr (queued_run u now i c, with_created u now i c l)
      else Inl (TableError ConstraintFailed))"
  using assms(4,5) unclaimed_free [OF assms(1,2,5)]
  by (simp add: createRun_def create_commit_eq [OF assms(3)])

theorem run_creation_decided_witness:
  "createRun as_found first_ids 1 (wish None) (Some ''task'') no_rows no_rows
     = Inr (queued_run first_ids 1 (wish None) ''task'', one_row)
   \<and> createRun as_found second_ids 2 (wish (Some ''mine'')) (Some ''other'') one_row one_row
     = Inl (TableError ConstraintFailed)"
  using run_creation_decided [of no_rows as_found first_ids "''task''" no_rows 1 "wish None", OF ledger_claims]
    run_creation_decided [of one_row as_found second_ids "''other''" one_row 2 "wish (Some ''mine'')", OF ledger_claims]
  by (simp add: family_taken_def contract_present_def one_row_def [symmetric] first_ids_def [of 0])
    (simp add: one_row_def no_rows_def with_created_def ensure_contract_def wish_def Let_def)

text \<open>
  Two callers that race to create a run for one correlation id get the same run. Both found
  no run; the first commits its run and other calls follow in any order; then the second, whose
  own lookup is still the old one, is answered with the first caller's run and changes nothing.
\<close>

theorem racing_creates_agree:
  assumes "ledger_ok l" and "sql_order_ok q" and "c \<noteq> []"
    and "ids_fresh u l" and "u 0 \<noteq> []" and "create_commit u now i c l = Inr (r, l1)"
    and "ledger_step\<^sup>*\<^sup>* l1 l2" and "ids_fresh v l2" and "findByCorrelationId q c l0 = Inr None"
  shows "\<exists>r'. createRun q v now' i' (Some c) l0 l2 = Inr (r', l2) \<and> rn_id r' = rn_id r"
proof -
  from create_commit_Inr [OF assms(4,6)] have r: "r = queued_run u now i c"
    and l1: "l1 = with_created u now i c l" and free: "claim_free c l" by simp_all
  have "ledger_ok l1" unfolding l1 using assms free by (intro create_keeps_ok)
  with assms(7) have ok: "ledger_ok l2" and kept: "set (db_meta (lg_orch l1)) \<subseteq> set (db_meta (lg_orch l2))"
    using ledger_steps by blast+
  have "claim_row u now c \<in> set (db_meta (lg_orch l1))"
    using assms(3) by (simp add: l1 with_created_def Let_def claim_rows_def)
  with kept have row: "claim_row u now c \<in> set (db_meta (lg_orch l2))" by blast
  obtain r' where r': "findByCorrelationId q c l2 = Inr (Some r')" "rn_id r' = u 0"
    using claimed_found [OF ledger_claims [OF ok] assms(2) row, of c] by (auto simp: claim_row_def)
  have "\<not> claim_free c l2"
    using row assms(3) by (force simp: claim_free_def list_ex_iff claim_row_def)
  then have "create_commit v now' i' c l2 = Inl (TableError ConstraintFailed)"
    by (simp add: create_commit_eq [OF assms(8)])
  with r' r assms(9) show ?thesis by (simp add: createRun_def)
qed

theorem racing_creates_agree_witness:
  "\<exists>r'. createRun as_found second_ids 2 (wish (Some ''mine'')) (Some ''task'') no_rows one_row = Inr (r', one_row)
     \<and> rn_id r' = rn_id (queued_run first_ids 1 (wish None) ''task'')"
proof (rule racing_creates_agree)
  show "create_commit first_ids 1 (wish None) ''task'' no_rows = Inr (queued_run first_ids 1 (wish None) ''task'', one_row)"
    by (simp add: create_commit_eq one_row_def)
      (simp add: no_rows_def family_taken_def claim_free_def)
qed simp_all

text \<open>
  An update that passed its check commits whatever the run has become since: if the run was
  live when it was read, the transaction sets the state that the requested status stands for and
  advances the version by one, even when another caller has completed, failed or cancelled the
  run in between. Nothing compares the phase or the version inside the transaction.
\<close>

theorem stale_update_overwrites:
  assumes "repo_findById q rid l0 = Inr (Some r0)" and "\<not> isTerminalRunStatus (run_status_name (rn_status r0))"
    and "ui_status i = Some s" and "mapRunStatusToTaskRunState s = Inr p" and "s \<in> {Running, RunFailed, RunCancelled}"
    and "ledger_ok l" and "findById (db_runs (lg_orch l)) rid = Some row"
    and "\<not> event_known l (u 0)" and "\<not> list_ex (\<lambda>x. ob_id x = u 1 \<or> ob_idempotencyKey x = u 1) (lg_outbox l)"
  shows "\<exists>r l'. updateRun q u now rid i l0 l = Inr (r, l') \<and> rn_status r = s
     \<and> findById (db_runs (lg_orch l')) rid = Some (advance_row p None row)"
proof -
  obtain ty data where ev: "update_event u i r0 rid =
      Inr (createEvent (u 0) ty (rn_correlationId r0) (Some (rn_correlationId r0)) (Some rid) None data)"
    using assms(3,5) by (auto simp: update_event_def)
  let ?ev = "createEvent (u 0) ty (rn_correlationId r0) (Some (rn_correlationId r0)) (Some rid) None data"
  let ?x = "\<lparr>en_id = u 1, en_eventId = oe_id ?ev, en_eventType = oe_type ?ev,
             en_aggregateId = Some rid, en_payload = oe_data ?ev\<rparr>"
  let ?l1 = "with_state rid (Some p) l"
  let ?e = "event_row now rid (next_event_version ?l1 ''task_run'' rid) ?ev"
  have set: "set_run_state rid (Some s) l = Inr ?l1"
    using assms(4,5) by (auto simp: set_run_state_def with_state_def)
  have versions: "next_event_version ?l1 ''task_run'' rid = int (length (event_versions l rid)) + 1"
    using next_event_version_ok [OF assms(6)] by (simp add: next_event_version_def)
  have fresh: "le_aggregateVersion x \<noteq> int (length (event_versions l rid)) + 1"
    if "x \<in> set (lg_events l)" "le_aggregateType x = ''task_run''" "le_aggregateId x = rid" for x
  proof -
    have "le_aggregateVersion x \<in> set (event_versions l rid)" using that by (auto simp: event_versions_def)
    also have "event_versions l rid = map int [1..<Suc (length (event_versions l rid))]"
      using assms(6) by (simp add: ledger_ok_def)
    finally show ?thesis by auto
  qed
  have event: "insert_event ?e ?l1 = Inr (?l1\<lparr>lg_events := lg_events l @ [?e]\<rparr>)"
    using assms(8) fresh
    by (auto simp: insert_event_def event_conflict_def list_ex_iff event_known_def event_row_def
        createEvent_def versions)
  have outbox: "insert_outbox (entry_row now ?x) (?l1\<lparr>lg_events := lg_events l @ [?e]\<rparr>)
      = Inr (?l1\<lparr>lg_events := lg_events l @ [?e], lg_outbox := lg_outbox l @ [entry_row now ?x]\<rparr>)"
    using assms(9)
    by (auto simp: insert_outbox_def outbox_conflict_def list_ex_iff event_known_def entry_row_def
        event_row_def createEvent_def)
  have row: "findById (db_runs (lg_orch ?l1)) rid = Some (advance_row p None row)"
    using assms(7) find_SomeD [OF assms(7) [unfolded findById_def]] by (simp add: with_state_def findById_map)
  have status: "mapTaskRunStateToRunStatus (phase_name p) = Inr s"
    using assms(4,5) by (auto simp: mapTaskRunStateToRunStatus_def)
  show ?thesis
    using assms(1-3) ev event outbox row status
    by (simp add: updateRun_def updateRunState_def set createEvent_def Let_def run_of_row_def)
qed

definition stopped :: ledger where
  "stopped = with_state (first_ids 0) (Some Cancelled) one_row"

lemma stopped_ok [simp]: "ledger_ok stopped"
proof -
  have "ledger_ok one_row" by simp
  moreover have "findById (db_runs (lg_orch stopped)) k = None \<longleftrightarrow> findById (db_runs (lg_orch one_row)) k = None" for k
    by (simp only: findById_None_ids stopped_def with_state_frame)
  ultimately show ?thesis
    by (simp add: ledger_ok_def meta_ok_def claims_ok_def claim_sound_def runs_ok_def stopped_def
        event_versions_def del: upt_Suc)
qed

lemma one_row_run:
  "findById (db_runs (lg_orch one_row)) (first_ids 0) =
     Some (new_run_row 1 (first_ids 0) ''contract-default'' ''planned'' Created)"
  by (simp add: one_row_def with_created_def no_rows_def findById_def new_run_row_def wish_def run_type_of_def
      run_types_def Let_def)

theorem stale_update_overwrites_witness:
  "findById (db_runs (lg_orch stopped)) (first_ids 0)
     = Some (advance_row Cancelled None (new_run_row 1 (first_ids 0) ''contract-default'' ''planned'' Created))
   \<and> (\<exists>r l'. updateRun as_found second_ids 2 (first_ids 0) (status_update Running ''executing'' None None) one_row stopped
           = Inr (r, l') \<and> rn_status r = Running
     \<and> findById (db_runs (lg_orch l')) (first_ids 0) = Some (advance_row Executing None
         (advance_row Cancelled None (new_run_row 1 (first_ids 0) ''contract-default'' ''planned'' Created))))"
proof (rule conjI)
  show row: "findById (db_runs (lg_orch stopped)) (first_ids 0)
      = Some (advance_row Cancelled None (new_run_row 1 (first_ids 0) ''contract-default'' ''planned'' Created))"
    using one_row_run by (simp add: stopped_def with_state_def findById_map new_run_row_def)
  obtain r0 where r0: "repo_findById as_found (first_ids 0) one_row = Inr (Some r0)"
      "\<not> isTerminalRunStatus (run_status_name (rn_status r0))"
    by (simp add: repo_findById_eq one_row_run new_run_row_def mapTaskRunStateToRunStatus_def
        isTerminalRunStatus_def terminal_run_statuses_def)
  show "\<exists>r l'. updateRun as_found second_ids 2 (first_ids 0) (status_update Running ''executing'' None None) one_row stopped
           = Inr (r, l') \<and> rn_status r = Running
     \<and> findById (db_runs (lg_orch l')) (first_ids 0) = Some (advance_row Executing None
         (advance_row Cancelled None (new_run_row 1 (first_ids 0) ''contract-default'' ''planned'' Created)))"
    by (rule stale_update_overwrites [OF r0 _ _ _ _ row])
      (simp_all add: status_update_def, simp_all add: stopped_def one_row_def with_created_def no_rows_def
        event_known_def queued_event_def queued_entry_def Let_def)
qed

text \<open>
  A run cannot be paused: for every run, in every state and whatever commits in between,
  \<open>pauseRun\<close> fails. When the run is running, it fails in the writer, because no persisted phase
  stands for the status \<open>paused\<close>; nothing is written.
\<close>

theorem pause_never_succeeds: "\<exists>e. pauseRun q u now rid l l1 l2 = Inl e"
proof -
  have "\<exists>e. updateRun q u now rid (status_update Paused ''paused'' None None) l1 l2 = Inl e"
    by (cases "findById (db_runs (lg_orch l1)) rid")
      (simp_all add: updateRun_def repo_findById_eq update_event_def status_update_def updateRunState_def
        set_run_state_def)
  then show ?thesis
    by (cases "findById (db_runs (lg_orch l)) rid") (simp_all add: pauseRun_def repo_findById_eq)
qed

end
