(* ===== verification/Completion.thy ===== *)
theory Completion
  imports Ledger Engine_Laws
begin

text \<open>
  The completion policy (\<open>services/completion-policy.ts\<close>): the only caller that may move a run to
  \<open>completed\<close>. It reads the snapshot, the fingerprint of the state and one row of
  \<open>verification_results\<close>, and when nothing blocks, it makes the phase change and writes review,
  decision, event and outbox row, all in one transaction: an \<open>Inl\<close> leaves every table as it was.

  A column is a value of SQLite (\<open>sql_val\<close>). A text column that the code only ever parses as JSON
  is kept as what \<open>JSON.parse\<close> makes of it (\<open>json_cell\<close>). SHA-256 and the order of rows that a
  query leaves open are arguments (\<open>completion_env\<close>).
\<close>

section \<open>Tables\<close>

datatype sql_val = SNull | SInt int | SFraction | SText string

datatype json_cell = NotText | Broken | Parsed json

record verification_row =
  vr_id :: string
  vr_runId :: string
  vr_verificationType :: string
  vr_status :: string
  vr_stateVersion :: sql_val
  vr_stateFingerprint :: sql_val
  vr_targetSha :: string
  vr_isStale :: int
  vr_evidence :: json_cell
  vr_failureReasons :: json_cell

datatype review_status = RvPending | RvRunning | RvCompleted | RvFailed

record review =
  cv_id :: string
  cv_completionKey :: string
  cv_sessionId :: "string option"
  cv_taskRunId :: "string option"
  cv_status :: review_status
  cv_candidateId :: "string option"
  cv_error :: "string option"
  cv_createdAt :: int
  cv_completedAt :: "int option"
  cv_stateVersion :: "int option"
  cv_stateFingerprint :: "string option"
  cv_verificationId :: "string option"
  cv_decision :: json_cell
  cv_policyVersion :: string

record decision_row =
  dc_id :: string
  dc_runId :: string
  dc_sha :: string
  dc_checks :: json
  dc_idempotencyKey :: string
  dc_decidedAt :: int

record completion_db =
  co_ledger :: ledger
  co_reviews :: "review list"
  co_verifications :: "verification_row list"
  co_decisions :: "decision_row list"

text \<open>The unique keys of \<open>heidi_completion_reviews\<close>, the live identity of V15 among them.\<close>

definition review_conflict :: "review list \<Rightarrow> review \<Rightarrow> bool" where
  "review_conflict rs r \<longleftrightarrow>
     list_ex (\<lambda>x. cv_id x = cv_id r \<or> cv_completionKey x = cv_completionKey r
       \<or> cv_taskRunId x \<noteq> None \<and> cv_stateVersion x \<noteq> None \<and> cv_stateFingerprint x \<noteq> None
         \<and> cv_verificationId x \<noteq> None \<and> cv_taskRunId x = cv_taskRunId r
         \<and> cv_stateVersion x = cv_stateVersion r \<and> cv_stateFingerprint x = cv_stateFingerprint r
         \<and> cv_verificationId x = cv_verificationId r) rs"

definition insert_decision_or_ignore :: "decision_row \<Rightarrow> decision_row list \<Rightarrow> decision_row list" where
  "insert_decision_or_ignore r rs =
     (if list_ex (\<lambda>x. dc_id x = dc_id r \<or> dc_idempotencyKey x = dc_idempotencyKey r) rs then rs else rs @ [r])"

section \<open>Patterns and constants\<close>

definition policy_version :: string where
  "policy_version = ''completion-policy-v1''"

definition is_hex :: "char \<Rightarrow> bool" where
  "is_hex c \<longleftrightarrow> is_digit c \<or> 97 \<le> char_code c \<and> char_code c \<le> 102 \<or> 65 \<le> char_code c \<and> char_code c \<le> 70"

definition sha_pattern :: "string \<Rightarrow> bool" where
  "sha_pattern s \<longleftrightarrow> length s = 40 \<and> list_all is_hex s"

definition fingerprint_pattern :: "string \<Rightarrow> bool" where
  "fingerprint_pattern s \<longleftrightarrow> length s = 32 \<and> list_all is_hex s"

definition verification_statuses :: "string list" where
  "verification_statuses = [''pending'', ''in_progress'', ''passed'', ''failed'', ''skipped'', ''error'']"

definition is_safe_integer :: "sql_val \<Rightarrow> bool" where
  "is_safe_integer v = (case v of SInt n \<Rightarrow> \<bar>n\<bar> \<le> 9007199254740991 | _ \<Rightarrow> False)"

section \<open>Results\<close>

datatype completion_status = COMPLETED | ALREADY_COMPLETED | POLICY_BLOCKED | CONFLICT

record completion_result =
  cs_status :: completion_status
  cs_run :: string
  cs_completionKey :: "string option"
  cs_reviewId :: "string option"
  cs_blockerReasons :: "string list"

record completion_input =
  pi_runId :: string
  pi_sessionId :: "string option"
  pi_verificationId :: string

record live_verification =
  lv_id :: string
  lv_stateVersion :: int
  lv_stateFingerprint :: string
  lv_targetSha :: string
  lv_evidenceIds :: "string list"

record completion_env =
  ce_sha :: "string \<Rightarrow> string"
  ce_order :: sql_order
  ce_routing :: routing_view
  ce_evidence :: evidence_rows
  ce_reviewOrder :: "review list \<Rightarrow> review list"
  ce_self :: nat
  ce_bound :: "nat option"
  ce_now :: int

definition blocked :: "string \<Rightarrow> string list \<Rightarrow> completion_result" where
  "blocked rid reasons =
     \<lparr>cs_status = POLICY_BLOCKED, cs_run = rid, cs_completionKey = None, cs_reviewId = None,
      cs_blockerReasons = sort (js_unique reasons)\<rparr>"

definition isValidDecisionJson :: "json_cell \<Rightarrow> bool" where
  "isValidDecisionJson c =
     (case c of
        Parsed (JObj ps) \<Rightarrow> map_of (rev ps) ''policyVersion'' = Some (JStr policy_version)
      | _ \<Rightarrow> False)"

definition completionKey :: "string \<Rightarrow> int \<Rightarrow> string \<Rightarrow> string \<Rightarrow> string" where
  "completionKey rid v fp vid =
     ''completion-policy:'' @ rid @ '':'' @ int_str v @ '':'' @ fp @ '':'' @ vid @ '':'' @ policy_version"

text \<open>The ids derived from the key.\<close>

definition completion_review_id :: "completion_env \<Rightarrow> string \<Rightarrow> string" where
  "completion_review_id en key = ''completion-review-'' @ ce_sha en key"

definition completion_event_id :: "completion_env \<Rightarrow> string \<Rightarrow> string" where
  "completion_event_id en key = ''completion-event-'' @ ce_sha en key"

definition completion_outbox_id :: "completion_env \<Rightarrow> string \<Rightarrow> string" where
  "completion_outbox_id en key = ''outbox-'' @ ce_sha en key"

section \<open>Blockers\<close>

definition flag :: "bool \<Rightarrow> string \<Rightarrow> string list" where
  "flag b s = (if b then [s] else [])"

definition collectSnapshotBlockers :: "snapshot \<Rightarrow> string list" where
  "collectSnapshotBlockers sn =
     (let required = filter w_isRequired (sn_workItems sn)
      in flag (sn_phase sn \<noteq> Verifying) ''RUN_NOT_VERIFYING''
       @ flag (sn_isTerminal sn) ''RUN_TERMINAL''
       @ flag (required = []) ''NO_REQUIRED_WORK''
       @ flag (list_ex (\<lambda>w. \<not> w_isSatisfied w) required) ''REQUIRED_WORK_INCOMPLETE''
       @ flag (cc_activeRequired (sn_childState sn) > 0) ''REQUIRED_CHILD_ACTIVE''
       @ flag (cc_failedRequired (sn_childState sn) > 0) ''REQUIRED_CHILD_FAILED''
       @ flag (cc_cancelRequested (sn_childState sn) > 0 \<or> sn_cancellationPending sn)
           ''CANCELLATION_BARRIER_UNRESOLVED''
       @ flag (sn_unresolvedDeferredReplacement sn) ''DEFERRED_REPLACEMENT_UNRESOLVED''
       @ flag (pv_stalled (sn_progress sn)) ''RECOVERY_REQUIRED'')"

fun json_text :: "json \<Rightarrow> string option" where
  "json_text (JStr s) = Some s"
| "json_text _ = None"

definition parseRequiredStringArray :: "json_cell \<Rightarrow> string \<Rightarrow> string list \<times> string list" where
  "parseRequiredStringArray c field =
     (let corrupt = ([], [''LIVE_VERIFICATION_'' @ field @ ''_CORRUPT'']) in
      case c of
        Parsed (JArr xs) \<Rightarrow>
          if list_ex (\<lambda>x. \<not> truthy (json_text x)) xs then corrupt
          else (sort (js_unique (List.map_filter json_text xs)), [])
      | _ \<Rightarrow> corrupt)"

definition version_of :: "sql_val \<Rightarrow> int" where
  "version_of v = (case v of SInt n \<Rightarrow> n | _ \<Rightarrow> 0)"

definition text_of :: "sql_val \<Rightarrow> string" where
  "text_of v = (case v of SText s \<Rightarrow> s | _ \<Rightarrow> [])"

definition loadAndValidateLiveVerification ::
    "string \<Rightarrow> string \<Rightarrow> verification_row list \<Rightarrow> live_verification option \<times> string list" where
  "loadAndValidateLiveVerification vid rid rows =
     (case List.find (\<lambda>r. vr_id r = vid) rows of
        None \<Rightarrow> (None, [''LIVE_VERIFICATION_MISSING''])
      | Some row \<Rightarrow>
          let (evidence, b1) = parseRequiredStringArray (vr_evidence row) ''EVIDENCE_JSON'';
              (failures, b2) = parseRequiredStringArray (vr_failureReasons row) ''FAILURE_REASONS'';
              blockers = b1 @ b2
                @ flag (vr_runId row \<noteq> rid) ''LIVE_VERIFICATION_WRONG_RUN''
                @ flag (vr_verificationType row \<noteq> ''live_orchestration'') ''LIVE_VERIFICATION_WRONG_TYPE''
                @ (if vr_status row \<notin> set verification_statuses then [''LIVE_VERIFICATION_STATUS_CORRUPT'']
                   else flag (vr_status row \<noteq> ''passed'') ''LIVE_VERIFICATION_NOT_PASSED'')
                @ flag (\<not> is_safe_integer (vr_stateVersion row) \<or> version_of (vr_stateVersion row) < 1)
                    ''LIVE_VERIFICATION_STATE_VERSION_CORRUPT''
                @ flag (\<not> fingerprint_pattern (text_of (vr_stateFingerprint row)))
                    ''LIVE_VERIFICATION_FINGERPRINT_CORRUPT''
                @ flag (\<not> sha_pattern (vr_targetSha row) \<or> vr_targetSha row = zero_sha)
                    ''LIVE_VERIFICATION_TARGET_SHA_CORRUPT''
                @ (if vr_isStale row \<noteq> 0 \<and> vr_isStale row \<noteq> 1 then [''LIVE_VERIFICATION_STALE_FLAG_CORRUPT'']
                   else flag (vr_isStale row = 1) ''LIVE_VERIFICATION_STALE'')
                @ flag (evidence = []) ''LIVE_VERIFICATION_NO_EVIDENCE''
                @ flag (failures \<noteq> []) ''LIVE_VERIFICATION_FAILURE_REASONS_PRESENT''
          in if blockers \<noteq> [] then (None, blockers)
             else (Some \<lparr>lv_id = vr_id row, lv_stateVersion = version_of (vr_stateVersion row),
                         lv_stateFingerprint = text_of (vr_stateFingerprint row),
                         lv_targetSha = vr_targetSha row, lv_evidenceIds = evidence\<rparr>, []))"

section \<open>The evaluation\<close>

definition decision_json :: "completion_input \<Rightarrow> snapshot \<Rightarrow> string \<Rightarrow> live_verification \<Rightarrow> json" where
  "decision_json i sn fp v =
     JObj [(''policyVersion'', JStr policy_version), (''runId'', JStr (pi_runId i)),
           (''stateVersion'', JNum (sn_aggregateVersion sn)), (''stateFingerprint'', JStr fp),
           (''verificationId'', JStr (lv_id v)), (''verificationTargetSha'', JStr (lv_targetSha v)),
           (''evidenceIds'', JArr (map JStr (lv_evidenceIds v))), (''decidedPhase'', JStr ''completed'')]"

definition new_review ::
    "completion_env \<Rightarrow> completion_input \<Rightarrow> snapshot \<Rightarrow> string \<Rightarrow> live_verification \<Rightarrow> string \<Rightarrow> review" where
  "new_review en i sn fp v key =
     \<lparr>cv_id = completion_review_id en key, cv_completionKey = key, cv_sessionId = pi_sessionId i,
      cv_taskRunId = Some (pi_runId i), cv_status = RvRunning, cv_candidateId = None, cv_error = None,
      cv_createdAt = ce_now en, cv_completedAt = None, cv_stateVersion = Some (sn_aggregateVersion sn),
      cv_stateFingerprint = Some fp, cv_verificationId = Some (lv_id v),
      cv_decision = Parsed (decision_json i sn fp v), cv_policyVersion = policy_version\<rparr>"

definition completion_cas :: "completion_env \<Rightarrow> completion_input \<Rightarrow> snapshot \<Rightarrow> live_verification \<Rightarrow> cas_input" where
  "completion_cas en i sn v =
     \<lparr>cas_runId = pi_runId i, cas_targetPhase = Completed, cas_expectedPhase = Verifying,
      cas_expectedAggregateVersion = sn_aggregateVersion sn, cas_authority = None,
      cas_completionPolicy = Some (ce_self en), cas_sha = Some (lv_targetSha v)\<rparr>"

text \<open>\<open>UPDATE task_runs SET completed_at\<close> and the updates of the running review with the key.\<close>

definition stamp_completed :: "string \<Rightarrow> int \<Rightarrow> int \<Rightarrow> orch_db \<Rightarrow> orch_db" where
  "stamp_completed rid v now d =
     d\<lparr>db_runs := map (\<lambda>r. if row_runId r = rid \<and> row_state r = Completed \<and> row_aggregateVersion r = v
                         then r\<lparr>row_completedAt := Some now\<rparr> else r) (db_runs d)\<rparr>"

definition update_review :: "string \<Rightarrow> (review \<Rightarrow> review) \<Rightarrow> review list \<Rightarrow> review list" where
  "update_review key f rs =
     map (\<lambda>r. if cv_completionKey r = key \<and> cv_status r = RvRunning then f r else r) rs"

definition completed_event ::
    "completion_env \<Rightarrow> completion_input \<Rightarrow> snapshot \<Rightarrow> string \<Rightarrow> live_verification \<Rightarrow> string \<Rightarrow> ledger_event" where
  "completed_event en i sn fp v key =
     \<lparr>le_eventId = completion_event_id en key, le_eventType = ''run.completed'',
      le_causationId = Some (lv_id v), le_correlationId = Some (pi_runId i), le_aggregateType = ''task_run'',
      le_aggregateId = pi_runId i, le_aggregateVersion = sn_aggregateVersion sn + 1,
      le_data = decision_json i sn fp v, le_metadata = JObj [], le_createdTs = ce_now en\<rparr>"

definition completed_entry ::
    "completion_env \<Rightarrow> completion_input \<Rightarrow> snapshot \<Rightarrow> string \<Rightarrow> live_verification \<Rightarrow> string \<Rightarrow> outbox_row" where
  "completed_entry en i sn fp v key =
     \<lparr>ob_id = completion_outbox_id en key, ob_eventId = completion_event_id en key,
      ob_eventType = ''run.completed'', ob_aggregateId = pi_runId i, ob_data = decision_json i sn fp v,
      ob_status = ObPending, ob_retryCount = 0, ob_idempotencyKey = key,
      ob_sourceComponent = ''completion_policy'', ob_createdTs = ce_now en\<rparr>"

definition decision_of ::
    "completion_env \<Rightarrow> completion_input \<Rightarrow> snapshot \<Rightarrow> string \<Rightarrow> live_verification \<Rightarrow> string \<Rightarrow> decision_row" where
  "decision_of en i sn fp v key =
     \<lparr>dc_id = completion_event_id en key, dc_runId = pi_runId i, dc_sha = lv_targetSha v,
      dc_checks = decision_json i sn fp v, dc_idempotencyKey = key, dc_decidedAt = ce_now en\<rparr>"

text \<open>The writes after the phase change has been made.\<close>

definition record_completion ::
    "completion_env \<Rightarrow> completion_input \<Rightarrow> snapshot \<Rightarrow> string \<Rightarrow> live_verification \<Rightarrow> string \<Rightarrow> completion_db
      \<Rightarrow> repo_error + completion_db" where
  "record_completion en i sn fp v key c =
     (let eventId = completion_event_id en key;
          l1 = (co_ledger c)\<lparr>lg_orch := stamp_completed (pi_runId i) (sn_aggregateVersion sn + 1) (ce_now en)
                                        (lg_orch (co_ledger c))\<rparr>;
          reviews = update_review key (\<lambda>r. r\<lparr>cv_status := RvCompleted, cv_candidateId := Some eventId,
                      cv_error := None, cv_completedAt := Some (ce_now en),
                      cv_decision := Parsed (decision_json i sn fp v)\<rparr>) (co_reviews c);
          decisions = insert_decision_or_ignore (decision_of en i sn fp v key) (co_decisions c)
      in case insert_outbox_or_ignore (completed_entry en i sn fp v key)
                (insert_event_or_ignore (completed_event en i sn fp v key) l1) of
           Inl e \<Rightarrow> Inl e
         | Inr l2 \<Rightarrow> Inr (c\<lparr>co_ledger := l2, co_reviews := reviews, co_decisions := decisions\<rparr>))"

definition transition_and_record ::
    "completion_env \<Rightarrow> completion_input \<Rightarrow> snapshot \<Rightarrow> string \<Rightarrow> live_verification \<Rightarrow> string
      \<Rightarrow> (completion_status \<Rightarrow> string \<Rightarrow> string list \<Rightarrow> completion_result) \<Rightarrow> string \<Rightarrow> completion_db
      \<Rightarrow> repo_error + (completion_result \<times> completion_db)" where
  "transition_and_record en i sn fp v key answer reviewId c =
     (case transitionPhase (ce_bound en) (completion_cas en i sn v) (lg_orch (co_ledger c)) of
        Inl e \<Rightarrow> Inl e
      | Inr (transitioned, d) \<Rightarrow>
          if \<not> transitioned
          then Inr (answer CONFLICT reviewId [''COMPLETION_CAS_CONFLICT''],
                    c\<lparr>co_reviews := update_review key (\<lambda>r. r\<lparr>cv_status := RvFailed,
                        cv_error := Some ''COMPLETION_CAS_CONFLICT'', cv_completedAt := Some (ce_now en)\<rparr>)
                        (co_reviews c)\<rparr>)
          else
            (case record_completion en i sn fp v key (c\<lparr>co_ledger := (co_ledger c)\<lparr>lg_orch := d\<rparr>\<rparr>) of
               Inl e \<Rightarrow> Inl e
             | Inr c' \<Rightarrow> Inr (answer COMPLETED reviewId [], c')))"

text \<open>The part behind the blockers: the review with the key, the phase change, the writes.\<close>

definition complete_run ::
    "completion_env \<Rightarrow> completion_input \<Rightarrow> snapshot \<Rightarrow> string \<Rightarrow> live_verification \<Rightarrow> completion_db
      \<Rightarrow> repo_error + (completion_result \<times> completion_db)" where
  "complete_run en i sn fp v c =
     (let rid = pi_runId i;
          key = completionKey rid (sn_aggregateVersion sn) fp (lv_id v);
          rvw = new_review en i sn fp v key;
          answer = (\<lambda>st rev why. \<lparr>cs_status = st, cs_run = rid, cs_completionKey = Some key, cs_reviewId = Some rev,
                                cs_blockerReasons = why\<rparr>);
          existing = List.find (\<lambda>r. cv_completionKey r = key) (co_reviews c)
      in
      case existing of
        Some x \<Rightarrow>
          if cv_status x = RvCompleted then
            (if \<not> isValidDecisionJson (cv_decision x) then Inr (blocked rid [''COMPLETION_REVIEW_CORRUPT''], c)
             else Inr (answer ALREADY_COMPLETED (cv_id x) [], c))
          else if cv_status x \<noteq> RvRunning
          then Inr (blocked rid [''COMPLETION_REVIEW_TERMINAL_WITHOUT_COMPLETION''], c)
          else transition_and_record en i sn fp v key answer (cv_id rvw) c
      | None \<Rightarrow>
          if review_conflict (co_reviews c) rvw then Inl ConstraintFailed
          else transition_and_record en i sn fp v key answer (cv_id rvw) (c\<lparr>co_reviews := co_reviews c @ [rvw]\<rparr>))"

definition policy_blockers ::
    "completion_env \<Rightarrow> completion_input \<Rightarrow> snapshot \<Rightarrow> string option \<Rightarrow> completion_db
      \<Rightarrow> live_verification option \<times> string list" where
  "policy_blockers en i sn fp c =
     (let (value, vb) = loadAndValidateLiveVerification (pi_verificationId i) (pi_runId i) (co_verifications c)
      in (value,
          collectSnapshotBlockers sn
          @ flag (\<not> truthy fp \<or> \<not> fingerprint_pattern (nullish fp [])) ''STATE_FINGERPRINT_UNAVAILABLE''
          @ vb
          @ (case value of
               Some v \<Rightarrow>
                 if truthy fp
                 then flag (lv_stateVersion v \<noteq> sn_aggregateVersion sn) ''VERIFICATION_STATE_VERSION_STALE''
                    @ flag (Some (lv_stateFingerprint v) \<noteq> fp) ''VERIFICATION_STATE_FINGERPRINT_STALE''
                 else []
             | None \<Rightarrow> [])))"

definition completed_before :: "completion_env \<Rightarrow> completion_input \<Rightarrow> completion_db \<Rightarrow> completion_result" where
  "completed_before en i c =
     (case ce_reviewOrder en (filter (\<lambda>r. cv_taskRunId r = Some (pi_runId i) \<and> cv_status r = RvCompleted)
             (co_reviews c)) of
        [] \<Rightarrow> blocked (pi_runId i) [''COMPLETED_WITHOUT_VALID_POLICY_REVIEW'']
      | x # _ \<Rightarrow>
          if \<not> isValidDecisionJson (cv_decision x)
          then blocked (pi_runId i) [''COMPLETED_WITHOUT_VALID_POLICY_REVIEW'']
          else \<lparr>cs_status = ALREADY_COMPLETED, cs_run = pi_runId i, cs_completionKey = Some (cv_completionKey x),
                cs_reviewId = Some (cv_id x), cs_blockerReasons = []\<rparr>)"

definition evaluateInTransaction ::
    "completion_env \<Rightarrow> completion_input \<Rightarrow> progress_mem \<Rightarrow> completion_db
      \<Rightarrow> repo_error + (completion_result \<times> completion_db)" where
  "evaluateInTransaction en i mem c =
     (let d = lg_orch (co_ledger c) in
      case getSnapshot (ce_order en) (ce_routing en) (pi_runId i) (pi_sessionId i) mem d of
        None \<Rightarrow> Inr (blocked (pi_runId i) [''RUN_NOT_FOUND''], c)
      | Some sn \<Rightarrow>
          if sn_phase sn = Completed then Inr (completed_before en i c, c)
          else
            let fp = computeStateFingerprint (ce_sha en) (ce_order en) (ce_routing en) (ce_evidence en)
                       (pi_runId i) (pi_sessionId i) mem d
            in case policy_blockers en i sn fp c of
                 (value, blockers) \<Rightarrow>
                   if blockers \<noteq> [] \<or> value = None \<or> \<not> truthy fp then Inr (blocked (pi_runId i) blockers, c)
                   else complete_run en i sn (the fp) (the value) c)"

text \<open>\<open>writeImmediate\<close>: an exception rolls the transaction back, so an \<open>Inl\<close> carries no tables.\<close>

definition evaluateAndComplete ::
    "completion_env \<Rightarrow> completion_input \<Rightarrow> progress_mem \<Rightarrow> completion_db
      \<Rightarrow> repo_error + (completion_result \<times> completion_db)" where
  "evaluateAndComplete en i mem c = evaluateInTransaction en i mem c"

section \<open>What passes\<close>

lemma flag_simps [simp]: "flag b s = [] \<longleftrightarrow> \<not> b" "set (flag b s) = (if b then {s} else {})"
  by (simp_all add: flag_def)

definition work_done :: "snapshot \<Rightarrow> bool" where
  "work_done sn \<longleftrightarrow> sn_phase sn = Verifying
     \<and> (\<exists>w \<in> set (sn_workItems sn). w_isRequired w) \<and> (\<forall>w \<in> set (sn_workItems sn). w_isRequired w \<longrightarrow> w_isSatisfied w)
     \<and> cc_activeRequired (sn_childState sn) = 0 \<and> cc_failedRequired (sn_childState sn) = 0
     \<and> cc_cancelRequested (sn_childState sn) = 0 \<and> \<not> sn_cancellationPending sn
     \<and> \<not> sn_unresolvedDeferredReplacement sn \<and> \<not> pv_stalled (sn_progress sn)"

lemma collectSnapshotBlockers_Nil:
  "collectSnapshotBlockers sn = [] \<longleftrightarrow> work_done sn \<and> \<not> sn_isTerminal sn"
  by (auto simp: collectSnapshotBlockers_def Let_def work_done_def list_ex_iff filter_empty_conv)

text \<open>A list of evidence ids as the column must hold it: non-empty strings only.\<close>

definition string_array :: "json_cell \<Rightarrow> string list \<Rightarrow> bool" where
  "string_array c ids \<longleftrightarrow> c = Parsed (JArr (map JStr ids)) \<and> [] \<notin> set ids"

lemma all_texts:
  "(\<forall>x \<in> set xs. truthy (json_text x)) \<longleftrightarrow> (\<exists>ids. xs = map JStr ids \<and> [] \<notin> set ids)"
proof (induction xs)
  case (Cons x xs)
  have "truthy (json_text x) \<longleftrightarrow> (\<exists>t. x = JStr t \<and> t \<noteq> [])" by (cases x) auto
  moreover have "(\<exists>ids. x # xs = map JStr ids \<and> [] \<notin> set ids)
      \<longleftrightarrow> (\<exists>t. x = JStr t \<and> t \<noteq> []) \<and> (\<exists>ids. xs = map JStr ids \<and> [] \<notin> set ids)"
    (is "?l \<longleftrightarrow> ?r")
  proof
    assume ?r
    then obtain t ids where "x = JStr t" "t \<noteq> []" "xs = map JStr ids" "[] \<notin> set ids" by blast
    then show ?l by (intro exI [of _ "t # ids"]) simp
  next
    assume ?l
    then obtain ids where ids: "x # xs = map JStr ids" "[] \<notin> set ids" by (elim exE conjE)
    then obtain t us where "ids = t # us" by (cases ids) simp_all
    with ids have "x = JStr t" "t \<noteq> []" "xs = map JStr us" "[] \<notin> set us" by auto
    then show ?r by blast
  qed
  ultimately show ?case using Cons by simp
qed simp

lemma map_filter_texts [simp]: "List.map_filter json_text (map JStr ids) = ids"
  by (induction ids) simp_all

lemma parse_array:
  "snd (parseRequiredStringArray c f) = [] \<longleftrightarrow> (\<exists>ids. string_array c ids)"
  "string_array c ids \<Longrightarrow> parseRequiredStringArray c f = (sort (js_unique ids), [])"
proof -
  show "snd (parseRequiredStringArray c f) = [] \<longleftrightarrow> (\<exists>ids. string_array c ids)"
  proof (cases "\<exists>xs. c = Parsed (JArr xs)")
    case True
    then obtain xs where "c = Parsed (JArr xs)" by blast
    with all_texts [of xs] show ?thesis
      by (auto simp: parseRequiredStringArray_def Let_def list_ex_iff string_array_def)
  next
    case False
    then show ?thesis
      by (auto simp: parseRequiredStringArray_def Let_def string_array_def split: json_cell.split json.split)
  qed
  show "string_array c ids \<Longrightarrow> parseRequiredStringArray c f = (sort (js_unique ids), [])"
    by (auto simp: parseRequiredStringArray_def string_array_def Let_def list_ex_iff)
qed

text \<open>What a row of \<open>verification_results\<close> must be to count, and what is read from it.\<close>

definition passed_row :: "string \<Rightarrow> verification_row \<Rightarrow> string list \<Rightarrow> int \<Rightarrow> string \<Rightarrow> bool" where
  "passed_row rid row ids v fp \<longleftrightarrow>
     vr_runId row = rid \<and> vr_verificationType row = ''live_orchestration'' \<and> vr_status row = ''passed''
     \<and> vr_isStale row = 0 \<and> vr_stateVersion row = SInt v \<and> 1 \<le> v \<and> v \<le> 9007199254740991
     \<and> vr_stateFingerprint row = SText fp \<and> fingerprint_pattern fp
     \<and> sha_pattern (vr_targetSha row) \<and> vr_targetSha row \<noteq> zero_sha
     \<and> string_array (vr_evidence row) ids \<and> ids \<noteq> [] \<and> string_array (vr_failureReasons row) []"

definition verification_of :: "verification_row \<Rightarrow> string list \<Rightarrow> int \<Rightarrow> string \<Rightarrow> live_verification" where
  "verification_of row ids v fp =
     \<lparr>lv_id = vr_id row, lv_stateVersion = v, lv_stateFingerprint = fp, lv_targetSha = vr_targetSha row,
      lv_evidenceIds = sort (js_unique ids)\<rparr>"

lemma sort_Nil [simp]: "sort xs = [] \<longleftrightarrow> xs = []" "[] = sort xs \<longleftrightarrow> xs = []"
  by (metis mset_sort mset_zero_iff)+

lemma js_unique_Nil [simp]: "js_unique xs = [] \<longleftrightarrow> xs = []"
  by (metis set_empty set_js_unique)

lemma sql_val_reads:
  "is_safe_integer x \<and> \<not> version_of x < 1 \<longleftrightarrow> (\<exists>n. x = SInt n \<and> 1 \<le> n \<and> n \<le> 9007199254740991)"
  "fingerprint_pattern (text_of x) \<longleftrightarrow> (\<exists>t. x = SText t \<and> fingerprint_pattern t)"
  by (cases x; auto simp: is_safe_integer_def version_of_def text_of_def fingerprint_pattern_def)+

lemma passed_row_load:
  assumes "List.find (\<lambda>r. vr_id r = vid) rows = Some row" and "passed_row rid row ids v fp"
  shows "loadAndValidateLiveVerification vid rid rows = (Some (verification_of row ids v fp), [])"
  using assms
  by (auto simp: loadAndValidateLiveVerification_def passed_row_def parse_array(2) verification_statuses_def
      is_safe_integer_def version_of_def text_of_def verification_of_def)

lemma load_passed_row:
  assumes "loadAndValidateLiveVerification vid rid rows = (Some lv, b)"
  obtains row ids v fp where "List.find (\<lambda>r. vr_id r = vid) rows = Some row" "passed_row rid row ids v fp"
    "lv = verification_of row ids v fp" "b = []"
proof -
  obtain row where row: "List.find (\<lambda>r. vr_id r = vid) rows = Some row"
    using assms by (auto simp: loadAndValidateLiveVerification_def split: option.splits)
  obtain e b1 f b2 where parts: "parseRequiredStringArray (vr_evidence row) ''EVIDENCE_JSON'' = (e, b1)"
      "parseRequiredStringArray (vr_failureReasons row) ''FAILURE_REASONS'' = (f, b2)"
    by (metis surj_pair)
  have nil: "b1 = []" "b2 = []" "e \<noteq> []" "f = []" "b = []"
    and other: "vr_runId row = rid" "vr_verificationType row = ''live_orchestration''" "vr_status row = ''passed''"
      "vr_isStale row = 0" "is_safe_integer (vr_stateVersion row) \<and> \<not> version_of (vr_stateVersion row) < 1"
      "fingerprint_pattern (text_of (vr_stateFingerprint row))" "sha_pattern (vr_targetSha row)"
      "vr_targetSha row \<noteq> zero_sha"
    and lv: "lv = \<lparr>lv_id = vr_id row, lv_stateVersion = version_of (vr_stateVersion row),
                lv_stateFingerprint = text_of (vr_stateFingerprint row), lv_targetSha = vr_targetSha row,
                lv_evidenceIds = e\<rparr>"
    using assms by (simp_all add: loadAndValidateLiveVerification_def row parts Let_def split: if_splits)
  obtain ids where ids: "string_array (vr_evidence row) ids"
    using parse_array(1) [of "vr_evidence row"] parts(1) nil by (metis snd_conv)
  obtain fs where fs: "string_array (vr_failureReasons row) fs"
    using parse_array(1) [of "vr_failureReasons row"] parts(2) nil by (metis snd_conv)
  have e: "e = sort (js_unique ids)" "fs = []" "ids \<noteq> []"
    using parse_array(2) [OF ids, of "''EVIDENCE_JSON''"] parse_array(2) [OF fs, of "''FAILURE_REASONS''"] parts nil
    by auto
  obtain v where v: "vr_stateVersion row = SInt v" "1 \<le> v" "v \<le> 9007199254740991"
    using other(5) sql_val_reads(1) by blast
  obtain t where t: "vr_stateFingerprint row = SText t" "fingerprint_pattern t"
    using other(6) sql_val_reads(2) by blast
  have "passed_row rid row ids v t" using other v t ids fs e by (simp add: passed_row_def)
  moreover have "lv = verification_of row ids v t"
    using lv v t e by (simp add: verification_of_def version_of_def text_of_def)
  ultimately show ?thesis using row nil(5) that by blast
qed

section \<open>The phase change of the policy\<close>

abbreviation policy_db :: "completion_db \<Rightarrow> orch_db" where
  "policy_db c \<equiv> lg_orch (co_ledger c)"

abbreviation policy_snapshot :: "completion_env \<Rightarrow> completion_input \<Rightarrow> progress_mem \<Rightarrow> completion_db \<Rightarrow> snapshot option" where
  "policy_snapshot en i mem c \<equiv> getSnapshot (ce_order en) (ce_routing en) (pi_runId i) (pi_sessionId i) mem (policy_db c)"

abbreviation policy_fingerprint :: "completion_env \<Rightarrow> completion_input \<Rightarrow> progress_mem \<Rightarrow> completion_db \<Rightarrow> string option" where
  "policy_fingerprint en i mem c \<equiv>
     computeStateFingerprint (ce_sha en) (ce_order en) (ce_routing en) (ce_evidence en) (pi_runId i)
       (pi_sessionId i) mem (policy_db c)"

lemma snapshot_row:
  assumes "getSnapshot q rv rid sid mem d = Some sn"
  obtains row where "findById (db_runs d) rid = Some row" "row_state row = sn_phase sn"
    "row_aggregateVersion row = sn_aggregateVersion sn" "sn_isTerminal sn \<longleftrightarrow> sn_phase sn \<in> set terminal_phases"
  using assms by (auto simp: getSnapshot_def Let_def split: option.splits)

text \<open>Everything the policy asks for, as it stands in the tables.\<close>

definition justified ::
    "completion_env \<Rightarrow> completion_input \<Rightarrow> progress_mem \<Rightarrow> completion_db
      \<Rightarrow> snapshot \<Rightarrow> string \<Rightarrow> verification_row \<Rightarrow> string list \<Rightarrow> bool" where
  "justified en i mem c sn fp row ids \<longleftrightarrow>
     policy_snapshot en i mem c = Some sn \<and> work_done sn
     \<and> policy_fingerprint en i mem c = Some fp
     \<and> List.find (\<lambda>r. vr_id r = pi_verificationId i) (co_verifications c) = Some row
     \<and> passed_row (pi_runId i) row ids (sn_aggregateVersion sn) fp"

lemma fingerprint_truthy [simp]: "fingerprint_pattern fp \<Longrightarrow> fp \<noteq> []"
  by (auto simp: fingerprint_pattern_def)

lemma blockers_Nil:
  assumes "policy_snapshot en i mem c = Some sn" and "sn_phase sn \<noteq> Completed"
    and "policy_blockers en i sn (policy_fingerprint en i mem c) c = (Some v, [])"
  obtains fp row ids where "justified en i mem c sn fp row ids"
    "v = verification_of row ids (sn_aggregateVersion sn) fp"
proof -
  let ?fp = "policy_fingerprint en i mem c"
  obtain b where load: "loadAndValidateLiveVerification (pi_verificationId i) (pi_runId i) (co_verifications c) = (Some v, b)"
    using assms(3) by (cases "loadAndValidateLiveVerification (pi_verificationId i) (pi_runId i) (co_verifications c)")
      (simp add: policy_blockers_def)
  from load_passed_row [OF load] obtain row ids n fp where
    row: "List.find (\<lambda>r. vr_id r = pi_verificationId i) (co_verifications c) = Some row"
    and passed: "passed_row (pi_runId i) row ids n fp" and v: "v = verification_of row ids n fp" "b = []"
    by blast
  have fp: "?fp = Some fp" and n: "n = sn_aggregateVersion sn" and snap: "collectSnapshotBlockers sn = []"
    using assms(3) v by (auto simp: policy_blockers_def load verification_of_def)
  with row passed v(1) assms(1) show ?thesis
    by (intro that [of fp row ids]) (simp_all add: justified_def collectSnapshotBlockers_Nil)
qed

lemma justified_blockers:
  assumes "justified en i mem c sn fp row ids"
  shows "policy_blockers en i sn (Some fp) c = (Some (verification_of row ids (sn_aggregateVersion sn) fp), [])"
proof -
  have passed: "passed_row (pi_runId i) row ids (sn_aggregateVersion sn) fp"
    and row: "List.find (\<lambda>r. vr_id r = pi_verificationId i) (co_verifications c) = Some row"
    and sn: "policy_snapshot en i mem c = Some sn" and wd: "work_done sn"
    using assms by (simp_all add: justified_def)
  have "\<not> sn_isTerminal sn" 
    by (rule snapshot_row [OF sn]) (use wd in \<open>simp add: work_done_def\<close>)
  moreover have "fingerprint_pattern fp" using passed by (simp add: passed_row_def)
  ultimately show ?thesis
    using wd by (simp add: policy_blockers_def passed_row_load [OF row passed] collectSnapshotBlockers_Nil
        verification_of_def)
qed

lemma completion_cas_eq:
  assumes "runs_ok (db_runs d)" and "findById (db_runs d) (pi_runId i) = Some r"
    and "row_state r = Verifying" and "row_aggregateVersion r = sn_aggregateVersion sn"
  shows "transitionPhase b (completion_cas en i sn v) d =
     (if b = Some (ce_self en)
      then Inr (True, d\<lparr>db_runs := map (\<lambda>x. if row_runId x = pi_runId i then advance_row Completed (Some (lv_targetSha v)) x
                                        else x) (db_runs d)\<rparr>)
      else Inr (False, d))"
  using assms
  by (auto simp: transitionPhase_def completion_cas_def isValidPhaseTransition_def
      transitionPhaseCas_eq [of _ _ Verifying _ Completed, simplified])

section \<open>Properties\<close>

lemma evaluate_cases:
  assumes "evaluateAndComplete en i mem c = Inr (r, c')"
  obtains "c' = c" and "cs_status r \<in> {POLICY_BLOCKED, ALREADY_COMPLETED}"
  | sn fp row ids where "justified en i mem c sn fp row ids"
      "complete_run en i sn fp (verification_of row ids (sn_aggregateVersion sn) fp) c = Inr (r, c')"
proof (cases "policy_snapshot en i mem c")
  case None
  then have "r = blocked (pi_runId i) [''RUN_NOT_FOUND'']" "c' = c"
    using assms by (auto simp: evaluateAndComplete_def evaluateInTransaction_def)
  then show ?thesis by (intro that(1)) (simp_all add: blocked_def)
next
  case (Some sn)
  note sn = this
  show ?thesis
  proof (cases "sn_phase sn = Completed")
    case True
    then have "c' = c" "cs_status r \<in> {POLICY_BLOCKED, ALREADY_COMPLETED}"
      using assms sn by (auto simp: evaluateAndComplete_def evaluateInTransaction_def completed_before_def
          blocked_def split: list.splits)
    then show ?thesis by (rule that(1))
  next
    case False
    obtain v bs where b: "policy_blockers en i sn (policy_fingerprint en i mem c) c = (v, bs)"
      by (metis surj_pair)
    show ?thesis
    proof (cases "bs \<noteq> [] \<or> v = None \<or> \<not> truthy (policy_fingerprint en i mem c)")
      case True
      with assms sn False b have "r = blocked (pi_runId i) bs" "c' = c"
        by (auto simp: evaluateAndComplete_def evaluateInTransaction_def Let_def)
      then show ?thesis by (intro that(1)) (simp_all add: blocked_def)
    next
      case nb: False
      then obtain lv where lv: "v = Some lv" "bs = []" by (cases v) auto
      obtain fp row ids where j: "justified en i mem c sn fp row ids"
          "lv = verification_of row ids (sn_aggregateVersion sn) fp"
        by (rule blockers_Nil [OF sn False b [unfolded lv]])
      moreover have "policy_fingerprint en i mem c = Some fp" using j(1) by (simp add: justified_def)
      ultimately show ?thesis
        using assms sn False b nb lv
        by (intro that(2) [OF j(1)])
          (simp add: evaluateAndComplete_def evaluateInTransaction_def Let_def)
    qed
  qed
qed

lemma justified_evaluation:
  assumes "justified en i mem c sn fp row ids"
  shows "evaluateAndComplete en i mem c =
     complete_run en i sn fp (verification_of row ids (sn_aggregateVersion sn) fp) c"
proof -
  have "policy_snapshot en i mem c = Some sn" "policy_fingerprint en i mem c = Some fp" "sn_phase sn \<noteq> Completed"
      "fp \<noteq> []"
    using assms by (auto simp: justified_def work_done_def passed_row_def)
  with justified_blockers [OF assms] show ?thesis
    by (simp add: evaluateAndComplete_def evaluateInTransaction_def Let_def)
qed

text \<open>A completion keeps the keys and the claims of the ledger; its event may leave a gap in the numbering of the run.\<close>

lemma claims_kept_frame:
  assumes "claims_kept l" and "db_meta (lg_orch l') = db_meta (lg_orch l)" "db_calls (lg_orch l') = db_calls (lg_orch l)"
    and "map row_runId (db_runs (lg_orch l')) = map row_runId (db_runs (lg_orch l))"
  shows "claims_kept l'"
proof -
  have "findById (db_runs (lg_orch l')) rid = None \<longleftrightarrow> findById (db_runs (lg_orch l)) rid = None" for rid
    unfolding findById_None_ids assms(4) ..
  with assms show ?thesis
    unfolding claims_kept_def meta_ok_def runs_ok_def claims_ok_def claim_sound_def by simp
qed

lemma updated_rows_ids: "update_rows c p sha rows = Inr (n, rows') \<Longrightarrow> map row_runId rows' = map row_runId rows"
  by (auto simp: update_rows_def split: if_splits option.splits)

lemma transition_frame:
  assumes "transitionPhase bound i d = Inr (ok, d')"
  shows "db_meta d' = db_meta d \<and> db_calls d' = db_calls d \<and> map row_runId (db_runs d') = map row_runId (db_runs d)"
  using assms
  by (auto simp: transitionPhase_def transitionPhaseCas_def dest: updated_rows_ids
      split: if_splits option.splits sum.splits prod.splits)

lemma stamp_frame:
  "db_meta (stamp_completed rid v now d) = db_meta d" "db_calls (stamp_completed rid v now d) = db_calls d"
  "map row_runId (db_runs (stamp_completed rid v now d)) = map row_runId (db_runs d)"
  by (simp_all add: stamp_completed_def)

lemma completion_keeps_claims:
  assumes "evaluateAndComplete en i mem c = Inr (r, c')" and "claims_kept (co_ledger c)"
  shows "claims_kept (co_ledger c')"
proof -
  have kept: "claims_kept (co_ledger c2)"
    if tr: "transition_and_record en i sn fp v key answer rid c1 = Inr (r, c2)" and same: "co_ledger c1 = co_ledger c"
    for sn fp v key answer rid c1 c2
  proof -
    obtain ok d where t: "transitionPhase (ce_bound en) (completion_cas en i sn v) (lg_orch (co_ledger c)) = Inr (ok, d)"
      using tr unfolding transition_and_record_def same by (auto split: sum.splits)
    have "db_meta (lg_orch (co_ledger c2)) = db_meta (lg_orch (co_ledger c))
        \<and> db_calls (lg_orch (co_ledger c2)) = db_calls (lg_orch (co_ledger c))
        \<and> map row_runId (db_runs (lg_orch (co_ledger c2))) = map row_runId (db_runs (lg_orch (co_ledger c)))"
      using tr t transition_frame [OF t]
      by (auto simp: same transition_and_record_def record_completion_def insert_outbox_or_ignore_def insert_event_or_ignore_def
          stamp_frame Let_def split: if_splits sum.splits)
    then show ?thesis using claims_kept_frame [OF assms(2)] by blast
  qed
  show ?thesis
    by (rule evaluate_cases [OF assms(1)])
      (use assms(2) kept in \<open>auto simp: complete_run_def Let_def split: option.splits if_splits\<close>)
qed

lemma transition_and_record_cases:
  assumes ok: "runs_ok (db_runs (policy_db c))" and j: "justified en i mem c sn fp row ids"
    and t: "transition_and_record en i sn fp v key answer rid c1 = Inr (r, c')"
    and same: "co_ledger c1 = co_ledger c"
  shows "if ce_bound en = Some (ce_self en) then r = answer COMPLETED rid []
     else co_ledger c' = co_ledger c \<and> r = answer CONFLICT rid [''COMPLETION_CAS_CONFLICT'']"
proof -
  obtain x where x: "findById (db_runs (policy_db c)) (pi_runId i) = Some x"
      "row_state x = Verifying" "row_aggregateVersion x = sn_aggregateVersion sn"
    using j by (metis justified_def snapshot_row work_done_def)
  show ?thesis
    using t by (auto simp: transition_and_record_def same completion_cas_eq [OF ok x] split: sum.splits)
qed

text \<open>
  C1. Only justified completions change the ledger: if an evaluation changes any run, event or
  outbox row, it answers \<open>COMPLETED\<close>, it is made by the policy bound to the engine, and at that
  moment the run is verifying, has required work, all of it satisfied, no required child active or
  failed, no pending cancellation or replacement, is not stalled, and the named verification row is
  a passed, fresh live check of this run with evidence and no failures, made on the version and
  fingerprint that the state has now.
\<close>

theorem completion_justified:
  assumes "runs_ok (db_runs (policy_db c))" and "evaluateAndComplete en i mem c = Inr (r, c')"
    and "co_ledger c' \<noteq> co_ledger c"
  shows "cs_status r = COMPLETED \<and> ce_bound en = Some (ce_self en)
     \<and> (\<exists>sn fp row ids. justified en i mem c sn fp row ids)"
  using assms(2)
proof (rule evaluate_cases)
  fix sn :: snapshot and fp row ids
  let ?v = "verification_of row ids (sn_aggregateVersion sn) fp"
  assume j: "justified en i mem c sn fp row ids" and r: "complete_run en i sn fp ?v c = Inr (r, c')"
  note cases = transition_and_record_cases [OF assms(1) j]
  show ?thesis
    using r assms(3) j
    by (auto simp: complete_run_def Let_def split: option.splits if_splits dest!: cases)
qed (use assms(3) in simp)

text \<open>The tables after a completion whose ids are new.\<close>

definition completed_review ::
    "completion_env \<Rightarrow> completion_input \<Rightarrow> snapshot \<Rightarrow> string \<Rightarrow> live_verification \<Rightarrow> string \<Rightarrow> review" where
  "completed_review en i sn fp v key =
     (new_review en i sn fp v key)\<lparr>cv_status := RvCompleted,
        cv_candidateId := Some (completion_event_id en key), cv_completedAt := Some (ce_now en)\<rparr>"

definition after_completion ::
    "completion_env \<Rightarrow> completion_input \<Rightarrow> snapshot \<Rightarrow> string \<Rightarrow> live_verification \<Rightarrow> string \<Rightarrow> completion_db
      \<Rightarrow> completion_db" where
  "after_completion en i sn fp v key c =
     c\<lparr>co_ledger := (co_ledger c)\<lparr>
          lg_orch := stamp_completed (pi_runId i) (sn_aggregateVersion sn + 1) (ce_now en)
            ((policy_db c)\<lparr>db_runs := map (\<lambda>x. if row_runId x = pi_runId i
               then advance_row Completed (Some (lv_targetSha v)) x else x) (db_runs (policy_db c))\<rparr>),
          lg_events := lg_events (co_ledger c) @ [completed_event en i sn fp v key],
          lg_outbox := lg_outbox (co_ledger c) @ [completed_entry en i sn fp v key]\<rparr>,
       co_reviews := co_reviews c @ [completed_review en i sn fp v key],
       co_decisions := co_decisions c @ [decision_of en i sn fp v key]\<rparr>"

definition completion_fresh ::
    "completion_env \<Rightarrow> completion_input \<Rightarrow> snapshot \<Rightarrow> string \<Rightarrow> live_verification \<Rightarrow> string \<Rightarrow> completion_db \<Rightarrow> bool" where
  "completion_fresh en i sn fp v key c \<longleftrightarrow>
     \<not> review_conflict (co_reviews c) (new_review en i sn fp v key)
     \<and> \<not> event_known (co_ledger c) (completion_event_id en key)
     \<and> \<not> outbox_conflict (co_ledger c) (completed_entry en i sn fp v key)
     \<and> \<not> list_ex (\<lambda>x. dc_id x = completion_event_id en key \<or> dc_idempotencyKey x = key) (co_decisions c)"

definition event_slot_taken :: "ledger \<Rightarrow> string \<Rightarrow> int \<Rightarrow> bool" where
  "event_slot_taken l rid v \<longleftrightarrow>
     list_ex (\<lambda>x. le_aggregateType x = ''task_run'' \<and> le_aggregateId x = rid \<and> le_aggregateVersion x = v) (lg_events l)"

lemma record_completion_eq:
  assumes "completion_fresh en i sn fp v key c"
    and "c1 = c\<lparr>co_reviews := co_reviews c @ [new_review en i sn fp v key], co_ledger := (co_ledger c)\<lparr>lg_orch := d\<rparr>\<rparr>"
  shows "record_completion en i sn fp v key c1 =
     (if event_slot_taken (co_ledger c) (pi_runId i) (sn_aggregateVersion sn + 1) then Inl ConstraintFailed
      else Inr (c\<lparr>co_ledger := (co_ledger c)\<lparr>
          lg_orch := stamp_completed (pi_runId i) (sn_aggregateVersion sn + 1) (ce_now en) d,
          lg_events := lg_events (co_ledger c) @ [completed_event en i sn fp v key],
          lg_outbox := lg_outbox (co_ledger c) @ [completed_entry en i sn fp v key]\<rparr>,
        co_reviews := co_reviews c @ [completed_review en i sn fp v key],
        co_decisions := co_decisions c @ [decision_of en i sn fp v key]\<rparr>))"
proof -
  have others: "\<forall>x \<in> set (co_reviews c). cv_completionKey x \<noteq> key"
    using assms(1) by (auto simp: completion_fresh_def review_conflict_def list_ex_iff new_review_def)
  then have reviews: "update_review key f (co_reviews c @ [new_review en i sn fp v key])
      = co_reviews c @ [f (new_review en i sn fp v key)]" for f
    by (auto simp: update_review_def new_review_def intro: map_idI)
  have conflict: "event_conflict l (completed_event en i sn fp v key) \<longleftrightarrow>
      event_slot_taken (co_ledger c) (pi_runId i) (sn_aggregateVersion sn + 1)" if "lg_events l = lg_events (co_ledger c)" for l
    using assms(1) that
    by (auto simp: completion_fresh_def event_conflict_def event_slot_taken_def event_known_def list_ex_iff
        completed_event_def)
  have entry: "outbox_conflict l (completed_entry en i sn fp v key) \<longleftrightarrow> False"
    if "lg_outbox l = lg_outbox (co_ledger c)" for l
    using assms(1) that by (simp add: completion_fresh_def outbox_conflict_def)
  have known: "event_known l (ob_eventId (completed_entry en i sn fp v key)) \<longleftrightarrow> False"
    if "lg_events l = lg_events (co_ledger c)" for l
    using assms(1) that by (simp add: completion_fresh_def event_known_def completed_entry_def)
  have known': "event_known l (ob_eventId (completed_entry en i sn fp v key))"
    if "lg_events l = lg_events (co_ledger c) @ [completed_event en i sn fp v key]" for l
    using that by (simp add: event_known_def completed_entry_def completed_event_def)
  have decision: "insert_decision_or_ignore (decision_of en i sn fp v key) (co_decisions c)
      = co_decisions c @ [decision_of en i sn fp v key]"
    using assms(1) by (auto simp: insert_decision_or_ignore_def completion_fresh_def decision_of_def)
  show ?thesis
    by (simp add: record_completion_def Let_def assms(2) reviews decision
        insert_event_or_ignore_def insert_outbox_or_ignore_def conflict entry known known')
      (simp add: completed_review_def new_review_def)
qed

lemma completion_outcome:
  assumes "runs_ok (db_runs (policy_db c))" and "justified en i mem c sn fp row ids"
    and "ce_bound en = Some (ce_self en)"
    and "v = verification_of row ids (sn_aggregateVersion sn) fp"
    and "key = completionKey (pi_runId i) (sn_aggregateVersion sn) fp (lv_id v)"
    and "completion_fresh en i sn fp v key c"
  shows "evaluateAndComplete en i mem c =
     (if event_slot_taken (co_ledger c) (pi_runId i) (sn_aggregateVersion sn + 1) then Inl ConstraintFailed
      else Inr (\<lparr>cs_status = COMPLETED, cs_run = pi_runId i, cs_completionKey = Some key,
                 cs_reviewId = Some (completion_review_id en key), cs_blockerReasons = []\<rparr>,
                after_completion en i sn fp v key c))"
proof -
  obtain x where x: "findById (db_runs (policy_db c)) (pi_runId i) = Some x"
      "row_state x = Verifying" "row_aggregateVersion x = sn_aggregateVersion sn"
    using assms(2) by (metis justified_def snapshot_row work_done_def)
  have none: "List.find (\<lambda>r. cv_completionKey r = key) (co_reviews c) = None"
    using assms(6) by (auto simp: completion_fresh_def review_conflict_def list_ex_iff new_review_def find_None_iff_all)
  have free: "\<not> review_conflict (co_reviews c) (new_review en i sn fp v key)"
    using assms(6) by (simp add: completion_fresh_def)
  have review_id: "cv_id (new_review en i sn fp v key) = completion_review_id en key" by (simp add: new_review_def)
  note written = record_completion_eq [OF assms(6) refl]
  have "complete_run en i sn fp v c =
     (case record_completion en i sn fp v key (c\<lparr>co_reviews := co_reviews c @ [new_review en i sn fp v key],
         co_ledger := (co_ledger c)\<lparr>lg_orch := (policy_db c)\<lparr>db_runs :=
           map (\<lambda>x. if row_runId x = pi_runId i then advance_row Completed (Some (lv_targetSha v)) x else x)
             (db_runs (policy_db c))\<rparr>\<rparr>\<rparr>) of
        Inl e \<Rightarrow> Inl e
      | Inr c' \<Rightarrow> Inr (\<lparr>cs_status = COMPLETED, cs_run = pi_runId i, cs_completionKey = Some key,
                 cs_reviewId = Some (completion_review_id en key), cs_blockerReasons = []\<rparr>, c'))"
    using none free
    by (simp add: complete_run_def Let_def assms(5) [symmetric] transition_and_record_def
        completion_cas_eq [OF assms(1) x] assms(3) review_id)
  then show ?thesis
    by (simp add: justified_evaluation [OF assms(2)] assms(4) [symmetric] written after_completion_def)
qed

text \<open>
  C17. A justified completion is decided by one slot. With the policy bound and fresh ids, the
  run becomes completed at the next version with the verified commit as its current one, its
  completion time is set, and review, decision, event and outbox row are written with it, unless the events of
  the run already hold the version after the run's. In that case \<open>INSERT OR IGNORE\<close> drops the event
  \<open>run.completed\<close>, its outbox row has no event to refer to, and the whole completion fails and is
  rolled back; it fails again at every later try on this state.
\<close>

theorem completion_decided:
  assumes "runs_ok (db_runs (policy_db c))" and "justified en i mem c sn fp row ids"
    and "ce_bound en = Some (ce_self en)"
    and "v = verification_of row ids (sn_aggregateVersion sn) fp"
    and "key = completionKey (pi_runId i) (sn_aggregateVersion sn) fp (lv_id v)"
    and "completion_fresh en i sn fp v key c"
  shows "evaluateAndComplete en i mem c =
     (if event_slot_taken (co_ledger c) (pi_runId i) (sn_aggregateVersion sn + 1) then Inl ConstraintFailed
      else Inr (\<lparr>cs_status = COMPLETED, cs_run = pi_runId i, cs_completionKey = Some key,
                 cs_reviewId = Some (completion_review_id en key), cs_blockerReasons = []\<rparr>,
                after_completion en i sn fp v key c))"
  by (rule completion_outcome [OF assms])

lemma snapshot_of_row:
  assumes "findById (db_runs d) rid = Some row"
  obtains sn where "getSnapshot q rv rid sid mem d = Some sn" "sn_phase sn = row_state row"
  using assms by (simp add: getSnapshot_def Let_def)

lemma singleton_order:
  assumes "mset (f [x]) = mset [x]"
  shows "f [x] = [x]"
  using assms by simp

text \<open>
  Completing is idempotent: after a completion, every further evaluation of the run, by any policy
  object, for any verification and session, answers \<open>ALREADY_COMPLETED\<close> with the same key and review and
  changes nothing.
\<close>

theorem completion_idempotent:
  assumes "runs_ok (db_runs (policy_db c))" and "justified en i mem c sn fp row ids"
    and "ce_bound en = Some (ce_self en)"
    and "v = verification_of row ids (sn_aggregateVersion sn) fp"
    and "key = completionKey (pi_runId i) (sn_aggregateVersion sn) fp (lv_id v)"
    and "completion_fresh en i sn fp v key c"
    and "evaluateAndComplete en i mem c = Inr (r, c')"
    and "\<forall>x \<in> set (co_reviews c). cv_taskRunId x = Some (pi_runId i) \<longrightarrow> cv_status x \<noteq> RvCompleted"
    and "\<And>xs. mset (ce_reviewOrder en' xs) = mset xs" and "pi_runId i' = pi_runId i"
  shows "evaluateAndComplete en' i' mem' c' =
     Inr (\<lparr>cs_status = ALREADY_COMPLETED, cs_run = pi_runId i, cs_completionKey = cs_completionKey r,
           cs_reviewId = cs_reviewId r, cs_blockerReasons = []\<rparr>, c')"
proof -
  have out: "c' = after_completion en i sn fp v key c" "cs_completionKey r = Some key"
      "cs_reviewId r = Some (completion_review_id en key)"
    using assms(7) completion_outcome [OF assms(1-6)] by (auto split: if_splits)
  obtain x where x: "findById (db_runs (policy_db c)) (pi_runId i) = Some x" "row_aggregateVersion x = sn_aggregateVersion sn"
    using assms(2) by (metis justified_def snapshot_row)
  then have "row_runId x = pi_runId i" by (auto simp: findById_def dest: find_SomeD)
  then obtain y where y: "findById (db_runs (policy_db c')) (pi_runId i) = Some y" "row_state y = Completed"
    using x by (simp add: out(1) after_completion_def stamp_completed_def findById_map)
  obtain sn' where sn': "policy_snapshot en' i' mem' c' = Some sn'" "sn_phase sn' = Completed"
    using snapshot_of_row [OF y(1)] y(2) assms(10) by metis
  have "filter (\<lambda>q. cv_taskRunId q = Some (pi_runId i) \<and> cv_status q = RvCompleted) (co_reviews c')
      = [completed_review en i sn fp v key]"
    using assms(8) by (auto simp: out(1) after_completion_def completed_review_def new_review_def filter_empty_conv)
  moreover have "isValidDecisionJson (cv_decision (completed_review en i sn fp v key))"
    by (simp add: completed_review_def new_review_def isValidDecisionJson_def decision_json_def)
  ultimately have "completed_before en' i' c' =
      \<lparr>cs_status = ALREADY_COMPLETED, cs_run = pi_runId i, cs_completionKey = Some key,
       cs_reviewId = Some (completion_review_id en key), cs_blockerReasons = []\<rparr>"
    using singleton_order [of "ce_reviewOrder en'", OF assms(9)]
    by (simp add: completed_before_def assms(10))
      (simp add: completed_review_def new_review_def)
  then show ?thesis
    using sn' out(2,3) by (simp add: evaluateAndComplete_def evaluateInTransaction_def)
qed

section \<open>An example\<close>

definition demo_policy :: completion_env where
  "demo_policy =
     \<lparr>ce_sha = (\<lambda>_. replicate 64 (CHR ''a'')), ce_order = by_time,
      ce_routing = \<lparr>rv_executionClass = None, rv_plan = None\<rparr>,
      ce_evidence = \<lparr>ev_repositoryArtifacts = [], ev_assignmentResults = [], ev_runEvidence = []\<rparr>,
      ce_reviewOrder = (\<lambda>xs. xs), ce_self = 7, ce_bound = Some 7, ce_now = 50\<rparr>"

definition demo_fingerprint :: string where
  "demo_fingerprint = replicate 32 (CHR ''a'')"

definition demo_check :: verification_row where
  "demo_check =
     \<lparr>vr_id = ''v'', vr_runId = ''r'', vr_verificationType = ''live_orchestration'', vr_status = ''passed'',
      vr_stateVersion = SInt 3, vr_stateFingerprint = SText demo_fingerprint,
      vr_targetSha = replicate 40 (CHR ''b''), vr_isStale = 0,
      vr_evidence = Parsed (JArr [JStr ''e1'']), vr_failureReasons = Parsed (JArr [])\<rparr>"

text \<open>A verified run whose ledger holds the events \<open>es\<close>.\<close>

definition demo_ledger :: "ledger_event list \<Rightarrow> completion_db" where
  "demo_ledger es =
     \<lparr>co_ledger = \<lparr>lg_orch = demo_work [] ''completed'' Verifying 3, lg_contracts = [], lg_events = es, lg_outbox = []\<rparr>,
      co_reviews = [], co_verifications = [demo_check], co_decisions = []\<rparr>"

definition demo_wish :: completion_input where
  "demo_wish = \<lparr>pi_runId = ''r'', pi_sessionId = None, pi_verificationId = ''v''\<rparr>"

text \<open>The event of the creation and three notes of progress: the last takes the version the completion
  needs, while the run, moved by the engine, is at version 3.\<close>

definition demo_note :: "int \<Rightarrow> ledger_event" where
  "demo_note n =
     \<lparr>le_eventId = ''n'' @ int_str n, le_eventType = (if n = 1 then ''run.queued'' else ''run.progress''),
      le_causationId = None, le_correlationId = None,
      le_aggregateType = ''task_run'', le_aggregateId = ''r'', le_aggregateVersion = n, le_data = JObj [],
      le_metadata = JObj [], le_createdTs = 40\<rparr>"

definition demo_notes :: "ledger_event list" where
  "demo_notes = map demo_note [1, 2, 3, 4]"

definition demo_sn :: snapshot where
  "demo_sn = the (getSnapshot by_time \<lparr>rv_executionClass = None, rv_plan = None\<rparr> ''r'' None []
     (demo_work [] ''completed'' Verifying 3))"

lemma demo_sn_some:
  "getSnapshot by_time \<lparr>rv_executionClass = None, rv_plan = None\<rparr> ''r'' None [] (demo_work [] ''completed'' Verifying 3)
     = Some demo_sn"
  using demo_snapshot_ex by (metis demo_sn_def option.sel)

lemma hex_a: "is_hex (CHR ''a'')" "is_hex (CHR ''b'')"
  by (simp_all add: is_hex_def is_digit_def char_code_def)

lemma demo_justified: "justified demo_policy demo_wish [] (demo_ledger es) demo_sn demo_fingerprint demo_check [''e1'']"
proof -
  note parts = demo_snapshot [OF no_child_rows_simps(1) demo_sn_some]
  have "work_done demo_sn"
    using parts demo_diagnostics(1) by (simp add: work_done_def no_children_def)
  moreover have "passed_row ''r'' demo_check [''e1''] (sn_aggregateVersion demo_sn) demo_fingerprint"
    using parts(2) hex_a
    by (simp add: passed_row_def demo_check_def demo_fingerprint_def fingerprint_pattern_def sha_pattern_def
        string_array_def zero_sha_def list_all_iff)
  ultimately show ?thesis
    using demo_sn_some
    by (simp add: justified_def demo_policy_def demo_wish_def demo_ledger_def computeStateFingerprint_def
        demo_fingerprint_def demo_check_def)
qed

definition demo_lv :: live_verification where
  "demo_lv = verification_of demo_check [''e1''] (sn_aggregateVersion demo_sn) demo_fingerprint"

definition demo_key :: string where
  "demo_key = completionKey ''r'' (sn_aggregateVersion demo_sn) demo_fingerprint (lv_id demo_lv)"

lemma demo_key_pi: "demo_key = completionKey (pi_runId demo_wish) (sn_aggregateVersion demo_sn) demo_fingerprint (lv_id demo_lv)"
  by (simp add: demo_key_def demo_wish_def)

lemma demo_fresh:
  "list_ex (\<lambda>e. le_eventId e = completion_event_id demo_policy demo_key) es = False \<Longrightarrow>
     completion_fresh demo_policy demo_wish demo_sn demo_fingerprint demo_lv demo_key (demo_ledger es)"
  by (simp add: completion_fresh_def review_conflict_def demo_ledger_def event_known_def outbox_conflict_def)

lemma demo_ledger_runs: "runs_ok (db_runs (policy_db (demo_ledger es)))"
  by (simp add: demo_ledger_def demo_tables(6))

lemma demo_completes:
  "\<exists>r. evaluateAndComplete demo_policy demo_wish [] (demo_ledger []) =
     Inr (r, after_completion demo_policy demo_wish demo_sn demo_fingerprint demo_lv demo_key (demo_ledger []))"
proof -
  have "ce_bound demo_policy = Some (ce_self demo_policy)" by (simp add: demo_policy_def)
  from completion_outcome [OF demo_ledger_runs demo_justified this demo_lv_def demo_key_pi demo_fresh]
  show ?thesis by (simp add: event_slot_taken_def demo_ledger_def)
qed

theorem completion_decided_witness:
  "(\<exists>r. evaluateAndComplete demo_policy demo_wish [] (demo_ledger []) =
        Inr (r, after_completion demo_policy demo_wish demo_sn demo_fingerprint demo_lv demo_key (demo_ledger []))
      \<and> cs_status r = COMPLETED)
   \<and> evaluateAndComplete demo_policy demo_wish [] (demo_ledger demo_notes) = Inl ConstraintFailed"
proof -
  have pi: "pi_runId demo_wish = ''r''" "ce_bound demo_policy = Some (ce_self demo_policy)"
    by (simp_all add: demo_wish_def demo_policy_def)
  have v: "sn_aggregateVersion demo_sn = 3"
    using demo_snapshot(2) [OF no_child_rows_simps(1) demo_sn_some] .
  have fresh: "completion_fresh demo_policy demo_wish demo_sn demo_fingerprint demo_lv demo_key (demo_ledger [])"
      "completion_fresh demo_policy demo_wish demo_sn demo_fingerprint demo_lv demo_key (demo_ledger demo_notes)"
    by (rule demo_fresh, simp add: demo_notes_def demo_note_def completion_event_id_def)+
  have slot: "\<not> event_slot_taken (co_ledger (demo_ledger [])) ''r'' 4"
      "event_slot_taken (co_ledger (demo_ledger demo_notes)) ''r'' 4"
    by (simp_all add: event_slot_taken_def demo_ledger_def demo_notes_def demo_note_def)
  note out = completion_decided [OF demo_ledger_runs demo_justified pi(2) demo_lv_def demo_key_pi]
  show ?thesis
    using slot by (simp add: out [OF fresh(1)] out [OF fresh(2)] pi(1) v)
qed

theorem completion_justified_witness:
  "\<exists>sn fp row ids. justified demo_policy demo_wish [] (demo_ledger []) sn fp row ids"
proof -
  let ?c = "after_completion demo_policy demo_wish demo_sn demo_fingerprint demo_lv demo_key (demo_ledger [])"
  have "lg_events (co_ledger ?c) \<noteq> lg_events (co_ledger (demo_ledger []))"
    by (simp add: after_completion_def)
  then have changed: "co_ledger ?c \<noteq> co_ledger (demo_ledger [])" by metis
  obtain r where "evaluateAndComplete demo_policy demo_wish [] (demo_ledger []) = Inr (r, ?c)"
    using demo_completes by blast
  from completion_justified [OF demo_ledger_runs this changed] show ?thesis by blast
qed

theorem completion_idempotent_witness:
  "\<exists>r c'. evaluateAndComplete demo_policy demo_wish [] (demo_ledger []) = Inr (r, c')
     \<and> evaluateAndComplete demo_policy (demo_wish\<lparr>pi_verificationId := ''other''\<rparr>) [] c' =
       Inr (\<lparr>cs_status = ALREADY_COMPLETED, cs_run = ''r'', cs_completionKey = cs_completionKey r,
             cs_reviewId = cs_reviewId r, cs_blockerReasons = []\<rparr>, c')"
proof -
  obtain r c' where r: "evaluateAndComplete demo_policy demo_wish [] (demo_ledger []) = Inr (r, c')"
    using demo_completes by blast
  have "evaluateAndComplete demo_policy (demo_wish\<lparr>pi_verificationId := ''other''\<rparr>) [] c' =
       Inr (\<lparr>cs_status = ALREADY_COMPLETED, cs_run = pi_runId demo_wish, cs_completionKey = cs_completionKey r,
             cs_reviewId = cs_reviewId r, cs_blockerReasons = []\<rparr>, c')"
    by (rule completion_idempotent [OF demo_ledger_runs demo_justified _ demo_lv_def demo_key_pi _ r])
      (simp_all add: demo_fresh, simp_all add: demo_policy_def demo_ledger_def)
  with r show ?thesis by (auto simp: demo_wish_def)
qed

end
