(* ===== verification/Continuation.thy ===== *)
theory Continuation
  imports Engine
begin

text \<open>
  Autonomous continuation (\<open>services/continuation-policy.ts\<close>): the policy that decides whether the
  agent takes another turn, and the dispatcher that hands out each continuation token at most once.

  The dispatcher keeps its claims in the table \<open>continuation_dispatches\<close> or, without a database, in a
  map. A dispatch runs synchronously up to the call of the native client (\<open>durable_start\<close>,
  \<open>memory_start\<close>: either an answer or the call) and again after it (\<open>durable_finish\<close>,
  \<open>memory_finish\<close>); other dispatches, a restart or another process may run in between. SHA-256 and
  the client's answer are arguments.
\<close>

section \<open>The policy\<close>

datatype continuation_decision =
    CONTINUE_NOW | WAIT_FOR_CHILD | WAIT_FOR_USER | REPLAN_NOW | STOP_TERMINAL | STOP_BLOCKED

text \<open>\<open>CHANGE_STRATEGY\<close>, the tenth entry of the list in the source, is not a reason code.\<close>

definition continuation_allowlist :: "reason_code list" where
  "continuation_allowlist =
     [NEXT_WORK_ITEM_READY, REPEATED_ACTION_BLOCKED, TRANSIENT_RETRY_ALLOWED, RECOVERY_PROGRESS,
      STALL_DETECTED, READY_FOR_VERIFICATION, CHILD_FAILED, ASSIGNMENT_FAILED, PROGRESS_CONFIRMED]"

definition continuation_evaluate ::
    "snapshot \<Rightarrow> evaluation \<Rightarrow> bool \<Rightarrow> bool \<Rightarrow> continuation_decision" where
  "continuation_evaluate sn tr hasActiveUserTurn isStaleEvent =
     (if isStaleEvent then STOP_TERMINAL
      else if hasActiveUserTurn then WAIT_FOR_USER
      else if sn_phase sn \<in> set terminal_phases \<or> sn_isTerminal sn then STOP_TERMINAL
      else if cc_activeRequired (sn_childState sn) > 0 \<or> er_reasonCode tr = WAITING_FOR_CHILDREN
      then WAIT_FOR_CHILD
      else if er_strategyDecision tr = BLOCK \<or> er_reasonCode tr = BLOCKED \<or> er_reasonCode tr = TRANSITION_CONFLICT
      then STOP_BLOCKED
      else if er_strategyDecision tr = REPLAN then REPLAN_NOW
      else if er_requiresAction tr \<and> er_reasonCode tr \<in> set continuation_allowlist then CONTINUE_NOW
      else WAIT_FOR_USER)"

definition getContinuationPrompt :: "reason_code \<Rightarrow> string option \<Rightarrow> string" where
  "getContinuationPrompt reason prohibited =
     (case reason of
        NEXT_WORK_ITEM_READY \<Rightarrow> ''Continue with the next planned work item.''
      | RECOVERY_PROGRESS \<Rightarrow> ''Recovery progress detected. Continue execution with the updated state.''
      | READY_FOR_VERIFICATION \<Rightarrow> ''Work completed. Proceed to verify the results.''
      | REPEATED_ACTION_BLOCKED \<Rightarrow>
          if truthy prohibited
          then ''Previous strategy produced no progress and action '' @ [CHR 0x27] @ the prohibited @ [CHR 0x27]
               @ '' is prohibited under the current state. Change strategy, select a different tool or evidence source, or replan.''
          else ''Previous strategy produced no progress. Change strategy, select a different tool or evidence source, or replan.''
      | STALL_DETECTED \<Rightarrow> ''Execution stall detected with no progress. Change strategy, try an alternate approach, or replan.''
      | CHILD_FAILED \<Rightarrow> ''Child execution failed. Analyze the failure and select an alternate strategy or recovery step.''
      | ASSIGNMENT_FAILED \<Rightarrow> ''Assignment failed. Analyze the failure and select an alternate strategy or recovery step.''
      | TRANSIENT_RETRY_ALLOWED \<Rightarrow> ''Transient failure encountered. Retry the action.''
      | PROGRESS_CONFIRMED \<Rightarrow> ''Progress confirmed. Continue with the next step.''
      | _ \<Rightarrow> ''Continue with the next planned step.'')"

section \<open>Tokens, rows and results\<close>

record token =
  tk_runId :: string
  tk_sessionId :: string
  tk_userTurnVersion :: int
  tk_runAggregateVersion :: int
  tk_transitionReason :: string
  tk_currentWorkItemId :: "string option"
  tk_stateFingerprint :: string
  tk_identityKey :: "string option"

datatype dispatch_status = DsPending | DsDispatched | DsFailed | DsBlocked | DsOutcomeUnknown

record dispatch_row =
  dr_identity :: string
  dr_runId :: string
  dr_sessionId :: string
  dr_userTurnVersion :: int
  dr_runAggregateVersion :: int
  dr_transitionReason :: string
  dr_currentWorkItemId :: "string option"
  dr_stateFingerprint :: string
  dr_status :: dispatch_status
  dr_attemptCount :: int
  dr_createdAt :: int
  dr_lastAttemptAt :: int
  dr_dispatchedAt :: "int option"
  dr_error :: "string option"

datatype dispatch_reason =
    NativeDispatchUnavailable | NativeDispatchFailed | DuplicateDispatch | DispatchInProgress
  | DispatchOutcomeUnknown | StaleUserTurnVersion | StaleRunAggregateVersion | StaleStateFingerprint
  | DispatchRunNotFound | AuthorityRevoked

record dispatch_result =
  dp_dispatched :: bool
  dp_identity :: string
  dp_reason :: "dispatch_reason option"

definition refused :: "string \<Rightarrow> dispatch_reason \<Rightarrow> dispatch_result" where
  "refused i r = \<lparr>dp_dispatched = False, dp_identity = i, dp_reason = Some r\<rparr>"

record state_port =
  sp_userTurnVersion :: "string \<Rightarrow> int"
  sp_runAggregateVersion :: "string \<Rightarrow> int option"
  sp_stateFingerprint :: "(string \<Rightarrow> string \<Rightarrow> string option) option"

text \<open>The answers of \<open>validateAuthority\<close> to its first and second call.\<close>

record dispatch_opts =
  do_statePort :: "state_port option"
  do_currentTurnVersion :: "int option"
  do_currentAggregateVersion :: "int option"
  do_clientReady :: bool
  do_authority :: "(bool \<times> bool) option"
  do_now :: int

datatype native_outcome = Delivered | NotDelivered string

definition max_attempts :: int where
  "max_attempts = 2"

definition computeTokenIdentity :: "(string \<Rightarrow> string) \<Rightarrow> token \<Rightarrow> string" where
  "computeTokenIdentity sha t =
     (if truthy (tk_identityKey t) then sha (the (tk_identityKey t))
      else sha (tk_runId t @ '':'' @ tk_sessionId t @ '':'' @ int_str (tk_userTurnVersion t) @ '':''
             @ int_str (tk_runAggregateVersion t) @ '':'' @ tk_transitionReason t @ '':''
             @ nullish (tk_currentWorkItemId t) [] @ '':'' @ tk_stateFingerprint t))"

text \<open>The checks before the claim.\<close>

definition revalidate :: "token \<Rightarrow> dispatch_opts \<Rightarrow> dispatch_reason option" where
  "revalidate t opts =
     (case do_authority opts of
        Some (first, _) \<Rightarrow> if first then None else Some AuthorityRevoked
      | None \<Rightarrow>
          (case do_statePort opts of
             Some p \<Rightarrow>
               if sp_userTurnVersion p (tk_sessionId t) \<noteq> tk_userTurnVersion t then Some StaleUserTurnVersion
               else
                 (case sp_runAggregateVersion p (tk_runId t) of
                    None \<Rightarrow> Some DispatchRunNotFound
                  | Some v \<Rightarrow>
                      if v \<noteq> tk_runAggregateVersion t then Some StaleRunAggregateVersion
                      else
                        (case sp_stateFingerprint p of
                           None \<Rightarrow> None
                         | Some f \<Rightarrow>
                             if truthy (f (tk_runId t) (tk_sessionId t))
                                \<and> f (tk_runId t) (tk_sessionId t) \<noteq> Some (tk_stateFingerprint t)
                             then Some StaleStateFingerprint else None))
           | None \<Rightarrow>
               if do_currentTurnVersion opts \<noteq> None \<and> do_currentTurnVersion opts \<noteq> Some (tk_userTurnVersion t)
               then Some StaleUserTurnVersion
               else if do_currentAggregateVersion opts \<noteq> None
                       \<and> do_currentAggregateVersion opts \<noteq> Some (tk_runAggregateVersion t)
               then Some StaleRunAggregateVersion
               else None))"

definition authority_lost :: "dispatch_opts \<Rightarrow> bool" where
  "authority_lost opts = (case do_authority opts of Some (_, second) \<Rightarrow> \<not> second | None \<Rightarrow> False)"

section \<open>The durable dispatcher\<close>

definition dispatch_at :: "dispatch_row list \<Rightarrow> string \<Rightarrow> dispatch_row option" where
  "dispatch_at rows i = List.find (\<lambda>r. dr_identity r = i) rows"

definition claim_row_of :: "token \<Rightarrow> string \<Rightarrow> int \<Rightarrow> dispatch_row" where
  "claim_row_of t i now =
     \<lparr>dr_identity = i, dr_runId = tk_runId t, dr_sessionId = tk_sessionId t,
      dr_userTurnVersion = tk_userTurnVersion t, dr_runAggregateVersion = tk_runAggregateVersion t,
      dr_transitionReason = tk_transitionReason t, dr_currentWorkItemId = tk_currentWorkItemId t,
      dr_stateFingerprint = tk_stateFingerprint t, dr_status = DsPending, dr_attemptCount = 1,
      dr_createdAt = now, dr_lastAttemptAt = now, dr_dispatchedAt = None, dr_error = None\<rparr>"

definition isCompatibleDurableClaim :: "dispatch_row \<Rightarrow> token \<Rightarrow> bool" where
  "isCompatibleDurableClaim r t \<longleftrightarrow>
     1 \<le> dr_attemptCount r \<and> dr_attemptCount r \<le> 9007199254740991
     \<and> dr_runId r = tk_runId t \<and> dr_sessionId r = tk_sessionId t
     \<and> dr_userTurnVersion r = tk_userTurnVersion t \<and> dr_runAggregateVersion r = tk_runAggregateVersion t
     \<and> dr_transitionReason r = tk_transitionReason t \<and> dr_currentWorkItemId r = tk_currentWorkItemId t
     \<and> dr_stateFingerprint r = tk_stateFingerprint t"

text \<open>\<open>UPDATE ... WHERE identity = ? AND <condition>\<close> with the number of changed rows.\<close>

definition update_dispatch ::
    "string \<Rightarrow> (dispatch_row \<Rightarrow> bool) \<Rightarrow> (dispatch_row \<Rightarrow> dispatch_row) \<Rightarrow> dispatch_row list
      \<Rightarrow> nat \<times> dispatch_row list" where
  "update_dispatch i cond f rows =
     (length (filter (\<lambda>r. dr_identity r = i \<and> cond r) rows),
      map (\<lambda>r. if dr_identity r = i \<and> cond r then f r else r) rows)"

text \<open>The claim: \<open>None\<close> when it is held, otherwise the reason of the refusal.\<close>

definition durable_claim ::
    "token \<Rightarrow> string \<Rightarrow> int \<Rightarrow> dispatch_row list \<Rightarrow> dispatch_reason option \<times> dispatch_row list" where
  "durable_claim t i now rows =
     (case dispatch_at rows i of
        None \<Rightarrow> (None, rows @ [claim_row_of t i now])
      | Some r \<Rightarrow>
          if \<not> isCompatibleDurableClaim r t
          then (Some DispatchOutcomeUnknown,
                snd (update_dispatch i (\<lambda>r. dr_status r \<noteq> DsDispatched)
                  (\<lambda>r. r\<lparr>dr_status := DsBlocked, dr_error := Some ''corrupt_or_mismatched_durable_dispatch''\<rparr>) rows))
          else
            (case dr_status r of
               DsDispatched \<Rightarrow> (Some DuplicateDispatch, rows)
             | DsPending \<Rightarrow> (Some DispatchInProgress, rows)
             | DsOutcomeUnknown \<Rightarrow> (Some DispatchOutcomeUnknown, rows)
             | DsBlocked \<Rightarrow> (Some NativeDispatchFailed, rows)
             | DsFailed \<Rightarrow>
                 if dr_attemptCount r \<ge> max_attempts
                 then (Some NativeDispatchFailed,
                       snd (update_dispatch i (\<lambda>r. dr_status r = DsFailed) (\<lambda>r. r\<lparr>dr_status := DsBlocked\<rparr>) rows))
                 else
                   (case update_dispatch i (\<lambda>r. dr_status r = DsFailed \<and> dr_attemptCount r < max_attempts)
                           (\<lambda>r. r\<lparr>dr_status := DsPending, dr_attemptCount := dr_attemptCount r + 1,
                                  dr_lastAttemptAt := now, dr_error := None\<rparr>) rows of
                      (n, rows') \<Rightarrow> (if n = 0 then Some DispatchInProgress else None, rows'))))"

definition release_pending ::
    "string \<Rightarrow> dispatch_status \<Rightarrow> string \<Rightarrow> dispatch_row list \<Rightarrow> nat \<times> dispatch_row list" where
  "release_pending i st err rows =
     update_dispatch i (\<lambda>r. dr_status r = DsPending) (\<lambda>r. r\<lparr>dr_status := st, dr_error := Some err\<rparr>) rows"

definition durable_start ::
    "(string \<Rightarrow> string) \<Rightarrow> token \<Rightarrow> dispatch_opts \<Rightarrow> dispatch_row list
      \<Rightarrow> dispatch_result option \<times> dispatch_row list" where
  "durable_start sha t opts rows =
     (let i = computeTokenIdentity sha t in
      case revalidate t opts of
        Some r \<Rightarrow> (Some (refused i r), rows)
      | None \<Rightarrow>
          (case durable_claim t i (do_now opts) rows of
             (Some r, rows') \<Rightarrow> (Some (refused i r), rows')
           | (None, rows') \<Rightarrow>
               if authority_lost opts then
                 (case release_pending i DsFailed ''authority_revoked'' rows' of
                    (n, rows'') \<Rightarrow>
                      (Some (refused i (if n = 0 then DispatchOutcomeUnknown else AuthorityRevoked)), rows''))
               else if \<not> do_clientReady opts then
                 (case release_pending i DsFailed ''native_dispatch_unavailable'' rows' of
                    (n, rows'') \<Rightarrow>
                      (Some (refused i (if n = 0 then DispatchOutcomeUnknown else NativeDispatchUnavailable)), rows''))
               else (None, rows')))"

definition durable_finish ::
    "string \<Rightarrow> native_outcome \<Rightarrow> int \<Rightarrow> dispatch_row list \<Rightarrow> dispatch_result \<times> dispatch_row list" where
  "durable_finish i out now rows =
     (case out of
        Delivered \<Rightarrow>
          (case update_dispatch i (\<lambda>r. dr_status r = DsPending)
                  (\<lambda>r. r\<lparr>dr_status := DsDispatched, dr_dispatchedAt := Some now, dr_error := None\<rparr>) rows of
             (n, rows') \<Rightarrow>
               (if n = 0 then refused i DispatchOutcomeUnknown
                else \<lparr>dp_dispatched = True, dp_identity = i, dp_reason = None\<rparr>, rows'))
      | NotDelivered err \<Rightarrow>
          let n = nullish (map_option dr_attemptCount (dispatch_at rows i)) 1;
              newStatus = (if n \<ge> max_attempts then DsBlocked else DsFailed)
          in (case release_pending i newStatus err rows of
                (k, rows') \<Rightarrow>
                  (refused i (if k = 0 then DispatchOutcomeUnknown else NativeDispatchFailed), rows')))"

definition reconcilePendingDispatches :: "int \<Rightarrow> dispatch_row list \<Rightarrow> dispatch_row list" where
  "reconcilePendingDispatches now rows =
     map (\<lambda>r. if dr_status r = DsPending
              then r\<lparr>dr_status := DsOutcomeUnknown,
                     dr_error := Some ''dispatch_outcome_unknown_after_restart'', dr_lastAttemptAt := now\<rparr>
              else r) rows"

section \<open>The dispatcher without a database\<close>

type_synonym memory_dispatches = "(string \<times> dispatch_status \<times> int) list"

definition memory_set :: "string \<Rightarrow> dispatch_status \<Rightarrow> memory_dispatches \<Rightarrow> memory_dispatches" where
  "memory_set i st m =
     (case map_of m i of None \<Rightarrow> m | Some (_, n) \<Rightarrow> AList.update i (st, n) m)"

definition memory_claim :: "string \<Rightarrow> memory_dispatches \<Rightarrow> dispatch_reason option \<times> memory_dispatches" where
  "memory_claim i m =
     (case map_of m i of
        None \<Rightarrow> (None, AList.update i (DsPending, 1) m)
      | Some (st, n) \<Rightarrow>
          (case st of
             DsDispatched \<Rightarrow> (Some DuplicateDispatch, m)
           | DsPending \<Rightarrow> (Some DispatchInProgress, m)
           | DsOutcomeUnknown \<Rightarrow> (Some DispatchOutcomeUnknown, m)
           | DsBlocked \<Rightarrow> (Some NativeDispatchFailed, m)
           | DsFailed \<Rightarrow>
               if n \<ge> max_attempts then (Some NativeDispatchFailed, AList.update i (DsBlocked, n) m)
               else (None, AList.update i (DsPending, n + 1) m)))"

definition memory_start ::
    "(string \<Rightarrow> string) \<Rightarrow> token \<Rightarrow> dispatch_opts \<Rightarrow> memory_dispatches
      \<Rightarrow> dispatch_result option \<times> memory_dispatches" where
  "memory_start sha t opts m =
     (let i = computeTokenIdentity sha t in
      case revalidate t opts of
        Some r \<Rightarrow> (Some (refused i r), m)
      | None \<Rightarrow>
          (case memory_claim i m of
             (Some r, m') \<Rightarrow> (Some (refused i r), m')
           | (None, m') \<Rightarrow>
               if authority_lost opts then (Some (refused i AuthorityRevoked), m')
               else if \<not> do_clientReady opts
               then (Some (refused i NativeDispatchUnavailable), memory_set i DsFailed m')
               else (None, m')))"

definition memory_finish ::
    "string \<Rightarrow> native_outcome \<Rightarrow> memory_dispatches \<Rightarrow> dispatch_result \<times> memory_dispatches" where
  "memory_finish i out m =
     (case out of
        Delivered \<Rightarrow> (\<lparr>dp_dispatched = True, dp_identity = i, dp_reason = None\<rparr>, memory_set i DsDispatched m)
      | NotDelivered err \<Rightarrow>
          (refused i NativeDispatchFailed,
           case map_of m i of
             None \<Rightarrow> m
           | Some (_, n) \<Rightarrow> memory_set i (if n \<ge> max_attempts then DsBlocked else DsFailed) m))"

section \<open>Sequences of dispatches\<close>

text \<open>
  What has happened so far: the store, the native calls in flight, and per identity the number of
  native calls made and of those that were delivered, or may have been because their end was lost.
\<close>

record 's dispatch_run =
  ru_store :: 's
  ru_inflight :: "string list"
  ru_calls :: "string \<Rightarrow> nat"
  ru_delivered :: "string \<Rightarrow> nat"

definition idle :: "'s \<Rightarrow> 's dispatch_run" where
  "idle s = \<lparr>ru_store = s, ru_inflight = [], ru_calls = (\<lambda>_. 0), ru_delivered = (\<lambda>_. 0)\<rparr>"

definition bump :: "string \<Rightarrow> (string \<Rightarrow> nat) \<Rightarrow> string \<Rightarrow> nat" where
  "bump i f = f(i := f i + 1)"

lemma bump_apply [simp]: "bump i f j = (if j = i then f i + 1 else f j)"
  by (simp add: bump_def)

inductive dispatch_step ::
    "(token \<Rightarrow> dispatch_opts \<Rightarrow> 's \<Rightarrow> dispatch_result option \<times> 's)
      \<Rightarrow> (string \<Rightarrow> native_outcome \<Rightarrow> int \<Rightarrow> 's \<Rightarrow> dispatch_result \<times> 's) \<Rightarrow> (token \<Rightarrow> string)
      \<Rightarrow> 's dispatch_run \<Rightarrow> 's dispatch_run \<Rightarrow> bool"
  for start finish ident where
  called: "start t o' (ru_store m) = (None, s) \<Longrightarrow>
     dispatch_step start finish ident m
       (m\<lparr>ru_store := s, ru_inflight := ident t # ru_inflight m, ru_calls := bump (ident t) (ru_calls m)\<rparr>)"
| answered: "start t o' (ru_store m) = (Some r, s) \<Longrightarrow> dispatch_step start finish ident m (m\<lparr>ru_store := s\<rparr>)"
| finished: "i \<in> set (ru_inflight m) \<Longrightarrow> finish i out now (ru_store m) = (r, s) \<Longrightarrow>
     dispatch_step start finish ident m
       (m\<lparr>ru_store := s, ru_inflight := remove1 i (ru_inflight m),
          ru_delivered := (if out = Delivered then bump i (ru_delivered m) else ru_delivered m)\<rparr>)"

text \<open>
  What a store of claims promises. Its view maps an identity to status and number of attempts; a
  claim is granted to a new identity or to a failed one with an attempt left, and only a call that is
  granted a claim gets through. \<open>late\<close> are the statuses that others may set while a call is in flight.
\<close>

locale dispatch_store =
  fixes view :: "'s \<Rightarrow> string \<Rightarrow> (dispatch_status \<times> int) option"
    and start :: "token \<Rightarrow> dispatch_opts \<Rightarrow> 's \<Rightarrow> dispatch_result option \<times> 's"
    and finish :: "string \<Rightarrow> native_outcome \<Rightarrow> int \<Rightarrow> 's \<Rightarrow> dispatch_result \<times> 's"
    and ident :: "token \<Rightarrow> string"
    and late :: "dispatch_status set"
    and good :: "'s \<Rightarrow> bool"
  assumes late_statuses: "late \<subseteq> {DsBlocked, DsOutcomeUnknown}"
    and start_good: "good s \<Longrightarrow> start t o' s = (x, s') \<Longrightarrow> good s'"
    and finish_good: "good s \<Longrightarrow> finish i out now s = (r, s') \<Longrightarrow> good s'"
    and start_other: "good s \<Longrightarrow> start t o' s = (x, s') \<Longrightarrow> i \<noteq> ident t \<Longrightarrow> view s' i = view s i"
    and finish_other: "good s \<Longrightarrow> finish i out now s = (r, s') \<Longrightarrow> j \<noteq> i \<Longrightarrow> view s' j = view s j"
    and start_calls: "good s \<Longrightarrow> start t o' s = (None, s') \<Longrightarrow>
      (view s (ident t) = None \<and> view s' (ident t) = Some (DsPending, 1))
      \<or> (\<exists>n < max_attempts. view s (ident t) = Some (DsFailed, n) \<and> view s' (ident t) = Some (DsPending, n + 1))"
    and start_answers: "good s \<Longrightarrow> start t o' s = (Some r, s') \<Longrightarrow>
      \<not> dp_dispatched r \<and>
      (case view s (ident t) of
         None \<Rightarrow> view s' (ident t) \<in> {None, Some (DsFailed, 1), Some (DsPending, 1)}
       | Some (st, n) \<Rightarrow>
           (\<exists>st'. view s' (ident t) = Some (st', n) \<and> (st = DsDispatched \<longrightarrow> st' = st)
              \<and> (st \<in> insert DsPending late \<longrightarrow> st' = st \<or> st' \<in> late)
              \<and> (st' = st \<or> st' = DsBlocked))
           \<or> st = DsFailed \<and> n < max_attempts
             \<and> view s' (ident t) \<in> {Some (DsFailed, n + 1), Some (DsPending, n + 1)})"
    and finish_pending: "good s \<Longrightarrow> finish i out now s = (r, s') \<Longrightarrow> view s i = Some (DsPending, n) \<Longrightarrow>
      view s' i = Some (if out = Delivered then DsDispatched else if n \<ge> max_attempts then DsBlocked else DsFailed, n)
      \<and> (dp_dispatched r \<longleftrightarrow> out = Delivered)"
    and finish_late: "good s \<Longrightarrow> finish i out now s = (r, s') \<Longrightarrow> view s i = Some (st, n) \<Longrightarrow> st \<in> late \<Longrightarrow>
      view s' i = view s i \<and> \<not> dp_dispatched r"
begin

fun acct :: "(dispatch_status \<times> int) option \<Rightarrow> nat \<Rightarrow> nat \<Rightarrow> nat \<Rightarrow> bool" where
  "acct None calls wins flying \<longleftrightarrow> calls = 0 \<and> wins = 0 \<and> flying = 0"
| "acct (Some (st, n)) calls wins flying \<longleftrightarrow>
     1 \<le> n \<and> n \<le> max_attempts \<and> int calls \<le> n \<and> wins + flying \<le> 1
     \<and> (st \<noteq> DsPending \<and> st \<notin> late \<longrightarrow> flying = 0 \<and> (st \<noteq> DsDispatched \<longrightarrow> wins = 0))"

definition accounted :: "'s dispatch_run \<Rightarrow> string \<Rightarrow> bool" where
  "accounted m i \<longleftrightarrow>
     acct (view (ru_store m) i) (ru_calls m i) (ru_delivered m i) (count_list (ru_inflight m) i)"

lemma late_not [simp]: "DsDispatched \<notin> late" "DsFailed \<notin> late" "DsPending \<notin> late"
  using late_statuses by auto

lemma acct_start:
  assumes "acct v c w k"
    and "case v of None \<Rightarrow> v' \<in> {None, Some (DsFailed, 1), Some (DsPending, 1)}
       | Some (st, n) \<Rightarrow>
           (\<exists>st'. v' = Some (st', n) \<and> (st = DsDispatched \<longrightarrow> st' = st)
              \<and> (st \<in> insert DsPending late \<longrightarrow> st' = st \<or> st' \<in> late) \<and> (st' = st \<or> st' = DsBlocked))
           \<or> st = DsFailed \<and> n < max_attempts \<and> v' \<in> {Some (DsFailed, n + 1), Some (DsPending, n + 1)}"
  shows "acct v' c w k"
proof (cases v)
  case None
  with assms show ?thesis by (auto simp: max_attempts_def)
next
  case (Some x)
  obtain st n where x: "x = (st, n)" by (cases x)
  show ?thesis
  proof (cases "\<exists>st'. v' = Some (st', n) \<and> (st = DsDispatched \<longrightarrow> st' = st)
              \<and> (st \<in> insert DsPending late \<longrightarrow> st' = st \<or> st' \<in> late) \<and> (st' = st \<or> st' = DsBlocked)")
    case True
    then obtain st' where st': "v' = Some (st', n)" "st = DsDispatched \<longrightarrow> st' = st"
        "st \<in> insert DsPending late \<longrightarrow> st' = st \<or> st' \<in> late" "st' = st \<or> st' = DsBlocked" by blast
    then show ?thesis
    proof (cases "st' = st")
      case True
      with assms(1) Some x st'(1) show ?thesis by simp
    next
      case False
      with st' have "st' = DsBlocked" "st \<noteq> DsDispatched" "st \<in> insert DsPending late \<longrightarrow> DsBlocked \<in> late" by auto
      with assms(1) Some x st'(1) show ?thesis by auto
    qed
  next
    case False
    with assms(2) [unfolded Some x option.case prod.case]
    have "st = DsFailed" "n < max_attempts" "v' \<in> {Some (DsFailed, n + 1), Some (DsPending, n + 1)}"
      by blast+
    with assms(1) Some x show ?thesis by auto
  qed
qed

definition sound :: "'s dispatch_run \<Rightarrow> bool" where
  "sound m \<longleftrightarrow> good (ru_store m) \<and> (\<forall>i. accounted m i)"

lemma idle_sound: "good s \<Longrightarrow> (\<And>i. view s i = None) \<Longrightarrow> sound (idle s)"
  by (simp add: sound_def accounted_def idle_def)

lemma count_remove1: "count_list (remove1 x xs) y = (if x = y then count_list xs y - 1 else count_list xs y)"
  by (induction xs) (auto simp: count_list_0_iff)

lemma sound_called:
  assumes "sound m" and "start t o' (ru_store m) = (None, s)"
  shows "sound (m\<lparr>ru_store := s, ru_inflight := ident t # ru_inflight m, ru_calls := bump (ident t) (ru_calls m)\<rparr>)"
    (is "sound ?m")
proof -
  from assms(1) have good: "good (ru_store m)" and acc: "\<And>i. accounted m i" by (simp_all add: sound_def)
  have "accounted ?m i" for i
  proof (cases "i = ident t")
    case False
    then show ?thesis
      using acc [of i] start_other [OF good assms(2) False] by (simp add: accounted_def)
  next
    case True
    with start_calls [OF good assms(2)] acc [of i] show ?thesis
      by (auto simp: accounted_def max_attempts_def)
  qed
  with start_good [OF good assms(2)] show ?thesis by (simp add: sound_def)
qed

lemma sound_answered:
  assumes "sound m" and "start t o' (ru_store m) = (Some r, s)"
  shows "sound (m\<lparr>ru_store := s\<rparr>)" (is "sound ?m")
proof -
  from assms(1) have good: "good (ru_store m)" and acc: "\<And>i. accounted m i" by (simp_all add: sound_def)
  have "accounted ?m i" for i
  proof (cases "i = ident t")
    case False
    then show ?thesis
      using acc [of i] start_other [OF good assms(2) False] by (simp add: accounted_def)
  next
    case True
    have "acct (view s (ident t)) (ru_calls m (ident t)) (ru_delivered m (ident t)) (count_list (ru_inflight m) (ident t))"
      using acct_start [OF acc [unfolded accounted_def]] start_answers [OF good assms(2)] by blast
    with True show ?thesis by (simp add: accounted_def)
  qed
  with start_good [OF good assms(2)] show ?thesis by (simp add: sound_def)
qed

lemma sound_finished:
  assumes "sound m" and "i \<in> set (ru_inflight m)" and "finish i out now (ru_store m) = (r, s)"
  shows "sound (m\<lparr>ru_store := s, ru_inflight := remove1 i (ru_inflight m),
          ru_delivered := (if out = Delivered then bump i (ru_delivered m) else ru_delivered m)\<rparr>)" (is "sound ?m")
proof -
  from assms(1) have good: "good (ru_store m)" and acc: "\<And>i. accounted m i" by (simp_all add: sound_def)
  have "accounted ?m j" for j
  proof (cases "j = i")
    case False
    then show ?thesis
      using acc [of j] finish_other [OF good assms(3) False] by (simp add: accounted_def count_remove1)
  next
    case True
    have "0 < count_list (ru_inflight m) i"
      using assms(2) by (metis count_list_0_iff gr0I)
    with acc [of i] obtain st n where v: "view (ru_store m) i = Some (st, n)" "st \<in> insert DsPending late"
        and none: "ru_delivered m i = 0" "count_list (ru_inflight m) i = 1"
      by (cases "view (ru_store m) i") (auto simp: accounted_def)
    show ?thesis
    proof (cases "st = DsPending")
      case True
      with finish_pending [OF good assms(3), of n] v none acc [of i] \<open>j = i\<close> show ?thesis
        by (auto simp: accounted_def count_remove1)
    next
      case False
      with v have "st \<in> late" by simp
      with finish_late [OF good assms(3) v(1)] v none acc [of i] \<open>j = i\<close> show ?thesis
        by (auto simp: accounted_def count_remove1)
    qed
  qed
  with finish_good [OF good assms(3)] show ?thesis by (simp add: sound_def)
qed

lemma sound_step: "dispatch_step start finish ident m m' \<Longrightarrow> sound m \<Longrightarrow> sound m'"
  by (induction rule: dispatch_step.induct)
    (blast intro: sound_called sound_answered sound_finished)+

lemma sound_bounds:
  assumes "sound m"
  shows "ru_calls m i \<le> 2 \<and> ru_delivered m i + count_list (ru_inflight m) i \<le> 1"
proof -
  from assms have "accounted m i" by (simp add: sound_def)
  then show ?thesis
    by (cases "view (ru_store m) i") (auto simp: accounted_def max_attempts_def split: if_splits)
qed

end

text \<open>
  A store that survives a restart: pending claims of a lost process become \<open>outcome_unknown\<close>. A call
  may be lost at any time; it then counts as possibly delivered.
\<close>

inductive recovering_step ::
    "(token \<Rightarrow> dispatch_opts \<Rightarrow> 's \<Rightarrow> dispatch_result option \<times> 's)
      \<Rightarrow> (string \<Rightarrow> native_outcome \<Rightarrow> int \<Rightarrow> 's \<Rightarrow> dispatch_result \<times> 's) \<Rightarrow> (token \<Rightarrow> string)
      \<Rightarrow> (int \<Rightarrow> 's \<Rightarrow> 's) \<Rightarrow> 's dispatch_run \<Rightarrow> 's dispatch_run \<Rightarrow> bool"
  for start finish ident reconcile where
  normal: "dispatch_step start finish ident m m' \<Longrightarrow> recovering_step start finish ident reconcile m m'"
| restarted: "recovering_step start finish ident reconcile m (m\<lparr>ru_store := reconcile now (ru_store m)\<rparr>)"
| lost: "i \<in> set (ru_inflight m) \<Longrightarrow>
     recovering_step start finish ident reconcile m
       (m\<lparr>ru_inflight := remove1 i (ru_inflight m), ru_delivered := bump i (ru_delivered m)\<rparr>)"

locale durable_store = dispatch_store +
  fixes reconcile :: "int \<Rightarrow> 'a \<Rightarrow> 'a"
  assumes reconcile_good: "good s \<Longrightarrow> good (reconcile now s)"
    and reconcile_view: "good s \<Longrightarrow> view (reconcile now s) i =
      (case view s i of Some (st, n) \<Rightarrow> Some (if st = DsPending then DsOutcomeUnknown else st, n) | None \<Rightarrow> None)"
    and unknown_late: "DsOutcomeUnknown \<in> late"
begin

lemma sound_recovering: "recovering_step start finish ident reconcile m m' \<Longrightarrow> sound m \<Longrightarrow> sound m'"
proof (induction rule: recovering_step.induct)
  case (normal m m')
  then show ?case by (rule sound_step)
next
  case (restarted m now)
  then have good: "good (ru_store m)" and acc: "\<And>i. accounted m i" by (simp_all add: sound_def)
  have "accounted (m\<lparr>ru_store := reconcile now (ru_store m)\<rparr>) i" for i
    using acc [of i] unknown_late
    by (cases "view (ru_store m) i") (auto simp: accounted_def reconcile_view [OF good])
  with reconcile_good [OF good] show ?case by (simp add: sound_def)
next
  case (lost i m)
  then have acc: "\<And>i. accounted m i" by (simp_all add: sound_def)
  have "0 < count_list (ru_inflight m) i" using lost(1) by (metis count_list_0_iff gr0I)
  then have "accounted (m\<lparr>ru_inflight := remove1 i (ru_inflight m), ru_delivered := bump i (ru_delivered m)\<rparr>) j" for j
    using acc [of j] by (cases "view (ru_store m) j") (auto simp: accounted_def count_remove1)
  with lost show ?case by (simp add: sound_def)
qed

lemma recovering_bounds:
  assumes "(recovering_step start finish ident reconcile)\<^sup>*\<^sup>* (idle s) m" and "good s" and "\<And>i. view s i = None"
  shows "ru_calls m i \<le> 2 \<and> ru_delivered m i + count_list (ru_inflight m) i \<le> 1"
proof -
  from assms(1) have "sound m"
    by (induction rule: rtranclp_induct) (use assms(2,3) idle_sound sound_recovering in blast)+
  then show ?thesis by (rule sound_bounds)
qed

end

section \<open>Both dispatchers are such stores\<close>

definition durable_view :: "dispatch_row list \<Rightarrow> string \<Rightarrow> (dispatch_status \<times> int) option" where
  "durable_view rows i = map_option (\<lambda>r. (dr_status r, dr_attemptCount r)) (dispatch_at rows i)"

definition rows_ok :: "dispatch_row list \<Rightarrow> bool" where
  "rows_ok rows \<longleftrightarrow> distinct (map dr_identity rows)"

lemma dispatch_at_map:
  assumes "\<And>r. dr_identity (f r) = dr_identity r"
  shows "dispatch_at (map f rows) i = map_option f (dispatch_at rows i)"
  by (induction rows) (simp_all add: dispatch_at_def assms)

lemma dispatch_at_append:
  "dispatch_at (rows @ [r]) i =
     (case dispatch_at rows i of Some x \<Rightarrow> Some x | None \<Rightarrow> if dr_identity r = i then Some r else None)"
  by (induction rows) (simp_all add: dispatch_at_def)

lemma dispatch_at_id: "dispatch_at rows i = Some r \<Longrightarrow> dr_identity r = i"
  by (auto simp: dispatch_at_def dest: find_SomeD)

lemma dispatch_at_member: "rows_ok rows \<Longrightarrow> dispatch_at rows i = Some r \<longleftrightarrow> r \<in> set rows \<and> dr_identity r = i"
  unfolding dispatch_at_def rows_ok_def by (rule find_distinct_key)

lemma update_dispatch_view:
  assumes "\<And>r. dr_identity (f r) = dr_identity r"
  shows "durable_view (snd (update_dispatch i c f rows)) j =
     map_option (\<lambda>r. if j = i \<and> c r then (dr_status (f r), dr_attemptCount (f r)) else (dr_status r, dr_attemptCount r))
       (dispatch_at rows j)"
proof -
  have at: "dispatch_at (map (\<lambda>r. if dr_identity r = i \<and> c r then f r else r) rows) j
      = map_option (\<lambda>r. if dr_identity r = i \<and> c r then f r else r) (dispatch_at rows j)"
    by (rule dispatch_at_map) (simp add: assms)
  show ?thesis
  proof (cases "dispatch_at rows j")
    case (Some r)
    from dispatch_at_id [OF this] Some show ?thesis by (simp add: durable_view_def update_dispatch_def at)
  qed (simp add: durable_view_def update_dispatch_def at)
qed

lemma update_dispatch_ok:
  assumes "\<And>r. dr_identity (f r) = dr_identity r"
  shows "rows_ok (snd (update_dispatch i c f rows)) \<longleftrightarrow> rows_ok rows"
proof -
  have "dr_identity \<circ> (\<lambda>r. if dr_identity r = i \<and> c r then f r else r) = dr_identity"
    using assms by (intro ext) simp
  then show ?thesis by (simp add: update_dispatch_def rows_ok_def del: comp_apply)
qed

lemma update_dispatch_none:
  assumes "rows_ok rows" and "dispatch_at rows i = Some r"
  shows "fst (update_dispatch i c f rows) = 0 \<longleftrightarrow> \<not> c r"
proof -
  have "x = r" if "x \<in> set rows" "dr_identity x = i" for x
    using assms that dispatch_at_member [OF assms(1)] by (metis option.inject)
  moreover have "r \<in> set rows" "dr_identity r = i" using assms dispatch_at_member by blast+
  ultimately have "(\<exists>x \<in> set rows. dr_identity x = i \<and> c x) \<longleftrightarrow> c r" by blast
  then have "\<not> c r \<longleftrightarrow> filter (\<lambda>x. dr_identity x = i \<and> c x) rows = []" by (auto simp: filter_empty_conv)
  then show ?thesis by (simp add: update_dispatch_def)
qed

text \<open>The claim of a durable dispatch, read at its row.\<close>

lemma durable_view_None: "durable_view rows i = None \<longleftrightarrow> dispatch_at rows i = None"
  by (simp add: durable_view_def)

lemma durable_view_Some: "dispatch_at rows i = Some r \<Longrightarrow> durable_view rows i = Some (dr_status r, dr_attemptCount r)"
  by (simp add: durable_view_def)

lemma durable_view_id: "map_option (\<lambda>r. (dr_status r, dr_attemptCount r)) (dispatch_at rows j) = durable_view rows j"
  by (simp add: durable_view_def)

lemma durable_claim_other:
  assumes "durable_claim t i now rows = (x, rows')"
  shows "j \<noteq> i \<Longrightarrow> durable_view rows' j = durable_view rows j" and "rows_ok rows \<Longrightarrow> rows_ok rows'"
proof -
  have upd: "durable_view (snd (update_dispatch i c f rows)) j = durable_view rows j"
    if "\<And>r. dr_identity (f r) = dr_identity r" "j \<noteq> i" for c f j
    using that by (simp add: update_dispatch_view [OF that(1)] durable_view_id)
  have new: "durable_view (rows @ [claim_row_of t i now]) j = durable_view rows j" if "j \<noteq> i" for j
    using that by (cases "dispatch_at rows j") (simp_all add: durable_view_def dispatch_at_append claim_row_of_def)
  have snd: "rows' = snd (durable_claim t i now rows)" using assms by simp
  have shape: "rows' = rows \<or> dispatch_at rows i = None \<and> rows' = rows @ [claim_row_of t i now]
      \<or> (\<exists>c f. rows' = snd (update_dispatch i c f rows) \<and> (\<forall>r. dr_identity (f r) = dr_identity r))"
  proof (cases "dispatch_at rows i")
    case None
    with assms show ?thesis by (simp add: durable_claim_def)
  next
    case (Some r)
    let ?block = "\<lambda>r. r\<lparr>dr_status := DsBlocked, dr_error := Some ''corrupt_or_mismatched_durable_dispatch''\<rparr>"
    let ?retry = "\<lambda>r. r\<lparr>dr_status := DsPending, dr_attemptCount := dr_attemptCount r + 1,
                                  dr_lastAttemptAt := now, dr_error := None\<rparr>"
    have ids: "\<forall>r. dr_identity (?block r) = dr_identity r" "\<forall>r. dr_identity (?retry r) = dr_identity r"
        "\<forall>r. dr_identity (r\<lparr>dr_status := DsBlocked\<rparr>) = dr_identity r" by simp_all
    have "rows' = rows \<or> rows' = snd (update_dispatch i (\<lambda>r. dr_status r \<noteq> DsDispatched) ?block rows)
        \<or> rows' = snd (update_dispatch i (\<lambda>r. dr_status r = DsFailed) (\<lambda>r. r\<lparr>dr_status := DsBlocked\<rparr>) rows)
        \<or> rows' = snd (update_dispatch i (\<lambda>r. dr_status r = DsFailed \<and> dr_attemptCount r < max_attempts) ?retry rows)"
      unfolding snd by (cases "dr_status r") (simp_all add: durable_claim_def Some split: prod.split)
    then show ?thesis
      by (elim disjE) (use ids in \<open>simp, blast+\<close>)
  qed
  show "j \<noteq> i \<Longrightarrow> durable_view rows' j = durable_view rows j"
    using shape upd new by metis
  show "rows_ok rows \<Longrightarrow> rows_ok rows'"
    using shape update_dispatch_ok
    by (auto simp: rows_ok_def claim_row_of_def dispatch_at_def find_None_iff_all)
qed

lemma durable_claim_here:
  assumes "rows_ok rows" and "durable_claim t i now rows = (x, rows')"
  shows "x = None \<Longrightarrow> (durable_view rows i = None \<and> durable_view rows' i = Some (DsPending, 1))
      \<or> (\<exists>n < max_attempts. durable_view rows i = Some (DsFailed, n) \<and> durable_view rows' i = Some (DsPending, n + 1))"
    and "x \<noteq> None \<Longrightarrow> \<exists>st n st'. durable_view rows i = Some (st, n) \<and> durable_view rows' i = Some (st', n)
      \<and> (st' = st \<or> st \<noteq> DsDispatched \<and> st' = DsBlocked)"
proof -
  have "(x = None \<longrightarrow> (durable_view rows i = None \<and> durable_view rows' i = Some (DsPending, 1))
      \<or> (\<exists>n < max_attempts. durable_view rows i = Some (DsFailed, n) \<and> durable_view rows' i = Some (DsPending, n + 1)))
    \<and> (x \<noteq> None \<longrightarrow> (\<exists>st n st'. durable_view rows i = Some (st, n) \<and> durable_view rows' i = Some (st', n)
      \<and> (st' = st \<or> st \<noteq> DsDispatched \<and> st' = DsBlocked)))" (is "?goal x rows'")
  proof (cases "dispatch_at rows i")
    case None
    with assms show ?thesis
      by (auto simp: durable_claim_def durable_view_def dispatch_at_append claim_row_of_def)
  next
    case (Some r)
    note at = Some
    note none = update_dispatch_none [OF assms(1) Some]
    have "?goal (fst (durable_claim t i now rows)) (snd (durable_claim t i now rows))"
    proof (cases "isCompatibleDurableClaim r t")
      case False
      then show ?thesis
        by (auto simp: durable_claim_def at durable_view_Some update_dispatch_view)
    next
      case True
      then show ?thesis
        by (cases "dr_status r")
          (auto simp: durable_claim_def at durable_view_Some update_dispatch_view none split_beta)
    qed
    then show ?thesis by (simp add: assms(2))
  qed
  then show "x = None \<Longrightarrow> (durable_view rows i = None \<and> durable_view rows' i = Some (DsPending, 1))
      \<or> (\<exists>n < max_attempts. durable_view rows i = Some (DsFailed, n) \<and> durable_view rows' i = Some (DsPending, n + 1))"
    and "x \<noteq> None \<Longrightarrow> \<exists>st n st'. durable_view rows i = Some (st, n) \<and> durable_view rows' i = Some (st', n)
      \<and> (st' = st \<or> st \<noteq> DsDispatched \<and> st' = DsBlocked)" by simp_all
qed

lemma release_pending_view:
  assumes "rows_ok rows" and "release_pending i st err rows = (n, rows')"
  shows "rows_ok rows'"
    and "durable_view rows' j = (case durable_view rows j of
          Some (s, k) \<Rightarrow> Some (if j = i \<and> s = DsPending then st else s, k) | None \<Rightarrow> None)"
    and "durable_view rows i = Some (s, k) \<Longrightarrow> n = 0 \<longleftrightarrow> s \<noteq> DsPending"
proof -
  have parts: "rows' = snd (release_pending i st err rows)" "n = fst (release_pending i st err rows)"
    using assms(2) by simp_all
  show "rows_ok rows'"
    unfolding parts release_pending_def using assms(1) by (subst update_dispatch_ok) simp_all
  show "durable_view rows' j = (case durable_view rows j of
          Some (s, k) \<Rightarrow> Some (if j = i \<and> s = DsPending then st else s, k) | None \<Rightarrow> None)"
    unfolding parts release_pending_def
    by (cases "dispatch_at rows j"; subst update_dispatch_view) (simp_all add: durable_view_def)
  show "n = 0 \<longleftrightarrow> s \<noteq> DsPending" if "durable_view rows i = Some (s, k)"
  proof -
    from that obtain r where "dispatch_at rows i = Some r" "dr_status r = s"
      by (auto simp: durable_view_def)
    with update_dispatch_none [OF assms(1)] show ?thesis unfolding parts release_pending_def by simp
  qed
qed

lemma durable_start_cases:
  assumes "rows_ok rows" and "durable_start sha t o' rows = (x, rows')"
  shows "rows_ok rows' \<and> (\<forall>j. j \<noteq> computeTokenIdentity sha t \<longrightarrow> durable_view rows' j = durable_view rows j)"
proof -
  obtain y rows1 where c: "durable_claim t (computeTokenIdentity sha t) (do_now o') rows = (y, rows1)"
    by (metis surj_pair)
  note claim = durable_claim_other [OF c]
  note release = release_pending_view [OF claim(2) [OF assms(1)]]
  have rel: "rows_ok r2 \<and> (\<forall>j. j \<noteq> i \<longrightarrow> durable_view r2 j = durable_view rows1 j)"
    if "release_pending i st err rows1 = (n, r2)" for i st err n r2
    using release(1,2) [OF that] by (auto split: option.splits)
  show ?thesis
    using assms claim rel
    by (cases y) (auto simp: durable_start_def Let_def c split: option.splits if_splits prod.splits)
qed

lemma durable_start_called:
  assumes "rows_ok rows" and "durable_start sha t o' rows = (None, rows')"
  shows "durable_claim t (computeTokenIdentity sha t) (do_now o') rows = (None, rows')"
  using assms by (auto simp: durable_start_def Let_def split: option.splits if_splits prod.splits)

lemma durable_start_answered:
  assumes "rows_ok rows" and "durable_start sha t o' rows = (Some r, rows')" and "i = computeTokenIdentity sha t"
  shows "\<not> dp_dispatched r"
    and "rows' = rows \<or> (\<exists>y. durable_claim t i (do_now o') rows = (Some y, rows'))
      \<or> (\<exists>rows1 err n. durable_claim t i (do_now o') rows = (None, rows1) \<and> release_pending i DsFailed err rows1 = (n, rows'))"
  using assms
  by (auto simp: durable_start_def Let_def refused_def split: option.splits if_splits prod.splits)

lemma durable_finish_cases:
  assumes "rows_ok rows" and "durable_finish i out now rows = (r, rows')"
  shows "rows_ok rows'" and "j \<noteq> i \<Longrightarrow> durable_view rows' j = durable_view rows j"
    and "durable_view rows i = Some (st, n) \<Longrightarrow>
      durable_view rows' i = Some (if st \<noteq> DsPending then st else if out = Delivered then DsDispatched
                                   else if n \<ge> max_attempts then DsBlocked else DsFailed, n)
      \<and> (dp_dispatched r \<longleftrightarrow> st = DsPending \<and> out = Delivered)"
proof -
  let ?f = "\<lambda>r. r\<lparr>dr_status := DsDispatched, dr_dispatchedAt := Some now, dr_error := None\<rparr>"
  let ?p = "\<lambda>r. dr_status r = DsPending"
  have "rows_ok rows' \<and> (j \<noteq> i \<longrightarrow> durable_view rows' j = durable_view rows j)
    \<and> (\<forall>st n. durable_view rows i = Some (st, n) \<longrightarrow>
      durable_view rows' i = Some (if st \<noteq> DsPending then st else if out = Delivered then DsDispatched
                                   else if n \<ge> max_attempts then DsBlocked else DsFailed, n)
      \<and> (dp_dispatched r \<longleftrightarrow> st = DsPending \<and> out = Delivered))"
  proof (cases out)
    case Delivered
    then have rows': "rows' = snd (update_dispatch i ?p ?f rows)"
      and r: "dp_dispatched r \<longleftrightarrow> fst (update_dispatch i ?p ?f rows) \<noteq> 0"
      using assms(2) by (auto simp: durable_finish_def split_beta refused_def split: if_splits)
    have "rows_ok rows'" unfolding rows' using assms(1) by (subst update_dispatch_ok) simp_all
    moreover have "durable_view rows' k = map_option (\<lambda>r. if k = i \<and> ?p r then (dr_status (?f r), dr_attemptCount (?f r))
        else (dr_status r, dr_attemptCount r)) (dispatch_at rows k)" for k
      unfolding rows' by (rule update_dispatch_view) simp
    ultimately show ?thesis
      using update_dispatch_none [OF assms(1), of i _ ?p ?f] Delivered r
      by (auto simp: durable_view_def)
  next
    case (NotDelivered err)
    let ?st = "if nullish (map_option dr_attemptCount (dispatch_at rows i)) 1 \<ge> max_attempts then DsBlocked else DsFailed"
    obtain k where rel: "release_pending i ?st err rows = (k, rows')" and r: "\<not> dp_dispatched r"
      using assms(2) NotDelivered by (auto simp: durable_finish_def Let_def refused_def split: prod.splits)
    note view = release_pending_view [OF assms(1) rel]
    have "durable_view rows i = Some (st, n) \<Longrightarrow> ?st = (if n \<ge> max_attempts then DsBlocked else DsFailed)" for st n
      by (auto simp: durable_view_def)
    with view(1) view(2) [of j] view(2) [of i] r NotDelivered show ?thesis
      by (auto split: option.split)
  qed
  then show "rows_ok rows'" and "j \<noteq> i \<Longrightarrow> durable_view rows' j = durable_view rows j"
    and "durable_view rows i = Some (st, n) \<Longrightarrow>
      durable_view rows' i = Some (if st \<noteq> DsPending then st else if out = Delivered then DsDispatched
                                   else if n \<ge> max_attempts then DsBlocked else DsFailed, n)
      \<and> (dp_dispatched r \<longleftrightarrow> st = DsPending \<and> out = Delivered)" by blast+
qed

lemma durable_start_view:
  assumes "rows_ok rows" and "durable_start sha t o' rows = (Some r, rows')" and i: "i = computeTokenIdentity sha t"
  shows "case durable_view rows i of
         None \<Rightarrow> durable_view rows' i \<in> {None, Some (DsFailed, 1), Some (DsPending, 1)}
       | Some (st, n) \<Rightarrow>
           (\<exists>st'. durable_view rows' i = Some (st', n) \<and> (st = DsDispatched \<longrightarrow> st' = st) \<and> (st' = st \<or> st' = DsBlocked))
           \<or> st = DsFailed \<and> n < max_attempts \<and> durable_view rows' i = Some (DsFailed, n + 1)"
  using durable_start_answered(2) [OF assms]
proof (elim disjE exE conjE)
  assume "rows' = rows"
  then show ?thesis by (simp split: option.split)
next
  fix y assume "durable_claim t i (do_now o') rows = (Some y, rows')"
  from durable_claim_here(2) [OF assms(1) this] show ?thesis by auto
next
  fix rows1 err n
  assume claim: "durable_claim t i (do_now o') rows = (None, rows1)"
    and rel: "release_pending i DsFailed err rows1 = (n, rows')"
  have "rows_ok rows1" using durable_claim_other(2) [OF claim assms(1)] .
  with durable_claim_here(1) [OF assms(1) claim] release_pending_view(2) [OF _ rel, of i] show ?thesis by auto
qed

lemma reconcile_rows:
  "durable_view (reconcilePendingDispatches now rows) i =
     (case durable_view rows i of Some (st, n) \<Rightarrow> Some (if st = DsPending then DsOutcomeUnknown else st, n) | None \<Rightarrow> None)"
  "rows_ok (reconcilePendingDispatches now rows) \<longleftrightarrow> rows_ok rows"
proof -
  let ?f = "\<lambda>r :: dispatch_row. if dr_status r = DsPending
              then r\<lparr>dr_status := DsOutcomeUnknown,
                     dr_error := Some ''dispatch_outcome_unknown_after_restart'', dr_lastAttemptAt := now\<rparr>
              else r"
  have at: "dispatch_at (map ?f rows) i = map_option ?f (dispatch_at rows i)"
    by (rule dispatch_at_map) simp
  show "durable_view (reconcilePendingDispatches now rows) i =
     (case durable_view rows i of Some (st, n) \<Rightarrow> Some (if st = DsPending then DsOutcomeUnknown else st, n) | None \<Rightarrow> None)"
    by (cases "dispatch_at rows i") (simp_all add: durable_view_def reconcilePendingDispatches_def at)
  have "dr_identity \<circ> ?f = dr_identity" by (rule ext) simp
  then show "rows_ok (reconcilePendingDispatches now rows) \<longleftrightarrow> rows_ok rows"
    by (simp add: rows_ok_def reconcilePendingDispatches_def del: comp_apply)
qed

interpretation durable: durable_store durable_view "durable_start sha" durable_finish "computeTokenIdentity sha"
  "{DsBlocked, DsOutcomeUnknown}" rows_ok reconcilePendingDispatches for sha
proof unfold_locales
  show "{DsBlocked, DsOutcomeUnknown} \<subseteq> {DsBlocked, DsOutcomeUnknown}" by simp
next
  fix s t o' x s' assume "rows_ok s" "durable_start sha t o' s = (x, s')"
  then show "rows_ok s'" using durable_start_cases by blast
next
  fix s i out now r s' assume "rows_ok s" "durable_finish i out now s = (r, s')"
  then show "rows_ok s'" by (rule durable_finish_cases(1))
next
  fix s t o' x s' i assume "rows_ok s" "durable_start sha t o' s = (x, s')" "i \<noteq> computeTokenIdentity sha t"
  then show "durable_view s' i = durable_view s i" using durable_start_cases by blast
next
  fix s i out now r s' j assume "rows_ok s" "durable_finish i out now s = (r, s')" "j \<noteq> i"
  then show "durable_view s' j = durable_view s j" by (rule durable_finish_cases(2))
next
  fix s t o' s' assume "rows_ok s" "durable_start sha t o' s = (None, s')"
  then show "durable_view s (computeTokenIdentity sha t) = None \<and> durable_view s' (computeTokenIdentity sha t) = Some (DsPending, 1)
      \<or> (\<exists>n < max_attempts. durable_view s (computeTokenIdentity sha t) = Some (DsFailed, n)
            \<and> durable_view s' (computeTokenIdentity sha t) = Some (DsPending, n + 1))"
    using durable_claim_here(1) durable_start_called by blast
next
  fix s t o' r s' assume *: "rows_ok s" "durable_start sha t o' s = (Some r, s')"
  from durable_start_view [OF * refl] durable_start_answered(1) [OF * refl]
  show "\<not> dp_dispatched r \<and>
      (case durable_view s (computeTokenIdentity sha t) of
         None \<Rightarrow> durable_view s' (computeTokenIdentity sha t) \<in> {None, Some (DsFailed, 1), Some (DsPending, 1)}
       | Some (st, n) \<Rightarrow>
           (\<exists>st'. durable_view s' (computeTokenIdentity sha t) = Some (st', n) \<and> (st = DsDispatched \<longrightarrow> st' = st)
              \<and> (st \<in> insert DsPending {DsBlocked, DsOutcomeUnknown} \<longrightarrow> st' = st \<or> st' \<in> {DsBlocked, DsOutcomeUnknown})
              \<and> (st' = st \<or> st' = DsBlocked))
           \<or> st = DsFailed \<and> n < max_attempts
             \<and> durable_view s' (computeTokenIdentity sha t) \<in> {Some (DsFailed, n + 1), Some (DsPending, n + 1)})"
    by (cases "durable_view s (computeTokenIdentity sha t)") auto
next
  fix s i out now r s' n assume *: "rows_ok s" "durable_finish i out now s = (r, s')" "durable_view s i = Some (DsPending, n)"
  from durable_finish_cases(3) [OF *]
  show "durable_view s' i = Some (if out = Delivered then DsDispatched else if max_attempts \<le> n then DsBlocked else DsFailed, n)
      \<and> dp_dispatched r = (out = Delivered)" by simp
next
  fix s i out now r s' st n
  assume *: "rows_ok s" "durable_finish i out now s = (r, s')" "durable_view s i = Some (st, n)" "st \<in> {DsBlocked, DsOutcomeUnknown}"
  from durable_finish_cases(3) [OF *(1-3)] *(3,4) show "durable_view s' i = durable_view s i \<and> \<not> dp_dispatched r" by auto
next
  fix s now assume "rows_ok s" then show "rows_ok (reconcilePendingDispatches now s)" by (simp add: reconcile_rows)
next
  fix s now i assume "rows_ok s"
  show "durable_view (reconcilePendingDispatches now s) i =
      (case durable_view s i of None \<Rightarrow> None | Some (st, n) \<Rightarrow> Some (if st = DsPending then DsOutcomeUnknown else st, n))"
    by (rule reconcile_rows)
qed simp

lemma memory_set_view: "map_of (memory_set i st m) j = (if j = i then map_option (\<lambda>(_, n). (st, n)) (map_of m i) else map_of m j)"
  by (auto simp: memory_set_def store_simps split: option.split)

lemma memory_start_cases:
  assumes "memory_start sha t o' m = (x, m')" and i: "i = computeTokenIdentity sha t"
  shows "j \<noteq> i \<Longrightarrow> map_of m' j = map_of m j"
    and "x = None \<Longrightarrow> (map_of m i = None \<and> map_of m' i = Some (DsPending, 1))
      \<or> (\<exists>n < max_attempts. map_of m i = Some (DsFailed, n) \<and> map_of m' i = Some (DsPending, n + 1))"
    and "x = Some r \<Longrightarrow> \<not> dp_dispatched r \<and>
      (case map_of m i of
         None \<Rightarrow> map_of m' i \<in> {None, Some (DsFailed, 1), Some (DsPending, 1)}
       | Some (st, n) \<Rightarrow>
           (\<exists>st'. map_of m' i = Some (st', n) \<and> (st = DsDispatched \<longrightarrow> st' = st) \<and> (st = DsPending \<longrightarrow> st' = st)
              \<and> (st' = st \<or> st' = DsBlocked))
           \<or> st = DsFailed \<and> n < max_attempts
             \<and> map_of m' i \<in> {Some (DsFailed, n + 1), Some (DsPending, n + 1)})"
  using assms
  by (auto simp: memory_start_def memory_claim_def memory_set_view store_simps refused_def Let_def
      split: option.splits prod.splits if_splits dispatch_status.splits)

lemma memory_finish_cases:
  assumes "memory_finish i out m = (r, m')"
  shows "j \<noteq> i \<Longrightarrow> map_of m' j = map_of m j"
    and "map_of m i = Some (st, n) \<Longrightarrow>
      map_of m' i = Some (if out = Delivered then DsDispatched else if n \<ge> max_attempts then DsBlocked else DsFailed, n)
      \<and> (dp_dispatched r \<longleftrightarrow> out = Delivered)"
  using assms
  by (cases out; auto simp: memory_finish_def memory_set_view refused_def split: option.splits)+

interpretation memory: dispatch_store map_of "memory_start sha" "\<lambda>i out now. memory_finish i out"
  "computeTokenIdentity sha" "{}" "\<lambda>_. True" for sha
proof unfold_locales
  fix s t o' x s' i assume "memory_start sha t o' s = (x, s')" "i \<noteq> computeTokenIdentity sha t"
  then show "map_of s' i = map_of s i" by (rule memory_start_cases(1) [OF _ refl])
next
  fix s i out r s' j assume "memory_finish i out s = (r, s')" "j \<noteq> i"
  then show "map_of s' j = map_of s j" by (rule memory_finish_cases(1))
next
  fix s t o' s' assume "memory_start sha t o' s = (None, s')"
  from memory_start_cases(2) [OF this refl refl]
  show "map_of s (computeTokenIdentity sha t) = None \<and> map_of s' (computeTokenIdentity sha t) = Some (DsPending, 1)
      \<or> (\<exists>n < max_attempts. map_of s (computeTokenIdentity sha t) = Some (DsFailed, n)
            \<and> map_of s' (computeTokenIdentity sha t) = Some (DsPending, n + 1))" .
next
  fix s t o' r s' assume *: "memory_start sha t o' s = (Some r, s')"
  from memory_start_cases(3) [OF this refl refl]
  show "\<not> dp_dispatched r \<and>
      (case map_of s (computeTokenIdentity sha t) of
         None \<Rightarrow> map_of s' (computeTokenIdentity sha t) \<in> {None, Some (DsFailed, 1), Some (DsPending, 1)}
       | Some (st, n) \<Rightarrow>
           (\<exists>st'. map_of s' (computeTokenIdentity sha t) = Some (st', n) \<and> (st = DsDispatched \<longrightarrow> st' = st)
              \<and> (st \<in> insert DsPending {} \<longrightarrow> st' = st \<or> st' \<in> {}) \<and> (st' = st \<or> st' = DsBlocked))
           \<or> st = DsFailed \<and> n < max_attempts
             \<and> map_of s' (computeTokenIdentity sha t) \<in> {Some (DsFailed, n + 1), Some (DsPending, n + 1)})"
    by (cases "map_of s (computeTokenIdentity sha t)") auto
next
  fix s i out r s' n assume "memory_finish i out s = (r, s')" "map_of s i = Some (DsPending, n)"
  from memory_finish_cases(2) [OF this]
  show "map_of s' i = Some (if out = Delivered then DsDispatched else if max_attempts \<le> n then DsBlocked else DsFailed, n)
      \<and> dp_dispatched r = (out = Delivered)" .
qed simp_all

section \<open>Properties\<close>

text \<open>
  C2. A continuation is delivered at most once. From an empty table, through every sequence of
  dispatches of any tokens, answers of the native client in any order, restarts and lost calls, at
  most two native calls are made for one identity, at most one of them is delivered or of unknown
  fate, and while such a call is out there is no other.
\<close>

theorem continuation_delivered_once:
  assumes "(recovering_step (durable_start sha) durable_finish (computeTokenIdentity sha)
              reconcilePendingDispatches)\<^sup>*\<^sup>* (idle []) m"
  shows "ru_calls m i \<le> 2 \<and> ru_delivered m i + count_list (ru_inflight m) i \<le> 1"
  by (rule durable.recovering_bounds [OF assms]) (simp_all add: rows_ok_def durable_view_def dispatch_at_def)

definition plain_opts :: dispatch_opts where
  "plain_opts = \<lparr>do_statePort = None, do_currentTurnVersion = None, do_currentAggregateVersion = None,
     do_clientReady = True, do_authority = None, do_now = 5\<rparr>"

definition plain_token :: token where
  "plain_token = \<lparr>tk_runId = ''r'', tk_sessionId = ''s'', tk_userTurnVersion = 1, tk_runAggregateVersion = 2,
     tk_transitionReason = ''STALL_DETECTED'', tk_currentWorkItemId = None, tk_stateFingerprint = ''f'',
     tk_identityKey = Some ''k''\<rparr>"

lemma plain_identity [simp]: "computeTokenIdentity (\<lambda>s. s) plain_token = ''k''"
  by (simp add: computeTokenIdentity_def plain_token_def)

lemma plain_start:
  "durable_start (\<lambda>s. s) plain_token plain_opts [] = (None, [claim_row_of plain_token ''k'' 5])"
  by (simp add: durable_start_def revalidate_def plain_opts_def durable_claim_def dispatch_at_def
      authority_lost_def)

theorem continuation_delivered_once_witness:
  "\<exists>m. ru_inflight m = [''k''] \<and> ru_calls m ''k'' = 1
     \<and> (recovering_step (durable_start (\<lambda>s. s)) durable_finish (computeTokenIdentity (\<lambda>s. s))
           reconcilePendingDispatches)\<^sup>*\<^sup>* (idle []) m
     \<and> ru_delivered m ''k'' + count_list (ru_inflight m) ''k'' \<le> 1"
proof -
  let ?m = "(idle [])\<lparr>ru_store := [claim_row_of plain_token ''k'' 5], ru_inflight := [''k''],
               ru_calls := bump ''k'' (\<lambda>_. 0)\<rparr>"
  have "dispatch_step (durable_start (\<lambda>s. s)) durable_finish (computeTokenIdentity (\<lambda>s. s)) (idle []) ?m"
    using dispatch_step.called [of "durable_start (\<lambda>s. s)" plain_token plain_opts "idle []"
        "[claim_row_of plain_token ''k'' 5]" durable_finish "computeTokenIdentity (\<lambda>s. s)"]
    by (simp add: idle_def plain_start)
  then have steps: "(recovering_step (durable_start (\<lambda>s. s)) durable_finish (computeTokenIdentity (\<lambda>s. s))
           reconcilePendingDispatches)\<^sup>*\<^sup>* (idle []) ?m"
    by (intro r_into_rtranclp recovering_step.normal)
  from continuation_delivered_once [OF steps, of "''k''"] steps show ?thesis
    by (intro exI [of _ ?m]) (simp add: idle_def)
qed

lemma durable_claim_memory:
  assumes "rows_ok rows" and same: "\<And>j. durable_view rows j = map_of m j"
    and compat: "\<And>r. dispatch_at rows i = Some r \<Longrightarrow> isCompatibleDurableClaim r t"
  shows "fst (durable_claim t i now rows) = fst (memory_claim i m)"
    and "durable_view (snd (durable_claim t i now rows)) j = map_of (snd (memory_claim i m)) j"
proof -
  have "fst (durable_claim t i now rows) = fst (memory_claim i m)
    \<and> durable_view (snd (durable_claim t i now rows)) j = map_of (snd (memory_claim i m)) j"
  proof (cases "dispatch_at rows i")
    case None
    then have "map_of m i = None" using same [of i] by (simp add: durable_view_def)
    with None same [of j] show ?thesis
      by (auto simp: durable_claim_def memory_claim_def durable_view_def dispatch_at_append claim_row_of_def
          store_simps split: option.split)
  next
    case (Some r)
    note none = update_dispatch_none [OF assms(1) Some]
    have mi: "map_of m i = Some (dr_status r, dr_attemptCount r)"
      using same [of i] Some by (simp add: durable_view_def)
    have other: "map_of m j = map_option (\<lambda>r. (dr_status r, dr_attemptCount r)) (dispatch_at rows j)"
      using same [of j] by (simp add: durable_view_def)
    show ?thesis
      using compat [OF Some] Some
      by (cases "dr_status r"; cases "j = i")
        (auto simp: durable_claim_def memory_claim_def mi other durable_view_def [of rows]
          update_dispatch_view none split_beta store_simps)
  qed
  then show "fst (durable_claim t i now rows) = fst (memory_claim i m)"
    and "durable_view (snd (durable_claim t i now rows)) j = map_of (snd (memory_claim i m)) j" by simp_all
qed

text \<open>Where the two dispatchers part: a row that was written for another token, and a claim whose authority is
  revoked before the native call.\<close>

definition claim_mismatched :: "token \<Rightarrow> dispatch_opts \<Rightarrow> string \<Rightarrow> dispatch_row list \<Rightarrow> bool" where
  "claim_mismatched t opts i rows \<longleftrightarrow> revalidate t opts = None
     \<and> (case dispatch_at rows i of None \<Rightarrow> False | Some r \<Rightarrow> \<not> isCompatibleDurableClaim r t)"

definition claim_revoked :: "token \<Rightarrow> dispatch_opts \<Rightarrow> string \<Rightarrow> memory_dispatches \<Rightarrow> bool" where
  "claim_revoked t opts i m \<longleftrightarrow> revalidate t opts = None \<and> authority_lost opts \<and> fst (memory_claim i m) = None"

lemma mismatched_start:
  assumes "rows_ok rows" and "claim_mismatched t opts i rows" and "i = computeTokenIdentity sha t"
    and "durable_start sha t opts rows = (x, rows')"
  shows "x = Some (refused i DispatchOutcomeUnknown)"
    and "durable_view rows' i = map_option (\<lambda>(st, n). (if st = DsDispatched then st else DsBlocked, n)) (durable_view rows i)"
proof -
  obtain r where r: "dispatch_at rows i = Some r" "\<not> isCompatibleDurableClaim r t" "revalidate t opts = None"
    using assms(2) by (auto simp: claim_mismatched_def split: option.splits)
  then have d: "x = Some (refused i DispatchOutcomeUnknown)"
    "rows' = snd (update_dispatch i (\<lambda>r. dr_status r \<noteq> DsDispatched)
       (\<lambda>r. r\<lparr>dr_status := DsBlocked, dr_error := Some ''corrupt_or_mismatched_durable_dispatch''\<rparr>) rows)"
    using assms(3,4) by (simp_all add: durable_start_def durable_claim_def Let_def)
  then show "x = Some (refused i DispatchOutcomeUnknown)" by simp
  show "durable_view rows' i = map_option (\<lambda>(st, n). (if st = DsDispatched then st else DsBlocked, n)) (durable_view rows i)"
    using r by (auto simp: d(2) update_dispatch_view durable_view_def [of rows] split: option.splits)
qed

text \<open>Everything but the mismatch: the claims agree, and so does what follows, up to the release of a revoked claim.\<close>

lemma matched_start:
  assumes ok: "rows_ok rows" and same: "\<And>j. durable_view rows j = map_of m j"
    and i: "i = computeTokenIdentity sha t" and c: "\<not> claim_mismatched t opts i rows"
    and d: "durable_start sha t opts rows = (x, rows')" and e: "memory_start sha t opts m = (y, m')"
  shows "y = x \<and> (if claim_revoked t opts i m
     then x = Some (refused i AuthorityRevoked) \<and> (\<exists>n. durable_view rows' i = Some (DsFailed, n) \<and> map_of m' i = Some (DsPending, n))
     else durable_view rows' i = map_of m' i)"
proof (cases "revalidate t opts")
  case (Some r)
  then show ?thesis
    using d e same by (auto simp: durable_start_def memory_start_def Let_def claim_revoked_def i)
next
  case None
  then have compat: "isCompatibleDurableClaim r t" if "dispatch_at rows i = Some r" for r
    using c that by (simp add: claim_mismatched_def)
  obtain z rows1 where cl: "durable_claim t i (do_now opts) rows = (z, rows1)" by (metis surj_pair)
  obtain z' m1 where cl': "memory_claim i m = (z', m1)" by (metis surj_pair)
  have z: "z' = z" and view: "durable_view rows1 k = map_of m1 k" for k
    using durable_claim_memory [where i = i and t = t and now = "do_now opts", OF ok same compat] by (simp_all add: cl cl')
  have ok1: "rows_ok rows1" using durable_claim_other(2) [OF cl ok] .
  show ?thesis
  proof (cases z)
    case (Some r)
    with None z view d e show ?thesis
      by (auto simp: durable_start_def memory_start_def Let_def cl cl' claim_revoked_def i [symmetric])
  next
    case claimed: None
    from durable_claim_here(1) [OF ok cl claimed] obtain n where n: "durable_view rows1 i = Some (DsPending, n)"
      by blast
    have released: "\<exists>k rows2. release_pending i DsFailed err rows1 = (k, rows2) \<and> k \<noteq> 0
        \<and> durable_view rows2 i = Some (DsFailed, n)" for err
    proof -
      obtain k rows2 where rel: "release_pending i DsFailed err rows1 = (k, rows2)" by (metis surj_pair)
      note rv = release_pending_view [OF ok1 rel]
      show ?thesis using rv(2) [of i] rv(3) [OF n] n by (simp add: rel)
    qed
    obtain k2 rows2 where rel2: "release_pending i DsFailed ''authority_revoked'' rows1 = (k2, rows2)" "k2 \<noteq> 0"
      "durable_view rows2 i = Some (DsFailed, n)" using released by blast
    obtain k3 rows3 where rel3: "release_pending i DsFailed ''native_dispatch_unavailable'' rows1 = (k3, rows3)" "k3 \<noteq> 0"
      "durable_view rows3 i = Some (DsFailed, n)" using released by blast
    have m1: "map_of m1 i = Some (DsPending, n)" using n view by simp
    show ?thesis
      using None claimed z view d e rel2 rel3 m1
      by (auto simp: durable_start_def memory_start_def Let_def cl cl' claim_revoked_def memory_set_view i [symmetric]
          split: if_splits prod.splits)
  qed
qed

lemma finish_agrees:
  assumes ok: "rows_ok rows" and same: "\<And>j. durable_view rows j = map_of m j" and k: "map_of m k = Some (DsPending, n)"
  shows "fst (memory_finish k out m) = fst (durable_finish k out now rows)
    \<and> durable_view (snd (durable_finish k out now rows)) j = map_of (snd (memory_finish k out m)) j"
proof -
  have pending: "durable_view rows k = Some (DsPending, n)" using same k by simp
  obtain r rows' where f: "durable_finish k out now rows = (r, rows')" by (metis surj_pair)
  obtain r' m' where f': "memory_finish k out m = (r', m')" by (metis surj_pair)
  note d = durable_finish_cases [OF ok f] note e = memory_finish_cases [OF f']
  have views: "durable_view rows' j = map_of m' j"
    using d(2) [of j] d(3) [OF pending] e(1) [of j] e(2) [OF k] same by (cases "j = k") auto
  obtain row where row: "dispatch_at rows k = Some row" "dr_status row = DsPending"
    using pending by (auto simp: durable_view_def)
  have "r' = r"
    using f f' update_dispatch_none [OF ok row(1)] row(2)
    by (cases out) (auto simp: durable_finish_def memory_finish_def release_pending_def split_beta Let_def)
  with views f f' show ?thesis by simp
qed

text \<open>
  C37. The dispatcher without a database and the durable one, call by call on stores that show the same status and
  attempts for every identity. The end of a pending call gives the same answer and the same stores in both. A dispatch
  never touches another identity, and for its own it gives the same answer, or makes the native call, and the same
  stores, with exactly two exceptions: a row that was written for another token is blocked by the durable one
  (unless it was dispatched) and the answer is that the outcome is unknown; and when the authority is revoked after
  the claim, both answer so, but the durable one gives the claim back as failed and the other keeps it pending.
\<close>

theorem memory_refines_durable:
  assumes "rows_ok rows" and "\<And>j. durable_view rows j = map_of m j" and "i = computeTokenIdentity sha t"
    and "durable_start sha t opts rows = (x, rows')" and "memory_start sha t opts m = (y, m')"
  shows "(j \<noteq> i \<longrightarrow> durable_view rows' j = map_of m' j)
     \<and> (if claim_mismatched t opts i rows
        then x = Some (refused i DispatchOutcomeUnknown)
          \<and> durable_view rows' i = map_option (\<lambda>(st, n). (if st = DsDispatched then st else DsBlocked, n)) (durable_view rows i)
        else y = x \<and> (if claim_revoked t opts i m
          then x = Some (refused i AuthorityRevoked)
            \<and> (\<exists>n. durable_view rows' i = Some (DsFailed, n) \<and> map_of m' i = Some (DsPending, n))
          else durable_view rows' i = map_of m' i))
     \<and> (map_of m k = Some (DsPending, n) \<longrightarrow>
          fst (memory_finish k out m) = fst (durable_finish k out now rows)
          \<and> durable_view (snd (durable_finish k out now rows)) j = map_of (snd (memory_finish k out m)) j)"
proof (intro conjI impI)
  show "durable_view rows' j = map_of m' j" if "j \<noteq> i"
  proof -
    have "durable_view rows' j = durable_view rows j"
      using durable_start_cases [OF assms(1,4)] that assms(3) by blast
    moreover have "map_of m' j = map_of m j" by (rule memory_start_cases(1) [OF assms(5,3) that])
    ultimately show ?thesis using assms(2) by simp
  qed
next
  assume "map_of m k = Some (DsPending, n)"
  from finish_agrees [OF assms(1,2) this]
  show "fst (memory_finish k out m) = fst (durable_finish k out now rows)"
    "durable_view (snd (durable_finish k out now rows)) j = map_of (snd (memory_finish k out m)) j" by blast+
qed (use mismatched_start [OF assms(1) _ assms(3,4)] matched_start [OF assms(1-3) _ assms(4,5)] in \<open>auto split: if_splits\<close>)

text \<open>
  Without a database, a claim whose authority is revoked just before the native call is never
  given back: it stays pending, and whatever dispatches follow, no native call is ever made for its
  identity. The durable dispatcher marks the same claim as failed, and a later dispatch of the token
  gets through.
\<close>

theorem revoked_claim_stuck:
  assumes "do_authority opts = Some (True, False)" and "i = computeTokenIdentity sha t"
    and "(dispatch_step (memory_start sha) (\<lambda>i out now. memory_finish i out) (computeTokenIdentity sha))\<^sup>*\<^sup>*
           (idle (snd (memory_start sha t opts []))) m"
    and "revalidate t again = None" and "\<not> authority_lost again" and "do_clientReady again"
  shows "map_of (ru_store m) i = Some (DsPending, 1) \<and> ru_calls m i = 0
     \<and> fst (durable_start sha t again (snd (durable_start sha t opts []))) = None"
proof -
  have "map_of (ru_store m) i = Some (DsPending, 1) \<and> ru_calls m i = 0 \<and> i \<notin> set (ru_inflight m)"
    using assms(3)
  proof (induction rule: rtranclp_induct)
    case base
    show ?case
      using assms(1,2) by (simp add: idle_def memory_start_def revalidate_def memory_claim_def authority_lost_def Let_def)
  next
    case (step m1 m2)
    from step(2) show ?case
    proof cases
      case (called t' o' s)
      with memory_start_cases(1,2) [OF called(2) refl] step(3) show ?thesis
        by (cases "i = computeTokenIdentity sha t'") auto
    next
      case (answered t' o' r s)
      with memory_start_cases(1,3) [OF answered(2) refl] step(3) show ?thesis
        by (cases "i = computeTokenIdentity sha t'") auto
    next
      case (finished j out now r s)
      with memory_finish_cases(1) [OF finished(3)] step(3) show ?thesis
        by (cases "i = j") (auto dest: set_remove1_subset [THEN subsetD])
    qed
  qed
  moreover have "fst (durable_start sha t again (snd (durable_start sha t opts []))) = None"
    using assms(1,4-6)
    by (simp add: durable_start_def revalidate_def [of t opts] durable_claim_def [of _ _ _ "[]"] dispatch_at_def Let_def
        authority_lost_def [of opts] release_pending_def update_dispatch_def claim_row_of_def)
      (simp add: durable_claim_def dispatch_at_def isCompatibleDurableClaim_def update_dispatch_def max_attempts_def)
  ultimately show ?thesis by simp
qed

theorem memory_refines_durable_witness:
  "fst (durable_start (\<lambda>s. s) plain_token (plain_opts\<lparr>do_authority := Some (True, False)\<rparr>) []) = Some (refused ''k'' AuthorityRevoked)
   \<and> (\<exists>n. durable_view (snd (durable_start (\<lambda>s. s) plain_token (plain_opts\<lparr>do_authority := Some (True, False)\<rparr>) [])) ''k''
        = Some (DsFailed, n))"
proof -
  let ?opts = "plain_opts\<lparr>do_authority := Some (True, False)\<rparr>"
  obtain x rows where d: "durable_start (\<lambda>s. s) plain_token ?opts [] = (x, rows)" by (metis surj_pair)
  obtain y m where e: "memory_start (\<lambda>s. s) plain_token ?opts [] = (y, m)" by (metis surj_pair)
  have revoked: "\<not> claim_mismatched plain_token ?opts ''k'' []" "claim_revoked plain_token ?opts ''k'' []"
    by (simp_all add: claim_mismatched_def claim_revoked_def dispatch_at_def revalidate_def authority_lost_def memory_claim_def)
  have "rows_ok []" "durable_view [] j = map_of [] j" for j by (simp_all add: rows_ok_def durable_view_def dispatch_at_def)
  from memory_refines_durable [OF this plain_identity [symmetric] d e] revoked d show ?thesis by auto
qed

theorem revoked_claim_stuck_witness:
  "map_of (snd (memory_start (\<lambda>s. s) plain_token (plain_opts\<lparr>do_authority := Some (True, False)\<rparr>) [])) ''k'' = Some (DsPending, 1)
   \<and> fst (durable_start (\<lambda>s. s) plain_token plain_opts
        (snd (durable_start (\<lambda>s. s) plain_token (plain_opts\<lparr>do_authority := Some (True, False)\<rparr>) []))) = None"
  using revoked_claim_stuck [of "plain_opts\<lparr>do_authority := Some (True, False)\<rparr>" "''k''" "\<lambda>s. s" plain_token _ plain_opts,
      OF _ _ rtranclp.rtrancl_refl]
  by (simp add: idle_def) (simp add: plain_opts_def revalidate_def authority_lost_def)

end
