(* ===== verification/Budget.thy ===== *)
theory Budget
  imports Complex_Main Prelude
begin

text \<open>
  The token budget of a run: the controller that reserves, commits and releases tokens
  (\<open>services/token-budget-controller.ts\<close>) and the append-only log from which it is rebuilt
  (\<open>services/token-usage-store.ts\<close>).

  The controller runs every operation under its mutex and without an \<open>await\<close> inside, so an operation
  is one step. Token counts are integers; \<open>None\<close> stands for a count that is missing or not a finite
  number. The thresholds are fractions and compared exactly. Model, provider and cost of a request
  are carried along unread by the source and left out. Random ids and the clock are arguments.
\<close>

section \<open>Configuration and usage\<close>

record budget_config =
  bc_enabled :: bool
  bc_runTotal :: int
  bc_childTotal :: int
  bc_warningThreshold :: rat
  bc_hardStopThreshold :: rat
  bc_maxRequestInputTokens :: int
  bc_maxRequestOutputTokens :: int

record raw_usage =
  ru_input :: "int option"
  ru_output :: "int option"
  ru_reasoning :: "int option"
  ru_cacheRead :: "int option"
  ru_cacheWrite :: "int option"

record normalized_usage =
  nu_input :: int
  nu_output :: int
  nu_reasoning :: int
  nu_cacheRead :: int
  nu_cacheWrite :: int
  nu_billable :: int

definition clamp :: "int \<Rightarrow> int \<Rightarrow> int \<Rightarrow> int" where
  "clamp n lo hi = max lo (min hi n)"

definition finiteOr :: "int option \<Rightarrow> int \<Rightarrow> int" where
  "finiteOr v fallback = (case v of Some n \<Rightarrow> if n \<ge> 0 then n else fallback | None \<Rightarrow> fallback)"

definition normalizeUsage :: "raw_usage \<Rightarrow> int \<Rightarrow> normalized_usage" where
  "normalizeUsage raw fallbackInput =
     (let i = finiteOr (ru_input raw) fallbackInput; o' = finiteOr (ru_output raw) 0;
          r = finiteOr (ru_reasoning raw) 0; cr = finiteOr (ru_cacheRead raw) 0;
          cw = finiteOr (ru_cacheWrite raw) 0
      in \<lparr>nu_input = i, nu_output = o', nu_reasoning = r, nu_cacheRead = cr, nu_cacheWrite = cw,
          nu_billable = i + o' + r + cr + cw\<rparr>)"

definition no_usage :: normalized_usage where
  "no_usage = \<lparr>nu_input = 0, nu_output = 0, nu_reasoning = 0, nu_cacheRead = 0, nu_cacheWrite = 0, nu_billable = 0\<rparr>"

section \<open>The log\<close>

datatype reservation_status = RsReserved | RsCommitted | RsReleased | RsCancelled | RsDisabled

record reservation =
  rs_reservationId :: string
  rs_runId :: string
  rs_sessionId :: string
  rs_agentId :: string
  rs_parentSessionId :: "string option"
  rs_assignmentId :: "string option"
  rs_requestId :: string
  rs_attempt :: int
  rs_estimatedInput :: int
  rs_maxOutput :: int
  rs_claimed :: int
  rs_status :: reservation_status

datatype usage_status = UsReserved | UsCommitted | UsReleased | UsRejected | UsCancelled | UsDisabled

record usage_record =
  us_runId :: string
  us_sessionId :: string
  us_parentSessionId :: "string option"
  us_assignmentId :: "string option"
  us_agent :: string
  us_requestId :: string
  us_reservationId :: string
  us_messageId :: "string option"
  us_attempt :: int
  us_usage :: normalized_usage
  us_releasedUnused :: "int option"
  us_terminationReason :: "string option"
  us_status :: usage_status
  us_recordedAt :: int

record terminal =
  tm_reason :: string
  tm_at :: int

datatype usage_entry =
    EReservation reservation
  | EUsage usage_record
  | ETerminal terminal
  | EWarning string int
  | EReclaim int
  | ERedistribution int
  | EWorkstreamTermination string

record rebuilt_usage =
  rb_consumed :: int
  rb_reserved :: int
  rb_releasedUnused :: int
  rb_terminal :: "terminal option"
  rb_warningFired :: bool
  rb_records :: "usage_record list"
  rb_reservations :: "reservation list"
  rb_reclaimed :: int
  rb_redistributed :: int
  rb_committedIds :: "string list"

definition usage_key :: "usage_record \<Rightarrow> string" where
  "usage_key r = nullish (us_messageId r) (us_requestId r)"

text \<open>The maps and counters of the loop over the entries.\<close>

record rebuild_state =
  rt_byKey :: "(string \<times> usage_record) list"
  rt_reservations :: "(string \<times> reservation) list"
  rt_committed :: "string list"
  rt_terminal :: "terminal option"
  rt_warning :: bool
  rt_reclaimed :: int
  rt_redistributed :: int

definition rebuild_start :: rebuild_state where
  "rebuild_start =
     \<lparr>rt_byKey = [], rt_reservations = [], rt_committed = [], rt_terminal = None, rt_warning = False,
      rt_reclaimed = 0, rt_redistributed = 0\<rparr>"

fun rebuild_step :: "rebuild_state \<Rightarrow> usage_entry \<Rightarrow> rebuild_state" where
  "rebuild_step t (EReservation r) =
     (if rs_claimed r > 0 \<and> rs_reservationId r \<noteq> []
      then t\<lparr>rt_reservations := AList.update (rs_reservationId r) r (rt_reservations t)\<rparr> else t)"
| "rebuild_step t (EUsage u) =
     (let t1 = (if usage_key u \<noteq> [] then t\<lparr>rt_byKey := AList.update (usage_key u) u (rt_byKey t)\<rparr> else t)
      in if us_reservationId u \<noteq> [] then t1\<lparr>rt_committed := js_add (us_reservationId u) (rt_committed t1)\<rparr>
         else t1)"
| "rebuild_step t (ETerminal x) = t\<lparr>rt_terminal := Some x\<rparr>"
| "rebuild_step t (EWarning _ _) = t\<lparr>rt_warning := True\<rparr>"
| "rebuild_step t (EReclaim n) = t\<lparr>rt_reclaimed := rt_reclaimed t + n\<rparr>"
| "rebuild_step t (ERedistribution n) = t\<lparr>rt_redistributed := rt_redistributed t + n\<rparr>"
| "rebuild_step t (EWorkstreamTermination _) = t"

definition reserved_rows :: "(string \<times> reservation) list \<Rightarrow> reservation list" where
  "reserved_rows m = map snd (filter (\<lambda>p. rs_status (snd p) = RsReserved) m)"

definition subtract_committed :: "(string \<times> reservation) list \<Rightarrow> int \<Rightarrow> string \<Rightarrow> int" where
  "subtract_committed m n rid =
     (case map_of m rid of
        Some r \<Rightarrow> if rs_status r = RsReserved then max 0 (n - rs_claimed r) else n
      | None \<Rightarrow> n)"

definition rebuildFromEntries :: "usage_entry list \<Rightarrow> rebuilt_usage" where
  "rebuildFromEntries es =
     (let t = foldl rebuild_step rebuild_start es;
          reserved = sum_list (map rs_claimed (reserved_rows (rt_reservations t)))
      in \<lparr>rb_consumed = sum_list (map (\<lambda>p. nu_billable (us_usage (snd p))) (rt_byKey t)),
          rb_reserved = foldl (subtract_committed (rt_reservations t)) reserved (rt_committed t),
          rb_releasedUnused = sum_list (map (\<lambda>p. nullish (us_releasedUnused (snd p)) 0) (rt_byKey t)),
          rb_terminal = rt_terminal t, rb_warningFired = rt_warning t,
          rb_records = map snd (rt_byKey t), rb_reservations = reserved_rows (rt_reservations t),
          rb_reclaimed = rt_reclaimed t, rb_redistributed = rt_redistributed t,
          rb_committedIds = rt_committed t\<rparr>)"

section \<open>The controller\<close>

record agent_budget =
  ab_agentId :: string
  ab_sessionId :: string
  ab_parentSessionId :: "string option"
  ab_ceiling :: int
  ab_consumed :: int
  ab_reserved :: int
  ab_terminal :: "terminal option"

datatype assignment_budget_status = AbActive | AbCompleted | AbSuperseded | AbCancelled

record assignment_budget =
  sb_assignmentId :: string
  sb_identity :: string
  sb_agentId :: string
  sb_consumed :: int
  sb_reserved :: int
  sb_status :: assignment_budget_status

record run_budget =
  bn_runId :: string
  bn_ceiling :: int
  bn_consumed :: int
  bn_reserved :: int
  bn_releasedUnused :: int
  bn_warningFired :: bool
  bn_terminal :: "terminal option"

record budget =
  bg_config :: budget_config
  bg_run :: run_budget
  bg_agents :: "(string \<times> agent_budget) list"
  bg_assignments :: "(string \<times> assignment_budget) list"
  bg_byIdentity :: "(string \<times> string) list"
  bg_reservations :: "(string \<times> reservation) list"
  bg_records :: "usage_record list"
  bg_committedKeys :: "string list"
  bg_log :: "usage_entry list"

definition new_controller :: "budget_config \<Rightarrow> string \<Rightarrow> usage_entry list \<Rightarrow> budget" where
  "new_controller cfg rid entries =
     \<lparr>bg_config = cfg,
      bg_run = \<lparr>bn_runId = rid, bn_ceiling = bc_runTotal cfg, bn_consumed = 0, bn_reserved = 0,
                bn_releasedUnused = 0, bn_warningFired = False, bn_terminal = None\<rparr>,
      bg_agents = [], bg_assignments = [], bg_byIdentity = [], bg_reservations = [], bg_records = [],
      bg_committedKeys = [], bg_log = entries\<rparr>"

definition append_entry :: "usage_entry \<Rightarrow> budget \<Rightarrow> budget" where
  "append_entry e b = b\<lparr>bg_log := bg_log b @ [e]\<rparr>"

definition append_record :: "usage_record \<Rightarrow> budget \<Rightarrow> budget" where
  "append_record r b = b\<lparr>bg_records := bg_records b @ [r]\<rparr>"

definition remainingRun :: "budget \<Rightarrow> int" where
  "remainingRun b = max 0 (bn_ceiling (bg_run b) - bn_consumed (bg_run b) - bn_reserved (bg_run b))"

definition new_agent :: "budget \<Rightarrow> string \<Rightarrow> string \<Rightarrow> string option \<Rightarrow> agent_budget" where
  "new_agent b sid aid parent =
     \<lparr>ab_agentId = aid, ab_sessionId = sid, ab_parentSessionId = parent,
      ab_ceiling = (if truthy parent then min (bc_childTotal (bg_config b)) (bn_ceiling (bg_run b))
                    else bn_ceiling (bg_run b)),
      ab_consumed = 0, ab_reserved = 0, ab_terminal = None\<rparr>"

definition registerSession :: "string \<Rightarrow> string \<Rightarrow> string option \<Rightarrow> budget \<Rightarrow> agent_budget \<times> budget" where
  "registerSession sid aid parent b =
     (case map_of (bg_agents b) sid of
        Some a \<Rightarrow> (a, b)
      | None \<Rightarrow> (new_agent b sid aid parent,
                 b\<lparr>bg_agents := AList.update sid (new_agent b sid aid parent) (bg_agents b)\<rparr>))"

text \<open>A change of the object that a map holds under a key, if it holds one.\<close>

definition adjust :: "string \<Rightarrow> ('a \<Rightarrow> 'a) \<Rightarrow> (string \<times> 'a) list \<Rightarrow> (string \<times> 'a) list" where
  "adjust k f m = (case map_of m k of None \<Rightarrow> m | Some x \<Rightarrow> AList.update k (f x) m)"

section \<open>Assignments\<close>

definition assignmentIdentity :: "string \<Rightarrow> string \<Rightarrow> string \<Rightarrow> string \<Rightarrow> string \<Rightarrow> string" where
  "assignmentIdentity rid ty aid scope sha = join ''|'' [rid, ty, aid, scope, sha]"

definition ensureAssignment ::
    "string \<Rightarrow> string \<Rightarrow> string \<Rightarrow> string \<Rightarrow> string \<Rightarrow> budget \<Rightarrow> (string \<times> bool) \<times> budget" where
  "ensureAssignment uuid aid ty scope sha b =
     (let identity = assignmentIdentity (bn_runId (bg_run b)) ty aid scope sha;
          fresh = ((uuid, False),
                   b\<lparr>bg_assignments := AList.update uuid
                        \<lparr>sb_assignmentId = uuid, sb_identity = identity, sb_agentId = aid, sb_consumed = 0,
                         sb_reserved = 0, sb_status = AbActive\<rparr> (bg_assignments b),
                      bg_byIdentity := AList.update identity uuid (bg_byIdentity b)\<rparr>)
      in case map_of (bg_byIdentity b) identity of
           None \<Rightarrow> fresh
         | Some existing \<Rightarrow>
             (case map_of (bg_assignments b) existing of
                Some a \<Rightarrow> if existing \<noteq> [] \<and> sb_status a = AbActive then ((sb_assignmentId a, True), b) else fresh
              | None \<Rightarrow> fresh))"

definition end_assignment :: "assignment_budget_status \<Rightarrow> string \<Rightarrow> budget \<Rightarrow> budget" where
  "end_assignment st aid b =
     (case map_of (bg_assignments b) aid of
        None \<Rightarrow> b
      | Some a \<Rightarrow>
          if sb_status a = AbActive
          then b\<lparr>bg_assignments := AList.update aid (a\<lparr>sb_status := st\<rparr>) (bg_assignments b),
                 bg_byIdentity := AList.delete (sb_identity a) (bg_byIdentity b)\<rparr>
          else b)"

definition completeAssignment :: "string \<Rightarrow> budget \<Rightarrow> budget" where
  "completeAssignment = end_assignment AbCompleted"

definition supersedeAssignment :: "string \<Rightarrow> budget \<Rightarrow> budget" where
  "supersedeAssignment = end_assignment AbSuperseded"

section \<open>Reserving\<close>

record reserve_opts =
  ro_runId :: string
  ro_sessionId :: string
  ro_agentId :: string
  ro_parentSessionId :: "string option"
  ro_assignmentId :: "string option"
  ro_requestId :: string
  ro_attempt :: "int option"
  ro_estimatedInputTokens :: "int option"
  ro_maxOutputTokens :: "int option"

datatype refusal =
    RunTerminal string | SessionTerminal string | BudgetExhausted | ChildBudgetExhausted

record reservation_result =
  rr_allowed :: bool
  rr_reservationId :: string
  rr_reason :: "refusal option"
  rr_disabled :: bool
  rr_remainingRun :: int
  rr_claimed :: int

definition rejected_record ::
    "reserve_opts \<Rightarrow> string \<Rightarrow> usage_status \<Rightarrow> string option \<Rightarrow> int \<Rightarrow> usage_record" where
  "rejected_record o' rid st why now =
     \<lparr>us_runId = ro_runId o', us_sessionId = ro_sessionId o', us_parentSessionId = ro_parentSessionId o',
      us_assignmentId = ro_assignmentId o', us_agent = ro_agentId o', us_requestId = ro_requestId o',
      us_reservationId = rid, us_messageId = None, us_attempt = nullish (ro_attempt o') 1,
      us_usage = no_usage, us_releasedUnused = None, us_terminationReason = why, us_status = st,
      us_recordedAt = now\<rparr>"

definition need_of :: "budget \<Rightarrow> int option \<Rightarrow> int option \<Rightarrow> int" where
  "need_of b inp out =
     clamp (finiteOr inp 0) 0 (bc_maxRequestInputTokens (bg_config b))
     + clamp (finiteOr out 0) 0 (bc_maxRequestOutputTokens (bg_config b))"

definition reservation_of :: "budget \<Rightarrow> reserve_opts \<Rightarrow> string \<Rightarrow> reservation" where
  "reservation_of b o' rid =
     \<lparr>rs_reservationId = rid, rs_runId = bn_runId (bg_run b), rs_sessionId = ro_sessionId o',
      rs_agentId = ro_agentId o', rs_parentSessionId = ro_parentSessionId o',
      rs_assignmentId = ro_assignmentId o', rs_requestId = ro_requestId o',
      rs_attempt = nullish (ro_attempt o') 1,
      rs_estimatedInput = clamp (finiteOr (ro_estimatedInputTokens o') 0) 0 (bc_maxRequestInputTokens (bg_config b)),
      rs_maxOutput = clamp (finiteOr (ro_maxOutputTokens o') 0) 0 (bc_maxRequestOutputTokens (bg_config b)),
      rs_claimed = need_of b (ro_estimatedInputTokens o') (ro_maxOutputTokens o'), rs_status = RsReserved\<rparr>"

text \<open>\<open>+= need\<close> on run, agent and assignment, then the reservation and its entry.\<close>

definition claim_tokens :: "reserve_opts \<Rightarrow> reservation \<Rightarrow> budget \<Rightarrow> budget" where
  "claim_tokens o' r b =
     append_entry (EReservation r)
       (b\<lparr>bg_run := (bg_run b)\<lparr>bn_reserved := bn_reserved (bg_run b) + rs_claimed r\<rparr>,
          bg_agents := adjust (ro_sessionId o') (\<lambda>a. a\<lparr>ab_reserved := ab_reserved a + rs_claimed r\<rparr>) (bg_agents b),
          bg_assignments := (if truthy (ro_assignmentId o')
             then adjust (the (ro_assignmentId o')) (\<lambda>a. a\<lparr>sb_reserved := sb_reserved a + rs_claimed r\<rparr>) (bg_assignments b)
             else bg_assignments b),
          bg_reservations := AList.update (rs_reservationId r) r (bg_reservations b)\<rparr>)"

definition reserveRequest ::
    "string \<Rightarrow> int \<Rightarrow> reserve_opts \<Rightarrow> budget \<Rightarrow> reservation_result \<times> budget" where
  "reserveRequest uuid now o' b =
     (let refuse = (\<lambda>why text b'. (\<lparr>rr_allowed = False, rr_reservationId = uuid, rr_reason = Some why,
                       rr_disabled = False, rr_remainingRun = remainingRun b', rr_claimed = 0\<rparr>,
                     append_record (rejected_record o' uuid UsRejected (Some text) now) b'))
      in
      if \<not> bc_enabled (bg_config b) then
        (\<lparr>rr_allowed = True, rr_reservationId = uuid, rr_reason = None, rr_disabled = True,
          rr_remainingRun = remainingRun b, rr_claimed = 0\<rparr>,
         append_record (rejected_record o' uuid UsDisabled None now) b)
      else
        case bn_terminal (bg_run b) of
          Some t \<Rightarrow> refuse (RunTerminal (tm_reason t)) (tm_reason t) b
        | None \<Rightarrow>
            (case registerSession (ro_sessionId o') (ro_agentId o') (ro_parentSessionId o') b of
               (agent, b1) \<Rightarrow>
                 (case ab_terminal agent of
                    Some t \<Rightarrow> refuse (SessionTerminal (tm_reason t)) (tm_reason t) b1
                  | None \<Rightarrow>
                      let r = reservation_of b1 o' uuid in
                      if rs_claimed r > remainingRun b1 then refuse BudgetExhausted ''budget_exhausted'' b1
                      else if rs_claimed r > ab_ceiling agent - ab_consumed agent - ab_reserved agent
                      then refuse ChildBudgetExhausted ''child_budget_exhausted'' b1
                      else
                        let b2 = claim_tokens o' r b1 in
                        (\<lparr>rr_allowed = True, rr_reservationId = uuid, rr_reason = None, rr_disabled = False,
                          rr_remainingRun = remainingRun b2, rr_claimed = rs_claimed r\<rparr>, b2))))"

section \<open>Cancelling\<close>

text \<open>\<open>reserved = Math.max(0, reserved - claimed)\<close>, on the run and on an agent.\<close>

definition release_run :: "int \<Rightarrow> run_budget \<Rightarrow> run_budget" where
  "release_run n r = r\<lparr>bn_reserved := max 0 (bn_reserved r - n)\<rparr>"

definition release_agent :: "int \<Rightarrow> agent_budget \<Rightarrow> agent_budget" where
  "release_agent n a = a\<lparr>ab_reserved := max 0 (ab_reserved a - n)\<rparr>"

definition release_assignment :: "int \<Rightarrow> assignment_budget \<Rightarrow> assignment_budget" where
  "release_assignment n a = a\<lparr>sb_reserved := max 0 (sb_reserved a - n)\<rparr>"

definition cancel_one :: "reservation \<Rightarrow> budget \<Rightarrow> budget" where
  "cancel_one r b =
     append_entry (EReservation (r\<lparr>rs_status := RsCancelled\<rparr>))
       (b\<lparr>bg_run := release_run (rs_claimed r) (bg_run b),
          bg_agents := adjust (rs_sessionId r) (release_agent (rs_claimed r)) (bg_agents b),
          bg_reservations := AList.update (rs_reservationId r) (r\<lparr>rs_status := RsCancelled\<rparr>) (bg_reservations b)\<rparr>)"

definition cancel_where :: "(reservation \<Rightarrow> bool) \<Rightarrow> budget \<Rightarrow> budget" where
  "cancel_where c b =
     foldl (\<lambda>b r. cancel_one r b) b (filter (\<lambda>r. rs_status r = RsReserved \<and> c r) (map snd (bg_reservations b)))"

definition cancelAllReservations :: "budget \<Rightarrow> budget" where
  "cancelAllReservations b = cancel_where (\<lambda>_. True) b"

definition cancelReservation :: "string \<Rightarrow> budget \<Rightarrow> bool \<times> budget" where
  "cancelReservation rid b =
     (case map_of (bg_reservations b) rid of
        None \<Rightarrow> (False, b)
      | Some r \<Rightarrow> if rs_status r \<noteq> RsReserved then (False, b) else (True, cancel_one r b))"

definition mark_terminal :: "terminal \<Rightarrow> agent_budget \<Rightarrow> agent_budget" where
  "mark_terminal t a = (if ab_terminal a = None then a\<lparr>ab_terminal := Some t\<rparr> else a)"

definition terminate :: "string \<Rightarrow> int \<Rightarrow> budget \<Rightarrow> budget" where
  "terminate reason now b =
     (if bn_terminal (bg_run b) \<noteq> None then b
      else
        let t = \<lparr>tm_reason = reason, tm_at = now\<rparr>;
            b1 = cancelAllReservations (append_entry (ETerminal t) (b\<lparr>bg_run := (bg_run b)\<lparr>bn_terminal := Some t\<rparr>\<rparr>))
        in b1\<lparr>bg_agents := map (\<lambda>p. (fst p, mark_terminal t (snd p))) (bg_agents b1)\<rparr>)"

text \<open>Only the session itself and its direct children are affected.\<close>

definition affected_sessions :: "string \<Rightarrow> budget \<Rightarrow> string list" where
  "affected_sessions sid b =
     sid # map (\<lambda>p. ab_sessionId (snd p)) (filter (\<lambda>p. ab_parentSessionId (snd p) = Some sid) (bg_agents b))"

definition cancelSession :: "string \<Rightarrow> string \<Rightarrow> int \<Rightarrow> budget \<Rightarrow> budget" where
  "cancelSession sid reason now b =
     (let t = \<lparr>tm_reason = reason, tm_at = now\<rparr>;
          b1 = b\<lparr>bg_agents := map (\<lambda>p. (fst p, if fst p = sid \<or> ab_parentSessionId (snd p) = Some sid
                                            then mark_terminal t (snd p) else snd p)) (bg_agents b)\<rparr>
      in cancel_where (\<lambda>r. rs_sessionId r \<in> set (affected_sessions sid b1)) b1)"

section \<open>Committing\<close>

record commit_opts =
  cu_runId :: string
  cu_sessionId :: string
  cu_agentId :: string
  cu_parentSessionId :: "string option"
  cu_assignmentId :: "string option"
  cu_requestId :: string
  cu_reservationId :: "string option"
  cu_messageId :: "string option"
  cu_attempt :: "int option"
  cu_usage :: raw_usage
  cu_terminationReason :: "string option"

record commit_result =
  cm_committed :: bool
  cm_releasedUnused :: int
  cm_remainingRun :: int
  cm_warningFired :: bool
  cm_terminal :: "terminal option"
  cm_billable :: int

definition commit_key :: "commit_opts \<Rightarrow> string" where
  "commit_key o' = nullish (cu_messageId o') (cu_requestId o')"

definition commit_reservation :: "commit_opts \<Rightarrow> budget \<Rightarrow> reservation option" where
  "commit_reservation o' b =
     (if truthy (cu_reservationId o') then map_of (bg_reservations b) (the (cu_reservationId o')) else None)"

definition assignment_adjust ::
    "string option \<Rightarrow> (assignment_budget \<Rightarrow> assignment_budget) \<Rightarrow> (string \<times> assignment_budget) list
      \<Rightarrow> (string \<times> assignment_budget) list" where
  "assignment_adjust aid f m = (if truthy aid then adjust (the aid) f m else m)"

text \<open>The release of a live reservation: the unused part, and the state without its claim.\<close>

definition settle_reservation :: "commit_opts \<Rightarrow> int \<Rightarrow> reservation \<Rightarrow> budget \<Rightarrow> int \<times> budget" where
  "settle_reservation o' billable r b =
     (if rs_status r = RsReserved then
        (let unused = max 0 (rs_claimed r - billable) in
         (unused,
          b\<lparr>bg_reservations := AList.update (rs_reservationId r) (r\<lparr>rs_status := RsCommitted\<rparr>) (bg_reservations b),
            bg_run := (release_run (rs_claimed r) (bg_run b))
                        \<lparr>bn_releasedUnused := bn_releasedUnused (bg_run b) + unused\<rparr>,
            bg_agents := adjust (cu_sessionId o') (release_agent (rs_claimed r)) (bg_agents b),
            bg_assignments := assignment_adjust (rs_assignmentId r) (release_assignment (rs_claimed r))
                                (bg_assignments b)\<rparr>))
      else (0, b))"

definition charge :: "commit_opts \<Rightarrow> int \<Rightarrow> reservation option \<Rightarrow> budget \<Rightarrow> budget" where
  "charge o' billable res b =
     (let b1 = snd (registerSession (cu_sessionId o') (cu_agentId o') (cu_parentSessionId o')
                      (b\<lparr>bg_run := (bg_run b)\<lparr>bn_consumed := bn_consumed (bg_run b) + billable\<rparr>\<rparr>))
      in b1\<lparr>bg_agents := adjust (cu_sessionId o') (\<lambda>a. a\<lparr>ab_consumed := ab_consumed a + billable\<rparr>) (bg_agents b1),
            bg_assignments := assignment_adjust (Option.bind res rs_assignmentId)
               (\<lambda>a. a\<lparr>sb_consumed := sb_consumed a + billable\<rparr>) (bg_assignments b1),
            bg_committedKeys := (if commit_key o' \<noteq> [] then js_add (commit_key o') (bg_committedKeys b1)
                                 else bg_committedKeys b1)\<rparr>)"

definition committed_record ::
    "commit_opts \<Rightarrow> reservation option \<Rightarrow> normalized_usage \<Rightarrow> int \<Rightarrow> int \<Rightarrow> usage_record" where
  "committed_record o' res usage unused now =
     \<lparr>us_runId = cu_runId o', us_sessionId = cu_sessionId o', us_parentSessionId = cu_parentSessionId o',
      us_assignmentId = cu_assignmentId o', us_agent = cu_agentId o', us_requestId = cu_requestId o',
      us_reservationId = (case res of None \<Rightarrow> [] | Some r \<Rightarrow> rs_reservationId r),
      us_messageId = cu_messageId o',
      us_attempt = nullish (cu_attempt o') (nullish (map_option rs_attempt res) 1),
      us_usage = usage, us_releasedUnused = Some unused, us_terminationReason = cu_terminationReason o',
      us_status = UsCommitted, us_recordedAt = now\<rparr>"

definition fire_warning :: "int \<Rightarrow> budget \<Rightarrow> bool \<times> budget" where
  "fire_warning now b =
     (if \<not> bn_warningFired (bg_run b)
         \<and> of_int (bn_consumed (bg_run b)) \<ge> bc_warningThreshold (bg_config b) * of_int (bn_ceiling (bg_run b))
      then (True, append_entry (EWarning (bn_runId (bg_run b)) now)
                    (b\<lparr>bg_run := (bg_run b)\<lparr>bn_warningFired := True\<rparr>\<rparr>))
      else (False, b))"

definition hard_stop :: "int \<Rightarrow> budget \<Rightarrow> budget" where
  "hard_stop now b =
     (if bn_terminal (bg_run b) = None
         \<and> of_int (bn_consumed (bg_run b)) \<ge> bc_hardStopThreshold (bg_config b) * of_int (bn_ceiling (bg_run b))
      then let t = \<lparr>tm_reason = ''budget_exhausted'', tm_at = now\<rparr>
           in cancelAllReservations (append_entry (ETerminal t) (b\<lparr>bg_run := (bg_run b)\<lparr>bn_terminal := Some t\<rparr>\<rparr>))
      else b)"

definition commitUsage :: "int \<Rightarrow> commit_opts \<Rightarrow> budget \<Rightarrow> commit_result \<times> budget" where
  "commitUsage now o' b =
     (if commit_key o' \<noteq> [] \<and> commit_key o' \<in> set (bg_committedKeys b)
      then (\<lparr>cm_committed = False, cm_releasedUnused = 0, cm_remainingRun = remainingRun b,
             cm_warningFired = bn_warningFired (bg_run b), cm_terminal = bn_terminal (bg_run b),
             cm_billable = 0\<rparr>, b)
      else
        let res = commit_reservation o' b;
            usage = normalizeUsage (cu_usage o') (case res of None \<Rightarrow> 0 | Some r \<Rightarrow> rs_estimatedInput r);
            (unused, b1) = (case res of None \<Rightarrow> (0, b) | Some r \<Rightarrow> settle_reservation o' (nu_billable usage) r b);
            b2 = charge o' (nu_billable usage) res b1;
            rec = committed_record o' res usage unused now;
            b3 = append_entry (EUsage rec) (append_record rec b2);
            (warned, b4) = fire_warning now b3;
            b5 = hard_stop now b4
        in (\<lparr>cm_committed = True, cm_releasedUnused = unused, cm_remainingRun = remainingRun b5,
             cm_warningFired = warned, cm_terminal = bn_terminal (bg_run b5),
             cm_billable = nu_billable usage\<rparr>, b5))"

section \<open>Queries and restart\<close>

definition canDispatch :: "string \<Rightarrow> int option \<Rightarrow> int option \<Rightarrow> budget \<Rightarrow> refusal option" where
  "canDispatch sid inp out b =
     (if \<not> bc_enabled (bg_config b) then None
      else
        case bn_terminal (bg_run b) of
          Some t \<Rightarrow> Some (RunTerminal (tm_reason t))
        | None \<Rightarrow>
            (case Option.bind (map_of (bg_agents b) sid) ab_terminal of
               Some t \<Rightarrow> Some (SessionTerminal (tm_reason t))
             | None \<Rightarrow>
                 if need_of b inp out > remainingRun b then Some BudgetExhausted
                 else
                   (case map_of (bg_agents b) sid of
                      None \<Rightarrow> None
                    | Some a \<Rightarrow> if need_of b inp out > ab_ceiling a - ab_consumed a - ab_reserved a
                                then Some ChildBudgetExhausted else None)))"

definition restored_assignment :: "string \<Rightarrow> string \<Rightarrow> assignment_budget" where
  "restored_assignment aid agent =
     \<lparr>sb_assignmentId = aid, sb_identity = ''restored|'' @ aid, sb_agentId = agent, sb_consumed = 0,
      sb_reserved = 0, sb_status = AbActive\<rparr>"

definition ensure_restored :: "string \<Rightarrow> string \<Rightarrow> budget \<Rightarrow> budget" where
  "ensure_restored aid agent b =
     (case map_of (bg_assignments b) aid of
        Some _ \<Rightarrow> b
      | None \<Rightarrow>
          b\<lparr>bg_assignments := AList.update aid (restored_assignment aid agent) (bg_assignments b),
            bg_byIdentity := AList.update (''restored|'' @ aid) aid (bg_byIdentity b)\<rparr>)"

definition restore_reservation :: "budget \<Rightarrow> reservation \<Rightarrow> budget" where
  "restore_reservation b r =
     (let b1 = snd (registerSession (rs_sessionId r) (rs_agentId r) (rs_parentSessionId r) b);
          b2 = b1\<lparr>bg_agents := adjust (rs_sessionId r) (\<lambda>a. a\<lparr>ab_reserved := ab_reserved a + rs_claimed r\<rparr>) (bg_agents b1)\<rparr>;
          b3 = (if truthy (rs_assignmentId r) then
                  (let b' = ensure_restored (the (rs_assignmentId r)) (rs_agentId r) b2
                   in b'\<lparr>bg_assignments := adjust (the (rs_assignmentId r))
                           (\<lambda>a. a\<lparr>sb_reserved := sb_reserved a + rs_claimed r\<rparr>) (bg_assignments b')\<rparr>)
                else b2)
      in b3\<lparr>bg_reservations := AList.update (rs_reservationId r) (r\<lparr>rs_status := RsReserved\<rparr>) (bg_reservations b3)\<rparr>)"

definition restore_record :: "budget \<Rightarrow> usage_record \<Rightarrow> budget" where
  "restore_record b u =
     (let b0 = append_record u b;
          b1 = (if usage_key u \<noteq> [] then b0\<lparr>bg_committedKeys := js_add (usage_key u) (bg_committedKeys b0)\<rparr> else b0);
          b2 = snd (registerSession (us_sessionId u) (us_agent u) (us_parentSessionId u) b1);
          n = nu_billable (us_usage u);
          b3 = b2\<lparr>bg_agents := adjust (us_sessionId u) (\<lambda>a. a\<lparr>ab_consumed := ab_consumed a + n\<rparr>) (bg_agents b2)\<rparr>
      in if truthy (us_assignmentId u) then
           (let b' = ensure_restored (the (us_assignmentId u)) (us_agent u) b3
            in b'\<lparr>bg_assignments := adjust (the (us_assignmentId u)) (\<lambda>a. a\<lparr>sb_consumed := sb_consumed a + n\<rparr>)
                    (bg_assignments b')\<rparr>)
         else b3)"

definition restore :: "budget_config \<Rightarrow> string \<Rightarrow> usage_entry list \<Rightarrow> budget" where
  "restore cfg rid es =
     (let rb = rebuildFromEntries es; b = new_controller cfg rid es;
          b1 = b\<lparr>bg_run := (bg_run b)\<lparr>bn_consumed := rb_consumed rb, bn_reserved := rb_reserved rb,
                   bn_releasedUnused := rb_releasedUnused rb, bn_warningFired := rb_warningFired rb,
                   bn_terminal := rb_terminal rb\<rparr>\<rparr>
      in foldl restore_record (foldl restore_reservation b1 (rb_reservations rb)) (rb_records rb))"

end
