(* ===== verification/Budget_Laws.thy ===== *)
theory Budget_Laws
  imports Budget
begin

text \<open>
  What the token budget guarantees. The counters of the run always equal the claims of the live
  reservations; the run is oversubscribed by at most what requests used beyond their claim; a request is
  charged once; and a controller rebuilt from the log has the counters of the one that wrote it.

  Every cancellation is a sweep of \<open>cancel_one\<close> over live reservations, so an invariant of \<open>cancel_one\<close> is
  one of \<open>cancelAllReservations\<close>, \<open>terminate\<close>, \<open>cancelSession\<close> and the hard stop (\<open>cancel_where_keeps\<close>).
\<close>

section \<open>Sums over a map\<close>

definition asum :: "('a \<Rightarrow> int) \<Rightarrow> (string \<times> 'a) list \<Rightarrow> int" where
  "asum f m = sum_list (map (\<lambda>p. f (snd p)) m)"

lemma asum_update:
  "distinct (map fst m) \<Longrightarrow>
     asum f (AList.update k v m) = asum f m - (case map_of m k of None \<Rightarrow> 0 | Some x \<Rightarrow> f x) + f v"
proof (induction m)
  case (Cons p m)
  then show ?case
    by (cases "fst p = k") (auto simp: asum_def split: option.splits dest!: map_of_SomeD)
qed (simp add: asum_def)

lemma asum_keys: "distinct (map fst m) \<Longrightarrow> asum f m = (\<Sum>k \<in> fst ` set m. f (the (map_of m k)))"
proof (induction m)
  case (Cons p m)
  have "(\<Sum>k \<in> fst ` set m. f (the (map_of (p # m) k))) = (\<Sum>k \<in> fst ` set m. f (the (map_of m k)))"
    using Cons.prems by (intro sum.cong) (auto simp: image_iff)
  with Cons show ?case by (simp add: asum_def)
qed (simp add: asum_def)

lemma asum_nonneg: "(\<And>p. p \<in> set m \<Longrightarrow> 0 \<le> f (snd p)) \<Longrightarrow> 0 \<le> asum f m"
  unfolding asum_def by (rule sum_list_nonneg) auto

lemma asum_Cons [simp]: "asum f (p # m) = f (snd p) + asum f m"
  by (simp add: asum_def)

lemma asum_ge:
  assumes "\<And>p. p \<in> set m \<Longrightarrow> 0 \<le> f (snd p)" and "map_of m k = Some x"
  shows "f x \<le> asum f m"
  using assms
proof (induction m)
  case (Cons p m)
  have p: "0 \<le> f (snd p)" using Cons.prems(1) by simp
  have m: "0 \<le> asum f m" by (rule asum_nonneg) (simp add: Cons.prems(1))
  show ?case
  proof (cases "fst p = k")
    case True then show ?thesis using Cons.prems(2) m by simp
  next
    case False
    then have "f x \<le> asum f m" using Cons by simp
    then show ?thesis using p by simp
  qed
qed simp

lemma fst_update [simp]: "fst ` set (AList.update k v m) = insert k (fst ` set m)"
  using dom_update [of k v m] by (simp add: dom_map_of_conv_image_fst)

lemma map_of_keys: "k \<in> fst ` set m \<longleftrightarrow> map_of m k \<noteq> None"
  by (metis map_of_eq_None_iff)

section \<open>The claims of a run\<close>

definition live_claim :: "reservation \<Rightarrow> int" where
  "live_claim r = (if rs_status r = RsReserved then rs_claimed r else 0)"

definition live_claims :: "budget \<Rightarrow> int" where
  "live_claims b = asum live_claim (bg_reservations b)"

definition filed_claim :: "string \<times> reservation \<Rightarrow> bool" where
  "filed_claim p \<longleftrightarrow> fst p = rs_reservationId (snd p) \<and> fst p \<noteq> [] \<and> 0 \<le> rs_claimed (snd p)
     \<and> rs_status (snd p) \<in> {RsReserved, RsCommitted, RsCancelled}"

definition claims_filed :: "budget \<Rightarrow> bool" where
  "claims_filed b \<longleftrightarrow>
     distinct (map fst (bg_reservations b)) \<and> (\<forall>p \<in> set (bg_reservations b). filed_claim p)
     \<and> bn_reserved (bg_run b) = live_claims b"

lemma filed_at:
  "claims_filed b \<Longrightarrow> map_of (bg_reservations b) k = Some r \<Longrightarrow>
     rs_reservationId r = k \<and> k \<noteq> [] \<and> 0 \<le> rs_claimed r \<and> rs_status r \<in> {RsReserved, RsCommitted, RsCancelled}"
  by (auto simp: claims_filed_def filed_claim_def dest!: map_of_SomeD)

lemma live_claim_nonneg: "claims_filed b \<Longrightarrow> p \<in> set (bg_reservations b) \<Longrightarrow> 0 \<le> live_claim (snd p)"
  by (auto simp: claims_filed_def filed_claim_def live_claim_def)

lemma live_claim_le: "claims_filed b \<Longrightarrow> map_of (bg_reservations b) k = Some r \<Longrightarrow> live_claim r \<le> bn_reserved (bg_run b)"
  using asum_ge [of "bg_reservations b" live_claim] live_claim_nonneg
  by (simp add: claims_filed_def live_claims_def)

lemma reserved_nonneg: "claims_filed b \<Longrightarrow> 0 \<le> bn_reserved (bg_run b)"
  using asum_nonneg [of "bg_reservations b" live_claim] live_claim_nonneg
  by (simp add: claims_filed_def live_claims_def)

text \<open>Replacing a reservation and moving the counter by the difference of the claims.\<close>

lemma filed_replace:
  assumes "claims_filed b" and "rs_reservationId r' = k" "k \<noteq> []" "0 \<le> rs_claimed r'"
    and "rs_status r' \<in> {RsReserved, RsCommitted, RsCancelled}"
    and "bg_reservations b' = AList.update k r' (bg_reservations b)"
    and "bn_reserved (bg_run b') = bn_reserved (bg_run b)
           - (case map_of (bg_reservations b) k of None \<Rightarrow> 0 | Some r \<Rightarrow> live_claim r) + live_claim r'"
  shows "claims_filed b'"
proof -
  have "filed_claim p" if "p \<in> set (bg_reservations b')" for p
  proof -
    have d: "distinct (map fst (bg_reservations b'))"
      using assms(1,6) by (simp add: claims_filed_def distinct_update)
    then have "map_of (bg_reservations b') (fst p) = Some (snd p)" using that by simp
    then show ?thesis
      using assms filed_at [OF assms(1), of "fst p"]
      by (auto simp: store_simps filed_claim_def split: if_splits)
  qed
  then show ?thesis
    using assms by (simp add: claims_filed_def distinct_update live_claims_def asum_update)
qed

lemma filed_frame:
  "claims_filed b \<Longrightarrow> bg_reservations b' = bg_reservations b \<Longrightarrow> bn_reserved (bg_run b') = bn_reserved (bg_run b)
     \<Longrightarrow> claims_filed b'"
  by (simp add: claims_filed_def live_claims_def)

lemma registerSession_frame [simp]:
  "bg_run (snd (registerSession s a p b)) = bg_run b" "bg_reservations (snd (registerSession s a p b)) = bg_reservations b"
  "bg_log (snd (registerSession s a p b)) = bg_log b" "bg_config (snd (registerSession s a p b)) = bg_config b"
  "bg_committedKeys (snd (registerSession s a p b)) = bg_committedKeys b"
  by (simp_all add: registerSession_def split: option.split)

lemma entry_frame [simp]:
  "bg_run (append_entry e b) = bg_run b" "bg_reservations (append_entry e b) = bg_reservations b"
  "bg_log (append_entry e b) = bg_log b @ [e]" "bg_config (append_entry e b) = bg_config b"
  "bg_committedKeys (append_entry e b) = bg_committedKeys b" "bg_agents (append_entry e b) = bg_agents b"
  "bg_run (append_record u b) = bg_run b" "bg_reservations (append_record u b) = bg_reservations b"
  "bg_log (append_record u b) = bg_log b" "bg_config (append_record u b) = bg_config b"
  "bg_committedKeys (append_record u b) = bg_committedKeys b"
  by (simp_all add: append_entry_def append_record_def)

lemma cancel_one_frame [simp]:
  "bg_run (cancel_one r b) = release_run (rs_claimed r) (bg_run b)"
  "bg_reservations (cancel_one r b) = AList.update (rs_reservationId r) (r\<lparr>rs_status := RsCancelled\<rparr>) (bg_reservations b)"
  "bg_log (cancel_one r b) = bg_log b @ [EReservation (r\<lparr>rs_status := RsCancelled\<rparr>)]"
  "bg_config (cancel_one r b) = bg_config b" "bg_committedKeys (cancel_one r b) = bg_committedKeys b"
  by (simp_all add: cancel_one_def)

lemma cancel_one_filed:
  assumes "claims_filed b" and "map_of (bg_reservations b) (rs_reservationId r) = Some r" and "rs_status r = RsReserved"
  shows "claims_filed (cancel_one r b)"
    and "bn_reserved (bg_run (cancel_one r b)) = bn_reserved (bg_run b) - rs_claimed r"
proof -
  have le: "rs_claimed r \<le> bn_reserved (bg_run b)"
    using live_claim_le [OF assms(1,2)] assms(3) by (simp add: live_claim_def)
  then show "bn_reserved (bg_run (cancel_one r b)) = bn_reserved (bg_run b) - rs_claimed r"
    by (simp add: release_run_def)
  show "claims_filed (cancel_one r b)"
    using filed_at [OF assms(1,2)] assms(2,3) le
    by (intro filed_replace [OF assms(1), of "r\<lparr>rs_status := RsCancelled\<rparr>" "rs_reservationId r"])
      (simp_all add: release_run_def live_claim_def)
qed

lemma live_value:
  "distinct (map fst m) \<Longrightarrow> r \<in> set (map snd m) \<Longrightarrow> \<forall>p \<in> set m. fst p = rs_reservationId (snd p)
     \<Longrightarrow> map_of m (rs_reservationId r) = Some r"
  by (metis (no_types, lifting) image_iff list.set_map map_of_is_SomeI prod.collapse)

text \<open>
  What one cancellation keeps, a sweep over the live reservations keeps: the sweep visits each of them
  once, while it is still live.
\<close>

lemma cancel_sweep:
  assumes "claims_filed b" and "P b" and "distinct (map rs_reservationId rs)"
    and live: "\<And>r. r \<in> set rs \<Longrightarrow> map_of (bg_reservations b) (rs_reservationId r) = Some r \<and> rs_status r = RsReserved"
    and keep: "\<And>b r. claims_filed b \<Longrightarrow> P b \<Longrightarrow> map_of (bg_reservations b) (rs_reservationId r) = Some r
                 \<Longrightarrow> rs_status r = RsReserved \<Longrightarrow> P (cancel_one r b)"
  shows "claims_filed (foldl (\<lambda>b r. cancel_one r b) b rs) \<and> P (foldl (\<lambda>b r. cancel_one r b) b rs)"
  using assms(1-4)
proof (induction rs arbitrary: b)
  case (Cons r rs)
  have r: "map_of (bg_reservations b) (rs_reservationId r) = Some r" "rs_status r = RsReserved"
    using Cons.prems(4) by simp_all
  have "map_of (bg_reservations (cancel_one r b)) (rs_reservationId q) = Some q \<and> rs_status q = RsReserved"
    if "q \<in> set rs" for q
  proof -
    have "rs_reservationId q \<noteq> rs_reservationId r" using Cons.prems(3) that by (metis distinct.simps(2) image_eqI list.set_map list.simps(9))
    then show ?thesis using Cons.prems(4) [of q] that by (simp add: store_simps)
  qed
  moreover have "claims_filed (cancel_one r b)" by (rule cancel_one_filed(1) [OF Cons.prems(1) r])
  moreover have "P (cancel_one r b)" by (rule keep [OF Cons.prems(1,2) r])
  ultimately show ?case using Cons.IH [of "cancel_one r b"] Cons.prems(3) by simp
qed simp

lemma cancel_where_keeps:
  assumes f: "claims_filed b" and "P b"
    and "\<And>b r. claims_filed b \<Longrightarrow> P b \<Longrightarrow> map_of (bg_reservations b) (rs_reservationId r) = Some r
                 \<Longrightarrow> rs_status r = RsReserved \<Longrightarrow> P (cancel_one r b)"
  shows "claims_filed (cancel_where c b)" and "P (cancel_where c b)"
proof -
  have d: "distinct (map fst (bg_reservations b))" and i: "\<forall>p \<in> set (bg_reservations b). fst p = rs_reservationId (snd p)"
    using f by (simp_all add: claims_filed_def filed_claim_def)
  have "map rs_reservationId (map snd (bg_reservations b)) = map fst (bg_reservations b)" using i by simp
  then have "distinct (map rs_reservationId (filter (\<lambda>r. rs_status r = RsReserved \<and> c r) (map snd (bg_reservations b))))"
    using d by (metis distinct_map_filter)
  then have "claims_filed (cancel_where c b) \<and> P (cancel_where c b)"
    unfolding cancel_where_def using live_value [OF d _ i]
    by (intro cancel_sweep [OF f assms(2) _ _ assms(3)]) auto
  then show "claims_filed (cancel_where c b)" and "P (cancel_where c b)" by simp_all
qed

lemma cancel_where_filed: "claims_filed b \<Longrightarrow> claims_filed (cancel_where c b)"
  by (rule cancel_where_keeps [where P = "\<lambda>_. True"]) simp_all

section \<open>Operations as values\<close>

datatype budget_op =
    OpReserve string int reserve_opts
  | OpCommit int commit_opts
  | OpCancelReservation string
  | OpCancelSession string string int
  | OpTerminate string int
  | OpRegister string string "string option"
  | OpEnsureAssignment string string string string string
  | OpCompleteAssignment string
  | OpSupersedeAssignment string

fun apply_op :: "budget_op \<Rightarrow> budget \<Rightarrow> budget" where
  "apply_op (OpReserve uuid now o') b = snd (reserveRequest uuid now o' b)"
| "apply_op (OpCommit now o') b = snd (commitUsage now o' b)"
| "apply_op (OpCancelReservation rid) b = snd (cancelReservation rid b)"
| "apply_op (OpCancelSession sid reason now) b = cancelSession sid reason now b"
| "apply_op (OpTerminate reason now) b = terminate reason now b"
| "apply_op (OpRegister sid aid parent) b = snd (registerSession sid aid parent b)"
| "apply_op (OpEnsureAssignment uuid aid ty scope sha) b = snd (ensureAssignment uuid aid ty scope sha b)"
| "apply_op (OpCompleteAssignment aid) b = completeAssignment aid b"
| "apply_op (OpSupersedeAssignment aid) b = supersedeAssignment aid b"

text \<open>A random id is new, and a request that is committed carries an id.\<close>

fun op_ok :: "budget_op \<Rightarrow> budget \<Rightarrow> bool" where
  "op_ok (OpReserve uuid now o') b \<longleftrightarrow> uuid \<noteq> [] \<and> map_of (bg_reservations b) uuid = None"
| "op_ok (OpCommit now o') b \<longleftrightarrow> commit_key o' \<noteq> []"
| "op_ok _ b \<longleftrightarrow> True"

text \<open>What a commit uses beyond the claim it still holds.\<close>

definition held_claim :: "commit_opts \<Rightarrow> budget \<Rightarrow> int" where
  "held_claim o' b = (case commit_reservation o' b of None \<Rightarrow> 0 | Some r \<Rightarrow> live_claim r)"

fun op_overrun :: "budget_op \<Rightarrow> budget \<Rightarrow> int" where
  "op_overrun (OpCommit now o') b = max 0 (cm_billable (fst (commitUsage now o' b)) - held_claim o' b)"
| "op_overrun _ b = 0"

fun play :: "budget_op list \<Rightarrow> budget \<times> int \<Rightarrow> (budget \<times> int) option" where
  "play [] s = Some s"
| "play (x # xs) (b, over) = (if op_ok x b then play xs (apply_op x b, over + op_overrun x b) else None)"

lemma play_keeps:
  assumes "play xs (b, over) = Some (b', over')" and "P b over"
    and "\<And>x b over. P b over \<Longrightarrow> op_ok x b \<Longrightarrow> P (apply_op x b) (over + op_overrun x b)"
  shows "P b' over'"
  using assms(1,2)
proof (induction xs arbitrary: b over)
  case (Cons x xs)
  then have "op_ok x b" by (auto split: if_splits)
  with Cons assms(3) show ?case by simp
qed simp

section \<open>The books: what the operations change of the run and its reservations\<close>

definition same_books :: "budget \<Rightarrow> budget \<Rightarrow> bool" where
  "same_books b b' \<longleftrightarrow> bg_run b' = bg_run b \<and> bg_reservations b' = bg_reservations b \<and> bg_log b' = bg_log b
     \<and> bg_config b' = bg_config b \<and> bg_committedKeys b' = bg_committedKeys b"

lemma same_books_trans: "same_books a b \<Longrightarrow> same_books b c \<Longrightarrow> same_books a c"
  by (simp add: same_books_def)

lemma book_changes_none:
  "same_books b (snd (registerSession s a p b))" "same_books b (append_record u b)"
  "same_books b (snd (ensureAssignment uuid aid ty scope sha b))"
  "same_books b (end_assignment st aid b)" "same_books b (b\<lparr>bg_agents := ag\<rparr>)"
  by (simp_all add: same_books_def ensureAssignment_def end_assignment_def Let_def split: option.split)

lemma clamp_nonneg: "0 \<le> clamp n 0 hi"
  by (simp add: clamp_def)

lemma reservation_of_sel [simp]:
  "rs_reservationId (reservation_of b o' rid) = rid" "rs_status (reservation_of b o' rid) = RsReserved"
  "0 \<le> rs_claimed (reservation_of b o' rid)"
  by (simp_all add: reservation_of_def need_of_def clamp_nonneg)

lemma claim_tokens_frame [simp]:
  "bg_run (claim_tokens o' r b) = (bg_run b)\<lparr>bn_reserved := bn_reserved (bg_run b) + rs_claimed r\<rparr>"
  "bg_reservations (claim_tokens o' r b) = AList.update (rs_reservationId r) r (bg_reservations b)"
  "bg_log (claim_tokens o' r b) = bg_log b @ [EReservation r]"
  "bg_config (claim_tokens o' r b) = bg_config b" "bg_committedKeys (claim_tokens o' r b) = bg_committedKeys b"
  by (simp_all add: claim_tokens_def)

text \<open>A reserve changes nothing of the books, or it enters one live claim that fits in what remains.\<close>

lemma reserve_books:
  obtains "same_books b (snd (reserveRequest uuid now o' b))"
  | b1 r where "same_books b b1" "snd (reserveRequest uuid now o' b) = claim_tokens o' r b1"
      "rs_reservationId r = uuid" "rs_status r = RsReserved" "0 \<le> rs_claimed r" "rs_claimed r \<le> remainingRun b"
      "bn_terminal (bg_run b) = None"
proof -
  obtain agent b1 where reg: "registerSession (ro_sessionId o') (ro_agentId o') (ro_parentSessionId o') b = (agent, b1)"
    by (cases "registerSession (ro_sessionId o') (ro_agentId o') (ro_parentSessionId o') b")
  then have s: "same_books b b1" using book_changes_none(1) by (metis snd_conv)
  have rem: "remainingRun b1 = remainingRun b" using s by (simp add: same_books_def remainingRun_def)
  have rec: "same_books b (append_record u b)" "same_books b (append_record u b1)" for u
    using book_changes_none(2) same_books_trans s by blast+
  let ?r = "reservation_of b1 o' uuid"
  have "same_books b (snd (reserveRequest uuid now o' b))
     \<or> (snd (reserveRequest uuid now o' b) = claim_tokens o' ?r b1 \<and> rs_claimed ?r \<le> remainingRun b
        \<and> bn_terminal (bg_run b) = None)"
    using rec rem by (simp add: reserveRequest_def reg Let_def split: option.split)
  then show ?thesis using that s by (metis reservation_of_sel)
qed

lemma settle_frame:
  "snd (settle_reservation o' n r b) = (if rs_status r = RsReserved then snd (settle_reservation o' n r b) else b)"
  by (simp add: settle_reservation_def)

text \<open>A commit that is not a repetition, up to the warning and the hard stop.\<close>

definition settled :: "int \<Rightarrow> commit_opts \<Rightarrow> budget \<Rightarrow> budget" where
  "settled now o' b =
     (let res = commit_reservation o' b;
          usage = normalizeUsage (cu_usage o') (case res of None \<Rightarrow> 0 | Some r \<Rightarrow> rs_estimatedInput r);
          s = (case res of None \<Rightarrow> (0, b) | Some r \<Rightarrow> settle_reservation o' (nu_billable usage) r b);
          rec = committed_record o' res usage (fst s) now
      in append_entry (EUsage rec) (append_record rec (charge o' (nu_billable usage) res (snd s))))"

definition commit_usage_of :: "commit_opts \<Rightarrow> budget \<Rightarrow> normalized_usage" where
  "commit_usage_of o' b =
     normalizeUsage (cu_usage o') (case commit_reservation o' b of None \<Rightarrow> 0 | Some r \<Rightarrow> rs_estimatedInput r)"

definition commit_unused :: "commit_opts \<Rightarrow> budget \<Rightarrow> int" where
  "commit_unused o' b =
     (case commit_reservation o' b of
        None \<Rightarrow> 0
      | Some r \<Rightarrow> if rs_status r = RsReserved then max 0 (rs_claimed r - nu_billable (commit_usage_of o' b)) else 0)"

definition repeated :: "commit_opts \<Rightarrow> budget \<Rightarrow> bool" where
  "repeated o' b \<longleftrightarrow> commit_key o' \<noteq> [] \<and> commit_key o' \<in> set (bg_committedKeys b)"

lemma commit_new:
  "\<not> repeated o' b \<Longrightarrow> snd (commitUsage now o' b) = hard_stop now (snd (fire_warning now (settled now o' b)))"
  "\<not> repeated o' b \<Longrightarrow> cm_billable (fst (commitUsage now o' b)) = nu_billable (commit_usage_of o' b)"
  "repeated o' b \<Longrightarrow> snd (commitUsage now o' b) = b"
  "repeated o' b \<Longrightarrow> cm_billable (fst (commitUsage now o' b)) = 0"
  "cm_committed (fst (commitUsage now o' b)) = (\<not> repeated o' b)"
  unfolding commitUsage_def repeated_def [symmetric] settled_def commit_usage_of_def
  by (simp_all add: Let_def split_beta)

lemma charge_frame [simp]:
  "bg_run (charge o' n res b) = (bg_run b)\<lparr>bn_consumed := bn_consumed (bg_run b) + n\<rparr>"
  "bg_reservations (charge o' n res b) = bg_reservations b" "bg_log (charge o' n res b) = bg_log b"
  "bg_config (charge o' n res b) = bg_config b"
  "bg_committedKeys (charge o' n res b) =
     (if commit_key o' \<noteq> [] then js_add (commit_key o') (bg_committedKeys b) else bg_committedKeys b)"
  by (simp_all add: charge_def Let_def)

lemma held_at: "claims_filed b \<Longrightarrow> 0 \<le> held_claim o' b \<and> held_claim o' b \<le> bn_reserved (bg_run b)"
proof (cases "commit_reservation o' b")
  case (Some r)
  assume f: "claims_filed b"
  from Some obtain k where k: "map_of (bg_reservations b) k = Some r"
    by (auto simp: commit_reservation_def split: if_splits)
  then show ?thesis using Some live_claim_le [OF f k] filed_at [OF f k] by (simp add: held_claim_def live_claim_def)
qed (simp add: held_claim_def reserved_nonneg)

lemma settled_run:
  assumes "claims_filed b"
  shows "bn_consumed (bg_run (settled now o' b)) = bn_consumed (bg_run b) + nu_billable (commit_usage_of o' b)"
    and "bn_reserved (bg_run (settled now o' b)) = bn_reserved (bg_run b) - held_claim o' b"
    and "bn_releasedUnused (bg_run (settled now o' b)) = bn_releasedUnused (bg_run b) + commit_unused o' b"
    and "bn_ceiling (bg_run (settled now o' b)) = bn_ceiling (bg_run b)"
    and "bn_runId (bg_run (settled now o' b)) = bn_runId (bg_run b)"
    and "bn_terminal (bg_run (settled now o' b)) = bn_terminal (bg_run b)"
    and "bn_warningFired (bg_run (settled now o' b)) = bn_warningFired (bg_run b)"
  using held_at [OF assms, of o']
  by (auto simp: settled_def Let_def commit_usage_of_def commit_unused_def held_claim_def live_claim_def
      settle_reservation_def release_run_def split: option.splits)

lemma settled_reservations:
  "bg_reservations (settled now o' b) =
     (case commit_reservation o' b of
        Some r \<Rightarrow> if rs_status r = RsReserved
                 then AList.update (rs_reservationId r) (r\<lparr>rs_status := RsCommitted\<rparr>) (bg_reservations b)
                 else bg_reservations b
      | None \<Rightarrow> bg_reservations b)"
  by (simp add: settled_def Let_def settle_reservation_def split: option.split)

lemma settled_log:
  "bg_log (settled now o' b) = bg_log b @ [EUsage (committed_record o' (commit_reservation o' b) (commit_usage_of o' b)
       (commit_unused o' b) now)]"
  by (auto simp: settled_def Let_def settle_reservation_def commit_usage_of_def commit_unused_def split: option.split)

lemma settled_keys:
  "commit_key o' \<noteq> [] \<Longrightarrow> bg_committedKeys (settled now o' b) = js_add (commit_key o') (bg_committedKeys b)"
  by (simp add: settled_def Let_def settle_reservation_def split: option.split)

lemma settled_filed:
  assumes f: "claims_filed b"
  shows "claims_filed (settled now o' b)"
proof (cases "\<exists>r. commit_reservation o' b = Some r \<and> rs_status r = RsReserved")
  case True
  then obtain r where r: "commit_reservation o' b = Some r" "rs_status r = RsReserved" by blast
  then obtain k where k: "map_of (bg_reservations b) k = Some r"
    by (auto simp: commit_reservation_def split: if_splits)
  have id: "rs_reservationId r = k" using filed_at [OF f k] by simp
  show ?thesis
    by (rule filed_replace [OF f, of "r\<lparr>rs_status := RsCommitted\<rparr>" k])
      (use r k id filed_at [OF f k] in \<open>simp_all add: settled_reservations settled_run [OF f] held_claim_def live_claim_def\<close>)
next
  case False
  then have "held_claim o' b = 0" by (auto simp: held_claim_def live_claim_def split: option.split)
  moreover have "bg_reservations (settled now o' b) = bg_reservations b"
    using False by (auto simp: settled_reservations split: option.split)
  ultimately show ?thesis using settled_run(2) [OF f] by (intro filed_frame [OF f]) simp_all
qed

section \<open>The run is not oversubscribed\<close>

text \<open>
  The two counters stay within the ceiling plus what requests used beyond their claims. Setting the
  warning or the terminal state, or the agents, does not touch it.
\<close>

definition covered :: "budget \<Rightarrow> int \<Rightarrow> bool" where
  "covered b over \<longleftrightarrow> claims_filed b \<and> 0 \<le> over
     \<and> bn_consumed (bg_run b) + bn_reserved (bg_run b) \<le> bn_ceiling (bg_run b) + over"

lemma covered_frame:
  "covered b over \<Longrightarrow> bg_reservations b' = bg_reservations b \<Longrightarrow> bn_reserved (bg_run b') = bn_reserved (bg_run b)
     \<Longrightarrow> bn_consumed (bg_run b') = bn_consumed (bg_run b) \<Longrightarrow> bn_ceiling (bg_run b') = bn_ceiling (bg_run b)
     \<Longrightarrow> covered b' over"
  unfolding covered_def by (metis filed_frame)

lemma covered_books: "covered b over \<Longrightarrow> same_books b b' \<Longrightarrow> covered b' over"
  by (rule covered_frame) (simp_all add: same_books_def)

lemma cancel_one_covered:
  assumes w: "covered b over" and r: "map_of (bg_reservations b) (rs_reservationId r) = Some r" "rs_status r = RsReserved"
  shows "covered (cancel_one r b) over"
proof -
  have f: "claims_filed b" using w by (simp add: covered_def)
  have "0 \<le> rs_claimed r" using filed_at [OF f r(1)] by simp
  then show ?thesis using w cancel_one_filed [OF f r] by (simp add: covered_def release_run_def)
qed

lemma cancel_where_covered:
  assumes "covered b over"
  shows "covered (cancel_where c b) over"
proof (rule cancel_where_keeps(2) [where P = "\<lambda>b. covered b over"])
  show "claims_filed b" using assms by (simp add: covered_def)
qed (use assms cancel_one_covered in blast)+

lemma stopped_covered:
  assumes "covered b over"
  shows "covered (cancelAllReservations (append_entry e (b\<lparr>bg_run := (bg_run b)\<lparr>bn_terminal := t\<rparr>\<rparr>))) over"
  unfolding cancelAllReservations_def by (rule cancel_where_covered, rule covered_frame [OF assms]) simp_all

lemma hard_stop_covered: "covered b over \<Longrightarrow> covered (hard_stop now b) over"
  by (simp add: hard_stop_def Let_def stopped_covered)

lemma fire_warning_covered: "covered b over \<Longrightarrow> covered (snd (fire_warning now b)) over"
  by (simp add: fire_warning_def covered_frame [of b over])

lemma commit_covered:
  assumes w: "covered b over"
  shows "covered (snd (commitUsage now o' b)) (over + op_overrun (OpCommit now o') b)"
proof (cases "repeated o' b")
  case True
  then have "op_overrun (OpCommit now o') b \<ge> 0" by simp
  with True w show ?thesis by (auto simp: covered_def commit_new)
next
  case False
  have f: "claims_filed b" using w by (simp add: covered_def)
  let ?n = "nu_billable (commit_usage_of o' b)"
  have "?n - held_claim o' b \<le> max 0 (?n - held_claim o' b)" "0 \<le> max 0 (?n - held_claim o' b)" by simp_all
  moreover have "op_overrun (OpCommit now o') b = max 0 (?n - held_claim o' b)" using False by (simp add: commit_new)
  ultimately have "covered (settled now o' b) (over + op_overrun (OpCommit now o') b)"
    using w settled_filed [OF f, of now o'] settled_run(1,2,4) [OF f, of now o']
    unfolding covered_def by linarith
  with False show ?thesis by (simp add: commit_new hard_stop_covered fire_warning_covered)
qed

lemma apply_covered:
  assumes w: "covered b over" and ok: "op_ok x b"
  shows "covered (apply_op x b) (over + op_overrun x b)"
proof (cases x)
  case (OpReserve uuid now o')
  show ?thesis
  proof (cases rule: reserve_books [of b uuid now o'])
    case 1 then show ?thesis using w OpReserve by (simp add: covered_books)
  next
    case (2 b1 r)
    have w1: "covered b1 over" using covered_books [OF w 2(1)] .
    have new: "map_of (bg_reservations b1) (rs_reservationId r) = None" "rs_reservationId r \<noteq> []"
      using ok OpReserve 2(1,3) by (auto simp: same_books_def)
    have rem: "rs_claimed r \<le> remainingRun b1" using 2(1,6) by (simp add: same_books_def remainingRun_def)
    have "claims_filed (claim_tokens o' r b1)"
      by (rule filed_replace [of b1 r "rs_reservationId r"])
        (use w1 new 2(4,5) in \<open>simp_all add: covered_def live_claim_def\<close>)
    then have "covered (claim_tokens o' r b1) over"
      using w1 rem by (auto simp: covered_def remainingRun_def)
    then show ?thesis using OpReserve 2(2) by simp
  qed
next
  case (OpCommit now o')
  then show ?thesis using commit_covered [OF w] by (simp only: apply_op.simps)
next
  case (OpCancelSession sid reason now)
  have "covered (b\<lparr>bg_agents := ag\<rparr>) over" for ag by (rule covered_frame [OF w]) simp_all
  then show ?thesis using OpCancelSession by (simp add: cancelSession_def Let_def cancel_where_covered)
next
  case (OpTerminate reason now)
  have "covered (terminate reason now b) over"
    using w by (simp add: terminate_def Let_def covered_books [OF stopped_covered book_changes_none(5)])
  then show ?thesis using OpTerminate by simp
next
  case (OpCancelReservation rid)
  have "covered (cancel_one r b) over" if "map_of (bg_reservations b) rid = Some r" "rs_status r = RsReserved" for r
  proof -
    have "rs_reservationId r = rid" using w that(1) filed_at by (auto simp: covered_def)
    then show ?thesis using cancel_one_covered [OF w] that by simp
  qed
  then show ?thesis using w OpCancelReservation by (auto simp: cancelReservation_def split: option.split)
qed (use w in \<open>auto simp: completeAssignment_def supersedeAssignment_def
       intro: covered_books book_changes_none\<close>)

text \<open>C3. The two counters of a run stay coherent and bounded, whatever sequence of reserve, commit, cancel,
  cancel-session, terminate, register and assignment operations runs from a new controller: the reserved
  counter is exactly the sum of the claims of the live reservations, and consumed plus reserved exceed the
  ceiling of the configuration by no more than what commits used beyond the claims they held. So callers
  cannot reserve more than the run has, and a run whose requests stay within their claims never exceeds it.\<close>

theorem budget_never_oversubscribed:
  assumes "play ops (new_controller cfg rid [], 0) = Some (b, over)" and "0 \<le> bc_runTotal cfg"
  shows "bn_reserved (bg_run b) = live_claims b \<and> 0 \<le> bn_reserved (bg_run b)
     \<and> bn_consumed (bg_run b) + bn_reserved (bg_run b) \<le> bn_ceiling (bg_run b) + over"
proof -
  have "covered (new_controller cfg rid []) 0"
    using assms(2) by (simp add: covered_def new_controller_def claims_filed_def live_claims_def asum_def)
  then have "covered b over" by (rule play_keeps [OF assms(1), where P = covered]) (rule apply_covered)
  then show ?thesis using reserved_nonneg by (auto simp: covered_def claims_filed_def)
qed

section \<open>A request is charged once\<close>

lemma sweep_keys: "bg_committedKeys (foldl (\<lambda>b r. cancel_one r b) b rs) = bg_committedKeys b"
  by (induction rs arbitrary: b) simp_all

lemma cancel_keys [simp]: "bg_committedKeys (cancel_where c b) = bg_committedKeys b"
  "bg_committedKeys (cancelAllReservations b) = bg_committedKeys b"
  by (simp_all add: cancelAllReservations_def cancel_where_def sweep_keys)

lemma stop_keys [simp]: "bg_committedKeys (hard_stop now (snd (fire_warning now' b))) = bg_committedKeys b"
  by (simp add: hard_stop_def fire_warning_def Let_def)

lemma keys_kept:
  assumes "op_ok x b" and "k \<in> set (bg_committedKeys b)"
  shows "k \<in> set (bg_committedKeys (apply_op x b))"
proof (cases x)
  case (OpReserve uuid now o')
  show ?thesis
    by (cases rule: reserve_books [of b uuid now o']) (use assms OpReserve in \<open>simp_all add: same_books_def\<close>)
next
  case (OpCommit now o')
  then show ?thesis using assms
    by (cases "repeated o' b") (simp_all add: commit_new settled_keys)
qed (use assms in \<open>simp_all add: cancelSession_def terminate_def cancelReservation_def ensureAssignment_def
       completeAssignment_def supersedeAssignment_def end_assignment_def Let_def split: option.split\<close>)

text \<open>A commit is idempotent per message, or per request where there is no message: after a commit,
  whatever operations run in between, a second commit under the same key is answered as not committed with
  nothing billed and leaves the controller, its counters and its log exactly as they were.\<close>

theorem commit_once:
  assumes "play (OpCommit now o' # ops) (b, over) = Some (b', over')" and "commit_key o'' = commit_key o'"
  shows "snd (commitUsage now' o'' b') = b' \<and> \<not> cm_committed (fst (commitUsage now' o'' b'))
     \<and> cm_billable (fst (commitUsage now' o'' b')) = 0"
proof -
  have key: "commit_key o' \<noteq> []" using assms(1) by (auto split: if_splits)
  let ?b = "snd (commitUsage now o' b)"
  have "commit_key o' \<in> set (bg_committedKeys ?b)"
    using key by (cases "repeated o' b") (simp_all add: commit_new settled_keys, simp add: repeated_def)
  moreover obtain over1 where "play ops (?b, over1) = Some (b', over')"
    using assms(1) by (auto split: if_splits)
  ultimately have "commit_key o' \<in> set (bg_committedKeys b')"
    using play_keeps [where P = "\<lambda>b _. commit_key o' \<in> set (bg_committedKeys b)"] keys_kept by blast
  then have "repeated o'' b'" using assms(2) key by (simp add: repeated_def)
  then show ?thesis by (simp add: commit_new)
qed

section \<open>The log mirrors the controller\<close>

definition logged :: "budget \<Rightarrow> rebuild_state" where
  "logged b = foldl rebuild_step rebuild_start (bg_log b)"

text \<open>The counters of the run and the set of keys already committed.\<close>

definition counters_logged :: "budget \<Rightarrow> bool" where
  "counters_logged b \<longleftrightarrow>
     distinct (map fst (rt_byKey (logged b)))
     \<and> fst ` set (rt_byKey (logged b)) = set (bg_committedKeys b)
     \<and> asum (\<lambda>u. nu_billable (us_usage u)) (rt_byKey (logged b)) = bn_consumed (bg_run b)
     \<and> asum (\<lambda>u. nullish (us_releasedUnused u) 0) (rt_byKey (logged b)) = bn_releasedUnused (bg_run b)
     \<and> rt_terminal (logged b) = bn_terminal (bg_run b)
     \<and> rt_warning (logged b) = bn_warningFired (bg_run b)"

text \<open>A committed reservation stays \<open>reserved\<close> in the log, and one without tokens is not read back.\<close>

definition shown :: "reservation \<Rightarrow> reservation option" where
  "shown r = (if rs_claimed r > 0
              then Some (if rs_status r = RsCommitted then r\<lparr>rs_status := RsReserved\<rparr> else r) else None)"

definition claims_logged :: "budget \<Rightarrow> bool" where
  "claims_logged b \<longleftrightarrow>
     distinct (map fst (rt_reservations (logged b))) \<and> distinct (rt_committed (logged b))
     \<and> (\<forall>k. map_of (rt_reservations (logged b)) k = Option.bind (map_of (bg_reservations b) k) shown)
     \<and> (\<forall>k \<in> set (rt_committed (logged b)).
          \<exists>r. map_of (bg_reservations b) k = Some r \<and> rs_status r \<noteq> RsReserved)
     \<and> (\<forall>k r. map_of (bg_reservations b) k = Some r \<longrightarrow> rs_status r = RsCommitted
          \<longrightarrow> k \<in> set (rt_committed (logged b)))"

lemma logged_append: "bg_log b' = bg_log b @ [e] \<Longrightarrow> logged b' = rebuild_step (logged b) e"
  by (simp add: logged_def)

lemma counters_frame:
  "counters_logged b \<Longrightarrow> bg_log b' = bg_log b \<Longrightarrow> bg_committedKeys b' = bg_committedKeys b
     \<Longrightarrow> bn_consumed (bg_run b') = bn_consumed (bg_run b)
     \<Longrightarrow> bn_releasedUnused (bg_run b') = bn_releasedUnused (bg_run b)
     \<Longrightarrow> bn_terminal (bg_run b') = bn_terminal (bg_run b)
     \<Longrightarrow> bn_warningFired (bg_run b') = bn_warningFired (bg_run b) \<Longrightarrow> counters_logged b'"
  by (simp add: counters_logged_def logged_def)

lemma claims_frame:
  "claims_logged b \<Longrightarrow> bg_log b' = bg_log b \<Longrightarrow> bg_reservations b' = bg_reservations b \<Longrightarrow> claims_logged b'"
  by (simp add: claims_logged_def logged_def)

definition mirrored :: "budget \<Rightarrow> bool" where
  "mirrored b \<longleftrightarrow> claims_filed b \<and> counters_logged b \<and> claims_logged b"

lemma mirrored_books: "mirrored b \<Longrightarrow> same_books b b' \<Longrightarrow> mirrored b'"
  unfolding mirrored_def same_books_def by (metis claims_frame counters_frame filed_frame)

text \<open>An entry for a reservation changes only the reservations read back.\<close>

lemma reservation_step:
  "rt_byKey (rebuild_step t (EReservation r)) = rt_byKey t"
  "rt_terminal (rebuild_step t (EReservation r)) = rt_terminal t"
  "rt_warning (rebuild_step t (EReservation r)) = rt_warning t"
  "rt_committed (rebuild_step t (EReservation r)) = rt_committed t"
  by simp_all

lemma counters_reservation:
  "counters_logged b \<Longrightarrow> bg_log b' = bg_log b @ [EReservation r] \<Longrightarrow> bg_committedKeys b' = bg_committedKeys b
     \<Longrightarrow> bn_consumed (bg_run b') = bn_consumed (bg_run b)
     \<Longrightarrow> bn_releasedUnused (bg_run b') = bn_releasedUnused (bg_run b)
     \<Longrightarrow> bn_terminal (bg_run b') = bn_terminal (bg_run b)
     \<Longrightarrow> bn_warningFired (bg_run b') = bn_warningFired (bg_run b) \<Longrightarrow> counters_logged b'"
  unfolding counters_logged_def by (simp only: logged_append reservation_step)

lemma claims_reservation:
  assumes c: "claims_logged b" and log: "bg_log b' = bg_log b @ [EReservation r]"
    and res: "bg_reservations b' = AList.update (rs_reservationId r) r (bg_reservations b)"
    and r: "rs_reservationId r \<noteq> []" "rs_status r \<noteq> RsCommitted"
    and live: "rs_status r = RsReserved \<longrightarrow> map_of (bg_reservations b) (rs_reservationId r) = None"
    and claim: "\<And>q. map_of (bg_reservations b) (rs_reservationId r) = Some q \<Longrightarrow> rs_claimed q = rs_claimed r"
  shows "claims_logged b'"
proof -
  have l: "logged b' = rebuild_step (logged b) (EReservation r)" by (rule logged_append [OF log])
  have "map_of (rt_reservations (logged b')) k = Option.bind (map_of (bg_reservations b') k) shown" for k
    using c claim r by (cases "k = rs_reservationId r"; cases "map_of (bg_reservations b) k")
      (auto simp: l res store_simps claims_logged_def shown_def)
  moreover have "distinct (map fst (rt_reservations (logged b')))"
    using c by (simp add: l claims_logged_def distinct_update)
  moreover have "\<exists>q. map_of (bg_reservations b') k = Some q \<and> rs_status q \<noteq> RsReserved"
    if "k \<in> set (rt_committed (logged b'))" for k
  proof -
    have "rt_committed (logged b') = rt_committed (logged b)" by (simp add: l)
    then obtain q where "map_of (bg_reservations b) k = Some q" "rs_status q \<noteq> RsReserved"
      using c \<open>k \<in> set (rt_committed (logged b'))\<close> by (auto simp: claims_logged_def)
    then show ?thesis using live by (auto simp: res store_simps)
  qed
  ultimately show ?thesis using c r
    by (simp add: claims_logged_def l res store_simps)
qed

text \<open>The entries of a commit.\<close>

lemma usage_key_committed [simp]: "usage_key (committed_record o' res usage unused now) = commit_key o'"
  by (simp add: usage_key_def committed_record_def commit_key_def)

lemma committed_record_sel [simp]:
  "us_usage (committed_record o' res usage unused now) = usage"
  "us_releasedUnused (committed_record o' res usage unused now) = Some unused"
  "us_reservationId (committed_record o' res usage unused now) = (case res of None \<Rightarrow> [] | Some r \<Rightarrow> rs_reservationId r)"
  by (simp_all add: committed_record_def)

lemma nullish_Some [simp]: "nullish (Some x) y = x"
  by (simp add: nullish_def)

lemma settled_counters:
  assumes f: "claims_filed b" and c: "counters_logged b" and new: "\<not> repeated o' b" and key: "commit_key o' \<noteq> []"
  shows "counters_logged (settled now o' b)"
proof -
  let ?u = "committed_record o' (commit_reservation o' b) (commit_usage_of o' b) (commit_unused o' b) now"
  let ?t = "logged b"
  have l: "logged (settled now o' b) = rebuild_step ?t (EUsage ?u)" by (rule logged_append [OF settled_log])
  have keys: "rt_byKey (logged (settled now o' b)) = AList.update (commit_key o') ?u (rt_byKey ?t)"
    "rt_terminal (logged (settled now o' b)) = rt_terminal ?t" "rt_warning (logged (settled now o' b)) = rt_warning ?t"
    using key by (simp_all add: l Let_def)
  have "map_of (rt_byKey ?t) (commit_key o') = None"
    using c new key by (simp add: counters_logged_def repeated_def map_of_eq_None_iff)
  then show ?thesis
    using c key by (simp add: counters_logged_def keys distinct_update asum_update settled_run [OF f] settled_keys)
qed

lemma settled_claims:
  assumes f: "claims_filed b" and c: "claims_logged b"
  shows "claims_logged (settled now o' b)"
proof -
  let ?u = "committed_record o' (commit_reservation o' b) (commit_usage_of o' b) (commit_unused o' b) now"
  let ?b = "settled now o' b"
  have l: "logged ?b = rebuild_step (logged b) (EUsage ?u)" by (rule logged_append [OF settled_log])
  show ?thesis
  proof (cases "commit_reservation o' b")
    case None
    then have "rt_reservations (logged ?b) = rt_reservations (logged b)" "rt_committed (logged ?b) = rt_committed (logged b)"
      by (simp_all add: l Let_def)
    then show ?thesis using c None by (simp add: claims_logged_def settled_reservations)
  next
    case (Some r)
    then obtain k where k: "map_of (bg_reservations b) k = Some r"
      by (auto simp: commit_reservation_def split: if_splits)
    have id: "rs_reservationId r = k" "k \<noteq> []" "rs_status r \<in> {RsReserved, RsCommitted, RsCancelled}"
      using filed_at [OF f k] by simp_all
    have t: "rt_reservations (logged ?b) = rt_reservations (logged b)"
      "rt_committed (logged ?b) = js_add k (rt_committed (logged b))"
      using Some id by (simp_all add: l Let_def)
    define r' where "r' = (if rs_status r = RsReserved then r\<lparr>rs_status := RsCommitted\<rparr> else r)"
    have look: "map_of (bg_reservations ?b) j = (if j = k then Some r' else map_of (bg_reservations b) j)" for j
      using Some k id by (simp add: settled_reservations store_simps r'_def)
    have r': "shown r' = shown r" "rs_status r' \<noteq> RsReserved" by (simp_all add: r'_def shown_def)
    show ?thesis using c k r' by (auto simp: claims_logged_def t look)
  qed
qed

lemma settled_mirrored:
  "mirrored b \<Longrightarrow> \<not> repeated o' b \<Longrightarrow> commit_key o' \<noteq> [] \<Longrightarrow> mirrored (settled now o' b)"
  by (simp add: mirrored_def settled_filed settled_counters settled_claims)

lemma cancel_one_mirrored:
  assumes m: "mirrored b" and r: "map_of (bg_reservations b) (rs_reservationId r) = Some r" "rs_status r = RsReserved"
  shows "mirrored (cancel_one r b)"
proof -
  have f: "claims_filed b" using m by (simp add: mirrored_def)
  have "counters_logged (cancel_one r b)"
    by (rule counters_reservation [of b]) (use m in \<open>simp_all add: mirrored_def release_run_def\<close>)
  moreover have "claims_logged (cancel_one r b)"
    by (rule claims_reservation [of b _ "r\<lparr>rs_status := RsCancelled\<rparr>"]) (use m filed_at [OF f r(1)] r in \<open>simp_all add: mirrored_def\<close>)
  ultimately show ?thesis using cancel_one_filed(1) [OF f r] by (simp add: mirrored_def)
qed

lemma cancel_where_mirrored:
  assumes "mirrored b"
  shows "mirrored (cancel_where c b)"
proof (rule cancel_where_keeps(2) [where P = mirrored])
  show "claims_filed b" using assms by (simp add: mirrored_def)
qed (use assms cancel_one_mirrored in blast)+

lemma flag_step:
  "rt_reservations (rebuild_step t (ETerminal x)) = rt_reservations t" "rt_committed (rebuild_step t (ETerminal x)) = rt_committed t"
  "rt_reservations (rebuild_step t (EWarning r n)) = rt_reservations t" "rt_committed (rebuild_step t (EWarning r n)) = rt_committed t"
  by simp_all

lemma stopped_mirrored:
  assumes m: "mirrored b"
  shows "mirrored (cancelAllReservations (append_entry (ETerminal t) (b\<lparr>bg_run := (bg_run b)\<lparr>bn_terminal := Some t\<rparr>\<rparr>)))"
    (is "mirrored (cancelAllReservations ?b)")
proof -
  have l: "logged ?b = rebuild_step (logged b) (ETerminal t)" by (rule logged_append) simp
  have "claims_filed ?b" by (rule filed_frame [of b]) (use m in \<open>simp_all add: mirrored_def\<close>)
  moreover have "counters_logged ?b" using m by (simp add: mirrored_def counters_logged_def l)
  moreover have "claims_logged ?b" using m by (simp add: mirrored_def claims_logged_def l)
  ultimately show ?thesis unfolding cancelAllReservations_def by (intro cancel_where_mirrored) (simp add: mirrored_def)
qed

lemma hard_stop_mirrored: "mirrored b \<Longrightarrow> mirrored (hard_stop now b)"
  by (simp add: hard_stop_def Let_def stopped_mirrored)

lemma warned_mirrored:
  assumes m: "mirrored b"
  shows "mirrored (append_entry (EWarning x now) (b\<lparr>bg_run := (bg_run b)\<lparr>bn_warningFired := True\<rparr>\<rparr>))" (is "mirrored ?b")
proof -
  have l: "logged ?b = rebuild_step (logged b) (EWarning x now)" by (rule logged_append) simp
  have "claims_filed ?b" by (rule filed_frame [of b]) (use m in \<open>simp_all add: mirrored_def\<close>)
  moreover have "counters_logged ?b" using m by (simp add: mirrored_def counters_logged_def l)
  moreover have "claims_logged ?b" using m by (simp add: mirrored_def claims_logged_def l)
  ultimately show ?thesis by (simp add: mirrored_def)
qed

lemma fire_warning_mirrored: "mirrored b \<Longrightarrow> mirrored (snd (fire_warning now b))"
  by (simp add: fire_warning_def warned_mirrored)

lemma claim_tokens_mirrored:
  assumes m: "mirrored b" and new: "map_of (bg_reservations b) (rs_reservationId r) = None" "rs_reservationId r \<noteq> []"
    and r: "rs_status r = RsReserved" "0 \<le> rs_claimed r"
  shows "mirrored (claim_tokens o' r b)"
proof -
  have "claims_filed (claim_tokens o' r b)"
    by (rule filed_replace [of b r "rs_reservationId r"]) (use m new r in \<open>simp_all add: mirrored_def live_claim_def\<close>)
  moreover have "counters_logged (claim_tokens o' r b)"
    by (rule counters_reservation [of b]) (use m in \<open>simp_all add: mirrored_def\<close>)
  moreover have "claims_logged (claim_tokens o' r b)"
    by (rule claims_reservation [of b _ r]) (use m new r in \<open>simp_all add: mirrored_def\<close>)
  ultimately show ?thesis by (simp add: mirrored_def)
qed

lemma apply_mirrored:
  assumes m: "mirrored b" and ok: "op_ok x b"
  shows "mirrored (apply_op x b)"
proof (cases x)
  case (OpReserve uuid now o')
  show ?thesis
  proof (cases rule: reserve_books [of b uuid now o'])
    case 1 then show ?thesis using m OpReserve by (simp add: mirrored_books)
  next
    case (2 b1 r)
    have "map_of (bg_reservations b1) (rs_reservationId r) = None" "rs_reservationId r \<noteq> []"
      using ok OpReserve 2(1,3) by (auto simp: same_books_def)
    then show ?thesis
      using claim_tokens_mirrored [OF mirrored_books [OF m 2(1)]] 2(2,4,5) OpReserve by simp
  qed
next
  case (OpCommit now o')
  then show ?thesis using m ok
    by (cases "repeated o' b") (simp_all add: commit_new settled_mirrored hard_stop_mirrored fire_warning_mirrored)
next
  case (OpCancelSession sid reason now)
  then show ?thesis
    using mirrored_books [OF m book_changes_none(5)] by (simp add: cancelSession_def Let_def cancel_where_mirrored)
next
  case (OpTerminate reason now)
  then show ?thesis using m
    by (simp add: terminate_def Let_def mirrored_books [OF stopped_mirrored book_changes_none(5)])
next
  case (OpCancelReservation rid)
  have "mirrored (cancel_one r b)" if "map_of (bg_reservations b) rid = Some r" "rs_status r = RsReserved" for r
  proof -
    have "rs_reservationId r = rid" using m that(1) filed_at by (auto simp: mirrored_def)
    then show ?thesis using cancel_one_mirrored [OF m] that by simp
  qed
  then show ?thesis using m OpCancelReservation by (auto simp: cancelReservation_def split: option.split)
qed (use m in \<open>auto simp: completeAssignment_def supersedeAssignment_def intro: mirrored_books book_changes_none\<close>)

section \<open>What is read back\<close>

definition reserved_claim :: "(string \<times> reservation) list \<Rightarrow> string \<Rightarrow> int" where
  "reserved_claim m k = (case map_of m k of None \<Rightarrow> 0 | Some r \<Rightarrow> live_claim r)"

text \<open>While the claims are not larger than the count, the truncated subtraction is the exact one.\<close>

lemma subtract_all:
  "(\<And>k. 0 \<le> reserved_claim m k) \<Longrightarrow> sum_list (map (reserved_claim m) ks) \<le> n
     \<Longrightarrow> foldl (subtract_committed m) n ks = n - sum_list (map (reserved_claim m) ks)"
proof (induction ks arbitrary: n)
  case (Cons k ks)
  have "0 \<le> sum_list (map (reserved_claim m) ks)" using Cons.prems(1) by (intro sum_list_nonneg) auto
  then have "reserved_claim m k \<le> n" using Cons.prems(2) by simp
  then have "subtract_committed m n k = n - reserved_claim m k"
    by (auto simp: subtract_committed_def reserved_claim_def live_claim_def split: option.splits)
  then show ?case using Cons by simp
qed simp

lemma reserved_rows_sum: "sum_list (map rs_claimed (reserved_rows m)) = asum live_claim m"
  by (induction m) (simp_all add: reserved_rows_def asum_def live_claim_def)

lemma reserved_claim_nonneg:
  assumes "mirrored b"
  shows "0 \<le> reserved_claim (rt_reservations (logged b)) k"
  using assms
  by (auto simp: mirrored_def claims_logged_def reserved_claim_def live_claim_def shown_def bind_eq_Some_conv split: option.split if_splits)

text \<open>A live claim is one that the log shows reserved and no usage entry names.\<close>

lemma live_by_log:
  assumes m: "mirrored b" and r: "map_of (bg_reservations b) k = Some r"
  shows "live_claim r = (if k \<in> set (rt_committed (logged b)) then 0 else reserved_claim (rt_reservations (logged b)) k)"
proof -
  have f: "0 \<le> rs_claimed r" "rs_status r \<in> {RsReserved, RsCommitted, RsCancelled}"
    using m r filed_at by (auto simp: mirrored_def)
  have t: "map_of (rt_reservations (logged b)) k = shown r" using m r by (simp add: mirrored_def claims_logged_def)
  have "k \<in> set (rt_committed (logged b)) \<Longrightarrow> rs_status r \<noteq> RsReserved"
    "rs_status r = RsCommitted \<Longrightarrow> k \<in> set (rt_committed (logged b))"
    using m r by (auto simp: mirrored_def claims_logged_def)
  then show ?thesis using f by (auto simp: reserved_claim_def t shown_def live_claim_def)
qed

lemma rebuilt_reserved:
  assumes m: "mirrored b"
  shows "foldl (subtract_committed (rt_reservations (logged b))) (asum live_claim (rt_reservations (logged b)))
           (rt_committed (logged b)) = bn_reserved (bg_run b)"
proof -
  let ?m = "rt_reservations (logged b)" and ?C = "set (rt_committed (logged b))"
  let ?g = "reserved_claim ?m" and ?R = "fst ` set (bg_reservations b)"
  have d: "distinct (map fst ?m)" "distinct (rt_committed (logged b))" "distinct (map fst (bg_reservations b))"
    using m by (simp_all add: mirrored_def claims_logged_def claims_filed_def)
  have "map_of ?m k = Option.bind (map_of (bg_reservations b) k) shown" for k
    using m by (simp add: mirrored_def claims_logged_def)
  then have sub: "fst ` set ?m \<subseteq> ?R" "?C \<subseteq> ?R"
    using m unfolding subset_iff map_of_keys by (auto simp: mirrored_def claims_logged_def bind_eq_Some_conv)
  have g: "0 \<le> ?g k" for k by (rule reserved_claim_nonneg [OF m])
  have "asum live_claim ?m = (\<Sum>k \<in> fst ` set ?m. ?g k)"
    unfolding asum_keys [OF d(1)] by (rule sum.cong) (auto simp: reserved_claim_def map_of_keys)
  also have "\<dots> = (\<Sum>k \<in> ?R. ?g k)"
    by (rule sum.mono_neutral_left) (use sub in \<open>auto simp: reserved_claim_def map_of_keys\<close>)
  finally have all: "asum live_claim ?m = (\<Sum>k \<in> ?R. ?g k)" .
  have part: "sum_list (map ?g (rt_committed (logged b))) = (\<Sum>k \<in> ?C. ?g k)"
    by (simp add: d(2) sum_list_distinct_conv_sum_set)
  have "(\<Sum>k \<in> ?C. ?g k) \<le> (\<Sum>k \<in> ?R. ?g k)" using sub(2) g by (intro sum_mono2) auto
  then have "foldl (subtract_committed ?m) (asum live_claim ?m) (rt_committed (logged b))
      = (\<Sum>k \<in> ?R. ?g k) - (\<Sum>k \<in> ?C. ?g k)"
    using subtract_all [of ?m "rt_committed (logged b)"] g all part by simp
  also have "\<dots> = (\<Sum>k \<in> ?R - ?C. ?g k)" using sub(2) by (simp add: sum_diff)
  also have "\<dots> = (\<Sum>k \<in> ?R. if k \<in> ?C then 0 else ?g k)"
    by (rule sum.mono_neutral_cong_left) auto
  also have "\<dots> = (\<Sum>k \<in> ?R. live_claim (the (map_of (bg_reservations b) k)))"
    by (rule sum.cong) (auto simp: map_of_keys live_by_log [OF m])
  also have "\<dots> = bn_reserved (bg_run b)"
    using m asum_keys [OF d(3), of live_claim] by (simp add: mirrored_def claims_filed_def live_claims_def)
  finally show ?thesis .
qed

lemma restore_frame:
  "bg_run (foldl restore_reservation b rs) = bg_run b" "bg_run (foldl restore_record b us) = bg_run b"
proof (induction rs arbitrary: b)
  case Nil
  { case 1 show ?case by simp }
  { case 2 show ?case
    by (induction us arbitrary: b) (simp_all add: restore_record_def ensure_restored_def Let_def split: option.split) }
next
  case (Cons r rs)
  { case 1 then show ?case using Cons.IH
      by (simp add: restore_reservation_def ensure_restored_def Let_def split: option.split) }
  { case 2 show ?case by (rule Cons.IH) }
qed

text \<open>No operation changes the run id, the ceiling or the configuration.\<close>

definition identity_of :: "budget \<Rightarrow> string \<times> int \<times> budget_config" where
  "identity_of b = (bn_runId (bg_run b), bn_ceiling (bg_run b), bg_config b)"

lemma identity_books: "same_books b b' \<Longrightarrow> identity_of b' = identity_of b"
  by (simp add: same_books_def identity_of_def)

lemma identity_sweep: "identity_of (foldl (\<lambda>b r. cancel_one r b) b rs) = identity_of b"
  by (induction rs arbitrary: b) (simp_all add: identity_of_def release_run_def)

lemma identity_cancel [simp]:
  "identity_of (cancel_where c b) = identity_of b" "identity_of (cancelAllReservations b) = identity_of b"
  by (simp_all add: cancelAllReservations_def cancel_where_def identity_sweep)

lemma identity_settled: "identity_of (settled now o' b) = identity_of b"
  by (simp add: settled_def identity_of_def Let_def settle_reservation_def release_run_def split: option.split)

lemma identity_set [simp]:
  "identity_of (append_entry e b) = identity_of b" "identity_of (b\<lparr>bg_agents := ag\<rparr>) = identity_of b"
  "identity_of (b\<lparr>bg_run := (bg_run b)\<lparr>bn_terminal := t\<rparr>\<rparr>) = identity_of b"
  "identity_of (b\<lparr>bg_run := (bg_run b)\<lparr>bn_warningFired := w\<rparr>\<rparr>) = identity_of b"
  "identity_of (cancel_one r b) = identity_of b" "identity_of (claim_tokens o' r b) = identity_of b"
  by (simp_all add: identity_of_def release_run_def)

lemma identity_apply: "identity_of (apply_op x b) = identity_of b"
proof (cases x)
  case (OpReserve uuid now o')
  show ?thesis
    by (cases rule: reserve_books [of b uuid now o']) (use OpReserve in \<open>simp_all add: identity_books\<close>)
next
  case (OpCommit now o')
  then show ?thesis
    by (cases "repeated o' b") (simp_all add: commit_new hard_stop_def fire_warning_def Let_def identity_settled)
qed (simp_all add: cancelSession_def terminate_def cancelReservation_def completeAssignment_def supersedeAssignment_def
       Let_def identity_books book_changes_none split: option.split)

lemma new_mirrored: "mirrored (new_controller cfg rid [])"
  by (simp add: mirrored_def new_controller_def claims_filed_def live_claims_def asum_def counters_logged_def
      claims_logged_def logged_def rebuild_start_def)

lemma play_mirrored:
  assumes "play ops (new_controller cfg rid [], 0) = Some (b, over)"
  shows "mirrored b" and "identity_of b = (rid, bc_runTotal cfg, cfg)"
proof -
  have "mirrored b \<and> identity_of b = identity_of (new_controller cfg rid [])"
    by (rule play_keeps [OF assms, where P = "\<lambda>b _. mirrored b \<and> identity_of b = identity_of (new_controller cfg rid [])"])
      (simp_all add: new_mirrored apply_mirrored identity_apply)
  then show "mirrored b" and "identity_of b = (rid, bc_runTotal cfg, cfg)"
    by (simp_all add: identity_of_def new_controller_def)
qed

lemma restored_run:
  assumes "play ops (new_controller cfg rid [], 0) = Some (b, over)"
  shows "bg_run (restore cfg rid (bg_log b)) = bg_run b"
proof -
  note m = play_mirrored(1) [OF assms]
  let ?rb = "rebuildFromEntries (bg_log b)"
  have log: "foldl rebuild_step rebuild_start (bg_log b) = logged b" by (simp add: logged_def)
  have "rb_reserved ?rb = bn_reserved (bg_run b)"
    using rebuilt_reserved [OF m] by (simp add: rebuildFromEntries_def log reserved_rows_sum Let_def)
  moreover have "rb_consumed ?rb = bn_consumed (bg_run b)" "rb_releasedUnused ?rb = bn_releasedUnused (bg_run b)"
    "rb_terminal ?rb = bn_terminal (bg_run b)" "rb_warningFired ?rb = bn_warningFired (bg_run b)"
    using m by (simp_all add: rebuildFromEntries_def log asum_def mirrored_def counters_logged_def Let_def)
  moreover have "bn_runId (bg_run b) = rid" "bn_ceiling (bg_run b) = bc_runTotal cfg"
    using play_mirrored(2) [OF assms] by (simp_all add: identity_of_def)
  ultimately show ?thesis
    by (simp add: restore_def Let_def restore_frame new_controller_def)
qed

text \<open>C12. The durable log of a run determines its counters: for a controller that any sequence of operations
  produced from a new one, the controller that \<open>restore\<close> builds from its log after a restart has the same run
  state - consumed, reserved and released tokens, the warning flag and the terminal state - so a restart
  neither forgets a charge nor resurrects one, and its released reservations stay released.\<close>

theorem restore_keeps_counters:
  assumes "play ops (new_controller cfg rid [], 0) = Some (b, over)"
  shows "bg_run (restore cfg rid (bg_log b)) = bg_run b"
  by (rule restored_run [OF assms])

section \<open>Committed reservations after a restart\<close>

lemma restore_reservation_map:
  "bg_reservations (restore_reservation b r)
     = AList.update (rs_reservationId r) (r\<lparr>rs_status := RsReserved\<rparr>) (bg_reservations b)"
  by (simp add: restore_reservation_def ensure_restored_def Let_def split: option.split)

lemma restore_record_map: "bg_reservations (foldl restore_record b us) = bg_reservations b"
  by (induction us arbitrary: b) (simp_all add: restore_record_def ensure_restored_def Let_def split: option.split)

lemma restore_reservations_map:
  assumes "distinct (map rs_reservationId rs)"
  shows "map_of (bg_reservations (foldl restore_reservation b rs)) k
     = (case filter (\<lambda>r. rs_reservationId r = k) rs of
          [] \<Rightarrow> map_of (bg_reservations b) k | r # _ \<Rightarrow> Some (r\<lparr>rs_status := RsReserved\<rparr>))"
  using assms
proof (induction rs arbitrary: b)
  case (Cons r rs)
  have "filter (\<lambda>q. rs_reservationId q = rs_reservationId r) rs = []"
    using Cons.prems by (metis (mono_tags, lifting) distinct.simps(2) filter_empty_conv image_eqI list.set_map list.simps(9))
  with Cons show ?case by (auto simp: restore_reservation_map store_simps split: list.split)
qed simp

lemma shown_id: "shown r = Some q \<Longrightarrow> rs_reservationId q = rs_reservationId r"
  by (auto simp: shown_def split: if_splits)

lemma filter_key: "distinct (map f xs) \<Longrightarrow> q \<in> set xs \<Longrightarrow> filter (\<lambda>x. f x = f q) xs = [q]"
proof (induction xs)
  case (Cons x xs)
  have "filter (\<lambda>y. f y = f x) xs = []" using Cons.prems(1) by (simp add: filter_empty_conv image_iff) metis
  moreover have "q \<in> set xs \<Longrightarrow> f x \<noteq> f q" using Cons.prems(1) by (simp add: image_iff)
  ultimately show ?case using Cons by (cases "x = q") auto
qed simp

lemma restored_row:
  assumes m: "mirrored b" and r: "map_of (bg_reservations b) k = Some r" "0 < rs_claimed r" "rs_status r \<noteq> RsCancelled"
  shows "map_of (bg_reservations (restore cfg rid (bg_log b))) k = Some (r\<lparr>rs_status := RsReserved\<rparr>)"
proof -
  let ?m = "rt_reservations (logged b)"
  let ?q = "r\<lparr>rs_status := RsReserved\<rparr>"
  have st: "rs_status r = RsReserved \<or> rs_status r = RsCommitted" and id: "rs_reservationId r = k"
    using m r filed_at by (auto simp: mirrored_def)
  then have "shown r = Some ?q" using r(2) by (auto simp: shown_def)
  then have k: "map_of ?m k = Some ?q" using m r(1) by (simp add: mirrored_def claims_logged_def)
  have d: "distinct (map fst ?m)" using m by (simp add: mirrored_def claims_logged_def)
  have ids: "rs_reservationId (snd p) = fst p" if "p \<in> set ?m" for p
  proof -
    have "map_of ?m (fst p) = Some (snd p)" using that d by simp
    then have "Option.bind (map_of (bg_reservations b) (fst p)) shown = Some (snd p)"
      using m by (simp add: mirrored_def claims_logged_def)
    then obtain y where "map_of (bg_reservations b) (fst p) = Some y" "shown y = Some (snd p)"
      by (auto simp: bind_eq_Some_conv)
    then show ?thesis using m filed_at shown_id by (metis mirrored_def)
  qed
  have key: "map rs_reservationId (reserved_rows ?m) = map fst (filter (\<lambda>p. rs_status (snd p) = RsReserved) ?m)"
    using ids by (simp add: reserved_rows_def)
  have dk: "distinct (map rs_reservationId (reserved_rows ?m))" unfolding key by (rule distinct_map_filter [OF d])
  have q: "?q \<in> set (reserved_rows ?m)" using map_of_SomeD [OF k] by (force simp: reserved_rows_def)
  have "filter (\<lambda>x. rs_reservationId x = k) (reserved_rows ?m) = [?q]"
    using filter_key [OF dk q] id by simp
  then show ?thesis
    using dk by (simp add: restore_def rebuildFromEntries_def Let_def restore_record_map restore_reservations_map logged_def)
qed

text \<open>A restart forgets that a reservation was committed: \<open>rebuildFromEntries\<close> returns every reservation
  whose last entry says reserved, and a commit writes no reservation entry. The running controller refuses to
  cancel a committed reservation; the controller restored from its log accepts, and gives back tokens the run
  no longer holds for it - so its reserved counter falls below the live claims and the run can be
  oversubscribed.\<close>

theorem committed_reservation_revived:
  assumes "play ops (new_controller cfg rid [], 0) = Some (b, over)"
    and "map_of (bg_reservations b) k = Some r" and "rs_status r = RsCommitted" and "0 < rs_claimed r"
  shows "\<not> fst (cancelReservation k b) \<and> fst (cancelReservation k (restore cfg rid (bg_log b)))
     \<and> bn_reserved (bg_run (snd (cancelReservation k (restore cfg rid (bg_log b)))))
        = max 0 (bn_reserved (bg_run b) - rs_claimed r)"
proof -
  have m: "mirrored b" by (rule play_mirrored(1) [OF assms(1)])
  have "map_of (bg_reservations (restore cfg rid (bg_log b))) k = Some (r\<lparr>rs_status := RsReserved\<rparr>)"
    using assms(2-4) by (intro restored_row [OF m]) simp_all
  moreover have "bg_run (restore cfg rid (bg_log b)) = bg_run b"
    using restored_run [OF assms(1)] .
  ultimately show ?thesis using assms(2,3) by (simp add: cancelReservation_def release_run_def)
qed

section \<open>A run at work\<close>

definition sample_config :: budget_config where
  "sample_config = \<lparr>bc_enabled = True, bc_runTotal = 1000, bc_childTotal = 400, bc_warningThreshold = 8 / 10,
     bc_hardStopThreshold = 95 / 100, bc_maxRequestInputTokens = 300, bc_maxRequestOutputTokens = 200\<rparr>"

definition sample_reserve :: "string \<Rightarrow> int \<Rightarrow> reserve_opts" where
  "sample_reserve q n = \<lparr>ro_runId = ''run'', ro_sessionId = ''s'', ro_agentId = ''a'', ro_parentSessionId = None,
     ro_assignmentId = None, ro_requestId = q, ro_attempt = None, ro_estimatedInputTokens = Some n,
     ro_maxOutputTokens = Some 100\<rparr>"

definition sample_commit :: "string \<Rightarrow> string \<Rightarrow> int \<Rightarrow> commit_opts" where
  "sample_commit q k n = \<lparr>cu_runId = ''run'', cu_sessionId = ''s'', cu_agentId = ''a'', cu_parentSessionId = None,
     cu_assignmentId = None, cu_requestId = q, cu_reservationId = Some k, cu_messageId = None, cu_attempt = None,
     cu_usage = \<lparr>ru_input = Some n, ru_output = Some 50, ru_reasoning = None, ru_cacheRead = None, ru_cacheWrite = None\<rparr>,
     cu_terminationReason = None\<rparr>"

definition sample_ops :: "budget_op list" where
  "sample_ops = [OpReserve ''r1'' 1 (sample_reserve ''q1'' 200), OpReserve ''r2'' 2 (sample_reserve ''q2'' 100),
     OpCommit 3 (sample_commit ''q1'' ''r1'' 150)]"

definition sample_end :: "budget \<times> int" where
  "sample_end = the (play sample_ops (new_controller sample_config ''run'' [], 0))"

lemma sample_play: "play sample_ops (new_controller sample_config ''run'' [], 0) = Some (fst sample_end, snd sample_end)"
  by code_simp

lemma sample_values:
  "bn_reserved (bg_run (fst sample_end)) = 200 \<and> bn_consumed (bg_run (fst sample_end)) = 200 \<and> snd sample_end = 0"
  by code_simp

theorem budget_never_oversubscribed_witness:
  "live_claims (fst sample_end) = 200 \<and> (200::int) + 200 \<le> bn_ceiling (bg_run (fst sample_end)) + 0"
  using budget_never_oversubscribed [OF sample_play] sample_values by (simp add: sample_config_def)

theorem restore_keeps_counters_witness:
  "bn_reserved (bg_run (restore sample_config ''run'' (bg_log (fst sample_end)))) = 200"
  using restore_keeps_counters [OF sample_play] sample_values by simp

definition sample_once :: "budget \<times> int" where
  "sample_once = the (play (OpCommit 3 (sample_commit ''q1'' ''r1'' 150) # []) (fst sample_end, 0))"

lemma sample_once_play:
  "play (OpCommit 3 (sample_commit ''q1'' ''r1'' 150) # []) (fst sample_end, 0) = Some (fst sample_once, snd sample_once)"
  by code_simp

theorem commit_once_witness:
  "snd (commitUsage 9 (sample_commit ''q1'' ''r2'' 40) (fst sample_once)) = fst sample_once"
  using commit_once [OF sample_once_play, of "sample_commit ''q1'' ''r2'' 40" 9]
  by (simp add: commit_key_def sample_commit_def)

definition sample_row :: reservation where
  "sample_row = the (map_of (bg_reservations (fst sample_end)) ''r1'')"

lemma sample_row_committed:
  "map_of (bg_reservations (fst sample_end)) ''r1'' = Some sample_row \<and> rs_status sample_row = RsCommitted
     \<and> rs_claimed sample_row = 300"
  by code_simp

theorem committed_reservation_revived_witness:
  "bn_reserved (bg_run (snd (cancelReservation ''r1'' (restore sample_config ''run'' (bg_log (fst sample_end)))))) = 0"
  using committed_reservation_revived [OF sample_play, of "''r1''" sample_row] sample_row_committed sample_values
  by simp

end
