(* ===== verification/Workstreams.thy ===== *)
theory Workstreams
  imports Main Prelude
begin

text \<open>
  The contracts of an execution plan (\<open>orchestration/execution/contracts.ts\<close>): plans and workstreams with
  their tables of legal transitions, ownership claims over paths, the relation of two workstreams, and
  the analysis of dependencies into waves.

  \<open>dt\<close> is the datetime test of the schema library. \<open>collate\<close> is the order of \<open>localeCompare\<close>; \<open>sort\<close>
  without a comparison is the order of the character codes. Upper and lower case is that of ASCII.
\<close>

section \<open>Strings\<close>

definition is_white :: "char \<Rightarrow> bool" where
  "is_white c \<longleftrightarrow> 9 \<le> char_code c \<and> char_code c \<le> 13 \<or> char_code c = 32 \<or> char_code c = 160"

definition trim :: "string \<Rightarrow> string" where
  "trim s = rev (dropWhile is_white (rev (dropWhile is_white s)))"

definition is_alpha :: "char \<Rightarrow> bool" where
  "is_alpha c \<longleftrightarrow> is_lower c \<or> is_upper c"

definition ends_with :: "string \<Rightarrow> string \<Rightarrow> bool" where
  "ends_with s t \<longleftrightarrow> starts_with (rev s) (rev t)"

text \<open>The stable sort by a comparison.\<close>

fun insert_by :: "('a \<Rightarrow> 'a \<Rightarrow> bool) \<Rightarrow> 'a \<Rightarrow> 'a list \<Rightarrow> 'a list" where
  "insert_by le x [] = [x]"
| "insert_by le x (y # ys) = (if le x y then x # y # ys else y # insert_by le x ys)"

definition sort_by :: "('a \<Rightarrow> 'a \<Rightarrow> bool) \<Rightarrow> 'a list \<Rightarrow> 'a list" where
  "sort_by le xs = foldr (insert_by le) xs []"

lemma set_insert_by [simp]: "set (insert_by le x ys) = insert x (set ys)"
  by (induction ys) auto

lemma set_sort_by [simp]: "set (sort_by le xs) = set xs"
  unfolding sort_by_def by (induction xs) simp_all

text \<open>The map of a function that may throw, in order.\<close>

fun traverse :: "('a \<Rightarrow> 'e + 'b) \<Rightarrow> 'a list \<Rightarrow> 'e + 'b list" where
  "traverse f [] = Inr []"
| "traverse f (x # xs) =
     (case f x of Inl e \<Rightarrow> Inl e
      | Inr y \<Rightarrow> (case traverse f xs of Inl e \<Rightarrow> Inl e | Inr ys \<Rightarrow> Inr (y # ys)))"

lemma traverse_Inr: "traverse f xs = Inr ys \<Longrightarrow> x \<in> set xs \<Longrightarrow> \<exists>y \<in> set ys. f x = Inr y"
  by (induction xs arbitrary: ys) (auto split: sum.splits)

lemma traverse_image: "traverse f xs = Inr ys \<Longrightarrow> y \<in> set ys \<Longrightarrow> \<exists>x \<in> set xs. f x = Inr y"
  by (induction xs arbitrary: ys) (auto split: sum.splits)

section \<open>Plans and workstreams\<close>

datatype workstream_status =
    WPlanned | WBlocked | WReady | WRunning | WSucceeded | WFailed | WCancelled | WIntegrationPending
  | WIntegrated | WSuperseded

datatype plan_status = PPlanned | PRunning | PSucceeded | PFailed | PCancelled | PSuperseded

datatype budget_profile = ProfileSmall | ProfileNormal | ProfileAudit | ProfileDeepAudit

datatype context_scope = ScopeOwned | ScopeRelated | ScopeAudit

record workstream =
  w_id :: string
  w_runId :: string
  w_planId :: string
  w_resolvedAgent :: string
  w_requiredCapability :: string
  w_objective :: string
  w_requirements :: "string list"
  w_acceptanceCriteria :: "string list"
  w_ownedPaths :: "string list"
  w_ownedSymbols :: "string list"
  w_dependsOn :: "string list"
  w_strategy :: string
  w_budgetProfile :: budget_profile
  w_contextScope :: context_scope
  w_status :: workstream_status
  w_worktreeRef :: "string option"
  w_branchRef :: "string option"
  w_blockedBy :: "string list"
  w_failureReason :: "string option"
  w_createdAt :: string

record plan =
  p_planId :: string
  p_runId :: string
  p_routingDecisionId :: string
  p_sourceSha :: string
  p_policyVersion :: string
  p_workstreams :: "workstream list"
  p_createdAt :: string
  p_status :: "plan_status option"
  p_startedAt :: "string option"
  p_completedAt :: "string option"

datatype exec_error =
    SchemaInvalid
  | InvalidPlanTransition plan_status plan_status
  | InvalidWorkstreamTransition workstream_status workstream_status
  | OwnershipPathEscape
  | DuplicateWorkstreamId | SelfDependency | DuplicateDependency | UnknownDependency string
  | DuplicateWorkstream | OverlappingOwnership | DependencyCycle | UndefinedWorkstream
  | ExecutionPlanIdMismatch | ExecutionPlanImmutable | ExecutionPlanNotFound | WorkstreamNotFound
  | WorktreeBindingTooLate | WorktreeLeaseConflict | LeaseNotActive | ConstraintViolation
  | IntegrationStatusInvalid | IntegrationAlreadyComplete | IntegrationBaseDrift | IntegrationBranchBaseMismatch
  | OwnershipViolation string | VerificationRequiredBeforeIntegration | ExecutionSourceShaMismatch
  | GitFailed string | UnsafeWorktreeIdentifier | InvalidSourceSha | WorktreeCollision
  | RoutingDecisionRecommendationOnly | RoutingDelegationOwnershipUnresolved | RoutingParallelWorkstreamsUnresolved

text \<open>The schema: lengths of ids, paths and texts, the hexadecimal SHA, and at least one workstream.\<close>

definition schema_text :: "nat \<Rightarrow> string \<Rightarrow> bool" where
  "schema_text n s \<longleftrightarrow> s \<noteq> [] \<and> length s \<le> n"

definition schema_id :: "string \<Rightarrow> bool" where
  "schema_id = schema_text 200"

definition schema_sha :: "string \<Rightarrow> bool" where
  "schema_sha s \<longleftrightarrow> length s = 40
     \<and> list_all (\<lambda>c. is_digit c \<or> 97 \<le> char_code c \<and> char_code c \<le> 102) s"

definition opt_ok :: "('a \<Rightarrow> bool) \<Rightarrow> 'a option \<Rightarrow> bool" where
  "opt_ok P v = (case v of None \<Rightarrow> True | Some x \<Rightarrow> P x)"

definition workstream_schema :: "(string \<Rightarrow> bool) \<Rightarrow> workstream \<Rightarrow> bool" where
  "workstream_schema dt w \<longleftrightarrow>
     schema_id (w_id w) \<and> schema_id (w_runId w) \<and> schema_id (w_planId w) \<and> schema_id (w_resolvedAgent w)
     \<and> schema_id (w_requiredCapability w) \<and> schema_text 5000 (w_objective w)
     \<and> list_all (\<lambda>s. s \<noteq> []) (w_requirements w) \<and> length (w_requirements w) \<le> 100
     \<and> list_all (\<lambda>s. s \<noteq> []) (w_acceptanceCriteria w) \<and> length (w_acceptanceCriteria w) \<le> 100
     \<and> list_all (schema_text 500) (w_ownedPaths w) \<and> length (w_ownedPaths w) \<le> 200
     \<and> list_all schema_id (w_ownedSymbols w) \<and> length (w_ownedSymbols w) \<le> 200
     \<and> list_all schema_id (w_dependsOn w) \<and> length (w_dependsOn w) \<le> 100
     \<and> schema_id (w_strategy w) \<and> opt_ok schema_id (w_worktreeRef w) \<and> opt_ok schema_id (w_branchRef w)
     \<and> list_all schema_id (w_blockedBy w) \<and> opt_ok (\<lambda>s. length s \<le> 1000) (w_failureReason w)
     \<and> dt (w_createdAt w)"

definition plan_schema :: "(string \<Rightarrow> bool) \<Rightarrow> plan \<Rightarrow> bool" where
  "plan_schema dt p \<longleftrightarrow>
     schema_id (p_planId p) \<and> schema_id (p_runId p) \<and> schema_id (p_routingDecisionId p)
     \<and> schema_sha (p_sourceSha p) \<and> schema_id (p_policyVersion p)
     \<and> list_all (workstream_schema dt) (p_workstreams p) \<and> p_workstreams p \<noteq> []
     \<and> dt (p_createdAt p) \<and> opt_ok dt (p_startedAt p) \<and> opt_ok dt (p_completedAt p)"

section \<open>Transitions\<close>

fun workstream_transitions :: "workstream_status \<Rightarrow> workstream_status list" where
  "workstream_transitions WPlanned = [WBlocked, WReady, WCancelled, WSuperseded]"
| "workstream_transitions WBlocked = [WReady, WCancelled, WSuperseded]"
| "workstream_transitions WReady = [WRunning, WCancelled, WSuperseded]"
| "workstream_transitions WRunning = [WReady, WSucceeded, WFailed, WCancelled, WIntegrationPending]"
| "workstream_transitions WSucceeded = [WIntegrationPending, WSuperseded]"
| "workstream_transitions WFailed = [WSuperseded]"
| "workstream_transitions WCancelled = [WSuperseded]"
| "workstream_transitions WIntegrationPending = [WIntegrated, WFailed, WCancelled]"
| "workstream_transitions WIntegrated = [WSuperseded]"
| "workstream_transitions WSuperseded = []"

fun plan_transitions :: "plan_status \<Rightarrow> plan_status list" where
  "plan_transitions PPlanned = [PRunning, PCancelled, PSuperseded]"
| "plan_transitions PRunning = [PSucceeded, PFailed, PCancelled, PSuperseded]"
| "plan_transitions PSucceeded = [PSuperseded]"
| "plan_transitions PFailed = [PSuperseded]"
| "plan_transitions PCancelled = [PSuperseded]"
| "plan_transitions PSuperseded = []"

definition assertPlanTransition :: "plan_status \<Rightarrow> plan_status \<Rightarrow> exec_error + unit" where
  "assertPlanTransition from to' =
     (if to' \<in> set (plan_transitions from) then Inr () else Inl (InvalidPlanTransition from to'))"

definition assertWorkstreamTransition :: "workstream_status \<Rightarrow> workstream_status \<Rightarrow> exec_error + unit" where
  "assertWorkstreamTransition from to' =
     (if to' \<in> set (workstream_transitions from) then Inr () else Inl (InvalidWorkstreamTransition from to'))"

section \<open>Ownership of paths\<close>

definition slash :: char where "slash = CHR ''/''"

text \<open>\<open>replaceAll("\\", "/")\<close>, \<open>replace(/^\.\//, "")\<close>, \<open>replace(/\/+/g, "/")\<close>, \<open>replace(/\/$/, "")\<close>.\<close>

definition forward_slashes :: "string \<Rightarrow> string" where
  "forward_slashes s = map (\<lambda>c. if char_code c = 92 then slash else c) s"

definition drop_dot :: "string \<Rightarrow> string" where
  "drop_dot s = (if starts_with s ''./'' then drop 2 s else s)"

fun squeeze :: "string \<Rightarrow> string" where
  "squeeze (a # b # s) = (if a = slash \<and> b = slash then squeeze (b # s) else a # squeeze (b # s))"
| "squeeze s = s"

definition drop_last_slash :: "string \<Rightarrow> string" where
  "drop_last_slash s = (if s \<noteq> [] \<and> last s = slash then butlast s else s)"

definition normal_path :: "string \<Rightarrow> string" where
  "normal_path s = drop_last_slash (squeeze (drop_dot (forward_slashes s)))"

definition escapes :: "string \<Rightarrow> bool" where
  "escapes p \<longleftrightarrow> p = [] \<or> list_ex (\<lambda>c. char_code c = 0) p \<or> starts_with p ''../'' \<or> p = ''..''
     \<or> starts_with p ''/'' \<or> (\<exists>c \<in> set (take 1 p). is_alpha c \<and> starts_with (drop 1 p) '':/'')"

definition normalizeOwnership :: "string list \<Rightarrow> exec_error + string list" where
  "normalizeOwnership paths =
     (let normalized = map normal_path paths
      in if list_ex escapes normalized then Inl OwnershipPathEscape else Inr (sort (js_unique normalized)))"

definition ownershipClaimMatchesPath :: "string \<Rightarrow> string \<Rightarrow> bool \<Rightarrow> bool" where
  "ownershipClaimMatchesPath path claim descendants =
     (let candidate = normal_path path; c = normal_path claim in
      if c = ''.'' \<or> c = ''**'' then candidate \<noteq> []
      else if ends_with c ''/**'' then
        starts_with candidate (drop_last_slash (take (length c - 3) c) @ ''/'')
      else if ends_with c ''/*'' then
        (let prefix = drop_last_slash (take (length c - 2) c)
         in starts_with candidate (prefix @ ''/'') \<and> slash \<notin> set (drop (length prefix + 1) candidate))
      else candidate = c \<or> descendants \<and> starts_with candidate (c @ ''/''))"

definition ownershipOverlaps :: "string list \<Rightarrow> string list \<Rightarrow> exec_error + bool" where
  "ownershipOverlaps a b =
     (case normalizeOwnership a of
        Inl e \<Rightarrow> Inl e
      | Inr [] \<Rightarrow> Inr False
      | Inr ls \<Rightarrow>
          (case normalizeOwnership b of
             Inl e \<Rightarrow> Inl e
           | Inr rs \<Rightarrow> Inr (list_ex (\<lambda>l. list_ex (\<lambda>r. ownershipClaimMatchesPath l r True
                                  \<or> ownershipClaimMatchesPath r l True) rs) ls)))"

text \<open>\<open>pathOwnedBy\<close> of the integration service, which normalises once more.\<close>

definition pathOwnedBy :: "string \<Rightarrow> string \<Rightarrow> bool" where
  "pathOwnedBy path owner = ownershipClaimMatchesPath (normal_path path) (normal_path owner) False"

section \<open>Relations of workstreams\<close>

datatype workstream_relation = Independent | Related | Overlapping | Duplicate | Conflicting

record relation_diagnostic =
  rd_left :: string
  rd_right :: string
  rd_relation :: workstream_relation
  rd_evidence :: "string list"

definition canonical_text :: "string list \<Rightarrow> string" where
  "canonical_text values = join ''|'' (sort (js_unique (map (\<lambda>v. lower_case (trim v)) values)))"

definition classify_pair :: "workstream \<Rightarrow> workstream \<Rightarrow> exec_error + relation_diagnostic" where
  "classify_pair l r =
     (case ownershipOverlaps (w_ownedPaths l) (w_ownedPaths r) of
        Inl e \<Rightarrow> Inl e
      | Inr ownership \<Rightarrow>
          let equivalent = canonical_text (w_ownedPaths l) = canonical_text (w_ownedPaths r);
              objective = lower_case (trim (w_objective l)) = lower_case (trim (w_objective r));
              requirements = canonical_text (w_requirements l) = canonical_text (w_requirements r);
              acceptance = canonical_text (w_acceptanceCriteria l) = canonical_text (w_acceptanceCriteria r)
          in Inr \<lparr>rd_left = w_id l, rd_right = w_id r,
                  rd_relation =
                    (if ownership then if equivalent \<and> objective \<and> requirements \<and> acceptance then Duplicate
                                       else Overlapping
                     else if objective \<or> requirements \<or> acceptance then Related else Independent),
                  rd_evidence = (if ownership then [''ownership_overlap''] else [])
                    @ (if objective then [''same_objective''] else [])
                    @ (if requirements then [''same_requirements''] else [])
                    @ (if acceptance then [''same_acceptance_criteria''] else [])\<rparr>)"

fun pairs :: "'a list \<Rightarrow> ('a \<times> 'a) list" where
  "pairs [] = []"
| "pairs (x # xs) = map (Pair x) xs @ pairs xs"

definition classifyWorkstreamRelations ::
    "(string \<Rightarrow> string \<Rightarrow> bool) \<Rightarrow> plan \<Rightarrow> exec_error + relation_diagnostic list" where
  "classifyWorkstreamRelations collate p =
     map_sum id (sort_by (\<lambda>a b. collate (rd_left a @ '':'' @ rd_right a) (rd_left b @ '':'' @ rd_right b)))
       (traverse (\<lambda>(l, r). classify_pair l r) (pairs (p_workstreams p)))"

section \<open>The analysis of dependencies\<close>

text \<open>The checks of one workstream against the ids of the plan, in the order of its dependencies.\<close>

fun check_dependencies :: "string list \<Rightarrow> string \<Rightarrow> string list \<Rightarrow> string list \<Rightarrow> exec_error + unit" where
  "check_dependencies ids w seen [] = Inr ()"
| "check_dependencies ids w seen (d # ds) =
     (if d = w then Inl SelfDependency
      else if d \<in> set seen then Inl DuplicateDependency
      else if d \<notin> set ids then Inl (UnknownDependency d)
      else check_dependencies ids w (d # seen) ds)"

fun first_conflict :: "(workstream \<times> workstream) list \<Rightarrow> relation_diagnostic list \<Rightarrow> exec_error option" where
  "first_conflict [] rel = None"
| "first_conflict ((l, r) # ps) rel =
     (case map_option rd_relation (List.find (\<lambda>d. rd_left d = w_id l \<and> rd_right d = w_id r) rel) of
        Some Duplicate \<Rightarrow> Some DuplicateWorkstream
      | Some Overlapping \<Rightarrow> Some OverlappingOwnership
      | _ \<Rightarrow> first_conflict ps rel)"

text \<open>Every nested visit has one id of the plan more on its chain.\<close>

definition unvisited :: "(string \<times> string list) list \<Rightarrow> string list \<Rightarrow> nat" where
  "unvisited g visiting = card (fst ` set g - set visiting)"

lemma unvisited_less: "i \<notin> set visiting \<Longrightarrow> map_of g i = Some ds \<Longrightarrow> unvisited g (i # visiting) < unvisited g visiting"
proof -
  assume "i \<notin> set visiting" "map_of g i = Some ds"
  then have "i \<in> fst ` set g - set visiting" by (force dest: map_of_SomeD)
  then have "fst ` set g - set (i # visiting) \<subset> fst ` set g - set visiting" by auto
  then show ?thesis unfolding unvisited_def by (rule psubset_card_mono [rotated]) simp
qed

text \<open>
  The search of \<open>analyzeDependencies\<close>. \<open>g\<close> maps a workstream to its dependencies, \<open>visiting\<close> is the chain of
  calls (a call removes its id when it returns), and the ids in \<open>depth\<close> are the visited ones.
\<close>

function (sequential) visit :: "(string \<times> string list) list \<Rightarrow> string list \<Rightarrow> (string \<times> nat) list \<Rightarrow> string
      \<Rightarrow> exec_error + nat \<times> (string \<times> nat) list"
  and visit_each :: "(string \<times> string list) list \<Rightarrow> string list \<Rightarrow> (string \<times> nat) list \<Rightarrow> string list
      \<Rightarrow> exec_error + nat list \<times> (string \<times> nat) list" where
  "visit g visiting depth i =
     (if i \<in> set visiting then Inl DependencyCycle
      else case map_of depth i of Some d \<Rightarrow> Inr (d, depth)
      | None \<Rightarrow>
          (case map_of g i of None \<Rightarrow> Inl UndefinedWorkstream
           | Some deps \<Rightarrow>
               (case visit_each g (i # visiting) depth deps of
                  Inl e \<Rightarrow> Inl e
                | Inr (ds, depth') \<Rightarrow>
                    let d = (if ds = [] then 0 else Suc (Max (set ds))) in Inr (d, AList.update i d depth'))))"
| "visit_each g visiting depth [] = Inr ([], depth)"
| "visit_each g visiting depth (i # is) =
     (case visit g visiting depth i of
        Inl e \<Rightarrow> Inl e
      | Inr (d, depth') \<Rightarrow> map_sum id (\<lambda>(ds, depth''). (d # ds, depth'')) (visit_each g visiting depth' is))"
  by pat_completeness auto

termination
  by (relation "inv_image (less_than <*lex*> less_than)
        (\<lambda>x. case x of Inl (g, v, _, _) \<Rightarrow> (unvisited g v, 0) | Inr (g, v, _, is) \<Rightarrow> (unvisited g v, Suc (length is)))")
    (auto simp: unvisited_less)

record wave =
  wv_index :: nat
  wv_ids :: "string list"

record dependency_diagnostics =
  dd_waves :: "wave list"
  dd_ready :: "string list"
  dd_blocked :: "string list"
  dd_criticalPath :: "string list"

definition dependency_map :: "plan \<Rightarrow> (string \<times> string list) list" where
  "dependency_map p = map (\<lambda>w. (w_id w, w_dependsOn w)) (p_workstreams p)"

definition depth_of :: "(string \<times> nat) list \<Rightarrow> workstream \<Rightarrow> nat" where
  "depth_of depth w = (case map_of depth (w_id w) of None \<Rightarrow> 0 | Some d \<Rightarrow> d)"

definition waves_of :: "(string \<times> nat) list \<Rightarrow> workstream list \<Rightarrow> wave list" where
  "waves_of depth ws =
     map (\<lambda>i. \<lparr>wv_index = i, wv_ids = sort (map w_id (filter (\<lambda>w. map_of depth (w_id w) = Some i) ws))\<rparr>)
       (sort (js_unique (map snd depth)))"

definition diagnostics ::
    "(string \<Rightarrow> string \<Rightarrow> bool) \<Rightarrow> (string \<times> nat) list \<Rightarrow> workstream list \<Rightarrow> dependency_diagnostics" where
  "diagnostics collate depth ws =
     (let failed = map w_id (filter (\<lambda>w. w_status w = WFailed) ws);
          hit = (\<lambda>w. list_ex (\<lambda>d. d \<in> set failed) (w_dependsOn w))
      in \<lparr>dd_waves = waves_of depth ws,
          dd_ready = sort (map w_id (filter (\<lambda>w. (w_status w = WPlanned \<or> w_status w = WReady) \<and> \<not> hit w) ws)),
          dd_blocked = sort (map w_id (filter hit ws)),
          dd_criticalPath = map w_id (sort_by (\<lambda>a b. depth_of depth b < depth_of depth a
              \<or> depth_of depth b = depth_of depth a \<and> collate (w_id a) (w_id b)) ws)\<rparr>)"

definition analyzeDependencies ::
    "(string \<Rightarrow> bool) \<Rightarrow> (string \<Rightarrow> string \<Rightarrow> bool) \<Rightarrow> plan \<Rightarrow> exec_error + dependency_diagnostics" where
  "analyzeDependencies dt collate p =
     (let ws = p_workstreams p; ids = map w_id ws in
      if \<not> plan_schema dt p then Inl SchemaInvalid
      else if \<not> distinct ids then Inl DuplicateWorkstreamId
      else
        case traverse (\<lambda>w. check_dependencies ids (w_id w) [] (w_dependsOn w)) ws of
          Inl e \<Rightarrow> Inl e
        | Inr _ \<Rightarrow>
            (case classifyWorkstreamRelations collate p of
               Inl e \<Rightarrow> Inl e
             | Inr rel \<Rightarrow>
                 (case first_conflict (pairs ws) rel of
                    Some e \<Rightarrow> Inl e
                  | None \<Rightarrow>
                      (case visit_each (dependency_map p) [] [] ids of
                         Inl e \<Rightarrow> Inl e
                       | Inr (_, depth) \<Rightarrow> Inr (diagnostics collate depth ws)))))"

end
