(* ===== verification/Dependencies.thy ===== *)
theory Dependencies
  imports Workstreams
begin

text \<open>
  The analysis of dependencies is exact: it accepts a graph if and only if it has no cycle, and the depth
  it computes for a workstream is one more than the greatest depth of its dependencies. The depth is
  therefore a rank of the dependency relation, which is why an accepted graph has no cycle.
\<close>

section \<open>The relation and its ranks\<close>

definition depends :: "(string \<times> string list) list \<Rightarrow> (string \<times> string) set" where
  "depends g = {(a, b). \<exists>ds. map_of g a = Some ds \<and> b \<in> set ds}"

definition closed_graph :: "(string \<times> string list) list \<Rightarrow> bool" where
  "closed_graph g \<longleftrightarrow> (\<forall>a ds. map_of g a = Some ds \<longrightarrow> (\<forall>b \<in> set ds. map_of g b \<noteq> None))"

definition ranked :: "(string \<times> string list) list \<Rightarrow> (string \<times> nat) list \<Rightarrow> bool" where
  "ranked g depth \<longleftrightarrow>
     (\<forall>i d. map_of depth i = Some d \<longrightarrow>
        (\<exists>ds. map_of g i = Some ds \<and> (\<forall>j \<in> set ds. map_of depth j \<noteq> None)
              \<and> d = (if ds = [] then 0 else Suc (Max ((\<lambda>j. the (map_of depth j)) ` set ds)))))"

lemma ranked_value:
  assumes "ranked g depth" and "map_of depth i = Some d" and "map_of g i = Some ds"
  shows "d = (if ds = [] then 0 else Suc (Max ((\<lambda>j. the (map_of depth j)) ` set ds)))"
proof -
  obtain ds' where "map_of g i = Some ds'" "d = (if ds' = [] then 0 else Suc (Max ((\<lambda>j. the (map_of depth j)) ` set ds')))"
    using assms(1,2) unfolding ranked_def by blast
  then show ?thesis using assms(3) by simp
qed

lemma ranked_edge:
  assumes "ranked g depth" and "map_of depth i = Some d" and "(i, j) \<in> depends g"
  shows "\<exists>e. map_of depth j = Some e \<and> e < d"
proof -
  obtain ds where ds: "map_of g i = Some ds" "\<forall>j \<in> set ds. map_of depth j \<noteq> None"
    "d = (if ds = [] then 0 else Suc (Max ((\<lambda>j. the (map_of depth j)) ` set ds)))"
    using assms(1,2) unfolding ranked_def by blast
  have j: "j \<in> set ds" using assms(3) ds(1) by (auto simp: depends_def)
  then obtain e where e: "map_of depth j = Some e" using ds(2) by auto
  have "e \<le> Max ((\<lambda>j. the (map_of depth j)) ` set ds)" using j e by (intro Max_ge) (auto intro!: rev_image_eqI)
  then show ?thesis using e ds(3) j by auto
qed

lemma ranked_path:
  assumes "ranked g depth" and "(i, j) \<in> (depends g)\<^sup>+" and "map_of depth i = Some d"
  shows "\<exists>e. map_of depth j = Some e \<and> e < d"
  using assms(2)
proof (induction rule: trancl_induct)
  case (base y) then show ?case using ranked_edge [OF assms(1,3)] by blast
next
  case (step y z) then show ?case using ranked_edge [OF assms(1)] by (meson less_trans)
qed

lemma ranked_acyclic:
  assumes "ranked g depth" and "\<And>i. map_of g i \<noteq> None \<Longrightarrow> map_of depth i \<noteq> None"
  shows "acyclic (depends g)"
proof (rule acyclicI, rule allI, rule notI)
  fix i
  assume c: "(i, i) \<in> (depends g)\<^sup>+"
  then have "map_of g i \<noteq> None" by (auto simp: depends_def dest!: tranclD)
  then obtain d where d: "map_of depth i = Some d" using assms(2) by blast
  from ranked_path [OF assms(1) c d] d show False by auto
qed

section \<open>What a visit does\<close>

lemma lookup_all:
  "map (map_of m) is = map Some ds \<Longrightarrow> (\<forall>j \<in> set is. map_of m j \<noteq> None)"
  "map (map_of m) is = map Some ds \<Longrightarrow> (\<lambda>j. the (map_of m j)) ` set is = set ds"
  "map (map_of m) is = map Some ds \<Longrightarrow> (is = []) = (ds = [])"
proof -
  assume a: "map (map_of m) is = map Some ds"
  have "length is = length ds" using map_eq_imp_length_eq [OF a] .
  then have "(\<forall>j \<in> set is. map_of m j \<noteq> None) \<and> (\<lambda>j. the (map_of m j)) ` set is = set ds \<and> (is = []) = (ds = [])"
    using a by (induction "is" ds rule: list_induct2) auto
  then show "\<forall>j \<in> set is. map_of m j \<noteq> None" "(\<lambda>j. the (map_of m j)) ` set is = set ds" "(is = []) = (ds = [])"
    by blast+
qed

lemma ranked_extend:
  assumes r: "ranked g depth" and i: "map_of g i = Some deps" "map_of depth i = None"
    and ds: "map (map_of depth) deps = map Some ds"
  shows "ranked g (AList.update i (if ds = [] then 0 else Suc (Max (set ds))) depth)"
proof -
  define v where "v = (if ds = [] then 0 else Suc (Max (set ds)))"
  note known = lookup_all(1) [OF ds] and vals = lookup_all(2) [OF ds] and nil = lookup_all(3) [OF ds]
  have self: "i \<notin> set deps" using known i(2) by blast
  have keep: "(\<lambda>j. the (map_of (AList.update i v depth) j)) ` set js = (\<lambda>j. the (map_of depth j)) ` set js"
    "(\<forall>j \<in> set js. map_of depth j \<noteq> None) \<Longrightarrow> (\<forall>j \<in> set js. map_of (AList.update i v depth) j \<noteq> None)"
    if "i \<notin> set js" for js
    using that by (intro image_cong) (auto simp: store_simps)
  have "\<exists>ds'. map_of g k = Some ds' \<and> (\<forall>j \<in> set ds'. map_of (AList.update i v depth) j \<noteq> None)
         \<and> e = (if ds' = [] then 0 else Suc (Max ((\<lambda>j. the (map_of (AList.update i v depth) j)) ` set ds')))"
    if e: "map_of (AList.update i v depth) k = Some e" for k e
  proof (cases "k = i")
    case True
    have "e = v" using e True by (simp add: store_simps)
    then have "e = (if deps = [] then 0 else Suc (Max (set ds)))" using nil by (simp add: v_def)
    then show ?thesis using True i(1) keep [OF self] known vals by simp
  next
    case False
    then have "map_of depth k = Some e" using e by (simp add: store_simps)
    then obtain ds' where ds': "map_of g k = Some ds'" "\<forall>j \<in> set ds'. map_of depth j \<noteq> None"
      "e = (if ds' = [] then 0 else Suc (Max ((\<lambda>j. the (map_of depth j)) ` set ds')))"
      using r unfolding ranked_def by blast
    have "i \<notin> set ds'" using ds'(2) i(2) by blast
    from keep [OF this] ds' show ?thesis by simp
  qed
  then show ?thesis unfolding ranked_def v_def by blast
qed

definition outside :: "string list \<Rightarrow> (string \<times> nat) list \<Rightarrow> bool" where
  "outside visiting depth \<longleftrightarrow> (\<forall>i \<in> set visiting. map_of depth i = None)"

definition extends :: "(string \<times> nat) list \<Rightarrow> (string \<times> nat) list \<Rightarrow> bool" where
  "extends depth depth' \<longleftrightarrow> (\<forall>i d. map_of depth i = Some d \<longrightarrow> map_of depth' i = Some d)"

lemma visit_ranks:
  "ranked g depth \<Longrightarrow> outside visiting depth \<Longrightarrow> visit g visiting depth i = Inr (d, depth') \<Longrightarrow>
     ranked g depth' \<and> outside visiting depth' \<and> extends depth depth' \<and> map_of depth' i = Some d"
  "ranked g depth \<Longrightarrow> outside visiting depth \<Longrightarrow> visit_each g visiting depth is = Inr (ds, depth') \<Longrightarrow>
     ranked g depth' \<and> outside visiting depth' \<and> extends depth depth' \<and> map (map_of depth') is = map Some ds"
proof (induction g visiting depth i and g visiting depth "is" arbitrary: d depth' and ds depth' rule: visit_visit_each.induct)
  case (1 g visiting depth i)
  show ?case
  proof (cases "map_of depth i")
    case (Some e)
    then show ?thesis using 1(2-4) by (auto simp: extends_def split: if_splits)
  next
    case None
    note i = 1(4) None
    from i obtain deps ds depth1 where v: "i \<notin> set visiting" "map_of g i = Some deps"
      "visit_each g (i # visiting) depth deps = Inr (ds, depth1)"
      and d: "d = (if ds = [] then 0 else Suc (Max (set ds)))" "depth' = AList.update i d depth1"
      by (auto simp: Let_def split: if_splits option.splits sum.splits prod.splits)
    have "outside (i # visiting) depth" using 1(3) None by (simp add: outside_def)
    then have IH: "ranked g depth1" "outside (i # visiting) depth1" "extends depth depth1"
      "map (map_of depth1) deps = map Some ds"
      using 1(1) [OF v(1) None v(2) 1(2) _ v(3)] by simp_all
    then have none: "map_of depth1 i = None" by (simp add: outside_def)
    have "ranked g depth'" using ranked_extend [OF IH(1) v(2) none IH(4)] d by simp
    moreover have "outside visiting depth'" using IH(2) v(1) d by (auto simp: outside_def store_simps)
    moreover have "extends depth depth'" using IH(3) None d by (auto simp: extends_def store_simps)
    ultimately show ?thesis using d by (simp add: store_simps)
  qed
next
  case (2 g visiting depth)
  then show ?case by (simp add: extends_def)
next
  case (3 g visiting depth i "is")
  from 3(5) obtain d1 depth1 ds1 where v: "visit g visiting depth i = Inr (d1, depth1)"
    "visit_each g visiting depth1 is = Inr (ds1, depth')" and ds: "ds = d1 # ds1"
    by (auto simp: map_sum_def split: sum.splits prod.splits)
  note a = 3(1) [OF 3(3,4) v(1)]
  have b: "ranked g depth' \<and> outside visiting depth' \<and> extends depth1 depth' \<and> map (map_of depth') is = map Some ds1"
    using 3(2) [OF v(1) refl _ _ v(2)] a by simp
  then have "map_of depth' i = Some d1" using a by (auto simp: extends_def)
  then show ?case using a b ds by (auto simp: extends_def)
qed

text \<open>A refusal comes from a cycle, as long as every dependency is a workstream of the plan.\<close>

lemma depends_path: "map_of g i = Some ds \<Longrightarrow> j \<in> set ds \<Longrightarrow> (k, i) \<in> (depends g)\<^sup>+ \<Longrightarrow> (k, j) \<in> (depends g)\<^sup>+"
  by (rule trancl_into_trancl) (auto simp: depends_def)

lemma visit_refuses:
  "closed_graph g \<Longrightarrow> map_of g i \<noteq> None \<Longrightarrow> \<forall>k \<in> set visiting. (k, i) \<in> (depends g)\<^sup>+
     \<Longrightarrow> visit g visiting depth i = Inl e \<Longrightarrow> e = DependencyCycle \<and> \<not> acyclic (depends g)"
  "closed_graph g \<Longrightarrow> \<forall>i \<in> set is. map_of g i \<noteq> None \<Longrightarrow> \<forall>i \<in> set is. \<forall>k \<in> set visiting. (k, i) \<in> (depends g)\<^sup>+
     \<Longrightarrow> visit_each g visiting depth is = Inl e \<Longrightarrow> e = DependencyCycle \<and> \<not> acyclic (depends g)"
proof (induction g visiting depth i and g visiting depth "is" rule: visit_visit_each.induct)
  case (1 g visiting depth i)
  show ?case
  proof (cases "i \<in> set visiting")
    case True
    then have "(i, i) \<in> (depends g)\<^sup>+" using 1(4) by blast
    then show ?thesis using True 1(5) by (auto simp: acyclic_def)
  next
    case False
    obtain deps where deps: "map_of g i = Some deps" using 1(3) by blast
    have none: "map_of depth i = None" using 1(5) False by (cases "map_of depth i") simp_all
    then have v: "visit_each g (i # visiting) depth deps = Inl e"
      using 1(5) False deps by (auto simp: Let_def split: sum.splits)
    have "\<forall>j \<in> set deps. map_of g j \<noteq> None" using 1(2) deps unfolding closed_graph_def by blast
    moreover have "(k, j) \<in> (depends g)\<^sup>+" if "j \<in> set deps" "k \<in> set (i # visiting)" for j k
    proof (cases "k = i")
      case True then show ?thesis using that(1) deps by (auto simp: depends_def)
    next
      case False then show ?thesis using that 1(4) depends_path [OF deps that(1)] by simp
    qed
    ultimately show ?thesis using 1(1) [OF False none deps 1(2) _ _ v] by blast
  qed
next
  case (2 g visiting depth)
  then show ?case by simp
next
  case (3 g visiting depth i "is")
  show ?case
  proof (cases "visit g visiting depth i")
    case (Inl e')
    then have "e = e'" using 3(6) by simp
    then show ?thesis using 3(1) [OF 3(3) _ _ ] 3(4,5) Inl by simp
  next
    case (Inr q)
    obtain d depth1 where q: "q = (d, depth1)" by (cases q)
    then have "visit_each g visiting depth1 is = Inl e"
      using 3(6) Inr by (auto simp: map_sum_def split: sum.splits)
    then show ?thesis using 3(2) [OF _ q [symmetric] 3(3)] 3(4,5) Inr q by simp
  qed
qed

text \<open>Both directions, for the search over all workstreams.\<close>

lemma search_exact:
  assumes "closed_graph g" and "set is = dom (map_of g)"
  shows "(\<exists>ds depth. visit_each g [] [] is = Inr (ds, depth)) \<longleftrightarrow> acyclic (depends g)"
proof
  assume "\<exists>ds depth. visit_each g [] [] is = Inr (ds, depth)"
  then obtain ds depth where v: "visit_each g [] [] is = Inr (ds, depth)" by blast
  have "ranked g depth \<and> map (map_of depth) is = map Some ds"
    using visit_ranks(2) [OF _ _ v] by (simp add: ranked_def outside_def)
  then show "acyclic (depends g)"
    using ranked_acyclic [of g depth] lookup_all(1) [of depth "is" ds] assms(2) by blast
next
  assume a: "acyclic (depends g)"
  have "visit_each g [] [] is \<noteq> Inl e" for e
    using visit_refuses(2) [OF assms(1), of "is" "[]" "[]" e] a assms(2) by auto
  then show "\<exists>ds depth. visit_each g [] [] is = Inr (ds, depth)"
    by (cases "visit_each g [] [] is") auto
qed

section \<open>The checks before the search\<close>

lemma check_dependencies_ok:
  "check_dependencies ids w seen ds = Inr () \<longleftrightarrow>
     w \<notin> set ds \<and> distinct ds \<and> set ds \<inter> set seen = {} \<and> set ds \<subseteq> set ids"
  by (induction ids w seen ds rule: check_dependencies.induct) auto

lemma traverse_all: "(\<exists>ys. traverse f xs = Inr ys) \<longleftrightarrow> (\<forall>x \<in> set xs. \<exists>y. f x = Inr y)"
  by (induction xs) (auto split: sum.splits)

definition dependencies_listed :: "plan \<Rightarrow> bool" where
  "dependencies_listed p \<longleftrightarrow>
     (\<forall>w \<in> set (p_workstreams p). w_id w \<notin> set (w_dependsOn w) \<and> distinct (w_dependsOn w)
        \<and> set (w_dependsOn w) \<subseteq> w_id ` set (p_workstreams p))"

lemma pairs_mem: "(l, r) \<in> set (pairs xs) \<Longrightarrow> l \<in> set xs \<and> r \<in> set xs"
  by (induction xs) auto

lemma pairs_distinct: "distinct (map f xs) \<Longrightarrow> (l, r) \<in> set (pairs xs) \<Longrightarrow> f l \<noteq> f r"
proof (induction xs)
  case (Cons x xs)
  then consider "l = x" "r \<in> set xs" | "(l, r) \<in> set (pairs xs)" by auto
  then show ?case
  proof cases
    case 1
    then show ?thesis using Cons.prems(1) by (metis distinct.simps(2) image_eqI list.set_map list.simps(9))
  next
    case 2
    then show ?thesis using Cons by simp
  qed
qed simp

text \<open>No two workstreams claim a common path.\<close>

definition ownership_disjoint :: "plan \<Rightarrow> bool" where
  "ownership_disjoint p \<longleftrightarrow>
     (\<forall>(l, r) \<in> set (pairs (p_workstreams p)). ownershipOverlaps (w_ownedPaths l) (w_ownedPaths r) = Inr False)"

lemma classify_pair_sel:
  assumes "classify_pair l r = Inr d"
  shows "rd_left d = w_id l" "rd_right d = w_id r"
    "(rd_relation d = Duplicate \<or> rd_relation d = Overlapping)
       \<longleftrightarrow> ownershipOverlaps (w_ownedPaths l) (w_ownedPaths r) \<noteq> Inr False"
  using assms by (auto simp: classify_pair_def Let_def split: sum.splits if_splits)

lemma first_conflict_None:
  "first_conflict ps rel = None \<longleftrightarrow>
     (\<forall>(l, r) \<in> set ps. \<forall>d. List.find (\<lambda>d. rd_left d = w_id l \<and> rd_right d = w_id r) rel = Some d \<longrightarrow>
        rd_relation d \<noteq> Duplicate \<and> rd_relation d \<noteq> Overlapping)"
  by (induction ps rel rule: first_conflict.induct) (auto split: option.splits workstream_relation.splits)

lemma classify_Inr:
  assumes "classifyWorkstreamRelations collate p = Inr rel"
  shows "\<exists>ds. traverse (\<lambda>(l, r). classify_pair l r) (pairs (p_workstreams p)) = Inr ds \<and> set rel = set ds"
proof (cases "traverse (\<lambda>(l, r). classify_pair l r) (pairs (p_workstreams p))")
  case (Inr ds)
  then have "set rel = set ds" using assms by (auto simp: classifyWorkstreamRelations_def)
  then show ?thesis using Inr by blast
qed (use assms in \<open>simp add: classifyWorkstreamRelations_def\<close>)

lemma relations_ok:
  assumes d: "distinct (map w_id (p_workstreams p))"
  shows "(\<exists>rel. classifyWorkstreamRelations collate p = Inr rel \<and> first_conflict (pairs (p_workstreams p)) rel = None)
     \<longleftrightarrow> ownership_disjoint p"
proof -
  let ?ps = "pairs (p_workstreams p)" and ?f = "\<lambda>(l, r). classify_pair l r"
  have same: "l' = l \<and> r' = r" if "(l, r) \<in> set ?ps" "(l', r') \<in> set ?ps" "w_id l' = w_id l" "w_id r' = w_id r" for l r l' r'
    using that d pairs_mem by (metis distinct_map inj_on_def)
  show ?thesis
  proof
    assume "\<exists>rel. classifyWorkstreamRelations collate p = Inr rel \<and> first_conflict ?ps rel = None"
    then obtain rel ds where rel: "traverse ?f ?ps = Inr ds" "set rel = set ds" "first_conflict ?ps rel = None"
      using classify_Inr by blast
    have "ownershipOverlaps (w_ownedPaths l) (w_ownedPaths r) = Inr False" if lr: "(l, r) \<in> set ?ps" for l r
    proof -
      from traverse_Inr [OF rel(1) lr] obtain x where x: "x \<in> set rel" "classify_pair l r = Inr x" using rel(2) by auto
      then obtain y where y: "List.find (\<lambda>d. rd_left d = w_id l \<and> rd_right d = w_id r) rel = Some y"
        using classify_pair_sel(1,2) [OF x(2)] by (cases "List.find (\<lambda>d. rd_left d = w_id l \<and> rd_right d = w_id r) rel")
          (auto simp: find_None_iff_all)
      then have "y \<in> set ds" "rd_left y = w_id l" "rd_right y = w_id r" using find_SomeD [OF y] rel(2) by auto
      then obtain l' r' where l': "(l', r') \<in> set ?ps" "classify_pair l' r' = Inr y"
        using traverse_image [OF rel(1)] by fastforce
      then have "l' = l" "r' = r"
        using same [OF lr l'(1)] classify_pair_sel(1,2) [OF l'(2)] \<open>rd_left y = w_id l\<close> \<open>rd_right y = w_id r\<close> by simp_all
      moreover have "rd_relation y \<noteq> Duplicate \<and> rd_relation y \<noteq> Overlapping"
        using rel(3) lr y unfolding first_conflict_None by blast
      ultimately show ?thesis using classify_pair_sel(3) [of l r y] l'(2) by blast
    qed
    then show "ownership_disjoint p" by (auto simp: ownership_disjoint_def)
  next
    assume o': "ownership_disjoint p"
    have ok: "\<exists>y. classify_pair l r = Inr y" if "(l, r) \<in> set ?ps" for l r
      using o' that by (auto simp: ownership_disjoint_def classify_pair_def Let_def)
    then obtain ds where ds: "traverse ?f ?ps = Inr ds" using traverse_all [of ?f ?ps] by auto
    then obtain rel where rel: "classifyWorkstreamRelations collate p = Inr rel" "set rel = set ds"
      by (auto simp: classifyWorkstreamRelations_def)
    have "rd_relation y \<noteq> Duplicate \<and> rd_relation y \<noteq> Overlapping" if "y \<in> set rel" for y
    proof -
      have "y \<in> set ds" using that rel(2) by simp
      from traverse_image [OF ds this] obtain l r where "(l, r) \<in> set ?ps" "classify_pair l r = Inr y" by auto
      then show ?thesis using classify_pair_sel(3) [of l r y] o' by (auto simp: ownership_disjoint_def)
    qed
    then have "first_conflict ?ps rel = None" unfolding first_conflict_None using find_SomeD by fast
    then show "\<exists>rel. classifyWorkstreamRelations collate p = Inr rel \<and> first_conflict ?ps rel = None" using rel(1) by blast
  qed
qed

section \<open>The analysis as a whole\<close>

lemma dependency_map_of:
  assumes "distinct (map w_id (p_workstreams p))"
  shows "map_of (dependency_map p) i = Some ds \<longleftrightarrow> (\<exists>w \<in> set (p_workstreams p). w_id w = i \<and> w_dependsOn w = ds)"
proof -
  have "distinct (map fst (dependency_map p))" using assms by (simp add: dependency_map_def comp_def)
  then have "map_of (dependency_map p) i = Some ds \<longleftrightarrow> (i, ds) \<in> set (dependency_map p)" by (rule map_of_eq_Some_iff)
  then show ?thesis by (auto simp: dependency_map_def)
qed

lemma dependency_dom: "dom (map_of (dependency_map p)) = w_id ` set (p_workstreams p)"
  by (simp add: dom_map_of_conv_image_fst dependency_map_def image_image)

lemma listed_closed:
  assumes "distinct (map w_id (p_workstreams p))" and "dependencies_listed p"
  shows "closed_graph (dependency_map p)"
proof -
  have "map_of (dependency_map p) b \<noteq> None"
    if "map_of (dependency_map p) a = Some ds" "b \<in> set ds" for a ds b
  proof -
    have "b \<in> w_id ` set (p_workstreams p)"
      using that assms(2) unfolding dependency_map_of [OF assms(1)] by (auto simp: dependencies_listed_def)
    then show ?thesis using dependency_dom [of p] by blast
  qed
  then show ?thesis unfolding closed_graph_def by blast
qed

lemma analysis_Inr:
  "analyzeDependencies dt collate p = Inr dd \<longleftrightarrow>
     plan_schema dt p \<and> distinct (map w_id (p_workstreams p)) \<and> dependencies_listed p \<and> ownership_disjoint p
     \<and> (\<exists>ds depth. visit_each (dependency_map p) [] [] (map w_id (p_workstreams p)) = Inr (ds, depth)
           \<and> dd = diagnostics collate depth (p_workstreams p))"
    (is "?a \<longleftrightarrow> ?schema \<and> ?dist \<and> ?listed \<and> ?own \<and> ?search")
proof (cases "?schema \<and> ?dist")
  case True
  let ?c = "\<lambda>w. check_dependencies (map w_id (p_workstreams p)) (w_id w) [] (w_dependsOn w)"
  have listed: "(\<exists>us. traverse ?c (p_workstreams p) = Inr us) \<longleftrightarrow> ?listed"
    by (simp add: traverse_all check_dependencies_ok dependencies_listed_def)
  note own = relations_ok [of p collate, OF True [THEN conjunct2]]
  show ?thesis
  proof (cases "traverse ?c (p_workstreams p)")
    case (Inl e)
    then have "\<not> ?listed" using listed by auto
    then show ?thesis using True Inl by (simp add: analyzeDependencies_def)
  next
    case i: (Inr us)
    show ?thesis
    proof (cases "classifyWorkstreamRelations collate p")
      case (Inl e)
      then have "\<not> ?own" using own by simp
      then show ?thesis using True i Inl by (simp add: analyzeDependencies_def)
    next
      case c: (Inr rel)
      show ?thesis
      proof (cases "first_conflict (pairs (p_workstreams p)) rel")
        case None
        then have "?own" using own c by auto
        moreover have "?listed" using listed i by blast
        ultimately show ?thesis using True i c None
          by (cases "visit_each (dependency_map p) [] [] (map w_id (p_workstreams p))")
            (auto simp: analyzeDependencies_def split: prod.split)
      next
        case (Some e)
        then have "\<not> ?own" using own c by auto
        then show ?thesis using True i c Some by (simp add: analyzeDependencies_def)
      qed
    qed
  qed
next
  case False
  then show ?thesis by (cases "?schema") (simp_all add: analyzeDependencies_def Let_def)
qed

text \<open>C6. \<open>analyzeDependencies\<close> accepts exactly the well-formed plans: those with a valid schema, distinct ids,
  dependencies that are listed, not repeated and not on themselves, no two workstreams whose claims overlap,
  and a dependency relation without a cycle.\<close>

theorem analysis_accepts_dags:
  "(\<exists>dd. analyzeDependencies dt collate p = Inr dd) \<longleftrightarrow>
     plan_schema dt p \<and> distinct (map w_id (p_workstreams p)) \<and> dependencies_listed p \<and> ownership_disjoint p
     \<and> acyclic (depends (dependency_map p))"
proof -
  have "(\<exists>ds depth. visit_each (dependency_map p) [] [] (map w_id (p_workstreams p)) = Inr (ds, depth))
     \<longleftrightarrow> acyclic (depends (dependency_map p))"
    if "distinct (map w_id (p_workstreams p))" "dependencies_listed p"
    using search_exact [OF listed_closed [OF that], of "map w_id (p_workstreams p)"] dependency_dom [of p] by simp
  then show ?thesis unfolding analysis_Inr by blast
qed

section \<open>A plan to evaluate\<close>

definition sample_workstream :: "string \<Rightarrow> string list \<Rightarrow> string list \<Rightarrow> workstream_status \<Rightarrow> workstream" where
  "sample_workstream wid deps owned s =
     \<lparr>w_id = wid, w_runId = ''run'', w_planId = ''plan'', w_resolvedAgent = ''coder'', w_requiredCapability = ''code'',
      w_objective = ''build '' @ wid, w_requirements = [''r '' @ wid], w_acceptanceCriteria = [''a '' @ wid],
      w_ownedPaths = owned, w_ownedSymbols = [], w_dependsOn = deps, w_strategy = ''s'',
      w_budgetProfile = ProfileNormal, w_contextScope = ScopeOwned, w_status = s, w_worktreeRef = None,
      w_branchRef = None, w_blockedBy = [], w_failureReason = None, w_createdAt = ''t''\<rparr>"

definition sample_plan :: "workstream list \<Rightarrow> plan" where
  "sample_plan ws =
     \<lparr>p_planId = ''plan'', p_runId = ''run'', p_routingDecisionId = ''route'', p_sourceSha = replicate 40 CHR ''0'',
      p_policyVersion = ''v1'', p_workstreams = ws, p_createdAt = ''t'', p_status = None, p_startedAt = None,
      p_completedAt = None\<rparr>"

definition two_steps :: plan where
  "two_steps = sample_plan [sample_workstream ''a'' [] [''src/a''] WPlanned, sample_workstream ''b'' [''a''] [''src/b''] WPlanned]"

lemma two_steps_analysis:
  "analyzeDependencies (\<lambda>_. True) (\<le>) two_steps =
     Inr \<lparr>dd_waves = [\<lparr>wv_index = 0, wv_ids = [''a'']\<rparr>, \<lparr>wv_index = 1, wv_ids = [''b'']\<rparr>],
          dd_ready = [''a'', ''b''], dd_blocked = [], dd_criticalPath = [''b'', ''a'']\<rparr>"
  by code_simp

section \<open>Waves\<close>

lemma waves_mem:
  "v \<in> set (waves_of depth ws) \<longleftrightarrow>
     (\<exists>i \<in> snd ` set depth. v = \<lparr>wv_index = i, wv_ids = sort (map w_id (filter (\<lambda>w. map_of depth (w_id w) = Some i) ws))\<rparr>)"
  by (auto simp: waves_of_def)

lemma in_wave:
  assumes "distinct (map w_id ws)" and "w \<in> set ws" and "map_of depth (w_id w) = Some i"
  shows "\<exists>v \<in> set (waves_of depth ws). wv_index v = i \<and> w_id w \<in> set (wv_ids v)"
    and "v \<in> set (waves_of depth ws) \<Longrightarrow> w_id w \<in> set (wv_ids v) \<Longrightarrow> wv_index v = i"
  using assms map_of_SomeD [OF assms(3)] by (force simp: waves_mem)+

lemma wave_index_eq:
  "v \<in> set (waves_of depth ws) \<Longrightarrow> v' \<in> set (waves_of depth ws) \<Longrightarrow> wv_index v = wv_index v' \<Longrightarrow> v = v'"
  by (auto simp: waves_mem)

text \<open>C7. The waves of an accepted plan are a schedule: every workstream is in exactly one wave, all its
  dependencies are in earlier waves, and the wave is the earliest such - the first one for a workstream
  without dependencies, otherwise the one after a dependency.\<close>

theorem waves_respect_dependencies:
  assumes "analyzeDependencies dt collate p = Inr dd" and "w \<in> set (p_workstreams p)"
  shows "\<exists>v \<in> set (dd_waves dd). w_id w \<in> set (wv_ids v)
     \<and> (\<forall>v' \<in> set (dd_waves dd). w_id w \<in> set (wv_ids v') \<longrightarrow> v' = v)
     \<and> (\<forall>d \<in> set (w_dependsOn w). \<exists>v' \<in> set (dd_waves dd). d \<in> set (wv_ids v') \<and> wv_index v' < wv_index v)
     \<and> (w_dependsOn w = [] \<longrightarrow> wv_index v = 0)
     \<and> (w_dependsOn w \<noteq> [] \<longrightarrow> (\<exists>d \<in> set (w_dependsOn w). \<exists>v' \<in> set (dd_waves dd).
           d \<in> set (wv_ids v') \<and> wv_index v = Suc (wv_index v')))"
proof -
  let ?ws = "p_workstreams p" and ?g = "dependency_map p"
  obtain ds depth where dist: "distinct (map w_id ?ws)" and listed: "dependencies_listed p"
    and v: "visit_each ?g [] [] (map w_id ?ws) = Inr (ds, depth)" and dd: "dd_waves dd = waves_of depth ?ws"
    using assms(1) unfolding analysis_Inr by (auto simp: diagnostics_def)
  have r: "ranked ?g depth" and all: "map (map_of depth) (map w_id ?ws) = map Some ds"
    using visit_ranks(2) [OF _ _ v] by (simp_all add: ranked_def outside_def)
  have known: "\<exists>i. map_of depth (w_id u) = Some i" if "u \<in> set ?ws" for u
    using lookup_all(1) [OF all] that by auto
  obtain i where i: "map_of depth (w_id w) = Some i" using known assms(2) by blast
  have g: "map_of ?g (w_id w) = Some (w_dependsOn w)" using dependency_map_of [OF dist] assms(2) by blast
  then have rank: "i = (if w_dependsOn w = [] then 0 else Suc (Max ((\<lambda>j. the (map_of depth j)) ` set (w_dependsOn w))))"
    by (rule ranked_value [OF r i])
  have place: "\<exists>v' \<in> set (waves_of depth ?ws). d \<in> set (wv_ids v') \<and> wv_index v' = the (map_of depth d)"
    if "d \<in> set (w_dependsOn w)" for d
  proof -
    have "d \<in> w_id ` set ?ws" using listed assms(2) that unfolding dependencies_listed_def by blast
    then obtain u where u: "u \<in> set ?ws" "w_id u = d" by blast
    obtain j where "map_of depth (w_id u) = Some j" using known u(1) by blast
    then show ?thesis using in_wave(1) [OF dist u(1)] u(2) by force
  qed
  obtain vw where vw: "vw \<in> set (waves_of depth ?ws)" "wv_index vw = i" "w_id w \<in> set (wv_ids vw)"
    using in_wave(1) [OF dist assms(2) i] by blast
  have only: "v' = vw" if "v' \<in> set (waves_of depth ?ws)" "w_id w \<in> set (wv_ids v')" for v'
    using in_wave(2) [OF dist assms(2) i that] wave_index_eq [OF that(1) vw(1)] vw(2) by simp
  have less: "the (map_of depth d) < i" if "d \<in> set (w_dependsOn w)" for d
    using ranked_edge [OF r i, of d] g that by (auto simp: depends_def)
  have top: "\<exists>d \<in> set (w_dependsOn w). i = Suc (the (map_of depth d))" if "w_dependsOn w \<noteq> []"
  proof -
    define m where "m = Max ((\<lambda>j. the (map_of depth j)) ` set (w_dependsOn w))"
    have "m \<in> (\<lambda>j. the (map_of depth j)) ` set (w_dependsOn w)" unfolding m_def using that by (intro Max_in) simp_all
    moreover have "i = Suc m" using rank that by (simp add: m_def)
    ultimately show ?thesis by blast
  qed
  have earlier: "\<exists>v' \<in> set (waves_of depth ?ws). d \<in> set (wv_ids v') \<and> wv_index v' < wv_index vw"
    if "d \<in> set (w_dependsOn w)" for d
    using place [OF that] less [OF that] vw(2) by auto
  have next_to: "\<exists>d \<in> set (w_dependsOn w). \<exists>v' \<in> set (waves_of depth ?ws). d \<in> set (wv_ids v') \<and> wv_index vw = Suc (wv_index v')"
    if "w_dependsOn w \<noteq> []"
    using top [OF that] place vw(2) by metis
  have "wv_index vw = 0" if "w_dependsOn w = []" using that rank vw(2) by simp
  then show ?thesis unfolding dd using vw(1,3) only earlier next_to by blast
qed

theorem waves_respect_dependencies_witness:
  "\<exists>dd v v'. analyzeDependencies (\<lambda>_. True) (\<le>) two_steps = Inr dd \<and> v \<in> set (dd_waves dd) \<and> v' \<in> set (dd_waves dd)
     \<and> ''b'' \<in> set (wv_ids v) \<and> ''a'' \<in> set (wv_ids v') \<and> wv_index v' < wv_index v"
proof -
  obtain dd where dd: "analyzeDependencies (\<lambda>_. True) (\<le>) two_steps = Inr dd" using two_steps_analysis by blast
  have "sample_workstream ''b'' [''a''] [''src/b''] WPlanned \<in> set (p_workstreams two_steps)"
    by (simp add: two_steps_def sample_plan_def)
  from waves_respect_dependencies [OF dd this] obtain v v' where "v \<in> set (dd_waves dd)" "''b'' \<in> set (wv_ids v)"
    "v' \<in> set (dd_waves dd)" "''a'' \<in> set (wv_ids v')" "wv_index v' < wv_index v"
    by (fastforce simp: sample_workstream_def)
  then show ?thesis using dd by blast
qed

end
