(* ===== verification/Ownership.thy ===== *)
theory Ownership
  imports Dependencies
begin

text \<open>
  Ownership claims are exclusive. Paths are compared after normalisation, and a claim is a whole tree
  (\<open>.\<close> or \<open>**\<close>), a subtree (\<open>p/**\<close>), the files of a directory (\<open>p/*\<close>) or a literal path. Two claims that both own
  some path always overlap in the sense of \<open>ownershipOverlaps\<close>, so the workstreams of an accepted plan never
  own a common path.
\<close>

section \<open>Normal paths\<close>

definition single :: "string \<Rightarrow> bool" where
  "single s \<longleftrightarrow> successively (\<lambda>a b. \<not> (a = slash \<and> b = slash)) s"

definition normal :: "string \<Rightarrow> bool" where
  "normal s \<longleftrightarrow> single s \<and> (s \<noteq> [] \<longrightarrow> last s \<noteq> slash) \<and> (\<forall>c \<in> set s. char_code c \<noteq> 92)"

lemma squeeze_hd: "squeeze (a # s) \<noteq> [] \<and> hd (squeeze (a # s)) = a"
  by (induction s arbitrary: a) auto

lemma squeeze_single: "single (squeeze s)"
proof (induction s rule: squeeze.induct)
  case (1 a b s)
  show ?case
  proof (cases "a = slash \<and> b = slash")
    case False
    then have "single (squeeze (b # s))" using 1(2) by simp
    then show ?thesis using False squeeze_hd [of b s]
      by (cases "squeeze (b # s)") (auto simp: single_def successively_Cons)
  qed (use 1(1) in simp)
qed (simp_all add: single_def)

lemma squeeze_set: "set (squeeze s) \<subseteq> set s"
  by (induction s rule: squeeze.induct) auto

lemma squeeze_id: "single s \<Longrightarrow> squeeze s = s"
  by (induction s rule: squeeze.induct) (auto simp: single_def)

lemma slash_code: "char_code slash = 47"
  by (simp add: slash_def char_code_def)

lemma forward_set: "c \<in> set (forward_slashes s) \<Longrightarrow> char_code c \<noteq> 92"
  by (auto simp: forward_slashes_def slash_code)

lemma forward_id: "\<forall>c \<in> set s. char_code c \<noteq> 92 \<Longrightarrow> forward_slashes s = s"
  by (simp add: forward_slashes_def map_idI)

lemma single_butlast: "single s \<Longrightarrow> s \<noteq> [] \<Longrightarrow> last s = slash \<Longrightarrow> butlast s \<noteq> [] \<Longrightarrow> last (butlast s) \<noteq> slash"
proof -
  assume "single s" "s \<noteq> []" "last s = slash" "butlast s \<noteq> []"
  then have "single (butlast s @ [slash])" by (metis append_butlast_last_id)
  then show ?thesis using \<open>butlast s \<noteq> []\<close> by (simp add: single_def successively_append_iff)
qed

lemma single_part: "single (s @ t) \<Longrightarrow> single s" "single (s @ t) \<Longrightarrow> single t"
  by (simp_all add: single_def successively_append_iff)

lemma normal_path_normal: "normal (normal_path s)"
proof -
  let ?q = "squeeze (drop_dot (forward_slashes s))"
  have q: "single ?q" by (rule squeeze_single)
  have "set ?q \<subseteq> set (forward_slashes s)"
    using squeeze_set [of "drop_dot (forward_slashes s)"] set_drop_subset by (fastforce simp: drop_dot_def split: if_splits)
  then have c: "\<forall>c \<in> set ?q. char_code c \<noteq> 92" using forward_set by blast
  show ?thesis
  proof (cases "?q \<noteq> [] \<and> last ?q = slash")
    case True
    have "single (butlast ?q)" using q True by (metis append_butlast_last_id single_part(1))
    then show ?thesis using True single_butlast [OF q] c
      by (auto simp: normal_def normal_path_def drop_last_slash_def dest: in_set_butlastD)
  next
    case False
    then show ?thesis using q c by (auto simp: normal_def normal_path_def drop_last_slash_def)
  qed
qed

lemma starts_iff: "starts_with s p \<longleftrightarrow> (\<exists>t. s = p @ t)"
  unfolding starts_with_def by (metis append_eq_conv_conj append_take_drop_id)

lemma ends_iff: "ends_with s t \<longleftrightarrow> (\<exists>u. s = u @ t)"
  unfolding ends_with_def starts_iff by (metis rev_append rev_rev_ident)

text \<open>A second normalisation only drops a further leading dot.\<close>

lemma normal_path_again:
  assumes "normal s"
  shows "normal_path s = drop_dot s"
proof -
  have f: "forward_slashes s = s" using assms by (simp add: normal_def forward_id)
  obtain u where u: "s = u @ drop_dot s"
  proof (cases "starts_with s ''./''")
    case True then show ?thesis using that [of "take 2 s"] by (simp add: drop_dot_def)
  next
    case False then show ?thesis using that [of "[]"] by (simp add: drop_dot_def)
  qed
  have s: "single (drop_dot s)" using assms u single_part(2) unfolding normal_def by metis
  have "drop_dot s \<noteq> [] \<Longrightarrow> last (drop_dot s) \<noteq> slash" using assms u unfolding normal_def by (metis last_appendR append_is_Nil_conv)
  then show ?thesis using f squeeze_id [OF s] by (auto simp: normal_path_def drop_last_slash_def)
qed

definition well_formed :: "string \<Rightarrow> bool" where
  "well_formed s \<longleftrightarrow> s \<noteq> [] \<and> hd s \<noteq> slash \<and> normal s"

lemma twice_well_formed:
  assumes "\<not> escapes (normal_path c)"
  shows "well_formed (normal_path (normal_path c))"
proof -
  let ?y = "normal_path c"
  have y: "normal ?y" "?y \<noteq> []" "hd ?y \<noteq> slash"
    using assms normal_path_normal by (auto simp: escapes_def starts_iff slash_def neq_Nil_conv)
  have n: "normal (normal_path ?y)" by (rule normal_path_normal)
  show ?thesis
  proof (cases "starts_with ?y ''./''")
    case True
    then obtain t where t: "?y = ''./'' @ t" by (auto simp: starts_iff)
    have "t \<noteq> []" using y(1) t by (auto simp: normal_def slash_def)
    moreover have "hd t \<noteq> slash"
      using y(1) t \<open>t \<noteq> []\<close> by (auto simp: normal_def single_def slash_def successively_Cons neq_Nil_conv)
    moreover have "normal_path ?y = t" using normal_path_again [OF y(1)] True t by (simp add: drop_dot_def)
    ultimately show ?thesis using n by (simp add: well_formed_def)
  next
    case False
    then have "normal_path ?y = ?y" using normal_path_again [OF y(1)] by (simp add: drop_dot_def)
    then show ?thesis using y by (simp add: well_formed_def)
  qed
qed

section \<open>Claims\<close>

text \<open>The match of a path and a claim that are already normal.\<close>

definition claim_match :: "string \<Rightarrow> string \<Rightarrow> bool \<Rightarrow> bool" where
  "claim_match x c descendants =
     (if c = ''.'' \<or> c = ''**'' then x \<noteq> []
      else if ends_with c ''/**'' then starts_with x (drop_last_slash (take (length c - 3) c) @ ''/'')
      else if ends_with c ''/*'' then
        (let prefix = drop_last_slash (take (length c - 2) c)
         in starts_with x (prefix @ ''/'') \<and> slash \<notin> set (drop (length prefix + 1) x))
      else x = c \<or> descendants \<and> starts_with x (c @ ''/''))"

lemma matches_claim: "ownershipClaimMatchesPath p c d = claim_match (normal_path p) (normal_path c) d"
  by (simp add: ownershipClaimMatchesPath_def claim_match_def Let_def)

lemma prefix_kept:
  assumes "well_formed (p @ slash # t)"
  shows "drop_last_slash p = p" "p \<noteq> []"
proof -
  have s: "single (p @ slash # t)" and h: "hd (p @ slash # t) \<noteq> slash"
    using assms by (simp_all add: well_formed_def normal_def)
  show p: "p \<noteq> []" using h by auto
  have "last p \<noteq> slash" using s p by (auto simp: single_def successively_append_iff)
  then show "drop_last_slash p = p" by (simp add: drop_last_slash_def)
qed

datatype claim_kind = Everything | Subtree string | Directory string | Literal string

definition kind_of :: "string \<Rightarrow> claim_kind" where
  "kind_of c = (if c = ''.'' \<or> c = ''**'' then Everything
     else if ends_with c ''/**'' then Subtree (take (length c - 3) c)
     else if ends_with c ''/*'' then Directory (take (length c - 2) c) else Literal c)"

fun kind_match :: "string \<Rightarrow> claim_kind \<Rightarrow> bool \<Rightarrow> bool" where
  "kind_match x Everything d = (x \<noteq> [])"
| "kind_match x (Subtree p) d = (\<exists>t. x = p @ slash # t)"
| "kind_match x (Directory p) d = (\<exists>t. x = p @ slash # t \<and> slash \<notin> set t)"
| "kind_match x (Literal c) d = (x = c \<or> d \<and> (\<exists>t. x = c @ slash # t))"

fun kind_text :: "claim_kind \<Rightarrow> string \<Rightarrow> bool" where
  "kind_text Everything c = (c \<noteq> [])"
| "kind_text (Subtree p) c = (c = p @ slash # ''**'')"
| "kind_text (Directory p) c = (c = p @ slash # ''*'')"
| "kind_text (Literal l) c = (c = l)"

lemma kind_correct:
  assumes w: "well_formed c"
  shows "claim_match x c d = kind_match x (kind_of c) d" and "kind_text (kind_of c) c"
proof -
  have "claim_match x c d = kind_match x (kind_of c) d \<and> kind_text (kind_of c) c"
  proof (cases "c = ''.'' \<or> c = ''**''")
    case True then show ?thesis by (auto simp: claim_match_def kind_of_def)
  next
    case f: False
    show ?thesis
    proof (cases "ends_with c ''/**''")
      case True
      then obtain p where p: "c = p @ slash # ''**''" by (auto simp: ends_iff slash_def)
      then show ?thesis using f True prefix_kept [of p "''**''"] w
        by (auto simp: claim_match_def kind_of_def starts_iff slash_def)
    next
      case g: False
      show ?thesis
      proof (cases "ends_with c ''/*''")
        case True
        then obtain p where p: "c = p @ slash # ''*''" by (auto simp: ends_iff slash_def)
        then show ?thesis using f g True prefix_kept [of p "''*''"] w
          by (auto simp: claim_match_def kind_of_def starts_iff slash_def Let_def)
      next
        case False
        then show ?thesis using f g by (auto simp: claim_match_def kind_of_def starts_iff slash_def)
      qed
    qed
  qed
  then show "claim_match x c d = kind_match x (kind_of c) d" and "kind_text (kind_of c) c" by simp_all
qed

text \<open>Two splits of a path at a slash: one directory contains the other.\<close>

lemma two_prefixes:
  assumes "p @ slash # t = q @ slash # u"
  shows "(\<exists>r. q = p @ slash # r \<and> t = r @ slash # u) \<or> (\<exists>r. p = q @ slash # r \<and> u = r @ slash # t) \<or> p = q \<and> t = u"
proof -
  from assms obtain us where "(p @ us = q \<and> slash # t = us @ slash # u) \<or> (p = q @ us \<and> us @ slash # t = slash # u)"
    by (auto simp: append_eq_append_conv2)
  then show ?thesis by (cases us) auto
qed

lemma kinds_overlap:
  assumes "kind_text a c" and "kind_text b e" and "kind_match x a False" and "kind_match x b False"
  shows "kind_match c b True \<or> kind_match e a True"
proof (cases a)
  case Everything
  then show ?thesis using assms by (cases b) auto
next
  case (Subtree p)
  then obtain t where t: "x = p @ slash # t" using assms(3) by auto
  show ?thesis
  proof (cases b)
    case (Subtree q)
    then obtain u where "x = q @ slash # u" using assms(4) by auto
    then show ?thesis using two_prefixes [of p t q u] t assms(1,2) \<open>a = _\<close> Subtree by auto
  next
    case (Directory q)
    then obtain u where u: "x = q @ slash # u" "slash \<notin> set u" using assms(4) by auto
    then show ?thesis using two_prefixes [of p t q u] t assms(1,2) \<open>a = _\<close> Directory by auto
  qed (use t assms Subtree in auto)
next
  case (Directory p)
  then obtain t where t: "x = p @ slash # t" "slash \<notin> set t" using assms(3) by auto
  show ?thesis
  proof (cases b)
    case (Subtree q)
    then obtain u where "x = q @ slash # u" using assms(4) by auto
    then show ?thesis using two_prefixes [of p t q u] t assms(1,2) \<open>a = _\<close> Subtree by auto
  next
    case (Directory q)
    then obtain u where u: "x = q @ slash # u" "slash \<notin> set u" using assms(4) by auto
    then show ?thesis using two_prefixes [of p t q u] t assms(1,2) \<open>a = _\<close> Directory by (auto simp: slash_def)
  qed (use t assms Directory in auto)
next
  case (Literal l)
  then show ?thesis using assms by (cases b) auto
qed

section \<open>Disjoint workstreams\<close>

lemma normalize_Inr:
  assumes "normalizeOwnership ps = Inr ls" and "c \<in> set ps"
  shows "normal_path c \<in> set ls" and "well_formed (normal_path (normal_path c))"
proof -
  have e: "\<not> escapes (normal_path c)" and l: "ls = sort (js_unique (map normal_path ps))"
    using assms by (auto simp: normalizeOwnership_def Let_def list_ex_iff split: if_splits)
  then show "normal_path c \<in> set ls" using assms(2) by simp
  show "well_formed (normal_path (normal_path c))" by (rule twice_well_formed [OF e])
qed

lemma no_common_path:
  assumes o': "ownershipOverlaps a b = Inr False" and c: "c \<in> set a" and e: "e \<in> set b"
  shows "\<not> (pathOwnedBy x c \<and> pathOwnedBy x e)"
proof
  assume own: "pathOwnedBy x c \<and> pathOwnedBy x e"
  obtain ls where ls: "normalizeOwnership a = Inr ls"
    using o' by (cases "normalizeOwnership a") (simp_all add: ownershipOverlaps_def)
  have l: "normal_path c \<in> set ls" "well_formed (normal_path (normal_path c))"
    using normalize_Inr [OF ls c] by simp_all
  then obtain l0 ls' where "ls = l0 # ls'" by (cases ls) auto
  then obtain rs where rs: "normalizeOwnership b = Inr rs"
    "\<not> list_ex (\<lambda>l. list_ex (\<lambda>r. ownershipClaimMatchesPath l r True \<or> ownershipClaimMatchesPath r l True) rs) ls"
    using o' ls by (cases "normalizeOwnership b") (simp_all add: ownershipOverlaps_def)
  have r: "normal_path e \<in> set rs" "well_formed (normal_path (normal_path e))"
    using normalize_Inr [OF rs(1) e] by simp_all
  let ?c = "normal_path (normal_path c)" and ?e = "normal_path (normal_path e)" and ?x = "normal_path (normal_path x)"
  have "kind_match ?x (kind_of ?c) False" "kind_match ?x (kind_of ?e) False"
    using own by (simp_all add: pathOwnedBy_def matches_claim kind_correct(1) [OF l(2)] kind_correct(1) [OF r(2)])
  from kinds_overlap [OF kind_correct(2) [OF l(2)] kind_correct(2) [OF r(2)] this]
  have "ownershipClaimMatchesPath (normal_path c) (normal_path e) True
     \<or> ownershipClaimMatchesPath (normal_path e) (normal_path c) True"
    by (simp add: matches_claim kind_correct(1) [OF l(2)] kind_correct(1) [OF r(2)])
  then show False using rs(2) l(1) r(1) by (auto simp: list_ex_iff)
qed

lemma pairs_total: "x \<in> set xs \<Longrightarrow> y \<in> set xs \<Longrightarrow> x \<noteq> y \<Longrightarrow> (x, y) \<in> set (pairs xs) \<or> (y, x) \<in> set (pairs xs)"
  by (induction xs) auto

text \<open>The workstreams of an accepted plan never own a common path: when \<open>analyzeDependencies\<close> accepts a plan,
  no path - whatever its spelling - is owned, by the test that guards an integration, by claims of two
  different workstreams. So two workstreams whose branches pass that test cannot have changed the same file.\<close>

theorem accepted_claims_exclusive:
  assumes "analyzeDependencies dt collate p = Inr dd"
    and "l \<in> set (p_workstreams p)" "r \<in> set (p_workstreams p)" "l \<noteq> r"
    and "c \<in> set (w_ownedPaths l)" "e \<in> set (w_ownedPaths r)"
  shows "\<not> (pathOwnedBy path c \<and> pathOwnedBy path e)"
proof -
  have "ownership_disjoint p" using assms(1) unfolding analysis_Inr by blast
  then show ?thesis
    using pairs_total [OF assms(2-4)] no_common_path [OF _ assms(5,6)] no_common_path [OF _ assms(6,5)]
    by (auto simp: ownership_disjoint_def)
qed

theorem accepted_claims_exclusive_witness: "\<not> (pathOwnedBy ''src/a/x'' ''src/a'' \<and> pathOwnedBy ''src/a/x'' ''src/b'')"
  by (rule accepted_claims_exclusive [OF two_steps_analysis,
        of "sample_workstream ''a'' [] [''src/a''] WPlanned" "sample_workstream ''b'' [''a''] [''src/b''] WPlanned"])
    (simp_all add: two_steps_def sample_plan_def sample_workstream_def)

end
