(* ===== verification/Execution.thy ===== *)
theory Execution
  imports Ownership
begin

text \<open>
  The execution of plans: the tables and operations of \<open>orchestration/execution/sqlite-repository.ts\<close> and the
  wave scheduler of \<open>orchestration/execution/scheduler.ts\<close>.

  An operation takes the tables and returns an error or a result together with the tables. \<open>tx\<close> is a
  transaction: an error inside it restores the tables. Operations that run several transactions keep what
  the earlier ones wrote. The rows of a table are in insertion order. \<open>execution_workstreams\<close> holds no
  dependencies; they are joined in from their own table on reading. JSON columns hold their values. Times
  are the strings the code stores and compares: ISO text from the caller, and the text of \<open>datetime('now')\<close>,
  given as \<open>clock\<close>. Columns that nothing reads (\<open>updated_at\<close>) and the counters of the metrics are left out.
\<close>

section \<open>Tables\<close>

record plan_row =
  pl_id :: string
  pl_runId :: string
  pl_routingDecisionId :: string
  pl_sourceSha :: string
  pl_policyVersion :: string
  pl_createdAt :: string
  pl_status :: plan_status
  pl_startedAt :: "string option"
  pl_completedAt :: "string option"

record ownership_row =
  cr_id :: string
  cr_planId :: string
  cr_workstreamId :: string
  cr_type :: string
  cr_value :: string

datatype lease_state =
    LsRequested | LsAllocated | LsActive | LsRenewing | LsCompleted | LsReclaimable | LsReleased | LsFailed

record exec_lease =
  le_id :: string
  le_runId :: string
  le_planId :: string
  le_workstreamId :: string
  le_agentId :: string
  le_worktreeId :: string
  le_workspace :: string
  le_branch :: string
  le_acquiredAt :: string
  le_renewedAt :: string
  le_expiresAt :: string
  le_state :: lease_state

datatype attempt_status = AtStarted | AtVerified | AtConflict | AtIntegrated | AtFailed | AtCancelled

record integration_attempt =
  ia_id :: string
  ia_planId :: string
  ia_workstreamId :: string
  ia_sourceSha :: string
  ia_branch :: string
  ia_status :: attempt_status
  ia_verification :: json
  ia_evidence :: json
  ia_error :: "string option"
  ia_createdAt :: string
  ia_completedAt :: "string option"

record exec_store =
  xs_runIds :: "string list"
  xs_plans :: "plan_row list"
  xs_workstreams :: "workstream list"
  xs_dependencies :: "(string \<times> string \<times> string) list"
  xs_claims :: "ownership_row list"
  xs_leases :: "exec_lease list"
  xs_attempts :: "integration_attempt list"

section \<open>Operations that may raise\<close>

type_synonym 'a exec = "exec_store \<Rightarrow> (exec_error + 'a) \<times> exec_store"

definition ok :: "'a \<Rightarrow> 'a exec" where
  "ok x st = (Inr x, st)"

definition raise :: "exec_error \<Rightarrow> 'a exec" where
  "raise e st = (Inl e, st)"

definition seq :: "'a exec \<Rightarrow> ('a \<Rightarrow> 'b exec) \<Rightarrow> 'b exec" where
  "seq m k st = (case m st of (Inl e, st') \<Rightarrow> (Inl e, st') | (Inr x, st') \<Rightarrow> k x st')"

definition tx :: "'a exec \<Rightarrow> 'a exec" where
  "tx m st = (case m st of (Inl e, _) \<Rightarrow> (Inl e, st) | (Inr x, st') \<Rightarrow> (Inr x, st'))"

definition require :: "(exec_store \<Rightarrow> bool) \<Rightarrow> exec_error \<Rightarrow> unit exec" where
  "require P e st = (if P st then (Inr (), st) else (Inl e, st))"

definition update :: "(exec_store \<Rightarrow> exec_store) \<Rightarrow> unit exec" where
  "update f st = (Inr (), f st)"

fun for_each :: "('a \<Rightarrow> 'b exec) \<Rightarrow> 'a list \<Rightarrow> 'b list exec" where
  "for_each f [] = ok []"
| "for_each f (x # xs) = seq (f x) (\<lambda>y. seq (for_each f xs) (\<lambda>ys. ok (y # ys)))"

section \<open>Plans\<close>

definition plan_at :: "string \<Rightarrow> exec_store \<Rightarrow> plan_row option" where
  "plan_at pid st = List.find (\<lambda>r. pl_id r = pid) (xs_plans st)"

definition workstream_at :: "string \<Rightarrow> string \<Rightarrow> exec_store \<Rightarrow> workstream option" where
  "workstream_at pid wid st = List.find (\<lambda>r. w_planId r = pid \<and> w_id r = wid) (xs_workstreams st)"

text \<open>An empty text column reads as absent.\<close>

definition opt_text :: "string option \<Rightarrow> string option" where
  "opt_text v = (if truthy v then v else None)"

definition dependencies_of :: "string \<Rightarrow> string \<Rightarrow> exec_store \<Rightarrow> string list" where
  "dependencies_of pid wid st =
     sort (map (\<lambda>(_, _, d). d) (filter (\<lambda>(p, w, _). p = pid \<and> w = wid) (xs_dependencies st)))"

definition read_workstream :: "exec_store \<Rightarrow> workstream \<Rightarrow> workstream" where
  "read_workstream st r =
     r\<lparr>w_dependsOn := dependencies_of (w_planId r) (w_id r) st, w_worktreeRef := opt_text (w_worktreeRef r),
       w_branchRef := opt_text (w_branchRef r), w_failureReason := opt_text (w_failureReason r)\<rparr>"

definition rows_of :: "string \<Rightarrow> exec_store \<Rightarrow> workstream list" where
  "rows_of pid st = sort_key w_id (filter (\<lambda>r. w_planId r = pid) (xs_workstreams st))"

definition plan_of :: "exec_store \<Rightarrow> plan_row \<Rightarrow> plan" where
  "plan_of st r =
     \<lparr>p_planId = pl_id r, p_runId = pl_runId r, p_routingDecisionId = pl_routingDecisionId r,
      p_sourceSha = pl_sourceSha r, p_policyVersion = pl_policyVersion r,
      p_workstreams = map (read_workstream st) (rows_of (pl_id r) st), p_createdAt = pl_createdAt r,
      p_status = Some (pl_status r), p_startedAt = pl_startedAt r, p_completedAt = pl_completedAt r\<rparr>"

definition getPlan :: "(string \<Rightarrow> bool) \<Rightarrow> string \<Rightarrow> plan option exec" where
  "getPlan dt pid st =
     (case plan_at pid st of
        None \<Rightarrow> (Inr None, st)
      | Some r \<Rightarrow> if plan_schema dt (plan_of st r) then (Inr (Some (plan_of st r)), st) else (Inl SchemaInvalid, st))"

text \<open>
  \<open>getPlan\<close> where the code goes on only with a plan. Where it asserts one (\<open>getPlan(...)!\<close>), the foreign key
  of the row it has just read guarantees it.
\<close>

definition needPlan :: "(string \<Rightarrow> bool) \<Rightarrow> string \<Rightarrow> plan exec" where
  "needPlan dt pid = seq (getPlan dt pid) (\<lambda>p. case p of None \<Rightarrow> raise ExecutionPlanNotFound | Some p \<Rightarrow> ok p)"

definition plans_in_order :: "plan_row list \<Rightarrow> plan_row list" where
  "plans_in_order rows = sort_key pl_createdAt (sort_key pl_id rows)"

definition read_plans :: "(string \<Rightarrow> bool) \<Rightarrow> plan_row list \<Rightarrow> plan list exec" where
  "read_plans dt rows = seq (for_each (\<lambda>r. getPlan dt (pl_id r)) (plans_in_order rows)) (\<lambda>ps. ok (List.map_filter id ps))"

definition listPlansForRun :: "(string \<Rightarrow> bool) \<Rightarrow> string \<Rightarrow> plan list exec" where
  "listPlansForRun dt rid st = read_plans dt (filter (\<lambda>r. pl_runId r = rid) (xs_plans st)) st"

definition listPlans :: "(string \<Rightarrow> bool) \<Rightarrow> plan list exec" where
  "listPlans dt st = read_plans dt (xs_plans st) st"

section \<open>Saving a plan\<close>

definition insert_plan :: "plan \<Rightarrow> unit exec" where
  "insert_plan p =
     seq (require (\<lambda>st. p_runId p \<in> set (xs_runIds st)) ConstraintViolation) (\<lambda>_.
       update (\<lambda>st. st\<lparr>xs_plans := xs_plans st @
         [\<lparr>pl_id = p_planId p, pl_runId = p_runId p, pl_routingDecisionId = p_routingDecisionId p,
           pl_sourceSha = p_sourceSha p, pl_policyVersion = p_policyVersion p, pl_createdAt = p_createdAt p,
           pl_status = nullish (p_status p) PPlanned, pl_startedAt = p_startedAt p, pl_completedAt = p_completedAt p\<rparr>]\<rparr>))"

definition insert_workstream :: "plan \<Rightarrow> workstream \<Rightarrow> unit exec" where
  "insert_workstream p w =
     seq (require (\<lambda>st. w_id w \<notin> w_id ` set (xs_workstreams st) \<and> p_runId p \<in> set (xs_runIds st)) ConstraintViolation)
       (\<lambda>_. update (\<lambda>st. st\<lparr>xs_workstreams := xs_workstreams st @
               [w\<lparr>w_planId := p_planId p, w_runId := p_runId p, w_dependsOn := []\<rparr>]\<rparr>))"

text \<open>Both ends of a dependency must be rows already.\<close>

definition insert_dependency :: "plan \<Rightarrow> workstream \<Rightarrow> string \<Rightarrow> unit exec" where
  "insert_dependency p w d =
     seq (require (\<lambda>st. (p_planId p, w_id w, d) \<notin> set (xs_dependencies st) \<and> w_id w \<noteq> d
                      \<and> workstream_at (p_planId p) (w_id w) st \<noteq> None \<and> workstream_at (p_planId p) d st \<noteq> None)
            ConstraintViolation)
       (\<lambda>_. update (\<lambda>st. st\<lparr>xs_dependencies := xs_dependencies st @ [(p_planId p, w_id w, d)]\<rparr>))"

definition ownership_of :: "plan \<Rightarrow> workstream \<Rightarrow> string \<Rightarrow> ownership_row" where
  "ownership_of p w owned =
     \<lparr>cr_id = p_planId p @ '':'' @ w_id w @ '':'' @ owned, cr_planId = p_planId p, cr_workstreamId = w_id w,
      cr_type = (if ends_with owned ''/**'' \<or> ends_with owned ''/*'' then ''pattern''
                 else if ends_with owned ''/'' then ''directory'' else ''file''),
      cr_value = owned\<rparr>"

definition insert_claim :: "plan \<Rightarrow> workstream \<Rightarrow> string \<Rightarrow> unit exec" where
  "insert_claim p w owned =
     seq (require (\<lambda>st. cr_id (ownership_of p w owned) \<notin> cr_id ` set (xs_claims st)
                      \<and> (p_planId p, owned) \<notin> (\<lambda>c. (cr_planId c, cr_value c)) ` set (xs_claims st)) ConstraintViolation)
       (\<lambda>_. update (\<lambda>st. st\<lparr>xs_claims := xs_claims st @ [ownership_of p w owned]\<rparr>))"

definition save_workstream :: "plan \<Rightarrow> workstream \<Rightarrow> unit exec" where
  "save_workstream p w =
     seq (insert_workstream p w) (\<lambda>_.
     seq (for_each (insert_dependency p w) (w_dependsOn w)) (\<lambda>_.
     case normalizeOwnership (w_ownedPaths w) of
       Inl e \<Rightarrow> raise e
     | Inr owned \<Rightarrow> seq (for_each (insert_claim p w) owned) (\<lambda>_. ok ())))"

definition savePlan :: "(string \<Rightarrow> bool) \<Rightarrow> (string \<Rightarrow> string \<Rightarrow> bool) \<Rightarrow> plan \<Rightarrow> plan exec" where
  "savePlan dt collate input =
     (let p = input\<lparr>p_status := Some (nullish (p_status input) PPlanned)\<rparr> in
      if \<not> plan_schema dt input then raise SchemaInvalid
      else if list_ex (\<lambda>w. w_planId w \<noteq> p_planId p \<or> w_runId w \<noteq> p_runId p) (p_workstreams p)
      then raise ExecutionPlanIdMismatch
      else case analyzeDependencies dt collate p of
        Inl e \<Rightarrow> raise e
      | Inr _ \<Rightarrow>
          tx (seq (require (\<lambda>st. plan_at (p_planId p) st = None) ExecutionPlanImmutable) (\<lambda>_.
              seq (insert_plan p) (\<lambda>_.
              seq (for_each (save_workstream p) (p_workstreams p)) (\<lambda>_. ok p)))))"

section \<open>Transitions\<close>

definition set_status ::
    "string \<Rightarrow> string \<Rightarrow> workstream_status \<Rightarrow> string option \<Rightarrow> string list \<Rightarrow> exec_store \<Rightarrow> exec_store" where
  "set_status pid wid s reason blocked st =
     st\<lparr>xs_workstreams := map (\<lambda>r. if w_planId r = pid \<and> w_id r = wid
          then r\<lparr>w_status := s, w_failureReason := reason, w_blockedBy := blocked\<rparr> else r) (xs_workstreams st)\<rparr>"

definition transitionWorkstream ::
    "(string \<Rightarrow> bool) \<Rightarrow> string \<Rightarrow> string \<Rightarrow> workstream_status \<Rightarrow> string option \<Rightarrow> string list \<Rightarrow> workstream exec" where
  "transitionWorkstream dt pid wid s reason blocked =
     tx (\<lambda>st.
       case workstream_at pid wid st of
         None \<Rightarrow> (Inl WorkstreamNotFound, st)
       | Some row \<Rightarrow>
           (case assertWorkstreamTransition (w_status row) s of
              Inl e \<Rightarrow> (Inl e, st)
            | Inr _ \<Rightarrow>
                seq (needPlan dt pid)
                  (\<lambda>p. case List.find (\<lambda>w. w_id w = wid) (p_workstreams p) of
                         None \<Rightarrow> raise WorkstreamNotFound | Some w \<Rightarrow> ok w)
                  (set_status pid wid s reason blocked st)))"

definition transitionPlanStatus :: "(string \<Rightarrow> bool) \<Rightarrow> string \<Rightarrow> string \<Rightarrow> plan_status \<Rightarrow> plan exec" where
  "transitionPlanStatus dt now pid s =
     tx (\<lambda>st.
       case plan_at pid st of
         None \<Rightarrow> (Inl ExecutionPlanNotFound, st)
       | Some row \<Rightarrow>
           (case assertPlanTransition (pl_status row) s of
              Inl e \<Rightarrow> (Inl e, st)
            | Inr _ \<Rightarrow>
                needPlan dt pid
                  (st\<lparr>xs_plans := map (\<lambda>r. if pl_id r = pid then
                      r\<lparr>pl_status := s,
                        pl_startedAt := (if s = PRunning \<and> pl_startedAt r = None then Some now else pl_startedAt r),
                        pl_completedAt := (if s \<in> {PSucceeded, PFailed, PCancelled, PSuperseded} then Some now
                                           else pl_completedAt r)\<rparr> else r) (xs_plans st)\<rparr>)))"

definition bindWorktree :: "string \<Rightarrow> string \<Rightarrow> string \<Rightarrow> string \<Rightarrow> unit exec" where
  "bindWorktree pid wid wt br =
     tx (\<lambda>st.
       case workstream_at pid wid st of
         None \<Rightarrow> (Inl WorkstreamNotFound, st)
       | Some row \<Rightarrow>
           if w_status row \<noteq> WPlanned \<and> w_status row \<noteq> WReady then (Inl WorktreeBindingTooLate, st)
           else (Inr (), st\<lparr>xs_workstreams := map (\<lambda>r. if w_planId r = pid \<and> w_id r = wid
                   then r\<lparr>w_worktreeRef := Some wt, w_branchRef := Some br\<rparr> else r) (xs_workstreams st)\<rparr>))"

definition status_in :: "plan \<Rightarrow> string \<Rightarrow> workstream_status option" where
  "status_in p wid = map_option w_status (List.find (\<lambda>w. w_id w = wid) (p_workstreams p))"

definition ready_in :: "plan \<Rightarrow> workstream \<Rightarrow> bool" where
  "ready_in p w \<longleftrightarrow> (w_status w = WPlanned \<or> w_status w = WReady)
     \<and> list_all (\<lambda>d. status_in p d = Some WSucceeded \<or> status_in p d = Some WIntegrated) (w_dependsOn w)"

definition listReady :: "(string \<Rightarrow> bool) \<Rightarrow> (string \<Rightarrow> string \<Rightarrow> bool) \<Rightarrow> string \<Rightarrow> workstream list exec" where
  "listReady dt collate pid =
     seq (needPlan dt pid)
       (\<lambda>p. ok (sort_by (\<lambda>a b. collate (w_id a) (w_id b)) (filter (ready_in p) (p_workstreams p))))"

section \<open>The propagation of failures\<close>

text \<open>One round of the loop: the plan is read once, then each hit workstream is blocked.\<close>

definition doomed :: "workstream_status \<Rightarrow> bool" where
  "doomed s \<longleftrightarrow> s = WFailed \<or> s = WBlocked \<or> s = WCancelled"

definition blockers_in :: "plan \<Rightarrow> workstream \<Rightarrow> string list" where
  "blockers_in p w = filter (\<lambda>d. case status_in p d of None \<Rightarrow> False | Some s \<Rightarrow> doomed s) (w_dependsOn w)"

definition to_block :: "plan \<Rightarrow> workstream list" where
  "to_block p = filter (\<lambda>w. (w_status w = WPlanned \<or> w_status w = WReady) \<and> blockers_in p w \<noteq> []) (p_workstreams p)"

definition block_one :: "(string \<Rightarrow> bool) \<Rightarrow> string \<Rightarrow> plan \<Rightarrow> workstream \<Rightarrow> string exec" where
  "block_one dt pid p w =
     seq (transitionWorkstream dt pid (w_id w) WBlocked (Some ''DEPENDENCY_FAILED'') (blockers_in p w)) (\<lambda>_. ok (w_id w))"

definition propagate_round :: "(string \<Rightarrow> bool) \<Rightarrow> string \<Rightarrow> string list exec" where
  "propagate_round dt pid = seq (needPlan dt pid) (\<lambda>p. for_each (block_one dt pid p) (to_block p))"

text \<open>Every round that blocks something leaves fewer workstreams that could still be blocked.\<close>

definition pending :: "string \<Rightarrow> exec_store \<Rightarrow> nat" where
  "pending pid st = length (filter (\<lambda>r. w_planId r = pid \<and> (w_status r = WPlanned \<or> w_status r = WReady)) (xs_workstreams st))"

lemma seq_Inr: "seq m k st = (Inr y, st') \<longleftrightarrow> (\<exists>x st1. m st = (Inr x, st1) \<and> k x st1 = (Inr y, st'))"
  by (auto simp: seq_def split: prod.splits sum.splits)

lemma tx_Inr: "tx m st = (Inr y, st') \<longleftrightarrow> m st = (Inr y, st')"
  by (auto simp: tx_def split: prod.splits sum.splits)

lemma ok_Inr: "ok x st = (Inr y, st') \<longleftrightarrow> y = x \<and> st' = st"
  by (auto simp: ok_def)

lemma raise_Inr: "raise e st = (Inr y, st') \<longleftrightarrow> False"
  by (simp add: raise_def)

lemma getPlan_state: "snd (getPlan dt pid st) = st"
  by (simp add: getPlan_def split: option.split)

lemma needPlan_Inr: "needPlan dt pid st = (Inr p, st') \<longleftrightarrow> getPlan dt pid st = (Inr (Some p), st) \<and> st' = st"
proof -
  obtain q where q: "getPlan dt pid st = (q, st)" using getPlan_state by (metis prod.collapse)
  show ?thesis
  proof (cases q)
    case (Inr o')
    then show ?thesis using q by (cases o') (auto simp: needPlan_def seq_def ok_def raise_def)
  qed (use q in \<open>auto simp: needPlan_def seq_def\<close>)
qed

lemma transition_Inr:
  assumes "transitionWorkstream dt pid wid s reason blocked st = (Inr w, st')"
  shows "\<exists>row. workstream_at pid wid st = Some row \<and> s \<in> set (workstream_transitions (w_status row))"
    and "st' = set_status pid wid s reason blocked st"
proof -
  define q where "q = set_status pid wid s reason blocked st"
  note t = assms [unfolded transitionWorkstream_def tx_Inr q_def [symmetric]]
  obtain row where row: "workstream_at pid wid st = Some row" using t by (cases "workstream_at pid wid st") simp_all
  have s: "s \<in> set (workstream_transitions (w_status row))"
    using t by (simp add: row assertWorkstreamTransition_def split: if_splits)
  then show "\<exists>row. workstream_at pid wid st = Some row \<and> s \<in> set (workstream_transitions (w_status row))"
    using row by blast
  define k where "k = (\<lambda>p :: plan. case List.find (\<lambda>w. w_id w = wid) (p_workstreams p) of
      None \<Rightarrow> raise WorkstreamNotFound | Some w \<Rightarrow> ok w)"
  have "seq (needPlan dt pid) k q = (Inr w, st')"
    using t s by (simp add: row assertWorkstreamTransition_def k_def)
  then obtain p where "k p q = (Inr w, st')" unfolding seq_Inr needPlan_Inr by blast
  then have "st' = q" by (auto simp: k_def ok_Inr raise_Inr split: option.splits)
  then show "st' = set_status pid wid s reason blocked st" by (simp only: q_def)
qed

lemma filter_shrinks:
  assumes "\<And>y. Q y \<Longrightarrow> P y" and "x \<in> set xs" "P x" "\<not> Q x"
  shows "length (filter Q xs) < length (filter P xs)"
proof -
  have "filter Q xs = filter Q (filter P xs)" using assms(1) by (simp add: conj_absorb cong: conj_cong) (metis filter_filter)
  moreover have "length (filter Q (filter P xs)) < length (filter P xs)"
    by (rule length_filter_less [of x]) (use assms(2-4) in simp_all)
  ultimately show ?thesis by simp
qed

lemma pending_set_status:
  assumes "workstream_at pid wid st = Some row" and "w_status row = WPlanned \<or> w_status row = WReady"
    and "s \<noteq> WPlanned" "s \<noteq> WReady"
  shows "pending pid (set_status pid wid s reason blocked st) < pending pid st"
proof -
  let ?P = "\<lambda>r :: workstream. w_planId r = pid \<and> (w_status r = WPlanned \<or> w_status r = WReady)"
  let ?Q = "\<lambda>r :: workstream. w_planId r = pid \<and> (w_status r = WPlanned \<or> w_status r = WReady) \<and> w_id r \<noteq> wid"
  have row: "row \<in> set (xs_workstreams st)" "w_planId row = pid" "w_id row = wid"
    using find_SomeD [OF assms(1) [unfolded workstream_at_def]] by simp_all
  let ?u = "\<lambda>r :: workstream. if w_planId r = pid \<and> w_id r = wid
     then r\<lparr>w_status := s, w_failureReason := reason, w_blockedBy := blocked\<rparr> else r"
  have "(?P \<circ> ?u) r = ?Q r" for r :: workstream using assms(3,4) by (cases "w_planId r = pid"; cases "w_id r = wid") simp_all
  then have "?P \<circ> ?u = ?Q" by (rule ext)
  moreover have "xs_workstreams (set_status pid wid s reason blocked st) = map ?u (xs_workstreams st)"
    by (simp add: set_status_def)
  ultimately have "pending pid (set_status pid wid s reason blocked st) = length (filter ?Q (xs_workstreams st))"
    by (simp only: pending_def filter_map length_map)
  also have "\<dots> < length (filter ?P (xs_workstreams st))"
    by (rule filter_shrinks [of ?Q ?P row]) (use row assms(2) in simp_all)
  finally show ?thesis by (simp add: pending_def)
qed

lemma block_one_pending:
  assumes "block_one dt pid p w st = (Inr i, st')"
  shows "pending pid st' < pending pid st"
proof -
  obtain x where t: "transitionWorkstream dt pid (w_id w) WBlocked (Some ''DEPENDENCY_FAILED'') (blockers_in p w) st = (Inr x, st')"
    using assms by (auto simp: block_one_def seq_Inr ok_Inr)
  obtain row where row: "workstream_at pid (w_id w) st = Some row" "WBlocked \<in> set (workstream_transitions (w_status row))"
    using transition_Inr(1) [OF t] by blast
  then have "w_status row = WPlanned" by (cases "w_status row") simp_all
  then show ?thesis using pending_set_status [OF row(1)] transition_Inr(2) [OF t] by simp
qed

lemma blocks_pending:
  "for_each (block_one dt pid p) ws st = (Inr is, st') \<Longrightarrow> pending pid st' \<le> pending pid st \<and> (is \<noteq> [] \<longrightarrow> pending pid st' < pending pid st)"
proof (induction ws arbitrary: st "is")
  case (Cons w ws)
  then obtain i st1 js where s: "block_one dt pid p w st = (Inr i, st1)" "for_each (block_one dt pid p) ws st1 = (Inr js, st')"
    by (auto simp: seq_Inr ok_Inr)
  then show ?case using Cons.IH [OF s(2)] block_one_pending [OF s(1)] by linarith
qed (simp add: ok_Inr)

lemma round_pending:
  "propagate_round dt pid st = (Inr is, st') \<Longrightarrow> is \<noteq> [] \<Longrightarrow> pending pid st' < pending pid st"
  using blocks_pending by (fastforce simp: propagate_round_def seq_Inr needPlan_Inr)

function propagate_loop :: "(string \<Rightarrow> bool) \<Rightarrow> string \<Rightarrow> string list exec" where
  "propagate_loop dt pid st =
     (case propagate_round dt pid st of
        (Inl e, st') \<Rightarrow> (Inl e, st')
      | (Inr [], st') \<Rightarrow> (Inr [], st')
      | (Inr (i # is), st') \<Rightarrow>
          (case propagate_loop dt pid st' of
             (Inl e, st'') \<Rightarrow> (Inl e, st'')
           | (Inr js, st'') \<Rightarrow> (Inr ((i # is) @ js), st'')))"
  by pat_completeness auto

termination
  by (relation "measure (\<lambda>(dt, pid, st). pending pid st)") (simp_all, metis round_pending list.distinct(1))

definition propagateDependencyFailures :: "(string \<Rightarrow> bool) \<Rightarrow> string \<Rightarrow> string list exec" where
  "propagateDependencyFailures dt pid = seq (propagate_loop dt pid) (\<lambda>blocked. ok (sort (js_unique blocked)))"

section \<open>The scheduler\<close>

definition settled_status :: "workstream_status \<Rightarrow> bool" where
  "settled_status s \<longleftrightarrow> s \<in> {WSucceeded, WFailed, WBlocked, WCancelled, WIntegrated, WSuperseded}"

definition finalizePlan :: "(string \<Rightarrow> bool) \<Rightarrow> string \<Rightarrow> string \<Rightarrow> unit exec" where
  "finalizePlan dt now pid =
     seq (getPlan dt pid) (\<lambda>q. case q of
        None \<Rightarrow> ok ()
      | Some p \<Rightarrow>
          if p_status p = Some PRunning \<and> list_all (\<lambda>w. settled_status (w_status w)) (p_workstreams p)
             \<and> list_ex (\<lambda>w. doomed (w_status w)) (p_workstreams p)
          then seq (transitionPlanStatus dt now pid PFailed) (\<lambda>_. ok ()) else ok ())"

record scheduler_result =
  sr_started :: "string list"
  sr_succeeded :: "string list"
  sr_failed :: "string list"
  sr_blocked :: "string list"

definition move :: "(string \<Rightarrow> bool) \<Rightarrow> string \<Rightarrow> workstream_status \<Rightarrow> workstream \<Rightarrow> workstream exec" where
  "move dt pid s w = transitionWorkstream dt pid (w_id w) s None []"

text \<open>
  \<open>execute\<close> tells whether the injected executor succeeds; a throw of it counts as a failure. Run in
  parallel, all calls are started before the first error among them is reported.
\<close>

fun start_all :: "('a \<Rightarrow> 'b exec) \<Rightarrow> 'a list \<Rightarrow> 'b list exec" where
  "start_all f [] st = (Inr [], st)"
| "start_all f (x # xs) st =
     (let (r, st1) = f x st; (rs, st2) = start_all f xs st1
      in (case r of Inl e \<Rightarrow> Inl e | Inr y \<Rightarrow> map_sum id (\<lambda>ys. y # ys) rs, st2))"

definition start_one :: "(string \<Rightarrow> bool) \<Rightarrow> (workstream \<Rightarrow> bool) \<Rightarrow> string \<Rightarrow> workstream \<Rightarrow> (string \<times> bool) exec" where
  "start_one dt execute pid w = seq (move dt pid WRunning w) (\<lambda>_. ok (w_id w, execute w))"

definition finish_one :: "(string \<Rightarrow> bool) \<Rightarrow> string \<Rightarrow> string \<times> bool \<Rightarrow> (string \<times> bool) exec" where
  "finish_one dt pid r =
     seq (if snd r then transitionWorkstream dt pid (fst r) WSucceeded None []
          else transitionWorkstream dt pid (fst r) WFailed (Some ''WORKSTREAM_EXECUTION_FAILED'') [])
       (\<lambda>_. ok r)"

definition dispatch_ready ::
    "(string \<Rightarrow> bool) \<Rightarrow> (string \<Rightarrow> string \<Rightarrow> bool) \<Rightarrow> (workstream \<Rightarrow> bool) \<Rightarrow> bool \<Rightarrow> string \<Rightarrow> (string \<times> bool) list exec" where
  "dispatch_ready dt collate execute parallel pid =
     seq (listReady dt collate pid) (\<lambda>ready.
     seq (for_each (move dt pid WReady) ready) (\<lambda>_.
     seq (listReady dt collate pid) (\<lambda>dispatchable.
       if parallel then start_all (start_one dt execute pid) dispatchable
       else for_each (start_one dt execute pid) dispatchable)))"

definition start_plan :: "(string \<Rightarrow> bool) \<Rightarrow> string \<Rightarrow> string \<Rightarrow> unit exec" where
  "start_plan dt now pid =
     seq (needPlan dt pid) (\<lambda>p.
       if nullish (p_status p) PPlanned = PPlanned
       then seq (transitionPlanStatus dt now pid PRunning) (\<lambda>_. ok ()) else ok ())"

definition runReady ::
    "(string \<Rightarrow> bool) \<Rightarrow> (string \<Rightarrow> string \<Rightarrow> bool) \<Rightarrow> string \<Rightarrow> (workstream \<Rightarrow> bool) \<Rightarrow> bool \<Rightarrow> string
      \<Rightarrow> scheduler_result exec" where
  "runReady dt collate now execute parallel pid =
     seq (start_plan dt now pid) (\<lambda>_.
     seq (dispatch_ready dt collate execute parallel pid) (\<lambda>outcomes.
     seq (for_each (finish_one dt pid) (sort_by (\<lambda>a b. collate (fst a) (fst b)) outcomes)) (\<lambda>done'.
     seq (propagateDependencyFailures dt pid) (\<lambda>blocked.
     seq (finalizePlan dt now pid) (\<lambda>_.
       ok \<lparr>sr_started = sort (map fst outcomes), sr_succeeded = sort (map fst (filter snd done')),
           sr_failed = sort (map fst (filter (\<lambda>r. \<not> snd r) done')), sr_blocked = sort blocked\<rparr>)))))"

section \<open>Leases\<close>

definition live_lease :: "exec_lease \<Rightarrow> bool" where
  "live_lease l \<longleftrightarrow> le_state l \<in> {LsRequested, LsAllocated, LsActive, LsRenewing}"

text \<open>
  The constraints of the table, which SQLite checks at every write: the primary key, \<open>UNIQUE(worktree_id, state)\<close> and
  \<open>UNIQUE(workstream_id, state)\<close> (\<open>migration-v3-execution.ts\<close>), and the partial unique indexes on worktree and
  workstream over the live states (\<open>migration-v5-execution-constraints.ts\<close>).
\<close>

definition leases_ok :: "exec_lease list \<Rightarrow> bool" where
  "leases_ok ls \<longleftrightarrow> distinct (map le_id ls)
     \<and> distinct (map (\<lambda>l. (le_worktreeId l, le_state l)) ls) \<and> distinct (map (\<lambda>l. (le_workstreamId l, le_state l)) ls)
     \<and> distinct (map le_worktreeId (filter live_lease ls)) \<and> distinct (map le_workstreamId (filter live_lease ls))"

definition set_leases :: "exec_lease list \<Rightarrow> unit exec" where
  "set_leases ls st = (if leases_ok ls then (Inr (), st\<lparr>xs_leases := ls\<rparr>) else (Inl ConstraintViolation, st))"

definition lease_at :: "string \<Rightarrow> exec_store \<Rightarrow> exec_lease option" where
  "lease_at lid st = List.find (\<lambda>l. le_id l = lid) (xs_leases st)"

definition update_lease :: "string \<Rightarrow> (exec_lease \<Rightarrow> exec_lease) \<Rightarrow> unit exec" where
  "update_lease lid f st = set_leases (map (\<lambda>l. if le_id l = lid then f l else l) (xs_leases st)) st"

text \<open>Another live lease that has not expired. The comparison is one of texts.\<close>

definition lease_conflict :: "string \<Rightarrow> exec_lease \<Rightarrow> exec_store \<Rightarrow> bool" where
  "lease_conflict clock i st \<longleftrightarrow>
     list_ex (\<lambda>l. (le_worktreeId l = le_worktreeId i \<or> le_workstreamId l = le_workstreamId i) \<and> live_lease l
                \<and> clock < le_expiresAt l) (xs_leases st)"

definition acquireLease :: "string \<Rightarrow> exec_lease \<Rightarrow> exec_lease exec" where
  "acquireLease clock i =
     tx (seq (require (\<lambda>st. \<not> lease_conflict clock i st) WorktreeLeaseConflict) (\<lambda>_.
         seq (require (\<lambda>st. workstream_at (le_planId i) (le_workstreamId i) st \<noteq> None) ConstraintViolation) (\<lambda>_.
         seq (\<lambda>st. set_leases (xs_leases st @ [i\<lparr>le_state := LsAllocated\<rparr>]) st) (\<lambda>_.
         ok (i\<lparr>le_state := LsAllocated\<rparr>)))))"

definition read_lease :: "string \<Rightarrow> exec_lease option exec" where
  "read_lease lid st = (Inr (lease_at lid st), st)"

definition live_update :: "string \<Rightarrow> (exec_lease \<Rightarrow> exec_lease) \<Rightarrow> exec_lease option exec" where
  "live_update lid f =
     tx (seq (require (\<lambda>st. \<exists>l \<in> set (xs_leases st). le_id l = lid \<and> live_lease l) LeaseNotActive) (\<lambda>_.
         seq (update_lease lid f) (\<lambda>_. read_lease lid)))"

definition activateLease :: "string \<Rightarrow> exec_lease option exec" where
  "activateLease lid = live_update lid (\<lambda>l. l\<lparr>le_state := LsActive\<rparr>)"

definition renewLease :: "string \<Rightarrow> string \<Rightarrow> string \<Rightarrow> exec_lease option exec" where
  "renewLease lid renewed expires =
     live_update lid (\<lambda>l. l\<lparr>le_renewedAt := renewed, le_expiresAt := expires, le_state := LsRenewing\<rparr>)"

definition completeLease :: "string \<Rightarrow> exec_lease option exec" where
  "completeLease lid = live_update lid (\<lambda>l. l\<lparr>le_state := LsCompleted\<rparr>)"

definition releaseLease :: "string \<Rightarrow> exec_lease option exec" where
  "releaseLease lid =
     tx (seq (update_lease lid (\<lambda>l. if le_state l \<noteq> LsReleased then l\<lparr>le_state := LsReleased\<rparr> else l)) (\<lambda>_. read_lease lid))"

definition reclaimExpired :: "string \<Rightarrow> nat exec" where
  "reclaimExpired now =
     tx (\<lambda>st.
       let hit = (\<lambda>l. live_lease l \<and> le_expiresAt l \<le> now)
       in seq (set_leases (map (\<lambda>l. if hit l then l\<lparr>le_state := LsReclaimable\<rparr> else l) (xs_leases st)))
            (\<lambda>_. ok (length (filter hit (xs_leases st)))) st)"

definition listLeases :: "string \<Rightarrow> exec_store \<Rightarrow> exec_lease list" where
  "listLeases rid st = sort_key le_acquiredAt (filter (\<lambda>l. le_runId l = rid) (xs_leases st))"

definition listAllLeases :: "exec_store \<Rightarrow> exec_lease list" where
  "listAllLeases st = sort_key le_acquiredAt (sort_key le_id (xs_leases st))"

section \<open>Cancelling a plan\<close>

definition cancelPlan :: "(string \<Rightarrow> bool) \<Rightarrow> string \<Rightarrow> string \<Rightarrow> string \<Rightarrow> plan exec" where
  "cancelPlan dt now pid reason =
     seq (needPlan dt pid) (\<lambda>p.
     seq (for_each (\<lambda>w. transitionWorkstream dt pid (w_id w) WCancelled (Some reason) [])
            (filter (\<lambda>w. w_status w \<in> {WPlanned, WReady, WRunning}) (p_workstreams p))) (\<lambda>_.
     seq (\<lambda>st. for_each (\<lambda>l. releaseLease (le_id l))
            (filter (\<lambda>l. le_state l \<in> {LsAllocated, LsActive, LsRenewing}) (listLeases (p_runId p) st)) st) (\<lambda>_.
     transitionPlanStatus dt now pid PCancelled)))"

section \<open>Integration attempts and recovery\<close>

definition recordIntegration :: "integration_attempt \<Rightarrow> integration_attempt exec" where
  "recordIntegration a =
     tx (seq (require (\<lambda>st. ia_id a \<notin> ia_id ` set (xs_attempts st)
            \<and> workstream_at (ia_planId a) (ia_workstreamId a) st \<noteq> None
            \<and> (ia_status a = AtIntegrated \<longrightarrow>
                 \<not> (\<exists>x \<in> set (xs_attempts st). ia_workstreamId x = ia_workstreamId a \<and> ia_status x = AtIntegrated)))
          ConstraintViolation) (\<lambda>_.
         seq (update (\<lambda>st. st\<lparr>xs_attempts := xs_attempts st @ [a]\<rparr>)) (\<lambda>_. ok a)))"

definition listIntegrationAttempts :: "attempt_status option \<Rightarrow> exec_store \<Rightarrow> integration_attempt list" where
  "listIntegrationAttempts s st =
     sort_key (\<lambda>a. ia_createdAt a) (sort_key ia_id
       (filter (\<lambda>a. case s of None \<Rightarrow> True | Some x \<Rightarrow> ia_status a = x) (xs_attempts st)))"

definition hasIntegrated :: "string \<Rightarrow> exec_store \<Rightarrow> bool" where
  "hasIntegrated wid st \<longleftrightarrow> list_ex (\<lambda>a. ia_workstreamId a = wid \<and> ia_status a = AtIntegrated) (xs_attempts st)"

definition repair_one :: "integration_attempt \<Rightarrow> nat exec" where
  "repair_one a st =
     (case workstream_at (ia_planId a) (ia_workstreamId a) st of
        None \<Rightarrow> (Inr 0, st)
      | Some row \<Rightarrow>
          if w_status row = WSucceeded \<or> w_status row = WIntegrationPending
          then (Inr 1, st\<lparr>xs_workstreams := map (\<lambda>r. if w_planId r = ia_planId a \<and> w_id r = ia_workstreamId a
                  then r\<lparr>w_status := WIntegrated\<rparr> else r) (xs_workstreams st)\<rparr>)
          else (Inr 0, st))"

definition reconcileIntegratedAttempts :: "nat exec" where
  "reconcileIntegratedAttempts =
     tx (\<lambda>st. seq (for_each repair_one (filter (\<lambda>a. ia_status a = AtIntegrated) (xs_attempts st)))
                (\<lambda>ns. ok (sum_list ns)) st)"

definition recover_one :: "(string \<Rightarrow> bool) \<Rightarrow> string \<times> string \<Rightarrow> string exec" where
  "recover_one dt row =
     (case row of (pid, wid) \<Rightarrow>
        seq (transitionWorkstream dt pid wid WReady (Some ''ORCHESTRATOR_RESTART'') []) (\<lambda>_.
        seq (tx (\<lambda>st. set_leases (map (\<lambda>l. if le_planId l = pid \<and> le_workstreamId l = wid \<and> live_lease l
                                        then l\<lparr>le_state := LsReclaimable\<rparr> else l) (xs_leases st)) st)) (\<lambda>_.
        ok (pid @ '':'' @ wid))))"

record recovery =
  rv_recovered :: "string list"
  rv_reclaimed :: nat
  rv_repaired :: nat

definition running_rows :: "exec_store \<Rightarrow> (string \<times> string) list" where
  "running_rows st = map (\<lambda>r. (w_planId r, w_id r))
     (sort_key w_planId (sort_key w_id (filter (\<lambda>r. w_status r = WRunning) (xs_workstreams st))))"

definition exec_recoverAfterRestart :: "(string \<Rightarrow> bool) \<Rightarrow> string \<Rightarrow> recovery exec" where
  "exec_recoverAfterRestart dt now =
     seq reconcileIntegratedAttempts (\<lambda>repaired.
     seq (\<lambda>st. for_each (recover_one dt) (running_rows st) st) (\<lambda>recovered.
     seq (reclaimExpired now) (\<lambda>reclaimed.
     ok \<lparr>rv_recovered = recovered, rv_reclaimed = reclaimed, rv_repaired = repaired\<rparr>)))"

end
