(* ===== verification/Integration.thy ===== *)
theory Integration
  imports Execution
begin

text \<open>
  Worktrees and integration: the integration service (\<open>orchestration/execution/integration.ts\<close>), the execution of a
  plan wave by wave in worktrees (\<open>worktree-executor.ts\<close>) and the identifiers of worktrees
  (\<open>worktree-manager.ts\<close>).

  Git and the file system are outside. What they answer during one integration is a \<open>git_view\<close>, during the
  execution of a plan a \<open>run_env\<close>: the sources, times, generated ids, allocations, and the results of the
  injected executor. Budgets and performance records are other services and do not touch these tables.
\<close>

section \<open>Identifiers of worktrees\<close>

definition safe_char :: "char \<Rightarrow> bool" where
  "safe_char c \<longleftrightarrow> is_alpha c \<or> is_digit c \<or> c = CHR ''.'' \<or> c = CHR ''_'' \<or> c = CHR ''-''"

text \<open>\<open>replace(/[^A-Za-z0-9._-]+/g, "-")\<close>: each run of other characters becomes one dash.\<close>

fun dash_unsafe :: "bool \<Rightarrow> string \<Rightarrow> string" where
  "dash_unsafe in_run [] = []"
| "dash_unsafe in_run (c # cs) =
     (if safe_char c then c # dash_unsafe False cs
      else if in_run then dash_unsafe True cs else CHR ''-'' # dash_unsafe True cs)"

text \<open>\<open>replace(/\.\.+/g, "-")\<close>: each run of two or more dots becomes one dash.\<close>

fun dash_dots :: "nat \<Rightarrow> string \<Rightarrow> string" where
  "dash_dots n [] = (if n = 0 then [] else if n = 1 then ''.'' else ''-'')"
| "dash_dots n (c # cs) =
     (if c = CHR ''.'' then dash_dots (Suc n) cs
      else (if n = 0 then [] else if n = 1 then ''.'' else ''-'') @ c # dash_dots 0 cs)"

definition strip_dashes :: "string \<Rightarrow> string" where
  "strip_dashes s = rev (dropWhile (\<lambda>c. c = CHR ''-'') (rev (dropWhile (\<lambda>c. c = CHR ''-'') s)))"

definition safePart :: "string \<Rightarrow> exec_error + string" where
  "safePart value =
     (let out = strip_dashes (dash_dots 0 (dash_unsafe False value))
      in if out = [] \<or> out = ''.'' then Inl UnsafeWorktreeIdentifier else Inr (take 80 out))"

record allocation =
  al_worktreeId :: string
  al_workspace :: string
  al_branch :: string
  al_sourceSha :: string

text \<open>
  \<open>place\<close> is the path of an identifier below the root, if it is contained there and free; \<open>git_add\<close> tells
  whether git created the worktree.
\<close>

definition allocate ::
    "(string \<Rightarrow> string option) \<Rightarrow> (string \<Rightarrow> bool) \<Rightarrow> string \<Rightarrow> string \<Rightarrow> string \<Rightarrow> exec_error + allocation" where
  "allocate place git_add rid wid sha =
     (if \<not> schema_sha sha then Inl InvalidSourceSha
      else case safePart rid of
        Inl e \<Rightarrow> Inl e
      | Inr r \<Rightarrow>
          (case safePart wid of
             Inl e \<Rightarrow> Inl e
           | Inr w \<Rightarrow>
               let wt = r @ ''-'' @ w; branch = ''flowdeck/'' @ wt in
               (case place wt of
                  None \<Rightarrow> Inl WorktreeCollision
                | Some workspace \<Rightarrow>
                    if git_add branch
                    then Inr \<lparr>al_worktreeId = wt, al_workspace = workspace, al_branch = branch, al_sourceSha = sha\<rparr>
                    else Inl (GitFailed ''worktree add''))))"

section \<open>Integrating a branch\<close>

text \<open>
  What git answers: whether the head can be read, whether the base is an ancestor of the head and of the
  branch, the lines of the list of changed files, which of them leave the worktree, and the message of a
  merge that fails. \<open>gv_text\<close> is the message of an error.
\<close>

record git_view =
  gv_head :: bool
  gv_base :: bool
  gv_branch :: bool
  gv_diff :: "string list option"
  gv_escapes :: "string \<Rightarrow> exec_error option"
  gv_merge :: "string option"
  gv_text :: "exec_error \<Rightarrow> string"
  gv_id :: string
  gv_now :: string

text \<open>A test of an answer that may be missing.\<close>

definition answer :: "('a \<Rightarrow> bool) \<Rightarrow> 'a option \<Rightarrow> bool" where
  "answer P v = (case v of None \<Rightarrow> False | Some x \<Rightarrow> P x)"

definition catch' :: "'a exec \<Rightarrow> (exec_error \<Rightarrow> 'a exec) \<Rightarrow> 'a exec" where
  "catch' m h st = (case m st of (Inl e, st') \<Rightarrow> h e st' | (Inr x, st') \<Rightarrow> (Inr x, st'))"

definition swallow :: "'a exec \<Rightarrow> unit exec" where
  "swallow m = catch' (seq m (\<lambda>_. ok ())) (\<lambda>_. ok ())"

definition changed_names :: "string list \<Rightarrow> string list" where
  "changed_names ls = filter (\<lambda>s. s \<noteq> []) (map trim ls)"

text \<open>The first changed name that the workstream may not change.\<close>

fun check_names :: "git_view \<Rightarrow> workstream \<Rightarrow> string list \<Rightarrow> exec_error option" where
  "check_names g w [] = None"
| "check_names g w (name # ns) =
     (let p = normal_path name in
      if \<not> list_ex (pathOwnedBy p) (w_ownedPaths w) then Some (OwnershipViolation p)
      else case gv_escapes g p of Some e \<Rightarrow> Some e | None \<Rightarrow> check_names g w ns)"

definition attempt_row :: "workstream \<Rightarrow> string \<Rightarrow> string \<Rightarrow> string \<Rightarrow> string \<Rightarrow> attempt_status \<Rightarrow> json \<Rightarrow> json \<Rightarrow> string option
      \<Rightarrow> string option \<Rightarrow> integration_attempt" where
  "attempt_row w sha branch aid now s verification evidence err completed =
     \<lparr>ia_id = aid, ia_planId = w_planId w, ia_workstreamId = w_id w, ia_sourceSha = sha, ia_branch = branch,
      ia_status = s, ia_verification = verification, ia_evidence = evidence, ia_error = err, ia_createdAt = now,
      ia_completedAt = completed\<rparr>"

definition changed_files :: "string list \<Rightarrow> json" where
  "changed_files names = JObj [(''changedFiles'', JArr (map JStr names))]"

definition to_integrated :: "(string \<Rightarrow> bool) \<Rightarrow> workstream \<Rightarrow> unit exec" where
  "to_integrated dt w =
     seq (transitionWorkstream dt (w_planId w) (w_id w) WIntegrationPending None []) (\<lambda>_.
     seq (transitionWorkstream dt (w_planId w) (w_id w) WIntegrated None []) (\<lambda>_. ok ()))"

definition merge_branch :: "(string \<Rightarrow> bool) \<Rightarrow> git_view \<Rightarrow> workstream \<Rightarrow> string \<Rightarrow> string \<Rightarrow> string list \<Rightarrow> unit exec" where
  "merge_branch dt g w sha branch names =
     (let attempt = ''integration-'' @ w_id w @ ''-'' @ gv_id g in
      seq (recordIntegration (attempt_row w sha branch attempt (gv_now g) AtStarted (JObj []) (JObj []) None None)) (\<lambda>_.
      catch'
        (seq (case gv_merge g of Some m \<Rightarrow> raise (GitFailed m) | None \<Rightarrow> ok ()) (\<lambda>_.
         seq (recordIntegration (attempt_row w sha branch (attempt @ ''-complete'') (gv_now g) AtIntegrated
                (JObj [(''clean'', JBool True)]) (changed_files names) None (Some (gv_now g)))) (\<lambda>_.
         to_integrated dt w)))
        (\<lambda>e. seq (swallow (recordIntegration (attempt_row w sha branch (attempt @ ''-failed'') (gv_now g)
                (if str_includes (gv_text g e) ''CONFLICT'' then AtConflict else AtFailed) (JObj [])
                (changed_files names) (Some (gv_text g e)) (Some (gv_now g))))) (\<lambda>_. raise e))))"

definition integrate :: "(string \<Rightarrow> bool) \<Rightarrow> git_view \<Rightarrow> workstream \<Rightarrow> string \<Rightarrow> string \<Rightarrow> unit exec" where
  "integrate dt g w sha branch =
     (if w_status w \<noteq> WSucceeded \<and> w_status w \<noteq> WIntegrationPending then raise IntegrationStatusInvalid
      else seq (require (\<lambda>st. \<not> hasIntegrated (w_id w) st) IntegrationAlreadyComplete) (\<lambda>_.
        if \<not> gv_head g then raise (GitFailed ''rev-parse'')
        else if \<not> gv_base g then raise IntegrationBaseDrift
        else if \<not> gv_branch g then raise IntegrationBranchBaseMismatch
        else case gv_diff g of
          None \<Rightarrow> raise (GitFailed ''diff'')
        | Some ls \<Rightarrow>
            (case check_names g w (changed_names ls) of
               Some e \<Rightarrow> raise e
             | None \<Rightarrow> merge_branch dt g w sha branch (changed_names ls))))"

section \<open>Recovering interrupted integrations\<close>

text \<open>\<open>merged\<close> tells whether the branch of an attempt is reachable from the head.\<close>

definition workstream_in :: "plan \<Rightarrow> string \<Rightarrow> workstream option" where
  "workstream_in p wid = List.find (\<lambda>w. w_id w = wid) (p_workstreams p)"

definition recovered_row :: "string \<Rightarrow> integration_attempt \<Rightarrow> string \<Rightarrow> attempt_status \<Rightarrow> json \<Rightarrow> string option \<Rightarrow> integration_attempt" where
  "recovered_row now a suffix s verification err =
     \<lparr>ia_id = ia_id a @ suffix, ia_planId = ia_planId a, ia_workstreamId = ia_workstreamId a,
      ia_sourceSha = ia_sourceSha a, ia_branch = ia_branch a, ia_status = s, ia_verification = verification,
      ia_evidence = JObj [(''recoveredFrom'', JStr (ia_id a))], ia_error = err, ia_createdAt = now,
      ia_completedAt = Some now\<rparr>"

definition recover_merged :: "(string \<Rightarrow> bool) \<Rightarrow> string \<Rightarrow> integration_attempt \<Rightarrow> workstream \<Rightarrow> unit exec" where
  "recover_merged dt now a w =
     (let pid = ia_planId a; wid = ia_workstreamId a in
      seq (recordIntegration (recovered_row now a ''-recovered'' AtIntegrated (JObj [(''recovered'', JBool True)]) None)) (\<lambda>_.
      seq (if w_status w = WSucceeded
           then seq (transitionWorkstream dt pid wid WIntegrationPending None []) (\<lambda>_. ok ()) else ok ()) (\<lambda>_.
      seq (getPlan dt pid) (\<lambda>q.
        if answer (\<lambda>p. map_option w_status (workstream_in p wid) = Some WIntegrationPending) q
        then seq (transitionWorkstream dt pid wid WIntegrated None []) (\<lambda>_. ok ()) else ok ()))))"

definition recover_unmerged :: "(string \<Rightarrow> bool) \<Rightarrow> string \<Rightarrow> integration_attempt \<Rightarrow> workstream \<Rightarrow> unit exec" where
  "recover_unmerged dt now a w =
     (let pid = ia_planId a; wid = ia_workstreamId a in
      seq (recordIntegration (recovered_row now a ''-recovered-failed'' AtFailed (JObj []) (Some ''INTEGRATION_INTERRUPTED''))) (\<lambda>_.
      if w_status w = WSucceeded
      then seq (transitionWorkstream dt pid wid WIntegrationPending None []) (\<lambda>_.
           seq (transitionWorkstream dt pid wid WFailed (Some ''INTEGRATION_INTERRUPTED'') []) (\<lambda>_. ok ()))
      else ok ()))"

definition recover_attempt :: "(string \<Rightarrow> bool) \<Rightarrow> string \<Rightarrow> (integration_attempt \<Rightarrow> bool) \<Rightarrow> integration_attempt \<Rightarrow> nat exec" where
  "recover_attempt dt now merged a =
     seq (getPlan dt (ia_planId a)) (\<lambda>q.
       case q of
         None \<Rightarrow> ok 0
       | Some p \<Rightarrow>
           (case workstream_in p (ia_workstreamId a) of
              None \<Rightarrow> ok 0
            | Some w \<Rightarrow> (\<lambda>st. if hasIntegrated (ia_workstreamId a) st then ok 0 st
                else seq (if merged a then recover_merged dt now a w else recover_unmerged dt now a w) (\<lambda>_. ok 1) st)))"

definition integration_recoverAfterRestart :: "(string \<Rightarrow> bool) \<Rightarrow> string \<Rightarrow> (integration_attempt \<Rightarrow> bool) \<Rightarrow> nat exec" where
  "integration_recoverAfterRestart dt now merged =
     (\<lambda>st. seq (for_each (recover_attempt dt now merged) (listIntegrationAttempts (Some AtStarted) st))
             (\<lambda>ns. ok (sum_list ns)) st)"

text \<open>The recovery of the execution service. Removing worktrees is best effort and outside the tables.\<close>

definition release_reclaimable :: "(string \<Rightarrow> bool) \<Rightarrow> exec_lease \<Rightarrow> unit exec" where
  "release_reclaimable dt l = seq (getPlan dt (le_planId l)) (\<lambda>_. swallow (releaseLease (le_id l)))"

definition service_recoverAfterRestart ::
    "(string \<Rightarrow> bool) \<Rightarrow> string \<Rightarrow> (integration_attempt \<Rightarrow> bool) option \<Rightarrow> recovery exec" where
  "service_recoverAfterRestart dt now integration =
     seq (case integration of None \<Rightarrow> ok 0 | Some merged \<Rightarrow> integration_recoverAfterRestart dt now merged) (\<lambda>n.
     seq (exec_recoverAfterRestart dt now) (\<lambda>r.
     seq (\<lambda>st. for_each (release_reclaimable dt) (filter (\<lambda>l. le_state l = LsReclaimable) (listAllLeases st)) st) (\<lambda>_.
     ok (r\<lparr>rv_repaired := rv_repaired r + n\<rparr>))))"

section \<open>Executing a plan wave by wave\<close>

record facts =
  fc_succeeded :: bool
  fc_verified :: bool

record run_env =
  re_now :: "nat \<Rightarrow> string"
  re_clock :: "nat \<Rightarrow> string"
  re_expires :: "nat \<Rightarrow> string"
  re_head :: "nat \<Rightarrow> string"
  re_allocate :: "nat \<Rightarrow> workstream \<Rightarrow> string \<Rightarrow> exec_error + allocation"
  re_leaseId :: "nat \<Rightarrow> string \<Rightarrow> string"
  re_execute :: "nat \<Rightarrow> string \<Rightarrow> facts option"
  re_integration :: "(nat \<Rightarrow> workstream \<Rightarrow> git_view) option"

definition held_states :: "lease_state set" where
  "held_states = {LsAllocated, LsActive, LsRenewing}"

definition new_lease :: "run_env \<Rightarrow> nat \<Rightarrow> string \<Rightarrow> workstream \<Rightarrow> allocation \<Rightarrow> exec_lease" where
  "new_lease env n pid w a =
     \<lparr>le_id = re_leaseId env n (w_id w), le_runId = w_runId w, le_planId = pid, le_workstreamId = w_id w,
      le_agentId = w_resolvedAgent w, le_worktreeId = al_worktreeId a, le_workspace = al_workspace a,
      le_branch = al_branch a, le_acquiredAt = re_now env n, le_renewedAt = re_now env n,
      le_expiresAt = re_expires env n, le_state = LsRequested\<rparr>"

definition occupy :: "run_env \<Rightarrow> nat \<Rightarrow> string \<Rightarrow> workstream \<Rightarrow> allocation \<Rightarrow> unit exec" where
  "occupy env n pid w a =
     seq (bindWorktree pid (w_id w) (al_worktreeId a) (al_branch a)) (\<lambda>_.
     seq (acquireLease (re_clock env n) (new_lease env n pid w a)) (\<lambda>l.
     seq (activateLease (le_id l)) (\<lambda>_. ok ())))"

text \<open>
  The preparation of a wave. The allocations made so far survive an error, whose handler gives their
  leases back.
\<close>

fun prepare :: "run_env \<Rightarrow> nat \<Rightarrow> string \<Rightarrow> string \<Rightarrow> workstream list \<Rightarrow> (string \<times> allocation) list \<Rightarrow> exec_store
      \<Rightarrow> (exec_error option \<times> (string \<times> allocation) list) \<times> exec_store" where
  "prepare env n pid sha [] as st = ((None, as), st)"
| "prepare env n pid sha (w # ws) as st =
     (case re_allocate env n w sha of
        Inl e \<Rightarrow> ((Some e, as), st)
      | Inr a \<Rightarrow>
          (let as' = AList.update (w_id w) a as in
           case occupy env n pid w a st of
             (Inl e, st') \<Rightarrow> ((Some e, as'), st')
           | (Inr _, st') \<Rightarrow> prepare env n pid sha ws as' st'))"

definition held_lease :: "(exec_lease \<Rightarrow> bool) \<Rightarrow> string \<Rightarrow> exec_store \<Rightarrow> exec_lease option" where
  "held_lease P rid st = List.find (\<lambda>l. P l \<and> le_state l \<in> held_states) (listLeases rid st)"

definition give_back :: "(string \<Rightarrow> bool) \<Rightarrow> string \<Rightarrow> allocation \<Rightarrow> unit exec" where
  "give_back dt pid a =
     seq (needPlan dt pid) (\<lambda>p st.
       case held_lease (\<lambda>l. le_worktreeId l = al_worktreeId a) (p_runId p) st of
         None \<Rightarrow> (Inr (), st)
       | Some l \<Rightarrow> seq (releaseLease (le_id l)) (\<lambda>_. ok ()) st)"

definition prepare_wave :: "(string \<Rightarrow> bool) \<Rightarrow> run_env \<Rightarrow> nat \<Rightarrow> string \<Rightarrow> string \<Rightarrow> workstream list
      \<Rightarrow> (string \<times> allocation) list exec" where
  "prepare_wave dt env n pid sha ready st =
     (case prepare env n pid sha ready [] st of
        ((None, as), st') \<Rightarrow> (Inr as, st')
      | ((Some e, as), st') \<Rightarrow> seq (for_each (\<lambda>(_, a). give_back dt pid a) as) (\<lambda>_. raise e) st')"

text \<open>One workstream that succeeded: integrate it, or fail it.\<close>

definition settle_one :: "(string \<Rightarrow> bool) \<Rightarrow> run_env \<Rightarrow> nat \<Rightarrow> string \<Rightarrow> (string \<times> allocation) list \<Rightarrow> string \<Rightarrow> bool exec" where
  "settle_one dt env n pid as wid =
     catch'
       (seq (needPlan dt pid) (\<lambda>p.
          case re_integration env of
            None \<Rightarrow> ok True
          | Some view \<Rightarrow>
              if \<not> answer fc_verified (re_execute env n wid) then raise VerificationRequiredBeforeIntegration
              else (case (workstream_in p wid, map_of as wid) of
                      (Some w, Some a) \<Rightarrow> seq (integrate dt (view n w) w (al_sourceSha a) (al_branch a)) (\<lambda>_. ok True)
                    | _ \<Rightarrow> raise WorkstreamNotFound)))
       (\<lambda>_. seq (needPlan dt pid) (\<lambda>p.
          case workstream_in p wid of
            None \<Rightarrow> raise WorkstreamNotFound
          | Some w \<Rightarrow>
              if w_status w = WSucceeded
              then seq (transitionWorkstream dt pid wid WIntegrationPending None []) (\<lambda>_.
                   seq (transitionWorkstream dt pid wid WFailed (Some ''INTEGRATION_FAILED'') []) (\<lambda>_. ok False))
              else ok False))"

text \<open>The lease of a workstream is completed, errors ignored, and then released.\<close>

definition close_lease :: "(string \<Rightarrow> bool) \<Rightarrow> string \<Rightarrow> string \<Rightarrow> unit exec" where
  "close_lease dt pid wid =
     seq (needPlan dt pid) (\<lambda>p st.
       case held_lease (\<lambda>l. le_workstreamId l = wid) (p_runId p) st of
         None \<Rightarrow> (Inr (), st)
       | Some l \<Rightarrow> seq (swallow (completeLease (le_id l))) (\<lambda>_. seq (releaseLease (le_id l)) (\<lambda>_. ok ())) st)"

record wave_result =
  wr_started :: "string list"
  wr_succeeded :: "string list"
  wr_failed :: "string list"
  wr_blocked :: "string list"

definition run_wave :: "(string \<Rightarrow> bool) \<Rightarrow> (string \<Rightarrow> string \<Rightarrow> bool) \<Rightarrow> run_env \<Rightarrow> string \<Rightarrow> string \<Rightarrow> nat
      \<Rightarrow> wave_result option exec" where
  "run_wave dt collate env pid sha n =
     seq (listReady dt collate pid) (\<lambda>ready.
       if ready = [] then ok None
       else seq (prepare_wave dt env n pid (if re_integration env = None then sha else re_head env n) ready) (\<lambda>as.
         seq (runReady dt collate (re_now env n) (\<lambda>w. answer fc_succeeded (re_execute env n (w_id w))) True pid) (\<lambda>r.
         seq (for_each (\<lambda>wid. seq (settle_one dt env n pid as wid) (\<lambda>b. ok (wid, b))) (sort (sr_succeeded r))) (\<lambda>settled.
         seq (propagateDependencyFailures dt pid) (\<lambda>blocked.
         seq (for_each (\<lambda>(wid, _). close_lease dt pid wid) as) (\<lambda>_.
         ok (Some \<lparr>wr_started = sr_started r,
                   wr_succeeded = filter (\<lambda>wid. (wid, True) \<in> set settled) (sr_succeeded r),
                   wr_failed = sr_failed r @ map fst (filter (\<lambda>s. \<not> snd s) settled),
                   wr_blocked = sr_blocked r @ blocked\<rparr>)))))))"

fun run_waves :: "(string \<Rightarrow> bool) \<Rightarrow> (string \<Rightarrow> string \<Rightarrow> bool) \<Rightarrow> run_env \<Rightarrow> string \<Rightarrow> string \<Rightarrow> nat \<Rightarrow> nat
      \<Rightarrow> wave_result list exec" where
  "run_waves dt collate env pid sha 0 n = ok []"
| "run_waves dt collate env pid sha (Suc k) n =
     seq (run_wave dt collate env pid sha n) (\<lambda>r.
       case r of
         None \<Rightarrow> ok []
       | Some w \<Rightarrow> if wr_started w = [] then ok [w]
                   else seq (run_waves dt collate env pid sha k (Suc n)) (\<lambda>ws. ok (w # ws)))"

record plan_result =
  pr_succeeded :: "string list"
  pr_failed :: "string list"
  pr_blocked :: "string list"

definition executePlan :: "(string \<Rightarrow> bool) \<Rightarrow> (string \<Rightarrow> string \<Rightarrow> bool) \<Rightarrow> run_env \<Rightarrow> string \<Rightarrow> string \<Rightarrow> plan_result exec" where
  "executePlan dt collate env pid sha =
     seq (needPlan dt pid) (\<lambda>p.
       if p_sourceSha p \<noteq> sha then raise ExecutionSourceShaMismatch
       else seq (run_waves dt collate env pid sha 100 0) (\<lambda>waves.
         seq (getPlan dt pid) (\<lambda>q.
         seq (case q of
                None \<Rightarrow> ok ()
              | Some f \<Rightarrow>
                  if nullish (p_status f) PPlanned = PRunning
                     \<and> list_all (\<lambda>w. w_status w \<in> {WSucceeded, WIntegrated, WSuperseded}) (p_workstreams f)
                  then seq (transitionPlanStatus dt (re_now env 0) pid PSucceeded) (\<lambda>_. ok ()) else ok ()) (\<lambda>_.
         ok \<lparr>pr_succeeded = sort (concat (map wr_succeeded waves)), pr_failed = sort (concat (map wr_failed waves)),
             pr_blocked = sort (concat (map wr_blocked waves))\<rparr>))))"

end
