(* ===== verification/Execution_Laws.thy ===== *)
theory Execution_Laws
  imports Integration
begin

text \<open>
  What holds of the execution of plans. \<open>table_order\<close> is the interface of a law about the tables,
  \<open>scheduler_order\<close> and \<open>store_order\<close> ask for it only of the primitive operations and give it for all. \<open>preserves\<close> carries a reflexive and transitive relation between
  tables through sequences, loops and transactions, so that a law about a whole operation follows from the
  transitions it is made of.
\<close>

section \<open>Relations kept by operations\<close>

definition preserves :: "(exec_store \<Rightarrow> exec_store \<Rightarrow> bool) \<Rightarrow> 'a exec \<Rightarrow> bool" where
  "preserves R m \<longleftrightarrow> (\<forall>st. R st (snd (m st)))"

locale table_order =
  fixes R :: "exec_store \<Rightarrow> exec_store \<Rightarrow> bool"
  assumes refl: "R st st"
    and trans: "R a b \<Longrightarrow> R b c \<Longrightarrow> R a c"
begin

lemma keeps_ok [intro]: "preserves R (ok x)" "preserves R (raise e)" "preserves R (require P e)"
  by (simp_all add: preserves_def ok_def raise_def require_def refl)

lemma keeps_reads [intro]: "preserves R (getPlan dt pid)" "preserves R (read_lease lid)"
  using getPlan_state by (simp_all add: preserves_def read_lease_def refl)

lemma keeps_seq [intro]:
  assumes "preserves R m" and "\<And>x. preserves R (k x)"
  shows "preserves R (seq m k)"
  unfolding preserves_def
proof
  fix st
  obtain r st1 where m: "m st = (r, st1)" by (cases "m st")
  then have "R st st1" using assms(1) unfolding preserves_def by (metis snd_conv)
  then show "R st (snd (seq m k st))"
  proof (cases r)
    case (Inr x)
    have "R st1 (snd (k x st1))" using assms(2) by (simp add: preserves_def)
    then show ?thesis using trans [OF \<open>R st st1\<close>] m Inr by (simp add: seq_def)
  qed (use m in \<open>simp add: seq_def\<close>)
qed

lemma keeps_tx [intro]: "preserves R m \<Longrightarrow> preserves R (tx m)"
  by (auto simp: preserves_def tx_def refl split: prod.split sum.split) (metis snd_conv)

lemma keeps_for_each [intro]: "(\<And>x. x \<in> set xs \<Longrightarrow> preserves R (f x)) \<Longrightarrow> preserves R (for_each f xs)"
  by (induction xs) (auto intro!: keeps_seq)

lemma keeps_state: "(\<And>st. preserves R (f st)) \<Longrightarrow> preserves R (\<lambda>st. f st st)"
  by (simp add: preserves_def)

lemma keeps_choice: "preserves R m \<Longrightarrow> preserves R m' \<Longrightarrow> preserves R (\<lambda>st. if P st then m st else m' st)"
  by (simp add: preserves_def)

lemma keeps_held:
  "(\<And>l. preserves R (f l)) \<Longrightarrow> preserves R (\<lambda>st. case g st of None \<Rightarrow> (Inr x, st) | Some l \<Rightarrow> f l st)"
  by (simp add: preserves_def refl split: option.split)

lemma keeps_loop_over: "(\<And>x. preserves R (f x)) \<Longrightarrow> preserves R (\<lambda>st. for_each f (g st) st)"
  by (rule keeps_state) (rule keeps_for_each)

lemma keeps_cases [intro]:
  "preserves R a \<Longrightarrow> (\<And>x. preserves R (f x)) \<Longrightarrow> preserves R (case_option a f q)"
  "(b \<Longrightarrow> preserves R m) \<Longrightarrow> (\<not> b \<Longrightarrow> preserves R m') \<Longrightarrow> preserves R (if b then m else m')"
  by (simp_all split: option.split)

lemma keeps_needPlan [intro]: "preserves R (needPlan dt pid)"
  unfolding needPlan_def by (intro keeps_seq keeps_reads keeps_cases keeps_ok)

lemma keeps_start_all [intro]:
  assumes "\<And>x. preserves R (f x)"
  shows "preserves R (start_all f xs)"
proof (induction xs)
  case (Cons x xs)
  show ?case unfolding preserves_def
  proof
    fix st
    obtain r st1 where f: "f x st = (r, st1)" by (cases "f x st")
    obtain rs st2 where s: "start_all f xs st1 = (rs, st2)" by (cases "start_all f xs st1")
    have "R st st1" using assms f unfolding preserves_def by (metis snd_conv)
    moreover have "R st1 st2" using Cons s unfolding preserves_def by (metis snd_conv)
    ultimately show "R st (snd (start_all f (x # xs) st))" using f s trans by simp
  qed
qed (simp add: preserves_def refl)

end

text \<open>What the scheduler does rests on the two kinds of transition.\<close>

locale scheduler_order = table_order +
  assumes step: "preserves R (transitionWorkstream dt pid wid s reason blocked)"
    and plan_step: "preserves R (transitionPlanStatus dt now pid t)"
begin

lemma keeps_round [intro]: "preserves R (propagate_round dt pid)"
  unfolding propagate_round_def block_one_def by (intro keeps_seq keeps_needPlan keeps_for_each step keeps_ok)

lemma keeps_loop [intro]: "preserves R (propagate_loop dt pid)"
proof -
  have "R st (snd (propagate_loop dt pid st))" for st
  proof (induction dt pid st rule: propagate_loop.induct)
    case (1 dt pid st)
    obtain r st' where p: "propagate_round dt pid st = (r, st')" by (cases "propagate_round dt pid st")
    have "R st st'" using keeps_round [of dt pid] p unfolding preserves_def by (metis snd_conv)
    then show ?case
    proof (cases r)
      case (Inr ids)
      show ?thesis
      proof (cases ids)
        case (Cons i js)
        have "R st' (snd (propagate_loop dt pid st'))" by (rule 1 [OF p [symmetric] Inr Cons])
        then have "R st (snd (propagate_loop dt pid st'))" using \<open>R st st'\<close> trans by blast
        then show ?thesis
          by (subst propagate_loop.simps) (simp add: p Inr Cons split_beta split: sum.split)
      qed (use p Inr \<open>R st st'\<close> in \<open>subst propagate_loop.simps, simp\<close>)
    qed (use p \<open>R st st'\<close> in \<open>subst propagate_loop.simps, simp\<close>)
  qed
  then show ?thesis by (simp add: preserves_def)
qed

lemma keeps_propagate [intro]: "preserves R (propagateDependencyFailures dt pid)"
  unfolding propagateDependencyFailures_def by (intro keeps_seq keeps_loop keeps_ok)

lemma keeps_runReady [intro]: "preserves R (runReady dt collate now execute parallel pid)"
proof -
  have "preserves R (finalizePlan dt now pid)"
    unfolding finalizePlan_def by (intro keeps_seq keeps_reads keeps_cases keeps_ok plan_step)
  moreover have "preserves R (finish_one dt pid r)" for r
    unfolding finish_one_def by (intro keeps_seq keeps_cases keeps_ok step)
  moreover have "preserves R (start_one dt execute pid w)" "preserves R (move dt pid s w)" for w s
    unfolding start_one_def move_def by (intro keeps_seq keeps_ok step)+
  moreover have "preserves R (listReady dt collate pid)" unfolding listReady_def by (intro keeps_seq keeps_needPlan keeps_ok)
  ultimately show ?thesis
    unfolding runReady_def start_plan_def dispatch_ready_def 
    by (intro keeps_seq keeps_cases keeps_ok keeps_for_each keeps_start_all keeps_needPlan plan_step
        keeps_propagate)
qed

end

text \<open>
  All the operations rest on a few primitives: the two transitions, the four inserts of a save, the binding of a
  worktree, the operations on leases, the record of an attempt and its repair. Where a relation does not depend on how
  leases change (\<open>store_order\<close>), the operations on leases are one primitive, the write of the table.
\<close>

locale lease_order = scheduler_order +
  assumes insert_plan: "preserves R (insert_plan q)"
    and insert_workstream: "preserves R (insert_workstream q w)"
    and insert_dependency: "preserves R (insert_dependency q w d)"
    and insert_claim: "preserves R (insert_claim q w c)"
    and bind: "preserves R (bindWorktree pid wid wt br)"
    and acquire: "preserves R (acquireLease clock i)"
    and activate: "preserves R (activateLease lid)"
    and renew: "preserves R (renewLease lid renewed expires)"
    and complete: "preserves R (completeLease lid)"
    and release: "preserves R (releaseLease lid)"
    and reclaim: "preserves R (reclaimExpired now)"
    and reclaim_held: "preserves R (tx (\<lambda>st. set_leases (map (\<lambda>l. if le_planId l = pid \<and> le_workstreamId l = wid \<and> live_lease l
          then l\<lparr>le_state := LsReclaimable\<rparr> else l) (xs_leases st)) st))"
    and record_attempt: "preserves R (recordIntegration a)"
    and repair: "preserves R (repair_one a)"
begin

lemma keeps_savePlan: "preserves R (savePlan dt collate p)"
proof -
  have "preserves R (case normalizeOwnership (w_ownedPaths w) of Inl e \<Rightarrow> raise e
     | Inr owned \<Rightarrow> seq (for_each (insert_claim q w) owned) (\<lambda>_. ok ()))" for q w
    by (cases "normalizeOwnership (w_ownedPaths w)")
      (simp_all add: keeps_ok keeps_seq keeps_for_each insert_claim)
  then have "preserves R (save_workstream q w)" for q w
    unfolding save_workstream_def by (intro keeps_seq keeps_for_each insert_workstream insert_dependency)
  then have "preserves R (tx (seq (require c e) (\<lambda>_. seq (insert_plan q) (\<lambda>_.
      seq (for_each (save_workstream q) ws) (\<lambda>_. ok q)))))" for c e q ws
    by (intro keeps_tx keeps_seq keeps_for_each keeps_ok insert_plan)
  then show ?thesis unfolding savePlan_def Let_def
    by (intro keeps_cases keeps_ok) (auto intro: keeps_ok split: sum.split)
qed

lemmas keeps_lease_ops = acquire activate renew complete release reclaim reclaim_held

lemma keeps_cancelPlan: "preserves R (cancelPlan dt now pid reason)"
  unfolding cancelPlan_def
  by (intro keeps_seq keeps_needPlan keeps_for_each keeps_loop_over keeps_lease_ops plan_step step)

lemma keeps_reconcile: "preserves R reconcileIntegratedAttempts"
  unfolding reconcileIntegratedAttempts_def
  by (rule keeps_tx, rule keeps_state, rule keeps_seq) (rule keeps_for_each, rule repair, rule keeps_ok)

lemma keeps_recover: "preserves R (exec_recoverAfterRestart dt now)"
proof -
  have "preserves R (recover_one dt row)" for row
    unfolding recover_one_def by (cases row) (simp, intro keeps_seq keeps_ok reclaim_held step)
  then show ?thesis unfolding exec_recoverAfterRestart_def
    by (intro keeps_seq keeps_reconcile keeps_loop_over keeps_lease_ops keeps_ok)
qed

lemma keeps_catch: "preserves R m \<Longrightarrow> (\<And>e. preserves R (h e)) \<Longrightarrow> preserves R (catch' m h)"
  unfolding preserves_def catch'_def by (auto split: prod.split sum.split) (metis snd_conv trans)+

lemma keeps_swallow: "preserves R m \<Longrightarrow> preserves R (swallow m)"
  unfolding swallow_def by (intro keeps_catch keeps_seq keeps_ok)

lemma keeps_integrate: "preserves R (integrate dt g w sha branch)"
proof -
  have "preserves R (to_integrated dt w)" unfolding to_integrated_def by (intro keeps_seq step keeps_ok)
  then have "preserves R (merge_branch dt g w sha branch names)" for names
    unfolding merge_branch_def Let_def
    by (intro keeps_seq record_attempt keeps_catch keeps_swallow keeps_cases keeps_ok)
  then show ?thesis unfolding integrate_def by (intro keeps_seq keeps_cases keeps_ok)
qed

lemma keeps_recover_attempt: "preserves R (recover_attempt dt now merged a)"
proof -
  have "preserves R (recover_merged dt now a w)" "preserves R (recover_unmerged dt now a w)" for w
    unfolding recover_merged_def recover_unmerged_def Let_def
    by (intro keeps_seq record_attempt keeps_cases keeps_ok keeps_reads step)+
  then show ?thesis unfolding recover_attempt_def
    by (intro keeps_seq keeps_reads keeps_cases keeps_ok keeps_choice)
qed

lemma keeps_service_recover: "preserves R (service_recoverAfterRestart dt now integration)"
proof -
  have "preserves R (integration_recoverAfterRestart dt now merged)" for merged
    unfolding integration_recoverAfterRestart_def
    by (rule keeps_state, intro keeps_seq keeps_for_each keeps_recover_attempt keeps_ok)
  then show ?thesis
    unfolding service_recoverAfterRestart_def release_reclaimable_def
    by (intro keeps_seq keeps_cases keeps_ok keeps_loop_over keeps_recover keeps_swallow keeps_reads keeps_lease_ops)
qed

end

section \<open>Every operation of the subsystem\<close>

datatype exec_op =
    OpSave plan
  | OpTransition string string workstream_status "string option" "string list"
  | OpPlanStatus string string plan_status
  | OpBind string string string string
  | OpRun string "workstream \<Rightarrow> bool" bool string
  | OpPropagate string
  | OpCancelPlan string string string
  | OpAcquire string exec_lease
  | OpActivate string
  | OpRenew string string string
  | OpComplete string
  | OpRelease string
  | OpReclaim string
  | OpRecord integration_attempt
  | OpReconcile
  | OpRecover string
  | OpIntegrate git_view workstream string string
  | OpServiceRecover string "(integration_attempt \<Rightarrow> bool) option"
  | OpExecutePlan run_env string string

fun exec_apply :: "(string \<Rightarrow> bool) \<Rightarrow> (string \<Rightarrow> string \<Rightarrow> bool) \<Rightarrow> exec_op \<Rightarrow> exec_store \<Rightarrow> exec_store" where
  "exec_apply dt collate (OpSave p) st = snd (savePlan dt collate p st)"
| "exec_apply dt collate (OpTransition pid wid s reason blocked) st = snd (transitionWorkstream dt pid wid s reason blocked st)"
| "exec_apply dt collate (OpPlanStatus now pid s) st = snd (transitionPlanStatus dt now pid s st)"
| "exec_apply dt collate (OpBind pid wid wt br) st = snd (bindWorktree pid wid wt br st)"
| "exec_apply dt collate (OpRun now execute parallel pid) st = snd (runReady dt collate now execute parallel pid st)"
| "exec_apply dt collate (OpPropagate pid) st = snd (propagateDependencyFailures dt pid st)"
| "exec_apply dt collate (OpCancelPlan now pid reason) st = snd (cancelPlan dt now pid reason st)"
| "exec_apply dt collate (OpAcquire clock l) st = snd (acquireLease clock l st)"
| "exec_apply dt collate (OpActivate lid) st = snd (activateLease lid st)"
| "exec_apply dt collate (OpRenew lid renewed expires) st = snd (renewLease lid renewed expires st)"
| "exec_apply dt collate (OpComplete lid) st = snd (completeLease lid st)"
| "exec_apply dt collate (OpRelease lid) st = snd (releaseLease lid st)"
| "exec_apply dt collate (OpReclaim now) st = snd (reclaimExpired now st)"
| "exec_apply dt collate (OpRecord a) st = snd (recordIntegration a st)"
| "exec_apply dt collate OpReconcile st = snd (reconcileIntegratedAttempts st)"
| "exec_apply dt collate (OpRecover now) st = snd (exec_recoverAfterRestart dt now st)"
| "exec_apply dt collate (OpIntegrate g w sha branch) st = snd (integrate dt g w sha branch st)"
| "exec_apply dt collate (OpServiceRecover now merged) st = snd (service_recoverAfterRestart dt now merged st)"
| "exec_apply dt collate (OpExecutePlan env pid sha) st = snd (executePlan dt collate env pid sha st)"

definition exec_run :: "(string \<Rightarrow> bool) \<Rightarrow> (string \<Rightarrow> string \<Rightarrow> bool) \<Rightarrow> exec_op list \<Rightarrow> exec_store \<Rightarrow> exec_store" where
  "exec_run dt collate ops st = foldl (\<lambda>st x. exec_apply dt collate x st) st ops"

context lease_order
begin

lemma keeps_prepare_wave: "preserves R (prepare_wave dt env n pid sha ready)"
proof -
  have "preserves R (occupy env n pid w a)" for w a
    unfolding occupy_def by (intro keeps_seq bind keeps_lease_ops keeps_ok)
  then have p: "R st (snd (prepare env n pid sha ws as st))" for ws as st
  proof (induction ws arbitrary: as st)
    case (Cons w ws)
    show ?case
    proof (cases "re_allocate env n w sha")
      case (Inr a)
      obtain r st1 where o: "occupy env n pid w a st = (r, st1)" by (cases "occupy env n pid w a st")
      then have "R st st1" using Cons(2) [of w a] unfolding preserves_def by (metis snd_conv)
      moreover have "R st1 (snd (prepare env n pid sha ws as' st1))" for as' by (rule Cons.IH) (rule Cons(2))
      ultimately have "R st (snd (prepare env n pid sha ws as' st1))" for as' using trans by blast
      then show ?thesis using \<open>R st st1\<close> o Inr by (cases r) (simp_all add: Let_def)
    qed (simp add: refl)
  qed (simp add: refl)
  have give: "preserves R (give_back dt pid a)" for a
  proof -
    have "preserves R (\<lambda>st. case held_lease P (p_runId p) st of None \<Rightarrow> (Inr (), st)
        | Some l \<Rightarrow> seq (releaseLease (le_id l)) (\<lambda>_. ok ()) st)" for P p
      by (rule keeps_held) (intro keeps_seq keeps_lease_ops keeps_ok)
    then show ?thesis unfolding give_back_def by (intro keeps_seq keeps_needPlan)
  qed
  show ?thesis unfolding preserves_def
  proof
    fix st
    obtain e as st1 where q: "prepare env n pid sha ready [] st = ((e, as), st1)" by (metis prod.exhaust)
    then have st1: "R st st1" using p [where ws = ready and as = "[]" and st = st] by simp
    have "preserves R (seq (for_each (\<lambda>(_, a). give_back dt pid a) as) (\<lambda>_. raise x))" for x :: exec_error
      using give by (intro keeps_seq keeps_for_each keeps_ok) (simp add: split_beta)
    then have "R st (snd (seq (for_each (\<lambda>(_, a). give_back dt pid a) as) (\<lambda>_. raise x) st1))" for x :: exec_error
      using st1 trans unfolding preserves_def by blast
    then show "R st (snd (prepare_wave dt env n pid sha ready st))"
      using q st1 by (cases e) (simp_all add: prepare_wave_def)
  qed
qed

lemma keeps_executePlan: "preserves R (executePlan dt collate env pid sha)"
proof -
  have settle: "preserves R (settle_one dt env n pid as wid)" for n as wid
    unfolding settle_one_def
    by (intro keeps_catch keeps_seq keeps_needPlan keeps_cases keeps_ok step)
      (simp add: keeps_ok keeps_seq keeps_integrate split: option.split)
  have close: "preserves R (close_lease dt pid wid)" for wid
  proof -
    have "preserves R (\<lambda>st. case held_lease P (p_runId p) st of None \<Rightarrow> (Inr (), st)
        | Some l \<Rightarrow> seq (swallow (completeLease (le_id l))) (\<lambda>_. seq (releaseLease (le_id l)) (\<lambda>_. ok ())) st)" for P p
      by (rule keeps_held) (intro keeps_seq keeps_swallow keeps_lease_ops keeps_ok)
    then show ?thesis unfolding close_lease_def by (intro keeps_seq keeps_needPlan)
  qed
  have listed: "preserves R (listReady dt collate pid)" unfolding listReady_def by (intro keeps_seq keeps_needPlan keeps_ok)
  have "preserves R (run_wave dt collate env pid sha n)" for n
    unfolding run_wave_def
    by (intro keeps_seq listed keeps_cases keeps_ok keeps_prepare_wave keeps_runReady keeps_for_each keeps_propagate)
      (simp_all add: split_beta keeps_seq settle keeps_ok close)
  then have "preserves R (run_waves dt collate env pid sha k n)" for k n
    by (induction k arbitrary: n) (simp_all add: keeps_ok keeps_seq keeps_cases)
  then show ?thesis unfolding executePlan_def
    by (intro keeps_seq keeps_needPlan keeps_reads keeps_cases keeps_ok plan_step)
qed

lemma run_keeps: "R st (exec_run dt collate ops st)"
proof -
  have "R st (exec_apply dt collate x st)" for x st
    using keeps_savePlan step plan_step bind keeps_runReady keeps_propagate keeps_cancelPlan keeps_lease_ops record_attempt
      keeps_reconcile keeps_recover keeps_integrate keeps_service_recover keeps_executePlan
    by (cases x) (simp_all add: preserves_def)
  then show ?thesis unfolding exec_run_def
  proof (induction ops arbitrary: st)
    case (Cons x ops)
    show ?case using trans [OF Cons(2) [of st x] Cons.IH [OF Cons(2)]] by simp
  qed (simp add: refl)
qed

end

section \<open>Statuses follow the table\<close>

definition status_edge :: "(workstream_status \<times> workstream_status) set" where
  "status_edge = {(a, b). b \<in> set (workstream_transitions a)}"

definition moves :: "exec_store \<Rightarrow> exec_store \<Rightarrow> bool" where
  "moves st st' \<longleftrightarrow> (\<forall>pid wid row. workstream_at pid wid st = Some row \<longrightarrow>
     (\<exists>row'. workstream_at pid wid st' = Some row' \<and> (w_status row, w_status row') \<in> status_edge\<^sup>*))"

text \<open>A change of the rows that keeps their keys.\<close>

lemma workstream_at_map:
  assumes "\<And>r. w_planId (f r) = w_planId r \<and> w_id (f r) = w_id r"
  shows "workstream_at pid wid (st\<lparr>xs_workstreams := map f (xs_workstreams st)\<rparr>) = map_option f (workstream_at pid wid st)"
proof -
  have "List.find (\<lambda>r. w_planId r = pid \<and> w_id r = wid) (map f rs)
     = map_option f (List.find (\<lambda>r. w_planId r = pid \<and> w_id r = wid) rs)" for rs
    by (induction rs) (simp_all add: assms)
  then show ?thesis by (simp add: workstream_at_def)
qed

lemma workstream_at_key: "workstream_at pid wid st = Some row \<Longrightarrow> w_planId row = pid \<and> w_id row = wid"
  unfolding workstream_at_def using find_SomeD by fast

lemma workstream_at_set_status:
  "workstream_at p' w' (set_status pid wid s reason blocked st) =
     map_option (\<lambda>r. if w_planId r = pid \<and> w_id r = wid
       then r\<lparr>w_status := s, w_failureReason := reason, w_blockedBy := blocked\<rparr> else r) (workstream_at p' w' st)"
  unfolding set_status_def by (rule workstream_at_map) simp

lemma transition_moves: "preserves moves (transitionWorkstream dt pid wid s reason blocked)"
  unfolding preserves_def
proof
  fix st
  obtain r st' where t: "transitionWorkstream dt pid wid s reason blocked st = (r, st')"
    by (cases "transitionWorkstream dt pid wid s reason blocked st")
  show "moves st (snd (transitionWorkstream dt pid wid s reason blocked st))"
  proof (cases r)
    case (Inl e)
    have "snd (transitionWorkstream dt pid wid s reason blocked st) = st"
      using t Inl unfolding transitionWorkstream_def tx_def by (auto split: prod.splits sum.splits)
    then show ?thesis by (simp add: moves_def)
  next
    case (Inr w)
    note t' = transition_Inr [OF t [unfolded Inr]]
    obtain row where row: "workstream_at pid wid st = Some row" "(w_status row, s) \<in> status_edge"
      using t'(1) by (auto simp: status_edge_def)
    have "\<exists>q'. workstream_at p' w' st' = Some q' \<and> (w_status q, w_status q') \<in> status_edge\<^sup>*"
      if q: "workstream_at p' w' st = Some q" for p' w' q
    proof (cases "p' = pid \<and> w' = wid")
      case True
      then have "q = row" using q row(1) by simp
      then show ?thesis using q True row(2) workstream_at_key [OF q] by (simp add: t'(2) workstream_at_set_status)
    next
      case False
      then show ?thesis using q workstream_at_key [OF q] by (auto simp: t'(2) workstream_at_set_status)
    qed
    then show ?thesis using t by (simp add: moves_def)
  qed
qed

lemma moves_refl: "moves st st"
  by (simp add: moves_def)

lemma moves_trans: "moves a b \<Longrightarrow> moves b c \<Longrightarrow> moves a c"
  unfolding moves_def by (meson rtrancl_trans)

lemma moves_frame: "xs_workstreams st' = xs_workstreams st \<Longrightarrow> moves st st'"
  by (simp add: moves_def workstream_at_def)

lemma moves_map:
  assumes "\<And>r. w_planId (f r) = w_planId r \<and> w_id (f r) = w_id r \<and> (w_status r, w_status (f r)) \<in> status_edge\<^sup>*"
  shows "moves st (st\<lparr>xs_workstreams := map f (xs_workstreams st)\<rparr>)"
  using assms workstream_at_map [of f] by (simp add: moves_def)

lemma moves_append:
  assumes "xs_workstreams st' = xs_workstreams st @ rs"
  shows "moves st st'"
  using assms by (auto simp: moves_def workstream_at_def find_append split: option.split)

lemma moves_bind: "preserves moves (bindWorktree pid wid wt br)"
  unfolding bindWorktree_def preserves_def tx_def
  by (auto simp: moves_refl intro!: moves_map split: option.split)

lemma moves_repair: "preserves moves (repair_one a)"
  unfolding preserves_def
proof
  fix st
  have step: "(WSucceeded, WIntegrated) \<in> status_edge\<^sup>*" "(WIntegrationPending, WIntegrated) \<in> status_edge\<^sup>*"
    by (rule converse_rtrancl_into_rtrancl [of _ WIntegrationPending], auto simp: status_edge_def)
  let ?p = "ia_planId a" and ?w = "ia_workstreamId a"
  show "moves st (snd (repair_one a st))"
  proof (cases "workstream_at ?p ?w st")
    case (Some row)
    let ?f = "\<lambda>r :: workstream. if w_planId r = ?p \<and> w_id r = ?w then r\<lparr>w_status := WIntegrated\<rparr> else r"
    have "moves st (st\<lparr>xs_workstreams := map ?f (xs_workstreams st)\<rparr>)"
      if s: "w_status row = WSucceeded \<or> w_status row = WIntegrationPending"
      unfolding moves_def
    proof (intro allI impI)
      fix p' w' q
      assume q: "workstream_at p' w' st = Some q"
      have "(w_status q, w_status (?f q)) \<in> status_edge\<^sup>*"
      proof (cases "w_planId q = ?p \<and> w_id q = ?w")
        case True
        then have "q = row" using q Some workstream_at_key [OF q] by simp
        then show ?thesis using s step True by auto
      next
        case False
        then have "?f q = q" by auto
        then show ?thesis by simp
      qed
      then show "\<exists>q'. workstream_at p' w' (st\<lparr>xs_workstreams := map ?f (xs_workstreams st)\<rparr>) = Some q'
          \<and> (w_status q, w_status q') \<in> status_edge\<^sup>*"
        using q workstream_at_map [of ?f] by simp
    qed
    then show ?thesis using Some moves_refl by (simp add: repair_one_def)
  qed (simp add: repair_one_def moves_refl)
qed

text \<open>A change that leaves a part of the tables alone.\<close>

lemma tx_part: "(\<And>st. g (snd (m st)) = g st) \<Longrightarrow> g (snd (tx m st)) = g st"
  by (simp add: tx_def split: prod.split sum.split) (metis snd_conv)

lemma seq_part: "(\<And>st. g (snd (m st)) = g st) \<Longrightarrow> (\<And>x st. g (snd (k x st)) = g st) \<Longrightarrow> g (snd (seq m k st)) = g st"
  by (simp add: seq_def split: prod.split sum.split) (metis snd_conv)

lemma plan_status_parts:
  "xs_workstreams (snd (transitionPlanStatus dt now pid s st)) = xs_workstreams st"
  "xs_leases (snd (transitionPlanStatus dt now pid s st)) = xs_leases st"
  by (auto simp: transitionPlanStatus_def tx_def needPlan_def seq_def getPlan_def ok_def raise_def
      split: option.split sum.split)

lemma insert_parts:
  "xs_workstreams (snd (insert_plan q st)) = xs_workstreams st"
  "xs_workstreams (snd (insert_dependency q w d st)) = xs_workstreams st"
  "xs_workstreams (snd (insert_claim q w c st)) = xs_workstreams st"
  "xs_leases (snd (insert_plan q st)) = xs_leases st" "xs_leases (snd (insert_workstream q w st)) = xs_leases st"
  "xs_leases (snd (insert_dependency q w d st)) = xs_leases st" "xs_leases (snd (insert_claim q w c st)) = xs_leases st"
  by (simp_all add: insert_plan_def insert_workstream_def insert_dependency_def insert_claim_def seq_def require_def update_def)

lemma record_parts:
  "xs_workstreams (snd (recordIntegration a st)) = xs_workstreams st" "xs_leases (snd (recordIntegration a st)) = xs_leases st"
  by (simp_all add: recordIntegration_def tx_def seq_def require_def update_def ok_def)

lemma leases_parts: "xs_workstreams (snd (set_leases ls st)) = xs_workstreams st"
  by (simp add: set_leases_def)

lemma repair_parts: "xs_leases (snd (repair_one a st)) = xs_leases st"
  by (simp add: repair_one_def split: option.split)

lemma bind_parts: "xs_leases (snd (bindWorktree pid wid wt br st)) = xs_leases st"
  by (simp add: bindWorktree_def tx_def split: option.split)

locale store_order = scheduler_order +
  assumes put_plan: "preserves R (insert_plan q)"
    and put_workstream: "preserves R (insert_workstream q w)"
    and put_dependency: "preserves R (insert_dependency q w d)"
    and put_claim: "preserves R (insert_claim q w c)"
    and put_worktree: "preserves R (bindWorktree pid wid wt br)"
    and put_leases: "preserves R (\<lambda>st. set_leases (g st) st)"
    and put_attempt: "preserves R (recordIntegration a)"
    and put_repair: "preserves R (repair_one a)"
begin

lemma write_leases:
  "preserves R (update_lease lid f)" "preserves R (set_leases ls)" "preserves R (live_update lid f)"
proof -
  show update: "preserves R (update_lease lid f)" for lid f
    unfolding update_lease_def [abs_def] by (rule put_leases)
  show "preserves R (set_leases ls)" using put_leases [of "\<lambda>_. ls"] by simp
  show "preserves R (live_update lid f)"
    unfolding live_update_def by (intro keeps_tx keeps_seq keeps_ok update keeps_reads)
qed

end

sublocale store_order \<subseteq> lease_order
proof
  show "preserves R (acquireLease clock i)" for clock i
    unfolding acquireLease_def by (intro keeps_tx keeps_seq keeps_ok put_leases)
  show "preserves R (releaseLease lid)" for lid
    unfolding releaseLease_def by (intro keeps_tx keeps_seq keeps_ok write_leases keeps_reads)
  show "preserves R (activateLease lid)" "preserves R (completeLease lid)" "preserves R (renewLease lid renewed expires)"
    for lid renewed expires
    unfolding activateLease_def completeLease_def renewLease_def by (rule write_leases)+
  show "preserves R (reclaimExpired now)" for now
    unfolding reclaimExpired_def Let_def by (rule keeps_tx [OF keeps_state [OF keeps_seq]]) (rule write_leases keeps_ok)+
  show "preserves R (tx (\<lambda>st. set_leases (map (\<lambda>l. if le_planId l = pid \<and> le_workstreamId l = wid \<and> live_lease l
      then l\<lparr>le_state := LsReclaimable\<rparr> else l) (xs_leases st)) st))" for pid wid
    by (intro keeps_tx put_leases)
qed (rule put_plan put_workstream put_dependency put_claim put_worktree put_attempt put_repair)+

interpretation status: store_order moves
proof
  show "moves st st" for st by (rule moves_refl)
  show "moves a c" if "moves a b" "moves b c" for a b c using that by (rule moves_trans)
  show "preserves moves (transitionWorkstream dt pid wid s reason blocked)" for dt pid wid s reason blocked
    by (rule transition_moves)
  show "preserves moves (bindWorktree pid wid wt br)" for pid wid wt br by (rule moves_bind)
  show "preserves moves (repair_one a)" for a by (rule moves_repair)
  show "preserves moves (insert_workstream q w)" for q w
    unfolding preserves_def by (auto simp: insert_workstream_def seq_def require_def update_def moves_refl intro: moves_append)
qed (auto simp: preserves_def plan_status_parts insert_parts record_parts leases_parts intro!: moves_frame)

text \<open>From integrated only superseded is left.\<close>

lemma integrated_stays: "(WIntegrated, s) \<in> status_edge\<^sup>* \<Longrightarrow> s = WIntegrated \<or> s = WSuperseded"
  by (induction rule: rtrancl_induct) (auto simp: status_edge_def)

text \<open>C5. The status of a workstream only ever follows the table of transitions, through every sequence of all the
  operations of the repository, the scheduler, the integration and the execution service - saving, dispatching,
  failing, blocking, cancelling, leasing, integrating and recovering after a restart: no row is lost, and its status at the end is reachable in the
  table from its status at the start. So an integrated workstream is never dispatched a second time; it can
  only be superseded.\<close>

theorem status_follows_table:
  assumes "workstream_at pid wid st = Some row"
  shows "\<exists>row'. workstream_at pid wid (exec_run dt collate ops st) = Some row'
     \<and> (w_status row, w_status row') \<in> status_edge\<^sup>*
     \<and> (w_status row = WIntegrated \<longrightarrow> w_status row' = WIntegrated \<or> w_status row' = WSuperseded)"
  using assms status.run_keeps [of st dt collate ops] integrated_stays unfolding moves_def by metis

section \<open>Tables to evaluate\<close>

definition base_store :: exec_store where
  "base_store = \<lparr>xs_runIds = [''run''], xs_plans = [], xs_workstreams = [], xs_dependencies = [], xs_claims = [],
     xs_leases = [], xs_attempts = []\<rparr>"

definition two_steps_row :: plan_row where
  "two_steps_row = \<lparr>pl_id = ''plan'', pl_runId = ''run'', pl_routingDecisionId = ''route'',
     pl_sourceSha = replicate 40 CHR ''0'', pl_policyVersion = ''v1'', pl_createdAt = ''t'', pl_status = PPlanned,
     pl_startedAt = None, pl_completedAt = None\<rparr>"

definition saved_store :: exec_store where
  "saved_store = base_store\<lparr>xs_plans := [two_steps_row],
     xs_workstreams := [sample_workstream ''a'' [] [''src/a''] WPlanned, sample_workstream ''b'' [] [''src/b''] WPlanned],
     xs_dependencies := [(''plan'', ''b'', ''a'')],
     xs_claims := [ownership_of two_steps (sample_workstream ''a'' [] [] WPlanned) ''src/a'',
       ownership_of two_steps (sample_workstream ''b'' [] [] WPlanned) ''src/b'']\<rparr>"

lemma saved_store_saved: "snd (savePlan (\<lambda>_. True) (\<le>) two_steps base_store) = saved_store"
  by code_simp

theorem status_follows_table_witness:
  "\<exists>row'. workstream_at ''plan'' ''a''
      (exec_run (\<lambda>_. True) (\<le>) [OpRun ''now'' (\<lambda>_. False) False ''plan'', OpRecover ''later''] saved_store) = Some row'
     \<and> (WPlanned, w_status row') \<in> status_edge\<^sup>*"
  using status_follows_table [of "''plan''" "''a''" saved_store "sample_workstream ''a'' [] [''src/a''] WPlanned"]
  by (simp add: saved_store_def workstream_at_def base_store_def sample_workstream_def)

end
