(* ===== verification/Execution_Leases.thy ===== *)
theory Execution_Leases
  imports Execution_Laws
begin

text \<open>
  Leases of worktrees. Through every sequence of operations the constraints of the table hold, a lease keeps whose it
  is, and one that has ended never lives again; a new lease is granted only when no live lease, expired or not, holds its
  worktree or its workstream. Two operations do not do what their comments say: the release of a
  second lease of a workstream violates a constraint, and a lease that has expired today still blocks.
\<close>

lemma same_key_not_distinct:
  "x \<in> set xs \<Longrightarrow> y \<in> set xs \<Longrightarrow> x \<noteq> y \<Longrightarrow> f x = f y \<Longrightarrow> \<not> distinct (map f xs)"
  by (auto simp: distinct_map dest: inj_onD)

section \<open>What may become of a lease\<close>

text \<open>A lease keeps whose it is. One that is not live keeps its times and its state, except that it may be released;
  and none becomes allocated that was not.\<close>

definition lease_identity :: "exec_lease \<Rightarrow> string list" where
  "lease_identity l = [le_id l, le_runId l, le_planId l, le_workstreamId l, le_agentId l, le_worktreeId l, le_workspace l,
     le_branch l, le_acquiredAt l]"

definition lease_future :: "exec_lease \<Rightarrow> exec_lease \<Rightarrow> bool" where
  "lease_future l l' \<longleftrightarrow> lease_identity l' = lease_identity l
     \<and> (\<not> live_lease l \<longrightarrow> l' = l \<or> l' = l\<lparr>le_state := LsReleased\<rparr>) \<and> (le_state l' = LsAllocated \<longrightarrow> l' = l)"

lemma lease_future_refl [simp]: "lease_future l l"
  by (simp add: lease_future_def)

lemma lease_identity_simps [simp]:
  "lease_identity (l\<lparr>le_state := s\<rparr>) = lease_identity l" "lease_identity (l\<lparr>le_renewedAt := r\<rparr>) = lease_identity l"
  "lease_identity (l\<lparr>le_expiresAt := e\<rparr>) = lease_identity l"
  by (simp_all add: lease_identity_def)

lemma lease_future_trans:
  assumes "lease_future a b" and "lease_future b c"
  shows "lease_future a c"
proof -
  have dead: "c = a \<or> c = a\<lparr>le_state := LsReleased\<rparr>" if "\<not> live_lease a"
  proof -
    from assms(1) that have b: "b = a \<or> b = a\<lparr>le_state := LsReleased\<rparr>" unfolding lease_future_def by blast
    with that have "\<not> live_lease b" by (elim disjE) (simp_all add: live_lease_def)
    with assms(2) have "c = b \<or> c = b\<lparr>le_state := LsReleased\<rparr>" unfolding lease_future_def by blast
    with b show ?thesis by (elim disjE) simp_all
  qed
  have "c = a" if "le_state c = LsAllocated"
    using assms that unfolding lease_future_def by metis
  with dead assms show ?thesis unfolding lease_future_def by metis
qed

lemma released_future [simp]: "lease_future l (l\<lparr>le_state := LsReleased\<rparr>)"
  by (simp add: lease_future_def)

lemma live_future [simp]:
  "live_lease l \<Longrightarrow> lease_future l (l\<lparr>le_state := LsReclaimable\<rparr>)"
  "live_lease l \<Longrightarrow> lease_future l (l\<lparr>le_state := LsActive\<rparr>)"
  "live_lease l \<Longrightarrow> lease_future l (l\<lparr>le_state := LsCompleted\<rparr>)"
  "live_lease l \<Longrightarrow> lease_future l (l\<lparr>le_renewedAt := r, le_expiresAt := e, le_state := LsRenewing\<rparr>)"
  by (simp_all add: lease_future_def)

text \<open>The table: its constraints hold, and every lease has its future in it.\<close>

definition leases_grow :: "exec_lease list \<Rightarrow> exec_lease list \<Rightarrow> bool" where
  "leases_grow ls ls' \<longleftrightarrow> (leases_ok ls \<longrightarrow> leases_ok ls' \<and> (\<forall>l \<in> set ls. \<exists>l' \<in> set ls'. lease_future l l'))"

definition leases_step :: "exec_store \<Rightarrow> exec_store \<Rightarrow> bool" where
  "leases_step st st' \<longleftrightarrow> leases_grow (xs_leases st) (xs_leases st')"

lemma leases_grow_refl [simp]: "leases_grow ls ls"
  by (auto simp: leases_grow_def intro!: bexI)

lemma leases_grow_trans: "leases_grow a b \<Longrightarrow> leases_grow b c \<Longrightarrow> leases_grow a c"
  unfolding leases_grow_def by (meson lease_future_trans)

lemma leases_grow_map:
  assumes "\<And>l. l \<in> set ls \<Longrightarrow> distinct (map le_id ls) \<Longrightarrow> lease_future l (f l)" and "leases_ok (map f ls)"
  shows "leases_grow ls (map f ls)"
  using assms by (auto simp: leases_grow_def leases_ok_def)

lemma same_lease: "distinct (map le_id ls) \<Longrightarrow> x \<in> set ls \<Longrightarrow> l \<in> set ls \<Longrightarrow> le_id x = le_id l \<Longrightarrow> x = l"
  by (auto simp: distinct_map inj_on_def)

lemma set_leases_store: "xs_leases (snd (set_leases ls st)) = (if leases_ok ls then ls else xs_leases st)"
  by (simp add: set_leases_def)

lemma live_update_grows:
  assumes "\<And>l. live_lease l \<Longrightarrow> lease_future l (f l)"
  shows "leases_step st (snd (live_update lid f st))"
proof -
  let ?ls = "map (\<lambda>l. if le_id l = lid then f l else l) (xs_leases st)"
  have "leases_grow (xs_leases st) ?ls"
    if live: "\<exists>x \<in> set (xs_leases st). le_id x = lid \<and> live_lease x" and ok: "leases_ok ?ls"
  proof (rule leases_grow_map [OF _ ok])
    fix l assume l: "l \<in> set (xs_leases st)" "distinct (map le_id (xs_leases st))"
    have "live_lease l" if "le_id l = lid" using live same_lease [OF l(2) _ l(1)] that by metis
    then show "lease_future l (if le_id l = lid then f l else l)" using assms by simp
  qed
  then show ?thesis
    by (auto simp: leases_step_def live_update_def tx_def seq_def require_def update_lease_def set_leases_def read_lease_def)
qed

lemma lease_ops_grow:
  "leases_step st (snd (acquireLease clock i st))" "leases_step st (snd (releaseLease lid st))"
  "leases_step st (snd (reclaimExpired now st))"
  "leases_step st (snd (tx (\<lambda>st. set_leases (map (\<lambda>l. if le_planId l = pid \<and> le_workstreamId l = wid \<and> live_lease l
     then l\<lparr>le_state := LsReclaimable\<rparr> else l) (xs_leases st)) st) st))"
proof -
  show "leases_step st (snd (acquireLease clock i st))"
    by (auto simp: leases_step_def acquireLease_def tx_def seq_def require_def set_leases_def ok_def leases_grow_def
        intro: lease_future_refl)
  have map: "leases_step st (snd (set_leases (map f (xs_leases st)) st))" if "\<And>l. lease_future l (f l)" for f
    using leases_grow_map [of "xs_leases st" f] that by (simp add: leases_step_def set_leases_store)
  show "leases_step st (snd (releaseLease lid st))"
    using map [of "\<lambda>l. if le_id l = lid then if le_state l \<noteq> LsReleased then l\<lparr>le_state := LsReleased\<rparr> else l else l"]
    by (auto simp: releaseLease_def tx_def seq_def update_lease_def read_lease_def leases_step_def split: prod.splits sum.splits)
  show "leases_step st (snd (reclaimExpired now st))"
    using map [of "\<lambda>l. if live_lease l \<and> le_expiresAt l \<le> now then l\<lparr>le_state := LsReclaimable\<rparr> else l"]
    by (auto simp: reclaimExpired_def tx_def seq_def ok_def leases_step_def Let_def split: prod.splits sum.splits)
  show "leases_step st (snd (tx (\<lambda>st. set_leases (map (\<lambda>l. if le_planId l = pid \<and> le_workstreamId l = wid \<and> live_lease l
     then l\<lparr>le_state := LsReclaimable\<rparr> else l) (xs_leases st)) st) st))"
    using map [of "\<lambda>l. if le_planId l = pid \<and> le_workstreamId l = wid \<and> live_lease l then l\<lparr>le_state := LsReclaimable\<rparr> else l"]
    by (auto simp: tx_def leases_step_def split: prod.splits sum.splits)
qed

lemma transition_leases: "xs_leases (snd (transitionWorkstream dt pid wid s reason blocked st)) = xs_leases st"
proof (cases "transitionWorkstream dt pid wid s reason blocked st")
  case (Pair r st')
  show ?thesis
  proof (cases r)
    case (Inl e)
    then have "st' = st" using Pair unfolding transitionWorkstream_def tx_def by (auto split: prod.splits sum.splits)
    then show ?thesis using Pair by simp
  next
    case (Inr w)
    then show ?thesis using Pair transition_Inr(2) [of dt pid wid s reason blocked st w st'] by (simp add: set_status_def)
  qed
qed

interpretation leases: lease_order leases_step
proof
  show "leases_step st st" for st by (simp add: leases_step_def)
  show "leases_step a c" if "leases_step a b" "leases_step b c" for a b c
    using that leases_grow_trans unfolding leases_step_def by blast
qed (auto simp: preserves_def lease_ops_grow activateLease_def renewLease_def completeLease_def live_update_grows
    leases_step_def [of _ "snd (transitionWorkstream _ _ _ _ _ _ _)"] leases_step_def [of _ "snd (transitionPlanStatus _ _ _ _ _)"]
    leases_step_def [of _ "snd (insert_plan _ _)"] leases_step_def [of _ "snd (insert_workstream _ _ _)"]
    leases_step_def [of _ "snd (insert_dependency _ _ _ _)"] leases_step_def [of _ "snd (insert_claim _ _ _ _)"]
    leases_step_def [of _ "snd (bindWorktree _ _ _ _ _)"] leases_step_def [of _ "snd (recordIntegration _ _)"]
    leases_step_def [of _ "snd (repair_one _ _)"]
    transition_leases plan_status_parts insert_parts record_parts repair_parts bind_parts)

section \<open>When a lease is granted\<close>

lemma fresh_lease_ok:
  assumes "leases_ok ls"
  shows "leases_ok (ls @ [i\<lparr>le_state := LsAllocated\<rparr>]) \<longleftrightarrow> le_id i \<notin> le_id ` set ls
     \<and> (\<forall>l \<in> set ls. live_lease l \<longrightarrow> le_worktreeId l \<noteq> le_worktreeId i \<and> le_workstreamId l \<noteq> le_workstreamId i)"
  using assms unfolding leases_ok_def by (auto simp: live_lease_def image_iff)

lemma acquire_eq:
  assumes "leases_ok (xs_leases st)"
  shows "acquireLease clock i st =
     (if lease_conflict clock i st then (Inl WorktreeLeaseConflict, st)
      else if workstream_at (le_planId i) (le_workstreamId i) st = None \<or> le_id i \<in> le_id ` set (xs_leases st)
        \<or> (\<exists>l \<in> set (xs_leases st). live_lease l \<and> (le_worktreeId l = le_worktreeId i \<or> le_workstreamId l = le_workstreamId i))
      then (Inl ConstraintViolation, st)
      else (Inr (i\<lparr>le_state := LsAllocated\<rparr>), st\<lparr>xs_leases := xs_leases st @ [i\<lparr>le_state := LsAllocated\<rparr>]\<rparr>))"
proof -
  let ?held = "le_id i \<in> le_id ` set (xs_leases st)
    \<or> (\<exists>l \<in> set (xs_leases st). live_lease l \<and> (le_worktreeId l = le_worktreeId i \<or> le_workstreamId l = le_workstreamId i))"
  have ok: "leases_ok (xs_leases st @ [i\<lparr>le_state := LsAllocated\<rparr>]) \<longleftrightarrow> \<not> ?held"
    unfolding fresh_lease_ok [OF assms] by blast
  show ?thesis
  proof (cases "lease_conflict clock i st \<or> workstream_at (le_planId i) (le_workstreamId i) st = None")
    case True
    then show ?thesis by (cases "lease_conflict clock i st") (simp_all add: acquireLease_def tx_def seq_def require_def)
  next
    case False
    then show ?thesis
      by (cases ?held) (simp_all add: acquireLease_def tx_def seq_def require_def set_leases_def ok ok_def)
  qed
qed

text \<open>C40. Leases through every sequence of operations of the repository, the scheduler, the integration and the execution
  service, from a table whose constraints hold. Each lease is still there, once, for the same worktree, workstream and
  agent; one that has ended never lives again, and its times stay as they are. A new lease is granted exactly when its
  workstream is stored, its id is new and no live lease, expired or not, holds its worktree or its workstream; it is
  refused with \<open>WORKTREE_LEASE_CONFLICT\<close> when such a lease has not expired, otherwise by the constraints of the table,
  and a refusal changes nothing.\<close>

theorem lease_life:
  assumes "leases_ok (xs_leases st)" and "l \<in> set (xs_leases st)" and "st' = exec_run dt collate ops st"
  shows "(\<exists>l' \<in> set (xs_leases st'). lease_future l l' \<and> (\<forall>x \<in> set (xs_leases st'). le_id x = le_id l \<longrightarrow> x = l')
        \<and> (\<not> live_lease l \<longrightarrow> \<not> live_lease l' \<and> le_expiresAt l' = le_expiresAt l))
     \<and> acquireLease clock i st' =
         (if lease_conflict clock i st' then (Inl WorktreeLeaseConflict, st')
          else if workstream_at (le_planId i) (le_workstreamId i) st' = None \<or> le_id i \<in> le_id ` set (xs_leases st')
            \<or> (\<exists>l \<in> set (xs_leases st'). live_lease l
                  \<and> (le_worktreeId l = le_worktreeId i \<or> le_workstreamId l = le_workstreamId i))
          then (Inl ConstraintViolation, st')
          else (Inr (i\<lparr>le_state := LsAllocated\<rparr>), st'\<lparr>xs_leases := xs_leases st' @ [i\<lparr>le_state := LsAllocated\<rparr>]\<rparr>))"
proof
  have "leases_grow (xs_leases st) (xs_leases st')"
    using leases.run_keeps [of st dt collate ops] assms(3) by (simp add: leases_step_def)
  then have ok: "leases_ok (xs_leases st')" and "\<exists>l' \<in> set (xs_leases st'). lease_future l l'"
    using assms(1,2) by (simp_all add: leases_grow_def)
  then obtain l' where l': "l' \<in> set (xs_leases st')" "lease_future l l'" by blast
  have "x = l'" if "x \<in> set (xs_leases st')" "le_id x = le_id l" for x
    using same_lease [OF _ that(1) l'(1)] ok l'(2) that(2) by (simp add: leases_ok_def lease_future_def lease_identity_def)
  moreover have "\<not> live_lease l' \<and> le_expiresAt l' = le_expiresAt l" if "\<not> live_lease l"
  proof -
    have "l' = l \<or> l' = l\<lparr>le_state := LsReleased\<rparr>" using that l'(2) unfolding lease_future_def by blast
    then show ?thesis using that by (elim disjE) (simp_all add: live_lease_def)
  qed
  ultimately show "\<exists>l' \<in> set (xs_leases st'). lease_future l l' \<and> (\<forall>x \<in> set (xs_leases st'). le_id x = le_id l \<longrightarrow> x = l')
        \<and> (\<not> live_lease l \<longrightarrow> \<not> live_lease l' \<and> le_expiresAt l' = le_expiresAt l)"
    using l' by blast
qed (rule acquire_eq, use leases.run_keeps [of st dt collate ops] assms in \<open>simp add: leases_step_def leases_grow_def\<close>)

text \<open>So two live leases are always on different worktrees and on different workstreams.\<close>

lemma one_live_lease:
  assumes "leases_ok (xs_leases st)"
    and "a \<in> set (xs_leases (exec_run dt collate ops st))" "b \<in> set (xs_leases (exec_run dt collate ops st))"
    and "live_lease a" "live_lease b" "a \<noteq> b"
  shows "le_worktreeId a \<noteq> le_worktreeId b \<and> le_workstreamId a \<noteq> le_workstreamId b"
proof -
  let ?ls = "filter live_lease (xs_leases (exec_run dt collate ops st))"
  have "leases_ok (xs_leases (exec_run dt collate ops st))"
    using leases.run_keeps [of st dt collate ops] assms(1) by (auto simp: leases_step_def leases_grow_def)
  then have "distinct (map le_worktreeId ?ls)" "distinct (map le_workstreamId ?ls)" by (simp_all add: leases_ok_def)
  moreover have "a \<in> set ?ls" "b \<in> set ?ls" using assms(2-5) by simp_all
  ultimately show ?thesis using same_key_not_distinct [OF _ _ assms(6)] by metis
qed

text \<open>Leases of the sample plan.\<close>

definition sample_lease :: "string \<Rightarrow> string \<Rightarrow> string \<Rightarrow> lease_state \<Rightarrow> exec_lease" where
  "sample_lease lid wid wt s =
     \<lparr>le_id = lid, le_runId = ''run'', le_planId = ''plan'', le_workstreamId = wid, le_agentId = ''coder'',
      le_worktreeId = wt, le_workspace = ''/w'', le_branch = ''b'', le_acquiredAt = ''2026-01-01T08:00:00Z'',
      le_renewedAt = ''2026-01-01T08:00:00Z'', le_expiresAt = ''2026-01-01T09:00:00Z'', le_state = s\<rparr>"

definition leased_store :: exec_store where
  "leased_store = saved_store\<lparr>xs_leases := [sample_lease ''l1'' ''a'' ''w1'' LsActive]\<rparr>"

text \<open>A lease that was completed: a renewal is refused, and its worktree is free for another workstream.\<close>

theorem lease_life_witness:
  "\<not> live_lease (sample_lease ''l1'' ''a'' ''w1'' LsCompleted)
   \<and> fst (acquireLease ''2026-01-01 08:30:00'' (sample_lease ''l2'' ''b'' ''w1'' LsRequested)
       (exec_run (\<lambda>_. True) (\<le>) [OpRenew ''l1'' ''2026-01-01T08:30:00Z'' ''2026-01-01T10:00:00Z'']
          (exec_run (\<lambda>_. True) (\<le>) [OpComplete ''l1''] leased_store)))
     = Inr (sample_lease ''l2'' ''b'' ''w1'' LsAllocated)"
proof -
  let ?st = "exec_run (\<lambda>_. True) (\<le>) [OpComplete ''l1''] leased_store"
  let ?st' = "exec_run (\<lambda>_. True) (\<le>) [OpRenew ''l1'' ''2026-01-01T08:30:00Z'' ''2026-01-01T10:00:00Z''] ?st"
  have st: "xs_leases ?st = [sample_lease ''l1'' ''a'' ''w1'' LsCompleted]" by code_simp
  have ok: "leases_ok (xs_leases ?st)" unfolding st by (simp add: leases_ok_def)
  have "sample_lease ''l1'' ''a'' ''w1'' LsCompleted \<in> set (xs_leases ?st)" unfolding st by simp
  note life = lease_life [OF ok this refl]
  have st': "xs_leases ?st' = [sample_lease ''l1'' ''a'' ''w1'' LsCompleted]" by code_simp
  have ws: "workstream_at ''plan'' ''b'' ?st' \<noteq> None" by code_simp
  show ?thesis
    using life [THEN conjunct2, of "''2026-01-01 08:30:00''" "sample_lease ''l2'' ''b'' ''w1'' LsRequested"] ws
    by (simp add: lease_conflict_def st' live_lease_def sample_lease_def)
qed

section \<open>Releasing a second lease\<close>

text \<open>A workstream can release only one lease, ever. The table is unique in workstream and state, also for
  states that are not live: when a lease of the workstream (or of the worktree) is in state released, the
  release of another one violates the constraint, is rolled back, and the lease stays as it was.\<close>

theorem second_release_refused:
  assumes "l \<in> set (xs_leases st)" "m \<in> set (xs_leases st)" and "le_id m \<noteq> le_id l"
    and "le_state l \<noteq> LsReleased" "le_state m = LsReleased"
    and "le_workstreamId m = le_workstreamId l \<or> le_worktreeId m = le_worktreeId l"
  shows "releaseLease (le_id l) st = (Inl ConstraintViolation, st)"
proof -
  let ?f = "\<lambda>x. if le_id x = le_id l then if le_state x \<noteq> LsReleased then x\<lparr>le_state := LsReleased\<rparr> else x else x"
  let ?ls = "map ?f (xs_leases st)"
  have in_ls: "l\<lparr>le_state := LsReleased\<rparr> \<in> set ?ls" "m \<in> set ?ls"
    unfolding set_map
    by (rule image_eqI [OF _ assms(1)], simp add: assms(4)) (rule image_eqI [OF _ assms(2)], simp add: assms(3))
  have ne: "l\<lparr>le_state := LsReleased\<rparr> \<noteq> m"
  proof
    assume "l\<lparr>le_state := LsReleased\<rparr> = m"
    from arg_cong [OF this, of le_id] assms(3) show False by simp
  qed
  have "\<not> leases_ok ?ls"
  proof (cases "le_workstreamId m = le_workstreamId l")
    case True
    then have "\<not> distinct (map (\<lambda>x. (le_workstreamId x, le_state x)) ?ls)"
      using assms(5) by (intro same_key_not_distinct [OF in_ls ne]) simp
    then show ?thesis unfolding leases_ok_def by blast
  next
    case False
    then have "\<not> distinct (map (\<lambda>x. (le_worktreeId x, le_state x)) ?ls)"
      using assms(5,6) by (intro same_key_not_distinct [OF in_ls ne]) simp
    then show ?thesis unfolding leases_ok_def by blast
  qed
  then show ?thesis by (simp add: releaseLease_def tx_def seq_def update_lease_def set_leases_def)
qed

theorem second_release_refused_witness:
  "releaseLease ''l2'' (leased_store\<lparr>xs_leases := [sample_lease ''l1'' ''a'' ''w1'' LsReleased, sample_lease ''l2'' ''a'' ''w2'' LsActive]\<rparr>)
     = (Inl ConstraintViolation, leased_store\<lparr>xs_leases := [sample_lease ''l1'' ''a'' ''w1'' LsReleased, sample_lease ''l2'' ''a'' ''w2'' LsActive]\<rparr>)"
  using second_release_refused [of "sample_lease ''l2'' ''a'' ''w2'' LsActive"
      "leased_store\<lparr>xs_leases := [sample_lease ''l1'' ''a'' ''w1'' LsReleased, sample_lease ''l2'' ''a'' ''w2'' LsActive]\<rparr>"
      "sample_lease ''l1'' ''a'' ''w1'' LsReleased"]
  by (simp add: sample_lease_def)

section \<open>Expiry\<close>

lemma same_prefix_less: "(d @ a < d @ (b :: string)) = (a < b)"
  by (induction d) simp_all

text \<open>\<open>acquireLease\<close> compares the expiry, an ISO text with a T between date and time, with the text of
  \<open>datetime('now')\<close>, which has a space there. On the day of its expiry a lease therefore never counts as
  expired: whatever the times of day, another live lease of the worktree or the workstream refuses the new one.\<close>

theorem expired_lease_blocks_all_day:
  assumes "l \<in> set (xs_leases st)" "live_lease l"
    and "le_worktreeId l = le_worktreeId i \<or> le_workstreamId l = le_workstreamId i"
    and "le_expiresAt l = day @ ''T'' @ expiry" and "clock = day @ '' '' @ time"
  shows "acquireLease clock i st = (Inl WorktreeLeaseConflict, st)"
proof -
  have "clock < le_expiresAt l" unfolding assms(4,5) same_prefix_less by (simp add: less_char_def)
  then have "lease_conflict clock i st" using assms(1-3) by (auto simp: lease_conflict_def list_ex_iff)
  then show ?thesis by (simp add: acquireLease_def tx_def seq_def require_def)
qed

theorem expired_lease_blocks_all_day_witness:
  "acquireLease ''2026-01-01 23:59:59'' (sample_lease ''l2'' ''a'' ''w2'' LsRequested) leased_store
     = (Inl WorktreeLeaseConflict, leased_store)"
  by (rule expired_lease_blocks_all_day [where l = "sample_lease ''l1'' ''a'' ''w1'' LsActive" and day = "''2026-01-01''"
        and expiry = "''09:00:00Z''" and time = "''23:59:59''"])
    (simp_all add: leased_store_def sample_lease_def live_lease_def)

end
