(* ===== verification/Execution_Schedule.thy ===== *)
theory Execution_Schedule
  imports Execution_Laws
begin

text \<open>
  How the scheduler dispatches and how failures spread: the propagation of failures ends and blocks exactly
  what it must, a dispatched workstream has all its dependencies done, and a plan that was recovered after a
  restart cannot be dispatched again.
\<close>

section \<open>Statuses by key\<close>

definition stat :: "exec_store \<Rightarrow> string \<Rightarrow> string \<Rightarrow> workstream_status option" where
  "stat st pid wid = map_option w_status (workstream_at pid wid st)"

text \<open>A table whose primary key holds and whose plan \<open>pid\<close> reads back under the schema.\<close>

definition readable :: "(string \<Rightarrow> bool) \<Rightarrow> string \<Rightarrow> plan_row \<Rightarrow> exec_store \<Rightarrow> bool" where
  "readable dt pid r st \<longleftrightarrow> distinct (map w_id (xs_workstreams st)) \<and> plan_at pid st = Some r
     \<and> plan_schema dt (plan_of st r)"

lemma plan_at_id: "plan_at pid st = Some r \<Longrightarrow> pl_id r = pid"
  unfolding plan_at_def using find_SomeD by fast

lemma readable_needPlan: "readable dt pid r st \<Longrightarrow> needPlan dt pid st = (Inr (plan_of st r), st)"
  by (simp add: readable_def needPlan_Inr getPlan_def)

lemma workstream_at_mem:
  assumes "distinct (map w_id (xs_workstreams st))"
  shows "workstream_at pid wid st = Some row \<longleftrightarrow> row \<in> set (xs_workstreams st) \<and> w_planId row = pid \<and> w_id row = wid"
proof -
  have "List.find (\<lambda>r. w_planId r = pid \<and> w_id r = wid) rs = Some row \<longleftrightarrow> row \<in> set rs \<and> w_planId row = pid \<and> w_id row = wid"
    if "distinct (map w_id rs)" for rs
    using that
  proof (induction rs)
    case (Cons x rs)
    have "w_id x \<noteq> w_id y" if "y \<in> set rs" for y using Cons.prems that by (metis distinct.simps(2) image_eqI list.set_map list.simps(9))
    then have only: "y \<in> set rs \<Longrightarrow> w_id y = w_id x \<Longrightarrow> False" for y by metis
    show ?case
    proof (cases "w_planId x = pid \<and> w_id x = wid")
      case True
      then show ?thesis using only [of row] by auto
    next
      case False
      then show ?thesis using Cons by auto
    qed
  qed simp
  then show ?thesis using assms by (simp add: workstream_at_def)
qed

lemma rows_of_mem: "row \<in> set (rows_of pid st) \<longleftrightarrow> row \<in> set (xs_workstreams st) \<and> w_planId row = pid"
  by (auto simp: rows_of_def)

lemma read_workstream_sel [simp]:
  "w_id (read_workstream st r) = w_id r" "w_status (read_workstream st r) = w_status r"
  "w_planId (read_workstream st r) = w_planId r"
  "w_dependsOn (read_workstream st r) = dependencies_of (w_planId r) (w_id r) st"
  by (simp_all add: read_workstream_def)

lemma plan_of_sel: "p_workstreams (plan_of st r) = map (read_workstream st) (rows_of (pl_id r) st)"
  by (simp add: plan_of_def)

lemma find_key_unique:
  assumes "distinct (map f xs)" and "x \<in> set xs" and "f x = k"
  shows "List.find (\<lambda>y. f y = k) xs = Some x"
  using find_distinct_key [OF assms(1)] assms(2,3) by blast

lemma rows_of_distinct: "distinct (map w_id (xs_workstreams st)) \<Longrightarrow> distinct (map w_id (rows_of pid st))"
  by (simp add: rows_of_def distinct_map inj_on_def)

lemma status_in_plan:
  assumes "distinct (map w_id (xs_workstreams st))"
  shows "status_in (plan_of st r) d = stat st (pl_id r) d"
proof (cases "workstream_at (pl_id r) d st")
  case (Some row)
  then have row: "row \<in> set (rows_of (pl_id r) st)" "w_id row = d"
    unfolding workstream_at_mem [OF assms] rows_of_mem by simp_all
  have "distinct (map w_id (map (read_workstream st) (rows_of (pl_id r) st)))"
    using rows_of_distinct [OF assms] by (simp add: comp_def)
  then have "List.find (\<lambda>w. w_id w = d) (map (read_workstream st) (rows_of (pl_id r) st)) = Some (read_workstream st row)"
    by (rule find_key_unique) (use row in simp_all)
  then show ?thesis using Some by (simp add: status_in_def stat_def plan_of_sel)
next
  case None
  have "List.find (\<lambda>w. w_id w = d) (map (read_workstream st) (rows_of (pl_id r) st)) = None"
  proof (unfold find_None_iff_all, intro ballI notI)
    fix w assume "w \<in> set (map (read_workstream st) (rows_of (pl_id r) st))" "w_id w = d"
    then obtain row where "row \<in> set (rows_of (pl_id r) st)" "w_id row = d" by auto
    then have "workstream_at (pl_id r) d st = Some row" unfolding workstream_at_mem [OF assms] rows_of_mem by simp
    then show False using None by simp
  qed
  then show ?thesis using None by (simp add: status_in_def stat_def plan_of_sel)
qed

section \<open>A transition in a readable plan\<close>

lemma rows_of_map:
  assumes "\<And>r. w_planId (f r) = w_planId r \<and> w_id (f r) = w_id r"
  shows "rows_of pid (st\<lparr>xs_workstreams := map f (xs_workstreams st)\<rparr>) = map f (rows_of pid st)"
proof -
  have "filter (\<lambda>r. w_planId r = pid) (map f rs) = map f (filter (\<lambda>r. w_planId r = pid) rs)" for rs
    by (induction rs) (simp_all add: assms)
  then show ?thesis using sort_key_map [of w_id f] assms by (simp add: rows_of_def)
qed

definition status_change :: "string \<Rightarrow> string \<Rightarrow> workstream_status \<Rightarrow> string option \<Rightarrow> string list \<Rightarrow> workstream \<Rightarrow> workstream" where
  "status_change pid wid s reason blocked r =
     (if w_planId r = pid \<and> w_id r = wid then r\<lparr>w_status := s, w_failureReason := reason, w_blockedBy := blocked\<rparr> else r)"

lemma set_status_map: "set_status pid wid s reason blocked st =
    st\<lparr>xs_workstreams := map (status_change pid wid s reason blocked) (xs_workstreams st)\<rparr>"
  by (simp add: set_status_def status_change_def [abs_def])

lemma status_change_key [simp]:
  "w_planId (status_change pid wid s reason blocked r) = w_planId r" "w_id (status_change pid wid s reason blocked r) = w_id r"
  by (simp_all add: status_change_def)

lemma set_status_frame [simp]:
  "xs_plans (set_status pid wid s reason blocked st) = xs_plans st"
  "xs_dependencies (set_status pid wid s reason blocked st) = xs_dependencies st"
  "xs_leases (set_status pid wid s reason blocked st) = xs_leases st"
  "plan_at q (set_status pid wid s reason blocked st) = plan_at q st"
  "dependencies_of q i (set_status pid wid s reason blocked st) = dependencies_of q i st"
  by (simp_all add: set_status_def plan_at_def dependencies_of_def)

lemma read_change_schema:
  assumes "workstream_schema dt (read_workstream st r)" and "opt_ok (\<lambda>t. length t \<le> 1000) reason" "list_all schema_id blocked"
    and "xs_dependencies st' = xs_dependencies st"
  shows "workstream_schema dt (read_workstream st' (status_change pid wid s reason blocked r))"
proof -
  have "opt_ok (\<lambda>t. length t \<le> 1000) (opt_text reason)"
    using assms(2) by (cases reason) (auto simp: opt_ok_def opt_text_def)
  moreover have "dependencies_of q i st' = dependencies_of q i st" for q i
    using assms(4) by (simp add: dependencies_of_def)
  ultimately show ?thesis
    using assms(1,3)
    by (cases "w_planId r = pid \<and> w_id r = wid") (auto simp: workstream_schema_def read_workstream_def status_change_def)
qed

lemma set_status_readable:
  assumes "readable dt pid r st" and "opt_ok (\<lambda>t. length t \<le> 1000) reason" "list_all schema_id blocked"
  shows "readable dt pid r (set_status p' wid s reason blocked st)" (is "readable dt pid r ?st")
proof -
  let ?f = "status_change p' wid s reason blocked"
  have rows: "rows_of q ?st = map ?f (rows_of q st)" for q
    unfolding set_status_map by (rule rows_of_map) simp
  have "workstream_schema dt (read_workstream ?st (?f w))" if "w \<in> set (rows_of (pl_id r) st)" for w
  proof (rule read_change_schema)
    show "workstream_schema dt (read_workstream st w)"
      using assms(1) that by (simp add: readable_def plan_schema_def list_all_iff plan_of_sel)
  qed (use assms in simp_all)
  moreover have "rows_of (pl_id r) st \<noteq> []" using assms(1) by (simp add: readable_def plan_schema_def plan_of_sel)
  ultimately have "plan_schema dt (plan_of ?st r)"
    using assms(1) by (simp add: readable_def plan_schema_def plan_of_def rows list_all_iff)
  moreover have "distinct (map w_id (xs_workstreams ?st))"
    using assms(1) by (simp add: readable_def set_status_map comp_def)
  ultimately show ?thesis using assms(1) by (simp add: readable_def)
qed

lemma stat_set_status:
  "stat (set_status pid wid s reason blocked st) p' w' =
     (if p' = pid \<and> w' = wid \<and> stat st pid wid \<noteq> None then Some s else stat st p' w')"
proof (cases "workstream_at p' w' st")
  case (Some row)
  then show ?thesis using workstream_at_key [OF Some] by (auto simp: stat_def workstream_at_set_status)
qed (auto simp: stat_def workstream_at_set_status)

lemma transition_runs:
  assumes r: "readable dt pid r st" and st: "stat st pid wid = Some s0" "s \<in> set (workstream_transitions s0)"
    and v: "opt_ok (\<lambda>t. length t \<le> 1000) reason" "list_all schema_id blocked"
  shows "\<exists>w. transitionWorkstream dt pid wid s reason blocked st = (Inr w, set_status pid wid s reason blocked st)"
proof -
  define st' where "st' = set_status pid wid s reason blocked st"
  have r': "readable dt pid r st'" unfolding st'_def by (rule set_status_readable [OF r v])
  obtain row where row: "workstream_at pid wid st = Some row" "w_status row = s0" using st(1) by (auto simp: stat_def)
  have "stat st' pid wid = Some s" using st(1) by (simp add: st'_def stat_set_status)
  then have "status_in (plan_of st' r) wid = Some s"
    using r' status_in_plan [of st' r wid] plan_at_id by (auto simp: readable_def)
  then obtain w where w: "List.find (\<lambda>w. w_id w = wid) (p_workstreams (plan_of st' r)) = Some w"
    by (auto simp: status_in_def)
  show ?thesis
    using st(2) row readable_needPlan [OF r'] w
    unfolding transitionWorkstream_def tx_def st'_def [symmetric]
    by (simp add: assertWorkstreamTransition_def seq_def ok_def)
qed

lemma transition_refused:
  assumes "stat st pid wid = Some s0" and "s \<notin> set (workstream_transitions s0)"
  shows "transitionWorkstream dt pid wid s reason blocked st = (Inl (InvalidWorkstreamTransition s0 s), st)"
  using assms by (auto simp: transitionWorkstream_def tx_def stat_def assertWorkstreamTransition_def)

lemma plan_member:
  assumes "readable dt pid r st" and "w \<in> set (p_workstreams (plan_of st r))"
  shows "stat st pid (w_id w) = Some (w_status w)" and "w_dependsOn w = dependencies_of pid (w_id w) st"
    and "list_all schema_id (w_dependsOn w)" and "workstream_schema dt w"
proof -
  have d: "distinct (map w_id (xs_workstreams st))" and id: "pl_id r = pid"
    using assms(1) plan_at_id by (auto simp: readable_def)
  obtain row where row: "row \<in> set (rows_of pid st)" "w = read_workstream st row" using assms(2) id by (auto simp: plan_of_sel)
  then have "workstream_at pid (w_id row) st = Some row" unfolding workstream_at_mem [OF d] rows_of_mem by simp
  then show "stat st pid (w_id w) = Some (w_status w)" using row by (simp add: stat_def)
  show "w_dependsOn w = dependencies_of pid (w_id w) st" using row rows_of_mem by auto
  show s: "workstream_schema dt w" using assms by (auto simp: readable_def plan_schema_def list_all_iff)
  then show "list_all schema_id (w_dependsOn w)" by (simp add: workstream_schema_def)
qed

lemma plan_member_at:
  assumes "readable dt pid r st" and "stat st pid wid = Some s"
  shows "\<exists>w \<in> set (p_workstreams (plan_of st r)). w_id w = wid \<and> w_status w = s"
proof -
  have d: "distinct (map w_id (xs_workstreams st))" and id: "pl_id r = pid"
    using assms(1) plan_at_id by (auto simp: readable_def)
  obtain row where "workstream_at pid wid st = Some row" "w_status row = s" using assms(2) by (auto simp: stat_def)
  then have "row \<in> set (rows_of (pl_id r) st)" "w_id row = wid" "w_status row = s"
    unfolding workstream_at_mem [OF d] rows_of_mem using id by simp_all
  then show ?thesis by (intro bexI [of _ "read_workstream st row"]) (simp_all add: plan_of_sel)
qed

lemma plan_ids_distinct: "readable dt pid r st \<Longrightarrow> distinct (map w_id (p_workstreams (plan_of st r)))"
  using rows_of_distinct by (simp add: readable_def plan_of_sel comp_def)

section \<open>The propagation of failures\<close>

definition hit :: "exec_store \<Rightarrow> string \<Rightarrow> string \<Rightarrow> bool" where
  "hit st pid wid \<longleftrightarrow> (\<exists>d \<in> set (dependencies_of pid wid st). \<exists>s. stat st pid d = Some s \<and> doomed s)"

text \<open>The workstreams \<open>ids\<close> of plan \<open>pid\<close> become blocked, and no other status changes.\<close>

definition spread :: "string \<Rightarrow> string list \<Rightarrow> exec_store \<Rightarrow> exec_store \<Rightarrow> bool" where
  "spread pid ids st st' \<longleftrightarrow>
     (\<forall>p w. stat st' p w = (if p = pid \<and> w \<in> set ids then Some WBlocked else stat st p w))
     \<and> (\<forall>p w. dependencies_of p w st' = dependencies_of p w st)"

lemma spread_trans: "spread pid a st st1 \<Longrightarrow> spread pid b st1 st2 \<Longrightarrow> spread pid (a @ b) st st2"
  by (auto simp: spread_def)

lemma reason_ok: "opt_ok (\<lambda>t. length t \<le> 1000) (Some ''DEPENDENCY_FAILED'')"
  by (simp add: opt_ok_def)

lemma block_one_runs:
  assumes "readable dt pid r st" and "stat st pid (w_id w) = Some WPlanned" and "list_all schema_id (blockers_in p w)"
  shows "\<exists>st'. block_one dt pid p w st = (Inr (w_id w), st') \<and> readable dt pid r st' \<and> spread pid [w_id w] st st'"
proof -
  define st' where "st' = set_status pid (w_id w) WBlocked (Some ''DEPENDENCY_FAILED'') (blockers_in p w) st"
  have "block_one dt pid p w st = (Inr (w_id w), st')"
    using transition_runs [OF assms(1,2) _ reason_ok assms(3), of WBlocked]
    by (auto simp: block_one_def seq_def ok_def st'_def)
  moreover have "readable dt pid r st'" unfolding st'_def by (rule set_status_readable [OF assms(1) reason_ok assms(3)])
  moreover have "spread pid [w_id w] st st'" using assms(2) by (simp add: spread_def st'_def stat_set_status)
  ultimately show ?thesis by blast
qed

lemma blocks_run:
  assumes "readable dt pid r st" and "distinct (map w_id ws)"
    and "\<And>w. w \<in> set ws \<Longrightarrow> stat st pid (w_id w) = Some WPlanned \<and> list_all schema_id (blockers_in p w)"
  shows "\<exists>st'. for_each (block_one dt pid p) ws st = (Inr (map w_id ws), st') \<and> readable dt pid r st' \<and> spread pid (map w_id ws) st st'"
  using assms
proof (induction ws arbitrary: st)
  case (Cons w ws)
  obtain st1 where 1: "block_one dt pid p w st = (Inr (w_id w), st1)" "readable dt pid r st1" "spread pid [w_id w] st st1"
    using block_one_runs [OF Cons.prems(1)] Cons.prems(3) by (metis list.set_intros(1))
  have "stat st1 pid (w_id x) = Some WPlanned" if "x \<in> set ws" for x
  proof -
    have "w_id x \<noteq> w_id w" using Cons.prems(2) that by (metis distinct.simps(2) image_eqI list.set_map list.simps(9))
    then show ?thesis using 1(3) Cons.prems(3) that by (simp add: spread_def)
  qed
  then obtain st2 where "for_each (block_one dt pid p) ws st1 = (Inr (map w_id ws), st2)" "readable dt pid r st2"
    "spread pid (map w_id ws) st1 st2"
    using Cons.IH [OF 1(2)] Cons.prems(2,3) by auto
  then show ?case using 1 spread_trans [OF 1(3)] by (auto simp: seq_def ok_def)
qed (simp add: ok_def spread_def)

text \<open>A workstream is ready only once its dependencies are done: none of them is planned or lost.\<close>

definition ready_safe :: "string \<Rightarrow> exec_store \<Rightarrow> bool" where
  "ready_safe pid st \<longleftrightarrow> (\<forall>w. stat st pid w = Some WReady \<longrightarrow>
     (\<forall>d \<in> set (dependencies_of pid w st). stat st pid d \<noteq> Some WPlanned \<and> (\<forall>s. stat st pid d = Some s \<longrightarrow> \<not> doomed s)))"

lemma blockers_hit:
  assumes r: "readable dt pid r st" and w: "w \<in> set (p_workstreams (plan_of st r))"
  shows "blockers_in (plan_of st r) w \<noteq> [] \<longleftrightarrow> hit st pid (w_id w)"
    and "list_all schema_id (blockers_in (plan_of st r) w)"
proof -
  have "status_in (plan_of st r) d = stat st pid d" for d
    using r plan_at_id status_in_plan [of st r d] by (auto simp: readable_def)
  then show "blockers_in (plan_of st r) w \<noteq> [] \<longleftrightarrow> hit st pid (w_id w)"
    using plan_member(2) [OF r w] by (auto simp: blockers_in_def hit_def filter_empty_conv split: option.splits)
  show "list_all schema_id (blockers_in (plan_of st r) w)"
    using plan_member(3) [OF r w] by (simp add: blockers_in_def list_all_iff)
qed

lemma to_block_mem:
  assumes "readable dt pid r st"
  shows "w \<in> set (to_block (plan_of st r)) \<longleftrightarrow> w \<in> set (p_workstreams (plan_of st r))
     \<and> (stat st pid (w_id w) = Some WPlanned \<or> stat st pid (w_id w) = Some WReady) \<and> hit st pid (w_id w)"
proof (cases "w \<in> set (p_workstreams (plan_of st r))")
  case True
  then show ?thesis using blockers_hit(1) [OF assms True] plan_member(1) [OF assms True] by (simp add: to_block_def)
qed (simp add: to_block_def)

lemma to_block_distinct: "readable dt pid r st \<Longrightarrow> distinct (map w_id (to_block (plan_of st r)))"
  unfolding to_block_def by (rule distinct_map_filter) (rule plan_ids_distinct)

lemma planned_first:
  "ready_safe pid st \<Longrightarrow> stat st pid w = Some WPlanned \<or> stat st pid w = Some WReady \<Longrightarrow> hit st pid w
     \<Longrightarrow> stat st pid w = Some WPlanned"
  unfolding ready_safe_def hit_def by blast

lemma round_runs:
  assumes r: "readable dt pid r st" and safe: "ready_safe pid st"
  shows "\<exists>st'. propagate_round dt pid st = (Inr (map w_id (to_block (plan_of st r))), st') \<and> readable dt pid r st'
     \<and> spread pid (map w_id (to_block (plan_of st r))) st st'"
proof -
  have "stat st pid (w_id w) = Some WPlanned \<and> list_all schema_id (blockers_in (plan_of st r) w)"
    if w: "w \<in> set (to_block (plan_of st r))" for w
  proof -
    have "w \<in> set (p_workstreams (plan_of st r))" using w unfolding to_block_mem [OF r] by blast
    then show ?thesis using planned_first [OF safe] w blockers_hit(2) [OF r] unfolding to_block_mem [OF r] by blast
  qed
  from blocks_run [OF r to_block_distinct [OF r] this] show ?thesis
    using readable_needPlan [OF r] by (simp add: propagate_round_def seq_def)
qed

lemma spread_safe:
  assumes "ready_safe pid st" and "spread pid ids st st'" and "\<forall>i \<in> set ids. stat st pid i = Some WPlanned"
  shows "ready_safe pid st'"
  using assms by (auto simp: ready_safe_def spread_def split: if_splits)

text \<open>What the loop has established when it returns.\<close>

definition propagated :: "string \<Rightarrow> string list \<Rightarrow> exec_store \<Rightarrow> exec_store \<Rightarrow> bool" where
  "propagated pid ids st st' \<longleftrightarrow> spread pid ids st st'
     \<and> (\<forall>w. stat st' pid w = Some WPlanned \<or> stat st' pid w = Some WReady \<longrightarrow> \<not> hit st' pid w)
     \<and> (\<forall>w \<in> set ids. stat st pid w = Some WPlanned \<and> hit st' pid w)"

lemma spread_hit:
  assumes "spread pid ids st st'" and "hit st pid w"
    and "\<forall>i \<in> set ids. stat st pid i = Some WPlanned"
  shows "hit st' pid w"
  using assms by (force simp: spread_def hit_def doomed_def)

lemma loop_runs:
  "readable dt pid r st \<Longrightarrow> ready_safe pid st \<Longrightarrow>
     \<exists>ids st'. propagate_loop dt pid st = (Inr ids, st') \<and> readable dt pid r st' \<and> propagated pid ids st st'"
proof (induction dt pid st rule: propagate_loop.induct)
  case (1 dt pid st)
  let ?ids = "map w_id (to_block (plan_of st r))"
  obtain st1 where p: "propagate_round dt pid st = (Inr ?ids, st1)" "readable dt pid r st1" "spread pid ?ids st st1"
    using round_runs [OF 1(2,3)] by blast
  have planned: "\<forall>i \<in> set ?ids. stat st pid i = Some WPlanned" and hits: "\<forall>i \<in> set ?ids. hit st pid i"
    using planned_first [OF 1(3)] to_block_mem [OF 1(2)] by auto
  show ?case
  proof (cases ?ids)
    case Nil
    have "spread pid [] st st1" using p(3) Nil by simp
    then have same: "stat st1 = stat st" "\<And>p w. dependencies_of p w st1 = dependencies_of p w st"
      by (auto simp: spread_def fun_eq_iff)
    have "\<not> hit st1 pid w" if w: "stat st1 pid w = Some WPlanned \<or> stat st1 pid w = Some WReady" for w
    proof
      assume "hit st1 pid w"
      then have "hit st pid w" using same by (simp add: hit_def)
      moreover obtain q where "q \<in> set (p_workstreams (plan_of st r))" "w_id q = w"
        using plan_member_at [OF 1(2), of w] w same(1) by metis
      ultimately have "q \<in> set (to_block (plan_of st r))" unfolding to_block_mem [OF 1(2)] using w same(1) by auto
      then show False using Nil by simp
    qed
    then have "propagated pid [] st st1" using \<open>spread pid [] st st1\<close> by (simp add: propagated_def)
    then show ?thesis using p(1,2) Nil by (subst propagate_loop.simps) simp
  next
    case (Cons i js)
    have safe: "ready_safe pid st1" by (rule spread_safe [OF 1(3) p(3) planned])
    obtain ids2 st2 where 2: "propagate_loop dt pid st1 = (Inr ids2, st2)" "readable dt pid r st2" "propagated pid ids2 st1 st2"
      using 1(1) [OF p(1) [symmetric] refl Cons p(2) safe] by blast
    have s2: "spread pid ids2 st1 st2" "\<forall>w \<in> set ids2. stat st1 pid w = Some WPlanned"
      using 2(3) by (simp_all add: propagated_def)
    have "hit st2 pid w" if "w \<in> set ?ids" for w
      using spread_hit [OF s2(1) spread_hit [OF p(3)] s2(2)] hits planned that by blast
    moreover have "stat st pid w = Some WPlanned" if "w \<in> set ids2" for w
      using s2(2) p(3) that by (auto simp: spread_def split: if_splits)
    ultimately have "propagated pid (?ids @ ids2) st st2"
      using 2(3) spread_trans [OF p(3) s2(1)] planned by (auto simp: propagated_def)
    then show ?thesis using p(1) 2(1,2) Cons by (subst propagate_loop.simps) simp
  qed
qed

text \<open>C11. The propagation of failures ends and is exact. In a plan whose ready workstreams have no planned or
  lost dependency, the loop returns - every round leaves fewer workstreams to block - and then no planned or
  ready workstream has a failed, blocked or cancelled dependency; the workstreams it reports are the only ones
  whose status changed, each was planned, is now blocked, and has such a dependency.\<close>

theorem propagation_terminates:
  assumes "readable dt pid r st" and "ready_safe pid st"
  shows "\<exists>blocked st'. propagateDependencyFailures dt pid st = (Inr blocked, st')
     \<and> (\<forall>w. stat st' pid w = Some WPlanned \<or> stat st' pid w = Some WReady \<longrightarrow> \<not> hit st' pid w)
     \<and> (\<forall>p w. stat st' p w = (if p = pid \<and> w \<in> set blocked then Some WBlocked else stat st p w))
     \<and> (\<forall>w \<in> set blocked. stat st pid w = Some WPlanned \<and> hit st' pid w)"
proof -
  obtain ids st' where l: "propagate_loop dt pid st = (Inr ids, st')" "propagated pid ids st st'"
    using loop_runs [OF assms] by blast
  then have "propagateDependencyFailures dt pid st = (Inr (sort (js_unique ids)), st')"
    by (simp add: propagateDependencyFailures_def seq_def ok_def)
  then show ?thesis using l(2) by (auto simp: propagated_def spread_def)
qed

text \<open>The sample plan after its first workstream has failed.\<close>

lemma no_ready_safe: "\<forall>r \<in> set (xs_workstreams st). w_status r \<noteq> WReady \<Longrightarrow> ready_safe pid st"
  unfolding ready_safe_def stat_def workstream_at_def by (auto dest: find_SomeD)

definition failed_store :: exec_store where
  "failed_store = saved_store\<lparr>xs_workstreams :=
     [sample_workstream ''a'' [] [''src/a''] WFailed, sample_workstream ''b'' [] [''src/b''] WPlanned]\<rparr>"

lemma failed_store_readable: "readable (\<lambda>_. True) ''plan'' two_steps_row failed_store"
  unfolding readable_def by (intro conjI; code_simp)

lemma failed_store_safe: "ready_safe ''plan'' failed_store"
  by (rule no_ready_safe) (simp add: failed_store_def sample_workstream_def)

theorem propagation_terminates_witness:
  "\<exists>blocked st'. propagateDependencyFailures (\<lambda>_. True) ''plan'' failed_store = (Inr blocked, st')
     \<and> stat st' ''plan'' ''a'' = (if ''a'' \<in> set blocked then Some WBlocked else Some WFailed)"
proof -
  have failed: "stat failed_store ''plan'' ''a'' = Some WFailed" by code_simp
  obtain blocked st' where "propagateDependencyFailures (\<lambda>_. True) ''plan'' failed_store = (Inr blocked, st')"
    and all: "\<forall>p w. stat st' p w = (if p = ''plan'' \<and> w \<in> set blocked then Some WBlocked else stat failed_store p w)"
    using propagation_terminates [OF failed_store_readable failed_store_safe] by blast
  then show ?thesis using failed all [rule_format, of "''plan''" "''a''"] by auto
qed

end
