(* ===== verification/Execution_Save.thy ===== *)
theory Execution_Save
  imports Execution_Schedule
begin

text \<open>
  Saving a plan: what its rows are, that reading them gives the plan back, and the order of workstreams that
  the tables need.
\<close>

section \<open>The rows a save adds\<close>

definition saved_row :: "plan \<Rightarrow> workstream \<Rightarrow> workstream" where
  "saved_row p w = w\<lparr>w_planId := p_planId p, w_runId := p_runId p, w_dependsOn := []\<rparr>"

definition dependency_rows :: "plan \<Rightarrow> workstream \<Rightarrow> (string \<times> string \<times> string) list" where
  "dependency_rows p w = map (\<lambda>d. (p_planId p, w_id w, d)) (w_dependsOn w)"

definition adds :: "workstream list \<Rightarrow> (string \<times> string \<times> string) list \<Rightarrow> exec_store \<Rightarrow> exec_store \<Rightarrow> bool" where
  "adds rows deps st st' \<longleftrightarrow> xs_plans st' = xs_plans st \<and> xs_workstreams st' = xs_workstreams st @ rows
     \<and> xs_dependencies st' = xs_dependencies st @ deps"

lemma adds_trans: "adds r d st st1 \<Longrightarrow> adds r' d' st1 st2 \<Longrightarrow> adds (r @ r') (d @ d') st st2"
  by (simp add: adds_def)

lemma adds_refl: "adds [] [] st st"
  by (simp add: adds_def)

lemma for_each_adds:
  assumes "\<And>x st y st'. f x st = (Inr y, st') \<Longrightarrow> adds (rows x) (deps x) st st'"
  shows "for_each f xs st = (Inr ys, st') \<Longrightarrow> adds (concat (map rows xs)) (concat (map deps xs)) st st'"
proof (induction xs arbitrary: st ys)
  case (Cons x xs)
  then obtain y st1 zs where s: "f x st = (Inr y, st1)" "for_each f xs st1 = (Inr zs, st')"
    by (auto simp: seq_Inr ok_Inr)
  show ?case using adds_trans [OF assms [OF s(1)] Cons.IH [OF s(2)]] by simp
qed (simp add: ok_Inr adds_refl)

lemma no_rows: "concat (map (\<lambda>_. []) xs) = []"
  by (induction xs) simp_all

lemma require_Inr: "require P e st = (Inr u, st') \<longleftrightarrow> P st \<and> st' = st"
  by (auto simp: require_def)

lemma update_Inr: "update f st = (Inr u, st') \<longleftrightarrow> st' = f st"
  by (auto simp: update_def)

lemmas runs = seq_Inr ok_Inr raise_Inr tx_Inr require_Inr update_Inr

lemma save_workstream_adds:
  assumes "save_workstream p w st = (Inr u, st')"
  shows "adds [saved_row p w] (dependency_rows p w) st st' \<and> w_id w \<notin> w_id ` set (xs_workstreams st)"
proof -
  obtain st1 us st2 where 1: "insert_workstream p w st = (Inr (), st1)"
    and 2: "for_each (insert_dependency p w) (w_dependsOn w) st1 = (Inr us, st2)"
    and 3: "(case normalizeOwnership (w_ownedPaths w) of Inl e \<Rightarrow> raise e
      | Inr owned \<Rightarrow> seq (for_each (insert_claim p w) owned) (\<lambda>_. ok ())) st2 = (Inr u, st')"
    using assms by (auto simp: save_workstream_def seq_Inr)
  have a1: "adds [saved_row p w] [] st st1" "w_id w \<notin> w_id ` set (xs_workstreams st)"
    using 1 by (auto simp: insert_workstream_def runs adds_def saved_row_def)
  have "adds (concat (map (\<lambda>_. []) (w_dependsOn w))) (concat (map (\<lambda>d. [(p_planId p, w_id w, d)]) (w_dependsOn w))) st1 st2"
    by (rule for_each_adds [OF _ 2]) (auto simp: insert_dependency_def runs adds_def)
  then have a2: "adds [] (dependency_rows p w) st1 st2" by (simp add: dependency_rows_def concat_map_singleton no_rows)
  obtain owned vs where "for_each (insert_claim p w) owned st2 = (Inr vs, st')"
    using 3 by (auto simp: runs split: sum.splits)
  then have "adds (concat (map (\<lambda>_. []) owned)) (concat (map (\<lambda>_. []) owned)) st2 st'"
    by (rule for_each_adds [rotated]) (auto simp: insert_claim_def runs adds_def)
  then have a3: "adds [] [] st2 st'" by (simp add: no_rows)
  show ?thesis using adds_trans [OF adds_trans [OF a1(1) a2] a3] a1(2) by simp
qed

lemma save_workstreams_add:
  assumes "for_each (save_workstream p) ws st = (Inr us, st')"
  shows "adds (map (saved_row p) ws) (concat (map (dependency_rows p) ws)) st st'"
    and "distinct (map w_id (xs_workstreams st)) \<Longrightarrow> distinct (map w_id (xs_workstreams st'))"
proof -
  have "adds (concat (map (\<lambda>w. [saved_row p w]) ws)) (concat (map (dependency_rows p) ws)) st st'"
    by (rule for_each_adds [OF _ assms]) (simp add: save_workstream_adds)
  then show "adds (map (saved_row p) ws) (concat (map (dependency_rows p) ws)) st st'" by (simp add: concat_map_singleton)
  show "distinct (map w_id (xs_workstreams st)) \<Longrightarrow> distinct (map w_id (xs_workstreams st'))"
    using assms
  proof (induction ws arbitrary: st us)
    case (Cons w ws)
    then obtain u st1 vs where s: "save_workstream p w st = (Inr u, st1)" "for_each (save_workstream p) ws st1 = (Inr vs, st')"
      by (auto simp: runs)
    have "distinct (map w_id (xs_workstreams st1))"
      using save_workstream_adds [OF s(1)] Cons.prems(1) by (auto simp: adds_def saved_row_def)
    then show ?case by (rule Cons.IH) (rule s(2))
  qed (simp add: ok_Inr)
qed

text \<open>What \<open>savePlan\<close> has checked and done when it returns.\<close>

definition plan_row_of :: "plan \<Rightarrow> plan_row" where
  "plan_row_of p = \<lparr>pl_id = p_planId p, pl_runId = p_runId p, pl_routingDecisionId = p_routingDecisionId p,
     pl_sourceSha = p_sourceSha p, pl_policyVersion = p_policyVersion p, pl_createdAt = p_createdAt p,
     pl_status = nullish (p_status p) PPlanned, pl_startedAt = p_startedAt p, pl_completedAt = p_completedAt p\<rparr>"

lemma savePlan_Inr:
  assumes "savePlan dt collate p st = (Inr q, st')"
  shows "plan_schema dt p" and "\<forall>w \<in> set (p_workstreams p). w_planId w = p_planId p \<and> w_runId w = p_runId p"
    and "plan_at (p_planId p) st = None" and "q = p\<lparr>p_status := Some (nullish (p_status p) PPlanned)\<rparr>"
    and "xs_plans st' = xs_plans st @ [plan_row_of p]"
    and "xs_workstreams st' = xs_workstreams st @ map (saved_row p) (p_workstreams p)"
    and "xs_dependencies st' = xs_dependencies st @ concat (map (dependency_rows p) (p_workstreams p))"
    and "distinct (map w_id (xs_workstreams st)) \<Longrightarrow> distinct (map w_id (xs_workstreams st'))"
proof -
  define p' where "p' = p\<lparr>p_status := Some (nullish (p_status p) PPlanned)\<rparr>"
  have sel: "p_planId p' = p_planId p" "p_runId p' = p_runId p" "p_workstreams p' = p_workstreams p"
    "plan_row_of p' = plan_row_of p" by (simp_all add: p'_def plan_row_of_def)
  have rows: "saved_row p' = saved_row p" "dependency_rows p' = dependency_rows p"
    by (simp_all add: fun_eq_iff saved_row_def dependency_rows_def sel)
  show schema: "plan_schema dt p" using assms by (auto simp: savePlan_def Let_def raise_Inr split: if_splits)
  show ids: "\<forall>w \<in> set (p_workstreams p). w_planId w = p_planId p \<and> w_runId w = p_runId p"
    using assms by (auto simp: savePlan_def Let_def raise_Inr list_ex_iff split: if_splits)
  obtain dd where dd: "analyzeDependencies dt collate p' = Inr dd"
    using assms by (auto simp: savePlan_def Let_def raise_Inr p'_def split: if_splits sum.splits)
  have "\<not> list_ex (\<lambda>w. w_planId w \<noteq> p_planId p \<or> w_runId w \<noteq> p_runId p) (p_workstreams p)" using ids by (auto simp: list_ex_iff)
  then have "tx (seq (require (\<lambda>st. plan_at (p_planId p) st = None) ExecutionPlanImmutable) (\<lambda>_.
      seq (insert_plan p') (\<lambda>_. seq (for_each (save_workstream p') (p_workstreams p)) (\<lambda>_. ok p')))) st = (Inr q, st')"
    using assms schema dd by (simp add: savePlan_def Let_def p'_def [symmetric] sel)
  then obtain st1 us where 0: "plan_at (p_planId p) st = None" "insert_plan p' st = (Inr (), st1)"
    and 1: "for_each (save_workstream p') (p_workstreams p) st1 = (Inr us, st')" "q = p'"
    by (auto simp: runs)
  show "plan_at (p_planId p) st = None" by (rule 0(1))
  show "q = p\<lparr>p_status := Some (nullish (p_status p) PPlanned)\<rparr>" using 1(2) by (simp add: p'_def)
  have st1: "st1 = st\<lparr>xs_plans := xs_plans st @ [plan_row_of p']\<rparr>"
    using 0(2) by (simp add: insert_plan_def runs plan_row_of_def)
  note add = save_workstreams_add(1) [OF 1(1)]
  show "xs_plans st' = xs_plans st @ [plan_row_of p]"
    "xs_workstreams st' = xs_workstreams st @ map (saved_row p) (p_workstreams p)"
    "xs_dependencies st' = xs_dependencies st @ concat (map (dependency_rows p) (p_workstreams p))"
    using add by (simp_all add: adds_def st1 sel rows)
  show "distinct (map w_id (xs_workstreams st)) \<Longrightarrow> distinct (map w_id (xs_workstreams st'))"
    using save_workstreams_add(2) [OF 1(1)] by (simp add: st1)
qed

section \<open>Reading a saved plan\<close>

text \<open>The references of the tables: rows of workstreams name a plan, rows of dependencies a workstream.\<close>

definition references_ok :: "exec_store \<Rightarrow> bool" where
  "references_ok st \<longleftrightarrow> distinct (map w_id (xs_workstreams st))
     \<and> (\<forall>r \<in> set (xs_workstreams st). \<exists>q \<in> set (xs_plans st). pl_id q = w_planId r)
     \<and> (\<forall>(p, w, d) \<in> set (xs_dependencies st). \<exists>r \<in> set (xs_workstreams st). w_planId r = p \<and> w_id r = w)"

definition read_back :: "plan \<Rightarrow> plan" where
  "read_back p = p\<lparr>p_status := Some (nullish (p_status p) PPlanned),
     p_workstreams := sort_key w_id (map (\<lambda>w. w\<lparr>w_dependsOn := sort (w_dependsOn w),
       w_failureReason := opt_text (w_failureReason w)\<rparr>) (p_workstreams p))\<rparr>"

lemma own_dependencies:
  assumes "distinct (map w_id ws)" and "w \<in> set ws"
  shows "filter (\<lambda>(a, b, _). a = p_planId p \<and> b = w_id w) (concat (map (dependency_rows p) ws)) = dependency_rows p w"
  using assms
proof (induction ws)
  case (Cons v ws)
  have here: "filter (\<lambda>(a, b, _). a = p_planId p \<and> b = w_id w) (dependency_rows p u) =
      (if w_id u = w_id w then dependency_rows p u else [])" for u
    by (auto simp: dependency_rows_def filter_map comp_def)
  show ?case
  proof (cases "w = v")
    case True
    have "w_id u \<noteq> w_id w" if "u \<in> set ws" for u using Cons.prems(1) True that by (metis distinct.simps(2) image_eqI list.set_map list.simps(9))
    then have "filter (\<lambda>(a, b, _). a = p_planId p \<and> b = w_id w) (concat (map (dependency_rows p) ws)) = []"
      by (auto simp: filter_empty_conv dependency_rows_def)
    then show ?thesis using here True by simp
  next
    case False
    then have "w \<in> set ws" using Cons.prems(2) by simp
    moreover have "w_id v \<noteq> w_id w" using Cons.prems(1) \<open>w \<in> set ws\<close> by (metis distinct.simps(2) image_eqI list.set_map list.simps(9))
    ultimately show ?thesis using Cons here by simp
  qed
qed simp

lemma none_before:
  assumes "references_ok st" and "plan_at pid st = None"
  shows "filter (\<lambda>r. w_planId r = pid) (xs_workstreams st) = []"
    and "filter (\<lambda>(p, w, _). p = pid \<and> w = wid) (xs_dependencies st) = []"
proof -
  have none: "pl_id q \<noteq> pid" if "q \<in> set (xs_plans st)" for q
    using assms(2) that unfolding plan_at_def find_None_iff_all by blast
  then have rows: "w_planId r \<noteq> pid" if "r \<in> set (xs_workstreams st)" for r
    using assms(1) that unfolding references_ok_def by metis
  then show "filter (\<lambda>r. w_planId r = pid) (xs_workstreams st) = []" by (simp add: filter_empty_conv)
  show "filter (\<lambda>(p, w, _). p = pid \<and> w = wid) (xs_dependencies st) = []"
    using assms(1) rows by (fastforce simp: references_ok_def filter_empty_conv)
qed

lemma saved_references:
  assumes "savePlan dt collate p st = (Inr q, st')" and "references_ok st"
  shows "references_ok st'"
proof -
  note s = savePlan_Inr [OF assms(1)]
  have "\<exists>r \<in> set (xs_workstreams st'). w_planId r = a \<and> w_id r = b" if d: "(a, b, d) \<in> set (xs_dependencies st')" for a b d
  proof (cases "(a, b, d) \<in> set (xs_dependencies st)")
    case True
    then show ?thesis using assms(2) unfolding references_ok_def s(6) by auto
  next
    case False
    then obtain w where "w \<in> set (p_workstreams p)" "(a, b, d) \<in> set (dependency_rows p w)" using d by (auto simp: s(7))
    then have "saved_row p w \<in> set (xs_workstreams st')" "w_planId (saved_row p w) = a" "w_id (saved_row p w) = b"
      by (auto simp: s(6) dependency_rows_def saved_row_def)
    then show ?thesis by blast
  qed
  moreover have "\<exists>q \<in> set (xs_plans st'). pl_id q = w_planId r" if r: "r \<in> set (xs_workstreams st')" for r
  proof (cases "r \<in> set (xs_workstreams st)")
    case True
    then show ?thesis using assms(2) unfolding references_ok_def s(5) by auto
  next
    case False
    then have "w_planId r = pl_id (plan_row_of p)" using r by (auto simp: s(6) saved_row_def plan_row_of_def)
    then show ?thesis unfolding s(5) by simp
  qed
  moreover have "distinct (map w_id (xs_workstreams st'))" using s(8) assms(2) by (simp add: references_ok_def)
  ultimately show ?thesis unfolding references_ok_def by blast
qed

lemma opt_ok_text: "opt_ok P v \<Longrightarrow> opt_ok P (opt_text v)"
  by (simp add: opt_text_def opt_ok_def)

lemma sort_key_Nil: "sort_key f xs = [] \<longleftrightarrow> xs = []"
  by (metis length_0_conv length_sort)

lemma read_back_schema:
  assumes "plan_schema dt p"
  shows "plan_schema dt (read_back p)"
proof -
  have "workstream_schema dt (w\<lparr>w_dependsOn := sort (w_dependsOn w), w_failureReason := opt_text (w_failureReason w)\<rparr>)"
    if "w \<in> set (p_workstreams p)" for w
    using assms that by (simp add: plan_schema_def workstream_schema_def list_all_iff opt_ok_text)
  then show ?thesis using assms by (simp add: plan_schema_def read_back_def list_all_iff sort_key_Nil)
qed

text \<open>C10. A saved plan is read back. If \<open>savePlan\<close> returns on tables whose references hold, they still hold, and
  \<open>getPlan\<close> returns the plan that was saved: the same ids, texts, claims, statuses and times, with its
  workstreams in the order of their ids, each with its own dependencies in order; only a missing status has
  become planned and an empty failure reason is dropped.\<close>

theorem saved_plan_read_back:
  assumes saved: "savePlan dt collate p st = (Inr q, st')" and refs: "references_ok st"
  shows "references_ok st' \<and> getPlan dt (p_planId p) st' = (Inr (Some (read_back p)), st')"
proof -
  note s = savePlan_Inr [OF saved]
  let ?ws = "p_workstreams p"
  have "distinct (map w_id (xs_workstreams st'))" using s(8) refs by (simp add: references_ok_def)
  then have dist: "distinct (map w_id ?ws)" unfolding s(6) by (simp add: comp_def saved_row_def)
  have deps: "dependencies_of (p_planId p) (w_id w) st' = sort (w_dependsOn w)" if "w \<in> set ?ws" for w
    using none_before(2) [OF refs s(3)] own_dependencies [OF dist that]
    by (simp add: dependencies_of_def s(7) dependency_rows_def comp_def)
  have row: "plan_at (p_planId p) st' = Some (plan_row_of p)"
    using s(3) by (simp add: plan_at_def s(5) find_append plan_row_of_def)
  have rows: "rows_of (p_planId p) st' = map (saved_row p) (sort_key w_id ?ws)"
    using none_before(1) [OF refs s(3)] sort_key_map [of w_id "saved_row p" ?ws]
    by (simp add: rows_of_def s(6) saved_row_def filter_map comp_def)
  have "read_workstream st' (saved_row p w) = w\<lparr>w_dependsOn := sort (w_dependsOn w), w_failureReason := opt_text (w_failureReason w)\<rparr>"
    if "w \<in> set ?ws" for w
  proof -
    have "opt_ok schema_id (w_worktreeRef w)" "opt_ok schema_id (w_branchRef w)"
      using s(1) that by (auto simp: plan_schema_def workstream_schema_def list_all_iff)
    then have "opt_text (w_worktreeRef w) = w_worktreeRef w" "opt_text (w_branchRef w) = w_branchRef w"
      by (auto simp: opt_text_def opt_ok_def schema_id_def schema_text_def split: option.splits)
    then show ?thesis using s(2) that deps [OF that] by (simp add: read_workstream_def saved_row_def)
  qed
  then have "map (read_workstream st') (rows_of (p_planId p) st') = p_workstreams (read_back p)"
    using sort_key_map [of w_id "\<lambda>w. w\<lparr>w_dependsOn := sort (w_dependsOn w), w_failureReason := opt_text (w_failureReason w)\<rparr>" ?ws]
    by (simp add: rows read_back_def)
  then have "plan_of st' (plan_row_of p) = read_back p"
    by (simp add: plan_of_def plan_row_of_def) (simp add: read_back_def)
  then show ?thesis using saved_references [OF saved refs] row read_back_schema [OF s(1)] by (simp add: getPlan_def)
qed

lemma base_store_references: "references_ok base_store"
  by (simp add: references_ok_def base_store_def)

lemma two_steps_saved: "\<exists>q. savePlan (\<lambda>_. True) (\<le>) two_steps base_store = (Inr q, saved_store)"
proof -
  obtain r st where r: "savePlan (\<lambda>_. True) (\<le>) two_steps base_store = (r, st)" by (cases "savePlan (\<lambda>_. True) (\<le>) two_steps base_store")
  have "xs_plans st = [two_steps_row]" using r saved_store_saved by (simp add: saved_store_def)
  moreover have "savePlan dt collate p base_store = (Inl e, st) \<Longrightarrow> xs_plans st = []" for dt collate p e
    by (auto simp: savePlan_def Let_def raise_def tx_def base_store_def split: if_splits sum.splits prod.splits)
  ultimately show ?thesis using r saved_store_saved by (cases r) force+
qed

theorem saved_plan_read_back_witness:
  "references_ok saved_store \<and> getPlan (\<lambda>_. True) ''plan'' saved_store = (Inr (Some (read_back two_steps)), saved_store)"
proof -
  obtain q where "savePlan (\<lambda>_. True) (\<le>) two_steps base_store = (Inr q, saved_store)" using two_steps_saved by blast
  from saved_plan_read_back [OF this base_store_references] show ?thesis by (simp add: two_steps_def sample_plan_def)
qed

section \<open>The order of workstreams\<close>

lemma for_each_append:
  "for_each f (xs @ ys) st = (Inr zs, st') \<Longrightarrow> \<exists>as bs st1. for_each f xs st = (Inr as, st1) \<and> for_each f ys st1 = (Inr bs, st')"
proof (induction xs arbitrary: st zs)
  case (Cons x xs)
  then obtain y st1 us where "f x st = (Inr y, st1)" "for_each f (xs @ ys) st1 = (Inr us, st')" by (auto simp: runs)
  then show ?case using Cons.IH [of st1 us] by (fastforce simp: runs)
qed (auto simp: ok_Inr)

lemma dependency_must_exist:
  assumes "save_workstream p w st = (Inr u, st')" and "d \<in> set (w_dependsOn w)"
  shows "d \<in> w_id ` {r \<in> set (xs_workstreams st). w_planId r = p_planId p}"
proof -
  obtain as bs where split: "w_dependsOn w = as @ d # bs" using assms(2) by (meson split_list)
  obtain st1 us st2 where 1: "insert_workstream p w st = (Inr (), st1)"
    and 2: "for_each (insert_dependency p w) (w_dependsOn w) st1 = (Inr us, st2)"
    using assms(1) by (auto simp: save_workstream_def seq_Inr)
  obtain xs ys st3 where 3: "for_each (insert_dependency p w) as st1 = (Inr xs, st3)"
    and 4: "for_each (insert_dependency p w) (d # bs) st3 = (Inr ys, st2)"
    using for_each_append [of "insert_dependency p w" as "d # bs" st1 us st2] 2 by (auto simp: split simp del: for_each.simps)
  have rows: "xs_workstreams st1 = xs_workstreams st @ [saved_row p w]"
    using 1 by (auto simp: insert_workstream_def runs saved_row_def)
  have "adds (concat (map (\<lambda>_. []) as)) (concat (map (\<lambda>d. [(p_planId p, w_id w, d)]) as)) st1 st3"
    by (rule for_each_adds [OF _ 3]) (auto simp: insert_dependency_def runs adds_def)
  then have same: "xs_workstreams st3 = xs_workstreams st1" by (simp add: adds_def no_rows)
  have "w_id w \<noteq> d" "workstream_at (p_planId p) d st3 \<noteq> None" using 4 by (auto simp: insert_dependency_def runs)
  then obtain r where "r \<in> set (xs_workstreams st1)" "w_planId r = p_planId p" "w_id r = d"
    unfolding workstream_at_def same by (auto dest: find_SomeD)
  then show ?thesis using rows \<open>w_id w \<noteq> d\<close> by (auto simp: saved_row_def)
qed

text \<open>A plan must list every workstream after its dependencies. \<open>analyzeDependencies\<close> accepts any order, but the
  rows are inserted in the order of the plan and a dependency must name a row: a plan with a workstream listed
  before one of its dependencies cannot be saved, and the tables stay as they were.\<close>

theorem forward_dependency_unsavable:
  assumes refs: "references_ok st" and ws: "p_workstreams p = us @ w # vs"
    and d: "d \<in> set (w_dependsOn w)" "d \<notin> w_id ` set us"
  shows "\<exists>e. savePlan dt collate p st = (Inl e, st)"
proof -
  obtain r st' where s: "savePlan dt collate p st = (r, st')" by (cases "savePlan dt collate p st")
  show ?thesis
  proof (cases r)
    case (Inl e)
    then have "st' = st" using s
      by (auto simp: savePlan_def Let_def raise_def tx_def split: if_splits sum.splits prod.splits)
    then show ?thesis using s Inl by simp
  next
    case (Inr q)
    define p' where "p' = p\<lparr>p_status := Some (nullish (p_status p) PPlanned)\<rparr>"
    have sel: "p_planId p' = p_planId p" "p_workstreams p' = us @ w # vs" by (simp_all add: p'_def ws)
    have done': "savePlan dt collate p st = (Inr q, st')" using s Inr by simp
    then have none: "plan_at (p_planId p) st = None" by (rule savePlan_Inr(3))
    obtain st1 zs st2 where 1: "insert_plan p' st = (Inr (), st1)"
      and 2: "for_each (save_workstream p') (us @ w # vs) st1 = (Inr zs, st2)"
      using done' by (auto simp: savePlan_def Let_def p'_def [symmetric] sel runs split: if_splits sum.splits simp del: for_each.simps)
    obtain xs ys st3 where 3: "for_each (save_workstream p') us st1 = (Inr xs, st3)"
      and 4: "for_each (save_workstream p') (w # vs) st3 = (Inr ys, st2)"
      using for_each_append [OF 2] by blast
    then obtain y st4 where "save_workstream p' w st3 = (Inr y, st4)" by (auto simp: runs)
    from dependency_must_exist [OF this d(1)] obtain r where
      r: "r \<in> set (xs_workstreams st3)" "w_planId r = p_planId p" "w_id r = d" by (auto simp: sel)
    have "xs_workstreams st3 = xs_workstreams st @ map (saved_row p') us"
      using save_workstreams_add(1) [OF 3] 1 by (simp add: adds_def insert_plan_def runs)
    moreover have "r \<notin> set (xs_workstreams st)" using none_before(1) [OF refs none] r(2) by (auto simp: filter_empty_conv)
    ultimately have "d \<in> w_id ` set us" using r(1,3) by (auto simp: saved_row_def)
    then show ?thesis using d(2) by simp
  qed
qed

text \<open>The sample plan in the other order is accepted by the analysis.\<close>

definition steps_reversed :: plan where
  "steps_reversed = sample_plan (rev (p_workstreams two_steps))"

lemma steps_reversed_accepted: "\<exists>dd. analyzeDependencies (\<lambda>_. True) (\<le>) steps_reversed = Inr dd"
proof -
  have "(case analyzeDependencies (\<lambda>_. True) (\<le>) steps_reversed of Inl _ \<Rightarrow> False | Inr _ \<Rightarrow> True)" by code_simp
  then show ?thesis by (auto split: sum.splits)
qed

theorem forward_dependency_unsavable_witness:
  "\<exists>e. savePlan (\<lambda>_. True) (\<le>) steps_reversed base_store = (Inl e, base_store)"
  by (rule forward_dependency_unsavable [OF base_store_references, of _ "[]"
        "sample_workstream ''b'' [''a''] [''src/b''] WPlanned" "[sample_workstream ''a'' [] [''src/a''] WPlanned]" "''a''"])
    (simp_all add: steps_reversed_def two_steps_def sample_plan_def sample_workstream_def)

end
