(* ===== verification/Execution_Waves.thy ===== *)
theory Execution_Waves
  imports Execution_Schedule
begin

text \<open>
  One pass of the scheduler over a readable plan, in terms of statuses alone: \<open>changed\<close> says what a loop of
  transitions has done, and \<open>runReady\<close> is followed through its stages.
\<close>

section \<open>Loops of transitions\<close>

definition changed :: "string \<Rightarrow> (string \<times> workstream_status) list \<Rightarrow> exec_store \<Rightarrow> exec_store \<Rightarrow> bool" where
  "changed pid F st st' \<longleftrightarrow>
     (\<forall>p w. stat st' p w = (if p = pid \<and> w \<in> fst ` set F then map_of F w else stat st p w))
     \<and> (\<forall>p w. dependencies_of p w st' = dependencies_of p w st)"

lemma changed_Cons:
  assumes "changed pid [(i, s)] st st1" and "changed pid F st1 st2" and "i \<notin> fst ` set F"
  shows "changed pid ((i, s) # F) st st2"
  unfolding changed_def
proof (intro conjI allI)
  fix p w
  show "stat st2 p w = (if p = pid \<and> w \<in> fst ` set ((i, s) # F) then map_of ((i, s) # F) w else stat st p w)"
    using assms by (cases "w = i") (auto simp: changed_def)
  show "dependencies_of p w st2 = dependencies_of p w st" using assms by (simp add: changed_def)
qed

lemma transition_changes:
  assumes "readable dt pid r st" and "stat st pid wid = Some s0" "s \<in> set (workstream_transitions s0)"
    and "opt_ok (\<lambda>t. length t \<le> 1000) reason"
  shows "\<exists>w st'. transitionWorkstream dt pid wid s reason [] st = (Inr w, st') \<and> readable dt pid r st'
     \<and> changed pid [(wid, s)] st st'"
proof -
  let ?st' = "set_status pid wid s reason [] st"
  have "changed pid [(wid, s)] st ?st'" using assms(2) by (simp add: changed_def stat_set_status)
  then show ?thesis using transition_runs [OF assms, of "[]"] set_status_readable [OF assms(1,4), of "[]"] by auto
qed

lemma steps_run:
  assumes "\<And>x st. x \<in> set xs \<Longrightarrow> readable dt pid r st \<Longrightarrow> stat st pid (k x) = Some old \<Longrightarrow>
      \<exists>y st'. f x st = (Inr y, st') \<and> P x y \<and> readable dt pid r st' \<and> changed pid [(k x, t x)] st st'"
    and "readable dt pid r st" and "distinct (map k xs)" and "\<And>x. x \<in> set xs \<Longrightarrow> stat st pid (k x) = Some old"
  shows "\<exists>ys st'. for_each f xs st = (Inr ys, st') \<and> list_all2 P xs ys \<and> readable dt pid r st'
     \<and> changed pid (map (\<lambda>x. (k x, t x)) xs) st st'"
  using assms
proof (induction xs arbitrary: st)
  case (Cons x xs)
  obtain y st1 where 1: "f x st = (Inr y, st1)" "P x y" "readable dt pid r st1" "changed pid [(k x, t x)] st st1"
    using Cons.prems(1) [of x st] Cons.prems(2,4) by auto
  have other: "k x \<notin> k ` set xs" using Cons.prems(3) by simp
  have "stat st1 pid (k z) = Some old" if "z \<in> set xs" for z
  proof -
    have "k z \<noteq> k x" using other that by (metis imageI)
    then show ?thesis using 1(4) that Cons.prems(4) [of z] by (simp add: changed_def)
  qed
  then obtain ys st2 where 2: "for_each f xs st1 = (Inr ys, st2)" "list_all2 P xs ys" "readable dt pid r st2"
    "changed pid (map (\<lambda>x. (k x, t x)) xs) st1 st2"
    using Cons.IH [OF _ 1(3)] Cons.prems(1,3) by fastforce
  have "k x \<notin> fst ` set (map (\<lambda>x. (k x, t x)) xs)" using other by (auto simp: image_image)
  from changed_Cons [OF 1(4) 2(4) this] show ?case using 1 2 by (auto simp: seq_def ok_def)
qed (simp add: ok_def changed_def)

lemma start_all_for_each: "for_each f xs st = (Inr ys, st') \<Longrightarrow> start_all f xs st = (Inr ys, st')"
  by (induction xs arbitrary: st ys) (auto simp: seq_Inr ok_Inr)

section \<open>What is ready\<close>

definition deps_done :: "exec_store \<Rightarrow> string \<Rightarrow> string \<Rightarrow> bool" where
  "deps_done st pid w \<longleftrightarrow>
     (\<forall>d \<in> set (dependencies_of pid w st). stat st pid d = Some WSucceeded \<or> stat st pid d = Some WIntegrated)"

lemma distinct_insert_by [simp]: "distinct (map f (insert_by le x ys)) \<longleftrightarrow> f x \<notin> f ` set ys \<and> distinct (map f ys)"
  by (induction ys) auto

lemma distinct_sort_by [simp]: "distinct (map f (sort_by le xs)) \<longleftrightarrow> distinct (map f xs)"
  unfolding sort_by_def
proof (induction xs)
  case (Cons x xs)
  have "set (foldr (insert_by le) xs []) = set xs" using set_sort_by [of le xs] by (simp add: sort_by_def)
  then show ?case using Cons by simp
qed simp

definition ready_list :: "(string \<Rightarrow> string \<Rightarrow> bool) \<Rightarrow> plan \<Rightarrow> workstream list" where
  "ready_list collate p = sort_by (\<lambda>a b. collate (w_id a) (w_id b)) (filter (ready_in p) (p_workstreams p))"

lemma listReady_runs:
  assumes "readable dt pid r st"
  shows "listReady dt collate pid st = (Inr (ready_list collate (plan_of st r)), st)"
  using readable_needPlan [OF assms] by (simp add: listReady_def seq_def ok_def ready_list_def)

lemma ready_list_distinct: "readable dt pid r st \<Longrightarrow> distinct (map w_id (ready_list collate (plan_of st r)))"
  unfolding ready_list_def distinct_sort_by by (rule distinct_map_filter) (rule plan_ids_distinct)

lemma ready_list_ids:
  assumes r: "readable dt pid r st"
  shows "w_id ` set (ready_list collate (plan_of st r)) =
     {i. (stat st pid i = Some WPlanned \<or> stat st pid i = Some WReady) \<and> deps_done st pid i}"
proof -
  have s: "status_in (plan_of st r) d = stat st pid d" for d
    using r plan_at_id status_in_plan [of st r d] by (auto simp: readable_def)
  have mem: "w \<in> set (ready_list collate (plan_of st r)) \<longleftrightarrow>
      w \<in> set (p_workstreams (plan_of st r)) \<and> (w_status w = WPlanned \<or> w_status w = WReady) \<and> deps_done st pid (w_id w)" for w
    using plan_member(2) [OF r, of w]
    by (auto simp: ready_list_def ready_in_def deps_done_def s list_all_iff)
  show ?thesis
  proof (intro set_eqI iffI)
    fix i assume "i \<in> w_id ` set (ready_list collate (plan_of st r))"
    then obtain w where "i = w_id w" "w \<in> set (ready_list collate (plan_of st r))" by blast
    then show "i \<in> {i. (stat st pid i = Some WPlanned \<or> stat st pid i = Some WReady) \<and> deps_done st pid i}"
      using plan_member(1) [OF r, of w] unfolding mem by simp
  next
    fix i assume i: "i \<in> {i. (stat st pid i = Some WPlanned \<or> stat st pid i = Some WReady) \<and> deps_done st pid i}"
    then obtain s where "stat st pid i = Some s" "s = WPlanned \<or> s = WReady" by blast
    then obtain w where "w \<in> set (p_workstreams (plan_of st r))" "w_id w = i" "w_status w = s"
      using plan_member_at [OF r] by blast
    then show "i \<in> w_id ` set (ready_list collate (plan_of st r))" using i mem \<open>s = WPlanned \<or> s = WReady\<close> by blast
  qed
qed

section \<open>Plan statuses\<close>

lemma plan_at_map:
  assumes "\<And>r. pl_id (f r) = pl_id r"
  shows "plan_at pid (st\<lparr>xs_plans := map f (xs_plans st)\<rparr>) = map_option f (plan_at pid st)"
proof -
  have "List.find (\<lambda>r. pl_id r = pid) (map f rs) = map_option f (List.find (\<lambda>r. pl_id r = pid) rs)" for rs
    by (induction rs) (simp_all add: assms)
  then show ?thesis by (simp add: plan_at_def)
qed

lemma plan_status_runs:
  assumes r: "readable dt pid r st" and t: "t \<in> set (plan_transitions (pl_status r))" and now: "dt now"
  shows "\<exists>p st' r'. transitionPlanStatus dt now pid t st = (Inr p, st') \<and> readable dt pid r' st' \<and> pl_status r' = t
     \<and> stat st' = stat st \<and> (\<forall>p w. dependencies_of p w st' = dependencies_of p w st)"
proof -
  define f where "f = (\<lambda>q :: plan_row. if pl_id q = pid then q\<lparr>pl_status := t,
      pl_startedAt := (if t = PRunning \<and> pl_startedAt q = None then Some now else pl_startedAt q),
      pl_completedAt := (if t \<in> {PSucceeded, PFailed, PCancelled, PSuperseded} then Some now
                         else pl_completedAt q)\<rparr> else q)"
  define st' where "st' = st\<lparr>xs_plans := map f (xs_plans st)\<rparr>"
  have at: "plan_at pid st = Some r" "pl_id r = pid" using r plan_at_id by (auto simp: readable_def)
  have keep: "pl_id (f q) = pl_id q" for q by (simp add: f_def)
  have at': "plan_at pid st' = Some (f r)" unfolding st'_def using at(1) by (simp add: plan_at_map [of f, OF keep])
  have rd: "read_workstream st' = read_workstream st"
    by (rule ext) (simp add: read_workstream_def dependencies_of_def st'_def)
  have rows: "rows_of i st' = rows_of i st" for i by (simp add: rows_of_def st'_def)
  have "p_workstreams (plan_of st' (f r)) = p_workstreams (plan_of st r)"
    by (simp add: plan_of_sel rd keep rows)
  then have "plan_schema dt (plan_of st' (f r))"
    using r now at(2) by (auto simp: readable_def plan_schema_def plan_of_def f_def opt_ok_def)
  then have r': "readable dt pid (f r) st'" using r at' by (simp add: readable_def st'_def)
  have "assertPlanTransition (pl_status r) t = Inr ()" using t by (simp add: assertPlanTransition_def)
  then have "transitionPlanStatus dt now pid t st = (Inr (plan_of st' (f r)), st')"
    using readable_needPlan [OF r'] at(1)
    by (simp add: transitionPlanStatus_def tx_def f_def [symmetric] st'_def [symmetric])
  then show ?thesis
    using r' at(2) by (intro exI conjI) (auto simp: f_def st'_def stat_def workstream_at_def dependencies_of_def fun_eq_iff)
qed

lemma start_plan_runs:
  assumes r: "readable dt pid r st" and "pl_status r = PPlanned \<or> pl_status r = PRunning" and "dt now"
  shows "\<exists>st' r'. start_plan dt now pid st = (Inr (), st') \<and> readable dt pid r' st' \<and> pl_status r' = PRunning
     \<and> stat st' = stat st \<and> (\<forall>p w. dependencies_of p w st' = dependencies_of p w st)"
proof (cases "pl_status r = PPlanned")
  case True
  then obtain p st' r' where "transitionPlanStatus dt now pid PRunning st = (Inr p, st')" "readable dt pid r' st'"
    "pl_status r' = PRunning" "stat st' = stat st" "\<forall>p w. dependencies_of p w st' = dependencies_of p w st"
    using plan_status_runs [of dt pid r st PRunning now, OF r _ assms(3)] by auto
  then show ?thesis using readable_needPlan [OF r] True by (auto simp: start_plan_def seq_def ok_def plan_of_def)
next
  case False
  then have "start_plan dt now pid st = (Inr (), st)"
    using readable_needPlan [OF r] assms(2) by (simp add: start_plan_def seq_def ok_def plan_of_def)
  then show ?thesis using r False assms(2) by blast
qed

section \<open>The dispatch of a wave\<close>

definition wave_of :: "exec_store \<Rightarrow> string \<Rightarrow> string set" where
  "wave_of st pid = {i. stat st pid i = Some WPlanned \<and> deps_done st pid i}"

lemma map_of_const: "i \<in> k ` set xs \<Longrightarrow> map_of (map (\<lambda>x. (k x, c)) xs) i = Some c"
  by (induction xs) auto

lemma changed_const:
  assumes "changed pid (map (\<lambda>x. (k x, s)) xs) st st'"
  shows "stat st' p w = (if p = pid \<and> w \<in> k ` set xs then Some s else stat st p w)"
proof -
  have "fst ` set (map (\<lambda>x. (k x, s)) xs) = k ` set xs" by (auto simp: image_image)
  then show ?thesis using assms map_of_const [of w k xs s] unfolding changed_def by presburger
qed

lemma changed_deps: "changed pid F st st' \<Longrightarrow> dependencies_of p w st' = dependencies_of p w st"
  by (simp add: changed_def)

lemma all2_eq_map: "list_all2 (\<lambda>x y. y = g x) xs ys \<Longrightarrow> ys = map g xs"
  by (induction xs ys rule: list_all2_induct) simp_all

text \<open>The workstreams made ready are the ones listed again.\<close>

lemma ready_again:
  assumes "\<forall>w. stat st pid w \<noteq> Some WReady"
    and "\<And>w. stat st' pid w = (if w \<in> wave_of st pid then Some WReady else stat st pid w)"
    and "\<And>w. dependencies_of pid w st' = dependencies_of pid w st"
  shows "{i. (stat st' pid i = Some WPlanned \<or> stat st' pid i = Some WReady) \<and> deps_done st' pid i} = wave_of st pid"
proof -
  have "stat st' pid d = Some WSucceeded \<or> stat st' pid d = Some WIntegrated \<longleftrightarrow>
      stat st pid d = Some WSucceeded \<or> stat st pid d = Some WIntegrated" for d
    using assms(2) [of d] by (auto simp: wave_of_def)
  then have "deps_done st' pid i = deps_done st pid i" for i using assms(3) by (simp add: deps_done_def)
  then show ?thesis using assms(1,2) by (auto simp: wave_of_def)
qed

lemma dispatch_runs:
  assumes r: "readable dt pid r st" and none: "\<forall>w. stat st pid w \<noteq> Some WReady"
  shows "\<exists>outs st'. dispatch_ready dt collate (\<lambda>w. good (w_id w)) parallel pid st = (Inr outs, st') \<and> readable dt pid r st'
     \<and> distinct (map fst outs) \<and> set outs = (\<lambda>i. (i, good i)) ` wave_of st pid
     \<and> (\<forall>p w. stat st' p w = (if p = pid \<and> w \<in> wave_of st pid then Some WRunning else stat st p w))
     \<and> (\<forall>p w. dependencies_of p w st' = dependencies_of p w st)"
proof -
  let ?l = "ready_list collate (plan_of st r)"
  have ids: "w_id ` set ?l = wave_of st pid" using none by (auto simp: ready_list_ids [OF r] wave_of_def)
  have "\<exists>ys st1. for_each (move dt pid WReady) ?l st = (Inr ys, st1) \<and> list_all2 (\<lambda>_ _. True) ?l ys
     \<and> readable dt pid r st1 \<and> changed pid (map (\<lambda>x. (w_id x, WReady)) ?l) st st1"
  proof (rule steps_run [OF _ r ready_list_distinct [OF r], where old = WPlanned])
    show "\<exists>y st'. move dt pid WReady x st = (Inr y, st') \<and> True \<and> readable dt pid r st' \<and> changed pid [(w_id x, WReady)] st st'"
      if "readable dt pid r st" "stat st pid (w_id x) = Some WPlanned" for x st
      using transition_changes [OF that, of WReady None] by (simp add: move_def opt_ok_def)
    show "stat st pid (w_id x) = Some WPlanned" if "x \<in> set ?l" for x
      using ids that by (auto simp: wave_of_def)
  qed
  then obtain ys st1 where 1: "for_each (move dt pid WReady) ?l st = (Inr ys, st1)" "readable dt pid r st1"
    "changed pid (map (\<lambda>x. (w_id x, WReady)) ?l) st st1" by blast
  have s1: "stat st1 p w = (if p = pid \<and> w \<in> wave_of st pid then Some WReady else stat st p w)" for p w
    using changed_const [OF 1(3)] ids by simp
  let ?m = "ready_list collate (plan_of st1 r)"
  have "{i. (stat st1 pid i = Some WPlanned \<or> stat st1 pid i = Some WReady) \<and> deps_done st1 pid i} = wave_of st pid"
    by (rule ready_again [OF none]) (simp_all add: s1 changed_deps [OF 1(3)])
  then have ids1: "w_id ` set ?m = wave_of st pid" by (simp add: ready_list_ids [OF 1(2)])
  have "\<exists>outs st2. for_each (start_one dt (\<lambda>w. good (w_id w)) pid) ?m st1 = (Inr outs, st2)
     \<and> list_all2 (\<lambda>w y. y = (w_id w, good (w_id w))) ?m outs
     \<and> readable dt pid r st2 \<and> changed pid (map (\<lambda>x. (w_id x, WRunning)) ?m) st1 st2"
  proof (rule steps_run [OF _ 1(2) ready_list_distinct [OF 1(2)], where old = WReady])
    show "\<exists>y st'. start_one dt (\<lambda>w. good (w_id w)) pid x st = (Inr y, st') \<and> y = (w_id x, good (w_id x))
        \<and> readable dt pid r st' \<and> changed pid [(w_id x, WRunning)] st st'"
      if rd: "readable dt pid r st" and "stat st pid (w_id x) = Some WReady" for x st
    proof -
      have "WRunning \<in> set (workstream_transitions WReady)" by simp
      from transition_changes [OF that this, of None] obtain w st' where
        "transitionWorkstream dt pid (w_id x) WRunning None [] st = (Inr w, st')" "readable dt pid r st'"
        "changed pid [(w_id x, WRunning)] st st'" by (auto simp: opt_ok_def)
      then show ?thesis by (auto simp: start_one_def move_def seq_def ok_def)
    qed
    show "stat st1 pid (w_id x) = Some WReady" if "x \<in> set ?m" for x using ids1 that s1 by auto
  qed
  then obtain outs st2 where 2: "for_each (start_one dt (\<lambda>w. good (w_id w)) pid) ?m st1 = (Inr outs, st2)"
    "outs = map (\<lambda>w. (w_id w, good (w_id w))) ?m" "readable dt pid r st2"
    "changed pid (map (\<lambda>x. (w_id x, WRunning)) ?m) st1 st2"
    using all2_eq_map [of "\<lambda>w. (w_id w, good (w_id w))"] by blast
  have "dispatch_ready dt collate (\<lambda>w. good (w_id w)) parallel pid st = (Inr outs, st2)"
    using listReady_runs [OF r] listReady_runs [OF 1(2)] 1(1) 2(1) start_all_for_each [OF 2(1)]
    by (simp add: dispatch_ready_def seq_def)
  moreover have "distinct (map fst outs)" using ready_list_distinct [OF 1(2)] by (simp add: 2(2) comp_def)
  moreover have "set outs = (\<lambda>i. (i, good i)) ` wave_of st pid" by (simp add: 2(2) ids1 [symmetric] image_image)
  moreover have "stat st2 p w = (if p = pid \<and> w \<in> wave_of st pid then Some WRunning else stat st p w)" for p w
    using changed_const [OF 2(4), of p w] ids1 s1 by simp
  moreover have "dependencies_of p w st2 = dependencies_of p w st" for p w
    using changed_deps [OF 2(4)] changed_deps [OF 1(3)] by simp
  ultimately show ?thesis using 2(3) by blast
qed

definition end_status :: "bool \<Rightarrow> workstream_status" where
  "end_status success = (if success then WSucceeded else WFailed)"

lemma finish_runs:
  assumes r: "readable dt pid r st" and "distinct (map fst outs)" and "\<And>out. out \<in> set outs \<Longrightarrow> stat st pid (fst out) = Some WRunning"
  shows "\<exists>st'. for_each (finish_one dt pid) outs st = (Inr outs, st') \<and> readable dt pid r st'
     \<and> changed pid (map (\<lambda>out. (fst out, end_status (snd out))) outs) st st'"
proof -
  have "\<exists>ys st'. for_each (finish_one dt pid) outs st = (Inr ys, st') \<and> list_all2 (\<lambda>x y. y = x) outs ys
     \<and> readable dt pid r st' \<and> changed pid (map (\<lambda>out. (fst out, end_status (snd out))) outs) st st'"
  proof (rule steps_run [OF _ r assms(2,3)])
    show "\<exists>y st'. finish_one dt pid x st = (Inr y, st') \<and> y = x \<and> readable dt pid r st' \<and> changed pid [(fst x, end_status (snd x))] st st'"
      if "readable dt pid r st" "stat st pid (fst x) = Some WRunning" for x st
    proof -
      have "\<exists>w st'. transitionWorkstream dt pid (fst x) (end_status (snd x))
          (if snd x then None else Some ''WORKSTREAM_EXECUTION_FAILED'') [] st = (Inr w, st')
          \<and> readable dt pid r st' \<and> changed pid [(fst x, end_status (snd x))] st st'"
        by (rule transition_changes [OF that]) (simp_all add: end_status_def opt_ok_def)
      then show ?thesis by (cases x) (auto simp: finish_one_def seq_def ok_def end_status_def split: if_splits)
    qed
  qed
  then show ?thesis using all2_eq_map [of "\<lambda>x. x" outs] by auto
qed

definition plan_settled :: "exec_store \<Rightarrow> string \<Rightarrow> bool" where
  "plan_settled st pid \<longleftrightarrow> (\<forall>w s. stat st pid w = Some s \<longrightarrow> settled_status s)"

definition plan_lost :: "exec_store \<Rightarrow> string \<Rightarrow> bool" where
  "plan_lost st pid \<longleftrightarrow> (\<exists>w s. stat st pid w = Some s \<and> doomed s)"

lemma plan_tests:
  assumes r: "readable dt pid r st"
  shows "list_all (\<lambda>w. settled_status (w_status w)) (p_workstreams (plan_of st r)) \<longleftrightarrow> plan_settled st pid"
    and "list_ex (\<lambda>w. doomed (w_status w)) (p_workstreams (plan_of st r)) \<longleftrightarrow> plan_lost st pid"
  using plan_member(1) [OF r] plan_member_at [OF r]
  unfolding list_all_iff list_ex_iff plan_settled_def plan_lost_def by (metis, metis)

lemma finalize_runs:
  assumes r: "readable dt pid r st" and s: "pl_status r = PRunning" and now: "dt now"
  shows "\<exists>st' r'. finalizePlan dt now pid st = (Inr (), st') \<and> readable dt pid r' st' \<and> stat st' = stat st
     \<and> (\<forall>p w. dependencies_of p w st' = dependencies_of p w st)
     \<and> pl_status r' = (if plan_settled st pid \<and> plan_lost st pid then PFailed else PRunning)"
proof -
  have g: "getPlan dt pid st = (Inr (Some (plan_of st r)), st)" using r by (simp add: readable_def getPlan_def)
  have "p_status (plan_of st r) = Some PRunning" using s by (simp add: plan_of_def)
  then show ?thesis
  proof (cases "plan_settled st pid \<and> plan_lost st pid")
    case True
    have "PFailed \<in> set (plan_transitions (pl_status r))" using s by simp
    from plan_status_runs [OF r this now] obtain p st' r' where
      "transitionPlanStatus dt now pid PFailed st = (Inr p, st')" "readable dt pid r' st'" "pl_status r' = PFailed" "stat st' = stat st"
      "\<forall>p w. dependencies_of p w st' = dependencies_of p w st"
      by blast
    then show ?thesis using g True \<open>p_status (plan_of st r) = Some PRunning\<close> plan_tests [OF r]
      by (auto simp: finalizePlan_def seq_def ok_def)
  next
    case False
    then have "finalizePlan dt now pid st = (Inr (), st)"
      using g plan_tests [OF r] by (auto simp: finalizePlan_def seq_def ok_def)
    then show ?thesis using r s False by auto
  qed
qed

lemma map_of_outcomes:
  "distinct (map fst outs) \<Longrightarrow> out \<in> set outs \<Longrightarrow> map_of (map (\<lambda>out. (fst out, f (snd out))) outs) (fst out) = Some (f (snd out))"
  by (induction outs) force+

lemma changed_outcomes:
  assumes "changed pid (map (\<lambda>out. (fst out, end_status (snd out))) outs) st st'"
    and "set outs = (\<lambda>i. (i, good i)) ` W" "distinct (map fst outs)"
  shows "stat st' p w = (if p = pid \<and> w \<in> W then Some (end_status (good w)) else stat st p w)"
proof -
  have f: "fst ` set (map (\<lambda>out. (fst out, end_status (snd out))) outs) = W" using assms(2) by (auto simp: image_image)
  have "map_of (map (\<lambda>out. (fst out, end_status (snd out))) outs) w = Some (end_status (good w))" if "w \<in> W"
    using map_of_outcomes [OF assms(3), of "(w, good w)"] assms(2) that by auto
  then show ?thesis using assms(1) f unfolding changed_def by presburger
qed

lemma outcome_sets:
  "fst ` (\<lambda>i. (i, good i)) ` W = W" "fst ` {x \<in> (\<lambda>i. (i, good i)) ` W. P (snd x)} = {w \<in> W. P (good w)}"
  by (force simp: image_image) force

text \<open>C4. A pass of the scheduler does exactly one wave. In a readable plan that is planned or running and has no
  workstream left in ready, \<open>runReady\<close> returns, in sequence or in parallel: it starts exactly the planned
  workstreams all of whose dependencies are succeeded or integrated, records each as the executor answered, and
  blocks exactly the planned ones that now have a lost dependency; no other status changes, and the plan
  fails exactly when everything is settled and something was lost.\<close>

theorem pass_runs_one_wave:
  assumes r: "readable dt pid r st" and "pl_status r = PPlanned \<or> pl_status r = PRunning" and now: "dt now"
    and none: "\<forall>w. stat st pid w \<noteq> Some WReady"
  shows "\<exists>res st' r'. runReady dt collate now (\<lambda>w. good (w_id w)) parallel pid st = (Inr res, st')
     \<and> set (sr_started res) = wave_of st pid
     \<and> set (sr_succeeded res) = {w \<in> wave_of st pid. good w} \<and> set (sr_failed res) = {w \<in> wave_of st pid. \<not> good w}
     \<and> (\<forall>w \<in> set (sr_blocked res). stat st pid w = Some WPlanned \<and> hit st' pid w)
     \<and> (\<forall>w. stat st' pid w = Some WPlanned \<longrightarrow> \<not> hit st' pid w)
     \<and> (\<forall>p w. stat st' p w = (if p = pid \<and> w \<in> wave_of st pid then Some (end_status (good w))
           else if p = pid \<and> w \<in> set (sr_blocked res) then Some WBlocked else stat st p w))
     \<and> plan_at pid st' = Some r' \<and> pl_status r' = (if plan_settled st' pid \<and> plan_lost st' pid then PFailed else PRunning)"
proof -
  obtain st1 r1 where 1: "start_plan dt now pid st = (Inr (), st1)" "readable dt pid r1 st1" "pl_status r1 = PRunning"
    "stat st1 = stat st" "\<forall>p w. dependencies_of p w st1 = dependencies_of p w st"
    using start_plan_runs [OF r assms(2) now] by blast
  have W: "wave_of st1 pid = wave_of st pid" using 1(4,5) by (simp add: wave_of_def deps_done_def)
  obtain outs st2 where 2: "dispatch_ready dt collate (\<lambda>w. good (w_id w)) parallel pid st1 = (Inr outs, st2)"
    "readable dt pid r1 st2" "distinct (map fst outs)" "set outs = (\<lambda>i. (i, good i)) ` wave_of st pid"
    "\<forall>p w. stat st2 p w = (if p = pid \<and> w \<in> wave_of st pid then Some WRunning else stat st p w)"
    using dispatch_runs [OF 1(2), of collate good parallel] none unfolding 1(4) W by blast
  let ?sorted = "sort_by (\<lambda>a b. collate (fst a) (fst b)) outs"
  have so: "set ?sorted = (\<lambda>i. (i, good i)) ` wave_of st pid" "distinct (map fst ?sorted)" using 2(3,4) by simp_all
  have "stat st2 pid (fst out) = Some WRunning" if "out \<in> set ?sorted" for out using that so(1) 2(5) by auto
  from finish_runs [OF 2(2) so(2) this] obtain st3 where 3: "for_each (finish_one dt pid) ?sorted st2 = (Inr ?sorted, st3)"
    "readable dt pid r1 st3" "changed pid (map (\<lambda>out. (fst out, end_status (snd out))) ?sorted) st2 st3" by blast
  have s3: "stat st3 p w = (if p = pid \<and> w \<in> wave_of st pid then Some (end_status (good w)) else stat st p w)" for p w
    using changed_outcomes [OF 3(3) so, of p w] 2(5) by simp
  have "ready_safe pid st3" using none by (simp add: ready_safe_def s3 end_status_def)
  from loop_runs [OF 3(2) this] obtain ids st4 where 4: "propagate_loop dt pid st3 = (Inr ids, st4)" "readable dt pid r1 st4"
    "propagated pid ids st3 st4" by blast
  obtain st5 r5 where 5: "finalizePlan dt now pid st4 = (Inr (), st5)" "readable dt pid r5 st5" "stat st5 = stat st4"
    "\<forall>p w. dependencies_of p w st5 = dependencies_of p w st4"
    "pl_status r5 = (if plan_settled st4 pid \<and> plan_lost st4 pid then PFailed else PRunning)"
    using finalize_runs [OF 4(2) 1(3) now] by blast
  define res where "res = \<lparr>sr_started = sort (map fst outs), sr_succeeded = sort (map fst (filter snd ?sorted)),
    sr_failed = sort (map fst (filter (\<lambda>r. \<not> snd r) ?sorted)), sr_blocked = sort (sort (js_unique ids))\<rparr>"
  have run: "runReady dt collate now (\<lambda>w. good (w_id w)) parallel pid st = (Inr res, st5)"
    by (simp add: runReady_def propagateDependencyFailures_def seq_def ok_def res_def 1(1) 2(1) 3(1) 4(1) 5(1)
        del: propagate_loop.simps)
  have lists: "set (sr_started res) = wave_of st pid" "set (sr_succeeded res) = {w \<in> wave_of st pid. good w}"
    "set (sr_failed res) = {w \<in> wave_of st pid. \<not> good w}" "set (sr_blocked res) = set ids"
    using outcome_sets(2) [of good "wave_of st pid" "\<lambda>b. b"] outcome_sets(2) [of good "wave_of st pid" Not]
    by (simp_all add: res_def 2(4) outcome_sets(1))
  have h: "hit st5 pid = hit st4 pid" using 5(3,4) by (simp add: hit_def fun_eq_iff)
  have s4: "stat st4 p w = (if p = pid \<and> w \<in> set ids then Some WBlocked else stat st3 p w)" for p w
    using 4(3) by (simp add: propagated_def spread_def)
  have blocked: "stat st3 pid w = Some WPlanned \<and> hit st4 pid w" if "w \<in> set ids" for w
    using 4(3) that by (simp add: propagated_def)
  have rest: "\<not> hit st4 pid w" if "stat st4 pid w = Some WPlanned" for w using 4(3) that by (simp add: propagated_def)
  have "w \<notin> wave_of st pid \<and> stat st pid w = Some WPlanned" if "w \<in> set ids" for w
    using blocked [OF that] s3 [of pid w] by (simp add: end_status_def split: if_splits)
  then have "stat st5 p w = (if p = pid \<and> w \<in> wave_of st pid then Some (end_status (good w))
      else if p = pid \<and> w \<in> set ids then Some WBlocked else stat st p w)" for p w
    using s4 [of p w] s3 [of p w] 5(3) by auto
  moreover have "plan_at pid st5 = Some r5" using 5(2) by (simp add: readable_def)
  moreover have "stat st pid w = Some WPlanned \<and> hit st5 pid w" if "w \<in> set ids" for w
    using \<open>\<And>w. w \<in> set ids \<Longrightarrow> w \<notin> wave_of st pid \<and> stat st pid w = Some WPlanned\<close> [OF that] blocked [OF that] h by simp
  moreover have "\<not> hit st5 pid w" if "stat st5 pid w = Some WPlanned" for w using rest that h 5(3) by simp
  moreover have "pl_status r5 = (if plan_settled st5 pid \<and> plan_lost st5 pid then PFailed else PRunning)"
    using 5(3,5) by (simp add: plan_settled_def plan_lost_def)
  ultimately show ?thesis using run lists by (intro exI [of _ res] exI [of _ st5] exI [of _ r5]) simp
qed

lemma saved_store_readable: "readable (\<lambda>_. True) ''plan'' two_steps_row saved_store"
  unfolding readable_def by (intro conjI; code_simp)

lemma saved_store_stat:
  "stat saved_store p w = (if p = ''plan'' \<and> (w = ''a'' \<or> w = ''b'') then Some WPlanned else None)"
  by (auto simp: stat_def workstream_at_def saved_store_def sample_workstream_def)

lemma saved_store_deps: "dependencies_of p w saved_store = (if p = ''plan'' \<and> w = ''b'' then [''a''] else [])"
  by (simp add: dependencies_of_def saved_store_def)

theorem pass_runs_one_wave_witness:
  "\<exists>res st'. runReady (\<lambda>_. True) (\<le>) ''now'' (\<lambda>w. w_id w \<noteq> ''a'') True ''plan'' saved_store = (Inr res, st')
     \<and> set (sr_started res) = {''a''} \<and> stat st' ''plan'' ''a'' = Some WFailed"
proof -
  have wave: "wave_of saved_store ''plan'' = {''a''}"
    by (auto simp: wave_of_def saved_store_stat deps_done_def saved_store_deps split: if_splits)
  have a: "pl_status two_steps_row = PPlanned \<or> pl_status two_steps_row = PRunning"
    "\<forall>w. stat saved_store ''plan'' w \<noteq> Some WReady"
    by (simp_all add: two_steps_row_def saved_store_stat)
  obtain res st' where
    "runReady (\<lambda>_. True) (\<le>) ''now'' (\<lambda>w. w_id w \<noteq> ''a'') True ''plan'' saved_store = (Inr res, st')"
    "set (sr_started res) = wave_of saved_store ''plan''"
    and all: "\<forall>p w. stat st' p w = (if p = ''plan'' \<and> w \<in> wave_of saved_store ''plan'' then Some (end_status (w \<noteq> ''a''))
           else if p = ''plan'' \<and> w \<in> set (sr_blocked res) then Some WBlocked else stat saved_store p w)"
    using pass_runs_one_wave [OF saved_store_readable a(1) _ a(2), where now = "''now''" and collate = "(\<le>)"
        and good = "\<lambda>w. w \<noteq> ''a''" and parallel = True] by blast
  then show ?thesis using all [rule_format, of "''plan''" "''a''"] wave by (auto simp: end_status_def)
qed

section \<open>A workstream that is already ready\<close>

lemma ready_twice:
  assumes "readable dt pid r st" and "distinct (map w_id ws)"
    and "\<And>w. w \<in> set ws \<Longrightarrow> stat st pid (w_id w) = Some WPlanned \<or> stat st pid (w_id w) = Some WReady"
    and "\<exists>w \<in> set ws. stat st pid (w_id w) = Some WReady"
  shows "\<exists>st'. for_each (move dt pid WReady) ws st = (Inl (InvalidWorkstreamTransition WReady WReady), st')"
  using assms
proof (induction ws arbitrary: st)
  case (Cons w ws)
  show ?case
  proof (cases "stat st pid (w_id w) = Some WReady")
    case True
    then show ?thesis using transition_refused [OF True, of WReady] by (simp add: move_def seq_def)
  next
    case False
    then have planned: "stat st pid (w_id w) = Some WPlanned" using Cons.prems(3) by auto
    have "WReady \<in> set (workstream_transitions WPlanned)" by simp
    from transition_changes [OF Cons.prems(1) planned this, of None] obtain x st1 where
      1: "move dt pid WReady w st = (Inr x, st1)" "readable dt pid r st1" "changed pid [(w_id w, WReady)] st st1"
      by (auto simp: move_def opt_ok_def)
    have same: "stat st1 pid (w_id v) = stat st pid (w_id v)" if "v \<in> set ws" for v
    proof -
      have "w_id v \<noteq> w_id w" using Cons.prems(2) that by (metis distinct.simps(2) image_eqI list.set_map list.simps(9))
      then show ?thesis using 1(3) by (simp add: changed_def)
    qed
    have "\<exists>st'. for_each (move dt pid WReady) ws st1 = (Inl (InvalidWorkstreamTransition WReady WReady), st')"
      by (rule Cons.IH [OF 1(2)]) (use Cons.prems False same in auto)
    then show ?thesis using 1(1) by (auto simp: seq_def)
  qed
qed simp

text \<open>A restart wedges its plan. \<open>recoverAfterRestart\<close> moves a workstream that was running back to ready, but
  \<open>runReady\<close> moves every workstream it lists to ready first, which the table refuses from ready itself. So in a
  running plan with a workstream that is ready and whose dependencies are done, every pass fails with that
  invalid transition, whatever the executor, and starts nothing.\<close>

theorem ready_workstream_wedges:
  assumes r: "readable dt pid r st" and "pl_status r = PRunning"
    and "stat st pid wid = Some WReady" and "deps_done st pid wid"
  shows "fst (runReady dt collate now execute parallel pid st) = Inl (InvalidWorkstreamTransition WReady WReady)"
proof -
  have start: "start_plan dt now pid st = (Inr (), st)"
    using readable_needPlan [OF r] assms(2) by (simp add: start_plan_def seq_def ok_def plan_of_def)
  let ?l = "ready_list collate (plan_of st r)"
  have ids: "w_id ` set ?l = {i. (stat st pid i = Some WPlanned \<or> stat st pid i = Some WReady) \<and> deps_done st pid i}"
    by (rule ready_list_ids [OF r])
  have "wid \<in> w_id ` set ?l" using assms(3,4) by (simp add: ids)
  then have "\<exists>w \<in> set ?l. stat st pid (w_id w) = Some WReady" using assms(3) by auto
  moreover have "stat st pid (w_id w) = Some WPlanned \<or> stat st pid (w_id w) = Some WReady" if "w \<in> set ?l" for w
    using ids that by (metis (mono_tags, lifting) image_eqI mem_Collect_eq)
  ultimately obtain st' where "for_each (move dt pid WReady) ?l st = (Inl (InvalidWorkstreamTransition WReady WReady), st')"
    using ready_twice [OF r ready_list_distinct [OF r]] by blast
  then show ?thesis using start listReady_runs [OF r] by (simp add: runReady_def dispatch_ready_def seq_def)
qed

text \<open>The sample plan interrupted while its first workstream runs, and recovered.\<close>

definition recovered_store :: exec_store where
  "recovered_store = saved_store\<lparr>xs_plans := [two_steps_row\<lparr>pl_status := PRunning, pl_startedAt := Some ''now''\<rparr>],
     xs_workstreams := [(sample_workstream ''a'' [] [''src/a''] WReady)\<lparr>w_failureReason := Some ''ORCHESTRATOR_RESTART''\<rparr>,
       sample_workstream ''b'' [] [''src/b''] WPlanned]\<rparr>"

lemma recovered_store_recovered:
  "exec_run (\<lambda>_. True) (\<le>) [OpPlanStatus ''now'' ''plan'' PRunning, OpTransition ''plan'' ''a'' WReady None [],
     OpTransition ''plan'' ''a'' WRunning None [], OpRecover ''later''] saved_store = recovered_store"
  by code_simp

theorem ready_workstream_wedges_witness:
  "fst (runReady (\<lambda>_. True) (\<le>) ''later'' (\<lambda>_. True) True ''plan'' recovered_store)
     = Inl (InvalidWorkstreamTransition WReady WReady)"
proof (rule ready_workstream_wedges)
  show "readable (\<lambda>_. True) ''plan'' (two_steps_row\<lparr>pl_status := PRunning, pl_startedAt := Some ''now''\<rparr>) recovered_store"
    unfolding readable_def by (intro conjI; code_simp)
  show "deps_done recovered_store ''plan'' ''a''" by code_simp
  show "stat recovered_store ''plan'' ''a'' = Some WReady" by code_simp
qed simp

end
