(* ===== verification/Integration_Laws.thy ===== *)
theory Integration_Laws
  imports Execution_Waves
begin

text \<open>
  What integration guarantees: only owned files are merged, once per workstream. And three faults: the
  recovery after a restart works only once for an attempt that failed, a workstream that is already pending
  is merged and then refused, and a plan whose integration fails stays running.
\<close>

section \<open>Rows that stay\<close>

text \<open>Attempts and plans are never removed, and the ids of workstreams stay distinct.\<close>

definition rows_kept :: "exec_store \<Rightarrow> exec_store \<Rightarrow> bool" where
  "rows_kept st st' \<longleftrightarrow> set (xs_attempts st) \<subseteq> set (xs_attempts st') \<and> pl_id ` set (xs_plans st) \<subseteq> pl_id ` set (xs_plans st')
     \<and> (distinct (map w_id (xs_workstreams st)) \<longrightarrow> distinct (map w_id (xs_workstreams st')))"

lemma rows_keptI:
  assumes "xs_attempts st' = xs_attempts st" and "map pl_id (xs_plans st') = map pl_id (xs_plans st)"
    and "map w_id (xs_workstreams st') = map w_id (xs_workstreams st)"
  shows "rows_kept st st'"
  using assms unfolding rows_kept_def by (metis list.set_map order_refl)

lemma transition_parts:
  "xs_attempts (snd (transitionWorkstream dt pid wid s reason blocked st)) = xs_attempts st"
  "xs_plans (snd (transitionWorkstream dt pid wid s reason blocked st)) = xs_plans st"
proof -
  obtain r st' where t: "transitionWorkstream dt pid wid s reason blocked st = (r, st')"
    by (cases "transitionWorkstream dt pid wid s reason blocked st")
  have "st' = st \<or> st' = set_status pid wid s reason blocked st"
  proof (cases r)
    case (Inl e)
    then show ?thesis using t unfolding transitionWorkstream_def tx_def by (auto split: prod.splits sum.splits)
  next
    case (Inr w)
    then show ?thesis using t transition_Inr(2) [of dt pid wid s reason blocked st w st'] by simp
  qed
  then show "xs_attempts (snd (transitionWorkstream dt pid wid s reason blocked st)) = xs_attempts st"
    "xs_plans (snd (transitionWorkstream dt pid wid s reason blocked st)) = xs_plans st"
    using t by (auto simp: set_status_def)
qed

lemma transition_ids: "map w_id (xs_workstreams (snd (transitionWorkstream dt pid wid s reason blocked st))) = map w_id (xs_workstreams st)"
proof -
  obtain r st' where t: "transitionWorkstream dt pid wid s reason blocked st = (r, st')"
    by (cases "transitionWorkstream dt pid wid s reason blocked st")
  show ?thesis
  proof (cases r)
    case (Inl e)
    then show ?thesis using t unfolding transitionWorkstream_def tx_def by (auto split: prod.splits sum.splits)
  next
    case (Inr w)
    then show ?thesis using t transition_Inr(2) [of dt pid wid s reason blocked st w st'] by (simp add: set_status_def)
  qed
qed

lemma plan_status_ids: "map pl_id (xs_plans (snd (transitionPlanStatus dt now pid s st))) = map pl_id (xs_plans st)"
  "xs_attempts (snd (transitionPlanStatus dt now pid s st)) = xs_attempts st"
  by (auto simp: transitionPlanStatus_def tx_def needPlan_def seq_def getPlan_def ok_def raise_def
      split: option.split sum.split)

lemma rows_kept_parts:
  "rows_kept st (snd (transitionWorkstream dt pid wid s reason blocked st))" "rows_kept st (snd (transitionPlanStatus dt now pid t st))"
  "rows_kept st (snd (insert_plan q st))" "rows_kept st (snd (insert_workstream q w st))"
  "rows_kept st (snd (insert_dependency q w d st))" "rows_kept st (snd (insert_claim q w c st))"
  "rows_kept st (snd (bindWorktree pid wid wt br st))" "rows_kept st (snd (set_leases ls st))"
  "rows_kept st (snd (recordIntegration a st))" "rows_kept st (snd (repair_one a st))"
proof -
  show "rows_kept st (snd (transitionWorkstream dt pid wid s reason blocked st))"
    by (rule rows_keptI) (simp_all only: transition_parts transition_ids)
  show "rows_kept st (snd (transitionPlanStatus dt now pid t st))"
    by (rule rows_keptI) (simp_all only: plan_status_ids plan_status_parts)
  show "rows_kept st (snd (insert_plan q st))" "rows_kept st (snd (insert_workstream q w st))"
    "rows_kept st (snd (recordIntegration a st))"
    unfolding rows_kept_def
    by (auto simp: insert_plan_def insert_workstream_def recordIntegration_def seq_def require_def update_def ok_def tx_def)
  show "rows_kept st (snd (insert_dependency q w d st))" "rows_kept st (snd (insert_claim q w c st))"
    "rows_kept st (snd (bindWorktree pid wid wt br st))" "rows_kept st (snd (set_leases ls st))" "rows_kept st (snd (repair_one a st))"
    by (rule rows_keptI;
        simp add: insert_dependency_def insert_claim_def bindWorktree_def set_leases_def repair_one_def seq_def require_def
          update_def tx_def split: option.split)+
qed

interpretation rows: store_order rows_kept
proof
  show "rows_kept st st" for st by (simp add: rows_kept_def)
  show "rows_kept a c" if "rows_kept a b" "rows_kept b c" for a b c
    using that unfolding rows_kept_def by (meson subset_trans)
qed (unfold preserves_def, (rule allI, rule rows_kept_parts)+)

section \<open>Only owned files, once\<close>

lemma check_names_owned:
  "check_names g w ns = None \<Longrightarrow> n \<in> set ns \<Longrightarrow> \<exists>c \<in> set (w_ownedPaths w). pathOwnedBy (normal_path n) c"
  by (induction ns) (auto simp: Let_def list_ex_iff split: if_splits option.splits)

lemma recordIntegration_Inr:
  "recordIntegration a st = (Inr x, st') \<Longrightarrow> st' = st\<lparr>xs_attempts := xs_attempts st @ [a]\<rparr>"
  by (auto simp: recordIntegration_def tx_Inr seq_Inr ok_Inr require_def update_def split: if_splits)

lemma catch_Inr: "catch' m h st = (Inr x, st') \<longleftrightarrow>
   m st = (Inr x, st') \<or> (\<exists>e st1. m st = (Inl e, st1) \<and> h e st1 = (Inr x, st'))"
  by (auto simp: catch'_def split: prod.splits sum.splits)

lemma merge_Inr:
  assumes "merge_branch dt g w sha branch names st = (Inr (), st')"
  shows "gv_merge g = None" and "hasIntegrated (w_id w) st'"
    and "stat st' (w_planId w) (w_id w) = Some WIntegrated"
proof -
  obtain st1 where 1: "(seq (case gv_merge g of Some m \<Rightarrow> raise (GitFailed m) | None \<Rightarrow> ok ()) (\<lambda>_.
      seq (recordIntegration (attempt_row w sha branch (''integration-'' @ w_id w @ ''-'' @ gv_id g @ ''-complete'') (gv_now g)
        AtIntegrated (JObj [(''clean'', JBool True)]) (changed_files names) None (Some (gv_now g)))) (\<lambda>_. to_integrated dt w)))
      st1 = (Inr (), st')"
    using assms by (auto simp: merge_branch_def Let_def seq_Inr catch_Inr raise_Inr)
  then show "gv_merge g = None" by (auto simp: seq_Inr raise_Inr split: option.splits)
  then obtain x st2 where 2: "recordIntegration (attempt_row w sha branch (''integration-'' @ w_id w @ ''-'' @ gv_id g @ ''-complete'')
      (gv_now g) AtIntegrated (JObj [(''clean'', JBool True)]) (changed_files names) None (Some (gv_now g))) st1 = (Inr x, st2)"
    and 3: "to_integrated dt w st2 = (Inr (), st')"
    using 1 by (auto simp: seq_Inr ok_Inr)
  have "hasIntegrated (w_id w) st2"
    using recordIntegration_Inr [OF 2] by (simp add: hasIntegrated_def list_ex_iff attempt_row_def)
  moreover obtain y z st3 where 4: "transitionWorkstream dt (w_planId w) (w_id w) WIntegrationPending None [] st2 = (Inr y, st3)"
    "transitionWorkstream dt (w_planId w) (w_id w) WIntegrated None [] st3 = (Inr z, st')"
    using 3 by (auto simp: to_integrated_def seq_Inr ok_Inr)
  moreover have "xs_attempts st' = xs_attempts st2" using transition_parts(1) 4 by (metis snd_conv)
  ultimately show "hasIntegrated (w_id w) st'" by (simp add: hasIntegrated_def)
  obtain row where "workstream_at (w_planId w) (w_id w) st3 = Some row" using transition_Inr(1) [OF 4(2)] by blast
  then show "stat st' (w_planId w) (w_id w) = Some WIntegrated"
    unfolding transition_Inr(2) [OF 4(2)] stat_set_status by (simp add: stat_def)
qed

lemma integrate_Inr:
  assumes "integrate dt g w sha branch st = (Inr (), st')"
  shows "\<not> hasIntegrated (w_id w) st" and "\<exists>ls. gv_diff g = Some ls \<and> check_names g w (changed_names ls) = None
      \<and> merge_branch dt g w sha branch (changed_names ls) st = (Inr (), st')"
  using assms by (auto simp: integrate_def seq_Inr raise_Inr require_def split: if_splits option.splits)

text \<open>C8. Two workstreams of an accepted plan never merge changes of the same file: when both integrations
  succeed - at any time, from any state of the tables - no normalised name of a file changed on one branch is
  one changed on the other.\<close>

theorem integrations_disjoint:
  assumes "analyzeDependencies dt collate p = Inr dd"
    and "l \<in> set (p_workstreams p)" "r \<in> set (p_workstreams p)" "l \<noteq> r"
    and "w_ownedPaths v = w_ownedPaths l" "w_ownedPaths w = w_ownedPaths r"
    and "integrate dt g v sha branch st = (Inr (), st1)" "integrate dt h w sha' branch' st2 = (Inr (), st3)"
    and "gv_diff g = Some ls" "gv_diff h = Some ms"
    and "m \<in> set (changed_names ls)" "n \<in> set (changed_names ms)"
  shows "normal_path m \<noteq> normal_path n"
proof
  assume same: "normal_path m = normal_path n"
  obtain c where "c \<in> set (w_ownedPaths l)" "pathOwnedBy (normal_path m) c"
    using integrate_Inr(2) [OF assms(7)] assms(5,9) check_names_owned [OF _ assms(11), of g v] by auto
  moreover obtain e where "e \<in> set (w_ownedPaths r)" "pathOwnedBy (normal_path n) e"
    using integrate_Inr(2) [OF assms(8)] assms(6,10) check_names_owned [OF _ assms(12), of h w] by auto
  ultimately show False using accepted_claims_exclusive [OF assms(1-4)] same by metis
qed

text \<open>C9. A workstream is integrated at most once. After a successful integration it is integrated, and through
  every later sequence of operations - restarts and recoveries included - every further integration of it fails
  and leaves the tables as they are.\<close>

theorem integrated_once:
  assumes "integrate dt g w sha branch st = (Inr (), st')" and "w_id v = w_id w"
  shows "stat st' (w_planId w) (w_id w) = Some WIntegrated
     \<and> (\<exists>e. integrate dt h v sha' branch' (exec_run dt collate ops st') = (Inl e, exec_run dt collate ops st'))"
proof -
  obtain ls where m: "merge_branch dt g w sha branch (changed_names ls) st = (Inr (), st')"
    using integrate_Inr(2) [OF assms(1)] by blast
  have "hasIntegrated (w_id v) (exec_run dt collate ops st')"
    using merge_Inr(2) [OF m] rows.run_keeps [of st' dt collate ops] assms(2)
    by (auto simp: hasIntegrated_def list_ex_iff rows_kept_def)
  then show ?thesis using merge_Inr(3) [OF m] by (auto simp: integrate_def seq_def require_def raise_def)
qed

section \<open>A pending workstream\<close>

text \<open>What an integration needs to reach its last transition.\<close>

definition integrable :: "git_view \<Rightarrow> workstream \<Rightarrow> string list \<Rightarrow> exec_store \<Rightarrow> bool" where
  "integrable g w ls st \<longleftrightarrow> gv_head g \<and> gv_base g \<and> gv_branch g \<and> gv_diff g = Some ls
     \<and> check_names g w (changed_names ls) = None \<and> gv_merge g = None
     \<and> workstream_at (w_planId w) (w_id w) st \<noteq> None
     \<and> (\<forall>a \<in> set (xs_attempts st). ia_workstreamId a = w_id w \<longrightarrow> ia_status a \<noteq> AtIntegrated)
     \<and> ''integration-'' @ w_id w @ ''-'' @ gv_id g \<notin> ia_id ` set (xs_attempts st)
     \<and> ''integration-'' @ w_id w @ ''-'' @ gv_id g @ ''-complete'' \<notin> ia_id ` set (xs_attempts st)"

lemma record_runs:
  assumes "ia_id a \<notin> ia_id ` set (xs_attempts st)" and "workstream_at (ia_planId a) (ia_workstreamId a) st \<noteq> None"
    and "ia_status a = AtIntegrated \<longrightarrow> \<not> (\<exists>x \<in> set (xs_attempts st). ia_workstreamId x = ia_workstreamId a \<and> ia_status x = AtIntegrated)"
  shows "recordIntegration a st = (Inr a, st\<lparr>xs_attempts := xs_attempts st @ [a]\<rparr>)"
  using assms by (simp add: recordIntegration_def tx_def seq_def require_def update_def ok_def)

lemma swallow_attempt:
  "\<exists>rs. swallow (recordIntegration a) st = (Inr (), st\<lparr>xs_attempts := xs_attempts st @ rs\<rparr>)"
proof -
  obtain r st1 where r: "recordIntegration a st = (r, st1)" by (cases "recordIntegration a st")
  show ?thesis
  proof (cases r)
    case (Inl e)
    then have "st1 = st" using r unfolding recordIntegration_def tx_def by (auto split: prod.splits sum.splits)
    then show ?thesis using r Inl by (intro exI [of _ "[]"]) (simp add: swallow_def catch'_def seq_def ok_def)
  next
    case (Inr x)
    then show ?thesis using r recordIntegration_Inr [of a st x st1]
      by (intro exI [of _ "[a]"]) (simp add: swallow_def catch'_def seq_def ok_def)
  qed
qed

text \<open>\<open>integrate\<close> accepts a workstream that is already pending, merges its branch and records it as integrated,
  and only then moves it to pending, which the table refuses: the call fails although the merge has happened,
  the workstream stays pending, and no later call can integrate it.\<close>

theorem pending_integration_fails:
  assumes "integrable g w ls st" and "w_status w = WIntegrationPending"
    and "stat st (w_planId w) (w_id w) = Some WIntegrationPending"
  shows "\<exists>st'. integrate dt g w sha branch st = (Inl (InvalidWorkstreamTransition WIntegrationPending WIntegrationPending), st')
     \<and> hasIntegrated (w_id w) st' \<and> stat st' (w_planId w) (w_id w) = Some WIntegrationPending"
proof -
  let ?id = "''integration-'' @ w_id w @ ''-'' @ gv_id g"
  let ?start = "attempt_row w sha branch ?id (gv_now g) AtStarted (JObj []) (JObj []) None None"
  let ?done = "attempt_row w sha branch (?id @ ''-complete'') (gv_now g) AtIntegrated
      (JObj [(''clean'', JBool True)]) (changed_files (changed_names ls)) None (Some (gv_now g))"
  define st1 where "st1 = st\<lparr>xs_attempts := xs_attempts st @ [?start]\<rparr>"
  define st2 where "st2 = st1\<lparr>xs_attempts := xs_attempts st1 @ [?done]\<rparr>"
  note i = assms(1) [unfolded integrable_def]
  have at: "workstream_at (w_planId w) (w_id w) st1 = workstream_at (w_planId w) (w_id w) st"
    "stat st2 = stat st" by (simp_all add: st1_def st2_def workstream_at_def stat_def fun_eq_iff)
  have 1: "recordIntegration ?start st = (Inr ?start, st1)"
    unfolding st1_def by (rule record_runs) (use i in \<open>simp_all add: attempt_row_def\<close>)
  have 2: "recordIntegration ?done st1 = (Inr ?done, st2)"
    unfolding st2_def by (rule record_runs) (use i at in \<open>auto simp: attempt_row_def st1_def\<close>)
  have "WIntegrationPending \<notin> set (workstream_transitions WIntegrationPending)" by simp
  then have 3: "transitionWorkstream dt (w_planId w) (w_id w) WIntegrationPending None [] st2 =
      (Inl (InvalidWorkstreamTransition WIntegrationPending WIntegrationPending), st2)"
    using assms(3) at(2) by (intro transition_refused) simp_all
  let ?e = "InvalidWorkstreamTransition WIntegrationPending WIntegrationPending"
  let ?failed = "attempt_row w sha branch (?id @ ''-failed'') (gv_now g)
      (if str_includes (gv_text g ?e) ''CONFLICT'' then AtConflict else AtFailed) (JObj [])
      (changed_files (changed_names ls)) (Some (gv_text g ?e)) (Some (gv_now g))"
  obtain rs where 4: "swallow (recordIntegration ?failed) st2 = (Inr (), st2\<lparr>xs_attempts := xs_attempts st2 @ rs\<rparr>)"
    using swallow_attempt by blast
  define st3 where "st3 = st2\<lparr>xs_attempts := xs_attempts st2 @ rs\<rparr>"
  have "merge_branch dt g w sha branch (changed_names ls) st = (Inl ?e, st3)"
    using 1 2 3 4 i by (simp add: merge_branch_def seq_def catch'_def to_integrated_def raise_def ok_def st3_def)
  moreover have "integrate dt g w sha branch st = merge_branch dt g w sha branch (changed_names ls) st"
    using i assms(2) by (auto simp: integrate_def seq_def require_def hasIntegrated_def list_ex_iff)
  moreover have "hasIntegrated (w_id w) st3" by (simp add: hasIntegrated_def st3_def st2_def attempt_row_def)
  moreover have "stat st3 (w_planId w) (w_id w) = Some WIntegrationPending"
    using assms(3) by (simp add: st3_def st2_def st1_def stat_def workstream_at_def)
  ultimately show ?thesis by simp
qed

section \<open>The second restart\<close>

lemma transition_attempts:
  "transitionWorkstream dt pid wid s reason blocked st = (r, st') \<Longrightarrow> xs_attempts st' = xs_attempts st"
  using transition_parts(1) by (metis snd_conv)

lemma getPlan_Inr: "getPlan dt pid st = (r, st') \<Longrightarrow> st' = st"
  using getPlan_state by (metis snd_conv)

lemma recover_merged_attempts:
  assumes "recover_merged dt now a w st = (Inr (), st')"
  shows "xs_attempts st' = xs_attempts st @ [recovered_row now a ''-recovered'' AtIntegrated (JObj [(''recovered'', JBool True)]) None]"
  using assms
  by (auto simp: recover_merged_def Let_def seq_Inr ok_Inr dest!: recordIntegration_Inr getPlan_Inr transition_attempts split: if_splits)

lemma recover_unmerged_attempts:
  assumes "recover_unmerged dt now a w st = (Inr (), st')"
  shows "xs_attempts st' = xs_attempts st @
    [recovered_row now a ''-recovered-failed'' AtFailed (JObj []) (Some ''INTEGRATION_INTERRUPTED'')]"
  using assms
  by (auto simp: recover_unmerged_def Let_def seq_Inr ok_Inr dest!: recordIntegration_Inr transition_attempts split: if_splits)

lemma recover_attempt_integrated:
  assumes "recover_attempt dt now merged b st = (Inr n, st')" and "ia_workstreamId b = wid \<longrightarrow> \<not> merged b"
    and "\<not> hasIntegrated wid st"
  shows "\<not> hasIntegrated wid st'"
proof -
  have "st' = st \<or> (\<exists>w. (if merged b then recover_merged dt now b w else recover_unmerged dt now b w) st = (Inr (), st'))"
  proof -
    obtain q where q: "getPlan dt (ia_planId b) st = (Inr q, st)" "(case q of None \<Rightarrow> ok 0
       | Some p \<Rightarrow>
           (case workstream_in p (ia_workstreamId b) of
              None \<Rightarrow> ok 0
            | Some w \<Rightarrow> (\<lambda>st. if hasIntegrated (ia_workstreamId b) st then ok 0 st
                else seq (if merged b then recover_merged dt now b w else recover_unmerged dt now b w) (\<lambda>_. ok 1) st))) st
          = (Inr n, st')"
      using assms(1) getPlan_Inr unfolding recover_attempt_def seq_Inr by blast
    show ?thesis
    proof (cases q)
      case (Some p)
      then show ?thesis using q(2)
        by (cases "workstream_in p (ia_workstreamId b)"; cases "hasIntegrated (ia_workstreamId b) st")
          (auto simp: seq_Inr ok_Inr)
    qed (use q(2) in \<open>simp add: ok_Inr\<close>)
  qed
  then have "xs_attempts st' = xs_attempts st \<or> (\<exists>x. xs_attempts st' = xs_attempts st @ [x]
      \<and> (ia_workstreamId x = wid \<longrightarrow> ia_status x \<noteq> AtIntegrated))"
    using assms(2) by (auto dest!: recover_merged_attempts recover_unmerged_attempts simp: recovered_row_def split: if_splits)
  then show ?thesis using assms(3) by (auto simp: hasIntegrated_def list_ex_iff)
qed

text \<open>An attempt whose failed recovery is already recorded.\<close>

definition recovered_before :: "integration_attempt \<Rightarrow> exec_store \<Rightarrow> bool" where
  "recovered_before a st \<longleftrightarrow> plan_at (ia_planId a) st \<noteq> None
     \<and> stat st (ia_planId a) (ia_workstreamId a) \<noteq> None \<and> distinct (map w_id (xs_workstreams st))
     \<and> \<not> hasIntegrated (ia_workstreamId a) st \<and> ia_id a @ ''-recovered-failed'' \<in> ia_id ` set (xs_attempts st)"

lemma recovered_again:
  assumes "recovered_before a st" and "\<not> merged a"
  shows "\<exists>e st'. recover_attempt dt now merged a st = (Inl e, st')"
proof -
  obtain r where r: "plan_at (ia_planId a) st = Some r" using assms(1) by (auto simp: recovered_before_def)
  show ?thesis
  proof (cases "plan_schema dt (plan_of st r)")
    case True
    have d: "distinct (map w_id (xs_workstreams st))" using assms(1) by (simp add: recovered_before_def)
    have "status_in (plan_of st r) (ia_workstreamId a) \<noteq> None"
      using status_in_plan [OF d, of r] plan_at_id [OF r] assms(1) by (simp add: recovered_before_def)
    then obtain w where w: "workstream_in (plan_of st r) (ia_workstreamId a) = Some w"
      by (auto simp: status_in_def workstream_in_def)
    have "recordIntegration (recovered_row now a ''-recovered-failed'' AtFailed (JObj []) (Some ''INTEGRATION_INTERRUPTED'')) st
        = (Inl ConstraintViolation, st)"
      using assms(1) by (auto simp: recordIntegration_def tx_def seq_def require_def recovered_row_def recovered_before_def)
    then show ?thesis using r True w assms
      by (simp add: recover_attempt_def getPlan_def seq_def recover_unmerged_def recovered_before_def Let_def)
  qed (use r in \<open>simp add: recover_attempt_def getPlan_def seq_def\<close>)
qed

lemma recovered_before_kept:
  assumes "recovered_before a st" and "recover_attempt dt now merged b st = (Inr n, st')"
    and "ia_workstreamId b = ia_workstreamId a \<longrightarrow> \<not> merged b"
  shows "recovered_before a st'"
proof -
  have keep: "moves st st'" "rows_kept st st'"
    using status.keeps_recover_attempt [of dt now merged b] rows.keeps_recover_attempt [of dt now merged b] assms(2)
    unfolding preserves_def by (metis snd_conv)+
  obtain row where "workstream_at (ia_planId a) (ia_workstreamId a) st = Some row"
    using assms(1) by (auto simp: recovered_before_def stat_def)
  then have "stat st' (ia_planId a) (ia_workstreamId a) \<noteq> None"
    using keep(1) unfolding moves_def stat_def by fastforce
  moreover have "plan_at pid s \<noteq> None \<longleftrightarrow> pid \<in> pl_id ` set (xs_plans s)" for pid s
    by (auto simp: plan_at_def find_None_iff_all)
  then have "plan_at (ia_planId a) st' \<noteq> None"
    using keep(2) assms(1) unfolding recovered_before_def rows_kept_def by (metis subsetD)
  moreover have "ia_id a @ ''-recovered-failed'' \<in> ia_id ` set (xs_attempts st')" "distinct (map w_id (xs_workstreams st'))"
    using keep(2) assms(1) by (auto simp: recovered_before_def rows_kept_def)
  moreover have "\<not> hasIntegrated (ia_workstreamId a) st'"
    using recover_attempt_integrated [OF assms(2,3)] assms(1) by (simp add: recovered_before_def)
  ultimately show ?thesis by (simp add: recovered_before_def)
qed

text \<open>Recovery after a restart works once. The row of a started attempt is never changed, so an attempt that
  failed is recovered at every restart; the first time a row with a fixed id records the failure, and every
  later restart violates its key: as long as no attempt of the workstream was merged, the recovery raises, and
  with it the construction of the runtime, which does not catch it.\<close>

theorem second_restart_fails:
  assumes "recovered_before a st" and "a \<in> set (xs_attempts st)" "ia_status a = AtStarted"
    and "\<forall>b. ia_workstreamId b = ia_workstreamId a \<longrightarrow> \<not> merged b"
  shows "\<exists>e st'. service_recoverAfterRestart dt now (Some merged) st = (Inl e, st')"
proof -
  have loop: "\<exists>e st'. for_each (recover_attempt dt now merged) xs st = (Inl e, st')"
    if "a \<in> set xs" "recovered_before a st" for xs st
    using that
  proof (induction xs arbitrary: st)
    case (Cons b xs)
    show ?case
    proof (cases "recover_attempt dt now merged b st")
      case (Pair r st1)
      show ?thesis
      proof (cases r)
        case (Inr n)
        have "a \<noteq> b" using recovered_again [OF Cons.prems(2), of merged dt now] assms(4) Pair Inr by auto
        moreover have "recovered_before a st1"
          by (rule recovered_before_kept [OF Cons.prems(2) Pair [unfolded Inr]]) (use assms(4) in blast)
        ultimately have "\<exists>e st'. for_each (recover_attempt dt now merged) xs st1 = (Inl e, st')"
          using Cons.IH [of st1] Cons.prems(1) by simp
        then show ?thesis using Pair Inr by (auto simp: seq_def)
      qed (use Pair in \<open>simp add: seq_def\<close>)
    qed
  qed simp
  have "a \<in> set (listIntegrationAttempts (Some AtStarted) st)" using assms(2,3) by (simp add: listIntegrationAttempts_def)
  from loop [OF this assms(1)] show ?thesis
    by (auto simp: service_recoverAfterRestart_def integration_recoverAfterRestart_def seq_def)
qed

section \<open>A plan whose integration fails\<close>

lemma ready_list_settled:
  assumes r: "readable dt pid r st" and "plan_settled st pid"
  shows "ready_list collate (plan_of st r) = []"
proof -
  have "w_id ` set (ready_list collate (plan_of st r)) = {}"
    using assms(2) by (auto simp: ready_list_ids [OF r] plan_settled_def settled_status_def)
  then show ?thesis by simp
qed

lemma nothing_to_run:
  assumes r: "readable dt pid r st" and "plan_settled st pid" and "stat st pid wid = Some WFailed"
  shows "executePlan dt collate env pid (pl_sourceSha r) st = (Inr \<lparr>pr_succeeded = [], pr_failed = [], pr_blocked = []\<rparr>, st)"
proof -
  have "run_wave dt collate env pid (pl_sourceSha r) 0 st = (Inr None, st)"
    using listReady_runs [OF r, of collate] ready_list_settled [OF r assms(2), of collate] by (simp add: run_wave_def seq_def ok_def)
  then have waves: "run_waves dt collate env pid (pl_sourceSha r) k 0 st = (Inr [], st)" for k
    by (cases k) (simp_all add: seq_def ok_def)
  have plan: "getPlan dt pid st = (Inr (Some (plan_of st r)), st)" "p_sourceSha (plan_of st r) = pl_sourceSha r"
    using r by (simp_all add: readable_def getPlan_def plan_of_def)
  obtain w where "w \<in> set (p_workstreams (plan_of st r))" "w_status w = WFailed"
    using plan_member_at [OF r assms(3)] by blast
  then have "\<not> list_all (\<lambda>w. w_status w \<in> {WSucceeded, WIntegrated, WSuperseded}) (p_workstreams (plan_of st r))"
    by (auto simp: list_all_iff intro!: bexI [of _ w])
  then show ?thesis using readable_needPlan [OF r] plan waves by (simp add: executePlan_def seq_def ok_def)
qed

text \<open>A plan whose integration fails stays running for ever. When everything is settled and a workstream that
  had succeeded is not integrated - it was not verified, or the integration refused it - the workstream
  becomes failed and the plan is settled, but it keeps the status running: the scheduler decided the end of
  the plan before the integration, and every further execution of the plan returns at once with nothing done
  and changes nothing.\<close>

theorem integration_failure_leaves_running:
  assumes r: "readable dt pid r st" and "pl_status r = PRunning" and settled: "plan_settled st pid"
    and wid: "stat st pid wid = Some WSucceeded" and view: "re_integration env = Some view"
    and fails: "\<not> answer fc_verified (re_execute env n wid)
      \<or> (\<exists>w a e. workstream_in (plan_of st r) wid = Some w \<and> map_of as wid = Some a
            \<and> integrate dt (view n w) w (al_sourceSha a) (al_branch a) st = (Inl e, st))"
  shows "\<exists>st'. settle_one dt env n pid as wid st = (Inr False, st') \<and> stat st' pid wid = Some WFailed
     \<and> plan_settled st' pid \<and> plan_at pid st' = Some r
     \<and> executePlan dt collate env' pid (pl_sourceSha r) st' = (Inr \<lparr>pr_succeeded = [], pr_failed = [], pr_blocked = []\<rparr>, st')"
proof -
  have "status_in (plan_of st r) wid = Some WSucceeded"
    using r wid status_in_plan [of st r wid] plan_at_id [of pid st r] by (simp add: readable_def)
  then obtain w where w: "workstream_in (plan_of st r) wid = Some w" "w_status w = WSucceeded"
    by (auto simp: status_in_def workstream_in_def)
  obtain x st1 where 1: "transitionWorkstream dt pid wid WIntegrationPending None [] st = (Inr x, st1)" "readable dt pid r st1"
    "changed pid [(wid, WIntegrationPending)] st st1"
    using transition_changes [OF r wid, of WIntegrationPending None] by (auto simp: opt_ok_def)
  then have pending: "stat st1 pid wid = Some WIntegrationPending" by (simp add: changed_def)
  obtain y st2 where 2: "transitionWorkstream dt pid wid WFailed (Some ''INTEGRATION_FAILED'') [] st1 = (Inr y, st2)"
    "readable dt pid r st2" "changed pid [(wid, WFailed)] st1 st2"
    using transition_changes [OF 1(2) pending, of WFailed "Some ''INTEGRATION_FAILED''"] by (auto simp: opt_ok_def)
  have one: "settle_one dt env n pid as wid st = (Inr False, st2)"
    using fails readable_needPlan [OF r] w 1(1) 2(1) view
    by (auto simp: settle_one_def catch'_def seq_def raise_def ok_def)
  have failed: "stat st2 pid wid = Some WFailed" using 2(3) by (simp add: changed_def)
  have "stat st2 pid v = (if v = wid then Some WFailed else stat st pid v)" for v
    using 1(3) 2(3) by (simp add: changed_def)
  then have "plan_settled st2 pid" using settled by (auto simp: plan_settled_def settled_status_def split: if_splits)
  then show ?thesis using one failed 2(2) nothing_to_run [OF 2(2) _ failed] by (auto simp: readable_def)
qed

section \<open>Evaluated on the sample plan\<close>

definition sample_view :: "string \<Rightarrow> git_view" where
  "sample_view file =
     \<lparr>gv_head = True, gv_base = True, gv_branch = True, gv_diff = Some [file, ''''], gv_escapes = \<lambda>_. None,
      gv_merge = None, gv_text = \<lambda>_. ''error'', gv_id = ''1'', gv_now = ''t''\<rparr>"

definition sample_done :: "string \<Rightarrow> string list \<Rightarrow> workstream_status \<Rightarrow> workstream" where
  "sample_done wid deps s = sample_workstream wid deps [''src/'' @ wid] s"

definition done_store :: "workstream_status \<Rightarrow> workstream_status \<Rightarrow> exec_store" where
  "done_store s t = saved_store\<lparr>xs_plans := [two_steps_row\<lparr>pl_status := PRunning\<rparr>],
     xs_workstreams := [sample_done ''a'' [] s, sample_done ''b'' [] t]\<rparr>"

lemma done_store_readable: "readable (\<lambda>_. True) ''plan'' (two_steps_row\<lparr>pl_status := PRunning\<rparr>) (done_store WSucceeded WSucceeded)"
  unfolding readable_def by (intro conjI; code_simp)

lemma Inr_state: "fst p = Inr () \<Longrightarrow> \<exists>st. p = (Inr (), st)"
  by (cases p) simp

lemma sample_integrations:
  "\<exists>st. integrate (\<lambda>_. True) (sample_view ''src/a'') (sample_done ''a'' [] WSucceeded) ''s'' ''ba'' (done_store WSucceeded WSucceeded)
     = (Inr (), st)"
  "\<exists>st. integrate (\<lambda>_. True) (sample_view ''src/b'') (sample_done ''b'' [''a''] WSucceeded) ''s'' ''bb'' (done_store WSucceeded WSucceeded)
     = (Inr (), st)"
  by (rule Inr_state, code_simp)+

theorem integrations_disjoint_witness: "normal_path ''src/a'' \<noteq> normal_path ''src/b''"
proof -
  obtain st1 where 1: "integrate (\<lambda>_. True) (sample_view ''src/a'') (sample_done ''a'' [] WSucceeded) ''s'' ''ba''
      (done_store WSucceeded WSucceeded) = (Inr (), st1)" using sample_integrations(1) by blast
  obtain st2 where 2: "integrate (\<lambda>_. True) (sample_view ''src/b'') (sample_done ''b'' [''a''] WSucceeded) ''s'' ''bb''
      (done_store WSucceeded WSucceeded) = (Inr (), st2)" using sample_integrations(2) by blast
  have names: "changed_names [x, ''''] = (if trim x = [] then [] else [trim x])" for x
    by (simp add: changed_names_def trim_def)
  show ?thesis
    by (rule integrations_disjoint [OF two_steps_analysis _ _ _ _ _ 1 2, of "sample_workstream ''a'' [] [''src/a''] WPlanned"
          "sample_workstream ''b'' [''a''] [''src/b''] WPlanned" "[''src/a'', '''']" "[''src/b'', '''']"])
      (simp_all add: two_steps_def sample_plan_def sample_done_def sample_workstream_def sample_view_def names,
        (simp add: trim_def is_white_def char_code_def)+)
qed

theorem integrated_once_witness:
  "\<exists>st e. integrate (\<lambda>_. True) (sample_view ''src/a'') (sample_done ''a'' [] WSucceeded) ''s'' ''ba'' (done_store WSucceeded WSucceeded)
     = (Inr (), st)
     \<and> integrate (\<lambda>_. True) (sample_view ''src/a'') (sample_done ''a'' [] WSucceeded) ''s'' ''ba''
         (exec_run (\<lambda>_. True) (\<le>) [OpRecover ''later''] st) = (Inl e, exec_run (\<lambda>_. True) (\<le>) [OpRecover ''later''] st)"
proof -
  obtain st where st: "integrate (\<lambda>_. True) (sample_view ''src/a'') (sample_done ''a'' [] WSucceeded) ''s'' ''ba''
      (done_store WSucceeded WSucceeded) = (Inr (), st)" using sample_integrations(1) by blast
  then show ?thesis using integrated_once [OF st refl] by blast
qed

theorem pending_integration_fails_witness:
  "\<exists>st. integrate (\<lambda>_. True) (sample_view ''src/a'') (sample_done ''a'' [] WIntegrationPending) ''s'' ''ba''
       (done_store WIntegrationPending WPlanned)
     = (Inl (InvalidWorkstreamTransition WIntegrationPending WIntegrationPending), st) \<and> hasIntegrated ''a'' st"
proof -
  have i: "integrable (sample_view ''src/a'') (sample_done ''a'' [] WIntegrationPending) [''src/a'', '''']
      (done_store WIntegrationPending WPlanned)"
    unfolding integrable_def by (intro conjI; code_simp)
  have s: "w_status (sample_done ''a'' [] WIntegrationPending) = WIntegrationPending"
    "w_id (sample_done ''a'' [] WIntegrationPending) = ''a''"
    by (simp_all add: sample_done_def sample_workstream_def)
  have p: "stat (done_store WIntegrationPending WPlanned) (w_planId (sample_done ''a'' [] WIntegrationPending))
      (w_id (sample_done ''a'' [] WIntegrationPending)) = Some WIntegrationPending" by code_simp
  from pending_integration_fails [OF i s(1) p, of "\<lambda>_. True" "''s''" "''ba''"] show ?thesis unfolding s(2) by blast
qed

text \<open>The rows that a conflict and one recovery leave.\<close>

definition sample_attempt :: "string \<Rightarrow> attempt_status \<Rightarrow> integration_attempt" where
  "sample_attempt aid s = attempt_row (sample_done ''a'' [] WFailed) ''s'' ''ba'' aid ''t'' s (JObj []) (JObj []) None None"

definition conflict_store :: exec_store where
  "conflict_store = (done_store WFailed WBlocked)\<lparr>xs_attempts :=
     [sample_attempt ''i'' AtStarted, sample_attempt ''i-failed'' AtConflict]\<rparr>"

definition restarted_store :: exec_store where
  "restarted_store = snd (service_recoverAfterRestart (\<lambda>_. True) ''t1'' (Some (\<lambda>_. False)) conflict_store)"

theorem second_restart_fails_witness:
  "\<exists>e st'. service_recoverAfterRestart (\<lambda>_. True) ''t2'' (Some (\<lambda>_. False)) restarted_store = (Inl e, st')"
proof (rule second_restart_fails)
  show "recovered_before (sample_attempt ''i'' AtStarted) restarted_store"
    unfolding recovered_before_def by (intro conjI; code_simp)
  show "sample_attempt ''i'' AtStarted \<in> set (xs_attempts restarted_store)" by code_simp
  show "ia_status (sample_attempt ''i'' AtStarted) = AtStarted" by (simp add: sample_attempt_def attempt_row_def)
qed simp

theorem integration_failure_leaves_running_witness:
  "\<exists>st'. stat st' ''plan'' ''a'' = Some WFailed \<and> plan_settled st' ''plan'' \<and> plan_at ''plan'' st' = Some (two_steps_row\<lparr>pl_status := PRunning\<rparr>)"
proof -
  define env where "env = \<lparr>re_now = \<lambda>_. ''t'', re_clock = \<lambda>_. ''c'', re_expires = \<lambda>_. ''e'', re_head = \<lambda>_. ''h'',
    re_allocate = \<lambda>_ _ _. Inl WorktreeCollision, re_leaseId = \<lambda>_ _. ''l'', re_execute = \<lambda>_ _. None,
    re_integration = Some (\<lambda>_ _. sample_view ''src/a'')\<rparr>"
  have s: "stat (done_store WSucceeded WSucceeded) ''plan'' ''a'' = Some WSucceeded" by code_simp
  have "t = WSucceeded" if "stat (done_store WSucceeded WSucceeded) ''plan'' w = Some t" for w t
    using that by (simp add: stat_def workstream_at_def done_store_def sample_done_def sample_workstream_def split: if_splits)
  then have "plan_settled (done_store WSucceeded WSucceeded) ''plan''"
    unfolding plan_settled_def settled_status_def by blast
  from integration_failure_leaves_running [OF done_store_readable _ this s, of env _ 0 "[]" "(\<le>)" env] show ?thesis
    by (auto simp: env_def answer_def)
qed

end
