(* ===== verification/Worktree_Names.thy ===== *)
theory Worktree_Names
  imports Integration "HOL-Library.Sublist"
begin

text \<open>
  The identifiers the worktree manager derives from the ids of a run and a workstream: they name one directory
  below the root and fit the columns that later hold them.
\<close>

lemma dash_unsafe_chars: "list_all safe_char (dash_unsafe in_run s)"
  by (induction s arbitrary: in_run) (auto simp: safe_char_def)

lemma dash_dots_chars: "list_all safe_char s \<Longrightarrow> list_all safe_char (dash_dots n s)"
  by (induction s arbitrary: n) (auto simp: safe_char_def)

lemma two_dots_Cons: "sublist ''..'' (c # s) \<longleftrightarrow> c = CHR ''.'' \<and> take 1 s = ''.'' \<or> sublist ''..'' s"
  by (cases s) (auto simp: sublist_Cons_right)

lemma dash_dots_single: "\<not> sublist ''..'' (dash_dots n s)"
  by (induction s arbitrary: n) (auto simp: two_dots_Cons)

lemma strip_dashes_sublist: "sublist (strip_dashes s) s"
proof -
  have "suffix (dropWhile (\<lambda>c. c = CHR ''-'') t) t" for t by (rule suffix_dropWhile)
  then have d: "sublist (dropWhile (\<lambda>c. c = CHR ''-'') t) t" for t by (rule suffix_imp_sublist)
  have "sublist (rev (dropWhile (\<lambda>c. c = CHR ''-'') (rev t))) t" for t
    using d [of "rev t"] by (metis sublist_rev rev_rev_ident)
  then show ?thesis unfolding strip_dashes_def using d sublist_order.order_trans by blast
qed

lemma sublist_chars: "sublist xs ys \<Longrightarrow> list_all P ys \<Longrightarrow> list_all P xs"
  by (auto simp: sublist_def)

lemma safePart_chars:
  assumes "safePart v = Inr s"
  shows "s \<noteq> []" and "length s \<le> 80" and "list_all safe_char s" and "\<not> sublist ''..'' s"
proof -
  define out where "out = strip_dashes (dash_dots 0 (dash_unsafe False v))"
  have s: "s = take 80 out" "out \<noteq> []" using assms by (auto simp: safePart_def Let_def out_def split: if_splits)
  have sub: "sublist s (dash_dots 0 (dash_unsafe False v))"
    using strip_dashes_sublist [of "dash_dots 0 (dash_unsafe False v)"] sublist_take [of 80 out]
    by (metis out_def s(1) sublist_order.order_trans)
  show "s \<noteq> []" "length s \<le> 80" using s by simp_all
  show "list_all safe_char s" by (rule sublist_chars [OF sub]) (intro dash_dots_chars dash_unsafe_chars)
  show "\<not> sublist ''..'' s" using sub dash_dots_single sublist_order.order_trans by blast
qed

text \<open>An allocation names one directory. Whatever the ids of the run and the workstream, the identifier that
  \<open>allocate\<close> gives is not empty, has only letters, digits, dots, dashes and underscores - no separator - and
  never two dots in a row, so it is no step up; and it and its branch fit the columns, so the plan it is bound
  to still satisfies its schema.\<close>

theorem allocation_names_safe:
  assumes "allocate place git_add rid wid sha = Inr a"
  shows "list_all safe_char (al_worktreeId a) \<and> \<not> sublist ''..'' (al_worktreeId a)
     \<and> al_branch a = ''flowdeck/'' @ al_worktreeId a \<and> schema_id (al_worktreeId a) \<and> schema_id (al_branch a)"
proof -
  obtain r w where rw: "safePart rid = Inr r" "safePart wid = Inr w" "al_worktreeId a = r @ ''-'' @ w"
    "al_branch a = ''flowdeck/'' @ r @ ''-'' @ w"
    using assms by (auto simp: allocate_def Let_def split: if_splits sum.splits option.splits)
  note r = safePart_chars [OF rw(1)] and w = safePart_chars [OF rw(2)]
  have "\<not> sublist ''..'' (r @ CHR ''-'' # w)"
  proof -
    have "\<not> sublist ''..'' (CHR ''-'' # w)" using w(4) by (simp add: two_dots_Cons)
    then show ?thesis using r(4)
    proof (induction r)
      case (Cons c r)
      then show ?case by (cases r) (auto simp: two_dots_Cons)
    qed simp
  qed
  then show ?thesis using rw(3,4) r w by (simp add: schema_id_def schema_text_def safe_char_def)
qed

theorem allocation_names_safe_witness:
  "\<exists>a. allocate Some (\<lambda>_. True) ''../run'' ''a:b'' (replicate 40 CHR ''0'') = Inr a
     \<and> al_worktreeId a = ''run-a-b'' \<and> list_all safe_char (al_worktreeId a)"
proof -
  have a: "allocate Some (\<lambda>_. True) ''../run'' ''a:b'' (replicate 40 CHR ''0'') =
      Inr \<lparr>al_worktreeId = ''run-a-b'', al_workspace = ''run-a-b'', al_branch = ''flowdeck/run-a-b'',
           al_sourceSha = replicate 40 CHR ''0''\<rparr>"
    by code_simp
  from allocation_names_safe [OF a] show ?thesis using a by auto
qed

end
