(* ===== verification/Bindings.thy ===== *)
theory Bindings
  imports Dependencies
begin

text \<open>
  The binding of workstreams to assignments: the table
  (\<open>execution/assignment-execution-binding-repository.ts\<close>) and its coordinator
  (\<open>execution/assignment-binding-coordinator.ts\<close>).

  The coordinator works through the workstreams of a plan. Its reads, its transactions and the calls of the
  assignment service are steps that other coordinators - those of other processes on the same database - can
  come between. \<open>creates\<close> tells whether the service manages to insert an assignment; the ids it would
  draw at random are a list.
\<close>

section \<open>The table\<close>

datatype dispatch_state = DsPending | DsDispatched | DsSucceeded | DsFailed | DsCancelled

record binding =
  bi_assignmentId :: string
  bi_runId :: string
  bi_planId :: string
  bi_workstreamId :: string
  bi_correlationId :: string
  bi_dispatchState :: dispatch_state
  bi_attemptCount :: nat
  bi_lastAttemptId :: "string option"
  bi_lastAttemptAt :: "string option"
  bi_createdAt :: string
  bi_updatedAt :: string

record binding_record =
  br_assignmentId :: string
  br_runId :: string
  br_planId :: string
  br_workstreamId :: string
  br_correlationId :: string

definition getByAssignmentId :: "string \<Rightarrow> binding list \<Rightarrow> binding option" where
  "getByAssignmentId aid bs = List.find (\<lambda>b. bi_assignmentId b = aid) bs"

definition getByPlanAndWorkstream :: "string \<Rightarrow> string \<Rightarrow> binding list \<Rightarrow> binding option" where
  "getByPlanAndWorkstream pid wid bs = List.find (\<lambda>b. bi_planId b = pid \<and> bi_workstreamId b = wid) bs"

definition listByPlan :: "string \<Rightarrow> binding list \<Rightarrow> binding list" where
  "listByPlan pid bs = sort_key bi_workstreamId (filter (\<lambda>b. bi_planId b = pid) bs)"

definition listByRun :: "string \<Rightarrow> binding list \<Rightarrow> binding list" where
  "listByRun rid bs = sort_key bi_workstreamId (filter (\<lambda>b. bi_runId b = rid) bs)"

definition new_binding :: "binding_record \<Rightarrow> string \<Rightarrow> binding" where
  "new_binding r now =
     \<lparr>bi_assignmentId = br_assignmentId r, bi_runId = br_runId r, bi_planId = br_planId r,
      bi_workstreamId = br_workstreamId r, bi_correlationId = br_correlationId r, bi_dispatchState = DsPending,
      bi_attemptCount = 0, bi_lastAttemptId = None, bi_lastAttemptAt = None, bi_createdAt = now, bi_updatedAt = now\<rparr>"

text \<open>A second binding under one assignment id violates the primary key.\<close>

definition ensureBinding :: "binding_record \<Rightarrow> string \<Rightarrow> binding list \<Rightarrow> (exec_error + binding) \<times> binding list" where
  "ensureBinding r now bs =
     (case getByPlanAndWorkstream (br_planId r) (br_workstreamId r) bs of
        Some b \<Rightarrow> (Inr b, bs)
      | None \<Rightarrow> if getByAssignmentId (br_assignmentId r) bs \<noteq> None then (Inl ConstraintViolation, bs)
                else (Inr (new_binding r now), bs @ [new_binding r now]))"

text \<open>Changing a row that does not exist updates nothing and then fails to read it back.\<close>

definition change_binding :: "string \<Rightarrow> (binding \<Rightarrow> binding) \<Rightarrow> binding list \<Rightarrow> binding option \<times> binding list" where
  "change_binding aid f bs =
     (let bs' = map (\<lambda>b. if bi_assignmentId b = aid then f b else b) bs in (getByAssignmentId aid bs', bs'))"

definition binding_recordAttempt :: "string \<Rightarrow> string \<Rightarrow> string \<Rightarrow> binding list \<Rightarrow> binding option \<times> binding list" where
  "binding_recordAttempt aid attempt now =
     change_binding aid (\<lambda>b. b\<lparr>bi_dispatchState := DsDispatched, bi_attemptCount := Suc (bi_attemptCount b),
       bi_lastAttemptId := Some attempt, bi_lastAttemptAt := Some now, bi_updatedAt := now\<rparr>)"

definition transition_binding :: "string \<Rightarrow> dispatch_state \<Rightarrow> string \<Rightarrow> binding list \<Rightarrow> binding option \<times> binding list" where
  "transition_binding aid s now = change_binding aid (\<lambda>b. b\<lparr>bi_dispatchState := s, bi_updatedAt := now\<rparr>)"

section \<open>The coordinator\<close>

record new_assignment =
  na_id :: string
  na_runId :: string
  na_agentId :: string
  na_role :: string
  na_correlationId :: string
  na_contractId :: string
  na_taskDescription :: string
  na_planId :: string
  na_workstreamId :: string

record bind_store =
  bs_bindings :: "binding list"
  bs_assignments :: "new_assignment list"

datatype coordinator_phase = Looking | Reserving string | Creating string

record coordinator =
  co_plan :: plan
  co_correlationId :: string
  co_now :: string
  co_todo :: "workstream list"
  co_phase :: coordinator_phase
  co_map :: "(string \<times> string) list"
  co_ids :: "string list"
  co_error :: "exec_error option"

definition coordinator_start :: "plan \<Rightarrow> string \<Rightarrow> string \<Rightarrow> string list \<Rightarrow> coordinator" where
  "coordinator_start p corr now ids =
     \<lparr>co_plan = p, co_correlationId = corr, co_now = now, co_todo = p_workstreams p, co_phase = Looking, co_map = [],
      co_ids = ids, co_error = None\<rparr>"

text \<open>\<open>map.set(workstreamId, assignmentId)\<close> and on to the next workstream.\<close>

definition assigned :: "string \<Rightarrow> coordinator \<Rightarrow> coordinator" where
  "assigned aid c = c\<lparr>co_map := AList.update (w_id (hd (co_todo c))) aid (co_map c), co_todo := tl (co_todo c), co_phase := Looking\<rparr>"

definition binding_for :: "coordinator \<Rightarrow> workstream \<Rightarrow> string \<Rightarrow> binding_record" where
  "binding_for c w aid =
     \<lparr>br_assignmentId = aid, br_runId = p_runId (co_plan c), br_planId = p_planId (co_plan c),
      br_workstreamId = w_id w, br_correlationId = co_correlationId c\<rparr>"

definition assignment_for :: "coordinator \<Rightarrow> workstream \<Rightarrow> string \<Rightarrow> new_assignment" where
  "assignment_for c w aid =
     \<lparr>na_id = aid, na_runId = p_runId (co_plan c), na_agentId = w_resolvedAgent w, na_role = w_requiredCapability w,
      na_correlationId = co_correlationId c, na_contractId = p_routingDecisionId (co_plan c),
      na_taskDescription = w_objective w, na_planId = p_planId (co_plan c), na_workstreamId = w_id w\<rparr>"

definition createAssignment :: "(string \<Rightarrow> bool) \<Rightarrow> new_assignment \<Rightarrow> bind_store \<Rightarrow> bool \<times> bind_store" where
  "createAssignment creates a st =
     (if creates (na_id a) \<and> na_id a \<notin> na_id ` set (bs_assignments st)
      then (True, st\<lparr>bs_assignments := bs_assignments st @ [a]\<rparr>) else (False, st))"

fun coordinator_step :: "(string \<Rightarrow> bool) \<Rightarrow> coordinator \<Rightarrow> bind_store \<Rightarrow> coordinator \<times> bind_store" where
  "coordinator_step creates c st =
     (case co_todo c of
        [] \<Rightarrow> (c, st)
      | w # ws \<Rightarrow>
          if co_error c \<noteq> None then (c, st)
          else (case co_phase c of
            Looking \<Rightarrow>
              (case getByPlanAndWorkstream (p_planId (co_plan c)) (w_id w) (bs_bindings st) of
                 Some b \<Rightarrow> (assigned (bi_assignmentId b) c, st)
               | None \<Rightarrow> (c\<lparr>co_phase := Reserving (hd (co_ids c)), co_ids := tl (co_ids c)\<rparr>, st))
          | Reserving aid \<Rightarrow>
              (case ensureBinding (binding_for c w aid) (co_now c) (bs_bindings st) of
                 (Inl e, bs) \<Rightarrow> (c\<lparr>co_error := Some e\<rparr>, st)
               | (Inr _, bs) \<Rightarrow> (c\<lparr>co_phase := Creating aid\<rparr>, st\<lparr>bs_bindings := bs\<rparr>))
          | Creating aid \<Rightarrow>
              (case createAssignment creates (assignment_for c w aid) st of
                 (True, st') \<Rightarrow> (assigned aid c, st')
               | (False, st') \<Rightarrow>
                   (case getByPlanAndWorkstream (p_planId (co_plan c)) (w_id w) (bs_bindings st') of
                      None \<Rightarrow> (c\<lparr>co_error := Some ConstraintViolation\<rparr>, st')
                    | Some b \<Rightarrow> (assigned (bi_assignmentId b) c, st')))))"

text \<open>\<open>ensureAssignments\<close> undisturbed: three steps at most for each workstream.\<close>

fun coordinator_steps :: "(string \<Rightarrow> bool) \<Rightarrow> nat \<Rightarrow> coordinator \<Rightarrow> bind_store \<Rightarrow> coordinator \<times> bind_store" where
  "coordinator_steps creates 0 c st = (c, st)"
| "coordinator_steps creates (Suc n) c st =
     (case coordinator_step creates c st of (c', st') \<Rightarrow> coordinator_steps creates n c' st')"

definition ensureAssignments :: "(string \<Rightarrow> bool) \<Rightarrow> plan \<Rightarrow> string \<Rightarrow> string \<Rightarrow> string list \<Rightarrow> bind_store
      \<Rightarrow> (exec_error + (string \<times> string) list) \<times> bind_store" where
  "ensureAssignments creates p corr now ids st =
     (case coordinator_steps creates (3 * length (p_workstreams p)) (coordinator_start p corr now ids) st of
        (c, st') \<Rightarrow> (case co_error c of Some e \<Rightarrow> Inl e | None \<Rightarrow> Inr (co_map c), st'))"

text \<open>Several coordinators: the schedule says which one takes the next step.\<close>

fun interleaved :: "(string \<Rightarrow> bool) \<Rightarrow> nat list \<Rightarrow> coordinator list \<Rightarrow> bind_store \<Rightarrow> coordinator list \<times> bind_store" where
  "interleaved creates [] cs st = (cs, st)"
| "interleaved creates (i # is) cs st =
     (if i < length cs then
        (case coordinator_step creates (cs ! i) st of (c, st') \<Rightarrow> interleaved creates is (cs[i := c]) st')
      else interleaved creates is cs st)"

section \<open>Invariants of the table\<close>

definition bindings_ok :: "binding list \<Rightarrow> bool" where
  "bindings_ok bs \<longleftrightarrow> distinct (map bi_assignmentId bs) \<and> distinct (map (\<lambda>b. (bi_planId b, bi_workstreamId b)) bs)"

lemma ensureBinding_ok: "bindings_ok bs \<Longrightarrow> bindings_ok (snd (ensureBinding r now bs))"
  by (auto simp: ensureBinding_def bindings_ok_def getByPlanAndWorkstream_def getByAssignmentId_def new_binding_def
      find_None_iff_all split: option.split)

lemma change_binding_ok:
  assumes "\<And>b. bi_assignmentId (f b) = bi_assignmentId b \<and> bi_planId (f b) = bi_planId b \<and> bi_workstreamId (f b) = bi_workstreamId b"
  shows "bindings_ok bs \<Longrightarrow> bindings_ok (snd (change_binding aid f bs))"
proof -
  have "map bi_assignmentId (map (\<lambda>b. if bi_assignmentId b = aid then f b else b) bs) = map bi_assignmentId bs"
    "map (\<lambda>b. (bi_planId b, bi_workstreamId b)) (map (\<lambda>b. if bi_assignmentId b = aid then f b else b) bs)
     = map (\<lambda>b. (bi_planId b, bi_workstreamId b)) bs"
    by (simp_all add: assms)
  then show "bindings_ok bs \<Longrightarrow> bindings_ok (snd (change_binding aid f bs))"
    unfolding bindings_ok_def change_binding_def Let_def snd_conv by metis
qed

definition bound :: "bind_store \<Rightarrow> string \<Rightarrow> string \<Rightarrow> string option" where
  "bound st pid wid = map_option bi_assignmentId (getByPlanAndWorkstream pid wid (bs_bindings st))"

text \<open>A binding once made is kept.\<close>

lemma ensureBinding_bound:
  assumes "ensureBinding r now (bs_bindings st) = (Inr b, bs)"
  shows "bound (st\<lparr>bs_bindings := bs\<rparr>) pid wid =
     (if bound st pid wid = None \<and> pid = br_planId r \<and> wid = br_workstreamId r then Some (br_assignmentId r)
      else bound st pid wid)"
proof -
  have app: "List.find P (xs @ [x]) = (case List.find P xs of None \<Rightarrow> if P x then Some x else None | Some y \<Rightarrow> Some y)"
    for P and xs :: "binding list" and x by (induction xs) simp_all
  show ?thesis
    using assms
    by (auto simp: ensureBinding_def bound_def getByPlanAndWorkstream_def app new_binding_def split: option.splits if_splits)
qed

lemma step_cases:
  assumes "coordinator_step creates c st = (c', st')"
  shows "bs_bindings st' = bs_bindings st \<or>
     (\<exists>w ws aid b bs. co_todo c = w # ws \<and> co_phase c = Reserving aid
        \<and> ensureBinding (binding_for c w aid) (co_now c) (bs_bindings st) = (Inr b, bs) \<and> st' = st\<lparr>bs_bindings := bs\<rparr>)"
  using assms
  by (auto simp: createAssignment_def split: list.splits coordinator_phase.splits option.splits prod.splits sum.splits if_splits)

lemma step_ok: "bindings_ok (bs_bindings st) \<Longrightarrow> bindings_ok (bs_bindings (snd (coordinator_step creates c st)))"
proof -
  assume ok: "bindings_ok (bs_bindings st)"
  obtain c' st' where s: "coordinator_step creates c st = (c', st')" by (cases "coordinator_step creates c st")
  from step_cases [OF s] show ?thesis
  proof
    assume "\<exists>w ws aid b bs. co_todo c = w # ws \<and> co_phase c = Reserving aid
        \<and> ensureBinding (binding_for c w aid) (co_now c) (bs_bindings st) = (Inr b, bs) \<and> st' = st\<lparr>bs_bindings := bs\<rparr>"
    then obtain w aid b bs where "ensureBinding (binding_for c w aid) (co_now c) (bs_bindings st) = (Inr b, bs)"
      "st' = st\<lparr>bs_bindings := bs\<rparr>" by blast
    then show ?thesis using ensureBinding_ok [OF ok] s by (metis bind_store.select_convs(1) bind_store.surjective bind_store.update_convs(1) snd_conv)
  qed (use s ok in simp)
qed

lemma step_bound:
  "bound st pid wid = Some aid \<Longrightarrow> bound (snd (coordinator_step creates c st)) pid wid = Some aid"
proof -
  assume b: "bound st pid wid = Some aid"
  obtain c' st' where s: "coordinator_step creates c st = (c', st')" by (cases "coordinator_step creates c st")
  from step_cases [OF s] show ?thesis
  proof
    assume "bs_bindings st' = bs_bindings st"
    then show ?thesis using s b by (simp add: bound_def)
  next
    assume "\<exists>w ws aid b bs. co_todo c = w # ws \<and> co_phase c = Reserving aid
        \<and> ensureBinding (binding_for c w aid) (co_now c) (bs_bindings st) = (Inr b, bs) \<and> st' = st\<lparr>bs_bindings := bs\<rparr>"
    then show ?thesis using s b ensureBinding_bound by fastforce
  qed
qed

lemma interleaved_keeps:
  "bindings_ok (bs_bindings st) \<Longrightarrow> bindings_ok (bs_bindings (snd (interleaved creates is cs st)))
     \<and> (bound st pid wid = Some aid \<longrightarrow> bound (snd (interleaved creates is cs st)) pid wid = Some aid)"
proof (induction creates "is" cs st rule: interleaved.induct)
  case (2 creates i "is" cs st)
  show ?case
  proof (cases "i < length cs")
    case True
    obtain c' st' where s: "coordinator_step creates (cs ! i) st = (c', st')" by (cases "coordinator_step creates (cs ! i) st")
    have "bindings_ok (bs_bindings st')" using step_ok [OF 2(3), of creates "cs ! i"] s by simp
    moreover have "bound st pid wid = Some aid \<Longrightarrow> bound st' pid wid = Some aid"
      using step_bound [of st pid wid aid creates "cs ! i"] s by simp
    ultimately show ?thesis using 2(1) [OF True s [symmetric]] s True by (simp del: coordinator_step.simps)
  next
    case False
    then show ?thesis using 2(2) [OF False 2(3)] by simp
  qed
qed simp

text \<open>A workstream has one binding, for good. However the steps of any number of coordinators interleave - with
  crashes, which only end a coordinator - no two bindings share a workstream or an assignment id, and a
  binding that exists keeps its assignment.\<close>

theorem bindings_unique_and_stable:
  assumes "bindings_ok (bs_bindings st)"
  shows "bindings_ok (bs_bindings (snd (interleaved creates is cs st)))
     \<and> (\<forall>pid wid aid. bound st pid wid = Some aid \<longrightarrow> bound (snd (interleaved creates is cs st)) pid wid = Some aid)"
  using interleaved_keeps [OF assms] by blast

section \<open>A coordinator on its own\<close>

definition sane :: "coordinator \<Rightarrow> bind_store \<Rightarrow> bool" where
  "sane c st \<longleftrightarrow> co_phase c = Looking \<and> co_error c = None \<and> length (co_todo c) \<le> length (co_ids c)
     \<and> distinct (co_ids c) \<and> set (co_ids c) \<inter> bi_assignmentId ` set (bs_bindings st) = {}"

lemma one_workstream:
  assumes s: "sane c st" and w: "co_todo c = w # ws"
  shows "\<exists>k c' st' aid. (k = 1 \<or> k = 3) \<and> coordinator_steps creates k c st = (c', st') \<and> sane c' st' \<and> co_todo c' = ws
     \<and> co_plan c' = co_plan c \<and> co_map c' = AList.update (w_id w) aid (co_map c)
     \<and> bound st' (p_planId (co_plan c)) (w_id w) = Some aid
     \<and> (\<forall>pid wid a. bound st pid wid = Some a \<longrightarrow> bound st' pid wid = Some a)"
proof (cases "getByPlanAndWorkstream (p_planId (co_plan c)) (w_id w) (bs_bindings st)")
  case (Some b)
  then have "coordinator_steps creates 1 c st = (assigned (bi_assignmentId b) c, st)"
    using s w by (simp add: sane_def)
  moreover have "sane (assigned (bi_assignmentId b) c) st" using s w by (auto simp: sane_def assigned_def)
  ultimately show ?thesis using Some w
    by (intro exI [of _ 1] exI [of _ "assigned (bi_assignmentId b) c"] exI [of _ st] exI [of _ "bi_assignmentId b"])
      (simp add: assigned_def bound_def)
next
  case None
  obtain i ids where i: "co_ids c = i # ids" using s w by (cases "co_ids c") (auto simp: sane_def)
  define c1 where "c1 = c\<lparr>co_phase := Reserving i, co_ids := ids\<rparr>"
  have 1: "coordinator_step creates c st = (c1, st)" using s w None i by (simp add: sane_def c1_def)
  define b where "b = new_binding (binding_for c1 w i) (co_now c1)"
  define st1 where "st1 = st\<lparr>bs_bindings := bs_bindings st @ [b]\<rparr>"
  have fresh: "getByAssignmentId i (bs_bindings st) = None"
    using s i by (auto simp: sane_def getByAssignmentId_def find_None_iff_all)
  have e: "ensureBinding (binding_for c1 w i) (co_now c1) (bs_bindings st) = (Inr b, bs_bindings st @ [b])"
    using None fresh by (simp add: ensureBinding_def b_def binding_for_def c1_def)
  define c2 where "c2 = c1\<lparr>co_phase := Creating i\<rparr>"
  have 2: "coordinator_step creates c1 st = (c2, st1)"
    using e s w by (simp add: sane_def c1_def c2_def st1_def binding_for_def)
  have r: "br_assignmentId (binding_for c1 w i) = i" "br_planId (binding_for c1 w i) = p_planId (co_plan c)"
    "br_workstreamId (binding_for c1 w i) = w_id w" by (simp_all add: binding_for_def c1_def)
  have b1: "bound st1 pid wid = (if bound st pid wid = None \<and> pid = p_planId (co_plan c) \<and> wid = w_id w then Some i
      else bound st pid wid)" for pid wid
    using ensureBinding_bound [OF e, of pid wid] unfolding r st1_def by simp
  then have bw: "bound st1 (p_planId (co_plan c)) (w_id w) = Some i" using None by (simp add: bound_def)
  obtain done' st2 where create: "createAssignment creates (assignment_for c2 w i) st1 = (done', st2)"
    by (cases "createAssignment creates (assignment_for c2 w i) st1")
  then have st2: "bs_bindings st2 = bs_bindings st1" by (auto simp: createAssignment_def split: if_splits)
  obtain b' where b': "getByPlanAndWorkstream (p_planId (co_plan c)) (w_id w) (bs_bindings st2) = Some b'" "bi_assignmentId b' = i"
    using bw st2 by (auto simp: bound_def)
  have 3: "coordinator_step creates c2 st1 = (assigned i c2, st2)"
    using create b' s w by (cases done') (simp_all add: sane_def c1_def c2_def)
  have "coordinator_steps creates 3 c st = (assigned i c2, st2)"
    using 1 2 3 by (simp add: numeral_3_eq_3 del: coordinator_step.simps)
  moreover have "bi_assignmentId ` set (bs_bindings st2) = insert i (bi_assignmentId ` set (bs_bindings st))"
    using st2 by (simp add: st1_def b_def new_binding_def binding_for_def)
  then have "sane (assigned i c2) st2" using s w i by (auto simp: sane_def assigned_def c2_def c1_def)
  moreover have same: "bound st2 = bound st1" using st2 by (simp add: bound_def fun_eq_iff)
  ultimately show ?thesis using b1 bw w
    by (intro exI [of _ 3] exI [of _ "assigned i c2"] exI [of _ st2] exI [of _ i])
      (simp add: assigned_def c2_def c1_def same)
qed

lemma steps_add: "coordinator_steps creates (m + n) c st =
    (case coordinator_steps creates m c st of (c', st') \<Rightarrow> coordinator_steps creates n c' st')"
  by (induction m arbitrary: c st) (auto simp del: coordinator_step.simps split: prod.split)

lemma finished_steps: "co_todo c = [] \<Longrightarrow> coordinator_steps creates n c st = (c, st)"
  by (induction n) simp_all

lemma all_workstreams:
  assumes "sane c st" and "distinct (map w_id (co_todo c))" and "3 * length (co_todo c) \<le> n"
    and "\<forall>wid a. map_of (co_map c) wid = Some a \<longrightarrow> bound st (p_planId (co_plan c)) wid = Some a"
  shows "\<exists>c' st'. coordinator_steps creates n c st = (c', st') \<and> co_error c' = None
     \<and> (\<forall>w \<in> set (co_todo c). map_of (co_map c') (w_id w) = bound st' (p_planId (co_plan c)) (w_id w)
          \<and> bound st' (p_planId (co_plan c)) (w_id w) \<noteq> None)
     \<and> (\<forall>wid a. map_of (co_map c') wid = Some a \<longrightarrow> bound st' (p_planId (co_plan c)) wid = Some a)
     \<and> (\<forall>wid. wid \<notin> w_id ` set (co_todo c) \<longrightarrow> map_of (co_map c') wid = map_of (co_map c) wid)
     \<and> (\<forall>pid wid a. bound st pid wid = Some a \<longrightarrow> bound st' pid wid = Some a)"
  using assms
proof (induction "co_todo c" arbitrary: c st n)
  case Nil
  then show ?case using finished_steps [of c creates n st] by (auto simp: sane_def)
next
  case (Cons w ws)
  obtain k c1 st1 aid where k: "k = 1 \<or> k = 3" and 1: "coordinator_steps creates k c st = (c1, st1)" "sane c1 st1"
    "co_todo c1 = ws" "co_plan c1 = co_plan c" "co_map c1 = AList.update (w_id w) aid (co_map c)"
    "bound st1 (p_planId (co_plan c)) (w_id w) = Some aid"
    "\<forall>pid wid a. bound st pid wid = Some a \<longrightarrow> bound st1 pid wid = Some a"
    using one_workstream [OF Cons.prems(1) Cons.hyps(2) [symmetric], of creates] by (elim exE conjE) (rule that; assumption)
  have m1: "map_of (co_map c1) v = (if v = w_id w then Some aid else map_of (co_map c) v)" for v
    by (simp add: 1(5) update_conv')
  have todo: "co_todo c = w # ws" by (rule Cons.hyps(2) [symmetric])
  have "k \<le> 3" using k by auto
  have len: "3 + 3 * length ws \<le> n" using Cons.prems(3) unfolding todo by simp
  then have "3 * length (co_todo c1) \<le> n - k" using \<open>k \<le> 3\<close> unfolding 1(3) by linarith
  moreover have dist: "w_id w \<notin> w_id ` set ws" "distinct (map w_id (co_todo c1))"
    using Cons.prems(2) unfolding todo 1(3) by simp_all
  moreover have "\<forall>v a. map_of (co_map c1) v = Some a \<longrightarrow> bound st1 (p_planId (co_plan c1)) v = Some a"
  proof (intro allI impI)
    fix v a assume "map_of (co_map c1) v = Some a"
    then show "bound st1 (p_planId (co_plan c1)) v = Some a"
      using Cons.prems(4) 1(6,7) m1 [of v] unfolding 1(4) by (cases "v = w_id w") simp_all
  qed
  moreover note 1(2)
  ultimately obtain c2 st2 where 2: "coordinator_steps creates (n - k) c1 st1 = (c2, st2)" "co_error c2 = None"
    "\<forall>w \<in> set ws. map_of (co_map c2) (w_id w) = bound st2 (p_planId (co_plan c)) (w_id w)
          \<and> bound st2 (p_planId (co_plan c)) (w_id w) \<noteq> None"
    "\<forall>v a. map_of (co_map c2) v = Some a \<longrightarrow> bound st2 (p_planId (co_plan c)) v = Some a"
    "\<forall>v. v \<notin> w_id ` set ws \<longrightarrow> map_of (co_map c2) v = map_of (co_map c1) v"
    "\<forall>pid v a. bound st1 pid v = Some a \<longrightarrow> bound st2 pid v = Some a"
    using Cons.hyps(1) [OF 1(3) [symmetric] 1(2), of "n - k"] dist(2) unfolding 1(3,4) by blast
  have "n = k + (n - k)" using len \<open>k \<le> 3\<close> by linarith
  then have steps: "coordinator_steps creates n c st = (c2, st2)" using steps_add [of creates k "n - k" c st] 1(1) 2(1) by simp
  have mw: "map_of (co_map c2) (w_id w) = Some aid" using 2(5) dist(1) m1 by simp
  have bw: "bound st2 (p_planId (co_plan c)) (w_id w) = Some aid" using 2(6) 1(6) by blast
  have "map_of (co_map c2) (w_id v) = bound st2 (p_planId (co_plan c)) (w_id v)
      \<and> bound st2 (p_planId (co_plan c)) (w_id v) \<noteq> None" if "v \<in> set (w # ws)" for v
    using that mw bw 2(3) by (cases "v \<in> set ws") simp_all
  moreover have "map_of (co_map c2) v = map_of (co_map c) v" if "v \<notin> w_id ` set (w # ws)" for v
    using that 2(5) m1 by simp
  ultimately show ?case using steps 2(2,4,6) 1(7) unfolding todo by blast
qed

definition fresh_ids :: "string list \<Rightarrow> plan \<Rightarrow> bind_store \<Rightarrow> bool" where
  "fresh_ids ids p st \<longleftrightarrow> length (p_workstreams p) \<le> length ids \<and> distinct ids
     \<and> set ids \<inter> bi_assignmentId ` set (bs_bindings st) = {}"

lemma ensureAssignments_runs:
  assumes "fresh_ids ids p st" and "distinct (map w_id (p_workstreams p))"
  shows "\<exists>m st'. ensureAssignments creates p corr now ids st = (Inr m, st')
     \<and> (\<forall>w \<in> set (p_workstreams p). map_of m (w_id w) = bound st' (p_planId p) (w_id w) \<and> bound st' (p_planId p) (w_id w) \<noteq> None)
     \<and> (\<forall>wid. wid \<notin> w_id ` set (p_workstreams p) \<longrightarrow> map_of m wid = None)
     \<and> (\<forall>pid wid a. bound st pid wid = Some a \<longrightarrow> bound st' pid wid = Some a)"
proof -
  let ?c = "coordinator_start p corr now ids"
  have c: "co_todo ?c = p_workstreams p" "co_plan ?c = p" "co_map ?c = []" by (simp_all add: coordinator_start_def)
  have "sane ?c st" using assms(1) by (simp add: sane_def coordinator_start_def fresh_ids_def)
  from all_workstreams [OF this, of "3 * length (p_workstreams p)" creates, unfolded c] assms(2)
  obtain c' st' where 1: "coordinator_steps creates (3 * length (p_workstreams p)) ?c st = (c', st')" "co_error c' = None"
    and 2: "\<forall>w \<in> set (p_workstreams p). map_of (co_map c') (w_id w) = bound st' (p_planId p) (w_id w)
        \<and> bound st' (p_planId p) (w_id w) \<noteq> None"
      "\<forall>wid. wid \<notin> w_id ` set (p_workstreams p) \<longrightarrow> map_of (co_map c') wid = None"
      "\<forall>pid wid a. bound st pid wid = Some a \<longrightarrow> bound st' pid wid = Some a"
    by (auto simp del: coordinator_steps.simps)
  have "ensureAssignments creates p corr now ids st = (Inr (co_map c'), st')"
    using 1 by (simp add: ensureAssignments_def)
  then show ?thesis using 2 by blast
qed

lemma steps_ok: "bindings_ok (bs_bindings st) \<Longrightarrow> bindings_ok (bs_bindings (snd (coordinator_steps creates n c st)))"
proof (induction n arbitrary: c st)
  case (Suc n)
  show ?case using Suc.IH [OF step_ok [OF Suc.prems, of creates c]]
    by (cases "coordinator_step creates c st") (simp del: coordinator_step.simps)
qed simp

lemma ensureAssignments_ok:
  "bindings_ok (bs_bindings st) \<Longrightarrow> bindings_ok (bs_bindings (snd (ensureAssignments creates p corr now ids st)))"
  using steps_ok [of st creates "3 * length (p_workstreams p)" "coordinator_start p corr now ids"]
  by (simp add: ensureAssignments_def split_beta)

text \<open>The assignments of a plan are stable across restarts. \<open>ensureAssignments\<close>, with fresh ids and no
  other coordinator, returns for exactly the workstreams of the plan the assignment each is bound to, whatever the
  service answers; and a later call - a recovery, with other ids - returns the same map, even when other
  coordinators have run in between.\<close>

theorem assignments_stable:
  assumes "distinct (map w_id (p_workstreams p))" and "fresh_ids ids p st" and "bindings_ok (bs_bindings st)"
    and "ensureAssignments creates p corr now ids st = (r, st1)"
    and "snd (interleaved creates is cs st1) = st2" and "fresh_ids ids' p st2"
    and "ensureAssignments creates' p corr' now' ids' st2 = (r', st3)"
  shows "\<exists>m m'. r = Inr m \<and> r' = Inr m' \<and> map_of m = map_of m'
     \<and> (\<forall>w \<in> set (p_workstreams p). map_of m (w_id w) = bound st1 (p_planId p) (w_id w) \<and> bound st1 (p_planId p) (w_id w) \<noteq> None)"
proof -
  obtain m where m: "r = Inr m"
    "\<forall>w \<in> set (p_workstreams p). map_of m (w_id w) = bound st1 (p_planId p) (w_id w) \<and> bound st1 (p_planId p) (w_id w) \<noteq> None"
    "\<forall>wid. wid \<notin> w_id ` set (p_workstreams p) \<longrightarrow> map_of m wid = None"
    using ensureAssignments_runs [OF assms(2,1), of creates corr now] assms(4) by auto
  obtain m' where m': "r' = Inr m'"
    "\<forall>w \<in> set (p_workstreams p). map_of m' (w_id w) = bound st3 (p_planId p) (w_id w)"
    "\<forall>wid. wid \<notin> w_id ` set (p_workstreams p) \<longrightarrow> map_of m' wid = None"
    "\<forall>pid wid a. bound st2 pid wid = Some a \<longrightarrow> bound st3 pid wid = Some a"
    using ensureAssignments_runs [OF assms(6,1), of creates' corr' now'] assms(7) by auto
  have "bindings_ok (bs_bindings st1)" using ensureAssignments_ok [OF assms(3), of creates p corr now ids] assms(4) by simp
  then have kept: "bound st2 pid wid = Some a" if "bound st1 pid wid = Some a" for pid wid a
    using interleaved_keeps [of st1 creates "is" cs pid wid a] assms(5) that by simp
  have "map_of m wid = map_of m' wid" for wid
  proof (cases "wid \<in> w_id ` set (p_workstreams p)")
    case True
    then obtain w where w: "w \<in> set (p_workstreams p)" "w_id w = wid" by blast
    then obtain a where "bound st1 (p_planId p) wid = Some a" using m(2) by auto
    then show ?thesis using kept m(2) m'(2,4) w by metis
  qed (use m(3) m'(3) in simp)
  then show ?thesis using m(1,2) m'(1) by (intro exI [of _ m] exI [of _ m']) (simp add: fun_eq_iff)
qed

section \<open>Races and crashes\<close>

text \<open>Two coordinators that race for one workstream do not agree. When both have looked before either has
  reserved, the second one's reservation returns the first one's binding, but it goes on with its own id: two
  assignments are created for the workstream, and the second coordinator returns one that nothing is bound to.\<close>

theorem racing_coordinators_disagree:
  assumes "p_workstreams p = [w]" and "bound st (p_planId p) (w_id w) = None" and "i \<noteq> j"
    and "getByAssignmentId i (bs_bindings st) = None" and "creates i" "creates j"
    and "i \<notin> na_id ` set (bs_assignments st)" "j \<notin> na_id ` set (bs_assignments st)"
  shows "\<exists>c d st'. interleaved creates [0, 1, 0, 1, 0, 1] [coordinator_start p corr now (i # is), coordinator_start p corr' now' (j # js)] st
       = ([c, d], st')
     \<and> bound st' (p_planId p) (w_id w) = Some i \<and> co_map c = [(w_id w, i)] \<and> co_map d = [(w_id w, j)]
     \<and> co_error d = None
     \<and> map na_id (bs_assignments st') = map na_id (bs_assignments st) @ [i, j]
     \<and> map na_workstreamId (bs_assignments st') = map na_workstreamId (bs_assignments st) @ [w_id w, w_id w]"
proof -
  have none: "getByPlanAndWorkstream (p_planId p) (w_id w) (bs_bindings st) = None" using assms(2) by (simp add: bound_def)
  have app: "List.find P (xs @ [x]) = (case List.find P xs of None \<Rightarrow> if P x then Some x else None | Some y \<Rightarrow> Some y)"
    for P and xs :: "binding list" and x by (induction xs) simp_all
  have found: "getByPlanAndWorkstream (p_planId p) (w_id w) (bs_bindings st @ [b]) = Some b"
    if "bi_planId b = p_planId p" "bi_workstreamId b = w_id w" for b
    using none that by (simp add: getByPlanAndWorkstream_def app)
  show ?thesis
    using assms none
    by (simp add: coordinator_start_def ensureBinding_def binding_for_def new_binding_def found createAssignment_def
        assignment_for_def assigned_def bound_def)
qed

text \<open>The ids a coordinator may still use, and that it has enough of them.\<close>

definition may_use :: "coordinator \<Rightarrow> string set" where
  "may_use c = set (co_ids c) \<union> (case co_phase c of Looking \<Rightarrow> {} | Reserving i \<Rightarrow> {i} | Creating i \<Rightarrow> {i})"

definition supplied :: "coordinator \<Rightarrow> bool" where
  "supplied c \<longleftrightarrow> length (co_todo c) \<le> length (co_ids c) + (if co_phase c = Looking then 0 else 1)"

lemma step_creates:
  assumes "coordinator_step creates c st = (c', st')" and "supplied c"
  shows "supplied c' \<and> may_use c' \<subseteq> may_use c
     \<and> na_id ` set (bs_assignments st') \<subseteq> na_id ` set (bs_assignments st) \<union> may_use c"
proof (cases "co_todo c")
  case (Cons w ws)
  show ?thesis
  proof (cases "co_error c = None")
    case True
    show ?thesis
    proof (cases "co_phase c")
      case Looking
      then obtain i ids where "co_ids c = i # ids" using assms(2) Cons by (cases "co_ids c") (auto simp: supplied_def)
      then show ?thesis using assms True Cons Looking
        by (auto simp: supplied_def may_use_def assigned_def split: option.splits)
    next
      case (Reserving i)
      then show ?thesis using assms True Cons
        by (auto simp: supplied_def may_use_def ensureBinding_def split: option.splits if_splits)
    next
      case (Creating i)
      then show ?thesis using assms True Cons
        by (auto simp: supplied_def may_use_def assigned_def createAssignment_def assignment_for_def split: option.splits if_splits)
    qed
  qed (use assms Cons in auto)
qed (use assms in auto)

lemma steps_create:
  "supplied c \<Longrightarrow> na_id ` set (bs_assignments (snd (coordinator_steps creates n c st)))
     \<subseteq> na_id ` set (bs_assignments st) \<union> may_use c"
proof (induction n arbitrary: c st)
  case (Suc n)
  obtain c' st' where s: "coordinator_step creates c st = (c', st')" by (cases "coordinator_step creates c st")
  note k = step_creates [OF s Suc.prems]
  have "na_id ` set (bs_assignments (snd (coordinator_steps creates n c' st')))
      \<subseteq> na_id ` set (bs_assignments st') \<union> may_use c'" by (rule Suc.IH) (use k in blast)
  then show ?case using k s by (simp del: coordinator_step.simps) blast
qed simp

text \<open>A crash between the reservation and the creation loses the assignment. When a workstream is bound to an
  assignment that was never created, every later \<open>ensureAssignments\<close> of its plan succeeds and returns that
  assignment, and still nobody creates it.\<close>

theorem reserved_assignment_never_created:
  assumes "bound st (p_planId p) (w_id w) = Some a" and "w \<in> set (p_workstreams p)"
    and "a \<notin> na_id ` set (bs_assignments st)" and "a \<notin> set ids"
    and "fresh_ids ids p st" and "distinct (map w_id (p_workstreams p))"
  shows "\<exists>m st'. ensureAssignments creates p corr now ids st = (Inr m, st') \<and> map_of m (w_id w) = Some a
     \<and> a \<notin> na_id ` set (bs_assignments st')"
proof -
  obtain m st' where m: "ensureAssignments creates p corr now ids st = (Inr m, st')"
    "\<forall>w \<in> set (p_workstreams p). map_of m (w_id w) = bound st' (p_planId p) (w_id w)"
    "\<forall>pid wid a. bound st pid wid = Some a \<longrightarrow> bound st' pid wid = Some a"
    using ensureAssignments_runs [OF assms(5,6), of creates corr now] by blast
  let ?c = "coordinator_start p corr now ids"
  have "supplied ?c" "may_use ?c = set ids"
    using assms(5) by (simp_all add: supplied_def may_use_def coordinator_start_def fresh_ids_def)
  then have "na_id ` set (bs_assignments (snd (ensureAssignments creates p corr now ids st)))
      \<subseteq> na_id ` set (bs_assignments st) \<union> set ids"
    using steps_create [of ?c creates "3 * length (p_workstreams p)" st] by (simp add: ensureAssignments_def split_beta)
  then have "a \<notin> na_id ` set (bs_assignments st')" using assms(3,4) m(1) by auto
  then show ?thesis using m assms(1,2) by auto
qed

section \<open>Evaluated on the sample plan\<close>

definition one_step :: plan where
  "one_step = sample_plan [sample_workstream ''a'' [] [''src/a''] WPlanned]"

definition no_bindings :: bind_store where
  "no_bindings = \<lparr>bs_bindings = [], bs_assignments = []\<rparr>"

theorem bindings_unique_and_stable_witness:
  "bindings_ok (bs_bindings (snd (interleaved (\<lambda>_. True) [0, 1, 0, 1, 0, 1]
      [coordinator_start one_step ''c'' ''t'' [''i''], coordinator_start one_step ''c'' ''t'' [''j'']] no_bindings)))"
  by (rule bindings_unique_and_stable [THEN conjunct1]) (simp add: bindings_ok_def no_bindings_def)

theorem assignments_stable_witness:
  "\<exists>m st1 st3. ensureAssignments (\<lambda>_. True) two_steps ''c'' ''t'' [''i'', ''j''] no_bindings = (Inr m, st1)
     \<and> ensureAssignments (\<lambda>_. False) two_steps ''c'' ''t'' [''k'', ''l''] st1 = (Inr m, st3)"
proof -
  obtain r st1 where 1: "ensureAssignments (\<lambda>_. True) two_steps ''c'' ''t'' [''i'', ''j''] no_bindings = (r, st1)" by fastforce
  obtain r' st3 where 2: "ensureAssignments (\<lambda>_. False) two_steps ''c'' ''t'' [''k'', ''l''] st1 = (r', st3)" by fastforce
  have d: "distinct (map w_id (p_workstreams two_steps))" by code_simp
  have f: "fresh_ids [''i'', ''j''] two_steps no_bindings"
    by (simp add: fresh_ids_def no_bindings_def two_steps_def sample_plan_def)
  have "st1 = snd (ensureAssignments (\<lambda>_. True) two_steps ''c'' ''t'' [''i'', ''j''] no_bindings)" using 1 by simp
  moreover have "fresh_ids [''k'', ''l''] two_steps (snd (ensureAssignments (\<lambda>_. True) two_steps ''c'' ''t'' [''i'', ''j''] no_bindings))"
    unfolding fresh_ids_def by (intro conjI; code_simp)
  ultimately have g: "fresh_ids [''k'', ''l''] two_steps st1" by simp
  have ok: "bindings_ok (bs_bindings no_bindings)" by (simp add: bindings_ok_def no_bindings_def)
  have "snd (interleaved (\<lambda>_. True) [] [] st1) = st1" by simp
  from assignments_stable [OF d f ok 1 this g 2] obtain m m' where "r = Inr m" "r' = Inr m'" "map_of m = map_of m'" by blast
  moreover have "r = r'"
  proof -
    have "r = fst (ensureAssignments (\<lambda>_. True) two_steps ''c'' ''t'' [''i'', ''j''] no_bindings)" using 1 by simp
    moreover have "r' = fst (ensureAssignments (\<lambda>_. False) two_steps ''c'' ''t'' [''k'', ''l'']
        (snd (ensureAssignments (\<lambda>_. True) two_steps ''c'' ''t'' [''i'', ''j''] no_bindings)))" using 1 2 by simp
    ultimately show ?thesis by simp code_simp
  qed
  ultimately show ?thesis using 1 2 by auto
qed

theorem racing_coordinators_disagree_witness:
  "\<exists>d st'. snd (interleaved (\<lambda>_. True) [0, 1, 0, 1, 0, 1]
      [coordinator_start one_step ''c'' ''t'' [''i''], coordinator_start one_step ''c'' ''t'' [''j'']] no_bindings) = st'
     \<and> bound st' ''plan'' ''a'' = Some ''i'' \<and> map na_id (bs_assignments st') = [''i'', ''j'']"
proof -
  have w: "p_workstreams one_step = [sample_workstream ''a'' [] [''src/a''] WPlanned]" "p_planId one_step = ''plan''"
    "w_id (sample_workstream ''a'' [] [''src/a''] WPlanned) = ''a''"
    by (simp_all add: one_step_def sample_plan_def sample_workstream_def)
  from racing_coordinators_disagree [OF w(1), of no_bindings "''i''" "''j''" "\<lambda>_. True" "''c''" "''t''" "[]" "''c''" "''t''" "[]"]
  show ?thesis unfolding w by (auto simp: no_bindings_def bound_def getByPlanAndWorkstream_def getByAssignmentId_def)
qed

theorem reserved_assignment_never_created_witness:
  "\<exists>m st'. ensureAssignments (\<lambda>_. True) one_step ''c'' ''t'' [''j'']
      (no_bindings\<lparr>bs_bindings := [new_binding (binding_for (coordinator_start one_step ''c'' ''t'' [])
         (sample_workstream ''a'' [] [''src/a''] WPlanned) ''i'') ''t'']\<rparr>) = (Inr m, st')
     \<and> map_of m ''a'' = Some ''i'' \<and> ''i'' \<notin> na_id ` set (bs_assignments st')"
  using reserved_assignment_never_created [of "no_bindings\<lparr>bs_bindings := [new_binding (binding_for (coordinator_start one_step ''c'' ''t'' [])
         (sample_workstream ''a'' [] [''src/a''] WPlanned) ''i'') ''t'']\<rparr>" one_step "sample_workstream ''a'' [] [''src/a''] WPlanned" "''i''"
      "[''j'']" "\<lambda>_. True" "''c''" "''t''"]
  by (simp add: one_step_def sample_plan_def sample_workstream_def bound_def getByPlanAndWorkstream_def new_binding_def
      binding_for_def coordinator_start_def no_bindings_def fresh_ids_def)

end
