(* ===== verification/Delivery.thy ===== *)
theory Delivery
  imports Ledger
begin

text \<open>
  The durable delivery of events: the rows of \<open>event_outbox\<close>, the sink that claims them under a lease,
  delivers, fails and requeues them (\<open>persistence/adapters/sqlite-delivery-sink.ts\<close>), the tables of
  deliveries and dead letters it fills, and the worker that publishes claimed entries on the bus
  (\<open>services/outbox-worker.ts\<close>).

  The column \<open>last_error\<close> holds an error text or the JSON of a lease; here it is the one or the other.
  The clock is in milliseconds, leases are in seconds. Rows with one \<open>created_ts\<close> keep the order of
  their insertion. What the subscribers of the bus answer and random ids are arguments.
\<close>

section \<open>Rows\<close>

datatype stored_text = Stored json | Unparsable string

datatype last_error =
    ErrorText string
  | SinkLease string int
  | RepositoryLease string int

record delivery_row =
  ox_id :: string
  ox_eventId :: string
  ox_eventType :: string
  ox_source :: string
  ox_data :: stored_text
  ox_key :: string
  ox_aggregateId :: string
  ox_status :: outbox_status
  ox_retryCount :: int
  ox_lastError :: "last_error option"
  ox_createdTs :: int

text \<open>How the row that the transactional writer inserts looks to the sink.\<close>

definition as_inserted :: "outbox_row \<Rightarrow> delivery_row" where
  "as_inserted r =
     \<lparr>ox_id = ob_id r, ox_eventId = ob_eventId r, ox_eventType = ob_eventType r, ox_source = ob_sourceComponent r,
      ox_data = Stored (ob_data r), ox_key = ob_idempotencyKey r, ox_aggregateId = ob_aggregateId r,
      ox_status = ob_status r, ox_retryCount = ob_retryCount r, ox_lastError = None,
      ox_createdTs = ob_createdTs r\<rparr>"

fun lease_until :: "last_error option \<Rightarrow> int option" where
  "lease_until (Some (SinkLease w u)) = Some u"
| "lease_until (Some (RepositoryLease w u)) = Some u"
| "lease_until _ = None"

text \<open>A lease is a lease for the reader; \<open>parsed.workerId ?? "unknown"\<close>. Any other text is an error.\<close>

fun lease_info :: "last_error option \<Rightarrow> (string \<times> int) option" where
  "lease_info (Some (SinkLease w u)) = Some (w, u)"
| "lease_info (Some (RepositoryLease w u)) = Some (''unknown'', u)"
| "lease_info _ = None"

fun error_text :: "last_error option \<Rightarrow> string option" where
  "error_text (Some (ErrorText s)) = (if s = [] then None else Some s)"
| "error_text _ = None"

fun payload_of :: "stored_text \<Rightarrow> json" where
  "payload_of (Stored j) = j"
| "payload_of (Unparsable s) = (if s = [] then JObj [] else JObj [(''raw'', JStr s)])"

record delivery_record =
  rc_id :: string
  rc_eventId :: string
  rc_eventType :: string
  rc_destination :: "string option"
  rc_payload :: json
  rc_correlationId :: string
  rc_aggregateId :: "string option"
  rc_status :: outbox_status
  rc_attemptCount :: int
  rc_maxRetries :: int
  rc_lastError :: "string option"
  rc_idempotencyKey :: "string option"
  rc_lease :: "(string \<times> int) option"
  rc_createdAt :: int

definition rowToRecord :: "delivery_row \<Rightarrow> delivery_record" where
  "rowToRecord r =
     \<lparr>rc_id = ox_id r, rc_eventId = ox_eventId r, rc_eventType = ox_eventType r, rc_destination = Some (ox_source r),
      rc_payload = payload_of (ox_data r), rc_correlationId = ox_key r, rc_aggregateId = Some (ox_aggregateId r),
      rc_status = ox_status r, rc_attemptCount = ox_retryCount r, rc_maxRetries = 3,
      rc_lastError = error_text (ox_lastError r), rc_idempotencyKey = Some (ox_key r),
      rc_lease = lease_info (ox_lastError r), rc_createdAt = ox_createdTs r * 1000\<rparr>"

section \<open>The sink\<close>

text \<open>A negative LIMIT is no limit.\<close>

definition sql_limit :: "int \<Rightarrow> 'a list \<Rightarrow> 'a list" where
  "sql_limit n xs = (if n < 0 then xs else take (nat n) xs)"

definition seconds :: "int \<Rightarrow> int" where
  "seconds ms = ms div 1000"

definition lease_expired :: "int \<Rightarrow> delivery_row \<Rightarrow> bool" where
  "lease_expired now r \<longleftrightarrow> ox_status r = ObDelivering
     \<and> (case lease_until (ox_lastError r) of Some u \<Rightarrow> u < now | None \<Rightarrow> False)"

definition is_due :: "int \<Rightarrow> delivery_row \<Rightarrow> bool" where
  "is_due now r \<longleftrightarrow> ox_status r = ObPending \<or> lease_expired now r"

definition due_rows :: "int \<Rightarrow> int \<Rightarrow> delivery_row list \<Rightarrow> delivery_row list" where
  "due_rows now batch rows = sql_limit batch (sort_key ox_createdTs (filter (is_due now) rows))"

definition take_lease :: "last_error \<Rightarrow> string set \<Rightarrow> delivery_row \<Rightarrow> delivery_row" where
  "take_lease info ids r = (if ox_id r \<in> ids then r\<lparr>ox_status := ObDelivering, ox_lastError := Some info\<rparr> else r)"

definition held_under :: "last_error \<Rightarrow> delivery_row \<Rightarrow> bool" where
  "held_under info r \<longleftrightarrow> ox_status r = ObDelivering \<and> ox_lastError r = Some info"

definition claimDue :: "string \<Rightarrow> int \<Rightarrow> int \<Rightarrow> int \<Rightarrow> delivery_row list \<Rightarrow> delivery_record list \<times> delivery_row list" where
  "claimDue worker batch leaseSeconds ms rows =
     (let now = seconds ms; info = SinkLease worker (now + leaseSeconds);
          rows' = map (take_lease info (ox_id ` set (due_rows now batch rows))) rows
      in (map rowToRecord (sort_key ox_createdTs (filter (held_under info) rows')), rows'))"

definition markDelivered :: "string \<Rightarrow> string option \<Rightarrow> delivery_row list \<Rightarrow> bool \<times> delivery_row list" where
  "markDelivered i key rows =
     (if truthy key \<and> list_ex (\<lambda>r. ox_id r = i \<and> Some (ox_key r) = key \<and> ox_status r = ObDelivered) rows
      then (True, rows)
      else (list_ex (\<lambda>r. ox_id r = i \<and> ox_status r = ObDelivering) rows,
            map (\<lambda>r. if ox_id r = i \<and> ox_status r = ObDelivering then r\<lparr>ox_status := ObDelivered\<rparr> else r) rows))"

definition markFailed :: "string \<Rightarrow> int \<Rightarrow> string \<Rightarrow> int \<Rightarrow> delivery_row list \<Rightarrow> delivery_row list" where
  "markFailed i attempts err maxRetries rows =
     map (\<lambda>r. if ox_id r = i
        then r\<lparr>ox_status := (if attempts \<ge> maxRetries then ObFailed else ObPending), ox_retryCount := attempts,
               ox_lastError := Some (ErrorText err)\<rparr>
        else r) rows"

definition requeueExpiredLeases :: "int \<Rightarrow> delivery_row list \<Rightarrow> nat \<times> delivery_row list" where
  "requeueExpiredLeases now rows =
     (length (filter (lease_expired now) rows),
      map (\<lambda>r. if lease_expired now r
        then r\<lparr>ox_status := ObPending, ox_lastError := Some (ErrorText ''lease-expired-requeued'')\<rparr> else r) rows)"

definition countByStatus :: "outbox_status \<Rightarrow> delivery_row list \<Rightarrow> nat" where
  "countByStatus s rows = length (filter (\<lambda>r. ox_status r = s) rows)"

section \<open>Deliveries and dead letters\<close>

record delivery_line =
  dv_id :: string
  dv_outboxId :: string
  dv_subscriberId :: string
  dv_state :: string
  dv_attempts :: int
  dv_lastError :: "string option"
  dv_lastErrorAt :: "int option"
  dv_deliveredAt :: "int option"
  dv_key :: string
  dv_createdTs :: int

record dead_letter =
  dq_id :: string
  dq_deliveryId :: string
  dq_eventId :: string
  dq_subscriberId :: string
  dq_payload :: json
  dq_history :: "string list"
  dq_finalError :: string
  dq_createdTs :: int

record sink_db =
  sk_outbox :: "delivery_row list"
  sk_events :: "ledger_event list"
  sk_subscribers :: "(string \<times> string) list"
  sk_deliveries :: "delivery_line list"
  sk_deadLetters :: "dead_letter list"

text \<open>A subscriber is found by its id or its name, and made when there is none.\<close>

definition ensureSubscriber :: "string \<Rightarrow> sink_db \<Rightarrow> string \<times> sink_db" where
  "ensureSubscriber nm db =
     (case List.find (\<lambda>(i, n). i = nm \<or> n = nm) (sk_subscribers db) of
        Some (i, n) \<Rightarrow> (i, db)
      | None \<Rightarrow> (nm, db\<lparr>sk_subscribers := sk_subscribers db @ [(nm, nm)]\<rparr>))"

definition dummy_event :: "int \<Rightarrow> string \<Rightarrow> ledger_event" where
  "dummy_event now i =
     \<lparr>le_eventId = i, le_eventType = ''dummy.type'', le_causationId = None, le_correlationId = None,
      le_aggregateType = ''dummy'', le_aggregateId = i, le_aggregateVersion = 1, le_data = JObj [],
      le_metadata = JObj [], le_createdTs = now\<rparr>"

definition add_dummy_event :: "int \<Rightarrow> string \<Rightarrow> sink_db \<Rightarrow> sink_db" where
  "add_dummy_event now i db =
     (if list_ex (\<lambda>e. le_eventId e = i \<or> le_aggregateType e = ''dummy'' \<and> le_aggregateId e = i \<and> le_aggregateVersion e = 1)
           (sk_events db)
      then db else db\<lparr>sk_events := sk_events db @ [dummy_event now i]\<rparr>)"

definition dummy_entry :: "int \<Rightarrow> string \<Rightarrow> string \<Rightarrow> delivery_row" where
  "dummy_entry now i ev =
     \<lparr>ox_id = i, ox_eventId = ev, ox_eventType = ''dummy.type'', ox_source = ''dummy'', ox_data = Stored (JObj []),
      ox_key = ''key-'' @ i, ox_aggregateId = i, ox_status = ObPending, ox_retryCount = 0, ox_lastError = None,
      ox_createdTs = now\<rparr>"

text \<open>The insertion ignores a taken key; a missing event is an error all the same.\<close>

definition ensureEventAndOutbox :: "int \<Rightarrow> string \<Rightarrow> sink_db \<Rightarrow> repo_error + ((string \<times> string) \<times> sink_db)" where
  "ensureEventAndOutbox now x db =
     (case List.find (\<lambda>r. ox_id r = x \<or> ox_eventId r = x) (sk_outbox db) of
        Some r \<Rightarrow> Inr ((ox_id r, ox_eventId r), add_dummy_event now (ox_eventId r) db)
      | None \<Rightarrow>
          (let ev = (if starts_with x ''evt-'' then x else ''evt-'' @ x); db1 = add_dummy_event now ev db in
           if list_ex (\<lambda>r. ox_id r = x \<or> ox_key r = ''key-'' @ x) (sk_outbox db1) then Inr ((x, ev), db1)
           else if \<not> list_ex (\<lambda>e. le_eventId e = ev) (sk_events db1) then Inl ConstraintFailed
           else Inr ((x, ev), db1\<lparr>sk_outbox := sk_outbox db1 @ [dummy_entry now x ev]\<rparr>)))"

definition delivery_states :: "string list" where
  "delivery_states = [''pending'', ''delivering'', ''delivered'', ''failed'', ''dead_letter'']"

definition find_delivery :: "string \<Rightarrow> string \<Rightarrow> sink_db \<Rightarrow> delivery_line option" where
  "find_delivery oid sid db = List.find (\<lambda>d. dv_outboxId d = oid \<and> dv_subscriberId d = sid) (sk_deliveries db)"

definition insert_delivery :: "delivery_line \<Rightarrow> sink_db \<Rightarrow> repo_error + sink_db" where
  "insert_delivery d db =
     (if dv_state d \<notin> set delivery_states
         \<or> list_ex (\<lambda>x. dv_id x = dv_id d \<or> dv_key x = dv_key d
              \<or> dv_outboxId x = dv_outboxId d \<and> dv_subscriberId x = dv_subscriberId d) (sk_deliveries db)
         \<or> \<not> list_ex (\<lambda>r. ox_id r = dv_outboxId d) (sk_outbox db)
         \<or> \<not> list_ex (\<lambda>(i, n). i = dv_subscriberId d) (sk_subscribers db)
      then Inl ConstraintFailed else Inr (db\<lparr>sk_deliveries := sk_deliveries db @ [d]\<rparr>))"

definition update_delivery :: "string \<Rightarrow> (delivery_line \<Rightarrow> delivery_line) \<Rightarrow> sink_db \<Rightarrow> repo_error + sink_db" where
  "update_delivery i f db =
     (if list_ex (\<lambda>d. dv_id d = i \<and> dv_state (f d) \<notin> set delivery_states) (sk_deliveries db) then Inl ConstraintFailed
      else Inr (db\<lparr>sk_deliveries := map (\<lambda>d. if dv_id d = i then f d else d) (sk_deliveries db)\<rparr>))"

definition recordDelivery ::
    "string \<Rightarrow> int \<Rightarrow> string \<Rightarrow> string \<Rightarrow> string \<Rightarrow> int \<Rightarrow> string option \<Rightarrow> sink_db \<Rightarrow> repo_error + sink_db" where
  "recordDelivery uuid ms eventId dest state attempt err db =
     (let (sid, db1) = ensureSubscriber dest db; now = seconds ms;
          delivered = (if state = ''delivered'' then Some ms else None);
          errorAt = (if truthy err then Some ms else None) in
      case ensureEventAndOutbox now eventId db1 of
        Inl e \<Rightarrow> Inl e
      | Inr ((oid, ev), db2) \<Rightarrow>
          (case find_delivery oid sid db2 of
             Some d \<Rightarrow> update_delivery (dv_id d)
               (\<lambda>d. d\<lparr>dv_state := state, dv_attempts := attempt, dv_lastError := nullish_opt err (dv_lastError d),
                      dv_lastErrorAt := nullish_opt errorAt (dv_lastErrorAt d),
                      dv_deliveredAt := nullish_opt delivered (dv_deliveredAt d)\<rparr>) db2
           | None \<Rightarrow> insert_delivery
               \<lparr>dv_id = uuid, dv_outboxId = oid, dv_subscriberId = sid, dv_state = state, dv_attempts = attempt,
                dv_lastError = err, dv_lastErrorAt = errorAt, dv_deliveredAt = delivered,
                dv_key = ''delivery-'' @ uuid, dv_createdTs = now\<rparr> db2))"

definition insert_dead_letter :: "dead_letter \<Rightarrow> sink_db \<Rightarrow> repo_error + sink_db" where
  "insert_dead_letter q db =
     (if list_ex (\<lambda>x. dq_id x = dq_id q) (sk_deadLetters db)
         \<or> \<not> list_ex (\<lambda>d. dv_id d = dq_deliveryId q) (sk_deliveries db)
         \<or> \<not> list_ex (\<lambda>e. le_eventId e = dq_eventId q) (sk_events db)
      then Inl ConstraintFailed else Inr (db\<lparr>sk_deadLetters := sk_deadLetters db @ [q]\<rparr>))"

text \<open>The delivery of a dead letter is marked, or made when there is none.\<close>

definition dead_delivery ::
    "string \<Rightarrow> int \<Rightarrow> string \<Rightarrow> string \<Rightarrow> string \<Rightarrow> sink_db \<Rightarrow> repo_error + (string \<times> sink_db)" where
  "dead_delivery uuid now oid sid reason db =
     (case find_delivery oid sid db of
        Some d \<Rightarrow> map_sum id (Pair (dv_id d))
          (update_delivery (dv_id d) (\<lambda>d. d\<lparr>dv_state := ''dead_letter'', dv_lastError := Some reason\<rparr>) db)
      | None \<Rightarrow> map_sum id (Pair uuid)
          (insert_delivery
             \<lparr>dv_id = uuid, dv_outboxId = oid, dv_subscriberId = sid, dv_state = ''dead_letter'', dv_attempts = 1,
              dv_lastError = Some reason, dv_lastErrorAt = None, dv_deliveredAt = None,
              dv_key = ''dl-delivery-'' @ uuid, dv_createdTs = now\<rparr> db))"

text \<open>Both ids are random: \<open>ids 0\<close> of the delivery, \<open>ids 1\<close> of the dead letter.\<close>

definition recordDeadLetter ::
    "(nat \<Rightarrow> string) \<Rightarrow> int \<Rightarrow> string \<Rightarrow> string \<Rightarrow> string \<Rightarrow> string option \<Rightarrow> json \<Rightarrow> sink_db \<Rightarrow> repo_error + sink_db" where
  "recordDeadLetter ids ms eventId dest reason err payload db =
     (let (sid, db1) = ensureSubscriber dest db; now = seconds ms in
      case ensureEventAndOutbox now eventId db1 of
        Inl e \<Rightarrow> Inl e
      | Inr ((oid, ev), db2) \<Rightarrow>
          (case dead_delivery (ids 0) now oid sid reason db2 of
             Inl e \<Rightarrow> Inl e
           | Inr (did, db3) \<Rightarrow>
               insert_dead_letter
                 \<lparr>dq_id = ids 1, dq_deliveryId = did, dq_eventId = ev, dq_subscriberId = sid, dq_payload = payload,
                  dq_history = (if truthy err then [nullish err []] else [reason]),
                  dq_finalError = reason, dq_createdTs = now\<rparr> db3))"

end
