(* ===== verification/Outbox_Worker.thy ===== *)
theory Outbox_Worker
  imports Delivery
begin

text \<open>
  The outbox worker (\<open>services/outbox-worker.ts\<close>), step by step. A batch claims, and then publishes
  and settles one entry after the other; between two awaits other workers and processes act on the same
  rows, so a worker's step is one such stretch: the claim, the publication of the next entry or its
  failure, the settlement of a published entry, the end of the batch. Workers that crash lose what they hold.
  Publications are kept in a log.
\<close>

section \<open>Events of entries\<close>

definition isDecodeError :: "string \<Rightarrow> bool" where
  "isDecodeError message = list_ex (str_includes (lower_case message))
     [''decode'', ''unexpected token'', ''json'', ''parse'', ''malformed'', ''unexpected end'']"

text \<open>A payload that is itself a text is parsed (\<open>parse\<close> is \<open>JSON.parse\<close>, an error carries its message).\<close>

definition event_payload :: "(string \<Rightarrow> string + json) \<Rightarrow> json \<Rightarrow> string + json" where
  "event_payload parse p =
     (case (case p of JStr s \<Rightarrow> parse s | j \<Rightarrow> Inr j) of
        Inl m \<Rightarrow> Inl m | Inr JNull \<Rightarrow> Inr (JObj []) | Inr j \<Rightarrow> Inr j)"

definition outbox_event :: "delivery_record \<Rightarrow> json \<Rightarrow> orch_event" where
  "outbox_event rc data =
     \<lparr>oe_id = rc_eventId rc, oe_type = rc_eventType rc, oe_correlationId = rc_correlationId rc,
      oe_causationId = Some (rc_correlationId rc), oe_aggregateId = Some (nullish (rc_aggregateId rc) []),
      oe_aggregateVersion = Some 1, oe_data = data, oe_metadata = JObj []\<rparr>"

definition dead_letter_event :: "int \<Rightarrow> delivery_record \<Rightarrow> int \<Rightarrow> string \<Rightarrow> orch_event" where
  "dead_letter_event ms rc attempts msg =
     \<lparr>oe_id = ''dl-'' @ rc_id rc @ ''-'' @ int_str ms, oe_type = ''outbox.dead_letter'',
      oe_correlationId = rc_correlationId rc, oe_causationId = None,
      oe_aggregateId = Some (nullish (rc_aggregateId rc) ''dl-system''), oe_aggregateVersion = Some 1,
      oe_data = JObj [(''outboxId'', JStr (rc_id rc)), (''eventId'', JStr (rc_eventId rc)),
                      (''eventType'', JStr (rc_eventType rc)),
                      (''destination'', JStr (nullish (rc_destination rc) ''unknown'')),
                      (''attemptCount'', JNum attempts), (''maxRetries'', JNum (rc_maxRetries rc)),
                      (''lastError'', JStr msg), (''payload'', rc_payload rc)],
      oe_metadata = JObj []\<rparr>"

section \<open>Steps of a worker\<close>

record worker =
  wk_id :: string
  wk_batchSize :: int
  wk_leaseSeconds :: int
  wk_busy :: bool
  wk_todo :: "delivery_record list"
  wk_published :: bool
  wk_processed :: nat
  wk_failed :: nat

text \<open>What a step meets: the clock, random ids, and the error of a subscriber, if one refuses the event.\<close>

record step_env =
  se_ms :: int
  se_ids :: "nat \<Rightarrow> string"
  se_refusal :: "orch_event \<Rightarrow> string option"

record publication =
  pb_outboxId :: string
  pb_event :: orch_event
  pb_accepted :: bool

definition publish :: "step_env \<Rightarrow> string \<Rightarrow> orch_event \<Rightarrow> publication" where
  "publish env i e = \<lparr>pb_outboxId = i, pb_event = e, pb_accepted = (se_refusal env e = None)\<rparr>"

definition with_outbox :: "(delivery_row list \<Rightarrow> delivery_row list) \<Rightarrow> sink_db \<Rightarrow> sink_db" where
  "with_outbox f db = db\<lparr>sk_outbox := f (sk_outbox db)\<rparr>"

definition next_record :: "worker \<Rightarrow> worker" where
  "next_record w = w\<lparr>wk_todo := tl (wk_todo w), wk_published := False\<rparr>"

definition one_processed :: "worker \<Rightarrow> worker" where
  "one_processed w = next_record w\<lparr>wk_processed := wk_processed w + 1\<rparr>"

definition one_failed :: "worker \<Rightarrow> worker" where
  "one_failed w = next_record w\<lparr>wk_failed := wk_failed w + 1\<rparr>"

definition or_else :: "'e + 's \<Rightarrow> 's \<Rightarrow> 's" where
  "or_else r db = (case r of Inl _ \<Rightarrow> db | Inr db' \<Rightarrow> db')"

text \<open>The claim, or nothing while a batch is under way.\<close>

definition start_batch :: "step_env \<Rightarrow> worker \<Rightarrow> sink_db \<Rightarrow> worker \<times> sink_db" where
  "start_batch env w db =
     (let (claimed, rows) = claimDue (wk_id w) (wk_batchSize w) (wk_leaseSeconds w) (se_ms env) (sk_outbox db)
      in (w\<lparr>wk_busy := True, wk_todo := claimed, wk_published := False, wk_processed := 0, wk_failed := 0\<rparr>,
          db\<lparr>sk_outbox := rows\<rparr>))"

text \<open>A failed attempt; the last one leaves a dead letter and an event about it, errors of both ignored.\<close>

definition fail_record ::
    "step_env \<Rightarrow> delivery_record \<Rightarrow> string \<Rightarrow> sink_db \<Rightarrow> sink_db \<times> publication list" where
  "fail_record env rc msg db =
     (let attempts = rc_attemptCount rc + 1;
          db1 = with_outbox (markFailed (rc_id rc) attempts msg (rc_maxRetries rc)) db in
      if attempts \<ge> rc_maxRetries rc
      then (or_else (recordDeadLetter (se_ids env) (se_ms env) (rc_eventId rc) (nullish (rc_destination rc) ''unknown'')
                       msg (Some msg) (rc_payload rc) db1) db1,
            [publish env (rc_id rc) (dead_letter_event (se_ms env) rc attempts msg)])
      else (db1, []))"

definition deliver_record :: "step_env \<Rightarrow> delivery_record \<Rightarrow> sink_db \<Rightarrow> sink_db" where
  "deliver_record env rc db =
     (let db1 = with_outbox (\<lambda>rows. snd (markDelivered (rc_id rc)
                  (Some (nullish (rc_idempotencyKey rc) (rc_correlationId rc))) rows)) db
      in or_else (recordDelivery (se_ids env 0) (se_ms env) (rc_eventId rc) (nullish (rc_destination rc) ''event-bus'')
                    ''delivered'' (rc_attemptCount rc + 1) None db1) db1)"

definition worker_step ::
    "(string \<Rightarrow> string + json) \<Rightarrow> step_env \<Rightarrow> worker \<Rightarrow> sink_db \<Rightarrow> (worker \<times> sink_db) \<times> publication list" where
  "worker_step parse env w db =
     (if \<not> wk_busy w then (start_batch env w db, [])
      else case wk_todo w of
        [] \<Rightarrow> ((w\<lparr>wk_busy := False\<rparr>, db), [])
      | rc # _ \<Rightarrow>
          if wk_published w then ((one_processed w, deliver_record env rc db), [])
          else if rc_status rc = ObDelivered then ((one_processed w, db), [])
          else if truthy (rc_lastError rc) \<and> isDecodeError (nullish (rc_lastError rc) []) then
            ((one_failed w, with_outbox (markFailed (rc_id rc) (rc_attemptCount rc + 1) (nullish (rc_lastError rc) [])
                (rc_maxRetries rc)) db), [])
          else (case event_payload parse (rc_payload rc) of
            Inl msg \<Rightarrow> (let (db', dead) = fail_record env rc msg db in ((one_failed w, db'), dead))
          | Inr data \<Rightarrow>
              (let e = outbox_event rc data; p = publish env (rc_id rc) e in
               case se_refusal env e of
                 None \<Rightarrow> ((w\<lparr>wk_published := True\<rparr>, db), [p])
               | Some msg \<Rightarrow> (let (db', dead) = fail_record env rc msg db in ((one_failed w, db'), p # dead)))))"

text \<open>A batch undisturbed: the claim and then at most two steps for each entry and one for the end.\<close>

fun finish_batch ::
    "(string \<Rightarrow> string + json) \<Rightarrow> (nat \<Rightarrow> step_env) \<Rightarrow> nat \<Rightarrow> worker \<Rightarrow> sink_db \<Rightarrow> (worker \<times> sink_db) \<times> publication list" where
  "finish_batch parse envs 0 w db = ((w, db), [])"
| "finish_batch parse envs (Suc k) w db =
     (if \<not> wk_busy w then ((w, db), [])
      else (let ((w1, db1), log) = worker_step parse (envs 0) w db;
                (s, log') = finish_batch parse (\<lambda>n. envs (Suc n)) k w1 db1
            in (s, log @ log')))"

definition processBatch ::
    "(string \<Rightarrow> string + json) \<Rightarrow> (nat \<Rightarrow> step_env) \<Rightarrow> worker \<Rightarrow> sink_db \<Rightarrow> (worker \<times> sink_db) \<times> publication list" where
  "processBatch parse envs w db =
     (if wk_busy w then ((w, db), [])
      else (let (w1, db1) = start_batch (envs 0) w db
            in finish_batch parse (\<lambda>n. envs (Suc n)) (2 * length (wk_todo w1) + 1) w1 db1))"

section \<open>Workers together\<close>

datatype queue_action =
    Step nat step_env
  | Crash nat
  | Requeue int
  | Enqueue delivery_row

record outbox_system =
  os_db :: sink_db
  os_workers :: "worker list"
  os_log :: "publication list"

definition crash :: "worker \<Rightarrow> worker" where
  "crash w = w\<lparr>wk_busy := False, wk_todo := [], wk_published := False\<rparr>"

text \<open>The writers insert pending rows only, under keys of their own.\<close>

definition enqueue :: "delivery_row \<Rightarrow> delivery_row list \<Rightarrow> delivery_row list" where
  "enqueue r rows =
     (if ox_status r \<noteq> ObPending \<or> list_ex (\<lambda>x. ox_id x = ox_id r \<or> ox_key x = ox_key r) rows then rows else rows @ [r])"

fun system_step :: "(string \<Rightarrow> string + json) \<Rightarrow> queue_action \<Rightarrow> outbox_system \<Rightarrow> outbox_system" where
  "system_step parse (Step i env) s =
     (if i < length (os_workers s) then
        (let ((w, db), log) = worker_step parse env (os_workers s ! i) (os_db s)
         in \<lparr>os_db = db, os_workers = (os_workers s)[i := w], os_log = os_log s @ log\<rparr>)
      else s)"
| "system_step parse (Crash i) s =
     (if i < length (os_workers s) then s\<lparr>os_workers := (os_workers s)[i := crash (os_workers s ! i)]\<rparr> else s)"
| "system_step parse (Requeue now) s = s\<lparr>os_db := with_outbox (\<lambda>rows. snd (requeueExpiredLeases now rows)) (os_db s)\<rparr>"
| "system_step parse (Enqueue r) s = s\<lparr>os_db := with_outbox (enqueue r) (os_db s)\<rparr>"

fun system_run :: "(string \<Rightarrow> string + json) \<Rightarrow> queue_action list \<Rightarrow> outbox_system \<Rightarrow> outbox_system" where
  "system_run parse [] s = s"
| "system_run parse (a # as) s = system_run parse as (system_step parse a s)"

section \<open>A sample\<close>

text \<open>One entry, one worker with the settings of \<open>composition.ts\<close>, and subscribers that accept everything.\<close>

definition sample_entry :: delivery_row where
  "sample_entry =
     \<lparr>ox_id = ''o1'', ox_eventId = ''e1'', ox_eventType = ''run.queued'', ox_source = ''orchestration'',
      ox_data = Stored (JObj []), ox_key = ''o1'', ox_aggregateId = ''run-1'', ox_status = ObPending,
      ox_retryCount = 0, ox_lastError = None, ox_createdTs = 1\<rparr>"

definition sample_worker :: worker where
  "sample_worker =
     \<lparr>wk_id = ''orchestration-main'', wk_batchSize = 20, wk_leaseSeconds = 60, wk_busy = False, wk_todo = [],
      wk_published = False, wk_processed = 0, wk_failed = 0\<rparr>"

definition sample_db :: sink_db where
  "sample_db = \<lparr>sk_outbox = [sample_entry], sk_events = [], sk_subscribers = [], sk_deliveries = [], sk_deadLetters = []\<rparr>"

definition calm :: "int \<Rightarrow> step_env" where
  "calm ms = \<lparr>se_ms = ms, se_ids = nat_str, se_refusal = (\<lambda>_. None)\<rparr>"

definition verbatim :: "string \<Rightarrow> string + json" where
  "verbatim s = Inr (JStr s)"

lemmas sample_defs = sample_entry_def sample_worker_def sample_db_def calm_def verbatim_def

end
