(* ===== verification/Outbox_Laws.thy ===== *)
theory Outbox_Laws
  imports Outbox_Worker
begin

text \<open>
  What holds of the delivery of events: entries keep their identity through every interleaving of workers,
  only published entries are delivered, a live lease keeps other workers away, a worker whose subscribers
  accept everything drains the queue in order, and one that meets refusals gives up at the third. Where the
  code fails: a late failure reopens a delivered entry, and a payload that cannot be read is published.
\<close>

section \<open>Relations that every operation respects\<close>

definition follows :: "(delivery_row \<Rightarrow> delivery_row \<Rightarrow> bool) \<Rightarrow> delivery_row list \<Rightarrow> delivery_row list \<Rightarrow> bool" where
  "follows R rows rows' \<longleftrightarrow> (distinct (map ox_id rows) \<longrightarrow>
     distinct (map ox_id rows') \<and> (\<forall>r \<in> set rows. \<exists>r' \<in> set rows'. ox_id r' = ox_id r \<and> R r r'))"

lemma followsD:
  "follows R rows rows' \<Longrightarrow> distinct (map ox_id rows) \<Longrightarrow> r \<in> set rows
    \<Longrightarrow> \<exists>r' \<in> set rows'. ox_id r' = ox_id r \<and> R r r'"
  "follows R rows rows' \<Longrightarrow> distinct (map ox_id rows) \<Longrightarrow> distinct (map ox_id rows')"
  by (simp_all add: follows_def)

lemma follows_map:
  assumes "\<And>r. ox_id (f r) = ox_id r" and "\<And>r. distinct (map ox_id rows) \<Longrightarrow> r \<in> set rows \<Longrightarrow> R r (f r)"
  shows "follows R rows (map f rows)"
  using assms by (auto simp: follows_def comp_def)

lemma follows_append:
  assumes "\<And>r. R r r" and "distinct (map ox_id new)" and "ox_id ` set new \<inter> ox_id ` set rows = {}"
  shows "follows R rows (rows @ new)"
  using assms by (auto simp: follows_def)

lemma due_ids: "i \<in> ox_id ` set (due_rows now n rows) \<Longrightarrow> \<exists>r \<in> set rows. is_due now r \<and> ox_id r = i"
  by (auto simp: due_rows_def sql_limit_def split: if_splits dest!: in_set_takeD)

text \<open>What a table of deliveries needs of the outbox: nothing is changed, at most a fresh entry is added.\<close>

lemma ensure_frame:
  "ensureSubscriber nm db = (i, db') \<Longrightarrow> sk_outbox db' = sk_outbox db"
  "sk_outbox (add_dummy_event now x db) = sk_outbox db"
  by (auto simp: ensureSubscriber_def add_dummy_event_def split: option.splits prod.splits)

lemma ensureEventAndOutbox_frame:
  assumes "ensureEventAndOutbox now x db = Inr (p, db')"
  shows "\<exists>new. sk_outbox db' = sk_outbox db @ new \<and> distinct (map ox_id new) \<and> ox_id ` set new \<inter> ox_id ` set (sk_outbox db) = {}
    \<and> (\<forall>r \<in> set new. ox_status r = ObPending) \<and> ((\<exists>r \<in> set (sk_outbox db). ox_eventId r = x) \<longrightarrow> new = [])"
proof (cases "List.find (\<lambda>r. ox_id r = x \<or> ox_eventId r = x) (sk_outbox db)")
  case None
  then have "\<forall>r \<in> set (sk_outbox db). ox_id r \<noteq> x \<and> ox_eventId r \<noteq> x"
    by (simp add: find_None_iff_all)
  with assms None show ?thesis
    by (force simp: ensureEventAndOutbox_def Let_def ensure_frame dummy_entry_def split: if_splits)
next
  case (Some r)
  with assms show ?thesis by (auto simp: ensureEventAndOutbox_def ensure_frame)
qed

lemma delivery_frames:
  "insert_delivery d db = Inr db' \<Longrightarrow> sk_outbox db' = sk_outbox db"
  "update_delivery i f db = Inr db' \<Longrightarrow> sk_outbox db' = sk_outbox db"
  "insert_dead_letter q db = Inr db' \<Longrightarrow> sk_outbox db' = sk_outbox db"
  by (auto simp: insert_delivery_def update_delivery_def insert_dead_letter_def split: if_splits)

lemma dead_delivery_frame: "dead_delivery u now oid sid m db = Inr (did, db') \<Longrightarrow> sk_outbox db' = sk_outbox db"
  by (cases "find_delivery oid sid db")
    (auto simp: dead_delivery_def map_sum_def dest: delivery_frames split: sum.splits)

lemma recordDelivery_frame:
  assumes "recordDelivery u ms x dest st n err db = Inr db'"
  shows "\<exists>new. sk_outbox db' = sk_outbox db @ new \<and> distinct (map ox_id new) \<and> ox_id ` set new \<inter> ox_id ` set (sk_outbox db) = {}
    \<and> (\<forall>r \<in> set new. ox_status r = ObPending) \<and> ((\<exists>r \<in> set (sk_outbox db). ox_eventId r = x) \<longrightarrow> new = [])"
proof -
  obtain sid db1 where 1: "ensureSubscriber dest db = (sid, db1)" by fastforce
  obtain oid ev db2 where 2: "ensureEventAndOutbox (seconds ms) x db1 = Inr ((oid, ev), db2)"
    and 3: "sk_outbox db' = sk_outbox db2"
    using assms by (auto simp: recordDelivery_def Let_def 1 dest!: delivery_frames intro: that split: sum.splits option.splits)
  show ?thesis using ensureEventAndOutbox_frame [OF 2] ensure_frame(1) [OF 1] 3 by simp
qed

lemma recordDeadLetter_frame:
  assumes "recordDeadLetter u ms x dest m err p db = Inr db'"
  shows "\<exists>new. sk_outbox db' = sk_outbox db @ new \<and> distinct (map ox_id new) \<and> ox_id ` set new \<inter> ox_id ` set (sk_outbox db) = {}
    \<and> (\<forall>r \<in> set new. ox_status r = ObPending) \<and> ((\<exists>r \<in> set (sk_outbox db). ox_eventId r = x) \<longrightarrow> new = [])"
proof -
  obtain sid db1 where 1: "ensureSubscriber dest db = (sid, db1)" by fastforce
  obtain oid ev db2 where 2: "ensureEventAndOutbox (seconds ms) x db1 = Inr ((oid, ev), db2)"
    and 3: "sk_outbox db' = sk_outbox db2"
    using assms by (auto simp: recordDeadLetter_def Let_def 1 dest!: delivery_frames dead_delivery_frame intro: that split: sum.splits)
  show ?thesis using ensureEventAndOutbox_frame [OF 2] ensure_frame(1) [OF 1] 3 by simp
qed

text \<open>The audit tables add at most fresh pending entries; none when the event is known to the outbox.\<close>

definition adds_fresh :: "delivery_row list \<Rightarrow> delivery_row list \<Rightarrow> bool" where
  "adds_fresh rows rows' \<longleftrightarrow> (\<exists>new. rows' = rows @ new \<and> distinct (map ox_id new)
     \<and> ox_id ` set new \<inter> ox_id ` set rows = {} \<and> (\<forall>r \<in> set new. ox_status r = ObPending))"

lemma adds_fresh_refl [simp]: "adds_fresh rows rows"
  by (auto simp: adds_fresh_def)

lemma or_else_adds_fresh:
  "adds_fresh (sk_outbox db) (sk_outbox (or_else (recordDelivery u ms x dest st n err db) db))"
  "adds_fresh (sk_outbox db) (sk_outbox (or_else (recordDeadLetter v ms x dest m err p db) db))"
  unfolding or_else_def adds_fresh_def
  by (auto split: sum.split dest!: recordDelivery_frame recordDeadLetter_frame)

lemma or_else_keeps:
  assumes "\<exists>r \<in> set (sk_outbox db). ox_eventId r = x"
  shows "sk_outbox (or_else (recordDelivery u ms x dest st n err db) db) = sk_outbox db"
    "sk_outbox (or_else (recordDeadLetter v ms x dest m err p db) db) = sk_outbox db"
  using assms unfolding or_else_def
  by (fastforce split: sum.split dest!: recordDelivery_frame recordDeadLetter_frame)+

lemma fail_record_rows:
  assumes "fail_record env rc m db = (db', log)"
  shows "adds_fresh (markFailed (rc_id rc) (rc_attemptCount rc + 1) m (rc_maxRetries rc) (sk_outbox db)) (sk_outbox db')"
proof -
  define db1 where "db1 = with_outbox (markFailed (rc_id rc) (rc_attemptCount rc + 1) m (rc_maxRetries rc)) db"
  have 1: "sk_outbox db1 = markFailed (rc_id rc) (rc_attemptCount rc + 1) m (rc_maxRetries rc) (sk_outbox db)"
    by (simp add: db1_def with_outbox_def)
  have "db' = db1 \<or> (\<exists>u ms x d e p. db' = or_else (recordDeadLetter u ms x d m e p db1) db1)"
    using assms by (simp add: fail_record_def Let_def db1_def [symmetric] split: if_splits) blast+
  then show ?thesis unfolding 1 [symmetric] by (elim disjE exE) (simp_all add: or_else_adds_fresh(2))
qed

lemma deliver_record_rows:
  "adds_fresh (snd (markDelivered (rc_id rc) (Some (nullish (rc_idempotencyKey rc) (rc_correlationId rc))) (sk_outbox db)))
     (sk_outbox (deliver_record env rc db))"
  unfolding deliver_record_def Let_def
  using or_else_adds_fresh(1) [of "with_outbox (\<lambda>rows. snd (markDelivered (rc_id rc)
      (Some (nullish (rc_idempotencyKey rc) (rc_correlationId rc))) rows)) db"]
  by (simp add: with_outbox_def)

locale entry_order =
  fixes R :: "delivery_row \<Rightarrow> delivery_row \<Rightarrow> bool"
  assumes refl: "R r r"
    and trans: "R a b \<Longrightarrow> R b c \<Longrightarrow> R a c"
    and claimed: "is_due now r \<Longrightarrow> R r (r\<lparr>ox_status := ObDelivering, ox_lastError := Some (SinkLease w u)\<rparr>)"
    and delivered: "ox_status r = ObDelivering \<Longrightarrow> R r (r\<lparr>ox_status := ObDelivered\<rparr>)"
    and reported: "R r (r\<lparr>ox_status := (if m \<le> n then ObFailed else ObPending), ox_retryCount := n, ox_lastError := Some (ErrorText e)\<rparr>)"
    and requeued: "lease_expired now r
      \<Longrightarrow> R r (r\<lparr>ox_status := ObPending, ox_lastError := Some (ErrorText ''lease-expired-requeued'')\<rparr>)"
begin

lemma refl_follows: "follows R rows rows"
  using refl by (auto simp: follows_def)

lemma trans_follows: "follows R a b \<Longrightarrow> follows R b c \<Longrightarrow> follows R a c"
  unfolding follows_def by (metis trans)

lemma fresh_follows: "adds_fresh rows rows' \<Longrightarrow> follows R rows rows'"
  using follows_append [of R, OF refl] by (auto simp: adds_fresh_def)

lemma due_taken:
  assumes "distinct (map ox_id rows)" and "r \<in> set rows" and "ox_id r \<in> ox_id ` set (due_rows now n rows)"
  shows "is_due now r"
  using due_ids [OF assms(3)] assms(1,2) by (auto simp: distinct_map inj_on_def)

lemma claimDue_follows: "follows R rows (snd (claimDue w n l ms rows))"
  unfolding claimDue_def Let_def snd_conv
proof (rule follows_map)
  fix r assume "distinct (map ox_id rows)" "r \<in> set rows"
  then show "R r (take_lease (SinkLease w (seconds ms + l)) (ox_id ` set (due_rows (seconds ms) n rows)) r)"
    using claimed [OF due_taken] by (simp add: take_lease_def refl)
qed (simp add: take_lease_def)

lemma markDelivered_follows: "follows R rows (snd (markDelivered i k rows))"
proof (cases "truthy k \<and> list_ex (\<lambda>r. ox_id r = i \<and> Some (ox_key r) = k \<and> ox_status r = ObDelivered) rows")
  case True
  then show ?thesis by (simp add: markDelivered_def refl_follows)
next
  case False
  then show ?thesis
    unfolding markDelivered_def if_not_P [OF False] snd_conv by (intro follows_map) (auto simp: refl delivered)
qed

lemma markFailed_follows: "follows R rows (markFailed i n e m rows)"
  unfolding markFailed_def by (rule follows_map) (auto simp: refl reported)

lemma requeue_follows: "follows R rows (snd (requeueExpiredLeases now rows))"
  unfolding requeueExpiredLeases_def snd_conv by (rule follows_map) (auto simp: refl requeued)

lemma enqueue_follows: "follows R rows (enqueue r rows)"
proof (cases "enqueue r rows = rows")
  case False
  then have "adds_fresh rows (enqueue r rows)"
    unfolding adds_fresh_def by (intro exI [of _ "[r]"]) (auto simp: enqueue_def list_ex_iff split: if_splits)
  then show ?thesis by (rule fresh_follows)
qed (simp add: refl_follows)

lemma fail_record_follows:
  "fail_record env rc m db = (db', log) \<Longrightarrow> follows R (sk_outbox db) (sk_outbox db')"
  by (rule trans_follows [OF markFailed_follows fresh_follows [OF fail_record_rows]])

lemma deliver_record_follows: "follows R (sk_outbox db) (sk_outbox (deliver_record env rc db))"
  by (rule trans_follows [OF markDelivered_follows fresh_follows [OF deliver_record_rows]])

lemma worker_step_follows:
  assumes "worker_step parse env w db = ((w', db'), log)"
  shows "follows R (sk_outbox db) (sk_outbox db')"
  using assms claimDue_follows [of "sk_outbox db" "wk_id w" "wk_batchSize w" "wk_leaseSeconds w" "se_ms env"]
  by (auto simp: worker_step_def start_batch_def Let_def with_outbox_def refl_follows markFailed_follows
      deliver_record_follows fail_record_follows split: if_splits list.splits sum.splits option.splits prod.splits)

lemma system_follows: "follows R (sk_outbox (os_db s)) (sk_outbox (os_db (system_run parse as s)))"
proof (induction as arbitrary: s)
  case Nil
  show ?case by (simp add: refl_follows)
next
  case (Cons a as)
  have "follows R (sk_outbox (os_db s)) (sk_outbox (os_db (system_step parse a s)))"
    by (cases a) (auto simp: refl_follows with_outbox_def requeue_follows enqueue_follows intro: worker_step_follows
        split: prod.splits)
  with Cons show ?case by (auto intro: trans_follows)
qed

end

text \<open>No operation changes what an entry is: its event, its payload, its key and its place in the queue.\<close>

definition same_entry :: "delivery_row \<Rightarrow> delivery_row \<Rightarrow> bool" where
  "same_entry r r' \<longleftrightarrow> ox_eventId r' = ox_eventId r \<and> ox_eventType r' = ox_eventType r \<and> ox_source r' = ox_source r
     \<and> ox_data r' = ox_data r \<and> ox_key r' = ox_key r \<and> ox_aggregateId r' = ox_aggregateId r
     \<and> ox_createdTs r' = ox_createdTs r"

interpretation entries: entry_order same_entry
  by unfold_locales (auto simp: same_entry_def)

section \<open>Leases\<close>

lemma claimed_rows:
  assumes "rc \<in> set (fst (claimDue w n l ms rows))"
  shows "\<exists>r \<in> set (snd (claimDue w n l ms rows)). rc = rowToRecord r \<and> held_under (SinkLease w (seconds ms + l)) r"
  using assms by (auto simp: claimDue_def Let_def)

text \<open>A fence around an entry: it is held under the lease, or delivered. Nothing but the end of the lease and a report
  that the entry failed takes the fence away.\<close>

definition fenced :: "string \<Rightarrow> string \<Rightarrow> int \<Rightarrow> delivery_row list \<Rightarrow> bool" where
  "fenced e w u rows \<longleftrightarrow> e \<in> ox_id ` set rows
     \<and> (\<forall>r \<in> set rows. ox_id r = e \<longrightarrow> ox_status r = ObDelivered \<or> held_under (SinkLease w u) r)"

lemma fenced_not_due: "fenced e w u rows \<Longrightarrow> r \<in> set rows \<Longrightarrow> ox_id r = e \<Longrightarrow> now \<le> u \<Longrightarrow> \<not> is_due now r"
  by (auto simp: fenced_def is_due_def lease_expired_def held_under_def)

lemma fenced_not_taken: "fenced e w u rows \<Longrightarrow> now \<le> u \<Longrightarrow> e \<notin> ox_id ` set (due_rows now n rows)"
  using due_ids fenced_not_due by metis

lemma fenced_map:
  assumes "fenced e w u rows" and "\<And>r. ox_id (f r) = ox_id r"
    and "\<And>r. r \<in> set rows \<Longrightarrow> ox_id r = e \<Longrightarrow> f r = r \<or> ox_status (f r) = ObDelivered"
  shows "fenced e w u (map f rows)"
  using assms unfolding fenced_def by (auto simp: image_image) metis+

lemma fenced_fresh:
  assumes "fenced e w u rows" and "adds_fresh rows rows'"
  shows "fenced e w u rows'"
proof -
  obtain new where new: "rows' = rows @ new" "ox_id ` set new \<inter> ox_id ` set rows = {}"
    using assms(2) unfolding adds_fresh_def by blast
  moreover have "e \<in> ox_id ` set rows" using assms(1) by (simp add: fenced_def)
  ultimately have "ox_id r \<noteq> e" if "r \<in> set new" for r using that by blast
  with assms(1) new(1) show ?thesis by (auto simp: fenced_def)
qed

lemma fenced_claim: "fenced e w u rows \<Longrightarrow> seconds ms \<le> u \<Longrightarrow> fenced e w u (snd (claimDue v n l ms rows))"
  using fenced_not_taken [of e w u rows "seconds ms" n]
  by (auto simp: claimDue_def Let_def take_lease_def intro!: fenced_map)

lemma fenced_ops:
  assumes "fenced e w u rows"
  shows "fenced e w u (snd (markDelivered i k rows))"
    and "i \<noteq> e \<Longrightarrow> fenced e w u (markFailed i n m x rows)"
    and "now \<le> u \<Longrightarrow> fenced e w u (snd (requeueExpiredLeases now rows))"
    and "fenced e w u (enqueue r rows)"
proof -
  show "fenced e w u (snd (markDelivered i k rows))"
    using assms by (auto simp: markDelivered_def intro!: fenced_map [OF assms])
  show "i \<noteq> e \<Longrightarrow> fenced e w u (markFailed i n m x rows)"
    by (auto simp: markFailed_def intro!: fenced_map [OF assms])
  show "now \<le> u \<Longrightarrow> fenced e w u (snd (requeueExpiredLeases now rows))"
    using fenced_not_due [OF assms] by (auto simp: requeueExpiredLeases_def is_due_def intro!: fenced_map [OF assms])
  show "fenced e w u (enqueue r rows)"
    using assms by (auto simp: enqueue_def fenced_def list_ex_iff)
qed

text \<open>The entries that a step of a worker, an action, and a run report as failed.\<close>

definition step_failures :: "(string \<Rightarrow> string + json) \<Rightarrow> step_env \<Rightarrow> worker \<Rightarrow> sink_db \<Rightarrow> string list" where
  "step_failures parse env w db =
     (case wk_todo w of
        [] \<Rightarrow> []
      | rc # _ \<Rightarrow> if wk_busy w \<and> wk_failed (fst (fst (worker_step parse env w db))) = wk_failed w + 1 then [rc_id rc] else [])"

fun action_failures :: "(string \<Rightarrow> string + json) \<Rightarrow> queue_action \<Rightarrow> outbox_system \<Rightarrow> string list" where
  "action_failures parse (Step i env) s =
     (if i < length (os_workers s) then step_failures parse env (os_workers s ! i) (os_db s) else [])"
| "action_failures parse _ s = []"

fun failures_in :: "(string \<Rightarrow> string + json) \<Rightarrow> queue_action list \<Rightarrow> outbox_system \<Rightarrow> string list" where
  "failures_in parse [] s = []"
| "failures_in parse (a # as) s = action_failures parse a s @ failures_in parse as (system_step parse a s)"

text \<open>An action whose clock has not passed the end of a lease.\<close>

fun in_time :: "int \<Rightarrow> queue_action \<Rightarrow> bool" where
  "in_time u (Step i env) = (seconds (se_ms env) \<le> u)"
| "in_time u (Requeue now) = (now \<le> u)"
| "in_time u _ = True"

lemma worker_counts:
  "wk_failed (one_failed w) = wk_failed w + 1" "wk_failed (one_processed w) = wk_failed w"
  by (simp_all add: one_failed_def one_processed_def next_record_def)

lemma step_fenced:
  assumes f: "fenced e v u (sk_outbox db)" and t: "seconds (se_ms env) \<le> u"
    and n: "e \<notin> set (step_failures parse env w db)" and s: "worker_step parse env w db = ((w', db'), log)"
  shows "fenced e v u (sk_outbox db')"
proof (cases "wk_busy w")
  case False
  then have "sk_outbox db' = snd (claimDue (wk_id w) (wk_batchSize w) (wk_leaseSeconds w) (se_ms env) (sk_outbox db))"
    using s by (auto simp: worker_step_def start_batch_def split: prod.splits)
  then show ?thesis using fenced_claim [OF f t] by simp
next
  case True
  show ?thesis
  proof (cases "wk_todo w")
    case Nil
    then show ?thesis using s True f by (simp add: worker_step_def)
  next
    case (Cons rc rest)
    show ?thesis
    proof (cases "wk_failed w' = wk_failed w + 1")
      case failed: True
      then have other: "rc_id rc \<noteq> e" using n s True Cons by (simp add: step_failures_def)
      have "fenced e v u (sk_outbox db')"
        if "fail_record env rc m db = (db', l)" for m l
        by (rule fenced_fresh [OF fenced_ops(2) [OF f other] fail_record_rows [OF that]])
      then show ?thesis using s True Cons failed fenced_ops(2) [OF f other]
        by (auto simp: worker_step_def Let_def worker_counts with_outbox_def split: if_splits sum.splits option.splits prod.splits)
    next
      case False
      have "fenced e v u (sk_outbox (deliver_record env rc db))"
        by (rule fenced_fresh [OF fenced_ops(1) [OF f] deliver_record_rows])
      then show ?thesis using s True Cons False f
        by (auto simp: worker_step_def Let_def worker_counts split: if_splits sum.splits option.splits prod.splits)
    qed
  qed
qed

lemma action_fenced:
  assumes "fenced e v u (sk_outbox (os_db s))" and "in_time u a" and "e \<notin> set (action_failures parse a s)"
  shows "fenced e v u (sk_outbox (os_db (system_step parse a s)))"
proof (cases a)
  case (Step i env)
  then show ?thesis using assms step_fenced [OF assms(1)] by (auto split: prod.split)
qed (use assms fenced_ops in \<open>simp_all add: with_outbox_def\<close>)

lemma run_fenced:
  "fenced e v u (sk_outbox (os_db s)) \<Longrightarrow> \<forall>a \<in> set as. in_time u a \<Longrightarrow> e \<notin> set (failures_in parse as s)
    \<Longrightarrow> fenced e v u (sk_outbox (os_db (system_run parse as s)))"
  by (induction as arbitrary: s) (simp_all add: action_fenced)

lemma claim_step:
  assumes "i < length (os_workers s)" and "\<not> wk_busy (os_workers s ! i)"
  shows "wk_todo (os_workers (system_step parse (Step i env) s) ! i)
      = fst (claimDue (wk_id (os_workers s ! i)) (wk_batchSize (os_workers s ! i)) (wk_leaseSeconds (os_workers s ! i))
               (se_ms env) (sk_outbox (os_db s)))"
    and "sk_outbox (os_db (system_step parse (Step i env) s))
      = snd (claimDue (wk_id (os_workers s ! i)) (wk_batchSize (os_workers s ! i)) (wk_leaseSeconds (os_workers s ! i))
               (se_ms env) (sk_outbox (os_db s)))"
  using assms by (simp_all add: worker_step_def start_batch_def split: prod.split)

text \<open>C19. A lease keeps others away. A worker claims an entry for so many seconds; then workers, crashes, requeueing and
  new entries interleave in any way while the lease lasts. When a worker gets the entry by a claim before the end of
  that lease, then either some worker reported the entry as failed in between, or the claim was made under the same
  worker name with a lease that ends in the same second. Workers with different names therefore exclude each other until
  the holder, or one that still works on an older lease of the entry, reports a failure.\<close>

theorem live_lease_exclusive:
  assumes "distinct (map ox_id (sk_outbox (os_db s)))" and "i < length (os_workers s)" "\<not> wk_busy (os_workers s ! i)"
    and "s1 = system_step parse (Step i env) s" and "rc \<in> set (wk_todo (os_workers s1 ! i))"
    and "u = seconds (se_ms env) + wk_leaseSeconds (os_workers s ! i)"
    and "\<forall>a \<in> set as. in_time u a" and "s2 = system_run parse as s1"
    and "j < length (os_workers s2)" "\<not> wk_busy (os_workers s2 ! j)" and "seconds (se_ms env') \<le> u"
    and "rc_id rc \<in> rc_id ` set (wk_todo (os_workers (system_step parse (Step j env') s2) ! j))"
  shows "rc_id rc \<in> set (failures_in parse as s1)
    \<or> wk_id (os_workers s2 ! j) = wk_id (os_workers s ! i)
      \<and> seconds (se_ms env') + wk_leaseSeconds (os_workers s2 ! j) = u"
proof (rule disjCI)
  assume other: "\<not> (wk_id (os_workers s2 ! j) = wk_id (os_workers s ! i)
      \<and> seconds (se_ms env') + wk_leaseSeconds (os_workers s2 ! j) = u)"
  note first = claim_step [OF assms(2,3), of parse env, folded assms(4)]
  note second = claim_step [OF assms(9,10), of parse env']
  let ?v = "wk_id (os_workers s ! i)" and ?v' = "wk_id (os_workers s2 ! j)"
  let ?u' = "seconds (se_ms env') + wk_leaseSeconds (os_workers s2 ! j)"
  obtain r where r: "r \<in> set (sk_outbox (os_db s1))" "rc = rowToRecord r" "held_under (SinkLease ?v u) r"
    using claimed_rows [of rc] assms(5,6) unfolding first by blast
  have "distinct (map ox_id (sk_outbox (os_db s1)))"
    unfolding first by (rule followsD(2) [OF entries.claimDue_follows assms(1)])
  with r have f1: "fenced (rc_id rc) ?v u (sk_outbox (os_db s1))"
    by (auto simp: fenced_def rowToRecord_def distinct_map inj_on_def)
  show "rc_id rc \<in> set (failures_in parse as s1)"
  proof (rule ccontr)
    assume "rc_id rc \<notin> set (failures_in parse as s1)"
    then have "fenced (rc_id rc) ?v u (sk_outbox (os_db s2))"
      using run_fenced [OF f1 assms(7)] assms(8) by simp
    then have f2: "fenced (rc_id rc) ?v u (sk_outbox (os_db (system_step parse (Step j env') s2)))"
      unfolding second by (rule fenced_claim) (rule assms(11))
    obtain q where "q \<in> set (sk_outbox (os_db (system_step parse (Step j env') s2)))" "ox_id q = rc_id rc"
      "held_under (SinkLease ?v' ?u') q"
      using assms(12) claimed_rows unfolding second by (fastforce simp: rowToRecord_def)
    with f2 other show False by (auto simp: fenced_def held_under_def)
  qed
qed

text \<open>The event is refused and the entry given back, so the second worker gets it while the first lease lasts.\<close>

theorem live_lease_exclusive_witness:
  "''o1'' \<in> set (failures_in verbatim [Step 0 ((calm 0)\<lparr>se_refusal := (\<lambda>_. Some ''no'')\<rparr>)]
     (system_step verbatim (Step 0 (calm 0))
        \<lparr>os_db = sample_db, os_workers = [sample_worker, sample_worker\<lparr>wk_id := ''other''\<rparr>], os_log = []\<rparr>))"
proof -
  let ?s = "\<lparr>os_db = sample_db, os_workers = [sample_worker, sample_worker\<lparr>wk_id := ''other''\<rparr>], os_log = []\<rparr>"
  let ?as = "[Step 0 ((calm 0)\<lparr>se_refusal := (\<lambda>_. Some ''no'')\<rparr>)]"
  let ?s1 = "system_step verbatim (Step 0 (calm 0)) ?s"
  let ?rc = "rowToRecord (take_lease (SinkLease ''orchestration-main'' 60) {''o1''} sample_entry)"
  have start: "distinct (map ox_id (sk_outbox (os_db ?s)))" "0 < length (os_workers ?s)" "\<not> wk_busy (os_workers ?s ! 0)"
    by (simp_all add: sample_defs)
  have todo: "wk_todo (os_workers ?s1 ! 0) = [?rc]" by code_simp
  have held: "?rc \<in> set (wk_todo (os_workers ?s1 ! 0))" unfolding todo by simp
  have lease: "60 = seconds (se_ms (calm 0)) + wk_leaseSeconds (os_workers ?s ! 0)" by code_simp
  have time: "\<forall>a \<in> set ?as. in_time 60 a" "seconds (se_ms (calm 59000)) \<le> 60" by (simp_all add: calm_def seconds_def)
  have free: "1 < length (os_workers (system_run verbatim ?as ?s1))" "\<not> wk_busy (os_workers (system_run verbatim ?as ?s1) ! 1)"
    by code_simp+
  have again: "map rc_id (wk_todo (os_workers (system_step verbatim (Step 1 (calm 59000)) (system_run verbatim ?as ?s1)) ! 1)) = [''o1'']"
    by code_simp
  have rc: "rc_id ?rc = ''o1''" by (simp add: rowToRecord_def take_lease_def sample_entry_def)
  have got: "rc_id ?rc \<in> rc_id ` set (wk_todo (os_workers (system_step verbatim (Step 1 (calm 59000)) (system_run verbatim ?as ?s1)) ! 1))"
    unfolding set_map [symmetric] again rc by simp
  have names: "wk_id (os_workers (system_run verbatim ?as ?s1) ! 1) = ''other''" by code_simp
  show ?thesis
    using live_lease_exclusive [OF start refl held lease time(1) refl free time(2) got] rc names
    by (simp add: sample_worker_def)
qed

section \<open>Only what was published is delivered\<close>

definition published :: "(string \<Rightarrow> string + json) \<Rightarrow> publication list \<Rightarrow> delivery_row \<Rightarrow> bool" where
  "published parse log r \<longleftrightarrow> (\<exists>p \<in> set log. pb_outboxId p = ox_id r \<and> pb_accepted p
     \<and> (\<exists>d. event_payload parse (payload_of (ox_data r)) = Inr d \<and> pb_event p = outbox_event (rowToRecord r) d))"

definition record_of :: "delivery_record \<Rightarrow> delivery_row \<Rightarrow> bool" where
  "record_of rc r \<longleftrightarrow> rc_id rc = ox_id r \<and> rc_eventId rc = ox_eventId r \<and> rc_eventType rc = ox_eventType r
     \<and> rc_payload rc = payload_of (ox_data r) \<and> rc_correlationId rc = ox_key r \<and> rc_aggregateId rc = Some (ox_aggregateId r)"

definition worker_ok :: "(string \<Rightarrow> string + json) \<Rightarrow> publication list \<Rightarrow> delivery_row list \<Rightarrow> worker \<Rightarrow> bool" where
  "worker_ok parse log rows w \<longleftrightarrow>
     (\<forall>rc \<in> set (wk_todo w). rc_status rc \<noteq> ObDelivered \<and> (\<exists>r \<in> set rows. record_of rc r))
     \<and> (wk_published w \<longrightarrow> (\<forall>rc \<in> set (take 1 (wk_todo w)). \<exists>r \<in> set rows. record_of rc r \<and> published parse log r))"

definition delivered_ok :: "(string \<Rightarrow> string + json) \<Rightarrow> publication list \<Rightarrow> delivery_row list \<Rightarrow> bool" where
  "delivered_ok parse log rows \<longleftrightarrow> (\<forall>r \<in> set rows. ox_status r = ObDelivered \<longrightarrow> published parse log r)"

lemma record_of_self [simp]: "record_of (rowToRecord r) r"
  by (simp add: record_of_def rowToRecord_def)

lemma record_of_same: "record_of rc r \<Longrightarrow> ox_id r' = ox_id r \<Longrightarrow> same_entry r r' \<Longrightarrow> record_of rc r'"
  by (simp add: record_of_def same_entry_def)

lemma published_same: "ox_id r' = ox_id r \<Longrightarrow> same_entry r r' \<Longrightarrow> published parse log r' = published parse log r"
  by (simp add: published_def same_entry_def outbox_event_def rowToRecord_def)

lemma published_mono: "published parse log r \<Longrightarrow> published parse (log @ log') r"
  by (auto simp: published_def)

lemma worker_ok_follows:
  assumes "worker_ok parse log rows w" and "follows same_entry rows rows'" and "distinct (map ox_id rows)"
  shows "worker_ok parse (log @ log') rows' w"
proof -
  have "\<exists>r' \<in> set rows'. record_of rc r' \<and> (published parse log r \<longrightarrow> published parse (log @ log') r')"
    if "r \<in> set rows" "record_of rc r" for rc r
    using followsD(1) [OF assms(2,3) that(1)] that(2)
    by (auto intro!: published_mono dest: record_of_same published_same [THEN iffD2])
  with assms(1) show ?thesis unfolding worker_ok_def by meson
qed

text \<open>The rows that are delivered: a claim, a failure, a requeue and an insertion only make fewer of them.\<close>

definition delivered_in :: "delivery_row list \<Rightarrow> string set" where
  "delivered_in rows = ox_id ` {r \<in> set rows. ox_status r = ObDelivered}"

lemma delivered_in_steps:
  "delivered_in (snd (claimDue w n l ms rows)) \<subseteq> delivered_in rows"
  "delivered_in (snd (markDelivered i k rows)) \<subseteq> insert i (delivered_in rows)"
  "delivered_in (markFailed i m x c rows) \<subseteq> delivered_in rows"
  "delivered_in (snd (requeueExpiredLeases now rows)) \<subseteq> delivered_in rows"
  "delivered_in (enqueue r rows) \<subseteq> delivered_in rows"
  "adds_fresh rows rows' \<Longrightarrow> delivered_in rows' \<subseteq> delivered_in rows"
  by (auto simp: delivered_in_def claimDue_def Let_def take_lease_def markDelivered_def markFailed_def
      requeueExpiredLeases_def enqueue_def adds_fresh_def split: if_splits)

lemma fail_record_delivered:
  "fail_record env rc m db = (db', log) \<Longrightarrow> delivered_in (sk_outbox db') \<subseteq> delivered_in (sk_outbox db)"
  by (rule subset_trans [OF delivered_in_steps(6) [OF fail_record_rows] delivered_in_steps(3)])

lemma deliver_record_delivered:
  "delivered_in (sk_outbox (deliver_record env rc db)) \<subseteq> insert (rc_id rc) (delivered_in (sk_outbox db))"
  by (rule subset_trans [OF delivered_in_steps(6) [OF deliver_record_rows] delivered_in_steps(2)])

definition system_ok :: "(string \<Rightarrow> string + json) \<Rightarrow> outbox_system \<Rightarrow> bool" where
  "system_ok parse s \<longleftrightarrow> distinct (map ox_id (sk_outbox (os_db s)))
     \<and> delivered_ok parse (os_log s) (sk_outbox (os_db s))
     \<and> (\<forall>w \<in> set (os_workers s). worker_ok parse (os_log s) (sk_outbox (os_db s)) w)"

lemma delivered_ok_from:
  assumes "follows same_entry rows rows'" "distinct (map ox_id rows)" "delivered_ok parse log rows"
    and "delivered_in rows' \<subseteq> D \<union> delivered_in rows" and "\<forall>i \<in> D. \<exists>r \<in> set rows. ox_id r = i \<and> published parse log r"
  shows "delivered_ok parse (log @ log') rows'"
  unfolding delivered_ok_def
proof (intro ballI impI)
  fix r' assume r': "r' \<in> set rows'" "ox_status r' = ObDelivered"
  then have "ox_id r' \<in> D \<union> delivered_in rows" using assms(4) by (auto simp: delivered_in_def)
  with assms(3,5) obtain r where r: "r \<in> set rows" "ox_id r = ox_id r'" "published parse log r"
    by (auto simp: delivered_in_def delivered_ok_def)
  obtain q where q: "q \<in> set rows'" "ox_id q = ox_id r" "same_entry r q"
    using followsD(1) [OF assms(1,2) r(1)] by blast
  with r r' followsD(2) [OF assms(1,2)] have "q = r'" by (auto simp: distinct_map inj_on_def)
  with q r(3) published_same [of q r] show "published parse (log @ log') r'" by (auto intro: published_mono)
qed

lemma published_event:
  assumes "record_of rc r" "event_payload parse (rc_payload rc) = Inr d" "se_refusal env (outbox_event rc d) = None"
  shows "published parse (log @ [publish env (rc_id rc) (outbox_event rc d)]) r"
  using assms by (auto simp: published_def record_of_def publish_def outbox_event_def rowToRecord_def)

lemma published_in_todo:
  assumes "worker_ok parse log rows w" "wk_published w" "wk_todo w = rc # rest"
  shows "\<exists>r \<in> set rows. record_of rc r \<and> published parse log r"
  using assms by (simp add: worker_ok_def)

lemma in_tl: "x \<in> set (tl xs) \<Longrightarrow> x \<in> set xs"
  by (cases xs) auto

lemma rest_ok:
  assumes "worker_ok parse log rows w"
  shows "worker_ok parse log rows (one_processed w)" "worker_ok parse log rows (one_failed w)"
    "worker_ok parse log rows (crash w)" "worker_ok parse log rows (w\<lparr>wk_busy := b\<rparr>)"
  using assms by (auto simp: worker_ok_def one_processed_def one_failed_def next_record_def crash_def dest: in_tl)

lemma claim_ok:
  assumes "start_batch env w db = (w', db')"
  shows "worker_ok parse log (sk_outbox db') w'"
proof -
  have *: "\<forall>rc \<in> set (fst (claimDue (wk_id w) (wk_batchSize w) (wk_leaseSeconds w) (se_ms env) (sk_outbox db))).
      rc_status rc \<noteq> ObDelivered
      \<and> (\<exists>r \<in> set (snd (claimDue (wk_id w) (wk_batchSize w) (wk_leaseSeconds w) (se_ms env) (sk_outbox db))). record_of rc r)"
    using claimed_rows by (fastforce simp: held_under_def rowToRecord_def record_of_def)
  then show ?thesis using assms
    by (auto simp: start_batch_def worker_ok_def split: prod.splits)
qed

lemma worker_step_ok:
  assumes step: "worker_step parse env w db = ((w', db'), log')" and w: "worker_ok parse log (sk_outbox db) w"
    and d: "delivered_ok parse log (sk_outbox db)" "distinct (map ox_id (sk_outbox db))"
  shows "worker_ok parse (log @ log') (sk_outbox db') w' \<and> delivered_ok parse (log @ log') (sk_outbox db')"
proof -
  note f = entries.worker_step_follows [OF step]
  note origin = delivered_ok_from [OF f d(2,1)]
  have less: "delivered_ok parse (log @ log') (sk_outbox db')" if "delivered_in (sk_outbox db') \<subseteq> delivered_in (sk_outbox db)"
    using origin [of "{}"] that by simp
  show ?thesis
  proof (cases "wk_busy w")
    case False
    with step have s: "start_batch env w db = (w', db')" by (simp add: worker_step_def)
    then have "sk_outbox db' = snd (claimDue (wk_id w) (wk_batchSize w) (wk_leaseSeconds w) (se_ms env) (sk_outbox db))"
      by (auto simp: start_batch_def split: prod.splits)
    with less claim_ok [OF s] show ?thesis by (simp add: delivered_in_steps)
  next
    case True
    show ?thesis
    proof (cases "wk_todo w")
      case Nil
      with step True have "w' = w\<lparr>wk_busy := False\<rparr>" "db' = db" by (simp_all add: worker_step_def)
      with less worker_ok_follows [OF rest_ok(4) [OF w] f d(2)] show ?thesis by simp
    next
      case (Cons rc rest)
      with w have status: "rc_status rc \<noteq> ObDelivered" and row: "\<exists>r \<in> set (sk_outbox db). record_of rc r"
        by (auto simp: worker_ok_def)
      show ?thesis
      proof (cases "wk_published w")
        case p: True
        with step True Cons have s: "w' = one_processed w" "db' = deliver_record env rc db"
          by (simp_all add: worker_step_def)
        have "\<forall>i \<in> {rc_id rc}. \<exists>r \<in> set (sk_outbox db). ox_id r = i \<and> published parse log r"
          using published_in_todo [OF w p Cons] by (auto simp: record_of_def)
        from origin [OF _ this] s deliver_record_delivered
        have "delivered_ok parse (log @ log') (sk_outbox db')" by auto
        with s worker_ok_follows [OF rest_ok(1) [OF w] f d(2)] show ?thesis by simp
      next
        case p: False
        show ?thesis
        proof (cases "\<exists>x. event_payload parse (rc_payload rc) = Inr x \<and> se_refusal env (outbox_event rc x) = None
            \<and> \<not> (truthy (rc_lastError rc) \<and> isDecodeError (nullish (rc_lastError rc) []))")
          case acc: True
          with step True Cons p status obtain x where x: "event_payload parse (rc_payload rc) = Inr x"
            "se_refusal env (outbox_event rc x) = None" "w' = w\<lparr>wk_published := True\<rparr>" "db' = db"
            "log' = [publish env (rc_id rc) (outbox_event rc x)]"
            by (auto simp: worker_step_def Let_def split: if_splits)
          from row obtain r where "r \<in> set (sk_outbox db)" "record_of rc r" by blast
          with x(5) published_event [OF _ x(1,2)]
          have "\<exists>r \<in> set (sk_outbox db). record_of rc r \<and> published parse (log @ log') r" by blast
          then show ?thesis using w x(3,4) Cons less by (simp add: worker_ok_def)
        next
          case ref: False
          have "w' = one_failed w \<and> delivered_in (sk_outbox db') \<subseteq> delivered_in (sk_outbox db)"
            using step True Cons p status ref
            by (auto simp: worker_step_def Let_def with_outbox_def
                split: if_splits sum.splits option.splits prod.splits
                dest: fail_record_delivered [THEN subsetD] delivered_in_steps(3) [THEN subsetD])
          with less worker_ok_follows [OF rest_ok(2) [OF w] f d(2)] show ?thesis by simp
        qed
      qed
    qed
  qed
qed

lemma system_step_ok:
  assumes "system_ok parse s"
  shows "system_ok parse (system_step parse a s)"
proof -
  let ?rows = "sk_outbox (os_db s)"
  from assms have d: "distinct (map ox_id ?rows)" "delivered_ok parse (os_log s) ?rows"
    and w: "\<And>w. w \<in> set (os_workers s) \<Longrightarrow> worker_ok parse (os_log s) ?rows w" by (simp_all add: system_ok_def)
  have keep: "system_ok parse (s\<lparr>os_db := db\<rparr>)"
    if "follows same_entry ?rows (sk_outbox db)" "delivered_in (sk_outbox db) \<subseteq> delivered_in ?rows" for db
    using w delivered_ok_from [OF that(1) d, of "{}" "[]"] that(2) followsD(2) [OF that(1) d(1)]
      worker_ok_follows [OF _ that(1) d(1), of parse "os_log s" _ "[]"]
    by (simp add: system_ok_def)
  show ?thesis
  proof (cases a)
    case (Step i env)
    show ?thesis
    proof (cases "i < length (os_workers s)")
      case True
      obtain w' db log where s: "worker_step parse env (os_workers s ! i) (os_db s) = ((w', db), log)"
        by (metis prod.exhaust)
      note f = entries.worker_step_follows [OF s]
      note ok = worker_step_ok [OF s w [OF nth_mem [OF True]] d(2,1)]
      have "\<forall>w \<in> set ((os_workers s)[i := w']). worker_ok parse (os_log s @ log) (sk_outbox db) w"
        using ok worker_ok_follows [OF w f d(1)] by (auto dest!: set_update_subset_insert [THEN subsetD])
      then show ?thesis using Step True s ok followsD(2) [OF f d(1)] by (simp add: system_ok_def)
    qed (use assms Step in simp)
  next
    case (Crash i)
    with assms show ?thesis
      by (auto simp: system_ok_def dest!: set_update_subset_insert [THEN subsetD] intro!: rest_ok(3))
  next
    case (Requeue now)
    then show ?thesis using keep by (simp add: with_outbox_def entries.requeue_follows delivered_in_steps)
  next
    case (Enqueue r)
    then show ?thesis using keep by (simp add: with_outbox_def entries.enqueue_follows delivered_in_steps)
  qed
qed

lemma system_run_ok: "system_ok parse s \<Longrightarrow> system_ok parse (system_run parse as s)"
  by (induction as arbitrary: s) (auto intro: system_step_ok)

text \<open>C18. Nothing is delivered that was not published. From a system whose workers are idle and where nothing is
  delivered yet, through every interleaving of the steps of its workers, of crashes, expired leases and new
  entries, every entry that is marked delivered has a publication of exactly its event in the log that every
  subscriber accepted; and no entry is lost or changes its event, payload or key.\<close>

theorem delivered_was_published:
  assumes "distinct (map ox_id (sk_outbox (os_db s)))" and "\<forall>r \<in> set (sk_outbox (os_db s)). ox_status r \<noteq> ObDelivered"
    and "\<forall>w \<in> set (os_workers s). wk_todo w = []"
  shows "(\<forall>r \<in> set (sk_outbox (os_db (system_run parse as s))). ox_status r = ObDelivered
        \<longrightarrow> published parse (os_log (system_run parse as s)) r)
     \<and> (\<forall>r \<in> set (sk_outbox (os_db s)). \<exists>r' \<in> set (sk_outbox (os_db (system_run parse as s))).
          ox_id r' = ox_id r \<and> same_entry r r')"
proof
  have "system_ok parse s"
    using assms by (simp add: system_ok_def delivered_ok_def worker_ok_def)
  then show "\<forall>r \<in> set (sk_outbox (os_db (system_run parse as s))). ox_status r = ObDelivered
      \<longrightarrow> published parse (os_log (system_run parse as s)) r"
    using system_run_ok by (simp add: system_ok_def delivered_ok_def)
  show "\<forall>r \<in> set (sk_outbox (os_db s)). \<exists>r' \<in> set (sk_outbox (os_db (system_run parse as s))).
      ox_id r' = ox_id r \<and> same_entry r r'"
    using followsD(1) [OF entries.system_follows assms(1)] by blast
qed

theorem delivered_was_published_witness:
  "published verbatim (os_log (system_run verbatim [Step 0 (calm 0), Step 0 (calm 1), Step 0 (calm 2)]
       \<lparr>os_db = sample_db, os_workers = [sample_worker], os_log = []\<rparr>))
     (sample_entry\<lparr>ox_status := ObDelivered, ox_lastError := Some (SinkLease ''orchestration-main'' 60)\<rparr>)"
proof -
  let ?s = "\<lparr>os_db = sample_db, os_workers = [sample_worker], os_log = []\<rparr>"
  let ?as = "[Step 0 (calm 0), Step 0 (calm 1), Step 0 (calm 2)]"
  have rows: "sk_outbox (os_db (system_run verbatim ?as ?s))
      = [sample_entry\<lparr>ox_status := ObDelivered, ox_lastError := Some (SinkLease ''orchestration-main'' 60)\<rparr>]"
    by code_simp
  have "\<forall>r \<in> set (sk_outbox (os_db (system_run verbatim ?as ?s))). ox_status r = ObDelivered
      \<longrightarrow> published verbatim (os_log (system_run verbatim ?as ?s)) r"
    by (rule delivered_was_published [THEN conjunct1]) (simp_all add: sample_db_def sample_worker_def sample_entry_def)
  then show ?thesis unfolding rows by simp
qed

end
