(* ===== verification/Outbox_Batches.thy ===== *)
theory Outbox_Batches
  imports Outbox_Laws
begin

text \<open>
  What one worker does alone: a batch whose subscribers accept everything publishes the oldest due entries in
  order and delivers them, so repeated batches drain the queue; and however the subscribers answer, an entry
  is published at most three times.
\<close>

section \<open>Claims in order\<close>

lemma filter_in_take: "distinct xs \<Longrightarrow> filter (\<lambda>x. x \<in> set (take n (filter P xs))) xs = take n (filter P xs)"
proof (induction xs arbitrary: n)
  case (Cons x xs)
  show ?case
  proof (cases "P x \<and> n > 0")
    case True
    then obtain m where n: "n = Suc m" by (cases n) auto
    have "filter (\<lambda>y. y = x \<or> y \<in> set (take m (filter P xs))) xs = filter (\<lambda>y. y \<in> set (take m (filter P xs))) xs"
      using Cons(2) by (intro filter_cong) auto
    also have "\<dots> = take m (filter P xs)" using Cons by simp
    finally have "filter (\<lambda>y. y = x \<or> y \<in> set (take m (filter P xs))) xs = take m (filter P xs)" .
    with True n show ?thesis by simp
  next
    case False
    then have "x \<notin> set (take n (filter P xs))" using Cons(2) by (auto dest: in_set_takeD)
    with Cons False show ?thesis by auto
  qed
qed simp

definition leased :: "last_error \<Rightarrow> delivery_row \<Rightarrow> delivery_row" where
  "leased info r = r\<lparr>ox_status := ObDelivering, ox_lastError := Some info\<rparr>"

lemma due_rows_sorted: "due_rows now n rows = sql_limit n (filter (is_due now) (sort_key ox_createdTs rows))"
  by (simp add: due_rows_def filter_sort)

lemma set_due_rows: "set (due_rows now n rows) \<subseteq> {r \<in> set rows. is_due now r}"
  by (auto simp: due_rows_def sql_limit_def split: if_splits dest!: in_set_takeD)

lemma claim_in_order:
  assumes "distinct (map ox_id rows)" and "0 \<le> n" and "\<forall>r \<in> set rows. \<not> held_under (SinkLease w (seconds ms + l)) r"
  shows "fst (claimDue w n l ms rows)
      = map (\<lambda>r. rowToRecord (leased (SinkLease w (seconds ms + l)) r)) (due_rows (seconds ms) n rows)"
proof -
  let ?info = "SinkLease w (seconds ms + l)" and ?T = "due_rows (seconds ms) n rows"
  let ?f = "take_lease ?info (ox_id ` set ?T)"
  have inT: "ox_id r \<in> ox_id ` set ?T \<longleftrightarrow> r \<in> set ?T" if "r \<in> set rows" for r
    using assms(1) set_due_rows [of "seconds ms" n rows]
    by (intro inj_on_image_mem_iff [OF _ that]) (auto simp: distinct_map)
  have "held_under ?info (?f r) = (r \<in> set ?T)" if "r \<in> set rows" for r
    using assms(3) inT [OF that] that by (auto simp: take_lease_def held_under_def)
  then have "filter (held_under ?info) (map ?f rows) = map ?f (filter (\<lambda>r. r \<in> set ?T) rows)"
    by (simp add: filter_map cong: filter_cong)
  also have "sort_key ox_createdTs \<dots> = map ?f (sort_key ox_createdTs (filter (\<lambda>r. r \<in> set ?T) rows))"
    by (rule sort_key_map) (simp add: take_lease_def)
  also have "sort_key ox_createdTs (filter (\<lambda>r. r \<in> set ?T) rows) = ?T"
    using filter_in_take [of "sort_key ox_createdTs rows"] assms(1,2)
    by (simp add: filter_sort [symmetric] due_rows_sorted sql_limit_def distinct_map)
  also have "map ?f ?T = map (leased ?info) ?T"
    by (auto simp: take_lease_def leased_def)
  finally show ?thesis by (simp add: claimDue_def Let_def)
qed

section \<open>A batch that everybody accepts\<close>

definition settle :: "string set \<Rightarrow> delivery_row list \<Rightarrow> delivery_row list" where
  "settle ids rows = map (\<lambda>r. if ox_id r \<in> ids \<and> ox_status r = ObDelivering then r\<lparr>ox_status := ObDelivered\<rparr> else r) rows"

lemma settle_simps [simp]:
  "settle {} rows = rows" "map ox_id (settle ids rows) = map ox_id rows"
  "settle A (settle B rows) = settle (A \<union> B) rows"
  by (auto simp: settle_def)

lemma settle_mem:
  assumes "r \<in> set rows"
  shows "\<exists>q \<in> set (settle ids rows). ox_eventId q = ox_eventId r \<and> (ox_id r \<notin> ids \<longrightarrow> q = r)"
  using assms by (intro bexI [of _ "if ox_id r \<in> ids \<and> ox_status r = ObDelivering then r\<lparr>ox_status := ObDelivered\<rparr> else r"])
    (auto simp: settle_def)

definition publishable :: "(string \<Rightarrow> string + json) \<Rightarrow> delivery_row \<Rightarrow> bool" where
  "publishable parse r \<longleftrightarrow> (\<exists>d. event_payload parse (payload_of (ox_data r)) = Inr d)"

definition publication_of :: "(string \<Rightarrow> string + json) \<Rightarrow> delivery_row \<Rightarrow> publication" where
  "publication_of parse r = \<lparr>pb_outboxId = ox_id r,
     pb_event = outbox_event (rowToRecord r) (case event_payload parse (payload_of (ox_data r)) of Inr d \<Rightarrow> d | Inl _ \<Rightarrow> JNull),
     pb_accepted = True\<rparr>"

definition all_accept :: "step_env \<Rightarrow> bool" where
  "all_accept env \<longleftrightarrow> (\<forall>e. se_refusal env e = None)"

lemma deliver_held:
  assumes "distinct (map ox_id (sk_outbox db))" and "r \<in> set (sk_outbox db)" and "ox_status r = ObDelivering" and "record_of rc r"
  shows "sk_outbox (deliver_record env rc db) = settle {ox_id r} (sk_outbox db)"
proof -
  let ?db = "with_outbox (\<lambda>rows. snd (markDelivered (rc_id rc) (Some (nullish (rc_idempotencyKey rc) (rc_correlationId rc))) rows)) db"
  have "\<not> list_ex (\<lambda>q. ox_id q = ox_id r \<and> ox_key q = nullish (rc_idempotencyKey rc) (ox_key r) \<and> ox_status q = ObDelivered)
      (sk_outbox db)"
    using assms by (auto simp: list_ex_iff record_of_def distinct_map inj_on_def)
  then have 1: "sk_outbox ?db = settle {ox_id r} (sk_outbox db)"
    using assms(4) by (simp add: with_outbox_def markDelivered_def settle_def record_of_def)
  have "\<exists>q \<in> set (sk_outbox ?db). ox_eventId q = rc_eventId rc"
    unfolding 1 using settle_mem [OF assms(2)] assms(4) by (fastforce simp: record_of_def)
  then show ?thesis unfolding deliver_record_def Let_def by (simp add: or_else_keeps(1) 1)
qed

definition holds_record :: "delivery_row list \<Rightarrow> delivery_record \<Rightarrow> bool" where
  "holds_record rows rc \<longleftrightarrow> rc_status rc \<noteq> ObDelivered \<and> rc_lastError rc = None
     \<and> (\<exists>r \<in> set rows. record_of rc r \<and> ox_status r = ObDelivering)"

lemma finish_accepted:
  assumes "\<forall>n. all_accept (envs n)" and "wk_busy w" "\<not> wk_published w"
    and "distinct (map ox_id (sk_outbox db))" and "distinct (map rc_id (wk_todo w))"
    and "\<forall>rc \<in> set (wk_todo w). holds_record (sk_outbox db) rc \<and> (\<exists>d. event_payload parse (rc_payload rc) = Inr d)"
  shows "\<exists>w' db'. finish_batch parse envs (2 * length (wk_todo w) + 1) w db
      = ((w', db'), map (\<lambda>rc. \<lparr>pb_outboxId = rc_id rc,
           pb_event = outbox_event rc (case event_payload parse (rc_payload rc) of Inr d \<Rightarrow> d | Inl _ \<Rightarrow> JNull),
           pb_accepted = True\<rparr>) (wk_todo w))
    \<and> \<not> wk_busy w' \<and> wk_id w' = wk_id w \<and> wk_batchSize w' = wk_batchSize w \<and> wk_leaseSeconds w' = wk_leaseSeconds w
    \<and> wk_processed w' = wk_processed w + length (wk_todo w) \<and> wk_failed w' = wk_failed w
    \<and> sk_outbox db' = settle (rc_id ` set (wk_todo w)) (sk_outbox db)"
  using assms
proof (induction "wk_todo w" arbitrary: w db envs)
  case Nil
  then show ?case by (simp add: worker_step_def flip: Nil(1))
next
  case (Cons rc rest)
  note todo = Cons(2) [symmetric]
  obtain d r where d: "event_payload parse (rc_payload rc) = Inr d"
    and r: "r \<in> set (sk_outbox db)" "record_of rc r" "ox_status r = ObDelivering"
    and rc: "rc_status rc \<noteq> ObDelivered" "rc_lastError rc = None"
    using Cons(8) by (auto simp: todo holds_record_def)
  let ?w = "one_processed (w\<lparr>wk_published := True\<rparr>)" and ?db = "deliver_record (envs (Suc 0)) rc db"
  have acc: "se_refusal (envs n) e = None" for n e using Cons(3) by (simp add: all_accept_def)
  have rows: "sk_outbox ?db = settle {rc_id rc} (sk_outbox db)"
    using deliver_held [OF Cons(6) r(1,3,2)] r(2) by (simp add: record_of_def)
  have held: "holds_record (sk_outbox ?db) c" if "c \<in> set rest" for c
  proof -
    have "rc_id rc \<notin> rc_id ` set rest" and "holds_record (sk_outbox db) c" using Cons(7,8) that by (auto simp: todo)
    then have "rc_id c \<noteq> rc_id rc" and "holds_record (sk_outbox db) c" using that by (metis image_eqI)+
    then obtain q where "q \<in> set (sk_outbox db)" "record_of c q" "ox_status q = ObDelivering" "ox_id q \<notin> {rc_id rc}"
      by (auto simp: holds_record_def record_of_def)
    with settle_mem [of q "sk_outbox db" "{rc_id rc}"] \<open>holds_record (sk_outbox db) c\<close> show ?thesis
      unfolding holds_record_def rows by blast
  qed
  have IH: "\<exists>w' db'. finish_batch parse (\<lambda>n. envs (Suc (Suc n))) (2 * length (wk_todo ?w) + 1) ?w ?db
      = ((w', db'), map (\<lambda>rc. \<lparr>pb_outboxId = rc_id rc,
           pb_event = outbox_event rc (case event_payload parse (rc_payload rc) of Inr d \<Rightarrow> d | Inl _ \<Rightarrow> JNull),
           pb_accepted = True\<rparr>) (wk_todo ?w))
    \<and> \<not> wk_busy w' \<and> wk_id w' = wk_id ?w \<and> wk_batchSize w' = wk_batchSize ?w \<and> wk_leaseSeconds w' = wk_leaseSeconds ?w
    \<and> wk_processed w' = wk_processed ?w + length (wk_todo ?w) \<and> wk_failed w' = wk_failed ?w
    \<and> sk_outbox db' = settle (rc_id ` set (wk_todo ?w)) (sk_outbox ?db)"
    using Cons(3-8) held
    by (intro Cons(1)) (auto simp: todo one_processed_def next_record_def rows)
  show ?case
    using IH d rc acc Cons(4,5)
    by (auto simp: todo worker_step_def one_processed_def next_record_def publish_def Let_def rows Un_commute eval_nat_numeral
        insert_commute)
qed

text \<open>A whole batch: the due rows are delivered in order, all others stay as they are.\<close>

definition batch_done :: "last_error \<Rightarrow> delivery_row list \<Rightarrow> delivery_row list \<Rightarrow> delivery_row list" where
  "batch_done info due rows =
     map (\<lambda>r. if ox_id r \<in> ox_id ` set due then r\<lparr>ox_status := ObDelivered, ox_lastError := Some info\<rparr> else r) rows"

definition quiescent :: "int \<Rightarrow> delivery_row list \<Rightarrow> bool" where
  "quiescent t rows \<longleftrightarrow> distinct (map ox_id rows) \<and> (\<forall>r \<in> set rows. ox_status r = ObDelivering \<longrightarrow> lease_expired t r)"

lemma batch_delivers:
  assumes env: "\<forall>n. all_accept (envs n)" and w: "\<not> wk_busy w" "0 \<le> wk_batchSize w" "0 \<le> wk_leaseSeconds w"
    and q: "quiescent t (sk_outbox db)" "t \<le> seconds (se_ms (envs 0))"
    and p: "\<forall>r \<in> set (sk_outbox db). publishable parse r"
  defines "now \<equiv> seconds (se_ms (envs 0))"
  defines "due \<equiv> due_rows now (wk_batchSize w) (sk_outbox db)"
  shows "\<exists>w' db'. processBatch parse envs w db = ((w', db'), map (publication_of parse) due)
    \<and> \<not> wk_busy w' \<and> wk_id w' = wk_id w \<and> wk_batchSize w' = wk_batchSize w \<and> wk_leaseSeconds w' = wk_leaseSeconds w
    \<and> wk_processed w' = length due \<and> wk_failed w' = 0
    \<and> sk_outbox db' = batch_done (SinkLease (wk_id w) (now + wk_leaseSeconds w)) due (sk_outbox db)"
proof -
  let ?rows = "sk_outbox db" and ?info = "SinkLease (wk_id w) (now + wk_leaseSeconds w)"
  have d: "distinct (map ox_id ?rows)" using q(1) by (simp add: quiescent_def)
  have "\<not> held_under ?info r" if "r \<in> set ?rows" for r
    using q that w(3) unfolding now_def by (auto simp: quiescent_def held_under_def lease_expired_def)
  then have c: "fst (claimDue (wk_id w) (wk_batchSize w) (wk_leaseSeconds w) (se_ms (envs 0)) ?rows)
      = map (\<lambda>r. rowToRecord (leased ?info r)) due"
    using claim_in_order [OF d w(2)] unfolding now_def due_def by blast
  define rows1 where "rows1 = map (take_lease ?info (ox_id ` set due)) ?rows"
  have snd: "snd (claimDue (wk_id w) (wk_batchSize w) (wk_leaseSeconds w) (se_ms (envs 0)) ?rows) = rows1"
    by (simp add: claimDue_def Let_def rows1_def due_def now_def)
  define w1 where "w1 = w\<lparr>wk_busy := True, wk_todo := map (\<lambda>r. rowToRecord (leased ?info r)) due, wk_published := False,
    wk_processed := 0, wk_failed := 0\<rparr>"
  have start: "start_batch (envs 0) w db = (w1, db\<lparr>sk_outbox := rows1\<rparr>)"
    unfolding start_batch_def w1_def case_prod_beta Let_def c snd by (rule refl)
  have sub: "set due \<subseteq> set ?rows" using set_due_rows unfolding due_def by blast
  have dist: "distinct (map ox_id due)"
  proof -
    have "distinct (map ox_id (filter (is_due now) (sort_key ox_createdTs ?rows)))"
      using d by (simp add: distinct_map inj_on_def)
    then show ?thesis by (simp add: due_def due_rows_sorted sql_limit_def take_map [symmetric])
  qed
  have "map ox_id rows1 = map ox_id ?rows" by (auto simp: rows1_def take_lease_def)
  then have dist1: "distinct (map ox_id rows1)" using d by simp
  have "\<forall>rc \<in> set (wk_todo w1). holds_record rows1 rc \<and> (\<exists>d. event_payload parse (rc_payload rc) = Inr d)"
  proof
    fix rc assume "rc \<in> set (wk_todo w1)"
    then obtain r where r: "r \<in> set due" "rc = rowToRecord (leased ?info r)" by (auto simp: w1_def)
    then have "leased ?info r \<in> set rows1" using sub by (force simp: rows1_def leased_def take_lease_def)
    then have "holds_record rows1 rc"
      unfolding holds_record_def r(2) by (auto simp: rowToRecord_def leased_def intro!: bexI [of _ "leased ?info r"] simp: record_of_def)
    moreover have "\<exists>d. event_payload parse (rc_payload rc) = Inr d"
      using p r sub by (auto simp: publishable_def rowToRecord_def leased_def)
    ultimately show "holds_record rows1 rc \<and> (\<exists>d. event_payload parse (rc_payload rc) = Inr d)" ..
  qed
  then have fin: "\<exists>w' db'. finish_batch parse (\<lambda>n. envs (Suc n)) (2 * length (wk_todo w1) + 1) w1 (db\<lparr>sk_outbox := rows1\<rparr>)
      = ((w', db'), map (\<lambda>rc. \<lparr>pb_outboxId = rc_id rc,
           pb_event = outbox_event rc (case event_payload parse (rc_payload rc) of Inr d \<Rightarrow> d | Inl _ \<Rightarrow> JNull),
           pb_accepted = True\<rparr>) (wk_todo w1))
    \<and> \<not> wk_busy w' \<and> wk_id w' = wk_id w1 \<and> wk_batchSize w' = wk_batchSize w1 \<and> wk_leaseSeconds w' = wk_leaseSeconds w1
    \<and> wk_processed w' = wk_processed w1 + length (wk_todo w1) \<and> wk_failed w' = wk_failed w1
    \<and> sk_outbox db' = settle (rc_id ` set (wk_todo w1)) (sk_outbox (db\<lparr>sk_outbox := rows1\<rparr>))"
    using env dist1 dist
    by (intro finish_accepted) (auto simp: w1_def comp_def rowToRecord_def leased_def)
  have ids: "rc_id ` set (wk_todo w1) = ox_id ` set due"
    by (auto simp: w1_def rowToRecord_def leased_def image_image)
  have "settle (ox_id ` set due) rows1 = batch_done ?info due ?rows"
    by (simp add: settle_def rows1_def batch_done_def take_lease_def)
  moreover have "map (\<lambda>rc. \<lparr>pb_outboxId = rc_id rc,
           pb_event = outbox_event rc (case event_payload parse (rc_payload rc) of Inr d \<Rightarrow> d | Inl _ \<Rightarrow> JNull),
           pb_accepted = True\<rparr>) (wk_todo w1) = map (publication_of parse) due"
    by (simp add: w1_def publication_of_def outbox_event_def rowToRecord_def leased_def)
  ultimately show ?thesis
    using fin w(1) unfolding processBatch_def start ids by (auto simp: w1_def)
qed

section \<open>Draining the queue\<close>

fun process_batches ::
    "(string \<Rightarrow> string + json) \<Rightarrow> (nat \<Rightarrow> nat \<Rightarrow> step_env) \<Rightarrow> nat \<Rightarrow> worker \<Rightarrow> sink_db \<Rightarrow> (worker \<times> sink_db) \<times> publication list" where
  "process_batches parse envs 0 w db = ((w, db), [])"
| "process_batches parse envs (Suc k) w db =
     (let ((w1, db1), log) = processBatch parse (envs 0) w db;
          (s, log') = process_batches parse (\<lambda>j. envs (Suc j)) k w1 db1
      in (s, log @ log'))"

definition waiting :: "int \<Rightarrow> delivery_row list \<Rightarrow> delivery_row list" where
  "waiting t rows = sort_key ox_createdTs (filter (is_due t) rows)"

lemma due_later:
  assumes "quiescent t rows" and "t \<le> now"
  shows "due_rows now n rows = sql_limit n (waiting t rows)"
proof -
  have "is_due now r = is_due t r" if "r \<in> set rows" for r
    using assms that by (auto simp: quiescent_def is_due_def lease_expired_def split: option.splits)
  then show ?thesis by (simp add: due_rows_def waiting_def cong: filter_cong)
qed

lemma batch_done_ids: "map ox_id (batch_done info due rows) = map ox_id rows"
  by (auto simp: batch_done_def)

lemma filter_out_prefix: "set a \<inter> set b = {} \<Longrightarrow> filter (\<lambda>r. r \<notin> set a) (a @ b) = b"
  by (simp add: disjoint_iff) (intro filter_True; blast)

lemma batch_done_waiting:
  assumes q: "quiescent t rows" and "0 \<le> n"
  defines "due \<equiv> take (nat n) (waiting t rows)"
  shows "waiting t (batch_done info due rows) = drop (nat n) (waiting t rows)"
    and "quiescent t (batch_done info due rows)"
proof -
  let ?f = "\<lambda>r. if ox_id r \<in> ox_id ` set due then r\<lparr>ox_status := ObDelivered, ox_lastError := Some info\<rparr> else r"
  have d: "distinct (map ox_id rows)" using q by (simp add: quiescent_def)
  have sub: "set due \<subseteq> set rows" by (auto simp: due_def waiting_def dest: in_set_takeD)
  have inj: "inj_on ox_id (set rows)" using d by (simp add: distinct_map)
  have f: "?f r = (if r \<in> set due then r\<lparr>ox_status := ObDelivered, ox_lastError := Some info\<rparr> else r)" if "r \<in> set rows" for r
    using inj_on_image_mem_iff [OF inj that sub] by simp
  have "filter (is_due t) (map ?f rows) = map ?f (filter (\<lambda>r. is_due t (?f r)) rows)"
    by (simp add: filter_map comp_def)
  also have "filter (\<lambda>r. is_due t (?f r)) rows = filter (\<lambda>r. is_due t r \<and> r \<notin> set due) rows"
    using f by (intro filter_cong) (auto simp: is_due_def lease_expired_def)
  also have "map ?f \<dots> = \<dots>"
    using f by (intro map_idI) auto
  finally have "waiting t (batch_done info due rows) = filter (\<lambda>r. r \<notin> set due) (waiting t rows)"
    by (simp add: waiting_def batch_done_def filter_sort conj_commute)
  also have "\<dots> = drop (nat n) (waiting t rows)"
  proof -
    have "distinct (waiting t rows)" using d by (auto simp: waiting_def distinct_map)
    then have "set due \<inter> set (drop (nat n) (waiting t rows)) = {}"
      unfolding due_def by (simp add: set_take_disj_set_drop_if_distinct)
    then show ?thesis using filter_out_prefix [of due "drop (nat n) (waiting t rows)"] by (simp add: due_def)
  qed
  finally show "waiting t (batch_done info due rows) = drop (nat n) (waiting t rows)" .
  show "quiescent t (batch_done info due rows)"
    using q unfolding quiescent_def batch_done_ids by (auto simp: batch_done_def lease_expired_def)
qed

lemma batch_done_publishable: "\<forall>r \<in> set rows. publishable parse r \<Longrightarrow> \<forall>r \<in> set (batch_done info due rows). publishable parse r"
  by (auto simp: batch_done_def publishable_def)

text \<open>C20. A worker whose subscribers accept everything drains the queue, in order. When every lease has run out and
  every payload can be read, enough batches - together as large as the number of waiting entries - publish
  every waiting entry exactly once, oldest first, and leave none pending or in delivery.\<close>

theorem waiting_entries_drained:
  assumes "\<forall>j n. all_accept (envs j n)" and "\<not> wk_busy w" "0 < wk_batchSize w" "0 \<le> wk_leaseSeconds w"
    and "quiescent t (sk_outbox db)" "\<forall>j. t \<le> seconds (se_ms (envs j 0))"
    and "\<forall>r \<in> set (sk_outbox db). publishable parse r"
    and "length (waiting t (sk_outbox db)) \<le> k * nat (wk_batchSize w)"
  shows "\<exists>w' db'. process_batches parse envs k w db = ((w', db'), map (publication_of parse) (waiting t (sk_outbox db)))
    \<and> \<not> wk_busy w' \<and> (\<forall>r \<in> set (sk_outbox db'). ox_status r \<noteq> ObPending \<and> ox_status r \<noteq> ObDelivering)"
  using assms
proof (induction k arbitrary: envs w db)
  case 0
  then have "filter (is_due t) (sk_outbox db) = []" by (simp add: waiting_def)
  then have "\<forall>r \<in> set (sk_outbox db). ox_status r \<noteq> ObPending \<and> ox_status r \<noteq> ObDelivering"
    using 0(5) by (auto simp: filter_empty_conv is_due_def quiescent_def)
  with 0 show ?case by simp
next
  case (Suc k)
  let ?rows = "sk_outbox db" and ?n = "wk_batchSize w" and ?now = "seconds (se_ms (envs 0 0))"
  let ?info = "SinkLease (wk_id w) (?now + wk_leaseSeconds w)"
  have due: "due_rows ?now ?n ?rows = take (nat ?n) (waiting t ?rows)"
    using due_later [OF Suc(6)] Suc(4,7) by (simp add: sql_limit_def)
  obtain w1 db1 where b: "processBatch parse (envs 0) w db = ((w1, db1), map (publication_of parse) (take (nat ?n) (waiting t ?rows)))"
    and w1: "\<not> wk_busy w1" "wk_batchSize w1 = ?n" "wk_leaseSeconds w1 = wk_leaseSeconds w"
    and db1: "sk_outbox db1 = batch_done ?info (take (nat ?n) (waiting t ?rows)) ?rows"
    using batch_delivers [of "envs 0" w t db parse] Suc(2-8) unfolding due by auto
  note rest = batch_done_waiting [OF Suc(6) less_imp_le [OF Suc(4)], of ?info, folded db1]
  have "\<exists>w' db'. process_batches parse (\<lambda>j. envs (Suc j)) k w1 db1
      = ((w', db'), map (publication_of parse) (waiting t (sk_outbox db1)))
    \<and> \<not> wk_busy w' \<and> (\<forall>r \<in> set (sk_outbox db'). ox_status r \<noteq> ObPending \<and> ox_status r \<noteq> ObDelivering)"
    using Suc(2-9) w1 rest batch_done_publishable [of ?rows parse, folded db1]
    by (intro Suc(1)) (auto simp: db1)
  then show ?case unfolding rest(1)
    by (auto simp: b map_append [symmetric] append_take_drop_id simp del: map_append)
qed

section \<open>At most three attempts\<close>

fun worker_steps ::
    "(string \<Rightarrow> string + json) \<Rightarrow> step_env list \<Rightarrow> worker \<Rightarrow> sink_db \<Rightarrow> (worker \<times> sink_db) \<times> publication list" where
  "worker_steps parse [] w db = ((w, db), [])"
| "worker_steps parse (env # envs) w db =
     (let ((w1, db1), log) = worker_step parse env w db; (s, log') = worker_steps parse envs w1 db1 in (s, log @ log'))"

definition attempted :: "string \<Rightarrow> publication \<Rightarrow> bool" where
  "attempted i p \<longleftrightarrow> pb_outboxId p = i \<and> oe_type (pb_event p) \<noteq> ''outbox.dead_letter''"

definition attempts :: "string \<Rightarrow> publication list \<Rightarrow> nat" where
  "attempts i log = length (filter (attempted i) log)"

lemma attempts_simps [simp]:
  "attempts i [] = 0" "attempts i (xs @ ys) = attempts i xs + attempts i ys"
  by (simp_all add: attempts_def)

definition in_hand :: "string \<Rightarrow> worker \<Rightarrow> bool" where
  "in_hand i w \<longleftrightarrow> wk_busy w \<and> wk_published w \<and> (case wk_todo w of [] \<Rightarrow> False | rc # _ \<Rightarrow> rc_id rc = i)"

definition row_counts :: "nat \<Rightarrow> bool \<Rightarrow> delivery_row \<Rightarrow> bool" where
  "row_counts c hand r \<longleftrightarrow> int c \<le> ox_retryCount r + (if ox_status r = ObDelivered \<or> hand then 1 else 0)
     \<and> ox_retryCount r \<le> 3 \<and> (ox_status r \<noteq> ObFailed \<longrightarrow> ox_retryCount r \<le> 2)
     \<and> (hand \<longrightarrow> ox_status r = ObDelivering)"

definition todo_counts :: "delivery_row list \<Rightarrow> worker \<Rightarrow> bool" where
  "todo_counts rows w \<longleftrightarrow> distinct (map rc_id (wk_todo w)) \<and> (wk_published w \<longrightarrow> wk_busy w \<and> wk_todo w \<noteq> [])
     \<and> (\<forall>rc \<in> set (wk_todo w). rc_maxRetries rc = 3
          \<and> (wk_busy w \<longrightarrow> (\<exists>r \<in> set rows. ox_id r = rc_id rc \<and> ox_status r = ObDelivering \<and> rc_attemptCount rc = ox_retryCount r)))"

definition counts_ok :: "string \<Rightarrow> publication list \<Rightarrow> worker \<Rightarrow> delivery_row list \<Rightarrow> bool" where
  "counts_ok i log w rows \<longleftrightarrow> distinct (map ox_id rows) \<and> i \<in> ox_id ` set rows \<and> todo_counts rows w
     \<and> (\<forall>r \<in> set rows. ox_id r = i \<longrightarrow> row_counts (attempts i log) (in_hand i w) r)"

lemma counts_start:
  assumes "distinct (map ox_id rows)" "i \<in> ox_id ` set rows" "distinct (map rc_id todo)"
    and "\<forall>rc \<in> set todo. rc_maxRetries rc = 3
      \<and> (\<exists>r \<in> set rows. ox_id r = rc_id rc \<and> ox_status r = ObDelivering \<and> rc_attemptCount rc = ox_retryCount r)"
    and "\<forall>r \<in> set rows. ox_id r = i \<longrightarrow> row_counts (attempts i log) False r"
  shows "counts_ok i log (w\<lparr>wk_busy := True, wk_todo := todo, wk_published := False, wk_processed := 0, wk_failed := 0\<rparr>) rows"
  using assms by (simp add: counts_ok_def todo_counts_def in_hand_def)

lemma counts_claim:
  assumes "counts_ok i log w rows" and "\<not> wk_busy w"
  shows "counts_ok i log (w\<lparr>wk_busy := True, wk_todo := fst (claimDue v n l ms rows), wk_published := False,
    wk_processed := 0, wk_failed := 0\<rparr>) (snd (claimDue v n l ms rows))"
proof -
  let ?info = "SinkLease v (seconds ms + l)" and ?ids = "ox_id ` set (due_rows (seconds ms) n rows)"
  let ?rows = "map (take_lease ?info ?ids) rows"
  have d: "distinct (map ox_id rows)" using assms by (simp add: counts_ok_def)
  have ids: "map ox_id ?rows = map ox_id rows" by (auto simp: take_lease_def)
  have d': "distinct (map ox_id ?rows)" unfolding ids by (rule d)
  then have todo: "distinct (map rc_id (map rowToRecord (sort_key ox_createdTs (filter (held_under ?info) ?rows))))"
    by (auto simp: comp_def rowToRecord_def distinct_map inj_on_def)
  have held: "\<forall>rc \<in> set (map rowToRecord (sort_key ox_createdTs (filter (held_under ?info) ?rows))). rc_maxRetries rc = 3
      \<and> (\<exists>r \<in> set ?rows. ox_id r = rc_id rc \<and> ox_status r = ObDelivering \<and> rc_attemptCount rc = ox_retryCount r)"
    by (fastforce simp: rowToRecord_def held_under_def)
  have row: "row_counts (attempts i log) False (take_lease ?info ?ids r)" if "r \<in> set rows" "ox_id r = i" for r
  proof -
    have "row_counts (attempts i log) False r"
      using assms that by (simp add: counts_ok_def in_hand_def)
    moreover have "ox_id r \<in> ?ids \<Longrightarrow> is_due (seconds ms) r"
      using entries.due_taken [OF d that(1)] by blast
    ultimately show ?thesis
      by (auto simp: row_counts_def take_lease_def is_due_def lease_expired_def)
  qed
  have "i \<in> ox_id ` set ?rows" using assms(1) ids by (metis counts_ok_def image_set)
  moreover have "\<forall>r \<in> set ?rows. ox_id r = i \<longrightarrow> row_counts (attempts i log) False r"
    using row by (auto simp: take_lease_def split: if_splits)
  ultimately show ?thesis
    unfolding claimDue_def Let_def fst_conv snd_conv by (intro counts_start d' todo held)
qed

lemma counts_fresh:
  assumes "counts_ok i log w rows" and "adds_fresh rows rows'"
  shows "counts_ok i log w rows'"
proof -
  obtain new where n: "rows' = rows @ new" "distinct (map ox_id new)" "ox_id ` set new \<inter> ox_id ` set rows = {}"
    using assms(2) by (auto simp: adds_fresh_def)
  have "todo_counts rows' w" using assms(1) unfolding n(1) counts_ok_def todo_counts_def by (simp only: set_append) blast
  moreover have "\<forall>r \<in> set rows'. ox_id r = i \<longrightarrow> r \<in> set rows" using n assms(1) by (auto simp: counts_ok_def)
  ultimately show ?thesis using n assms(1) by (auto simp: counts_ok_def)
qed

text \<open>A step on the entry at the head: its row changes by \<open>f\<close>, the others stay, and the worker goes on.\<close>

lemma counts_head:
  assumes ok: "counts_ok i log w rows" and w: "wk_busy w" "wk_todo w = rc # rest"
    and w': "wk_busy w'" "\<not> wk_published w'" "wk_todo w' = rest"
    and f: "\<And>r. ox_id (f r) = ox_id r" "\<And>r. ox_id r \<noteq> rc_id rc \<Longrightarrow> f r = r"
    and log': "rc_id rc \<noteq> i \<longrightarrow> attempts i log' = 0"
    and row: "\<And>r. ox_id r = rc_id rc \<Longrightarrow> ox_status r = ObDelivering \<Longrightarrow> ox_retryCount r = rc_attemptCount rc \<Longrightarrow> rc_maxRetries rc = 3 \<Longrightarrow> rc_id rc = i
      \<Longrightarrow> row_counts (attempts i log) (wk_published w) r \<Longrightarrow> row_counts (attempts i (log @ log')) False (f r)"
  shows "counts_ok i (log @ log') w' (map f rows)"
proof -
  have d: "distinct (map ox_id rows)" and t: "todo_counts rows w" and i: "i \<in> ox_id ` set rows"
    and rows: "\<And>r. r \<in> set rows \<Longrightarrow> ox_id r = i \<Longrightarrow> row_counts (attempts i log) (in_hand i w) r"
    using ok by (simp_all add: counts_ok_def)
  have ids: "map ox_id (map f rows) = map ox_id rows" using f(1) by simp
  obtain h where h: "h \<in> set rows" "ox_id h = rc_id rc" "ox_status h = ObDelivering" "rc_attemptCount rc = ox_retryCount h"
    "rc_maxRetries rc = 3" using t w by (auto simp: todo_counts_def)
  have "todo_counts (map f rows) w'"
    unfolding todo_counts_def
  proof (intro conjI ballI impI)
    show "distinct (map rc_id (wk_todo w'))" using t w w' by (simp add: todo_counts_def)
    show "wk_busy w'" "wk_todo w' \<noteq> []" if "wk_published w'" using w' that by simp_all
    fix c assume c: "c \<in> set (wk_todo w')"
    then show "rc_maxRetries c = 3" using t w w' by (simp add: todo_counts_def)
    from c t w w' obtain r where r: "r \<in> set rows" "ox_id r = rc_id c" "ox_status r = ObDelivering" "rc_attemptCount c = ox_retryCount r"
      by (auto simp: todo_counts_def)
    have "rc_id rc \<notin> rc_id ` set (wk_todo w')" using t w w' by (simp add: todo_counts_def)
    with c have "rc_id c \<noteq> rc_id rc" by (metis image_eqI)
    with r f(2) [of r] show "\<exists>r \<in> set (map f rows). ox_id r = rc_id c \<and> ox_status r = ObDelivering \<and> rc_attemptCount c = ox_retryCount r"
      by (intro bexI [of _ r]) (auto intro: rev_image_eqI)
  qed
  moreover have "row_counts (attempts i (log @ log')) (in_hand i w') (f r)" if r: "r \<in> set rows" "ox_id r = i" for r
  proof (cases "rc_id rc = i")
    case True
    with r h d have "r = h" by (metis distinct_map inj_onD)
    with row [of h] h True rows [OF r] w show ?thesis by (simp add: in_hand_def w'(2))
  next
    case False
    with rows [OF r] log' f(2) [of r] r w show ?thesis by (simp add: in_hand_def w'(2))
  qed
  moreover have "i \<in> ox_id ` set (map f rows)" using i ids by (metis image_set)
  moreover have "distinct (map ox_id (map f rows))" unfolding ids by (rule d)
  ultimately show ?thesis using f(1) by (auto simp: counts_ok_def)
qed

lemma markDelivered_head:
  assumes "counts_ok i log w rows" and "wk_busy w" "wk_todo w = rc # rest"
  shows "snd (markDelivered (rc_id rc) k rows) = settle {rc_id rc} rows"
proof -
  have d: "distinct (map ox_id rows)" and "\<exists>r \<in> set rows. ox_id r = rc_id rc \<and> ox_status r = ObDelivering"
    using assms by (auto simp: counts_ok_def todo_counts_def)
  then have "\<not> list_ex (\<lambda>r. ox_id r = rc_id rc \<and> Some (ox_key r) = k \<and> ox_status r = ObDelivered) rows"
    by (auto simp: list_ex_iff distinct_map inj_on_def)
  then show ?thesis by (simp add: markDelivered_def settle_def)
qed

lemma counts_fail:
  assumes ok: "counts_ok i log w rows" and w: "wk_busy w" "wk_todo w = rc # rest" "\<not> wk_published w"
    and log': "attempts i log' \<le> (if rc_id rc = i then 1 else 0)"
    and fresh: "adds_fresh (markFailed (rc_id rc) (rc_attemptCount rc + 1) m (rc_maxRetries rc) rows) rows'"
  shows "counts_ok i (log @ log') (one_failed w) rows'"
proof -
  have "counts_ok i (log @ log') (one_failed w) (markFailed (rc_id rc) (rc_attemptCount rc + 1) m (rc_maxRetries rc) rows)"
    unfolding markFailed_def
  proof (rule counts_head [OF ok w(1,2)])
    fix r assume "ox_id r = rc_id rc" "ox_status r = ObDelivering" "ox_retryCount r = rc_attemptCount rc" "rc_maxRetries rc = 3" "rc_id rc = i"
      "row_counts (attempts i log) (wk_published w) r"
    then show "row_counts (attempts i (log @ log')) False (if ox_id r = rc_id rc
        then r\<lparr>ox_status := (if rc_maxRetries rc \<le> rc_attemptCount rc + 1 then ObFailed else ObPending),
               ox_retryCount := rc_attemptCount rc + 1, ox_lastError := Some (ErrorText m)\<rparr> else r)"
      using log' w(3) by (auto simp: row_counts_def)
  qed (use w log' in \<open>auto simp: one_failed_def next_record_def\<close>)
  then show ?thesis using fresh by (rule counts_fresh)
qed

lemma dead_attempts: "fail_record env rc m db = (db', dead) \<Longrightarrow> attempts i dead = 0"
  by (auto simp: fail_record_def Let_def attempts_def attempted_def publish_def dead_letter_event_def split: if_splits)

lemma counts_accept:
  assumes ok: "counts_ok i log w rows" and w: "wk_busy w" "wk_todo w = rc # rest" "\<not> wk_published w"
    and p: "pb_outboxId p = rc_id rc"
  shows "counts_ok i (log @ [p]) (w\<lparr>wk_published := True\<rparr>) rows"
proof -
  have hand: "in_hand i (w\<lparr>wk_published := True\<rparr>) = (rc_id rc = i)" "\<not> in_hand i w" using w by (simp_all add: in_hand_def)
  have c: "attempts i [p] \<le> (if rc_id rc = i then 1 else 0)" using p by (auto simp: attempts_def attempted_def)
  have "row_counts (attempts i (log @ [p])) (rc_id rc = i) r" if r: "r \<in> set rows" "ox_id r = i" for r
  proof -
    have "row_counts (attempts i log) False r" using ok r hand(2) by (auto simp: counts_ok_def)
    moreover have "ox_status r = ObDelivering" if "rc_id rc = i"
      using ok w r that by (auto simp: counts_ok_def todo_counts_def distinct_map inj_on_def)
    ultimately show ?thesis using c by (auto simp: row_counts_def split: if_splits)
  qed
  then show ?thesis using ok w hand(1) by (auto simp: counts_ok_def todo_counts_def)
qed

lemma counts_step:
  assumes ok: "counts_ok i log w (sk_outbox db)" and step: "worker_step parse env w db = ((w', db'), log')"
  shows "counts_ok i (log @ log') w' (sk_outbox db')"
proof (cases "wk_busy w")
  case False
  with step have "w' = w\<lparr>wk_busy := True, wk_todo := fst (claimDue (wk_id w) (wk_batchSize w) (wk_leaseSeconds w) (se_ms env) (sk_outbox db)),
      wk_published := False, wk_processed := 0, wk_failed := 0\<rparr>" "log' = []"
    "sk_outbox db' = snd (claimDue (wk_id w) (wk_batchSize w) (wk_leaseSeconds w) (se_ms env) (sk_outbox db))"
    by (auto simp: worker_step_def start_batch_def case_prod_beta Let_def)
  with counts_claim [OF ok False] show ?thesis by simp
next
  case True
  show ?thesis
  proof (cases "wk_todo w")
    case Nil
    with step True have "w' = w\<lparr>wk_busy := False\<rparr>" "db' = db" "log' = []" by (simp_all add: worker_step_def)
    with ok Nil show ?thesis by (auto simp: counts_ok_def todo_counts_def in_hand_def)
  next
    case (Cons rc rest)
    show ?thesis
    proof (cases "wk_published w")
      case p: True
      with step True Cons have s: "w' = one_processed w" "log' = []" "db' = deliver_record env rc db"
        by (simp_all add: worker_step_def)
      have "adds_fresh (settle {rc_id rc} (sk_outbox db)) (sk_outbox db')"
        using deliver_record_rows [of rc db env] markDelivered_head [OF ok True Cons] s by simp
      moreover have "counts_ok i (log @ log') w' (settle {rc_id rc} (sk_outbox db))"
        unfolding settle_def
      proof (rule counts_head [OF ok True Cons])
        fix r assume "ox_id r = rc_id rc" "ox_status r = ObDelivering" "row_counts (attempts i log) (wk_published w) r"
        then show "row_counts (attempts i (log @ log')) False
            (if ox_id r \<in> {rc_id rc} \<and> ox_status r = ObDelivering then r\<lparr>ox_status := ObDelivered\<rparr> else r)"
          using p s by (auto simp: row_counts_def)
      qed (use True Cons s in \<open>auto simp: one_processed_def next_record_def\<close>)
      ultimately show ?thesis by (rule counts_fresh [rotated])
    next
      case p: False
      note step = step [unfolded worker_step_def if_not_P [OF p] Cons list.case, simplified True p, simplified]
      note fail = counts_fail [OF ok True Cons p]
      show ?thesis
      proof (cases "rc_status rc = ObDelivered")
        case skip: True
        with step have s: "w' = one_processed w" "log' = []" "db' = db" by simp_all
        have "counts_ok i (log @ log') w' (map (\<lambda>r. r) (sk_outbox db))"
          by (rule counts_head [OF ok True Cons]) (use True Cons s p in \<open>auto simp: one_processed_def next_record_def\<close>)
        then show ?thesis by (simp add: s)
      next
        case live: False
        show ?thesis
        proof (cases "truthy (rc_lastError rc) \<and> isDecodeError (nullish (rc_lastError rc) [])")
          case bad: True
          with step live have s: "w' = one_failed w" "log' = []"
            "sk_outbox db' = markFailed (rc_id rc) (rc_attemptCount rc + 1) (nullish (rc_lastError rc) []) (rc_maxRetries rc) (sk_outbox db)"
            by (auto simp: with_outbox_def)
          show ?thesis unfolding s by (rule fail [OF _ adds_fresh_refl]) simp
        next
          case fine: False
          show ?thesis
          proof (cases "event_payload parse (rc_payload rc)")
            case (Inl msg)
            with step live fine obtain dead where s: "w' = one_failed w" "log' = dead" "fail_record env rc msg db = (db', dead)"
              by (auto split: prod.splits)
            show ?thesis
              unfolding s(1) using dead_attempts [OF s(3)] s(2) by (intro fail [OF _ fail_record_rows [OF s(3)]]) simp
          next
            case (Inr d)
            let ?p = "publish env (rc_id rc) (outbox_event rc d)"
            show ?thesis
            proof (cases "se_refusal env (outbox_event rc d)")
              case None
              with step live fine Inr have s: "w' = w\<lparr>wk_published := True\<rparr>" "log' = [?p]" "db' = db" by auto
              show ?thesis unfolding s by (rule counts_accept [OF ok True Cons p]) (simp add: publish_def)
            next
              case (Some msg)
              with step live fine Inr obtain dead where s: "w' = one_failed w" "log' = ?p # dead" "fail_record env rc msg db = (db', dead)"
                by (auto simp: Let_def split: prod.splits)
              have "attempts i log' \<le> (if rc_id rc = i then 1 else 0)"
                using dead_attempts [OF s(3), of i] s(2) by (auto simp: attempts_def attempted_def publish_def)
              then show ?thesis unfolding s(1) by (rule fail [OF _ fail_record_rows [OF s(3)]])
            qed
          qed
        qed
      qed
    qed
  qed
qed

lemma counts_steps:
  "counts_ok i log w (sk_outbox db) \<Longrightarrow> worker_steps parse envs w db = ((w', db'), log')
    \<Longrightarrow> counts_ok i (log @ log') w' (sk_outbox db')"
proof (induction envs arbitrary: log w db log')
  case (Cons env envs)
  obtain w1 db1 l1 where s: "worker_step parse env w db = ((w1, db1), l1)" by (metis prod.exhaust)
  obtain s2 l2 where r: "worker_steps parse envs w1 db1 = (s2, l2)" by fastforce
  with Cons(3) s have eqs: "s2 = (w', db')" "log' = l1 @ l2" by simp_all
  show ?case using Cons(1) [OF counts_step [OF Cons(2) s] r [unfolded eqs(1)]] by (simp add: eqs(2))
qed simp

text \<open>C21. A worker gives up at the third attempt. Whatever the subscribers answer and however long it goes on, a
  worker that runs alone and does not crash publishes a new entry at most three times; and whatever its steps,
  an entry that has failed stays failed: no claim returns it.\<close>

theorem three_attempts:
  assumes "distinct (map ox_id (sk_outbox db))" and "r \<in> set (sk_outbox db)" and "ox_status r = ObPending" "ox_retryCount r = 0"
    and "wk_todo w = []" "\<not> wk_busy w" "\<not> wk_published w"
    and "worker_steps parse envs w db = ((w', db'), log)"
  shows "attempts (ox_id r) log \<le> 3
    \<and> (\<forall>q \<in> set (sk_outbox db'). ox_status q = ObFailed \<longrightarrow> ox_id q \<notin> rc_id ` set (fst (claimDue v n l ms (sk_outbox db'))))"
proof
  have unique: "q = r" if "q \<in> set (sk_outbox db)" "ox_id q = ox_id r" for q
    using that assms(1,2) by (auto simp: distinct_map inj_on_def)
  have "row_counts 0 False q" if "q \<in> set (sk_outbox db)" "ox_id q = ox_id r" for q
    using unique [OF that] assms(3,4) by (simp add: row_counts_def)
  then have "counts_ok (ox_id r) [] w (sk_outbox db)"
    using assms(1,2,5-7) by (simp add: counts_ok_def todo_counts_def in_hand_def)
  from counts_steps [OF this assms(8)] have ok: "counts_ok (ox_id r) log w' (sk_outbox db')" by simp
  then obtain q where "row_counts (attempts (ox_id r) log) (in_hand (ox_id r) w') q" by (auto simp: counts_ok_def)
  then show "attempts (ox_id r) log \<le> 3" by (auto simp: row_counts_def split: if_splits)
  show "\<forall>q \<in> set (sk_outbox db'). ox_status q = ObFailed \<longrightarrow> ox_id q \<notin> rc_id ` set (fst (claimDue v n l ms (sk_outbox db')))"
  proof (intro ballI impI notI)
    fix q assume q: "q \<in> set (sk_outbox db')" "ox_status q = ObFailed"
      and "ox_id q \<in> rc_id ` set (fst (claimDue v n l ms (sk_outbox db')))"
    then obtain p where p: "p \<in> set (snd (claimDue v n l ms (sk_outbox db')))" "ox_id p = ox_id q" "held_under (SinkLease v (seconds ms + l)) p"
      using claimed_rows by (fastforce simp: rowToRecord_def)
    have d: "distinct (map ox_id (sk_outbox db'))" using ok by (simp add: counts_ok_def)
    from p(1) obtain p0 where p0: "p0 \<in> set (sk_outbox db')" "p = take_lease (SinkLease v (seconds ms + l)) (ox_id ` set (due_rows (seconds ms) n (sk_outbox db'))) p0"
      by (auto simp: claimDue_def Let_def)
    with p q d have "p0 = q" by (auto simp: take_lease_def distinct_map inj_on_def split: if_splits)
    then have "\<not> is_due (seconds ms) p0" using q by (simp add: is_due_def lease_expired_def)
    then have "ox_id p0 \<notin> ox_id ` set (due_rows (seconds ms) n (sk_outbox db'))"
      using entries.due_taken [OF d p0(1)] by blast
    with p0 \<open>p0 = q\<close> q(2) p(3) show False by (simp add: take_lease_def held_under_def)
  qed
qed

theorem waiting_entries_drained_witness:
  "\<exists>w' db'. process_batches verbatim (\<lambda>j n. calm 0) 1 sample_worker sample_db
      = ((w', db'), [publication_of verbatim sample_entry]) \<and> \<not> wk_busy w'"
proof -
  have w: "waiting 0 (sk_outbox sample_db) = [sample_entry]"
    by (simp add: waiting_def is_due_def sample_db_def) (simp add: sample_entry_def)
  have "\<exists>w' db'. process_batches verbatim (\<lambda>j n. calm 0) 1 sample_worker sample_db
      = ((w', db'), map (publication_of verbatim) (waiting 0 (sk_outbox sample_db)))
    \<and> \<not> wk_busy w' \<and> (\<forall>r \<in> set (sk_outbox db'). ox_status r \<noteq> ObPending \<and> ox_status r \<noteq> ObDelivering)"
    by (rule waiting_entries_drained)
      (simp_all add: w, simp_all add: all_accept_def calm_def sample_worker_def quiescent_def sample_db_def sample_entry_def
        seconds_def publishable_def event_payload_def)
  then show ?thesis unfolding w by auto
qed

text \<open>Subscribers that always refuse.\<close>

definition hostile :: "int \<Rightarrow> step_env" where
  "hostile ms = \<lparr>se_ms = ms, se_ids = nat_str, se_refusal = (\<lambda>_. Some ''no'')\<rparr>"

theorem three_attempts_witness:
  "attempts ''o1'' (snd (worker_steps verbatim (map hostile [0..8]) sample_worker sample_db)) \<le> 3"
proof -
  obtain w' db' log where s: "worker_steps verbatim (map hostile [0..8]) sample_worker sample_db = ((w', db'), log)"
    by (metis prod.exhaust)
  have "attempts (ox_id sample_entry) log \<le> 3"
    by (rule three_attempts [THEN conjunct1, OF _ _ _ _ _ _ _ s]) (simp_all add: sample_db_def sample_worker_def sample_entry_def)
  with s show ?thesis by (simp add: sample_entry_def)
qed

lemma three_attempts_reached:
  "attempts ''o1'' (snd (worker_steps verbatim (map hostile [0..8]) sample_worker sample_db)) = 3"
  by code_simp

end
