(* ===== verification/Outbox_Faults.thy ===== *)
theory Outbox_Faults
  imports Outbox_Batches
begin

text \<open>
  A created run reaches the subscribers, as another event than the one it wrote; and where the delivery fails:
  a late failure report reopens a delivered entry, an unreadable payload is published, and workers of one
  name that claim in one second share their entries.
\<close>

section \<open>A single entry\<close>

lemma claim_single:
  "is_due (seconds ms) r \<Longrightarrow> n \<noteq> 0
    \<Longrightarrow> claimDue w n l ms [r] = ([rowToRecord (leased (SinkLease w (seconds ms + l)) r)], [leased (SinkLease w (seconds ms + l)) r])"
  by (auto simp: claimDue_def Let_def due_rows_def sql_limit_def take_lease_def held_under_def leased_def take_Cons')

lemma event_of_leased [simp]: "outbox_event (rowToRecord (leased info r)) d = outbox_event (rowToRecord r) d"
  by (simp add: outbox_event_def rowToRecord_def leased_def)

lemma leased_simps [simp]:
  "ox_id (leased info r) = ox_id r" "ox_status (leased info r) = ObDelivering" "ox_lastError (leased info r) = Some info"
  "ox_eventId (leased info r) = ox_eventId r" "ox_retryCount (leased info r) = ox_retryCount r" "ox_data (leased info r) = ox_data r"
  "leased info (leased info' r) = leased info r"
  by (simp_all add: leased_def)

lemma record_simps [simp]:
  "rc_id (rowToRecord r) = ox_id r" "rc_status (rowToRecord r) = ox_status r" "rc_attemptCount (rowToRecord r) = ox_retryCount r"
  "rc_eventId (rowToRecord r) = ox_eventId r" "rc_maxRetries (rowToRecord r) = 3" "rc_payload (rowToRecord r) = payload_of (ox_data r)"
  by (simp_all add: rowToRecord_def)

lemma lease_no_error [simp]: "rc_lastError (rowToRecord (leased (SinkLease w u) r)) = None"
  by (simp add: rowToRecord_def)

lemma deliver_single:
  "sk_outbox db = [leased i r] \<Longrightarrow> sk_outbox (deliver_record env (rowToRecord (leased j r)) db) = [(leased i r)\<lparr>ox_status := ObDelivered\<rparr>]"
  by (subst deliver_held [of db "leased i r"]) (simp_all add: settle_def record_of_def rowToRecord_def leased_def)

lemma start_single:
  assumes "sk_outbox db = [r]" and "is_due (seconds (se_ms env)) r" and "wk_batchSize w \<noteq> 0"
  defines "info \<equiv> SinkLease (wk_id w) (seconds (se_ms env) + wk_leaseSeconds w)"
  shows "start_batch env w db = (w\<lparr>wk_busy := True, wk_todo := [rowToRecord (leased info r)], wk_published := False,
      wk_processed := 0, wk_failed := 0\<rparr>, db\<lparr>sk_outbox := [leased info r]\<rparr>)"
  using assms(1) claim_single [OF assms(2,3), of "wk_id w" "wk_leaseSeconds w"] by (simp add: start_batch_def info_def)

section \<open>A late failure\<close>

text \<open>A failure that is reported too late reopens a delivered entry. One worker claims an entry and is slow; its
  lease runs out, a second worker claims the entry, publishes it and delivers it; then a subscriber refuses the
  first worker's publication. \<open>markFailed\<close> names the row by its id alone: the delivered entry is pending again,
  and the next batch publishes it once more.\<close>

theorem late_failure_reopens:
  assumes "sk_outbox db = [r]" and "ox_status r = ObPending" and "ox_retryCount r < 2"
    and "event_payload parse (payload_of (ox_data r)) = Inr d"
    and "\<not> wk_busy a" "\<not> wk_busy b" "wk_batchSize a \<noteq> 0" "wk_batchSize b \<noteq> 0"
    and "seconds (se_ms e1) + wk_leaseSeconds a < seconds (se_ms e2)"
    and "se_refusal e3 (outbox_event (rowToRecord r) d) = None" "se_refusal e5 (outbox_event (rowToRecord r) d) = Some m"
  shows "\<exists>before s. system_run parse [Step 0 e1, Step 1 e2, Step 1 e3, Step 1 e4]
        \<lparr>os_db = db, os_workers = [a, b], os_log = []\<rparr> = before
    \<and> (\<forall>q \<in> set (sk_outbox (os_db before)). ox_status q = ObDelivered)
    \<and> system_step parse (Step 0 e5) before = s
    \<and> sk_outbox (os_db s) = [r\<lparr>ox_retryCount := ox_retryCount r + 1, ox_lastError := Some (ErrorText m)\<rparr>]
    \<and> map pb_accepted (os_log s) = [True, False]"
proof -
  let ?i = "SinkLease (wk_id a) (seconds (se_ms e1) + wk_leaseSeconds a)"
  let ?j = "SinkLease (wk_id b) (seconds (se_ms e2) + wk_leaseSeconds b)"
  let ?p = "\<lambda>e. publish e (ox_id r) (outbox_event (rowToRecord r) d)"
  define a1 where "a1 = a\<lparr>wk_busy := True, wk_todo := [rowToRecord (leased ?i r)], wk_published := False, wk_processed := 0, wk_failed := 0\<rparr>"
  define b1 where "b1 = b\<lparr>wk_busy := True, wk_todo := [rowToRecord (leased ?j r)], wk_published := False, wk_processed := 0, wk_failed := 0\<rparr>"
  have c1: "worker_step parse e1 a db = ((a1, db\<lparr>sk_outbox := [leased ?i r]\<rparr>), [])"
    using start_single [OF assms(1), of e1 a] assms by (simp add: worker_step_def is_due_def a1_def)
  have c2: "worker_step parse e2 b (db\<lparr>sk_outbox := [leased ?i r]\<rparr>) = ((b1, db\<lparr>sk_outbox := [leased ?j r]\<rparr>), [])"
    using start_single [of "db\<lparr>sk_outbox := [leased ?i r]\<rparr>" "leased ?i r" e2 b] assms
    by (simp add: worker_step_def is_due_def lease_expired_def b1_def)
  have c3: "worker_step parse e3 b1 (db\<lparr>sk_outbox := [leased ?j r]\<rparr>)
      = ((b1\<lparr>wk_published := True\<rparr>, db\<lparr>sk_outbox := [leased ?j r]\<rparr>), [?p e3])"
    using assms by (simp add: worker_step_def b1_def Let_def)
  define db4 where "db4 = deliver_record e4 (rowToRecord (leased ?j r)) (db\<lparr>sk_outbox := [leased ?j r]\<rparr>)"
  have c4: "worker_step parse e4 (b1\<lparr>wk_published := True\<rparr>) (db\<lparr>sk_outbox := [leased ?j r]\<rparr>)
      = ((one_processed (b1\<lparr>wk_published := True\<rparr>), db4), [])"
    by (simp add: worker_step_def b1_def db4_def)
  have rows4: "sk_outbox db4 = [(leased ?j r)\<lparr>ox_status := ObDelivered\<rparr>]"
    unfolding db4_def by (rule deliver_single) simp
  have c5: "worker_step parse e5 a1 db4 = ((one_failed a1,
      with_outbox (markFailed (ox_id r) (ox_retryCount r + 1) m 3) db4), [?p e5])"
    using assms by (simp add: worker_step_def a1_def Let_def fail_record_def)
  have rows5: "sk_outbox (with_outbox (markFailed (ox_id r) (ox_retryCount r + 1) m 3) db4)
      = [r\<lparr>ox_retryCount := ox_retryCount r + 1, ox_lastError := Some (ErrorText m)\<rparr>]"
    using assms(2,3) by (simp add: with_outbox_def rows4 markFailed_def leased_def)
  show ?thesis
    using assms(10,11) by (simp add: c1 c2 c3 c4 c5 rows4 rows5 publish_def)
qed

theorem late_failure_reopens_witness:
  "\<exists>s. system_run verbatim [Step 0 (calm 0), Step 1 (calm 61000), Step 1 (calm 61000), Step 1 (calm 61000), Step 0 (hostile 62000)]
        \<lparr>os_db = sample_db, os_workers = [sample_worker, sample_worker], os_log = []\<rparr> = s
    \<and> sk_outbox (os_db s) = [sample_entry\<lparr>ox_retryCount := 1, ox_lastError := Some (ErrorText ''no'')\<rparr>]"
proof -
  have "\<exists>before s. system_run verbatim [Step 0 (calm 0), Step 1 (calm 61000), Step 1 (calm 61000), Step 1 (calm 61000)]
        \<lparr>os_db = sample_db, os_workers = [sample_worker, sample_worker], os_log = []\<rparr> = before
    \<and> (\<forall>q \<in> set (sk_outbox (os_db before)). ox_status q = ObDelivered)
    \<and> system_step verbatim (Step 0 (hostile 62000)) before = s
    \<and> sk_outbox (os_db s) = [sample_entry\<lparr>ox_retryCount := ox_retryCount sample_entry + 1, ox_lastError := Some (ErrorText ''no'')\<rparr>]
    \<and> map pb_accepted (os_log s) = [True, False]"
    by (rule late_failure_reopens [where d = "JObj []"])
      (simp_all add: sample_db_def sample_worker_def calm_def hostile_def seconds_def, simp_all add: sample_entry_def event_payload_def)
  then show ?thesis by (auto simp: sample_entry_def simp del: system_step.simps)
qed

section \<open>Unreadable payloads\<close>

text \<open>The sink hides that a payload could not be read: no claimed record carries an error, so the worker's
  detection of decode errors never sees one, and what it publishes is the raw text.\<close>

lemma claimed_without_error: "rc \<in> set (fst (claimDue w n l ms rows)) \<Longrightarrow> rc_lastError rc = None"
  using claimed_rows by (fastforce simp: held_under_def rowToRecord_def)

theorem unreadable_payload_published:
  assumes "\<forall>n. all_accept (envs n)" and "\<not> wk_busy w" "0 \<le> wk_batchSize w" "0 \<le> wk_leaseSeconds w"
    and "quiescent t (sk_outbox db)" "t \<le> seconds (se_ms (envs 0))"
    and "\<forall>r \<in> set (sk_outbox db). publishable parse r"
    and "r \<in> set (due_rows (seconds (se_ms (envs 0))) (wk_batchSize w) (sk_outbox db))" "ox_data r = Unparsable s" "s \<noteq> []"
  shows "\<exists>w' db' log. processBatch parse envs w db = ((w', db'), log) \<and> wk_failed w' = 0
    \<and> (\<exists>p \<in> set log. pb_outboxId p = ox_id r \<and> oe_data (pb_event p) = JObj [(''raw'', JStr s)] \<and> pb_accepted p)
    \<and> (\<exists>q \<in> set (sk_outbox db'). ox_id q = ox_id r \<and> ox_status q = ObDelivered)"
proof -
  let ?due = "due_rows (seconds (se_ms (envs 0))) (wk_batchSize w) (sk_outbox db)"
  obtain w' db' where b: "processBatch parse envs w db = ((w', db'), map (publication_of parse) ?due)" "wk_failed w' = 0"
    "sk_outbox db' = batch_done (SinkLease (wk_id w) (seconds (se_ms (envs 0)) + wk_leaseSeconds w)) ?due (sk_outbox db)"
    using batch_delivers [OF assms(1-7)] by blast
  have "publication_of parse r \<in> set (map (publication_of parse) ?due)" using assms(8) by simp
  moreover have "oe_data (pb_event (publication_of parse r)) = JObj [(''raw'', JStr s)]"
    using assms(9,10) by (simp add: publication_of_def outbox_event_def event_payload_def)
  moreover have "\<exists>q \<in> set (sk_outbox db'). ox_id q = ox_id r \<and> ox_status q = ObDelivered"
  proof -
    have "r \<in> set (sk_outbox db)" using set_due_rows assms(8) by blast
    then show ?thesis using assms(8) unfolding b(3) batch_done_def set_map by (intro bexI [OF _ imageI]) auto
  qed
  moreover have "pb_outboxId (publication_of parse r) = ox_id r" "pb_accepted (publication_of parse r)"
    by (simp_all add: publication_of_def)
  ultimately show ?thesis using b(1,2) by blast
qed

section \<open>Workers of one name\<close>

text \<open>The claim reads back the rows by the text of its lease. Two workers of one name - every process calls its
  worker \<open>orchestration-main\<close> - that claim in one second with one lease time therefore both get what the first
  one claimed, and both publish it.\<close>

theorem same_second_claims_shared:
  assumes "seconds ms' = seconds ms" and "0 \<le> l" and "distinct (map ox_id rows)"
  shows "rc_id ` set (fst (claimDue w n l ms rows)) \<subseteq> rc_id ` set (fst (claimDue w n' l ms' (snd (claimDue w n l ms rows))))"
proof
  let ?info = "SinkLease w (seconds ms + l)" and ?rows = "snd (claimDue w n l ms rows)"
  fix i assume "i \<in> rc_id ` set (fst (claimDue w n l ms rows))"
  then obtain r where r: "r \<in> set ?rows" "held_under ?info r" "i = ox_id r"
    using claimed_rows by (fastforce simp: rowToRecord_def)
  let ?f = "take_lease ?info (ox_id ` set (due_rows (seconds ms) n' ?rows))"
  have "held_under ?info (?f r)" using r(2) by (simp add: take_lease_def held_under_def)
  with r(1) have "rowToRecord (?f r) \<in> set (fst (claimDue w n' l ms' ?rows))"
    by (auto simp: claimDue_def Let_def assms(1))
  moreover have "rc_id (rowToRecord (?f r)) = i" using r(3) by (simp add: take_lease_def)
  ultimately show "i \<in> rc_id ` set (fst (claimDue w n' l ms' ?rows))" by (metis image_eqI)
qed

section \<open>A created run reaches the subscribers\<close>

definition delivery_db :: "ledger \<Rightarrow> sink_db" where
  "delivery_db l = \<lparr>sk_outbox = map as_inserted (lg_outbox l), sk_events = lg_events l, sk_subscribers = [],
     sk_deliveries = [], sk_deadLetters = []\<rparr>"

text \<open>The event of a created run is published by the next batch, but not as it was written: its id, type, aggregate
  and data are those of the run's event, while its correlation id is the id of the outbox entry instead of the
  run's correlation id, and its aggregate version is always 1.\<close>

theorem created_run_published:
  assumes "create_commit u now i c l = Inr (run, l')" and "ids_fresh u l"
    and "distinct (map ob_id (lg_outbox l))" and "\<forall>x \<in> set (lg_outbox l). ob_status x \<noteq> ObDelivering"
    and "\<forall>x \<in> set (lg_outbox l). publishable parse (as_inserted x)"
    and "\<forall>n. all_accept (envs n)" and "\<not> wk_busy w" "0 \<le> wk_leaseSeconds w"
    and "length (lg_outbox l) < nat (wk_batchSize w)"
  shows "\<exists>s log. processBatch parse envs w (delivery_db l') = (s, log)
    \<and> \<lparr>pb_outboxId = u 2,
        pb_event = \<lparr>oe_id = u 1, oe_type = ''run.queued'', oe_correlationId = u 2, oe_causationId = Some (u 2),
                    oe_aggregateId = Some (u 0), oe_aggregateVersion = Some 1,
                    oe_data = JObj [(''runType'', JStr (cri_runType i))], oe_metadata = JObj []\<rparr>,
        pb_accepted = True\<rparr> \<in> set log"
proof -
  let ?t = "seconds (se_ms (envs 0))" and ?x = "as_inserted (queued_entry u now i)"
  have rows: "sk_outbox (delivery_db l') = map as_inserted (lg_outbox l) @ [?x]"
    using create_commit_Inr [OF assms(2,1)] by (simp add: delivery_db_def with_created_def Let_def)
  have x: "ox_id ?x = u 2" "ox_status ?x = ObPending" "publishable parse ?x"
    by (simp_all add: as_inserted_def queued_entry_def publishable_def event_payload_def)
  have "distinct (map ox_id (sk_outbox (delivery_db l')))"
    using assms(2,3) x(1) unfolding rows by (auto simp: comp_def as_inserted_def ids_fresh_def list_ex_iff)
  then have q: "quiescent ?t (sk_outbox (delivery_db l'))"
    using assms(4) x(2) unfolding rows by (auto simp: quiescent_def as_inserted_def)
  have p: "\<forall>r \<in> set (sk_outbox (delivery_db l')). publishable parse r"
    using assms(5) x(3) unfolding rows by auto
  have size: "0 \<le> wk_batchSize w" "nat (wk_batchSize w) \<ge> length (sk_outbox (delivery_db l'))"
    using assms(9) unfolding rows by auto
  let ?due = "due_rows ?t (wk_batchSize w) (sk_outbox (delivery_db l'))"
  have "length (filter (is_due ?t) (sk_outbox (delivery_db l'))) \<le> nat (wk_batchSize w)"
    using size(2) length_filter_le le_trans by blast
  then have "set ?due = set (filter (is_due ?t) (sk_outbox (delivery_db l')))"
    using size(1) by (simp add: due_rows_def sql_limit_def)
  then have "?x \<in> set ?due" using x(2) by (simp add: rows is_due_def)
  moreover obtain s where "processBatch parse envs w (delivery_db l') = (s, map (publication_of parse) ?due)"
    using batch_delivers [OF assms(6,7) size(1) assms(8) q order_refl p] by auto
  ultimately show ?thesis
    by (force simp: publication_of_def outbox_event_def rowToRecord_def as_inserted_def queued_entry_def event_payload_def)
qed

theorem created_run_published_witness:
  "\<exists>s log. processBatch verbatim (\<lambda>n. calm 0) sample_worker (delivery_db one_row) = (s, log)
    \<and> \<lparr>pb_outboxId = first_ids 2,
        pb_event = \<lparr>oe_id = first_ids 1, oe_type = ''run.queued'', oe_correlationId = first_ids 2,
                    oe_causationId = Some (first_ids 2), oe_aggregateId = Some (first_ids 0),
                    oe_aggregateVersion = Some 1, oe_data = JObj [(''runType'', JStr (cri_runType (wish None)))],
                    oe_metadata = JObj []\<rparr>,
        pb_accepted = True\<rparr> \<in> set log"
proof (rule created_run_published)
  show "create_commit first_ids 1 (wish None) ''task'' no_rows = Inr (queued_run first_ids 1 (wish None) ''task'', one_row)"
    by (simp add: create_commit_eq one_row_def) (simp add: no_rows_def family_taken_def claim_free_def)
qed (simp_all add: no_rows_def all_accept_def calm_def sample_worker_def first_fresh [unfolded no_rows_def])

end
