(* ===== verification/Outbox_Repository.thy ===== *)
theory Outbox_Repository
  imports Outbox_Faults
begin

text \<open>
  The outbox repository over the same rows (\<open>persistence/adapters/sqlite-outbox-repository.ts\<close>), the event
  repository of \<open>composition.ts\<close>, and the event service that writes to both and publishes
  (\<open>services/event-service.ts\<close>). \<open>decode\<close> gives the message of the JSON decoder for a text it cannot read,
  \<open>reads\<close> what a stored text is when it is read again.
\<close>

section \<open>Entries\<close>

definition error_column :: "last_error \<Rightarrow> string" where
  "error_column e = (case e of
     ErrorText s \<Rightarrow> s
   | SinkLease w u \<Rightarrow> json_str (JObj [(''workerId'', JStr w), (''leaseUntil'', JNum u)])
   | RepositoryLease w u \<Rightarrow> json_str (JObj [(''claimedBy'', JStr w), (''leaseUntil'', JNum u)]))"

record repo_entry =
  rp_id :: string
  rp_eventId :: string
  rp_eventType :: string
  rp_status :: outbox_status
  rp_correlationId :: string
  rp_aggregateId :: string
  rp_attemptCount :: int
  rp_retryCount :: int
  rp_maxRetries :: int
  rp_lastError :: "string option"
  rp_payload :: json
  rp_createdAt :: int

definition rowToEntry :: "(string \<Rightarrow> string) \<Rightarrow> delivery_row \<Rightarrow> repo_entry" where
  "rowToEntry decode r =
     (let err = map_option error_column (ox_lastError r);
          (payload, err') = (case ox_data r of
             Stored j \<Rightarrow> (j, err)
           | Unparsable s \<Rightarrow>
               (let msg = ''JSON decode error: '' @ decode s
                in (JObj [(''raw'', JStr s)], Some (if truthy err then msg @ ''; '' @ nullish err [] else msg))))
      in \<lparr>rp_id = ox_id r, rp_eventId = ox_eventId r, rp_eventType = ox_eventType r, rp_status = ox_status r,
          rp_correlationId = ox_key r, rp_aggregateId = ox_aggregateId r, rp_attemptCount = ox_retryCount r,
          rp_retryCount = ox_retryCount r, rp_maxRetries = 3, rp_lastError = err', rp_payload = payload,
          rp_createdAt = ox_createdTs r * 1000\<rparr>)"

record outbox_input =
  oi_id :: string
  oi_eventId :: string
  oi_eventType :: string
  oi_aggregateId :: "string option"
  oi_payload :: "json option"
  oi_correlationId :: string

text \<open>A payload that is a text is stored as it is.\<close>

definition data_text :: "(string \<Rightarrow> stored_text) \<Rightarrow> json option \<Rightarrow> stored_text" where
  "data_text reads p = (case p of
     None \<Rightarrow> Stored (JObj []) | Some JNull \<Rightarrow> Stored (JObj []) | Some (JStr s) \<Rightarrow> reads s | Some j \<Rightarrow> Stored j)"

definition outbox_create ::
    "(string \<Rightarrow> stored_text) \<Rightarrow> (string \<Rightarrow> string) \<Rightarrow> int \<Rightarrow> outbox_input \<Rightarrow> sink_db \<Rightarrow> repo_error + (repo_entry \<times> sink_db)" where
  "outbox_create reads decode now i db =
     (let r = \<lparr>ox_id = oi_id i, ox_eventId = oi_eventId i, ox_eventType = oi_eventType i, ox_source = ''orchestration'',
               ox_data = data_text reads (oi_payload i), ox_key = oi_correlationId i,
               ox_aggregateId = nullish (oi_aggregateId i) [], ox_status = ObPending, ox_retryCount = 0,
               ox_lastError = None, ox_createdTs = now\<rparr> in
      if list_ex (\<lambda>x. ox_id x = ox_id r \<or> ox_key x = ox_key r) (sk_outbox db)
         \<or> \<not> list_ex (\<lambda>e. le_eventId e = ox_eventId r) (sk_events db)
      then Inl ConstraintFailed
      else Inr (rowToEntry decode r, db\<lparr>sk_outbox := sk_outbox db @ [r]\<rparr>))"

text \<open>The texts the column \<open>status\<close> takes.\<close>

definition status_texts :: "(string \<times> outbox_status) list" where
  "status_texts = [(''pending'', ObPending), (''delivering'', ObDelivering), (''delivered'', ObDelivered),
     (''failed'', ObFailed), (''dead_letter'', ObDeadLetter), (''partially_delivered'', ObPartiallyDelivered)]"

record outbox_change =
  uc_status :: "string option"
  uc_lastError :: "string option"
  uc_attemptCount :: "int option"
  uc_retryCount :: "int option"
  uc_deliveredAt :: "int option"

text \<open>Assignments of one column: the last one counts.\<close>

definition changed_row :: "outbox_change \<Rightarrow> outbox_status \<Rightarrow> delivery_row \<Rightarrow> delivery_row" where
  "changed_row c s r =
     r\<lparr>ox_status := s,
       ox_lastError := (case uc_lastError c of None \<Rightarrow> ox_lastError r | Some e \<Rightarrow> Some (ErrorText e)),
       ox_retryCount := nullish (uc_retryCount c) (nullish (uc_attemptCount c) (ox_retryCount r))\<rparr>"

definition outbox_update ::
    "(string \<Rightarrow> string) \<Rightarrow> string \<Rightarrow> outbox_change \<Rightarrow> sink_db \<Rightarrow> repo_error + (repo_entry option \<times> sink_db)" where
  "outbox_update decode i c db =
     (case List.find (\<lambda>r. ox_id r = i) (sk_outbox db) of
        None \<Rightarrow> Inr (None, db)
      | Some r \<Rightarrow>
          (case (if uc_deliveredAt c \<noteq> None then Some ObDelivered
                 else case uc_status c of None \<Rightarrow> Some (ox_status r) | Some t \<Rightarrow> map_of status_texts t) of
             None \<Rightarrow> Inl ConstraintFailed
           | Some s \<Rightarrow> Inr (Some (rowToEntry decode (changed_row c s r)),
               with_outbox (map (\<lambda>x. if ox_id x = i then changed_row c s x else x)) db)))"

definition outbox_findById :: "(string \<Rightarrow> string) \<Rightarrow> string \<Rightarrow> sink_db \<Rightarrow> repo_entry option" where
  "outbox_findById decode i db = map_option (rowToEntry decode) (List.find (\<lambda>r. ox_id r = i) (sk_outbox db))"

record outbox_filter =
  of_status :: "string option"
  of_destination :: "string option"
  of_correlationId :: "string option"

definition entry_matches :: "outbox_filter \<Rightarrow> delivery_row \<Rightarrow> bool" where
  "entry_matches f r \<longleftrightarrow>
     (truthy (of_status f) \<longrightarrow> map_of status_texts (nullish (of_status f) []) = Some (ox_status r))
     \<and> (truthy (of_destination f) \<longrightarrow> of_destination f = Some (ox_source r))
     \<and> (truthy (of_correlationId f) \<longrightarrow> of_correlationId f = Some (ox_key r))"

record outbox_page =
  op_items :: "repo_entry list"
  op_total :: nat
  op_page :: int
  op_limit :: int

text \<open>A negative OFFSET is none.\<close>

definition newest_first :: "delivery_row list \<Rightarrow> delivery_row list" where
  "newest_first rows = sort_key (\<lambda>r. - ox_createdTs r) rows"

definition outbox_findMany ::
    "(string \<Rightarrow> string) \<Rightarrow> outbox_filter \<Rightarrow> int option \<Rightarrow> int option \<Rightarrow> sink_db \<Rightarrow> outbox_page" where
  "outbox_findMany decode f page lim db =
     (let rows = filter (entry_matches f) (sk_outbox db); p = nullish page 1; n = nullish lim 20 in
      \<lparr>op_items = map (rowToEntry decode) (sql_limit n (drop (nat ((p - 1) * n)) (newest_first rows))),
       op_total = length rows, op_page = p, op_limit = n\<rparr>)"

definition outbox_findPending :: "(string \<Rightarrow> string) \<Rightarrow> sink_db \<Rightarrow> repo_entry list" where
  "outbox_findPending decode db =
     map (rowToEntry decode) (take 100 (sort_key ox_createdTs (filter (\<lambda>r. ox_status r = ObPending) (sk_outbox db))))"

definition outbox_count :: "outbox_filter \<Rightarrow> sink_db \<Rightarrow> nat" where
  "outbox_count f db = length (filter (entry_matches f) (sk_outbox db))"

definition claimNextBatch :: "(string \<Rightarrow> string) \<Rightarrow> int \<Rightarrow> sink_db \<Rightarrow> repo_entry list" where
  "claimNextBatch decode n db =
     map (rowToEntry decode) (sql_limit n (sort_key ox_createdTs (filter (\<lambda>r. ox_status r = ObPending) (sk_outbox db))))"

definition outbox_markDelivered :: "string \<Rightarrow> string \<Rightarrow> delivery_row list \<Rightarrow> delivery_row list" where
  "outbox_markDelivered i key rows =
     (if list_ex (\<lambda>r. ox_key r = key \<and> ox_status r = ObDelivered) rows then rows
      else map (\<lambda>r. if ox_id r = i then r\<lparr>ox_status := ObDelivered\<rparr> else r) rows)"

definition outbox_markFailed :: "string \<Rightarrow> int \<Rightarrow> string \<Rightarrow> delivery_row list \<Rightarrow> delivery_row list" where
  "outbox_markFailed i n err rows =
     map (\<lambda>r. if ox_id r = i
        then r\<lparr>ox_status := ObFailed, ox_retryCount := n, ox_lastError := Some (ErrorText err)\<rparr> else r) rows"

definition claimBatch ::
    "(string \<Rightarrow> string) \<Rightarrow> string \<Rightarrow> int \<Rightarrow> int \<Rightarrow> int \<Rightarrow> delivery_row list \<Rightarrow> repo_entry list \<times> delivery_row list" where
  "claimBatch decode worker n leaseSeconds ms rows =
     (let info = RepositoryLease worker (seconds ms + leaseSeconds);
          due = sql_limit n (sort_key ox_createdTs (filter (\<lambda>r. ox_status r = ObPending) rows));
          rows' = map (take_lease info (ox_id ` set due)) rows
      in (map (rowToEntry decode) (sort_key ox_createdTs (filter (held_under info) rows')), rows'))"

definition markDeliveredById :: "string \<Rightarrow> string \<Rightarrow> delivery_row list \<Rightarrow> bool \<times> delivery_row list" where
  "markDeliveredById i key rows =
     (list_ex (\<lambda>r. ox_id r = i \<and> ox_status r = ObDelivering \<and> ox_key r = key) rows,
      map (\<lambda>r. if ox_id r = i \<and> ox_status r = ObDelivering \<and> ox_key r = key then r\<lparr>ox_status := ObDelivered\<rparr> else r) rows)"

section \<open>Events and their publication\<close>

definition stored_event :: "int \<Rightarrow> orch_event \<Rightarrow> ledger_event" where
  "stored_event now e =
     \<lparr>le_eventId = oe_id e, le_eventType = oe_type e, le_causationId = oe_causationId e,
      le_correlationId = Some (oe_correlationId e), le_aggregateType = ''orchestration'',
      le_aggregateId = nullish (oe_aggregateId e) [], le_aggregateVersion = nullish (oe_aggregateVersion e) 1,
      le_data = oe_data e, le_metadata = oe_metadata e, le_createdTs = now\<rparr>"

definition store_orch_event :: "int \<Rightarrow> orch_event \<Rightarrow> sink_db \<Rightarrow> repo_error + sink_db" where
  "store_orch_event now e db =
     (let r = stored_event now e in
      if list_ex (\<lambda>x. le_eventId x = le_eventId r
           \<or> le_aggregateType x = le_aggregateType r \<and> le_aggregateId x = le_aggregateId r
             \<and> le_aggregateVersion x = le_aggregateVersion r) (sk_events db)
      then Inl ConstraintFailed else Inr (db\<lparr>sk_events := sk_events db @ [r]\<rparr>))"

text \<open>What is read back. The listings leave out the cause of an event, and the one of \<open>findMany\<close> does not look at its filter.\<close>

definition event_of :: "ledger_event \<Rightarrow> orch_event" where
  "event_of r = \<lparr>oe_id = le_eventId r, oe_type = le_eventType r, oe_correlationId = nullish (le_correlationId r) [],
     oe_causationId = le_causationId r, oe_aggregateId = Some (le_aggregateId r),
     oe_aggregateVersion = Some (le_aggregateVersion r), oe_data = le_data r, oe_metadata = le_metadata r\<rparr>"

definition listed_event :: "ledger_event \<Rightarrow> orch_event" where
  "listed_event r = event_of r\<lparr>oe_causationId := None\<rparr>"

definition find_event :: "string \<Rightarrow> sink_db \<Rightarrow> orch_event option" where
  "find_event i db = map_option event_of (List.find (\<lambda>r. le_eventId r = i) (sk_events db))"

record event_page =
  ep_items :: "orch_event list"
  ep_total :: nat
  ep_page :: int
  ep_limit :: int

definition newest_events :: "ledger_event list \<Rightarrow> ledger_event list" where
  "newest_events rs = sort_key (\<lambda>r. - le_createdTs r) rs"

definition list_events :: "int option \<Rightarrow> int option \<Rightarrow> sink_db \<Rightarrow> event_page" where
  "list_events page lim db =
     (let p = nullish page 1; n = nullish lim 20 in
      \<lparr>ep_items = map listed_event (sql_limit n (drop (nat ((p - 1) * n)) (newest_events (sk_events db)))),
       ep_total = length (sk_events db), ep_page = p, ep_limit = n\<rparr>)"

definition count_events :: "sink_db \<Rightarrow> nat" where
  "count_events db = length (sk_events db)"

definition events_of_run :: "string \<Rightarrow> sink_db \<Rightarrow> orch_event list" where
  "events_of_run i db = map listed_event (newest_events (filter (\<lambda>r. le_aggregateId r = i) (sk_events db)))"

datatype event_error = EventNotFound

definition getEvent :: "string \<Rightarrow> sink_db \<Rightarrow> event_error + orch_event" where
  "getEvent i db = (case find_event i db of None \<Rightarrow> Inl EventNotFound | Some e \<Rightarrow> Inr e)"

text \<open>The event as its own JSON, time stamp \<open>at\<close>; the ids of session, agent, run, assignment and contract are left out.\<close>

definition event_json :: "string \<Rightarrow> orch_event \<Rightarrow> json" where
  "event_json at e = JObj
     ([(''id'', JStr (oe_id e)), (''type'', JStr (oe_type e)), (''eventVersion'', JNum 1), (''timestamp'', JStr at),
       (''correlationId'', JStr (oe_correlationId e))]
      @ opt_prop ''causationId'' (map_option JStr (oe_causationId e))
      @ opt_prop ''aggregateId'' (map_option JStr (oe_aggregateId e))
      @ opt_prop ''aggregateVersion'' (map_option JNum (oe_aggregateVersion e))
      @ [(''data'', oe_data e), (''metadata'', oe_metadata e)])"

text \<open>\<open>publishEvent\<close>: the event is stored, then its outbox entry is created, each in a transaction of its own, and then
  the bus is told; the tables keep what was written before an error.\<close>

definition publishEvent ::
    "(string \<Rightarrow> stored_text) \<Rightarrow> (string \<Rightarrow> string) \<Rightarrow> int \<Rightarrow> string \<Rightarrow> string \<Rightarrow> orch_event \<Rightarrow> sink_db
      \<Rightarrow> (repo_error + orch_event) \<times> sink_db \<times> orch_event list" where
  "publishEvent reads decode now at uuid e db =
     (case store_orch_event now e db of
        Inl err \<Rightarrow> (Inl err, db, [])
      | Inr db1 \<Rightarrow>
          (case outbox_create reads decode now
                  \<lparr>oi_id = uuid, oi_eventId = oe_id e, oi_eventType = oe_type e, oi_aggregateId = oe_aggregateId e,
                   oi_payload = Some (event_json at e), oi_correlationId = oe_correlationId e\<rparr> db1 of
             Inl err \<Rightarrow> (Inl err, db1, [])
           | Inr (_, db2) \<Rightarrow> (Inr e, db2, [e])))"

section \<open>Properties\<close>

lemma take_drop_pages: "0 < n \<Longrightarrow> concat (map (\<lambda>k. take n (drop (k * n) xs)) [0..<m]) = take (m * n) xs"
proof (induction m)
  case (Suc m)
  then show ?case by (simp add: take_add [symmetric] add.commute)
qed simp

text \<open>The pages of a listing are the listing: for a positive page size, enough pages one after the other give every
  entry that the filter matches exactly once, newest first, and each names the number of all of them.\<close>

theorem pages_are_the_listing:
  assumes "0 < n" and "length (filter (entry_matches f) (sk_outbox db)) \<le> m * n"
  shows "concat (map (\<lambda>k. op_items (outbox_findMany decode f (Some (int k + 1)) (Some (int n)) db)) [0..<m])
      = map (rowToEntry decode) (newest_first (filter (entry_matches f) (sk_outbox db)))
    \<and> op_total (outbox_findMany decode f page lim db) = outbox_count f db"
proof -
  let ?rows = "newest_first (filter (entry_matches f) (sk_outbox db))"
  have "nat (int k * int n) = k * n" for k by (simp flip: of_nat_mult)
  then have "op_items (outbox_findMany decode f (Some (int k + 1)) (Some (int n)) db)
      = map (rowToEntry decode) (take n (drop (k * n) ?rows))" for k
    by (simp add: outbox_findMany_def Let_def sql_limit_def)
  then have "concat (map (\<lambda>k. op_items (outbox_findMany decode f (Some (int k + 1)) (Some (int n)) db)) [0..<m])
      = map (rowToEntry decode) (concat (map (\<lambda>k. take n (drop (k * n) ?rows)) [0..<m]))"
    by (simp add: map_concat comp_def)
  also have "\<dots> = map (rowToEntry decode) ?rows"
    using take_drop_pages [OF assms(1), of ?rows m] assms(2) by (simp add: newest_first_def)
  finally show ?thesis by (simp add: outbox_findMany_def Let_def outbox_count_def)
qed

text \<open>Of the events of one correlation only the first can be published. The outbox entry takes the correlation id as
  its unique key: for every later event the service stores the event, fails on the entry, and tells no
  subscriber; the stored event has no outbox entry and is never delivered.\<close>

theorem one_event_per_correlation:
  assumes "\<exists>r \<in> set (sk_outbox db). ox_key r = oe_correlationId e"
    and "\<forall>x \<in> set (sk_events db). le_eventId x \<noteq> oe_id e" and "\<forall>r \<in> set (sk_outbox db). ox_eventId r \<noteq> oe_id e"
    and "\<forall>x \<in> set (sk_events db). le_aggregateType x = ''orchestration'' \<longrightarrow> le_aggregateId x = nullish (oe_aggregateId e) []
      \<longrightarrow> le_aggregateVersion x \<noteq> nullish (oe_aggregateVersion e) 1"
  shows "\<exists>db'. publishEvent reads decode now at uuid e db = (Inl ConstraintFailed, db', [])
    \<and> sk_events db' = sk_events db @ [stored_event now e]
    \<and> (\<forall>r \<in> set (sk_outbox db'). ox_eventId r \<noteq> oe_id e)"
  using assms
  by (auto simp: publishEvent_def store_orch_event_def outbox_create_def stored_event_def Let_def list_ex_iff)

lemma event_json_text [simp]: "data_text reads (Some (event_json at e)) = Stored (event_json at e)"
  by (simp add: data_text_def event_json_def)

lemma event_store_outbox: "store_orch_event now e db = Inr db' \<Longrightarrow> sk_outbox db' = sk_outbox db"
  by (auto simp: store_orch_event_def Let_def split: if_splits)

lemma outbox_create_rows:
  assumes "outbox_create reads decode now i db = Inr (x, db')"
  shows "\<exists>r. sk_outbox db' = sk_outbox db @ [r] \<and> (\<forall>q \<in> set (sk_outbox db). ox_id q \<noteq> ox_id r) \<and> ox_eventId r = oi_eventId i
    \<and> ox_eventType r = oi_eventType i \<and> ox_data r = data_text reads (oi_payload i) \<and> ox_status r = ObPending"
  using assms by (auto simp: outbox_create_def Let_def list_ex_iff split: if_splits)

text \<open>A published event is published twice, differently. The service tells the subscribers the event itself; the
  entry it leaves in the outbox carries the whole event as its payload, so the next batch publishes an event
  of the same id and type whose data is that whole event.\<close>

theorem event_published_twice:
  assumes "publishEvent reads decode now at uuid e db = (Inr e', db', live)"
    and "quiescent t (sk_outbox db)" and "\<forall>r \<in> set (sk_outbox db). publishable parse r"
    and "\<forall>n. all_accept (envs n)" and "\<not> wk_busy w" "0 \<le> wk_leaseSeconds w" "t \<le> seconds (se_ms (envs 0))"
    and "length (sk_outbox db) < nat (wk_batchSize w)"
  shows "live = [e] \<and> (\<exists>s log. processBatch parse envs w db' = (s, log)
    \<and> (\<exists>p \<in> set log. pb_accepted p \<and> oe_id (pb_event p) = oe_id e \<and> oe_type (pb_event p) = oe_type e
         \<and> oe_data (pb_event p) = event_json at e))"
proof -
  obtain x where x: "sk_outbox db' = sk_outbox db @ [x]" "live = [e]" "ox_eventId x = oe_id e" "ox_eventType x = oe_type e"
    "ox_data x = Stored (event_json at e)" "ox_status x = ObPending" "\<forall>q \<in> set (sk_outbox db). ox_id q \<noteq> ox_id x"
    using assms(1)
    by (auto simp: publishEvent_def dest!: event_store_outbox outbox_create_rows split: sum.splits)
  have pay: "event_payload parse (event_json at e) = Inr (event_json at e)"
    by (simp add: event_payload_def event_json_def)
  let ?t = "seconds (se_ms (envs 0))"
  let ?due = "due_rows ?t (wk_batchSize w) (sk_outbox db')"
  have q: "quiescent t (sk_outbox db')" using assms(2) x by (auto simp: quiescent_def)
  have p: "\<forall>r \<in> set (sk_outbox db'). publishable parse r"
    using assms(3) x pay by (auto simp: publishable_def)
  have "length (filter (is_due ?t) (sk_outbox db')) \<le> length (sk_outbox db')" by (rule length_filter_le)
  then have "length (filter (is_due ?t) (sk_outbox db')) \<le> nat (wk_batchSize w)" using assms(8) x(1) by simp
  moreover have n: "0 \<le> wk_batchSize w" using assms(8) by simp
  ultimately have "set ?due = set (filter (is_due ?t) (sk_outbox db'))" by (simp add: due_rows_def sql_limit_def)
  then have "x \<in> set ?due" using x by (simp add: is_due_def)
  moreover obtain s where s: "processBatch parse envs w db' = (s, map (publication_of parse) ?due)"
    using batch_delivers [OF assms(4,5) n assms(6) q assms(7) p] by auto
  moreover have "oe_id (pb_event (publication_of parse x)) = oe_id e \<and> oe_type (pb_event (publication_of parse x)) = oe_type e
      \<and> oe_data (pb_event (publication_of parse x)) = event_json at e \<and> pb_accepted (publication_of parse x)"
    using x pay by (simp add: publication_of_def outbox_event_def rowToRecord_def)
  ultimately show ?thesis using x(2) by (metis (no_types, lifting) image_eqI list.set_map)
qed

text \<open>An event that was stored is read back as it was, with the defaults of its aggregate, and no earlier one changes.\<close>

theorem stored_event_read_back:
  assumes "store_orch_event now e db = Inr db'"
  shows "getEvent (oe_id e) db' = Inr (e\<lparr>oe_aggregateId := Some (nullish (oe_aggregateId e) []),
           oe_aggregateVersion := Some (nullish (oe_aggregateVersion e) 1)\<rparr>)
    \<and> (\<forall>i. i \<noteq> oe_id e \<longrightarrow> getEvent i db' = getEvent i db)"
proof -
  have new: "\<forall>x \<in> set (sk_events db). le_eventId x \<noteq> oe_id e" "sk_events db' = sk_events db @ [stored_event now e]"
    using assms by (auto simp: store_orch_event_def stored_event_def Let_def list_ex_iff split: if_splits)
  then have "List.find (\<lambda>r. le_eventId r = oe_id e) (sk_events db) = None"
    by (simp add: find_None_iff)
  with new show ?thesis
    by (auto simp: getEvent_def find_event_def find_append stored_event_def event_of_def split: option.splits)
qed

definition any_entry :: outbox_filter where
  "any_entry = \<lparr>of_status = None, of_destination = None, of_correlationId = None\<rparr>"

definition sample_event :: orch_event where
  "sample_event = \<lparr>oe_id = ''e2'', oe_type = ''run.updated'', oe_correlationId = ''o1'', oe_causationId = None,
     oe_aggregateId = None, oe_aggregateVersion = None, oe_data = JObj [], oe_metadata = JObj []\<rparr>"

theorem pages_are_the_listing_witness:
  "concat (map (\<lambda>k. op_items (outbox_findMany (\<lambda>s. s) any_entry (Some (int k + 1)) (Some (int 1)) sample_db)) [0..<2])
      = [rowToEntry (\<lambda>s. s) sample_entry]"
proof -
  have "length (filter (entry_matches any_entry) (sk_outbox sample_db)) \<le> 2 * 1"
    by (simp add: sample_db_def)
  from pages_are_the_listing [OF _ this, THEN conjunct1] show ?thesis
    by (simp add: newest_first_def sample_db_def entry_matches_def any_entry_def)
qed

theorem one_event_per_correlation_witness:
  "\<exists>db'. publishEvent Unparsable (\<lambda>s. s) 2 ''now'' ''o2'' sample_event sample_db = (Inl ConstraintFailed, db', [])
    \<and> sk_events db' = [stored_event 2 sample_event]"
proof -
  have "\<exists>db'. publishEvent Unparsable (\<lambda>s. s) 2 ''now'' ''o2'' sample_event sample_db = (Inl ConstraintFailed, db', [])
    \<and> sk_events db' = sk_events sample_db @ [stored_event 2 sample_event]
    \<and> (\<forall>r \<in> set (sk_outbox db'). ox_eventId r \<noteq> oe_id sample_event)"
    by (rule one_event_per_correlation) (simp_all add: sample_event_def sample_db_def sample_entry_def)
  then show ?thesis by (auto simp: sample_db_def)
qed

end
