(* ===== verification/Assignment_Service.thy ===== *)
theory Assignment_Service
  imports Ledger
begin

text \<open>
  Assignments and agent sessions as the services see them: the repository of \<open>assignments\<close> in
  \<open>composition.ts\<close> (\<open>SqliteAssignmentRepo\<close>), the service over it (\<open>services/assignment-service.ts\<close>), and the
  repository of \<open>agent_sessions\<close> (\<open>persistence/repositories/session.ts\<close>).

  The status of an assignment is one of seven; the table stores six texts, \<open>assigned\<close> as \<open>pending\<close> and
  \<open>in_progress\<close> as \<open>running\<close>. Events that the service publishes are returned beside the tables; what
  subscribers do with them is outside.
\<close>

section \<open>Assignments\<close>

definition stored_statuses :: "string list" where
  "stored_statuses = [''pending'', ''running'', ''completed'', ''failed'', ''skipped'', ''cancelled'']"

definition canonical_status :: "string \<Rightarrow> string" where
  "canonical_status s = (if s = ''assigned'' then ''pending'' else if s = ''in_progress'' then ''running'' else s)"

datatype service_error =
    AssignmentNotFound
  | ResultPersistenceNotConfigured
  | MetadataPersistenceNotConfigured
  | AssignmentInternalError
  | AssignmentWriteRefused

record assignment_view =
  av_id :: string
  av_runId :: string
  av_agentId :: string
  av_role :: string
  av_status :: string
  av_correlationId :: string
  av_createdAt :: int

definition view_of :: "assignment_row \<Rightarrow> assignment_view" where
  "view_of r = \<lparr>av_id = asg_id r, av_runId = asg_runId r, av_agentId = asg_agentId r, av_role = asg_description r,
     av_status = asg_status r, av_correlationId = asg_runId r, av_createdAt = asg_createdAt r\<rparr>"

definition assignment_findById :: "string \<Rightarrow> orch_db \<Rightarrow> assignment_row option" where
  "assignment_findById i d = List.find (\<lambda>r. asg_id r = i) (db_assignments d)"

record assignment_input =
  ai_id :: "string option"
  ai_runId :: string
  ai_agentId :: string
  ai_role :: string
  ai_correlationId :: string
  ai_causationId :: "string option"

definition assignment_row_of :: "int \<Rightarrow> string \<Rightarrow> assignment_input \<Rightarrow> assignment_row" where
  "assignment_row_of now i a = \<lparr>asg_id = i, asg_runId = ai_runId a, asg_agentId = ai_agentId a, asg_description = ai_role a,
     asg_status = ''pending'', asg_isRequired = 1, asg_createdAt = now\<rparr>"

text \<open>The primary key and the run's existence.\<close>

definition assignment_create :: "int \<Rightarrow> string \<Rightarrow> assignment_input \<Rightarrow> orch_db \<Rightarrow> service_error + orch_db" where
  "assignment_create now i a d =
     (if assignment_findById i d \<noteq> None \<or> findById (db_runs d) (ai_runId a) = None then Inl AssignmentWriteRefused
      else Inr (d\<lparr>db_assignments := db_assignments d @ [assignment_row_of now i a]\<rparr>))"

record assignment_change =
  ac_status :: "string option"
  ac_agentId :: "string option"
  ac_role :: "string option"
  ac_result :: "json option"
  ac_metadata :: "json option"

definition only_status :: "string \<Rightarrow> assignment_change" where
  "only_status s = \<lparr>ac_status = Some s, ac_agentId = None, ac_role = None, ac_result = None, ac_metadata = None\<rparr>"

definition change_assignment :: "assignment_change \<Rightarrow> assignment_row \<Rightarrow> assignment_row" where
  "change_assignment c r =
     r\<lparr>asg_status := nullish (map_option canonical_status (ac_status c)) (asg_status r),
       asg_agentId := nullish (ac_agentId c) (asg_agentId r), asg_description := nullish (ac_role c) (asg_description r)\<rparr>"

text \<open>No row is \<open>Inr None\<close>. Results and metadata have no column and are refused.\<close>

definition assignment_update ::
    "string \<Rightarrow> assignment_change \<Rightarrow> orch_db \<Rightarrow> service_error + (assignment_row option \<times> orch_db)" where
  "assignment_update i c d =
     (case assignment_findById i d of
        None \<Rightarrow> Inr (None, d)
      | Some r \<Rightarrow>
          if ac_result c \<noteq> None then Inl ResultPersistenceNotConfigured
          else if ac_metadata c \<noteq> None then Inl MetadataPersistenceNotConfigured
          else if asg_status (change_assignment c r) \<notin> set stored_statuses then Inl AssignmentWriteRefused
          else Inr (Some (change_assignment c r),
            d\<lparr>db_assignments := map (\<lambda>x. if asg_id x = i then change_assignment c x else x) (db_assignments d)\<rparr>))"

definition assignment_page :: "int option \<Rightarrow> int option \<Rightarrow> orch_db \<Rightarrow> assignment_view list \<times> nat \<times> int \<times> int" where
  "assignment_page page lim d =
     (let p = nullish page 1; n = nullish lim 20;
          rows = drop (nat ((p - 1) * n)) (sort_key (\<lambda>r. - asg_createdAt r) (db_assignments d)) in
      (map view_of (if n < 0 then rows else take (nat n) rows), length (db_assignments d), p, n))"

section \<open>The service\<close>

definition status_event :: "string \<Rightarrow> string option" where
  "status_event s =
     (if s = ''assigned'' then Some ''assignment.assigned''
      else if s = ''in_progress'' then Some ''assignment.started''
      else if s = ''completed'' then Some ''assignment.completed''
      else if s = ''failed'' then Some ''assignment.failed''
      else if s = ''cancelled'' then Some ''assignment.cancelled''
      else None)"

text \<open>The record that is returned is the one asked for; ids: \<open>u 0\<close> of the assignment, \<open>u 1\<close> of the event.\<close>

definition service_createAssignment ::
    "(nat \<Rightarrow> string) \<Rightarrow> int \<Rightarrow> assignment_input \<Rightarrow> orch_db \<Rightarrow> service_error + (assignment_view \<times> orch_event \<times> orch_db)" where
  "service_createAssignment u now a d =
     (let i = nullish (ai_id a) (u 0) in
      case assignment_create now i a d of
        Inl e \<Rightarrow> Inl e
      | Inr d' \<Rightarrow> Inr (\<lparr>av_id = i, av_runId = ai_runId a, av_agentId = ai_agentId a, av_role = ai_role a, av_status = ''pending'',
            av_correlationId = ai_correlationId a, av_createdAt = now\<rparr>,
          createEvent (u 1) ''assignment.created'' (ai_correlationId a) (ai_causationId a) (Some i) (Some 1)
            (JObj [(''role'', JStr (ai_role a))]), d'))"

definition status_change_event :: "string \<Rightarrow> string option \<Rightarrow> assignment_row \<Rightarrow> orch_event option" where
  "status_change_event uuid status old =
     (if truthy status \<and> status \<noteq> Some (asg_status old)
      then map_option (\<lambda>ty. createEvent uuid ty (asg_runId old) (Some (asg_runId old)) (Some (asg_id old)) None
             (JObj [(''previousStatus'', JStr (asg_status old)), (''newStatus'', JStr (nullish status []))]))
           (status_event (nullish status []))
      else None)"

definition updateAssignment ::
    "string \<Rightarrow> string \<Rightarrow> assignment_change \<Rightarrow> orch_db \<Rightarrow> service_error + (assignment_view \<times> orch_event option \<times> orch_db)" where
  "updateAssignment uuid i c d =
     (case assignment_findById i d of
        None \<Rightarrow> Inl AssignmentNotFound
      | Some old \<Rightarrow>
          (case assignment_update i c d of
             Inl e \<Rightarrow> Inl e
           | Inr (None, d') \<Rightarrow> Inl AssignmentInternalError
           | Inr (Some r, d') \<Rightarrow> Inr (view_of r, status_change_event uuid (ac_status c) old, d')))"

definition getAssignment :: "string \<Rightarrow> orch_db \<Rightarrow> service_error + assignment_view" where
  "getAssignment i d = (case assignment_findById i d of None \<Rightarrow> Inl AssignmentNotFound | Some r \<Rightarrow> Inr (view_of r))"

definition assignAssignment :: "string \<Rightarrow> string \<Rightarrow> orch_db \<Rightarrow> service_error + (assignment_view \<times> orch_event option \<times> orch_db)" where
  "assignAssignment uuid i = updateAssignment uuid i (only_status ''assigned'')"

definition startAssignment :: "string \<Rightarrow> string \<Rightarrow> orch_db \<Rightarrow> service_error + (assignment_view \<times> orch_event option \<times> orch_db)" where
  "startAssignment uuid i = updateAssignment uuid i (only_status ''in_progress'')"

definition service_completeAssignment :: "string \<Rightarrow> string \<Rightarrow> orch_db \<Rightarrow> service_error + (assignment_view \<times> orch_event option \<times> orch_db)" where
  "service_completeAssignment uuid i = updateAssignment uuid i (only_status ''completed'')"

definition failAssignment :: "string \<Rightarrow> string \<Rightarrow> orch_db \<Rightarrow> service_error + (assignment_view \<times> orch_event option \<times> orch_db)" where
  "failAssignment uuid i = updateAssignment uuid i (only_status ''failed'')"

definition cancelAssignment :: "string \<Rightarrow> string \<Rightarrow> orch_db \<Rightarrow> service_error + (assignment_view \<times> orch_event option \<times> orch_db)" where
  "cancelAssignment uuid i = updateAssignment uuid i (only_status ''cancelled'')"

lemmas assignment_ops = assignAssignment_def startAssignment_def service_completeAssignment_def failAssignment_def cancelAssignment_def

section \<open>Agent sessions\<close>

record agent_session =
  sx_id :: string
  sx_runId :: string
  sx_assignmentId :: "string option"
  sx_agentId :: string
  sx_parentSessionId :: "string option"
  sx_depth :: int
  sx_status :: string
  sx_toolCalls :: int
  sx_delegations :: int
  sx_durationMs :: "int option"
  sx_startedAt :: int
  sx_completedAt :: "int option"
  sx_errorMessage :: "string option"

record session_input =
  si_id :: string
  si_runId :: string
  si_assignmentId :: "string option"
  si_agentId :: string
  si_parentSessionId :: "string option"
  si_depth :: "int option"
  si_status :: "string option"

definition session_of :: "int \<Rightarrow> session_input \<Rightarrow> agent_session" where
  "session_of now i = \<lparr>sx_id = si_id i, sx_runId = si_runId i, sx_assignmentId = si_assignmentId i, sx_agentId = si_agentId i,
     sx_parentSessionId = si_parentSessionId i, sx_depth = nullish (si_depth i) 0, sx_status = nullish (si_status i) ''created'',
     sx_toolCalls = 0, sx_delegations = 0, sx_durationMs = None, sx_startedAt = now, sx_completedAt = None, sx_errorMessage = None\<rparr>"

definition session_findById :: "string \<Rightarrow> agent_session list \<Rightarrow> agent_session option" where
  "session_findById i ss = List.find (\<lambda>s. sx_id s = i) ss"

text \<open>The keys: id, run, assignment and parent session (which may be the row itself).\<close>

definition session_create :: "int \<Rightarrow> session_input \<Rightarrow> orch_db \<Rightarrow> agent_session list \<Rightarrow> repo_error + agent_session list" where
  "session_create now i d ss =
     (if session_findById (si_id i) ss \<noteq> None \<or> findById (db_runs d) (si_runId i) = None
         \<or> (case si_assignmentId i of None \<Rightarrow> False | Some a \<Rightarrow> assignment_findById a d = None)
         \<or> (case si_parentSessionId i of None \<Rightarrow> False | Some p \<Rightarrow> p \<noteq> si_id i \<and> session_findById p ss = None)
      then Inl ConstraintFailed else Inr (ss @ [session_of now i]))"

definition session_bindActiveRun :: "int \<Rightarrow> session_input \<Rightarrow> orch_db \<Rightarrow> agent_session list \<Rightarrow> repo_error + agent_session list" where
  "session_bindActiveRun now i d ss =
     (if session_findById (si_id i) ss = None then session_create now i d ss
      else if findById (db_runs d) (si_runId i) = None then Inl ConstraintFailed
      else Inr (map (\<lambda>s. if sx_id s = si_id i
             then s\<lparr>sx_runId := si_runId i, sx_agentId := si_agentId i, sx_status := nullish (si_status i) ''running'',
                    sx_completedAt := None, sx_errorMessage := None\<rparr> else s) ss))"

definition session_findByRunId :: "string \<Rightarrow> agent_session list \<Rightarrow> agent_session list" where
  "session_findByRunId rid ss = sort_key sx_startedAt (filter (\<lambda>s. sx_runId s = rid) ss)"

text \<open>A status alone, or with the end of the session when there is an error text or the session completed or failed.\<close>

definition session_updateStatus ::
    "int \<Rightarrow> string \<Rightarrow> string \<Rightarrow> int option \<Rightarrow> string option \<Rightarrow> agent_session list \<Rightarrow> bool \<times> agent_session list" where
  "session_updateStatus now i status duration err ss =
     (session_findById i ss \<noteq> None,
      map (\<lambda>s. if sx_id s = i
        then (if err \<noteq> None \<or> status = ''completed'' \<or> status = ''failed''
              then s\<lparr>sx_status := status, sx_durationMs := duration, sx_completedAt := Some now, sx_errorMessage := err\<rparr>
              else s\<lparr>sx_status := status\<rparr>)
        else s) ss)"

definition session_incrementMetrics :: "string \<Rightarrow> int \<Rightarrow> int \<Rightarrow> agent_session list \<Rightarrow> bool \<times> agent_session list" where
  "session_incrementMetrics i calls delegs ss =
     (session_findById i ss \<noteq> None,
      map (\<lambda>s. if sx_id s = i then s\<lparr>sx_toolCalls := sx_toolCalls s + calls, sx_delegations := sx_delegations s + delegs\<rparr> else s) ss)"

section \<open>Properties\<close>

lemma assignment_update_row:
  assumes "assignment_update i c d = Inr (Some r, d')"
  shows "\<exists>old. assignment_findById i d = Some old \<and> r = change_assignment c old \<and> asg_status r \<in> set stored_statuses
    \<and> ac_result c = None \<and> ac_metadata c = None
    \<and> d' = d\<lparr>db_assignments := map (\<lambda>x. if asg_id x = i then change_assignment c x else x) (db_assignments d)\<rparr>"
  using assms by (auto simp: assignment_update_def split: option.splits if_splits)

lemma change_assignment_id [simp]:
  "asg_id (change_assignment c r) = asg_id r" "asg_runId (change_assignment c r) = asg_runId r"
  "asg_isRequired (change_assignment c r) = asg_isRequired r"
  by (simp_all add: change_assignment_def)

lemma assignment_findById_map:
  assumes "\<And>r. asg_id (f r) = asg_id r"
  shows "assignment_findById j (d\<lparr>db_assignments := map f (db_assignments d)\<rparr>) = map_option f (assignment_findById j d)"
proof -
  have "List.find (\<lambda>r. asg_id r = j) (map f rows) = map_option f (List.find (\<lambda>r. asg_id r = j) rows)" for rows
    by (induction rows) (simp_all add: assms)
  then show ?thesis by (simp add: assignment_findById_def)
qed

lemma assignment_findById_id: "assignment_findById i d = Some r \<Longrightarrow> asg_id r = i"
  by (auto simp: assignment_findById_def dest: find_SomeD)

text \<open>An update of the status is decided by the existence of the row: it succeeds exactly when there is one and the
  status has a stored form, changes that row only, reads back the stored form, and tells the subscribers about a status
  that differs, as a text, from the stored one.\<close>

theorem status_update_decided:
  "updateAssignment uuid i (only_status s) d =
     (case assignment_findById i d of
        None \<Rightarrow> Inl AssignmentNotFound
      | Some r \<Rightarrow> if canonical_status s \<notin> set stored_statuses then Inl AssignmentWriteRefused
          else Inr (view_of (r\<lparr>asg_status := canonical_status s\<rparr>), status_change_event uuid (Some s) r,
            d\<lparr>db_assignments := map (\<lambda>x. if asg_id x = i then x\<lparr>asg_status := canonical_status s\<rparr> else x) (db_assignments d)\<rparr>))"
proof -
  have "change_assignment (only_status s) r = r\<lparr>asg_status := canonical_status s\<rparr>" for r
    by (simp add: change_assignment_def only_status_def)
  moreover have "ac_result (only_status s) = None" "ac_metadata (only_status s) = None" "ac_status (only_status s) = Some s"
    by (simp_all add: only_status_def)
  ultimately show ?thesis
    by (auto simp: updateAssignment_def assignment_update_def split: option.splits)
qed

text \<open>A start is told every time. The text compared with the stored status is \<open>in_progress\<close>, which no row ever stores, so
  starting a running assignment changes nothing and publishes \<open>assignment.started\<close> again; and starting one that is
  completed, failed or cancelled reopens it.\<close>

theorem start_told_again:
  assumes "assignment_findById i d = Some r" and "asg_status r \<in> set stored_statuses"
  shows "\<exists>v e d'. startAssignment uuid i d = Inr (v, Some e, d') \<and> oe_type e = ''assignment.started''
    \<and> av_status v = ''running'' \<and> assignment_findById i d' = Some (r\<lparr>asg_status := ''running''\<rparr>)"
proof -
  let ?f = "\<lambda>x. if asg_id x = i then x\<lparr>asg_status := ''running''\<rparr> else x"
  have "asg_status r \<noteq> ''in_progress''" using assms(2) by (auto simp: stored_statuses_def)
  then have "status_change_event uuid (Some ''in_progress'') r = Some (createEvent uuid ''assignment.started'' (asg_runId r)
      (Some (asg_runId r)) (Some (asg_id r)) None
      (JObj [(''previousStatus'', JStr (asg_status r)), (''newStatus'', JStr ''in_progress'')]))"
    by (auto simp: status_change_event_def status_event_def)
  moreover have "assignment_findById i (d\<lparr>db_assignments := map ?f (db_assignments d)\<rparr>) = Some (r\<lparr>asg_status := ''running''\<rparr>)"
    using assms(1) assignment_findById_id [OF assms(1)] by (simp add: assignment_findById_map)
  moreover have canon: "canonical_status ''in_progress'' = ''running''" by (simp add: canonical_status_def)
  ultimately show ?thesis
    using assms(1) unfolding startAssignment_def status_update_decided canon
    by (simp add: stored_statuses_def view_of_def createEvent_def)
qed

text \<open>What keeps the keys of both tables.\<close>

lemma session_updateStatus_ids [simp]: "map sx_id (snd (session_updateStatus now i s n e ss)) = map sx_id ss"
  by (simp add: session_updateStatus_def)

lemma session_create_ids:
  assumes "session_create now i d ss = Inr ss'" and "distinct (map sx_id ss)"
  shows "distinct (map sx_id ss')"
proof -
  from assms(1) have "session_findById (si_id i) ss = None" "ss' = ss @ [session_of now i]"
    by (auto simp: session_create_def split: if_splits)
  then have "si_id i \<notin> sx_id ` set ss" by (auto simp: session_findById_def find_None_iff_all)
  then show ?thesis using assms(2) \<open>ss' = _\<close> by (simp add: session_of_def)
qed

text \<open>A session is bound to the run it was bound to last, running, without an end; every other session is as it was.\<close>

theorem session_bound_to_run:
  assumes "session_bindActiveRun now i d ss = Inr ss'"
  shows "\<exists>s. session_findById (si_id i) ss' = Some s \<and> sx_runId s = si_runId i \<and> sx_agentId s = si_agentId i
      \<and> sx_completedAt s = None \<and> sx_errorMessage s = None"
    and "j \<noteq> si_id i \<Longrightarrow> session_findById j ss' = session_findById j ss"
proof -
  have map_find: "session_findById j (map f ss) = map_option f (session_findById j ss)"
    if "\<And>s. sx_id (f s) = sx_id s" for f j
    unfolding session_findById_def using that by (induction ss) simp_all
  have ids: "session_findById j ss = Some s \<Longrightarrow> sx_id s = j" for j s
    by (auto simp: session_findById_def dest: find_SomeD)
  let ?f = "\<lambda>s. if sx_id s = si_id i
      then s\<lparr>sx_runId := si_runId i, sx_agentId := si_agentId i, sx_status := nullish (si_status i) ''running'',
             sx_completedAt := None, sx_errorMessage := None\<rparr> else s"
  show "\<exists>s. session_findById (si_id i) ss' = Some s \<and> sx_runId s = si_runId i \<and> sx_agentId s = si_agentId i
      \<and> sx_completedAt s = None \<and> sx_errorMessage s = None"
  proof (cases "session_findById (si_id i) ss")
    case None
    then show ?thesis using assms
      by (auto simp: session_bindActiveRun_def session_create_def session_findById_def find_append session_of_def
          split: if_splits option.splits)
  next
    case (Some s)
    then have "ss' = map ?f ss" using assms by (auto simp: session_bindActiveRun_def split: if_splits)
    then show ?thesis using Some ids [OF Some] by (simp add: map_find)
  qed
  show "session_findById j ss' = session_findById j ss" if "j \<noteq> si_id i"
  proof (cases "session_findById (si_id i) ss")
    case None
    then show ?thesis using assms that
      by (auto simp: session_bindActiveRun_def session_create_def session_findById_def find_append session_of_def
          split: if_splits option.splits)
  next
    case (Some s)
    then have "ss' = map ?f ss" using assms by (auto simp: session_bindActiveRun_def split: if_splits)
    then show ?thesis using ids that by (cases "session_findById j ss") (auto simp: map_find)
  qed
qed

end
