(* ===== verification/Execution_Registry.thy ===== *)
theory Execution_Registry
  imports Prelude
begin

text \<open>
  The registry of active executions (\<open>services/execution-registry.ts\<close>): handles with an abort controller, a
  promise that the execution has stopped, and cleanup functions that a cancellation runs.

  A cancellation awaits twice: until the execution stops or a timeout passes, and until the cleanup ends or
  another timeout passes. It is three steps, between which every other operation may run. A cancellation
  keeps the handle object it began with, also when the map holds another one by then, so handles live in a store
  and the map holds their places in it. A cleanup function and a resource are names; that the cancellation has begun to run them is
  written to a log.
\<close>

section \<open>Handles\<close>

record handle =
  hd_runId :: string
  hd_aborted :: "string option"
  hd_running :: bool
  hd_cleanups :: "string list"
  hd_resources :: "string list"
  hd_startedAt :: int

record registry =
  rg_store :: "handle list"
  rg_handles :: "(string \<times> nat) list"
  rg_cleaned :: "string list"
  rg_resolved :: "string list"
  rg_log :: "(string \<times> string list) list"

definition no_executions :: registry where
  "no_executions = \<lparr>rg_store = [], rg_handles = [], rg_cleaned = [], rg_resolved = [], rg_log = []\<rparr>"

definition change_handle :: "nat \<Rightarrow> (handle \<Rightarrow> handle) \<Rightarrow> registry \<Rightarrow> registry" where
  "change_handle h f g = g\<lparr>rg_store := (rg_store g)[h := f (rg_store g ! h)]\<rparr>"

text \<open>A second registration of a run takes over the new controller, which is not aborted, and adds its cleanup.\<close>

definition registerRun :: "int \<Rightarrow> string \<Rightarrow> bool \<Rightarrow> string option \<Rightarrow> registry \<Rightarrow> registry" where
  "registerRun now i controller cleanup g =
     (let add = (case cleanup of None \<Rightarrow> [] | Some c \<Rightarrow> [c]) in
      case map_of (rg_handles g) i of
        None \<Rightarrow>
          g\<lparr>rg_store := rg_store g @ [\<lparr>hd_runId = i, hd_aborted = None, hd_running = True, hd_cleanups = add,
                                       hd_resources = [], hd_startedAt = now\<rparr>],
            rg_handles := AList.update i (length (rg_store g)) (rg_handles g)\<rparr>
      | Some h \<Rightarrow>
          change_handle h (\<lambda>x. x\<lparr>hd_aborted := (if controller then None else hd_aborted x),
            hd_cleanups := hd_cleanups x @ add\<rparr>) g)"

definition hasActiveRun :: "string \<Rightarrow> registry \<Rightarrow> bool" where
  "hasActiveRun i g \<longleftrightarrow> map_of (rg_handles g) i \<noteq> None"

definition getHandle :: "string \<Rightarrow> registry \<Rightarrow> handle option" where
  "getHandle i g = map_option ((!) (rg_store g)) (map_of (rg_handles g) i)"

definition resolveExecution :: "string \<Rightarrow> registry \<Rightarrow> registry" where
  "resolveExecution i g =
     (case map_of (rg_handles g) i of
        None \<Rightarrow> g
      | Some h \<Rightarrow>
          if hd_running (rg_store g ! h)
          then (change_handle h (\<lambda>x. x\<lparr>hd_running := False\<rparr>) g)\<lparr>rg_resolved := js_add i (rg_resolved g)\<rparr>
          else g)"

definition addResource :: "string \<Rightarrow> string \<Rightarrow> registry \<Rightarrow> registry" where
  "addResource i r g =
     (case map_of (rg_handles g) i of
        None \<Rightarrow> g
      | Some h \<Rightarrow> change_handle h (\<lambda>x. x\<lparr>hd_resources := js_add r (hd_resources x)\<rparr>) g)"

definition unregisterRun :: "string \<Rightarrow> bool \<Rightarrow> registry \<Rightarrow> registry" where
  "unregisterRun i force g =
     (if force \<or> i \<in> set (rg_resolved g) \<or> map_of (rg_handles g) i = None
      then g\<lparr>rg_handles := AList.delete i (rg_handles g), rg_resolved := removeAll i (rg_resolved g),
             rg_cleaned := removeAll i (rg_cleaned g)\<rparr>
      else g)"

definition getActiveRunIds :: "registry \<Rightarrow> string list" where
  "getActiveRunIds g = map fst (rg_handles g)"

definition clear_registry :: "registry \<Rightarrow> registry" where
  "clear_registry g = g\<lparr>rg_handles := [], rg_cleaned := [], rg_resolved := []\<rparr>"

section \<open>Cancellation\<close>

text \<open>The first step: without a handle the answer is at once that nothing was cancelled.\<close>

definition cancel_signal :: "string \<Rightarrow> string option \<Rightarrow> registry \<Rightarrow> nat option \<times> registry" where
  "cancel_signal i reason g =
     (case map_of (rg_handles g) i of
        None \<Rightarrow> (None, g)
      | Some h \<Rightarrow>
          (Some h, if hd_aborted (rg_store g ! h) = None
                   then change_handle h (\<lambda>x. x\<lparr>hd_aborted := Some (nullish reason ''Run cancellation requested'')\<rparr>) g
                   else g))"

text \<open>The wait is over: the execution has stopped (only then is there no timeout), or not in time. The cleanup of an id
  is begun once.\<close>

definition start_cleanup :: "string \<Rightarrow> nat \<Rightarrow> registry \<Rightarrow> registry" where
  "start_cleanup i h g =
     (if i \<in> set (rg_cleaned g) then g
      else (change_handle h (\<lambda>x. x\<lparr>hd_resources := []\<rparr>) g)
        \<lparr>rg_cleaned := js_add i (rg_cleaned g),
         rg_log := rg_log g @ [(i, hd_resources (rg_store g ! h) @ hd_cleanups (rg_store g ! h))]\<rparr>)"

definition cancel_settle :: "string \<Rightarrow> nat \<Rightarrow> bool \<Rightarrow> registry \<Rightarrow> registry" where
  "cancel_settle i h timedOut g =
     (if timedOut
      then (change_handle h (\<lambda>x. x\<lparr>hd_running := False\<rparr>) g)\<lparr>rg_resolved := js_add i (rg_resolved g)\<rparr>
      else start_cleanup i h g)"

text \<open>The cleanup has ended, or not in time.\<close>

definition cancel_finish :: "string \<Rightarrow> bool \<Rightarrow> registry \<Rightarrow> registry" where
  "cancel_finish i timedOut g =
     (if timedOut then g
      else g\<lparr>rg_handles := AList.delete i (rg_handles g), rg_resolved := removeAll i (rg_resolved g)\<rparr>)"

datatype cancel_result = NothingCancelled | StopTimedOut | CancelDone bool

text \<open>A whole cancellation, undisturbed, for an execution that stops in time or not and a cleanup that ends in time or not.\<close>

definition cancelRunExecution :: "string \<Rightarrow> string option \<Rightarrow> bool \<Rightarrow> bool \<Rightarrow> registry \<Rightarrow> cancel_result \<times> registry" where
  "cancelRunExecution i reason stops cleans g =
     (case cancel_signal i reason g of
        (None, g1) \<Rightarrow> (NothingCancelled, g1)
      | (Some h, g1) \<Rightarrow>
          (let timedOut = (hd_running (rg_store g1 ! h) \<and> \<not> stops);
               g2 = cancel_settle i h timedOut g1 in
           if timedOut then (StopTimedOut, g2)
           else (let late = (i \<notin> set (rg_cleaned g1) \<and> \<not> cleans) in (CancelDone late, cancel_finish i late g2))))"

section \<open>Operations in any order\<close>

datatype registry_action =
    Register int string bool "string option"
  | Resolve string
  | AddResource string string
  | Unregister string bool
  | Signal string "string option"
  | Settle string nat bool
  | Finish string bool
  | Clear

fun registry_step :: "registry_action \<Rightarrow> registry \<Rightarrow> registry" where
  "registry_step (Register now i c f) g = registerRun now i c f g"
| "registry_step (Resolve i) g = resolveExecution i g"
| "registry_step (AddResource i r) g = addResource i r g"
| "registry_step (Unregister i force) g = unregisterRun i force g"
| "registry_step (Signal i reason) g = snd (cancel_signal i reason g)"
| "registry_step (Settle i h late) g =
     (if h < length (rg_store g) \<and> (late \<or> \<not> hd_running (rg_store g ! h)) then cancel_settle i h late g else g)"
| "registry_step (Finish i late) g = cancel_finish i late g"
| "registry_step Clear g = clear_registry g"

fun registry_run :: "registry_action list \<Rightarrow> registry \<Rightarrow> registry" where
  "registry_run [] g = g"
| "registry_run (a # as) g = registry_run as (registry_step a g)"

text \<open>The actions that forget that an id was cleaned up.\<close>

fun forgets :: "string \<Rightarrow> registry_action \<Rightarrow> bool" where
  "forgets i (Unregister j force) = (j = i)"
| "forgets i Clear = True"
| "forgets i _ = False"

definition cleanups_begun :: "string \<Rightarrow> registry \<Rightarrow> nat" where
  "cleanups_begun i g = length (filter (\<lambda>e. fst e = i) (rg_log g))"

section \<open>Properties\<close>

lemma change_handle_frame [simp]:
  "rg_handles (change_handle h f g) = rg_handles g" "rg_cleaned (change_handle h f g) = rg_cleaned g"
  "rg_resolved (change_handle h f g) = rg_resolved g" "rg_log (change_handle h f g) = rg_log g"
  "length (rg_store (change_handle h f g)) = length (rg_store g)"
  by (simp_all add: change_handle_def)

lemmas registry_ops = registerRun_def resolveExecution_def addResource_def unregisterRun_def cancel_signal_def
  cancel_settle_def start_cleanup_def cancel_finish_def clear_registry_def

lemma cleaned_step:
  "\<not> forgets i a \<Longrightarrow> i \<in> set (rg_cleaned g) \<Longrightarrow> i \<in> set (rg_cleaned (registry_step a g))"
  by (cases a) (auto simp: registry_ops Let_def split: option.split)

lemma begun_step:
  "cleanups_begun i (registry_step a g) =
     cleanups_begun i g + (if i \<in> set (rg_cleaned (registry_step a g)) \<and> i \<notin> set (rg_cleaned g) then 1 else 0)"
  by (cases a) (auto simp: cleanups_begun_def registry_ops Let_def split: option.split)

text \<open>Counting: every further cleanup of an id needs that the id was forgotten in between.\<close>

lemma begun_run:
  "cleanups_begun i (registry_run as g) + (if i \<in> set (rg_cleaned g) then 1 else 0)
     \<le> cleanups_begun i g + length (filter (forgets i) as) + (if i \<in> set (rg_cleaned (registry_run as g)) then 1 else 0)"
proof (induction as arbitrary: g)
  case (Cons a as)
  show ?case
    using Cons.IH [of "registry_step a g"] begun_step [of i a g] cleaned_step [of i a g]
    by (auto split: if_splits)
qed simp

text \<open>A cleanup is begun at most once. Whatever is registered, resolved, cancelled by however many callers, timed out and
  cleaned up in between, the cleanup functions of an execution id are begun at most once more than the id is
  unregistered.\<close>

theorem cleanup_begun_once:
  "cleanups_begun i (registry_run as no_executions) \<le> length (filter (forgets i) as) + 1"
  using begun_run [of i as no_executions] by (auto simp: no_executions_def cleanups_begun_def split: if_splits)

text \<open>A run that is registered again after its cancellation is not cleaned up again: the cancellation removes the handle
  and leaves the id among the cleaned ones, so the second cancellation reports success and begins no cleanup.\<close>

theorem second_registration_not_cleaned:
  assumes "map_of (rg_handles g) i = None" and "i \<in> set (rg_cleaned g)"
  shows "\<exists>g'. cancelRunExecution i reason True cleans (registerRun now i True (Some c) g) = (CancelDone False, g')
    \<and> rg_log g' = rg_log g \<and> \<not> hasActiveRun i g'"
  using assms
  by (auto simp: cancelRunExecution_def registerRun_def cancel_signal_def cancel_settle_def start_cleanup_def cancel_finish_def
      hasActiveRun_def Let_def map_of_update delete_conv' update_conv' change_handle_def nth_append)

lemma cancelled_then_cleaned:
  assumes "map_of (rg_handles g) i = Some h" and "\<not> hd_running (rg_store g ! h)"
  shows "i \<in> set (rg_cleaned (snd (cancelRunExecution i reason stops cleans g)))"
  using assms
  by (cases "h < length (rg_store g)")
    (auto simp: cancelRunExecution_def cancel_signal_def cancel_settle_def start_cleanup_def cancel_finish_def Let_def
      change_handle_def list_update_beyond)

end
