(* ===== verification/Child_Lifecycle.thy ===== *)
theory Child_Lifecycle
  imports Assignment_Service Execution_Registry
begin

text \<open>
  The lifecycle of native child executions (\<open>services/child-execution-lifecycle-service.ts\<close>).

  The service keeps one record for each child, changes it in place and finds it through three maps. Records are
  therefore objects in a store (\<open>cw_heap\<close>), and the maps, as well as calls that wait, hold their places in it. Every
  change is also saved to \<open>execution_metadata\<close>.

  A call runs synchronously up to its first await and goes on later: after the assignment was created, after a native
  session was asked to abort, after a transition was saved (to update the assignment), and after that (to update the
  session and the registry). What waits is kept in \<open>cw_waiting\<close>, and a step is a call or the next stretch of one that
  waits, so that calls, crashes and restarts interleave. A database that refuses writes is the flag \<open>cv_disk\<close>. The
  projection of \<open>HeidiDelegationRuntime\<close>, whose errors are swallowed, is left out.
\<close>

section \<open>States of a child\<close>

definition terminal_child_states :: "child_state list" where
  "terminal_child_states = [ChCompleted, ChFailed, ChCancelled, ChTimedOut]"

definition isTerminalChildState :: "child_state \<Rightarrow> bool" where
  "isTerminalChildState s \<longleftrightarrow> s \<in> set terminal_child_states"

fun allowed_child_transitions :: "child_state \<Rightarrow> child_state list" where
  "allowed_child_transitions ChQueued = [ChRunning, ChCompleted, ChFailed, ChCancelRequested, ChCancelled, ChTimedOut]"
| "allowed_child_transitions ChRunning = [ChCompleted, ChFailed, ChCancelRequested, ChCancelled, ChTimedOut]"
| "allowed_child_transitions ChCancelRequested = [ChCancelled, ChFailed, ChTimedOut]"
| "allowed_child_transitions ChUnknown = [ChQueued, ChRunning, ChCompleted, ChFailed, ChCancelled, ChTimedOut]"
| "allowed_child_transitions _ = []"

definition isValidChildTransition :: "child_state \<Rightarrow> child_state \<Rightarrow> bool" where
  "isValidChildTransition s t \<longleftrightarrow>
     s = t \<or> (\<not> isTerminalChildState s \<and> t \<in> set (allowed_child_transitions s))"

fun child_state_text :: "child_state \<Rightarrow> string" where
  "child_state_text ChQueued = ''queued''"
| "child_state_text ChRunning = ''running''"
| "child_state_text ChCancelRequested = ''cancel_requested''"
| "child_state_text ChCompleted = ''completed''"
| "child_state_text ChFailed = ''failed''"
| "child_state_text ChCancelled = ''cancelled''"
| "child_state_text ChTimedOut = ''timed_out''"
| "child_state_text ChUnknown = ''unknown''"

section \<open>The service\<close>

record delegation_input =
  dg_runId :: string
  dg_parentSessionId :: string
  dg_taskCallId :: string
  dg_targetAgent :: string
  dg_specialistId :: "string option"
  dg_assignmentId :: "string option"
  dg_executionId :: "string option"
  dg_prompt :: "string option"
  dg_description :: "string option"
  dg_background :: "bool option"

datatype mark = MStarted | MCompleted | MFailed | MCancelled | MTimedOut

datatype suspension =
    AfterCreate delegation_input string string int
  | AfterAbort nat string
  | AfterSave nat mark child_state string
  | AfterAssignment nat mark child_state string

record child_world =
  cw_db :: orch_db
  cw_sessions :: "agent_session list"
  cw_heap :: "child_execution list"
  cw_byTask :: "(string \<times> nat) list"
  cw_bySession :: "(string \<times> nat) list"
  cw_byAssignment :: "(string \<times> nat) list"
  cw_registry :: registry
  cw_waiting :: "suspension list"

text \<open>What a step meets: the clock, whether the database takes writes, random ids.\<close>

record child_env =
  cv_now :: int
  cv_disk :: bool
  cv_uuid :: "nat \<Rightarrow> string"

datatype child_error = SaveRefused | AssignmentFailed service_error

datatype child_result =
    NoRecord
  | Recorded nat
  | Transitioned nat bool child_state child_state
  | Suspended
  | Raised child_error

definition at :: "child_world \<Rightarrow> nat \<Rightarrow> child_execution" where
  "at w h = cw_heap w ! h"

definition change_record :: "nat \<Rightarrow> (child_execution \<Rightarrow> child_execution) \<Rightarrow> child_world \<Rightarrow> child_world" where
  "change_record h f w = w\<lparr>cw_heap := (cw_heap w)[h := f (cw_heap w ! h)]\<rparr>"

definition wait_for :: "suspension \<Rightarrow> child_world \<Rightarrow> child_world" where
  "wait_for x w = w\<lparr>cw_waiting := cw_waiting w @ [x]\<rparr>"

definition save_record :: "child_env \<Rightarrow> nat \<Rightarrow> child_world \<Rightarrow> child_error + child_world" where
  "save_record env h w =
     (if \<not> cv_disk env then Inl SaveRefused
      else case child_save (cv_now env) (at w h) (cw_db w) of
        Inl _ \<Rightarrow> Inl SaveRefused | Inr d \<Rightarrow> Inr (w\<lparr>cw_db := d\<rparr>))"

definition cache_record :: "nat \<Rightarrow> child_world \<Rightarrow> child_world" where
  "cache_record h w =
     w\<lparr>cw_byTask := AList.update (ch_taskCallId (at w h)) h (cw_byTask w),
       cw_byAssignment := AList.update (ch_assignmentId (at w h)) h (cw_byAssignment w),
       cw_bySession := (if truthy (ch_childSessionId (at w h))
          then AList.update (nullish (ch_childSessionId (at w h)) []) h (cw_bySession w) else cw_bySession w)\<rparr>"

text \<open>What a transition sets beside the status.\<close>

record child_extra =
  xt_result :: "string option"
  xt_error :: "string option"
  xt_cancelRequested :: "bool option"
  xt_confirmed :: "bool option"
  xt_completedAt :: "int option"

definition no_extra :: child_extra where
  "no_extra = \<lparr>xt_result = None, xt_error = None, xt_cancelRequested = None, xt_confirmed = None, xt_completedAt = None\<rparr>"

definition moved_child :: "child_state \<Rightarrow> child_extra \<Rightarrow> child_execution \<Rightarrow> child_execution" where
  "moved_child target x c =
     c\<lparr>ch_status := target, ch_result := nullish_opt (xt_result x) (ch_result c), ch_error := nullish_opt (xt_error x) (ch_error c),
       ch_cancelRequested := nullish_opt (xt_cancelRequested x) (ch_cancelRequested c),
       ch_nativeTerminationConfirmed := nullish_opt (xt_confirmed x) (ch_nativeTerminationConfirmed c),
       ch_completedAt := nullish_opt (xt_completedAt x) (ch_completedAt c)\<rparr>"

text \<open>The record is changed before it is saved: when the database refuses, memory keeps the change.\<close>

definition transitionChild ::
    "child_env \<Rightarrow> nat \<Rightarrow> child_state \<Rightarrow> child_extra \<Rightarrow> child_world \<Rightarrow> (child_error + bool) \<times> child_world" where
  "transitionChild env h target x w =
     (let s = ch_status (at w h) in
      if s = target then (Inr False, w)
      else if isTerminalChildState s then (Inr False, w)
      else if \<not> isValidChildTransition s target then (Inr False, w)
      else (let w1 = change_record h (moved_child target x) w in
            case save_record env h w1 of
              Inl e \<Rightarrow> (Inl e, w1)
            | Inr w2 \<Rightarrow> (Inr True, cache_record h w2)))"

definition resolveRecord :: "string option \<Rightarrow> string option \<Rightarrow> child_world \<Rightarrow> nat option" where
  "resolveRecord tc sid w =
     (if truthy tc \<and> map_of (cw_byTask w) (nullish tc []) \<noteq> None then map_of (cw_byTask w) (nullish tc [])
      else if truthy sid \<and> map_of (cw_bySession w) (nullish sid []) \<noteq> None then map_of (cw_bySession w) (nullish sid [])
      else None)"

section \<open>Registration and binding\<close>

definition delegation_agent :: "delegation_input \<Rightarrow> string" where
  "delegation_agent i = str_or (Some (dg_targetAgent i)) ''unknown-specialist''"

definition delegation_role :: "delegation_input \<Rightarrow> string" where
  "delegation_role i = str_or (dg_description i) (str_or (Some (dg_targetAgent i)) ''specialist'')"

definition assignment_for_delegation :: "string \<Rightarrow> delegation_input \<Rightarrow> assignment_input" where
  "assignment_for_delegation aid i =
     \<lparr>ai_id = Some aid, ai_runId = dg_runId i, ai_agentId = delegation_agent i, ai_role = delegation_role i,
      ai_correlationId = dg_runId i, ai_causationId = None\<rparr>"

definition delegation_record :: "delegation_input \<Rightarrow> string \<Rightarrow> string \<Rightarrow> int \<Rightarrow> child_execution" where
  "delegation_record i aid eid now =
     \<lparr>ch_executionId = eid, ch_runId = dg_runId i, ch_assignmentId = aid, ch_taskCallId = dg_taskCallId i,
      ch_specialistId = dg_specialistId i, ch_parentSessionId = dg_parentSessionId i, ch_childSessionId = None,
      ch_agentId = delegation_agent i, ch_status = ChQueued, ch_background = (dg_background i = Some True),
      ch_prompt = dg_prompt i, ch_description = dg_description i, ch_result = None, ch_error = None,
      ch_cancelRequested = Some False, ch_nativeTerminationConfirmed = Some False, ch_startedAt = now, ch_completedAt = None\<rparr>"

definition register_begin :: "child_env \<Rightarrow> delegation_input \<Rightarrow> child_world \<Rightarrow> child_result \<times> child_world" where
  "register_begin env i w =
     (case map_of (cw_byTask w) (dg_taskCallId i) of
        Some h \<Rightarrow> (Recorded h, w)
      | None \<Rightarrow>
          (let aid = nullish (dg_assignmentId i) (cv_uuid env 0); eid = nullish (dg_executionId i) (''exec-'' @ dg_taskCallId i) in
           if \<not> cv_disk env then (Raised (AssignmentFailed AssignmentWriteRefused), w)
           else case service_createAssignment (cv_uuid env) (cv_now env) (assignment_for_delegation aid i) (cw_db w) of
             Inl e \<Rightarrow> (Raised (AssignmentFailed e), w)
           | Inr (_, _, d) \<Rightarrow> (Suspended, wait_for (AfterCreate i aid eid (cv_now env)) (w\<lparr>cw_db := d\<rparr>))))"

text \<open>The cleanup registered for the execution cancels the task call.\<close>

definition register_finish :: "child_env \<Rightarrow> delegation_input \<Rightarrow> string \<Rightarrow> string \<Rightarrow> int \<Rightarrow> child_world \<Rightarrow> child_result \<times> child_world" where
  "register_finish env i aid eid started w =
     (let h = length (cw_heap w);
          w1 = w\<lparr>cw_registry := registerRun (cv_now env) eid True (Some (dg_taskCallId i)) (cw_registry w)\<rparr>;
          w2 = w1\<lparr>cw_heap := cw_heap w @ [delegation_record i aid eid started]\<rparr> in
      case save_record env h w2 of
        Inl e \<Rightarrow> (Raised e, w1)
      | Inr w3 \<Rightarrow>
          (Recorded h, w3\<lparr>cw_byTask := AList.update (dg_taskCallId i) h (cw_byTask w3),
                         cw_byAssignment := AList.update aid h (cw_byAssignment w3)\<rparr>))"

definition unbound_matches :: "string \<Rightarrow> string option \<Rightarrow> child_world \<Rightarrow> nat list" where
  "unbound_matches parent agent w =
     filter (\<lambda>h. ch_parentSessionId (at w h) = parent \<and> \<not> truthy (ch_childSessionId (at w h))
               \<and> (truthy agent \<longrightarrow> Some (ch_agentId (at w h)) = agent)) (map snd (cw_byTask w))"

definition bind_target :: "string \<Rightarrow> string option \<Rightarrow> string option \<Rightarrow> child_world \<Rightarrow> nat option" where
  "bind_target parent agent tc w =
     (case (if truthy tc then map_of (cw_byTask w) (nullish tc []) else None) of
        Some h \<Rightarrow> Some h
      | None \<Rightarrow> (case unbound_matches parent agent w of [h] \<Rightarrow> Some h | _ \<Rightarrow> None))"

definition bind_refused :: "nat \<Rightarrow> string \<Rightarrow> child_world \<Rightarrow> bool" where
  "bind_refused h sid w \<longleftrightarrow>
     (truthy (ch_childSessionId (at w h)) \<and> ch_childSessionId (at w h) \<noteq> Some sid)
     \<or> (case map_of (cw_bySession w) sid of
          None \<Rightarrow> False | Some k \<Rightarrow> ch_executionId (at w k) \<noteq> ch_executionId (at w h))"

definition bound_status :: "child_execution \<Rightarrow> string" where
  "bound_status c = (if ch_status c = ChQueued then ''running'' else child_state_text (ch_status c))"

text \<open>The row of the session is inserted, or else its status updated; errors of both are swallowed.\<close>

definition record_session :: "child_env \<Rightarrow> nat \<Rightarrow> string \<Rightarrow> string \<Rightarrow> child_world \<Rightarrow> child_world" where
  "record_session env h sid parent w =
     (if \<not> cv_disk env then w
      else case session_create (cv_now env)
          \<lparr>si_id = sid, si_runId = ch_runId (at w h), si_assignmentId = Some (ch_assignmentId (at w h)),
           si_agentId = ch_agentId (at w h), si_parentSessionId = Some parent, si_depth = Some 1,
           si_status = Some (bound_status (at w h))\<rparr> (cw_db w) (cw_sessions w) of
        Inr ss \<Rightarrow> w\<lparr>cw_sessions := ss\<rparr>
      | Inl _ \<Rightarrow>
          w\<lparr>cw_sessions := snd (session_updateStatus (cv_now env) sid (bound_status (at w h)) None None (cw_sessions w))\<rparr>)"

definition bindChildSession ::
    "child_env \<Rightarrow> string \<Rightarrow> string \<Rightarrow> string option \<Rightarrow> string option \<Rightarrow> child_world \<Rightarrow> child_result \<times> child_world" where
  "bindChildSession env parent sid agent tc w =
     (case bind_target parent agent tc w of
        None \<Rightarrow> (NoRecord, w)
      | Some h \<Rightarrow>
          if bind_refused h sid w then (NoRecord, w)
          else (let w1 = record_session env h sid parent (change_record h (\<lambda>c. c\<lparr>ch_childSessionId := Some sid\<rparr>) w) in
                case save_record env h w1 of
                  Inl e \<Rightarrow> (Raised e, w1)
                | Inr w2 \<Rightarrow> (Recorded h, w2\<lparr>cw_bySession := AList.update sid h (cw_bySession w2)\<rparr>)))"

section \<open>Marks\<close>

fun mark_state :: "mark \<Rightarrow> child_state" where
  "mark_state MStarted = ChRunning"
| "mark_state MCompleted = ChCompleted"
| "mark_state MFailed = ChFailed"
| "mark_state MCancelled = ChCancelled"
| "mark_state MTimedOut = ChTimedOut"

definition apply_mark :: "child_env \<Rightarrow> nat \<Rightarrow> mark \<Rightarrow> child_extra \<Rightarrow> string \<Rightarrow> child_world \<Rightarrow> child_result \<times> child_world" where
  "apply_mark env h m x txt w =
     (let s = ch_status (at w h) in
      case transitionChild env h (mark_state m) x w of
        (Inl e, w') \<Rightarrow> (Raised e, w')
      | (Inr False, w') \<Rightarrow> (Transitioned h False s s, w')
      | (Inr True, w') \<Rightarrow> (Suspended, wait_for (AfterSave h m s txt) w'))"

definition markStarted :: "child_env \<Rightarrow> string option \<Rightarrow> string option \<Rightarrow> child_world \<Rightarrow> child_result \<times> child_world" where
  "markStarted env tc sid w =
     (case resolveRecord tc sid w of None \<Rightarrow> (NoRecord, w) | Some h \<Rightarrow> apply_mark env h MStarted no_extra [] w)"

definition markCompleted ::
    "child_env \<Rightarrow> string option \<Rightarrow> string option \<Rightarrow> string option \<Rightarrow> child_world \<Rightarrow> child_result \<times> child_world" where
  "markCompleted env tc sid output w =
     (case resolveRecord tc sid w of
        None \<Rightarrow> (NoRecord, w)
      | Some h \<Rightarrow> apply_mark env h MCompleted (no_extra\<lparr>xt_result := output, xt_completedAt := Some (cv_now env)\<rparr>) [] w)"

definition markFailed_child ::
    "child_env \<Rightarrow> string option \<Rightarrow> string option \<Rightarrow> string option \<Rightarrow> child_world \<Rightarrow> child_result \<times> child_world" where
  "markFailed_child env tc sid err w =
     (case resolveRecord tc sid w of
        None \<Rightarrow> (NoRecord, w)
      | Some h \<Rightarrow>
          (let e = nullish err ''Child task execution failed'' in
           apply_mark env h MFailed (no_extra\<lparr>xt_error := Some e, xt_completedAt := Some (cv_now env)\<rparr>) e w))"

definition markTimedOut :: "child_env \<Rightarrow> string option \<Rightarrow> string option \<Rightarrow> child_world \<Rightarrow> child_result \<times> child_world" where
  "markTimedOut env tc sid w =
     (case resolveRecord tc sid w of
        None \<Rightarrow> (NoRecord, w)
      | Some h \<Rightarrow> apply_mark env h MTimedOut
          (no_extra\<lparr>xt_error := Some ''Child task timed out'', xt_completedAt := Some (cv_now env)\<rparr>) ''Timed out'' w)"

text \<open>A cancellation that native proof confirms is a transition; one that nothing confirms leaves the status.\<close>

definition cancel_confirmed :: "child_env \<Rightarrow> nat \<Rightarrow> string \<Rightarrow> child_world \<Rightarrow> child_result \<times> child_world" where
  "cancel_confirmed env h reason w =
     apply_mark env h MCancelled
       \<lparr>xt_result = None, xt_error = Some reason, xt_cancelRequested = Some True, xt_confirmed = Some True,
        xt_completedAt = Some (cv_now env)\<rparr> reason w"

definition unconfirmed :: "string \<Rightarrow> child_execution \<Rightarrow> child_execution" where
  "unconfirmed reason c =
     c\<lparr>ch_cancelRequested := Some True, ch_nativeTerminationConfirmed := Some False, ch_error := Some reason\<rparr>"

definition cancel_unconfirmed :: "child_env \<Rightarrow> nat \<Rightarrow> string \<Rightarrow> child_world \<Rightarrow> child_result \<times> child_world" where
  "cancel_unconfirmed env h reason w =
     (let w1 = change_record h (unconfirmed reason) w in
      case save_record env h w1 of
        Inl e \<Rightarrow> (Raised e, w1)
      | Inr w2 \<Rightarrow>
          (Transitioned h True (ch_status (at w2 h)) (ch_status (at w2 h)),
           w2\<lparr>cw_registry := resolveExecution (ch_executionId (at w2 h)) (cw_registry w2)\<rparr>))"

text \<open>\<open>port\<close>: there is a client or control port to ask; then the answer is awaited when a session is bound.\<close>

definition markCancelled ::
    "child_env \<Rightarrow> string option \<Rightarrow> string option \<Rightarrow> string option \<Rightarrow> bool \<Rightarrow> bool \<Rightarrow> child_world \<Rightarrow> child_result \<times> child_world" where
  "markCancelled env tc sid reason confirmed port w =
     (case resolveRecord tc sid w of
        None \<Rightarrow> (NoRecord, w)
      | Some h \<Rightarrow>
          (let s = ch_status (at w h); why = nullish reason ''Child task cancelled'' in
           if isTerminalChildState s then (Transitioned h False s s, w)
           else if confirmed then cancel_confirmed env h why w
           else if truthy (ch_childSessionId (at w h)) \<and> port then (Suspended, wait_for (AfterAbort h why) w)
           else cancel_unconfirmed env h why w))"

definition confirmNativeTermination ::
    "child_env \<Rightarrow> string option \<Rightarrow> string option \<Rightarrow> string option \<Rightarrow> child_world \<Rightarrow> child_result \<times> child_world" where
  "confirmNativeTermination env tc sid reason w = markCancelled env tc sid reason True False w"

section \<open>What follows a mark\<close>

fun mark_assignment :: "mark \<Rightarrow> string \<Rightarrow> string \<Rightarrow> orch_db \<Rightarrow> service_error + (assignment_view \<times> orch_event option \<times> orch_db)" where
  "mark_assignment MStarted = startAssignment"
| "mark_assignment MCompleted = service_completeAssignment"
| "mark_assignment MFailed = failAssignment"
| "mark_assignment MCancelled = cancelAssignment"
| "mark_assignment MTimedOut = failAssignment"

fun mark_session :: "mark \<Rightarrow> string" where
  "mark_session MStarted = ''running''"
| "mark_session MCompleted = ''completed''"
| "mark_session MFailed = ''failed''"
| "mark_session MCancelled = ''cancelled''"
| "mark_session MTimedOut = ''failed''"

definition follow_assignment :: "child_env \<Rightarrow> nat \<Rightarrow> mark \<Rightarrow> child_state \<Rightarrow> string \<Rightarrow> child_world \<Rightarrow> child_result \<times> child_world" where
  "follow_assignment env h m s txt w =
     (if \<not> cv_disk env then (Raised (AssignmentFailed AssignmentWriteRefused), w)
      else case mark_assignment m (cv_uuid env 0) (ch_assignmentId (at w h)) (cw_db w) of
        Inl e \<Rightarrow> (Raised (AssignmentFailed e), w)
      | Inr (_, _, d) \<Rightarrow> (Suspended, wait_for (AfterAssignment h m s txt) (w\<lparr>cw_db := d\<rparr>)))"

definition follow_session :: "child_env \<Rightarrow> nat \<Rightarrow> mark \<Rightarrow> string \<Rightarrow> child_world \<Rightarrow> child_world" where
  "follow_session env h m txt w =
     (if truthy (ch_childSessionId (at w h)) \<and> cv_disk env
      then w\<lparr>cw_sessions := snd (session_updateStatus (cv_now env) (nullish (ch_childSessionId (at w h)) []) (mark_session m) None
             (if m \<in> {MStarted, MCompleted} then None else Some txt) (cw_sessions w))\<rparr>
      else w)"

definition follow_registry :: "nat \<Rightarrow> mark \<Rightarrow> child_world \<Rightarrow> child_world" where
  "follow_registry h m w =
     (if m = MStarted then w
      else w\<lparr>cw_registry := unregisterRun (ch_executionId (at w h)) False
             (resolveExecution (ch_executionId (at w h)) (cw_registry w))\<rparr>)"

definition resume :: "child_env \<Rightarrow> bool \<Rightarrow> suspension \<Rightarrow> child_world \<Rightarrow> child_result \<times> child_world" where
  "resume env aborted x w =
     (case x of
        AfterCreate i aid eid now \<Rightarrow> register_finish env i aid eid now w
      | AfterAbort h reason \<Rightarrow> if aborted then cancel_confirmed env h reason w else cancel_unconfirmed env h reason w
      | AfterSave h m s txt \<Rightarrow> follow_assignment env h m s txt w
      | AfterAssignment h m s txt \<Rightarrow>
          (Transitioned h True s (mark_state m), follow_registry h m (follow_session env h m txt w)))"

section \<open>Restart\<close>

text \<open>Everything in memory is lost. The constructor reads the records and crosses them with the sessions of children.\<close>

definition load_record :: "child_execution \<Rightarrow> child_world \<Rightarrow> child_world" where
  "load_record c w = cache_record (length (cw_heap w)) (w\<lparr>cw_heap := cw_heap w @ [c]\<rparr>)"

definition adopt_session :: "string \<Rightarrow> nat \<Rightarrow> child_world \<Rightarrow> child_world" where
  "adopt_session sid h w =
     (if truthy (ch_childSessionId (at w h)) then w
      else (change_record h (\<lambda>c. c\<lparr>ch_childSessionId := Some sid\<rparr>) w)\<lparr>cw_bySession := AList.update sid h (cw_bySession w)\<rparr>)"

definition session_end :: "string \<Rightarrow> child_state option" where
  "session_end s = map_of [(''completed'', ChCompleted), (''failed'', ChFailed), (''cancelled'', ChCancelled)] s"

definition adopt_status :: "string \<Rightarrow> nat \<Rightarrow> child_world \<Rightarrow> child_world" where
  "adopt_status s h w =
     (case session_end s of
        None \<Rightarrow> w
      | Some t \<Rightarrow> if isTerminalChildState (ch_status (at w h)) then w else change_record h (\<lambda>c. c\<lparr>ch_status := t\<rparr>) w)"

definition cross_session :: "agent_session \<Rightarrow> child_world \<Rightarrow> child_world" where
  "cross_session r w =
     (if sx_depth r \<le> 0 \<or> sx_id r = [] \<or> \<not> truthy (sx_assignmentId r) then w
      else case map_of (cw_byAssignment w) (nullish (sx_assignmentId r) []) of
        None \<Rightarrow> w
      | Some h \<Rightarrow> adopt_status (sx_status r) h (adopt_session (sx_id r) h w))"

definition reconcile_children :: "sql_order \<Rightarrow> child_world \<Rightarrow> child_world" where
  "reconcile_children q w = fold cross_session (cw_sessions w) (fold load_record (child_listAll q None (cw_db w)) w)"

definition forget_memory :: "child_world \<Rightarrow> child_world" where
  "forget_memory w = w\<lparr>cw_heap := [], cw_byTask := [], cw_bySession := [], cw_byAssignment := [],
     cw_registry := no_executions, cw_waiting := []\<rparr>"

definition restart :: "sql_order \<Rightarrow> child_world \<Rightarrow> child_world" where
  "restart q w = reconcile_children q (forget_memory w)"

section \<open>Steps\<close>

datatype child_call =
    CallRegister delegation_input
  | CallBind string string "string option" "string option"
  | CallStarted "string option" "string option"
  | CallCompleted "string option" "string option" "string option"
  | CallFailed "string option" "string option" "string option"
  | CallCancelled "string option" "string option" "string option" bool bool
  | CallTimedOut "string option" "string option"

fun begin_call :: "child_env \<Rightarrow> child_call \<Rightarrow> child_world \<Rightarrow> child_result \<times> child_world" where
  "begin_call env (CallRegister i) w = register_begin env i w"
| "begin_call env (CallBind parent sid agent tc) w = bindChildSession env parent sid agent tc w"
| "begin_call env (CallStarted tc sid) w = markStarted env tc sid w"
| "begin_call env (CallCompleted tc sid output) w = markCompleted env tc sid output w"
| "begin_call env (CallFailed tc sid err) w = markFailed_child env tc sid err w"
| "begin_call env (CallCancelled tc sid reason confirmed port) w = markCancelled env tc sid reason confirmed port w"
| "begin_call env (CallTimedOut tc sid) w = markTimedOut env tc sid w"

definition take_waiting :: "nat \<Rightarrow> child_world \<Rightarrow> child_world" where
  "take_waiting k w = w\<lparr>cw_waiting := take k (cw_waiting w) @ drop (Suc k) (cw_waiting w)\<rparr>"

datatype child_move =
    Begin child_env child_call
  | Resume child_env bool nat

fun lifecycle_step :: "child_move \<Rightarrow> child_world \<Rightarrow> child_result \<times> child_world" where
  "lifecycle_step (Begin env c) w = begin_call env c w"
| "lifecycle_step (Resume env aborted k) w =
     (if k < length (cw_waiting w) then resume env aborted (cw_waiting w ! k) (take_waiting k w) else (NoRecord, w))"

fun child_run :: "child_move list \<Rightarrow> child_world \<Rightarrow> child_world" where
  "child_run [] w = w"
| "child_run (a # as) w = child_run as (snd (lifecycle_step a w))"

section \<open>Cancelling the children of a run\<close>

text \<open>A call carried to its end undisturbed: at most the answer of the abort, the assignment and the session follow.\<close>

fun carry_on :: "child_env \<Rightarrow> bool \<Rightarrow> nat \<Rightarrow> nat \<Rightarrow> child_world \<Rightarrow> child_error option \<times> child_world" where
  "carry_on env aborted k 0 w = (None, w)"
| "carry_on env aborted k (Suc n) w =
     (if length (cw_waiting w) \<le> k then (None, w)
      else case resume env aborted (cw_waiting w ! k) (take_waiting k w) of
        (Raised e, w') \<Rightarrow> (Some e, w')
      | (_, w') \<Rightarrow> carry_on env aborted k n w')"

definition cancel_call ::
    "child_env \<Rightarrow> string \<Rightarrow> string \<Rightarrow> bool \<Rightarrow> bool \<Rightarrow> bool \<Rightarrow> child_world \<Rightarrow> child_error option \<times> child_world" where
  "cancel_call env tc reason confirmed port aborted w =
     (case markCancelled env (Some tc) None (Some reason) confirmed port w of
        (Raised e, w') \<Rightarrow> (Some e, w')
      | (_, w') \<Rightarrow> carry_on env aborted (length (cw_waiting w)) 3 w')"

text \<open>Whether a client was given and a control port is set, and what each answers for a session.\<close>

record cancel_ports =
  cp_client :: bool
  cp_port :: bool
  cp_clientAborts :: "string \<Rightarrow> bool"
  cp_portAborts :: "string \<Rightarrow> bool"

definition abort_answer :: "cancel_ports \<Rightarrow> child_execution \<Rightarrow> bool" where
  "abort_answer p c = (let sid = nullish (ch_childSessionId c) [] in
     if cp_client p then cp_clientAborts p sid else cp_portAborts p sid)"

text \<open>The handle's cleanup cancels the task call once more, through the control port; its errors are collected and dropped.\<close>

definition run_cleanup :: "child_env \<Rightarrow> cancel_ports \<Rightarrow> string \<Rightarrow> child_world \<Rightarrow> child_world" where
  "run_cleanup env p tc w =
     snd (cancel_call env tc ''Cancelled by ExecutionRegistry'' False (cp_port p)
       (case map_of (cw_byTask w) tc of None \<Rightarrow> False | Some h \<Rightarrow> cp_portAborts p (nullish (ch_childSessionId (at w h)) [])) w)"

definition cancel_handle :: "child_env \<Rightarrow> cancel_ports \<Rightarrow> string \<Rightarrow> string option \<Rightarrow> child_world \<Rightarrow> child_world" where
  "cancel_handle env p i reason w =
     (case cancel_signal i reason (cw_registry w) of
        (None, g) \<Rightarrow> w
      | (Some k, g) \<Rightarrow>
          (let stuck = hd_running (rg_store g ! k); fresh = i \<notin> set (rg_cleaned g);
               w1 = w\<lparr>cw_registry := cancel_settle i k stuck g\<rparr> in
           if stuck then w1
           else (let w2 = (if fresh then fold (run_cleanup env p) (hd_cleanups (rg_store g ! k)) w1 else w1)
                 in w2\<lparr>cw_registry := cancel_finish i False (cw_registry w2)\<rparr>)))"

fun cancel_records ::
    "child_env \<Rightarrow> cancel_ports \<Rightarrow> string option \<Rightarrow> nat list \<Rightarrow> child_world \<Rightarrow> (child_error + nat) \<times> child_world" where
  "cancel_records env p reason [] w = (Inr 0, w)"
| "cancel_records env p reason (h # hs) w =
     (let c = at w h; unboundQueued = (ch_status c = ChQueued \<and> \<not> truthy (ch_childSessionId c)) in
      case cancel_call env (ch_taskCallId c) (nullish reason ''Parent run cancelled'') unboundQueued (cp_client p \<or> cp_port p)
          (abort_answer p c) w of
        (Some e, w') \<Rightarrow> (Inl e, w')
      | (None, w') \<Rightarrow>
          (case cancel_records env p reason hs (cancel_handle env p (ch_executionId c) reason w') of
             (Inl e, w'') \<Rightarrow> (Inl e, w'') | (Inr n, w'') \<Rightarrow> (Inr (Suc n), w'')))"

text \<open>Sessions of children that confirmed their end follow; the first refused write ends the loop.\<close>

fun cancel_sessions :: "child_env \<Rightarrow> string option \<Rightarrow> agent_session list \<Rightarrow> child_world \<Rightarrow> nat \<times> child_world" where
  "cancel_sessions env reason [] w = (0, w)"
| "cancel_sessions env reason (s # ss) w =
     (case (if 0 < sx_depth s \<and> sx_status s \<notin> {''completed'', ''cancelled'', ''failed''} \<and> sx_id s \<noteq> []
            then map_of (cw_bySession w) (sx_id s) else None) of
        None \<Rightarrow> cancel_sessions env reason ss w
      | Some h \<Rightarrow>
          if ch_nativeTerminationConfirmed (at w h) \<noteq> Some True then cancel_sessions env reason ss w
          else if \<not> cv_disk env then (0, w)
          else (let w1 = w\<lparr>cw_sessions := snd (session_updateStatus (cv_now env) (sx_id s) ''cancelled'' None
                           (Some (nullish reason ''Parent run cancelled'')) (cw_sessions w))\<rparr>;
                    w2 = (if truthy (sx_assignmentId s)
                          then (case cancelAssignment (cv_uuid env 0) (nullish (sx_assignmentId s) []) (cw_db w1) of
                                  Inl _ \<Rightarrow> w1 | Inr (_, _, d) \<Rightarrow> w1\<lparr>cw_db := d\<rparr>)
                          else w1);
                    (n, w3) = cancel_sessions env reason ss w2
                in (Suc n, w3)))"

definition cancelChildrenForRun ::
    "child_env \<Rightarrow> cancel_ports \<Rightarrow> string \<Rightarrow> string option \<Rightarrow> child_world \<Rightarrow> (child_error + nat) \<times> child_world" where
  "cancelChildrenForRun env p rid reason w =
     (let hs = filter (\<lambda>h. ch_runId (at w h) = rid \<and> ch_status (at w h) \<in> {ChQueued, ChRunning}) (map snd (cw_byTask w)) in
      case cancel_records env p reason hs w of
        (Inl e, w') \<Rightarrow> (Inl e, w')
      | (Inr n, w') \<Rightarrow>
          (let (m, w'') = cancel_sessions env reason (session_findByRunId rid (cw_sessions w')) w' in (Inr (n + m), w'')))"

section \<open>Reads\<close>

definition getChildExecution :: "string option \<Rightarrow> string option \<Rightarrow> string option \<Rightarrow> child_world \<Rightarrow> child_execution option" where
  "getChildExecution tc sid aid w =
     map_option (at w)
       (case resolveRecord tc sid w of
          Some h \<Rightarrow> Some h
        | None \<Rightarrow> if truthy aid then map_of (cw_byAssignment w) (nullish aid []) else None)"

definition listChildExecutionsForRun :: "string \<Rightarrow> child_world \<Rightarrow> child_execution list" where
  "listChildExecutionsForRun rid w = filter (\<lambda>c. ch_runId c = rid) (map (at w) (map snd (cw_byTask w)))"

record child_diagnostics =
  cd_active :: nat
  cd_completed :: nat
  cd_failed :: nat
  cd_terminationPending :: bool
  cd_unconfirmed :: "string list"
  cd_children :: "child_execution list"

text \<open>The counts of assignments are those of the executions.\<close>

definition getChildDiagnostics :: "string \<Rightarrow> child_world \<Rightarrow> child_diagnostics" where
  "getChildDiagnostics rid w =
     (let cs = listChildExecutionsForRun rid w;
          open_ids = map ch_executionId (filter (\<lambda>c. ch_nativeTerminationConfirmed c \<noteq> Some True
            \<and> (ch_status c = ChRunning \<or> ch_status c = ChQueued \<or> ch_cancelRequested c = Some True)) cs) in
      \<lparr>cd_active = length (filter (\<lambda>c. ch_status c \<in> {ChQueued, ChRunning}) cs),
       cd_completed = length (filter (\<lambda>c. ch_status c = ChCompleted) cs),
       cd_failed = length (filter (\<lambda>c. ch_status c \<in> {ChFailed, ChCancelled, ChTimedOut}) cs),
       cd_terminationPending = (open_ids \<noteq> []), cd_unconfirmed = open_ids, cd_children = cs\<rparr>)"

end
