(* ===== verification/Child_Laws.thy ===== *)
theory Child_Laws
  imports Child_Lifecycle
begin

text \<open>
  What holds of native children through every interleaving of calls: a record keeps its identity, its status
  follows the table of transitions, and an ended child keeps its end, whether the database takes the writes or not.
\<close>

section \<open>Records evolve\<close>

interpretation child_states: phase_machine isValidChildTransition isTerminalChildState
  by unfold_locales (auto simp: isValidChildTransition_def)

definition child_edge :: "(child_state \<times> child_state) set" where
  "child_edge = {(s, t). isValidChildTransition s t}"

lemma edge_from_terminal: "(s, t) \<in> child_edge\<^sup>* \<Longrightarrow> isTerminalChildState s \<Longrightarrow> t = s"
  by (induction rule: rtrancl_induct) (auto simp: child_edge_def dest: child_states.final_stuck)

definition same_child :: "child_execution \<Rightarrow> child_execution \<Rightarrow> bool" where
  "same_child c c' \<longleftrightarrow> ch_executionId c' = ch_executionId c \<and> ch_runId c' = ch_runId c \<and> ch_assignmentId c' = ch_assignmentId c
     \<and> ch_taskCallId c' = ch_taskCallId c \<and> ch_parentSessionId c' = ch_parentSessionId c \<and> ch_agentId c' = ch_agentId c
     \<and> ch_startedAt c' = ch_startedAt c"

text \<open>An end that a cancellation was asked for and never confirmed.\<close>

definition barred :: "child_execution \<Rightarrow> bool" where
  "barred c \<longleftrightarrow> isTerminalChildState (ch_status c) \<and> ch_cancelRequested c = Some True
     \<and> ch_nativeTerminationConfirmed c = Some False"

definition evolves :: "child_execution \<Rightarrow> child_execution \<Rightarrow> bool" where
  "evolves c c' \<longleftrightarrow> same_child c c' \<and> (ch_status c, ch_status c') \<in> child_edge\<^sup>*
     \<and> (isTerminalChildState (ch_status c) \<longrightarrow> ch_result c' = ch_result c \<and> ch_completedAt c' = ch_completedAt c)
     \<and> (barred c \<longrightarrow> barred c')"

definition heap_grows :: "child_execution list \<Rightarrow> child_execution list \<Rightarrow> bool" where
  "heap_grows cs cs' \<longleftrightarrow> length cs \<le> length cs' \<and> (\<forall>h < length cs. evolves (cs ! h) (cs' ! h))"

lemma evolves_refl [simp]: "evolves c c"
  by (simp add: evolves_def same_child_def)

lemma evolves_trans: "evolves a b \<Longrightarrow> evolves b c \<Longrightarrow> evolves a c"
  unfolding evolves_def same_child_def by (auto intro: rtrancl_trans dest: edge_from_terminal)

lemma heap_grows_refl [simp]: "heap_grows cs cs"
  by (simp add: heap_grows_def)

lemma heap_grows_trans: "heap_grows a b \<Longrightarrow> heap_grows b c \<Longrightarrow> heap_grows a c"
  unfolding heap_grows_def by (meson evolves_trans less_le_trans order_trans)

lemma heap_grows_append [simp]: "heap_grows cs (cs @ ds)"
  by (simp add: heap_grows_def nth_append)

lemma heap_grows_change:
  "(h < length (cw_heap w) \<Longrightarrow> evolves (at w h) (f (at w h))) \<Longrightarrow> heap_grows (cw_heap w) (cw_heap (change_record h f w))"
  by (cases "h < length (cw_heap w)") (auto simp: heap_grows_def change_record_def at_def nth_list_update)

lemma heap_frame [simp]:
  "cw_heap (wait_for x w) = cw_heap w" "cw_heap (cache_record h w) = cw_heap w" "cw_heap (take_waiting k w) = cw_heap w"
  "cw_heap (record_session env h sid parent w) = cw_heap w" "cw_heap (follow_session env h m txt w) = cw_heap w"
  "cw_heap (follow_registry h m w) = cw_heap w"
  by (simp_all add: wait_for_def cache_record_def take_waiting_def record_session_def follow_session_def follow_registry_def
      split: sum.split)

lemma save_heap: "save_record env h w = Inr w' \<Longrightarrow> cw_heap w' = cw_heap w"
  by (auto simp: save_record_def split: if_splits sum.splits)

lemma moved_evolves:
  assumes "\<not> isTerminalChildState (ch_status c)" and "isValidChildTransition (ch_status c) t"
  shows "evolves c (moved_child t x c)"
  using assms by (auto simp: evolves_def same_child_def moved_child_def child_edge_def barred_def)

lemma transition_grows: "heap_grows (cw_heap w) (cw_heap (snd (transitionChild env h t x w)))"
proof -
  have "heap_grows (cw_heap w) (cw_heap (change_record h (moved_child t x) w))"
    if "\<not> isTerminalChildState (ch_status (at w h))" "isValidChildTransition (ch_status (at w h)) t"
    using moved_evolves [OF that] by (simp add: heap_grows_change)
  then show ?thesis by (auto simp: transitionChild_def Let_def dest: save_heap split: sum.split)
qed

lemma apply_mark_grows: "heap_grows (cw_heap w) (cw_heap (snd (apply_mark env h m x txt w)))"
  using transition_grows [of w env h "mark_state m" x]
  by (auto simp: apply_mark_def Let_def split: prod.split sum.split bool.split)

lemma unconfirmed_grows: "heap_grows (cw_heap w) (cw_heap (snd (cancel_unconfirmed env h reason w)))"
proof -
  have "heap_grows (cw_heap w) (cw_heap (change_record h (unconfirmed reason) w))"
    by (rule heap_grows_change) (simp add: evolves_def same_child_def unconfirmed_def barred_def)
  then show ?thesis by (auto simp: cancel_unconfirmed_def Let_def dest: save_heap split: sum.split)
qed

lemma bind_grows: "heap_grows (cw_heap w) (cw_heap (snd (bindChildSession env parent sid agent tc w)))"
proof -
  have "heap_grows (cw_heap w) (cw_heap (change_record h (\<lambda>c. c\<lparr>ch_childSessionId := Some sid\<rparr>) w))" for h
    by (rule heap_grows_change) (simp add: evolves_def same_child_def barred_def)
  then show ?thesis by (auto simp: bindChildSession_def Let_def dest: save_heap split: option.split sum.split)
qed

lemma begin_grows: "heap_grows (cw_heap w) (cw_heap (snd (begin_call env c w)))"
proof (cases c)
  case (CallRegister i)
  then show ?thesis by (auto simp: register_begin_def Let_def split: option.split sum.split)
next
  case (CallBind p s a tc)
  then show ?thesis by (simp add: bind_grows)
qed (auto simp: markStarted_def markCompleted_def markFailed_child_def markTimedOut_def markCancelled_def cancel_confirmed_def
    Let_def apply_mark_grows unconfirmed_grows split: option.split)

lemma resume_grows: "heap_grows (cw_heap w) (cw_heap (snd (resume env aborted x w)))"
proof (cases x)
  case (AfterCreate i aid eid now)
  then show ?thesis by (auto simp: resume_def register_finish_def Let_def dest: save_heap split: sum.split)
next
  case (AfterSave h m s msg)
  then show ?thesis by (auto simp: resume_def follow_assignment_def split: sum.split)
qed (auto simp: resume_def cancel_confirmed_def apply_mark_grows unconfirmed_grows)

lemma step_grows: "heap_grows (cw_heap w) (cw_heap (snd (lifecycle_step a w)))"
proof (cases a)
  case (Resume env aborted k)
  then show ?thesis using resume_grows [of "take_waiting k w"] by simp
qed (simp add: begin_grows)

lemma run_grows: "heap_grows (cw_heap w) (cw_heap (child_run as w))"
  by (induction as arbitrary: w) (auto intro: heap_grows_trans step_grows)

text \<open>C23. Children follow the table of transitions. Through every interleaving of calls and of what follows them, with a
  database that takes writes or refuses them, every record keeps its identity, its status moves along the legal
  transitions only, and once it is completed, failed, cancelled or timed out, status, result and end stay as they are.\<close>

theorem child_follows_table:
  assumes "h < length (cw_heap w)"
  shows "same_child (at w h) (at (child_run as w) h)
    \<and> (ch_status (at w h), ch_status (at (child_run as w) h)) \<in> {(s, t). isValidChildTransition s t}\<^sup>*
    \<and> (isTerminalChildState (ch_status (at w h)) \<longrightarrow>
         ch_status (at (child_run as w) h) = ch_status (at w h) \<and> ch_result (at (child_run as w) h) = ch_result (at w h)
         \<and> ch_completedAt (at (child_run as w) h) = ch_completedAt (at w h))"
proof -
  have "evolves (at w h) (at (child_run as w) h)"
    using run_grows [of w as] assms by (simp add: heap_grows_def at_def)
  then show ?thesis
    unfolding child_edge_def [symmetric] by (auto simp: evolves_def dest: edge_from_terminal)
qed

end
