(* ===== verification/Child_Durability.thy ===== *)
theory Child_Durability
  imports Child_Laws
begin

text \<open>
  The service of children with a database that takes every write, and registrations of one task call that do not overlap:
  the invariant \<open>service_ok\<close> says that maps, records and the rows of \<open>execution_metadata\<close> agree and that a session
  belongs to one record; it is what a restart brings back. What holds when writes are refused is in \<open>Child_Writes\<close>.
\<close>

section \<open>Saved records\<close>

definition saved_in :: "orch_db \<Rightarrow> child_execution \<Rightarrow> bool" where
  "saved_in d c \<longleftrightarrow> (\<exists>r \<in> set (db_meta d). m_id r = ''meta-'' @ ch_executionId c \<and> m_runId r = ch_runId c
     \<and> m_key r = child_key (ch_taskCallId c) \<and> m_value r = MChild c)"

lemma child_key_inj [simp]: "child_key a = child_key b \<longleftrightarrow> a = b"
  by (simp add: child_key_def)

lemma saved_in_frame: "db_meta d' = db_meta d \<Longrightarrow> saved_in d' = saved_in d"
  by (simp add: saved_in_def fun_eq_iff)

lemma image_map_keep: "(\<And>x. k (f x) = k x) \<Longrightarrow> k ` set (map f xs) = k ` set xs"
  by (induction xs) simp_all

lemma save_existing:
  assumes "meta_ok d" and "saved_in d c" and "same_child c c'"
  shows "\<exists>d'. child_save now c' d = Inr d' \<and> meta_ok d' \<and> saved_in d' c'
    \<and> (\<forall>e. saved_in d e \<longrightarrow> ch_taskCallId e \<noteq> ch_taskCallId c \<longrightarrow> saved_in d' e)
    \<and> m_key ` set (db_meta d') = m_key ` set (db_meta d)"
proof -
  obtain r where r: "r \<in> set (db_meta d)" "m_id r = ''meta-'' @ ch_executionId c" "m_runId r = ch_runId c"
    "m_key r = child_key (ch_taskCallId c)" "m_value r = MChild c"
    using assms(2) unfolding saved_in_def by blast
  have ids: "ch_executionId c' = ch_executionId c" "ch_runId c' = ch_runId c" "ch_taskCallId c' = ch_taskCallId c"
    using assms(3) by (simp_all add: same_child_def)
  let ?f = "\<lambda>r. if m_runId r = ch_runId c \<and> m_key r = child_key (ch_taskCallId c) then r\<lparr>m_value := MChild c'\<rparr> else r"
  let ?d = "d\<lparr>db_meta := map ?f (db_meta d)\<rparr>"
  have "meta_at (db_meta d) (ch_runId c) (child_key (ch_taskCallId c)) = Some r"
    using assms(1) r by (simp add: meta_ok_def meta_at_Some)
  then have d: "child_save now c' d = Inr ?d" by (simp add: child_save_def meta_upsert_def ids)
  moreover have "meta_ok ?d"
    using meta_upsert_ok [OF assms(1) d [unfolded child_save_def]] .
  moreover have "saved_in ?d c'"
    unfolding saved_in_def using r ids by (auto intro!: bexI [of _ "?f r"])
  moreover have "saved_in ?d e" if e: "saved_in d e" "ch_taskCallId e \<noteq> ch_taskCallId c" for e
  proof -
    obtain q where "q \<in> set (db_meta d)" "m_id q = ''meta-'' @ ch_executionId e" "m_runId q = ch_runId e"
      "m_key q = child_key (ch_taskCallId e)" "m_value q = MChild e"
      using e(1) unfolding saved_in_def by blast
    then show ?thesis using e(2) unfolding saved_in_def by (auto intro!: bexI [of _ "?f q"])
  qed
  moreover have "m_key ` set (map ?f (db_meta d)) = m_key ` set (db_meta d)" by (rule image_map_keep) simp
  then have "m_key ` set (db_meta ?d) = m_key ` set (db_meta d)" by simp
  ultimately show ?thesis by blast
qed

lemma save_new:
  assumes "child_save now c d = Inr d'" and "meta_ok d" and "child_key (ch_taskCallId c) \<notin> m_key ` set (db_meta d)"
  shows "meta_ok d' \<and> saved_in d' c \<and> (\<forall>e. saved_in d e \<longrightarrow> saved_in d' e)
    \<and> m_key ` set (db_meta d') = insert (child_key (ch_taskCallId c)) (m_key ` set (db_meta d))"
proof -
  have "meta_at (db_meta d) (ch_runId c) (child_key (ch_taskCallId c)) = None"
    unfolding meta_at_None using assms(3) by (metis image_eqI prod.inject)
  then obtain r where "db_meta d' = db_meta d @ [r]" "m_id r = ''meta-'' @ ch_executionId c" "m_runId r = ch_runId c"
    "m_key r = child_key (ch_taskCallId c)" "m_value r = MChild c"
    using assms(1) by (auto simp: child_save_def meta_upsert_def meta_insert_def split: if_splits)
  then show ?thesis
    using meta_upsert_ok [OF assms(2) assms(1) [unfolded child_save_def]] by (auto simp: saved_in_def)
qed

section \<open>The invariant\<close>

definition registered :: "child_world \<Rightarrow> nat \<Rightarrow> bool" where
  "registered w h \<longleftrightarrow> h < length (cw_heap w) \<and> map_of (cw_byTask w) (ch_taskCallId (at w h)) = Some h"

definition tasks_ok :: "child_world \<Rightarrow> bool" where
  "tasks_ok w \<longleftrightarrow> meta_ok (cw_db w)
     \<and> (\<forall>tc h. map_of (cw_byTask w) tc = Some h \<longrightarrow>
          h < length (cw_heap w) \<and> ch_taskCallId (at w h) = tc \<and> saved_in (cw_db w) (at w h))
     \<and> (\<forall>tc. child_key tc \<in> m_key ` set (db_meta (cw_db w)) \<longrightarrow> map_of (cw_byTask w) tc \<noteq> None)
     \<and> distinct (map fst (cw_byTask w))"

definition sessions_ok :: "child_world \<Rightarrow> bool" where
  "sessions_ok w \<longleftrightarrow>
     (\<forall>s h. map_of (cw_bySession w) s = Some h \<longrightarrow> registered w h \<and> (s \<noteq> [] \<longrightarrow> ch_childSessionId (at w h) = Some s))
     \<and> (\<forall>h s. registered w h \<longrightarrow> ch_childSessionId (at w h) = Some s \<longrightarrow> s \<noteq> [] \<longrightarrow> map_of (cw_bySession w) s = Some h)"

definition children_ok :: "child_world \<Rightarrow> bool" where
  "children_ok w \<longleftrightarrow> tasks_ok w \<and> sessions_ok w"

lemma session_owner: "children_ok w \<Longrightarrow> map_of (cw_bySession w) s = Some h \<Longrightarrow> registered w h"
  unfolding children_ok_def sessions_ok_def by blast

lemma session_of_child:
  "children_ok w \<Longrightarrow> registered w h \<Longrightarrow> ch_childSessionId (at w h) = Some s \<Longrightarrow> s \<noteq> [] \<Longrightarrow> map_of (cw_bySession w) s = Some h"
  unfolding children_ok_def sessions_ok_def by blast

lemma session_back:
  "children_ok w \<Longrightarrow> map_of (cw_bySession w) s = Some h \<Longrightarrow> s \<noteq> [] \<Longrightarrow> ch_childSessionId (at w h) = Some s"
  unfolding children_ok_def sessions_ok_def by blast

fun creating :: "suspension \<Rightarrow> string list" where
  "creating (AfterCreate i aid eid now) = [dg_taskCallId i]"
| "creating _ = []"

fun waits_on :: "suspension \<Rightarrow> nat list" where
  "waits_on (AfterCreate i aid eid now) = []"
| "waits_on (AfterAbort h reason) = [h]"
| "waits_on (AfterSave h m s msg) = [h]"
| "waits_on (AfterAssignment h m s msg) = [h]"

definition waits_ok :: "child_world \<Rightarrow> bool" where
  "waits_ok w \<longleftrightarrow> distinct (concat (map creating (cw_waiting w)))
     \<and> (\<forall>x \<in> set (cw_waiting w). (\<forall>tc \<in> set (creating x). map_of (cw_byTask w) tc = None)
          \<and> (\<forall>h \<in> set (waits_on x). registered w h))"

text \<open>A step the invariant is about: the database takes the write, and a task call is not registered while its first
  registration is still under way.\<close>

fun orderly :: "child_move \<Rightarrow> child_world \<Rightarrow> bool" where
  "orderly (Begin env (CallRegister i)) w = (cv_disk env \<and> dg_taskCallId i \<notin> set (concat (map creating (cw_waiting w))))"
| "orderly (Begin env c) w = cv_disk env"
| "orderly (Resume env aborted k) w = cv_disk env"

fun orderly_run :: "child_move list \<Rightarrow> child_world \<Rightarrow> bool" where
  "orderly_run [] w = True"
| "orderly_run (a # as) w = (orderly a w \<and> orderly_run as (snd (lifecycle_step a w)))"

section \<open>One record is put\<close>

lemma registered_tasks: "tasks_ok w \<Longrightarrow> map_of (cw_byTask w) tc = Some h \<Longrightarrow> registered w h \<and> ch_taskCallId (at w h) = tc"
  by (auto simp: tasks_ok_def registered_def)

lemma at_change:
  "h < length (cw_heap w) \<Longrightarrow> at (change_record h f w) k = (if k = h then f (at w h) else at w k)"
  by (simp add: at_def change_record_def)

text \<open>Saving a registered record after a change that keeps its identity.\<close>

lemma put_tasks:
  assumes ok: "tasks_ok w" and reg: "registered w h" and disk: "cv_disk env" and same: "same_child (at w h) (f (at w h))"
    and v: "cw_heap v = cw_heap (change_record h f w)" "cw_db v = cw_db w" "cw_byTask v = cw_byTask w"
  shows "\<exists>d. save_record env h v = Inr (v\<lparr>cw_db := d\<rparr>) \<and> tasks_ok (v\<lparr>cw_db := d\<rparr>)
    \<and> (\<forall>k. registered (v\<lparr>cw_db := d\<rparr>) k = registered w k)"
proof -
  let ?tc = "ch_taskCallId (at w h)"
  have h: "h < length (cw_heap w)" "map_of (cw_byTask w) ?tc = Some h" using reg by (simp_all add: registered_def)
  have v_at: "at v k = (if k = h then f (at w h) else at w k)" for k
    using at_change [OF h(1)] v(1) by (simp add: at_def)
  have len: "length (cw_heap v) = length (cw_heap w)" using v(1) by (simp add: change_record_def)
  have "meta_ok (cw_db w)" "saved_in (cw_db w) (at w h)" using ok h(2) by (auto simp: tasks_ok_def)
  from save_existing [OF this same, of "cv_now env"]
  obtain d where d: "child_save (cv_now env) (f (at w h)) (cw_db w) = Inr d" "meta_ok d" "saved_in d (f (at w h))"
    "\<forall>e. saved_in (cw_db w) e \<longrightarrow> ch_taskCallId e \<noteq> ?tc \<longrightarrow> saved_in d e"
    "m_key ` set (db_meta d) = m_key ` set (db_meta (cw_db w))"
    by blast
  have tc: "ch_taskCallId (f (at w h)) = ?tc" using same by (simp add: same_child_def)
  have "save_record env h v = Inr (v\<lparr>cw_db := d\<rparr>)"
    using disk d(1) by (simp add: save_record_def v_at v(2))
  moreover have "tasks_ok (v\<lparr>cw_db := d\<rparr>)"
    unfolding tasks_ok_def
  proof (intro conjI allI impI)
    fix t k assume "map_of (cw_byTask (v\<lparr>cw_db := d\<rparr>)) t = Some k"
    then have k: "map_of (cw_byTask w) t = Some k" by (simp add: v(3))
    with ok have w: "k < length (cw_heap w)" "ch_taskCallId (at w k) = t" "saved_in (cw_db w) (at w k)"
      by (auto simp: tasks_ok_def)
    show "k < length (cw_heap (v\<lparr>cw_db := d\<rparr>))" using w(1) len by simp
    have at_d: "at (v\<lparr>cw_db := d\<rparr>) j = at v j" for j by (simp add: at_def)
    show "ch_taskCallId (at (v\<lparr>cw_db := d\<rparr>) k) = t" using w(2) tc by (auto simp: at_d v_at)
    show "saved_in (cw_db (v\<lparr>cw_db := d\<rparr>)) (at (v\<lparr>cw_db := d\<rparr>) k)"
    proof (cases "k = h")
      case False
      then have "t \<noteq> ?tc" using k h(2) by auto
      then show ?thesis using False d(4) w(2,3) by (simp add: at_d v_at)
    qed (simp add: at_d v_at d(3))
  next
    fix t assume "child_key t \<in> m_key ` set (db_meta (cw_db (v\<lparr>cw_db := d\<rparr>)))"
    then have "child_key t \<in> m_key ` set (db_meta (cw_db w))" by (simp add: d(5))
    then have "map_of (cw_byTask w) t \<noteq> None" using ok unfolding tasks_ok_def by blast
    then show "map_of (cw_byTask (v\<lparr>cw_db := d\<rparr>)) t \<noteq> None" by (simp add: v(3))
  qed (use ok in \<open>simp_all add: d(2) v(3) tasks_ok_def\<close>)
  moreover have "registered (v\<lparr>cw_db := d\<rparr>) k = registered w k" for k
  proof -
    have "at (v\<lparr>cw_db := d\<rparr>) k = at v k" by (simp add: at_def)
    then show ?thesis using tc by (simp add: registered_def len v(3) v_at)
  qed
  ultimately show ?thesis by blast
qed

definition keeps :: "child_world \<Rightarrow> child_world \<Rightarrow> bool" where
  "keeps w w' \<longleftrightarrow> (\<forall>h. registered w h \<longrightarrow> registered w' h)
     \<and> (\<forall>tc. map_of (cw_byTask w') tc = None \<longleftrightarrow> map_of (cw_byTask w) tc = None) \<and> cw_waiting w' = cw_waiting w"

lemma children_cong:
  assumes "db_meta (cw_db w') = db_meta (cw_db w)" "meta_ok (cw_db w') = meta_ok (cw_db w)" "cw_heap w' = cw_heap w"
    "cw_byTask w' = cw_byTask w" "cw_bySession w' = cw_bySession w"
  shows "children_ok w' = children_ok w" and "registered w' = registered w"
  using saved_in_frame [OF assms(1)] assms
  by (simp_all add: children_ok_def tasks_ok_def sessions_ok_def registered_def at_def fun_eq_iff)

lemma put_children:
  assumes ok: "children_ok w" and reg: "registered w h" and disk: "cv_disk env" and same: "same_child (at w h) (f (at w h))"
    and sid: "ch_childSessionId (f (at w h)) = ch_childSessionId (at w h)"
  shows "\<exists>d. save_record env h (change_record h f w) = Inr ((change_record h f w)\<lparr>cw_db := d\<rparr>)
    \<and> children_ok ((change_record h f w)\<lparr>cw_db := d\<rparr>) \<and> keeps w ((change_record h f w)\<lparr>cw_db := d\<rparr>)"
proof -
  let ?v = "change_record h f w"
  have t: "tasks_ok w" "sessions_ok w" using ok by (simp_all add: children_ok_def)
  obtain d where d: "save_record env h ?v = Inr (?v\<lparr>cw_db := d\<rparr>)" "tasks_ok (?v\<lparr>cw_db := d\<rparr>)"
    "\<And>k. registered (?v\<lparr>cw_db := d\<rparr>) k = registered w k"
    using put_tasks [where f = f and v = ?v, OF t(1) reg disk same] by (auto simp: change_record_def)
  have "at (?v\<lparr>cw_db := d\<rparr>) k = at ?v k" for k by (simp add: at_def)
  then have cs: "ch_childSessionId (at (?v\<lparr>cw_db := d\<rparr>) k) = ch_childSessionId (at w k)" for k
    using reg sid at_change [of h w f k] by (simp add: registered_def)
  have bs: "cw_bySession (?v\<lparr>cw_db := d\<rparr>) = cw_bySession w" by (simp add: change_record_def)
  have "sessions_ok (?v\<lparr>cw_db := d\<rparr>)"
    unfolding sessions_ok_def d(3) cs bs by (fact t(2) [unfolded sessions_ok_def])
  then show ?thesis using d by (auto simp: children_ok_def keeps_def change_record_def)
qed

lemma update_same: "map_of xs k = Some v \<Longrightarrow> AList.update k v xs = xs"
  by (induction xs) (auto split: if_splits)

lemma cache_same:
  assumes ok: "children_ok w" and reg: "registered w h"
  shows "children_ok (cache_record h w)" "keeps w (cache_record h w)"
proof -
  have "map_of (cw_byTask w) (ch_taskCallId (at w h)) = Some h" using reg by (simp add: registered_def)
  then have task: "cw_byTask (cache_record h w) = cw_byTask w"
    by (simp add: cache_record_def update_same)
  have held: "map_of (cw_bySession w) s = Some h" if "ch_childSessionId (at w h) = Some s" "s \<noteq> []" for s
    using session_of_child [OF ok reg] that .
  have sess: "cw_bySession (cache_record h w) = cw_bySession w"
  proof (cases "truthy (ch_childSessionId (at w h))")
    case True
    then obtain s where s: "ch_childSessionId (at w h) = Some s" "s \<noteq> []" by (auto simp: truthy_def)
    with held have "map_of (cw_bySession w) s = Some h" by blast
    with s show ?thesis by (simp add: cache_record_def update_same)
  qed (simp add: cache_record_def)
  have frame: "cw_db (cache_record h w) = cw_db w" by (simp add: cache_record_def)
  show "children_ok (cache_record h w)"
    using children_cong(1) [of "cache_record h w" w] ok by (simp add: task sess frame)
  have "registered (cache_record h w) = registered w"
    using children_cong(2) [of "cache_record h w" w] by (simp add: task sess frame)
  then show "keeps w (cache_record h w)" using task by (simp add: keeps_def cache_record_def)
qed

lemma keeps_refl [simp]: "keeps w w"
  by (simp add: keeps_def)

lemma keeps_trans: "keeps a b \<Longrightarrow> keeps b c \<Longrightarrow> keeps a c"
  by (simp add: keeps_def)

lemma moved_same: "same_child c (moved_child t x c) \<and> ch_childSessionId (moved_child t x c) = ch_childSessionId c"
  by (simp add: same_child_def moved_child_def)

lemma transition_ok:
  assumes "children_ok w" and "registered w h" and "cv_disk env"
  shows "\<exists>b w'. transitionChild env h t x w = (Inr b, w') \<and> children_ok w' \<and> keeps w w'"
proof -
  obtain d where d: "save_record env h (change_record h (moved_child t x) w) = Inr ((change_record h (moved_child t x) w)\<lparr>cw_db := d\<rparr>)"
    "children_ok ((change_record h (moved_child t x) w)\<lparr>cw_db := d\<rparr>)" "keeps w ((change_record h (moved_child t x) w)\<lparr>cw_db := d\<rparr>)"
    using put_children [OF assms, of "moved_child t x"] moved_same by blast
  have "registered ((change_record h (moved_child t x) w)\<lparr>cw_db := d\<rparr>) h" using d(3) assms(2) by (simp add: keeps_def)
  note c = cache_same [OF d(2) this]
  show ?thesis
    using assms(1) c(1) keeps_trans [OF d(3) c(2)] by (auto simp: transitionChild_def Let_def d(1))
qed

text \<open>The invariant together with what waits.\<close>

definition service_ok :: "child_world \<Rightarrow> bool" where
  "service_ok w \<longleftrightarrow> children_ok w \<and> waits_ok w"

lemma keeps_waits: "keeps w w' \<Longrightarrow> waits_ok w \<Longrightarrow> waits_ok w'"
  by (auto simp: keeps_def waits_ok_def)

lemma wait_frame [simp]:
  "children_ok (wait_for x w) = children_ok w" "registered (wait_for x w) = registered w"
  by (rule children_cong; simp add: wait_for_def)+

lemma wait_ok:
  assumes "service_ok w" and "creating x = []" and "\<And>h. h \<in> set (waits_on x) \<Longrightarrow> registered w h"
  shows "service_ok (wait_for x w)"
proof -
  have "registered (wait_for x w) = registered w" by simp
  moreover have "cw_byTask (wait_for x w) = cw_byTask w" "cw_waiting (wait_for x w) = cw_waiting w @ [x]"
    by (simp_all add: wait_for_def)
  ultimately have f: "registered (wait_for x w) = registered w" "cw_byTask (wait_for x w) = cw_byTask w"
    "cw_waiting (wait_for x w) = cw_waiting w @ [x]" .
  show ?thesis using assms by (auto simp: service_ok_def waits_ok_def f)
qed

lemma apply_mark_ok:
  assumes "service_ok w" and "registered w h" and "cv_disk env"
  shows "service_ok (snd (apply_mark env h m x msg w))"
proof -
  obtain b w' where t: "transitionChild env h (mark_state m) x w = (Inr b, w')" "children_ok w'" "keeps w w'"
    using transition_ok [of w h env "mark_state m" x] assms by (auto simp: service_ok_def)
  then have "service_ok w'" "registered w' h"
    using assms keeps_waits by (auto simp: service_ok_def keeps_def)
  then show ?thesis by (cases b) (auto simp: apply_mark_def Let_def t(1) intro: wait_ok)
qed

lemma registry_frame [simp]:
  "children_ok (w\<lparr>cw_registry := g\<rparr>) = children_ok w" "registered (w\<lparr>cw_registry := g\<rparr>) = registered w"
  "children_ok (w\<lparr>cw_sessions := ss\<rparr>) = children_ok w" "registered (w\<lparr>cw_sessions := ss\<rparr>) = registered w"
  by (rule children_cong; simp)+

lemma waits_frame [simp]:
  "waits_ok (w\<lparr>cw_registry := g\<rparr>) = waits_ok w" "waits_ok (w\<lparr>cw_sessions := ss\<rparr>) = waits_ok w"
  by (simp_all add: waits_ok_def)

lemma service_frame [simp]:
  "service_ok (w\<lparr>cw_registry := g\<rparr>) = service_ok w" "service_ok (w\<lparr>cw_sessions := ss\<rparr>) = service_ok w"
  by (simp_all add: service_ok_def)

lemma unconfirmed_ok:
  assumes "service_ok w" and "registered w h" and "cv_disk env"
  shows "service_ok (snd (cancel_unconfirmed env h reason w))"
proof -
  have "same_child c (unconfirmed reason c)" "ch_childSessionId (unconfirmed reason c) = ch_childSessionId c" for c
    by (simp_all add: same_child_def unconfirmed_def)
  from put_children [where f = "unconfirmed reason", OF _ assms(2,3) this] assms(1)
  obtain d where d: "save_record env h (change_record h (unconfirmed reason) w) = Inr ((change_record h (unconfirmed reason) w)\<lparr>cw_db := d\<rparr>)"
    "children_ok ((change_record h (unconfirmed reason) w)\<lparr>cw_db := d\<rparr>)"
    "keeps w ((change_record h (unconfirmed reason) w)\<lparr>cw_db := d\<rparr>)"
    by (auto simp: service_ok_def)
  then have "service_ok ((change_record h (unconfirmed reason) w)\<lparr>cw_db := d\<rparr>)"
    using assms(1) keeps_waits by (auto simp: service_ok_def)
  then show ?thesis by (simp add: cancel_unconfirmed_def Let_def d(1))
qed

lemma resolve_registered: "children_ok w \<Longrightarrow> resolveRecord tc sid w = Some h \<Longrightarrow> registered w h"
proof -
  assume ok: "children_ok w" and r: "resolveRecord tc sid w = Some h"
  have "map_of (cw_byTask w) t = Some h \<Longrightarrow> registered w h" "map_of (cw_bySession w) t = Some h \<Longrightarrow> registered w h" for t
    using ok session_owner [OF ok] registered_tasks unfolding children_ok_def by blast+
  moreover have "map_of (cw_byTask w) (nullish tc []) = Some h \<or> map_of (cw_bySession w) (nullish sid []) = Some h"
    using r by (simp add: resolveRecord_def split: if_splits)
  ultimately show "registered w h" by blast
qed

section \<open>Registration and binding keep the invariant\<close>

lemma saved_child: "children_ok w \<Longrightarrow> registered w h \<Longrightarrow> saved_in (cw_db w) (at w h)"
  unfolding children_ok_def tasks_ok_def registered_def by blast

text \<open>The id of an execution is in the primary key of its row.\<close>

lemma execution_unique:
  assumes ok: "children_ok w" and "registered w h" "registered w k" and "ch_executionId (at w h) = ch_executionId (at w k)"
  shows "h = k"
proof -
  obtain r q where r: "r \<in> set (db_meta (cw_db w))" "m_id r = ''meta-'' @ ch_executionId (at w h)" "m_key r = child_key (ch_taskCallId (at w h))"
    and q: "q \<in> set (db_meta (cw_db w))" "m_id q = ''meta-'' @ ch_executionId (at w k)" "m_key q = child_key (ch_taskCallId (at w k))"
    using saved_child [OF ok assms(2)] saved_child [OF ok assms(3)] unfolding saved_in_def by blast
  have "distinct (map m_id (db_meta (cw_db w)))" using ok by (simp add: children_ok_def tasks_ok_def meta_ok_def)
  then have "r = q" using r(1,2) q(1,2) assms(4) by (simp add: distinct_map inj_on_def)
  then have "ch_taskCallId (at w h) = ch_taskCallId (at w k)" using r(3) q(3) by simp
  then show ?thesis using assms(2,3) by (simp add: registered_def)
qed

lemma record_session_frame [simp]:
  "cw_db (record_session env h sid parent w) = cw_db w" "cw_byTask (record_session env h sid parent w) = cw_byTask w"
  "cw_bySession (record_session env h sid parent w) = cw_bySession w" "cw_waiting (record_session env h sid parent w) = cw_waiting w"
  by (simp_all add: record_session_def split: sum.split)

lemma change_record_frame [simp]:
  "cw_db (change_record h f w) = cw_db w" "cw_byTask (change_record h f w) = cw_byTask w"
  "cw_bySession (change_record h f w) = cw_bySession w" "cw_waiting (change_record h f w) = cw_waiting w"
  "length (cw_heap (change_record h f w)) = length (cw_heap w)"
  by (simp_all add: change_record_def)

lemma bind_registered:
  assumes "children_ok w" and "bind_target parent agent tc w = Some h"
  shows "registered w h"
proof -
  have "h \<in> set (unbound_matches parent agent w) \<or> map_of (cw_byTask w) (nullish tc []) = Some h"
    using assms(2) by (auto simp: bind_target_def split: option.splits list.splits if_splits)
  moreover have "registered w h" if m: "h \<in> set (unbound_matches parent agent w)"
  proof -
    obtain t where "(t, h) \<in> set (cw_byTask w)" using m by (auto simp: unbound_matches_def)
    moreover have "distinct (map fst (cw_byTask w))" using assms(1) by (simp add: children_ok_def tasks_ok_def)
    ultimately have "map_of (cw_byTask w) t = Some h" by simp
    then show ?thesis using assms(1) registered_tasks unfolding children_ok_def by blast
  qed
  ultimately show ?thesis
    using assms(1) registered_tasks unfolding children_ok_def by blast
qed

lemma tasks_bySession: "tasks_ok (w\<lparr>cw_bySession := m\<rparr>) = tasks_ok w"
  by (simp add: tasks_ok_def at_def)

lemma bind_ok:
  assumes ok: "children_ok w" and disk: "cv_disk env"
  shows "children_ok (snd (bindChildSession env parent sid agent tc w)) \<and> keeps w (snd (bindChildSession env parent sid agent tc w))"
proof (cases "bind_target parent agent tc w")
  case None
  then show ?thesis using ok by (simp add: bindChildSession_def)
next
  case (Some h)
  show ?thesis
  proof (cases "bind_refused h sid w")
    case True
    then show ?thesis using ok Some by (simp add: bindChildSession_def)
  next
    case False
    let ?f = "\<lambda>c. c\<lparr>ch_childSessionId := Some sid\<rparr>"
    let ?v = "record_session env h sid parent (change_record h ?f w)"
    have reg: "registered w h" using bind_registered [OF ok Some] .
    have same: "same_child (at w h) (?f (at w h))" by (simp add: same_child_def)
    obtain d where d: "save_record env h ?v = Inr (?v\<lparr>cw_db := d\<rparr>)" "tasks_ok (?v\<lparr>cw_db := d\<rparr>)"
      "\<And>k. registered (?v\<lparr>cw_db := d\<rparr>) k = registered w k"
      using put_tasks [where f = ?f and v = ?v and w = w, OF _ reg disk same] ok by (auto simp: children_ok_def)
    let ?w = "?v\<lparr>cw_db := d, cw_bySession := AList.update sid h (cw_bySession w)\<rparr>"
    have call: "bindChildSession env parent sid agent tc w = (Recorded h, ?w)"
      using Some False by (simp add: bindChildSession_def Let_def d(1))
    have reg_w: "registered ?w k = registered w k" for k
      using d(3) [of k] by (simp add: registered_def at_def)
    have at_w: "ch_childSessionId (at ?w k) = (if k = h then Some sid else ch_childSessionId (at w k))" for k
      using reg at_change [of h w ?f k] by (simp add: registered_def at_def)
    have owner: "k = h" if "map_of (cw_bySession w) sid = Some k" for k
      using execution_unique [OF ok session_owner [OF ok that] reg] False that by (simp add: bind_refused_def)
    have before: "s = sid" if "ch_childSessionId (at w h) = Some s" "s \<noteq> []" for s
      using False that by (simp add: bind_refused_def)
    have "sessions_ok ?w"
      unfolding sessions_ok_def reg_w at_w
    proof (intro conjI allI impI)
      fix s k assume m: "map_of (cw_bySession ?w) s = Some k"
      have old: "s \<noteq> sid \<Longrightarrow> map_of (cw_bySession w) s = Some k" using m by (simp add: update_conv')
      have new: "s = sid \<Longrightarrow> k = h" using m by (simp add: update_conv')
      show "registered w k"
        using old new reg session_owner [OF ok] by (cases "s = sid") simp_all
      show "(if k = h then Some sid else ch_childSessionId (at w k)) = Some s" if "s \<noteq> []"
        using old new before session_back [OF ok _ that] that by (cases "s = sid") auto
    next
      fix k s assume k: "registered w k" "(if k = h then Some sid else ch_childSessionId (at w k)) = Some s" "s \<noteq> []"
      show "map_of (cw_bySession ?w) s = Some k"
      proof (cases "k = h")
        case True
        then show ?thesis using k(2) by (simp add: update_conv')
      next
        case other: False
        then have "map_of (cw_bySession w) s = Some k" using session_of_child [OF ok k(1)] k(2,3) by simp
        then show ?thesis using owner other by (auto simp: update_conv')
      qed
    qed
    moreover have "tasks_ok ?w" using d(2) tasks_bySession [where w = "?v\<lparr>cw_db := d\<rparr>" and m = "AList.update sid h (cw_bySession w)"] by simp
    moreover have "keeps w ?w" using reg_w by (simp add: keeps_def)
    ultimately show ?thesis by (simp add: call children_ok_def)
  qed
qed

lemma create_frame:
  assumes "service_createAssignment u now a d = Inr (v, e, d')"
  shows "db_meta d' = db_meta d" "meta_ok d' = meta_ok d"
  using assms by (auto simp: service_createAssignment_def assignment_create_def meta_ok_def Let_def split: sum.splits if_splits)

lemma update_frame:
  assumes "updateAssignment u i c d = Inr (v, e, d')"
  shows "db_meta d' = db_meta d" "meta_ok d' = meta_ok d"
  using assms by (auto simp: updateAssignment_def meta_ok_def split: option.splits sum.splits dest!: assignment_update_row)

lemma mark_assignment_frame:
  "mark_assignment m u i d = Inr (v, e, d') \<Longrightarrow> db_meta d' = db_meta d \<and> meta_ok d' = meta_ok d"
  by (cases m) (auto simp: assignment_ops dest: update_frame)

lemma service_db:
  assumes "db_meta d = db_meta (cw_db w)" "meta_ok d = meta_ok (cw_db w)"
  shows "service_ok (w\<lparr>cw_db := d\<rparr>) = service_ok w" and "registered (w\<lparr>cw_db := d\<rparr>) = registered w"
proof -
  have "children_ok (w\<lparr>cw_db := d\<rparr>) = children_ok w" "registered (w\<lparr>cw_db := d\<rparr>) = registered w"
    by (rule children_cong; simp add: assms)+
  then show "service_ok (w\<lparr>cw_db := d\<rparr>) = service_ok w" "registered (w\<lparr>cw_db := d\<rparr>) = registered w"
    by (simp_all add: service_ok_def waits_ok_def)
qed

lemma register_begin_ok:
  assumes "service_ok w" and "dg_taskCallId i \<notin> set (concat (map creating (cw_waiting w)))"
  shows "service_ok (snd (register_begin env i w))"
proof (cases "map_of (cw_byTask w) (dg_taskCallId i)")
  case None
  have "service_ok (wait_for (AfterCreate i aid eid now) (w\<lparr>cw_db := d\<rparr>))"
    if "service_createAssignment (cv_uuid env) (cv_now env) (assignment_for_delegation aid i) (cw_db w) = Inr (v, e, d)" for aid eid now v e d
  proof -
    have v: "service_ok (w\<lparr>cw_db := d\<rparr>)" "registered (w\<lparr>cw_db := d\<rparr>) = registered w"
      using service_db [OF create_frame [OF that]] assms(1) by simp_all
    then have "registered (wait_for (AfterCreate i aid eid now) (w\<lparr>cw_db := d\<rparr>)) = registered w"
      "children_ok (wait_for (AfterCreate i aid eid now) (w\<lparr>cw_db := d\<rparr>))"
      by (simp_all add: service_ok_def)
    moreover have "waits_ok w" using assms(1) by (simp add: service_ok_def)
    ultimately show ?thesis
      using None assms(2) unfolding service_ok_def waits_ok_def
      by (auto simp: wait_for_def [of "AfterCreate i aid eid now"])
  qed
  then show ?thesis using assms(1) None by (auto simp: register_begin_def Let_def split: sum.split)
qed (simp add: register_begin_def assms(1))

text \<open>The record of a new child: its key is free in the table because the map knows every key.\<close>

lemma register_children:
  assumes ok: "children_ok w" and free: "map_of (cw_byTask w) (dg_taskCallId i) = None"
    and save: "child_save now (delegation_record i aid eid started) (cw_db w) = Inr d"
    and v: "cw_heap v = cw_heap w @ [delegation_record i aid eid started]" "cw_db v = d" "cw_bySession v = cw_bySession w"
      "cw_byTask v = AList.update (dg_taskCallId i) (length (cw_heap w)) (cw_byTask w)"
  shows "children_ok v \<and> (\<forall>k. registered w k \<longrightarrow> registered v k)"
proof -
  let ?c = "delegation_record i aid eid started" and ?h = "length (cw_heap w)"
  have c: "ch_taskCallId ?c = dg_taskCallId i" "ch_childSessionId ?c = None" by (simp_all add: delegation_record_def)
  have t: "meta_ok (cw_db w)"
    "\<And>tc h. map_of (cw_byTask w) tc = Some h \<Longrightarrow> h < length (cw_heap w) \<and> ch_taskCallId (at w h) = tc \<and> saved_in (cw_db w) (at w h)"
    "\<And>tc. child_key tc \<in> m_key ` set (db_meta (cw_db w)) \<Longrightarrow> map_of (cw_byTask w) tc \<noteq> None"
    "distinct (map fst (cw_byTask w))"
    using ok unfolding children_ok_def tasks_ok_def by blast+
  have "child_key (ch_taskCallId ?c) \<notin> m_key ` set (db_meta (cw_db w))" using t(3) free c(1) by metis
  from save_new [OF save t(1) this]
  have d: "meta_ok d" "saved_in d ?c" "\<And>e. saved_in (cw_db w) e \<Longrightarrow> saved_in d e"
    "m_key ` set (db_meta d) = insert (child_key (dg_taskCallId i)) (m_key ` set (db_meta (cw_db w)))"
    using c(1) by auto
  have v_at: "at v k = at w k" if "k < ?h" for k using that by (simp add: at_def v(1) nth_append)
  have v_new: "at v ?h = ?c" by (simp add: at_def v(1))
  have map_v: "map_of (cw_byTask v) tc = (if tc = dg_taskCallId i then Some ?h else map_of (cw_byTask w) tc)" for tc
    by (simp add: v(4) update_conv')
  have old: "registered v k" if "registered w k" for k
  proof -
    have k: "k < ?h" "map_of (cw_byTask w) (ch_taskCallId (at w k)) = Some k" using that by (simp_all add: registered_def)
    moreover have "ch_taskCallId (at w k) \<noteq> dg_taskCallId i" using k(2) free by auto
    ultimately show ?thesis by (simp add: registered_def v_at map_v) (simp add: v(1))
  qed
  have known: "registered w k \<or> k = ?h" if "registered v k" for k
  proof (cases "k = ?h")
    case False
    then have "k < ?h" using that by (simp add: registered_def v(1))
    then show ?thesis using that by (auto simp: registered_def v_at map_v split: if_splits)
  qed simp
  have "tasks_ok v"
    unfolding tasks_ok_def
  proof (intro conjI allI impI)
    fix tc h assume m: "map_of (cw_byTask v) tc = Some h"
    show "h < length (cw_heap v)" using m t(2) [of tc h] by (auto simp: map_v v(1) split: if_splits)
    show "ch_taskCallId (at v h) = tc"
      using m t(2) [of tc h] by (auto simp: map_v v_at v_new c(1) split: if_splits)
    show "saved_in (cw_db v) (at v h)"
      using m t(2) [of tc h] d(2,3) by (auto simp: map_v v_at v_new v(2) split: if_splits)
  next
    fix tc assume "child_key tc \<in> m_key ` set (db_meta (cw_db v))"
    then show "map_of (cw_byTask v) tc \<noteq> None" using t(3) by (auto simp: v(2) d(4) map_v)
  qed (use t(4) d(1) in \<open>simp_all add: v(2,4) distinct_update\<close>)
  moreover have "sessions_ok v"
    unfolding sessions_ok_def v(3)
  proof (intro conjI allI impI)
    fix s h assume m: "map_of (cw_bySession w) s = Some h"
    then show "registered v h" using old session_owner [OF ok] by blast
    have "h < ?h" using session_owner [OF ok m] by (simp add: registered_def)
    then show "ch_childSessionId (at v h) = Some s" if "s \<noteq> []"
      using session_back [OF ok m that] by (simp add: v_at)
  next
    fix h s assume h: "registered v h" "ch_childSessionId (at v h) = Some s" "s \<noteq> []"
    then have "registered w h" using known v_new c(2) by fastforce
    then show "map_of (cw_bySession w) s = Some h"
      using session_of_child [OF ok, of h s] h(2,3) v_at [of h] by (simp add: registered_def)
  qed
  ultimately show ?thesis using old by (simp add: children_ok_def)
qed

lemma register_finish_ok:
  assumes ok: "service_ok w" and disk: "cv_disk env" and free: "map_of (cw_byTask w) (dg_taskCallId i) = None"
    and other: "dg_taskCallId i \<notin> set (concat (map creating (cw_waiting w)))"
  shows "service_ok (snd (register_finish env i aid eid started w))"
proof (cases "child_save (cv_now env) (delegation_record i aid eid started) (cw_db w)")
  case (Inl e)
  then show ?thesis using ok disk by (simp add: register_finish_def Let_def save_record_def at_def)
next
  case (Inr d)
  let ?v = "snd (register_finish env i aid eid started w)"
  have v: "cw_heap ?v = cw_heap w @ [delegation_record i aid eid started]" "cw_db ?v = d" "cw_bySession ?v = cw_bySession w"
    "cw_byTask ?v = AList.update (dg_taskCallId i) (length (cw_heap w)) (cw_byTask w)" "cw_waiting ?v = cw_waiting w"
    using disk Inr by (simp_all add: register_finish_def Let_def save_record_def at_def)
  have c: "children_ok w" "waits_ok w" using ok by (simp_all add: service_ok_def)
  note r = register_children [OF c(1) free Inr v(1-4)]
  have "waits_ok ?v"
    using c(2) other r unfolding waits_ok_def v(4,5) by (auto simp: update_conv')
  then show ?thesis using r by (simp add: service_ok_def)
qed

lemma take_waits:
  assumes ok: "waits_ok w" and k: "k < length (cw_waiting w)"
  shows "waits_ok (take_waiting k w)" "\<And>h. h \<in> set (waits_on (cw_waiting w ! k)) \<Longrightarrow> registered (take_waiting k w) h"
    "\<And>tc. tc \<in> set (creating (cw_waiting w ! k)) \<Longrightarrow>
       map_of (cw_byTask (take_waiting k w)) tc = None \<and> tc \<notin> set (concat (map creating (cw_waiting (take_waiting k w))))"
proof -
  let ?w = "take_waiting k w"
  have split: "cw_waiting w = take k (cw_waiting w) @ cw_waiting w ! k # drop (Suc k) (cw_waiting w)"
    using k by (rule id_take_nth_drop)
  have frame: "registered ?w = registered w" by (rule children_cong; simp add: take_waiting_def)
  have q: "cw_waiting ?w = take k (cw_waiting w) @ drop (Suc k) (cw_waiting w)" "cw_byTask ?w = cw_byTask w"
    by (simp_all add: take_waiting_def)
  have w: "distinct (concat (map creating (cw_waiting w)))"
    "\<And>x. x \<in> set (cw_waiting w) \<Longrightarrow> (\<forall>tc \<in> set (creating x). map_of (cw_byTask w) tc = None) \<and> (\<forall>h \<in> set (waits_on x). registered w h)"
    using ok unfolding waits_ok_def by blast+
  have dist: "distinct (concat (map creating (take k (cw_waiting w) @ cw_waiting w ! k # drop (Suc k) (cw_waiting w))))"
    using w(1) split by simp
  have member: "x \<in> set (cw_waiting w)" if "x \<in> set (cw_waiting ?w)" for x
    using that by (auto simp: q dest: in_set_takeD in_set_dropD)
  have "distinct (concat (map creating (cw_waiting ?w)))" using dist by (auto simp: q)
  with w(2) member show "waits_ok ?w" unfolding waits_ok_def frame q(2) by blast
  have here: "cw_waiting w ! k \<in> set (cw_waiting w)" using k by simp
  show "registered ?w h" if "h \<in> set (waits_on (cw_waiting w ! k))" for h
    using w(2) [OF here] that frame by simp
  show "map_of (cw_byTask ?w) tc = None \<and> tc \<notin> set (concat (map creating (cw_waiting ?w)))"
    if "tc \<in> set (creating (cw_waiting w ! k))" for tc
    using w(2) [OF here] that dist by (auto simp: q)
qed

lemma take_waiting_ok:
  assumes ok: "service_ok w" and k: "k < length (cw_waiting w)"
  shows "service_ok (take_waiting k w)" "\<And>h. h \<in> set (waits_on (cw_waiting w ! k)) \<Longrightarrow> registered (take_waiting k w) h"
    "\<And>tc. tc \<in> set (creating (cw_waiting w ! k)) \<Longrightarrow>
       map_of (cw_byTask (take_waiting k w)) tc = None \<and> tc \<notin> set (concat (map creating (cw_waiting (take_waiting k w))))"
proof -
  have w: "children_ok w" "waits_ok w" using ok by (simp_all add: service_ok_def)
  have "children_ok (take_waiting k w) = children_ok w" by (rule children_cong; simp add: take_waiting_def)
  then show "service_ok (take_waiting k w)" using w take_waits(1) [OF w(2) k] by (simp add: service_ok_def)
qed (use take_waits(2,3) [OF _ k] ok in \<open>auto simp: service_ok_def\<close>)

lemma resume_ok:
  assumes ok: "service_ok w" and disk: "cv_disk env" and reg: "\<And>h. h \<in> set (waits_on x) \<Longrightarrow> registered w h"
    and new: "\<And>tc. tc \<in> set (creating x) \<Longrightarrow>
      map_of (cw_byTask w) tc = None \<and> tc \<notin> set (concat (map creating (cw_waiting w)))"
  shows "service_ok (snd (resume env aborted x w))"
proof (cases x)
  case (AfterCreate i aid eid started)
  then have "map_of (cw_byTask w) (dg_taskCallId i) = None" "dg_taskCallId i \<notin> set (concat (map creating (cw_waiting w)))"
    using new [of "dg_taskCallId i"] by auto
  then show ?thesis using register_finish_ok [OF ok disk] by (simp add: resume_def AfterCreate)
next
  case (AfterAbort h reason)
  then have "registered w h" using reg by simp
  then show ?thesis using apply_mark_ok [OF ok _ disk] unconfirmed_ok [OF ok _ disk] by (simp add: resume_def AfterAbort cancel_confirmed_def)
next
  case (AfterSave h m s msg)
  then have h: "registered w h" using reg by simp
  have "service_ok (wait_for (AfterAssignment h m s msg) (w\<lparr>cw_db := d\<rparr>))"
    if "mark_assignment m u a (cw_db w) = Inr (v, e, d)" for u a v e d
  proof -
    have "service_ok (w\<lparr>cw_db := d\<rparr>)" "registered (w\<lparr>cw_db := d\<rparr>) = registered w"
      using service_db mark_assignment_frame [OF that] ok by blast+
    then show ?thesis using h by (intro wait_ok) simp_all
  qed
  then show ?thesis using ok disk by (auto simp: resume_def AfterSave follow_assignment_def split: sum.split)
next
  case (AfterAssignment h m s msg)
  then show ?thesis using ok by (simp add: resume_def follow_registry_def follow_session_def)
qed

lemma lifecycle_step_ok:
  assumes ok: "service_ok w" and ord: "orderly a w"
  shows "service_ok (snd (lifecycle_step a w))"
proof (cases a)
  case (Resume env aborted k)
  then show ?thesis using ok ord resume_ok take_waiting_ok by simp
next
  case (Begin env c)
  then have disk: "cv_disk env" using ord by (cases c) simp_all
  have ch: "children_ok w" using ok by (simp add: service_ok_def)
  show ?thesis
  proof (cases c)
    case (CallRegister i)
    then show ?thesis using ok ord Begin register_begin_ok by simp
  next
    case (CallBind parent sid agent tc)
    have "waits_ok (snd (bindChildSession env parent sid agent tc w))"
      using keeps_waits [OF bind_ok [OF ch disk, THEN conjunct2]] ok by (simp add: service_ok_def)
    then show ?thesis using CallBind bind_ok [OF ch disk] by (simp add: Begin service_ok_def)
  next
    case (CallCancelled tc sid reason confirmed port)
    have "service_ok (wait_for (AfterAbort h why) w)" if "resolveRecord tc sid w = Some h" for h why
      using resolve_registered [OF ch that] by (intro wait_ok [OF ok]) simp_all
    then show ?thesis
      using ok CallCancelled apply_mark_ok [OF ok resolve_registered [OF ch] disk]
        unconfirmed_ok [OF ok resolve_registered [OF ch] disk]
      by (auto simp: Begin markCancelled_def cancel_confirmed_def Let_def split: option.split)
  qed (use ok apply_mark_ok [OF ok resolve_registered [OF ch] disk] in
    \<open>auto simp: Begin markStarted_def markCompleted_def markFailed_child_def markTimedOut_def Let_def split: option.split\<close>)
qed

lemma run_ok: "service_ok w \<Longrightarrow> orderly_run as w \<Longrightarrow> service_ok (child_run as w)"
  by (induction as arbitrary: w) (auto intro: lifecycle_step_ok)

text \<open>A task call that is found stays found under the same record.\<close>

lemma save_tasks: "save_record env h w = Inr w' \<Longrightarrow> cw_byTask w' = cw_byTask w \<and> cw_heap w' = cw_heap w"
  by (auto simp: save_record_def split: if_splits sum.splits)

lemma transition_tasks:
  assumes "registered w h"
  shows "cw_byTask (snd (transitionChild env h t x w)) = cw_byTask w"
proof -
  let ?v = "change_record h (moved_child t x) w"
  have "cw_byTask (cache_record h v) = cw_byTask w" if s: "save_record env h ?v = Inr v" for v
  proof -
    have "at v h = moved_child t x (at w h)"
      using save_tasks [OF s] at_change [of h w "moved_child t x" h] assms by (simp add: at_def registered_def)
    then show ?thesis
      using save_tasks [OF s] assms by (simp add: cache_record_def registered_def update_same moved_child_def)
  qed
  then show ?thesis by (auto simp: transitionChild_def Let_def split: sum.split)
qed

lemma mark_tasks: "registered w h \<Longrightarrow> cw_byTask (snd (apply_mark env h m x msg w)) = cw_byTask w"
  using transition_tasks [of w h env "mark_state m" x]
  by (auto simp: apply_mark_def Let_def wait_for_def split: prod.split sum.split bool.split)

lemma unconfirmed_tasks: "cw_byTask (snd (cancel_unconfirmed env h reason w)) = cw_byTask w"
  by (auto simp: cancel_unconfirmed_def Let_def dest: save_tasks split: sum.split)

lemma finish_tasks:
  assumes "map_of (cw_byTask w) (dg_taskCallId i) = None" and "map_of (cw_byTask w) tc = Some h"
  shows "map_of (cw_byTask (snd (register_finish env i aid eid started w))) tc = Some h"
  using assms by (auto simp: register_finish_def Let_def update_conv' dest!: save_tasks split: sum.split)

lemma step_tasks:
  assumes ok: "service_ok w" and m: "map_of (cw_byTask w) tc = Some h"
  shows "map_of (cw_byTask (snd (lifecycle_step a w))) tc = Some h"
proof (cases a)
  case (Resume env aborted k)
  show ?thesis
  proof (cases "k < length (cw_waiting w)")
    case True
    let ?t = "take_waiting k w"
    have t: "map_of (cw_byTask ?t) tc = Some h" using m by (simp add: take_waiting_def)
    note take = take_waiting_ok [OF ok True]
    have "map_of (cw_byTask (snd (resume env aborted (cw_waiting w ! k) ?t))) tc = Some h"
    proof (cases "cw_waiting w ! k")
      case (AfterCreate i aid eid started)
      then show ?thesis using take(3) [of "dg_taskCallId i"] finish_tasks [OF _ t] by (simp add: resume_def)
    next
      case (AfterAbort g reason)
      then have "registered ?t g" using take(2) by simp
      then show ?thesis using t by (simp add: resume_def AfterAbort cancel_confirmed_def mark_tasks unconfirmed_tasks)
    next
      case (AfterSave g mk s msg)
      then show ?thesis using t by (auto simp: resume_def follow_assignment_def wait_for_def split: sum.split)
    next
      case (AfterAssignment g mk s msg)
      then show ?thesis using t by (simp add: resume_def follow_registry_def follow_session_def)
    qed
    then show ?thesis using Resume True by simp
  qed (simp add: Resume m)
next
  case (Begin env c)
  have ch: "children_ok w" using ok by (simp add: service_ok_def)
  have mark: "cw_byTask (snd (apply_mark env g mk x msg w)) = cw_byTask w"
    if "resolveRecord t sid w = Some g" for t sid g mk x msg
    using mark_tasks resolve_registered [OF ch that] .
  show ?thesis
  proof (cases c)
    case (CallRegister i)
    then show ?thesis using m by (auto simp: Begin register_begin_def Let_def wait_for_def split: option.split sum.split)
  next
    case (CallBind parent sid agent t)
    then show ?thesis using m
      by (auto simp: Begin bindChildSession_def Let_def dest!: save_tasks split: option.split sum.split)
  next
    case (CallCancelled t sid reason confirmed port)
    then show ?thesis using m
      by (auto simp: Begin markCancelled_def Let_def cancel_confirmed_def mark unconfirmed_tasks wait_for_def split: option.split)
  qed (use m in \<open>auto simp: Begin markStarted_def markCompleted_def markFailed_child_def markTimedOut_def Let_def mark
    split: option.split\<close>)
qed

lemma run_tasks:
  "service_ok w \<Longrightarrow> orderly_run as w \<Longrightarrow> map_of (cw_byTask w) tc = Some h \<Longrightarrow> map_of (cw_byTask (child_run as w)) tc = Some h"
  by (induction as arbitrary: w) (auto intro: lifecycle_step_ok step_tasks)

end
