(* ===== verification/Child_Restart.thy ===== *)
theory Child_Restart
  imports Child_Durability
begin

text \<open>
  A restart loses the maps, the handles and every call that was under way, and reads the children back. When the rows
  of children are sound and no session says otherwise, the service is afterwards in the state the invariant asks for.
\<close>

section \<open>Loading\<close>

lemma load_record_frame [simp]:
  "cw_heap (load_record c w) = cw_heap w @ [c]" "cw_db (load_record c w) = cw_db w" "cw_sessions (load_record c w) = cw_sessions w"
  "cw_waiting (load_record c w) = cw_waiting w"
  by (simp_all add: load_record_def cache_record_def)

lemma load_record_maps:
  "cw_byTask (load_record c w) = AList.update (ch_taskCallId c) (length (cw_heap w)) (cw_byTask w)"
  "cw_byAssignment (load_record c w) = AList.update (ch_assignmentId c) (length (cw_heap w)) (cw_byAssignment w)"
  "cw_bySession (load_record c w) = (if truthy (ch_childSessionId c)
     then AList.update (nullish (ch_childSessionId c) []) (length (cw_heap w)) (cw_bySession w) else cw_bySession w)"
  by (simp_all add: load_record_def cache_record_def at_def)

definition bound_sessions :: "child_execution list \<Rightarrow> string list" where
  "bound_sessions cs = map (\<lambda>c. nullish (ch_childSessionId c) []) (filter (\<lambda>c. truthy (ch_childSessionId c)) cs)"

text \<open>The maps after loading: a place is the index of the record.\<close>

definition loaded :: "child_execution list \<Rightarrow> child_world \<Rightarrow> bool" where
  "loaded cs w \<longleftrightarrow> cw_heap w = cs \<and> distinct (map fst (cw_byTask w))
     \<and> (\<forall>tc h. map_of (cw_byTask w) tc = Some h \<longleftrightarrow> h < length cs \<and> ch_taskCallId (cs ! h) = tc)
     \<and> (\<forall>a h. map_of (cw_byAssignment w) a = Some h \<longrightarrow> h < length cs \<and> ch_assignmentId (cs ! h) = a)
     \<and> (\<forall>s h. map_of (cw_bySession w) s = Some h \<longleftrightarrow> h < length cs \<and> ch_childSessionId (cs ! h) = Some s \<and> s \<noteq> [])"

lemma loaded_snoc:
  assumes l: "loaded cs w" and tc: "ch_taskCallId c \<notin> ch_taskCallId ` set cs"
    and s: "truthy (ch_childSessionId c) \<Longrightarrow> nullish (ch_childSessionId c) [] \<notin> set (bound_sessions cs)"
  shows "loaded (cs @ [c]) (load_record c w)"
proof -
  have w: "cw_heap w = cs" "distinct (map fst (cw_byTask w))"
    "\<And>tc h. map_of (cw_byTask w) tc = Some h \<longleftrightarrow> h < length cs \<and> ch_taskCallId (cs ! h) = tc"
    "\<And>a h. map_of (cw_byAssignment w) a = Some h \<Longrightarrow> h < length cs \<and> ch_assignmentId (cs ! h) = a"
    "\<And>s h. map_of (cw_bySession w) s = Some h \<longleftrightarrow> h < length cs \<and> ch_childSessionId (cs ! h) = Some s \<and> s \<noteq> []"
    using l unfolding loaded_def by blast+
  have task: "h < length cs \<Longrightarrow> ch_taskCallId (cs ! h) \<noteq> ch_taskCallId c" for h using tc nth_mem by (metis image_eqI)
  have sess: "ch_childSessionId (cs ! h) \<noteq> Some s" if "h < length cs" "ch_childSessionId c = Some s" "s \<noteq> []" for h s
  proof
    assume "ch_childSessionId (cs ! h) = Some s"
    then have "s \<in> set (bound_sessions cs)"
      using that unfolding bound_sessions_def by (auto intro!: image_eqI [of _ _ "cs ! h"])
    then show False using s that by simp
  qed
  show ?thesis
    unfolding loaded_def load_record_frame load_record_maps
  proof (intro conjI allI impI)
    fix t h
    show "map_of (AList.update (ch_taskCallId c) (length (cw_heap w)) (cw_byTask w)) t = Some h
        \<longleftrightarrow> h < length (cs @ [c]) \<and> ch_taskCallId ((cs @ [c]) ! h) = t"
      using w(3) [of t h] task [of h] by (auto simp: update_conv' w(1) nth_append less_Suc_eq)
  next
    fix a h
    assume "map_of (AList.update (ch_assignmentId c) (length (cw_heap w)) (cw_byAssignment w)) a = Some h"
    then have "h < length (cs @ [c]) \<and> ch_assignmentId ((cs @ [c]) ! h) = a"
      using w(4) [of a h] by (auto simp: update_conv' w(1) nth_append less_Suc_eq split: if_splits)
    then show "h < length (cs @ [c])" "ch_assignmentId ((cs @ [c]) ! h) = a" by simp_all
  next
    fix s h
    show "map_of (if truthy (ch_childSessionId c)
          then AList.update (nullish (ch_childSessionId c) []) (length (cw_heap w)) (cw_bySession w) else cw_bySession w) s = Some h
        \<longleftrightarrow> h < length (cs @ [c]) \<and> ch_childSessionId ((cs @ [c]) ! h) = Some s \<and> s \<noteq> []"
    proof (cases "truthy (ch_childSessionId c)")
      case True
      then obtain x where x: "ch_childSessionId c = Some x" "x \<noteq> []" by (auto simp: truthy_def)
      then show ?thesis using w(5) [of s h] sess [of h x] by (auto simp: update_conv' w(1) nth_append less_Suc_eq)
    next
      case False
      then show ?thesis using w(5) [of s h] by (auto simp: nth_append less_Suc_eq truthy_def)
    qed
  qed (simp_all add: w(1,2) distinct_update)
qed

lemma loaded_fold:
  assumes "distinct (map ch_taskCallId cs)" and "distinct (bound_sessions cs)"
  shows "loaded cs (fold load_record cs (forget_memory w)) \<and> cw_db (fold load_record cs (forget_memory w)) = cw_db w
    \<and> cw_sessions (fold load_record cs (forget_memory w)) = cw_sessions w
    \<and> cw_waiting (fold load_record cs (forget_memory w)) = []"
  using assms
proof (induction cs rule: rev_induct)
  case Nil
  show ?case by (simp add: loaded_def forget_memory_def)
next
  case (snoc c cs)
  then have "loaded (cs @ [c]) (load_record c (fold load_record cs (forget_memory w)))"
    by (intro loaded_snoc) (auto simp: bound_sessions_def)
  then show ?case using snoc by (auto simp: bound_sessions_def)
qed

section \<open>The rows of children\<close>

lemma child_key_like: "sql_like ''child_exec:%'' (child_key tc)"
proof -
  have "sql_like (''child_exec:'' @ [CHR ''%'']) (''child_exec:'' @ tc)" by (rule sql_like_prefix)
  then show ?thesis by (simp only: child_key_def append.simps)
qed

text \<open>Sound rows: each row the listing reads is the record of one child, under the ids and the key of that record.\<close>

definition child_row :: "meta_row \<Rightarrow> bool" where
  "child_row r \<longleftrightarrow> (case m_value r of
     MChild c \<Rightarrow> m_id r = ''meta-'' @ ch_executionId c \<and> m_runId r = ch_runId c \<and> m_key r = child_key (ch_taskCallId c)
       \<and> ch_taskCallId c \<noteq> [] \<and> ch_executionId c \<noteq> [] \<and> ch_assignmentId c \<noteq> []
   | _ \<Rightarrow> False)"

definition rows_sound :: "sql_order \<Rightarrow> orch_db \<Rightarrow> bool" where
  "rows_sound q d \<longleftrightarrow> meta_ok d \<and> (\<forall>r \<in> set (db_meta d). sql_like ''child_exec:%'' (m_key r) \<longrightarrow> child_row r)
     \<and> distinct (map ch_taskCallId (child_listAll q None d)) \<and> distinct (bound_sessions (child_listAll q None d))"

text \<open>A session of a child that is not behind its record: the record has a session, and has ended if the session has.\<close>

definition session_agrees :: "child_execution list \<Rightarrow> agent_session \<Rightarrow> bool" where
  "session_agrees cs s \<longleftrightarrow> (\<forall>c \<in> set cs. sx_assignmentId s = Some (ch_assignmentId c) \<longrightarrow>
     truthy (ch_childSessionId c) \<and> (session_end (sx_status s) \<noteq> None \<longrightarrow> isTerminalChildState (ch_status c)))"

lemma listed_children:
  assumes "sql_order_ok q" and "rows_sound q d"
  shows "c \<in> set (child_listAll q None d) \<Longrightarrow> saved_in d c"
    and "child_key tc \<in> m_key ` set (db_meta d) \<Longrightarrow> tc \<in> ch_taskCallId ` set (child_listAll q None d)"
proof -
  let ?rows = "filter (\<lambda>r. sql_like ''child_exec:%'' (m_key r)) (db_meta d)"
  have list: "set (child_listAll q None d) = {c. \<exists>r \<in> set ?rows. child_of (m_value r) = Some c}"
  proof -
    have "mset (sq_scan q ?rows) = mset ?rows" using assms(1) unfolding sql_order_ok_def by blast
    then have "set (sq_scan q ?rows) = set ?rows" by (rule mset_eq_setD)
    moreover have "child_listAll q None d = List.map_filter (\<lambda>r. child_of (m_value r)) (sq_scan q ?rows)"
      by (simp add: child_listAll_def)
    ultimately show ?thesis by (simp only: set_map_filter)
  qed
  have sound: "child_row r" if "r \<in> set ?rows" for r using assms(2) that by (simp add: rows_sound_def)
  show "saved_in d c" if "c \<in> set (child_listAll q None d)"
  proof -
    from that list obtain r where r: "r \<in> set ?rows" "child_of (m_value r) = Some c" by blast
    then have "m_value r = MChild c" by (auto simp: child_of_def split: meta_value.splits if_splits)
    with sound [OF r(1)] have "m_id r = ''meta-'' @ ch_executionId c \<and> m_runId r = ch_runId c
        \<and> m_key r = child_key (ch_taskCallId c) \<and> m_value r = MChild c"
      by (simp add: child_row_def)
    moreover have "r \<in> set (db_meta d)" using r(1) by simp
    ultimately show ?thesis unfolding saved_in_def by blast
  qed
  show "tc \<in> ch_taskCallId ` set (child_listAll q None d)" if "child_key tc \<in> m_key ` set (db_meta d)"
  proof -
    from that obtain r where r: "r \<in> set (db_meta d)" "m_key r = child_key tc" by auto
    then have row: "r \<in> set ?rows" using child_key_like by simp
    obtain c where c: "m_value r = MChild c" "m_key r = child_key (ch_taskCallId c)" "child_of (m_value r) = Some c"
      using sound [OF row] by (auto simp: child_row_def child_of_def split: meta_value.splits)
    then have "c \<in> set (child_listAll q None d)" using row list by blast
    then show ?thesis using c(2) r(2) by auto
  qed
qed

lemma cross_agrees:
  assumes "loaded cs w" and "session_agrees cs s"
  shows "cross_session s w = w"
proof (cases "map_of (cw_byAssignment w) (nullish (sx_assignmentId s) [])")
  case (Some h)
  show ?thesis
  proof (cases "sx_assignmentId s")
    case a: (Some a)
    have "h < length cs" "ch_assignmentId (cs ! h) = a" "at w h = cs ! h"
      using assms(1) Some a by (auto simp: loaded_def at_def)
    then have "truthy (ch_childSessionId (at w h)) \<and> (session_end (sx_status s) \<noteq> None \<longrightarrow> isTerminalChildState (ch_status (at w h)))"
      using assms(2) a unfolding session_agrees_def by auto
    then show ?thesis by (auto simp: cross_session_def adopt_session_def adopt_status_def Some split: option.split)
  qed (simp add: cross_session_def)
qed (simp add: cross_session_def)

text \<open>C25. A restart finds every child again. With sound rows, and sessions that are not ahead of them, the service after a
  restart is in the state from which memory and table agree for ever: the child of every row is found by its task
  call with the record of the row, by its session if it has one, and nothing else is found.\<close>

theorem restart_finds_children:
  assumes q: "sql_order_ok q" and rows: "rows_sound q (cw_db w)"
    and agree: "\<forall>s \<in> set (cw_sessions w). session_agrees (child_listAll q None (cw_db w)) s"
  shows "service_ok (restart q w) \<and> cw_db (restart q w) = cw_db w
    \<and> (\<forall>tc c. getChildExecution (Some tc) None None (restart q w) = Some c
        \<longleftrightarrow> c \<in> set (child_listAll q None (cw_db w)) \<and> ch_taskCallId c = tc)"
proof -
  let ?cs = "child_listAll q None (cw_db w)"
  let ?w = "fold load_record ?cs (forget_memory w)"
  have l: "loaded ?cs ?w" "cw_db ?w = cw_db w" "cw_sessions ?w = cw_sessions w" "cw_waiting ?w = []"
    using loaded_fold rows by (auto simp: rows_sound_def)
  have "fold cross_session ss ?w = ?w" if "set ss \<subseteq> set (cw_sessions w)" for ss
    using that by (induction ss) (use cross_agrees [OF l(1)] agree in auto)
  then have r: "restart q w = ?w"
    by (simp add: restart_def reconcile_children_def forget_memory_def l(2))
  have heap: "cw_heap ?w = ?cs"
    and task: "\<And>tc h. map_of (cw_byTask ?w) tc = Some h \<longleftrightarrow> h < length ?cs \<and> ch_taskCallId (?cs ! h) = tc"
    and sess: "\<And>s h. map_of (cw_bySession ?w) s = Some h \<longleftrightarrow> h < length ?cs \<and> ch_childSessionId (?cs ! h) = Some s \<and> s \<noteq> []"
    and keys: "distinct (map fst (cw_byTask ?w))"
    using l(1) unfolding loaded_def by blast+
  have reg: "registered ?w h \<longleftrightarrow> h < length ?cs" for h
    using task by (auto simp: registered_def heap at_def)
  have "tasks_ok ?w"
    unfolding tasks_ok_def l(2)
  proof (intro conjI allI impI)
    show "meta_ok (cw_db w)" using rows by (simp add: rows_sound_def)
    fix tc h assume "map_of (cw_byTask ?w) tc = Some h"
    then have h: "h < length ?cs" "ch_taskCallId (?cs ! h) = tc" using task by blast+
    then show "h < length (cw_heap ?w)" "ch_taskCallId (at ?w h) = tc" "saved_in (cw_db w) (at ?w h)"
      using listed_children(1) [OF q rows] by (simp_all add: heap at_def)
  next
    fix tc assume "child_key tc \<in> m_key ` set (db_meta (cw_db w))"
    then have "tc \<in> ch_taskCallId ` set ?cs" using listed_children(2) [OF q rows] by blast
    then obtain h where "h < length ?cs" "ch_taskCallId (?cs ! h) = tc" by (auto simp: in_set_conv_nth)
    then have "map_of (cw_byTask ?w) tc = Some h" using task by blast
    then show "map_of (cw_byTask ?w) tc \<noteq> None" by simp
  qed (rule keys)
  moreover have "sessions_ok ?w"
    unfolding sessions_ok_def reg sess by (auto simp: at_def heap)
  moreover have "waits_ok ?w" by (simp add: waits_ok_def l(4))
  ultimately have "service_ok ?w" by (simp add: service_ok_def children_ok_def)
  moreover have "getChildExecution (Some tc) None None ?w = Some c \<longleftrightarrow> c \<in> set ?cs \<and> ch_taskCallId c = tc" for tc c
  proof -
    have ids: "ch_taskCallId x \<noteq> []" if "x \<in> set ?cs" for x
      using that by (auto simp: child_listAll_def List.map_filter_def child_of_def split: meta_value.splits if_splits)
    show ?thesis
    proof (cases "map_of (cw_byTask ?w) tc")
      case None
      then have "\<nexists>h. h < length ?cs \<and> ch_taskCallId (?cs ! h) = tc" using task [of tc] by auto
      then show ?thesis using None by (auto simp: getChildExecution_def resolveRecord_def in_set_conv_nth)
    next
      case (Some h)
      then have h: "h < length ?cs" "ch_taskCallId (?cs ! h) = tc" using task by blast+
      then have "tc \<noteq> []" using ids nth_mem by metis
      then have get: "getChildExecution (Some tc) None None ?w = Some (?cs ! h)"
        using Some by (simp add: getChildExecution_def resolveRecord_def at_def heap)
      have "c = ?cs ! h" if "c \<in> set ?cs" "ch_taskCallId c = tc"
      proof -
        obtain k where k: "k < length ?cs" "?cs ! k = c" using \<open>c \<in> set ?cs\<close> by (auto simp: in_set_conv_nth)
        have "distinct (map ch_taskCallId ?cs)" using rows by (simp add: rows_sound_def)
        then have "k = h" using k h \<open>ch_taskCallId c = tc\<close> by (metis length_map nth_eq_iff_index_eq nth_map)
        then show ?thesis using k by simp
      qed
      then show ?thesis unfolding get using h nth_mem by auto
    qed
  qed
  ultimately show ?thesis unfolding r using l(2) by blast
qed

end
