(* ===== verification/Child_Writes.thy ===== *)
theory Child_Writes
  imports Child_Durability
begin

text \<open>
  Children with a database that may refuse a write. The row of a child is its record as it was when a write was last
  taken, so memory is ahead of the table by the changes that were refused and by nothing else; and a native session
  belongs to one task call as long as no binding is refused.
\<close>

section \<open>The row of a record\<close>

definition durable_row :: "child_world \<Rightarrow> nat \<Rightarrow> meta_value option" where
  "durable_row w h = meta_val (cw_db w) (ch_runId (at w h), child_key (ch_taskCallId (at w h)))"

definition linked :: "child_world \<Rightarrow> bool" where
  "linked w \<longleftrightarrow>
     (\<forall>tc h. map_of (cw_byTask w) tc = Some h \<longrightarrow>
        h < length (cw_heap w) \<and> ch_taskCallId (at w h) = tc \<and> durable_row w h \<noteq> None)
     \<and> (\<forall>tc. child_key tc \<in> m_key ` set (db_meta (cw_db w)) \<longrightarrow> map_of (cw_byTask w) tc \<noteq> None)
     \<and> distinct (map fst (cw_byTask w))
     \<and> (\<forall>s h. map_of (cw_bySession w) s = Some h \<longrightarrow> registered w h)"

text \<open>A step of the records that are found: one is written as it is afterwards, or its row stays, and then it changes
  only when the write is refused.\<close>

definition row_follows :: "bool \<Rightarrow> child_world \<Rightarrow> child_world \<Rightarrow> bool" where
  "row_follows disk w w' \<longleftrightarrow> (\<forall>h. registered w h \<longrightarrow>
     disk \<and> durable_row w' h = Some (MChild (at w' h))
     \<or> durable_row w' h = durable_row w h \<and> (at w' h = at w h \<or> \<not> disk))"

lemma row_follows_refl [simp]: "row_follows disk w w"
  by (simp add: row_follows_def)

lemma row_cong:
  assumes "db_meta (cw_db w') = db_meta (cw_db w)" "cw_heap w' = cw_heap w"
  shows "durable_row w' = durable_row w" and "at w' = at w"
  using assms by (simp_all add: durable_row_def meta_val_def at_def fun_eq_iff)

lemma linked_cong:
  assumes "db_meta (cw_db w') = db_meta (cw_db w)" "cw_heap w' = cw_heap w"
    "cw_byTask w' = cw_byTask w" "cw_bySession w' = cw_bySession w"
  shows "linked w' = linked w" and "registered w' = registered w"
  using row_cong [OF assms(1,2)] assms by (simp_all add: linked_def registered_def fun_eq_iff)

lemma linked_task:
  "linked w \<Longrightarrow> map_of (cw_byTask w) tc = Some h \<Longrightarrow> registered w h \<and> ch_taskCallId (at w h) = tc"
  unfolding linked_def registered_def by blast

lemma linked_row: "linked w \<Longrightarrow> registered w h \<Longrightarrow> durable_row w h \<noteq> None"
  unfolding linked_def registered_def by blast

lemma linked_found: "linked w \<Longrightarrow> resolveRecord tc sid w = Some h \<Longrightarrow> registered w h"
proof -
  assume ok: "linked w" and r: "resolveRecord tc sid w = Some h"
  have "map_of (cw_byTask w) t = Some h \<Longrightarrow> registered w h" "map_of (cw_bySession w) t = Some h \<Longrightarrow> registered w h" for t
    using ok linked_task [OF ok] unfolding linked_def by blast+
  moreover have "map_of (cw_byTask w) (nullish tc []) = Some h \<or> map_of (cw_bySession w) (nullish sid []) = Some h"
    using r by (simp add: resolveRecord_def split: if_splits)
  ultimately show "registered w h" by blast
qed

lemma linked_bound:
  assumes "linked w" and "bind_target parent agent tc w = Some h"
  shows "registered w h"
proof -
  have "h \<in> set (unbound_matches parent agent w) \<or> map_of (cw_byTask w) (nullish tc []) = Some h"
    using assms(2) by (auto simp: bind_target_def split: option.splits list.splits if_splits)
  then have "h \<in> set (map snd (cw_byTask w)) \<or> map_of (cw_byTask w) (nullish tc []) = Some h"
    by (auto simp: unbound_matches_def)
  then obtain t where "map_of (cw_byTask w) t = Some h"
  proof
    assume "h \<in> set (map snd (cw_byTask w))"
    then obtain t where t: "(t, h) \<in> set (cw_byTask w)" by auto
    have "distinct (map fst (cw_byTask w))" using assms(1) unfolding linked_def by blast
    then have "map_of (cw_byTask w) t = Some h" using t by simp
    then show ?thesis by (rule that)
  qed (rule that)
  then show ?thesis using linked_task [OF assms(1)] by blast
qed

lemma save_row:
  assumes "meta_val d (ch_runId c, child_key (ch_taskCallId c)) \<noteq> None"
  shows "\<exists>d'. child_save now c d = Inr d' \<and> m_key ` set (db_meta d') = m_key ` set (db_meta d)"
proof -
  let ?f = "\<lambda>r. if m_runId r = ch_runId c \<and> m_key r = child_key (ch_taskCallId c) then r\<lparr>m_value := MChild c\<rparr> else r"
  have "meta_at (db_meta d) (ch_runId c) (child_key (ch_taskCallId c)) \<noteq> None" using assms by (auto simp: meta_val_def)
  then have "child_save now c d = Inr (d\<lparr>db_meta := map ?f (db_meta d)\<rparr>)" by (simp add: child_save_def meta_upsert_def)
  moreover have "m_key ` set (map ?f (db_meta d)) = m_key ` set (db_meta d)" by (rule image_map_keep) simp
  ultimately show ?thesis by simp
qed

section \<open>One record is put\<close>

text \<open>The worlds before and after have the same records under the same names.\<close>

definition stays :: "bool \<Rightarrow> child_world \<Rightarrow> child_world \<Rightarrow> bool" where
  "stays disk w w' \<longleftrightarrow> linked w' \<and> registered w' = registered w \<and> cw_byTask w' = cw_byTask w
     \<and> cw_waiting w' = cw_waiting w \<and> row_follows disk w w'"

lemma stays_refl: "linked w \<Longrightarrow> stays disk w w"
  by (simp add: stays_def)

lemma stays_cong:
  assumes "stays disk w u" "db_meta (cw_db u') = db_meta (cw_db u)" "cw_heap u' = cw_heap u"
    "cw_byTask u' = cw_byTask u" "cw_bySession u' = cw_bySession u" "cw_waiting u' = cw_waiting u"
  shows "stays disk w u'"
  using linked_cong [OF assms(2-5)] row_cong [OF assms(2,3)] assms(1,4,6) by (simp add: stays_def row_follows_def)

lemma stays_session:
  assumes "stays disk w u" and "registered w h"
  shows "stays disk w (u\<lparr>cw_bySession := AList.update s h (cw_bySession u)\<rparr>)"
proof -
  let ?u = "u\<lparr>cw_bySession := AList.update s h (cw_bySession u)\<rparr>"
  have same: "registered ?u = registered u" "durable_row ?u = durable_row u" "at ?u = at u"
    by (simp_all add: registered_def durable_row_def at_def fun_eq_iff)
  have u: "linked u" "registered u h" using assms by (simp_all add: stays_def)
  have "linked ?u" using u by (auto simp: linked_def same update_conv')
  then show ?thesis using assms(1) by (simp add: stays_def same row_follows_def)
qed

lemma put_linked:
  assumes ok: "linked w" and reg: "registered w h" and same: "same_child (at w h) (f (at w h))"
    and v: "cw_heap v = cw_heap (change_record h f w)" "cw_db v = cw_db w" "cw_byTask v = cw_byTask w"
      "cw_bySession v = cw_bySession w" "cw_waiting v = cw_waiting w"
  shows "case save_record env h v of Inl e \<Rightarrow> stays (cv_disk env) w v | Inr u \<Rightarrow> cv_disk env \<and> stays True w u"
proof -
  have h: "h < length (cw_heap w)" using reg by (simp add: registered_def)
  have v_at: "at v k = (if k = h then f (at w h) else at w k)" for k
    using at_change [OF h] v(1) by (simp add: at_def)
  have len: "length (cw_heap v) = length (cw_heap w)" using v(1) by (simp add: change_record_def)
  have ids: "ch_runId (at v k) = ch_runId (at w k)" "ch_taskCallId (at v k) = ch_taskCallId (at w k)" for k
    using same by (simp_all add: v_at same_child_def)
  have row: "durable_row v = durable_row w" by (simp add: durable_row_def ids v(2) fun_eq_iff)
  have reg_v: "registered v = registered w" by (simp add: registered_def ids len v(3) fun_eq_iff)
  have lv: "linked v" using ok unfolding linked_def row reg_v ids len v(2-4) by blast
  show ?thesis
  proof (cases "cv_disk env")
    case False
    then show ?thesis using lv by (simp add: save_record_def stays_def reg_v v(3,5) row_follows_def row)
  next
    case True
    have "meta_val (cw_db v) (ch_runId (at v h), child_key (ch_taskCallId (at v h))) \<noteq> None"
      using linked_row [OF ok reg] by (simp add: durable_row_def ids v(2))
    from save_row [OF this, of "cv_now env"] obtain d where d: "child_save (cv_now env) (at v h) (cw_db v) = Inr d"
      "m_key ` set (db_meta d) = m_key ` set (db_meta (cw_db v))" by blast
    let ?u = "v\<lparr>cw_db := d\<rparr>"
    have val: "meta_val d rk = (if rk = (ch_runId (at v h), child_key (ch_taskCallId (at v h))) then Some (MChild (at v h))
        else meta_val (cw_db v) rk)" for rk
      using meta_upsert_val [OF d(1) [unfolded child_save_def]] .
    have u_at: "at ?u = at v" by (simp add: at_def fun_eq_iff)
    have u_reg: "registered ?u = registered v" by (simp add: registered_def at_def fun_eq_iff)
    have other: "durable_row ?u k = durable_row v k" if "registered v k" "k \<noteq> h" for k
    proof -
      have "ch_taskCallId (at v k) \<noteq> ch_taskCallId (at v h)"
        using that(2) reg that(1) [unfolded reg_v] by (auto simp: registered_def ids)
      then show ?thesis by (simp add: durable_row_def u_at val)
    qed
    have here: "durable_row ?u h = Some (MChild (at ?u h))" by (simp add: durable_row_def u_at val)
    have some: "durable_row ?u k \<noteq> None" if "registered v k" for k
      using other [OF that] here linked_row [OF lv that] by (cases "k = h") simp_all
    have "linked ?u"
      using lv some linked_task [OF lv] unfolding linked_def u_at u_reg by (auto simp: d(2))
    moreover have "row_follows True w ?u"
      unfolding row_follows_def
    proof (intro allI impI)
      fix k assume k: "registered w k"
      show "True \<and> durable_row ?u k = Some (MChild (at ?u k))
          \<or> durable_row ?u k = durable_row w k \<and> (at ?u k = at w k \<or> \<not> True)"
        using here other [of k] k reg_v row by (cases "k = h") (simp_all add: u_at v_at)
    qed
    ultimately have "stays True w ?u" using v(3,5) by (simp add: stays_def u_reg reg_v)
    then show ?thesis using True d(1) by (simp add: save_record_def)
  qed
qed

lemma cache_stays:
  assumes "stays disk w u" and "registered w h"
  shows "stays disk w (cache_record h u)"
proof -
  have "registered u h" using assms by (simp add: stays_def)
  then have r: "map_of (cw_byTask u) (ch_taskCallId (at u h)) = Some h" by (simp add: registered_def)
  let ?v = "if truthy (ch_childSessionId (at u h))
    then u\<lparr>cw_bySession := AList.update (nullish (ch_childSessionId (at u h)) []) h (cw_bySession u)\<rparr> else u"
  have "stays disk w ?v" using stays_session [OF assms] assms(1) by simp
  then show ?thesis
    by (rule stays_cong) (simp_all add: cache_record_def update_same [OF r])
qed

lemma transition_stays:
  assumes "linked w" and "registered w h"
  shows "stays (cv_disk env) w (snd (transitionChild env h t x w))"
proof -
  note p = put_linked [where f = "moved_child t x" and v = "change_record h (moved_child t x) w" and env = env,
      OF assms moved_same [THEN conjunct1] refl]
  show ?thesis
    using p cache_stays [OF _ assms(2)] stays_refl [OF assms(1)]
    by (auto simp: transitionChild_def Let_def split: sum.splits)
qed

lemma unconfirmed_stays:
  assumes "linked w" and "registered w h"
  shows "stays (cv_disk env) w (snd (cancel_unconfirmed env h reason w))"
proof -
  have "same_child c (unconfirmed reason c)" for c by (simp add: same_child_def unconfirmed_def)
  note p = put_linked [where f = "unconfirmed reason" and v = "change_record h (unconfirmed reason) w" and env = env,
      OF assms this refl]
  show ?thesis
    using p by (auto simp: cancel_unconfirmed_def Let_def elim: stays_cong split: sum.splits)
qed

lemma bind_stays:
  assumes "linked w"
  shows "stays (cv_disk env) w (snd (bindChildSession env parent sid agent tc w))"
proof (cases "bind_target parent agent tc w")
  case None
  then show ?thesis using stays_refl [OF assms] by (simp add: bindChildSession_def)
next
  case (Some h)
  have reg: "registered w h" using linked_bound [OF assms Some] .
  let ?f = "\<lambda>c. c\<lparr>ch_childSessionId := Some sid\<rparr>"
  have "same_child c (?f c)" for c by (simp add: same_child_def)
  note p = put_linked [where f = ?f and v = "record_session env h sid parent (change_record h ?f w)" and env = env,
      OF assms reg this]
  show ?thesis
    using p stays_session [OF _ reg] stays_refl [OF assms]
    by (auto simp: bindChildSession_def Some Let_def split: sum.splits)
qed

section \<open>Every move\<close>

definition tied :: "child_world \<Rightarrow> bool" where
  "tied w \<longleftrightarrow> linked w \<and> waits_ok w"

definition record_moves :: "bool \<Rightarrow> child_world \<Rightarrow> child_world \<Rightarrow> bool" where
  "record_moves disk w w' \<longleftrightarrow> tied w' \<and> row_follows disk w w'
     \<and> (\<forall>h. registered w' h \<longrightarrow> registered w h \<or> durable_row w' h = Some (MChild (at w' h)))"

lemma service_tied: "service_ok w \<Longrightarrow> tied w"
proof -
  assume "service_ok w"
  then have ok: "children_ok w" "waits_ok w" by (simp_all add: service_ok_def)
  have row: "durable_row w h \<noteq> None" if "registered w h" for h
  proof -
    have "saved_in (cw_db w) (at w h)" using saved_child [OF ok(1) that] .
    then obtain r where "r \<in> set (db_meta (cw_db w))" "m_runId r = ch_runId (at w h)" "m_key r = child_key (ch_taskCallId (at w h))"
      unfolding saved_in_def by blast
    then have "meta_at (db_meta (cw_db w)) (ch_runId (at w h)) (child_key (ch_taskCallId (at w h))) \<noteq> None"
      unfolding meta_at_None by auto
    then show ?thesis by (simp add: durable_row_def meta_val_def)
  qed
  have t: "tasks_ok w" using ok(1) by (simp add: children_ok_def)
  show "tied w"
    using t ok(2) row registered_tasks [OF t] session_owner [OF ok(1)] unfolding tied_def linked_def tasks_ok_def by blast
qed

lemma stays_moves: "stays disk w w' \<Longrightarrow> waits_ok w \<Longrightarrow> record_moves disk w w'"
  by (auto simp: record_moves_def tied_def stays_def waits_ok_def)

lemma moves_wait:
  assumes "record_moves disk w u" and "creating x = []" and "\<And>h. h \<in> set (waits_on x) \<Longrightarrow> registered u h"
  shows "record_moves disk w (wait_for x u)"
proof -
  have "linked (wait_for x u) = linked u" "registered (wait_for x u) = registered u"
    by (rule linked_cong; simp add: wait_for_def)+
  moreover have "durable_row (wait_for x u) = durable_row u" "at (wait_for x u) = at u"
    by (rule row_cong; simp add: wait_for_def)+
  moreover have "cw_byTask (wait_for x u) = cw_byTask u" "cw_waiting (wait_for x u) = cw_waiting u @ [x]"
    by (simp_all add: wait_for_def)
  ultimately show ?thesis using assms by (auto simp: record_moves_def tied_def row_follows_def waits_ok_def)
qed

lemma mark_moves:
  assumes "tied w" and "registered w h"
  shows "record_moves (cv_disk env) w (snd (apply_mark env h m x msg w))"
proof -
  let ?u = "snd (transitionChild env h (mark_state m) x w)"
  have s: "stays (cv_disk env) w ?u" using transition_stays assms by (simp add: tied_def)
  then have m: "record_moves (cv_disk env) w ?u" "registered ?u h" using stays_moves assms by (simp_all add: tied_def stays_def)
  have "record_moves (cv_disk env) w (wait_for (AfterSave h m (ch_status (at w h)) msg) ?u)"
    by (rule moves_wait [OF m(1)]) (use m(2) in simp_all)
  then show ?thesis
    using m(1) by (auto simp: apply_mark_def Let_def split: prod.split sum.split bool.split)
qed

lemma save_keys:
  "child_save now c d = Inr d' \<Longrightarrow> m_key ` set (db_meta d') \<subseteq> insert (child_key (ch_taskCallId c)) (m_key ` set (db_meta d))"
  by (auto simp: child_save_def meta_upsert_def meta_insert_def split: if_splits)

lemma finish_moves:
  assumes ok: "tied w" and free: "map_of (cw_byTask w) (dg_taskCallId i) = None"
    and other: "dg_taskCallId i \<notin> set (concat (map creating (cw_waiting w)))"
  shows "record_moves (cv_disk env) w (snd (register_finish env i aid eid started w))"
proof (cases "cv_disk env \<and> (\<exists>d. child_save (cv_now env) (delegation_record i aid eid started) (cw_db w) = Inr d)")
  case False
  let ?v = "w\<lparr>cw_registry := registerRun (cv_now env) eid True (Some (dg_taskCallId i)) (cw_registry w)\<rparr>"
  have "snd (register_finish env i aid eid started w) = ?v"
    using False by (auto simp: register_finish_def Let_def save_record_def at_def split: sum.split)
  moreover have "stays (cv_disk env) w ?v"
    by (rule stays_cong [OF stays_refl]) (use ok in \<open>simp_all add: tied_def\<close>)
  ultimately show ?thesis using stays_moves ok by (simp add: tied_def)
next
  case True
  let ?c = "delegation_record i aid eid started" and ?h = "length (cw_heap w)"
  let ?v = "snd (register_finish env i aid eid started w)"
  obtain d where d: "child_save (cv_now env) ?c (cw_db w) = Inr d" using True by blast
  have v: "cw_heap ?v = cw_heap w @ [?c]" "cw_db ?v = d" "cw_bySession ?v = cw_bySession w"
    "cw_byTask ?v = AList.update (dg_taskCallId i) ?h (cw_byTask w)" "cw_waiting ?v = cw_waiting w"
    using True d by (simp_all add: register_finish_def Let_def save_record_def at_def)
  have c: "ch_taskCallId ?c = dg_taskCallId i" "ch_runId ?c = dg_runId i" by (simp_all add: delegation_record_def)
  have w: "linked w" "waits_ok w" using ok by (simp_all add: tied_def)
  have val: "meta_val d rk = (if rk = (dg_runId i, child_key (dg_taskCallId i)) then Some (MChild ?c) else meta_val (cw_db w) rk)" for rk
    using meta_upsert_val [OF d [unfolded child_save_def]] by (simp add: c)
  have v_new: "at ?v ?h = ?c" by (simp add: at_def v(1))
  have row_new: "durable_row ?v ?h = Some (MChild (at ?v ?h))" by (simp add: durable_row_def v_new v(2) c val)
  have map_v: "map_of (cw_byTask ?v) tc = (if tc = dg_taskCallId i then Some ?h else map_of (cw_byTask w) tc)" for tc
    by (simp add: v(4) update_conv')
  have old: "registered ?v k \<and> at ?v k = at w k \<and> durable_row ?v k = durable_row w k" if "registered w k" for k
  proof -
    have k: "k < ?h" "map_of (cw_byTask w) (ch_taskCallId (at w k)) = Some k" using that by (simp_all add: registered_def)
    then have same: "at ?v k = at w k" by (simp add: at_def v(1) nth_append)
    have "ch_taskCallId (at w k) \<noteq> dg_taskCallId i" using k(2) free by auto
    then show ?thesis using k by (simp add: registered_def same map_v durable_row_def v(2) val) (simp add: v(1))
  qed
  have known: "registered w k \<or> k = ?h" if "registered ?v k" for k
  proof (cases "k = ?h")
    case False
    then have "k < ?h" using that by (simp add: registered_def v(1))
    moreover from this have "at ?v k = at w k" by (simp add: at_def v(1) nth_append)
    ultimately show ?thesis using that False by (auto simp: registered_def map_v split: if_splits)
  qed simp
  have "linked ?v"
    unfolding linked_def
  proof (intro conjI allI impI)
    fix tc h assume m: "map_of (cw_byTask ?v) tc = Some h"
    have "tc = dg_taskCallId i \<and> h = ?h \<or> registered w h \<and> ch_taskCallId (at w h) = tc"
      using m linked_task [OF w(1)] by (auto simp: map_v split: if_splits)
    then show "h < length (cw_heap ?v)" "ch_taskCallId (at ?v h) = tc" "durable_row ?v h \<noteq> None"
      using old [of h] v_new c row_new linked_row [OF w(1), of h] by (auto simp: v(1) registered_def)
  next
    fix tc assume "child_key tc \<in> m_key ` set (db_meta (cw_db ?v))"
    then have "child_key tc = child_key (dg_taskCallId i) \<or> child_key tc \<in> m_key ` set (db_meta (cw_db w))"
      using save_keys [OF d] by (auto simp: v(2) c)
    then show "map_of (cw_byTask ?v) tc \<noteq> None" using w(1) unfolding linked_def by (auto simp: map_v)
  next
    show "distinct (map fst (cw_byTask ?v))" using w(1) by (simp add: linked_def v(4) distinct_update)
  next
    fix s h assume "map_of (cw_bySession ?v) s = Some h"
    then show "registered ?v h" using w(1) old unfolding linked_def v(3) by blast
  qed
  moreover have "waits_ok ?v"
    using w(2) other old unfolding waits_ok_def v(4,5) by (auto simp: update_conv')
  moreover have "registered w k \<or> durable_row ?v k = Some (MChild (at ?v k))" if "registered ?v k" for k
    using known [OF that] row_new by blast
  ultimately show ?thesis using old by (simp add: record_moves_def tied_def row_follows_def)
qed

lemma record_moves_frame:
  assumes "tied w" "db_meta (cw_db u) = db_meta (cw_db w)" "cw_heap u = cw_heap w"
    "cw_byTask u = cw_byTask w" "cw_bySession u = cw_bySession w" "cw_waiting u = cw_waiting w"
  shows "record_moves disk w u" and "registered u = registered w"
proof -
  have "stays disk w u" using stays_cong [OF stays_refl assms(2-6)] assms(1) by (simp add: tied_def)
  then show "record_moves disk w u" "registered u = registered w" using stays_moves assms(1) by (simp_all add: tied_def stays_def)
qed

lemma resume_moves:
  assumes ok: "tied w" and reg: "\<And>h. h \<in> set (waits_on x) \<Longrightarrow> registered w h"
    and new: "\<And>tc. tc \<in> set (creating x) \<Longrightarrow>
      map_of (cw_byTask w) tc = None \<and> tc \<notin> set (concat (map creating (cw_waiting w)))"
  shows "record_moves (cv_disk env) w (snd (resume env aborted x w))"
proof (cases x)
  case (AfterCreate i aid eid started)
  then show ?thesis using new [of "dg_taskCallId i"] finish_moves [OF ok] by (simp add: resume_def)
next
  case (AfterAbort h reason)
  then have h: "registered w h" using reg by simp
  have "stays (cv_disk env) w (snd (cancel_unconfirmed env h reason w))" using unconfirmed_stays h ok by (simp add: tied_def)
  then show ?thesis
    using mark_moves [OF ok h] stays_moves ok by (simp add: resume_def AfterAbort cancel_confirmed_def tied_def)
next
  case (AfterSave h m s msg)
  then have h: "registered w h" using reg by simp
  have "record_moves (cv_disk env) w (wait_for (AfterAssignment h m s msg) (w\<lparr>cw_db := d\<rparr>))"
    if "mark_assignment m u a (cw_db w) = Inr (v, e, d)" for u a v e d
  proof -
    note f = record_moves_frame [OF ok, where u = "w\<lparr>cw_db := d\<rparr>"]
    show ?thesis by (rule moves_wait) (use f mark_assignment_frame [OF that] h in simp_all)
  qed
  then show ?thesis
    using record_moves_frame(1) [OF ok refl refl refl refl refl] by (auto simp: resume_def AfterSave follow_assignment_def split: sum.split)
next
  case (AfterAssignment h m s msg)
  show ?thesis
    by (simp add: resume_def AfterAssignment) (rule record_moves_frame [OF ok]; simp add: follow_registry_def follow_session_def)
qed

text \<open>A task call is not registered while its first registration is still under way.\<close>

fun apart :: "child_move \<Rightarrow> child_world \<Rightarrow> bool" where
  "apart (Begin env (CallRegister i)) w = (dg_taskCallId i \<notin> set (concat (map creating (cw_waiting w))))"
| "apart (Begin env c) w = True"
| "apart (Resume env aborted k) w = True"

fun apart_run :: "child_move list \<Rightarrow> child_world \<Rightarrow> bool" where
  "apart_run [] w = True"
| "apart_run (a # as) w = (apart a w \<and> apart_run as (snd (lifecycle_step a w)))"

fun takes_writes :: "child_move \<Rightarrow> bool" where
  "takes_writes (Begin env c) = cv_disk env"
| "takes_writes (Resume env aborted k) = cv_disk env"

lemma register_moves:
  assumes ok: "tied w" and other: "dg_taskCallId i \<notin> set (concat (map creating (cw_waiting w)))"
  shows "record_moves (cv_disk env) w (snd (register_begin env i w))"
proof (cases "map_of (cw_byTask w) (dg_taskCallId i)")
  case None
  have "record_moves (cv_disk env) w (wait_for (AfterCreate i aid eid now) (w\<lparr>cw_db := d\<rparr>))"
    if "service_createAssignment (cv_uuid env) (cv_now env) (assignment_for_delegation aid i) (cw_db w) = Inr (v, e, d)" for aid eid now v e d
  proof -
    let ?v = "wait_for (AfterCreate i aid eid now) (w\<lparr>cw_db := d\<rparr>)"
    have "db_meta (cw_db ?v) = db_meta (cw_db w)" using create_frame [OF that] by (simp add: wait_for_def)
    then have l: "linked ?v = linked w" "registered ?v = registered w" "durable_row ?v = durable_row w" "at ?v = at w"
      by (rule linked_cong row_cong; simp add: wait_for_def)+
    have "cw_byTask ?v = cw_byTask w" "cw_waiting ?v = cw_waiting w @ [AfterCreate i aid eid now]" by (simp_all add: wait_for_def)
    then show ?thesis using ok None other by (auto simp: record_moves_def tied_def row_follows_def l waits_ok_def simp del: wait_frame)
  qed
  then show ?thesis
    using record_moves_frame(1) [OF ok refl refl refl refl refl] None by (auto simp: register_begin_def Let_def split: sum.split)
next
  case (Some h)
  then show ?thesis using record_moves_frame(1) [OF ok refl refl refl refl refl] by (simp add: register_begin_def)
qed

lemma step_moves:
  assumes ok: "tied w" and alone: "apart a w"
  shows "record_moves (takes_writes a) w (snd (lifecycle_step a w))"
proof (cases a)
  case (Resume env aborted k)
  show ?thesis
  proof (cases "k < length (cw_waiting w)")
    case True
    let ?t = "take_waiting k w"
    have l: "linked ?t = linked w" "registered ?t = registered w" "durable_row ?t = durable_row w" "at ?t = at w"
      by (rule linked_cong row_cong; simp add: take_waiting_def)+
    have w: "linked w" "waits_ok w" using ok by (simp_all add: tied_def)
    have t: "tied ?t" using w take_waits [OF w(2) True] by (simp add: tied_def l)
    have "record_moves (cv_disk env) ?t (snd (resume env aborted (cw_waiting w ! k) ?t))"
      by (rule resume_moves [OF t take_waits(2,3) [OF w(2) True]])
    then show ?thesis using True by (simp add: Resume record_moves_def row_follows_def l)
  qed (use record_moves_frame(1) [OF ok refl refl refl refl refl] in \<open>simp add: Resume\<close>)
next
  case (Begin env c)
  have here: "record_moves (cv_disk env) w w" by (rule record_moves_frame [OF ok refl refl refl refl refl])
  have w: "linked w" "waits_ok w" using ok by (simp_all add: tied_def)
  note mark = mark_moves [OF ok linked_found [OF w(1)]]
  show ?thesis
  proof (cases c)
    case (CallRegister i)
    then show ?thesis using register_moves ok alone by (simp add: Begin)
  next
    case (CallBind parent sid agent tc)
    then show ?thesis using stays_moves [OF bind_stays [OF w(1)] w(2)] by (simp add: Begin)
  next
    case (CallCancelled tc sid reason confirmed port)
    have "record_moves (cv_disk env) w (wait_for (AfterAbort h why) w)" if "resolveRecord tc sid w = Some h" for h why
      by (rule moves_wait [OF here]) (use linked_found [OF w(1) that] in simp_all)
    then show ?thesis
      using here mark stays_moves [OF unconfirmed_stays [OF w(1) linked_found [OF w(1)]] w(2)]
      by (auto simp: Begin CallCancelled markCancelled_def cancel_confirmed_def Let_def split: option.split)
  qed (use here mark in
    \<open>auto simp: Begin markStarted_def markCompleted_def markFailed_child_def markTimedOut_def Let_def split: option.split\<close>)
qed

lemma child_run_snoc: "child_run (as @ [a]) w = snd (lifecycle_step a (child_run as w))"
  by (induction as arbitrary: w) simp_all

lemma apart_snoc: "apart_run (as @ [a]) w \<longleftrightarrow> apart_run as w \<and> apart a (child_run as w)"
  by (induction as arbitrary: w) simp_all

lemma run_tied: "tied w \<Longrightarrow> apart_run as w \<Longrightarrow> tied (child_run as w)"
  by (induction as arbitrary: w) (use step_moves in \<open>auto simp: record_moves_def\<close>)

lemma service_row:
  assumes "service_ok w" and "registered w h"
  shows "durable_row w h = Some (MChild (at w h))"
proof -
  have ok: "children_ok w" using assms(1) by (simp add: service_ok_def)
  obtain r where r: "r \<in> set (db_meta (cw_db w))" "m_runId r = ch_runId (at w h)"
    "m_key r = child_key (ch_taskCallId (at w h))" "m_value r = MChild (at w h)"
    using saved_child [OF ok assms(2)] unfolding saved_in_def by blast
  have "meta_ok (cw_db w)" using ok by (simp add: children_ok_def tasks_ok_def)
  then have "meta_at (db_meta (cw_db w)) (ch_runId (at w h)) (child_key (ch_taskCallId (at w h))) = Some r"
    using r by (simp add: meta_ok_def meta_at_Some)
  then show ?thesis using r(4) by (simp add: durable_row_def meta_val_def)
qed

text \<open>The record a row holds: that of memory after \<open>n\<close> moves, each later change having been refused.\<close>

definition row_since :: "child_move list \<Rightarrow> child_world \<Rightarrow> nat \<Rightarrow> nat \<Rightarrow> bool" where
  "row_since as w h n \<longleftrightarrow> n \<le> length as \<and> h < length (cw_heap (child_run (take n as) w))
     \<and> durable_row (child_run as w) h = Some (MChild (at (child_run (take n as) w) h))
     \<and> (\<forall>m. n \<le> m \<longrightarrow> m < length as \<longrightarrow>
          at (child_run (take (Suc m) as) w) h \<noteq> at (child_run (take m as) w) h \<longrightarrow> \<not> takes_writes (as ! m))"

lemma row_history:
  "service_ok w \<Longrightarrow> apart_run as w \<Longrightarrow> registered (child_run as w) h \<Longrightarrow> \<exists>n. row_since as w h n"
proof (induction as arbitrary: h rule: rev_induct)
  case Nil
  then show ?case using service_row by (auto simp: row_since_def registered_def)
next
  case (snoc a as)
  let ?w = "child_run as w" and ?v = "child_run (as @ [a]) w"
  have run: "apart_run as w" "apart a ?w" using snoc.prems(2) by (simp_all add: apart_snoc)
  have ok: "tied ?w" using run_tied [OF service_tied [OF snoc.prems(1)] run(1)] .
  have mv: "record_moves (takes_writes a) ?w ?v" using step_moves [OF ok run(2)] by (simp add: child_run_snoc)
  have h: "h < length (cw_heap ?v)" using snoc.prems(3) by (simp add: registered_def)
  show ?case
  proof (cases "durable_row ?v h = Some (MChild (at ?v h))")
    case True
    then have "row_since (as @ [a]) w h (Suc (length as))" using h by (simp add: row_since_def)
    then show ?thesis by blast
  next
    case False
    then have reg: "registered ?w h" using mv snoc.prems(3) unfolding record_moves_def by blast
    have same: "durable_row ?v h = durable_row ?w h" "at ?v h = at ?w h \<or> \<not> takes_writes a"
      using mv reg False unfolding record_moves_def row_follows_def by blast+
    obtain n where n: "row_since as w h n" using snoc.IH [OF snoc.prems(1) run(1) reg] by blast
    have "at (child_run (take (Suc m) (as @ [a])) w) h \<noteq> at (child_run (take m (as @ [a])) w) h
        \<longrightarrow> \<not> takes_writes ((as @ [a]) ! m)" if "n \<le> m" "m < length (as @ [a])" for m
    proof (cases "m < length as")
      case True
      then show ?thesis using n that(1) by (simp add: row_since_def nth_append)
    next
      case False
      then show ?thesis using that(2) same(2) by (auto simp: less_Suc_eq)
    qed
    then have "row_since (as @ [a]) w h n" using n same(1) by (auto simp: row_since_def)
    then show ?thesis by blast
  qed
qed

lemma row_current:
  assumes "row_since as w h n" and "\<And>m. m < length as \<Longrightarrow> takes_writes (as ! m)"
  shows "at (child_run as w) h = at (child_run (take n as) w) h"
proof -
  have "at (child_run (take (n + k) as) w) h = at (child_run (take n as) w) h" if "n + k \<le> length as" for k
    using that
  proof (induction k)
    case (Suc k)
    then have "n + k < length as" by simp
    then have "at (child_run (take (Suc (n + k)) as) w) h = at (child_run (take (n + k) as) w) h"
      using assms unfolding row_since_def by (meson le_add1)
    then show ?case using Suc by simp
  qed simp
  from this [of "length as - n"] assms(1) show ?thesis by (simp add: row_since_def)
qed

text \<open>C22. What the table says of a child is what memory said when a write was last taken. The service starts with maps and rows
  that agree and no task call is registered while its first registration is under way; calls interleave freely, and the
  database may refuse any write. Then each child that is found by its task call has under its key the record memory had
  after some move, and every later move that changed it in memory is one whose write the database refused: if all
  writes are taken, the row is the record. Each row of a child belongs to a child that is found.\<close>

theorem memory_is_durable:
  assumes "service_ok w" and "apart_run as w" and "resolveRecord (Some tc) None (child_run as w) = Some h"
  shows "(\<exists>n \<le> length as. h < length (cw_heap (child_run (take n as) w))
       \<and> meta_val (cw_db (child_run as w)) (ch_runId (at (child_run as w) h), child_key tc)
           = Some (MChild (at (child_run (take n as) w) h))
       \<and> (\<forall>m < length as. n \<le> m \<and> takes_writes (as ! m) \<longrightarrow>
            at (child_run (take (Suc m) as) w) h = at (child_run (take m as) w) h))
     \<and> (list_all takes_writes as \<longrightarrow>
          meta_val (cw_db (child_run as w)) (ch_runId (at (child_run as w) h), child_key tc) = Some (MChild (at (child_run as w) h)))
     \<and> (\<forall>t. t \<noteq> [] \<longrightarrow> child_key t \<in> m_key ` set (db_meta (cw_db (child_run as w)))
          \<longrightarrow> resolveRecord (Some t) None (child_run as w) \<noteq> None)"
proof -
  let ?w = "child_run as w"
  have ok: "linked ?w" using run_tied [OF service_tied [OF assms(1)] assms(2)] by (simp add: tied_def)
  have "map_of (cw_byTask ?w) tc = Some h" using assms(3) by (auto simp: resolveRecord_def split: if_splits)
  then have h: "registered ?w h" "ch_taskCallId (at ?w h) = tc" using linked_task [OF ok] by blast+
  obtain n where n: "row_since as w h n" using row_history [OF assms(1,2) h(1)] by blast
  have row: "durable_row ?w h = meta_val (cw_db ?w) (ch_runId (at ?w h), child_key tc)" by (simp add: durable_row_def h(2))
  have "durable_row ?w h = Some (MChild (at ?w h))" if "list_all takes_writes as"
    using row_current [OF n] n that by (simp add: row_since_def list_all_length)
  moreover have "resolveRecord (Some t) None ?w \<noteq> None" if "t \<noteq> []" "child_key t \<in> m_key ` set (db_meta (cw_db ?w))" for t
  proof -
    have "map_of (cw_byTask ?w) t \<noteq> None" using ok that(2) unfolding linked_def by blast
    then show ?thesis using that(1) by (simp add: resolveRecord_def)
  qed
  ultimately show ?thesis using n unfolding row_since_def row by blast
qed

section \<open>Sessions of task calls\<close>

definition sessions_bound :: "child_world \<Rightarrow> bool" where
  "sessions_bound w \<longleftrightarrow>
     (\<forall>h < length (cw_heap w). ch_executionId (at w h) = ''exec-'' @ ch_taskCallId (at w h) \<and> durable_row w h \<noteq> None)
     \<and> (\<forall>(tc, h) \<in> set (cw_byTask w). h < length (cw_heap w) \<and> ch_taskCallId (at w h) = tc)
     \<and> (\<forall>s h. map_of (cw_bySession w) s = Some h \<longrightarrow> h < length (cw_heap w))
     \<and> (\<forall>h < length (cw_heap w). \<forall>s. ch_childSessionId (at w h) = Some s \<longrightarrow> s \<noteq> [] \<longrightarrow>
          (\<exists>k. map_of (cw_bySession w) s = Some k \<and> ch_taskCallId (at w k) = ch_taskCallId (at w h)))
     \<and> (\<forall>x \<in> set (cw_waiting w). (\<forall>h \<in> set (waits_on x). h < length (cw_heap w))
          \<and> (case x of AfterCreate i aid eid now \<Rightarrow> eid = ''exec-'' @ dg_taskCallId i | _ \<Rightarrow> True))"

text \<open>Ids of executions are made from task calls, and the database takes the writes of bindings.\<close>

fun sound_move :: "child_move \<Rightarrow> bool" where
  "sound_move (Begin env (CallRegister i)) = (dg_executionId i = None)"
| "sound_move (Begin env (CallBind parent sid agent tc)) = cv_disk env"
| "sound_move (Begin env c) = True"
| "sound_move (Resume env aborted k) = True"

lemma bindings_heap:
  assumes "sessions_bound w" "h < length (cw_heap w)"
  shows "ch_executionId (at w h) = ''exec-'' @ ch_taskCallId (at w h)" "durable_row w h \<noteq> None"
  using assms unfolding sessions_bound_def by blast+

lemma bindings_task: "sessions_bound w \<Longrightarrow> (tc, h) \<in> set (cw_byTask w) \<Longrightarrow> h < length (cw_heap w) \<and> ch_taskCallId (at w h) = tc"
  unfolding sessions_bound_def by blast

lemma bindings_owner: "sessions_bound w \<Longrightarrow> map_of (cw_bySession w) s = Some h \<Longrightarrow> h < length (cw_heap w)"
  unfolding sessions_bound_def by blast

lemma bindings_session:
  "sessions_bound w \<Longrightarrow> h < length (cw_heap w) \<Longrightarrow> ch_childSessionId (at w h) = Some s \<Longrightarrow> s \<noteq> [] \<Longrightarrow>
     \<exists>k. map_of (cw_bySession w) s = Some k \<and> ch_taskCallId (at w k) = ch_taskCallId (at w h)"
  unfolding sessions_bound_def by blast

lemma bindings_found: "sessions_bound w \<Longrightarrow> resolveRecord tc sid w = Some h \<Longrightarrow> h < length (cw_heap w)"
  using bindings_task map_of_SomeD bindings_owner unfolding resolveRecord_def by (metis option.distinct(1))

text \<open>What a change of one record, the maps and the waiting calls must satisfy.\<close>

lemma bindings_frame:
  assumes ok: "sessions_bound w" and len: "length (cw_heap u) = length (cw_heap w)"
    and ids: "\<And>k. k < length (cw_heap w) \<Longrightarrow> ch_executionId (at u k) = ch_executionId (at w k)
      \<and> ch_taskCallId (at u k) = ch_taskCallId (at w k) \<and> durable_row u k \<noteq> None"
    and task: "cw_byTask u = cw_byTask w"
    and owner: "\<And>s h. map_of (cw_bySession u) s = Some h \<Longrightarrow> h < length (cw_heap w)"
    and held: "\<And>h s. h < length (cw_heap w) \<Longrightarrow> ch_childSessionId (at u h) = Some s \<Longrightarrow> s \<noteq> [] \<Longrightarrow>
      \<exists>k. map_of (cw_bySession u) s = Some k \<and> ch_taskCallId (at w k) = ch_taskCallId (at w h)"
    and waits: "set (cw_waiting u) \<subseteq> set (cw_waiting w)"
  shows "sessions_bound u"
  unfolding sessions_bound_def len
proof (intro conjI allI impI ballI)
  fix h assume h: "h < length (cw_heap w)"
  show "ch_executionId (at u h) = ''exec-'' @ ch_taskCallId (at u h)" "durable_row u h \<noteq> None"
    using ids [OF h] bindings_heap [OF ok h] by simp_all
  fix s assume s: "ch_childSessionId (at u h) = Some s" "s \<noteq> []"
  obtain k where k: "map_of (cw_bySession u) s = Some k" "ch_taskCallId (at w k) = ch_taskCallId (at w h)"
    using held [OF h s] by blast
  then show "\<exists>k. map_of (cw_bySession u) s = Some k \<and> ch_taskCallId (at u k) = ch_taskCallId (at u h)"
    using ids [OF owner [OF k(1)]] ids [OF h] by auto
next
  fix p assume "p \<in> set (cw_byTask u)"
  then show "case p of (tc, h) \<Rightarrow> h < length (cw_heap w) \<and> ch_taskCallId (at u h) = tc"
    using bindings_task [OF ok] ids by (auto simp: task)
next
  fix s h assume "map_of (cw_bySession u) s = Some h"
  then show "h < length (cw_heap w)" by (rule owner)
next
  fix x assume "x \<in> set (cw_waiting u)"
  then have x: "x \<in> set (cw_waiting w)" using waits by blast
  then show "\<And>h. h \<in> set (waits_on x) \<Longrightarrow> h < length (cw_heap w)"
    "case x of AfterCreate i aid eid now \<Rightarrow> eid = ''exec-'' @ dg_taskCallId i | _ \<Rightarrow> True"
    using ok unfolding sessions_bound_def by blast+
qed

lemma bindings_wait:
  assumes "sessions_bound w" and "\<And>h. h \<in> set (waits_on x) \<Longrightarrow> h < length (cw_heap w)"
    and "case x of AfterCreate i aid eid now \<Rightarrow> eid = ''exec-'' @ dg_taskCallId i | _ \<Rightarrow> True"
  shows "sessions_bound (wait_for x w)"
proof -
  have "durable_row (wait_for x w) = durable_row w" "at (wait_for x w) = at w" by (rule row_cong; simp add: wait_for_def)+
  then show ?thesis using assms unfolding sessions_bound_def by (auto simp: wait_for_def)
qed

lemma bindings_cong:
  assumes "sessions_bound w" "db_meta (cw_db u) = db_meta (cw_db w)" "cw_heap u = cw_heap w"
    "cw_byTask u = cw_byTask w" "cw_bySession u = cw_bySession w" "set (cw_waiting u) \<subseteq> set (cw_waiting w)"
  shows "sessions_bound u"
proof -
  have f: "durable_row u = durable_row w" "at u = at w" using row_cong [OF assms(2,3)] by simp_all
  show ?thesis
    by (rule bindings_frame [OF assms(1)])
      (use bindings_heap [OF assms(1)] bindings_owner [OF assms(1)] bindings_session [OF assms(1)] assms in
        \<open>auto simp: f assms(3-5)\<close>)
qed

text \<open>Changing and saving a record that keeps its identity and its session.\<close>

lemma put_row:
  assumes row: "durable_row w h \<noteq> None" and h: "h < length (cw_heap w)" and same: "same_child (at w h) (f (at w h))"
    and v: "cw_heap v = cw_heap (change_record h f w)" "cw_db v = cw_db w"
  shows "(case save_record env h v of Inl e \<Rightarrow> \<not> cv_disk env | Inr u \<Rightarrow> cv_disk env \<and> (\<exists>d. u = v\<lparr>cw_db := d\<rparr>
      \<and> (\<forall>k. durable_row w k \<noteq> None \<longrightarrow> durable_row u k \<noteq> None)))"
proof (cases "cv_disk env")
  case False
  then show ?thesis by (simp add: save_record_def)
next
  case True
  have v_at: "at v k = (if k = h then f (at w h) else at w k)" for k
    using at_change [OF h] v(1) by (simp add: at_def)
  have ids: "ch_runId (at v k) = ch_runId (at w k)" "ch_taskCallId (at v k) = ch_taskCallId (at w k)" for k
    using same by (simp_all add: v_at same_child_def)
  have "meta_val (cw_db v) (ch_runId (at v h), child_key (ch_taskCallId (at v h))) \<noteq> None"
    using row by (simp add: durable_row_def ids v(2))
  from save_row [OF this, of "cv_now env"] obtain d where d: "child_save (cv_now env) (at v h) (cw_db v) = Inr d" by blast
  have "durable_row (v\<lparr>cw_db := d\<rparr>) k \<noteq> None" if "durable_row w k \<noteq> None" for k
    using that meta_upsert_val [OF d [unfolded child_save_def]] by (simp add: durable_row_def ids v(2) at_def [of "v\<lparr>cw_db := d\<rparr>"] at_def [of v, symmetric])
  then show ?thesis using True d by (auto simp: save_record_def)
qed

lemma bindings_put:
  assumes ok: "sessions_bound w" and h: "h < length (cw_heap w)" and same: "same_child (at w h) (f (at w h))"
    and sid: "ch_childSessionId (f (at w h)) = ch_childSessionId (at w h)"
  shows "case save_record env h (change_record h f w) of Inl e \<Rightarrow> sessions_bound (change_record h f w)
    | Inr u \<Rightarrow> sessions_bound u \<and> length (cw_heap u) = length (cw_heap w)"
proof -
  let ?v = "change_record h f w"
  have v_at: "at ?v k = (if k = h then f (at w h) else at w k)" for k by (rule at_change [OF h])
  have v_ok: "sessions_bound u" if "cw_heap u = cw_heap ?v" "cw_byTask u = cw_byTask w" "cw_bySession u = cw_bySession w"
    "cw_waiting u = cw_waiting w" "\<And>k. durable_row w k \<noteq> None \<Longrightarrow> durable_row u k \<noteq> None" for u
  proof -
    have u_at: "at u k = at ?v k" for k using that(1) by (simp add: at_def)
    have len: "length (cw_heap u) = length (cw_heap w)" using that(1) by simp
    show ?thesis
      by (rule bindings_frame [OF ok len])
        (use bindings_heap [OF ok] bindings_owner [OF ok] bindings_session [OF ok] that(2-5) same sid in
          \<open>auto simp: u_at v_at same_child_def split: if_splits\<close>)
  qed
  have row: "durable_row ?v k = durable_row w k" for k
    using same by (simp add: durable_row_def v_at same_child_def)
  show ?thesis
    using put_row [where env = env and f = f and v = ?v, OF bindings_heap(2) [OF ok h] h same refl]
    by (auto simp: row intro!: v_ok split: sum.splits)
qed

lemma set_update_subset: "set (AList.update k v xs) \<subseteq> insert (k, v) (set xs)"
  by (induction xs) auto

lemma bindings_cache:
  assumes ok: "sessions_bound w" and h: "h < length (cw_heap w)"
  shows "sessions_bound (cache_record h w)"
proof -
  let ?v = "cache_record h w"
  have f: "durable_row ?v = durable_row w" "at ?v = at w" "cw_waiting ?v = cw_waiting w" "cw_heap ?v = cw_heap w"
    using row_cong [of ?v w] by (simp_all add: cache_record_def)
  have task: "set (cw_byTask ?v) \<subseteq> insert (ch_taskCallId (at w h), h) (set (cw_byTask w))"
    using set_update_subset by (simp add: cache_record_def)
  have sess: "map_of (cw_bySession ?v) s = (if truthy (ch_childSessionId (at w h)) \<and> ch_childSessionId (at w h) = Some s then Some h
      else map_of (cw_bySession w) s)" for s
    by (auto simp: cache_record_def update_conv' truthy_def)
  have held: "\<exists>j. map_of (cw_bySession ?v) s = Some j \<and> ch_taskCallId (at w j) = ch_taskCallId (at w k)"
    if "k < length (cw_heap w)" "ch_childSessionId (at w k) = Some s" "s \<noteq> []" for k s
    using bindings_session [OF ok that] bindings_session [OF ok h, of s] that(3) by (auto simp: sess)
  show ?thesis
    unfolding sessions_bound_def f
    using ok held task h unfolding sessions_bound_def by (auto simp: sess split: if_splits)
qed

lemma bindings_mark:
  assumes ok: "sessions_bound w" and h: "h < length (cw_heap w)"
  shows "sessions_bound (snd (apply_mark env h m x msg w))"
proof -
  have "sessions_bound (snd (transitionChild env h t x w)) \<and> length (cw_heap (snd (transitionChild env h t x w))) = length (cw_heap w)" for t
    using bindings_put [where f = "moved_child t x" and env = env, OF ok h] moved_same bindings_cache ok h
    by (auto simp: transitionChild_def Let_def split: sum.splits)
  from this [of "mark_state m"] show ?thesis
    using h by (auto simp: apply_mark_def Let_def intro!: bindings_wait split: prod.split sum.split bool.split)
qed

lemma bindings_unconfirmed:
  assumes ok: "sessions_bound w" and h: "h < length (cw_heap w)"
  shows "sessions_bound (snd (cancel_unconfirmed env h reason w))"
proof -
  have "same_child c (unconfirmed reason c)" "ch_childSessionId (unconfirmed reason c) = ch_childSessionId c" for c
    by (simp_all add: same_child_def unconfirmed_def)
  from bindings_put [where f = "unconfirmed reason" and env = env, OF ok h this]
  show ?thesis
    by (auto simp: cancel_unconfirmed_def Let_def elim!: bindings_cong split: sum.splits)
qed

lemma bindings_target:
  assumes "sessions_bound w" and "bind_target parent agent tc w = Some h"
  shows "h < length (cw_heap w)"
proof -
  have "h \<in> set (unbound_matches parent agent w) \<or> map_of (cw_byTask w) (nullish tc []) = Some h"
    using assms(2) by (auto simp: bind_target_def split: option.splits list.splits if_splits)
  then obtain t where "(t, h) \<in> set (cw_byTask w)" by (auto simp: unbound_matches_def dest: map_of_SomeD)
  then show ?thesis using bindings_task [OF assms(1)] by blast
qed

lemma bindings_bind:
  assumes ok: "sessions_bound w" and disk: "cv_disk env"
  shows "sessions_bound (snd (bindChildSession env parent sid agent tc w))"
proof (cases "bind_target parent agent tc w")
  case None
  then show ?thesis using ok by (simp add: bindChildSession_def)
next
  case (Some h)
  show ?thesis
  proof (cases "bind_refused h sid w")
    case True
    then show ?thesis using ok Some by (simp add: bindChildSession_def)
  next
    case False
    have h: "h < length (cw_heap w)" using bindings_target [OF ok Some] .
    let ?f = "\<lambda>c. c\<lparr>ch_childSessionId := Some sid\<rparr>"
    let ?v = "record_session env h sid parent (change_record h ?f w)"
    have same: "same_child (at w h) (?f (at w h))" by (simp add: same_child_def)
    from put_row [where env = env and f = ?f and v = ?v, OF bindings_heap(2) [OF ok h] h same] disk
    obtain d where d: "save_record env h ?v = Inr (?v\<lparr>cw_db := d\<rparr>)"
      "\<And>k. durable_row w k \<noteq> None \<Longrightarrow> durable_row (?v\<lparr>cw_db := d\<rparr>) k \<noteq> None"
      by (auto split: sum.splits)
    let ?u = "?v\<lparr>cw_db := d, cw_bySession := AList.update sid h (cw_bySession w)\<rparr>"
    have call: "bindChildSession env parent sid agent tc w = (Recorded h, ?u)"
      using Some False by (simp add: bindChildSession_def Let_def d(1))
    have u_at: "at ?u k = (if k = h then ?f (at w h) else at w k)" for k
      using at_change [OF h, of ?f k] by (simp add: at_def)
    have row: "durable_row ?u k \<noteq> None" if "durable_row w k \<noteq> None" for k
      using d(2) [OF that] by (simp add: durable_row_def at_def)
    have owner: "ch_taskCallId (at w k) = ch_taskCallId (at w h)" if "map_of (cw_bySession w) sid = Some k" for k
      using that False bindings_heap(1) [OF ok h] bindings_heap(1) [OF ok bindings_owner [OF ok that]]
      by (simp add: bind_refused_def)
    have before: "s = sid" if "ch_childSessionId (at w h) = Some s" "s \<noteq> []" for s
      using False that by (simp add: bind_refused_def)
    have held: "\<exists>j. map_of (cw_bySession ?u) s = Some j \<and> ch_taskCallId (at w j) = ch_taskCallId (at w k)"
      if k: "k < length (cw_heap w)" "ch_childSessionId (at ?u k) = Some s" "s \<noteq> []" for k s
    proof (cases "k = h")
      case True
      then show ?thesis using k(2) by (simp add: u_at update_conv')
    next
      case other: False
      then obtain j where j: "map_of (cw_bySession w) s = Some j" "ch_taskCallId (at w j) = ch_taskCallId (at w k)"
        using bindings_session [OF ok k(1) _ k(3)] k(2) by (auto simp: u_at)
      show ?thesis using j owner [of j] by (cases "s = sid") (simp_all add: update_conv')
    qed
    have "sessions_bound ?u"
    proof (rule bindings_frame [OF ok])
      show "k < length (cw_heap w) \<Longrightarrow> ch_executionId (at ?u k) = ch_executionId (at w k)
          \<and> ch_taskCallId (at ?u k) = ch_taskCallId (at w k) \<and> durable_row ?u k \<noteq> None" for k
        using row bindings_heap(2) [OF ok] by (simp add: u_at)
      show "map_of (cw_bySession ?u) s = Some k \<Longrightarrow> k < length (cw_heap w)" for s k
        using h bindings_owner [OF ok] by (auto simp: update_conv' split: if_splits)
    qed (use held in simp_all)
    then show ?thesis by (simp add: call)
  qed
qed

lemma bindings_finish:
  assumes ok: "sessions_bound w" and eid: "eid = ''exec-'' @ dg_taskCallId i"
  shows "sessions_bound (snd (register_finish env i aid eid started w))"
proof (cases "cv_disk env \<and> (\<exists>d. child_save (cv_now env) (delegation_record i aid eid started) (cw_db w) = Inr d)")
  case False
  have "snd (register_finish env i aid eid started w)
      = w\<lparr>cw_registry := registerRun (cv_now env) eid True (Some (dg_taskCallId i)) (cw_registry w)\<rparr>"
    using False by (auto simp: register_finish_def Let_def save_record_def at_def split: sum.split)
  then show ?thesis using bindings_cong [OF ok] by simp
next
  case True
  let ?c = "delegation_record i aid eid started" and ?h = "length (cw_heap w)"
  let ?v = "snd (register_finish env i aid eid started w)"
  obtain d where d: "child_save (cv_now env) ?c (cw_db w) = Inr d" using True by blast
  have v: "cw_heap ?v = cw_heap w @ [?c]" "cw_db ?v = d" "cw_bySession ?v = cw_bySession w"
    "cw_byTask ?v = AList.update (dg_taskCallId i) ?h (cw_byTask w)" "cw_waiting ?v = cw_waiting w"
    using True d by (simp_all add: register_finish_def Let_def save_record_def at_def)
  have c: "ch_taskCallId ?c = dg_taskCallId i" "ch_executionId ?c = eid" "ch_childSessionId ?c = None"
    by (simp_all add: delegation_record_def)
  have val: "meta_val d rk = (if rk = (ch_runId ?c, child_key (ch_taskCallId ?c)) then Some (MChild ?c) else meta_val (cw_db w) rk)" for rk
    using meta_upsert_val [OF d [unfolded child_save_def]] .
  have at_old: "at ?v k = at w k" if "k < ?h" for k using that by (simp add: at_def v(1) nth_append)
  have at_new: "at ?v ?h = ?c" by (simp add: at_def v(1))
  have row: "durable_row ?v k \<noteq> None" if "k < Suc ?h" for k
  proof (cases "k = ?h")
    case False
    then show ?thesis using that bindings_heap(2) [OF ok, of k] by (simp add: durable_row_def at_old v(2) val)
  qed (simp add: durable_row_def at_new v(2) val)
  have task: "k < Suc ?h \<and> ch_taskCallId (at ?v k) = tc" if "(tc, k) \<in> set (cw_byTask ?v)" for tc k
    using that set_update_subset bindings_task [OF ok, of tc k] c(1) at_old [of k] at_new unfolding v(4) by fastforce
  have own: "k < Suc ?h" if "map_of (cw_bySession w) s = Some k" for s k using bindings_owner [OF ok that] by simp
  have held: "\<exists>j. map_of (cw_bySession w) s = Some j \<and> ch_taskCallId (at ?v j) = ch_taskCallId (at ?v k)"
    if k: "k < Suc ?h" "ch_childSessionId (at ?v k) = Some s" "s \<noteq> []" for k s
  proof -
    have "k < ?h" using k(1,2) c(3) at_new by (cases "k = ?h") auto
    then obtain j where "map_of (cw_bySession w) s = Some j" "ch_taskCallId (at w j) = ch_taskCallId (at w k)"
      using bindings_session [OF ok _ _ k(3)] k(2) at_old by auto
    then show ?thesis using at_old \<open>k < ?h\<close> bindings_owner [OF ok] by auto
  qed
  have ids: "ch_executionId (at ?v k) = ''exec-'' @ ch_taskCallId (at ?v k)" if "k < Suc ?h" for k
    using that bindings_heap(1) [OF ok, of k] at_old [of k] at_new c eid by (cases "k = ?h") simp_all
  have wait: "(\<forall>h \<in> set (waits_on x). h < Suc ?h) \<and> (case x of AfterCreate i aid eid now \<Rightarrow> eid = ''exec-'' @ dg_taskCallId i | _ \<Rightarrow> True)"
    if "x \<in> set (cw_waiting w)" for x
    using ok that unfolding sessions_bound_def by (auto intro: less_SucI)
  have "length (cw_heap ?v) = Suc ?h" by (simp add: v(1))
  then show ?thesis
    unfolding sessions_bound_def v(3,5) using row task own held ids wait by auto
qed

lemma bindings_resume:
  assumes ok: "sessions_bound w" and reg: "\<And>h. h \<in> set (waits_on x) \<Longrightarrow> h < length (cw_heap w)"
    and new: "case x of AfterCreate i aid eid now \<Rightarrow> eid = ''exec-'' @ dg_taskCallId i | _ \<Rightarrow> True"
  shows "sessions_bound (snd (resume env aborted x w))"
proof (cases x)
  case (AfterCreate i aid eid started)
  then show ?thesis using new bindings_finish [OF ok] by (simp add: resume_def)
next
  case (AfterAbort h reason)
  then show ?thesis
    using reg bindings_mark [OF ok] bindings_unconfirmed [OF ok] by (simp add: resume_def cancel_confirmed_def)
next
  case (AfterSave h m s msg)
  have "sessions_bound (wait_for (AfterAssignment h m s msg) (w\<lparr>cw_db := d\<rparr>))"
    if "mark_assignment m u a (cw_db w) = Inr (v, e, d)" for u a v e d
  proof (rule bindings_wait)
    show "sessions_bound (w\<lparr>cw_db := d\<rparr>)" by (rule bindings_cong [OF ok]) (use mark_assignment_frame [OF that] in simp_all)
  qed (use reg AfterSave in simp_all)
  then show ?thesis using ok by (auto simp: resume_def AfterSave follow_assignment_def split: sum.split)
next
  case (AfterAssignment h m s msg)
  show ?thesis
    by (simp add: resume_def AfterAssignment) (rule bindings_cong [OF ok]; simp add: follow_registry_def follow_session_def)
qed

lemma bindings_register:
  assumes ok: "sessions_bound w" and eid: "dg_executionId i = None"
  shows "sessions_bound (snd (register_begin env i w))"
proof -
  have "sessions_bound (wait_for (AfterCreate i aid (''exec-'' @ dg_taskCallId i) now) (w\<lparr>cw_db := d\<rparr>))"
    if "service_createAssignment u t a (cw_db w) = Inr (v, e, d)" for aid now u t a v e d
  proof (rule bindings_wait)
    show "sessions_bound (w\<lparr>cw_db := d\<rparr>)" by (rule bindings_cong [OF ok]) (use create_frame [OF that] in simp_all)
  qed simp_all
  then show ?thesis using ok by (auto simp: register_begin_def Let_def eid split: option.split sum.split)
qed

lemma bindings_step:
  assumes ok: "sessions_bound w" and a: "sound_move a"
  shows "sessions_bound (snd (lifecycle_step a w))"
proof (cases a)
  case (Resume env aborted k)
  show ?thesis
  proof (cases "k < length (cw_waiting w)")
    case True
    let ?t = "take_waiting k w"
    have t: "sessions_bound ?t"
      by (rule bindings_cong [OF ok]) (auto simp: take_waiting_def dest: in_set_takeD in_set_dropD)
    have "cw_waiting w ! k \<in> set (cw_waiting w)" using True by simp
    then have x: "\<forall>h \<in> set (waits_on (cw_waiting w ! k)). h < length (cw_heap w)"
      "case cw_waiting w ! k of AfterCreate i aid eid now \<Rightarrow> eid = ''exec-'' @ dg_taskCallId i | _ \<Rightarrow> True"
      using ok unfolding sessions_bound_def by blast+
    have "sessions_bound (snd (resume env aborted (cw_waiting w ! k) ?t))"
      by (rule bindings_resume [OF t _ x(2)]) (use x(1) in simp)
    then show ?thesis using True by (simp add: Resume)
  qed (simp add: Resume ok)
next
  case (Begin env c)
  note mark = bindings_mark [OF ok bindings_found [OF ok]]
  show ?thesis
  proof (cases c)
    case (CallRegister i)
    then show ?thesis using bindings_register [OF ok] a by (simp add: Begin)
  next
    case (CallBind parent sid agent tc)
    then show ?thesis using bindings_bind [OF ok] a by (simp add: Begin)
  next
    case (CallCancelled tc sid reason confirmed port)
    have "sessions_bound (wait_for (AfterAbort h why) w)" if "resolveRecord tc sid w = Some h" for h why
      by (rule bindings_wait [OF ok]) (use bindings_found [OF ok that] in simp_all)
    then show ?thesis
      using ok mark bindings_unconfirmed [OF ok bindings_found [OF ok]]
      by (auto simp: Begin CallCancelled markCancelled_def cancel_confirmed_def Let_def split: option.split)
  qed (use ok mark in
    \<open>auto simp: Begin markStarted_def markCompleted_def markFailed_child_def markTimedOut_def Let_def split: option.split\<close>)
qed

lemma bindings_run: "sessions_bound w \<Longrightarrow> list_all sound_move as \<Longrightarrow> sessions_bound (child_run as w)"
  by (induction as arbitrary: w) (auto intro: bindings_step)

text \<open>C24. A native session belongs to one task call. The service starts with a row for every record and every session of a
  record in its map, as an empty one does. Registrations, bindings, marks and cancellations interleave freely, two
  registrations of one task call included, and the database may refuse any write but those of the bindings; ids of
  executions are the ones the service makes from task calls. Then two different task calls never have children with
  the same session, and the session leads back to a child of its task call.\<close>

theorem child_session_exclusive:
  assumes "sessions_bound w" and "list_all sound_move as"
    and "resolveRecord (Some a) None (child_run as w) = Some h" and "resolveRecord (Some b) None (child_run as w) = Some k"
    and "ch_childSessionId (at (child_run as w) h) = Some s" and "ch_childSessionId (at (child_run as w) k) = Some s"
    and "s \<noteq> []"
  shows "a = b \<and> h = k \<and> (\<exists>j. resolveRecord None (Some s) (child_run as w) = Some j \<and> ch_taskCallId (at (child_run as w) j) = a)"
proof -
  let ?w = "child_run as w"
  have ok: "sessions_bound ?w" using bindings_run assms(1,2) .
  have m: "map_of (cw_byTask ?w) a = Some h" "map_of (cw_byTask ?w) b = Some k"
    using assms(3,4) by (auto simp: resolveRecord_def split: if_splits)
  then have r: "h < length (cw_heap ?w)" "ch_taskCallId (at ?w h) = a" "k < length (cw_heap ?w)" "ch_taskCallId (at ?w k) = b"
    using bindings_task [OF ok map_of_SomeD] by blast+
  obtain j j' where "map_of (cw_bySession ?w) s = Some j" "ch_taskCallId (at ?w j) = a"
    "map_of (cw_bySession ?w) s = Some j'" "ch_taskCallId (at ?w j') = b"
    using bindings_session [OF ok r(1) assms(5,7)] bindings_session [OF ok r(3) assms(6,7)] r(2,4) by auto
  then show ?thesis using m assms(7) by (auto simp: resolveRecord_def)
qed

end
