(* ===== verification/Child_Faults.thy ===== *)
theory Child_Faults
  imports Child_Restart Child_Writes Completion
begin

text \<open>
  Where the lifecycle of children fails: a cancellation whose answer comes after the end of the child leaves a barrier
  that nothing removes and no completion passes; a refused write leaves memory ahead of the table; and two
  registrations of one task call at a time make two assignments.
\<close>

section \<open>A late cancellation\<close>




section \<open>A refused write\<close>

text \<open>A refused write freezes the child. When the database does not take the write of a completion, the call fails, the
  table keeps the old record, and the record in memory is completed all the same: every later mark of the child, also by
  a caller that tries again, is answered as a duplicate and changes nothing.\<close>

theorem refused_write_freezes:
  assumes "resolveRecord tc sid w = Some h" and "h < length (cw_heap w)" and "ch_status (at w h) \<in> {ChQueued, ChRunning}" and "\<not> cv_disk env"
    and "markCompleted env tc sid output w = (r, w')"
  shows "r = Raised SaveRefused \<and> cw_db w' = cw_db w \<and> ch_status (at w' h) = ChCompleted
    \<and> markCompleted env' tc sid out' w' = (Transitioned h False ChCompleted ChCompleted, w')
    \<and> markFailed_child env' tc sid err w' = (Transitioned h False ChCompleted ChCompleted, w')
    \<and> markTimedOut env' tc sid w' = (Transitioned h False ChCompleted ChCompleted, w')
    \<and> markCancelled env' tc sid reason confirmed port w' = (Transitioned h False ChCompleted ChCompleted, w')"
proof -
  let ?x = "no_extra\<lparr>xt_result := output, xt_completedAt := Some (cv_now env)\<rparr>"
  let ?w = "change_record h (moved_child ChCompleted ?x) w"
  have "transitionChild env h ChCompleted ?x w = (Inl SaveRefused, ?w)"
    using assms(3,4) by (auto simp: transitionChild_def Let_def save_record_def isTerminalChildState_def
        terminal_child_states_def isValidChildTransition_def)
  then have call: "r = Raised SaveRefused" "w' = ?w"
    using assms(1,5) by (auto simp: markCompleted_def apply_mark_def)
  have "resolveRecord tc sid ?w = resolveRecord tc sid w" unfolding resolveRecord_def change_record_frame ..
  with assms(1) have found: "resolveRecord tc sid ?w = Some h" by simp
  have state: "ch_status (at ?w h) = ChCompleted" using at_change [OF assms(2)] by (simp add: moved_child_def)
  then have ended: "isTerminalChildState (ch_status (at ?w h))" by (simp add: isTerminalChildState_def terminal_child_states_def)
  have same: "apply_mark env' h m x msg ?w = (Transitioned h False ChCompleted ChCompleted, ?w)" for m x msg
    using ended by (simp add: apply_mark_def transitionChild_def Let_def state)
  show ?thesis
    using ended by (simp add: call markCompleted_def markFailed_child_def markTimedOut_def markCancelled_def Let_def found same state)
qed

section \<open>An example\<close>

definition calm_env :: child_env where
  "calm_env = \<lparr>cv_now = 0, cv_disk = True, cv_uuid = nat_str\<rparr>"

definition demo_input :: "string \<Rightarrow> string \<Rightarrow> delegation_input" where
  "demo_input tc aid =
     \<lparr>dg_runId = ''r'', dg_parentSessionId = ''p'', dg_taskCallId = tc, dg_targetAgent = ''coder'', dg_specialistId = None,
      dg_assignmentId = Some aid, dg_executionId = None, dg_prompt = None, dg_description = None, dg_background = None\<rparr>"

definition root_session :: agent_session where
  "root_session =
     \<lparr>sx_id = ''p'', sx_runId = ''r'', sx_assignmentId = None, sx_agentId = ''heidi'', sx_parentSessionId = None, sx_depth = 0,
      sx_status = ''running'', sx_toolCalls = 0, sx_delegations = 0, sx_durationMs = None, sx_startedAt = 0, sx_completedAt = None,
      sx_errorMessage = None\<rparr>"

definition demo_service :: child_world where
  "demo_service =
     \<lparr>cw_db = demo_db Executing 1, cw_sessions = [root_session], cw_heap = [], cw_byTask = [], cw_bySession = [],
      cw_byAssignment = [], cw_registry = no_executions, cw_waiting = []\<rparr>"

text \<open>A child is registered, bound and started.\<close>

definition demo_moves :: "child_move list" where
  "demo_moves =
     [Begin calm_env (CallRegister (demo_input ''t'' ''a'')), Resume calm_env False 0,
      Begin calm_env (CallBind ''p'' ''s'' None (Some ''t'')), Begin calm_env (CallStarted (Some ''t'') None),
      Resume calm_env False 0, Resume calm_env False 0]"

lemma demo_service_ok: "service_ok demo_service"
  by (simp add: service_ok_def children_ok_def tasks_ok_def sessions_ok_def waits_ok_def demo_service_def meta_ok_def
      demo_db_def runs_ok_def registered_def)

lemma demo_orderly: "orderly_run demo_moves demo_service"
  by code_simp



text \<open>Two registrations of one task call at a time: two assignments, the second record in the table and in the map, and
  nothing that leads from the task call to the first, whose required assignment stays pending.\<close>

definition racing_moves :: "child_move list" where
  "racing_moves = [Begin calm_env (CallRegister (demo_input ''t'' ''a'')), Begin calm_env (CallRegister (demo_input ''t'' ''b'')),
     Resume calm_env False 0, Resume calm_env False 0,
     Begin calm_env (CallCompleted (Some ''t'') None None), Resume calm_env False 0, Resume calm_env False 0]"

lemma racing_registrations:
  "map (\<lambda>a. (asg_id a, asg_status a, asg_isRequired a)) (db_assignments (cw_db (child_run racing_moves demo_service)))
     = [(''a'', ''pending'', 1), (''b'', ''completed'', 1)]"
  "map (\<lambda>r. m_key r) (db_meta (cw_db (child_run racing_moves demo_service))) = [child_key ''t'']"
  by code_simp+

theorem child_follows_table_witness:
  "(ch_status (at (child_run demo_moves demo_service) 0),
    ch_status (at (child_run [Begin calm_env (CallCompleted (Some ''t'') None None)] (child_run demo_moves demo_service)) 0))
   \<in> {(s, t). isValidChildTransition s t}\<^sup>*"
proof -
  have "0 < length (cw_heap (child_run demo_moves demo_service))" by code_simp
  from child_follows_table [OF this] show ?thesis by blast
qed

text \<open>The database refuses the write of a completion: memory is ahead of the row.\<close>

definition stuck_env :: child_env where
  "stuck_env = calm_env\<lparr>cv_disk := False\<rparr>"

definition frozen_moves :: "child_move list" where
  "frozen_moves = demo_moves @ [Begin stuck_env (CallCompleted (Some ''t'') None None)]"

theorem memory_is_durable_witness:
  "(\<exists>n \<le> 7. meta_val (cw_db (child_run frozen_moves demo_service)) (''r'', child_key ''t'')
       = Some (MChild (at (child_run (take n frozen_moves) demo_service) 0)))
   \<and> ch_status (at (child_run frozen_moves demo_service) 0) = ChCompleted
   \<and> meta_val (cw_db (child_run demo_moves demo_service)) (''r'', child_key ''t'')
       = Some (MChild (at (child_run demo_moves demo_service) 0))"
proof -
  have r: "resolveRecord (Some ''t'') None (child_run frozen_moves demo_service) = Some 0"
    "resolveRecord (Some ''t'') None (child_run demo_moves demo_service) = Some 0" by code_simp+
  have a: "apart_run frozen_moves demo_service" "apart_run demo_moves demo_service" "list_all takes_writes demo_moves" by code_simp+
  have i: "ch_runId (at (child_run frozen_moves demo_service) 0) = ''r''" "ch_runId (at (child_run demo_moves demo_service) 0) = ''r''"
    "length frozen_moves = 7" "ch_status (at (child_run frozen_moves demo_service) 0) = ChCompleted" by code_simp+
  show ?thesis
    using memory_is_durable [OF demo_service_ok a(1) r(1)] memory_is_durable [OF demo_service_ok a(2) r(2)] a(3)
    by (auto simp: i)
qed

text \<open>Two registrations of a task call race, and a session is bound.\<close>

definition bound_moves :: "child_move list" where
  "bound_moves = [Begin calm_env (CallRegister (demo_input ''t'' ''a'')), Begin calm_env (CallRegister (demo_input ''t'' ''b'')),
     Resume calm_env False 0, Resume calm_env False 0, Begin calm_env (CallBind ''p'' ''s'' None (Some ''t''))]"

lemma demo_sessions_bound: "sessions_bound demo_service"
  by (simp add: sessions_bound_def demo_service_def)

theorem child_session_exclusive_witness:
  "\<exists>j. resolveRecord None (Some ''s'') (child_run bound_moves demo_service) = Some j
     \<and> ch_taskCallId (at (child_run bound_moves demo_service) j) = ''t''"
proof -
  have r: "resolveRecord (Some ''t'') None (child_run bound_moves demo_service) = Some 1" by code_simp
  have s: "ch_childSessionId (at (child_run bound_moves demo_service) 1) = Some ''s''" by code_simp
  have m: "list_all sound_move bound_moves" by code_simp
  show ?thesis using child_session_exclusive [OF demo_sessions_bound m r r s s] by simp
qed

text \<open>With overlapping registrations the row need not be the record that is found: a session leads to the record of the first
  registration, and its cancellation is written over the row of the second.\<close>

definition crossed_moves :: "child_move list" where
  "crossed_moves = [Begin calm_env (CallRegister (demo_input ''t'' ''a'')), Begin calm_env (CallRegister (demo_input ''t'' ''b'')),
     Resume calm_env False 0, Begin calm_env (CallBind ''p'' ''s'' None (Some ''t'')), Resume calm_env False 0,
     Begin calm_env (CallCancelled None (Some ''s'') None False False)]"

lemma crossed_registrations:
  "map_option ch_cancelRequested (getChildExecution (Some ''t'') None None (child_run crossed_moves demo_service)) = Some (Some False)"
  "map_option (\<lambda>v. map_option ch_cancelRequested (child_of v))
     (meta_val (cw_db (child_run crossed_moves demo_service)) (''r'', child_key ''t'')) = Some (Some (Some True))"
  by code_simp+

text \<open>A binding whose write is refused leaves the session on the record and not in the map, and a second child takes it.\<close>

definition shared_moves :: "child_move list" where
  "shared_moves = [Begin calm_env (CallRegister (demo_input ''t'' ''a'')), Resume calm_env False 0,
     Begin calm_env (CallRegister (demo_input ''u'' ''b'')), Resume calm_env False 0,
     Begin stuck_env (CallBind ''p'' ''s'' None (Some ''t'')), Begin calm_env (CallBind ''p'' ''s'' None (Some ''u''))]"

lemma refused_bind_shares:
  "map (\<lambda>tc. map_option (\<lambda>c. (ch_status c, ch_childSessionId c)) (getChildExecution (Some tc) None None (child_run shared_moves demo_service)))
     [''t'', ''u''] = [Some (ChQueued, Some ''s''), Some (ChQueued, Some ''s'')]"
  by code_simp

theorem restart_finds_children_witness:
  "getChildExecution (Some ''t'') None None (restart by_time (child_run demo_moves demo_service))
     = Some (at (child_run demo_moves demo_service) 0)"
proof -
  let ?w = "child_run demo_moves demo_service"
  have rows: "child_listAll by_time None (cw_db ?w) = [at ?w 0]" "ch_taskCallId (at ?w 0) = ''t''" by code_simp+
  have meta: "map m_id (db_meta (cw_db ?w)) = [''meta-exec-t'']" "db_calls (cw_db ?w) = []"
    "map row_runId (db_runs (cw_db ?w)) = [''r'']" by code_simp+
  have "list_all child_row (db_meta (cw_db ?w))" by code_simp
  moreover have "distinct (map (\<lambda>r. (m_runId r, m_key r)) (db_meta (cw_db ?w)))"
    by code_simp
  moreover have "distinct (bound_sessions (child_listAll by_time None (cw_db ?w)))" by (simp add: rows bound_sessions_def)
  ultimately have sound: "rows_sound by_time (cw_db ?w)"
    by (simp add: rows_sound_def meta_ok_def runs_ok_def meta rows(1) list_all_iff)
  have "list_all (\<lambda>s. list_all (\<lambda>c. sx_assignmentId s = Some (ch_assignmentId c) \<longrightarrow>
     truthy (ch_childSessionId c) \<and> (session_end (sx_status s) \<noteq> None \<longrightarrow> isTerminalChildState (ch_status c)))
       (child_listAll by_time None (cw_db ?w))) (cw_sessions ?w)"
    by code_simp
  then have "\<forall>s \<in> set (cw_sessions ?w). session_agrees (child_listAll by_time None (cw_db ?w)) s"
    unfolding session_agrees_def list_all_iff .
  from restart_finds_children [OF by_time_ok sound this] show ?thesis using rows by simp
qed

theorem refused_write_freezes_witness:
  "fst (markCompleted (calm_env\<lparr>cv_disk := False\<rparr>) (Some ''t'') None None (child_run demo_moves demo_service)) = Raised SaveRefused"
proof -
  let ?w = "child_run demo_moves demo_service"
  have r: "resolveRecord (Some ''t'') None ?w = Some 0" "0 < length (cw_heap ?w)" "ch_status (at ?w 0) \<in> {ChQueued, ChRunning}"
    by code_simp+
  obtain x w' where c: "markCompleted (calm_env\<lparr>cv_disk := False\<rparr>) (Some ''t'') None None ?w = (x, w')" by fastforce
  from refused_write_freezes [OF r _ c] show ?thesis by (simp add: c)
qed


end
