(* ===== verification/Js_Regex.thy ===== *)
theory Js_Regex
  imports Workstreams
begin

text \<open>
  The regular expressions of the language, as far as the router's patterns use them: literals, \<open>.\<close>,
  \<open>\s\<close>, \<open>\d\<close>, a character class, \<open>^\<close>, \<open>\b\<close>, sequence, alternatives, and the greedy \<open>?\<close>, \<open>{0,n}\<close>, \<open>*\<close>
  and \<open>+\<close>. Every pattern of the router carries the flag \<open>i\<close>: an expression is written in lower case and
  matched against the text in lower case.

  A place in the text is the character before it, if any, and the text after it. \<open>ends\<close> lists the places
  where a match from a given place can end, in the order in which a backtracking matcher tries them, so
  its head is the match the language reports. \<open>covers\<close> is the relation that the expressions denote;
  \<open>ends_covers\<close> states that the matcher finds exactly what it relates.
\<close>

section \<open>Expressions\<close>

datatype regex =
    RLit string
  | RAny
  | RSpace
  | RDigit
  | ROf string
  | RStart
  | RWord
  | RSeq regex regex
  | RAlt regex regex
  | ROpt regex
  | RUpto nat regex
  | RStar regex

definition seq' :: "regex list \<Rightarrow> regex" where
  "seq' rs = foldr RSeq rs (RLit [])"

fun alts :: "regex list \<Rightarrow> regex" where
  "alts [] = ROf []"
| "alts [r] = r"
| "alts (r # rs) = RAlt r (alts rs)"

definition oneof :: "string list \<Rightarrow> regex" where
  "oneof ws = alts (map RLit ws)"

definition plus :: "regex \<Rightarrow> regex" where
  "plus r = RSeq r (RStar r)"

section \<open>Matching\<close>

type_synonym place = "char option \<times> string"

definition is_word :: "char \<Rightarrow> bool" where
  "is_word c \<longleftrightarrow> is_lower c \<or> is_upper c \<or> is_digit c \<or> c = CHR ''_''"

definition word_before :: "place \<Rightarrow> bool" where
  "word_before x = (case fst x of None \<Rightarrow> False | Some c \<Rightarrow> is_word c)"

definition word_after :: "place \<Rightarrow> bool" where
  "word_after x = (case snd x of [] \<Rightarrow> False | c # cs \<Rightarrow> is_word c)"

definition line_end :: "char \<Rightarrow> bool" where
  "line_end c \<longleftrightarrow> char_code c = 10 \<or> char_code c = 13"

fun spell :: "string \<Rightarrow> place \<Rightarrow> place list" where
  "spell [] x = [x]"
| "spell (a # as) (p, []) = []"
| "spell (a # as) (p, c # cs) = (if a = c then spell as (Some c, cs) else [])"

fun one :: "(char \<Rightarrow> bool) \<Rightarrow> place \<Rightarrow> place list" where
  "one P (p, []) = []"
| "one P (p, c # cs) = (if P c then [(Some c, cs)] else [])"

fun repeat :: "nat \<Rightarrow> (place \<Rightarrow> place list) \<Rightarrow> place \<Rightarrow> place list" where
  "repeat n f x = (if n = 0 then [x] else concat (map (repeat (n - 1) f) (f x)) @ [x])"

declare repeat.simps [simp del]

text \<open>
  An iteration of \<open>*\<close> that matches the empty text is not tried, so there are at most as many iterations
  as there are characters left.
\<close>

primrec ends :: "regex \<Rightarrow> place \<Rightarrow> place list" where
  "ends (RLit t) = spell t"
| "ends RAny = one (\<lambda>c. \<not> line_end c)"
| "ends RSpace = one is_white"
| "ends RDigit = one is_digit"
| "ends (ROf cs) = one (\<lambda>c. c \<in> set cs)"
| "ends RStart = (\<lambda>x. if fst x = None then [x] else [])"
| "ends RWord = (\<lambda>x. if word_before x \<noteq> word_after x then [x] else [])"
| "ends (RSeq a b) = (\<lambda>x. concat (map (ends b) (ends a x)))"
| "ends (RAlt a b) = (\<lambda>x. ends a x @ ends b x)"
| "ends (ROpt a) = (\<lambda>x. ends a x @ [x])"
| "ends (RUpto n a) = (\<lambda>x. repeat n (ends a) x)"
| "ends (RStar a) = (\<lambda>x. repeat (length (snd x)) (ends a) x)"

text \<open>\<open>pattern.test(text)\<close>: a match from some place of the text.\<close>

fun found :: "regex \<Rightarrow> char option \<Rightarrow> string \<Rightarrow> bool" where
  "found r p [] = (ends r (p, []) \<noteq> [])"
| "found r p (c # cs) = (ends r (p, c # cs) \<noteq> [] \<or> found r (Some c) cs)"

definition regex_test :: "regex \<Rightarrow> string \<Rightarrow> bool" where
  "regex_test r s = found r None (lower_case s)"

text \<open>
  \<open>text.match(/before(mid)after/)\<close>: the text of the group in the first match, from the leftmost place
  that has one.
\<close>

definition capture_to :: "regex \<Rightarrow> place \<Rightarrow> place \<Rightarrow> string list" where
  "capture_to rhs y z = (if ends rhs z = [] then [] else [take (length (snd y) - length (snd z)) (snd y)])"

definition captures_from :: "regex \<Rightarrow> regex \<Rightarrow> place \<Rightarrow> string list" where
  "captures_from mid rhs y = concat (map (capture_to rhs y) (ends mid y))"

definition captures :: "regex \<Rightarrow> regex \<Rightarrow> regex \<Rightarrow> place \<Rightarrow> string list" where
  "captures lhs mid rhs x = concat (map (captures_from mid rhs) (ends lhs x))"

fun first_capture :: "regex \<Rightarrow> regex \<Rightarrow> regex \<Rightarrow> char option \<Rightarrow> string \<Rightarrow> string option" where
  "first_capture a m z p s =
     (case captures a m z (p, s) of
        t # ts \<Rightarrow> Some t
      | [] \<Rightarrow> (case s of [] \<Rightarrow> None | c # cs \<Rightarrow> first_capture a m z (Some c) cs))"

declare first_capture.simps [simp del]

definition regex_group :: "regex \<Rightarrow> regex \<Rightarrow> regex \<Rightarrow> string \<Rightarrow> string option" where
  "regex_group a m z s = first_capture a m z None (lower_case s)"

section \<open>What an expression denotes\<close>

inductive covers :: "regex \<Rightarrow> place \<Rightarrow> place \<Rightarrow> bool" where
  covers_nil: "covers (RLit []) x x"
| covers_lit: "covers (RLit as) (Some a, cs) y \<Longrightarrow> covers (RLit (a # as)) (p, a # cs) y"
| covers_any: "\<not> line_end c \<Longrightarrow> covers RAny (p, c # cs) (Some c, cs)"
| covers_space: "is_white c \<Longrightarrow> covers RSpace (p, c # cs) (Some c, cs)"
| covers_digit: "is_digit c \<Longrightarrow> covers RDigit (p, c # cs) (Some c, cs)"
| covers_of: "c \<in> set ds \<Longrightarrow> covers (ROf ds) (p, c # cs) (Some c, cs)"
| covers_start: "covers RStart (None, cs) (None, cs)"
| covers_word: "word_before x \<noteq> word_after x \<Longrightarrow> covers RWord x x"
| covers_seq: "covers a x y \<Longrightarrow> covers b y z \<Longrightarrow> covers (RSeq a b) x z"
| covers_left: "covers a x y \<Longrightarrow> covers (RAlt a b) x y"
| covers_right: "covers b x y \<Longrightarrow> covers (RAlt a b) x y"
| covers_skip: "covers (ROpt a) x x"
| covers_take: "covers a x y \<Longrightarrow> covers (ROpt a) x y"
| covers_stop: "covers (RUpto n a) x x"
| covers_more: "covers a x y \<Longrightarrow> covers (RUpto n a) y z \<Longrightarrow> covers (RUpto (Suc n) a) x z"
| covers_end: "covers (RStar a) x x"
| covers_step: "covers a x y \<Longrightarrow> covers (RStar a) y z \<Longrightarrow> covers (RStar a) x z"

inductive_cases covers_seqE: "covers (RSeq a b) x z"

inductive_simps covers_simps:
  "covers (RLit []) x y" "covers (RLit (a # as)) (p, cs) y" "covers RAny x y" "covers RSpace x y" "covers RDigit x y"
  "covers (ROf ds) x y" "covers RStart x y" "covers RWord x y" "covers (RSeq a b) x y" "covers (RAlt a b) x y"
  "covers (ROpt a) x y" "covers (RUpto 0 a) x y" "covers (RUpto (Suc n) a) x y"

lemma set_repeat:
  "z \<in> set (repeat n f x) \<longleftrightarrow> z = x \<or> (\<exists>m y. n = Suc m \<and> y \<in> set (f x) \<and> z \<in> set (repeat m f y))"
  by (subst repeat.simps) (cases n, auto)

lemma spell_covers: "y \<in> set (spell t x) \<longleftrightarrow> covers (RLit t) x y"
  by (induction t x rule: spell.induct) (auto simp: covers_simps)

lemma one_covers:
  "y \<in> set (one P x) \<longleftrightarrow> (\<exists>p c cs. x = (p, c # cs) \<and> P c \<and> y = (Some c, cs))"
  by (cases x; cases "snd x") (auto split: if_splits)

text \<open>A match moves on or stays in place.\<close>

lemma covers_forward: "covers r x y \<Longrightarrow> y = x \<or> length (snd y) < length (snd x)"
  by (induction rule: covers.induct) auto

lemma covers_star_repeat:
  assumes body: "\<And>x y. y \<in> set (f x) \<longleftrightarrow> covers a x y"
    and "covers (RStar a) x z"
  shows "length (snd x) \<le> n \<Longrightarrow> z \<in> set (repeat n f x)"
  using assms(2)
proof (induction "RStar a" x z arbitrary: n rule: covers.induct)
  case (covers_end x)
  then show ?case by (simp add: set_repeat [of _ n])
next
  case (covers_step x y z)
  from covers_forward [OF covers_step(1)] show ?case
  proof
    assume "y = x"
    then show ?thesis using covers_step by blast
  next
    assume "length (snd y) < length (snd x)"
    then obtain m where "n = Suc m" "length (snd y) \<le> m" using covers_step.prems by (cases n) auto
    then show ?thesis using covers_step body unfolding set_repeat [of z n] by blast
  qed
qed

lemma repeat_covers_star:
  assumes body: "\<And>x y. y \<in> set (f x) \<longleftrightarrow> covers a x y"
  shows "z \<in> set (repeat n f x) \<Longrightarrow> covers (RStar a) x z"
proof (induction n arbitrary: x)
  case 0
  then show ?case by (auto simp: repeat.simps intro: covers.intros)
next
  case (Suc n)
  then show ?case unfolding set_repeat [of z "Suc n"] using body by (auto intro: covers.intros)
qed

lemma repeat_covers_upto:
  assumes body: "\<And>x y. y \<in> set (f x) \<longleftrightarrow> covers a x y"
  shows "z \<in> set (repeat n f x) \<longleftrightarrow> covers (RUpto n a) x z"
proof (induction n arbitrary: x)
  case 0
  then show ?case unfolding set_repeat [of z 0] by (simp add: covers_simps)
next
  case (Suc n)
  then show ?case unfolding set_repeat [of z "Suc n"] covers_simps using body by auto
qed

lemma covers_seq_iff: "covers (RSeq a b) x z \<longleftrightarrow> (\<exists>y. covers a x y \<and> covers b y z)"
  by (blast intro: covers_seq elim: covers_seqE)

theorem ends_covers: "y \<in> set (ends r x) \<longleftrightarrow> covers r x y"
proof (induction r arbitrary: x y)
  case (RSeq a b)
  show ?case by (simp add: covers_seq_iff RSeq Bex_def del: split_paired_Ex)
next
  case (RAlt a b)
  then show ?case by (simp add: covers_simps)
next
  case (ROpt a)
  then show ?case by (simp add: covers_simps disj_commute)
next
  case (RUpto n a)
  then show ?case using repeat_covers_upto [of "ends a" a] by simp
next
  case (RStar a)
  then show ?case
    using covers_star_repeat [of "ends a" a x y "length (snd x)"] repeat_covers_star [of "ends a" a y _ x] by auto
qed (auto simp: spell_covers one_covers covers_simps split: if_splits)

text \<open>\<open>test\<close> answers whether some part of the text is matched.\<close>

lemma some_end: "ends r x \<noteq> [] \<longleftrightarrow> (\<exists>y. covers r x y)"
  unfolding ends_covers [symmetric] by (metis equals0D last_in_set set_empty)

lemma found_covers:
  "found r p s \<longleftrightarrow> (\<exists>u v y. s = u @ v \<and> covers r (if u = [] then p else Some (last u), v) y)"
proof (induction r p s rule: found.induct)
  case (1 r p)
  show ?case using some_end [of r "(p, [])"] by (simp del: split_paired_Ex)
next
  case (2 r p c cs)
  have "(\<exists>u v y. c # cs = u @ v \<and> covers r (if u = [] then p else Some (last u), v) y)
      \<longleftrightarrow> (\<exists>y. covers r (p, c # cs) y) \<or> (\<exists>u v y. cs = u @ v \<and> covers r (if u = [] then Some c else Some (last u), v) y)"
    (is "?l \<longleftrightarrow> ?here \<or> ?later")
  proof
    assume ?l
    then obtain u v y where u: "c # cs = u @ v" "covers r (if u = [] then p else Some (last u), v) y" by blast
    show "?here \<or> ?later"
    proof (cases u)
      case Nil
      then have "covers r (p, c # cs) y" using u by simp
      then show ?thesis by blast
    next
      case (Cons d ds)
      then have "cs = ds @ v \<and> covers r (if ds = [] then Some c else Some (last ds), v) y" using u by auto
      then show ?thesis by blast
    qed
  next
    assume "?here \<or> ?later"
    then show ?l
    proof
      assume ?here
      then obtain y where "covers r (p, c # cs) y" by blast
      then show ?l by (intro exI [of _ "[]"] exI [of _ "c # cs"] exI [of _ y]) simp
    next
      assume ?later
      then obtain u v y where u: "cs = u @ v" "covers r (if u = [] then Some c else Some (last u), v) y" by blast
      then show ?l by (intro exI [of _ "c # u"] exI [of _ v] exI [of _ y]) (simp split: if_splits)
    qed
  qed
  note split = this
  have "found r p (c # cs) \<longleftrightarrow> ?here \<or> ?later"
  proof (cases "ends r (p, c # cs) = []")
    case True
    then have "\<not> ?here" using some_end [of r "(p, c # cs)"] by blast
    moreover have "found r p (c # cs) \<longleftrightarrow> ?later" using True 2 by (simp only: found.simps) simp
    ultimately show ?thesis by argo
  next
    case False
    then have ?here using some_end [of r "(p, c # cs)"] by blast
    then show ?thesis using False by (simp only: found.simps) simp
  qed
  then show ?case by (simp only: split)
qed

theorem regex_test_covers:
  "regex_test r s \<longleftrightarrow> (\<exists>u v y. lower_case s = u @ v \<and> covers r (if u = [] then None else Some (last u), v) y)"
  unfolding regex_test_def by (rule found_covers)

end
