(* ===== verification/Code_Mode.thy ===== *)
theory Code_Mode
  imports Js_Regex
begin

text \<open>
  The policy of code mode and the evaluation of a prompt against it
  (\<open>services/heidi-code-mode-policy.ts\<close>, \<open>services/heidi-code-mode-evaluator.ts\<close>).

  The measurements that a later run adds to the telemetry (\<open>actualToolCalls\<close> and those after it) are fields
  of the record; the evaluation leaves them out.
\<close>

section \<open>The policy\<close>

record code_mode_policy =
  cq_maxLines :: nat
  cq_maxSourceBytes :: nat
  cq_maxToolCalls :: nat
  cq_maxParallelCalls :: nat
  cq_maxDependencyStages :: nat
  cq_maxCollectionItems :: nat
  cq_timeoutMs :: nat
  cq_maxOutputBytes :: nat
  cq_maxRetries :: nat
  cq_allowRecursion :: bool
  cq_allowNestedExecute :: bool
  cq_allowAgentSpawning :: bool
  cq_allowImports :: bool
  cq_allowDynamicCode :: bool
  cq_allowFilesystem :: bool
  cq_allowShell :: bool
  cq_allowDirectNetwork :: bool
  cq_allowEnvironment :: bool

definition HEIDI_CODE_MODE_POLICY :: code_mode_policy where
  "HEIDI_CODE_MODE_POLICY = \<lparr>
     cq_maxLines = 80,
     cq_maxSourceBytes = 12288,
     cq_maxToolCalls = 10,
     cq_maxParallelCalls = 4,
     cq_maxDependencyStages = 3,
     cq_maxCollectionItems = 25,
     cq_timeoutMs = 30000,
     cq_maxOutputBytes = 65536,
     cq_maxRetries = 0,
     cq_allowRecursion = False,
     cq_allowNestedExecute = False,
     cq_allowAgentSpawning = False,
     cq_allowImports = False,
     cq_allowDynamicCode = False,
     cq_allowFilesystem = False,
     cq_allowShell = False,
     cq_allowDirectNetwork = False,
     cq_allowEnvironment = False\<rparr>"

datatype code_mode_capability = CapAvailable | CapUnavailable | CapUnknown

datatype code_mode_rejection =
    NotMcpComposition
  | ExecuteUnavailable
  | TooManyToolCalls
  | TooMuchParallelism
  | TooManyStages
  | CollectionTooLarge
  | ExpectedTimeout
  | RequiresRetry
  | RequiresTask
  | RequiresShell
  | RequiresFilesystem
  | RequiresDirectNetwork
  | TooComplex

datatype terminal_status = TermSuccess | TermError | TermTimeout

record code_mode_telemetry =
  tm_codeModeConsidered :: bool
  tm_codeModeSelected :: bool
  tm_codeModeRejectedReason :: "code_mode_rejection option"
  tm_estimatedToolCalls :: "nat option"
  tm_estimatedParallelWidth :: "nat option"
  tm_estimatedDependencyStages :: "nat option"
  tm_actualToolCalls :: "nat option"
  tm_actualDurationMs :: "nat option"
  tm_actualResultBytes :: "nat option"
  tm_terminalStatus :: "terminal_status option"

definition resolveCodeModeCapability :: "bool \<Rightarrow> bool \<Rightarrow> bool option \<Rightarrow> code_mode_capability" where
  "resolveCodeModeCapability featureEnabled hasNativeSupport hasExecuteTool =
     (if \<not> featureEnabled \<or> \<not> hasNativeSupport then CapUnavailable
      else if hasExecuteTool = Some True then CapAvailable
      else CapUnknown)"

section \<open>The evaluation\<close>

definition matchesAny :: "string \<Rightarrow> regex list \<Rightarrow> bool" where
  "matchesAny input patterns = list_ex (\<lambda>p. regex_test p input) patterns"

definition OPEN_ENDED_PATTERNS :: "regex list" where
  "OPEN_ENDED_PATTERNS =
     [RLit ''comprehensively'',
      RLit ''exhaustively'',
      RLit ''all pages'',
      RLit ''keep exploring'',
      RLit ''across everything'',
      RLit ''until all results are found'',
      RLit ''keep iterating'',
      RLit ''continuously'',
      RLit ''all repositories'',
      RLit ''paginate through all'',
      RLit ''all records'',
      RLit ''unlimited'',
      RLit ''crawl all'',
      RLit ''indefinitely'']"

definition RETRY_PATTERNS :: "regex list" where
  "RETRY_PATTERNS =
     [seq' [RWord, RLit ''retr'', oneof [''y'', ''ies'', ''ying''], RWord],
      RLit ''exponential backoff'',
      RLit ''retry on error'']"

definition TASK_SPAWNING_PATTERNS :: "regex list" where
  "TASK_SPAWNING_PATTERNS =
     [seq' [RWord, RLit ''specialist'', RWord],
      seq' [RWord, RLit ''spawn'', RWord],
      seq' [RWord, RLit ''delegate'', RWord],
      RLit ''task tool'',
      RLit ''subagent'',
      RLit ''launch agent'']"

definition SHELL_PATTERNS :: "regex list" where
  "SHELL_PATTERNS =
     [seq' [RWord, RLit ''shell'', RWord],
      seq' [RWord, RLit ''bash'', RWord],
      seq' [RWord, RLit ''zsh'', RWord],
      seq' [RWord, RLit ''terminal'', RWord],
      seq' [RWord, RLit ''curl'', RWord],
      seq' [RWord, RLit ''ping'', RWord],
      seq' [RWord, RLit ''exec'', RWord]]"

definition FILESYSTEM_PATTERNS :: "regex list" where
  "FILESYSTEM_PATTERNS =
     [RLit ''write to file'',
      RLit ''filesystem'',
      RLit ''fs.'',
      RLit ''writefile'',
      RLit ''delete file'',
      RLit ''modify file'',
      RLit ''save to disk'']"

definition DIRECT_NETWORK_PATTERNS :: "regex list" where
  "DIRECT_NETWORK_PATTERNS =
     [RLit ''direct network'',
      RLit ''fetch('',
      RLit ''axios'',
      RLit ''http.get'',
      RLit ''https.request'',
      RLit ''websocket'',
      RLit ''socket.connect'']"

definition RECURSION_AND_NESTED_PATTERNS :: "regex list" where
  "RECURSION_AND_NESTED_PATTERNS =
     [seq' [RWord, RLit ''recurs'', oneof [''e'', ''ion'', ''ive''], RWord],
      RLit ''nested execute'',
      RLit ''nested script'',
      RLit ''eval('',
      RLit ''new function'']"


record code_mode_evaluation =
  cz_isEligible :: bool
  cz_rejectionReason :: "code_mode_rejection option"
  cz_telemetry :: code_mode_telemetry

definition line_count :: "string \<Rightarrow> nat" where
  "line_count s = Suc (length (filter (\<lambda>c. char_code c = 10) s))"

definition byte_length :: "string \<Rightarrow> nat" where
  "byte_length s = sum_list (map (\<lambda>c. if char_code c < 128 then 1 else 2) s)"

definition parse_digits :: "string \<Rightarrow> nat" where
  "parse_digits ds = foldl (\<lambda>n d. 10 * n + (char_code d - 48)) 0 ds"

definition collection_count :: "string \<Rightarrow> nat option" where
  "collection_count prompt =
     map_option parse_digits
       (nullish_opt
          (regex_group (seq' [RWord, oneof [''top'', ''first'', ''all'', ''every''], plus RSpace]) (plus RDigit) RWord prompt)
          (regex_group RWord (plus RDigit)
             (seq' [plus RSpace, oneof [''items'', ''issues'', ''prs'', ''records'', ''elements''], RWord]) prompt))"

definition no_telemetry :: code_mode_telemetry where
  "no_telemetry = \<lparr>
     tm_codeModeConsidered = True, tm_codeModeSelected = False, tm_codeModeRejectedReason = None,
     tm_estimatedToolCalls = None, tm_estimatedParallelWidth = None, tm_estimatedDependencyStages = None,
     tm_actualToolCalls = None, tm_actualDurationMs = None, tm_actualResultBytes = None,
     tm_terminalStatus = None\<rparr>"

definition turn_down :: "code_mode_rejection \<Rightarrow> code_mode_telemetry \<Rightarrow> code_mode_evaluation" where
  "turn_down r t = \<lparr>cz_isEligible = False, cz_rejectionReason = Some r,
     cz_telemetry = t\<lparr>tm_codeModeSelected := False, tm_codeModeRejectedReason := Some r\<rparr>\<rparr>"

definition take_up :: "code_mode_telemetry \<Rightarrow> code_mode_evaluation" where
  "take_up t = \<lparr>cz_isEligible = True, cz_rejectionReason = None, cz_telemetry = t\<lparr>tm_codeModeSelected := True\<rparr>\<rparr>"

definition estimate_bounds :: "string \<Rightarrow> code_mode_evaluation" where
  "estimate_bounds prompt =
     (let lowerPrompt = lower_case prompt;
          calls = (if str_includes lowerPrompt ''all issues'' \<or> str_includes lowerPrompt ''every pull request''
                   then 20 else 3);
          stages = (if str_includes lowerPrompt ''5 stages'' \<or> str_includes lowerPrompt ''then then then then''
                    then 5 else 2);
          width = (if str_includes lowerPrompt ''10 parallel'' \<or> str_includes lowerPrompt ''concurrently fetch 8''
                   then 8 else 2);
          t = no_telemetry\<lparr>tm_estimatedToolCalls := Some calls, tm_estimatedParallelWidth := Some width,
                            tm_estimatedDependencyStages := Some stages\<rparr>
      in if cq_maxParallelCalls HEIDI_CODE_MODE_POLICY < width then turn_down TooMuchParallelism t
         else if cq_maxDependencyStages HEIDI_CODE_MODE_POLICY < stages then turn_down TooManyStages t
         else if cq_maxToolCalls HEIDI_CODE_MODE_POLICY < calls then turn_down TooManyToolCalls t
         else take_up t)"

definition evaluateCodeModeEligibility :: "string \<Rightarrow> bool \<Rightarrow> code_mode_evaluation" where
  "evaluateCodeModeEligibility prompt isMcpCompositionCandidate =
     (if \<not> isMcpCompositionCandidate then turn_down NotMcpComposition no_telemetry
      else if cq_maxLines HEIDI_CODE_MODE_POLICY < line_count prompt
              \<or> cq_maxSourceBytes HEIDI_CODE_MODE_POLICY < byte_length prompt then turn_down TooComplex no_telemetry
      else if matchesAny prompt RETRY_PATTERNS then turn_down RequiresRetry no_telemetry
      else if matchesAny prompt TASK_SPAWNING_PATTERNS then turn_down RequiresTask no_telemetry
      else if matchesAny prompt SHELL_PATTERNS then turn_down RequiresShell no_telemetry
      else if matchesAny prompt FILESYSTEM_PATTERNS then turn_down RequiresFilesystem no_telemetry
      else if matchesAny prompt DIRECT_NETWORK_PATTERNS then turn_down RequiresDirectNetwork no_telemetry
      else if matchesAny prompt RECURSION_AND_NESTED_PATTERNS then turn_down TooComplex no_telemetry
      else if matchesAny prompt OPEN_ENDED_PATTERNS then
        turn_down TooManyToolCalls (no_telemetry\<lparr>tm_estimatedToolCalls := Some 25\<rparr>)
      else (case collection_count prompt of
              Some n \<Rightarrow> if cq_maxCollectionItems HEIDI_CODE_MODE_POLICY < n then turn_down CollectionTooLarge no_telemetry
                         else estimate_bounds prompt
            | None \<Rightarrow> estimate_bounds prompt))"

section \<open>Lemmas\<close>

text \<open>The answer, its reason and the telemetry agree.\<close>

definition agrees :: "code_mode_evaluation \<Rightarrow> bool" where
  "agrees e \<longleftrightarrow>
     cz_isEligible e = tm_codeModeSelected (cz_telemetry e)
     \<and> cz_rejectionReason e = tm_codeModeRejectedReason (cz_telemetry e)
     \<and> (cz_isEligible e \<longleftrightarrow> cz_rejectionReason e = None)"

lemma turn_down_simps [simp]:
  "agrees (turn_down r t)" "\<not> cz_isEligible (turn_down r t)" "cz_rejectionReason (turn_down r t) = Some r"
  by (simp_all add: turn_down_def agrees_def)

lemma agrees_if: "agrees (if b then x else y) \<longleftrightarrow> (if b then agrees x else agrees y)"
  by simp

lemma take_up_simps [simp]:
  "agrees (take_up t) \<longleftrightarrow> tm_codeModeRejectedReason t = None" "cz_isEligible (take_up t)"
  by (auto simp: take_up_def agrees_def)

lemma estimate_agrees: "agrees (estimate_bounds prompt)"
  unfolding estimate_bounds_def Let_def agrees_if by (simp add: no_telemetry_def)

lemma evaluation_agrees: "agrees (evaluateCodeModeEligibility prompt c)"
  unfolding evaluateCodeModeEligibility_def agrees_if by (simp add: estimate_agrees split: option.splits)

text \<open>A prompt is accepted only within every bound of the policy.\<close>

definition within_policy :: "code_mode_telemetry \<Rightarrow> bool" where
  "within_policy t \<longleftrightarrow>
     (\<exists>calls width stages.
        tm_estimatedToolCalls t = Some calls \<and> calls \<le> cq_maxToolCalls HEIDI_CODE_MODE_POLICY
        \<and> tm_estimatedParallelWidth t = Some width \<and> width \<le> cq_maxParallelCalls HEIDI_CODE_MODE_POLICY
        \<and> tm_estimatedDependencyStages t = Some stages \<and> stages \<le> cq_maxDependencyStages HEIDI_CODE_MODE_POLICY)"

lemma estimate_within: "cz_isEligible (estimate_bounds prompt) \<Longrightarrow> within_policy (cz_telemetry (estimate_bounds prompt))"
  unfolding estimate_bounds_def Let_def
  by (auto simp: within_policy_def take_up_def no_telemetry_def split: if_splits)

lemma eligible_bounds:
  assumes "cz_isEligible (evaluateCodeModeEligibility prompt c)"
  shows "c" and "line_count prompt \<le> cq_maxLines HEIDI_CODE_MODE_POLICY"
    and "byte_length prompt \<le> cq_maxSourceBytes HEIDI_CODE_MODE_POLICY"
    and "evaluateCodeModeEligibility prompt c = estimate_bounds prompt"
    and "\<And>n. collection_count prompt = Some n \<Longrightarrow> n \<le> cq_maxCollectionItems HEIDI_CODE_MODE_POLICY"
    and "\<And>ps. ps \<in> {RETRY_PATTERNS, TASK_SPAWNING_PATTERNS, SHELL_PATTERNS, FILESYSTEM_PATTERNS,
               DIRECT_NETWORK_PATTERNS, RECURSION_AND_NESTED_PATTERNS, OPEN_ENDED_PATTERNS}
           \<Longrightarrow> \<not> matchesAny prompt ps"
  using assms unfolding evaluateCodeModeEligibility_def
  by (auto split: if_splits option.splits)

text \<open>C35. A prompt is taken to code mode only as a candidate, within the size and the estimates of the policy and its
  collection size for the one number the code reads, and when no pattern of a forbidden behaviour matches; the answer, its reason and the telemetry agree.\<close>

theorem code_mode_within_policy:
  assumes "cz_isEligible (evaluateCodeModeEligibility prompt c)"
  shows "c \<and> line_count prompt \<le> cq_maxLines HEIDI_CODE_MODE_POLICY
    \<and> byte_length prompt \<le> cq_maxSourceBytes HEIDI_CODE_MODE_POLICY
    \<and> within_policy (cz_telemetry (evaluateCodeModeEligibility prompt c))
    \<and> (case collection_count prompt of None \<Rightarrow> True | Some n \<Rightarrow> n \<le> cq_maxCollectionItems HEIDI_CODE_MODE_POLICY)
    \<and> \<not> matchesAny prompt (RETRY_PATTERNS @ TASK_SPAWNING_PATTERNS @ SHELL_PATTERNS @ FILESYSTEM_PATTERNS
          @ DIRECT_NETWORK_PATTERNS @ RECURSION_AND_NESTED_PATTERNS @ OPEN_ENDED_PATTERNS)
    \<and> agrees (evaluateCodeModeEligibility prompt c)"
proof -
  note b = eligible_bounds [OF assms]
  have "within_policy (cz_telemetry (evaluateCodeModeEligibility prompt c))"
    using assms unfolding b(4) by (rule estimate_within)
  moreover have "\<not> matchesAny prompt (RETRY_PATTERNS @ TASK_SPAWNING_PATTERNS @ SHELL_PATTERNS @ FILESYSTEM_PATTERNS
          @ DIRECT_NETWORK_PATTERNS @ RECURSION_AND_NESTED_PATTERNS @ OPEN_ENDED_PATTERNS)"
    using b(6) by (simp add: matchesAny_def)
  ultimately show ?thesis using b(1,2,3,5) evaluation_agrees by (auto split: option.split)
qed

lemmas code_mode_patterns = RETRY_PATTERNS_def TASK_SPAWNING_PATTERNS_def SHELL_PATTERNS_def FILESYSTEM_PATTERNS_def
  DIRECT_NETWORK_PATTERNS_def RECURSION_AND_NESTED_PATTERNS_def OPEN_ENDED_PATTERNS_def

lemmas regex_simps = regex_test_def lower_case_def js_lower_def is_upper_def is_lower_def is_digit_def is_word_def
  char_code_def matchesAny_def seq'_def oneof_def plus_def word_before_def word_after_def is_white_def line_end_def
  repeat.simps

text \<open>Only the first number of the prompt is compared with the bound of a collection: a later and larger one, of the
  other form, passes.\<close>

lemma first_count_hides_later:
  "collection_count ''top 9 of 99 prs'' = Some 9"
  "cz_isEligible (evaluateCodeModeEligibility ''top 9 of 99 prs'' True)"
proof -
  let ?p = "''top 9 of 99 prs''"
  show c: "collection_count ?p = Some 9"
    by (simp add: collection_count_def regex_group_def regex_simps first_capture.simps captures_def captures_from_def capture_to_def
        parse_digits_def)
  have m: "\<not> matchesAny ?p RETRY_PATTERNS" "\<not> matchesAny ?p TASK_SPAWNING_PATTERNS" "\<not> matchesAny ?p SHELL_PATTERNS"
    "\<not> matchesAny ?p FILESYSTEM_PATTERNS" "\<not> matchesAny ?p DIRECT_NETWORK_PATTERNS"
    "\<not> matchesAny ?p RECURSION_AND_NESTED_PATTERNS" "\<not> matchesAny ?p OPEN_ENDED_PATTERNS"
    unfolding code_mode_patterns by (simp_all add: regex_simps)
  have "line_count ?p = 1" "byte_length ?p = 15" by (simp_all add: line_count_def byte_length_def char_code_def)
  moreover have "cz_isEligible (estimate_bounds ?p)"
    unfolding estimate_bounds_def Let_def
    by (simp add: lower_case_def js_lower_def is_upper_def char_code_def starts_with_def HEIDI_CODE_MODE_POLICY_def)
  ultimately show "cz_isEligible (evaluateCodeModeEligibility ?p True)"
    unfolding evaluateCodeModeEligibility_def c using m by (simp add: HEIDI_CODE_MODE_POLICY_def)
qed

theorem code_mode_within_policy_witness:
  "within_policy (cz_telemetry (evaluateCodeModeEligibility ''top 9 of 99 prs'' True))"
  using code_mode_within_policy [OF first_count_hides_later(2)] by simp


end
