(* ===== verification/Canonical_Registry.thy ===== *)
theory Canonical_Registry
  imports Workstreams
begin

text \<open>
  The registry of agents (\<open>services/canonical-registry.ts\<close>): one entry per agent, and the questions the
  router, the planner and the delegation guard ask of it. An em dash in a description is written as two
  hyphens.

  The lemmas characterise each question by the entries: who may delegate, who is a specialist, and that
  no specialist may delegate further.
\<close>

section \<open>The entries\<close>

datatype agent_mode = Primary | Subagent

datatype delegation_policy = NoDelegation | JustifiedOnly

record canonical_agent =
  ca_id :: string
  ca_alias :: "string option"
  ca_description :: string
  ca_mode :: agent_mode
  ca_allowedTaskTypes :: "string list"
  ca_allowedTools :: "string list"
  ca_forbiddenActions :: "string list"
  ca_ownedPaths :: "string list"
  ca_modelPolicy :: string
  ca_delegationPolicy :: delegation_policy
  ca_maxDelegationDepth :: nat
  ca_requiredInputs :: "string list"
  ca_expectedOutput :: "string list"
  ca_progressStates :: "string list"
  ca_escalationConditions :: "string list"
  ca_stopConditions :: "string list"
  ca_successCriteria :: "string list"

definition agent_heidi :: canonical_agent where
  "agent_heidi = \<lparr>
     ca_id = ''heidi'',
     ca_alias = None,
     ca_description =
       ''Heidi primary execution coordinator. Direct execution by default, delegating to specialists only when justified. Can edit code, run tests, and manage configuration directly.'',
     ca_mode = Primary,
     ca_allowedTaskTypes = [''coordination'', ''orchestration'', ''direct-execution'', ''delegation'',
       ''phase-management'', ''implementation'', ''editing'', ''testing'', ''configuration''],
     ca_allowedTools = [''read'', ''read_file'', ''write'', ''write_file'', ''edit'', ''edit_file'', ''patch'',
       ''patch_file'', ''apply_patch'', ''create_file'', ''str-replace'', ''str_replace'', ''bash'', ''glob'',
       ''grep'', ''search'', ''planning-state'', ''codebase-state'', ''repo-memory'', ''codegraph'', ''load-rules'',
       ''list-rules'', ''task'', ''capture-lesson'', ''review-lessons'', ''fdx-read'', ''fdx-search'', ''fdx-grep'',
       ''fdx-outline'', ''fdx-batch'', ''fdx-impact'', ''fdx-diff'', ''fdx-git'', ''fdx-ls'', ''fdx-tree'',
       ''fdx-test'', ''fdx-lint''],
     ca_forbiddenActions = [''restart_opencode'', ''reboot_system'', ''logout_user'', ''spawn_nested_subagent'',
       ''rm_-rf_/''],
     ca_ownedPaths = [''~/.fd-plan/''],
     ca_modelPolicy = ''inherit'',
     ca_delegationPolicy = JustifiedOnly,
     ca_maxDelegationDepth = 1,
     ca_requiredInputs = [''user prompt or STATE.md''],
     ca_expectedOutput = [''execution_strategy'', ''completed_steps'', ''summary'', ''verification_result''],
     ca_progressStates = [''intake'', ''route'', ''context'', ''execute'', ''verify'', ''complete''],
     ca_escalationConditions = [''specialist agent fails twice'', ''circuit breaker triggered on 3rd failure'',
       ''ambiguous user requirements'', ''budget exceeded''],
     ca_stopConditions = [''all task steps completed and verified'', ''circuit breaker triggered'',
       ''user requests stop'', ''budget exhausted with no fallback''],
     ca_successCriteria = [''task executed directly or via justified delegation'', ''all verifications pass'',
       ''summary provided to user'']\<rparr>"

definition agent_orchestrator :: canonical_agent where
  "agent_orchestrator = \<lparr>
     ca_id = ''orchestrator'',
     ca_alias = Some ''heidi'',
     ca_description =
       ''Compatibility alias for Heidi primary coordinator. Same direct-execution capability as Heidi.'',
     ca_mode = Primary,
     ca_allowedTaskTypes = [''coordination'', ''orchestration'', ''direct-execution'', ''delegation'',
       ''phase-management''],
     ca_allowedTools = [''read'', ''read_file'', ''write'', ''write_file'', ''edit'', ''edit_file'', ''patch'',
       ''patch_file'', ''apply_patch'', ''create_file'', ''str-replace'', ''str_replace'', ''bash'', ''glob'',
       ''grep'', ''search'', ''planning-state'', ''codebase-state'', ''repo-memory'', ''codegraph'', ''load-rules'',
       ''list-rules'', ''task'', ''capture-lesson'', ''review-lessons'', ''fdx-read'', ''fdx-search'', ''fdx-grep'',
       ''fdx-outline'', ''fdx-batch'', ''fdx-impact'', ''fdx-diff'', ''fdx-git'', ''fdx-ls'', ''fdx-tree'',
       ''fdx-test'', ''fdx-lint''],
     ca_forbiddenActions = [''restart_opencode'', ''reboot_system'', ''logout_user'', ''spawn_nested_subagent''],
     ca_ownedPaths = [],
     ca_modelPolicy = ''inherit'',
     ca_delegationPolicy = JustifiedOnly,
     ca_maxDelegationDepth = 1,
     ca_requiredInputs = [''user prompt or STATE.md''],
     ca_expectedOutput = [''execution_strategy'', ''completed_steps'', ''summary''],
     ca_progressStates = [''intake'', ''route'', ''context'', ''execute'', ''verify'', ''complete''],
     ca_escalationConditions = [''specialist agent fails twice'', ''circuit breaker triggered'',
       ''ambiguous requirements''],
     ca_stopConditions = [''all task steps completed and verified'', ''user requests stop''],
     ca_successCriteria = [''task executed directly or via justified delegation'', ''verifications pass'',
       ''summary provided'']\<rparr>"

definition agent_planner :: canonical_agent where
  "agent_planner = \<lparr>
     ca_id = ''planner'',
     ca_alias = None,
     ca_description = ''Create detailed implementation plans with numbered steps, parallelization, and sizing.'',
     ca_mode = Subagent,
     ca_allowedTaskTypes = [''planning'', ''task-breakdown'', ''step-decomposition''],
     ca_allowedTools = [''read'', ''glob'', ''grep'', ''planning-state''],
     ca_forbiddenActions = [''write source files'', ''run bash commands'', ''edit application code'',
       ''implement features''],
     ca_ownedPaths = [],
     ca_modelPolicy = ''inherit'',
     ca_delegationPolicy = NoDelegation,
     ca_maxDelegationDepth = 0,
     ca_requiredInputs = [''task description or STATE.md''],
     ca_expectedOutput = [''steps'', ''phase'', ''plan_md''],
     ca_progressStates = [''analyze'', ''decompose'', ''write_plan'', ''review_plan''],
     ca_escalationConditions = [''requirements ambiguous'', ''dependencies unclear'', ''conflicting constraints''],
     ca_stopConditions = [''plan written and self-reviewed'', ''user confirms plan''],
     ca_successCriteria = [''numbered steps with assigned agents'', ''each step has clear success criteria'',
       ''no implementation'']\<rparr>"

definition agent_architect :: canonical_agent where
  "agent_architect = \<lparr>
     ca_id = ''architect'',
     ca_alias = None,
     ca_description = ''Design system architecture, create ADRs, define API contracts and interface boundaries.'',
     ca_mode = Subagent,
     ca_allowedTaskTypes = [''architecture'', ''adr'', ''api-design'', ''system-design''],
     ca_allowedTools = [''read'', ''write'', ''glob'', ''grep'', ''planning-state'', ''capture-lesson'',
       ''review-lessons''],
     ca_forbiddenActions = [''write application code'', ''run bash commands''],
     ca_ownedPaths = [],
     ca_modelPolicy = ''inherit'',
     ca_delegationPolicy = NoDelegation,
     ca_maxDelegationDepth = 0,
     ca_requiredInputs = [''feature or system description'', ''existing codebase context''],
     ca_expectedOutput = [''architecture_document'', ''adr'', ''api_contracts''],
     ca_progressStates = [''analyze'', ''design'', ''document'', ''review''],
     ca_escalationConditions = [''architectural conflict with existing system'', ''breaking API change required''],
     ca_stopConditions = [''ADR written'', ''architecture reviewed''],
     ca_successCriteria = [''architecture documented with tradeoffs'', ''no application code written'']\<rparr>"

definition agent_researcher :: canonical_agent where
  "agent_researcher = \<lparr>
     ca_id = ''researcher'',
     ca_alias = None,
     ca_description =
       ''Research documentation, APIs, best practices, and third-party libraries. Read-only analysis.'',
     ca_mode = Subagent,
     ca_allowedTaskTypes = [''research'', ''api-lookup'', ''documentation'', ''best-practices''],
     ca_allowedTools = [''read'', ''glob'', ''grep''],
     ca_forbiddenActions = [''write or edit files'', ''implement solutions''],
     ca_ownedPaths = [],
     ca_modelPolicy = ''inherit'',
     ca_delegationPolicy = NoDelegation,
     ca_maxDelegationDepth = 0,
     ca_requiredInputs = [''research topic or question''],
     ca_expectedOutput = [''findings'', ''references'', ''recommendations''],
     ca_progressStates = [''query'', ''analyze'', ''synthesize''],
     ca_escalationConditions = [''critical information unavailable'', ''conflicting documentation''],
     ca_stopConditions = [''research question answered'', ''findings documented''],
     ca_successCriteria = [''findings clearly summarized'', ''sources cited'', ''no file modifications'']\<rparr>"

definition agent_mapper :: canonical_agent where
  "agent_mapper = \<lparr>
     ca_id = ''mapper'',
     ca_alias = None,
     ca_description = ''Explore and map codebase architecture, entry points, dependencies, and file structures.'',
     ca_mode = Subagent,
     ca_allowedTaskTypes = [''mapping'', ''codebase-exploration'', ''structure-analysis'', ''dependency-graph''],
     ca_allowedTools = [''read'', ''glob'', ''grep'', ''search'', ''codebase-state'', ''repo-memory'',
       ''codegraph'', ''fdx-read'', ''fdx-search'', ''fdx-grep'', ''fdx-outline'', ''fdx-ls'', ''fdx-tree''],
     ca_forbiddenActions = [''write file'', ''edit file'', ''create file'', ''bash''],
     ca_ownedPaths = [],
     ca_modelPolicy = ''inherit'',
     ca_delegationPolicy = NoDelegation,
     ca_maxDelegationDepth = 0,
     ca_requiredInputs = [''project root directory or mapping prompt''],
     ca_expectedOutput = [''architecture_map'', ''entry_points'', ''dependencies''],
     ca_progressStates = [''explore'', ''map'', ''document''],
     ca_escalationConditions = [''codebase directory inaccessible'', ''unparseable structures''],
     ca_stopConditions = [''architecture.md generated'', ''exploration finished''],
     ca_successCriteria = [''codebase structural relationships mapped'', ''architecture document written'',
       ''no source modifications'']\<rparr>"

definition agent_backend_coder :: canonical_agent where
  "agent_backend_coder = \<lparr>
     ca_id = ''backend-coder'',
     ca_alias = None,
     ca_description = ''Implement backend features: API endpoints, services, data layer, business logic.'',
     ca_mode = Subagent,
     ca_allowedTaskTypes = [''implementation'', ''backend'', ''api'', ''database'', ''service'', ''bugfix''],
     ca_allowedTools = [''read'', ''write'', ''edit'', ''bash'', ''glob'', ''grep'', ''capture-lesson'',
       ''review-lessons'', ''fdx-force-error''],
     ca_forbiddenActions = [''modify frontend UI components'', ''change CI/CD without devops''],
     ca_ownedPaths = [],
     ca_modelPolicy = ''inherit'',
     ca_delegationPolicy = NoDelegation,
     ca_maxDelegationDepth = 0,
     ca_requiredInputs = [''PLAN.md step description'', ''relevant context files''],
     ca_expectedOutput = [''files_modified'', ''summary''],
     ca_progressStates = [''implement'', ''test'', ''verify''],
     ca_escalationConditions = [''architecture decision needed'', ''security-sensitive change without audit''],
     ca_stopConditions = [''implementation complete'', ''tests pass''],
     ca_successCriteria = [''code written per plan'', ''no regressions'', ''tests pass'']\<rparr>"

definition agent_frontend_coder :: canonical_agent where
  "agent_frontend_coder = \<lparr>
     ca_id = ''frontend-coder'',
     ca_alias = None,
     ca_description = ''Implement frontend features: UI components, client state, styling, rendering.'',
     ca_mode = Subagent,
     ca_allowedTaskTypes = [''implementation'', ''frontend'', ''ui'', ''component'', ''styling'', ''bugfix''],
     ca_allowedTools = [''read'', ''write'', ''edit'', ''bash'', ''glob'', ''grep'', ''capture-lesson'',
       ''review-lessons''],
     ca_forbiddenActions = [''modify backend API files'', ''change server configuration''],
     ca_ownedPaths = [],
     ca_modelPolicy = ''inherit'',
     ca_delegationPolicy = NoDelegation,
     ca_maxDelegationDepth = 0,
     ca_requiredInputs = [''PLAN.md step description'', ''design handoff for UI-heavy tasks''],
     ca_expectedOutput = [''files_modified'', ''summary''],
     ca_progressStates = [''implement'', ''test'', ''verify''],
     ca_escalationConditions = [''design missing for UI-heavy task'', ''component library unclear''],
     ca_stopConditions = [''implementation complete'', ''tests pass''],
     ca_successCriteria = [''components implemented per spec'', ''no regressions'', ''tests pass'']\<rparr>"

definition agent_devops :: canonical_agent where
  "agent_devops = \<lparr>
     ca_id = ''devops'',
     ca_alias = None,
     ca_description = ''Implement DevOps and infrastructure changes: CI/CD, deployment, infra scripts.'',
     ca_mode = Subagent,
     ca_allowedTaskTypes = [''implementation'', ''ci-cd'', ''deployment'', ''infrastructure'', ''operations''],
     ca_allowedTools = [''read'', ''write'', ''edit'', ''bash'', ''glob'', ''grep'', ''capture-lesson'',
       ''review-lessons''],
     ca_forbiddenActions = [''modify application source code'', ''deploy without approval''],
     ca_ownedPaths = [],
     ca_modelPolicy = ''inherit'',
     ca_delegationPolicy = NoDelegation,
     ca_maxDelegationDepth = 0,
     ca_requiredInputs = [''PLAN.md step description''],
     ca_expectedOutput = [''files_modified'', ''summary''],
     ca_progressStates = [''implement'', ''verify'', ''review''],
     ca_escalationConditions = [''production deployment requires approval'', ''destructive infra change''],
     ca_stopConditions = [''infra change complete'', ''reviewer approves''],
     ca_successCriteria = [''infrastructure code written per plan'', ''no prod deployment without approval'']\<rparr>"

definition agent_tester :: canonical_agent where
  "agent_tester = \<lparr>
     ca_id = ''tester'',
     ca_alias = None,
     ca_description = ''Write and run tests following TDD principles. Tests before implementation.'',
     ca_mode = Subagent,
     ca_allowedTaskTypes = [''testing'', ''tdd'', ''regression'', ''integration-test'', ''unit-test''],
     ca_allowedTools = [''read'', ''write'', ''edit'', ''bash'', ''glob'', ''grep'', ''capture-lesson'',
       ''review-lessons''],
     ca_forbiddenActions = [''delete failing tests to make suite pass'', ''implement application features'',
       ''skip TDD cycle''],
     ca_ownedPaths = [],
     ca_modelPolicy = ''inherit'',
     ca_delegationPolicy = NoDelegation,
     ca_maxDelegationDepth = 0,
     ca_requiredInputs = [''feature or step description'', ''relevant source files''],
     ca_expectedOutput = [''test_files_written'', ''tests_passing'', ''coverage_summary''],
     ca_progressStates = [''write_tests'', ''run_tests'', ''verify''],
     ca_escalationConditions = [''test infrastructure broken'', ''flaky tests blocking progress''],
     ca_stopConditions = [''all tests pass'', ''coverage meets threshold''],
     ca_successCriteria = [''tests written before implementation'', ''all new tests pass'']\<rparr>"

definition agent_reviewer :: canonical_agent where
  "agent_reviewer = \<lparr>
     ca_id = ''reviewer'',
     ca_alias = None,
     ca_description = ''Review code quality, security, and convention adherence. Read-only.'',
     ca_mode = Subagent,
     ca_allowedTaskTypes = [''review'', ''code-review'', ''quality-check''],
     ca_allowedTools = [''read'', ''glob'', ''grep''],
     ca_forbiddenActions = [''write or edit any files'', ''make code changes''],
     ca_ownedPaths = [],
     ca_modelPolicy = ''inherit'',
     ca_delegationPolicy = NoDelegation,
     ca_maxDelegationDepth = 0,
     ca_requiredInputs = [''files to review'', ''context of changes''],
     ca_expectedOutput = [''verdict'', ''issues'', ''recommendations''],
     ca_progressStates = [''inspect'', ''analyze'', ''report''],
     ca_escalationConditions = [''security issues found'', ''critical bugs found'', ''architectural violations''],
     ca_stopConditions = [''review complete'', ''verdict issued''],
     ca_successCriteria = [''structured review with severity levels'', ''no file modifications'']\<rparr>"

definition agent_security_auditor :: canonical_agent where
  "agent_security_auditor = \<lparr>
     ca_id = ''security-auditor'',
     ca_alias = None,
     ca_description = ''Security audit: OWASP Top 10, injection, auth vulnerabilities. Read-only.'',
     ca_mode = Subagent,
     ca_allowedTaskTypes = [''security-audit'', ''vulnerability-scan'', ''auth-review''],
     ca_allowedTools = [''read'', ''glob'', ''grep''],
     ca_forbiddenActions = [''write or edit files'', ''make changes to fix vulnerabilities''],
     ca_ownedPaths = [],
     ca_modelPolicy = ''inherit'',
     ca_delegationPolicy = NoDelegation,
     ca_maxDelegationDepth = 0,
     ca_requiredInputs = [''files to audit'', ''change context''],
     ca_expectedOutput = [''findings'', ''severity_breakdown'', ''recommendations''],
     ca_progressStates = [''audit'', ''analyze'', ''report''],
     ca_escalationConditions = [''CRITICAL vulnerability found'', ''auth bypass detected'',
       ''data exposure found''],
     ca_stopConditions = [''audit complete'', ''all findings documented''],
     ca_successCriteria = [''OWASP checklist evaluated'', ''findings documented with severity'',
       ''no file modifications'']\<rparr>"

definition agent_debug_specialist :: canonical_agent where
  "agent_debug_specialist = \<lparr>
     ca_id = ''debug-specialist'',
     ca_alias = None,
     ca_description =
       ''Diagnose bugs through systematic root cause analysis. Fix build, type, and dependency failures.'',
     ca_mode = Subagent,
     ca_allowedTaskTypes = [''debug'', ''bug-investigation'', ''root-cause-analysis'', ''build-fix'', ''type-fix''],
     ca_allowedTools = [''read'', ''write'', ''edit'', ''bash'', ''glob'', ''grep'', ''capture-lesson'',
       ''review-lessons''],
     ca_forbiddenActions = [''fix behavioral bugs (diagnose only)'', ''change unrelated files'', ''weaken types''],
     ca_ownedPaths = [],
     ca_modelPolicy = ''inherit'',
     ca_delegationPolicy = NoDelegation,
     ca_maxDelegationDepth = 0,
     ca_requiredInputs = [''bug report or build error output'',
       ''stack trace, reproduction steps, or affected files''],
     ca_expectedOutput = [''root_cause'', ''explanation'', ''recommended_fix''],
     ca_progressStates = [''reproduce'', ''analyze'', ''diagnose'', ''fix''],
     ca_escalationConditions = [''reproduction steps missing'', ''root cause outside listed files''],
     ca_stopConditions = [''root cause identified'', ''build green (tsc + build exit 0)''],
     ca_successCriteria = [''root cause traced to specific call site'', ''fixes applied with minimum changes'',
       ''no new type suppressions'']\<rparr>"

definition agent_browser_debugger :: canonical_agent where
  "agent_browser_debugger = \<lparr>
     ca_id = ''browser-debugger'',
     ca_alias = None,
     ca_description =
       ''Autonomous browser debugging specialist for reproducing, diagnosing, and repairing UI/console/network errors in web applications.'',
     ca_mode = Subagent,
     ca_allowedTaskTypes = [''browser-debug'', ''console-fix'', ''ui-repair'', ''frontend-debug'',
       ''network-debug'', ''react-debug''],
     ca_allowedTools = [''read'', ''write'', ''edit'', ''bash'', ''glob'', ''grep'', ''apply_patch''],
     ca_forbiddenActions = [''destructive-form-submit'', ''delete-account'', ''make-payments''],
     ca_ownedPaths = [],
     ca_modelPolicy = ''inherit'',
     ca_delegationPolicy = NoDelegation,
     ca_maxDelegationDepth = 0,
     ca_requiredInputs = [''url or dev server output'', ''symptom description or console bug report''],
     ca_expectedOutput = [''browser_evidence'', ''root_cause'', ''applied_patch'', ''verification_report''],
     ca_progressStates = [''inspect'', ''launch'', ''explore'', ''diagnose'', ''repair'', ''verify''],
     ca_escalationConditions = [''browser process crash'', ''unrepairable framework error''],
     ca_stopConditions = [''no actionable browser failures remaining'', ''max repair cycles reached''],
     ca_successCriteria = [''zero actionable console errors'', ''zero uncaught exceptions'',
       ''fresh browser verification passed'']\<rparr>"

definition CANONICAL_AGENTS :: "canonical_agent list" where
  "CANONICAL_AGENTS =
     [agent_heidi, agent_orchestrator, agent_planner, agent_architect, agent_researcher, agent_mapper,
      agent_backend_coder, agent_frontend_coder, agent_devops, agent_tester, agent_reviewer, agent_security_auditor,
      agent_debug_specialist, agent_browser_debugger]"

definition REGISTRY :: "(string \<times> canonical_agent) list" where
  "REGISTRY = foldl (\<lambda>m a. AList.update (ca_id a) a m) [] CANONICAL_AGENTS"

section \<open>Questions\<close>

definition getCanonicalAgent :: "string \<Rightarrow> canonical_agent option" where
  "getCanonicalAgent i = map_of REGISTRY i"

definition getAllCanonicalAgents :: "canonical_agent list" where
  "getAllCanonicalAgents = CANONICAL_AGENTS"

definition getAllAgentIds :: "string list" where
  "getAllAgentIds = map ca_id CANONICAL_AGENTS"

definition getPrimaryAgentIds :: "string list" where
  "getPrimaryAgentIds = map ca_id (filter (\<lambda>a. ca_mode a = Primary) CANONICAL_AGENTS)"

definition getSubagentIds :: "string list" where
  "getSubagentIds = map ca_id (filter (\<lambda>a. ca_mode a = Subagent) CANONICAL_AGENTS)"

definition getAgentCount :: nat where
  "getAgentCount = length CANONICAL_AGENTS"

definition getAllUsedTools :: "string list" where
  "getAllUsedTools = foldl (\<lambda>tools a. foldl (\<lambda>ts t. js_add t ts) tools (ca_allowedTools a)) [] CANONICAL_AGENTS"

definition isToolUsedByAnyAgent :: "string \<Rightarrow> bool" where
  "isToolUsedByAnyAgent t = list_ex (\<lambda>a. List.member (ca_allowedTools a) t) CANONICAL_AGENTS"

definition canAgentDelegate :: "string \<Rightarrow> bool" where
  "canAgentDelegate i =
     (case map_of REGISTRY i of None \<Rightarrow> False | Some a \<Rightarrow> ca_delegationPolicy a = JustifiedOnly)"

definition isSpecialistAgent :: "string \<Rightarrow> bool" where
  "isSpecialistAgent i =
     (case map_of REGISTRY i of None \<Rightarrow> False | Some a \<Rightarrow> ca_delegationPolicy a = NoDelegation)"

record delegation_answer =
  da_allowed :: bool
  da_reason :: "string option"

definition validateDelegation :: "string \<Rightarrow> int \<Rightarrow> delegation_answer" where
  "validateDelegation i depth =
     (if \<not> canAgentDelegate i then
        \<lparr>da_allowed = False,
         da_reason = Some (''Agent '' @ [char_of (34 :: nat)] @ i @ [char_of (34 :: nat)]
                           @ '' cannot delegate. Only Heidi may delegate.'')\<rparr>
      else if 1 \<le> depth then
        \<lparr>da_allowed = False, da_reason = Some ''Maximum delegation depth of 1 exceeded.''\<rparr>
      else \<lparr>da_allowed = True, da_reason = None\<rparr>)"

definition isHeidiAgent :: "string option \<Rightarrow> bool" where
  "isHeidiAgent agentId =
     (case agentId of None \<Rightarrow> False
      | Some s \<Rightarrow>
          if s = [] then False
          else let canonical = trim (lower_case s) in
            canonical = ''heidi'' \<or> canonical = ''orchestrator''
            \<or> (case getCanonicalAgent canonical of None \<Rightarrow> False
               | Some e \<Rightarrow> ca_id e = ''heidi'' \<or> ca_alias e = Some ''heidi''))"

section \<open>Lemmas\<close>

lemmas agent_defs = agent_heidi_def agent_orchestrator_def agent_planner_def agent_architect_def
  agent_researcher_def agent_mapper_def agent_backend_coder_def agent_frontend_coder_def agent_devops_def
  agent_tester_def agent_reviewer_def agent_security_auditor_def agent_debug_specialist_def
  agent_browser_debugger_def

lemma agent_id [simp]:
  "ca_id agent_heidi = ''heidi''"
  "ca_id agent_orchestrator = ''orchestrator''"
  "ca_id agent_planner = ''planner''"
  "ca_id agent_architect = ''architect''"
  "ca_id agent_researcher = ''researcher''"
  "ca_id agent_mapper = ''mapper''"
  "ca_id agent_backend_coder = ''backend-coder''"
  "ca_id agent_frontend_coder = ''frontend-coder''"
  "ca_id agent_devops = ''devops''"
  "ca_id agent_tester = ''tester''"
  "ca_id agent_reviewer = ''reviewer''"
  "ca_id agent_security_auditor = ''security-auditor''"
  "ca_id agent_debug_specialist = ''debug-specialist''"
  "ca_id agent_browser_debugger = ''browser-debugger''"
  by (simp_all add: agent_defs)

lemma agent_alias [simp]:
  "ca_alias agent_heidi = None"
  "ca_alias agent_orchestrator = Some ''heidi''"
  "ca_alias agent_planner = None"
  "ca_alias agent_architect = None"
  "ca_alias agent_researcher = None"
  "ca_alias agent_mapper = None"
  "ca_alias agent_backend_coder = None"
  "ca_alias agent_frontend_coder = None"
  "ca_alias agent_devops = None"
  "ca_alias agent_tester = None"
  "ca_alias agent_reviewer = None"
  "ca_alias agent_security_auditor = None"
  "ca_alias agent_debug_specialist = None"
  "ca_alias agent_browser_debugger = None"
  by (simp_all add: agent_defs)

lemma agent_modes [simp]:
  "ca_mode agent_heidi = Primary"
  "ca_mode agent_orchestrator = Primary"
  "ca_mode agent_planner = Subagent"
  "ca_mode agent_architect = Subagent"
  "ca_mode agent_researcher = Subagent"
  "ca_mode agent_mapper = Subagent"
  "ca_mode agent_backend_coder = Subagent"
  "ca_mode agent_frontend_coder = Subagent"
  "ca_mode agent_devops = Subagent"
  "ca_mode agent_tester = Subagent"
  "ca_mode agent_reviewer = Subagent"
  "ca_mode agent_security_auditor = Subagent"
  "ca_mode agent_debug_specialist = Subagent"
  "ca_mode agent_browser_debugger = Subagent"
  by (simp_all add: agent_defs)

lemma agent_modelPolicy [simp]:
  "ca_modelPolicy agent_heidi = ''inherit''"
  "ca_modelPolicy agent_orchestrator = ''inherit''"
  "ca_modelPolicy agent_planner = ''inherit''"
  "ca_modelPolicy agent_architect = ''inherit''"
  "ca_modelPolicy agent_researcher = ''inherit''"
  "ca_modelPolicy agent_mapper = ''inherit''"
  "ca_modelPolicy agent_backend_coder = ''inherit''"
  "ca_modelPolicy agent_frontend_coder = ''inherit''"
  "ca_modelPolicy agent_devops = ''inherit''"
  "ca_modelPolicy agent_tester = ''inherit''"
  "ca_modelPolicy agent_reviewer = ''inherit''"
  "ca_modelPolicy agent_security_auditor = ''inherit''"
  "ca_modelPolicy agent_debug_specialist = ''inherit''"
  "ca_modelPolicy agent_browser_debugger = ''inherit''"
  by (simp_all add: agent_defs)

lemma agent_delegationPolicy [simp]:
  "ca_delegationPolicy agent_heidi = JustifiedOnly"
  "ca_delegationPolicy agent_orchestrator = JustifiedOnly"
  "ca_delegationPolicy agent_planner = NoDelegation"
  "ca_delegationPolicy agent_architect = NoDelegation"
  "ca_delegationPolicy agent_researcher = NoDelegation"
  "ca_delegationPolicy agent_mapper = NoDelegation"
  "ca_delegationPolicy agent_backend_coder = NoDelegation"
  "ca_delegationPolicy agent_frontend_coder = NoDelegation"
  "ca_delegationPolicy agent_devops = NoDelegation"
  "ca_delegationPolicy agent_tester = NoDelegation"
  "ca_delegationPolicy agent_reviewer = NoDelegation"
  "ca_delegationPolicy agent_security_auditor = NoDelegation"
  "ca_delegationPolicy agent_debug_specialist = NoDelegation"
  "ca_delegationPolicy agent_browser_debugger = NoDelegation"
  by (simp_all add: agent_defs)

lemma agent_maxDelegationDepth [simp]:
  "ca_maxDelegationDepth agent_heidi = 1"
  "ca_maxDelegationDepth agent_orchestrator = 1"
  "ca_maxDelegationDepth agent_planner = 0"
  "ca_maxDelegationDepth agent_architect = 0"
  "ca_maxDelegationDepth agent_researcher = 0"
  "ca_maxDelegationDepth agent_mapper = 0"
  "ca_maxDelegationDepth agent_backend_coder = 0"
  "ca_maxDelegationDepth agent_frontend_coder = 0"
  "ca_maxDelegationDepth agent_devops = 0"
  "ca_maxDelegationDepth agent_tester = 0"
  "ca_maxDelegationDepth agent_reviewer = 0"
  "ca_maxDelegationDepth agent_security_auditor = 0"
  "ca_maxDelegationDepth agent_debug_specialist = 0"
  "ca_maxDelegationDepth agent_browser_debugger = 0"
  by (simp_all add: agent_defs)

text \<open>The identities of the entries differ, so the map holds every entry under its own.\<close>

lemma agent_ids:
  "getAllAgentIds =
     [''heidi'', ''orchestrator'', ''planner'', ''architect'', ''researcher'', ''mapper'', ''backend-coder'',
      ''frontend-coder'', ''devops'', ''tester'', ''reviewer'', ''security-auditor'', ''debug-specialist'',
      ''browser-debugger'']"
  by (simp add: getAllAgentIds_def CANONICAL_AGENTS_def)

lemma distinct_agent_ids: "distinct (map ca_id CANONICAL_AGENTS)"
  unfolding getAllAgentIds_def [symmetric] agent_ids by simp

lemma lookup_updates:
  "distinct (map f xs) \<Longrightarrow>
     map_of (foldl (\<lambda>m a. AList.update (f a) a m) m xs) i
       = (case List.find (\<lambda>a. f a = i) xs of None \<Rightarrow> map_of m i | Some a \<Rightarrow> Some a)"
proof (induction xs arbitrary: m)
  case (Cons a xs)
  have "f a \<notin> f ` set xs" using Cons.prems by simp
  then have "List.find (\<lambda>b. f b = f a) xs = None" unfolding find_None_iff_all by (metis imageI)
  with Cons show ?case by (auto simp: update_conv' split: option.splits)
qed simp

lemma registry_lookup: "getCanonicalAgent i = Some a \<longleftrightarrow> a \<in> set CANONICAL_AGENTS \<and> ca_id a = i"
proof -
  have "getCanonicalAgent i = List.find (\<lambda>a. ca_id a = i) CANONICAL_AGENTS"
    unfolding getCanonicalAgent_def REGISTRY_def lookup_updates [OF distinct_agent_ids]
    by (simp split: option.splits)
  then show ?thesis using find_distinct_key [OF distinct_agent_ids] by auto
qed

lemma registry_entries [simp]:
  "getCanonicalAgent ''heidi'' = Some agent_heidi"
  "getCanonicalAgent ''orchestrator'' = Some agent_orchestrator"
  "getCanonicalAgent ''architect'' = Some agent_architect"
  "getCanonicalAgent ''researcher'' = Some agent_researcher"
  "getCanonicalAgent ''mapper'' = Some agent_mapper"
  "getCanonicalAgent ''backend-coder'' = Some agent_backend_coder"
  "getCanonicalAgent ''frontend-coder'' = Some agent_frontend_coder"
  "getCanonicalAgent ''devops'' = Some agent_devops"
  "getCanonicalAgent ''tester'' = Some agent_tester"
  "getCanonicalAgent ''reviewer'' = Some agent_reviewer"
  "getCanonicalAgent ''security-auditor'' = Some agent_security_auditor"
  "getCanonicalAgent ''debug-specialist'' = Some agent_debug_specialist"
  unfolding registry_lookup by (simp_all add: CANONICAL_AGENTS_def)

text \<open>A subagent is a leaf: it inherits the model and cannot delegate, to any depth.\<close>

lemma subagent_leaf:
  assumes "a \<in> set CANONICAL_AGENTS"
  shows "ca_mode a = Subagent \<longleftrightarrow> ca_delegationPolicy a = NoDelegation"
    and "ca_mode a = Subagent \<longleftrightarrow> ca_maxDelegationDepth a = 0"
    and "ca_modelPolicy a = ''inherit''"
  using assms by (auto simp: CANONICAL_AGENTS_def)

lemma heidi_ids:
  "map ca_id (filter (\<lambda>a. ca_delegationPolicy a = JustifiedOnly) CANONICAL_AGENTS) = [''heidi'', ''orchestrator'']"
  "map ca_id (filter (\<lambda>a. ca_id a = ''heidi'' \<or> ca_alias a = Some ''heidi'') CANONICAL_AGENTS) = [''heidi'', ''orchestrator'']"
  by (simp_all add: CANONICAL_AGENTS_def)

lemma delegators: "canAgentDelegate i \<longleftrightarrow> i \<in> {''heidi'', ''orchestrator''}"
proof -
  have "canAgentDelegate i \<longleftrightarrow> (\<exists>a. getCanonicalAgent i = Some a \<and> ca_delegationPolicy a = JustifiedOnly)"
    by (auto simp: canAgentDelegate_def getCanonicalAgent_def split: option.splits)
  also have "\<dots> \<longleftrightarrow> i \<in> set (map ca_id (filter (\<lambda>a. ca_delegationPolicy a = JustifiedOnly) CANONICAL_AGENTS))"
    unfolding registry_lookup by auto
  also have "\<dots> \<longleftrightarrow> i \<in> {''heidi'', ''orchestrator''}" unfolding heidi_ids by simp
  finally show ?thesis .
qed

lemma specialists_known: "isSpecialistAgent i \<longleftrightarrow> i \<in> set getSubagentIds"
proof -
  have "isSpecialistAgent i \<longleftrightarrow> (\<exists>a. getCanonicalAgent i = Some a \<and> ca_delegationPolicy a = NoDelegation)"
    by (auto simp: isSpecialistAgent_def getCanonicalAgent_def split: option.splits)
  also have "\<dots> \<longleftrightarrow> (\<exists>a \<in> set CANONICAL_AGENTS. ca_id a = i \<and> ca_mode a = Subagent)"
    unfolding registry_lookup by (auto simp: subagent_leaf(1))
  also have "\<dots> \<longleftrightarrow> i \<in> set getSubagentIds" by (auto simp: getSubagentIds_def)
  finally show ?thesis .
qed

lemma heidi_is: "isHeidiAgent (Some s) \<longleftrightarrow> s \<noteq> [] \<and> trim (lower_case s) \<in> {''heidi'', ''orchestrator''}"
proof -
  have "getCanonicalAgent i = Some e \<Longrightarrow> ca_id e = ''heidi'' \<or> ca_alias e = Some ''heidi''
      \<Longrightarrow> i \<in> set (map ca_id (filter (\<lambda>a. ca_id a = ''heidi'' \<or> ca_alias a = Some ''heidi'') CANONICAL_AGENTS))" for i e
    unfolding registry_lookup by auto
  then have "getCanonicalAgent i = Some e \<Longrightarrow> ca_id e = ''heidi'' \<or> ca_alias e = Some ''heidi''
      \<Longrightarrow> i \<in> {''heidi'', ''orchestrator''}" for i e
    unfolding heidi_ids by simp
  then show ?thesis by (auto simp: isHeidiAgent_def Let_def split: option.splits)
qed

lemma used_tools: "set getAllUsedTools = {t. isToolUsedByAnyAgent t}"
proof -
  have inner: "set (foldl (\<lambda>ts t. js_add t ts) ts us) = set ts \<union> set us" for ts us :: "string list"
    by (induction us arbitrary: ts) auto
  have "set (foldl (\<lambda>tools a. foldl (\<lambda>ts t. js_add t ts) tools (ca_allowedTools a)) ts xs)
      = set ts \<union> (\<Union>a \<in> set xs. set (ca_allowedTools a))" for ts and xs :: "canonical_agent list"
    by (induction xs arbitrary: ts) (auto simp: inner)
  then show ?thesis
    by (auto simp: getAllUsedTools_def isToolUsedByAnyAgent_def list_ex_iff)
qed

text \<open>
  Delegation is one level deep: only the primary agent may delegate, and an agent to which it delegated
  may not.
\<close>

lemma delegation_one_level:
  "da_allowed (validateDelegation i d) \<longleftrightarrow> i \<in> {''heidi'', ''orchestrator''} \<and> d < 1"
  "isSpecialistAgent i \<Longrightarrow> \<not> da_allowed (validateDelegation i d)"
proof -
  show "da_allowed (validateDelegation i d) \<longleftrightarrow> i \<in> {''heidi'', ''orchestrator''} \<and> d < 1"
    unfolding validateDelegation_def delegators by auto
  assume "isSpecialistAgent i"
  then have "\<not> canAgentDelegate i"
    unfolding isSpecialistAgent_def canAgentDelegate_def by (auto split: option.splits)
  then show "\<not> da_allowed (validateDelegation i d)" by (simp add: validateDelegation_def)
qed

end
