(* ===== verification/Fast_Router.thy ===== *)
theory Fast_Router
  imports Code_Mode Canonical_Registry "HOL-Library.Word"
begin

unbundle bit_operations_syntax

text \<open>
  The router (\<open>services/heidi-fast-router.ts\<close>): the classification of a prompt into an execution class, the
  domains it touches and the agents for them.

  A confidence is in hundredths. The hints are one record whose fields are undefined where the caller
  gives none. An em dash in a reason is written as two hyphens.
\<close>

section \<open>Decisions\<close>

datatype execution_class = FAST_DIRECT | SPECIALIST | PARALLEL_SPECIALISTS | STANDARD | DEEP

datatype specialist_domain = DEBUG | SECURITY | UI | BACKEND | DEVOPS | RELEASE | REVIEW | ARCHITECTURE

datatype execution_mode = DIRECT | SINGLE_SPECIALIST | MULTI_SPECIALIST

fun executionModeForClass :: "execution_class \<Rightarrow> execution_mode" where
  "executionModeForClass SPECIALIST = SINGLE_SPECIALIST"
| "executionModeForClass PARALLEL_SPECIALISTS = MULTI_SPECIALIST"
| "executionModeForClass FAST_DIRECT = DIRECT"
| "executionModeForClass STANDARD = DIRECT"
| "executionModeForClass DEEP = MULTI_SPECIALIST"

record router_decision =
  fr_executionClass :: execution_class
  fr_executionMode :: "execution_mode option"
  fr_specialists :: "specialist_domain list option"
  fr_suggestedAgents :: "string list option"
  fr_reason :: string
  fr_confidence :: nat
  fr_forcedByExplicitSignal :: bool
  fr_reasonCode :: string
  fr_mcpCompositionCandidate :: "bool option"
  fr_codeModeRejectedReason :: "code_mode_rejection option"
  fr_codeModeTelemetry :: "code_mode_telemetry option"

record router_hints =
  fh_estimatedFileCount :: "int option"
  fh_hasExplicitDomainSignal :: "bool option"
  fh_isResuming :: "bool option"

definition no_hints :: router_hints where
  "no_hints = \<lparr>fh_estimatedFileCount = None, fh_hasExplicitDomainSignal = None, fh_isResuming = None\<rparr>"

fun domain_name :: "specialist_domain \<Rightarrow> string" where
  "domain_name DEBUG = ''DEBUG''"
| "domain_name SECURITY = ''SECURITY''"
| "domain_name UI = ''UI''"
| "domain_name BACKEND = ''BACKEND''"
| "domain_name DEVOPS = ''DEVOPS''"
| "domain_name RELEASE = ''RELEASE''"
| "domain_name REVIEW = ''REVIEW''"
| "domain_name ARCHITECTURE = ''ARCHITECTURE''"

section \<open>Patterns\<close>

definition SIMPLE_DIRECT_QUERY_PATTERNS :: "regex list" where
  "SIMPLE_DIRECT_QUERY_PATTERNS =
     [seq' [RWord, oneof [''what'', ''which'', ''show'', ''tell me'', ''explain'', ''read''],
         RWord, RUpto 180 RAny, RWord, oneof [''version'', ''configured'', ''configuration'', ''setting'',
         ''function'', ''file'', ''value'', ''package''], RWord],
      seq' [RWord, oneof [''read'', ''inspect''], RWord, RUpto 120 RAny, RWord, oneof [''explain'', ''summarize'',
         ''describe''], RWord]]"

definition FAST_DIRECT_PATTERNS :: "regex list" where
  "FAST_DIRECT_PATTERNS =
     [seq' [RLit ''fix '', ROpt (RLit ''a ''), RLit ''typo''],
      seq' [RLit ''rename '', ROpt (RLit ''the ''), oneof [''variable'', ''function'', ''method'', ''class'',
         ''type'', ''interface'', ''constant'', ''file'']],
      seq' [RLit ''change '', ROpt (RLit ''the ''), RLit ''version '', oneof [''number'', ''bump'']],
      RLit ''bump version'',
      seq' [RLit ''update '', ROpt (RLit ''the ''), oneof [''changelog'', ''readme'', ''comment'']],
      seq' [RLit ''add '', ROpt (RLit ''a ''), oneof [''comment'', ''docstring'', ''jsdoc'']],
      seq' [RLit ''fix '', ROpt (RLit ''the ''), oneof [''import'', ''export'']],
      seq' [RLit ''remove unused '', oneof [''import'', ''variable'', ''function'', ''constant'']],
      seq' [RLit ''small '', oneof [''config'', ''configuration''], RLit '' '', oneof [''change'', ''update'', ''edit'']],
      seq' [RLit ''single'', RAny, RLit ''file '', oneof [''bug'', ''fix'', ''edit'', ''change'']],
      seq' [RLit ''one'', RAny, RLit ''file '', oneof [''bug'', ''fix'', ''edit'', ''change'']],
      seq' [RLit ''fix '', ROpt (RLit ''this ''), RLit ''one '', oneof [''line'', ''function'', ''error'', ''bug'']],
      seq' [RLit ''minor '', oneof [''tweak'', ''fix'', ''edit'', ''adjustment'', ''change'']],
      seq' [RLit ''trivial '', oneof [''fix'', ''change'', ''edit'']],
      seq' [RLit ''quick '', oneof [''fix'', ''edit'', ''change'']],
      seq' [RLit ''update '', ROpt (RLit ''the ''), oneof [''config'', ''configuration''],
         RLit '' '', oneof [''value'', ''setting'', ''option'']]]"

definition SECURITY_PATTERNS :: "regex list" where
  "SECURITY_PATTERNS =
     [RLit ''security audit'',
      RLit ''security review'',
      seq' [RLit ''vulnerability '', oneof [''scan'', ''audit'', ''assessment'']],
      RLit ''threat model'',
      RLit ''penetration test'',
      RLit ''pentest'',
      seq' [RLit ''auth'', oneof [''entication'', ''orization''], RLit '' '', oneof [''review'', ''audit'', ''check'']],
      seq' [RLit ''check for '', oneof [''secrets'', ''credentials'', ''api keys'', ''sensitive data'']],
      RLit ''owasp'',
      RLit ''cve'',
      RLit ''xss'',
      RLit ''sql injection'',
      RLit ''injection attack'',
      seq' [RLit ''audit '', ROpt (RLit ''the ''), oneof [''security'', ''permissions'', ''access'']]]"

definition DEBUG_PATTERNS :: "regex list" where
  "DEBUG_PATTERNS =
     [RLit ''failing test'',
      seq' [RLit ''test'', ROpt (RLit ''s''), RLit '' '', oneof [''fail'', ''failing'', ''broken'', ''red'']],
      RLit ''root cause'',
      seq' [RLit ''debug '', oneof [''this'', ''the'', ''why'']],
      seq' [RLit ''why '', oneof [''is'', ''does'', ''did''], RLit '' '', oneof [''this'', ''it'', ''the test'']],
      seq' [RLit ''investigate '', ROpt (RLit ''the ''), oneof [''error'', ''failure'', ''crash'', ''bug'']],
      RLit ''diagnose'',
      seq' [RLit ''exception '', oneof [''trace'', ''stack'']],
      RLit ''stack trace'',
      seq' [RLit ''reproduce '', ROpt (RLit ''the ''), oneof [''bug'', ''error'', ''failure'']],
      RLit ''cannot find module'',
      RLit ''type error'',
      seq' [RLit ''runtime '', oneof [''error'', ''exception'', ''crash'']]]"

definition UI_PATTERNS :: "regex list" where
  "UI_PATTERNS =
     [seq' [RWord, RLit ''ui'', RWord, RStar RAny, oneof [''component'', ''screen'', ''page'', ''layout'', ''design'']],
      seq' [RLit ''frontend'', RStar RAny, oneof [''build'', ''create'', ''add'', ''fix'', ''update'', ''component'']],
      RLit ''react component'',
      RLit ''vue component'',
      RLit ''svelte component'',
      seq' [RLit ''css'', RStar RAny, oneof [''layout'', ''styling'', ''responsive'', ''animation'']],
      RLit ''landing page'',
      seq' [RLit ''dashboard '', oneof [''ui'', ''layout'', ''design'']],
      RLit ''design system'',
      RLit ''tailwind'',
      RLit ''shadcn'',
      RLit ''responsive design'',
      RLit ''user interface'',
      RLit ''app screen'',
      seq' [RWord, oneof [''react'', ''vue'', ''svelte'', ''angular'', ''next'', ''nuxt''],
         RWord, RUpto 40 RAny, RWord, oneof [''ui'', ''frontend'', ''interface'', ''component'', ''screen''], RWord],
      seq' [RStart, RStar RSpace, oneof [''build'', ''create'', ''implement'', ''add'', ''fix'', ''update''],
         plus RSpace, ROpt (seq' [RLit ''the'', plus RSpace]), oneof [''react'', ''vue'', ''svelte''],
         plus RSpace, oneof [''ui'', ''frontend'']]]"

definition BACKEND_PATTERNS :: "regex list" where
  "BACKEND_PATTERNS =
     [seq' [RWord, RLit ''backend'', RWord],
      seq' [RLit ''server'', RAny, RLit ''side''],
      seq' [RLit ''api '', oneof [''endpoint'', ''route'', ''implementation'', ''server'']],
      seq' [RLit ''rest '', oneof [''api'', ''endpoint'', ''service'']],
      seq' [RLit ''graphql '', oneof [''resolver'', ''schema'', ''api'']],
      seq' [RLit ''database '', oneof [''schema'', ''model'', ''migration'', ''query'', ''repository'', ''store'']],
      RLit ''business logic'',
      RLit ''service layer'',
      RLit ''microservice'',
      seq' [oneof [''implement'', ''build'', ''add''], RLit '' '', ROpt (RLit ''the ''), oneof [''api'',
         ''endpoint'', ''route'', ''service'', ''handler'', ''middleware'', ''controller'']],
      seq' [oneof [''fix'', ''update''], RLit '' '', ROpt (RLit ''the ''), oneof [''api'', ''endpoint'', ''route'',
         ''service'', ''handler'', ''middleware'', ''controller'']]]"

definition DEVOPS_PATTERNS :: "regex list" where
  "DEVOPS_PATTERNS =
     [RLit ''ci/cd'',
      seq' [RLit ''deploy'', oneof [''ment'', ''ing'']],
      RLit ''kubernetes'',
      seq' [RLit ''docker'', ROpt (RLit ''file'')],
      RLit ''infrastructure'',
      RLit ''terraform'',
      RLit ''github actions'',
      seq' [RLit ''workflow'', RAny, RLit ''yml''],
      seq' [RLit ''pipeline '', oneof [''config'', ''setup'', ''update'']],
      RLit ''helm chart'',
      RLit ''container'']"

definition RELEASE_PATTERNS :: "regex list" where
  "RELEASE_PATTERNS =
     [RLit ''release'',
      seq' [RLit ''publish '', oneof [''to npm'', ''package'']],
      RLit ''npm publish'',
      seq' [RLit ''changelog '', oneof [''update'', ''prepare'', ''generate'']],
      seq' [RLit ''version bump '', oneof [''for release'', ''preparation'']],
      seq' [RLit ''prepare '', ROpt (oneof [''a '', ''the '']), RLit ''release''],
      seq' [RLit ''cut '', ROpt (RLit ''a ''), RLit ''release''],
      seq' [RLit ''release '', oneof [''candidate'', ''process'', ''checklist'']],
      seq' [RLit ''chore: '', oneof [''bump'', ''release'']]]"

definition REVIEW_PATTERNS :: "regex list" where
  "REVIEW_PATTERNS =
     [seq' [RLit ''review '', ROpt (oneof [''the '', ''this '', ''my '', ''our '']), oneof [''code'', ''changes'',
         ''pr'', ''pull request'', ''diff'', ''implementation'']],
      RLit ''code review'',
      RLit ''review request'',
      seq' [RLit ''review '', ROpt (oneof [''and '', ''then '']), oneof [''approve'', ''comment'', ''merge'']],
      seq' [RLit ''look over '', ROpt (oneof [''my '', ''the '', ''this '']), oneof [''code'', ''changes'', ''diff'']]]"

definition ARCHITECTURE_PATTERNS :: "regex list" where
  "ARCHITECTURE_PATTERNS =
     [seq' [RLit ''architecture '', oneof [''investigation'', ''exploration'', ''review'', ''design'', ''analysis'']],
      seq' [RLit ''how '', oneof [''does'', ''do''], RLit '' '', ROpt (oneof [''the '', ''our '',
         ''these '']), RStar RAny, RLit '' fit together''],
      RLit ''system design'',
      seq' [RLit ''design '', ROpt (oneof [''the '', ''our '']), RLit ''architecture''],
      seq' [RLit ''architectural '', oneof [''analysis'', ''assessment'', ''design'']],
      seq' [RLit ''component '', oneof [''diagram'', ''boundaries'', ''contract'']],
      seq' [RLit ''technical '', oneof [''design'', ''architecture''], RLit '' '', oneof [''document'', ''doc'',
         ''proposal'']]]"

definition PARALLEL_SIGNALS :: "regex list" where
  "PARALLEL_SIGNALS =
     [seq' [RLit ''frontend'', RUpto 40 RAny, oneof [''and'', ''&'', ''plus'', ''+''], RUpto 40 RAny, RLit ''backend''],
      seq' [RLit ''backend'', RUpto 40 RAny, oneof [''and'', ''&'', ''plus'', ''+''], RUpto 40 RAny, RLit ''frontend''],
      seq' [RLit ''api'', RUpto 30 RAny, oneof [''and'', ''&'', ''plus'', ''+''], RUpto 30 RAny, oneof [''ui'',
         ''client'', ''frontend'']],
      seq' [oneof [''ui'', ''client'', ''frontend''], RUpto 30 RAny, oneof [''and'', ''&'', ''plus'', ''+''],
         RUpto 30 RAny, oneof [''api'', ''backend'', ''server'']],
      RLit ''simultaneously'',
      RLit ''in parallel'',
      RLit ''at the same time'',
      seq' [RLit ''independent'', ROpt (RLit ''ly'')],
      seq' [RLit ''two '', oneof [''separate'', ''different'', ''independent''], RLit '' '', oneof [''tasks'',
         ''workstreams'', ''changes'']]]"

definition DEEP_PATTERNS :: "regex list" where
  "DEEP_PATTERNS =
     [seq' [RLit ''architecture '', oneof [''migration'', ''redesign'', ''overhaul'']],
      seq' [RLit ''breaking '', oneof [''api'', ''change'', ''migration'']],
      seq' [RLit ''full '', oneof [''refactor'', ''rewrite'', ''migration'']],
      seq' [RLit ''migrate '', oneof [''from'', ''to''], RLit '' '', ROpt (RLit ''a ''), RLit ''new''],
      seq' [RLit ''migrate'', RUpto 80 RAny, oneof [''application'', ''system'', ''architecture'', ''framework'']],
      seq' [RLit ''system'', RAny, RLit ''wide '', oneof [''change'', ''refactor'', ''redesign'']],
      seq' [RLit ''major '', oneof [''refactor'', ''redesign'', ''overhaul'']],
      seq' [RLit ''phase '', plus RDigit, RLit '' of''],
      seq' [RLit ''release '', oneof [''qualification'', ''gate'']]]"

definition EXPLICIT_DIRECT_PATTERNS :: "regex list" where
  "EXPLICIT_DIRECT_PATTERNS =
     [seq' [RWord, oneof [''do'', ''handle'', ''perform'', ''solve''],
         RLit '' '', ROpt (RLit ''this ''), oneof [''yourself'', ''directly''], RWord],
      seq' [RWord, oneof [''do not'', (''don'' @ [CHR 0x27] @ ''t''), ''without''],
         RLit '' '', alts [RLit ''delegate'', RLit ''delegating'', seq' [RLit ''use '', ROpt (seq' [RLit ''a'', ROpt (RLit ''n''), RLit '' '']), oneof [''agent'', ''specialist'', ''subagent'']]], RWord]]"

definition EXPLICIT_SINGLE_SPECIALIST_PATTERNS :: "regex list" where
  "EXPLICIT_SINGLE_SPECIALIST_PATTERNS =
     [seq' [RWord, RLit ''delegate '', ROpt (oneof [''this'', ''it'', ''the task'']), RWord],
      seq' [RWord, RLit ''use '', ROpt (seq' [RLit ''a'', ROpt (RLit ''n''), RLit '' '']), oneof [''specialist'',
         ''subagent''], RWord]]"

definition EXPLICIT_MULTI_SPECIALIST_PATTERNS :: "regex list" where
  "EXPLICIT_MULTI_SPECIALIST_PATTERNS =
     [seq' [RWord, oneof [''use'', ''delegate to'', ''spawn''], RLit '' '', oneof [''multiple'', ''several'',
         ''two'', ''three''], RLit '' '', oneof [''agents'', ''specialists'', ''subagents''], RWord],
      seq' [RWord, RLit ''multiple'', ROf ''- '', RLit ''agent'', RWord]]"

definition STANDARD_PATTERNS :: "regex list" where
  "STANDARD_PATTERNS =
     [seq' [RLit ''add '', ROpt (RLit ''a ''), ROpt (RLit ''new ''), oneof [''feature'', ''endpoint'', ''route'',
         ''module'', ''service'', ''command'']],
      RLit ''implement'',
      seq' [RLit ''create '', ROpt (RLit ''a ''), ROpt (RLit ''new ''), oneof [''class'', ''module'', ''service'',
         ''api'', ''interface'']],
      RLit ''refactor'',
      seq' [RLit ''multi'', RAny, RLit ''file '', oneof [''change'', ''edit'', ''update'', ''refactor'']],
      RLit ''several files'',
      seq' [RLit ''across '', oneof [''multiple'', ''several'', ''many''], RLit '' files'']]"

definition MCP_COMPOSITION_EXTERNAL_PATTERNS :: "regex list" where
  "MCP_COMPOSITION_EXTERNAL_PATTERNS =
     [RLit ''github'',
      RLit ''issue'',
      RLit ''pull request'',
      seq' [RWord, RLit ''pr'', RWord],
      RLit ''mcp'',
      RLit ''context7'',
      RLit ''remote api'']"

definition MCP_COMPOSITION_ACTION_PATTERNS :: "regex list" where
  "MCP_COMPOSITION_ACTION_PATTERNS =
     [RLit ''aggregate'',
      RLit ''combine'',
      RLit ''compare'',
      RLit ''correlate'',
      RLit ''summarize across'',
      seq' [RLit ''fetch'', RStar RAny, RLit ''multiple''],
      seq' [RLit ''list'', RStar RAny, RLit ''multiple''],
      seq' [RLit ''search'', RStar RAny, RLit ''across''],
      RLit ''multiple'',
      RLit ''several'',
      RLit ''all'']"


section \<open>Classification\<close>

definition detectSpecialistDomains :: "string \<Rightarrow> specialist_domain list" where
  "detectSpecialistDomains input =
     (if matchesAny input SECURITY_PATTERNS then [SECURITY] else [])
     @ (if matchesAny input DEBUG_PATTERNS
           \<or> regex_test (seq' [RWord, oneof [''race'', ''deadlock'', ''intermittent''], RWord]) input then [DEBUG] else [])
     @ (if matchesAny input UI_PATTERNS
           \<or> regex_test (seq' [RWord, oneof [''ui'', ''frontend'', ''client''], RWord]) input then [UI] else [])
     @ (if matchesAny input BACKEND_PATTERNS
           \<or> regex_test (seq' [RWord, oneof [''api'', ''database'', ''db'', ''server''], RWord]) input then [BACKEND] else [])
     @ (if matchesAny input DEVOPS_PATTERNS then [DEVOPS] else [])
     @ (if matchesAny input RELEASE_PATTERNS then [RELEASE] else [])
     @ (if matchesAny input REVIEW_PATTERNS then [REVIEW] else [])
     @ (if matchesAny input ARCHITECTURE_PATTERNS then [ARCHITECTURE] else [])"

definition classifySpecialistDomain :: "string \<Rightarrow> specialist_domain option" where
  "classifySpecialistDomain input =
     (case detectSpecialistDomains input of [] \<Rightarrow> None | d # ds \<Rightarrow> Some d)"

definition explicitlyRequestedMode :: "string \<Rightarrow> execution_mode option" where
  "explicitlyRequestedMode input =
     (if matchesAny input EXPLICIT_DIRECT_PATTERNS then Some DIRECT
      else if matchesAny input EXPLICIT_MULTI_SPECIALIST_PATTERNS then Some MULTI_SPECIALIST
      else if matchesAny input EXPLICIT_SINGLE_SPECIALIST_PATTERNS then Some SINGLE_SPECIALIST
      else None)"

fun SPECIALIST_AGENT_MAP :: "specialist_domain \<Rightarrow> string" where
  "SPECIALIST_AGENT_MAP SECURITY = ''security-auditor''"
| "SPECIALIST_AGENT_MAP DEBUG = ''debug-specialist''"
| "SPECIALIST_AGENT_MAP UI = ''frontend-coder''"
| "SPECIALIST_AGENT_MAP BACKEND = ''backend-coder''"
| "SPECIALIST_AGENT_MAP DEVOPS = ''devops''"
| "SPECIALIST_AGENT_MAP RELEASE = ''researcher''"
| "SPECIALIST_AGENT_MAP REVIEW = ''reviewer''"
| "SPECIALIST_AGENT_MAP ARCHITECTURE = ''architect''"

fun white_runs :: "bool \<Rightarrow> string \<Rightarrow> nat" where
  "white_runs inside [] = 0"
| "white_runs inside (c # cs) =
     (if is_white c then (if inside then 0 else 1) + white_runs True cs else white_runs False cs)"

definition word_count :: "string \<Rightarrow> nat" where
  "word_count text = Suc (white_runs False text)"

text \<open>The fields every decision takes from the evaluation of code mode.\<close>

definition route_to :: "code_mode_evaluation \<Rightarrow> execution_class \<Rightarrow> execution_mode \<Rightarrow> specialist_domain list option
    \<Rightarrow> string \<Rightarrow> string \<Rightarrow> nat \<Rightarrow> bool \<Rightarrow> router_decision" where
  "route_to e cls mode ds reason code confidence forced = \<lparr>
     fr_executionClass = cls,
     fr_executionMode = Some mode,
     fr_specialists = ds,
     fr_suggestedAgents = map_option (map SPECIALIST_AGENT_MAP) ds,
     fr_reason = reason,
     fr_confidence = confidence,
     fr_forcedByExplicitSignal = forced,
     fr_reasonCode = code,
     fr_mcpCompositionCandidate = Some (cz_isEligible e),
     fr_codeModeRejectedReason = cz_rejectionReason e,
     fr_codeModeTelemetry = Some (cz_telemetry e)\<rparr>"

definition parallel_decision :: "code_mode_evaluation \<Rightarrow> router_hints \<Rightarrow> specialist_domain list \<Rightarrow> router_decision" where
  "parallel_decision e hints domains =
     (if 2 \<le> length domains then
        route_to e PARALLEL_SPECIALISTS MULTI_SPECIALIST (Some domains)
          ''Task contains disjoint independent domain signals (frontend + backend) with separate ownership -- parallel specialist execution.''
          ''PARALLEL_UI_BACKEND'' 82 (nullish (fh_hasExplicitDomainSignal hints) True)
      else if length domains = 1 then
        route_to e SPECIALIST SINGLE_SPECIALIST (Some domains)
          ''Task mentions parallel execution but only one clear domain -- route to the single matching specialist.''
          ''PARALLEL_SIGNAL_SINGLE_DOMAIN'' 75 (nullish (fh_hasExplicitDomainSignal hints) True)
      else
        route_to e STANDARD DIRECT None
          ''Task signals parallel work but no disjoint specialist domains were detected -- scoped planning with independent workstreams.''
          ''PARALLEL_SIGNAL_NO_DOMAIN'' 65 False)"

definition default_decision :: "code_mode_evaluation \<Rightarrow> router_hints \<Rightarrow> string \<Rightarrow> router_decision" where
  "default_decision e hints text =
     (let estFiles = nullish (fh_estimatedFileCount hints) 0 in
      if matchesAny text STANDARD_PATTERNS \<or> 3 < estFiles then
        route_to e STANDARD DIRECT None
          ''Multi-file feature or refactor task -- requires scoped planning and execution.''
          ''STANDARD_MULTIFILE'' 75 False
      else if word_count text \<le> 15 \<and> estFiles \<le> 1 then
        route_to e FAST_DIRECT DIRECT None
          ''Short prompt with no complex signals -- default to FAST_DIRECT.''
          ''FAST_DIRECT_SHORT'' 65 False
      else
        route_to e STANDARD DIRECT None
          ''No strong classification signal -- falling back to STANDARD execution.''
          ''STANDARD_FALLBACK'' 60 False)"

definition explicit_decision :: "code_mode_evaluation \<Rightarrow> execution_mode \<Rightarrow> string \<Rightarrow> router_decision" where
  "explicit_decision e mode text =
     (case mode of
        DIRECT \<Rightarrow> route_to e FAST_DIRECT DIRECT None
          ''User explicitly requested direct execution; specialist delegation is not justified.''
          ''USER_REQUESTED_DIRECT'' 100 True
      | MULTI_SPECIALIST \<Rightarrow> route_to e PARALLEL_SPECIALISTS MULTI_SPECIALIST None
          ''User explicitly requested bounded multi-specialist execution; downstream planning must still validate scope and fan-out.''
          ''USER_REQUESTED_MULTI_SPECIALIST'' 100 True
      | SINGLE_SPECIALIST \<Rightarrow> route_to e SPECIALIST SINGLE_SPECIALIST
          (map_option (\<lambda>d. [d]) (classifySpecialistDomain text))
          ''User explicitly requested a specialist; downstream planning must select one justified supported capability.''
          ''USER_REQUESTED_SPECIALIST'' 100 True)"

definition evaluate_prompt :: "string \<Rightarrow> code_mode_evaluation" where
  "evaluate_prompt prompt =
     evaluateCodeModeEligibility prompt
       (matchesAny (trim prompt) MCP_COMPOSITION_EXTERNAL_PATTERNS \<and> matchesAny (trim prompt) MCP_COMPOSITION_ACTION_PATTERNS)"

definition resuming :: "router_hints \<Rightarrow> bool" where
  "resuming hints \<longleftrightarrow> fh_isResuming hints = Some True"

definition classifyTask :: "string \<Rightarrow> router_hints \<Rightarrow> router_decision" where
  "classifyTask prompt hints =
     (let text = trim prompt; e = evaluate_prompt prompt in
      case explicitlyRequestedMode text of
        Some mode \<Rightarrow> explicit_decision e mode text
      | None \<Rightarrow>
          if matchesAny text DEEP_PATTERNS then
            route_to e DEEP MULTI_SPECIALIST (Some [ARCHITECTURE, REVIEW])
              ''Task matched architecture-level migration or breaking change pattern requiring bounded design and independent review work.''
              ''MULTI_DEEP_MIGRATION'' 85 False
          else if matchesAny text SIMPLE_DIRECT_QUERY_PATTERNS \<and> \<not> resuming hints then
            route_to e FAST_DIRECT DIRECT None
              ''Read-only or explanatory task has a bounded local answer and does not need specialist orchestration.''
              ''DIRECT_SCOPED_QUERY'' 90 False
          else if matchesAny text FAST_DIRECT_PATTERNS \<and> \<not> resuming hints
                  \<and> nullish (fh_estimatedFileCount hints) 1 \<le> 2 then
            route_to e FAST_DIRECT DIRECT None
              ''Trivial local task matched fast-direct pattern with minimal file surface.''
              ''FAST_DIRECT_PATTERN'' 90 False
          else if matchesAny text PARALLEL_SIGNALS
                  \<or> (regex_test (seq' [RWord, oneof [''across'', ''and'', ''plus'', ''with'', ''together''], RWord]) text
                     \<and> 2 \<le> length (detectSpecialistDomains text)) then
            parallel_decision e hints (detectSpecialistDomains text)
          else (case classifySpecialistDomain text of
                  Some domain \<Rightarrow>
                    route_to e SPECIALIST SINGLE_SPECIALIST (Some [domain])
                      (''Task matched specialist domain '' @ [CHR 0x27] @ domain_name domain @ [CHR 0x27]
                       @ '' -- route to dedicated specialist on turn 1.'')
                      (''SPECIALIST_'' @ domain_name domain) 88 (nullish (fh_hasExplicitDomainSignal hints) False)
                | None \<Rightarrow> default_decision e hints text))"

definition shouldSkipSpecialistDirectory :: "execution_class \<Rightarrow> bool" where
  "shouldSkipSpecialistDirectory cls \<longleftrightarrow> cls = FAST_DIRECT"

definition getRequiredSpecialistDomains :: "router_decision \<Rightarrow> specialist_domain list option" where
  "getRequiredSpecialistDomains d =
     (if fr_executionClass d = FAST_DIRECT then Some []
      else case fr_specialists d of
             Some ds \<Rightarrow> if ds \<noteq> [] then Some ds else None
           | None \<Rightarrow> None)"

section \<open>The hash of a turn\<close>

fun base36 :: "nat \<Rightarrow> string" where
  "base36 n = (if n < 36 then [char_of (if n < 10 then 48 + n else 87 + n)]
               else base36 (n div 36) @ [char_of (if n mod 36 < 10 then 48 + n mod 36 else 87 + n mod 36)])"

declare base36.simps [simp del]

definition hash_step :: "32 word \<times> 32 word \<Rightarrow> char \<Rightarrow> 32 word \<times> 32 word" where
  "hash_step h c =
     (let ch = word_of_nat (char_code c) in
      ((fst h XOR ch) * 2654435761, (snd h XOR ch) * 1597334677))"

definition stableHash :: "string \<Rightarrow> string" where
  "stableHash input =
     (let (h1, h2) = foldl hash_step (0xDEADBEEF, 0x41C6CE57) input;
          r = h1 XOR (h2 * 5)
      in ''h'' @ base36 (unat r mod 0x7fffffff))"

section \<open>Lemmas\<close>

text \<open>Every agent of the table is a subagent of the registry.\<close>

lemma subagent_ids:
  "getSubagentIds = [''planner'', ''architect'', ''researcher'', ''mapper'', ''backend-coder'', ''frontend-coder'',
      ''devops'', ''tester'', ''reviewer'', ''security-auditor'', ''debug-specialist'', ''browser-debugger'']"
  by (simp add: getSubagentIds_def CANONICAL_AGENTS_def)

lemma agent_map_known: "SPECIALIST_AGENT_MAP d \<in> set getSubagentIds"
  unfolding subagent_ids by (cases d) simp_all

lemma agent_map_inj: "SPECIALIST_AGENT_MAP d = SPECIALIST_AGENT_MAP d' \<longleftrightarrow> d = d'"
  by (cases d; cases d') simp_all

lemma detected_distinct: "distinct (detectSpecialistDomains input)"
  unfolding detectSpecialistDomains_def by simp

text \<open>
  What a consumer of a decision relies on: the mode is the one of the class, a direct decision names no
  specialist, a single one names at most one and a multiple one names none or at least two different
  ones, and each has its agent, a subagent of the registry.
\<close>

definition decision_ok :: "router_decision \<Rightarrow> bool" where
  "decision_ok d \<longleftrightarrow>
     fr_executionMode d = Some (executionModeForClass (fr_executionClass d))
     \<and> (case fr_specialists d of
          None \<Rightarrow> fr_suggestedAgents d = None
        | Some ds \<Rightarrow>
            distinct ds \<and> fr_suggestedAgents d = Some (map SPECIALIST_AGENT_MAP ds)
            \<and> (case executionModeForClass (fr_executionClass d) of
                 DIRECT \<Rightarrow> False | SINGLE_SPECIALIST \<Rightarrow> length ds = 1 | MULTI_SPECIALIST \<Rightarrow> 2 \<le> length ds))
     \<and> 60 \<le> fr_confidence d \<and> fr_confidence d \<le> 100
     \<and> (\<exists>e. fr_mcpCompositionCandidate d = Some (cz_isEligible e) \<and> fr_codeModeRejectedReason d = cz_rejectionReason e
            \<and> fr_codeModeTelemetry d = Some (cz_telemetry e) \<and> agrees e)"

lemma decision_okI:
  assumes "agrees e" and "mode = executionModeForClass cls" and "60 \<le> confidence" and "confidence \<le> 100"
    and "\<And>xs. ds = Some xs \<Longrightarrow> distinct xs \<and> (case mode of
           DIRECT \<Rightarrow> False | SINGLE_SPECIALIST \<Rightarrow> length xs = 1 | MULTI_SPECIALIST \<Rightarrow> 2 \<le> length xs)"
  shows "decision_ok (route_to e cls mode ds reason code confidence forced)"
  using assms unfolding decision_ok_def route_to_def by (auto split: option.splits)

lemma parallel_ok: "agrees e \<Longrightarrow> distinct ds \<Longrightarrow> decision_ok (parallel_decision e hints ds)"
  unfolding parallel_decision_def by (auto intro!: decision_okI)

lemma default_ok: "agrees e \<Longrightarrow> decision_ok (default_decision e hints text)"
  unfolding default_decision_def Let_def by (auto intro!: decision_okI)

lemma explicit_ok: "agrees e \<Longrightarrow> decision_ok (explicit_decision e mode text)"
  unfolding explicit_decision_def by (cases mode) (auto intro!: decision_okI)

lemma evaluate_prompt_agrees: "agrees (evaluate_prompt prompt)"
  unfolding evaluate_prompt_def by (rule evaluation_agrees)

lemma classified_ok: "decision_ok (classifyTask prompt hints)"
proof -
  note ok = decision_okI [OF evaluate_prompt_agrees [of prompt]] parallel_ok [OF evaluate_prompt_agrees [of prompt]]
    default_ok [OF evaluate_prompt_agrees [of prompt]] explicit_ok [OF evaluate_prompt_agrees [of prompt]]
  show ?thesis
    unfolding classifyTask_def Let_def
    by (auto intro!: ok simp: detected_distinct split: option.split)
qed

end
