(* ===== verification/Graph_Walk.thy ===== *)
theory Graph_Walk
  imports Dependencies
begin

text \<open>
  The depth-first search that two validators of the routing share: that of a specialist plan
  (\<open>orchestration/routing/specialist-planner.ts\<close>) and that of the workstreams of a routed task
  (\<open>orchestration/routing/planning.ts\<close>). Both keep a set of the ids on the chain of calls and one of the
  ids that are finished, and refuse an id that is on the chain.

  The search of the execution plans keeps depths in place of the finished set; the two agree, so this
  search, too, succeeds exactly on the graphs without a cycle.
\<close>

section \<open>The search\<close>

text \<open>
  \<open>g\<close> maps an id to its dependencies, and an id without an entry has none. \<open>None\<close> is a cycle; otherwise the
  result is the finished ids.
\<close>

function (sequential) walk :: "(string \<times> string list) list \<Rightarrow> string list \<Rightarrow> string list \<Rightarrow> string \<Rightarrow> string list option"
  and walk_each :: "(string \<times> string list) list \<Rightarrow> string list \<Rightarrow> string list \<Rightarrow> string list \<Rightarrow> string list option" where
  "walk g visiting visited i =
     (if i \<in> set visiting then None
      else if i \<in> set visited then Some visited
      else case map_of g i of
          None \<Rightarrow> Some (i # visited)
        | Some deps \<Rightarrow> map_option (\<lambda>v. i # v) (walk_each g (i # visiting) visited deps))"
| "walk_each g visiting visited [] = Some visited"
| "walk_each g visiting visited (i # is) =
     (case walk g visiting visited i of
        None \<Rightarrow> None
      | Some visited' \<Rightarrow> walk_each g visiting visited' is)"
  by pat_completeness auto

termination
  by (relation "inv_image (less_than <*lex*> less_than)
        (\<lambda>x. case x of Inl (g, v, _, _) \<Rightarrow> (unvisited g v, 0) | Inr (g, v, _, is) \<Rightarrow> (unvisited g v, Suc (length is)))")
    (auto simp: unvisited_less)

section \<open>It is exact\<close>

definition finished :: "string list \<Rightarrow> (string \<times> nat) list \<Rightarrow> bool" where
  "finished visited depth \<longleftrightarrow> (\<forall>i. i \<in> set visited \<longleftrightarrow> map_of depth i \<noteq> None)"

lemma finished_update: "finished visited depth \<Longrightarrow> finished (i # visited) (AList.update i d depth)"
  by (auto simp: finished_def update_conv')

text \<open>Both searches go the same way.\<close>

lemma walk_follows_visit:
  "closed_graph g \<Longrightarrow> map_of g i \<noteq> None \<Longrightarrow> finished visited depth \<Longrightarrow>
     (case visit g visiting depth i of
        Inl _ \<Rightarrow> walk g visiting visited i = None
      | Inr (_, depth') \<Rightarrow> (\<exists>v. walk g visiting visited i = Some v \<and> finished v depth'))"
  "closed_graph g \<Longrightarrow> \<forall>i \<in> set is. map_of g i \<noteq> None \<Longrightarrow> finished visited depth \<Longrightarrow>
     (case visit_each g visiting depth is of
        Inl _ \<Rightarrow> walk_each g visiting visited is = None
      | Inr (_, depth') \<Rightarrow> (\<exists>v. walk_each g visiting visited is = Some v \<and> finished v depth'))"
proof (induction g visiting depth i and g visiting depth "is" arbitrary: visited and visited rule: visit_visit_each.induct)
  case (1 g visiting depth i)
  obtain deps where deps: "map_of g i = Some deps" using 1(3) by blast
  have f: "i \<in> set visited \<longleftrightarrow> map_of depth i \<noteq> None" using 1(4) by (simp add: finished_def)
  have known: "\<forall>j \<in> set deps. map_of g j \<noteq> None" using 1(2) deps unfolding closed_graph_def by blast
  show ?case
  proof (cases "i \<in> set visiting \<or> i \<in> set visited")
    case True
    then show ?thesis using f 1(4) by auto
  next
    case False
    then have none: "map_of depth i = None" and nv: "i \<notin> set visiting" using f by auto
    note IH = 1(1) [OF nv none deps 1(2) known 1(4)]
    show ?thesis
    proof (cases "visit_each g (i # visiting) depth deps")
      case (Inl e)
      then show ?thesis using IH False none deps by simp
    next
      case (Inr q)
      obtain ds depth' where q: "q = (ds, depth')" by (cases q)
      obtain v where v: "walk_each g (i # visiting) visited deps = Some v" "finished v depth'"
        using IH Inr q by auto
      show ?thesis using Inr q v False none deps by (auto simp: Let_def intro!: finished_update)
    qed
  qed
next
  case (2 g visiting depth)
  then show ?case by simp
next
  case (3 g visiting depth i "is")
  have i: "map_of g i \<noteq> None" and rest: "\<forall>i \<in> set is. map_of g i \<noteq> None" using 3(4) by auto
  note IH1 = 3(1) [OF 3(3) i 3(5)]
  show ?case
  proof (cases "visit g visiting depth i")
    case (Inl e)
    then show ?thesis using IH1 by simp
  next
    case (Inr q)
    obtain d depth1 where q: "q = (d, depth1)" by (cases q)
    obtain v where v: "walk g visiting visited i = Some v" "finished v depth1" using IH1 Inr q by auto
    note IH2 = 3(2) [OF _ _ 3(3) rest v(2)]
    show ?thesis using IH2 Inr q v(1) by (auto simp: map_sum_def split: sum.splits)
  qed
qed

theorem walk_exact:
  assumes "closed_graph g" and "set is = dom (map_of g)"
  shows "walk_each g [] [] is \<noteq> None \<longleftrightarrow> acyclic (depends g)"
proof -
  have "\<forall>i \<in> set is. map_of g i \<noteq> None" using assms(2) by auto
  from walk_follows_visit(2) [OF assms(1) this, of "[]" "[]" "[]"]
  have "walk_each g [] [] is \<noteq> None \<longleftrightarrow> (\<exists>ds depth. visit_each g [] [] is = Inr (ds, depth))"
    by (cases "visit_each g [] [] is") (auto simp: finished_def)
  then show ?thesis using search_exact [OF assms] by simp
qed

end
