(* ===== verification/Specialist_Plans.thy ===== *)
theory Specialist_Plans
  imports Fast_Router Graph_Walk
begin

text \<open>
  The planner of specialists (\<open>orchestration/routing/specialist-planner.ts\<close>): from a decision of the router
  to the list of subagents to run, and the validation of such a plan.

  \<open>sha\<close> is the hexadecimal SHA-256 digest of the runtime's library and \<open>collate\<close> says that one string does
  not come after another for \<open>localeCompare\<close>. A policy's number of specialists is an integer. \<open>JSON.parse\<close> of
  a stored plan is not modelled.
\<close>

section \<open>Plans\<close>

datatype specialist_error =
    TargetAgentInvalid
  | ModelPolicyInvalid
  | RecursiveDelegationDenied
  | FanoutPolicyInvalid
  | ParentRunRequired
  | ObjectiveEmpty
  | SpecDuplicateId
  | SpecSelfDependency
  | SpecDuplicateDependency
  | SpecUnknownDependency
  | SpecDependencyCycle
  | DirectModeForbidden
  | CrossRunForbidden
  | AllowedToolsInvalid

datatype specialist_priority = PriorityLow | PriorityNormal | PriorityHigh

record planner_spec =
  spc_specialistId :: string
  spc_capability :: specialist_domain
  spc_role :: string
  spc_targetAgent :: string
  spc_objective :: string
  spc_scope :: "string list"
  spc_expectedEvidence :: "string list"
  spc_allowedTools :: "string list option"
  spc_dependsOn :: "string list"
  spc_required :: bool
  spc_priority :: specialist_priority
  spc_parentRunId :: string
  spc_modelPolicy :: string

record planner_plan =
  pn_version :: string
  pn_runId :: string
  pn_executionMode :: execution_mode
  pn_reasonCode :: string
  pn_specs :: "planner_spec list"
  pn_deduplicated :: nat
  pn_fanoutBlocked :: nat
  pn_rejectedReason :: "string option"

record planning_policy =
  py_maxSpecialists :: "int option"
  py_allowRecursiveDelegation :: "bool option"

record specialist_candidate =
  spd_id :: "string option"
  spd_capability :: specialist_domain
  spd_targetAgent :: string
  spd_objective :: "string option"
  spd_scope :: "string list option"
  spd_dependsOn :: "string list option"
  spd_required :: "bool option"
  spd_priority :: "specialist_priority option"

record repository_advice =
  rz_scope :: "string list"
  rz_relevantFiles :: "string list"
  rz_architecturalConstraints :: "string list"
  rz_requestId :: string

record planner_input =
  spi_runId :: string
  spi_goal :: string
  spi_decision :: router_decision
  spi_candidates :: "specialist_candidate list option"
  spi_policy :: "planning_policy option"
  spi_callerDepth :: "int option"
  spi_repositoryAdvice :: "repository_advice option"

definition SPECIALIST_PLAN_VERSION :: string where
  "SPECIALIST_PLAN_VERSION = ''1.0.0''"

definition DEFAULT_MAX_SPECIALISTS :: int where
  "DEFAULT_MAX_SPECIALISTS = 3"

section \<open>Parts\<close>

definition stableId :: "(string \<Rightarrow> string) \<Rightarrow> string \<Rightarrow> string" where
  "stableId sha input = take 24 (sha input)"

text \<open>\<open>s.replace(/\s+/g, " ")\<close>.\<close>

fun collapse_spaces :: "bool \<Rightarrow> string \<Rightarrow> string" where
  "collapse_spaces inside [] = []"
| "collapse_spaces inside (c # cs) =
     (if is_white c then (if inside then collapse_spaces True cs else CHR '' '' # collapse_spaces True cs)
      else c # collapse_spaces False cs)"

definition compactGoal :: "string \<Rightarrow> string" where
  "compactGoal goal =
     (let normalized = trim (collapse_spaces False goal) in
      if length normalized \<le> 500 then normalized else take 497 normalized @ ''...'')"

definition asCanonicalSubagent :: "string \<Rightarrow> specialist_error + canonical_agent" where
  "asCanonicalSubagent targetAgent =
     (case getCanonicalAgent targetAgent of
        None \<Rightarrow> Inl TargetAgentInvalid
      | Some agent \<Rightarrow>
          if ca_mode agent \<noteq> Subagent then Inl TargetAgentInvalid
          else if ca_modelPolicy agent \<noteq> ''inherit'' then Inl ModelPolicyInvalid
          else if ca_delegationPolicy agent \<noteq> NoDelegation \<or> ca_maxDelegationDepth agent \<noteq> 0
            then Inl RecursiveDelegationDenied
          else Inr agent)"

fun spec_dependencies :: "string list \<Rightarrow> string \<Rightarrow> string list \<Rightarrow> string list \<Rightarrow> specialist_error + unit" where
  "spec_dependencies ids i seen [] = Inr ()"
| "spec_dependencies ids i seen (d # ds) =
     (if d = i then Inl SpecSelfDependency
      else if d \<in> set seen then Inl SpecDuplicateDependency
      else if d \<notin> set ids then Inl SpecUnknownDependency
      else spec_dependencies ids i (d # seen) ds)"

definition spec_graph :: "planner_spec list \<Rightarrow> (string \<times> string list) list" where
  "spec_graph specs = map (\<lambda>s. (spc_specialistId s, spc_dependsOn s)) specs"

text \<open>Every dependency has been found known before the search, so its lookup does not fail there.\<close>

definition validateDependencyGraph :: "planner_spec list \<Rightarrow> specialist_error + unit" where
  "validateDependencyGraph specs =
     (let ids = map spc_specialistId specs in
      if \<not> distinct ids then Inl SpecDuplicateId
      else case traverse (\<lambda>s. spec_dependencies ids (spc_specialistId s) [] (spc_dependsOn s)) specs of
          Inl e \<Rightarrow> Inl e
        | Inr _ \<Rightarrow>
            (case walk_each (spec_graph specs) [] [] ids of
               None \<Rightarrow> Inl SpecDependencyCycle
             | Some _ \<Rightarrow> Inr ()))"

definition domain_candidate :: "router_decision \<Rightarrow> string \<Rightarrow> repository_advice option
    \<Rightarrow> specialist_domain \<Rightarrow> string \<Rightarrow> specialist_candidate" where
  "domain_candidate decision goal advice capability targetAgent =
     (let name = lower_case (domain_name capability);
          repositoryScope = (case advice of None \<Rightarrow> [] | Some a \<Rightarrow> take 4 (rz_scope a));
          constraint = (case advice of None \<Rightarrow> None | Some a \<Rightarrow> Some (join '' '' (take 1 (rz_architecturalConstraints a))))
      in \<lparr>spd_id = Some (name @ ''-'' @ targetAgent),
          spd_capability = capability,
          spd_targetAgent = targetAgent,
          spd_objective = Some (''Provide focused '' @ name @ '' evidence for: '' @ compactGoal goal
             @ (case constraint of None \<Rightarrow> [] | Some c \<Rightarrow> if c = [] then [] else '' Constraint: '' @ c)),
          spd_scope = Some (name # repositoryScope),
          spd_dependsOn = Some (if fr_reasonCode decision = ''MULTI_DEEP_MIGRATION'' \<and> capability = REVIEW
             then [''architecture-architect''] else []),
          spd_required = Some True,
          spd_priority = Some PriorityNormal\<rparr>)"

text \<open>A domain whose agent is missing or empty gives no candidate.\<close>

fun pair_agents :: "specialist_domain list \<Rightarrow> string list \<Rightarrow> (specialist_domain \<times> string) list" where
  "pair_agents (d # ds) (a # as) = (if a = [] then pair_agents ds as else (d, a) # pair_agents ds as)"
| "pair_agents ds as = []"

definition candidatesFromDecision :: "router_decision \<Rightarrow> string \<Rightarrow> repository_advice option \<Rightarrow> specialist_candidate list" where
  "candidatesFromDecision decision goal advice =
     map (\<lambda>(d, a). domain_candidate decision goal advice d a)
       (pair_agents (nullish (fr_specialists decision) []) (nullish (fr_suggestedAgents decision) []))"

definition planMode :: "router_decision \<Rightarrow> execution_mode" where
  "planMode decision = nullish (fr_executionMode decision) (executionModeForClass (fr_executionClass decision))"

section \<open>Building a plan\<close>

definition candidate_scope :: "specialist_candidate \<Rightarrow> string list" where
  "candidate_scope c =
     sort (js_unique (filter (\<lambda>s. s \<noteq> [])
       (map (\<lambda>v. lower_case (trim v)) (nullish (spd_scope c) [lower_case (domain_name (spd_capability c))]))))"

definition candidate_identity :: "specialist_candidate \<Rightarrow> string" where
  "candidate_identity c =
     spd_targetAgent c @ '':'' @ domain_name (spd_capability c) @ '':'' @ join '','' (candidate_scope c)"

fun dedupe :: "specialist_candidate list \<Rightarrow> (string \<times> specialist_candidate) list \<Rightarrow> nat
    \<Rightarrow> (string \<times> specialist_candidate) list \<times> nat" where
  "dedupe [] uniq n = (uniq, n)"
| "dedupe (c # cs) uniq n =
     (if map_of uniq (candidate_identity c) \<noteq> None then dedupe cs uniq (n + 1)
      else dedupe cs (AList.update (candidate_identity c) (c\<lparr>spd_scope := Some (candidate_scope c)\<rparr>) uniq) n)"

definition sort_text :: "specialist_candidate \<Rightarrow> string" where
  "sort_text c = spd_targetAgent c @ '':'' @ domain_name (spd_capability c)"

definition candidate_spec :: "(string \<Rightarrow> string) \<Rightarrow> string \<Rightarrow> string \<Rightarrow> nat \<times> specialist_candidate
    \<Rightarrow> specialist_error + planner_spec" where
  "candidate_spec sha runId goal ic =
     (let index = fst ic; c = snd ic; name = lower_case (domain_name (spd_capability c));
          objective = trim (nullish (spd_objective c) (''Provide focused '' @ name @ '' evidence for: '' @ compactGoal goal))
      in case asCanonicalSubagent (spd_targetAgent c) of
           Inl e \<Rightarrow> Inl e
         | Inr agent \<Rightarrow>
             if objective = [] then Inl ObjectiveEmpty
             else Inr \<lparr>
               spc_specialistId = str_or (map_option trim (spd_id c))
                 (''spec-'' @ stableId sha (runId @ '':'' @ spd_targetAgent c @ '':'' @ domain_name (spd_capability c) @ '':''
                    @ join ''|'' (nullish (spd_scope c) []) @ '':'' @ nat_str index)),
               spc_capability = spd_capability c,
               spc_role = name @ ''-specialist'',
               spc_targetAgent = spd_targetAgent c,
               spc_objective = objective,
               spc_scope = nullish (spd_scope c) [name],
               spc_expectedEvidence = [''objective_result'', ''scope_evidence''],
               spc_allowedTools = Some (sort (ca_allowedTools agent)),
               spc_dependsOn = sort (js_unique (nullish (spd_dependsOn c) [])),
               spc_required = (spd_required c \<noteq> Some False),
               spc_priority = nullish (spd_priority c) PriorityNormal,
               spc_parentRunId = runId,
               spc_modelPolicy = ''inherit''\<rparr>)"

definition plan_with :: "planner_input \<Rightarrow> planner_spec list \<Rightarrow> nat \<Rightarrow> nat \<Rightarrow> string option \<Rightarrow> planner_plan" where
  "plan_with input specs deduplicated blocked rejected = \<lparr>
     pn_version = SPECIALIST_PLAN_VERSION,
     pn_runId = spi_runId input,
     pn_executionMode = planMode (spi_decision input),
     pn_reasonCode = fr_reasonCode (spi_decision input),
     pn_specs = specs,
     pn_deduplicated = deduplicated,
     pn_fanoutBlocked = blocked,
     pn_rejectedReason = rejected\<rparr>"

definition select_specs :: "(string \<Rightarrow> string) \<Rightarrow> (string \<Rightarrow> string \<Rightarrow> bool) \<Rightarrow> planner_input \<Rightarrow> int
    \<Rightarrow> specialist_error + planner_plan" where
  "select_specs sha collate input maxSpecialists =
     (let raw = nullish (spi_candidates input)
            (candidatesFromDecision (spi_decision input) (spi_goal input) (spi_repositoryAdvice input));
          (uniq, deduplicated) = dedupe raw [] 0;
          selected = sort_by (\<lambda>a b. collate (sort_text a) (sort_text b)) (map snd uniq);
          allowed = take (nat maxSpecialists) selected;
          blocked = length selected - length allowed
      in case traverse (candidate_spec sha (spi_runId input) (spi_goal input)) (enumerate 0 allowed) of
           Inl e \<Rightarrow> Inl e
         | Inr specs \<Rightarrow>
             if planMode (spi_decision input) = SINGLE_SPECIALIST \<and> length specs \<noteq> 1 then
               Inr (plan_with input [] deduplicated blocked (Some ''SPECIALIST_CAPABILITY_UNRESOLVED''))
             else if planMode (spi_decision input) = MULTI_SPECIALIST \<and> length specs < 2 then
               Inr (plan_with input [] deduplicated blocked (Some ''MULTI_SPECIALIST_CAPABILITIES_UNRESOLVED''))
             else case validateDependencyGraph specs of
                 Inl e \<Rightarrow> Inl e
               | Inr _ \<Rightarrow> Inr (plan_with input specs deduplicated blocked None))"

definition buildSpecialistPlan :: "(string \<Rightarrow> string) \<Rightarrow> (string \<Rightarrow> string \<Rightarrow> bool) \<Rightarrow> planner_input
    \<Rightarrow> specialist_error + planner_plan" where
  "buildSpecialistPlan sha collate input =
     (let policy = nullish (spi_policy input) \<lparr>py_maxSpecialists = None, py_allowRecursiveDelegation = None\<rparr>;
          maxSpecialists = nullish (py_maxSpecialists policy) DEFAULT_MAX_SPECIALISTS
      in if maxSpecialists < 1 then Inl FanoutPolicyInvalid
         else if 0 < nullish (spi_callerDepth input) 0 \<or> py_allowRecursiveDelegation policy = Some True
           then Inl RecursiveDelegationDenied
         else if trim (spi_runId input) = [] then Inl ParentRunRequired
         else if trim (spi_goal input) = [] then Inl ObjectiveEmpty
         else if planMode (spi_decision input) = DIRECT then Inr (plan_with input [] 0 0 None)
         else select_specs sha collate input maxSpecialists)"

definition readySpecialistSpecs :: "planner_plan \<Rightarrow> string set \<Rightarrow> planner_spec list" where
  "readySpecialistSpecs plan settled =
     filter (\<lambda>s. list_all (\<lambda>d. d \<in> settled) (spc_dependsOn s)) (pn_specs plan)"

section \<open>Validation\<close>

definition check_spec :: "string \<Rightarrow> planner_spec \<Rightarrow> specialist_error + unit" where
  "check_spec runId s =
     (if trim (spc_objective s) = [] then Inl ObjectiveEmpty
      else if spc_parentRunId s \<noteq> runId then Inl CrossRunForbidden
      else if spc_modelPolicy s \<noteq> ''inherit'' then Inl ModelPolicyInvalid
      else case asCanonicalSubagent (spc_targetAgent s) of
          Inl e \<Rightarrow> Inl e
        | Inr agent \<Rightarrow>
            (case spc_allowedTools s of
               Some tools \<Rightarrow>
                 if json_str (JArr (map JStr (sort tools))) \<noteq> json_str (JArr (map JStr (sort (ca_allowedTools agent))))
                 then Inl AllowedToolsInvalid else Inr ()
             | None \<Rightarrow> Inr ()))"

definition assertValidSpecialistPlan :: "planner_plan \<Rightarrow> specialist_error + unit" where
  "assertValidSpecialistPlan plan =
     (if trim (pn_runId plan) = [] then Inl ParentRunRequired
      else if pn_executionMode plan = DIRECT \<and> pn_specs plan \<noteq> [] then Inl DirectModeForbidden
      else case traverse (check_spec (pn_runId plan)) (pn_specs plan) of
          Inl e \<Rightarrow> Inl e
        | Inr _ \<Rightarrow> validateDependencyGraph (pn_specs plan))"

definition registeredSpecialistTargets :: "string list" where
  "registeredSpecialistTargets = sort getSubagentIds"

end
