(* ===== verification/Specialist_Laws.thy ===== *)
theory Specialist_Laws
  imports Specialist_Plans
begin

text \<open>
  What a specialist plan guarantees: the validation of its dependencies is exact, a plan that was built
  passes the validation, it is within its fan-out, every candidate is accounted for, and until every
  specialist has settled one of the open ones is ready.
\<close>

section \<open>Strings\<close>

lemma dropWhile_suffix: "\<exists>ys. xs = ys @ dropWhile P xs"
  using takeWhile_dropWhile_id [of P xs] by metis

lemma trim_trim [simp]: "trim (trim s) = trim s"
proof -
  define t where "t = dropWhile is_white s"
  define u where "u = dropWhile is_white (rev t)"
  obtain ys where ys: "rev t = ys @ u" using dropWhile_suffix unfolding u_def by blast
  then have t: "t = rev u @ rev ys" by (metis rev_append rev_rev_ident)
  have u: "u = [] \<or> \<not> is_white (hd u)" unfolding u_def by (metis hd_dropWhile)
  have "dropWhile is_white (rev u) = rev u"
  proof (cases "u = []")
    case False
    then have "t \<noteq> []" "hd t = hd (rev u)" using t by simp_all
    moreover have "\<not> is_white (hd t)" using \<open>t \<noteq> []\<close> unfolding t_def by (metis hd_dropWhile)
    ultimately show ?thesis using False by (simp add: dropWhile_eq_self_iff)
  qed simp
  moreover have "dropWhile is_white u = u" using u by (auto simp: dropWhile_eq_self_iff)
  moreover have "trim s = rev u" by (simp add: trim_def t_def u_def)
  ultimately show ?thesis by (simp add: trim_def)
qed

lemma length_insert_by [simp]: "length (insert_by le x ys) = Suc (length ys)"
  by (induction ys) auto

lemma length_sort_by: "length (sort_by le xs) = length xs"
  unfolding sort_by_def by (induction xs) simp_all

lemma insert_by_distinct [simp]: "distinct (insert_by le x ys) \<longleftrightarrow> x \<notin> set ys \<and> distinct ys"
  by (induction ys) auto

lemma sort_by_distinct [simp]: "distinct (sort_by le xs) = distinct xs"
proof (induction xs)
  case (Cons x xs)
  have "sort_by le (x # xs) = insert_by le x (sort_by le xs)" by (simp add: sort_by_def)
  then show ?case using Cons by simp
qed (simp add: sort_by_def)

lemma insert_by_map: "insert_by le (f x) (map f ys) = map f (insert_by (\<lambda>a b. le (f a) (f b)) x ys)"
  by (induction ys) simp_all

lemma sort_by_map: "sort_by le (map f xs) = map f (sort_by (\<lambda>a b. le (f a) (f b)) xs)"
  unfolding sort_by_def by (induction xs) (simp_all add: insert_by_map)

lemma trim_hd_last:
  "s \<noteq> [] \<Longrightarrow> \<not> is_white (hd s) \<Longrightarrow> \<not> is_white (last s) \<Longrightarrow> trim s = s"
  by (simp add: trim_def dropWhile_eq_self_iff [THEN iffD2] hd_rev)

lemma trim_nonempty: "s \<noteq> [] \<Longrightarrow> \<not> is_white (hd s) \<Longrightarrow> trim s \<noteq> []"
  by (cases s) (auto simp: trim_def dropWhile_eq_Nil_conv)

section \<open>The dependencies\<close>

lemma spec_dependencies_ok:
  "spec_dependencies ids i seen ds = Inr () \<longleftrightarrow>
     i \<notin> set ds \<and> distinct ds \<and> set ds \<inter> set seen = {} \<and> set ds \<subseteq> set ids"
  by (induction ids i seen ds rule: spec_dependencies.induct) auto

definition dependencies_known :: "planner_spec list \<Rightarrow> bool" where
  "dependencies_known specs \<longleftrightarrow>
     (\<forall>s \<in> set specs. spc_specialistId s \<notin> set (spc_dependsOn s) \<and> distinct (spc_dependsOn s)
        \<and> set (spc_dependsOn s) \<subseteq> spc_specialistId ` set specs)"

lemma map_of_spec_graph:
  "distinct (map spc_specialistId specs) \<Longrightarrow>
     map_of (spec_graph specs) i = Some ds \<longleftrightarrow> (\<exists>s \<in> set specs. spc_specialistId s = i \<and> spc_dependsOn s = ds)"
  unfolding spec_graph_def by (subst map_of_eq_Some_iff) (auto simp: comp_def)

lemma dom_spec_graph: "dom (map_of (spec_graph specs)) = spc_specialistId ` set specs"
  by (simp add: spec_graph_def dom_map_of_conv_image_fst image_image)

lemma depends_spec_graph:
  "distinct (map spc_specialistId specs) \<Longrightarrow>
     depends (spec_graph specs) = {(spc_specialistId s, d) | s d. s \<in> set specs \<and> d \<in> set (spc_dependsOn s)}"
  unfolding depends_def by (auto simp: map_of_spec_graph)

theorem validate_exact:
  "validateDependencyGraph specs = Inr () \<longleftrightarrow>
     distinct (map spc_specialistId specs) \<and> dependencies_known specs \<and> acyclic (depends (spec_graph specs))"
proof (cases "distinct (map spc_specialistId specs) \<and> dependencies_known specs")
  case False
  moreover have "(\<exists>ys. traverse (\<lambda>s. spec_dependencies (map spc_specialistId specs) (spc_specialistId s) [] (spc_dependsOn s)) specs = Inr ys)
      \<longleftrightarrow> dependencies_known specs"
    unfolding traverse_all dependencies_known_def by (auto simp: spec_dependencies_ok)
  ultimately show ?thesis unfolding validateDependencyGraph_def Let_def by (auto split: sum.splits)
next
  case True
  then have d: "distinct (map spc_specialistId specs)" and k: "dependencies_known specs" by auto
  have "\<exists>ys. traverse (\<lambda>s. spec_dependencies (map spc_specialistId specs) (spc_specialistId s) [] (spc_dependsOn s)) specs = Inr ys"
    unfolding traverse_all using k by (auto simp: spec_dependencies_ok dependencies_known_def)
  then obtain ys where ys:
    "traverse (\<lambda>s. spec_dependencies (map spc_specialistId specs) (spc_specialistId s) [] (spc_dependsOn s)) specs = Inr ys" ..
  have closed: "closed_graph (spec_graph specs)"
    unfolding closed_graph_def
  proof (intro allI impI ballI)
    fix a ds b
    assume "map_of (spec_graph specs) a = Some ds" "b \<in> set ds"
    then have "b \<in> spc_specialistId ` set specs" using k d by (auto simp: map_of_spec_graph dependencies_known_def)
    then show "map_of (spec_graph specs) b \<noteq> None" using dom_spec_graph by blast
  qed
  have "walk_each (spec_graph specs) [] [] (map spc_specialistId specs) \<noteq> None \<longleftrightarrow> acyclic (depends (spec_graph specs))"
    by (rule walk_exact [OF closed]) (simp add: dom_spec_graph)
  then show ?thesis using d k ys unfolding validateDependencyGraph_def by (auto split: option.splits)
qed

section \<open>Targets\<close>

text \<open>A target is accepted exactly when the registry has it as a subagent.\<close>

lemma target_ok: "(\<exists>a. asCanonicalSubagent i = Inr a) \<longleftrightarrow> i \<in> set getSubagentIds"
proof (cases "getCanonicalAgent i")
  case None
  have "i \<notin> set getSubagentIds"
  proof
    assume "i \<in> set getSubagentIds"
    then obtain a where "a \<in> set CANONICAL_AGENTS" "ca_id a = i" by (auto simp: getSubagentIds_def)
    then have "getCanonicalAgent i = Some a" by (simp add: registry_lookup)
    then show False using None by simp
  qed
  then show ?thesis using None by (simp add: asCanonicalSubagent_def)
next
  case (Some a)
  then have a: "a \<in> set CANONICAL_AGENTS" "ca_id a = i" by (simp_all add: registry_lookup)
  have "i \<in> set getSubagentIds \<longleftrightarrow> ca_mode a = Subagent"
  proof
    assume "i \<in> set getSubagentIds"
    then obtain b where b: "b \<in> set CANONICAL_AGENTS" "ca_id b = i" "ca_mode b = Subagent" by (auto simp: getSubagentIds_def)
    then have "getCanonicalAgent i = Some b" by (simp add: registry_lookup)
    then show "ca_mode a = Subagent" using Some b by simp
  qed (use a in \<open>auto simp: getSubagentIds_def\<close>)
  then show ?thesis using Some subagent_leaf [OF a(1)] by (simp add: asCanonicalSubagent_def)
qed

lemma target_entry: "asCanonicalSubagent i = Inr a \<Longrightarrow> getCanonicalAgent i = Some a \<and> ca_mode a = Subagent"
  by (auto simp: asCanonicalSubagent_def split: option.splits if_splits)

section \<open>What is built\<close>

lemma candidate_spec_checked:
  "candidate_spec sha runId goal ic = Inr s \<Longrightarrow> check_spec runId s = Inr ()"
  unfolding candidate_spec_def Let_def
  by (auto simp: check_spec_def sorted_sort_id split: sum.splits if_splits)

lemma traverse_length: "traverse f xs = Inr ys \<Longrightarrow> length ys = length xs"
  by (induction xs arbitrary: ys) (auto split: sum.splits)

lemma traverse_units: "\<forall>x \<in> set xs. f x = Inr () \<Longrightarrow> traverse f xs = Inr (replicate (length xs) ())"
  by (induction xs) auto

text \<open>The outcomes of the selection: a plan with its specs, or a plan rejected without any.\<close>

lemma selected_cases:
  assumes "select_specs sha collate input m = Inr plan"
  obtains (rejected) dedup blocked why where
      "plan = plan_with input [] dedup blocked (Some why)" "planMode (spi_decision input) \<noteq> DIRECT"
  | (planned) uniq dedup allowed blocked specs where
      "dedupe (nullish (spi_candidates input)
         (candidatesFromDecision (spi_decision input) (spi_goal input) (spi_repositoryAdvice input))) [] 0 = (uniq, dedup)"
      "allowed = take (nat m) (sort_by (\<lambda>a b. collate (sort_text a) (sort_text b)) (map snd uniq))"
      "blocked = length uniq - length allowed"
      "traverse (candidate_spec sha (spi_runId input) (spi_goal input)) (enumerate 0 allowed) = Inr specs"
      "validateDependencyGraph specs = Inr ()"
      "plan = plan_with input specs dedup blocked None"
      "planMode (spi_decision input) = SINGLE_SPECIALIST \<Longrightarrow> length specs = 1"
      "planMode (spi_decision input) = MULTI_SPECIALIST \<Longrightarrow> 2 \<le> length specs"
proof -
  define raw where "raw = nullish (spi_candidates input)
         (candidatesFromDecision (spi_decision input) (spi_goal input) (spi_repositoryAdvice input))"
  obtain uniq dedup where u: "dedupe raw [] 0 = (uniq, dedup)" by (cases "dedupe raw [] 0")
  define sel where "sel = sort_by (\<lambda>a b. collate (sort_text a) (sort_text b)) (map snd uniq)"
  have len: "length sel = length uniq" unfolding sel_def by (simp add: length_sort_by)
  obtain specs where t: "traverse (candidate_spec sha (spi_runId input) (spi_goal input)) (enumerate 0 (take (nat m) sel)) = Inr specs"
    and r: "(if planMode (spi_decision input) = SINGLE_SPECIALIST \<and> length specs \<noteq> 1 then
               Inr (plan_with input [] dedup (length sel - length (take (nat m) sel)) (Some ''SPECIALIST_CAPABILITY_UNRESOLVED''))
             else if planMode (spi_decision input) = MULTI_SPECIALIST \<and> length specs < 2 then
               Inr (plan_with input [] dedup (length sel - length (take (nat m) sel)) (Some ''MULTI_SPECIALIST_CAPABILITIES_UNRESOLVED''))
             else case validateDependencyGraph specs of
                 Inl e \<Rightarrow> Inl e
               | Inr _ \<Rightarrow> Inr (plan_with input specs dedup (length sel - length (take (nat m) sel)) None)) = Inr plan"
    using assms unfolding select_specs_def raw_def [symmetric] u Let_def prod.case sel_def [symmetric]
    by (auto split: sum.splits)
  show thesis
  proof (cases "planMode (spi_decision input) = SINGLE_SPECIALIST \<and> length specs \<noteq> 1
      \<or> planMode (spi_decision input) = MULTI_SPECIALIST \<and> length specs < 2")
    case True
    then show thesis using r rejected by (auto split: if_splits)
  next
    case False
    then have v: "validateDependencyGraph specs = Inr ()"
      "plan = plan_with input specs dedup (length sel - length (take (nat m) sel)) None"
      using r by (auto split: if_splits sum.splits)
    show thesis
      by (rule planned [OF u [unfolded raw_def] refl _ t [unfolded sel_def] v(1) v(2)])
        (use False in \<open>auto simp: len sel_def [symmetric]\<close>)
  qed
qed

lemma dedupe_counts:
  "dedupe cs uniq n = (u, m) \<Longrightarrow> length u + m = length uniq + n + length cs"
proof (induction cs uniq n rule: dedupe.induct)
  case (2 c cs uniq n)
  have new: "map_of uniq k = None \<Longrightarrow> length (AList.update k v uniq) = Suc (length uniq)" for k v
    by (induction uniq) auto
  show ?case using 2 by (auto simp: new split: if_splits)
qed simp

abbreviation scoped :: "specialist_candidate \<Rightarrow> specialist_candidate" where
  "scoped c \<equiv> c\<lparr>spd_scope := Some (candidate_scope c)\<rparr>"

lemma dedupe_from:
  "dedupe cs uniq n = (u, m) \<Longrightarrow> snd ` set u \<subseteq> snd ` set uniq \<union> scoped ` set cs"
proof (induction cs uniq n rule: dedupe.induct)
  case (2 c cs uniq n)
  have grow: "snd ` set (AList.update k v l) \<subseteq> insert v (snd ` set l)" for k :: string and v :: specialist_candidate and l
    by (induction l) auto
  show ?case
  proof (cases "map_of uniq (candidate_identity c) = None")
    case True
    then have "dedupe cs (AList.update (candidate_identity c) (scoped c) uniq) n = (u, m)" using 2(3) by simp
    from 2(2) [OF _ this] True
    have "snd ` set u \<subseteq> snd ` set (AList.update (candidate_identity c) (scoped c) uniq) \<union> scoped ` set cs" by simp
    also have "\<dots> \<subseteq> snd ` set uniq \<union> scoped ` set (c # cs)" using grow [of "candidate_identity c" "scoped c" uniq] by auto
    finally show ?thesis .
  next
    case False
    then show ?thesis using 2 by auto
  qed
qed simp

text \<open>What \<open>buildSpecialistPlan\<close> returns has passed its guards.\<close>

definition fanout_of :: "planner_input \<Rightarrow> int" where
  "fanout_of input = nullish (py_maxSpecialists (nullish (spi_policy input)
     \<lparr>py_maxSpecialists = None, py_allowRecursiveDelegation = None\<rparr>)) DEFAULT_MAX_SPECIALISTS"

lemma build_guards:
  assumes "buildSpecialistPlan sha collate input = Inr plan"
  shows "1 \<le> fanout_of input" and "trim (spi_runId input) \<noteq> []" and "trim (spi_goal input) \<noteq> []"
    and "nullish (spi_callerDepth input) 0 \<le> 0"
    and "if planMode (spi_decision input) = DIRECT then plan = plan_with input [] 0 0 None
         else select_specs sha collate input (fanout_of input) = Inr plan"
  using assms unfolding buildSpecialistPlan_def fanout_of_def Let_def by (auto split: if_splits)

lemma plan_with_simps [simp]:
  "pn_runId (plan_with input specs d b r) = spi_runId input"
  "pn_specs (plan_with input specs d b r) = specs"
  "pn_executionMode (plan_with input specs d b r) = planMode (spi_decision input)"
  "pn_deduplicated (plan_with input specs d b r) = d"
  "pn_fanoutBlocked (plan_with input specs d b r) = b"
  "pn_rejectedReason (plan_with input specs d b r) = r"
  by (simp_all add: plan_with_def)

lemma validate_none [simp]: "validateDependencyGraph [] = Inr ()"
  by (simp add: validateDependencyGraph_def)

lemma empty_plan_valid: "trim (pn_runId p) \<noteq> [] \<Longrightarrow> pn_specs p = [] \<Longrightarrow> assertValidSpecialistPlan p = Inr ()"
  by (simp add: assertValidSpecialistPlan_def)

lemma built_valid:
  assumes b: "buildSpecialistPlan sha collate input = Inr plan"
  shows "assertValidSpecialistPlan plan = Inr ()"
proof (cases "planMode (spi_decision input) = DIRECT")
  case True
  then show ?thesis using build_guards [OF b] by (auto intro: empty_plan_valid)
next
  case False
  then have "select_specs sha collate input (fanout_of input) = Inr plan" using build_guards(5) [OF b] by simp
  then show ?thesis
  proof (cases rule: selected_cases)
    case (rejected dedup blocked why)
    then show ?thesis using build_guards(2) [OF b] by (auto intro: empty_plan_valid)
  next
    case (planned uniq dedup allowed blocked specs)
    have "\<forall>s \<in> set specs. check_spec (spi_runId input) s = Inr ()"
      using traverse_image [OF planned(4)] candidate_spec_checked by blast
    then show ?thesis
      using planned(5,6) False build_guards(2) [OF b]
      by (simp add: assertValidSpecialistPlan_def traverse_units)
  qed
qed

lemma built_counts:
  assumes b: "buildSpecialistPlan sha collate input = Inr plan" and "planMode (spi_decision input) \<noteq> DIRECT"
    and "pn_rejectedReason plan = None"
  shows "int (length (pn_specs plan)) \<le> fanout_of input
    \<and> length (pn_specs plan) + pn_fanoutBlocked plan + pn_deduplicated plan
        = length (nullish (spi_candidates input)
            (candidatesFromDecision (spi_decision input) (spi_goal input) (spi_repositoryAdvice input)))"
proof -
  have "select_specs sha collate input (fanout_of input) = Inr plan" using build_guards(5) [OF b] assms(2) by simp
  then show ?thesis
  proof (cases rule: selected_cases)
    case (rejected dedup blocked why)
    then show ?thesis using assms(3) by simp
  next
    case (planned uniq dedup allowed blocked specs)
    have n: "length specs = length allowed" using traverse_length [OF planned(4)] by simp
    have l: "length allowed = min (length uniq) (nat (fanout_of input))" using planned(2) by (simp add: length_sort_by)
    show ?thesis
      using dedupe_counts [OF planned(1)] n l planned(3,6) build_guards(1) [OF b] by auto
  qed
qed

section \<open>Readiness\<close>

text \<open>A graph without a cycle has, among any of its nodes that are left, one all of whose dependencies are settled.\<close>

lemma some_spec_ready:
  assumes "validateDependencyGraph specs = Inr ()" and "s \<in> set specs" and "spc_specialistId s \<notin> settled"
  shows "\<exists>t \<in> set specs. spc_specialistId t \<notin> settled \<and> set (spc_dependsOn t) \<subseteq> settled"
proof -
  have d: "distinct (map spc_specialistId specs)" and k: "dependencies_known specs"
    and a: "acyclic (depends (spec_graph specs))"
    using assms(1) by (simp_all add: validate_exact)
  let ?r = "depends (spec_graph specs)"
  have "?r \<subseteq> (spc_specialistId ` set specs) \<times> (spc_specialistId ` set specs)"
    using k unfolding depends_spec_graph [OF d] dependencies_known_def by blast
  then have "finite ?r" by (rule finite_subset) simp
  then have w: "wf (?r\<inverse>)" using a by (simp add: finite_acyclic_wf_converse)
  let ?open = "spc_specialistId ` set specs - settled"
  have "spc_specialistId s \<in> ?open" using assms(2,3) by blast
  from wfE_min [OF w this] obtain i where i: "i \<in> ?open" "\<And>j. (j, i) \<in> ?r\<inverse> \<Longrightarrow> j \<notin> ?open" by blast
  obtain t where t: "t \<in> set specs" "spc_specialistId t = i" using i(1) by blast
  have "j \<in> settled" if "j \<in> set (spc_dependsOn t)" for j
  proof -
    have "(j, i) \<in> ?r\<inverse>" using that t unfolding depends_spec_graph [OF d] by blast
    moreover have "j \<in> spc_specialistId ` set specs" using k t(1) that unfolding dependencies_known_def by blast
    ultimately show ?thesis using i(2) by blast
  qed
  then show ?thesis using t i(1) by blast
qed

end
