(* ===== verification/Routing_Laws.thy ===== *)
theory Routing_Laws
  imports Specialist_Laws
begin

text \<open>
  The router and the planner together: whatever the prompt, the plan that is built from its decision is
  valid, and it is rejected exactly when the decision asks for specialists and names none.
\<close>

section \<open>Candidates of a decision\<close>

definition domain_text :: "specialist_domain \<Rightarrow> string" where
  "domain_text d = lower_case (domain_name d)"

lemma domain_texts [simp]:
  "domain_text DEBUG = ''debug''" "domain_text SECURITY = ''security''" "domain_text UI = ''ui''"
  "domain_text BACKEND = ''backend''" "domain_text DEVOPS = ''devops''" "domain_text RELEASE = ''release''"
  "domain_text REVIEW = ''review''" "domain_text ARCHITECTURE = ''architecture''"
  by (simp_all add: domain_text_def lower_case_def js_lower_def is_upper_def char_code_def char_of_def bit_Suc_0_iff)

definition spec_id :: "specialist_domain \<Rightarrow> string" where
  "spec_id d = domain_text d @ ''-'' @ SPECIALIST_AGENT_MAP d"

lemma spec_id_inj: "spec_id d = spec_id e \<longleftrightarrow> d = e"
  by (cases d; cases e) (simp_all add: spec_id_def)

lemma spec_id_trim: "trim (spec_id d) = spec_id d" "spec_id d \<noteq> []"
  by (cases d; simp add: spec_id_def trim_hd_last is_white_def char_code_def)+

abbreviation routed :: "router_decision \<Rightarrow> string \<Rightarrow> repository_advice option \<Rightarrow> specialist_domain \<Rightarrow> specialist_candidate" where
  "routed decision goal advice d \<equiv> domain_candidate decision goal advice d (SPECIALIST_AGENT_MAP d)"

definition routed_deps :: "router_decision \<Rightarrow> specialist_domain \<Rightarrow> string list" where
  "routed_deps decision d =
     (if fr_reasonCode decision = ''MULTI_DEEP_MIGRATION'' \<and> d = REVIEW then [spec_id ARCHITECTURE] else [])"

lemma routed_simps [simp]:
  "spd_id (routed decision goal advice d) = Some (spec_id d)"
  "spd_capability (routed decision goal advice d) = d"
  "spd_targetAgent (routed decision goal advice d) = SPECIALIST_AGENT_MAP d"
  "spd_dependsOn (routed decision goal advice d) = Some (routed_deps decision d)"
  by (simp_all add: domain_candidate_def spec_id_def domain_text_def [symmetric] routed_deps_def Let_def)

lemma routed_objective:
  "\<exists>t. spd_objective (routed decision goal advice d) = Some (CHR ''P'' # t)"
  by (simp add: domain_candidate_def Let_def)

lemma pair_agents_map: "pair_agents ds (map SPECIALIST_AGENT_MAP ds) = map (\<lambda>d. (d, SPECIALIST_AGENT_MAP d)) ds"
proof -
  have "SPECIALIST_AGENT_MAP d \<noteq> []" for d by (cases d) simp_all
  then show ?thesis by (induction ds) auto
qed

lemma routed_candidates:
  "fr_specialists decision = Some ds \<Longrightarrow> fr_suggestedAgents decision = Some (map SPECIALIST_AGENT_MAP ds) \<Longrightarrow>
     candidatesFromDecision decision goal advice = map (routed decision goal advice) ds"
  by (simp add: candidatesFromDecision_def pair_agents_map)

section \<open>Nothing is a duplicate\<close>

lemma routed_identity:
  "candidate_identity (routed decision goal advice d) = candidate_identity (routed decision goal advice e) \<longleftrightarrow> d = e"
  unfolding candidate_identity_def routed_simps by (cases d; cases e) simp_all

lemma update_new: "map_of m k = None \<Longrightarrow> AList.update k v m = m @ [(k, v)]"
  by (induction m) (auto split: if_splits)

lemma dedupe_distinct:
  "distinct (map candidate_identity cs) \<Longrightarrow> set (map candidate_identity cs) \<inter> fst ` set uniq = {} \<Longrightarrow>
     dedupe cs uniq n = (uniq @ map (\<lambda>c. (candidate_identity c, scoped c)) cs, n)"
proof (induction cs arbitrary: uniq)
  case (Cons c cs)
  have none: "map_of uniq (candidate_identity c) = None"
    using Cons.prems(2) by (simp add: map_of_eq_None_iff)
  have d: "candidate_identity c \<notin> set (map candidate_identity cs)" "distinct (map candidate_identity cs)"
    using Cons.prems(1) by simp_all
  have e: "set (map candidate_identity cs) \<inter> fst ` set (uniq @ [(candidate_identity c, scoped c)]) = {}"
    using Cons.prems(2) d(1) by auto
  from Cons.IH [OF d(2) e] none show ?case by (simp add: update_new)
qed simp

section \<open>The specs\<close>

text \<open>What the planner makes of a domain.\<close>

definition spec_for :: "router_decision \<Rightarrow> specialist_domain \<Rightarrow> planner_spec \<Rightarrow> bool" where
  "spec_for decision d s \<longleftrightarrow>
     spc_specialistId s = spec_id d \<and> spc_capability s = d \<and> spc_targetAgent s = SPECIALIST_AGENT_MAP d
     \<and> spc_dependsOn s = routed_deps decision d"

lemma routed_spec:
  "\<exists>s. candidate_spec sha runId goal (i, scoped (routed decision goal advice d)) = Inr s \<and> spec_for decision d s"
proof -
  obtain a where a: "asCanonicalSubagent (SPECIALIST_AGENT_MAP d) = Inr a" using target_ok agent_map_known by blast
  obtain t where t: "spd_objective (routed decision goal advice d) = Some (CHR ''P'' # t)" using routed_objective by blast
  have nonempty: "trim (CHR ''P'' # t) \<noteq> []" by (rule trim_nonempty) (simp_all add: is_white_def char_code_def)
  have "sort (js_unique (routed_deps decision d)) = routed_deps decision d"
    by (simp add: routed_deps_def js_unique_def js_add_def)
  then show ?thesis using a t nonempty
    by (simp add: candidate_spec_def Let_def spec_for_def str_or_def spec_id_trim)
qed

lemma routed_specs:
  "\<exists>specs. traverse (candidate_spec sha runId goal) (enumerate n (map (\<lambda>d. scoped (routed decision goal advice d)) ds)) = Inr specs
     \<and> list_all2 (spec_for decision) ds specs"
proof (induction ds arbitrary: n)
  case (Cons d ds)
  from Cons [of "Suc n"] routed_spec [of sha runId goal n decision advice d] show ?case by fastforce
qed simp

lemma specs_graph:
  assumes l: "list_all2 (spec_for decision) ds specs" and d: "distinct ds"
    and deep: "fr_reasonCode decision = ''MULTI_DEEP_MIGRATION'' \<Longrightarrow> REVIEW \<in> set ds \<Longrightarrow> ARCHITECTURE \<in> set ds"
  shows "validateDependencyGraph specs = Inr ()"
proof -
  have ids: "map spc_specialistId specs = map spec_id ds"
    using l by (induction rule: list_all2_induct) (simp_all add: spec_for_def)
  have known: "\<exists>e \<in> set ds. spec_for decision e s" if "s \<in> set specs" for s
    using l that by (metis in_set_conv_nth list_all2_conv_all_nth)
  have dist: "distinct (map spc_specialistId specs)"
    unfolding ids using d by (simp add: distinct_map inj_on_def spec_id_inj)
  have in_plan: "spec_id e \<in> spc_specialistId ` set specs" if "e \<in> set ds" for e
    using that ids by (metis image_eqI list.set_map)
  have deps: "dependencies_known specs"
    unfolding dependencies_known_def
  proof (intro ballI)
    fix s assume "s \<in> set specs"
    then obtain e where e: "e \<in> set ds" "spec_for decision e s" using known by blast
    then show "spc_specialistId s \<notin> set (spc_dependsOn s) \<and> distinct (spc_dependsOn s)
        \<and> set (spc_dependsOn s) \<subseteq> spc_specialistId ` set specs"
      using in_plan deep by (auto simp: spec_for_def routed_deps_def spec_id_inj)
  qed
  have "depends (spec_graph specs) \<subseteq> {(spec_id REVIEW, spec_id ARCHITECTURE)}"
    unfolding depends_spec_graph [OF dist] using known by (force simp: spec_for_def routed_deps_def split: if_splits)
  moreover have "acyclic {(spec_id REVIEW, spec_id ARCHITECTURE)}"
  proof -
    have "acyclic ({} :: (string \<times> string) set)" by (simp add: acyclic_def)
    then show ?thesis by (simp add: acyclic_insert spec_id_inj)
  qed
  ultimately have "acyclic (depends (spec_graph specs))" using acyclic_subset by blast
  then show ?thesis using dist deps by (simp add: validate_exact)
qed

section \<open>The plan of a routed prompt\<close>

text \<open>Only the branch of the deep patterns carries their reason code.\<close>

lemma route_to_simps [simp]:
  "fr_reasonCode (route_to e cls mode ds reason code confidence forced) = code"
  "fr_specialists (route_to e cls mode ds reason code confidence forced) = ds"
  "fr_executionClass (route_to e cls mode ds reason code confidence forced) = cls"
  "fr_executionMode (route_to e cls mode ds reason code confidence forced) = Some mode"
  by (simp_all add: route_to_def)

lemma other_codes:
  "fr_reasonCode (parallel_decision e hints ds) \<noteq> ''MULTI_DEEP_MIGRATION''"
  "fr_reasonCode (default_decision e hints text) \<noteq> ''MULTI_DEEP_MIGRATION''"
  "fr_reasonCode (explicit_decision e mode text) \<noteq> ''MULTI_DEEP_MIGRATION''"
  by (simp_all add: parallel_decision_def default_decision_def explicit_decision_def Let_def split: execution_mode.split)

lemma deep_code:
  "fr_reasonCode (classifyTask prompt hints) = ''MULTI_DEEP_MIGRATION'' \<Longrightarrow>
     fr_specialists (classifyTask prompt hints) = Some [ARCHITECTURE, REVIEW]"
  unfolding classifyTask_def Let_def
  by (simp add: other_codes split: option.splits if_splits)

text \<open>The input with which the router's decision is handed to the planner.\<close>

definition routed_input :: "string \<Rightarrow> string \<Rightarrow> router_decision \<Rightarrow> repository_advice option \<Rightarrow> planner_input" where
  "routed_input runId goal decision advice = \<lparr>
     spi_runId = runId, spi_goal = goal, spi_decision = decision, spi_candidates = None, spi_policy = None,
     spi_callerDepth = None, spi_repositoryAdvice = advice\<rparr>"

lemma select_routed:
  assumes ok: "decision_ok decision" and ds: "fr_specialists decision = Some ds"
    and deep: "fr_reasonCode decision = ''MULTI_DEEP_MIGRATION'' \<Longrightarrow> ds = [ARCHITECTURE, REVIEW]"
  shows "\<exists>plan. select_specs sha collate (routed_input runId goal decision advice) 3 = Inr plan
           \<and> pn_rejectedReason plan = None \<and> length (pn_specs plan) = min 3 (length ds)
           \<and> (\<forall>s \<in> set (pn_specs plan). spc_capability s \<in> set ds \<and> spc_targetAgent s = SPECIALIST_AGENT_MAP (spc_capability s))"
proof -
  let ?in = "routed_input runId goal decision advice"
  let ?f = "\<lambda>d. scoped (routed decision goal advice d)"
  have d: "distinct ds" and ag: "fr_suggestedAgents decision = Some (map SPECIALIST_AGENT_MAP ds)"
    and mode: "planMode decision = executionModeForClass (fr_executionClass decision)"
    and len: "case executionModeForClass (fr_executionClass decision) of
       DIRECT \<Rightarrow> False | SINGLE_SPECIALIST \<Rightarrow> length ds = 1 | MULTI_SPECIALIST \<Rightarrow> 2 \<le> length ds"
    using ok ds by (auto simp: decision_ok_def planMode_def)
  define order where "order = sort_by (\<lambda>a b. collate (sort_text (?f a)) (sort_text (?f b))) ds"
  define cut where "cut = take 3 order"
  have c: "distinct cut" "length cut = min 3 (length ds)" "set cut \<subseteq> set ds"
    using d by (auto simp: cut_def order_def length_sort_by dest: in_set_takeD)
  have cands: "candidatesFromDecision decision goal advice = map (routed decision goal advice) ds"
    by (rule routed_candidates [OF ds ag])
  have "distinct (map candidate_identity (map (routed decision goal advice) ds))"
    using d by (simp add: distinct_map comp_def inj_on_def routed_identity)
  from dedupe_distinct [OF this, of "[]" 0]
  have dd: "dedupe (map (routed decision goal advice) ds) [] 0
      = (map (\<lambda>d. (candidate_identity (routed decision goal advice d), ?f d)) ds, 0)"
    by (simp add: comp_def)
  have sel: "sort_by (\<lambda>a b. collate (sort_text a) (sort_text b)) (map ?f ds) = map ?f order"
    unfolding order_def by (rule sort_by_map)
  obtain specs where specs: "traverse (candidate_spec sha runId goal) (enumerate 0 (map ?f cut)) = Inr specs"
    "list_all2 (spec_for decision) cut specs"
    using routed_specs [of sha runId goal 0 decision advice cut] by blast
  have n: "length specs = min 3 (length ds)" using specs(2) c(2) by (simp add: list_all2_lengthD [symmetric])
  have v: "validateDependencyGraph specs = Inr ()"
  proof (rule specs_graph [OF specs(2) c(1)])
    assume "fr_reasonCode decision = ''MULTI_DEEP_MIGRATION''"
    then have "ds = [ARCHITECTURE, REVIEW]" by (rule deep)
    then have "set cut = {ARCHITECTURE, REVIEW}" unfolding cut_def order_def by (simp add: length_sort_by)
    then show "ARCHITECTURE \<in> set cut" by simp
  qed
  have counts: "\<not> (planMode decision = SINGLE_SPECIALIST \<and> length specs \<noteq> 1)"
    "\<not> (planMode decision = MULTI_SPECIALIST \<and> length specs < 2)"
    using len mode n by auto
  have "select_specs sha collate ?in 3 = Inr (plan_with ?in specs 0 (length order - length cut) None)"
    unfolding select_specs_def
    using specs(1) v counts
    by (simp add: routed_input_def cands dd comp_def sel cut_def take_map Let_def) blast
  moreover have caps: "\<forall>s \<in> set specs. spc_capability s \<in> set ds \<and> spc_targetAgent s = SPECIALIST_AGENT_MAP (spc_capability s)"
  proof
    fix s assume "s \<in> set specs"
    then obtain e where "e \<in> set cut" "spec_for decision e s"
      using specs(2) by (metis in_set_conv_nth list_all2_conv_all_nth)
    then show "spc_capability s \<in> set ds \<and> spc_targetAgent s = SPECIALIST_AGENT_MAP (spc_capability s)"
      using c(3) by (simp add: spec_for_def subset_iff)
  qed
  moreover define plan where "plan = plan_with ?in specs 0 (length order - length cut) None"
  moreover have "pn_specs plan = specs" "pn_rejectedReason plan = None" unfolding plan_def by simp_all
  ultimately have "select_specs sha collate ?in 3 = Inr plan \<and> pn_rejectedReason plan = None
      \<and> length (pn_specs plan) = min 3 (length ds)
      \<and> (\<forall>s \<in> set (pn_specs plan). spc_capability s \<in> set ds \<and> spc_targetAgent s = SPECIALIST_AGENT_MAP (spc_capability s))"
    using n by (simp only: HOL.simp_thms)
  then show ?thesis ..
qed

section \<open>Evaluation of patterns\<close>

text \<open>What a proof needs to run the patterns on a text in lower case.\<close>

lemmas pattern_simps = regex_test_def lower_case_def js_lower_def is_upper_def is_lower_def is_digit_def is_word_def
  char_code_def matchesAny_def seq'_def oneof_def plus_def word_before_def word_after_def is_white_def line_end_def
  repeat.simps

text \<open>A task that is refused the help of agents in these words is taken to ask for it.\<close>

theorem refusal_read_as_request:
  "fr_executionMode (classifyTask ''do not use multiple agents'' no_hints) = Some MULTI_SPECIALIST
   \<and> fr_reasonCode (classifyTask ''do not use multiple agents'' no_hints) = ''USER_REQUESTED_MULTI_SPECIALIST''
   \<and> fr_executionMode (classifyTask ''you must not delegate this'' no_hints) = Some SINGLE_SPECIALIST
   \<and> fr_reasonCode (classifyTask ''you must not delegate this'' no_hints) = ''USER_REQUESTED_SPECIALIST''"
proof -
  have t: "trim ''do not use multiple agents'' = ''do not use multiple agents''"
    "trim ''you must not delegate this'' = ''you must not delegate this''"
    by (simp_all add: trim_hd_last is_white_def char_code_def)
  have "explicitlyRequestedMode ''do not use multiple agents'' = Some MULTI_SPECIALIST"
    "explicitlyRequestedMode ''you must not delegate this'' = Some SINGLE_SPECIALIST"
    unfolding explicitlyRequestedMode_def EXPLICIT_DIRECT_PATTERNS_def EXPLICIT_MULTI_SPECIALIST_PATTERNS_def
      EXPLICIT_SINGLE_SPECIALIST_PATTERNS_def
    by (simp_all add: pattern_simps)
  then show ?thesis unfolding classifyTask_def Let_def t by (simp add: explicit_decision_def)
qed

text \<open>C28. Every decision of the router is well formed: the mode is that of the class, a direct decision names no
  specialist, a single one exactly one or none and a multiple one at least two different ones or none, each with its
  own agent, which the registry has as a subagent.\<close>

theorem router_decision_well_formed:
  "decision_ok (classifyTask prompt hints)
   \<and> set (nullish (fr_suggestedAgents (classifyTask prompt hints)) []) \<subseteq> set getSubagentIds"
proof -
  have ok: "decision_ok (classifyTask prompt hints)" by (rule classified_ok)
  then have "fr_suggestedAgents (classifyTask prompt hints) = None
      \<or> (\<exists>ds. fr_suggestedAgents (classifyTask prompt hints) = Some (map SPECIALIST_AGENT_MAP ds))"
    unfolding decision_ok_def by (cases "fr_specialists (classifyTask prompt hints)") auto
  then show ?thesis using ok agent_map_known by auto
qed

lemma build_of_select:
  assumes "trim runId \<noteq> []" and "trim goal \<noteq> []"
  shows "buildSpecialistPlan sha collate (routed_input runId goal decision advice)
    = (if planMode decision = DIRECT then Inr (plan_with (routed_input runId goal decision advice) [] 0 0 None)
       else select_specs sha collate (routed_input runId goal decision advice) 3)"
  using assms by (simp add: buildSpecialistPlan_def routed_input_def DEFAULT_MAX_SPECIALISTS_def)

lemma select_none:
  assumes "fr_specialists decision = None"
  shows "\<exists>plan. select_specs sha collate (routed_input runId goal decision advice) 3
      = Inr plan \<and> pn_specs plan = []
      \<and> (planMode decision \<noteq> DIRECT \<longrightarrow> pn_rejectedReason plan \<noteq> None)"
proof -
  have "candidatesFromDecision decision goal advice = []"
    using assms by (simp add: candidatesFromDecision_def)
  then show ?thesis
    by (cases "planMode decision") (auto simp: select_specs_def routed_input_def sort_by_def)
qed

text \<open>An explicit request for several specialists names none.\<close>

lemma explicit_multi_unnamed:
  "explicitlyRequestedMode (trim prompt) = Some MULTI_SPECIALIST \<Longrightarrow> fr_specialists (classifyTask prompt hints) = None"
  by (simp add: classifyTask_def Let_def explicit_decision_def)

lemma full_rewrite_deep:
  "trim ''full rewrite'' = ''full rewrite''"
  "fr_specialists (classifyTask ''full rewrite'' no_hints) = Some [ARCHITECTURE, REVIEW]"
  "planMode (classifyTask ''full rewrite'' no_hints) = MULTI_SPECIALIST"
  "fr_reasonCode (classifyTask ''full rewrite'' no_hints) = ''MULTI_DEEP_MIGRATION''"
proof -
  show t: "trim ''full rewrite'' = ''full rewrite''" by (simp add: trim_def is_white_def char_code_def)
  have e: "explicitlyRequestedMode ''full rewrite'' = None" "matchesAny ''full rewrite'' DEEP_PATTERNS"
    unfolding explicitlyRequestedMode_def EXPLICIT_DIRECT_PATTERNS_def EXPLICIT_MULTI_SPECIALIST_PATTERNS_def
      EXPLICIT_SINGLE_SPECIALIST_PATTERNS_def DEEP_PATTERNS_def
    by (simp_all add: pattern_simps)
  show "fr_specialists (classifyTask ''full rewrite'' no_hints) = Some [ARCHITECTURE, REVIEW]"
    "planMode (classifyTask ''full rewrite'' no_hints) = MULTI_SPECIALIST"
    "fr_reasonCode (classifyTask ''full rewrite'' no_hints) = ''MULTI_DEEP_MIGRATION''"
    unfolding classifyTask_def Let_def t planMode_def using e by simp_all
qed

text \<open>C27. Whatever the prompt, the plan built for a run and a goal that are not blank from the router's decision, under the
  default policy, is never an error. It is a valid plan of at most three specialists, and it is rejected exactly when the decision asks for specialists and names
  none - as every explicit request for several of them does.\<close>

theorem routed_plan_valid:
  assumes "trim runId \<noteq> []" and "trim goal \<noteq> []"
  shows "\<exists>plan. buildSpecialistPlan sha collate (routed_input runId goal (classifyTask prompt hints) advice) = Inr plan
    \<and> assertValidSpecialistPlan plan = Inr ()
    \<and> length (pn_specs plan) = min 3 (length (nullish (fr_specialists (classifyTask prompt hints)) []))
    \<and> (pn_rejectedReason plan \<noteq> None \<longleftrightarrow>
         planMode (classifyTask prompt hints) \<noteq> DIRECT \<and> fr_specialists (classifyTask prompt hints) = None)"
proof -
  let ?d = "classifyTask prompt hints"
  let ?in = "routed_input runId goal ?d advice"
  have ok: "decision_ok ?d" by (rule classified_ok)
  have "\<exists>plan. buildSpecialistPlan sha collate ?in = Inr plan
      \<and> length (pn_specs plan) = min 3 (length (nullish (fr_specialists ?d) []))
      \<and> (pn_rejectedReason plan \<noteq> None \<longleftrightarrow> planMode ?d \<noteq> DIRECT \<and> fr_specialists ?d = None)"
  proof (cases "planMode ?d = DIRECT")
    case True
    then have "fr_specialists ?d = None"
      using ok by (auto simp: decision_ok_def planMode_def split: option.splits)
    then show ?thesis using True unfolding build_of_select [OF assms] by simp
  next
    case False
    show ?thesis
    proof (cases "fr_specialists ?d")
      case None
      then show ?thesis using select_none [OF None, of sha collate runId goal advice] False
        unfolding build_of_select [OF assms] by auto
    next
      case (Some ds)
      have "fr_reasonCode ?d = ''MULTI_DEEP_MIGRATION'' \<Longrightarrow> ds = [ARCHITECTURE, REVIEW]"
        using deep_code Some by simp
      then show ?thesis using select_routed [OF ok Some, of sha collate runId goal advice] False Some
        unfolding build_of_select [OF assms] by auto
    qed
  qed
  then show ?thesis using built_valid by blast
qed

theorem routed_plan_valid_witness:
  "\<exists>plan. buildSpecialistPlan id (\<le>) (routed_input ''run'' ''full rewrite'' (classifyTask ''full rewrite'' no_hints) None) = Inr plan
     \<and> assertValidSpecialistPlan plan = Inr () \<and> length (pn_specs plan) = 2"
proof -
  have "trim ''run'' \<noteq> []" "trim ''full rewrite'' \<noteq> []" by (simp_all add: trim_def is_white_def char_code_def)
  from routed_plan_valid [OF this, of id "(\<le>)" "''full rewrite''" no_hints None] show ?thesis
    by (auto simp: full_rewrite_deep)
qed

section \<open>Plans in general\<close>

text \<open>C29. A plan that \<open>buildSpecialistPlan\<close> returns, for whatever decision and candidates, is one that
  \<open>assertValidSpecialistPlan\<close> accepts; unless it is rejected or its mode is DIRECT, it stays within the fan-out of the policy, and every
  candidate is in it, or counted as a duplicate, or counted as blocked.\<close>

theorem built_plan_valid:
  assumes "buildSpecialistPlan sha collate input = Inr plan"
  shows "assertValidSpecialistPlan plan = Inr ()
    \<and> (planMode (spi_decision input) \<noteq> DIRECT \<and> pn_rejectedReason plan = None \<longrightarrow>
         int (length (pn_specs plan)) \<le> fanout_of input
         \<and> length (pn_specs plan) + pn_fanoutBlocked plan + pn_deduplicated plan
             = length (nullish (spi_candidates input)
                 (candidatesFromDecision (spi_decision input) (spi_goal input) (spi_repositoryAdvice input))))"
  using built_valid [OF assms] built_counts [OF assms] by blast

theorem built_plan_valid_witness:
  "\<exists>plan. buildSpecialistPlan id (\<le>) (routed_input ''run'' ''full rewrite'' (classifyTask ''full rewrite'' no_hints) None) = Inr plan
     \<and> assertValidSpecialistPlan plan = Inr () \<and> int (length (pn_specs plan)) \<le> 3"
proof -
  let ?d = "classifyTask ''full rewrite'' no_hints"
  have t: "trim ''run'' \<noteq> []" "trim ''full rewrite'' \<noteq> []" by (simp_all add: trim_def is_white_def char_code_def)
  obtain plan where p: "select_specs id (\<le>) (routed_input ''run'' ''full rewrite'' ?d None) 3 = Inr plan" "pn_rejectedReason plan = None"
    using select_routed [OF classified_ok full_rewrite_deep(2), of id "(\<le>)" "''run''" "''full rewrite''" None] by auto
  then have b: "buildSpecialistPlan id (\<le>) (routed_input ''run'' ''full rewrite'' ?d None) = Inr plan"
    unfolding build_of_select [OF t] full_rewrite_deep(3) by simp
  have "fanout_of (routed_input ''run'' ''full rewrite'' ?d None) = 3"
    by (simp add: fanout_of_def routed_input_def DEFAULT_MAX_SPECIALISTS_def)
  then show ?thesis
    using built_plan_valid [OF b] p(2) b full_rewrite_deep(3) by (simp add: routed_input_def)
qed

text \<open>C30. Until every specialist of a valid plan has settled, one that has not is ready, so running the ready ones settles
  the plan.\<close>

theorem ready_until_settled:
  assumes "assertValidSpecialistPlan plan = Inr ()" and "s \<in> set (pn_specs plan)" and "spc_specialistId s \<notin> settled"
  shows "\<exists>t \<in> set (readySpecialistSpecs plan settled). spc_specialistId t \<notin> settled"
proof -
  have "validateDependencyGraph (pn_specs plan) = Inr ()"
    using assms(1) by (auto simp: assertValidSpecialistPlan_def split: if_splits sum.splits)
  from some_spec_ready [OF this assms(2,3)] show ?thesis
    by (auto simp: readySpecialistSpecs_def list_all_iff)
qed

definition chained_spec :: "string \<Rightarrow> string list \<Rightarrow> planner_spec" where
  "chained_spec i deps = \<lparr>
     spc_specialistId = i, spc_capability = BACKEND, spc_role = ''backend-specialist'',
     spc_targetAgent = ''backend-coder'', spc_objective = ''x'', spc_scope = [''backend''], spc_expectedEvidence = [],
     spc_allowedTools = None, spc_dependsOn = deps, spc_required = True, spc_priority = PriorityNormal,
     spc_parentRunId = ''run'', spc_modelPolicy = ''inherit''\<rparr>"

definition chained_plan :: planner_plan where
  "chained_plan = \<lparr>
     pn_version = ''1.0.0'', pn_runId = ''run'', pn_executionMode = MULTI_SPECIALIST, pn_reasonCode = ''x'',
     pn_specs = [chained_spec ''two'' [''one''], chained_spec ''one'' []], pn_deduplicated = 0, pn_fanoutBlocked = 0,
     pn_rejectedReason = None\<rparr>"

lemma chained_valid: "assertValidSpecialistPlan chained_plan = Inr ()"
proof -
  have "asCanonicalSubagent ''backend-coder'' = Inr agent_backend_coder"
    by (simp add: asCanonicalSubagent_def)
  then have "check_spec ''run'' (chained_spec i deps) = Inr ()" for i deps
    by (simp add: check_spec_def chained_spec_def trim_def is_white_def char_code_def)
  moreover have "validateDependencyGraph (pn_specs chained_plan) = Inr ()"
    by (simp add: validateDependencyGraph_def chained_plan_def chained_spec_def spec_graph_def)
  ultimately show ?thesis
    by (simp add: assertValidSpecialistPlan_def chained_plan_def trim_def is_white_def char_code_def)
qed

theorem ready_until_settled_witness:
  "\<exists>t \<in> set (readySpecialistSpecs chained_plan {''one''}). spc_specialistId t = ''two''"
proof -
  have "chained_spec ''two'' [''one''] \<in> set (pn_specs chained_plan)" by (simp add: chained_plan_def)
  from ready_until_settled [OF chained_valid this, of "{''one''}"]
  obtain t where "t \<in> set (readySpecialistSpecs chained_plan {''one''})" "spc_specialistId t \<notin> {''one''}"
    by (auto simp: chained_spec_def)
  then show ?thesis by (auto simp: readySpecialistSpecs_def chained_plan_def chained_spec_def)
qed

end
