(* ===== verification/Task_Intelligence.thy ===== *)
theory Task_Intelligence
  imports Canonical_Registry Graph_Walk
begin

text \<open>
  The assessment of a task and the routing decision made from it (\<open>orchestration/routing/intelligence.ts\<close>,
  \<open>planning.ts\<close>, \<open>activation.ts\<close> and \<open>contracts/task-intelligence.ts\<close>), and the execution plan that is
  derived from a decision (\<open>orchestration/execution/planner.ts\<close>).

  \<open>sha\<close> is the hexadecimal SHA-256 digest of the runtime's library, \<open>collate\<close> the order of \<open>localeCompare\<close> and
  \<open>dt\<close> the datetime test of the schema library. A schema is the test that its parser applies to values of
  its type. A property that is undefined is left out of the object whose fingerprint is taken.
\<close>

section \<open>Contracts\<close>

datatype task_class =
    SmallBugTask | LargeBugTask | FeatureTask | RefactorTask | ArchitectureTask | InvestigationTask
  | SecurityTask | PerformanceTask | TestingTask | DocumentationTask | MigrationTask | ReleaseTask
  | CiInfrastructureTask | DependencyTask | CodeReviewTask | AuditTask | MultiComponentTask | UnknownTask

fun class_name :: "task_class \<Rightarrow> string" where
  "class_name SmallBugTask = ''small_bug''"
| "class_name LargeBugTask = ''large_bug''"
| "class_name FeatureTask = ''feature''"
| "class_name RefactorTask = ''refactor''"
| "class_name ArchitectureTask = ''architecture''"
| "class_name InvestigationTask = ''investigation''"
| "class_name SecurityTask = ''security''"
| "class_name PerformanceTask = ''performance''"
| "class_name TestingTask = ''testing''"
| "class_name DocumentationTask = ''documentation''"
| "class_name MigrationTask = ''migration''"
| "class_name ReleaseTask = ''release''"
| "class_name CiInfrastructureTask = ''ci_infrastructure''"
| "class_name DependencyTask = ''dependency''"
| "class_name CodeReviewTask = ''code_review''"
| "class_name AuditTask = ''audit''"
| "class_name MultiComponentTask = ''multi_component''"
| "class_name UnknownTask = ''unknown''"

datatype parallelism_level = ParallelNone | ParallelLimited | ParallelHigh

fun parallelism_name :: "parallelism_level \<Rightarrow> string" where
  "parallelism_name ParallelNone = ''none''"
| "parallelism_name ParallelLimited = ''limited''"
| "parallelism_name ParallelHigh = ''high''"

datatype execution_strategy =
    StratDirect | StratInvestigateThenDirect | StratPlanThenExecute | StratDebugRootCause
  | StratParallelImplementation | StratSecurityReview | StratPerformanceInvestigation | StratAuditOnly
  | StratChangeThenIndependentReview

fun strategy_text :: "execution_strategy \<Rightarrow> string" where
  "strategy_text StratDirect = ''direct''"
| "strategy_text StratInvestigateThenDirect = ''investigate_then_direct''"
| "strategy_text StratPlanThenExecute = ''plan_then_execute''"
| "strategy_text StratDebugRootCause = ''debug_root_cause''"
| "strategy_text StratParallelImplementation = ''parallel_implementation''"
| "strategy_text StratSecurityReview = ''security_review''"
| "strategy_text StratPerformanceInvestigation = ''performance_investigation''"
| "strategy_text StratAuditOnly = ''audit_only''"
| "strategy_text StratChangeThenIndependentReview = ''change_then_independent_review''"

record routing_evidence =
  evi_id :: string
  evi_kind :: string
  evi_signal :: string
  evi_value :: string
  evi_weight :: nat

record task_score =
  sco_score :: nat
  sco_evidence :: "routing_evidence list"

record task_assessment =
  asm_assessmentId :: string
  asm_runId :: string
  asm_taskClass :: task_class
  asm_complexity :: task_score
  asm_ambiguity :: task_score
  asm_risk :: task_score
  asm_parallelism :: parallelism_level
  asm_evidence :: "routing_evidence list"
  asm_classifierVersion :: string
  asm_policyVersion :: string
  asm_createdAt :: string

record routed_workstream =
  wst_id :: string
  wst_ownership :: "string list"
  wst_dependsOn :: "string list"
  wst_rationale :: string

record delegation_recommendation =
  dlg_agentId :: string
  dlg_capability :: string
  dlg_ownership :: "string list"
  dlg_rationale :: string

datatype routing_authority = AuthRecommendation | AuthOwnershipResolved | AuthEnforceable

record routing_decision =
  rtd_routingDecisionId :: string
  rtd_runId :: string
  rtd_decisionVersion :: nat
  rtd_sourceSha :: string
  rtd_routingMode :: "routing_authority option"
  rtd_assessment :: task_assessment
  rtd_strategy :: execution_strategy
  rtd_delegate :: bool
  rtd_delegations :: "delegation_recommendation list"
  rtd_workstreams :: "routed_workstream list"
  rtd_budgetRecommendation :: budget_profile
  rtd_modelRecommendation :: string
  rtd_rationale :: "string list"
  rtd_rejectedAlternatives :: "string list"
  rtd_policyVersion :: string
  rtd_createdAt :: string
  rtd_finalized :: bool

definition CLASSIFIER_VERSION :: string where "CLASSIFIER_VERSION = ''2.0.0''"

definition ROUTING_POLICY_VERSION :: string where "ROUTING_POLICY_VERSION = ''2.0.0''"

definition evidence_schema :: "routing_evidence \<Rightarrow> bool" where
  "evidence_schema e \<longleftrightarrow>
     evi_id e \<noteq> [] \<and> evi_kind e \<noteq> [] \<and> evi_signal e \<noteq> [] \<and> evi_value e \<noteq> [] \<and> evi_weight e \<le> 100"

definition score_schema :: "task_score \<Rightarrow> bool" where
  "score_schema s \<longleftrightarrow> sco_score s \<le> 100 \<and> list_all evidence_schema (sco_evidence s) \<and> sco_evidence s \<noteq> []"

definition assessment_schema :: "(string \<Rightarrow> bool) \<Rightarrow> task_assessment \<Rightarrow> bool" where
  "assessment_schema dt a \<longleftrightarrow>
     asm_assessmentId a \<noteq> [] \<and> asm_runId a \<noteq> []
     \<and> score_schema (asm_complexity a) \<and> score_schema (asm_ambiguity a) \<and> score_schema (asm_risk a)
     \<and> list_all evidence_schema (asm_evidence a) \<and> asm_evidence a \<noteq> []
     \<and> asm_classifierVersion a \<noteq> [] \<and> asm_policyVersion a \<noteq> [] \<and> dt (asm_createdAt a)"

definition routed_workstream_schema :: "routed_workstream \<Rightarrow> bool" where
  "routed_workstream_schema w \<longleftrightarrow>
     wst_id w \<noteq> [] \<and> list_all (\<lambda>p. p \<noteq> []) (wst_ownership w) \<and> wst_ownership w \<noteq> [] \<and> wst_rationale w \<noteq> []"

definition delegation_schema :: "delegation_recommendation \<Rightarrow> bool" where
  "delegation_schema d \<longleftrightarrow>
     dlg_agentId d \<noteq> [] \<and> dlg_capability d \<noteq> [] \<and> list_all (\<lambda>p. p \<noteq> []) (dlg_ownership d)
     \<and> dlg_ownership d \<noteq> [] \<and> dlg_rationale d \<noteq> []"

definition decision_schema :: "(string \<Rightarrow> bool) \<Rightarrow> routing_decision \<Rightarrow> bool" where
  "decision_schema dt d \<longleftrightarrow>
     rtd_routingDecisionId d \<noteq> [] \<and> rtd_runId d \<noteq> [] \<and> 0 < rtd_decisionVersion d \<and> schema_sha (rtd_sourceSha d)
     \<and> assessment_schema dt (rtd_assessment d)
     \<and> list_all delegation_schema (rtd_delegations d) \<and> list_all routed_workstream_schema (rtd_workstreams d)
     \<and> rtd_modelRecommendation d \<noteq> [] \<and> list_all (\<lambda>r. r \<noteq> []) (rtd_rationale d) \<and> rtd_rationale d \<noteq> []
     \<and> rtd_policyVersion d \<noteq> [] \<and> dt (rtd_createdAt d) \<and> rtd_finalized d"

datatype routing_error =
    RoutingSchemaInvalid
  | RoutingDuplicateEvidence
  | RoutingDuplicateWorkstream
  | RoutingOverlappingOwnership
  | RoutingUnknownDependency
  | RoutingDependencyCycle
  | RoutingEnforceNotReady "string list"
  | RoutingUnknownTaskClass string

section \<open>Fingerprints\<close>

fun canonicalize :: "(string \<Rightarrow> string \<Rightarrow> bool) \<Rightarrow> json \<Rightarrow> string" where
  "canonicalize collate (JArr xs) = ''['' @ join '','' (sort (map (canonicalize collate) xs)) @ '']''"
| "canonicalize collate (JObj ps) =
     ''{'' @ join '','' (map snd (sort_by (\<lambda>a b. collate (fst a) (fst b))
        (map (\<lambda>p. (fst p, json_quote (fst p) @ '':'' @ canonicalize collate (snd p))) ps))) @ ''}''"
| "canonicalize collate v = json_str v"

definition fingerprint :: "(string \<Rightarrow> string) \<Rightarrow> (string \<Rightarrow> string \<Rightarrow> bool) \<Rightarrow> json \<Rightarrow> string" where
  "fingerprint sha collate v = sha (canonicalize collate v)"

definition assertUniqueEvidence :: "routing_evidence list \<Rightarrow> routing_error + unit" where
  "assertUniqueEvidence es = (if distinct (map evi_id es) then Inr () else Inl RoutingDuplicateEvidence)"

section \<open>Classification\<close>

record task_input =
  tin_runId :: string
  tin_task :: string
  tin_paths :: "string list option"
  tin_constraints :: "string list option"
  tin_repositorySignals :: "string list option"
  tin_sourceSha :: string
  tin_contractId :: "string option"

definition token_char :: "char \<Rightarrow> bool" where
  "token_char c \<longleftrightarrow> is_lower c \<or> is_digit c \<or> c \<in> set ''_./-''"

fun chunks :: "(char \<Rightarrow> bool) \<Rightarrow> string \<Rightarrow> string \<Rightarrow> string list" where
  "chunks P cur [] = [rev cur]"
| "chunks P cur (c # cs) = (if P c then chunks P (c # cur) cs else rev cur # chunks P [] cs)"

text \<open>Every other character becomes a space, at which the text is split.\<close>

definition words :: "string \<Rightarrow> string list" where
  "words s = filter (\<lambda>w. w \<noteq> []) (chunks token_char [] (lower_case s))"

definition has :: "string list \<Rightarrow> string list \<Rightarrow> bool" where
  "has all signals = list_ex (\<lambda>s. List.member all s \<or> list_ex (\<lambda>x. str_includes x s) all) signals"

definition evi :: "string \<Rightarrow> string \<Rightarrow> string \<Rightarrow> string \<Rightarrow> nat \<Rightarrow> routing_evidence" where
  "evi i kind signal val weight =
     \<lparr>evi_id = i, evi_kind = kind, evi_signal = signal, evi_value = val, evi_weight = weight\<rparr>"

definition normalized :: "task_input \<Rightarrow> string list" where
  "normalized input =
     sort (words (tin_task input) @ concat (map words (nullish (tin_paths input) []))
           @ concat (map words (nullish (tin_constraints input) []))
           @ concat (map words (nullish (tin_repositorySignals input) [])))"

definition assess_class :: "task_input \<Rightarrow> task_class" where
  "assess_class input =
     (let w = normalized input in
      if has w [''security'', ''auth'', ''authorization'', ''secret'', ''cryptography'', ''payment''] then SecurityTask
      else if has w [''migration'', ''migrate'', ''schema'', ''database''] then MigrationTask
      else if has w [''release'', ''publish'', ''npm'', ''version'', ''tag''] then ReleaseTask
      else if has w [''ci'', ''github'', ''workflow'', ''pipeline'', ''deploy'', ''infrastructure''] then CiInfrastructureTask
      else if has w [''performance'', ''latency'', ''slow'', ''benchmark'', ''throughput''] then PerformanceTask
      else if has w [''documentation'', ''docs'', ''readme'', ''changelog''] then DocumentationTask
      else if has w [''test'', ''testing'', ''coverage'', ''regression''] then TestingTask
      else if has w [''audit'', ''review'', ''compliance''] then if has w [''review''] then CodeReviewTask else AuditTask
      else if has w [''dependency'', ''upgrade'', ''package''] then DependencyTask
      else if has w [''architecture'', ''design'', ''system''] then ArchitectureTask
      else if has w [''investigate'', ''research'', ''find'', ''why''] then InvestigationTask
      else if has w [''refactor'', ''restructure'', ''cleanup''] then RefactorTask
      else if has w [''bug'', ''fix'', ''broken'', ''regression''] then
        if has w [''large'', ''cross'', ''multiple''] then LargeBugTask else SmallBugTask
      else if has w [''feature'', ''add'', ''build'', ''implement'', ''create''] then
        if 3 < length (nullish (tin_paths input) []) then MultiComponentTask else FeatureTask
      else UnknownTask)"

section \<open>Scores\<close>

definition unique_paths :: "task_input \<Rightarrow> string list" where
  "unique_paths input = sort (js_unique (nullish (tin_paths input) []))"

definition complexity_signals :: "task_input \<Rightarrow> nat list" where
  "complexity_signals input =
     (let w = normalized input in
      [min 40 (length (unique_paths input) * 8),
       if has w [''api'', ''ui'', ''database'', ''schema''] then 20 else 0,
       if has w [''concurrency'', ''parallel'', ''distributed''] then 20 else 0,
       if has w [''integration'', ''external'', ''provider''] then 15 else 0])"

definition ambiguity_signals :: "task_input \<Rightarrow> task_class \<Rightarrow> nat list" where
  "ambiguity_signals input taskClass =
     (let w = normalized input in
      [if length (trim (tin_task input)) < 30 then 35 else 0,
       if nullish (tin_constraints input) [] \<noteq> [] then 0 else 20,
       if taskClass = UnknownTask then 45 else 0,
       if has w [''unclear'', ''maybe'', ''tbd'', ''figure''] then 30 else 0])"

definition risk_signals :: "task_input \<Rightarrow> nat list" where
  "risk_signals input =
     (let w = normalized input in
      [if has w [''security'', ''auth'', ''authorization'', ''secret'', ''cryptography'', ''payment''] then 75 else 0,
       if has w [''migration'', ''schema'', ''database'', ''delete'', ''production'', ''deploy'', ''release''] then 65 else 0,
       if has w [''concurrency'', ''transaction'', ''locking''] then 55 else 0])"

definition weighted :: "(string \<Rightarrow> string) \<Rightarrow> (string \<Rightarrow> string \<Rightarrow> bool) \<Rightarrow> task_input \<Rightarrow> nat list \<Rightarrow> string \<Rightarrow> task_score" where
  "weighted sha collate input vals name =
     (let raw = min 100 (sum_list vals);
          print = fingerprint sha collate (JObj [(''w'', JArr (map JStr (normalized input))),
                                                 (''paths'', JArr (map JStr (unique_paths input)))])
      in \<lparr>sco_score = raw, sco_evidence = [evi (name @ ''-'' @ take 12 print) ''score'' name (nat_str raw) raw]\<rparr>)"

text \<open>Complexity, ambiguity and risk, and the evidence for them and for the class.\<close>

definition score :: "(string \<Rightarrow> string) \<Rightarrow> (string \<Rightarrow> string \<Rightarrow> bool) \<Rightarrow> task_input \<Rightarrow> task_class
    \<Rightarrow> routing_error + task_score \<times> task_score \<times> task_score \<times> routing_evidence list" where
  "score sha collate input taskClass =
     (let complexity = weighted sha collate input (complexity_signals input) ''complexity'';
          ambiguity = weighted sha collate input (ambiguity_signals input taskClass) ''ambiguity'';
          riskRaw = weighted sha collate input (risk_signals input) ''risk'';
          evidence = sco_evidence complexity @ sco_evidence ambiguity @ sco_evidence riskRaw;
          risk = riskRaw\<lparr>sco_score := max (sco_score riskRaw) (if taskClass = SecurityTask then 75 else 0)\<rparr>
      in case assertUniqueEvidence evidence of
           Inl e \<Rightarrow> Inl e
         | Inr _ \<Rightarrow>
             Inr (complexity, ambiguity, risk,
               evi (''class-'' @ take 12 (fingerprint sha collate (JObj [(''w'', JArr (map JStr (normalized input)))])))
                 ''classification'' ''taskClass'' (class_name taskClass) 100 # evidence))"

definition opt_strings :: "string \<Rightarrow> string list option \<Rightarrow> (string \<times> json) list" where
  "opt_strings k v = opt_prop k (map_option (\<lambda>xs. JArr (map JStr xs)) v)"

definition input_props :: "task_input \<Rightarrow> (string \<times> json) list" where
  "input_props input =
     [(''runId'', JStr (tin_runId input)), (''task'', JStr (tin_task input))]
     @ opt_strings ''paths'' (tin_paths input) @ opt_strings ''constraints'' (tin_constraints input)
     @ opt_strings ''repositorySignals'' (tin_repositorySignals input)
     @ [(''sourceSha'', JStr (tin_sourceSha input))] @ opt_prop ''contractId'' (map_option JStr (tin_contractId input))"

definition epoch_text :: string where
  "epoch_text = ''1970-01-01T00:00:00.000Z''"

definition assessTask :: "(string \<Rightarrow> string) \<Rightarrow> (string \<Rightarrow> string \<Rightarrow> bool) \<Rightarrow> (string \<Rightarrow> bool) \<Rightarrow> task_input
    \<Rightarrow> routing_error + task_assessment" where
  "assessTask sha collate dt input =
     (let taskClass = assess_class input; n = length (nullish (tin_paths input) []) in
      case score sha collate input taskClass of
        Inl e \<Rightarrow> Inl e
      | Inr (complexity, ambiguity, risk, evidence) \<Rightarrow>
          let a = \<lparr>
            asm_assessmentId = ''asm_'' @ take 24 (fingerprint sha collate
              (JObj (input_props input @ [(''taskClass'', JStr (class_name taskClass))]))),
            asm_runId = tin_runId input,
            asm_taskClass = taskClass,
            asm_complexity = complexity,
            asm_ambiguity = ambiguity,
            asm_risk = risk,
            asm_parallelism = (if 3 < n then ParallelHigh else if 1 < n then ParallelLimited else ParallelNone),
            asm_evidence = evidence,
            asm_classifierVersion = CLASSIFIER_VERSION,
            asm_policyVersion = ROUTING_POLICY_VERSION,
            asm_createdAt = epoch_text\<rparr>
          in if assessment_schema dt a then Inr a else Inl RoutingSchemaInvalid)"

section \<open>Workstreams of a decision\<close>

definition routed_workstreams :: "task_input \<Rightarrow> routed_workstream list" where
  "routed_workstreams input =
     map (\<lambda>(i, path). \<lparr>wst_id = ''ws-'' @ nat_str (i + 1), wst_ownership = [path], wst_dependsOn = [],
                         wst_rationale = ''Distinct normalized ownership path''\<rparr>)
       (enumerate 0 (unique_paths input))"

definition paths_clash :: "string \<Rightarrow> string \<Rightarrow> bool" where
  "paths_clash existing path \<longleftrightarrow>
     existing = path \<or> starts_with existing (path @ ''/'') \<or> starts_with path (existing @ ''/'')"

fun claim_paths :: "string list \<Rightarrow> string list \<Rightarrow> routing_error + string list" where
  "claim_paths owned [] = Inr owned"
| "claim_paths owned (path # paths) =
     (if list_ex (\<lambda>existing. paths_clash existing path) owned then Inl RoutingOverlappingOwnership
      else claim_paths (path # owned) paths)"

fun check_streams :: "string list \<Rightarrow> string list \<Rightarrow> string list \<Rightarrow> routed_workstream list \<Rightarrow> routing_error + unit" where
  "check_streams all ids owned [] = Inr ()"
| "check_streams all ids owned (w # ws) =
     (if wst_id w \<in> set ids then Inl RoutingDuplicateWorkstream
      else case claim_paths owned (wst_ownership w) of
          Inl e \<Rightarrow> Inl e
        | Inr owned' \<Rightarrow>
            if list_ex (\<lambda>d. d \<notin> set all) (wst_dependsOn w) then Inl RoutingUnknownDependency
            else check_streams all (wst_id w # ids) owned' ws)"

definition stream_graph :: "routed_workstream list \<Rightarrow> (string \<times> string list) list" where
  "stream_graph ws = map (\<lambda>w. (wst_id w, wst_dependsOn w)) ws"

definition validateWorkstreams :: "routed_workstream list \<Rightarrow> routing_error + unit" where
  "validateWorkstreams ws =
     (case check_streams (map wst_id ws) [] [] ws of
        Inl e \<Rightarrow> Inl e
      | Inr _ \<Rightarrow>
          (case walk_each (stream_graph ws) [] [] (map wst_id ws) of
             None \<Rightarrow> Inl RoutingDependencyCycle
           | Some _ \<Rightarrow> Inr ()))"

section \<open>The decision\<close>

record strategy_choice =
  stc_strategy :: execution_strategy
  stc_rationale :: "string list"
  stc_rejected :: "string list"

definition chooseStrategy :: "task_assessment \<Rightarrow> strategy_choice" where
  "chooseStrategy a =
     (if asm_taskClass a = SecurityTask \<or> 75 \<le> sco_score (asm_risk a) then
        \<lparr>stc_strategy = StratSecurityReview, stc_rationale = [''security-sensitive signal or mandatory risk floor''],
         stc_rejected = [''direct'']\<rparr>
      else if asm_taskClass a = InvestigationTask \<or> 50 \<le> sco_score (asm_ambiguity a) then
        \<lparr>stc_strategy = StratInvestigateThenDirect, stc_rationale = [''ambiguity requires repository evidence before mutation''],
         stc_rejected = [''direct'']\<rparr>
      else if asm_parallelism a = ParallelHigh \<and> 40 \<le> sco_score (asm_complexity a) then
        \<lparr>stc_strategy = StratParallelImplementation, stc_rationale = [''independent ownership paths and sufficient complexity''],
         stc_rejected = [''direct'']\<rparr>
      else if asm_taskClass a = LargeBugTask then
        \<lparr>stc_strategy = StratDebugRootCause, stc_rationale = [''large bug requires root-cause isolation''],
         stc_rejected = [''direct'']\<rparr>
      else if asm_taskClass a = AuditTask \<or> asm_taskClass a = CodeReviewTask then
        \<lparr>stc_strategy = StratAuditOnly, stc_rationale = [''task requests inspection without mutation''],
         stc_rejected = [''direct'']\<rparr>
      else if 40 \<le> sco_score (asm_complexity a) then
        \<lparr>stc_strategy = StratPlanThenExecute, stc_rationale = [''cross-surface complexity requires explicit plan''],
         stc_rejected = [''direct'']\<rparr>
      else
        \<lparr>stc_strategy = StratDirect, stc_rationale = [''small, bounded task with no elevated risk or ambiguity''],
         stc_rejected = [''parallel_implementation'', ''plan_then_execute'']\<rparr>)"

definition requested_agents :: "task_assessment \<Rightarrow> execution_strategy \<Rightarrow> string list" where
  "requested_agents a strategy =
     (if asm_taskClass a = SecurityTask then [''security-auditor'', ''reviewer'']
      else if strategy = StratParallelImplementation then [''backend-coder'', ''frontend-coder'', ''tester'']
      else if asm_taskClass a = InvestigationTask then [''researcher'', ''mapper'']
      else [])"

text \<open>The paths whose position has the remainder \<open>index\<close>.\<close>

definition every_nth :: "nat \<Rightarrow> nat \<Rightarrow> 'a list \<Rightarrow> 'a list" where
  "every_nth n index xs = map snd (filter (\<lambda>(i, x). i mod n = index) (enumerate 0 xs))"

definition recommend :: "task_input \<Rightarrow> nat \<Rightarrow> nat \<times> string \<Rightarrow> delegation_recommendation" where
  "recommend input n ia =
     \<lparr>dlg_agentId = snd ia,
      dlg_capability = (case getCanonicalAgent (snd ia) of None \<Rightarrow> ''specialist''
         | Some a \<Rightarrow> (case ca_allowedTaskTypes a of [] \<Rightarrow> ''specialist'' | t # ts \<Rightarrow> t)),
      dlg_ownership = (if unique_paths input \<noteq> [] then every_nth n (fst ia) (unique_paths input) else [''task'']),
      dlg_rationale = ''Canonical registry capability match with deterministic ownership partition''\<rparr>"

definition recommend_specialists :: "task_assessment \<Rightarrow> execution_strategy \<Rightarrow> task_input \<Rightarrow> delegation_recommendation list" where
  "recommend_specialists a strategy input =
     (let requested = requested_agents a strategy in
      filter (\<lambda>r. dlg_ownership r \<noteq> [])
        (map (recommend input (length requested))
          (enumerate 0 (filter (\<lambda>i. List.member getAllAgentIds i \<and> \<not> List.member getPrimaryAgentIds i) requested))))"

definition evidence_json :: "routing_evidence \<Rightarrow> json" where
  "evidence_json e = JObj [(''id'', JStr (evi_id e)), (''kind'', JStr (evi_kind e)), (''signal'', JStr (evi_signal e)),
     (''value'', JStr (evi_value e)), (''weight'', JNum (int (evi_weight e)))]"

definition score_json :: "task_score \<Rightarrow> json" where
  "score_json s = JObj [(''score'', JNum (int (sco_score s))), (''evidence'', JArr (map evidence_json (sco_evidence s)))]"

definition assessment_json :: "task_assessment \<Rightarrow> json" where
  "assessment_json a = JObj
     [(''assessmentId'', JStr (asm_assessmentId a)), (''runId'', JStr (asm_runId a)),
      (''taskClass'', JStr (class_name (asm_taskClass a))), (''complexity'', score_json (asm_complexity a)),
      (''ambiguity'', score_json (asm_ambiguity a)), (''risk'', score_json (asm_risk a)),
      (''parallelism'', JStr (parallelism_name (asm_parallelism a))),
      (''evidence'', JArr (map evidence_json (asm_evidence a))),
      (''classifierVersion'', JStr (asm_classifierVersion a)), (''policyVersion'', JStr (asm_policyVersion a)),
      (''createdAt'', JStr (asm_createdAt a))]"

definition strings_json :: "string list \<Rightarrow> json" where
  "strings_json xs = JArr (map JStr xs)"

definition stream_json :: "routed_workstream \<Rightarrow> json" where
  "stream_json w = JObj [(''id'', JStr (wst_id w)), (''ownership'', strings_json (wst_ownership w)),
     (''dependsOn'', strings_json (wst_dependsOn w)), (''rationale'', JStr (wst_rationale w))]"

definition delegation_json :: "delegation_recommendation \<Rightarrow> json" where
  "delegation_json d = JObj [(''agentId'', JStr (dlg_agentId d)), (''capability'', JStr (dlg_capability d)),
     (''ownership'', strings_json (dlg_ownership d)), (''rationale'', JStr (dlg_rationale d))]"

definition choice_json :: "strategy_choice \<Rightarrow> json" where
  "choice_json c = JObj [(''strategy'', JStr (strategy_text (stc_strategy c))),
     (''rationale'', strings_json (stc_rationale c)), (''rejected'', strings_json (stc_rejected c))]"

definition recommended_budget :: "task_assessment \<Rightarrow> budget_profile" where
  "recommended_budget a =
     (if 75 \<le> sco_score (asm_risk a) then ProfileDeepAudit
      else if 40 \<le> sco_score (asm_complexity a) then ProfileAudit
      else if 20 \<le> sco_score (asm_complexity a) then ProfileNormal
      else ProfileSmall)"

definition routed_decision :: "(string \<Rightarrow> string) \<Rightarrow> (string \<Rightarrow> string \<Rightarrow> bool) \<Rightarrow> task_input \<Rightarrow> task_assessment
    \<Rightarrow> routing_decision" where
  "routed_decision sha collate input a =
     (let selected = chooseStrategy a; ws = routed_workstreams input;
          delegations = recommend_specialists a (stc_strategy selected) input
      in \<lparr>rtd_routingDecisionId = ''route_'' @ take 24 (fingerprint sha collate
            (JObj [(''input'', JObj (input_props input)), (''assessment'', assessment_json a),
                   (''selected'', choice_json selected), (''ws'', JArr (map stream_json ws)),
                   (''delegations'', JArr (map delegation_json delegations))])),
          rtd_runId = tin_runId input,
          rtd_decisionVersion = 1,
          rtd_sourceSha = tin_sourceSha input,
          rtd_routingMode = Some AuthEnforceable,
          rtd_assessment = a,
          rtd_strategy = stc_strategy selected,
          rtd_delegate = (delegations \<noteq> []),
          rtd_delegations = delegations,
          rtd_workstreams = ws,
          rtd_budgetRecommendation = recommended_budget a,
          rtd_modelRecommendation = ''advisory-only: preserve configured model'',
          rtd_rationale = stc_rationale selected,
          rtd_rejectedAlternatives = stc_rejected selected,
          rtd_policyVersion = ROUTING_POLICY_VERSION,
          rtd_createdAt = epoch_text,
          rtd_finalized = True\<rparr>)"

definition routeTask :: "(string \<Rightarrow> string) \<Rightarrow> (string \<Rightarrow> string \<Rightarrow> bool) \<Rightarrow> (string \<Rightarrow> bool) \<Rightarrow> task_input
    \<Rightarrow> routing_error + routing_decision" where
  "routeTask sha collate dt input =
     (case assessTask sha collate dt input of
        Inl e \<Rightarrow> Inl e
      | Inr a \<Rightarrow>
          (case validateWorkstreams (routed_workstreams input) of
             Inl e \<Rightarrow> Inl e
           | Inr _ \<Rightarrow>
               let d = routed_decision sha collate input a
               in if decision_schema dt d then Inr d else Inl RoutingSchemaInvalid))"

section \<open>Activation\<close>

text \<open>The evidence is the list of its entries; those that do not hold are missing.\<close>

definition assertEnforceReady :: "(string \<times> bool) list \<Rightarrow> routing_error + unit" where
  "assertEnforceReady evidence =
     (let missing = map fst (filter (\<lambda>e. \<not> snd e) evidence)
      in if missing \<noteq> [] then Inl (RoutingEnforceNotReady missing) else Inr ())"

section \<open>The execution plan of a decision\<close>

definition delegation_map :: "delegation_recommendation list \<Rightarrow> (string \<times> delegation_recommendation) list" where
  "delegation_map ds = foldl (\<lambda>m d. case dlg_ownership d of [] \<Rightarrow> m | p # ps \<Rightarrow> AList.update p d m) [] ds"

definition direct_workstream :: routed_workstream where
  "direct_workstream = \<lparr>wst_id = ''direct'', wst_ownership = [''**''], wst_dependsOn = [],
     wst_rationale = ''Primary execution remains authoritative''\<rparr>"

definition resolve_delegation :: "(string \<times> delegation_recommendation) list \<Rightarrow> string list \<Rightarrow> delegation_recommendation option" where
  "resolve_delegation m paths =
     (case List.find (\<lambda>d. d \<noteq> None) (map (map_of m) paths) of None \<Rightarrow> None | Some d \<Rightarrow> d)"

definition planned_workstream :: "routing_decision \<Rightarrow> routed_workstream \<Rightarrow> workstream" where
  "planned_workstream d w =
     (let delegation = resolve_delegation (delegation_map (rtd_delegations d)) (wst_ownership w) in
      \<lparr>w_id = rtd_routingDecisionId d @ '':'' @ wst_id w,
       w_runId = rtd_runId d,
       w_planId = ''plan_'' @ rtd_routingDecisionId d,
       w_resolvedAgent = (case delegation of None \<Rightarrow> ''heidi'' | Some r \<Rightarrow> dlg_agentId r),
       w_requiredCapability = (case delegation of None \<Rightarrow> ''orchestrator'' | Some r \<Rightarrow> dlg_capability r),
       w_objective = wst_rationale w,
       w_requirements = [wst_rationale w],
       w_acceptanceCriteria = [],
       w_ownedPaths = wst_ownership w,
       w_ownedSymbols = [],
       w_dependsOn = map (\<lambda>dep. rtd_routingDecisionId d @ '':'' @ dep) (wst_dependsOn w),
       w_strategy = strategy_text (rtd_strategy d),
       w_budgetProfile = rtd_budgetRecommendation d,
       w_contextScope = (if asm_taskClass (rtd_assessment d) = AuditTask then ScopeAudit else ScopeOwned),
       w_status = WPlanned,
       w_worktreeRef = None,
       w_branchRef = None,
       w_blockedBy = [],
       w_failureReason = None,
       w_createdAt = rtd_createdAt d\<rparr>)"

definition executionPlanFromRouting :: "(string \<Rightarrow> bool) \<Rightarrow> (string \<Rightarrow> string \<Rightarrow> bool) \<Rightarrow> routing_decision
    \<Rightarrow> exec_error + plan" where
  "executionPlanFromRouting dt collate d =
     (if rtd_routingMode d = Some AuthRecommendation then Inl RoutingDecisionRecommendationOnly
      else if rtd_delegate d \<and> rtd_delegations d = [] then Inl RoutingDelegationOwnershipUnresolved
      else if rtd_strategy d = StratParallelImplementation \<and> rtd_workstreams d = [] then
        Inl RoutingParallelWorkstreamsUnresolved
      else
        let source = (if rtd_workstreams d \<noteq> [] then rtd_workstreams d else [direct_workstream]);
            p = \<lparr>p_planId = ''plan_'' @ rtd_routingDecisionId d,
                 p_runId = rtd_runId d,
                 p_routingDecisionId = rtd_routingDecisionId d,
                 p_sourceSha = rtd_sourceSha d,
                 p_policyVersion = rtd_policyVersion d,
                 p_workstreams = map (planned_workstream d) source,
                 p_createdAt = rtd_createdAt d,
                 p_status = None,
                 p_startedAt = None,
                 p_completedAt = None\<rparr>
        in if \<not> plan_schema dt p then Inl SchemaInvalid
           else case analyzeDependencies dt collate p of
               Inl e \<Rightarrow> Inl e
             | Inr _ \<Rightarrow> Inr p)"

section \<open>Names of task classes\<close>

definition task_class_names :: "string list" where
  "task_class_names = map class_name
     [SmallBugTask, LargeBugTask, FeatureTask, RefactorTask, ArchitectureTask, InvestigationTask, SecurityTask,
      PerformanceTask, TestingTask, DocumentationTask, MigrationTask, ReleaseTask, CiInfrastructureTask, DependencyTask,
      CodeReviewTask, AuditTask, MultiComponentTask, UnknownTask]"

definition assertCanonicalTaskClass :: "string \<Rightarrow> routing_error + unit" where
  "assertCanonicalTaskClass v =
     (if List.member task_class_names v then Inr () else Inl (RoutingUnknownTaskClass v))"

end
