(* ===== verification/Task_Laws.thy ===== *)
theory Task_Laws
  imports Task_Intelligence
begin

text \<open>
  What the routing of a task guarantees: when it succeeds, that its scores are percentages, that a task
  with a security signal gets the review and the budget for it, that the delegations share the paths out
  among subagents, and what becomes of them in the execution plan.
\<close>

section \<open>Scores\<close>

lemma weighted_bounds:
  "sco_score (weighted sha collate input vals name) \<le> 100"
  "name \<noteq> [] \<Longrightarrow> score_schema (weighted sha collate input vals name)"
  by (simp_all add: weighted_def Let_def score_schema_def evidence_schema_def evi_def)

lemma weighted_id:
  "map evi_id (sco_evidence (weighted sha collate input vals name))
     = [name @ ''-'' @ take 12 (fingerprint sha collate (JObj [(''w'', JArr (map JStr (normalized input))),
                                                 (''paths'', JArr (map JStr (unique_paths input)))]))]"
  by (simp add: weighted_def Let_def evi_def)

lemma score_unique:
  "assertUniqueEvidence
     (sco_evidence (weighted sha collate input v1 ''complexity'')
      @ sco_evidence (weighted sha collate input v2 ''ambiguity'')
      @ sco_evidence (weighted sha collate input v3 ''risk'')) = Inr ()"
  unfolding assertUniqueEvidence_def map_append weighted_id by simp

text \<open>The evidence never clashes, so scoring succeeds.\<close>

lemma score_total:
  "\<exists>c a r es. score sha collate input cls = Inr (c, a, r, es)
     \<and> c = weighted sha collate input (complexity_signals input) ''complexity''
     \<and> a = weighted sha collate input (ambiguity_signals input cls) ''ambiguity''
     \<and> sco_score r = max (min 100 (sum_list (risk_signals input))) (if cls = SecurityTask then 75 else 0)
     \<and> score_schema c \<and> score_schema a \<and> score_schema r \<and> es \<noteq> [] \<and> list_all evidence_schema es"
proof -
  define c where "c = weighted sha collate input (complexity_signals input) ''complexity''"
  define a where "a = weighted sha collate input (ambiguity_signals input cls) ''ambiguity''"
  define r where "r = weighted sha collate input (risk_signals input) ''risk''"
  define r' where "r' = r\<lparr>sco_score := max (sco_score r) (if cls = SecurityTask then 75 else 0)\<rparr>"
  define e where "e = evi (''class-'' @ take 12 (fingerprint sha collate (JObj [(''w'', JArr (map JStr (normalized input)))])))
     ''classification'' ''taskClass'' (class_name cls) 100"
  have ok: "score_schema c" "score_schema a" "score_schema r"
    unfolding c_def a_def r_def by (rule weighted_bounds(2), simp)+
  have "class_name cls \<noteq> []" by (cases cls) simp_all
  then have e: "evidence_schema e" by (simp add: e_def evidence_schema_def evi_def)
  have rs: "sco_score r = min 100 (sum_list (risk_signals input))" by (simp add: r_def weighted_def Let_def)
  have unique: "assertUniqueEvidence (sco_evidence c @ sco_evidence a @ sco_evidence r) = Inr ()"
    unfolding c_def a_def r_def by (rule score_unique)
  have "score sha collate input cls = Inr (c, a, r', e # sco_evidence c @ sco_evidence a @ sco_evidence r)"
    unfolding score_def Let_def c_def [symmetric] a_def [symmetric] r_def [symmetric] unique r'_def e_def by simp
  moreover have "score_schema r'" using ok(3) by (simp add: r'_def score_schema_def)
  moreover have "sco_score r' = max (min 100 (sum_list (risk_signals input))) (if cls = SecurityTask then 75 else 0)"
    by (simp add: r'_def rs)
  moreover have "list_all evidence_schema (e # sco_evidence c @ sco_evidence a @ sco_evidence r)"
    using ok e by (simp add: score_schema_def)
  ultimately show ?thesis using ok(1,2) unfolding c_def a_def by blast
qed

lemma assessed:
  assumes "dt epoch_text"
  shows "tin_runId input \<noteq> [] \<Longrightarrow> \<exists>a. assessTask sha collate dt input = Inr a"
    and "tin_runId input = [] \<Longrightarrow> assessTask sha collate dt input = Inl RoutingSchemaInvalid"
    and "assessTask sha collate dt input = Inr a \<Longrightarrow>
       asm_taskClass a = assess_class input \<and> assessment_schema dt a \<and> tin_runId input \<noteq> []
       \<and> asm_complexity a = weighted sha collate input (complexity_signals input) ''complexity''
       \<and> asm_ambiguity a = weighted sha collate input (ambiguity_signals input (assess_class input)) ''ambiguity''
       \<and> sco_score (asm_risk a)
           = max (min 100 (sum_list (risk_signals input))) (if assess_class input = SecurityTask then 75 else 0)"
  using score_total [of sha collate input "assess_class input"] assms
  by (auto simp: assessTask_def Let_def assessment_schema_def CLASSIFIER_VERSION_def ROUTING_POLICY_VERSION_def
      split: if_splits)

section \<open>Workstreams\<close>

lemma paths_clash_sym: "paths_clash a b \<longleftrightarrow> paths_clash b a"
  by (auto simp: paths_clash_def)

definition numbered :: "nat \<Rightarrow> string list \<Rightarrow> routed_workstream list" where
  "numbered n ps = map (\<lambda>(i, path). \<lparr>wst_id = ''ws-'' @ nat_str (i + 1), wst_ownership = [path], wst_dependsOn = [],
                         wst_rationale = ''Distinct normalized ownership path''\<rparr>) (enumerate n ps)"

lemma numbered_simps [simp]:
  "numbered n [] = []"
  "numbered n (p # ps) = \<lparr>wst_id = ''ws-'' @ nat_str (n + 1), wst_ownership = [p], wst_dependsOn = [],
      wst_rationale = ''Distinct normalized ownership path''\<rparr> # numbered (Suc n) ps"
  by (simp_all add: numbered_def)

lemma routed_numbered: "routed_workstreams input = numbered 0 (unique_paths input)"
  by (simp add: routed_workstreams_def numbered_def)

fun no_clash :: "string list \<Rightarrow> string list \<Rightarrow> bool" where
  "no_clash owned [] = True"
| "no_clash owned (p # ps) = ((\<forall>e \<in> set owned. \<not> paths_clash e p) \<and> no_clash (p # owned) ps)"

lemma check_numbered:
  "\<forall>i \<in> set ids. \<exists>k \<le> n. i = ''ws-'' @ nat_str k \<Longrightarrow>
     check_streams all ids owned (numbered n ps) = (if no_clash owned ps then Inr () else Inl RoutingOverlappingOwnership)"
proof (induction ps arbitrary: n ids owned)
  case (Cons p ps)
  have fresh: "''ws-'' @ nat_str (n + 1) \<notin> set ids"
  proof
    assume "''ws-'' @ nat_str (n + 1) \<in> set ids"
    then obtain k where "k \<le> n" "''ws-'' @ nat_str (n + 1) = ''ws-'' @ nat_str k" using Cons.prems by blast
    then show False using nat_str_inj [of "n + 1" k] by simp
  qed
  have "\<forall>i \<in> set ((''ws-'' @ nat_str (n + 1)) # ids). \<exists>k \<le> Suc n. i = ''ws-'' @ nat_str k"
    using Cons.prems by (metis Suc_eq_plus1 le_SucI order_refl set_ConsD)
  from Cons.IH [OF this, of "p # owned"] fresh show ?case by (auto simp: list_ex_iff)
qed simp

lemma numbered_graph:
  "walk_each (stream_graph (numbered n ps)) [] [] (map wst_id (numbered n ps)) \<noteq> None"
proof -
  let ?g = "stream_graph (numbered n ps)"
  have none: "map_of ?g i = Some ds \<Longrightarrow> ds = []" for i ds
    by (induction ps arbitrary: n) (auto simp: stream_graph_def split: if_splits)
  have "closed_graph ?g" unfolding closed_graph_def using none by fastforce
  moreover have "depends ?g = {}" unfolding depends_def using none by fastforce
  moreover have "set (map wst_id (numbered n ps)) = dom (map_of ?g)"
    by (simp add: stream_graph_def dom_map_of_conv_image_fst image_image)
  ultimately show ?thesis using walk_exact [of ?g] by (simp add: acyclic_def)
qed

lemma validate_routed:
  "validateWorkstreams (routed_workstreams input)
     = (if no_clash [] (unique_paths input) then Inr () else Inl RoutingOverlappingOwnership)"
  unfolding routed_numbered
  using check_numbered [of "[]" 0] numbered_graph [of 0 "unique_paths input"]
  by (auto simp: validateWorkstreams_def split: option.splits)

text \<open>The paths claim different parts of the tree.\<close>

lemma no_clash_iff:
  "no_clash owned ps \<longleftrightarrow> (\<forall>e \<in> set owned. \<forall>p \<in> set ps. \<not> paths_clash e p) \<and> no_clash [] ps"
proof (induction ps arbitrary: owned)
  case (Cons p ps)
  from Cons [of "p # owned"] Cons [of "[p]"] show ?case by auto
qed simp

lemma no_clash_pairs:
  "distinct ps \<Longrightarrow> no_clash [] ps \<longleftrightarrow> (\<forall>a \<in> set ps. \<forall>b \<in> set ps. a \<noteq> b \<longrightarrow> \<not> paths_clash a b)"
proof (induction ps)
  case (Cons p ps)
  have "no_clash [] (p # ps) \<longleftrightarrow> (\<forall>b \<in> set ps. \<not> paths_clash p b) \<and> no_clash [] ps"
    using no_clash_iff [of "[p]" ps] by simp
  then show ?case using Cons paths_clash_sym by auto
qed simp

section \<open>Delegations\<close>

lemma every_nth_iff: "x \<in> set (every_nth n i xs) \<longleftrightarrow> (\<exists>k < length xs. k mod n = i \<and> xs ! k = x)"
proof -
  have "x \<in> set (every_nth n i xs) \<longleftrightarrow> (\<exists>k. (k, x) \<in> set (enumerate 0 xs) \<and> k mod n = i)"
    by (force simp: every_nth_def)
  also have "\<dots> \<longleftrightarrow> (\<exists>k < length xs. k mod n = i \<and> xs ! k = x)"
    by (auto simp: in_set_enumerate_eq)
  finally show ?thesis .
qed

lemma every_nth_subset: "set (every_nth n i xs) \<subseteq> set xs"
  by (auto simp: every_nth_iff)

lemma distinct_every_nth: "distinct xs \<Longrightarrow> distinct (every_nth n i xs)"
proof -
  assume d: "distinct xs"
  have "inj_on snd (set (enumerate 0 xs))"
    using d by (auto simp: inj_on_def in_set_enumerate_eq nth_eq_iff_index_eq)
  then show ?thesis unfolding every_nth_def
    by (auto simp: distinct_map intro: distinct_filter inj_on_subset)
qed

lemma primary_ids: "getPrimaryAgentIds = [''heidi'', ''orchestrator'']"
  by (simp add: getPrimaryAgentIds_def CANONICAL_AGENTS_def)

text \<open>The agents that can be requested are all known and none is primary.\<close>

lemma requested_known:
  "filter (\<lambda>i. List.member getAllAgentIds i \<and> \<not> List.member getPrimaryAgentIds i) (requested_agents a strategy)
     = requested_agents a strategy"
  by (simp add: requested_agents_def agent_ids primary_ids)

lemma requested_cases:
  "requested_agents a strategy = [''security-auditor'', ''reviewer'']
   \<or> requested_agents a strategy = [''backend-coder'', ''frontend-coder'', ''tester'']
   \<or> requested_agents a strategy = [''researcher'', ''mapper''] \<or> requested_agents a strategy = []"
  by (simp add: requested_agents_def)

lemma requested_distinct: "distinct (requested_agents a strategy)"
  using requested_cases [of a strategy] by auto

lemma first_task_types:
  "hd (ca_allowedTaskTypes agent_security_auditor) = ''security-audit''" "ca_allowedTaskTypes agent_security_auditor \<noteq> []"
  "hd (ca_allowedTaskTypes agent_reviewer) = ''review''" "ca_allowedTaskTypes agent_reviewer \<noteq> []"
  "hd (ca_allowedTaskTypes agent_backend_coder) = ''implementation''" "ca_allowedTaskTypes agent_backend_coder \<noteq> []"
  "hd (ca_allowedTaskTypes agent_frontend_coder) = ''implementation''" "ca_allowedTaskTypes agent_frontend_coder \<noteq> []"
  "hd (ca_allowedTaskTypes agent_tester) = ''testing''" "ca_allowedTaskTypes agent_tester \<noteq> []"
  "hd (ca_allowedTaskTypes agent_researcher) = ''research''" "ca_allowedTaskTypes agent_researcher \<noteq> []"
  "hd (ca_allowedTaskTypes agent_mapper) = ''mapping''" "ca_allowedTaskTypes agent_mapper \<noteq> []"
  unfolding agent_security_auditor_def agent_reviewer_def agent_backend_coder_def agent_frontend_coder_def
    agent_tester_def agent_researcher_def agent_mapper_def by simp_all

definition capable :: "string \<Rightarrow> bool" where
  "capable i \<longleftrightarrow> (\<exists>e. getCanonicalAgent i = Some e \<and> ca_allowedTaskTypes e \<noteq> [] \<and> hd (ca_allowedTaskTypes e) \<noteq> [])"

lemma capable_agents:
  "capable ''security-auditor''" "capable ''reviewer''" "capable ''backend-coder''" "capable ''frontend-coder''"
  "capable ''tester''" "capable ''researcher''" "capable ''mapper''"
  unfolding capable_def by (simp_all add: first_task_types)

lemma requested_capable:
  assumes "i \<in> set (requested_agents a strategy)"
  shows "i \<in> set getSubagentIds" and "capable i"
proof -
  consider "i = ''security-auditor''" | "i = ''reviewer''" | "i = ''backend-coder''" | "i = ''frontend-coder''"
    | "i = ''tester''" | "i = ''researcher''" | "i = ''mapper''"
    using assms requested_cases [of a strategy] by auto
  then show "capable i" by cases (simp_all only: capable_agents)
  have "set (requested_agents a strategy) \<subseteq> set getSubagentIds"
    using requested_cases [of a strategy] by (auto simp: getSubagentIds_def CANONICAL_AGENTS_def)
  then show "i \<in> set getSubagentIds" using assms by blast
qed

lemma recommended_iff:
  "r \<in> set (recommend_specialists a strategy input) \<longleftrightarrow>
     (\<exists>k < length (requested_agents a strategy).
        r = recommend input (length (requested_agents a strategy)) (k, requested_agents a strategy ! k)
        \<and> dlg_ownership r \<noteq> [])"
  unfolding recommend_specialists_def Let_def requested_known
  by (force simp: in_set_enumerate_eq)

text \<open>The agents of the recommendations, in order, are some of the requested ones.\<close>

lemma recommended_agents:
  "distinct (map dlg_agentId (recommend_specialists a strategy input))"
proof -
  let ?q = "requested_agents a strategy"
  have "map dlg_agentId (map (recommend input (length ?q)) (enumerate 0 ?q)) = ?q"
    by (simp add: recommend_def comp_def)
  then have "distinct (map dlg_agentId (map (recommend input (length ?q)) (enumerate 0 ?q)))"
    using requested_distinct by simp
  then show ?thesis unfolding recommend_specialists_def Let_def requested_known by (rule distinct_map_filter)
qed

lemma recommended_schema:
  assumes "[] \<notin> set (unique_paths input)" and "r \<in> set (recommend_specialists a strategy input)"
  shows "delegation_schema r"
proof -
  obtain k where k: "k < length (requested_agents a strategy)"
    "r = recommend input (length (requested_agents a strategy)) (k, requested_agents a strategy ! k)" "dlg_ownership r \<noteq> []"
    using assms(2) by (auto simp: recommended_iff)
  obtain e where e: "getCanonicalAgent (requested_agents a strategy ! k) = Some e" "ca_allowedTaskTypes e \<noteq> []"
    "hd (ca_allowedTaskTypes e) \<noteq> []"
    using requested_capable(2) [OF nth_mem [OF k(1)]] by (auto simp: capable_def)
  have "requested_agents a strategy ! k \<in> set getSubagentIds" by (rule requested_capable(1) [OF nth_mem [OF k(1)]])
  then have "requested_agents a strategy ! k \<noteq> []" by (auto simp: getSubagentIds_def CANONICAL_AGENTS_def)
  moreover have "list_all (\<lambda>p. p \<noteq> []) (dlg_ownership r)"
    using assms(1) k(2) every_nth_subset [of "length (requested_agents a strategy)" k "unique_paths input"]
    by (auto simp: recommend_def list_all_iff)
  ultimately show ?thesis using k e by (auto simp: delegation_schema_def recommend_def split: list.split)
qed

section \<open>Success\<close>

lemma unique_paths_simps:
  "set (unique_paths input) = set (nullish (tin_paths input) [])" "distinct (unique_paths input)"
  by (simp_all add: unique_paths_def)

lemma routed_streams_schema:
  "list_all routed_workstream_schema (routed_workstreams input) \<longleftrightarrow> [] \<notin> set (nullish (tin_paths input) [])"
proof -
  have "list_all routed_workstream_schema (numbered n ps) \<longleftrightarrow> [] \<notin> set ps" for n ps
    by (induction ps arbitrary: n) (auto simp: routed_workstream_schema_def)
  then show ?thesis by (simp add: routed_numbered unique_paths_simps)
qed

lemma choice_rationale: "\<exists>r. stc_rationale (chooseStrategy a) = [r] \<and> r \<noteq> []"
  by (simp add: chooseStrategy_def)

lemma routed_schema:
  assumes "dt epoch_text" and "assessment_schema dt a" and "tin_runId input \<noteq> []"
  shows "decision_schema dt (routed_decision sha collate input a)
           \<longleftrightarrow> schema_sha (tin_sourceSha input) \<and> [] \<notin> set (nullish (tin_paths input) [])"
proof -
  obtain r where r: "stc_rationale (chooseStrategy a) = [r]" "r \<noteq> []" using choice_rationale by blast
  have d: "list_all delegation_schema (recommend_specialists a (stc_strategy (chooseStrategy a)) input)"
    if "[] \<notin> set (nullish (tin_paths input) [])"
    using recommended_schema that by (simp add: list_all_iff unique_paths_simps)
  show ?thesis
    using assms r d routed_streams_schema [of input]
    by (auto simp: decision_schema_def routed_decision_def Let_def ROUTING_POLICY_VERSION_def)
qed

text \<open>What a decision consists of when the routing succeeds.\<close>

lemma routed_parts:
  assumes "dt epoch_text" and "routeTask sha collate dt input = Inr d"
  obtains a where "assessTask sha collate dt input = Inr a" "d = routed_decision sha collate input a"
    "no_clash [] (unique_paths input)" "schema_sha (tin_sourceSha input)" "[] \<notin> set (nullish (tin_paths input) [])"
    "tin_runId input \<noteq> []"
proof -
  obtain a where a: "assessTask sha collate dt input = Inr a"
    using assms(2) by (cases "assessTask sha collate dt input") (simp_all add: routeTask_def)
  note f = assessed(3) [of dt, OF assms(1) a]
  have v: "no_clash [] (unique_paths input)"
    using assms(2) a by (auto simp: routeTask_def validate_routed split: if_splits)
  have s: "decision_schema dt (routed_decision sha collate input a)" "d = routed_decision sha collate input a"
    using assms(2) a v by (auto simp: routeTask_def validate_routed Let_def split: if_splits)
  show thesis
    using that [OF a s(2) v] s(1) routed_schema [of dt a input sha collate] assms(1) f by blast
qed

lemma routing_total:
  assumes "dt epoch_text"
  shows "(\<exists>d. routeTask sha collate dt input = Inr d) \<longleftrightarrow>
     tin_runId input \<noteq> [] \<and> schema_sha (tin_sourceSha input) \<and> [] \<notin> set (nullish (tin_paths input) [])
     \<and> (\<forall>p \<in> set (nullish (tin_paths input) []). \<forall>q \<in> set (nullish (tin_paths input) []). p \<noteq> q \<longrightarrow> \<not> paths_clash p q)"
    (is "?l \<longleftrightarrow> ?r")
proof -
  have clash: "no_clash [] (unique_paths input) \<longleftrightarrow>
      (\<forall>p \<in> set (nullish (tin_paths input) []). \<forall>q \<in> set (nullish (tin_paths input) []). p \<noteq> q \<longrightarrow> \<not> paths_clash p q)"
    using no_clash_pairs [OF unique_paths_simps(2)] by (simp add: unique_paths_simps(1))
  show ?thesis
  proof
    assume ?l
    then obtain d where "routeTask sha collate dt input = Inr d" ..
    from routed_parts [OF assms this] show ?r unfolding clash [symmetric] by blast
  next
    assume r: ?r
    then obtain a where a: "assessTask sha collate dt input = Inr a" using assessed(1) [of dt, OF assms] by blast
    have "decision_schema dt (routed_decision sha collate input a)"
      using routed_schema [of dt a input sha collate] assms assessed(3) [of dt, OF assms a] r by blast
    then show ?l using a r clash by (simp add: routeTask_def validate_routed Let_def)
  qed
qed

section \<open>Review of sensitive tasks\<close>

definition security_words :: "string list" where
  "security_words = [''security'', ''auth'', ''authorization'', ''secret'', ''cryptography'', ''payment'']"

text \<open>C33. A task with a security word, or with a risk of at least 75 otherwise, is routed to the security review
  with the budget of a deep audit, and no other task is.\<close>

theorem sensitive_task_reviewed:
  assumes "dt epoch_text" and "routeTask sha collate dt input = Inr d"
  shows "(rtd_strategy d = StratSecurityReview \<longleftrightarrow> 75 \<le> sco_score (asm_risk (rtd_assessment d)))
    \<and> (rtd_budgetRecommendation d = ProfileDeepAudit \<longleftrightarrow> 75 \<le> sco_score (asm_risk (rtd_assessment d)))
    \<and> (has (normalized input) security_words \<longrightarrow> 75 \<le> sco_score (asm_risk (rtd_assessment d)))"
proof -
  obtain a where a: "assessTask sha collate dt input = Inr a" "d = routed_decision sha collate input a"
    using routed_parts [OF assms] by blast
  note f = assessed(3) [of dt, OF assms(1) a(1)]
  have sec: "asm_taskClass a = SecurityTask \<Longrightarrow> 75 \<le> sco_score (asm_risk a)" using f by simp
  have "has (normalized input) security_words \<Longrightarrow> asm_taskClass a = SecurityTask"
    using f by (simp add: assess_class_def Let_def security_words_def)
  then show ?thesis using sec
    by (auto simp: a(2) routed_decision_def Let_def chooseStrategy_def recommended_budget_def)
qed

definition auth_input :: task_input where
  "auth_input = \<lparr>tin_runId = ''run'', tin_task = ''auth'', tin_paths = Some [''a'', ''b'', ''c''], tin_constraints = None,
     tin_repositorySignals = None, tin_sourceSha = replicate 40 CHR ''0'', tin_contractId = None\<rparr>"

lemma auth_words: "words ''auth'' = [''auth'']"
  by (simp add: words_def lower_case_def js_lower_def is_upper_def char_code_def token_char_def is_lower_def)

lemma has_mem: "s \<in> set signals \<Longrightarrow> s \<in> set all \<Longrightarrow> has all signals"
  by (auto simp: has_def list_ex_iff)

lemma auth_has: "has (normalized auth_input) security_words"
proof (rule has_mem [of "''auth''"])
  show "''auth'' \<in> set (normalized auth_input)"
    unfolding normalized_def set_sort by (simp add: auth_input_def auth_words)
qed (simp add: security_words_def)

lemma auth_class: "assess_class auth_input = SecurityTask"
  using auth_has by (simp add: assess_class_def Let_def security_words_def)

lemma auth_routed: "\<exists>d. routeTask sha collate (\<lambda>_. True) auth_input = Inr d"
  unfolding routing_total [of "\<lambda>_. True", OF TrueI]
  by (simp add: auth_input_def schema_sha_def is_digit_def char_code_def paths_clash_def starts_with_def list_all_iff)

theorem sensitive_task_reviewed_witness:
  "\<exists>d. routeTask id (\<le>) (\<lambda>_. True) auth_input = Inr d \<and> rtd_strategy d = StratSecurityReview
     \<and> rtd_budgetRecommendation d = ProfileDeepAudit"
proof -
  obtain d where d: "routeTask id (\<le>) (\<lambda>_. True) auth_input = Inr d" using auth_routed by blast
  show ?thesis using auth_has d sensitive_task_reviewed [OF _ d] by auto
qed

section \<open>Shares of the paths\<close>

lemma routed_decision_simps [simp]:
  "rtd_delegations (routed_decision sha collate input a)
     = recommend_specialists a (stc_strategy (chooseStrategy a)) input"
  "rtd_workstreams (routed_decision sha collate input a) = routed_workstreams input"
  by (simp_all add: routed_decision_def Let_def)

lemma shares_disjoint:
  assumes "r \<in> set (recommend_specialists a strategy input)" and "r' \<in> set (recommend_specialists a strategy input)"
    and "p \<in> set (dlg_ownership r)" and "p \<in> set (dlg_ownership r')" and "unique_paths input \<noteq> []"
  shows "r = r'"
proof -
  let ?n = "length (requested_agents a strategy)"
  obtain k where k: "k < ?n" "r = recommend input ?n (k, requested_agents a strategy ! k)"
    using assms(1) by (auto simp: recommended_iff)
  obtain l where l: "l < ?n" "r' = recommend input ?n (l, requested_agents a strategy ! l)"
    using assms(2) by (auto simp: recommended_iff)
  obtain i where i: "i < length (unique_paths input)" "i mod ?n = k" "unique_paths input ! i = p"
    using assms(3,5) k(2) by (auto simp: recommend_def every_nth_iff)
  obtain j where j: "j < length (unique_paths input)" "j mod ?n = l" "unique_paths input ! j = p"
    using assms(4,5) l(2) by (auto simp: recommend_def every_nth_iff)
  have "i = j" using i j nth_eq_iff_index_eq [OF unique_paths_simps(2)] by blast
  then show ?thesis using i(2) j(2) k(2) l(2) by simp
qed

lemma shares_cover:
  assumes "recommend_specialists a strategy input \<noteq> []" and "p \<in> set (unique_paths input)"
  shows "\<exists>r \<in> set (recommend_specialists a strategy input). p \<in> set (dlg_ownership r)"
proof -
  let ?q = "requested_agents a strategy"
  obtain r where "r \<in> set (recommend_specialists a strategy input)" using assms(1) by (cases "recommend_specialists a strategy input") auto
  then have n: "0 < length ?q" by (auto simp: recommended_iff)
  obtain i where i: "i < length (unique_paths input)" "unique_paths input ! i = p" using assms(2) by (auto simp: in_set_conv_nth)
  define k where "k = i mod length ?q"
  have k: "k < length ?q" using n by (simp add: k_def)
  have own: "p \<in> set (dlg_ownership (recommend input (length ?q) (k, ?q ! k)))"
    using i assms(2) k_def by (auto simp: recommend_def every_nth_iff)
  then have "dlg_ownership (recommend input (length ?q) (k, ?q ! k)) \<noteq> []" by auto
  then have "recommend input (length ?q) (k, ?q ! k) \<in> set (recommend_specialists a strategy input)"
    using k by (auto simp: recommended_iff)
  then show ?thesis using own by blast
qed

lemma share_of_paths:
  "r \<in> set (recommend_specialists a strategy input) \<Longrightarrow> unique_paths input \<noteq> [] \<Longrightarrow>
     set (dlg_ownership r) \<subseteq> set (unique_paths input) \<and> distinct (dlg_ownership r)"
  using every_nth_subset by (fastforce simp: recommended_iff recommend_def intro: distinct_every_nth unique_paths_simps)

text \<open>C31. The delegations of a decision go to different subagents, none of which may delegate, and share out the
  paths of the task: each path is in exactly one of them.\<close>

theorem delegations_share_paths:
  assumes "dt epoch_text" and "routeTask sha collate dt input = Inr d" and "rtd_delegations d \<noteq> []"
    and "nullish (tin_paths input) [] \<noteq> []"
  shows "distinct (map dlg_agentId (rtd_delegations d))
    \<and> (\<forall>r \<in> set (rtd_delegations d). dlg_agentId r \<in> set getSubagentIds \<and> \<not> canAgentDelegate (dlg_agentId r)
         \<and> dlg_ownership r \<noteq> [] \<and> set (dlg_ownership r) \<subseteq> set (nullish (tin_paths input) []))
    \<and> (\<forall>p \<in> set (nullish (tin_paths input) []). \<exists>!r. r \<in> set (rtd_delegations d) \<and> p \<in> set (dlg_ownership r))"
proof (intro conjI ballI)
  obtain a where a: "d = routed_decision sha collate input a" using routed_parts [OF assms(1,2)] by blast
  let ?s = "stc_strategy (chooseStrategy a)"
  have paths: "unique_paths input \<noteq> []" using assms(4) unique_paths_simps(1) [of input] by (metis set_empty)
  show "distinct (map dlg_agentId (rtd_delegations d))" using recommended_agents by (simp add: a)
  { fix r assume r: "r \<in> set (rtd_delegations d)"
    then obtain k where k: "k < length (requested_agents a ?s)" "dlg_agentId r = requested_agents a ?s ! k" "dlg_ownership r \<noteq> []"
      by (auto simp: a recommended_iff recommend_def)
    show s: "dlg_agentId r \<in> set getSubagentIds" using requested_capable(1) [OF nth_mem [OF k(1)]] k(2) by simp
    then have "isSpecialistAgent (dlg_agentId r)" by (simp add: specialists_known)
    then show "\<not> canAgentDelegate (dlg_agentId r)"
      by (auto simp: isSpecialistAgent_def canAgentDelegate_def split: option.splits)
    show "dlg_ownership r \<noteq> []" by (rule k(3))
    show "set (dlg_ownership r) \<subseteq> set (nullish (tin_paths input) [])"
      using share_of_paths [of r a ?s input] r paths by (simp add: a unique_paths_simps) }
  fix p assume "p \<in> set (nullish (tin_paths input) [])"
  then have "p \<in> set (unique_paths input)" by (simp add: unique_paths_simps)
  then obtain r where "r \<in> set (rtd_delegations d)" "p \<in> set (dlg_ownership r)"
    using shares_cover [of a ?s input p] assms(3) by (auto simp: a)
  then show "\<exists>!r. r \<in> set (rtd_delegations d) \<and> p \<in> set (dlg_ownership r)"
    using shares_disjoint [of _ a ?s input _ p] paths by (auto simp: a)
qed

lemma auth_delegations:
  assumes "routeTask sha collate (\<lambda>_. True) auth_input = Inr d"
  shows "map dlg_agentId (rtd_delegations d) = [''security-auditor'', ''reviewer'']"
    and "map dlg_ownership (rtd_delegations d) = [[''a'', ''c''], [''b'']]"
proof -
  obtain a where a: "assessTask sha collate (\<lambda>_. True) auth_input = Inr a" "d = routed_decision sha collate auth_input a"
    using routed_parts [of "\<lambda>_. True", OF _ assms] by blast
  have "asm_taskClass a = SecurityTask" using assessed(3) [of "\<lambda>_. True", OF _ a(1)] auth_class by simp
  then have q: "requested_agents a s = [''security-auditor'', ''reviewer'']" for s by (simp add: requested_agents_def)
  have p: "unique_paths auth_input = [''a'', ''b'', ''c'']"
    by (simp add: unique_paths_def auth_input_def js_unique_def js_add_def)
  have "recommend_specialists a s auth_input
      = map (recommend auth_input 2) [(0, ''security-auditor''), (1, ''reviewer'')]" for s
    unfolding recommend_specialists_def Let_def requested_known unfolding q
    by (simp add: recommend_def p every_nth_def)
  then show "map dlg_agentId (rtd_delegations d) = [''security-auditor'', ''reviewer'']"
    "map dlg_ownership (rtd_delegations d) = [[''a'', ''c''], [''b'']]"
    by (simp_all add: a(2) recommend_def p every_nth_def)
qed

theorem delegations_share_paths_witness:
  "\<exists>d. routeTask id (\<le>) (\<lambda>_. True) auth_input = Inr d \<and> length (rtd_delegations d) = 2
     \<and> (\<exists>!r. r \<in> set (rtd_delegations d) \<and> ''c'' \<in> set (dlg_ownership r))"
proof -
  obtain d where d: "routeTask id (\<le>) (\<lambda>_. True) auth_input = Inr d" using auth_routed by blast
  have n: "length (rtd_delegations d) = 2" using arg_cong [OF auth_delegations(1) [OF d], of length] by simp
  then have "rtd_delegations d \<noteq> []" by auto
  then have "\<exists>!r. r \<in> set (rtd_delegations d) \<and> ''c'' \<in> set (dlg_ownership r)"
    using delegations_share_paths [OF _ d] by (simp add: auth_input_def)
  then show ?thesis using d n by blast
qed

section \<open>The delegations in the execution plan\<close>

lemma delegation_map_lookup:
  "map_of (delegation_map ds) p = List.find (\<lambda>d. dlg_ownership d \<noteq> [] \<and> hd (dlg_ownership d) = p) (rev ds)"
proof (induction ds rule: rev_induct)
  case (snoc d ds)
  then show ?case by (cases "dlg_ownership d") (auto simp: delegation_map_def update_conv')
qed (simp add: delegation_map_def)

text \<open>C32. In the execution plan only the first path of a delegation goes to its agent. The other paths of the
  delegation go back to the primary agent, because the plan looks a delegation up by its first path.\<close>

theorem later_paths_undelegated:
  assumes "dt epoch_text" and "routeTask sha collate dt input = Inr d" and "nullish (tin_paths input) [] \<noteq> []"
    and "r \<in> set (rtd_delegations d)" and "p \<in> set (dlg_ownership r)" and "wst_ownership w = [p]"
  shows "w_resolvedAgent (planned_workstream d w) = (if p = hd (dlg_ownership r) then dlg_agentId r else ''heidi'')"
proof -
  obtain a where a: "d = routed_decision sha collate input a" using routed_parts [OF assms(1,2)] by blast
  let ?s = "stc_strategy (chooseStrategy a)"
  have paths: "unique_paths input \<noteq> []" using assms(3) unique_paths_simps(1) [of input] by (metis set_empty)
  have only: "r' = r" if "r' \<in> set (rtd_delegations d)" "p \<in> set (dlg_ownership r')" for r'
    using shares_disjoint [of r' a ?s input r p] that assms(4,5) paths by (simp add: a)
  have "map_of (delegation_map (rtd_delegations d)) p = (if p = hd (dlg_ownership r) then Some r else None)"
  proof (cases "map_of (delegation_map (rtd_delegations d)) p")
    case None
    then have "\<not> (dlg_ownership r \<noteq> [] \<and> hd (dlg_ownership r) = p)"
      using assms(4) unfolding delegation_map_lookup find_None_iff by simp
    then show ?thesis using None assms(5) by auto
  next
    case (Some r')
    then have r': "r' \<in> set (rtd_delegations d)" "dlg_ownership r' \<noteq> []" "hd (dlg_ownership r') = p"
      unfolding delegation_map_lookup by (auto dest: find_SomeD)
    then have "p \<in> set (dlg_ownership r')" by (metis hd_in_set)
    then have "r' = r" using only r'(1) by blast
    then show ?thesis using Some r'(3) by simp
  qed
  then show ?thesis using assms(6)
    by (simp add: planned_workstream_def Let_def resolve_delegation_def)
qed

theorem later_paths_undelegated_witness:
  "\<exists>d. routeTask id (\<le>) (\<lambda>_. True) auth_input = Inr d \<and> rtd_strategy d = StratSecurityReview
     \<and> (\<exists>r \<in> set (rtd_delegations d). dlg_agentId r = ''security-auditor'' \<and> ''c'' \<in> set (dlg_ownership r)
          \<and> w_resolvedAgent (planned_workstream d (direct_workstream\<lparr>wst_ownership := [''c'']\<rparr>)) = ''heidi'')"
proof -
  obtain d where d: "routeTask id (\<le>) (\<lambda>_. True) auth_input = Inr d" using auth_routed by blast
  obtain a where a: "assessTask id (\<le>) (\<lambda>_. True) auth_input = Inr a" "d = routed_decision id (\<le>) auth_input a"
    using routed_parts [of "\<lambda>_. True", OF _ d] by blast
  have s: "rtd_strategy d = StratSecurityReview"
    using assessed(3) [of "\<lambda>_. True", OF _ a(1)] auth_class by (simp add: a(2) routed_decision_def Let_def chooseStrategy_def)
  obtain r rs where ds: "rtd_delegations d = r # rs" using auth_delegations(1) [OF d] by (cases "rtd_delegations d") auto
  then have r: "dlg_agentId r = ''security-auditor''" "dlg_ownership r = [''a'', ''c'']" "r \<in> set (rtd_delegations d)"
    using auth_delegations [OF d] by auto
  have "w_resolvedAgent (planned_workstream d (direct_workstream\<lparr>wst_ownership := [''c'']\<rparr>)) = ''heidi''"
    using later_paths_undelegated [OF _ d _ r(3), of "''c''"] r(2) by (simp add: auth_input_def)
  then show ?thesis using d s r by auto
qed

section \<open>Success of the routing\<close>

text \<open>C34. A task is routed exactly when it names its run and a commit, no path is empty and no path is another one or lies
  below another one; nothing else makes the routing fail.\<close>

theorem routing_succeeds:
  assumes "dt epoch_text"
  shows "(\<exists>d. routeTask sha collate dt input = Inr d) \<longleftrightarrow>
     tin_runId input \<noteq> [] \<and> schema_sha (tin_sourceSha input) \<and> [] \<notin> set (nullish (tin_paths input) [])
     \<and> (\<forall>p \<in> set (nullish (tin_paths input) []). \<forall>q \<in> set (nullish (tin_paths input) []). p \<noteq> q \<longrightarrow> \<not> paths_clash p q)"
  by (rule routing_total) (rule assms)

theorem routing_succeeds_witness:
  "\<not> (\<exists>d. routeTask id (\<le>) (\<lambda>_. True) (auth_input\<lparr>tin_paths := Some [''src/a'', ''src'']\<rparr>) = Inr d)"
  unfolding routing_succeeds [of "\<lambda>_. True", OF TrueI]
  by (simp add: auth_input_def paths_clash_def starts_with_def)

section \<open>Signals inside words\<close>

text \<open>A signal is found inside a word: a task that mentions an author is a security task.\<close>

lemma has_inside: "s \<in> set signals \<Longrightarrow> x \<in> set all \<Longrightarrow> str_includes x s \<Longrightarrow> has all signals"
  by (auto simp: has_def list_ex_iff)

lemma author_is_security:
  assumes "tin_task input = ''rename author''"
  shows "assess_class input = SecurityTask"
proof -
  have "words ''rename author'' = [''rename'', ''author'']"
    by (simp add: words_def lower_case_def js_lower_def is_upper_def char_code_def token_char_def is_lower_def is_digit_def)
  then have "''author'' \<in> set (normalized input)"
    unfolding normalized_def set_sort using assms by simp
  moreover have "''auth'' \<in> set security_words" by (simp add: security_words_def)
  moreover have "str_includes ''author'' ''auth''" by (simp add: starts_with_def)
  ultimately have "has (normalized input) security_words" by (metis has_inside)
  then show ?thesis by (simp add: assess_class_def Let_def security_words_def)
qed

end
