(* ===== verification/Spec2Isabelle.thy ===== *)
theory Spec2Isabelle
  imports Context_Items Worktree_Leases Event_Store Engine_Laws Completion Continuation Budget_Laws
    Execution_Leases Execution_Save Integration_Laws Worktree_Names Bindings
    Outbox_Repository Child_Faults Routing_Laws Task_Laws
begin

text \<open>
  Verification of the orchestration runtime of FlowDeck.

  \<^bold>\<open>The program.\<close> FlowDeck runs coding agents. A request becomes a \<^emph>\<open>run\<close>: a row of a SQLite database that moves
  through phases (received, contracting, planning, executing, verifying, recovering, completed and others). Services in
  \<open>src/src/orchestration\<close> decide what a run may do next, and every decision rests on durable rows, because the process
  may end at any time and several processes share the database. An older domain in
  \<open>src/src/domain/orchestration/runtime\<close> models the same notions in memory. This library translates both, and the
  token budget and the routers of \<open>src/src/services\<close>, and proves what they guarantee and where they do not do what
  they say.

  \<^bold>\<open>How the parts interact.\<close> The run service creates a run with its event and outbox row in one transaction. The
  transition engine moves its phase, under a compare-and-swap on phase and version, and decides over the attempts of
  its work items, from a snapshot of the tables and a fingerprint of that snapshot. Progress observation tells the
  engine whether a run stalls. The completion policy alone may complete a run; the continuation policy decides whether
  the agent takes another turn and hands each continuation token out once. Plans of parallel workstreams are analysed,
  saved, dispatched in waves, executed in worktrees under leases and integrated with git; bindings give each workstream
  an assignment. The outbox worker publishes the outbox rows under leases. All of these share tables, so properties
  about one component are stated through arbitrary sequences of the operations of the others where the code lets them
  interleave.

  \<^bold>\<open>The theories.\<close> Names of definitions are those of the source where the logic allows it; a record's fields have a
  short prefix of their own.

  \<^item> \<open>Prelude\<close>: JavaScript values, maps, sets and strings, SQL patterns, and the interfaces (locales) that several
    components provide: \<open>keyed_store\<close>, \<open>monotone_counter\<close>, \<open>optimistic_store\<close>, \<open>phase_machine\<close>, each interpreted on
    the model where the component is defined. \<open>table_order\<close>, \<open>scheduler_order\<close>, \<open>lease_order\<close> and \<open>store_order\<close>
    (\<open>Execution_Laws\<close>) and \<open>entry_order\<close> (\<open>Outbox_Laws\<close>) carry a reflexive and transitive relation between states from the primitive
    operations through every composed one; an invariant over all sequences of operations is one interpretation of them.
  \<^item> \<open>Runtime_Events\<close>, \<open>Task_Run\<close>, \<open>Assignments\<close>, \<open>Sessions\<close>, \<open>Context_Items\<close>, \<open>Worktree_Leases\<close>, \<open>Event_Store\<close>:
    the domain (\<open>domain/orchestration/runtime\<close>: \<open>task-run.ts\<close>, \<open>domain-service.ts\<close>, \<open>assignment.ts\<close>, \<open>session.ts\<close>,
    \<open>context-item.ts\<close>, \<open>worktree-leases.ts\<close>, \<open>event-store/in-memory-store.ts\<close>). Commands are applied exactly under the
    matrix and its guards; a stream is appended to in two steps, so it never has gaps but two calls may take one
    version; the store and the processor disagree on event types.
  \<^item> \<open>Phases\<close>, \<open>Tables\<close>, \<open>Ledger\<close>: the rows of the database and their repositories (\<open>types/runs.ts\<close>,
    \<open>persistence/repositories\<close>, \<open>sqlite-transactional-run-writer.ts\<close>, \<open>services/run-service.ts\<close>). A table is a list
    of rows in insertion order; a write that breaks a constraint of the schema is an error and changes nothing.
  \<^item> \<open>Attempts\<close>, \<open>Progress\<close>, \<open>Snapshot\<close>, \<open>Engine\<close>, \<open>Engine_Laws\<close>: the transition engine
    (\<open>services/transition-engine.ts\<close>), the progress service and the snapshot service. Terminal runs are kept, changes
    are legal, retries are bounded, progress is confirmed once, results for old states are refused. An evaluation that an error ends keeps the writes
    it has made.
  \<^item> \<open>Completion\<close>, \<open>Continuation\<close>: the two policies (\<open>services/completion-policy.ts\<close>,
    \<open>services/continuation-policy.ts\<close>). A completion is justified; a continuation is delivered at most once through
    every interleaving of dispatches, restarts and lost calls; the dispatcher in memory answers as the durable one
    does, but for two cases that the property names.
  \<^item> \<open>Budget\<close>, \<open>Budget_Laws\<close>: the token budget (\<open>services/token-budget-controller.ts\<close>, \<open>token-usage-store.ts\<close>). The
    counters are the sums of the live claims through every sequence of operations, and a restart restores them.
  \<^item> \<open>Workstreams\<close>, \<open>Dependencies\<close>, \<open>Ownership\<close>: plans and their analysis (\<open>execution/contracts.ts\<close>). The analysis
    accepts exactly the acyclic plans with disjoint claims, and its waves are the earliest schedule.
  \<^item> \<open>Execution\<close>, \<open>Execution_Laws\<close>, \<open>Execution_Leases\<close>, \<open>Execution_Schedule\<close>, \<open>Execution_Save\<close>, \<open>Execution_Waves\<close>:
    the repository and the scheduler (\<open>execution/sqlite-repository.ts\<close>, \<open>scheduler.ts\<close>). \<open>Integration\<close> and
    \<open>Integration_Laws\<close>: integration and the execution service (\<open>integration.ts\<close>, \<open>worktree-executor.ts\<close>).
    \<open>Worktree_Names\<close>: \<open>worktree-manager.ts\<close>. \<open>Bindings\<close>: the binding table and its coordinator.
  \<^item> \<open>Delivery\<close>, \<open>Outbox_Worker\<close>, \<open>Outbox_Laws\<close>, \<open>Outbox_Batches\<close>, \<open>Outbox_Faults\<close>, \<open>Outbox_Repository\<close>: the durable
    delivery of events (\<open>sqlite-delivery-sink.ts\<close>, \<open>outbox-worker.ts\<close>, \<open>sqlite-outbox-repository.ts\<close>,
    \<open>event-service.ts\<close>). Only published entries are delivered, waiting entries drain, and a live lease is exclusive up to the two faults its
    property names: a failure reported late, and workers of one name in one second.
  \<^item> \<open>Assignment_Service\<close>, \<open>Execution_Registry\<close>, \<open>Child_Lifecycle\<close>, \<open>Child_Laws\<close>, \<open>Child_Durability\<close>, \<open>Child_Writes\<close>,
    \<open>Child_Restart\<close>, \<open>Child_Faults\<close>: native children (\<open>services/child-execution-lifecycle-service.ts\<close>, \<open>execution-registry.ts\<close>,
    \<open>assignment-service.ts\<close>, \<open>persistence/repositories/session.ts\<close>). The records of children are shared objects, so
    they live in a store. Children follow their table; the row of a child is its record as of the last write that was
    taken, if registrations of one task call do not overlap; a native session belongs to one task call, if no binding
    is refused; a restart finds every child; a cancellation that is answered late bars the completion of its run.
  \<^item> \<open>Js_Regex\<close>, \<open>Canonical_Registry\<close>, \<open>Fast_Router\<close>, \<open>Graph_Walk\<close>, \<open>Specialist_Plans\<close>, \<open>Specialist_Laws\<close>,
    \<open>Routing_Laws\<close>: from a prompt to a plan of specialists (\<open>services/heidi-fast-router.ts\<close>,
    \<open>services/canonical-registry.ts\<close>, \<open>orchestration/routing/specialist-planner.ts\<close>). The patterns of the router are run by a
    backtracking matcher, related to the language of the expression. The depth-first search for cycles walks a graph
    exactly; every plan that is built passes its own validation, and some specialist is ready until all are settled.
    \<open>Code_Mode\<close>: the policy of code mode and its evaluation (\<open>heidi-code-mode-evaluator.ts\<close>).
  \<^item> \<open>Task_Intelligence\<close>, \<open>Task_Laws\<close>: the assessment of a task, its routing decision and the execution plan derived
    from it (\<open>orchestration/routing\<close>, \<open>execution/planner.ts\<close>). Routing succeeds exactly on well-formed input, sensitive
    work is reviewed, delegations share the paths of the task.
  This theory joins components: the transition processor and the event store.

  \<^bold>\<open>State, errors and steps.\<close> An operation takes the state and returns it changed. An exception is the left side of a
  sum; a transaction that throws leaves its tables as they were, while an operation of several transactions keeps what
  the earlier ones wrote. Where the code awaits between two accesses to shared state, the model cuts the operation into
  steps at that point, and the properties quantify over all orders of the steps of all callers. Two places are coarser.
  What follows a publication in the outbox worker is one step (\<open>deliver_record\<close>: the entry is settled and the delivery
  noted; \<open>fail_record\<close>: the refusal, the mark, the dead letter and the event about it), so a worker crashes before or
  after it and not within. \<open>runReady\<close> and \<open>executePlan\<close> are one operation whose executor answers for each workstream and
  does not touch the tables meanwhile: what is said of a pass is said of an undisturbed one, while
  the properties over sequences of operations of the repository (statuses, leases, integrations) have the single
  operations in any order.

  \<^bold>\<open>Parameters.\<close> What is not in the source is an argument of the definitions that use it: SHA-256 (\<open>sha\<close>), random
  ids, the clock, the order of rows that a query leaves open (\<open>sql_order\<close>), the datetime test and the collation of
  strings (\<open>dt\<close>, \<open>collate\<close>), JSON parsing and its messages (\<open>parse\<close>, \<open>decode\<close>, \<open>reads\<close>), what git and the file system
  answer (\<open>git_view\<close>, \<open>run_env\<close>), and what subscribers of the bus, native clients and injected executors answer
  (\<open>step_env\<close> and the answers given to single steps).

  \<^bold>\<open>Bounds.\<close> Recursion is structural or has a measure. Three loops have fuel: \<open>run_waves\<close> has the bound 100 of the
  code itself; \<open>finish_batch\<close> runs twice the number of claimed entries plus one step, which is two steps for each entry
  and one for the end; the coordinator of bindings takes three steps for each workstream, which is proved to be enough.
  Strings are lists of characters of one byte (Latin-1), which is what \<open>toLowerCase\<close> and the byte
  lengths are modelled for. JavaScript numbers that are counters or times are \<open>int\<close>; the code compares and adds them far below \<open>2^53\<close>.

  \<^bold>\<open>Not modelled.\<close> Warnings, metrics, traces and logging have no effect on the state and are left out of every
  operation. The prompts and definitions of agents, the browser, doctor, studio, MCP and HTTP parts, the FDX native
  daemon and its adapters, command line tools, hooks and scripts talk to external programs or carry data and no
  decision of the orchestration; the manifest lists them with the reasons. Of the routing parts, the adapter that parses
  a stored plan of specialists, the stores of decisions, the shadow comparison and the revision service are left out. Migrations appear as the constraints that the
  tables have after the last of them.
\<close>

section \<open>The transition processor and the event store\<close>

lemma emitted_type:
  assumes "applyTransition u k r c g = Inr (es, v)"
  obtains e es' where "es = e # es'" "ue_eventType e = ''TaskRunStateChanged''"
  using assms that by (auto simp: applyTransition_Inr createTransitionEvent_def)

lemma unknown_type:
  "validateEventType ''TaskRunStateChanged'' \<noteq> Valid"
  by (simp add: validateEventType_def knownEventTypes_def verdict_of_def)

text \<open>The in-memory store refuses what the transition processor emits: every append of the
  events of an applied command fails, and when the version is right and the first event is new it
  fails because the store does not know the type of that event.\<close>

theorem emitted_events_refused:
  assumes "applyTransition u k r c g = Inr (es, v)"
  shows "\<exists>err. append_events sha genId clk appendId aid es expected start s = Inl err
    \<and> (getAggregateVersion s aid = expected \<and> checkDuplicate s (hd es) = NotDuplicate
        \<longrightarrow> err = UnknownEventType ''TaskRunStateChanged'')"
proof -
  from assms obtain e es' where es: "es = e # es'" "ue_eventType e = ''TaskRunStateChanged''"
    by (rule emitted_type)
  show ?thesis
    using unknown_type
    by (auto simp: append_events_def append_check_def es validateAppend_def Let_def
        split: verdict.splits duplicate_check.splits)
qed

theorem emitted_events_refused_witness:
  "\<exists>es. applyTransition (\<lambda>_. ''u'') (\<lambda>_. 0) (blank_run ''run-1'' Planned)
          (bare_command ''StartPlanningCommand'') 0 = Inr (es, 1)
     \<and> append_events (\<lambda>_. []) (\<lambda>_. ''id'') (\<lambda>_. 0) ''a'' ''run-1'' es 0 1 empty_store
         = Inl (UnknownEventType ''TaskRunStateChanged'')"
proof -
  obtain es where es: "applyTransition (\<lambda>_. ''u'') (\<lambda>_. 0) (blank_run ''run-1'' Planned)
          (bare_command ''StartPlanningCommand'') 0 = Inr (es, 1)"
    by (simp add: applyTransition_def validateTransition_def getTargetState_def blank_run_def bare_command_def)
  have "checkDuplicate empty_store x = NotDuplicate" for x
    by (simp add: checkDuplicate_def empty_store_def)
  with emitted_events_refused [OF es, of "\<lambda>_. []" "\<lambda>_. ''id''" "\<lambda>_. 0" "''a''" "''run-1''" 0 1 empty_store] es
  show ?thesis by (auto simp: getAggregateVersion_def empty_store_def)
qed

end
